(* ===== verification/Dbrest_Prelude.thy ===== *)
theory Dbrest_Prelude
  imports Main "HOL-Library.Char_ord" "HOL-Library.List_Lexorder" "HOL-Library.Multiset"
begin

section \<open>Prelude: results, association lists, and the shared automation\<close>

text \<open>
  Shared vocabulary of the development. A Go function that returns a value and an error is a
  function into the sum type \<open>'e + 'a\<close> (\<open>Inl\<close> is the error), and the early return on an error
  is \<open>bindr\<close>; a loop that stops at the first error is \<open>mapr\<close>. A Go map is an association list
  with distinct keys: \<open>aget\<close> reads a key, \<open>aput\<close> writes one, \<open>adel\<close> deletes one. The list
  order stands for one order in which a Go \<open>range\<close> may visit the map.
\<close>

type_synonym go_string = string
type_synonym 'v go_map = "(string \<times> 'v) list"

named_theorems result_simps \<open>unfolding of results and early returns\<close>
named_theorems go_lib \<open>facts about the model of the Go standard library\<close>
named_theorems parse_errors \<open>every error of a parser is one of the parse codes\<close>


subsection \<open>Results\<close>

definition bindr :: "'e + 'a \<Rightarrow> ('a \<Rightarrow> 'e + 'b) \<Rightarrow> 'e + 'b" where
  "bindr m f = (case m of Inl e \<Rightarrow> Inl e | Inr x \<Rightarrow> f x)"

fun mapr :: "('a \<Rightarrow> 'e + 'b) \<Rightarrow> 'a list \<Rightarrow> 'e + 'b list" where
  "mapr f [] = Inr []"
| "mapr f (x # xs) = bindr (f x) (\<lambda>y. bindr (mapr f xs) (\<lambda>ys. Inr (y # ys)))"

fun foldr_res :: "('a \<Rightarrow> 's \<Rightarrow> 'e + 's) \<Rightarrow> 'a list \<Rightarrow> 's \<Rightarrow> 'e + 's" where
  "foldr_res f [] s = Inr s"
| "foldr_res f (x # xs) s = bindr (f x s) (foldr_res f xs)"

lemma bindr_simps [simp, result_simps]:
  "bindr (Inl e) f = Inl e"
  "bindr (Inr x) f = f x"
  by (simp_all add: bindr_def)

lemma bindr_Inr_conv [result_simps]: "bindr m f = Inr y \<longleftrightarrow> (\<exists>x. m = Inr x \<and> f x = Inr y)"
  by (cases m) auto

lemma bindr_Inl_conv [result_simps]:
  "bindr m f = Inl e \<longleftrightarrow> m = Inl e \<or> (\<exists>x. m = Inr x \<and> f x = Inl e)"
  by (cases m) auto

lemma bindr_cong [fundef_cong]:
  "m = m' \<Longrightarrow> (\<And>x. m' = Inr x \<Longrightarrow> f x = f' x) \<Longrightarrow> bindr m f = bindr m' f'"
  by (cases m') auto

lemma mapr_cong [fundef_cong]:
  "xs = ys \<Longrightarrow> (\<And>x. x \<in> set ys \<Longrightarrow> f x = g x) \<Longrightarrow> mapr f xs = mapr g ys"
  by (induction ys arbitrary: xs) auto

lemma foldr_res_cong [fundef_cong]:
  "xs = ys \<Longrightarrow> s = t \<Longrightarrow> (\<And>x u. x \<in> set ys \<Longrightarrow> f x u = g x u) \<Longrightarrow> foldr_res f xs s = foldr_res g ys t"
proof (induction ys arbitrary: xs s t)
  case (Cons y ys)
  then have "foldr_res f ys = foldr_res g ys" by (intro ext) simp
  with Cons.prems show ?case by simp
qed simp

lemma mapr_Inr_conv: "mapr f xs = Inr ys \<longleftrightarrow> list_all2 (\<lambda>x y. f x = Inr y) xs ys"
proof (induction xs arbitrary: ys)
  case (Cons x xs)
  then show ?case by (cases ys) (auto simp: bindr_Inr_conv)
qed auto

lemma mapr_InlD: "mapr f xs = Inl e \<Longrightarrow> \<exists>x \<in> set xs. f x = Inl e"
  by (induction xs) (auto simp: bindr_Inl_conv)

lemma mapr_InrD: "mapr f xs = Inr ys \<Longrightarrow> y \<in> set ys \<Longrightarrow> \<exists>x \<in> set xs. f x = Inr y"
  by (induction xs arbitrary: ys) (auto simp: bindr_Inr_conv)

lemma mapr_length: "mapr f xs = Inr ys \<Longrightarrow> length ys = length xs"
  by (auto simp: mapr_Inr_conv dest: list_all2_lengthD)

lemma mapr_all_Inr: "(\<And>x. x \<in> set xs \<Longrightarrow> f x = Inr (g x)) \<Longrightarrow> mapr f xs = Inr (map g xs)"
  by (induction xs) simp_all


subsection \<open>Go maps as association lists\<close>

definition aget :: "'v go_map \<Rightarrow> string \<Rightarrow> 'v option" where
  "aget m k = map_of m k"

fun aput :: "string \<Rightarrow> 'v \<Rightarrow> 'v go_map \<Rightarrow> 'v go_map" where
  "aput k v [] = [(k, v)]"
| "aput k v ((a, b) # m) = (if a = k then (k, v) # m else (a, b) # aput k v m)"

definition adel :: "string \<Rightarrow> 'v go_map \<Rightarrow> 'v go_map" where
  "adel k m = filter (\<lambda>p. fst p \<noteq> k) m"

abbreviation keys_of :: "'v go_map \<Rightarrow> string list" where
  "keys_of m \<equiv> map fst m"

definition wf_map :: "'v go_map \<Rightarrow> bool" where
  "wf_map m \<longleftrightarrow> distinct (keys_of m)"

lemma aget_Nil [simp]: "aget [] k = None"
  by (simp add: aget_def)

lemma aget_Cons [simp]: "aget ((a, b) # m) k = (if a = k then Some b else aget m k)"
  by (simp add: aget_def)

lemma aget_aput: "aget (aput k v m) k' = (if k = k' then Some v else aget m k')"
  by (induction m) auto

lemma set_keys_aput: "fst ` set (aput k v m) = insert k (fst ` set m)"
  by (induction k v m rule: aput.induct) (simp_all add: insert_commute)

lemma wf_map_Nil [simp]: "wf_map []"
  by (simp add: wf_map_def)

lemma wf_map_aput [simp]: "wf_map m \<Longrightarrow> wf_map (aput k v m)"
proof (induction m)
  case (Cons p m)
  obtain a b where p: "p = (a, b)" by fastforce
  from Cons show ?case by (auto simp: p wf_map_def set_keys_aput)
qed (simp add: wf_map_def)

lemma aget_adel: "aget (adel k m) k' = (if k = k' then None else aget m k')"
  by (induction m) (auto simp: adel_def)

lemma wf_map_adel [simp]: "wf_map m \<Longrightarrow> wf_map (adel k m)"
  by (simp add: wf_map_def adel_def distinct_map_filter)

lemma aget_None_iff: "aget m k = None \<longleftrightarrow> k \<notin> fst ` set m"
  by (simp add: aget_def map_of_eq_None_iff)

lemma aget_SomeD: "aget m k = Some v \<Longrightarrow> (k, v) \<in> set m"
  by (simp add: aget_def map_of_SomeD)

lemma aget_mem: "wf_map m \<Longrightarrow> (k, v) \<in> set m \<Longrightarrow> aget m k = Some v"
  by (simp add: aget_def wf_map_def)

text \<open>
  Two association lists that are permutations of one another represent the same Go map: every
  lookup agrees.
\<close>

lemma aget_perm: "wf_map m \<Longrightarrow> mset m = mset m' \<Longrightarrow> aget m = aget m'"
proof
  fix k
  assume wf: "wf_map m" and eq: "mset m = mset m'"
  have "distinct (map fst m')"
    using wf mset_eq_imp_distinct_iff [of "map fst m" "map fst m'"] eq
    by (simp add: wf_map_def)
  with wf show "aget m k = aget m' k"
    using mset_eq_setD [OF eq] map_of_inject_set [of m m'] by (simp add: aget_def wf_map_def)
qed

lemma wf_map_perm: "wf_map m \<Longrightarrow> mset m = mset m' \<Longrightarrow> wf_map m'"
  unfolding wf_map_def by (metis mset_eq_imp_distinct_iff mset_map)


subsection \<open>Lists\<close>

lemma set_butlast_subset: "set (butlast xs) \<subseteq> set xs"
  by (auto dest: in_set_butlastD)

lemma sorted_perm_unique:
  "mset xs = mset ys \<Longrightarrow> sorted xs \<Longrightarrow> sorted ys \<Longrightarrow> xs = (ys :: 'a :: linorder list)"
  by (metis properties_for_sort)

end
