(* ===== verification/Go_Strings.thy ===== *)
theory Go_Strings
  imports Dbrest_Prelude
begin

section \<open>The part of the Go standard library the parsers use\<close>

text \<open>
  A Go string is a sequence of bytes, so it is a \<open>char list\<close> (an Isabelle \<open>char\<close> is a byte).
  This theory models the functions of \<open>strings\<close>, \<open>strconv\<close> and \<open>net/url\<close> that the sources
  call: they belong to the language, so they have no entry in the map. Results of Go that are
  an index or -1 are \<open>nat option\<close>; a cut that reports whether it found the separator is
  an \<open>option\<close> of the two halves.
\<close>

abbreviation dquote :: char where "dquote \<equiv> CHR 0x22"
abbreviation bslash :: char where "bslash \<equiv> CHR 0x5C"

subsection \<open>Searching\<close>

text \<open>\<open>strings.IndexByte\<close>, \<open>strings.LastIndexByte\<close>, \<open>strings.Index\<close>, \<open>strings.LastIndex\<close>.\<close>

fun index_byte :: "string \<Rightarrow> char \<Rightarrow> nat option" where
  "index_byte [] c = None"
| "index_byte (x # s) c = (if x = c then Some 0 else map_option Suc (index_byte s c))"

fun last_index_byte :: "string \<Rightarrow> char \<Rightarrow> nat option" where
  "last_index_byte [] c = None"
| "last_index_byte (x # s) c =
     (case last_index_byte s c of
        Some i \<Rightarrow> Some (Suc i)
      | None \<Rightarrow> if x = c then Some 0 else None)"

definition has_prefix :: "string \<Rightarrow> string \<Rightarrow> bool" where
  "has_prefix s p \<longleftrightarrow> take (length p) s = p"

definition has_suffix :: "string \<Rightarrow> string \<Rightarrow> bool" where
  "has_suffix s p \<longleftrightarrow> length p \<le> length s \<and> drop (length s - length p) s = p"

definition trim_prefix :: "string \<Rightarrow> string \<Rightarrow> string" where
  "trim_prefix s p = (if has_prefix s p then drop (length p) s else s)"

fun index_str :: "string \<Rightarrow> string \<Rightarrow> nat option" where
  "index_str [] p = (if p = [] then Some 0 else None)"
| "index_str (x # s) p =
     (if has_prefix (x # s) p then Some 0 else map_option Suc (index_str s p))"

fun last_index_str :: "string \<Rightarrow> string \<Rightarrow> nat option" where
  "last_index_str [] p = (if p = [] then Some 0 else None)"
| "last_index_str (x # s) p =
     (case last_index_str s p of
        Some i \<Rightarrow> Some (Suc i)
      | None \<Rightarrow> if has_prefix (x # s) p then Some 0 else None)"

text \<open>\<open>strings.Cut\<close>: the halves around the first occurrence, \<open>None\<close> when there is none.\<close>

definition cut :: "string \<Rightarrow> string \<Rightarrow> (string \<times> string) option" where
  "cut s p = map_option (\<lambda>i. (take i s, drop (i + length p) s)) (index_str s p)"

text \<open>The last byte of a string, \<open>s[len(s)-1]\<close>; \<open>None\<close> where that expression would be out of range.\<close>

definition last_byte :: "string \<Rightarrow> char option" where
  "last_byte s = (if s = [] then None else Some (last s))"

definition first_byte :: "string \<Rightarrow> char option" where
  "first_byte s = (case s of [] \<Rightarrow> None | c # _ \<Rightarrow> Some c)"

text \<open>A slice \<open>s[i:j]\<close> of Go, for indices in range.\<close>

definition slice :: "string \<Rightarrow> nat \<Rightarrow> nat \<Rightarrow> string" where
  "slice s i j = drop i (take j s)"

text \<open>\<open>s[1:len(s)-1]\<close>: the text between a leading and a trailing delimiter.\<close>

definition strip_ends :: "string \<Rightarrow> string" where
  "strip_ends s = slice s 1 (length s - 1)"

text \<open>\<open>len(s) >= 2 && s[0] == a && s[len(s)-1] == b\<close>.\<close>

definition wrapped :: "char \<Rightarrow> char \<Rightarrow> string \<Rightarrow> bool" where
  "wrapped a b s \<longleftrightarrow> 2 \<le> length s \<and> first_byte s = Some a \<and> last_byte s = Some b"


subsection \<open>Splitting and replacing\<close>

text \<open>\<open>cons_hd\<close> prepends a byte to the piece that is being collected.\<close>

fun cons_hd :: "'a \<Rightarrow> 'a list list \<Rightarrow> 'a list list" where
  "cons_hd c [] = [[c]]"
| "cons_hd c (p # ps) = (c # p) # ps"

text \<open>\<open>strings.Split\<close> and \<open>strings.SplitSeq\<close> with a one-byte separator.\<close>

fun split_byte :: "char \<Rightarrow> string \<Rightarrow> string list" where
  "split_byte c [] = [[]]"
| "split_byte c (x # s) = (if x = c then [] # split_byte c s else cons_hd x (split_byte c s))"

text \<open>\<open>strings.Join\<close>.\<close>

fun join :: "string \<Rightarrow> string list \<Rightarrow> string" where
  "join sep [] = []"
| "join sep [p] = p"
| "join sep (p # q # ps) = p @ sep @ join sep (q # ps)"

text \<open>\<open>strings.ReplaceAll(s, "*", "%")\<close> and \<open>strings.ReplaceAll(s, `""`, `"`)\<close>.\<close>

definition star_to_percent :: "string \<Rightarrow> string" where
  "star_to_percent s = map (\<lambda>c. if c = CHR ''*'' then CHR ''%'' else c) s"

fun undouble_quotes :: "string \<Rightarrow> string" where
  "undouble_quotes (a # b # s) =
     (if a = dquote \<and> b = dquote then dquote # undouble_quotes s
      else a # undouble_quotes (b # s))"
| "undouble_quotes s = s"


subsection \<open>White space and case\<close>

text \<open>
  \<open>strings.TrimSpace\<close> removes the Unicode white space at both ends. \<open>lead_space\<close> is the number of
  bytes of a white-space rune at the front of its argument (0 for none): the six ASCII spaces,
  and the UTF-8 encodings of U+0085, U+00A0, U+1680, U+2000 to U+200A, U+2028, U+2029, U+202F,
  U+205F and U+3000. \<open>trail_space\<close> is the same at the end, read on the reversed string.
\<close>

definition ascii_space :: "char \<Rightarrow> bool" where
  "ascii_space c \<longleftrightarrow> c = CHR '' '' \<or> c = CHR 0x09 \<or> c = CHR 0x0A \<or> c = CHR 0x0B \<or> c = CHR 0x0C \<or> c = CHR 0x0D"

definition space2 :: "char \<Rightarrow> char \<Rightarrow> bool" where
  "space2 a b \<longleftrightarrow> a = CHR 0xC2 \<and> (b = CHR 0x85 \<or> b = CHR 0xA0)"

definition space3 :: "char \<Rightarrow> char \<Rightarrow> char \<Rightarrow> bool" where
  "space3 a b c \<longleftrightarrow>
     a = CHR 0xE1 \<and> b = CHR 0x9A \<and> c = CHR 0x80 \<or>
     a = CHR 0xE2 \<and> b = CHR 0x80 \<and>
       (CHR 0x80 \<le> c \<and> c \<le> CHR 0x8A \<or> c = CHR 0xA8 \<or> c = CHR 0xA9 \<or> c = CHR 0xAF) \<or>
     a = CHR 0xE2 \<and> b = CHR 0x81 \<and> c = CHR 0x9F \<or>
     a = CHR 0xE3 \<and> b = CHR 0x80 \<and> c = CHR 0x80"

definition lead_space :: "string \<Rightarrow> nat" where
  "lead_space s = (case s of
     [] \<Rightarrow> 0
   | [a] \<Rightarrow> if ascii_space a then 1 else 0
   | [a, b] \<Rightarrow> if ascii_space a then 1 else if space2 a b then 2 else 0
   | a # b # c # _ \<Rightarrow> if ascii_space a then 1 else if space2 a b then 2 else if space3 a b c then 3 else 0)"

definition trail_space :: "string \<Rightarrow> nat" where
  "trail_space r = (case r of
     [] \<Rightarrow> 0
   | [a] \<Rightarrow> if ascii_space a then 1 else 0
   | [a, b] \<Rightarrow> if ascii_space a then 1 else if space2 b a then 2 else 0
   | a # b # c # _ \<Rightarrow> if ascii_space a then 1 else if space2 b a then 2 else if space3 c b a then 3 else 0)"

fun drop_while_len :: "(string \<Rightarrow> nat) \<Rightarrow> string \<Rightarrow> string" where
  "drop_while_len f [] = []"
| "drop_while_len f (c # s) =
     (if f (c # s) = 0 then c # s else drop_while_len f (drop (f (c # s) - 1) s))"

definition trim_space :: "string \<Rightarrow> string" where
  "trim_space s = rev (drop_while_len trail_space (rev (drop_while_len lead_space s)))"

text \<open>
  \<open>strings.ToLower\<close>, as the sources use it: the result is only compared with ASCII literals. The
  ASCII letters are lowered; of the other code points only U+0130 and U+212A lower to ASCII
  (to i and k), and every other multi-byte sequence stays multi-byte, so it is kept as it is.
\<close>

definition lower_char :: "char \<Rightarrow> char" where
  "lower_char c = (if CHR ''A'' \<le> c \<and> c \<le> CHR ''Z'' then char_of (of_char c + 32 :: nat) else c)"

fun to_lower :: "string \<Rightarrow> string" where
  "to_lower [] = []"
| "to_lower (a # s) =
     (case s of
        b # t \<Rightarrow>
          if a = CHR 0xC4 \<and> b = CHR 0xB0 then CHR ''i'' # to_lower t
          else (case t of
                  c # u \<Rightarrow> if a = CHR 0xE2 \<and> b = CHR 0x84 \<and> c = CHR 0xAA then CHR ''k'' # to_lower u
                           else lower_char a # to_lower s
                | [] \<Rightarrow> lower_char a # to_lower s)
      | [] \<Rightarrow> [lower_char a])"


text \<open>
  \<open>strings.EqualFold\<close> with a lower-case ASCII word that has neither k nor s, whose letters have no
  case variant outside ASCII.
\<close>

definition equal_fold :: "string \<Rightarrow> string \<Rightarrow> bool" where
  "equal_fold s w \<longleftrightarrow> to_lower s = w"


subsection \<open>Numbers\<close>

text \<open>
  \<open>strconv.ParseInt(s, 10, 64)\<close>, and \<open>strconv.Atoi\<close> on a 64-bit platform: an optional sign, at
  least one digit, nothing else, and a value in the range of int64; \<open>None\<close> is the error.
\<close>

definition is_digit :: "char \<Rightarrow> bool" where
  "is_digit c \<longleftrightarrow> CHR ''0'' \<le> c \<and> c \<le> CHR ''9''"

definition digit_val :: "char \<Rightarrow> int" where
  "digit_val c = of_char c - 48"

fun digits_val :: "int \<Rightarrow> string \<Rightarrow> int option" where
  "digits_val n [] = Some n"
| "digits_val n (c # s) = (if is_digit c then digits_val (10 * n + digit_val c) s else None)"

definition parse_uint :: "string \<Rightarrow> int option" where
  "parse_uint s = (if s = [] then None else digits_val 0 s)"

definition int64_max :: int where "int64_max = 9223372036854775807"
definition int64_min :: int where "int64_min = -9223372036854775808"

definition in_int64 :: "int \<Rightarrow> int option" where
  "in_int64 n = (if int64_min \<le> n \<and> n \<le> int64_max then Some n else None)"

definition parse_int64 :: "string \<Rightarrow> int option" where
  "parse_int64 s = (case s of
     [] \<Rightarrow> None
   | c # t \<Rightarrow>
       if c = CHR ''+'' then Option.bind (parse_uint t) in_int64
       else if c = CHR ''-'' then Option.bind (parse_uint t) (\<lambda>n. in_int64 (- n))
       else Option.bind (parse_uint s) in_int64)"


subsection \<open>Query strings\<close>

text \<open>
  \<open>url.Values\<close> is a map from a key to its values in the order they appear. \<open>vals_get\<close> is
  \<open>Get\<close>: the first value, or the empty string. \<open>parse_query\<close> is \<open>url.ParseQuery\<close>: a semicolon
  or a bad percent escape anywhere makes the whole call fail (\<open>None\<close>).
\<close>

type_synonym url_values = "string list go_map"

definition vals_has :: "url_values \<Rightarrow> string \<Rightarrow> bool" where
  "vals_has vs k \<longleftrightarrow> aget vs k \<noteq> None"

definition vals_get :: "url_values \<Rightarrow> string \<Rightarrow> string" where
  "vals_get vs k = (case aget vs k of Some (v # _) \<Rightarrow> v | _ \<Rightarrow> [])"

definition unhex :: "char \<Rightarrow> nat option" where
  "unhex c =
     (if CHR ''0'' \<le> c \<and> c \<le> CHR ''9'' then Some (of_char c - 48)
      else if CHR ''a'' \<le> c \<and> c \<le> CHR ''f'' then Some (of_char c - 87)
      else if CHR ''A'' \<le> c \<and> c \<le> CHR ''F'' then Some (of_char c - 55)
      else None)"

fun query_unescape :: "string \<Rightarrow> string option" where
  "query_unescape [] = Some []"
| "query_unescape (c # s) =
     (if c = CHR ''%'' then
        (case s of
           a # b # t \<Rightarrow>
             (case (unhex a, unhex b) of
                (Some h, Some l) \<Rightarrow> map_option (\<lambda>r. char_of (16 * h + l) # r) (query_unescape t)
              | _ \<Rightarrow> None)
         | _ \<Rightarrow> None)
      else map_option (\<lambda>r. (if c = CHR ''+'' then CHR '' '' else c) # r) (query_unescape s))"

definition vals_add :: "string \<Rightarrow> string \<Rightarrow> url_values \<Rightarrow> url_values" where
  "vals_add k v vs = aput k ((case aget vs k of None \<Rightarrow> [] | Some l \<Rightarrow> l) @ [v]) vs"

fun parse_segments :: "string list \<Rightarrow> url_values \<Rightarrow> url_values option" where
  "parse_segments [] vs = Some vs"
| "parse_segments (seg # segs) vs =
     (if CHR '';'' \<in> set seg then None
      else if seg = [] then parse_segments segs vs
      else
        let (k, v) = (case cut seg ''='' of None \<Rightarrow> (seg, []) | Some kv \<Rightarrow> kv) in
        case (query_unescape k, query_unescape v) of
          (Some k', Some v') \<Rightarrow> parse_segments segs (vals_add k' v' vs)
        | _ \<Rightarrow> None)"

definition parse_query :: "string \<Rightarrow> url_values option" where
  "parse_query s = parse_segments (split_byte CHR ''&'' s) []"


section \<open>Facts about the library\<close>

subsection \<open>Splitting\<close>

text \<open>
  What every splitter of the sources promises: the pieces, joined again with the separator, are
  the string. The lemmas of the locale are what the parsers rely on: a piece is never longer
  than the string (their recursion ends) and holds no byte the string does not hold.
\<close>

locale splitter =
  fixes split :: "string \<Rightarrow> string list"
    and sep :: string
  assumes join_split: "join sep (split s) = s"
    and split_nonempty: "split s \<noteq> []"
begin

lemma join_length: "p \<in> set ps \<Longrightarrow> length p \<le> length (join sep ps)"
  by (induction sep ps rule: join.induct) auto

lemma join_set: "p \<in> set ps \<Longrightarrow> set p \<subseteq> set (join sep ps)"
  by (induction sep ps rule: join.induct) auto

lemma piece_length: "p \<in> set (split s) \<Longrightarrow> length p \<le> length s"
  using join_length [of p "split s"] by (simp add: join_split)

lemma piece_set: "p \<in> set (split s) \<Longrightarrow> set p \<subseteq> set s"
  using join_set [of p "split s"] by (simp add: join_split)

lemma split_inj: "split s = split t \<Longrightarrow> s = t"
  by (metis join_split)

end

lemma cons_hd_nonempty [simp]: "cons_hd c ps \<noteq> []"
  by (cases ps) auto

lemma join_cons_hd [simp]: "ps \<noteq> [] \<Longrightarrow> join sep (cons_hd c ps) = c # join sep ps"
  by (cases ps; cases "tl ps") auto

lemma join_Nil_Cons [simp]: "ps \<noteq> [] \<Longrightarrow> join sep ([] # ps) = sep @ join sep ps"
  by (cases ps) auto

lemma split_byte_nonempty [simp]: "split_byte c s \<noteq> []"
  by (cases s) auto

interpretation sb: splitter "split_byte c" "[c]" for c
proof unfold_locales
  show "join [c] (split_byte c s) = s" for s
    by (induction s) auto
  show "split_byte c s \<noteq> []" for s by simp
qed

lemma split_byte_free: "p \<in> set (split_byte c s) \<Longrightarrow> c \<notin> set p"
proof (induction s arbitrary: p)
  case (Cons x s)
  then show ?case by (cases "split_byte c s") (auto split: if_splits)
qed simp

lemma split_byte_append_sep: "c \<notin> set p \<Longrightarrow> split_byte c (p @ c # s) = p # split_byte c s"
  by (induction p) auto

lemma split_byte_id: "c \<notin> set p \<Longrightarrow> split_byte c p = [p]"
  by (induction p) auto

lemma split_byte_join:
  "ps \<noteq> [] \<Longrightarrow> \<forall>p \<in> set ps. c \<notin> set p \<Longrightarrow> split_byte c (join [c] ps) = ps"
  by (induction "[c]" ps rule: join.induct) (auto simp: split_byte_append_sep split_byte_id)


subsection \<open>Trimming\<close>

lemma drop_while_len_suffix: "\<exists>us. s = us @ drop_while_len f s"
proof (induction f s rule: drop_while_len.induct)
  case (2 f c s)
  show ?case
  proof (cases "f (c # s) = 0")
    case False
    then obtain us where "drop (f (c # s) - 1) s = us @ drop_while_len f (drop (f (c # s) - 1) s)"
      using 2 by blast
    then have "c # s = (c # take (f (c # s) - 1) s @ us) @ drop_while_len f (c # s)"
      using False by simp
    then show ?thesis by blast
  qed simp
qed simp

lemma trim_space_infix: "\<exists>us vs. s = us @ trim_space s @ vs"
proof -
  obtain us where us: "s = us @ drop_while_len lead_space s"
    using drop_while_len_suffix by blast
  obtain vs where "rev (drop_while_len lead_space s) = vs @ drop_while_len trail_space (rev (drop_while_len lead_space s))"
    using drop_while_len_suffix by blast
  then have "drop_while_len lead_space s = trim_space s @ rev vs"
    unfolding trim_space_def by (metis rev_append rev_rev_ident)
  with us show ?thesis by (metis append.assoc)
qed

lemma trim_space_length: "length (trim_space s) \<le> length s"
proof -
  obtain us vs where "s = us @ trim_space s @ vs" using trim_space_infix by blast
  then have "length s = length us + (length (trim_space s) + length vs)"
    by (metis length_append)
  then show ?thesis by simp
qed

lemma trim_space_set: "set (trim_space s) \<subseteq> set s"
proof -
  obtain us vs where "s = us @ trim_space s @ vs" using trim_space_infix by blast
  then have "set s = set us \<union> (set (trim_space s) \<union> set vs)"
    by (metis set_append)
  then show ?thesis by blast
qed

text \<open>A byte of printing ASCII is never part of white space, so it stops the trimming.\<close>

definition graphic :: "char \<Rightarrow> bool" where
  "graphic c \<longleftrightarrow> CHR ''!'' \<le> c \<and> c \<le> CHR ''~''"

lemma graphic_no_space:
  assumes "graphic c"
  shows "\<not> ascii_space c" "\<not> space2 c b" "\<not> space2 a c" "\<not> space3 c b' a'" "\<not> space3 a' b' c"
  using assms
  by (auto simp: graphic_def ascii_space_def space2_def space3_def less_eq_char_def)

lemma lead_space_graphic: "graphic c \<Longrightarrow> lead_space (c # s) = 0"
  by (auto simp: lead_space_def graphic_no_space split: list.splits)

lemma trail_space_graphic: "graphic c \<Longrightarrow> trail_space (c # s) = 0"
  by (auto simp: trail_space_def graphic_no_space split: list.splits)

lemma trim_space_graphic:
  assumes "graphic c" "graphic d" "s = c # t" "s = u @ [d]"
  shows "trim_space s = s"
proof -
  have "drop_while_len lead_space s = s"
    using assms by (simp add: lead_space_graphic)
  moreover have "drop_while_len trail_space (rev s) = rev s"
    using assms(2,4) by (simp add: trail_space_graphic)
  ultimately show ?thesis by (simp add: trim_space_def)
qed

lemma trim_space_Nil [simp]: "trim_space [] = []"
  by (simp add: trim_space_def)

lemma trim_space_wrapped: "graphic a \<Longrightarrow> graphic b \<Longrightarrow> trim_space (a # s @ [b]) = a # s @ [b]"
  by (rule trim_space_graphic [where t = "s @ [b]" and u = "a # s"]) auto

text \<open>A string of printing bytes is its own trimming.\<close>

lemma trim_space_all_graphic: "\<forall>c \<in> set s. graphic c \<Longrightarrow> trim_space s = s"
proof (cases s)
  case (Cons c t)
  assume g: "\<forall>c \<in> set s. graphic c"
  obtain u d where ud: "s = u @ [d]" using Cons by (metis rev_exhaust list.distinct(1))
  have "c \<in> set s" using Cons by simp
  moreover have "d \<in> set s" using ud by simp
  ultimately have "graphic c" "graphic d" using g by blast+
  then show ?thesis using Cons ud by (rule trim_space_graphic)
qed simp


subsection \<open>Slices, prefixes and cuts\<close>

lemma strip_ends_wrap [simp]: "strip_ends (a # s @ [b]) = s"
  by (simp add: strip_ends_def slice_def)

lemma wrapped_wrap [simp]: "wrapped a b (a # s @ [b])"
  by (simp add: wrapped_def first_byte_def last_byte_def)

lemma wrapped_iff: "wrapped a b s \<longleftrightarrow> (\<exists>t. s = a # t @ [b])"
proof
  assume w: "wrapped a b s"
  then obtain c s' where s: "s = c # s'" "s' \<noteq> []"
    by (cases s; cases "tl s") (auto simp: wrapped_def)
  then have "s = c # butlast s' @ [last s']" by simp
  moreover have "c = a" "last s' = b"
    using w s by (auto simp: wrapped_def first_byte_def last_byte_def)
  ultimately show "\<exists>t. s = a # t @ [b]" by blast
qed auto

lemma strip_ends_length: "2 \<le> length s \<Longrightarrow> length (strip_ends s) = length s - 2"
  by (simp add: strip_ends_def slice_def)

lemma strip_ends_set: "set (strip_ends s) \<subseteq> set s"
  by (auto simp: strip_ends_def slice_def dest: in_set_dropD in_set_takeD)

lemma has_prefix_append [simp]: "has_prefix (p @ s) p"
  by (simp add: has_prefix_def)

lemma has_prefix_iff: "has_prefix s p \<longleftrightarrow> (\<exists>t. s = p @ t)"
  by (metis append_take_drop_id has_prefix_append has_prefix_def)

lemma trim_prefix_append [simp]: "trim_prefix (p @ s) p = s"
  by (simp add: trim_prefix_def)

lemma trim_prefix_length: "length (trim_prefix s p) \<le> length s"
  by (simp add: trim_prefix_def)

lemma trim_prefix_set: "set (trim_prefix s p) \<subseteq> set s"
  by (auto simp: trim_prefix_def dest: in_set_dropD)

lemma index_byte_None: "index_byte s c = None \<longleftrightarrow> c \<notin> set s"
  by (induction s) auto

lemma index_byte_Some:
  "index_byte s c = Some i \<longleftrightarrow> i < length s \<and> s ! i = c \<and> c \<notin> set (take i s)"
proof (induction s arbitrary: i)
  case (Cons x s)
  then show ?case by (cases i) auto
qed simp

lemma index_byte_append: "c \<notin> set p \<Longrightarrow> index_byte (p @ c # s) c = Some (length p)"
  by (induction p) auto

lemma index_str_single: "index_str s [c] = index_byte s c"
  by (induction s) (auto simp: has_prefix_def)

lemma cut_single_append: "c \<notin> set p \<Longrightarrow> cut (p @ c # s) [c] = Some (p, s)"
  by (simp add: cut_def index_str_single index_byte_append)

lemma cut_single_None: "cut s [c] = None \<longleftrightarrow> c \<notin> set s"
  by (simp add: cut_def index_str_single index_byte_None)

lemma cut_SomeD: "cut s p = Some (a, b) \<Longrightarrow> set a \<subseteq> set s \<and> set b \<subseteq> set s"
  by (auto simp: cut_def dest: in_set_takeD in_set_dropD)


subsection \<open>Numbers\<close>

lemma parse_int64_range: "parse_int64 s = Some n \<Longrightarrow> int64_min \<le> n \<and> n \<le> int64_max"
  by (auto simp: parse_int64_def in_int64_def bind_eq_Some_conv split: list.splits if_splits)


subsection \<open>Query strings\<close>

lemma wf_map_vals_add [simp]: "wf_map vs \<Longrightarrow> wf_map (vals_add k v vs)"
  by (simp add: vals_add_def)

lemma parse_segments_wf: "parse_segments segs vs = Some vs' \<Longrightarrow> wf_map vs \<Longrightarrow> wf_map vs'"
  by (induction segs vs rule: parse_segments.induct)
    (auto simp: Let_def split: if_splits prod.splits option.splits)

lemma parse_query_wf: "parse_query s = Some vs \<Longrightarrow> wf_map vs"
  by (auto simp: parse_query_def dest: parse_segments_wf)

end
