(* ===== verification/Schema.thy ===== *)
theory Schema
  imports Go_Strings
begin

section \<open>Package schema: the unified schema model and its relationships\<close>

text \<open>
  \<open>src/schema/model.go\<close>, \<open>src/schema/views.go\<close> and \<open>src/schema/relationship.go\<close>. A \<open>model\<close> keeps
  the relations under their key in insertion order, which is the pair \<open>relations\<close>/\<open>order\<close>
  of the source in one association list. A pointer to a relation is the relation itself; the
  source compares such pointers only inside one model, where the key identifies the relation
  (\<open>same_rel\<close>). A pointer to a foreign key is its index in the list of its relation.
\<close>

subsection \<open>The model\<close>

datatype rel_kind = KindTable | KindView

datatype card = CardToOne | CardToMany

record func_ref =
  fr_schema :: string
  fr_name :: string

definition func_zero :: func_ref where
  "func_zero = \<lparr>fr_schema = [], fr_name = []\<rparr>"

definition func_is_zero :: "func_ref \<Rightarrow> bool" where
  "func_is_zero f \<longleftrightarrow> fr_name f = []"

record representation =
  rep_to_json :: func_ref
  rep_from_text :: func_ref
  rep_from_json :: func_ref

record schema_column =
  sc_name :: string
  sc_type :: string
  sc_comment :: string
  sc_nullable :: bool
  sc_has_default :: bool
  sc_identity :: bool
  sc_position :: int
  sc_rep :: "representation option"

record foreign_key =
  fk_name :: string
  fk_columns :: "string list"
  fk_ref_schema :: string
  fk_ref_relation :: string
  fk_ref_columns :: "string list"
  fk_source_relation :: string

record full_text_index =
  fti_name :: string
  fti_columns :: "string list"
  fti_rowid_column :: string

record computed_rel =
  cr_name :: string
  cr_func_schema :: string
  cr_target_schema :: string
  cr_target_name :: string
  cr_card :: card

record computed_field =
  cf_name :: string
  cf_func_schema :: string
  cf_type :: string

record view_column =
  vc_name :: string
  vc_base_schema :: string
  vc_base_relation :: string
  vc_base_column :: string

record relation =
  r_schema :: string
  r_name :: string
  r_kind :: rel_kind
  r_comment :: string
  r_columns :: "schema_column list"
  r_primary_key :: "string list"
  r_unique :: "string list list"
  r_foreign_keys :: "foreign_key list"
  r_full_text :: "full_text_index list"
  r_view_columns :: "view_column list"
  r_computed :: "computed_field list"
  r_computed_rels :: "computed_rel list"

record declared_rel =
  d_name :: string
  d_parent_schema :: string
  d_parent_name :: string
  d_target_schema :: string
  d_target_name :: string
  d_card :: card
  d_local :: "string list"
  d_foreign :: "string list"
  d_junction_schema :: string
  d_junction_name :: string
  d_jlocal :: "string list"
  d_jforeign :: "string list"
  d_hints :: "string list"

record model =
  m_relations :: "relation go_map"
  m_declared :: "declared_rel list"

record relationship =
  rs_name :: string
  rs_card :: card
  rs_target :: relation
  rs_local :: "string list"
  rs_foreign :: "string list"
  rs_junction :: "relation option"
  rs_jlocal :: "string list"
  rs_jforeign :: "string list"
  rs_func_schema :: string
  rs_func_name :: string
  rs_cardinality :: string
  rs_hints :: "string list"

definition schema_key :: "string \<Rightarrow> string \<Rightarrow> string" where
  "schema_key sch rel = (if sch = [] then rel else sch @ ''.'' @ rel)"

definition rel_key :: "relation \<Rightarrow> string" where
  "rel_key r = schema_key (r_schema r) (r_name r)"

definition same_rel :: "relation \<Rightarrow> relation \<Rightarrow> bool" where
  "same_rel a b \<longleftrightarrow> rel_key a = rel_key b"

text \<open>\<open>index\<close> fills \<open>byName\<close> and \<open>byComputed\<close>: a later column of the same name replaces an earlier one.\<close>

definition rel_index :: "relation \<Rightarrow> schema_column go_map" where
  "rel_index r = fold (\<lambda>c m. aput (sc_name c) c m) (r_columns r) []"

definition rel_index_computed :: "relation \<Rightarrow> computed_field go_map" where
  "rel_index_computed r = fold (\<lambda>c m. aput (cf_name c) c m) (r_computed r) []"

definition rel_column :: "relation \<Rightarrow> string \<Rightarrow> schema_column option" where
  "rel_column r name = aget (rel_index r) name"

definition has_column :: "relation \<Rightarrow> string \<Rightarrow> bool" where
  "has_column r name \<longleftrightarrow> rel_column r name \<noteq> None"

definition computed_field_for :: "relation \<Rightarrow> string \<Rightarrow> computed_field option" where
  "computed_field_for r name = aget (rel_index_computed r) name"

definition column_names :: "relation \<Rightarrow> string list" where
  "column_names r = map sc_name (r_columns r)"

definition full_text_index_for :: "relation \<Rightarrow> string \<Rightarrow> full_text_index option" where
  "full_text_index_for r col = find (\<lambda>idx. col \<in> set (fti_columns idx)) (r_full_text r)"

definition relations :: "model \<Rightarrow> relation list" where
  "relations m = map snd (m_relations m)"

definition relations_in :: "model \<Rightarrow> string \<Rightarrow> relation list" where
  "relations_in m sch = filter (\<lambda>r. r_schema r = sch) (relations m)"

definition add_declared :: "model \<Rightarrow> declared_rel \<Rightarrow> model" where
  "add_declared m d = m\<lparr>m_declared := m_declared m @ [d]\<rparr>"

fun lookup_path :: "model \<Rightarrow> string \<Rightarrow> string list \<Rightarrow> relation option" where
  "lookup_path m name [] = None"
| "lookup_path m name (s # ss) =
     (case aget (m_relations m) (schema_key s name) of
        Some r \<Rightarrow> Some r
      | None \<Rightarrow> lookup_path m name ss)"

definition model_lookup :: "model \<Rightarrow> string \<Rightarrow> string list \<Rightarrow> relation option" where
  "model_lookup m name path =
     (if path = [] then aget (m_relations m) name else lookup_path m name path)"

subsection \<open>Projecting foreign keys onto views\<close>

definition add_exposure :: "view_column \<Rightarrow> string go_map go_map \<Rightarrow> string go_map go_map" where
  "add_exposure vc ex =
     (let bk = schema_key (vc_base_schema vc) (vc_base_relation vc);
          cols = (case aget ex bk of None \<Rightarrow> [] | Some c \<Rightarrow> c);
          cols' = (case aget cols (vc_base_column vc) of
                     None \<Rightarrow> aput (vc_base_column vc) (vc_name vc) cols
                   | Some _ \<Rightarrow> cols)
      in aput bk cols' ex)"

definition exposures :: "view_column list \<Rightarrow> string go_map go_map" where
  "exposures vcs = fold add_exposure vcs []"

fun map_columns :: "string list \<Rightarrow> string go_map \<Rightarrow> string list option" where
  "map_columns [] ex = Some []"
| "map_columns (c # cs) ex =
     (case aget ex c of
        None \<Rightarrow> None
      | Some vc \<Rightarrow> map_option ((#) vc) (map_columns cs ex))"

definition has_projected_fk :: "relation \<Rightarrow> foreign_key \<Rightarrow> relation \<Rightarrow> bool" where
  "has_projected_fk r fk base \<longleftrightarrow>
     (\<exists>x \<in> set (r_foreign_keys r). fk_name x = fk_name fk \<and> fk_source_relation x = r_name base)"

definition project_fk :: "relation \<Rightarrow> string go_map \<Rightarrow> foreign_key \<Rightarrow> relation \<times> bool \<Rightarrow> relation \<times> bool" where
  "project_fk base cols fk st =
     (case st of (v, added) \<Rightarrow>
        (case map_columns (fk_columns fk) cols of
           None \<Rightarrow> (v, added)
         | Some viewCols \<Rightarrow>
             if has_projected_fk v fk base then (v, added)
             else (v\<lparr>r_foreign_keys := r_foreign_keys v @
                     [\<lparr>fk_name = fk_name fk, fk_columns = viewCols, fk_ref_schema = fk_ref_schema fk,
                       fk_ref_relation = fk_ref_relation fk, fk_ref_columns = fk_ref_columns fk,
                       fk_source_relation = r_name base\<rparr>]\<rparr>, True)))"

definition project_base :: "model \<Rightarrow> string \<times> string go_map \<Rightarrow> relation \<times> bool \<Rightarrow> relation \<times> bool" where
  "project_base m ex st =
     (case aget (m_relations m) (fst ex) of
        None \<Rightarrow> st
      | Some base \<Rightarrow> fold (project_fk base (snd ex)) (r_foreign_keys base) st)"

definition project_one_view :: "model \<Rightarrow> relation \<Rightarrow> relation \<times> bool" where
  "project_one_view m v = fold (project_base m) (exposures (r_view_columns v)) (v, False)"

definition project_key :: "string \<Rightarrow> model \<times> bool \<Rightarrow> model \<times> bool" where
  "project_key k st =
     (case st of (m, added) \<Rightarrow>
        (case aget (m_relations m) k of
           None \<Rightarrow> (m, added)
         | Some v \<Rightarrow>
             if r_kind v \<noteq> KindView \<or> r_view_columns v = [] then (m, added)
             else let (v', a) = project_one_view m v
                  in (m\<lparr>m_relations := aput k v' (m_relations m)\<rparr>, added \<or> a)))"

fun project_passes :: "nat \<Rightarrow> model \<Rightarrow> model" where
  "project_passes 0 m = m"
| "project_passes (Suc n) m =
     (let (m', added) = fold project_key (keys_of (m_relations m)) (m, False)
      in if added then project_passes n m' else m')"

definition project_views :: "model \<Rightarrow> model" where
  "project_views m = project_passes (length (m_relations m)) m"

definition new_model :: "relation list \<Rightarrow> model" where
  "new_model rels =
     project_views \<lparr>m_relations = fold (\<lambda>r m. aput (rel_key r) r m) rels [], m_declared = []\<rparr>"

subsection \<open>Relationships\<close>

definition fk_hint_names :: "foreign_key \<Rightarrow> string list" where
  "fk_hint_names fk = [fk_name fk] @ fk_columns fk @
     (if fk_source_relation fk = [] then [] else [fk_source_relation fk])"

definition fk_references :: "foreign_key \<Rightarrow> relation \<Rightarrow> bool" where
  "fk_references fk r \<longleftrightarrow> fk_ref_relation fk = r_name r \<and> fk_ref_schema fk = r_schema r"

definition matches_hint :: "relationship \<Rightarrow> string \<Rightarrow> bool" where
  "matches_hint rel h \<longleftrightarrow> h \<in> set (rs_hints rel)"

definition same_column_set :: "string list \<Rightarrow> string list \<Rightarrow> bool" where
  "same_column_set a b \<longleftrightarrow> length a = length b \<and> a \<noteq> [] \<and> (\<forall>x \<in> set a. x \<in> set b)"

definition is_unique :: "relation \<Rightarrow> string list \<Rightarrow> bool" where
  "is_unique r cols \<longleftrightarrow>
     same_column_set (r_primary_key r) cols \<or> (\<exists>u \<in> set (r_unique r). same_column_set u cols)"

definition is_subset :: "string list \<Rightarrow> string list \<Rightarrow> bool" where
  "is_subset cols s \<longleftrightarrow> cols \<noteq> [] \<and> (\<forall>c \<in> set cols. c \<in> set s)"

definition junction_fks :: "relation \<Rightarrow> relation \<Rightarrow> (nat \<times> foreign_key) list" where
  "junction_fks j end_rel =
     filter (\<lambda>(i, fk). fk_references fk end_rel \<and> is_subset (fk_columns fk) (r_primary_key j))
       (enumerate 0 (r_foreign_keys j))"

definition junction_hints :: "relation \<Rightarrow> foreign_key \<Rightarrow> string list" where
  "junction_hints j toTarget = [r_name j, fk_name toTarget] @ fk_columns toTarget"

definition junction_path :: "string \<Rightarrow> string list" where
  "junction_path sch = (if sch = [] then [] else [sch])"

definition declared_cardinality :: "card \<Rightarrow> string" where
  "declared_cardinality c = (case c of CardToMany \<Rightarrow> ''one-to-many'' | CardToOne \<Rightarrow> ''many-to-one'')"

definition forward_edges :: "relation \<Rightarrow> relation \<Rightarrow> relationship list" where
  "forward_edges parent target =
     map (\<lambda>fk. \<lparr>rs_name = fk_name fk, rs_card = CardToOne, rs_target = target,
                 rs_local = fk_columns fk, rs_foreign = fk_ref_columns fk,
                 rs_junction = None, rs_jlocal = [], rs_jforeign = [],
                 rs_func_schema = [], rs_func_name = [],
                 rs_cardinality = (if is_unique parent (fk_columns fk) then ''one-to-one'' else ''many-to-one''),
                 rs_hints = fk_hint_names fk\<rparr>)
       (filter (\<lambda>fk. fk_references fk target) (r_foreign_keys parent))"

definition backward_edges :: "relation \<Rightarrow> relation \<Rightarrow> relationship list" where
  "backward_edges parent target =
     map (\<lambda>fk. \<lparr>rs_name = fk_name fk,
                 rs_card = (if is_unique target (fk_columns fk) then CardToOne else CardToMany),
                 rs_target = target,
                 rs_local = fk_ref_columns fk, rs_foreign = fk_columns fk,
                 rs_junction = None, rs_jlocal = [], rs_jforeign = [],
                 rs_func_schema = [], rs_func_name = [],
                 rs_cardinality = (if is_unique target (fk_columns fk) then ''one-to-one'' else ''one-to-many''),
                 rs_hints = fk_hint_names fk\<rparr>)
       (filter (\<lambda>fk. fk_references fk parent) (r_foreign_keys target))"

definition junction_edges_of :: "relation \<Rightarrow> relation \<Rightarrow> relation \<Rightarrow> relationship list" where
  "junction_edges_of parent target j =
     (if same_rel j parent \<or> same_rel j target then []
      else concat (map (\<lambda>(ip, toParent).
             concat (map (\<lambda>(it, toTarget).
               if ip = it then []
               else [\<lparr>rs_name = r_name j, rs_card = CardToMany, rs_target = target,
                      rs_local = fk_ref_columns toParent, rs_foreign = fk_ref_columns toTarget,
                      rs_junction = Some j, rs_jlocal = fk_columns toParent, rs_jforeign = fk_columns toTarget,
                      rs_func_schema = [], rs_func_name = [],
                      rs_cardinality = ''many-to-many'',
                      rs_hints = junction_hints j toTarget\<rparr>])
               (junction_fks j target)))
             (junction_fks j parent)))"

definition declared_edge :: "model \<Rightarrow> relation \<Rightarrow> relation \<Rightarrow> declared_rel \<Rightarrow> relationship option" where
  "declared_edge m parent target d =
     (if d_parent_name d \<noteq> r_name parent \<or> d_parent_schema d \<noteq> r_schema parent then None
      else if d_target_name d \<noteq> r_name target \<or> d_target_schema d \<noteq> r_schema target then None
      else
        let rel = \<lparr>rs_name = d_name d, rs_card = d_card d, rs_target = target,
                   rs_local = d_local d, rs_foreign = d_foreign d,
                   rs_junction = None, rs_jlocal = [], rs_jforeign = [],
                   rs_func_schema = [], rs_func_name = [],
                   rs_cardinality = declared_cardinality (d_card d),
                   rs_hints = d_name d # d_hints d\<rparr>
        in if d_junction_name d = [] then Some rel
           else (case model_lookup m (d_junction_name d) (junction_path (d_junction_schema d)) of
                   None \<Rightarrow> None
                 | Some j \<Rightarrow> Some (rel\<lparr>rs_junction := Some j, rs_jlocal := d_jlocal d,
                                       rs_jforeign := d_jforeign d, rs_cardinality := ''many-to-many''\<rparr>)))"

definition declared_edges :: "model \<Rightarrow> relation \<Rightarrow> relation \<Rightarrow> relationship list" where
  "declared_edges m parent target = List.map_filter (declared_edge m parent target) (m_declared m)"

definition computed_edge :: "relation \<Rightarrow> computed_rel \<Rightarrow> relationship" where
  "computed_edge target cr =
     \<lparr>rs_name = cr_name cr, rs_card = cr_card cr, rs_target = target,
      rs_local = [], rs_foreign = [], rs_junction = None, rs_jlocal = [], rs_jforeign = [],
      rs_func_schema = cr_func_schema cr, rs_func_name = cr_name cr,
      rs_cardinality = declared_cardinality (cr_card cr), rs_hints = [cr_name cr]\<rparr>"

definition computed_rel_edges :: "relation \<Rightarrow> relation \<Rightarrow> relationship list" where
  "computed_rel_edges parent target =
     map (computed_edge target)
       (filter (\<lambda>cr. cr_target_name cr = r_name target \<and> cr_target_schema cr = r_schema target)
         (r_computed_rels parent))"

definition computed_rel_by_name :: "model \<Rightarrow> relation \<Rightarrow> string \<Rightarrow> string list \<Rightarrow> relationship option" where
  "computed_rel_by_name m parent name path =
     (case find (\<lambda>cr. cr_name cr = name) (r_computed_rels parent) of
        None \<Rightarrow> None
      | Some cr \<Rightarrow> map_option (\<lambda>target. computed_edge target cr)
                     (model_lookup m (cr_target_name cr) [cr_target_schema cr]))"

definition override_edges :: "relationship list \<Rightarrow> relationship list \<Rightarrow> relationship list" where
  "override_edges derived declared =
     (if declared = [] then derived
      else filter (\<lambda>e. rs_name e \<notin> set (map rs_name declared)) derived @ declared)"

definition relationships :: "model \<Rightarrow> relation \<Rightarrow> string \<Rightarrow> string list \<Rightarrow> relationship list option" where
  "relationships m parent targetName path =
     (case model_lookup m targetName path of
        None \<Rightarrow> None
      | Some target \<Rightarrow>
          Some (override_edges
            (forward_edges parent target @ backward_edges parent target @
             concat (map (junction_edges_of parent target) (relations m)))
            (declared_edges m parent target @ computed_rel_edges parent target)))"

end
