(* ===== verification/Pgerr.thy ===== *)
theory Pgerr
  imports Go_Strings
begin

section \<open>Package pgerr: the error envelope and the code table\<close>

text \<open>
  \<open>src/pgerr/pgerr.go\<close> and \<open>src/pgerr/codes.go\<close>. \<open>api_error\<close> is \<open>APIError\<close>: the wire envelope
  (code, message, details, hint) with the HTTP status and the challenge header. \<open>raw_details\<close> holds
  the list of candidate objects that \<open>WithDetailsJSON\<close> marshals for PGRST201 (its only use), before
  marshalling. The JSON text of the envelope and the writing to the connection are not modelled.
  The constructors \<open>Err...\<close> keep the source's names; each is the branch an early return takes.
\<close>

record embed_candidate =
  ec_cardinality :: string
  ec_embedding :: string
  ec_relationship :: string
  ec_name :: string

record api_error =
  http_status :: nat
  www_authenticate :: string
  code :: string
  message :: string
  details :: "string option"
  raw_details :: "embed_candidate list option"
  hint :: "string option"
  headers :: "string go_map"

definition New :: "nat \<Rightarrow> string \<Rightarrow> string \<Rightarrow> api_error" where
  "New status c msg = \<lparr>http_status = status, www_authenticate = [], code = c, message = msg,
     details = None, raw_details = None, hint = None, headers = []\<rparr>"

definition WithDetails :: "api_error \<Rightarrow> string \<Rightarrow> api_error" where
  "WithDetails e d = e\<lparr>details := Some d\<rparr>"

definition WithDetailsJSON :: "api_error \<Rightarrow> embed_candidate list \<Rightarrow> api_error" where
  "WithDetailsJSON e v = e\<lparr>raw_details := Some v\<rparr>"

definition WithHint :: "api_error \<Rightarrow> string \<Rightarrow> api_error" where
  "WithHint e h = e\<lparr>hint := Some h\<rparr>"

definition WithMessage :: "api_error \<Rightarrow> string \<Rightarrow> api_error" where
  "WithMessage e m = e\<lparr>message := m\<rparr>"

subsection \<open>Formatting\<close>

text \<open>
  The verbs of \<open>fmt.Sprintf\<close> the messages use: \<open>%d\<close> is \<open>show_int\<close>, and \<open>%q\<close> (and
  \<open>strconv.Quote\<close>) is \<open>go_quote\<close>, exact on ASCII; the names that are quoted are taken to be
  printable, so a byte from 0x80 up is kept as it is.
\<close>

definition digit_char :: "nat \<Rightarrow> char" where
  "digit_char d = char_of (48 + d)"

fun show_nat :: "nat \<Rightarrow> string" where
  "show_nat n = (if n < 10 then [digit_char n] else show_nat (n div 10) @ [digit_char (n mod 10)])"

declare show_nat.simps [simp del]

definition show_int :: "int \<Rightarrow> string" where
  "show_int n = (if n < 0 then CHR ''-'' # show_nat (nat (- n)) else show_nat (nat n))"

definition hex_digit :: "nat \<Rightarrow> char" where
  "hex_digit d = (if d < 10 then char_of (48 + d) else char_of (87 + d))"

definition quote_char :: "char \<Rightarrow> string" where
  "quote_char c =
     (let n = of_char c :: nat in
      if c = dquote \<or> c = bslash then [bslash, c]
      else if n = 7 then [bslash, CHR ''a'']
      else if n = 8 then [bslash, CHR ''b'']
      else if n = 9 then [bslash, CHR ''t'']
      else if n = 10 then [bslash, CHR ''n'']
      else if n = 11 then [bslash, CHR ''v'']
      else if n = 12 then [bslash, CHR ''f'']
      else if n = 13 then [bslash, CHR ''r'']
      else if n < 32 \<or> n = 127 then [bslash, CHR ''x'', hex_digit (n div 16), hex_digit (n mod 16)]
      else [c])"

definition go_quote :: "string \<Rightarrow> string" where
  "go_quote s = dquote # concat (map quote_char s) @ [dquote]"

text \<open>A name between single quotes, as the messages write \<open>'%s'\<close>.\<close>

definition sq :: "string \<Rightarrow> string" where
  "sq s = CHR 0x27 # s @ [CHR 0x27]"

definition BearerInvalidToken :: "string \<Rightarrow> string" where
  "BearerInvalidToken msg = ''Bearer error='' @ [dquote] @ ''invalid_token'' @ [dquote] @
     '', error_description='' @ go_quote msg"

subsection \<open>Parse and request errors\<close>

definition ErrParse :: "string \<Rightarrow> api_error" where
  "ErrParse msg = New 400 ''PGRST100'' msg"

definition ErrBodyTooLarge :: "int \<Rightarrow> api_error" where
  "ErrBodyTooLarge limit = New 413 ''PGRSTX13''
     (''Request body exceeds the '' @ show_int limit @ '' byte max-request-body limit'')"

definition ErrInvalidBody :: "string \<Rightarrow> api_error" where
  "ErrInvalidBody msg = New 400 ''PGRST102'' (if msg = [] then ''Empty or invalid json'' else msg)"

definition ErrSingularZeroMany :: api_error where
  "ErrSingularZeroMany = New 406 ''PGRST116'' ''Cannot coerce the result to a single JSON object''"

definition ErrRangeNotSatisfiable :: api_error where
  "ErrRangeNotSatisfiable = New 416 ''PGRST103'' ''Requested range not satisfiable''"

definition ErrNotAcceptable :: "string \<Rightarrow> api_error" where
  "ErrNotAcceptable offered = New 406 ''PGRST107'' (''None of these media types are available: '' @ offered)"

definition ErrUnsupportedMediaType :: "string \<Rightarrow> api_error" where
  "ErrUnsupportedMediaType ct = New 400 ''PGRST102'' (''Content-Type not acceptable: '' @ ct)"

definition ErrInvalidPreferences :: "string list \<Rightarrow> api_error" where
  "ErrInvalidPreferences offenders =
     WithDetails (New 400 ''PGRST122'' ''Invalid preferences given with handling=strict'')
       (''Invalid preferences: '' @ join '', '' offenders)"

definition ErrPutPrimaryKey :: api_error where
  "ErrPutPrimaryKey = New 405 ''PGRST105''
     (''Filters must include all and only primary key columns with '' @ sq ''eq'' @ '' operators'')"

definition ErrPutLimit :: api_error where
  "ErrPutLimit = New 400 ''PGRST114'' ''limit/offset querystring parameters are not allowed for PUT''"

definition ErrPutPayloadKey :: api_error where
  "ErrPutPayloadKey = New 400 ''PGRST115'' ''Payload values do not match URL in primary key column(s)''"

definition ErrInvalidPath :: api_error where
  "ErrInvalidPath = New 404 ''PGRST125'' ''Invalid path specified in request URL''"

definition ErrMethodNotAllowed :: "string \<Rightarrow> api_error" where
  "ErrMethodNotAllowed msg = New 405 ''PGRST101'' (if msg = [] then ''Method not allowed'' else msg)"

definition ErrInvalidRPCMethod :: "string \<Rightarrow> api_error" where
  "ErrInvalidRPCMethod m = New 405 ''PGRST101'' (''Cannot use the '' @ m @ '' method on RPC'')"

definition ErrUnsupportedMethod :: "string \<Rightarrow> api_error" where
  "ErrUnsupportedMethod m = New 405 ''PGRST117'' (''Unsupported HTTP method: '' @ m)"

definition ErrReadOnlyTransaction :: "string \<Rightarrow> api_error" where
  "ErrReadOnlyTransaction action = New 405 ''25006''
     (''cannot execute '' @ action @ '' in a read-only transaction'')"

subsection \<open>Resolution errors\<close>

definition ErrUnknownTable :: "string \<Rightarrow> string \<Rightarrow> api_error" where
  "ErrUnknownTable sch name = New 404 ''PGRST205''
     (''Could not find the table '' @ sq ((if sch = [] then ''public'' else sch) @ ''.'' @ name) @
      '' in the schema cache'')"

definition ErrUnknownColumn :: "string \<Rightarrow> string \<Rightarrow> api_error" where
  "ErrUnknownColumn col rel = New 400 ''PGRST204''
     (''Could not find the '' @ sq col @ '' column of '' @ sq rel @ '' in the schema cache'')"

definition ErrUndefinedColumn :: "string \<Rightarrow> api_error" where
  "ErrUndefinedColumn col = New 400 ''42703'' (''column '' @ col @ '' does not exist'')"

definition ErrNoRelationship :: "string \<Rightarrow> string \<Rightarrow> string \<Rightarrow> string \<Rightarrow> api_error" where
  "ErrNoRelationship parent target sch embedHint =
     WithDetails (New 400 ''PGRST200''
       (''Could not find a relationship between '' @ sq parent @ '' and '' @ sq target @ '' in the schema cache''))
       (''Searched for a foreign key relationship between '' @ sq parent @ '' and '' @ sq target @
        (if embedHint = [] then [] else '' using the hint '' @ sq embedHint) @
        '' in the schema '' @ sq sch @ '', but no matches were found.'')"

definition ErrAmbiguousEmbed :: "string \<Rightarrow> string \<Rightarrow> embed_candidate list \<Rightarrow> api_error" where
  "ErrAmbiguousEmbed parent target cands =
     (let e = New 300 ''PGRST201''
                (''Could not embed because more than one relationship was found for '' @ sq parent @
                 '' and '' @ sq target)
      in if cands = [] then e
         else WithHint (WithDetailsJSON e cands)
           (''Try changing '' @ sq target @ '' to one of the following: '' @
            join '', '' (map (\<lambda>c. sq (target @ ''!'' @ ec_name c)) cands) @
            ''. Find the desired relationship in the '' @ sq ''details'' @ '' key.''))"

definition ErrRelatedOrderNotEmbedded :: "string \<Rightarrow> api_error" where
  "ErrRelatedOrderNotEmbedded rel =
     WithHint (New 400 ''PGRST108'' (sq rel @ '' is not an embedded resource in this request''))
       (''Verify that '' @ sq rel @ '' is included in the '' @ sq ''select'' @ '' query parameter.'')"

definition ErrRelatedOrderNotToOne :: "string \<Rightarrow> string \<Rightarrow> api_error" where
  "ErrRelatedOrderNotToOne parent rel =
     WithDetails (New 400 ''PGRST118'' (''A related order on '' @ sq rel @ '' is not possible''))
       (sq parent @ '' and '' @ sq rel @ '' do not form a many-to-one or one-to-one relationship'')"

definition ErrNoFunction :: "string \<Rightarrow> string \<Rightarrow> string list \<Rightarrow> string \<Rightarrow> api_error" where
  "ErrNoFunction sch name argNames hnt =
     (let qualified = (if sch = [] then name else sch @ ''.'' @ name);
          msg = (if argNames = []
                 then ''Could not find the function '' @ qualified @ '' without parameters in the schema cache''
                 else ''Could not find the function '' @ qualified @ ''('' @ join '', '' argNames @
                      '') in the schema cache'');
          e = New 404 ''PGRST202'' msg
      in if hnt = [] then e else WithHint e hnt)"

definition ErrAmbiguousFunction :: "string list \<Rightarrow> api_error" where
  "ErrAmbiguousFunction candidates =
     WithHint (New 300 ''PGRST203''
       (''Could not choose the best candidate function between: '' @ join '', '' candidates))
       ''Try renaming the parameters or the function itself in the database so function overloading can be resolved''"

definition ErrUnsupported :: "string \<Rightarrow> string \<Rightarrow> api_error" where
  "ErrUnsupported feature backend =
     WithHint (WithDetails (New 400 ''PGRST127'' ''Feature not implemented'')
       (feature @ '' is not supported by the '' @ backend @ '' backend''))
       ''see the capability matrix for supported features on this backend''"

definition ErrMaxAffected :: "int \<Rightarrow> api_error" where
  "ErrMaxAffected affected =
     WithDetails (New 400 ''PGRST124'' ''Query result exceeds max-affected preference constraint'')
       (''The query affects '' @ show_int affected @ '' rows'')"

definition ErrAggregatesDisabled :: api_error where
  "ErrAggregatesDisabled =
     WithHint (New 400 ''PGRST123'' ''Use of aggregate functions is not allowed'')
       (''Enable the '' @ sq ''db-aggregates-enabled'' @ '' config parameter to allow the use of aggregate functions'')"

definition ErrFullTextUnavailable :: "string \<Rightarrow> string \<Rightarrow> api_error" where
  "ErrFullTextUnavailable column backend =
     WithHint (WithDetails (New 400 ''PGRST127'' ''Feature not implemented'')
       (''full-text search on column '' @ go_quote column @ '' has no full-text index on the '' @ backend @ '' backend''))
       ''create a full-text index covering the column''"

subsection \<open>Engine, value and authorization errors\<close>

definition ErrConstraintViolation :: "string \<Rightarrow> string \<Rightarrow> string \<Rightarrow> string \<Rightarrow> api_error" where
  "ErrConstraintViolation sqlstate msg detail hnt =
     (let e = New (if sqlstate = ''23505'' \<or> sqlstate = ''23503'' then 409 else 400) sqlstate msg;
          e = (if detail = [] then e else WithDetails e detail)
      in if hnt = [] then e else WithHint e hnt)"

definition pgTypeSpelling :: "string \<Rightarrow> string" where
  "pgTypeSpelling t =
     (if t = ''int2'' then ''smallint''
      else if t = ''int4'' then ''integer''
      else if t = ''int8'' then ''bigint''
      else if t = ''float4'' then ''real''
      else if t = ''float8'' then ''double precision''
      else if t = ''bool'' then ''boolean''
      else t)"

definition ErrInvalidInput :: "string \<Rightarrow> string \<Rightarrow> api_error" where
  "ErrInvalidInput canonicalType input = New 400 ''22P02''
     (''invalid input syntax for type '' @ pgTypeSpelling canonicalType @ '': '' @ go_quote input)"

definition ErrJWTSecretMissing :: api_error where
  "ErrJWTSecretMissing = New 500 ''PGRST300'' ''Server lacks JWT secret''"

definition ErrJWTDecode :: "string \<Rightarrow> api_error" where
  "ErrJWTDecode msg = (New 401 ''PGRST301'' msg)\<lparr>www_authenticate := BearerInvalidToken msg\<rparr>"

definition ErrJWTClaims :: "string \<Rightarrow> api_error" where
  "ErrJWTClaims msg = (New 401 ''PGRST303'' msg)\<lparr>www_authenticate := BearerInvalidToken msg\<rparr>"

definition ErrJWTRequired :: api_error where
  "ErrJWTRequired = (New 401 ''PGRST302'' ''Anonymous access is disabled'')\<lparr>www_authenticate := ''Bearer''\<rparr>"

definition ErrRoleNotAllowed :: "string \<Rightarrow> api_error" where
  "ErrRoleNotAllowed role = New 403 ''42501'' (''permission denied to set role '' @ [dquote] @ role @ [dquote])"

definition ErrPermissionDenied :: "string \<Rightarrow> bool \<Rightarrow> api_error" where
  "ErrPermissionDenied relation anonymous =
     (let e = New 403 ''42501'' (''permission denied for table '' @ relation)
      in if anonymous then e\<lparr>http_status := 401, www_authenticate := ''Bearer''\<rparr> else e)"

definition GradePrivilegeStatus :: "api_error option \<Rightarrow> bool \<Rightarrow> api_error option" where
  "GradePrivilegeStatus e authenticated =
     (case e of
        None \<Rightarrow> None
      | Some x \<Rightarrow> if code x \<noteq> ''42501'' then Some x
                  else Some (x\<lparr>http_status := (if authenticated then 403 else 401)\<rparr>))"

definition ErrRLSViolation :: "string \<Rightarrow> api_error" where
  "ErrRLSViolation relation = New 403 ''42501''
     (''new row violates row-level security policy for table '' @ go_quote relation)"

definition ErrInternal :: "string \<Rightarrow> api_error" where
  "ErrInternal msg = New 500 ''PGRSTX00'' msg"

subsection \<open>Shared facts\<close>

text \<open>
  The codes a request parser may answer with: \<open>is_parse_error\<close> is the PGRST1xx family of
  the read path, \<open>is_request_error\<close> adds the body errors of a write.
\<close>

definition is_parse_error :: "api_error \<Rightarrow> bool" where
  "is_parse_error e \<longleftrightarrow>
     code e = ''PGRST100'' \<and> http_status e = 400 \<or>
     code e = ''PGRST103'' \<and> http_status e = 416"

definition is_request_error :: "api_error \<Rightarrow> bool" where
  "is_request_error e \<longleftrightarrow>
     is_parse_error e \<or>
     code e = ''PGRST122'' \<and> http_status e = 400 \<or>
     code e = ''PGRST102'' \<and> http_status e = 400"

lemma parse_error_intros [simp, parse_errors]:
  "is_parse_error (ErrParse m)"
  "is_parse_error (WithDetails ErrRangeNotSatisfiable d)"
  by (simp_all add: is_parse_error_def ErrParse_def ErrRangeNotSatisfiable_def WithDetails_def New_def)

lemma request_error_intros [simp, parse_errors]:
  "is_parse_error e \<Longrightarrow> is_request_error e"
  "is_request_error (ErrInvalidBody m)"
  "is_request_error (ErrUnsupportedMediaType m)"
  "is_request_error (ErrInvalidPreferences ms)"
  by (simp_all add: is_request_error_def ErrInvalidBody_def ErrUnsupportedMediaType_def
      ErrInvalidPreferences_def WithDetails_def New_def)

lemma permission_denied_status [simp]:
  "http_status (ErrPermissionDenied rel anon) = (if anon then 401 else 403)"
  "code (ErrPermissionDenied rel anon) = ''42501''"
  by (simp_all add: ErrPermissionDenied_def New_def Let_def)

lemma rls_violation_status [simp]:
  "http_status (ErrRLSViolation rel) = 403" "code (ErrRLSViolation rel) = ''42501''"
  by (simp_all add: ErrRLSViolation_def New_def)

end
