(* ===== verification/Ir.thy ===== *)
theory Ir
  imports Schema Pgerr
begin

section \<open>Package ir: the query representation\<close>

text \<open>
  \<open>src/ir/ir.go\<close>. A struct is a record, an interface with a closed set of implementations is a
  datatype (\<open>select_item\<close>, \<open>cond\<close>), a pointer that may be nil is an option. \<open>Query\<close> and
  \<open>Embed\<close> contain one another: \<open>query_base\<close> and \<open>embed_meta\<close> hold their own fields and the
  datatypes \<open>query\<close> and \<open>embed\<close> tie the knot. The value of type \<open>any\<close> a decoded JSON
  document holds is \<open>json\<close>, where \<open>JNull\<close> is Go's nil and a number is kept as its text
  (\<open>json.Number\<close>).
\<close>

subsection \<open>Enumerations\<close>

datatype query_kind = Read | Insert | Update | Upsert | Delete
datatype count_kind = CountNone | CountExact | CountPlanned | CountEstimated
datatype json_step = JSONNone | JSONArrow | JSONArrow2
datatype agg_func = AggCount | AggSum | AggAvg | AggMin | AggMax
datatype join_kind = JoinLeft | JoinInner
datatype cardinality = CardUnknown | CardOne | CardMany
datatype fts_variant = FTSPlain | FTSPlainText | FTSPhrase | FTSWeb
datatype quant = QNone | QAny | QAll
datatype filter_op =
    OpEq | OpNeq | OpGt | OpGte | OpLt | OpLte | OpLike | OpILike | OpMatch | OpIMatch
  | OpIn | OpIs | OpIsDistinct | OpFTS | OpContains | OpContained | OpOverlap
  | OpRangeSL | OpRangeSR | OpRangeNXR | OpRangeNXL | OpRangeAdj
datatype missing_mode = MissingNull | MissingDefault
datatype conflict_res = ConflictMerge | ConflictIgnore
datatype return_mode = ReturnMinimal | ReturnHeadersOnly | ReturnRepresentation
datatype tx_mode = TxAuto | TxCommit | TxRollback
datatype tx_end = TxEndCommit | TxEndCommitAllowOverride | TxEndRollback | TxEndRollbackAllowOverride
datatype handling = HandlingLenient | HandlingStrict

definition ParseTxEnd :: "string \<Rightarrow> tx_end" where
  "ParseTxEnd s =
     (if s = ''commit-allow-override'' then TxEndCommitAllowOverride
      else if s = ''rollback'' then TxEndRollback
      else if s = ''rollback-allow-override'' then TxEndRollbackAllowOverride
      else TxEndCommit)"

subsection \<open>Values\<close>

datatype json =
    JNull
  | JBool bool
  | JNumber string
  | JString string
  | JArray "json list"
  | JObject "(string \<times> json) list"

text \<open>\<open>Value\<close>; a nil list is the empty list, since the sources only take its length and range over it.\<close>

record ir_value =
  v_text :: string
  v_list :: "string list"
  v_json :: json

definition text_value :: "string \<Rightarrow> ir_value" where
  "text_value s = \<lparr>v_text = s, v_list = [], v_json = JNull\<rparr>"

definition list_value :: "string list \<Rightarrow> ir_value" where
  "list_value l = \<lparr>v_text = [], v_list = l, v_json = JNull\<rparr>"

definition json_value :: "json \<Rightarrow> ir_value" where
  "json_value j = \<lparr>v_text = [], v_list = [], v_json = j\<rparr>"

subsection \<open>Select items, filters and order terms\<close>

record ref =
  ref_schema :: string
  ref_name :: string

definition bare_ref :: "string \<Rightarrow> ref" where
  "bare_ref n = \<lparr>ref_schema = [], ref_name = n\<rparr>"

record ir_column =
  c_path :: "string list"
  c_last :: json_step
  c_cast :: string
  c_alias :: string

definition column_out_name :: "ir_column \<Rightarrow> string" where
  "column_out_name c =
     (if c_alias c \<noteq> [] then c_alias c else if c_path c = [] then [] else last (c_path c))"

record aggregate =
  a_func :: agg_func
  a_arg :: "ir_column option"
  a_cast :: string
  a_alias :: string
  a_legacy :: bool

definition agg_func_string :: "agg_func \<Rightarrow> string" where
  "agg_func_string f =
     (case f of AggSum \<Rightarrow> ''sum'' | AggAvg \<Rightarrow> ''avg'' | AggMin \<Rightarrow> ''min'' | AggMax \<Rightarrow> ''max''
      | AggCount \<Rightarrow> ''count'')"

definition aggregate_name :: "aggregate \<Rightarrow> string" where
  "aggregate_name a = (if a_alias a \<noteq> [] then a_alias a else agg_func_string (a_func a))"

datatype select_item =
    SColumn ir_column
  | SAggregate aggregate
  | SEmbedRef nat

record compare =
  cmp_path :: "string list"
  cmp_last :: json_step
  cmp_op :: filter_op
  cmp_value :: ir_value
  cmp_quant :: quant
  cmp_negate :: bool
  cmp_fts :: fts_variant
  cmp_config :: string
  cmp_full_text :: "full_text_index option"
  cmp_column_type :: string

datatype cond =
    CAnd "cond list"
  | COr "cond list"
  | CNot cond
  | CEmbedPredicate nat bool
  | CCompare compare

record order_term =
  o_path :: "string list"
  o_last :: json_step
  o_desc :: bool
  o_nulls_first :: "bool option"
  o_rel :: string

subsection \<open>Preferences and write specifications\<close>

text \<open>
  \<open>PreferSet\<close> of \<open>src/ir/prefer.go\<close>; \<open>pf_applied\<close> and \<open>pf_invalid\<close> are its unexported fields.
\<close>

record prefer_set =
  pf_return :: "return_mode option"
  pf_count :: "count_kind option"
  pf_resolution :: "conflict_res option"
  pf_missing :: "missing_mode option"
  pf_tx :: "tx_mode option"
  pf_handling :: handling
  pf_max_affected :: "int option"
  pf_timezone :: "string option"
  pf_applied :: "string go_map"
  pf_invalid :: "string list"

definition empty_prefer :: prefer_set where
  "empty_prefer = \<lparr>pf_return = None, pf_count = None, pf_resolution = None, pf_missing = None,
     pf_tx = None, pf_handling = HandlingLenient, pf_max_affected = None, pf_timezone = None,
     pf_applied = [], pf_invalid = []\<rparr>"

record conflict =
  cf_target :: "string list"
  cf_resolution :: conflict_res

record write_spec =
  w_rows :: "ir_value go_map list"
  w_set :: "ir_value go_map"
  w_columns :: "string list"
  w_missing :: missing_mode
  w_conflict :: "conflict option"
  w_return :: return_mode
  w_max_rows :: "int option"
  w_tx :: tx_mode
  w_column_types :: "string go_map"

definition empty_write :: write_spec where
  "empty_write = \<lparr>w_rows = [], w_set = [], w_columns = [], w_missing = MissingNull,
     w_conflict = None, w_return = ReturnMinimal, w_max_rows = None, w_tx = TxAuto,
     w_column_types = []\<rparr>"

record ir_rep =
  irep_to_json :: "string \<times> string"
  irep_from_text :: "string \<times> string"
  irep_from_json :: "string \<times> string"

subsection \<open>Queries and embeds\<close>

record query_base =
  q_kind :: query_kind
  q_relation :: ref
  q_select :: "select_item list"
  q_where :: "cond option"
  q_order :: "order_term list"
  q_limit :: "int option"
  q_offset :: "int option"
  q_write :: "write_spec option"
  q_singular :: bool
  q_count :: count_kind
  q_count_max :: int
  q_prefer :: prefer_set
  q_from_range :: bool
  q_is_put :: bool
  q_computed :: "string go_map"
  q_reps :: "ir_rep go_map"

record embed_meta =
  e_cardinality :: cardinality
  e_join :: join_kind
  e_spread :: bool
  e_hint :: string
  e_alias :: string
  e_out_key :: string
  e_target :: ref
  e_rel :: "relationship option"
  e_empty_select :: bool

datatype query = Query (base: query_base) (embeds: "embed list")
and embed = Embed (meta: embed_meta) (equery: query)

definition new_base :: "query_kind \<Rightarrow> string \<Rightarrow> query_base" where
  "new_base k rel = \<lparr>q_kind = k, q_relation = bare_ref rel, q_select = [], q_where = None,
     q_order = [], q_limit = None, q_offset = None, q_write = None, q_singular = False,
     q_count = CountNone, q_count_max = 0, q_prefer = empty_prefer, q_from_range = False,
     q_is_put = False, q_computed = [], q_reps = []\<rparr>"

definition upd_base :: "(query_base \<Rightarrow> query_base) \<Rightarrow> query \<Rightarrow> query" where
  "upd_base f q = Query (f (base q)) (embeds q)"

lemma upd_base_sel [simp]: "base (upd_base f q) = f (base q)" "embeds (upd_base f q) = embeds q"
  by (simp_all add: upd_base_def)

text \<open>\<open>Call\<close>, a request to a function; \<open>RawGet\<close> is \<open>None\<close> on a POST call.\<close>

record ir_call =
  cl_function :: ref
  cl_args :: "ir_value go_map"
  cl_read_only :: bool
  cl_select :: "select_item list"
  cl_where :: "cond option"
  cl_order :: "order_term list"
  cl_limit :: "int option"
  cl_offset :: "int option"
  cl_embeds :: "embed list"
  cl_singular :: bool
  cl_count :: count_kind
  cl_prefer :: prefer_set
  cl_raw_get :: "url_values option"

subsection \<open>The columns a write reads back\<close>

text \<open>
  \<open>(*Query).ProjectedColumns\<close>: \<open>None\<close> (nil) asks the caller to fall back to every column. The loop
  carries the columns collected so far; \<open>seen\<close> of the source is membership in that list.
\<close>

fun projected_loop :: "select_item list \<Rightarrow> string list \<Rightarrow> string list option" where
  "projected_loop [] out = Some out"
| "projected_loop (SColumn c # its) out =
     (if length (c_path c) \<noteq> 1 \<or> c_last c \<noteq> JSONNone \<or> c_cast c \<noteq> [] \<or> c_alias c \<noteq> [] then None
      else let name = hd (c_path c) in
        if name = ''*'' then None
        else projected_loop its (if name \<in> set out then out else out @ [name]))"
| "projected_loop (it # its) out = None"

definition ProjectedColumns :: "query \<Rightarrow> string list option" where
  "ProjectedColumns q =
     (if q_select (base q) = [] \<or> embeds q \<noteq> [] then None
      else case projected_loop (q_select (base q)) [] of
             Some [] \<Rightarrow> None
           | r \<Rightarrow> r)"

end
