(* ===== verification/Go_Json.thy ===== *)
theory Go_Json
  imports Ir
begin

section \<open>Runes and JSON text\<close>

text \<open>
  What the sources use of Go's \<open>range\<close> over a string and of \<open>encoding/json.Marshal\<close>. A \<open>range\<close>
  loop decodes UTF-8; a byte that starts no valid sequence is read as U+FFFD, which
  \<open>WriteRune\<close> writes as three bytes. \<open>json.Marshal\<close> sorts the keys of a map, keeps the text of
  a \<open>json.Number\<close>, and escapes control characters, quotes, backslashes, the three HTML
  characters and the two Unicode line separators. Both belong to the language and have no entry
  in the map.
\<close>

definition byte :: "char \<Rightarrow> nat" where
  "byte c = of_char c"

text \<open>\<open>strings.ToUpper\<close> on ASCII text, all it is applied to.\<close>

definition to_upper :: "string \<Rightarrow> string" where
  "to_upper s = map (\<lambda>c. let n = byte c in if 97 \<le> n \<and> n \<le> 122 then char_of (n - 32) else c) s"

definition cont :: "nat \<Rightarrow> nat \<Rightarrow> char \<Rightarrow> bool" where
  "cont lo hi c \<longleftrightarrow> lo \<le> byte c \<and> byte c \<le> hi"

text \<open>The length of the valid UTF-8 sequence a string starts with, 0 when there is none.\<close>

definition rune_len :: "string \<Rightarrow> nat" where
  "rune_len s =
     (case s of
        [] \<Rightarrow> 0
      | c # t \<Rightarrow>
          if byte c < 0x80 then 1
          else if cont 0xC2 0xDF c then (case t of d # _ \<Rightarrow> if cont 0x80 0xBF d then 2 else 0 | _ \<Rightarrow> 0)
          else if cont 0xE0 0xEF c then
            (case t of d # e # _ \<Rightarrow>
               if cont (if byte c = 0xE0 then 0xA0 else 0x80) (if byte c = 0xED then 0x9F else 0xBF) d \<and> cont 0x80 0xBF e
               then 3 else 0 | _ \<Rightarrow> 0)
          else if cont 0xF0 0xF4 c then
            (case t of d # e # f # _ \<Rightarrow>
               if cont (if byte c = 0xF0 then 0x90 else 0x80) (if byte c = 0xF4 then 0x8F else 0xBF) d \<and>
                  cont 0x80 0xBF e \<and> cont 0x80 0xBF f
               then 4 else 0 | _ \<Rightarrow> 0)
          else 0)"

text \<open>The runes of a string, each as its bytes; \<open>None\<close> is a byte read as U+FFFD.\<close>

fun runes :: "string \<Rightarrow> string option list" where
  "runes [] = []"
| "runes (c # s) =
     (if rune_len (c # s) = 0 then None # runes s
      else Some (take (rune_len (c # s)) (c # s)) # runes (drop (rune_len (c # s) - 1) s))"

definition rune_error :: string where
  "rune_error = [char_of (0xEF :: nat), char_of (0xBF :: nat), char_of (0xBD :: nat)]"

definition write_rune :: "string option \<Rightarrow> string" where
  "write_rune r = (case r of None \<Rightarrow> rune_error | Some s \<Rightarrow> s)"

subsection \<open>json.Marshal\<close>

definition u_escape :: "nat \<Rightarrow> string" where
  "u_escape n = bslash # ''u00'' @ [hex_digit (n div 16), hex_digit (n mod 16)]"

definition json_rune :: "string option \<Rightarrow> string" where
  "json_rune r =
     (case r of
        None \<Rightarrow> bslash # ''ufffd''
      | Some [c] \<Rightarrow>
          if c = dquote \<or> c = bslash then [bslash, c]
          else if byte c = 8 then [bslash, CHR ''b'']
          else if byte c = 12 then [bslash, CHR ''f'']
          else if byte c = 10 then [bslash, CHR ''n'']
          else if byte c = 13 then [bslash, CHR ''r'']
          else if byte c = 9 then [bslash, CHR ''t'']
          else if byte c < 32 \<or> c = CHR ''<'' \<or> c = CHR ''>'' \<or> c = CHR ''&'' then u_escape (byte c)
          else [c]
      | Some s \<Rightarrow>
          if map byte s = [0xE2, 0x80, 0xA8] then bslash # ''u2028''
          else if map byte s = [0xE2, 0x80, 0xA9] then bslash # ''u2029''
          else s)"

definition json_string :: "string \<Rightarrow> string" where
  "json_string s = dquote # concat (map json_rune (runes s)) @ [dquote]"

fun json_marshal :: "json \<Rightarrow> string" where
  "json_marshal JNull = ''null''"
| "json_marshal (JBool b) = (if b then ''true'' else ''false'')"
| "json_marshal (JNumber t) = (if t = [] then ''0'' else t)"
| "json_marshal (JString s) = json_string s"
| "json_marshal (JArray xs) = ''['' @ join '','' (map json_marshal xs) @ '']''"
| "json_marshal (JObject m) =
     ''{'' @ join '','' (map (\<lambda>(k, v). json_string k @ '':'' @ v) (sort_key fst (map (\<lambda>(k, v). (k, json_marshal v)) m))) @ ''}''"

end
