(* ===== verification/Go_Numbers.thy ===== *)
theory Go_Numbers
  imports Pgerr
begin

section \<open>Numbers as texts\<close>

text \<open>
  The rest of \<open>strconv\<close> the sources use. \<open>parse_float_ok\<close> is the acceptance condition of
  \<open>strconv.ParseFloat(s, 64)\<close>: the syntax of \<open>readFloat\<close> and \<open>special\<close>, and the range of a
  \<open>float64\<close> (a text is out of range from half a unit above the largest one). \<open>parse_int_bits\<close> is
  \<open>strconv.ParseInt(s, 10, bits)\<close>.
\<close>

subsection \<open>Floating-point texts\<close>

definition hex_val :: "char \<Rightarrow> int option" where
  "hex_val c =
     (if is_digit c then Some (of_char c - 48)
      else if CHR ''a'' \<le> lower_char c \<and> lower_char c \<le> CHR ''f'' then Some (of_char (lower_char c) - 87)
      else None)"

text \<open>
  The mantissa loop: whether a dot and a digit were seen, the mantissa, the number of digits after
  the dot, and the rest of the text.
\<close>

record mantissa =
  m_dot :: bool
  m_digits :: bool
  m_val :: int
  m_frac :: nat

fun read_mantissa :: "int \<Rightarrow> mantissa \<Rightarrow> string \<Rightarrow> mantissa \<times> string" where
  "read_mantissa bs m [] = (m, [])"
| "read_mantissa bs m (c # s) =
     (if c = CHR ''_'' then read_mantissa bs m s
      else if c = CHR ''.'' then
        (if m_dot m then (m, c # s) else read_mantissa bs (m\<lparr>m_dot := True\<rparr>) s)
      else case (if bs = 16 \<or> is_digit c then hex_val c else None) of
             Some d \<Rightarrow> read_mantissa bs (m\<lparr>m_digits := True, m_val := bs * m_val m + d,
                         m_frac := (if m_dot m then Suc (m_frac m) else 0)\<rparr>) s
           | None \<Rightarrow> (m, c # s))"

text \<open>The exponent digits; the accumulated exponent stops growing at 10000. \<open>None\<close> if anything is left over.\<close>

fun read_exponent :: "int \<Rightarrow> string \<Rightarrow> int option" where
  "read_exponent e [] = Some e"
| "read_exponent e (c # s) =
     (if c = CHR ''_'' then read_exponent e s
      else if is_digit c then read_exponent (if e < 10000 then 10 * e + (of_char c - 48) else e) s
      else None)"

definition exponent_part :: "int \<Rightarrow> string \<Rightarrow> int option" where
  "exponent_part bs s =
     (case s of
        [] \<Rightarrow> if bs = 16 then None else Some 0
      | c # t \<Rightarrow>
          if lower_char c \<noteq> (if bs = 16 then CHR ''p'' else CHR ''e'') then None
          else let u = (case t of d # r \<Rightarrow> if d = CHR ''+'' \<or> d = CHR ''-'' then r else t | [] \<Rightarrow> []) in
            if u = [] \<or> \<not> is_digit (hd u) then None
            else map_option (\<lambda>e. if hd t = CHR ''-'' then - e else e) (read_exponent 0 u))"

definition float_in_range :: "int \<Rightarrow> int \<Rightarrow> int \<Rightarrow> bool" where
  "float_in_range m e b \<longleftrightarrow>
     (if 0 \<le> e then m * b ^ nat e < 2 ^ 1024 - 2 ^ 970 else m < (2 ^ 1024 - 2 ^ 970) * b ^ nat (- e))"

definition underscore_class :: "bool \<Rightarrow> char \<Rightarrow> char" where
  "underscore_class hex c =
     (if is_digit c \<or> hex \<and> hex_val c \<noteq> None then CHR ''0'' else if c = CHR ''_'' then c else CHR ''!'')"

fun underscores_ok :: "bool \<Rightarrow> char \<Rightarrow> string \<Rightarrow> bool" where
  "underscores_ok hex i [] = (i \<noteq> CHR ''_'')"
| "underscores_ok hex i (c # s) =
     (let k = underscore_class hex c in
      (if k = CHR ''_'' then i = CHR ''0'' else k = CHR ''0'' \<or> i \<noteq> CHR ''_'') \<and> underscores_ok hex k s)"

definition strip_sign :: "string \<Rightarrow> string" where
  "strip_sign s = (case s of c # t \<Rightarrow> if c = CHR ''+'' \<or> c = CHR ''-'' then t else s | [] \<Rightarrow> [])"

definition hex_prefix :: "string \<Rightarrow> bool" where
  "hex_prefix s \<longleftrightarrow> 2 < length s \<and> s ! 0 = CHR ''0'' \<and> lower_char (s ! 1) = CHR ''x''"

definition float_number :: "string \<Rightarrow> bool" where
  "float_number s =
     (let u = strip_sign s; hex = hex_prefix u; bs = (if hex then 16 else 10);
          (m, rest) = read_mantissa bs \<lparr>m_dot = False, m_digits = False, m_val = 0, m_frac = 0\<rparr>
                        (if hex then drop 2 u else u)
      in m_digits m \<and>
         (case exponent_part bs rest of
            None \<Rightarrow> False
          | Some e \<Rightarrow>
              (CHR ''_'' \<in> set s \<longrightarrow>
                 (if hex then underscores_ok True CHR ''0'' (drop 2 u) else underscores_ok False CHR ''^'' u)) \<and>
              (if hex then float_in_range (m_val m) (e - 4 * int (m_frac m)) 2
               else float_in_range (m_val m) (e - int (m_frac m)) 10)))"

definition float_special :: "string \<Rightarrow> bool" where
  "float_special s \<longleftrightarrow>
     map lower_char s = ''nan'' \<or> map lower_char (strip_sign s) = ''inf'' \<or> map lower_char (strip_sign s) = ''infinity''"

definition parse_float_ok :: "string \<Rightarrow> bool" where
  "parse_float_ok s \<longleftrightarrow> float_special s \<or> float_number s"

subsection \<open>Integers of a width\<close>

definition parse_int_bits :: "nat \<Rightarrow> string \<Rightarrow> int option" where
  "parse_int_bits bits s =
     (case parse_int64 s of
        None \<Rightarrow> None
      | Some n \<Rightarrow> if - (2 ^ (bits - 1)) \<le> n \<and> n < 2 ^ (bits - 1) then Some n else None)"

subsection \<open>Printing and reading integers\<close>

lemma digit_char_digit: "d < 10 \<Longrightarrow> is_digit (digit_char d) \<and> digit_val (digit_char d) = int d"
proof -
  assume "d < 10"
  then have "d = 0 \<or> d = 1 \<or> d = 2 \<or> d = 3 \<or> d = 4 \<or> d = 5 \<or> d = 6 \<or> d = 7 \<or> d = 8 \<or> d = 9" by presburger
  then show ?thesis by (elim disjE; hypsubst; code_simp)
qed

lemma digits_val_append:
  "digits_val n (s @ t) = (case digits_val n s of None \<Rightarrow> None | Some m \<Rightarrow> digits_val m t)"
  by (induction n s rule: digits_val.induct) auto

lemma digits_show_nat: "digits_val 0 (show_nat n) = Some (int n)"
proof (induction n rule: less_induct)
  case (less n)
  show ?case
  proof (cases "n < 10")
    case True
    then show ?thesis using digit_char_digit [of n] by (subst show_nat.simps) simp
  next
    case False
    then have "digits_val 0 (show_nat (n div 10)) = Some (int (n div 10))" by (intro less) simp
    moreover have "10 * int (n div 10) + int (n mod 10) = int n" by presburger
    ultimately show ?thesis
      using False digit_char_digit [of "n mod 10"] by (subst show_nat.simps) (simp add: digits_val_append)
  qed
qed

lemma show_nat_first: "\<exists>c t. show_nat n = c # t \<and> is_digit c"
proof (induction n rule: less_induct)
  case (less n)
  show ?case
  proof (cases "n < 10")
    case True
    then show ?thesis using digit_char_digit [of n] by (subst show_nat.simps) simp
  next
    case False
    then obtain c t where "show_nat (n div 10) = c # t" "is_digit c" using less [of "n div 10"] by auto
    then show ?thesis using False by (subst show_nat.simps) simp
  qed
qed

lemma parse_show_int:
  assumes "int64_min \<le> n" "n \<le> int64_max"
  shows "parse_int64 (show_int n) = Some n"
proof (cases "n < 0")
  case True
  obtain c t where c: "show_nat (nat (- n)) = c # t" using show_nat_first by blast
  have "parse_uint (show_nat (nat (- n))) = Some (- n)"
    using True digits_show_nat [of "nat (- n)"] c by (simp add: parse_uint_def)
  then show ?thesis using True assms by (simp add: parse_int64_def show_int_def in_int64_def)
next
  case False
  obtain c t where c: "show_nat (nat n) = c # t" "is_digit c" using show_nat_first by blast
  have "c \<noteq> CHR ''+''" "c \<noteq> CHR ''-''" using c(2) by (auto simp: is_digit_def less_eq_char_def)
  moreover have "parse_uint (c # t) = Some n"
    using False digits_show_nat [of "nat n"] c by (simp add: parse_uint_def)
  ultimately show ?thesis using False assms c by (simp add: parse_int64_def show_int_def in_int64_def)
qed

lemma parse_int_bits_range: "parse_int_bits bits s = Some n \<Longrightarrow> - (2 ^ (bits - 1)) \<le> n \<and> n < 2 ^ (bits - 1)"
  by (auto simp: parse_int_bits_def split: option.split_asm if_split_asm)

end
