(* ===== verification/Pgtypes.thy ===== *)
theory Pgtypes
  imports Go_Numbers
begin

section \<open>Package pgtypes: canonical types\<close>

text \<open>
  \<open>src/pgtypes/pgtypes.go\<close> and \<open>src/pgtypes/decode.go\<close>: the table of canonical types, the aliases a
  client may write, and the coercion of a textual operand. \<open>scalar\<close> is the \<open>any\<close> that
  \<open>ParseScalar\<close> returns; a \<open>float64\<close> is represented by the text it was read from.
\<close>

datatype pg_class =
    ClassText | ClassInteger | ClassFloat | ClassNumeric | ClassBool
  | ClassTemporal | ClassUUID | ClassJSON | ClassBytea | ClassOther

record canon =
  cn_class :: pg_class
  cn_bits :: nat

definition canonical :: "canon go_map" where
  "canonical =
     [(''text'', \<lparr>cn_class = ClassText, cn_bits = 0\<rparr>), (''varchar'', \<lparr>cn_class = ClassText, cn_bits = 0\<rparr>),
      (''int2'', \<lparr>cn_class = ClassInteger, cn_bits = 16\<rparr>), (''int4'', \<lparr>cn_class = ClassInteger, cn_bits = 32\<rparr>),
      (''int8'', \<lparr>cn_class = ClassInteger, cn_bits = 64\<rparr>), (''float4'', \<lparr>cn_class = ClassFloat, cn_bits = 0\<rparr>),
      (''float8'', \<lparr>cn_class = ClassFloat, cn_bits = 0\<rparr>), (''numeric'', \<lparr>cn_class = ClassNumeric, cn_bits = 0\<rparr>),
      (''bool'', \<lparr>cn_class = ClassBool, cn_bits = 0\<rparr>), (''timestamp'', \<lparr>cn_class = ClassTemporal, cn_bits = 0\<rparr>),
      (''timestamptz'', \<lparr>cn_class = ClassTemporal, cn_bits = 0\<rparr>), (''date'', \<lparr>cn_class = ClassTemporal, cn_bits = 0\<rparr>),
      (''time'', \<lparr>cn_class = ClassTemporal, cn_bits = 0\<rparr>), (''uuid'', \<lparr>cn_class = ClassUUID, cn_bits = 0\<rparr>),
      (''json'', \<lparr>cn_class = ClassJSON, cn_bits = 0\<rparr>), (''jsonb'', \<lparr>cn_class = ClassJSON, cn_bits = 0\<rparr>),
      (''bytea'', \<lparr>cn_class = ClassBytea, cn_bits = 0\<rparr>)]"

definition aliases :: "string go_map" where
  "aliases =
     [(''smallint'', ''int2''), (''int'', ''int4''), (''integer'', ''int4''), (''bigint'', ''int8''),
      (''serial'', ''int4''), (''bigserial'', ''int8''), (''real'', ''float4''),
      (''double precision'', ''float8''), (''double'', ''float8''), (''float'', ''float8''),
      (''decimal'', ''numeric''), (''boolean'', ''bool''), (''character varying'', ''varchar''),
      (''char'', ''text''), (''bpchar'', ''text''), (''character'', ''text''), (''name'', ''text''),
      (''string'', ''text''), (''timestamptz with time zone'', ''timestamptz''),
      (''timestamp with time zone'', ''timestamptz''), (''timestamp without time zone'', ''timestamp''),
      (''datetime'', ''timestamp'')]"

definition Normalize :: "string \<Rightarrow> string \<times> bool" where
  "Normalize name =
     (let n0 = to_lower (trim_space name);
          n = (case aget aliases n0 of Some a \<Rightarrow> a | None \<Rightarrow> n0)
      in (n, aget canonical n \<noteq> None))"

definition ClassOf :: "string \<Rightarrow> pg_class" where
  "ClassOf name =
     (case Normalize name of (c, ok) \<Rightarrow>
        if \<not> ok then ClassOther
        else case aget canonical c of Some info \<Rightarrow> cn_class info | None \<Rightarrow> ClassText)"

definition Known :: "string \<Rightarrow> bool" where
  "Known name = snd (Normalize name)"

subsection \<open>Coercion\<close>

record coerce_error =
  ce_canonical :: string
  ce_input :: string

datatype scalar = SText string | SInt int | SFloat string | SBool bool

definition parseBool :: "string \<Rightarrow> bool option" where
  "parseBool txt =
     (let s = to_lower (trim_space txt) in
      if s \<in> {''t'', ''true'', ''y'', ''yes'', ''on'', ''1''} then Some True
      else if s \<in> {''f'', ''false'', ''n'', ''no'', ''off'', ''0''} then Some False
      else None)"

definition allDigits :: "string \<Rightarrow> bool" where
  "allDigits s \<longleftrightarrow> s \<noteq> [] \<and> list_all is_digit s"

fun index_exp :: "string \<Rightarrow> nat option" where
  "index_exp [] = None"
| "index_exp (c # s) = (if c = CHR ''e'' \<or> c = CHR ''E'' then Some 0 else map_option Suc (index_exp s))"

definition decimal_mantissa :: "string \<Rightarrow> bool" where
  "decimal_mantissa m =
     (case cut m ''.'' of
        Some (i, f) \<Rightarrow> \<not> (i = [] \<and> f = []) \<and> (i = [] \<or> allDigits i) \<and> (f = [] \<or> allDigits f)
      | None \<Rightarrow> allDigits m)"

definition isDecimal :: "string \<Rightarrow> bool" where
  "isDecimal txt =
     (if txt = [] then False
      else if to_lower (trim_prefix (trim_prefix txt ''+'') ''-'') \<in> {''nan'', ''inf'', ''infinity''} then True
      else let s = strip_sign txt in
        if s = [] then False
        else case index_exp s of
               Some i \<Rightarrow>
                 let e = strip_sign (drop (i + 1) s) in
                 e \<noteq> [] \<and> allDigits e \<and> decimal_mantissa (take i s)
             | None \<Rightarrow> decimal_mantissa s)"

definition uuid_char :: "char \<Rightarrow> char option" where
  "uuid_char c =
     (if is_digit c \<or> CHR ''a'' \<le> c \<and> c \<le> CHR ''f'' then Some c
      else if CHR ''A'' \<le> c \<and> c \<le> CHR ''F'' then Some (lower_char c)
      else None)"

fun hyphenate_from :: "nat \<Rightarrow> string \<Rightarrow> string option" where
  "hyphenate_from i [] = Some []"
| "hyphenate_from i (c # s) =
     (case uuid_char c of
        None \<Rightarrow> None
      | Some d \<Rightarrow>
          map_option (\<lambda>r. (if i \<in> {8, 12, 16, 20} then [CHR ''-''] else []) @ d # r) (hyphenate_from (Suc i) s))"

definition trim_suffix :: "string \<Rightarrow> string \<Rightarrow> string" where
  "trim_suffix s p = (if has_suffix s p then take (length s - length p) s else s)"

definition normalizeUUID :: "string \<Rightarrow> string option" where
  "normalizeUUID txt =
     (let s = filter (\<lambda>c. c \<noteq> CHR ''-'') (trim_suffix (trim_prefix (trim_space txt) ''{'') ''}'') in
      if length s \<noteq> 32 then None else hyphenate_from 0 s)"

definition ParseScalar :: "string \<Rightarrow> string \<Rightarrow> coerce_error + scalar" where
  "ParseScalar typeName txt =
     (case Normalize typeName of (cname, ok) \<Rightarrow>
        if \<not> ok then Inr (SText txt)
        else let info = (case aget canonical cname of Some i \<Rightarrow> i | None \<Rightarrow> \<lparr>cn_class = ClassText, cn_bits = 0\<rparr>);
                 bad = Inl \<lparr>ce_canonical = cname, ce_input = txt\<rparr>
             in case cn_class info of
                  ClassInteger \<Rightarrow>
                    (case parse_int_bits (cn_bits info) (trim_space txt) of None \<Rightarrow> bad | Some n \<Rightarrow> Inr (SInt n))
                | ClassFloat \<Rightarrow> if parse_float_ok (trim_space txt) then Inr (SFloat (trim_space txt)) else bad
                | ClassNumeric \<Rightarrow> if isDecimal (trim_space txt) then Inr (SText txt) else bad
                | ClassBool \<Rightarrow> (case parseBool txt of None \<Rightarrow> bad | Some b \<Rightarrow> Inr (SBool b))
                | ClassUUID \<Rightarrow> (case normalizeUUID txt of None \<Rightarrow> bad | Some u \<Rightarrow> Inr (SText u))
                | _ \<Rightarrow> Inr (SText txt))"

section \<open>Facts about types\<close>

text \<open>Every alias names a canonical type, and no canonical name is an alias.\<close>

lemma aliases_canonical: "list_all (\<lambda>(a, c). aget canonical c \<noteq> None \<and> aget canonical a = None) aliases"
  by (simp add: aliases_def canonical_def)

lemma Normalize_canonical:
  assumes "Normalize name = (c, True)"
  shows "aget canonical c \<noteq> None" and "aget aliases c = None"
proof -
  show can: "aget canonical c \<noteq> None" using assms by (auto simp: Normalize_def Let_def)
  show "aget aliases c = None"
  proof (rule ccontr)
    assume "aget aliases c \<noteq> None"
    then obtain d where "(c, d) \<in> set aliases" by (auto dest: aget_SomeD)
    then have "aget canonical c = None" using aliases_canonical by (auto simp: list_all_iff)
    with can show False by simp
  qed
qed

subsection \<open>uuids\<close>

definition uuid_ok :: "char \<Rightarrow> bool" where
  "uuid_ok d \<longleftrightarrow> uuid_char d = Some d \<and> d \<noteq> CHR ''-'' \<and> graphic d \<and> d \<noteq> CHR ''{'' \<and> d \<noteq> CHR ''}''"

lemma uuid_char_ok: "uuid_char c = Some d \<Longrightarrow> uuid_ok d"
  by (auto simp: uuid_ok_def uuid_char_def is_digit_def lower_char_def graphic_def less_eq_char_def split: if_split_asm)

lemma hyphenate_Some:
  "hyphenate_from i (c # s) = Some u \<Longrightarrow> \<exists>d r. uuid_ok d \<and> hyphenate_from (Suc i) s = Some r \<and>
     u = (if i \<in> {8, 12, 16, 20} then [CHR ''-''] else []) @ d # r"
  using uuid_char_ok by (fastforce split: option.split_asm)

lemma hyphenate_fixed:
  "hyphenate_from i s = Some u \<Longrightarrow>
   hyphenate_from i (filter (\<lambda>c. c \<noteq> CHR ''-'') u) = Some u \<and>
   length (filter (\<lambda>c. c \<noteq> CHR ''-'') u) = length s \<and>
   (\<forall>c \<in> set u. graphic c \<and> c \<noteq> CHR ''{'' \<and> c \<noteq> CHR ''}'')"
proof (induction s arbitrary: i u)
  case (Cons c s)
  obtain d r where d: "uuid_ok d" and r: "hyphenate_from (Suc i) s = Some r"
    and u: "u = (if i \<in> {8, 12, 16, 20} then [CHR ''-''] else []) @ d # r"
    using hyphenate_Some [OF Cons.prems] by blast
  have hy: "graphic CHR ''-''" by (simp add: graphic_def less_eq_char_def)
  have ok: "uuid_char d = Some d" "d \<noteq> CHR ''-''" "graphic d" "d \<noteq> CHR ''{''" "d \<noteq> CHR ''}''"
    using d by (simp_all add: uuid_ok_def)
  show ?case using Cons.IH [OF r] ok hy by (auto simp: u)
qed simp

lemma trim_braces_none:
  assumes "\<forall>c \<in> set u. graphic c \<and> c \<noteq> CHR ''{'' \<and> c \<noteq> CHR ''}''"
  shows "trim_suffix (trim_prefix (trim_space u) ''{'') ''}'' = u"
proof -
  have t: "trim_space u = u" using assms by (intro trim_space_all_graphic) blast
  have p: "\<not> has_prefix u ''{''" using assms by (cases u) (auto simp: has_prefix_def)
  have "\<not> has_suffix u ''}''"
  proof (cases u rule: rev_cases)
    case (snoc v c)
    then show ?thesis using assms by (simp add: has_suffix_def)
  qed (simp add: has_suffix_def)
  then show ?thesis using t p by (simp add: trim_prefix_def trim_suffix_def)
qed

lemma normalizeUUID_fixed:
  assumes "normalizeUUID txt = Some u"
  shows "normalizeUUID u = Some u" and "length (filter (\<lambda>c. c \<noteq> CHR ''-'') u) = 32"
proof -
  let ?s = "filter (\<lambda>c. c \<noteq> CHR ''-'') (trim_suffix (trim_prefix (trim_space txt) ''{'') ''}'')"
  have s: "length ?s = 32" "hyphenate_from 0 ?s = Some u"
    using assms by (auto simp: normalizeUUID_def Let_def split: if_split_asm)
  note fixd = hyphenate_fixed [OF s(2)]
  show len: "length (filter (\<lambda>c. c \<noteq> CHR ''-'') u) = 32" using fixd s(1) by simp
  have "trim_suffix (trim_prefix (trim_space u) ''{'') ''}'' = u" using fixd by (intro trim_braces_none) blast
  then show "normalizeUUID u = Some u" using fixd len by (simp add: normalizeUUID_def Let_def)
qed

subsection \<open>Integers\<close>

definition int_bits :: "string \<Rightarrow> nat option" where
  "int_bits ty = (case Normalize ty of (c, ok) \<Rightarrow>
     (case aget canonical c of Some i \<Rightarrow> if cn_class i = ClassInteger then Some (cn_bits i) else None | None \<Rightarrow> None))"

lemma int_bits_widths: "int_bits ty = Some b \<Longrightarrow> b \<in> {16, 32, 64}"
  by (auto simp: int_bits_def canonical_def split: if_split_asm option.split_asm prod.split_asm)

lemma ParseScalar_int:
  "int_bits ty = Some b \<Longrightarrow> ParseScalar ty txt =
     (case parse_int_bits b (trim_space txt) of
        None \<Rightarrow> Inl \<lparr>ce_canonical = fst (Normalize ty), ce_input = txt\<rparr>
      | Some n \<Rightarrow> Inr (SInt n))"
proof -
  assume ty: "int_bits ty = Some b"
  obtain c ok where n: "Normalize ty = (c, ok)" by fastforce
  then have "ok = (aget canonical c \<noteq> None)" by (auto simp: Normalize_def Let_def)
  moreover obtain i where "aget canonical c = Some i" "cn_class i = ClassInteger" "cn_bits i = b"
    using ty by (auto simp: int_bits_def n split: option.split_asm if_split_asm)
  ultimately show ?thesis by (simp add: ParseScalar_def n split: option.split)
qed

lemma show_int_graphic: "\<forall>c \<in> set (show_int n). graphic c"
proof -
  have dig: "graphic (digit_char d)" if "d < 10" for d
    using digit_char_digit [OF that] by (auto simp: is_digit_def graphic_def less_eq_char_def)
  have nat: "\<forall>c \<in> set (show_nat m). graphic c" for m
  proof (induction m rule: less_induct)
    case (less m)
    show ?case
    proof (cases "m < 10")
      case True
      then show ?thesis using dig by (subst show_nat.simps) simp
    next
      case False
      then show ?thesis using less [of "m div 10"] dig [of "m mod 10"] by (subst show_nat.simps) auto
    qed
  qed
  then show ?thesis by (auto simp: show_int_def graphic_def less_eq_char_def)
qed

subsection \<open>Properties\<close>

text \<open>
  Integer operands keep their width. A text coerced to an integer type lies in the range of the
  type's 16, 32 or 64 bits, and every integer of that range is read back from its decimal text.
\<close>

theorem integer_coercion:
  assumes "int_bits ty = Some b"
  shows "(\<forall>txt v. ParseScalar ty txt = Inr v \<longrightarrow> (\<exists>n. v = SInt n \<and> - (2 ^ (b - 1)) \<le> n \<and> n < 2 ^ (b - 1))) \<and>
    (\<forall>n. - (2 ^ (b - 1)) \<le> n \<longrightarrow> n < 2 ^ (b - 1) \<longrightarrow> ParseScalar ty (show_int n) = Inr (SInt n))"
proof (intro conjI allI impI)
  fix inp v assume "ParseScalar ty inp = Inr v"
  then show "\<exists>n. v = SInt n \<and> - (2 ^ (b - 1)) \<le> n \<and> n < 2 ^ (b - 1)"
    unfolding ParseScalar_int [OF assms]
    by (auto split: option.split_asm dest!: parse_int_bits_range)
next
  fix n :: int assume n: "- (2 ^ (b - 1)) \<le> n" "n < 2 ^ (b - 1)"
  have "b \<in> {16, 32, 64}" using int_bits_widths [OF assms] .
  then have "int64_min \<le> n" "n \<le> int64_max" using n by (auto simp: int64_min_def int64_max_def)
  then have "parse_int64 (show_int n) = Some n" by (rule parse_show_int)
  moreover have "trim_space (show_int n) = show_int n" by (rule trim_space_all_graphic) (rule show_int_graphic)
  ultimately show "ParseScalar ty (show_int n) = Inr (SInt n)"
    using n by (simp add: ParseScalar_int [OF assms] parse_int_bits_def)
qed

theorem integer_coercion_witness:
  "ParseScalar ''integer'' (show_int (- 2147483648)) = Inr (SInt (- 2147483648))"
proof -
  have "int_bits ''integer'' = Some 32" by code_simp
  from integer_coercion [OF this] show ?thesis by simp
qed

text \<open>
  uuids are normalized: whatever spelling is accepted, the value is 32 hexadecimal digits with
  hyphens, and reading it again gives it back unchanged.
\<close>

theorem uuid_normal_form:
  assumes "normalizeUUID txt = Some u"
  shows "normalizeUUID u = Some u \<and> length (filter (\<lambda>c. c \<noteq> CHR ''-'') u) = 32"
  using normalizeUUID_fixed [OF assms] by simp

theorem uuid_normal_form_witness:
  "normalizeUUID ''a0eebc99-9c0b-4ef8-bb6d-6bb9bd380a11'' = Some ''a0eebc99-9c0b-4ef8-bb6d-6bb9bd380a11''"
proof -
  have "normalizeUUID ''{A0EEBC999C0B4EF8BB6D6BB9BD380A11}'' = Some ''a0eebc99-9c0b-4ef8-bb6d-6bb9bd380a11''" by code_simp
  from uuid_normal_form [OF this] show ?thesis by simp
qed

text \<open>
  The numeric check strips two signs before it looks for the special values, so texts such as
  \<open>+-nan\<close>, which are not numeric literals, are accepted and handed to the engine.
\<close>

theorem numeric_accepts_two_signs:
  "ParseScalar ''numeric'' ''+-nan'' = Inr (SText ''+-nan'') \<and> isl (ParseScalar ''numeric'' ''+-1'')"
  by code_simp

end
