(* ===== verification/Sqlgen.thy ===== *)
theory Sqlgen
  imports Go_Json Pgtypes
begin

section \<open>Package sqlgen: dialects and the statement builder\<close>

text \<open>
  \<open>src/backend/sqlgen/dialect.go\<close> and \<open>src/backend/sqlgen/compile.go\<close>. The interface \<open>Dialect\<close> is
  the record \<open>dialect\<close>; a pair of a text and \<open>ok\<close> is an option. The builder is the record
  \<open>builder\<close> and its methods are functions on it of type \<open>'a sql\<close>: \<open>None\<close> is a panic (an index out of
  range, a nil dereference) or a recursion that does not return, \<open>Some (Inl e)\<close> the error
  the method returns, \<open>Some (Inr (x, b))\<close> its result with the builder it leaves. The text of a
  statement grows by \<open>emit\<close>, its arguments by \<open>bindv\<close>.
\<close>

subsection \<open>Dialects\<close>

text \<open>\<open>ARaw\<close> is a decoded value handed to the driver as it is.\<close>

datatype sql_arg = ANull | AText string | AInt int | AFloat string | ABool bool | ARaw json

record json_pair =
  pr_key :: string
  pr_value :: string

record upsert_spec =
  us_target :: "string list"
  us_update :: "string list"
  us_ignore :: bool

record full_text_ref =
  ft_table :: string
  ft_rowid_ref :: string

record dialect =
  QuoteIdent :: "string \<Rightarrow> string"
  Placeholder :: "nat \<Rightarrow> string"
  LimitOffset :: "int option \<Rightarrow> int option \<Rightarrow> bool \<Rightarrow> string"
  NullsOrder :: "string \<Rightarrow> string \<Rightarrow> bool \<Rightarrow> bool option \<Rightarrow> string \<times> string"
  Returning :: "string list \<Rightarrow> string option"
  DUpsert :: "upsert_spec \<Rightarrow> string + string"
  JSONObject :: "json_pair list \<Rightarrow> string"
  JSONAgg :: "string \<Rightarrow> string \<Rightarrow> string"
  DCast :: "string \<Rightarrow> string \<Rightarrow> string"
  Regex :: "string \<Rightarrow> string \<Rightarrow> bool \<Rightarrow> string option"
  RegexFeatureGap :: "string \<Rightarrow> string"
  FullText :: "string \<Rightarrow> string \<Rightarrow> full_text_ref option \<Rightarrow> fts_variant \<Rightarrow> string \<Rightarrow> string \<Rightarrow> (string \<times> string) option"
  SessionRead :: "string \<Rightarrow> string"
  SessionWrite :: "string \<Rightarrow> string option"
  ILike :: "string \<Rightarrow> string \<Rightarrow> string option"
  BoolValue :: "bool \<Rightarrow> string"
  IsBool :: "string \<Rightarrow> bool \<Rightarrow> string option"
  IsUnknown :: "string \<Rightarrow> string option"
  ArrayOp :: "string \<Rightarrow> string \<Rightarrow> string \<Rightarrow> string \<Rightarrow> string option"
  ArrayLiteral :: "string \<Rightarrow> string"
  InList :: "string \<Rightarrow> string option"
  ArrayArg :: "json list \<Rightarrow> string \<Rightarrow> sql_arg"
  JSONPath :: "string \<Rightarrow> string list \<Rightarrow> bool \<Rightarrow> string option"
  RangeOp :: "string \<Rightarrow> string \<Rightarrow> string \<Rightarrow> string option"

definition PatternMark :: string where
  "PatternMark = ''$PAT$''"

text \<open>\<open>strings.Replace(s, old, new, 1)\<close> and \<open>strings.ReplaceAll\<close> of a one-byte text.\<close>

definition replace_first :: "string \<Rightarrow> string \<Rightarrow> string \<Rightarrow> string" where
  "replace_first s old new = (case cut s old of None \<Rightarrow> s | Some (x, y) \<Rightarrow> x @ new @ y)"

definition replace_char :: "char \<Rightarrow> string \<Rightarrow> string \<Rightarrow> string" where
  "replace_char c new s = concat (map (\<lambda>x. if x = c then new else [x]) s)"

definition IsJSONArrayIndex :: "string \<Rightarrow> bool" where
  "IsJSONArrayIndex seg \<longleftrightarrow> seg \<noteq> [] \<and> list_all is_digit seg"

subsection \<open>Driver arguments\<close>

definition pgArrayElemNeedsQuote :: "string \<Rightarrow> bool" where
  "pgArrayElemNeedsQuote s \<longleftrightarrow> s = [] \<or> equal_fold s ''null'' \<or>
     list_ex (\<lambda>c. c \<in> {CHR '','', CHR ''{'', CHR ''}'', dquote, bslash, CHR '' '', char_of (9 :: nat), char_of (10 :: nat), char_of (13 :: nat)}) s"

definition array_quote :: "string \<Rightarrow> string" where
  "array_quote s = dquote # concat (map (\<lambda>r.
     (if r = Some [dquote] \<or> r = Some [bslash] then [bslash] else []) @ write_rune r) (runes s)) @ [dquote]"

definition array_elem :: "json \<Rightarrow> string" where
  "array_elem v =
     (case v of
        JNull \<Rightarrow> ''NULL''
      | JBool b \<Rightarrow> (if b then ''t'' else ''f'')
      | JNumber t \<Rightarrow> t
      | JString s \<Rightarrow> if pgArrayElemNeedsQuote s then array_quote s else s
      | _ \<Rightarrow> json_marshal v)"

definition PGArrayLiteral :: "json list \<Rightarrow> string" where
  "PGArrayLiteral elems = ''{'' @ join '','' (map array_elem elems) @ ''}''"

definition JSONArrayArg :: "json list \<Rightarrow> sql_arg" where
  "JSONArrayArg elems = AText (json_marshal (JArray elems))"

definition writeArg :: "dialect \<Rightarrow> ir_value \<Rightarrow> string \<Rightarrow> sql_arg" where
  "writeArg d v colType =
     (case v_json v of
        JNull \<Rightarrow> ANull
      | JNumber t \<Rightarrow> (case parse_int64 t of Some i \<Rightarrow> AInt i | None \<Rightarrow> if parse_float_ok t then AFloat t else AText t)
      | JArray xs \<Rightarrow> ArrayArg d xs colType
      | JObject m \<Rightarrow> AText (json_marshal (JObject m))
      | JString s \<Rightarrow> AText s
      | JBool b \<Rightarrow> ABool b)"

subsection \<open>The builder\<close>

record builder =
  b_sb :: string
  b_args :: "sql_arg list"
  b_qual :: string
  b_aliasN :: nat
  b_parentRef :: string
  b_embeds :: "embed list"
  b_groupBy :: "string list"
  b_hasAgg :: bool
  b_ctxArgs :: "sql_arg go_map"
  b_computed :: "string go_map"
  b_rootRow :: string
  b_reps :: "ir_rep go_map"

type_synonym 'a sql = "builder \<Rightarrow> (api_error + 'a \<times> builder) option"

record statement =
  st_sql :: string
  st_args :: "sql_arg list"

definition newBuilder :: builder where
  "newBuilder = \<lparr>b_sb = [], b_args = [], b_qual = [], b_aliasN = 0, b_parentRef = [], b_embeds = [],
     b_groupBy = [], b_hasAgg = False, b_ctxArgs = [], b_computed = [], b_rootRow = [], b_reps = []\<rparr>"

definition ret :: "'a \<Rightarrow> 'a sql" where
  "ret x b = Some (Inr (x, b))"

definition fail :: "api_error \<Rightarrow> 'a sql" where
  "fail e b = Some (Inl e)"

definition panic :: "'a sql" where
  "panic b = None"

definition andthen :: "'a sql \<Rightarrow> ('a \<Rightarrow> 'b sql) \<Rightarrow> 'b sql" where
  "andthen m f b =
     (case m b of
        None \<Rightarrow> None
      | Some (Inl e) \<Rightarrow> Some (Inl e)
      | Some (Inr (x, b')) \<Rightarrow> f x b')"

definition modify :: "(builder \<Rightarrow> builder) \<Rightarrow> unit sql" where
  "modify f b = Some (Inr ((), f b))"

definition gets :: "(builder \<Rightarrow> 'a) \<Rightarrow> 'a sql" where
  "gets f b = Some (Inr (f b, b))"

definition emit :: "string \<Rightarrow> unit sql" where
  "emit s = modify (\<lambda>b. b\<lparr>b_sb := b_sb b @ s\<rparr>)"

text \<open>A loop over a list that stops at the first error, and the same with a text between the turns.\<close>

fun each :: "('a \<Rightarrow> 'b sql) \<Rightarrow> 'a list \<Rightarrow> 'b list sql" where
  "each f [] = ret []"
| "each f (x # xs) = andthen (f x) (\<lambda>y. andthen (each f xs) (\<lambda>ys. ret (y # ys)))"

fun each_sep :: "string \<Rightarrow> ('a \<Rightarrow> unit sql) \<Rightarrow> 'a list \<Rightarrow> unit sql" where
  "each_sep sep f [] = ret ()"
| "each_sep sep f [x] = f x"
| "each_sep sep f (x # xs) = andthen (f x) (\<lambda>_. andthen (emit sep) (\<lambda>_. each_sep sep f xs))"

text \<open>\<open>capture\<close> runs a writer on an empty buffer and returns what it wrote.\<close>

definition capture :: "unit sql \<Rightarrow> string sql" where
  "capture f = andthen (gets b_sb) (\<lambda>saved.
     andthen (modify (\<lambda>b. b\<lparr>b_sb := []\<rparr>)) (\<lambda>_.
     andthen f (\<lambda>_.
     andthen (gets b_sb) (\<lambda>out.
     andthen (modify (\<lambda>b. b\<lparr>b_sb := saved\<rparr>)) (\<lambda>_. ret out)))))"

definition bindv :: "dialect \<Rightarrow> sql_arg \<Rightarrow> string sql" where
  "bindv d v = andthen (modify (\<lambda>b. b\<lparr>b_args := b_args b @ [v]\<rparr>)) (\<lambda>_.
     gets (\<lambda>b. Placeholder d (length (b_args b))))"

definition colRef :: "dialect \<Rightarrow> builder \<Rightarrow> string \<Rightarrow> string" where
  "colRef d b name =
     (case aget (b_computed b) name of
        Some sch \<Rightarrow>
          QuoteIdent d sch @ ''.'' @ QuoteIdent d name @ ''('' @ (if b_qual b = [] then b_rootRow b else b_qual b) @ '')''
      | None \<Rightarrow> if b_qual b = [] then QuoteIdent d name else b_qual b @ ''.'' @ QuoteIdent d name)"

definition useRelation :: "dialect \<Rightarrow> query \<Rightarrow> string \<Rightarrow> builder \<Rightarrow> builder" where
  "useRelation d q relName b =
     b\<lparr>b_computed := q_computed (base q), b_reps := q_reps (base q), b_rootRow := QuoteIdent d relName\<rparr>"

text \<open>Restoring what \<open>useRelation\<close> and the qualifier replaced, on the way out of an embed.\<close>

definition restore_relation :: "builder \<Rightarrow> builder \<Rightarrow> builder" where
  "restore_relation saved b =
     b\<lparr>b_qual := b_qual saved, b_computed := b_computed saved, b_reps := b_reps saved, b_rootRow := b_rootRow saved\<rparr>"

definition repCall :: "dialect \<Rightarrow> string \<times> string \<Rightarrow> string \<Rightarrow> string" where
  "repCall d f arg = QuoteIdent d (fst f) @ ''.'' @ QuoteIdent d (snd f) @ ''('' @ arg @ '')''"

definition fromTextValue :: "dialect \<Rightarrow> string \<Rightarrow> bool \<Rightarrow> string \<Rightarrow> string sql" where
  "fromTextValue d colName isJSON raw =
     andthen (bindv d (AText raw)) (\<lambda>ph.
       if isJSON then ret ph
       else gets (\<lambda>b. case aget (b_reps b) colName of
                        Some rep \<Rightarrow> if snd (irep_from_text rep) \<noteq> [] then repCall d (irep_from_text rep) (ph @ ''::text'') else ph
                      | None \<Rightarrow> ph))"

text \<open>\<open>c.Path[0]\<close>, which panics on an empty path.\<close>

definition path0 :: "string list \<Rightarrow> string sql" where
  "path0 p = (case p of [] \<Rightarrow> panic | c # _ \<Rightarrow> ret c)"

definition filterValue :: "dialect \<Rightarrow> compare \<Rightarrow> string sql" where
  "filterValue d c = andthen (path0 (cmp_path c)) (\<lambda>p0. fromTextValue d p0 (length (cmp_path c) > 1) (v_text (cmp_value c)))"

definition writeValue :: "dialect \<Rightarrow> string \<Rightarrow> ir_value \<Rightarrow> string \<Rightarrow> string sql" where
  "writeValue d col v colType =
     andthen (gets (\<lambda>b. aget (b_reps b) col)) (\<lambda>r.
       case r of
         Some rep \<Rightarrow>
           if snd (irep_from_json rep) \<noteq> []
           then andthen (bindv d (AText (json_marshal (v_json v)))) (\<lambda>ph. ret (repCall d (irep_from_json rep) (ph @ ''::json'')))
           else bindv d (writeArg d v colType)
       | None \<Rightarrow> bindv d (writeArg d v colType))"

definition sortedKeys :: "'v go_map \<Rightarrow> string list" where
  "sortedKeys m = sort (keys_of m)"

definition qualify :: "dialect \<Rightarrow> ref \<Rightarrow> string" where
  "qualify d r =
     (if ref_schema r = [] then QuoteIdent d (ref_name r)
      else QuoteIdent d (ref_schema r) @ ''.'' @ QuoteIdent d (ref_name r))"

subsection \<open>Column expressions\<close>

definition jsonPathExpr :: "dialect \<Rightarrow> string \<Rightarrow> string list \<Rightarrow> json_step \<Rightarrow> string sql" where
  "jsonPathExpr d bs hops lst =
     (case JSONPath d bs hops (lst = JSONArrow2) of
        None \<Rightarrow> fail (ErrUnsupported ''JSON path'' ''sql'')
      | Some frag \<Rightarrow> ret frag)"

text \<open>\<open>colRef\<close> of the first segment, with the sub-path lowered when there is one.\<close>

definition path_expr :: "dialect \<Rightarrow> string list \<Rightarrow> json_step \<Rightarrow> string sql" where
  "path_expr d path lst =
     andthen (path0 path) (\<lambda>p0.
     andthen (gets (\<lambda>b. colRef d b p0)) (\<lambda>col.
       if length path > 1 then jsonPathExpr d col (tl path) lst else ret col))"

definition is_star :: "ir_column \<Rightarrow> bool" where
  "is_star c \<longleftrightarrow> c_path c = [''*''] \<and> c_cast c = [] \<and> c_last c = JSONNone"

definition columnExpr :: "dialect \<Rightarrow> ir_column \<Rightarrow> string sql" where
  "columnExpr d c =
     (if is_star c then gets (\<lambda>b. if b_qual b = [] then ''*'' else b_qual b @ ''.*'')
      else andthen (path_expr d (c_path c) (c_last c)) (\<lambda>e.
           andthen (gets (\<lambda>b.
             if length (c_path c) \<le> 1 \<and> c_cast c = []
             then (case c_path c of
                     p0 # _ \<Rightarrow> (case aget (b_reps b) p0 of
                                 Some rep \<Rightarrow> if snd (irep_to_json rep) \<noteq> [] then repCall d (irep_to_json rep) e else e
                               | None \<Rightarrow> e)
                   | [] \<Rightarrow> e)
             else e)) (\<lambda>e'.
             ret (if c_cast c \<noteq> [] then DCast d e' (c_cast c) else e'))))"

definition repAppliedToJSON :: "builder \<Rightarrow> ir_column \<Rightarrow> bool" where
  "repAppliedToJSON b c =
     (case c_path c of
        [p0] \<Rightarrow> c_cast c = [] \<and> (case aget (b_reps b) p0 of Some rep \<Rightarrow> snd (irep_to_json rep) \<noteq> [] | None \<Rightarrow> False)
      | _ \<Rightarrow> False)"

definition lastPath :: "string list \<Rightarrow> string" where
  "lastPath p = (if p = [] then [] else last p)"

definition aggregateExpr :: "dialect \<Rightarrow> aggregate \<Rightarrow> string sql" where
  "aggregateExpr d a =
     andthen (case a_arg a of
                None \<Rightarrow> ret (agg_func_string (a_func a) @ ''(*)'')
              | Some c \<Rightarrow> andthen (columnExpr d c) (\<lambda>arg. ret (agg_func_string (a_func a) @ ''('' @ arg @ '')'')))
       (\<lambda>inner. ret (if a_cast a \<noteq> [] then DCast d inner (a_cast a) else inner))"

definition select_item_sql :: "dialect \<Rightarrow> select_item \<Rightarrow> unit sql" where
  "select_item_sql d it =
     (case it of
        SColumn c \<Rightarrow>
          andthen (columnExpr d c) (\<lambda>e.
          andthen (emit e) (\<lambda>_.
          andthen (gets (\<lambda>b. repAppliedToJSON b c)) (\<lambda>rep.
          andthen (let name = column_out_name c in
                   if name \<noteq> [] \<and> (name \<noteq> lastPath (c_path c) \<or> c_cast c \<noteq> [] \<or> length (c_path c) > 1 \<or> rep)
                   then emit ('' AS '' @ QuoteIdent d name) else ret ()) (\<lambda>_.
            modify (\<lambda>b. b\<lparr>b_groupBy := b_groupBy b @ [e]\<rparr>)))))
      | SAggregate a \<Rightarrow>
          andthen (aggregateExpr d a) (\<lambda>e.
          andthen (emit e) (\<lambda>_.
          andthen (emit ('' AS '' @ QuoteIdent d (aggregate_name a))) (\<lambda>_.
            modify (\<lambda>b. b\<lparr>b_hasAgg := True\<rparr>))))
      | SEmbedRef i \<Rightarrow> fail (ErrUnsupported ''embedded resources in select'' ''sql''))"

definition writeSelect :: "dialect \<Rightarrow> select_item list \<Rightarrow> unit sql" where
  "writeSelect d items = (if items = [] then emit ''*'' else each_sep '', '' (select_item_sql d) items)"

subsection \<open>Comparisons\<close>

definition binaryOp :: "filter_op \<Rightarrow> string" where
  "binaryOp op =
     (case op of OpEq \<Rightarrow> ''='' | OpNeq \<Rightarrow> ''<>'' | OpGt \<Rightarrow> ''>'' | OpGte \<Rightarrow> ''>='' | OpLt \<Rightarrow> ''<'' | OpLte \<Rightarrow> ''<=''
      | OpLike \<Rightarrow> ''LIKE'' | OpILike \<Rightarrow> ''ILIKE'' | _ \<Rightarrow> ''='')"

definition op_index :: "filter_op \<Rightarrow> nat" where
  "op_index op =
     (case op of OpEq \<Rightarrow> 0 | OpNeq \<Rightarrow> 1 | OpGt \<Rightarrow> 2 | OpGte \<Rightarrow> 3 | OpLt \<Rightarrow> 4 | OpLte \<Rightarrow> 5 | OpLike \<Rightarrow> 6 | OpILike \<Rightarrow> 7
      | OpMatch \<Rightarrow> 8 | OpIMatch \<Rightarrow> 9 | OpIn \<Rightarrow> 10 | OpIs \<Rightarrow> 11 | OpIsDistinct \<Rightarrow> 12 | OpFTS \<Rightarrow> 13 | OpContains \<Rightarrow> 14
      | OpContained \<Rightarrow> 15 | OpOverlap \<Rightarrow> 16 | OpRangeSL \<Rightarrow> 17 | OpRangeSR \<Rightarrow> 18 | OpRangeNXR \<Rightarrow> 19 | OpRangeNXL \<Rightarrow> 20
      | OpRangeAdj \<Rightarrow> 21)"

definition opName :: "filter_op \<Rightarrow> string" where
  "opName op =
     (case op of OpIsDistinct \<Rightarrow> ''isdistinct'' | OpFTS \<Rightarrow> ''fts'' | OpContains \<Rightarrow> ''cs'' | OpContained \<Rightarrow> ''cd''
      | OpOverlap \<Rightarrow> ''ov'' | OpRangeSL \<Rightarrow> ''sl'' | OpRangeSR \<Rightarrow> ''sr'' | OpRangeNXR \<Rightarrow> ''nxr'' | OpRangeNXL \<Rightarrow> ''nxl''
      | OpRangeAdj \<Rightarrow> ''adj'' | _ \<Rightarrow> ''op('' @ show_nat (op_index op) @ '')'')"

definition array_op_sql :: "filter_op \<Rightarrow> string" where
  "array_op_sql op = (case op of OpContains \<Rightarrow> ''@>'' | OpContained \<Rightarrow> ''<@'' | _ \<Rightarrow> ''&&'')"

definition range_op_sql :: "filter_op \<Rightarrow> string" where
  "range_op_sql op =
     (case op of OpRangeSL \<Rightarrow> ''<<'' | OpRangeSR \<Rightarrow> ''>>'' | OpRangeNXR \<Rightarrow> ''&<'' | OpRangeNXL \<Rightarrow> ''&>'' | _ \<Rightarrow> ''-|-'')"

text \<open>A dialect's \<open>ok = false\<close> as the error the compiler raises for it.\<close>

definition supported :: "string \<Rightarrow> string option \<Rightarrow> string sql" where
  "supported what r = (case r of None \<Rightarrow> fail (ErrUnsupported what ''sql'') | Some frag \<Rightarrow> ret frag)"

definition regex_sql :: "dialect \<Rightarrow> string \<Rightarrow> string \<Rightarrow> bool \<Rightarrow> bool \<Rightarrow> string \<Rightarrow> string sql" where
  "regex_sql d col colName isJSON ci pat =
     (if RegexFeatureGap d pat \<noteq> [] then fail (ErrUnsupported (RegexFeatureGap d pat) ''sql'')
      else andthen (supported ''regular-expression match'' (Regex d col pat ci)) (\<lambda>e.
           andthen (fromTextValue d colName isJSON pat) (\<lambda>v. ret (replace_first e PatternMark v))))"

definition writeFTS :: "dialect \<Rightarrow> compare \<Rightarrow> string \<Rightarrow> string sql" where
  "writeFTS d c col =
     andthen (gets (\<lambda>b. map_option (\<lambda>ix.
       \<lparr>ft_table = QuoteIdent d (fti_name ix),
        ft_rowid_ref = colRef d b (if fti_rowid_column ix = [] then ''rowid'' else fti_rowid_column ix)\<rparr>) (cmp_full_text c))) (\<lambda>r.
       case FullText d col (cmp_column_type c) r (cmp_fts c) (cmp_config c) (v_text (cmp_value c)) of
         None \<Rightarrow> andthen (path0 (cmp_path c)) (\<lambda>p0. fail (ErrFullTextUnavailable p0 ''sql''))
       | Some (e, v) \<Rightarrow> andthen (bindv d (AText v)) (\<lambda>ph. ret (replace_first e PatternMark ph)))"

definition writeIn :: "dialect \<Rightarrow> string \<Rightarrow> string \<Rightarrow> bool \<Rightarrow> string list \<Rightarrow> string sql" where
  "writeIn d col colName isJSON xs =
     (if xs = [] then ret ''1 = 0''
      else andthen (gets (\<lambda>b. case aget (b_reps b) colName of
                       Some rep \<Rightarrow> if \<not> isJSON \<and> snd (irep_from_text rep) \<noteq> [] then Some (irep_from_text rep) else None
                     | None \<Rightarrow> None)) (\<lambda>rep.
        case InList d col of
          Some frag \<Rightarrow>
            andthen (bindv d (AText (PGArrayLiteral (map JString xs)))) (\<lambda>ph.
              ret (replace_first frag PatternMark
                (case rep of
                   Some f \<Rightarrow> ''(SELECT '' @ repCall d f (''unnest('' @ ph @ ''::text[])'') @ '')''
                 | None \<Rightarrow> ph)))
        | None \<Rightarrow>
            andthen (each (\<lambda>v. andthen (bindv d (AText v)) (\<lambda>ph.
                       ret (case rep of Some f \<Rightarrow> repCall d f (ph @ ''::text'') | None \<Rightarrow> ph))) xs) (\<lambda>parts.
              ret (col @ '' IN ('' @ join '', '' parts @ '')''))))"

definition quantElem :: "dialect \<Rightarrow> string \<Rightarrow> string \<Rightarrow> bool \<Rightarrow> filter_op \<Rightarrow> string \<Rightarrow> string sql" where
  "quantElem d col colName isJSON op v =
     (if op \<in> {OpEq, OpGt, OpGte, OpLt, OpLte}
      then andthen (fromTextValue d colName isJSON v) (\<lambda>ph. ret (col @ '' '' @ binaryOp op @ '' '' @ ph))
      else if op = OpLike then andthen (bindv d (AText v)) (\<lambda>ph. ret (col @ '' '' @ binaryOp op @ '' '' @ ph))
      else if op = OpILike then andthen (bindv d (AText v)) (\<lambda>ph. supported ''case-insensitive LIKE'' (ILike d col ph))
      else if op \<in> {OpMatch, OpIMatch} then regex_sql d col colName isJSON (op = OpIMatch) v
      else fail (ErrUnsupported (''quantifier on '' @ opName op) ''sql''))"

definition writeQuantified :: "dialect \<Rightarrow> string \<Rightarrow> compare \<Rightarrow> string sql" where
  "writeQuantified d col c =
     (let xs = v_list (cmp_value c) in
      if xs = [] then ret (if cmp_quant c = QAny then ''1 = 0'' else ''1 = 1'')
      else andthen (path0 (cmp_path c)) (\<lambda>p0.
           andthen (each (quantElem d col p0 (length (cmp_path c) > 1) (cmp_op c)) xs) (\<lambda>parts.
             ret (case parts of
                    [p] \<Rightarrow> p
                  | _ \<Rightarrow> ''('' @ join (if cmp_quant c = QAll then '' AND '' else '' OR '') parts @ '')''))))"

definition writeIs :: "dialect \<Rightarrow> string \<Rightarrow> string \<Rightarrow> string sql" where
  "writeIs d col t =
     (if t = ''null'' then ret (col @ '' IS NULL'')
      else if t = ''not_null'' then ret (col @ '' IS NOT NULL'')
      else if t = ''true'' then ret (case IsBool d col True of Some f \<Rightarrow> f | None \<Rightarrow> col @ '' IS '' @ BoolValue d True)
      else if t = ''false'' then ret (case IsBool d col False of Some f \<Rightarrow> f | None \<Rightarrow> col @ '' IS '' @ BoolValue d False)
      else if t = ''unknown'' then ret (case IsUnknown d col of Some f \<Rightarrow> f | None \<Rightarrow> col @ '' IS NULL'')
      else fail (ErrParse (''unknown is value '' @ t)))"

definition equality_sql :: "dialect \<Rightarrow> string \<Rightarrow> compare \<Rightarrow> string sql" where
  "equality_sql d col c =
     (let isJSON = length (cmp_path c) > 1;
          boolColumn = (\<not> isJSON \<and> (cmp_column_type c = [] \<or> ClassOf (cmp_column_type c) = ClassBool));
          t = v_text (cmp_value c);
          lhs = col @ '' '' @ binaryOp (cmp_op c) @ '' '' in
      if t = ''true'' \<and> boolColumn then ret (lhs @ BoolValue d True)
      else if t = ''false'' \<and> boolColumn then ret (lhs @ BoolValue d False)
      else andthen (filterValue d c) (\<lambda>v. ret (lhs @ v)))"

definition plain_compare :: "dialect \<Rightarrow> string \<Rightarrow> string \<Rightarrow> compare \<Rightarrow> string sql" where
  "plain_compare d col p0 c =
     (let isJSON = length (cmp_path c) > 1; t = v_text (cmp_value c); op = cmp_op c in
      if op \<in> {OpEq, OpNeq} then equality_sql d col c
      else if op \<in> {OpGt, OpGte, OpLt, OpLte}
        then andthen (filterValue d c) (\<lambda>v. ret (col @ '' '' @ binaryOp op @ '' '' @ v))
      else if op = OpLike then andthen (bindv d (AText t)) (\<lambda>v. ret (col @ '' '' @ binaryOp op @ '' '' @ v))
      else if op = OpILike then andthen (bindv d (AText t)) (\<lambda>v. supported ''case-insensitive LIKE'' (ILike d col v))
      else if op = OpIn then writeIn d col p0 isJSON (v_list (cmp_value c))
      else if op = OpIs then writeIs d col t
      else if op \<in> {OpMatch, OpIMatch} then regex_sql d col p0 isJSON (op = OpIMatch) t
      else if op = OpFTS then writeFTS d c col
      else if op = OpIsDistinct then andthen (bindv d (AText t)) (\<lambda>v. ret (col @ '' IS DISTINCT FROM '' @ v))
      else if op \<in> {OpContains, OpContained, OpOverlap}
        then andthen (fromTextValue d p0 isJSON (ArrayLiteral d t)) (\<lambda>v.
          supported (''array operator '' @ array_op_sql op) (ArrayOp d col (array_op_sql op) v (cmp_column_type c)))
      else andthen (fromTextValue d p0 isJSON t) (\<lambda>v.
          supported (''range operator '' @ opName op) (RangeOp d col (range_op_sql op) v)))"

definition writeCompare :: "dialect \<Rightarrow> compare \<Rightarrow> unit sql" where
  "writeCompare d c =
     andthen (path0 (cmp_path c)) (\<lambda>p0.
     andthen (path_expr d (cmp_path c) (cmp_last c)) (\<lambda>col.
     andthen (if cmp_quant c \<noteq> QNone then writeQuantified d col c else plain_compare d col p0 c) (\<lambda>frag.
       emit (if cmp_negate c then ''NOT ('' @ frag @ '')'' else frag))))"

subsection \<open>Embeds in a filter\<close>

text \<open>\<open>joinCond\<close> indexes the right columns by the positions of the left ones.\<close>

definition joinCond :: "dialect \<Rightarrow> string \<Rightarrow> string list \<Rightarrow> string \<Rightarrow> string list \<Rightarrow> string sql" where
  "joinCond d leftAlias leftCols rightAlias rightCols =
     (if length rightCols < length leftCols then panic
      else ret (join '' AND '' (map (\<lambda>(l, r). leftAlias @ ''.'' @ QuoteIdent d l @ '' = '' @ rightAlias @ ''.'' @ QuoteIdent d r)
                  (zip leftCols rightCols))))"

definition rel_ref :: "relation \<Rightarrow> ref" where
  "rel_ref r = \<lparr>ref_schema = r_schema r, ref_name = r_name r\<rparr>"

definition embedSource :: "dialect \<Rightarrow> relationship \<Rightarrow> string \<Rightarrow> string \<Rightarrow> (string \<times> string) sql" where
  "embedSource d rel alias parentAlias =
     (if rs_func_name rel \<noteq> []
      then ret (QuoteIdent d (rs_func_schema rel) @ ''.'' @ QuoteIdent d (rs_func_name rel) @ ''('' @ parentAlias @ '') '' @ alias,
                BoolValue d True)
      else andthen (joinCond d alias (rs_foreign rel) parentAlias (rs_local rel)) (\<lambda>corr.
             ret (qualify d (rel_ref (rs_target rel)) @ '' '' @ alias, corr)))"

text \<open>The resolved relationship of an embed; the planner sets it, a nil one would panic.\<close>

definition embed_rel :: "embed \<Rightarrow> relationship sql" where
  "embed_rel e = (case e_rel (meta e) of None \<Rightarrow> panic | Some r \<Rightarrow> ret r)"

definition next_alias :: "string \<Rightarrow> string sql" where
  "next_alias p = andthen (modify (\<lambda>b. b\<lparr>b_aliasN := Suc (b_aliasN b)\<rparr>)) (\<lambda>_. gets (\<lambda>b. p @ show_nat (b_aliasN b)))"

text \<open>The junction's JOIN and the correlation, or the correlation alone.\<close>

definition write_junction :: "dialect \<Rightarrow> string \<Rightarrow> relationship \<Rightarrow> string \<Rightarrow> string \<Rightarrow> string \<Rightarrow> unit sql" where
  "write_junction d jp rel alias parentAlias corr =
     (case rs_junction rel of
        Some j \<Rightarrow>
          andthen (gets (\<lambda>b. jp @ show_nat (b_aliasN b))) (\<lambda>jx.
          andthen (emit ('' JOIN '' @ qualify d (rel_ref j) @ '' '' @ jx @ '' ON '')) (\<lambda>_.
          andthen (joinCond d jx (rs_jforeign rel) alias (rs_foreign rel)) (\<lambda>on.
          andthen (emit on) (\<lambda>_.
          andthen (emit '' WHERE '') (\<lambda>_.
          andthen (joinCond d jx (rs_jlocal rel) parentAlias (rs_local rel)) emit)))))
      | None \<Rightarrow> emit ('' WHERE '' @ corr))"

definition embed_filter :: "dialect \<Rightarrow> (cond \<Rightarrow> unit sql) \<Rightarrow> embed \<Rightarrow> string \<Rightarrow> unit sql" where
  "embed_filter d wc e alias =
     (case q_where (base (equery e)) of
        None \<Rightarrow> ret ()
      | Some w \<Rightarrow>
          andthen (embed_rel e) (\<lambda>rel.
          andthen (gets (\<lambda>b. b)) (\<lambda>saved.
          andthen (modify (\<lambda>b. useRelation d (equery e) (r_name (rs_target rel)) (b\<lparr>b_qual := alias\<rparr>))) (\<lambda>_.
          andthen (emit '' AND ('') (\<lambda>_.
          andthen (wc w) (\<lambda>_.
          andthen (emit '')'') (\<lambda>_.
            modify (restore_relation saved))))))))"

definition embed_exists :: "dialect \<Rightarrow> (cond \<Rightarrow> unit sql) \<Rightarrow> embed \<Rightarrow> string \<Rightarrow> unit sql" where
  "embed_exists d wc e parentAlias =
     andthen (embed_rel e) (\<lambda>rel.
     andthen (next_alias ''x'') (\<lambda>alias.
     andthen (embedSource d rel alias parentAlias) (\<lambda>(from, corr).
     andthen (emit (''EXISTS (SELECT 1 FROM '' @ from)) (\<lambda>_.
     andthen (write_junction d ''xj'' rel alias parentAlias corr) (\<lambda>_.
     andthen (embed_filter d wc e alias) (\<lambda>_.
       emit '')''))))))"

subsection \<open>Filter trees\<close>

lemma each_sep_cong [fundef_cong]:
  "xs = ys \<Longrightarrow> (\<And>x. x \<in> set ys \<Longrightarrow> f x = g x) \<Longrightarrow> each_sep sep f xs = each_sep sep g ys"
proof (induction ys arbitrary: xs)
  case (Cons y ys)
  then show ?case by (cases ys) auto
qed simp

text \<open>
  The first argument bounds the nesting of embed predicates. A predicate inside the filter of an
  embed indexes the same list \<open>b.embeds\<close>, so a chain longer than that list repeats an embed and
  would never end: with one more than its length as the bound (\<open>writeCondTop\<close>), running out is
  exactly that.
\<close>

fun writeCond :: "dialect \<Rightarrow> nat \<Rightarrow> cond \<Rightarrow> unit sql" where
  "writeCond d n (CAnd ks) =
     (if ks = [] then ret ()
      else andthen (emit ''('') (\<lambda>_. andthen (each_sep '' AND '' (writeCond d n) ks) (\<lambda>_. emit '')'')))"
| "writeCond d n (COr ks) =
     (if ks = [] then ret ()
      else andthen (emit ''('') (\<lambda>_. andthen (each_sep '' OR '' (writeCond d n) ks) (\<lambda>_. emit '')'')))"
| "writeCond d n (CNot k) =
     andthen (emit ''NOT ('') (\<lambda>_. andthen (writeCond d n k) (\<lambda>_. emit '')''))"
| "writeCond d n (CCompare c) = writeCompare d c"
| "writeCond d 0 (CEmbedPredicate i ex) = panic"
| "writeCond d (Suc n) (CEmbedPredicate i ex) =
     andthen (gets b_embeds) (\<lambda>es.
       if length es \<le> i then fail (ErrInternal ''embed predicate index out of range'')
       else andthen (if ex then ret () else emit ''NOT '') (\<lambda>_.
            andthen (gets b_parentRef) (\<lambda>p. embed_exists d (writeCond d n) (es ! i) p)))"

definition writeCondTop :: "dialect \<Rightarrow> cond \<Rightarrow> unit sql" where
  "writeCondTop d c = andthen (gets (\<lambda>b. Suc (length (b_embeds b)))) (\<lambda>n. writeCond d n c)"

definition writeEmbedFilter :: "dialect \<Rightarrow> embed \<Rightarrow> string \<Rightarrow> unit sql" where
  "writeEmbedFilter d = embed_filter d (writeCondTop d)"

definition writeEmbedExists :: "dialect \<Rightarrow> embed \<Rightarrow> string \<Rightarrow> unit sql" where
  "writeEmbedExists d = embed_exists d (writeCondTop d)"

subsection \<open>Ordering\<close>

definition findEmbed :: "embed list \<Rightarrow> string \<Rightarrow> embed option" where
  "findEmbed es name = find (\<lambda>e. (if e_alias (meta e) = [] then ref_name (e_target (meta e)) else e_alias (meta e)) = name) es"

definition relatedOrderExpr :: "dialect \<Rightarrow> order_term \<Rightarrow> string \<Rightarrow> string sql" where
  "relatedOrderExpr d t parentAlias =
     andthen (gets b_embeds) (\<lambda>es.
       case findEmbed es (o_rel t) of
         None \<Rightarrow> fail (ErrInternal (''related order names an unresolved embed: '' @ o_rel t))
       | Some e \<Rightarrow>
           andthen (next_alias ''o'') (\<lambda>alias.
           andthen (embed_rel e) (\<lambda>rel.
           andthen (gets (\<lambda>b. b)) (\<lambda>saved.
           andthen (modify (\<lambda>b. useRelation d (equery e) (r_name (rs_target rel)) (b\<lparr>b_qual := alias\<rparr>))) (\<lambda>_.
           andthen (path_expr d (o_path t) (o_last t)) (\<lambda>col.
           andthen (modify (restore_relation saved)) (\<lambda>_.
           andthen (embedSource d rel alias parentAlias) (\<lambda>(from, cond).
             ret (''(SELECT '' @ col @ '' FROM '' @ from @ '' WHERE '' @ cond @ '')'')))))))))"

definition order_sql :: "dialect \<Rightarrow> string \<Rightarrow> order_term \<Rightarrow> (string \<times> string) sql" where
  "order_sql d parentAlias t =
     andthen (if o_rel t \<noteq> [] then relatedOrderExpr d t parentAlias else path_expr d (o_path t) (o_last t)) (\<lambda>col.
       ret (NullsOrder d col (if o_desc t then ''DESC'' else ''ASC'') (o_desc t) (o_nulls_first t)))"

definition writeOrder :: "dialect \<Rightarrow> order_term list \<Rightarrow> unit sql" where
  "writeOrder d terms =
     andthen (gets b_qual) (\<lambda>parentAlias.
     andthen (each (order_sql d parentAlias) terms) (\<lambda>parts.
       emit ('' ORDER BY '' @ join '', '' (filter (\<lambda>k. k \<noteq> []) (map fst parts) @ map snd parts))))"

definition write_window :: "dialect \<Rightarrow> int option \<Rightarrow> int option \<Rightarrow> bool \<Rightarrow> unit sql" where
  "write_window d lim off hasOrder =
     (let clause = LimitOffset d lim off hasOrder in if clause = [] then ret () else emit ('' '' @ clause))"

subsection \<open>Reads and counts\<close>

definition run :: "unit sql \<Rightarrow> (api_error + statement) option" where
  "run m = (case m newBuilder of
     None \<Rightarrow> None
   | Some (Inl e) \<Rightarrow> Some (Inl e)
   | Some (Inr (u, b)) \<Rightarrow> Some (Inr \<lparr>st_sql = b_sb b, st_args = b_args b\<rparr>))"

definition write_where :: "dialect \<Rightarrow> query \<Rightarrow> unit sql" where
  "write_where d q =
     (case q_where (base q) of
        None \<Rightarrow> ret ()
      | Some w \<Rightarrow> andthen (emit '' WHERE '') (\<lambda>_. writeCondTop d w))"

definition CountColName :: string where
  "CountColName = ''_pgrst_count''"

definition write_group :: "unit sql" where
  "write_group = andthen (gets (\<lambda>b. (b_hasAgg b, b_groupBy b))) (\<lambda>(agg, g).
     if agg \<and> g \<noteq> [] then emit ('' GROUP BY '' @ join '', '' g) else ret ())"

definition compileReadPlain :: "dialect \<Rightarrow> query \<Rightarrow> bool \<Rightarrow> (api_error + statement) option" where
  "compileReadPlain d q withCount = run (
     andthen (modify (useRelation d q (ref_name (q_relation (base q))))) (\<lambda>_.
     andthen (emit ''SELECT '') (\<lambda>_.
     andthen (writeSelect d (q_select (base q))) (\<lambda>_.
     andthen (if withCount then emit ('', count(*) OVER () AS '' @ [dquote] @ CountColName @ [dquote]) else ret ()) (\<lambda>_.
     andthen (emit ('' FROM '' @ qualify d (q_relation (base q)))) (\<lambda>_.
     andthen (write_where d q) (\<lambda>_.
     andthen write_group (\<lambda>_.
     andthen (if q_order (base q) = [] then ret () else writeOrder d (q_order (base q))) (\<lambda>_.
       write_window d (q_limit (base q)) (q_offset (base q)) (q_order (base q) \<noteq> []))))))))))"

definition CompileReadCounted :: "dialect \<Rightarrow> query \<Rightarrow> (api_error + statement) option" where
  "CompileReadCounted d q =
     (if embeds q \<noteq> [] then Some (Inl (ErrInternal ''CompileReadCounted called on embedded query''))
      else compileReadPlain d q True)"

text \<open>One EXISTS per !inner embed, after the filter when there is one.\<close>

fun write_inner :: "dialect \<Rightarrow> string \<Rightarrow> bool \<Rightarrow> embed list \<Rightarrow> unit sql" where
  "write_inner d parent wrote [] = ret ()"
| "write_inner d parent wrote (e # es) =
     (if e_join (meta e) \<noteq> JoinInner then write_inner d parent wrote es
      else andthen (emit (if wrote then '' AND '' else '' WHERE '')) (\<lambda>_.
           andthen (writeEmbedExists d e parent) (\<lambda>_. write_inner d parent True es)))"

definition writeCountFromAndPredicates :: "dialect \<Rightarrow> query \<Rightarrow> unit sql" where
  "writeCountFromAndPredicates d q =
     (let parent = qualify d (q_relation (base q)) in
      andthen (modify (useRelation d q (ref_name (q_relation (base q))))) (\<lambda>_.
      andthen (emit parent) (\<lambda>_.
      andthen (modify (\<lambda>b. b\<lparr>b_parentRef := parent, b_embeds := embeds q\<rparr>)) (\<lambda>_.
      andthen (write_where d q) (\<lambda>_.
        write_inner d parent (q_where (base q) \<noteq> None) (embeds q))))))"

definition CompileCount :: "dialect \<Rightarrow> query \<Rightarrow> (api_error + statement) option" where
  "CompileCount d q = run (andthen (emit ''SELECT count(*) FROM '') (\<lambda>_. writeCountFromAndPredicates d q))"

definition CompileRowEstimateSource :: "dialect \<Rightarrow> query \<Rightarrow> (api_error + statement) option" where
  "CompileRowEstimateSource d q = run (andthen (emit ''SELECT FROM '') (\<lambda>_. writeCountFromAndPredicates d q))"

end
