(* ===== verification/Fulltext.thy ===== *)
theory Fulltext
  imports Sqlgen
begin

section \<open>Full-text queries and regular expressions of the engines\<close>

text \<open>
  \<open>src/backend/sqlite/fulltext.go\<close>, \<open>src/backend/mysql/fulltext.go\<close> and
  \<open>src/backend/sqlserver/fulltext.go\<close>: the translation of a client's full-text value to the
  query language of the engine. The packages keep their own copies of \<open>splitWeb\<close>, \<open>unquoteWeb\<close> and
  of the tokenizer; the copies are the same code.
\<close>

subsection \<open>Words\<close>

text \<open>\<open>strings.Fields\<close> and \<open>strings.Trim\<close> with one cut byte.\<close>

fun fields_from :: "string \<Rightarrow> string \<Rightarrow> string list" where
  "fields_from w [] = (if w = [] then [] else [w])"
| "fields_from w (c # s) =
     (if lead_space (c # s) = 0 then fields_from (w @ [c]) s
      else (if w = [] then [] else [w]) @ fields_from [] (drop (lead_space (c # s) - 1) s))"

definition fields :: "string \<Rightarrow> string list" where
  "fields s = fields_from [] s"

definition trim_char :: "char \<Rightarrow> string \<Rightarrow> string" where
  "trim_char c s = rev (dropWhile (\<lambda>x. x = c) (rev (dropWhile (\<lambda>x. x = c) s)))"

definition contains_any :: "string \<Rightarrow> string \<Rightarrow> bool" where
  "contains_any s cs \<longleftrightarrow> list_ex (\<lambda>c. c \<in> set cs) s"

fun split_web :: "bool \<Rightarrow> string \<Rightarrow> string \<Rightarrow> string list" where
  "split_web inQuote tok [] = (if tok = [] then [] else [tok])"
| "split_web inQuote tok (c # s) =
     (if c = dquote then split_web (\<not> inQuote) (tok @ [c]) s
      else if (c = CHR '' '' \<or> c = CHR 0x09) \<and> \<not> inQuote
        then (if tok = [] then [] else [tok]) @ split_web inQuote [] s
      else split_web inQuote (tok @ [c]) s)"

definition splitWeb :: "string \<Rightarrow> string list" where
  "splitWeb value = split_web False [] value"

definition unquoteWeb :: "string \<Rightarrow> string" where
  "unquoteWeb tok = (if length tok \<ge> 2 \<and> wrapped dquote dquote tok then strip_ends tok else trim_char dquote tok)"

subsection \<open>The tokens of to_tsquery\<close>

datatype fts_token = TkTerm string | TkAnd | TkOr | TkNot | TkNear | TkLParen | TkRParen

definition flush_word :: "string \<Rightarrow> fts_token list" where
  "flush_word w = (if w = [] then [] else [TkTerm w])"

fun tokenize_from :: "string \<Rightarrow> string \<Rightarrow> fts_token list" where
  "tokenize_from w [] = flush_word w"
| "tokenize_from w (c # s) =
     (if has_prefix (c # s) ''<->'' then flush_word w @ TkNear # tokenize_from [] (drop 2 s)
      else if c = CHR ''&'' then flush_word w @ TkAnd # tokenize_from [] s
      else if c = CHR ''|'' then flush_word w @ TkOr # tokenize_from [] s
      else if c = CHR ''!'' then flush_word w @ TkNot # tokenize_from [] s
      else if c = CHR ''('' then flush_word w @ TkLParen # tokenize_from [] s
      else if c = CHR '')'' then flush_word w @ TkRParen # tokenize_from [] s
      else if c = CHR '' '' \<or> c = CHR 0x09 then flush_word w @ tokenize_from [] s
      else tokenize_from (w @ [c]) s)"

definition tokenizeFTS :: "string \<Rightarrow> fts_token list" where
  "tokenizeFTS value = tokenize_from [] value"

subsection \<open>SQLite FTS5\<close>

definition fts5Quote :: "string \<Rightarrow> string" where
  "fts5Quote term = dquote # replace_char dquote [dquote, dquote] term @ [dquote]"

definition fts5AndTerms :: "string \<Rightarrow> string" where
  "fts5AndTerms value = (if fields value = [] then [dquote, dquote] else join '' AND '' (map fts5Quote (fields value)))"

text \<open>\<open>fts5Boolean\<close> emits while it scans; its cases are those of the tokenizer, with \<open><->\<close> read as AND.\<close>

definition fts5_token :: "fts_token \<Rightarrow> string" where
  "fts5_token t =
     (case t of TkTerm w \<Rightarrow> fts5Quote w | TkAnd \<Rightarrow> ''AND'' | TkNear \<Rightarrow> ''AND'' | TkOr \<Rightarrow> ''OR'' | TkNot \<Rightarrow> ''NOT''
      | TkLParen \<Rightarrow> ''('' | TkRParen \<Rightarrow> '')'')"

definition fts5Boolean :: "string \<Rightarrow> string" where
  "fts5Boolean value = join '' '' (map fts5_token (tokenizeFTS value))"

definition fts5_web_token :: "string \<Rightarrow> string list" where
  "fts5_web_token tok =
     (if tok = [] then []
      else if equal_fold tok ''or'' then [''OR'']
      else if has_prefix tok ''-'' \<and> length tok > 1 then [''NOT'', fts5Quote (unquoteWeb (drop 1 tok))]
      else [fts5Quote (unquoteWeb tok)])"

definition fts5Web :: "string \<Rightarrow> string" where
  "fts5Web value = join '' '' (concat (map fts5_web_token (splitWeb value)))"

definition fts5Query :: "fts_variant \<Rightarrow> string \<Rightarrow> string" where
  "fts5Query v value =
     (case v of FTSPhrase \<Rightarrow> fts5Quote (join '' '' (fields value)) | FTSPlainText \<Rightarrow> fts5AndTerms value
      | FTSWeb \<Rightarrow> fts5Web value | FTSPlain \<Rightarrow> fts5Boolean value)"

definition sqlite_FullText ::
  "string \<Rightarrow> string \<Rightarrow> full_text_ref option \<Rightarrow> fts_variant \<Rightarrow> string \<Rightarrow> string \<Rightarrow> (string \<times> string) option" where
  "sqlite_FullText col colType idx variant config value =
     map_option (\<lambda>ix. (ft_rowid_ref ix @ '' IN (SELECT rowid FROM '' @ ft_table ix @ '' WHERE '' @ ft_table ix @
       '' MATCH '' @ PatternMark @ '')'', fts5Query variant value)) idx"

fun sqlite_RegexFeatureGap :: "string \<Rightarrow> string" where
  "sqlite_RegexFeatureGap [] = []"
| "sqlite_RegexFeatureGap (c # s) =
     (if c = bslash \<and> s \<noteq> [] then
        (case s of
           x # t \<Rightarrow> if CHR ''1'' \<le> x \<and> x \<le> CHR ''9'' then ''regex backreferences (the RE2 engine has none)''
                    else sqlite_RegexFeatureGap t
         | [] \<Rightarrow> [])
      else if has_prefix (c # s) ''(?='' \<or> has_prefix (c # s) ''(?!'' \<or> has_prefix (c # s) ''(?<='' \<or> has_prefix (c # s) ''(?<!''
        then ''regex lookaround (the RE2 engine has none)''
      else sqlite_RegexFeatureGap s)"

subsection \<open>MySQL boolean mode\<close>

definition quotePhrase :: "string \<Rightarrow> string" where
  "quotePhrase s = dquote # replace_char dquote [] s @ [dquote]"

definition boolTerm :: "string \<Rightarrow> string" where
  "boolTerm term = (if contains_any term (''+-<>()~*'' @ [dquote] @ ''@ '') then quotePhrase term else term)"

definition requiredTerms :: "string \<Rightarrow> string" where
  "requiredTerms value = join '' '' (map (\<lambda>f. CHR ''+'' # boolTerm f) (fields value))"

text \<open>In MySQL's copy of the tokenizer \<open><->\<close> is the token of \<open>&\<close>.\<close>

definition mysql_tokenizeFTS :: "string \<Rightarrow> fts_token list" where
  "mysql_tokenizeFTS value = map (\<lambda>t. if t = TkNear then TkAnd else t) (tokenizeFTS value)"

definition operator_token :: "fts_token \<Rightarrow> bool" where
  "operator_token t \<longleftrightarrow> t = TkAnd \<or> t = TkOr \<or> t = TkNot"

definition prevOp :: "fts_token list \<Rightarrow> nat \<Rightarrow> fts_token option" where
  "prevOp toks i = (if i = 0 then None else if operator_token (toks ! (i - 1)) then Some (toks ! (i - 1)) else None)"

definition nextOp :: "fts_token list \<Rightarrow> nat \<Rightarrow> fts_token option" where
  "nextOp toks i = (if i + 1 \<ge> length toks then None else if operator_token (toks ! (i + 1)) then Some (toks ! (i + 1)) else None)"

definition ftsPrefix :: "fts_token list \<Rightarrow> nat \<Rightarrow> string" where
  "ftsPrefix toks i =
     (if prevOp toks i = Some TkNot then ''-''
      else if prevOp toks i = Some TkOr \<or> nextOp toks i = Some TkOr then [] else ''+'')"

definition booleanQuery :: "string \<Rightarrow> string" where
  "booleanQuery value =
     (let toks = mysql_tokenizeFTS value in
      join '' '' (concat (map (\<lambda>(i, t).
        case t of TkLParen \<Rightarrow> [''(''] | TkRParen \<Rightarrow> ['')''] | TkTerm w \<Rightarrow> [ftsPrefix toks i @ boolTerm w] | _ \<Rightarrow> [])
        (List.enumerate 0 toks))))"

definition boolWebTerm :: "string \<Rightarrow> bool \<Rightarrow> string" where
  "boolWebTerm tok required =
     (let t = unquoteWeb tok;
          rendered = (if tok \<noteq> t \<or> contains_any t [CHR '' '', CHR 0x09] then quotePhrase t else boolTerm t)
      in if required then CHR ''+'' # rendered else rendered)"

fun web_query :: "string list \<Rightarrow> string list \<Rightarrow> string list" where
  "web_query out [] = out"
| "web_query out (tok # toks) =
     (if tok = [] then web_query out toks
      else if equal_fold tok ''or'' then
        (let out' = (if out = [] then [] else butlast out @ [trim_prefix (last out) ''+'']) in
         case toks of
           [] \<Rightarrow> out'
         | nxt # rest \<Rightarrow> web_query (out' @ [boolWebTerm nxt False]) rest)
      else if has_prefix tok ''-'' \<and> length tok > 1 then web_query (out @ [CHR ''-'' # boolWebTerm (drop 1 tok) False]) toks
      else web_query (out @ [boolWebTerm tok True]) toks)"

definition webQuery :: "string \<Rightarrow> string" where
  "webQuery value = join '' '' (web_query [] (splitWeb value))"

definition booleanModeQuery :: "fts_variant \<Rightarrow> string \<Rightarrow> string" where
  "booleanModeQuery v value =
     (case v of FTSPhrase \<Rightarrow> quotePhrase (join '' '' (fields value)) | FTSPlainText \<Rightarrow> requiredTerms value
      | FTSWeb \<Rightarrow> webQuery value | FTSPlain \<Rightarrow> booleanQuery value)"

definition mysql_FullText ::
  "string \<Rightarrow> string \<Rightarrow> full_text_ref option \<Rightarrow> fts_variant \<Rightarrow> string \<Rightarrow> string \<Rightarrow> (string \<times> string) option" where
  "mysql_FullText col colType idx variant config value =
     Some (''MATCH('' @ col @ '') AGAINST('' @ PatternMark @ '' IN BOOLEAN MODE)'', booleanModeQuery variant value)"

subsection \<open>SQL Server CONTAINS\<close>

definition containsPhrase :: "string \<Rightarrow> string" where
  "containsPhrase s = dquote # replace_char dquote [] s @ [dquote]"

definition contains_token :: "fts_token \<Rightarrow> string" where
  "contains_token t =
     (case t of TkTerm w \<Rightarrow> containsPhrase w | TkAnd \<Rightarrow> ''AND'' | TkOr \<Rightarrow> ''OR'' | TkNot \<Rightarrow> ''NOT'' | TkNear \<Rightarrow> ''NEAR''
      | TkLParen \<Rightarrow> ''('' | TkRParen \<Rightarrow> '')'')"

definition containsQuery :: "string \<Rightarrow> string" where
  "containsQuery value = join '' '' (map contains_token (tokenizeFTS value))"

definition appendTerm :: "string list \<Rightarrow> string \<Rightarrow> string \<Rightarrow> string \<Rightarrow> string list" where
  "appendTerm out bs neg term =
     (if out = [] then (if neg \<noteq> [] then [neg, term] else [term])
      else out @ [(if bs = [] then ''AND'' else bs) @ (if neg \<noteq> [] then '' '' @ neg else []), term])"

definition web_contains_step :: "string \<Rightarrow> string list \<times> string \<Rightarrow> string list \<times> string" where
  "web_contains_step tok st =
     (case st of (out, conn) \<Rightarrow>
        if tok = [] then st
        else if equal_fold tok ''or'' then (out, ''OR'')
        else if has_prefix tok ''-'' \<and> length tok > 1
          then (appendTerm out conn ''NOT'' (containsPhrase (unquoteWeb (drop 1 tok))), [])
        else (appendTerm out conn [] (containsPhrase (unquoteWeb tok)), []))"

definition webContains :: "string \<Rightarrow> string" where
  "webContains value = join '' '' (fst (fold web_contains_step (splitWeb value) ([], [])))"

definition containsValue :: "fts_variant \<Rightarrow> string \<Rightarrow> string" where
  "containsValue v value =
     (case v of FTSPhrase \<Rightarrow> containsPhrase (join '' '' (fields value)) | FTSWeb \<Rightarrow> webContains value | _ \<Rightarrow> containsQuery value)"

definition sqlserver_FullText ::
  "string \<Rightarrow> string \<Rightarrow> full_text_ref option \<Rightarrow> fts_variant \<Rightarrow> string \<Rightarrow> string \<Rightarrow> (string \<times> string) option" where
  "sqlserver_FullText col colType idx variant config value =
     Some (if variant = FTSPlainText then (''FREETEXT('' @ col @ '', '' @ PatternMark @ '')'', join '' '' (fields value))
           else (''CONTAINS('' @ col @ '', '' @ PatternMark @ '')'', containsValue variant value))"

end
