(* ===== verification/Sqlgen_Embed.thy ===== *)
theory Sqlgen_Embed
  imports Sqlgen
begin

section \<open>Package sqlgen: embedded reads and writes\<close>

text \<open>
  \<open>src/backend/sqlgen/embed.go\<close>, and the write statements of \<open>compile.go\<close>. \<open>writeEmbed\<close> and
  \<open>embedObject\<close> recurse through the nested embeds a select list refers to by index; an index out
  of range panics.
\<close>

subsection \<open>Embeds as JSON\<close>

definition nth_embed :: "embed list \<Rightarrow> nat \<Rightarrow> embed sql" where
  "nth_embed es i = (if i < length es then ret (es ! i) else panic)"

definition all_columns :: "dialect \<Rightarrow> string \<Rightarrow> relation \<Rightarrow> json_pair list" where
  "all_columns d alias rel = map (\<lambda>n. \<lparr>pr_key = n, pr_value = alias @ ''.'' @ QuoteIdent d n\<rparr>) (column_names rel)"

definition enter_embed :: "dialect \<Rightarrow> embed \<Rightarrow> relationship \<Rightarrow> string \<Rightarrow> builder sql" where
  "enter_embed d e rel alias =
     andthen (gets (\<lambda>b. b)) (\<lambda>saved.
     andthen (modify (\<lambda>b. useRelation d (equery e) (r_name (rs_target rel)) (b\<lparr>b_qual := alias\<rparr>))) (\<lambda>_. ret saved))"

definition leave_embed :: "builder \<Rightarrow> unit sql" where
  "leave_embed saved = modify (restore_relation saved)"

definition spread_column :: "dialect \<Rightarrow> string \<Rightarrow> relation \<Rightarrow> select_item \<Rightarrow> json_pair list sql" where
  "spread_column d alias target it =
     (case it of
        SColumn c \<Rightarrow>
          if is_star c then ret (all_columns d alias target)
          else andthen (columnExpr d c) (\<lambda>e. ret [\<lparr>pr_key = column_out_name c, pr_value = e\<rparr>])
      | _ \<Rightarrow> fail (ErrUnsupported ''non-column item in a spread'' ''sql''))"

definition limit_one :: "dialect \<Rightarrow> string" where
  "limit_one d = (let lo = LimitOffset d (Some 1) None False in if lo = [] then [] else '' '' @ lo)"

definition lift_column :: "dialect \<Rightarrow> relationship \<Rightarrow> string \<Rightarrow> string \<Rightarrow> json_pair \<Rightarrow> json_pair" where
  "lift_column d rel from wh c =
     \<lparr>pr_key = pr_key c,
      pr_value =
        (if rs_card rel \<noteq> CardToOne
         then ''(SELECT COALESCE('' @ JSONAgg d (pr_value c) [] @ '', '' @ DCast d (CHR 0x27 # ''[]'' @ [CHR 0x27]) ''json'' @
              '') FROM '' @ from @ '' WHERE '' @ wh @ '')''
         else ''(SELECT '' @ pr_value c @ '' FROM '' @ from @ '' WHERE '' @ wh @ limit_one d @ '')'')\<rparr>"

definition spreadPairs :: "dialect \<Rightarrow> embed \<Rightarrow> string \<Rightarrow> json_pair list sql" where
  "spreadPairs d e parentAlias =
     andthen (embed_rel e) (\<lambda>rel.
       if rs_junction rel \<noteq> None then fail (ErrUnsupported ''spread over a many-to-many relationship'' ''sql'')
       else andthen (next_alias ''t'') (\<lambda>alias.
         let from = qualify d (rel_ref (rs_target rel)) @ '' '' @ alias in
         andthen (capture (andthen (joinCond d alias (rs_foreign rel) parentAlias (rs_local rel)) (\<lambda>jc.
                           andthen (emit jc) (\<lambda>_. writeEmbedFilter d e alias)))) (\<lambda>wh.
         andthen (enter_embed d e rel alias) (\<lambda>saved.
         andthen (let its = q_select (base (equery e)) in
                  if its = [] then ret (all_columns d alias (rs_target rel))
                  else andthen (each (spread_column d alias (rs_target rel)) its) (\<lambda>ps. ret (concat ps))) (\<lambda>cols.
         andthen (leave_embed saved) (\<lambda>_.
           ret (map (lift_column d rel from wh) cols)))))))"

text \<open>The to-one form of \<open>writeEmbed\<close>, given the object expression.\<close>

definition write_to_one :: "dialect \<Rightarrow> embed \<Rightarrow> string \<Rightarrow> string \<Rightarrow> string \<Rightarrow> string \<Rightarrow> unit sql" where
  "write_to_one d e alias obj from corr =
     andthen (emit (''(SELECT '' @ obj @ '' FROM '' @ from @ '' WHERE '' @ corr)) (\<lambda>_.
     andthen (writeEmbedFilter d e alias) (\<lambda>_.
       emit (limit_one d @ '')'')))"

definition embed_order :: "dialect \<Rightarrow> embed \<Rightarrow> relationship \<Rightarrow> string \<Rightarrow> unit sql" where
  "embed_order d e rel alias =
     (let q = equery e in
      if q_order (base q) = [] then ret ()
      else andthen (enter_embed d e rel alias) (\<lambda>saved.
           andthen (modify (\<lambda>b. b\<lparr>b_embeds := embeds q\<rparr>)) (\<lambda>_.
           andthen (writeOrder d (q_order (base q))) (\<lambda>_.
             modify (\<lambda>b. restore_relation saved (b\<lparr>b_embeds := b_embeds saved\<rparr>))))))"

definition write_to_many :: "dialect \<Rightarrow> embed \<Rightarrow> relationship \<Rightarrow> string \<Rightarrow> string \<Rightarrow> string \<Rightarrow> string \<Rightarrow> string \<Rightarrow> unit sql" where
  "write_to_many d e rel alias parentAlias obj from corr =
     (let eAlias = QuoteIdent d ''__e''; q = equery e in
      andthen (emit (''(SELECT COALESCE('' @ JSONAgg d (DCast d (''je.'' @ eAlias) ''json'') [] @ '', '' @
                DCast d (CHR 0x27 # ''[]'' @ [CHR 0x27]) ''json'' @ '') FROM (SELECT '' @ obj @ '' AS '' @ eAlias @ '' FROM '' @ from)) (\<lambda>_.
      andthen (write_junction d ''j'' rel alias parentAlias corr) (\<lambda>_.
      andthen (writeEmbedFilter d e alias) (\<lambda>_.
      andthen (embed_order d e rel alias) (\<lambda>_.
      andthen (write_window d (q_limit (base q)) (q_offset (base q)) (q_order (base q) \<noteq> [])) (\<lambda>_.
        emit '') je)''))))))"

lemma each_cong [fundef_cong]:
  "xs = ys \<Longrightarrow> (\<And>x. x \<in> set ys \<Longrightarrow> f x = g x) \<Longrightarrow> each f xs = each g ys"
  by (induction ys arbitrary: xs) auto

lemma andthen_cong [fundef_cong]:
  "m b = m' b \<Longrightarrow> b = b' \<Longrightarrow> (\<And>x b1. m' b' = Some (Inr (x, b1)) \<Longrightarrow> f x b1 = f' x b1) \<Longrightarrow> andthen m f b = andthen m' f' b'"
  by (auto simp: andthen_def split: option.split sum.split)

text \<open>One item of an embed's select list as pairs of the object; \<open>we\<close> writes a nested embed.\<close>

definition object_item :: "dialect \<Rightarrow> (embed \<Rightarrow> unit sql) \<Rightarrow> string \<Rightarrow> relation \<Rightarrow> embed list \<Rightarrow> select_item \<Rightarrow> json_pair list sql" where
  "object_item d we alias target es it =
     (case it of
        SColumn c \<Rightarrow>
          if is_star c then ret (all_columns d alias target)
          else andthen (columnExpr d c) (\<lambda>e. ret [\<lparr>pr_key = column_out_name c, pr_value = e\<rparr>])
      | SEmbedRef i \<Rightarrow>
          if i < length es then
            (let nested = es ! i in
             if e_empty_select (meta nested) then ret []
             else if e_spread (meta nested) then spreadPairs d nested alias
             else andthen (capture (we nested)) (\<lambda>sub.
               ret [\<lparr>pr_key = e_out_key (meta nested), pr_value = DCast d sub ''json''\<rparr>]))
          else panic
      | SAggregate a \<Rightarrow>
          ret (if a_func a = AggCount \<and> a_arg a = None then [\<lparr>pr_key = ''count'', pr_value = ''count(*)''\<rparr>] else []))"

lemma object_item_cong [fundef_cong]:
  "es = es' \<Longrightarrow> it = it' \<Longrightarrow> (\<And>e. e \<in> set es' \<Longrightarrow> we e = we' e) \<Longrightarrow>
   object_item d we alias target es it = object_item d we' alias target es' it'"
  by (auto simp: object_item_def Let_def split: select_item.split)

lemma size_nested_embed: "e \<in> set es \<Longrightarrow> size (e :: embed) \<le> size_list size es"
  by (erule size_list_estimation') (rule order_refl)

function (sequential) writeEmbed :: "dialect \<Rightarrow> embed \<Rightarrow> string \<Rightarrow> unit sql"
  and embedObject :: "dialect \<Rightarrow> embed \<Rightarrow> string \<Rightarrow> string sql"
where
  "writeEmbed d e parentAlias =
     (if e_spread (meta e) then fail (ErrUnsupported ''spread embeds'' ''sql'')
      else andthen (embed_rel e) (\<lambda>rel.
           andthen (next_alias ''t'') (\<lambda>alias.
           andthen (embedObject d e alias) (\<lambda>obj.
           andthen (embedSource d rel alias parentAlias) (\<lambda>(from, corr).
             if rs_card rel = CardToOne then write_to_one d e alias obj from corr
             else write_to_many d e rel alias parentAlias obj from corr)))))"
| "embedObject d (Embed em (Query bq es)) alias =
     andthen (embed_rel (Embed em (Query bq es))) (\<lambda>rel.
       if q_select bq = [] then ret (JSONObject d (all_columns d alias (rs_target rel)))
       else andthen (enter_embed d (Embed em (Query bq es)) rel alias) (\<lambda>saved.
         andthen (each (object_item d (\<lambda>nested. writeEmbed d nested alias) alias (rs_target rel) es) (q_select bq)) (\<lambda>ps.
         andthen (leave_embed saved) (\<lambda>_. ret (JSONObject d (concat ps))))))"
  by pat_completeness auto
termination
  by (relation "measure (\<lambda>x. case x of Inl (d, e, p) \<Rightarrow> 2 * size e + 1 | Inr (d, e, p) \<Rightarrow> 2 * size e)")
    (auto simp: less_Suc_eq_le dest!: size_nested_embed)

definition embedExpr :: "dialect \<Rightarrow> embed \<Rightarrow> string \<Rightarrow> string sql" where
  "embedExpr d e parentAlias = capture (writeEmbed d e parentAlias)"

subsection \<open>Embedded reads\<close>

text \<open>
  The projection of an embedded read. The separator is written before every item but the first;
  \<open>first\<close> of the source is the boolean the loop carries.
\<close>

definition write_columns :: "bool \<Rightarrow> string list \<Rightarrow> bool sql" where
  "write_columns first xs =
     (if xs = [] then ret first
      else andthen (emit ((if first then [] else '', '') @ join '', '' xs)) (\<lambda>_. ret False))"

definition embedded_item :: "dialect \<Rightarrow> embed list \<Rightarrow> string \<Rightarrow> select_item \<Rightarrow> string list sql" where
  "embedded_item d es parentAlias it =
     (case it of
        SColumn c \<Rightarrow>
          andthen (modify (\<lambda>b. b\<lparr>b_qual := parentAlias\<rparr>)) (\<lambda>_.
          andthen (columnExpr d c) (\<lambda>e.
            let name = column_out_name c in
            ret [e @ (if name \<noteq> [] \<and> \<not> is_star c \<and> (name \<noteq> lastPath (c_path c) \<or> length (c_path c) > 1)
                      then '' AS '' @ QuoteIdent d name else [])]))
      | SEmbedRef i \<Rightarrow>
          andthen (nth_embed es i) (\<lambda>e.
            if e_empty_select (meta e) then ret []
            else if e_spread (meta e)
              then andthen (spreadPairs d e parentAlias) (\<lambda>ps. ret (map (\<lambda>p. pr_value p @ '' AS '' @ QuoteIdent d (pr_key p)) ps))
            else andthen (embedExpr d e parentAlias) (\<lambda>sub. ret [sub @ '' AS '' @ QuoteIdent d (e_out_key (meta e))]))
      | SAggregate a \<Rightarrow> fail (ErrUnsupported ''aggregates in select'' ''sql''))"

fun embedded_items :: "dialect \<Rightarrow> embed list \<Rightarrow> string \<Rightarrow> bool \<Rightarrow> select_item list \<Rightarrow> bool sql" where
  "embedded_items d es parentAlias first [] = ret first"
| "embedded_items d es parentAlias first (it # its) =
     andthen (embedded_item d es parentAlias it) (\<lambda>xs.
     andthen (write_columns first xs) (\<lambda>first'. embedded_items d es parentAlias first' its))"

definition writeEmbeddedSelect :: "dialect \<Rightarrow> query \<Rightarrow> string \<Rightarrow> unit sql" where
  "writeEmbeddedSelect d q parentAlias =
     (if q_select (base q) = [] then emit (parentAlias @ ''.*'')
      else andthen (embedded_items d (embeds q) parentAlias True (q_select (base q))) (\<lambda>first.
             if first then emit (parentAlias @ ''.*'') else ret ()))"

definition writeEmbeddedQuery :: "dialect \<Rightarrow> query \<Rightarrow> unit sql \<Rightarrow> unit sql" where
  "writeEmbeddedQuery d q writeSource =
     (let p = ''t0''; bq = base q in
      andthen (modify (useRelation d q (ref_name (q_relation bq)))) (\<lambda>_.
      andthen (emit ''SELECT '') (\<lambda>_.
      andthen (writeEmbeddedSelect d q p) (\<lambda>_.
      andthen (emit '' FROM '') (\<lambda>_.
      andthen writeSource (\<lambda>_.
      andthen (emit ('' '' @ p)) (\<lambda>_.
      andthen (case q_where bq of
                 None \<Rightarrow> ret ()
               | Some w \<Rightarrow>
                   andthen (emit '' WHERE '') (\<lambda>_.
                   andthen (modify (\<lambda>b. b\<lparr>b_qual := p, b_parentRef := p, b_embeds := embeds q\<rparr>)) (\<lambda>_.
                     writeCondTop d w))) (\<lambda>_.
      andthen (write_inner d p (q_where bq \<noteq> None) (embeds q)) (\<lambda>_.
      andthen (if q_order bq = [] then ret ()
               else andthen (modify (\<lambda>b. b\<lparr>b_qual := p, b_embeds := embeds q\<rparr>)) (\<lambda>_. writeOrder d (q_order bq))) (\<lambda>_.
        write_window d (q_limit bq) (q_offset bq) (q_order bq \<noteq> [])))))))))))"

definition compileReadEmbedded :: "dialect \<Rightarrow> query \<Rightarrow> (api_error + statement) option" where
  "compileReadEmbedded d q = run (writeEmbeddedQuery d q (emit (qualify d (q_relation (base q)))))"

definition CompileRead :: "dialect \<Rightarrow> query \<Rightarrow> (api_error + statement) option" where
  "CompileRead d q = (if embeds q \<noteq> [] then compileReadEmbedded d q else compileReadPlain d q False)"

subsection \<open>Writes\<close>

definition insert_cell :: "dialect \<Rightarrow> write_spec \<Rightarrow> ir_value go_map \<Rightarrow> string \<Rightarrow> unit sql" where
  "insert_cell d w row c =
     (case aget row c of
        Some v \<Rightarrow> andthen (writeValue d c v (case aget (w_column_types w) c of Some t \<Rightarrow> t | None \<Rightarrow> [])) emit
      | None \<Rightarrow> if w_missing w = MissingNull then andthen (bindv d ANull) emit else emit ''DEFAULT'')"

definition insert_row :: "dialect \<Rightarrow> write_spec \<Rightarrow> ir_value go_map \<Rightarrow> unit sql" where
  "insert_row d w row =
     andthen (emit ''('') (\<lambda>_. andthen (each_sep '', '' (insert_cell d w row) (w_columns w)) (\<lambda>_. emit '')''))"

definition writeConflict :: "dialect \<Rightarrow> write_spec \<Rightarrow> conflict \<Rightarrow> unit sql" where
  "writeConflict d w cf =
     (case DUpsert d \<lparr>us_target = map (QuoteIdent d) (cf_target cf), us_update = map (QuoteIdent d) (w_columns w),
                     us_ignore = (cf_resolution cf = ConflictIgnore)\<rparr> of
        Inl e \<Rightarrow> fail (ErrInternal e)
      | Inr clause \<Rightarrow> emit ('' '' @ clause))"

definition returning_column :: "dialect \<Rightarrow> ir_rep go_map \<Rightarrow> string \<Rightarrow> string" where
  "returning_column d reps c =
     (case aget reps c of
        Some rep \<Rightarrow>
          if snd (irep_to_json rep) \<noteq> [] then repCall d (irep_to_json rep) (QuoteIdent d c) @ '' AS '' @ QuoteIdent d c
          else QuoteIdent d c
      | None \<Rightarrow> QuoteIdent d c)"

definition writeReturning :: "dialect \<Rightarrow> string list \<Rightarrow> unit sql" where
  "writeReturning d cols =
     (if cols = [] then ret ()
      else andthen (gets b_reps) (\<lambda>reps.
             case Returning d (map (returning_column d reps) cols) of
               None \<Rightarrow> fail (ErrUnsupported ''returning written rows'' ''sql'')
             | Some clause \<Rightarrow> emit ('' '' @ clause)))"

definition CompileInsert :: "dialect \<Rightarrow> query \<Rightarrow> string list \<Rightarrow> (api_error + statement) option" where
  "CompileInsert d q returning =
     (case q_write (base q) of
        None \<Rightarrow> Some (Inl (ErrParse ''insert payload is empty''))
      | Some w \<Rightarrow>
          if w_rows w = [] then Some (Inl (ErrParse ''insert payload is empty''))
          else run (
            andthen (modify (useRelation d q (ref_name (q_relation (base q))))) (\<lambda>_.
            andthen (emit (''INSERT INTO '' @ qualify d (q_relation (base q)))) (\<lambda>_.
            andthen (if w_columns w = [] then emit '' DEFAULT VALUES''
                     else andthen (emit ('' ('' @ join '', '' (map (QuoteIdent d) (w_columns w)) @ '') VALUES '')) (\<lambda>_.
                          each_sep '', '' (insert_row d w) (w_rows w))) (\<lambda>_.
            andthen (case w_conflict w of
                       None \<Rightarrow> ret ()
                     | Some cf \<Rightarrow> if cf_target cf = [] then ret () else writeConflict d w cf) (\<lambda>_.
              writeReturning d returning))))))"

definition update_column :: "dialect \<Rightarrow> write_spec \<Rightarrow> string \<Rightarrow> unit sql" where
  "update_column d w c =
     andthen (emit (QuoteIdent d c @ '' = '')) (\<lambda>_.
     andthen (writeValue d c (case aget (w_set w) c of Some v \<Rightarrow> v | None \<Rightarrow> json_value JNull)
                (case aget (w_column_types w) c of Some t \<Rightarrow> t | None \<Rightarrow> [])) emit)"

definition CompileUpdate :: "dialect \<Rightarrow> query \<Rightarrow> string list \<Rightarrow> (api_error + statement) option" where
  "CompileUpdate d q returning =
     (case q_write (base q) of
        None \<Rightarrow> Some (Inl (ErrParse ''update payload is empty''))
      | Some w \<Rightarrow>
          if w_set w = [] then Some (Inl (ErrParse ''update payload is empty''))
          else run (
            andthen (modify (useRelation d q (ref_name (q_relation (base q))))) (\<lambda>_.
            andthen (emit (''UPDATE '' @ qualify d (q_relation (base q)) @ '' SET '')) (\<lambda>_.
            andthen (each_sep '', '' (update_column d w) (sortedKeys (w_set w))) (\<lambda>_.
            andthen (write_where d q) (\<lambda>_. writeReturning d returning))))))"

definition CompileDelete :: "dialect \<Rightarrow> query \<Rightarrow> string list \<Rightarrow> (api_error + statement) option" where
  "CompileDelete d q returning = run (
     andthen (modify (useRelation d q (ref_name (q_relation (base q))))) (\<lambda>_.
     andthen (emit (''DELETE FROM '' @ qualify d (q_relation (base q)))) (\<lambda>_.
     andthen (write_where d q) (\<lambda>_. writeReturning d returning))))"

end
