(* ===== verification/Dialects.thy ===== *)
theory Dialects
  imports Fulltext Sqlgen_Embed
begin

section \<open>The four SQL dialects\<close>

text \<open>
  \<open>src/backend/sqlite/dialect.go\<close>, \<open>src/backend/postgres/dialect.go\<close>,
  \<open>src/backend/mysql/dialect.go\<close> and \<open>src/backend/sqlserver/dialect.go\<close>, method by method, each
  assembled into a \<open>dialect\<close> record.
\<close>

abbreviation squote :: char where "squote \<equiv> CHR 0x27"

subsection \<open>Shared spellings\<close>

text \<open>A quoted text: the quote doubled inside, one at either end.\<close>

definition quote_with :: "char \<Rightarrow> char \<Rightarrow> string \<Rightarrow> string" where
  "quote_with l r s = l # replace_char r [r, r] s @ [r]"

definition sqlLiteral :: "string \<Rightarrow> string" where
  "sqlLiteral s = quote_with squote squote s"

definition nulls_first :: "bool \<Rightarrow> bool option \<Rightarrow> bool" where
  "nulls_first dsc nf = (case nf of Some f \<Rightarrow> f | None \<Rightarrow> dsc)"

definition json_pairs :: "json_pair list \<Rightarrow> string" where
  "json_pairs ps = join '', '' (concat (map (\<lambda>p. [sqlLiteral (pr_key p), pr_value p]) ps))"

text \<open>\<open>ArrayLiteral\<close> of SQLite and MySQL: a \<open>{a,b}\<close> literal as a JSON array.\<close>

definition json_elem :: "string \<Rightarrow> string" where
  "json_elem p0 =
     (let p = trim_space p0 in
      if length p \<ge> 2 \<and> wrapped dquote dquote p then p
      else dquote # replace_char dquote [bslash, dquote] p @ [dquote])"

definition array_to_json :: "(string \<Rightarrow> string) \<Rightarrow> string \<Rightarrow> string" where
  "array_to_json elem pgText =
     (let s = trim_space pgText in
      if length s < 2 \<or> \<not> wrapped CHR ''{'' CHR ''}'' s then pgText
      else if strip_ends s = [] then ''[]''
      else ''['' @ join '','' (map elem (split_byte CHR '','' (strip_ends s))) @ '']'')"

subsection \<open>SQLite\<close>

definition sqlite_QuoteIdent :: "string \<Rightarrow> string" where
  "sqlite_QuoteIdent name = quote_with dquote dquote name"

definition sqlite_Placeholder :: "nat \<Rightarrow> string" where
  "sqlite_Placeholder n = CHR ''?'' # show_nat n"

definition sqlite_LimitOffset :: "int option \<Rightarrow> int option \<Rightarrow> bool \<Rightarrow> string" where
  "sqlite_LimitOffset lim off hasOrder =
     (case (lim, off) of
        (None, None) \<Rightarrow> []
      | (Some l, None) \<Rightarrow> ''LIMIT '' @ show_int l
      | (None, Some k) \<Rightarrow> ''LIMIT -1 OFFSET '' @ show_int k
      | (Some l, Some k) \<Rightarrow> ''LIMIT '' @ show_int l @ '' OFFSET '' @ show_int k)"

definition sqlite_NullsOrder :: "string \<Rightarrow> string \<Rightarrow> bool \<Rightarrow> bool option \<Rightarrow> string \<times> string" where
  "sqlite_NullsOrder col dir dsc nf =
     ([], col @ '' '' @ dir @ '' '' @ (if nulls_first dsc nf then ''NULLS FIRST'' else ''NULLS LAST''))"

definition sqlite_Returning :: "string list \<Rightarrow> string option" where
  "sqlite_Returning cols = (if cols = [] then None else Some (''RETURNING '' @ join '', '' cols))"

definition sqlite_Upsert :: "upsert_spec \<Rightarrow> string + string" where
  "sqlite_Upsert spec =
     (let head = ''ON CONFLICT'' @ (if us_target spec = [] then [] else '' ('' @ join '', '' (us_target spec) @ '')'') in
      if us_ignore spec \<or> us_update spec = [] then Inr (head @ '' DO NOTHING'')
      else Inr (head @ '' DO UPDATE SET '' @ join '', '' (map (\<lambda>c. c @ '' = excluded.'' @ c) (us_update spec))))"

definition sqlite_Cast :: "string \<Rightarrow> string \<Rightarrow> string" where
  "sqlite_Cast e ty =
     (if ty \<in> {''int'', ''int2'', ''int4'', ''int8'', ''bigint'', ''smallint'', ''integer''} then ''CAST('' @ e @ '' AS INTEGER)''
      else if ty \<in> {''numeric'', ''decimal'', ''real'', ''float'', ''float4'', ''float8'', ''double precision''}
        then ''CAST('' @ e @ '' AS REAL)''
      else if ty \<in> {''text'', ''varchar'', ''char'', ''date'', ''timestamp'', ''timestamptz'', ''uuid''}
        then ''CAST('' @ e @ '' AS TEXT)''
      else if ty \<in> {''json'', ''jsonb''} then ''json('' @ e @ '')''
      else if ty \<in> {''bool'', ''boolean''} then ''CAST('' @ e @ '' AS INTEGER)''
      else ''CAST('' @ e @ '' AS TEXT)'')"

definition sqlite_Regex :: "string \<Rightarrow> string \<Rightarrow> bool \<Rightarrow> string option" where
  "sqlite_Regex e pat ci =
     Some (if ci then ''regexp('' @ [squote] @ ''(?i)'' @ [squote] @ '' || '' @ PatternMark @ '', '' @ e @ '')''
           else ''regexp('' @ PatternMark @ '', '' @ e @ '')'')"

definition sqlite_JSONPath :: "string \<Rightarrow> string list \<Rightarrow> bool \<Rightarrow> string option" where
  "sqlite_JSONPath bs hops asText =
     (let p = ''$'' @ concat (map (\<lambda>h. if IsJSONArrayIndex h then ''['' @ h @ '']''
                                       else CHR ''.'' # quote_with dquote dquote h) hops)
      in Some (bs @ '' '' @ (if asText then ''->>'' else ''->'') @ '' '' @ sqlLiteral p))"

definition sqlite_ArrayOp :: "string \<Rightarrow> string \<Rightarrow> string \<Rightarrow> string \<Rightarrow> string option" where
  "sqlite_ArrayOp col op val colType =
     (if colType \<noteq> ''json'' \<and> colType \<noteq> ''jsonb'' then None
      else if op = ''@>'' then Some (''NOT EXISTS (SELECT 1 FROM json_each('' @ val @
        '') AS f WHERE f.value NOT IN (SELECT value FROM json_each('' @ col @ '')))'')
      else if op = ''<@'' then Some (''NOT EXISTS (SELECT 1 FROM json_each('' @ col @
        '') AS f WHERE f.value NOT IN (SELECT value FROM json_each('' @ val @ '')))'')
      else if op = ''&&'' then Some (''EXISTS (SELECT 1 FROM json_each('' @ col @
        '') AS f WHERE f.value IN (SELECT value FROM json_each('' @ val @ '')))'')
      else None)"

definition sqlite_ILike :: "string \<Rightarrow> string \<Rightarrow> string option" where
  "sqlite_ILike col val = Some (''lower('' @ col @ '') LIKE lower('' @ val @ '')'')"

definition bit_value :: "bool \<Rightarrow> string" where
  "bit_value v = (if v then ''1'' else ''0'')"

definition sqlite_JSONObject :: "json_pair list \<Rightarrow> string" where
  "sqlite_JSONObject ps = ''json_object('' @ json_pairs ps @ '')''"

definition sqlite :: dialect where
  "sqlite = \<lparr>QuoteIdent = sqlite_QuoteIdent, Placeholder = sqlite_Placeholder, LimitOffset = sqlite_LimitOffset,
     NullsOrder = sqlite_NullsOrder, Returning = sqlite_Returning, DUpsert = sqlite_Upsert,
     JSONObject = sqlite_JSONObject, JSONAgg = (\<lambda>e k. ''json_group_array('' @ e @ '')''), DCast = sqlite_Cast,
     Regex = sqlite_Regex, RegexFeatureGap = sqlite_RegexFeatureGap, FullText = sqlite_FullText,
     SessionRead = (\<lambda>k. []), SessionWrite = (\<lambda>k. None), ILike = sqlite_ILike, BoolValue = bit_value,
     IsBool = (\<lambda>c v. None), IsUnknown = (\<lambda>c. None), ArrayOp = sqlite_ArrayOp, ArrayLiteral = array_to_json json_elem,
     InList = (\<lambda>c. None), ArrayArg = (\<lambda>xs t. JSONArrayArg xs), JSONPath = sqlite_JSONPath, RangeOp = (\<lambda>c k v. None)\<rparr>"

subsection \<open>PostgreSQL\<close>

definition pg_Placeholder :: "nat \<Rightarrow> string" where
  "pg_Placeholder n = CHR ''$'' # show_nat n"

definition pg_LimitOffset :: "int option \<Rightarrow> int option \<Rightarrow> bool \<Rightarrow> string" where
  "pg_LimitOffset lim off hasOrder =
     (case (lim, off) of
        (None, None) \<Rightarrow> []
      | (Some l, None) \<Rightarrow> ''LIMIT '' @ show_int l
      | (None, Some k) \<Rightarrow> ''OFFSET '' @ show_int k
      | (Some l, Some k) \<Rightarrow> ''LIMIT '' @ show_int l @ '' OFFSET '' @ show_int k)"

definition pg_NullsOrder :: "string \<Rightarrow> string \<Rightarrow> bool \<Rightarrow> bool option \<Rightarrow> string \<times> string" where
  "pg_NullsOrder col dir dsc nf =
     ([], col @ '' '' @ dir @ '' '' @ (if nulls_first dsc nf then ''NULLS FIRST'' else ''NULLS LAST''))"

definition pg_Returning :: "string list \<Rightarrow> string option" where
  "pg_Returning cols = (if cols = [] then None else Some (''RETURNING '' @ join '', '' cols))"

definition pg_Upsert :: "upsert_spec \<Rightarrow> string + string" where
  "pg_Upsert spec =
     (if \<not> us_ignore spec \<and> us_update spec \<noteq> [] \<and> us_target spec = [] then Inl ''merge upsert needs a conflict target''
      else let head = ''ON CONFLICT'' @ (if us_target spec = [] then [] else '' ('' @ join '', '' (us_target spec) @ '')'') in
        if us_ignore spec \<or> us_update spec = [] then Inr (head @ '' DO NOTHING'')
        else Inr (head @ '' DO UPDATE SET '' @ join '', '' (map (\<lambda>c. c @ '' = excluded.'' @ c) (us_update spec))))"

function chunks :: "nat \<Rightarrow> 'a list \<Rightarrow> 'a list list" where
  "chunks n xs = (if xs = [] \<or> n = 0 then [] else take n xs # chunks n (drop n xs))"
  by pat_completeness auto
termination by (relation "measure (\<lambda>(n, xs). length xs)") auto

declare chunks.simps [simp del]

definition pg_JSONObject :: "json_pair list \<Rightarrow> string" where
  "pg_JSONObject ps =
     (if length ps \<le> 50 then ''json_build_object('' @ json_pairs ps @ '')''
      else ''to_json('' @ join '' || '' (map (\<lambda>c. ''jsonb_build_object('' @ json_pairs c @ '')'') (chunks 50 ps)) @ '')'')"

definition pg_JSONAgg :: "string \<Rightarrow> string \<Rightarrow> string" where
  "pg_JSONAgg e orderBy = (if orderBy = [] then ''json_agg('' @ e @ '')'' else ''json_agg('' @ e @ '' ORDER BY '' @ orderBy @ '')'')"

definition pgType :: "string \<Rightarrow> string" where
  "pgType c =
     (if c \<in> {''int'', ''integer'', ''int4''} then ''int4''
      else if c \<in> {''int2'', ''smallint''} then ''int2''
      else if c \<in> {''int8'', ''bigint''} then ''int8''
      else if c \<in> {''float4'', ''real''} then ''float4''
      else if c \<in> {''float8'', ''double precision''} then ''float8''
      else if c \<in> {''numeric'', ''decimal''} then ''numeric''
      else if c \<in> {''bool'', ''boolean''} then ''bool''
      else c)"

definition pg_Cast :: "string \<Rightarrow> string \<Rightarrow> string" where
  "pg_Cast e ty = ''('' @ e @ '')::'' @ pgType ty"

definition pg_Regex :: "string \<Rightarrow> string \<Rightarrow> bool \<Rightarrow> string option" where
  "pg_Regex e pat ci = Some (e @ '' '' @ (if ci then ''~*'' else ''~'') @ '' '' @ PatternMark)"

definition tsquery_ctor :: "fts_variant \<Rightarrow> string" where
  "tsquery_ctor v =
     (case v of FTSPlain \<Rightarrow> ''to_tsquery'' | FTSPlainText \<Rightarrow> ''plainto_tsquery'' | FTSPhrase \<Rightarrow> ''phraseto_tsquery''
      | FTSWeb \<Rightarrow> ''websearch_to_tsquery'')"

definition pg_FullText ::
  "string \<Rightarrow> string \<Rightarrow> full_text_ref option \<Rightarrow> fts_variant \<Rightarrow> string \<Rightarrow> string \<Rightarrow> (string \<times> string) option" where
  "pg_FullText col colType idx variant config value =
     (let cfg = (if config = [] then [] else sqlLiteral config @ '', '');
          lhs = (if colType = ''tsvector'' then col else ''to_tsvector('' @ cfg @ col @ '')'')
      in Some (lhs @ '' @@ '' @ tsquery_ctor variant @ ''('' @ cfg @ PatternMark @ '')'', value))"

definition pg_BoolValue :: "bool \<Rightarrow> string" where
  "pg_BoolValue v = (if v then ''TRUE'' else ''FALSE'')"

definition pg_ArrayArg :: "json list \<Rightarrow> string \<Rightarrow> sql_arg" where
  "pg_ArrayArg xs colType =
     (if colType = ''json'' \<or> colType = ''jsonb'' then JSONArrayArg xs else AText (PGArrayLiteral xs))"

fun pg_hops :: "bool \<Rightarrow> string list \<Rightarrow> string" where
  "pg_hops asText [] = []"
| "pg_hops asText (h # hs) =
     (if asText \<and> hs = [] then ''->>'' else ''->'') @ (if IsJSONArrayIndex h then h else sqlLiteral h) @ pg_hops asText hs"

definition pg_JSONPath :: "string \<Rightarrow> string list \<Rightarrow> bool \<Rightarrow> string option" where
  "pg_JSONPath bs hops asText = Some (bs @ pg_hops asText hops)"

definition pg_SessionRead :: "string \<Rightarrow> string" where
  "pg_SessionRead k = ''current_setting('' @ sqlLiteral k @ '', true)''"

definition pg_SessionWrite :: "string \<Rightarrow> string option" where
  "pg_SessionWrite k = Some (''set_config('' @ sqlLiteral k @ '', '' @ PatternMark @ '', true)'')"

definition postgres :: dialect where
  "postgres = \<lparr>QuoteIdent = (\<lambda>n. quote_with dquote dquote n), Placeholder = pg_Placeholder, LimitOffset = pg_LimitOffset,
     NullsOrder = pg_NullsOrder, Returning = pg_Returning, DUpsert = pg_Upsert,
     JSONObject = pg_JSONObject, JSONAgg = pg_JSONAgg, DCast = pg_Cast,
     Regex = pg_Regex, RegexFeatureGap = (\<lambda>p. []), FullText = pg_FullText,
     SessionRead = pg_SessionRead, SessionWrite = pg_SessionWrite, ILike = (\<lambda>c v. Some (c @ '' ILIKE '' @ v)),
     BoolValue = pg_BoolValue, IsBool = (\<lambda>c v. None), IsUnknown = (\<lambda>c. Some (c @ '' IS UNKNOWN'')),
     ArrayOp = (\<lambda>c k v t. Some (c @ '' '' @ k @ '' '' @ v)), ArrayLiteral = (\<lambda>t. t),
     InList = (\<lambda>c. Some (c @ '' = ANY('' @ PatternMark @ '')'')), ArrayArg = pg_ArrayArg, JSONPath = pg_JSONPath,
     RangeOp = (\<lambda>c k v. Some (c @ '' '' @ k @ '' '' @ v))\<rparr>"

subsection \<open>MySQL\<close>

definition mysql_QuoteIdent :: "string \<Rightarrow> string" where
  "mysql_QuoteIdent name = quote_with CHR 0x60 CHR 0x60 name"

definition mysql_LimitOffset :: "int option \<Rightarrow> int option \<Rightarrow> bool \<Rightarrow> string" where
  "mysql_LimitOffset lim off hasOrder =
     (case (lim, off) of
        (None, None) \<Rightarrow> []
      | (Some l, None) \<Rightarrow> ''LIMIT '' @ show_int l
      | (None, Some k) \<Rightarrow> ''LIMIT 18446744073709551615 OFFSET '' @ show_int k
      | (Some l, Some k) \<Rightarrow> ''LIMIT '' @ show_int l @ '' OFFSET '' @ show_int k)"

definition mysql_NullsOrder :: "string \<Rightarrow> string \<Rightarrow> bool \<Rightarrow> bool option \<Rightarrow> string \<times> string" where
  "mysql_NullsOrder col dir dsc nf =
     (''('' @ col @ '' IS NULL) '' @ (if nulls_first dsc nf then ''DESC'' else ''ASC''), col @ '' '' @ dir)"

definition mysql_Upsert :: "upsert_spec \<Rightarrow> string + string" where
  "mysql_Upsert spec =
     (case us_update spec of
        [] \<Rightarrow> Inl ''upsert needs at least one column on MySQL''
      | c # cs \<Rightarrow>
          if us_ignore spec then Inr (''ON DUPLICATE KEY UPDATE '' @ c @ '' = '' @ c)
          else Inr (''ON DUPLICATE KEY UPDATE '' @ join '', '' (map (\<lambda>x. x @ '' = VALUES('' @ x @ '')'') (c # cs))))"

definition mysql_JSONObject :: "json_pair list \<Rightarrow> string" where
  "mysql_JSONObject ps = ''JSON_OBJECT('' @ json_pairs ps @ '')''"

definition mysqlType :: "string \<Rightarrow> string" where
  "mysqlType c =
     (if c \<in> {''int'', ''integer'', ''int2'', ''int4'', ''int8'', ''bigint'', ''smallint''} then ''SIGNED''
      else if c \<in> {''numeric'', ''decimal'', ''real'', ''float'', ''float4'', ''float8'', ''double precision''} then ''DECIMAL''
      else if c \<in> {''bool'', ''boolean''} then ''SIGNED''
      else if c \<in> {''text'', ''varchar'', ''char'', ''uuid''} then ''CHAR''
      else if c = ''date'' then ''DATE''
      else if c \<in> {''timestamp'', ''timestamptz''} then ''DATETIME''
      else if c \<in> {''json'', ''jsonb''} then ''JSON''
      else ''CHAR'')"

definition mysql_Cast :: "string \<Rightarrow> string \<Rightarrow> string" where
  "mysql_Cast e ty = ''CAST('' @ e @ '' AS '' @ mysqlType ty @ '')''"

definition mysql_Regex :: "string \<Rightarrow> string \<Rightarrow> bool \<Rightarrow> string option" where
  "mysql_Regex e pat ci =
     Some (if ci then ''REGEXP_LIKE('' @ e @ '', '' @ PatternMark @ '', '' @ [squote] @ ''i'' @ [squote] @ '')''
           else ''REGEXP_LIKE('' @ e @ '', '' @ PatternMark @ '')'')"

definition mysql_ArrayOp :: "string \<Rightarrow> string \<Rightarrow> string \<Rightarrow> string \<Rightarrow> string option" where
  "mysql_ArrayOp col op val colType =
     (if colType \<noteq> ''json'' \<and> colType \<noteq> ''jsonb'' then None
      else if op = ''@>'' then Some (''JSON_CONTAINS('' @ col @ '', '' @ val @ '')'')
      else if op = ''<@'' then Some (''JSON_CONTAINS('' @ val @ '', '' @ col @ '')'')
      else if op = ''&&'' then Some (''JSON_OVERLAPS('' @ col @ '', '' @ val @ '')'')
      else None)"

definition mysql_IsBool :: "string \<Rightarrow> bool \<Rightarrow> string option" where
  "mysql_IsBool col v = Some (col @ '' = '' @ bit_value v)"

definition mysql :: dialect where
  "mysql = \<lparr>QuoteIdent = mysql_QuoteIdent, Placeholder = (\<lambda>n. ''?''), LimitOffset = mysql_LimitOffset,
     NullsOrder = mysql_NullsOrder, Returning = (\<lambda>cs. None), DUpsert = mysql_Upsert,
     JSONObject = mysql_JSONObject, JSONAgg = (\<lambda>e k. ''JSON_ARRAYAGG('' @ e @ '')''), DCast = mysql_Cast,
     Regex = mysql_Regex, RegexFeatureGap = (\<lambda>p. []), FullText = mysql_FullText,
     SessionRead = (\<lambda>k. []), SessionWrite = (\<lambda>k. None), ILike = (\<lambda>c v. Some (c @ '' LIKE '' @ v)), BoolValue = bit_value,
     IsBool = mysql_IsBool, IsUnknown = (\<lambda>c. None), ArrayOp = mysql_ArrayOp, ArrayLiteral = array_to_json json_elem,
     InList = (\<lambda>c. None), ArrayArg = (\<lambda>xs t. JSONArrayArg xs), JSONPath = (\<lambda>e hs a. None), RangeOp = (\<lambda>c k v. None)\<rparr>"

subsection \<open>SQL Server\<close>

definition mssql_QuoteIdent :: "string \<Rightarrow> string" where
  "mssql_QuoteIdent name = quote_with CHR ''['' CHR '']'' name"

definition mssql_Placeholder :: "nat \<Rightarrow> string" where
  "mssql_Placeholder n = ''@p'' @ show_nat n"

definition mssql_LimitOffset :: "int option \<Rightarrow> int option \<Rightarrow> bool \<Rightarrow> string" where
  "mssql_LimitOffset lim off hasOrder =
     (if lim = None \<and> off = None then (if hasOrder then ''OFFSET 0 ROWS'' else [])
      else (if hasOrder then [] else ''ORDER BY (SELECT 1) '') @
           ''OFFSET '' @ show_int (case off of Some k \<Rightarrow> k | None \<Rightarrow> 0) @ '' ROWS'' @
           (case lim of Some l \<Rightarrow> '' FETCH NEXT '' @ show_int l @ '' ROWS ONLY'' | None \<Rightarrow> []))"

definition mssql_NullsOrder :: "string \<Rightarrow> string \<Rightarrow> bool \<Rightarrow> bool option \<Rightarrow> string \<times> string" where
  "mssql_NullsOrder col dir dsc nf =
     (''CASE WHEN '' @ col @ '' IS NULL THEN '' @ (if nulls_first dsc nf then ''0'' else ''1'') @ '' ELSE '' @
      (if nulls_first dsc nf then ''1'' else ''0'') @ '' END'', col @ '' '' @ dir)"

definition mssql_Returning :: "string list \<Rightarrow> string option" where
  "mssql_Returning cols = Some (''OUTPUT '' @ join '', '' (map (\<lambda>c. ''INSERTED.'' @ c) cols))"

definition mssql_Upsert :: "upsert_spec \<Rightarrow> string + string" where
  "mssql_Upsert spec =
     Inl ''SQL Server upsert is a multi-statement transaction the data plane drives, not a single-statement clause''"

definition mssql_JSONObject :: "json_pair list \<Rightarrow> string" where
  "mssql_JSONObject ps = ''JSON_OBJECT('' @ join '', '' (map (\<lambda>p. sqlLiteral (pr_key p) @ '': '' @ pr_value p) ps) @ '')''"

definition mssql_JSONAgg :: "string \<Rightarrow> string \<Rightarrow> string" where
  "mssql_JSONAgg e orderBy =
     [squote] @ ''['' @ [squote] @ ''+STRING_AGG(CAST(('' @ e @ '') AS NVARCHAR(MAX)),'' @ [squote] @ '','' @ [squote] @ '')+'' @
     [squote] @ '']'' @ [squote]"

definition sqlServerType :: "string \<Rightarrow> string" where
  "sqlServerType c =
     (if c \<in> {''smallint'', ''int2''} then ''SMALLINT''
      else if c \<in> {''int'', ''integer'', ''int4''} then ''INT''
      else if c \<in> {''bigint'', ''int8''} then ''BIGINT''
      else if c \<in> {''numeric'', ''decimal''} then ''DECIMAL''
      else if c \<in> {''real'', ''float4''} then ''REAL''
      else if c \<in> {''double precision'', ''float'', ''float8''} then ''FLOAT''
      else if c \<in> {''bool'', ''boolean''} then ''BIT''
      else if c = ''uuid'' then ''UNIQUEIDENTIFIER''
      else if c = ''date'' then ''DATE''
      else if c \<in> {''timestamp'', ''timestamptz''} then ''DATETIME2''
      else ''NVARCHAR(MAX)'')"

definition mssql_Cast :: "string \<Rightarrow> string \<Rightarrow> string" where
  "mssql_Cast e ty = ''CAST('' @ e @ '' AS '' @ sqlServerType ty @ '')''"

definition mssql_Regex :: "string \<Rightarrow> string \<Rightarrow> bool \<Rightarrow> string option" where
  "mssql_Regex e pat ci =
     Some (if ci then ''REGEXP_LIKE('' @ e @ '', '' @ PatternMark @ '', '' @ [squote] @ ''i'' @ [squote] @ '')''
           else ''REGEXP_LIKE('' @ e @ '', '' @ PatternMark @ '')'')"

definition mssql_SessionRead :: "string \<Rightarrow> string" where
  "mssql_SessionRead k = ''SESSION_CONTEXT(N'' @ sqlLiteral k @ '')''"

definition mssql_SessionWrite :: "string \<Rightarrow> string option" where
  "mssql_SessionWrite k = Some (''EXEC sp_set_session_context N'' @ sqlLiteral k @ '', '' @ PatternMark)"

definition mssql_ArrayOp :: "string \<Rightarrow> string \<Rightarrow> string \<Rightarrow> string \<Rightarrow> string option" where
  "mssql_ArrayOp col op val colType =
     (if op = ''@>'' then Some (''NOT EXISTS(SELECT [value] FROM OPENJSON('' @ val @
        '') WHERE [value] NOT IN (SELECT [value] FROM OPENJSON('' @ col @ '')))'')
      else if op = ''<@'' then Some (''NOT EXISTS(SELECT [value] FROM OPENJSON('' @ col @
        '') WHERE [value] NOT IN (SELECT [value] FROM OPENJSON('' @ val @ '')))'')
      else if op = ''&&'' then Some (''EXISTS(SELECT 1 FROM OPENJSON('' @ col @
        '') a WHERE a.[value] IN (SELECT [value] FROM OPENJSON('' @ val @ '')))'')
      else None)"

definition mssql_elem :: "string \<Rightarrow> string" where
  "mssql_elem p0 = (if trim_space p0 = ''NULL'' then ''null'' else json_elem p0)"

definition sqlserver :: dialect where
  "sqlserver = \<lparr>QuoteIdent = mssql_QuoteIdent, Placeholder = mssql_Placeholder, LimitOffset = mssql_LimitOffset,
     NullsOrder = mssql_NullsOrder, Returning = mssql_Returning, DUpsert = mssql_Upsert,
     JSONObject = mssql_JSONObject, JSONAgg = mssql_JSONAgg, DCast = mssql_Cast,
     Regex = mssql_Regex, RegexFeatureGap = (\<lambda>p. []), FullText = sqlserver_FullText,
     SessionRead = mssql_SessionRead, SessionWrite = mssql_SessionWrite,
     ILike = (\<lambda>c v. Some (c @ '' LIKE '' @ v)), BoolValue = bit_value,
     IsBool = mysql_IsBool, IsUnknown = (\<lambda>c. None), ArrayOp = mssql_ArrayOp, ArrayLiteral = array_to_json mssql_elem,
     InList = (\<lambda>c. None), ArrayArg = (\<lambda>xs t. JSONArrayArg xs), JSONPath = (\<lambda>e hs a. None), RangeOp = (\<lambda>c k v. None)\<rparr>"

end
