(* ===== verification/Plan.thy ===== *)
theory Plan
  imports Ir Pgtypes
begin

section \<open>Package plan: resolving a query against the schema\<close>

text \<open>
  \<open>src/plan/plan.go\<close>: \<open>Read\<close> and \<open>Write\<close>. The planner mutates the query in place; here each function
  returns the query it leaves. \<open>validateCond\<close> takes the address of a node and writes an annotated
  comparison back through it; under a \<open>Not\<close> the address is that of a local copy, so a comparison
  directly below one is validated and keeps its old annotations, while the kids of an And or Or
  below it are shared and keep the new ones. \<open>put_text\<close> is the text
  \<open>json.Marshal\<close> gives for an array or an object, and \<open>float_text\<close> is \<open>fmt.Sprint\<close> of the
  \<open>float64\<close> a text denotes; both are parameters.
\<close>

subsection \<open>Columns and operands\<close>

definition checkColumn :: "relation \<Rightarrow> string list \<Rightarrow> api_error option" where
  "checkColumn rel path =
     (case path of
        [] \<Rightarrow> None
      | c # _ \<Rightarrow>
          if has_column rel c then None
          else if computed_field_for rel c \<noteq> None then None
          else Some (ErrUndefinedColumn (r_name rel @ ''.'' @ c)))"

definition plan_coerce :: "string \<Rightarrow> string \<Rightarrow> api_error option" where
  "plan_coerce ty inp =
     (case ParseScalar ty inp of
        Inr v \<Rightarrow> None
      | Inl ce \<Rightarrow> Some (ErrInvalidInput (ce_canonical ce) (ce_input ce)))"

fun first_some :: "('a \<Rightarrow> 'e option) \<Rightarrow> 'a list \<Rightarrow> 'e option" where
  "first_some f [] = None"
| "first_some f (x # xs) = (case f x of None \<Rightarrow> first_some f xs | Some e \<Rightarrow> Some e)"

definition checkOperand :: "relation \<Rightarrow> compare \<Rightarrow> api_error option" where
  "checkOperand rel c =
     (case cmp_path c of
        [col] \<Rightarrow>
          (case rel_column rel col of
             None \<Rightarrow> None
           | Some sc \<Rightarrow>
               if cmp_quant c \<noteq> QNone then
                 (if cmp_op c \<in> {OpEq, OpGt, OpGte, OpLt, OpLte}
                  then first_some (plan_coerce (sc_type sc)) (v_list (cmp_value c)) else None)
               else if cmp_op c \<in> {OpEq, OpNeq, OpGt, OpGte, OpLt, OpLte}
                 then plan_coerce (sc_type sc) (v_text (cmp_value c))
               else if cmp_op c = OpIn then first_some (plan_coerce (sc_type sc)) (v_list (cmp_value c))
               else None)
      | _ \<Rightarrow> None)"

definition isStarPath :: "string list \<Rightarrow> bool" where
  "isStarPath path \<longleftrightarrow> path = [''*'']"

definition select_error :: "relation \<Rightarrow> bool \<Rightarrow> select_item \<Rightarrow> api_error option" where
  "select_error rel agg it =
     (case it of
        SColumn c \<Rightarrow> if isStarPath (c_path c) then None else checkColumn rel (c_path c)
      | SAggregate a \<Rightarrow>
          if \<not> a_legacy a \<and> \<not> agg then Some ErrAggregatesDisabled
          else (case a_arg a of
                  None \<Rightarrow> None
                | Some c \<Rightarrow> if isStarPath (c_path c) then None else checkColumn rel (c_path c))
      | SEmbedRef n \<Rightarrow> None)"

definition validateSelect :: "relation \<Rightarrow> select_item list \<Rightarrow> bool \<Rightarrow> api_error option" where
  "validateSelect rel items agg = first_some (select_error rel agg) items"

subsection \<open>Filters\<close>

definition annotate_compare :: "relation \<Rightarrow> compare \<Rightarrow> compare" where
  "annotate_compare rel c =
     (case cmp_path c of
        [col] \<Rightarrow>
          if cmp_op c = OpFTS then
            c\<lparr>cmp_full_text := full_text_index_for rel col,
              cmp_column_type := (case rel_column rel col of Some sc \<Rightarrow> sc_type sc | None \<Rightarrow> cmp_column_type c)\<rparr>
          else if cmp_op c \<in> {OpContains, OpContained, OpOverlap, OpEq, OpNeq} then
            (case rel_column rel col of Some sc \<Rightarrow> c\<lparr>cmp_column_type := sc_type sc\<rparr> | None \<Rightarrow> c)
          else c
      | _ \<Rightarrow> c)"

definition compare_error :: "relation \<Rightarrow> compare \<Rightarrow> api_error option" where
  "compare_error rel c =
     (case checkColumn rel (cmp_path c) of Some e \<Rightarrow> Some e | None \<Rightarrow> checkOperand rel c)"

definition keep_compare :: "cond \<Rightarrow> cond \<Rightarrow> cond" where
  "keep_compare old new = (case old of CCompare c \<Rightarrow> old | _ \<Rightarrow> new)"

fun validateCond :: "relation \<Rightarrow> cond \<Rightarrow> api_error + cond" where
  "validateCond rel (CAnd ks) = bindr (mapr (validateCond rel) ks) (\<lambda>ks'. Inr (CAnd ks'))"
| "validateCond rel (COr ks) = bindr (mapr (validateCond rel) ks) (\<lambda>ks'. Inr (COr ks'))"
| "validateCond rel (CNot k) = bindr (validateCond rel k) (\<lambda>k'. Inr (CNot (keep_compare k k')))"
| "validateCond rel (CCompare c) =
     (case compare_error rel c of Some e \<Rightarrow> Inl e | None \<Rightarrow> Inr (CCompare (annotate_compare rel c)))"
| "validateCond rel (CEmbedPredicate i ex) = Inr (CEmbedPredicate i ex)"

definition validateWhere :: "relation \<Rightarrow> cond option \<Rightarrow> api_error + cond option" where
  "validateWhere rel w =
     (case w of None \<Rightarrow> Inr None | Some c \<Rightarrow> bindr (validateCond rel c) (\<lambda>c'. Inr (Some c')))"

text \<open>\<open>reclassifyEmbedFilters\<close>; of two embeds with one key the index keeps the later.\<close>

definition embed_index :: "embed list \<Rightarrow> nat go_map" where
  "embed_index es = fold (\<lambda>(i, e) m. aput (e_out_key (meta e)) i m) (List.enumerate 0 es) []"

fun reclassify :: "nat go_map \<Rightarrow> cond \<Rightarrow> cond" where
  "reclassify idx (CAnd ks) = CAnd (map (reclassify idx) ks)"
| "reclassify idx (COr ks) = COr (map (reclassify idx) ks)"
| "reclassify idx (CNot k) = CNot (reclassify idx k)"
| "reclassify idx (CCompare c) =
     (case cmp_path c of
        [p] \<Rightarrow>
          if cmp_op c = OpIs \<and> v_text (cmp_value c) = ''null'' then
            (case aget idx p of Some i \<Rightarrow> CEmbedPredicate i (cmp_negate c) | None \<Rightarrow> CCompare c)
          else CCompare c
      | _ \<Rightarrow> CCompare c)"
| "reclassify idx (CEmbedPredicate i ex) = CEmbedPredicate i ex"

definition reclassifyEmbedFilters :: "query \<Rightarrow> query" where
  "reclassifyEmbedFilters q =
     (if q_where (base q) = None \<or> embeds q = [] then q
      else upd_base (\<lambda>b. b\<lparr>q_where := map_option (reclassify (embed_index (embeds q))) (q_where b)\<rparr>) q)"

subsection \<open>Ordering\<close>

definition validateOrder :: "relation \<Rightarrow> order_term list \<Rightarrow> api_error option" where
  "validateOrder rel terms = first_some (\<lambda>t. if o_rel t \<noteq> [] then None else checkColumn rel (o_path t)) terms"

definition written_name :: "embed \<Rightarrow> string" where
  "written_name e = (if e_alias (meta e) = [] then ref_name (e_target (meta e)) else e_alias (meta e))"

definition findEmbedByName :: "embed list \<Rightarrow> string \<Rightarrow> embed option" where
  "findEmbedByName es name = find (\<lambda>e. written_name e = name) es"

text \<open>The embeds are resolved by now, so \<open>e_rel\<close> is set (\<open>resolveEmbeds_rel\<close> below).\<close>

definition related_order_error :: "relation \<Rightarrow> embed list \<Rightarrow> order_term \<Rightarrow> api_error option" where
  "related_order_error parent es t =
     (if o_rel t = [] then None
      else case findEmbedByName es (o_rel t) of
             None \<Rightarrow> Some (ErrRelatedOrderNotEmbedded (o_rel t))
           | Some e \<Rightarrow>
               if e_cardinality (meta e) \<noteq> CardOne then Some (ErrRelatedOrderNotToOne (r_name parent) (o_rel t))
               else (case e_rel (meta e) of None \<Rightarrow> None | Some r \<Rightarrow> checkColumn (rs_target r) (o_path t)))"

definition validateRelatedOrder :: "relation \<Rightarrow> query \<Rightarrow> api_error option" where
  "validateRelatedOrder parent q = first_some (related_order_error parent (embeds q)) (q_order (base q))"

subsection \<open>Embeds\<close>

definition toCardinality :: "card \<Rightarrow> cardinality" where
  "toCardinality c = (case c of CardToMany \<Rightarrow> CardMany | CardToOne \<Rightarrow> CardOne)"

definition embedCandidates :: "relation \<Rightarrow> relationship list \<Rightarrow> embed_candidate list" where
  "embedCandidates parent cands =
     map (\<lambda>c. \<lparr>ec_cardinality = rs_cardinality c,
                ec_embedding = r_name parent @ '' with '' @ r_name (rs_target c),
                ec_relationship = rs_name c @ '' using '' @ r_name parent @ ''('' @ join '', '' (rs_local c) @
                  '') and '' @ r_name (rs_target c) @ ''('' @ join '', '' (rs_foreign c) @ '')'',
                ec_name = rs_name c\<rparr>) cands"

definition searchSchema :: "string list \<Rightarrow> string" where
  "searchSchema path = (case path of s # _ \<Rightarrow> if s \<noteq> [] then s else ''public'' | [] \<Rightarrow> ''public'')"

definition resolveOne :: "model \<Rightarrow> relation \<Rightarrow> embed_meta \<Rightarrow> string list \<Rightarrow> api_error + relationship" where
  "resolveOne m parent em path =
     (let target = ref_name (e_target em);
          none = Inl (ErrNoRelationship (r_name parent) target (searchSchema path) (e_hint em)) in
      case relationships m parent target path of
        Some (c # cs) \<Rightarrow>
          (case (if e_hint em \<noteq> [] then filter (\<lambda>r. matches_hint r (e_hint em)) (c # cs) else c # cs) of
             [] \<Rightarrow> none
           | [r] \<Rightarrow> Inr r
           | rs \<Rightarrow> Inl (ErrAmbiguousEmbed (r_name parent) target (embedCandidates parent rs)))
      | _ \<Rightarrow> (case computed_rel_by_name m parent target path of Some r \<Rightarrow> Inr r | None \<Rightarrow> none))"

definition bind_computed :: "relation \<Rightarrow> query_base \<Rightarrow> query_base" where
  "bind_computed rel b =
     (if r_computed rel = [] then b
      else b\<lparr>q_computed := fold (\<lambda>c m. aput (cf_name c) (cf_func_schema c) m) (r_computed rel) []\<rparr>)"

definition rep_of :: "representation \<Rightarrow> ir_rep" where
  "rep_of r = (let f = \<lambda>g. (fr_schema g, fr_name g) in
     \<lparr>irep_to_json = f (rep_to_json r), irep_from_text = f (rep_from_text r), irep_from_json = f (rep_from_json r)\<rparr>)"

definition bind_reps :: "relation \<Rightarrow> query_base \<Rightarrow> query_base" where
  "bind_reps rel b =
     b\<lparr>q_reps := fold (\<lambda>c m. case sc_rep c of None \<Rightarrow> m | Some r \<Rightarrow> aput (sc_name c) (rep_of r) m) (r_columns rel) []\<rparr>"

definition opt_err :: "api_error option \<Rightarrow> (unit \<Rightarrow> api_error + 'a) \<Rightarrow> api_error + 'a" where
  "opt_err e k = (case e of Some x \<Rightarrow> Inl x | None \<Rightarrow> k ())"

lemma opt_err_cong [fundef_cong]: "e = e' \<Longrightarrow> (e' = None \<Longrightarrow> k () = k' ()) \<Longrightarrow> opt_err e k = opt_err e' k'"
  by (cases e') (simp_all add: opt_err_def)

fun resolveEmbeds :: "model \<Rightarrow> string list \<Rightarrow> bool \<Rightarrow> relation \<Rightarrow> embed list \<Rightarrow> api_error + embed list" where
  "resolveEmbeds m path agg parent [] = Inr []"
| "resolveEmbeds m path agg parent (Embed em (Query b es) # rest) =
     bindr (resolveOne m parent em path) (\<lambda>r.
       let t = rs_target r in
       opt_err (validateSelect t (q_select b) agg) (\<lambda>_.
       bindr (validateWhere t (q_where b)) (\<lambda>w.
       opt_err (validateOrder t (q_order b)) (\<lambda>_.
       bindr (resolveEmbeds m path agg t es) (\<lambda>es'.
       let b' = b\<lparr>q_relation := \<lparr>ref_schema = r_schema t, ref_name = r_name t\<rparr>, q_where := w\<rparr>;
           em' = em\<lparr>e_rel := Some r, e_cardinality := toCardinality (rs_card r)\<rparr> in
       opt_err (validateRelatedOrder t (Query b' es')) (\<lambda>_.
       bindr (resolveEmbeds m path agg parent rest) (\<lambda>rest'.
         Inr (Embed em' (Query (bind_reps t (bind_computed t b')) es') # rest'))))))))"

subsection \<open>Read\<close>

definition bind_relation :: "relation \<Rightarrow> query_base \<Rightarrow> query_base" where
  "bind_relation rel b = b\<lparr>q_relation := \<lparr>ref_schema = r_schema rel, ref_name = r_name rel\<rparr>\<rparr>"

definition PlanRead :: "model \<Rightarrow> query \<Rightarrow> string list \<Rightarrow> bool \<Rightarrow> api_error + query \<times> relation" where
  "PlanRead m q path agg =
     (case model_lookup m (ref_name (q_relation (base q))) path of
        None \<Rightarrow> Inl (ErrUnknownTable (searchSchema path) (ref_name (q_relation (base q))))
      | Some rel \<Rightarrow>
          opt_err (validateSelect rel (q_select (base q)) agg) (\<lambda>_.
          let q1 = reclassifyEmbedFilters (upd_base (bind_relation rel) q) in
          bindr (validateWhere rel (q_where (base q1))) (\<lambda>w.
          opt_err (validateOrder rel (q_order (base q1))) (\<lambda>_.
          bindr (resolveEmbeds m path agg rel (embeds q1)) (\<lambda>es.
          let q2 = Query ((base q1)\<lparr>q_where := w\<rparr>) es in
          opt_err (validateRelatedOrder rel q2) (\<lambda>_.
            Inr (upd_base (\<lambda>b. bind_reps rel (bind_computed rel b)) q2, rel)))))))"

subsection \<open>Write\<close>

definition payload_error :: "relation \<Rightarrow> string \<Rightarrow> api_error option" where
  "payload_error rel c = (if rel_column rel c = None then Some (ErrUnknownColumn c (r_name rel)) else None)"

definition column_types :: "relation \<Rightarrow> string list \<Rightarrow> string go_map" where
  "column_types rel cols =
     fold (\<lambda>c m. case rel_column rel c of Some sc \<Rightarrow> aput c (sc_type sc) m | None \<Rightarrow> m) cols []"

definition default_target :: "relation \<Rightarrow> conflict option \<Rightarrow> conflict option" where
  "default_target rel cf = map_option (\<lambda>c. if cf_target c = [] then c\<lparr>cf_target := r_primary_key rel\<rparr> else c) cf"

definition validateWrite :: "relation \<Rightarrow> write_spec option \<Rightarrow> api_error + write_spec option" where
  "validateWrite rel w =
     (case w of
        None \<Rightarrow> Inr None
      | Some s \<Rightarrow>
          opt_err (first_some (payload_error rel) (w_columns s)) (\<lambda>_.
          opt_err (first_some (payload_error rel) (keys_of (w_set s))) (\<lambda>_.
            Inr (Some (s\<lparr>w_column_types := column_types rel (w_columns s @ keys_of (w_set s)),
                         w_conflict := default_target rel (w_conflict s)\<rparr>)))))"

fun put_eqs :: "cond \<Rightarrow> string go_map \<Rightarrow> string go_map option" where
  "put_eqs (CAnd ks) out = fold (\<lambda>k acc. Option.bind acc (put_eqs k)) ks (Some out)"
| "put_eqs (CCompare c) out =
     (if cmp_op c \<noteq> OpEq \<or> length (cmp_path c) \<noteq> 1 \<or> cmp_quant c \<noteq> QNone \<or> cmp_negate c then None
      else Some (aput (hd (cmp_path c)) (v_text (cmp_value c)) out))"
| "put_eqs _ out = None"

definition putEqFilters :: "cond option \<Rightarrow> string go_map option" where
  "putEqFilters w = (case w of None \<Rightarrow> Some [] | Some c \<Rightarrow> put_eqs c [])"

definition jsonScalarText :: "(json \<Rightarrow> string) \<Rightarrow> json \<Rightarrow> string" where
  "jsonScalarText put_text v =
     (case v of JNull \<Rightarrow> [] | JString s \<Rightarrow> s | JBool b \<Rightarrow> (if b then ''true'' else ''false'')
      | JNumber t \<Rightarrow> t | _ \<Rightarrow> put_text v)"

definition scalar_text :: "(string \<Rightarrow> string) \<Rightarrow> scalar \<Rightarrow> string" where
  "scalar_text float_text v =
     (case v of SText s \<Rightarrow> s | SInt n \<Rightarrow> show_int n | SFloat t \<Rightarrow> float_text t
      | SBool b \<Rightarrow> (if b then ''true'' else ''false''))"

definition putKeyMatches ::
  "(json \<Rightarrow> string) \<Rightarrow> (string \<Rightarrow> string) \<Rightarrow> relation \<Rightarrow> string \<Rightarrow> ir_value \<Rightarrow> string \<Rightarrow> bool" where
  "putKeyMatches put_text float_text rel col payload urlText =
     (let pj = jsonScalarText put_text (v_json payload); raw = (pj = urlText) in
      case rel_column rel col of
        None \<Rightarrow> raw
      | Some sc \<Rightarrow>
          if sc_type sc = [] then raw
          else (case (ParseScalar (sc_type sc) pj, ParseScalar (sc_type sc) urlText) of
                  (Inr pv, Inr uv) \<Rightarrow> scalar_text float_text pv = scalar_text float_text uv
                | _ \<Rightarrow> raw))"

definition validatePut :: "(json \<Rightarrow> string) \<Rightarrow> (string \<Rightarrow> string) \<Rightarrow> relation \<Rightarrow> query_base \<Rightarrow> api_error option" where
  "validatePut put_text float_text rel b =
     (if q_limit b \<noteq> None \<or> q_offset b \<noteq> None then Some ErrPutLimit
      else case putEqFilters (q_where b) of
             None \<Rightarrow> Some ErrPutPrimaryKey
           | Some eqs \<Rightarrow>
               let pk = r_primary_key rel in
               if pk = [] \<or> length eqs \<noteq> length pk then Some ErrPutPrimaryKey
               else if \<not> list_all (\<lambda>c. aget eqs c \<noteq> None) pk then Some ErrPutPrimaryKey
               else case q_write b of
                      Some w \<Rightarrow>
                        (case w_rows w of
                           [row] \<Rightarrow>
                             if list_all (\<lambda>c. case (aget row c, aget eqs c) of
                                  (Some v, Some u) \<Rightarrow> putKeyMatches put_text float_text rel c v u
                                | _ \<Rightarrow> False) pk
                             then None else Some ErrPutPayloadKey
                         | _ \<Rightarrow> Some ErrPutPayloadKey)
                    | None \<Rightarrow> Some ErrPutPayloadKey)"

definition PlanWrite ::
  "(json \<Rightarrow> string) \<Rightarrow> (string \<Rightarrow> string) \<Rightarrow> model \<Rightarrow> query \<Rightarrow> string list \<Rightarrow> api_error + query \<times> relation" where
  "PlanWrite put_text float_text m q path =
     (case model_lookup m (ref_name (q_relation (base q))) path of
        None \<Rightarrow> Inl (ErrUnknownTable (searchSchema path) (ref_name (q_relation (base q))))
      | Some rel \<Rightarrow>
          let b = bind_relation rel (base q) in
          opt_err (validateSelect rel (q_select b) False) (\<lambda>_.
          bindr (validateWhere rel (q_where b)) (\<lambda>w.
          bindr (validateWrite rel (q_write b)) (\<lambda>ws.
          bindr (resolveEmbeds m path False rel (embeds q)) (\<lambda>es.
          let b' = b\<lparr>q_where := w, q_write := ws\<rparr> in
          opt_err (if q_is_put b' then validatePut put_text float_text rel b' else None) (\<lambda>_.
            Inr (Query (bind_reps rel (bind_computed rel b')) es, rel)))))))"

end
