(* ===== verification/Cond_Semantics.thy ===== *)
theory Cond_Semantics
  imports Ir
begin

section \<open>The meaning of a filter tree\<close>

text \<open>
  A filter tree reaches the engine as the boolean expression \<open>src/backend/sqlgen/compile.go\<close> writes
  for it (\<open>writeCond\<close>, \<open>writeLogical\<close>, \<open>writeCompare\<close>): AND, OR and NOT between parentheses over
  the comparisons. SQL evaluates it in three-valued logic, \<open>None\<close> being NULL, and keeps a row
  only when the value is \<open>Some True\<close>. The engine is a parameter: \<open>engine\<close> gives the value of a
  comparison the sources leave to it and \<open>related\<close> whether an embedded resource has a row.
  Equality and inequality of a plain column (the two operators a policy uses) compare the
  column's text, \<open>None\<close> when it is NULL, and an empty IN list is written \<open>1 = 0\<close>.
\<close>

type_synonym row = "string \<Rightarrow> string option"

record engine =
  en_compare :: "compare \<Rightarrow> row \<Rightarrow> bool option"
  en_related :: "nat \<Rightarrow> row \<Rightarrow> bool"

definition not3 :: "bool option \<Rightarrow> bool option" where
  "not3 v = map_option Not v"

definition and3 :: "bool option list \<Rightarrow> bool option" where
  "and3 vs = (if Some False \<in> set vs then Some False else if None \<in> set vs then None else Some True)"

definition or3 :: "bool option list \<Rightarrow> bool option" where
  "or3 vs = (if Some True \<in> set vs then Some True else if None \<in> set vs then None else Some False)"

definition compare3 :: "engine \<Rightarrow> row \<Rightarrow> compare \<Rightarrow> bool option" where
  "compare3 en row c =
     (let v = (if cmp_quant c = QNone \<and> cmp_op c = OpIn \<and> v_list (cmp_value c) = [] then Some False
               else if cmp_quant c = QNone \<and> length (cmp_path c) = 1 \<and> cmp_op c = OpEq
                 then map_option (\<lambda>x. x = v_text (cmp_value c)) (row (hd (cmp_path c)))
               else if cmp_quant c = QNone \<and> length (cmp_path c) = 1 \<and> cmp_op c = OpNeq
                 then map_option (\<lambda>x. x \<noteq> v_text (cmp_value c)) (row (hd (cmp_path c)))
               else en_compare en c row)
      in if cmp_negate c then not3 v else v)"

fun cond3 :: "engine \<Rightarrow> row \<Rightarrow> cond \<Rightarrow> bool option" where
  "cond3 en row (CAnd ks) = and3 (map (cond3 en row) ks)"
| "cond3 en row (COr ks) = or3 (map (cond3 en row) ks)"
| "cond3 en row (CNot k) = not3 (cond3 en row k)"
| "cond3 en row (CEmbedPredicate i ex) = Some (en_related en i row = ex)"
| "cond3 en row (CCompare c) = compare3 en row c"

text \<open>The rows a WHERE clause keeps; no clause keeps every row.\<close>

definition keeps :: "engine \<Rightarrow> cond option \<Rightarrow> row \<Rightarrow> bool" where
  "keeps en w row = (case w of None \<Rightarrow> True | Some c \<Rightarrow> cond3 en row c = Some True)"

lemma and3_True: "and3 vs = Some True \<longleftrightarrow> (\<forall>v \<in> set vs. v = Some True)"
proof
  assume *: "and3 vs = Some True"
  show "\<forall>v \<in> set vs. v = Some True"
  proof
    fix v assume "v \<in> set vs"
    with * show "v = Some True" by (cases v; cases "the v") (auto simp: and3_def split: if_split_asm)
  qed
qed (auto simp: and3_def)

lemma or3_True: "or3 vs = Some True \<longleftrightarrow> Some True \<in> set vs"
  by (auto simp: or3_def)

end
