(* ===== verification/Plan_Facts.thy ===== *)
theory Plan_Facts
  imports Plan Cond_Semantics
begin

section \<open>Facts about the planner\<close>

text \<open>
  What a successful plan guarantees, stated over the names a query level mentions
  (\<open>level_names\<close>) and the names a relation exposes (\<open>exposes\<close>): every name resolves at every level,
  every embed is bound to the one edge the request denotes, every operand is of its column's type,
  and a PUT addresses the row its payload carries.
\<close>

subsection \<open>Names and operands of one level\<close>

definition exposes :: "relation \<Rightarrow> string \<Rightarrow> bool" where
  "exposes rel n \<longleftrightarrow> n \<in> sc_name ` set (r_columns rel) \<or> n \<in> cf_name ` set (r_computed rel)"

definition item_columns :: "select_item \<Rightarrow> ir_column list" where
  "item_columns it =
     (case it of SColumn c \<Rightarrow> [c] | SAggregate a \<Rightarrow> (case a_arg a of None \<Rightarrow> [] | Some c \<Rightarrow> [c]) | SEmbedRef i \<Rightarrow> [])"

definition item_names :: "select_item \<Rightarrow> string list" where
  "item_names it = concat (map (\<lambda>c. if isStarPath (c_path c) then [] else take 1 (c_path c)) (item_columns it))"

fun comparisons :: "cond \<Rightarrow> compare list" where
  "comparisons (CAnd ks) = concat (map comparisons ks)"
| "comparisons (COr ks) = concat (map comparisons ks)"
| "comparisons (CNot k) = comparisons k"
| "comparisons (CEmbedPredicate i ex) = []"
| "comparisons (CCompare c) = [c]"

fun cond_embeds :: "cond \<Rightarrow> nat list" where
  "cond_embeds (CAnd ks) = concat (map cond_embeds ks)"
| "cond_embeds (COr ks) = concat (map cond_embeds ks)"
| "cond_embeds (CNot k) = cond_embeds k"
| "cond_embeds (CEmbedPredicate i ex) = [i]"
| "cond_embeds (CCompare c) = []"

definition where_list :: "(cond \<Rightarrow> 'a list) \<Rightarrow> query_base \<Rightarrow> 'a list" where
  "where_list f b = (case q_where b of None \<Rightarrow> [] | Some c \<Rightarrow> f c)"

definition order_names :: "order_term \<Rightarrow> string list" where
  "order_names t = (if o_rel t = [] then take 1 (o_path t) else [])"

definition level_names :: "query_base \<Rightarrow> string list" where
  "level_names b = concat (map item_names (q_select b)) @
     concat (map (\<lambda>c. take 1 (cmp_path c)) (where_list comparisons b)) @ concat (map order_names (q_order b))"

text \<open>The operands the planner reads against the column's type, and that they are values of it.\<close>

definition typed_operands :: "compare \<Rightarrow> string list" where
  "typed_operands c =
     (if cmp_quant c \<noteq> QNone
      then if cmp_op c \<in> {OpEq, OpGt, OpGte, OpLt, OpLte} then v_list (cmp_value c) else []
      else if cmp_op c \<in> {OpEq, OpNeq, OpGt, OpGte, OpLt, OpLte} then [v_text (cmp_value c)]
      else if cmp_op c = OpIn then v_list (cmp_value c) else [])"

definition operand_ok :: "relation \<Rightarrow> compare \<Rightarrow> bool" where
  "operand_ok rel c \<longleftrightarrow>
     (\<forall>col sc. cmp_path c = [col] \<longrightarrow> rel_column rel col = Some sc \<longrightarrow>
        (\<forall>s \<in> set (typed_operands c). \<not> isl (ParseScalar (sc_type sc) s)))"

definition aggregates_ok :: "bool \<Rightarrow> select_item list \<Rightarrow> bool" where
  "aggregates_ok agg its \<longleftrightarrow> agg \<or> (\<forall>a. SAggregate a \<in> set its \<longrightarrow> a_legacy a)"

definition level_ok :: "bool \<Rightarrow> relation \<Rightarrow> query_base \<Rightarrow> bool" where
  "level_ok agg rel b \<longleftrightarrow>
     (\<forall>n \<in> set (level_names b). exposes rel n) \<and>
     (\<forall>c \<in> set (where_list comparisons b). operand_ok rel c) \<and> aggregates_ok agg (q_select b)"

lemma first_some_None: "first_some f xs = None \<longleftrightarrow> (\<forall>x \<in> set xs. f x = None)"
  by (induction xs) (auto split: option.split)

lemma first_some_SomeD: "first_some f xs = Some e \<Longrightarrow> \<exists>x \<in> set xs. f x = Some e"
  by (induction xs) (auto split: option.split_asm)

lemma fold_aput_None:
  "aget (fold (\<lambda>c m. aput (f c) (g c) m) xs m) k = None \<longleftrightarrow> k \<notin> f ` set xs \<and> aget m k = None"
  by (induction xs arbitrary: m) (auto simp: aget_aput)

lemma has_column_iff: "has_column rel n \<longleftrightarrow> n \<in> sc_name ` set (r_columns rel)"
  using fold_aput_None [of sc_name "\<lambda>c. c" "r_columns rel" "[]" n]
  by (simp add: has_column_def rel_column_def rel_index_def)

lemma checkColumn_None: "checkColumn rel path = None \<longleftrightarrow> (\<forall>n \<in> set (take 1 path). exposes rel n)"
proof (cases path)
  case (Cons n p)
  have "computed_field_for rel n \<noteq> None \<longleftrightarrow> n \<in> cf_name ` set (r_computed rel)"
    using fold_aput_None [of cf_name "\<lambda>c. c" "r_computed rel" "[]" n]
    by (simp add: computed_field_for_def rel_index_computed_def)
  then show ?thesis by (simp add: Cons checkColumn_def exposes_def has_column_iff)
qed (simp add: checkColumn_def)

lemma validateSelect_None:
  "validateSelect rel its agg = None \<longleftrightarrow>
     (\<forall>n \<in> set (concat (map item_names its)). exposes rel n) \<and> aggregates_ok agg its"
proof -
  have *: "select_error rel agg it = None \<longleftrightarrow> (\<forall>n \<in> set (item_names it). exposes rel n) \<and> aggregates_ok agg [it]" for it
    by (cases it) (auto simp: select_error_def item_names_def item_columns_def aggregates_ok_def checkColumn_None split: option.split)
  show ?thesis by (auto simp: validateSelect_def first_some_None * aggregates_ok_def)
qed

lemma plan_coerce_None: "plan_coerce ty s = None \<longleftrightarrow> \<not> isl (ParseScalar ty s)"
  by (auto simp: plan_coerce_def split: sum.split)

lemma checkOperand_None: "checkOperand rel c = None \<longleftrightarrow> operand_ok rel c"
proof (cases "\<exists>col. cmp_path c = [col]")
  case True
  then obtain col where p: "cmp_path c = [col]" by blast
  show ?thesis
  proof (cases "rel_column rel col")
    case (Some sc)
    then show ?thesis
      by (auto simp: checkOperand_def operand_ok_def typed_operands_def p first_some_None plan_coerce_None)
  qed (simp add: checkOperand_def operand_ok_def p)
qed (auto simp: checkOperand_def operand_ok_def split: list.split)

subsection \<open>Filter trees\<close>

lemma annotate_compare_keeps [simp]:
  "cmp_path (annotate_compare rel c) = cmp_path c" "cmp_op (annotate_compare rel c) = cmp_op c"
  "cmp_value (annotate_compare rel c) = cmp_value c" "cmp_quant (annotate_compare rel c) = cmp_quant c"
  "cmp_negate (annotate_compare rel c) = cmp_negate c"
  by (auto simp: annotate_compare_def split: list.split option.split)

definition cond_ok :: "relation \<Rightarrow> cond \<Rightarrow> bool" where
  "cond_ok rel c \<longleftrightarrow> (\<forall>x \<in> set (comparisons c). (\<forall>n \<in> set (take 1 (cmp_path x)). exposes rel n) \<and> operand_ok rel x)"

lemma compare_error_None:
  "compare_error rel c = None \<longleftrightarrow> (\<forall>n \<in> set (take 1 (cmp_path c)). exposes rel n) \<and> operand_ok rel c"
  using checkColumn_None [of rel "cmp_path c"] checkOperand_None [of rel c]
  by (cases "checkColumn rel (cmp_path c)") (simp_all add: compare_error_def)

lemma cond_ok_simps [simp]:
  "cond_ok rel (CAnd ks) \<longleftrightarrow> (\<forall>k \<in> set ks. cond_ok rel k)"
  "cond_ok rel (COr ks) \<longleftrightarrow> (\<forall>k \<in> set ks. cond_ok rel k)"
  "cond_ok rel (CNot k) \<longleftrightarrow> cond_ok rel k"
  "cond_ok rel (CEmbedPredicate i ex)"
  "cond_ok rel (CCompare c) \<longleftrightarrow> compare_error rel c = None"
  by (auto simp: cond_ok_def compare_error_None)

lemma operand_ok_annotate [simp]: "operand_ok rel (annotate_compare rel' c) \<longleftrightarrow> operand_ok rel c"
  by (simp add: operand_ok_def typed_operands_def)

lemma cond_ok_annotate: "cond_ok rel (CCompare (annotate_compare rel' c)) \<longleftrightarrow> cond_ok rel (CCompare c)"
  by (simp add: cond_ok_def)

lemma mapr_total_iff: "(\<exists>ys. mapr f xs = Inr ys) \<longleftrightarrow> (\<forall>x \<in> set xs. \<exists>y. f x = Inr y)"
  by (induction xs) (auto simp: bindr_Inr_conv)

lemma validateCond_total: "(\<exists>c'. validateCond rel c = Inr c') \<longleftrightarrow> cond_ok rel c"
proof (induction rel c rule: validateCond.induct)
  case (1 rel ks)
  then show ?case by (simp add: bindr_Inr_conv mapr_total_iff)
next
  case (2 rel ks)
  then show ?case by (simp add: bindr_Inr_conv mapr_total_iff)
qed (simp_all add: bindr_Inr_conv split: option.split)

lemma validateCond_keeps:
  "validateCond rel c = Inr c' \<Longrightarrow> cond_ok rel c' \<and> cond_embeds c' = cond_embeds c"
proof (induction rel c arbitrary: c' rule: validateCond.induct)
  case (1 rel ks)
  then obtain ks' where ks': "mapr (validateCond rel) ks = Inr ks'" "c' = CAnd ks'" by (auto simp: bindr_Inr_conv)
  have "list_all2 (\<lambda>k k'. cond_ok rel k' \<and> cond_embeds k' = cond_embeds k) ks ks'"
    using ks'(1) unfolding mapr_Inr_conv by (rule list.rel_mono_strong) (use 1 in blast)
  then show ?case unfolding ks'(2) by (induction rule: list_all2_induct) auto
next
  case (2 rel ks)
  then obtain ks' where ks': "mapr (validateCond rel) ks = Inr ks'" "c' = COr ks'" by (auto simp: bindr_Inr_conv)
  have "list_all2 (\<lambda>k k'. cond_ok rel k' \<and> cond_embeds k' = cond_embeds k) ks ks'"
    using ks'(1) unfolding mapr_Inr_conv by (rule list.rel_mono_strong) (use 2 in blast)
  then show ?case unfolding ks'(2) by (induction rule: list_all2_induct) auto
next
  case (3 rel k)
  then obtain k' where k': "validateCond rel k = Inr k'" "c' = CNot (keep_compare k k')" by (auto simp: bindr_Inr_conv)
  from 3 k' have "cond_ok rel k' \<and> cond_embeds k' = cond_embeds k" by blast
  moreover have "cond_ok rel k" using k' validateCond_total by blast
  ultimately show ?case by (auto simp: k' keep_compare_def split: cond.split)
next
  case (4 rel x)
  then have "cond_ok rel (CCompare x)" "c' = CCompare (annotate_compare rel x)" by (auto split: option.split_asm)
  then show ?case using cond_ok_annotate by auto
qed auto

lemma validateWhere_keeps:
  assumes "validateWhere rel w = Inr w'"
  shows "(\<forall>c \<in> set_option w'. cond_ok rel c) \<and> map_option cond_embeds w' = map_option cond_embeds w"
  using assms validateCond_keeps [of rel]
  by (cases w) (auto simp: validateWhere_def bindr_Inr_conv)

lemma validateWhere_total: "(\<exists>w'. validateWhere rel w = Inr w') \<longleftrightarrow> (\<forall>c \<in> set_option w. cond_ok rel c)"
  using validateCond_total [of rel] by (cases w) (auto simp: validateWhere_def bindr_Inr_conv)

lemma validateOrder_None: "validateOrder rel ts = None \<longleftrightarrow> (\<forall>n \<in> set (concat (map order_names ts)). exposes rel n)"
  by (auto simp: validateOrder_def first_some_None checkColumn_None order_names_def)

lemma level_ok_iff:
  "level_ok agg rel b \<longleftrightarrow> validateSelect rel (q_select b) agg = None \<and>
     (\<forall>c \<in> set_option (q_where b). cond_ok rel c) \<and> validateOrder rel (q_order b) = None"
  by (cases "q_where b") (auto simp: level_ok_def level_names_def where_list_def validateSelect_None validateOrder_None cond_ok_def)

lemma reclassify_embeds:
  assumes "\<And>k i. aget idx k = Some i \<Longrightarrow> i < n"
  shows "set (cond_embeds (reclassify idx c)) \<subseteq> set (cond_embeds c) \<union> {..<n}"
proof (induction c)
  case (CCompare x)
  then show ?case using assms by (auto split: list.split option.split)
qed (use assms in fastforce)+

lemma embed_index_bound: "aget (embed_index es) k = Some i \<Longrightarrow> i < length es"
proof -
  have "aget (fold (\<lambda>(i, e) m. aput (f e) i m) xs m) k = Some i \<Longrightarrow>
      i \<in> fst ` set xs \<or> aget m k = Some i" for xs :: "(nat \<times> embed) list" and m f
    by (induction xs arbitrary: m) (fastforce simp: aget_aput split: if_split_asm)+
  then show "aget (embed_index es) k = Some i \<Longrightarrow> i < length es"
    unfolding embed_index_def by (fastforce simp: in_set_enumerate_eq)
qed

lemma reclassifyEmbedFilters_keeps [simp]:
  "embeds (reclassifyEmbedFilters q) = embeds q"
  "q_select (base (reclassifyEmbedFilters q)) = q_select (base q)"
  "q_order (base (reclassifyEmbedFilters q)) = q_order (base q)"
  "q_relation (base (reclassifyEmbedFilters q)) = q_relation (base q)"
  by (simp_all add: reclassifyEmbedFilters_def)

lemma reclassifyEmbedFilters_embeds:
  "set (where_list cond_embeds (base (reclassifyEmbedFilters q))) \<subseteq>
     set (where_list cond_embeds (base q)) \<union> {..<length (embeds q)}"
proof -
  have "set (cond_embeds (reclassify (embed_index (embeds q)) c)) \<subseteq> set (cond_embeds c) \<union> {..<length (embeds q)}" for c
    by (rule reclassify_embeds) (rule embed_index_bound)
  note cls = this
  show ?thesis
  proof (cases "q_where (base q) = None \<or> embeds q = []")
    case False
    then obtain c where "q_where (base q) = Some c" by auto
    with False show ?thesis using cls [of c] by (simp add: reclassifyEmbedFilters_def where_list_def)
  qed (auto simp: reclassifyEmbedFilters_def)
qed

subsection \<open>Embeds\<close>

text \<open>
  \<open>chosen_edge\<close>: the edge an embed denotes, the only candidate its hint leaves, or, where the name
  relates to nothing, the computed relationship of that name.
\<close>

definition chosen_edge :: "model \<Rightarrow> relation \<Rightarrow> embed_meta \<Rightarrow> string list \<Rightarrow> relationship \<Rightarrow> bool" where
  "chosen_edge m parent em path r \<longleftrightarrow>
     (case relationships m parent (ref_name (e_target em)) path of
        Some (c # cs) \<Rightarrow> filter (\<lambda>x. e_hint em = [] \<or> matches_hint x (e_hint em)) (c # cs) = [r]
      | _ \<Rightarrow> computed_rel_by_name m parent (ref_name (e_target em)) path = Some r)"

lemma chosen_edge_upd [simp]:
  "chosen_edge m parent (em\<lparr>e_rel := x, e_cardinality := y\<rparr>) path r \<longleftrightarrow> chosen_edge m parent em path r"
  by (simp add: chosen_edge_def split: option.split list.split)

lemma resolveOne_exact: "resolveOne m parent em path = Inr r \<longleftrightarrow> chosen_edge m parent em path r"
  by (cases "e_hint em = []")
    (auto simp: resolveOne_def chosen_edge_def Let_def split: option.split list.split)

definition order_ok :: "embed list \<Rightarrow> order_term \<Rightarrow> bool" where
  "order_ok es t \<longleftrightarrow> o_rel t = [] \<or>
     (\<exists>e r. findEmbedByName es (o_rel t) = Some e \<and> e_cardinality (meta e) = CardOne \<and>
        e_rel (meta e) = Some r \<and> (\<forall>n \<in> set (take 1 (o_path t)). exposes (rs_target r) n))"

fun planned :: "model \<Rightarrow> string list \<Rightarrow> bool \<Rightarrow> relation \<Rightarrow> embed \<Rightarrow> bool" where
  "planned m path agg parent (Embed em (Query b es)) =
     (case e_rel em of
        None \<Rightarrow> False
      | Some r \<Rightarrow>
          chosen_edge m parent em path r \<and> e_cardinality em = toCardinality (rs_card r) \<and>
          q_relation b = \<lparr>ref_schema = r_schema (rs_target r), ref_name = r_name (rs_target r)\<rparr> \<and>
          level_ok agg (rs_target r) b \<and> list_all (order_ok es) (q_order b) \<and>
          list_all (planned m path agg (rs_target r)) es)"

lemma opt_err_conv [result_simps]:
  "opt_err e k = Inr x \<longleftrightarrow> e = None \<and> k () = Inr x"
  "opt_err e k = Inl y \<longleftrightarrow> e = Some y \<or> e = None \<and> k () = Inl y"
  by (auto simp: opt_err_def split: option.split)

lemma bind_keeps [simp]:
  "q_select (bind_reps rel b) = q_select b" "q_where (bind_reps rel b) = q_where b"
  "q_order (bind_reps rel b) = q_order b" "q_relation (bind_reps rel b) = q_relation b"
  "q_write (bind_reps rel b) = q_write b" "q_limit (bind_reps rel b) = q_limit b" "q_offset (bind_reps rel b) = q_offset b"
  "q_is_put (bind_reps rel b) = q_is_put b" "q_kind (bind_reps rel b) = q_kind b"
  "q_select (bind_computed rel b) = q_select b" "q_where (bind_computed rel b) = q_where b"
  "q_order (bind_computed rel b) = q_order b" "q_relation (bind_computed rel b) = q_relation b"
  "q_write (bind_computed rel b) = q_write b" "q_limit (bind_computed rel b) = q_limit b" "q_offset (bind_computed rel b) = q_offset b"
  "q_is_put (bind_computed rel b) = q_is_put b" "q_kind (bind_computed rel b) = q_kind b"
  by (simp_all add: bind_reps_def bind_computed_def)

lemma find_member: "find P xs = Some x \<Longrightarrow> x \<in> set xs \<and> P x"
  by (induction xs) (auto split: if_split_asm)

lemma validateRelatedOrder_None:
  assumes "\<forall>e \<in> set (embeds q). e_rel (meta e) \<noteq> None" and "validateRelatedOrder parent q = None"
  shows "list_all (order_ok (embeds q)) (q_order (base q))"
proof -
  have "order_ok (embeds q) t" if "related_order_error parent (embeds q) t = None" for t
  proof (cases "o_rel t = []")
    case False
    with that obtain e where e: "findEmbedByName (embeds q) (o_rel t) = Some e" "e_cardinality (meta e) = CardOne"
      and col: "\<And>r. e_rel (meta e) = Some r \<Longrightarrow> checkColumn (rs_target r) (o_path t) = None"
      by (auto simp: related_order_error_def split: option.split_asm if_split_asm)
    obtain r where "e_rel (meta e) = Some r"
      using assms(1) find_member [OF e(1) [unfolded findEmbedByName_def]] by blast
    with e col show ?thesis by (auto simp: order_ok_def checkColumn_None)
  qed (simp add: order_ok_def)
  then show ?thesis using assms(2) by (auto simp: validateRelatedOrder_def first_some_None list_all_iff)
qed

lemma planned_rel: "planned m path agg parent e \<Longrightarrow> e_rel (meta e) \<noteq> None"
proof -
  obtain em b es where "e = Embed em (Query b es)" by (metis embed.exhaust query.exhaust)
  then show "planned m path agg parent e \<Longrightarrow> e_rel (meta e) \<noteq> None" by (cases "e_rel em") simp_all
qed

lemma level_ok_bind [simp]:
  "level_ok agg rel (bind_reps t b) \<longleftrightarrow> level_ok agg rel b"
  "level_ok agg rel (bind_computed t b) \<longleftrightarrow> level_ok agg rel b"
  by (simp_all add: level_ok_iff)

lemma resolveEmbeds_planned:
  "resolveEmbeds m path agg parent es = Inr es' \<Longrightarrow>
   list_all (planned m path agg parent) es' \<and> length es' = length es"
proof (induction m path agg parent es arbitrary: es' rule: resolveEmbeds.induct)
  case (2 m path agg parent em b es rest)
  obtain r w es1 rest' where r: "resolveOne m parent em path = Inr r"
    and sel: "validateSelect (rs_target r) (q_select b) agg = None"
    and w: "validateWhere (rs_target r) (q_where b) = Inr w"
    and ord: "validateOrder (rs_target r) (q_order b) = None"
    and es1: "resolveEmbeds m path agg (rs_target r) es = Inr es1"
    and rel: "validateRelatedOrder (rs_target r) (Query (b\<lparr>q_relation := \<lparr>ref_schema = r_schema (rs_target r),
        ref_name = r_name (rs_target r)\<rparr>, q_where := w\<rparr>) es1) = None"
    and rest: "resolveEmbeds m path agg parent rest = Inr rest'"
    and es': "es' = Embed (em\<lparr>e_rel := Some r, e_cardinality := toCardinality (rs_card r)\<rparr>)
        (Query (bind_reps (rs_target r) (bind_computed (rs_target r)
          (b\<lparr>q_relation := \<lparr>ref_schema = r_schema (rs_target r), ref_name = r_name (rs_target r)\<rparr>, q_where := w\<rparr>))) es1) # rest'"
    using 2(3) by (auto simp: result_simps Let_def)
  have all: "list_all (planned m path agg (rs_target r)) es1" using 2(1) [OF r refl sel w ord es1] by blast
  then have "\<forall>e \<in> set es1. e_rel (meta e) \<noteq> None" using planned_rel by (fastforce simp: list_all_iff)
  then have ords: "list_all (order_ok es1) (q_order b)" using validateRelatedOrder_None [OF _ rel] by simp
  have "level_ok agg (rs_target r) (b\<lparr>q_relation := x, q_where := w\<rparr>)" for x
    using sel ord validateWhere_keeps [OF w] by (simp add: level_ok_iff)
  moreover have "list_all (planned m path agg parent) rest' \<and> length rest' = length rest"
    using 2(2) [OF r refl sel w ord es1 refl refl rel] rest by blast
  ultimately show ?case using r all ords by (simp add: es' resolveOne_exact)
qed simp

subsection \<open>Read\<close>

lemma PlanRead_InrE:
  assumes "PlanRead m q path agg = Inr (q', rel)"
  obtains w es where "model_lookup m (ref_name (q_relation (base q))) path = Some rel"
    and "validateSelect rel (q_select (base q)) agg = None"
    and "validateWhere rel (q_where (base (reclassifyEmbedFilters (upd_base (bind_relation rel) q)))) = Inr w"
    and "validateOrder rel (q_order (base q)) = None"
    and "resolveEmbeds m path agg rel (embeds q) = Inr es"
    and "validateRelatedOrder rel (Query ((base (reclassifyEmbedFilters (upd_base (bind_relation rel) q)))\<lparr>q_where := w\<rparr>) es) = None"
    and "q' = Query (bind_reps rel (bind_computed rel
           ((base (reclassifyEmbedFilters (upd_base (bind_relation rel) q)))\<lparr>q_where := w\<rparr>))) es"
  using assms
  by (auto simp: PlanRead_def result_simps Let_def bind_relation_def upd_base_def split: option.split_asm)

lemma related_orders:
  assumes "resolveEmbeds m path agg rel es = Inr es'" and "validateRelatedOrder rel (Query b es') = None"
  shows "list_all (order_ok es') (q_order b)"
proof -
  have "\<forall>e \<in> set es'. e_rel (meta e) \<noteq> None"
    using resolveEmbeds_planned [OF assms(1)] planned_rel by (fastforce simp: list_all_iff)
  then show ?thesis using validateRelatedOrder_None [OF _ assms(2)] by simp
qed

lemma where_list_embeds:
  "map_option cond_embeds (q_where b) = map_option cond_embeds (q_where b') \<Longrightarrow>
   where_list cond_embeds b = where_list cond_embeds b'"
  by (auto simp: where_list_def split: option.split)

text \<open>
  C23. A planned read is resolved at every level. The relation is the one the search path finds;
  at the root and inside every embed, each column the select list, the filter or the order names is
  a column or computed field of the relation bound there, each typed operand is a value of its
  column's type, aggregates appear only where they are enabled; each embed is bound to the only
  edge its name and hint leave; a related order names a to-one embed and a column of it; and an
  existence filter the planner introduces names an embed of the query.
\<close>

theorem planned_read_resolved:
  assumes "PlanRead m q path agg = Inr (q', rel)"
  shows "model_lookup m (ref_name (q_relation (base q))) path = Some rel \<and>
    q_relation (base q') = \<lparr>ref_schema = r_schema rel, ref_name = r_name rel\<rparr> \<and>
    level_ok agg rel (base q') \<and> list_all (planned m path agg rel) (embeds q') \<and>
    list_all (order_ok (embeds q')) (q_order (base q')) \<and>
    set (where_list cond_embeds (base q')) \<subseteq> set (where_list cond_embeds (base q)) \<union> {..<length (embeds q')}"
proof (rule PlanRead_InrE [OF assms])
  fix w es
  let ?q1 = "reclassifyEmbedFilters (upd_base (bind_relation rel) q)"
  assume m: "model_lookup m (ref_name (q_relation (base q))) path = Some rel"
    and sel: "validateSelect rel (q_select (base q)) agg = None"
    and w: "validateWhere rel (q_where (base ?q1)) = Inr w"
    and ord: "validateOrder rel (q_order (base q)) = None"
    and es: "resolveEmbeds m path agg rel (embeds q) = Inr es"
    and rord: "validateRelatedOrder rel (Query ((base ?q1)\<lparr>q_where := w\<rparr>) es) = None"
    and q': "q' = Query (bind_reps rel (bind_computed rel ((base ?q1)\<lparr>q_where := w\<rparr>))) es"
  have "level_ok agg rel (base q')"
    using sel ord validateWhere_keeps [OF w] by (simp add: level_ok_iff q' bind_relation_def)
  moreover have "where_list cond_embeds (base q') = where_list cond_embeds (base ?q1)"
    using validateWhere_keeps [OF w] by (intro where_list_embeds) (simp add: q')
  moreover have "set (where_list cond_embeds (base ?q1)) \<subseteq> set (where_list cond_embeds (base q)) \<union> {..<length es}"
    using reclassifyEmbedFilters_embeds [of "upd_base (bind_relation rel) q"] resolveEmbeds_planned [OF es]
    by (simp add: where_list_def bind_relation_def)
  ultimately show ?thesis
    using m resolveEmbeds_planned [OF es] related_orders [OF es rord] by (simp add: q' bind_relation_def)
qed

subsection \<open>A model to plan against\<close>

definition demo_col :: "string \<Rightarrow> string \<Rightarrow> schema_column" where
  "demo_col n ty = \<lparr>sc_name = n, sc_type = ty, sc_comment = [], sc_nullable = True, sc_has_default = False,
     sc_identity = False, sc_position = 0, sc_rep = None\<rparr>"

definition demo_rel :: "string \<Rightarrow> schema_column list \<Rightarrow> foreign_key list \<Rightarrow> relation" where
  "demo_rel n cols fks = \<lparr>r_schema = ''public'', r_name = n, r_kind = KindTable, r_comment = [], r_columns = cols,
     r_primary_key = [''id''], r_unique = [], r_foreign_keys = fks, r_full_text = [], r_view_columns = [],
     r_computed = [], r_computed_rels = []\<rparr>"

definition demo_model :: model where
  "demo_model = new_model
     [demo_rel ''directors'' [demo_col ''id'' ''int4'', demo_col ''name'' ''text''] [],
      demo_rel ''films'' [demo_col ''id'' ''int4'', demo_col ''title'' ''text'', demo_col ''director_id'' ''int4'']
        [\<lparr>fk_name = ''films_director_fk'', fk_columns = [''director_id''], fk_ref_schema = ''public'',
          fk_ref_relation = ''directors'', fk_ref_columns = [''id''], fk_source_relation = []\<rparr>]]"

definition demo_ir_column :: "string \<Rightarrow> ir_column" where
  "demo_ir_column n = \<lparr>c_path = [n], c_last = JSONNone, c_cast = [], c_alias = []\<rparr>"

definition demo_eq :: "string \<Rightarrow> string \<Rightarrow> cond" where
  "demo_eq c v = CCompare \<lparr>cmp_path = [c], cmp_last = JSONNone, cmp_op = OpEq, cmp_value = text_value v,
     cmp_quant = QNone, cmp_negate = False, cmp_fts = FTSPlain, cmp_config = [], cmp_full_text = None,
     cmp_column_type = []\<rparr>"

definition demo_embed :: "string \<Rightarrow> embed" where
  "demo_embed n = Embed \<lparr>e_cardinality = CardUnknown, e_join = JoinLeft, e_spread = False, e_hint = [],
     e_alias = [], e_out_key = n, e_target = bare_ref n, e_rel = None, e_empty_select = False\<rparr>
     (Query ((new_base Read n)\<lparr>q_select := [SColumn (demo_ir_column ''name'')]\<rparr>) [])"

definition demo_query :: query where
  "demo_query = Query ((new_base Read ''films'')\<lparr>
     q_select := [SColumn (demo_ir_column ''title''), SEmbedRef 0], q_where := Some (demo_eq ''id'' ''7'')\<rparr>)
     [demo_embed ''directors'']"

definition demo_where :: "(string \<times> string) list \<Rightarrow> query" where
  "demo_where eqs = Query ((new_base Read ''films'')\<lparr>q_where := Some (CAnd (map (\<lambda>(c, v). demo_eq c v) eqs))\<rparr>) []"

lemma demo_query_planned: "\<exists>q' rel. PlanRead demo_model demo_query [''public''] False = Inr (q', rel) \<and> length (embeds q') = 1"
proof -
  have "case PlanRead demo_model demo_query [''public''] False of Inl e \<Rightarrow> False | Inr (q', rel) \<Rightarrow> length (embeds q') = 1"
    by code_simp
  then show ?thesis by (auto split: sum.split_asm prod.split_asm)
qed

theorem planned_read_resolved_witness:
  "\<exists>q' rel. PlanRead demo_model demo_query [''public''] False = Inr (q', rel) \<and>
     level_ok False rel (base q') \<and> list_all (planned demo_model [''public''] False rel) (embeds q') \<and> length (embeds q') = 1"
proof -
  obtain q' rel where p: "PlanRead demo_model demo_query [''public''] False = Inr (q', rel)" "length (embeds q') = 1"
    using demo_query_planned by blast
  with planned_read_resolved [OF p(1)] show ?thesis by blast
qed

text \<open>
  A read without embeds is accepted exactly when it should be: the relation is found and every
  name, operand and aggregate of the request is admissible there, with no order by an embedded
  resource; nothing admissible is refused.
\<close>

theorem flat_read_accepted_iff:
  "(\<exists>p. PlanRead m (Query b []) path agg = Inr p) \<longleftrightarrow>
   (\<exists>rel. model_lookup m (ref_name (q_relation b)) path = Some rel \<and> level_ok agg rel b \<and>
      list_all (\<lambda>t. o_rel t = []) (q_order b))"
proof -
  have related: "validateRelatedOrder rel (Query b' []) = None \<longleftrightarrow> list_all (\<lambda>t. o_rel t = []) (q_order b')" for rel b'
    by (auto simp: list_all_iff validateRelatedOrder_def first_some_None related_order_error_def findEmbedByName_def)
  show ?thesis
    using validateWhere_total [of _ "q_where b"]
    by (auto simp: PlanRead_def result_simps Let_def reclassifyEmbedFilters_def bind_relation_def level_ok_iff related
        split: option.split)
qed

subsection \<open>Errors\<close>

definition is_plan_error :: "api_error \<Rightarrow> bool" where
  "is_plan_error e \<longleftrightarrow> (code e, http_status e) \<in>
     {(''42703'', 400), (''22P02'', 400), (''PGRST123'', 400), (''PGRST108'', 400), (''PGRST118'', 400),
      (''PGRST200'', 400), (''PGRST201'', 300)}"

lemma plan_error_intros [simp]:
  "is_plan_error (ErrUndefinedColumn c)" "is_plan_error (ErrInvalidInput ty s)" "is_plan_error ErrAggregatesDisabled"
  "is_plan_error (ErrRelatedOrderNotEmbedded r)" "is_plan_error (ErrRelatedOrderNotToOne p r)"
  "is_plan_error (ErrNoRelationship p t s h)" "is_plan_error (ErrAmbiguousEmbed p t cs)"
  by (simp_all add: is_plan_error_def ErrUndefinedColumn_def ErrInvalidInput_def ErrAggregatesDisabled_def
      ErrRelatedOrderNotEmbedded_def ErrRelatedOrderNotToOne_def ErrNoRelationship_def ErrAmbiguousEmbed_def
      WithHint_def WithDetails_def WithDetailsJSON_def New_def Let_def)

lemma checkColumn_error: "checkColumn rel p = Some e \<Longrightarrow> is_plan_error e"
  by (auto simp: checkColumn_def split: list.split_asm if_split_asm)

lemma plan_coerce_error: "plan_coerce ty s = Some e \<Longrightarrow> is_plan_error e"
  by (auto simp: plan_coerce_def split: sum.split_asm)

lemma checkOperand_error: "checkOperand rel c = Some e \<Longrightarrow> is_plan_error e"
  by (auto simp: checkOperand_def split: list.split_asm option.split_asm if_split_asm
      dest!: first_some_SomeD plan_coerce_error)

lemma validateSelect_error: "validateSelect rel its agg = Some e \<Longrightarrow> is_plan_error e"
  by (auto simp: validateSelect_def select_error_def split: select_item.split_asm option.split_asm if_split_asm
      dest!: first_some_SomeD checkColumn_error)

lemma compare_error_error: "compare_error rel c = Some e \<Longrightarrow> is_plan_error e"
  by (auto simp: compare_error_def split: option.split_asm dest: checkColumn_error checkOperand_error)

lemma validateCond_error: "validateCond rel c = Inl e \<Longrightarrow> is_plan_error e"
proof (induction rel c rule: validateCond.induct)
  case (1 rel ks)
  then show ?case by (auto simp: result_simps dest: mapr_InlD)
next
  case (2 rel ks)
  then show ?case by (auto simp: result_simps dest: mapr_InlD)
qed (auto simp: result_simps split: option.split_asm dest: compare_error_error)

lemma validateWhere_error: "validateWhere rel w = Inl e \<Longrightarrow> is_plan_error e"
  by (auto simp: validateWhere_def result_simps split: option.split_asm dest: validateCond_error)

lemma validateOrder_error: "validateOrder rel ts = Some e \<Longrightarrow> is_plan_error e"
  by (auto simp: validateOrder_def split: if_split_asm dest!: first_some_SomeD dest: checkColumn_error)

lemma validateRelatedOrder_error: "validateRelatedOrder rel q = Some e \<Longrightarrow> is_plan_error e"
  by (auto simp: validateRelatedOrder_def related_order_error_def split: if_split_asm option.split_asm
      dest!: first_some_SomeD dest: checkColumn_error)

lemma resolveOne_error: "resolveOne m parent em path = Inl e \<Longrightarrow> is_plan_error e"
  by (auto simp: resolveOne_def Let_def split: option.split_asm list.split_asm if_split_asm)

lemmas level_errors = validateSelect_error validateWhere_error validateOrder_error validateRelatedOrder_error resolveOne_error

lemma resolveEmbeds_error: "resolveEmbeds m path agg parent es = Inl e \<Longrightarrow> is_plan_error e"
proof (induction m path agg parent es rule: resolveEmbeds.induct)
  case (2 m path agg parent em b es rest)
  then show ?case by (auto simp: result_simps Let_def dest: level_errors)
qed simp

text \<open>
  The planner's refusals of a read: 404 with PGRST205 exactly when the relation is not found, and
  otherwise one of the resolution errors with its status.
\<close>

theorem read_plan_errors:
  assumes "PlanRead m q path agg = Inl e"
  shows "(http_status e = 404 \<longleftrightarrow> model_lookup m (ref_name (q_relation (base q))) path = None) \<and>
    (if model_lookup m (ref_name (q_relation (base q))) path = None then code e = ''PGRST205'' else is_plan_error e)"
proof (cases "model_lookup m (ref_name (q_relation (base q))) path")
  case None
  then show ?thesis using assms by (auto simp: PlanRead_def ErrUnknownTable_def New_def)
next
  case (Some rel)
  then have "is_plan_error e"
    using assms by (auto simp: PlanRead_def result_simps Let_def dest: level_errors resolveEmbeds_error)
  then show ?thesis using Some by (auto simp: is_plan_error_def)
qed

theorem read_plan_errors_witness:
  "\<exists>e. PlanRead demo_model (demo_where [(''id'', ''seven'')]) [''public''] False = Inl e \<and> is_plan_error e"
proof -
  have "isl (PlanRead demo_model (demo_where [(''id'', ''seven'')]) [''public''] False)" by code_simp
  then obtain e where e: "PlanRead demo_model (demo_where [(''id'', ''seven'')]) [''public''] False = Inl e"
    by (auto simp: isl_def)
  have "model_lookup demo_model (ref_name (q_relation (base (demo_where [(''id'', ''seven'')])))) [''public''] \<noteq> None"
    by code_simp
  with read_plan_errors [OF e] e show ?thesis by auto
qed

subsection \<open>Write\<close>

lemma PlanWrite_InrE:
  assumes "PlanWrite pt ft m q path = Inr (q', rel)"
  obtains w ws es where "model_lookup m (ref_name (q_relation (base q))) path = Some rel"
    and "validateSelect rel (q_select (base q)) False = None"
    and "validateWhere rel (q_where (base q)) = Inr w"
    and "validateWrite rel (q_write (base q)) = Inr ws"
    and "resolveEmbeds m path False rel (embeds q) = Inr es"
    and "q_is_put (base q) \<Longrightarrow> validatePut pt ft rel ((bind_relation rel (base q))\<lparr>q_where := w, q_write := ws\<rparr>) = None"
    and "q' = Query (bind_reps rel (bind_computed rel ((bind_relation rel (base q))\<lparr>q_where := w, q_write := ws\<rparr>))) es"
  using assms
  by (auto simp: PlanWrite_def result_simps Let_def bind_relation_def split: option.split_asm if_split_asm)

lemma payload_error_None: "payload_error rel c = None \<longleftrightarrow> c \<in> sc_name ` set (r_columns rel)"
  using has_column_iff [of rel c] by (auto simp: payload_error_def has_column_def)

lemma column_types_get:
  assumes "\<forall>c \<in> set cols. rel_column rel c \<noteq> None"
  shows "aget (column_types rel cols) c = (if c \<in> set cols then map_option sc_type (rel_column rel c) else None)"
proof -
  have "\<forall>c \<in> set cols. rel_column rel c \<noteq> None \<Longrightarrow>
    aget (fold (\<lambda>c m. case rel_column rel c of Some sc \<Rightarrow> aput c (sc_type sc) m | None \<Rightarrow> m) cols m) c =
    (if c \<in> set cols then map_option sc_type (rel_column rel c) else aget m c)" for m
    by (induction cols arbitrary: m) (auto simp: aget_aput split: option.split)
  from this [OF assms, of "[]"] show ?thesis by (simp add: column_types_def)
qed

lemma validateWrite_facts:
  assumes "validateWrite rel (Some s) = Inr ws"
  obtains s' where "ws = Some s'" and "w_rows s' = w_rows s" and "w_columns s' = w_columns s" and "w_set s' = w_set s"
    and "set (w_columns s') \<union> fst ` set (w_set s') \<subseteq> sc_name ` set (r_columns rel)"
    and "\<And>c. c \<in> set (w_columns s') \<union> fst ` set (w_set s') \<Longrightarrow>
       aget (w_column_types s') c = map_option sc_type (rel_column rel c)"
    and "w_conflict s' = default_target rel (w_conflict s)"
proof -
  let ?s' = "s\<lparr>w_column_types := column_types rel (w_columns s @ keys_of (w_set s)),
               w_conflict := default_target rel (w_conflict s)\<rparr>"
  have ok: "ws = Some ?s'" "\<forall>c \<in> set (w_columns s @ keys_of (w_set s)). payload_error rel c = None"
    using assms by (auto simp: validateWrite_def result_simps first_some_None)
  then have "\<forall>c \<in> set (w_columns s @ keys_of (w_set s)). rel_column rel c \<noteq> None"
    by (auto simp: payload_error_def split: if_split_asm)
  note types = column_types_get [OF this]
  show ?thesis
    by (rule that [OF ok(1)]) (use ok(2) in \<open>auto simp: types payload_error_None\<close>)
qed

text \<open>
  C25. A planned write is resolved. The columns an insert lists and the columns an update sets are base columns of the
  relation, each recorded with its declared type; the filter and the returned columns resolve; the rows, the listed
  columns and the values of an update are those of the request; and the conflict clause keeps its resolution, with the
  relation's whole primary key as its target where the client named none and the client's own target otherwise. The
  client's target and the keys of a payload row outside the listed columns are passed on as they are.
\<close>

theorem planned_write_resolved:
  assumes "PlanWrite pt ft m q path = Inr (q', rel)" and "q_write (base q) = Some s"
  shows "\<exists>s'. q_write (base q') = Some s' \<and> w_rows s' = w_rows s \<and>
    q_relation (base q') = \<lparr>ref_schema = r_schema rel, ref_name = r_name rel\<rparr> \<and>
    level_ok False rel ((base q')\<lparr>q_order := []\<rparr>) \<and> list_all (planned m path False rel) (embeds q') \<and>
    (\<forall>c \<in> set (w_columns s') \<union> fst ` set (w_set s'). c \<in> set (column_names rel) \<and>
       aget (w_column_types s') c = map_option sc_type (rel_column rel c)) \<and>
    w_columns s' = w_columns s \<and> w_set s' = w_set s \<and>
    (case w_conflict s of
       None \<Rightarrow> w_conflict s' = None
     | Some cf \<Rightarrow> w_conflict s' =
         Some \<lparr>cf_target = (if cf_target cf = [] then r_primary_key rel else cf_target cf), cf_resolution = cf_resolution cf\<rparr>)"
proof (rule PlanWrite_InrE [OF assms(1)])
  fix w ws es
  assume sel: "validateSelect rel (q_select (base q)) False = None"
    and w: "validateWhere rel (q_where (base q)) = Inr w"
    and ws: "validateWrite rel (q_write (base q)) = Inr ws"
    and es: "resolveEmbeds m path False rel (embeds q) = Inr es"
    and q': "q' = Query (bind_reps rel (bind_computed rel ((bind_relation rel (base q))\<lparr>q_where := w, q_write := ws\<rparr>))) es"
  obtain s' where s': "ws = Some s'" "w_rows s' = w_rows s" "w_columns s' = w_columns s" "w_set s' = w_set s"
      "set (w_columns s') \<union> fst ` set (w_set s') \<subseteq> sc_name ` set (r_columns rel)"
      "\<And>c. c \<in> set (w_columns s') \<union> fst ` set (w_set s') \<Longrightarrow> aget (w_column_types s') c = map_option sc_type (rel_column rel c)"
      "w_conflict s' = default_target rel (w_conflict s)"
    by (rule validateWrite_facts [OF ws [unfolded assms(2)]]) blast
  have lvl: "level_ok False rel ((base q')\<lparr>q_order := []\<rparr>)"
    using sel validateWhere_keeps [OF w] by (simp add: level_ok_iff q' bind_relation_def validateOrder_def)
  have "q_write (base q') = Some s'" "q_relation (base q') = \<lparr>ref_schema = r_schema rel, ref_name = r_name rel\<rparr>" "embeds q' = es"
    using s'(1) by (simp_all add: q' bind_relation_def)
  moreover have "case w_conflict s of None \<Rightarrow> w_conflict s' = None
     | Some cf \<Rightarrow> w_conflict s' = Some \<lparr>cf_target = (if cf_target cf = [] then r_primary_key rel else cf_target cf), cf_resolution = cf_resolution cf\<rparr>"
    unfolding s'(7) default_target_def by (simp split: option.split)
  moreover have "\<forall>c \<in> set (w_columns s') \<union> fst ` set (w_set s'). c \<in> set (column_names rel) \<and>
       aget (w_column_types s') c = map_option sc_type (rel_column rel c)"
    using s'(5,6) by (auto simp: column_names_def)
  ultimately show ?thesis using lvl resolveEmbeds_planned [OF es] s' by simp
qed

subsection \<open>PUT\<close>

text \<open>What \<open>put_eqs\<close> reads off a filter holds of every row the filter keeps.\<close>

lemma put_eqs_true:
  "put_eqs c out = Some m \<Longrightarrow> cond3 en row c = Some True \<Longrightarrow> aget m k = Some u \<Longrightarrow> aget out k = Some u \<or> row k = Some u"
proof (induction c out arbitrary: m rule: put_eqs.induct)
  case (1 ks out)
  have "set js \<subseteq> set ks \<Longrightarrow> fold (\<lambda>k acc. Option.bind acc (put_eqs k)) js (Some o1) = Some m \<Longrightarrow>
      aget m k = Some u \<Longrightarrow> aget o1 k = Some u \<or> row k = Some u" for js o1
  proof (induction js arbitrary: o1)
    case (Cons j js)
    have none: "fold (\<lambda>k acc. Option.bind acc (put_eqs k)) js None = None" by (induction js) simp_all
    from Cons.prems(2) obtain o2 where o2: "put_eqs j o1 = Some o2" by (cases "put_eqs j o1") (simp_all add: none)
    have "cond3 en row j = Some True" using 1(3) Cons.prems(1) by (auto simp: and3_True)
    then show ?case using Cons.IH [of o2] Cons.prems o2 1(1) by fastforce
  qed simp
  from this [of ks out] show ?case using 1 by simp
qed (auto simp: compare3_def aget_aput length_Suc_conv split: if_split_asm)

lemma putEqFilters_true:
  "putEqFilters w = Some m \<Longrightarrow> keeps en w row \<Longrightarrow> aget m k = Some u \<Longrightarrow> row k = Some u"
  using put_eqs_true [of _ "[]" m en row k u] by (auto simp: putEqFilters_def keeps_def split: option.split_asm)

text \<open>
  C24. A PUT writes the row its URL addresses. A planned PUT has no window and exactly one payload row;
  the relation has a primary key, and for each of its columns the payload carries a value that
  matches the operand of the filter, which is the value of that column in every row the filter
  keeps.
\<close>

theorem planned_put_addresses_row:
  assumes "PlanWrite pt ft m q path = Inr (q', rel)" and "q_is_put (base q)"
  shows "q_limit (base q') = None \<and> q_offset (base q') = None \<and> r_primary_key rel \<noteq> [] \<and>
    (\<exists>s row. q_write (base q') = Some s \<and> w_rows s = [row] \<and>
       (\<forall>c \<in> set (r_primary_key rel). \<exists>v u. aget row c = Some v \<and> putKeyMatches pt ft rel c v u \<and>
          (\<forall>en stored. keeps en (q_where (base q')) stored \<longrightarrow> stored c = Some u)))"
proof (rule PlanWrite_InrE [OF assms(1)])
  fix w ws es
  let ?b = "(bind_relation rel (base q))\<lparr>q_where := w, q_write := ws\<rparr>"
  assume "q_is_put (base q) \<Longrightarrow> validatePut pt ft rel ?b = None"
    and q': "q' = Query (bind_reps rel (bind_computed rel ?b)) es"
  then have put: "validatePut pt ft rel ?b = None" using assms(2) by blast
  obtain eqs where eqs: "putEqFilters w = Some eqs"
    using put by (auto simp: validatePut_def split: option.split_asm if_split_asm)
  obtain s row where s: "ws = Some s" "w_rows s = [row]"
    using put by (auto simp: validatePut_def eqs Let_def split: option.split_asm if_split_asm list.split_asm)
  have win: "q_limit ?b = None" "q_offset ?b = None" "r_primary_key rel \<noteq> []"
    and key: "\<forall>c \<in> set (r_primary_key rel). case (aget row c, aget eqs c) of
          (Some v, Some u) \<Rightarrow> putKeyMatches pt ft rel c v u | _ \<Rightarrow> False"
    using put by (auto simp: validatePut_def eqs s Let_def list_all_iff split: if_split_asm)
  have "\<exists>v u. aget row c = Some v \<and> putKeyMatches pt ft rel c v u \<and>
      (\<forall>en stored. keeps en w stored \<longrightarrow> stored c = Some u)" if c: "c \<in> set (r_primary_key rel)" for c
  proof -
    obtain v u where "aget row c = Some v" "aget eqs c = Some u" "putKeyMatches pt ft rel c v u"
      using bspec [OF key c] by (auto split: option.split_asm)
    then show ?thesis using putEqFilters_true [OF eqs] by blast
  qed
  then show ?thesis using win s by (simp add: q')
qed

definition demo_put :: "(string \<times> string) list \<Rightarrow> string \<Rightarrow> query" where
  "demo_put eqs k = Query ((new_base Upsert ''films'')\<lparr>q_is_put := True,
     q_where := Some (CAnd (map (\<lambda>(c, v). demo_eq c v) eqs)),
     q_write := Some (empty_write\<lparr>w_rows := [[(''id'', json_value (JNumber k)), (''title'', json_value (JString ''Up''))]],
       w_columns := [''id'', ''title''], w_conflict := Some \<lparr>cf_target = [], cf_resolution = ConflictMerge\<rparr>\<rparr>)\<rparr>) []"

lemma demo_put_planned:
  "\<exists>q' rel. PlanWrite (\<lambda>j. []) (\<lambda>s. s) demo_model (demo_put [(''id'', ''07'')] ''7'') [''public''] = Inr (q', rel) \<and>
     r_primary_key rel = [''id'']"
proof -
  have "case PlanWrite (\<lambda>j. []) (\<lambda>s. s) demo_model (demo_put [(''id'', ''07'')] ''7'') [''public''] of
      Inl e \<Rightarrow> False | Inr (q', rel) \<Rightarrow> r_primary_key rel = [''id'']"
    by code_simp
  then show ?thesis by (auto split: sum.split_asm prod.split_asm)
qed

theorem planned_put_addresses_row_witness:
  "\<exists>q' rel. PlanWrite (\<lambda>j. []) (\<lambda>s. s) demo_model (demo_put [(''id'', ''07'')] ''7'') [''public''] = Inr (q', rel) \<and>
     (\<exists>u. \<forall>en stored. keeps en (q_where (base q')) stored \<longrightarrow> stored ''id'' = Some u)"
proof -
  obtain q' rel where p: "PlanWrite (\<lambda>j. []) (\<lambda>s. s) demo_model (demo_put [(''id'', ''07'')] ''7'') [''public''] = Inr (q', rel)"
      "r_primary_key rel = [''id'']"
    using demo_put_planned by blast
  from planned_put_addresses_row [OF p(1)] p show ?thesis by (auto simp: demo_put_def)
qed

theorem planned_write_resolved_witness:
  "\<exists>q' rel s'. PlanWrite (\<lambda>j. []) (\<lambda>s. s) demo_model (demo_put [(''id'', ''07'')] ''7'') [''public''] = Inr (q', rel) \<and>
     q_write (base q') = Some s' \<and> w_conflict s' = Some \<lparr>cf_target = [''id''], cf_resolution = ConflictMerge\<rparr>"
proof -
  obtain q' rel where p: "PlanWrite (\<lambda>j. []) (\<lambda>s. s) demo_model (demo_put [(''id'', ''07'')] ''7'') [''public''] = Inr (q', rel)"
      "r_primary_key rel = [''id'']"
    using demo_put_planned by blast
  obtain s where "q_write (base (demo_put [(''id'', ''07'')] ''7'')) = Some s" "w_conflict s = Some \<lparr>cf_target = [], cf_resolution = ConflictMerge\<rparr>"
    by (simp add: demo_put_def)
  with planned_write_resolved [OF p(1), of s] p show ?thesis by auto
qed

text \<open>
  A filter that repeats a key column overwrites its entry in the map of equalities, so a PUT whose
  filters contradict one another passes the check with the last of them.
\<close>

lemma put_contradictory_filter:
  "\<not> isl (PlanWrite (\<lambda>j. []) (\<lambda>s. s) demo_model (demo_put [(''id'', ''7''), (''id'', ''8'')] ''8'') [''public''])"
  by code_simp

end
