(* ===== verification/Sql_Quoting.thy ===== *)
theory Sql_Quoting
  imports Dialects Plan_Facts
begin

section \<open>Quoting\<close>

text \<open>
  The reader of a quoted text, as SQL defines it: from the opening quote to the first closing quote
  that is not doubled. The locale \<open>quoting\<close> is what the compiler needs of a way of quoting, and
  what follows for the names it writes; it is interpreted on the \<open>QuoteIdent\<close> of every dialect.
\<close>

fun scan_body :: "char \<Rightarrow> string \<Rightarrow> (string \<times> string) option" where
  "scan_body r [] = None"
| "scan_body r (c # s) =
     (if c \<noteq> r then map_option (apfst (Cons c)) (scan_body r s)
      else case s of
        x # t \<Rightarrow> if x = r then map_option (apfst (Cons r)) (scan_body r t) else Some ([], s)
      | [] \<Rightarrow> Some ([], []))"

definition scan_quoted :: "char \<Rightarrow> char \<Rightarrow> string \<Rightarrow> (string \<times> string) option" where
  "scan_quoted l r s = (case s of c # t \<Rightarrow> if c = l then scan_body r t else None | [] \<Rightarrow> None)"

definition stops :: "char \<Rightarrow> string \<Rightarrow> bool" where
  "stops r rest \<longleftrightarrow> (case rest of c # _ \<Rightarrow> c \<noteq> r | [] \<Rightarrow> True)"

lemma scan_body_quoted: "stops r rest \<Longrightarrow> scan_body r (replace_char r [r, r] s @ r # rest) = Some (s, rest)"
  by (induction s) (auto simp: replace_char_def stops_def split: list.splits)

locale quoting =
  fixes quote :: "string \<Rightarrow> string" and l r :: char
  assumes reads_back: "stops r rest \<Longrightarrow> scan_quoted l r (quote s @ rest) = Some (s, rest)"
begin

lemma quote_eq_iff:
  assumes "stops r x" "stops r y"
  shows "quote s @ x = quote t @ y \<longleftrightarrow> s = t \<and> x = y"
proof
  assume eq: "quote s @ x = quote t @ y"
  have "Some (s, x) = Some (t, y)"
    using reads_back [OF assms(1), of s] reads_back [OF assms(2), of t] unfolding eq by (rule trans [OF sym])
  then show "s = t \<and> x = y" by simp
qed simp

lemma qualified_eq_iff:
  assumes "stops r (CHR ''.'' # [])"
  shows "(if a = [] then quote n else quote a @ ''.'' @ quote n) = (if b = [] then quote m else quote b @ ''.'' @ quote m)
    \<longleftrightarrow> a = b \<and> n = m"
proof -
  have dot: "stops r (CHR ''.'' # z)" and nil: "stops r []" for z using assms by (simp_all add: stops_def)
  show ?thesis
    using quote_eq_iff [OF nil nil, of n m] quote_eq_iff [OF nil dot, of n b "quote m"]
      quote_eq_iff [OF dot nil, of a "quote n" m] quote_eq_iff [OF dot dot, of a "quote n" b "quote m"] by auto
qed

lemma quoted_list_inj:
  assumes "stops r (CHR '','' # [])" "stops r x" "stops r y" "xs \<noteq> []" "ys \<noteq> []"
    "hd (x @ [CHR '')'']) \<noteq> CHR '',''" "hd (y @ [CHR '')'']) \<noteq> CHR '',''"
  shows "join '', '' (map quote xs) @ x = join '', '' (map quote ys) @ y \<longleftrightarrow> xs = ys \<and> x = y"
  using assms(4,5)
proof (induction xs arbitrary: ys)
  case (Cons s xs)
  then obtain t ys' where ys: "ys = t # ys'" by (cases ys) auto
  have sep: "stops r ('', '' @ z)" for z using assms(1) by (simp add: stops_def)
  show ?case
  proof (cases xs)
    case Nil
    show ?thesis
    proof (cases ys')
      case Nil2: Nil
      show ?thesis using quote_eq_iff [OF assms(2,3)] by (simp add: ys Nil Nil2)
    next
      case Cons2: (Cons t2 ts)
      have "x \<noteq> '', '' @ join '', '' (map quote ys') @ y" using assms(6) by (cases x) auto
      then show ?thesis using quote_eq_iff [OF assms(2) sep] by (simp add: ys Nil Cons2)
    qed
  next
    case Cons1: (Cons s2 ss)
    show ?thesis
    proof (cases ys')
      case Nil2: Nil
      have "'', '' @ join '', '' (map quote xs) @ x \<noteq> y" using assms(7) by (cases y) auto
      then show ?thesis using quote_eq_iff [OF sep assms(3)] by (simp add: ys Cons1 Nil2)
    next
      case Cons2: (Cons t2 ts)
      have "join '', '' (map quote xs) @ x = join '', '' (map quote ys') @ y \<longleftrightarrow> xs = ys' \<and> x = y"
        by (rule Cons.IH) (simp_all add: Cons1 Cons2)
      then show ?thesis using quote_eq_iff [OF sep sep] by (simp add: ys Cons1 Cons2)
    qed
  qed
qed simp

end

lemma quote_with_reads_back: "stops r rest \<Longrightarrow> scan_quoted l r (quote_with l r s @ rest) = Some (s, rest)"
  by (simp add: scan_quoted_def quote_with_def scan_body_quoted)

interpretation sqlite_ident: quoting "QuoteIdent sqlite" dquote dquote
  by unfold_locales (simp add: sqlite_def sqlite_QuoteIdent_def quote_with_reads_back)

interpretation postgres_ident: quoting "QuoteIdent postgres" dquote dquote
  by unfold_locales (simp add: postgres_def quote_with_reads_back)

interpretation mysql_ident: quoting "QuoteIdent mysql" "CHR 0x60" "CHR 0x60"
  by unfold_locales (simp add: mysql_def mysql_QuoteIdent_def quote_with_reads_back)

interpretation sqlserver_ident: quoting "QuoteIdent sqlserver" "CHR ''[''" "CHR '']''"
  by unfold_locales (simp add: sqlserver_def mssql_QuoteIdent_def quote_with_reads_back)

interpretation sql_literal: quoting sqlLiteral squote squote
  by unfold_locales (simp add: sqlLiteral_def quote_with_reads_back)

lemma ident_quoting:
  "(d, l, r) \<in> {(sqlite, dquote, dquote), (postgres, dquote, dquote), (mysql, CHR 0x60, CHR 0x60), (sqlserver, CHR ''['', CHR '']'')} \<Longrightarrow>
   quoting (QuoteIdent d) l r \<and> stops r ''.'' \<and> stops r '',''"
  using sqlite_ident.quoting_axioms postgres_ident.quoting_axioms mysql_ident.quoting_axioms sqlserver_ident.quoting_axioms
  by (auto simp: stops_def)

text \<open>
  C12. A name cannot leave its quotes: in each dialect, whatever bytes a name has, the engine's reader
  of quoted identifiers takes exactly that name from what \<open>QuoteIdent\<close> wrote and leaves the rest of
  the statement. Different relations have different qualified names, and a list of columns
  different texts.
\<close>

theorem names_stay_quoted:
  assumes "(d, l, r) \<in> {(sqlite, dquote, dquote), (postgres, dquote, dquote), (mysql, CHR 0x60, CHR 0x60), (sqlserver, CHR ''['', CHR '']'')}"
    and "stops r rest" and "xs \<noteq> []" and "ys \<noteq> []"
  shows "scan_quoted l r (QuoteIdent d n @ rest) = Some (n, rest) \<and>
         (qualify d a = qualify d b \<longleftrightarrow> a = b) \<and>
         (join '', '' (map (QuoteIdent d) xs) = join '', '' (map (QuoteIdent d) ys) \<longleftrightarrow> xs = ys)"
proof (intro conjI)
  note q = ident_quoting [OF assms(1), THEN conjunct1] and st = ident_quoting [OF assms(1), THEN conjunct2]
  show "scan_quoted l r (QuoteIdent d n @ rest) = Some (n, rest)" by (rule quoting.reads_back [OF q assms(2)])
  show "qualify d a = qualify d b \<longleftrightarrow> a = b"
    unfolding qualify_def quoting.qualified_eq_iff [OF q st [THEN conjunct1]] by (cases a; cases b) simp
  show "join '', '' (map (QuoteIdent d) xs) = join '', '' (map (QuoteIdent d) ys) \<longleftrightarrow> xs = ys"
    using quoting.quoted_list_inj [OF q, of "[]" "[]" xs ys] st assms(3,4) by (simp add: stops_def)
qed

theorem names_stay_quoted_witness:
  "scan_quoted dquote dquote (QuoteIdent postgres (''a'' @ dquote # '' OR 1=1'') @ '' = $1'') = Some (''a'' @ dquote # '' OR 1=1'', '' = $1'')"
  using names_stay_quoted [of postgres dquote dquote "'' = $1''" "[[]]" "[[]]" "''a'' @ dquote # '' OR 1=1''"]
  by (simp add: stops_def)

subsection \<open>Keys of a JSON object in MySQL\<close>

text \<open>
  MySQL, in its default mode, reads a backslash in a string literal as an escape: the character
  after it stands for itself, or for a control character, and does not end the literal.
\<close>

definition mysql_escape :: "char \<Rightarrow> string" where
  "mysql_escape c =
     (if c = CHR ''0'' then [char_of (0 :: nat)] else if c = CHR ''b'' then [char_of (8 :: nat)]
      else if c = CHR ''n'' then [char_of (10 :: nat)] else if c = CHR ''r'' then [char_of (13 :: nat)]
      else if c = CHR ''t'' then [char_of (9 :: nat)] else if c = CHR ''Z'' then [char_of (26 :: nat)]
      else if c \<in> {CHR ''%'', CHR ''_''} then [bslash, c] else [c])"

fun scan_mysql_body :: "string \<Rightarrow> (string \<times> string) option" where
  "scan_mysql_body [] = None"
| "scan_mysql_body [c] = (if c = squote then Some ([], []) else None)"
| "scan_mysql_body (c # x # s) =
     (if c = bslash then map_option (apfst (\<lambda>t. mysql_escape x @ t)) (scan_mysql_body s)
      else if c \<noteq> squote then map_option (apfst (Cons c)) (scan_mysql_body (x # s))
      else if x = squote then map_option (apfst (Cons squote)) (scan_mysql_body s)
      else Some ([], x # s))"

definition scan_mysql :: "string \<Rightarrow> (string \<times> string) option" where
  "scan_mysql s = (case s of c # t \<Rightarrow> if c = squote then scan_mysql_body t else None | [] \<Rightarrow> None)"

lemma scan_mysql_plain:
  "c \<noteq> bslash \<Longrightarrow> c \<noteq> squote \<Longrightarrow> s \<noteq> [] \<Longrightarrow> scan_mysql_body (c # s) = map_option (apfst (Cons c)) (scan_mysql_body s)"
  by (cases s) auto

lemma scan_mysql_text:
  "bslash \<notin> set k \<Longrightarrow> s \<noteq> [] \<Longrightarrow>
   scan_mysql_body (replace_char squote [squote, squote] k @ s) = map_option (apfst (\<lambda>t. k @ t)) (scan_mysql_body s)"
  by (induction k) (auto simp: replace_char_def scan_mysql_plain option.map_comp comp_def apfst_def map_prod_def split_def option.map_ident)

lemma scan_mysql_close: "stops squote s \<Longrightarrow> scan_mysql_body (squote # s) = Some ([], s)"
  by (cases s) (auto simp: stops_def)

lemma replace_char_absent: "c \<notin> set s \<Longrightarrow> replace_char c new s = s"
  by (induction s) (auto simp: replace_char_def)

text \<open>
  C36. The keys \<open>JSON_OBJECT\<close> gets in the MySQL dialect: a key without a backslash is read back as
  it is, whatever its quotes. A key that ends in a backslash is not: the reader takes the
  value that follows into the literal, and the text of the next key, which a client also
  chooses, stands outside every literal.
\<close>

theorem mysql_object_keys:
  assumes "bslash \<notin> set k" and "stops squote rest" and "squote \<notin> set v" and "bslash \<notin> set v"
    and "squote \<notin> set k2" and "stops squote k2" and "k2 \<noteq> []"
  shows "scan_mysql (sqlLiteral k @ rest) = Some (k, rest) \<and>
         (\<exists>t tail. mysql_JSONObject [\<lparr>pr_key = k @ [bslash], pr_value = v\<rparr>, \<lparr>pr_key = k2, pr_value = w\<rparr>] = ''JSON_OBJECT('' @ t \<and>
           scan_mysql t = Some (k @ squote # '', '' @ v @ '', '', k2 @ tail))"
proof
  show "scan_mysql (sqlLiteral k @ rest) = Some (k, rest)"
    by (simp add: scan_mysql_def sqlLiteral_def quote_with_def scan_mysql_text scan_mysql_close assms)
  let ?tail = "squote # '', '' @ w @ '')''"
  let ?t = "squote # replace_char squote [squote, squote] k @ bslash # squote # '', '' @ v @ '', '' @ squote # k2 @ ?tail"
  have "mysql_JSONObject [\<lparr>pr_key = k @ [bslash], pr_value = v\<rparr>, \<lparr>pr_key = k2, pr_value = w\<rparr>] = ''JSON_OBJECT('' @ ?t"
    using assms(5) by (simp add: mysql_JSONObject_def json_pairs_def sqlLiteral_def quote_with_def replace_char_absent)
      (simp add: replace_char_def)
  moreover have "scan_mysql ?t = Some (k @ squote # '', '' @ v @ '', '', k2 @ ?tail)"
  proof -
    have stop: "stops squote (k2 @ ?tail)" using assms(6,7) by (cases k2) (simp_all add: stops_def)
    have seg: "scan_mysql_body (x @ squote # k2 @ ?tail) = Some (x, k2 @ ?tail)" if "squote \<notin> set x" "bslash \<notin> set x" for x
      using scan_mysql_text [OF that(2), of "squote # k2 @ ?tail"] scan_mysql_close [OF stop] that by (simp add: replace_char_absent)
    show ?thesis using seg [of "'', '' @ v @ '', ''"] assms(1,3,4)
      by (simp add: scan_mysql_def scan_mysql_text mysql_escape_def)
  qed
  ultimately show "\<exists>t tail. mysql_JSONObject [\<lparr>pr_key = k @ [bslash], pr_value = v\<rparr>, \<lparr>pr_key = k2, pr_value = w\<rparr>] = ''JSON_OBJECT('' @ t \<and>
      scan_mysql t = Some (k @ squote # '', '' @ v @ '', '', k2 @ tail)" by blast
qed

theorem mysql_object_keys_witness:
  "\<exists>t tail. mysql_JSONObject [\<lparr>pr_key = [bslash], pr_value = ''t1.name''\<rparr>, \<lparr>pr_key = '',version(),'', pr_value = ''t1.id''\<rparr>] = ''JSON_OBJECT('' @ t \<and>
     scan_mysql t = Some (squote # '', t1.name, '', '',version(),'' @ tail)"
  using mysql_object_keys [of "[]" "[]" "''t1.name''" "'',version(),''" "''t1.id''"] by (simp add: stops_def)

end
