(* ===== verification/Go_Durations.thy ===== *)
theory Go_Durations
  imports Go_Numbers
begin

section \<open>Durations, booleans and file modes as texts\<close>

text \<open>
  What the configuration uses of \<open>time\<close>, \<open>strconv\<close> and \<open>net\<close>: \<open>time.ParseDuration\<close> and
  \<open>Duration.String\<close> over int64 nanoseconds, \<open>strconv.ParseBool\<close>, \<open>strconv.ParseUint(s, 8, 32)\<close> and
  \<open>net.JoinHostPort\<close>. The one floating-point step of \<open>ParseDuration\<close>, the nanoseconds of a decimal
  fraction (\<open>uint64(float64(f) * (float64(unit) / scale))\<close>), is the argument \<open>frac\<close>. These functions
  belong to the language and have no entry in the map.
\<close>

definition wrap_int64 :: "int \<Rightarrow> int" where
  "wrap_int64 n = (n + 9223372036854775808) mod 18446744073709551616 - 9223372036854775808"

definition duration_second :: int where
  "duration_second = 1000000000"

fun leadingInt :: "int \<Rightarrow> string \<Rightarrow> (int \<times> string) option" where
  "leadingInt x [] = Some (x, [])"
| "leadingInt x (c # s) =
     (if \<not> is_digit c then Some (x, c # s)
      else if x > 922337203685477580 \<or> x * 10 + digit_val c > 9223372036854775808 then None
      else leadingInt (x * 10 + digit_val c) s)"

text \<open>The digits after the point: their value, the scale, and whether a digit was dropped.\<close>

fun leadingFraction :: "bool \<Rightarrow> int \<Rightarrow> int \<Rightarrow> string \<Rightarrow> int \<times> int \<times> string" where
  "leadingFraction overflow x scale [] = (x, scale, [])"
| "leadingFraction overflow x scale (c # s) =
     (if \<not> is_digit c then (x, scale, c # s)
      else if overflow \<or> x > 922337203685477580 \<or> x * 10 + digit_val c > 9223372036854775808
           then leadingFraction True x scale s
      else leadingFraction False (x * 10 + digit_val c) (scale * 10) s)"

definition duration_units :: "int go_map" where
  "duration_units = [(''ns'', 1), (''us'', 1000), ([CHR 0xC2, CHR 0xB5, CHR ''s''], 1000),
     ([CHR 0xCE, CHR 0xBC, CHR ''s''], 1000), (''ms'', 1000000), (''s'', 1000000000), (''m'', 60000000000),
     (''h'', 3600000000000)]"

definition unit_char :: "char \<Rightarrow> bool" where
  "unit_char c \<longleftrightarrow> c \<noteq> CHR ''.'' \<and> \<not> is_digit c"

text \<open>What follows the integer part: the fraction, its scale, the rest, and whether there was a digit.\<close>

definition after_point :: "string \<Rightarrow> int \<times> int \<times> string \<times> bool" where
  "after_point s =
     (case s of
        c # t \<Rightarrow> if c = CHR ''.'' then (let (f, scale, r) = leadingFraction False 0 1 t in (f, scale, r, r \<noteq> t)) else (0, 1, s, False)
      | [] \<Rightarrow> (0, 1, s, False))"

text \<open>One number with its unit: its nanoseconds and what follows it.\<close>

definition scale_term :: "(int \<Rightarrow> int \<Rightarrow> int \<Rightarrow> int) \<Rightarrow> int \<Rightarrow> int \<Rightarrow> int \<Rightarrow> int \<Rightarrow> int option" where
  "scale_term frac v f scale unit =
     (if v > 9223372036854775808 div unit then None
      else let w = v * unit + (if f > 0 then frac f unit scale else 0) in
           if f > 0 \<and> w > 9223372036854775808 then None else Some w)"

definition duration_term :: "(int \<Rightarrow> int \<Rightarrow> int \<Rightarrow> int) \<Rightarrow> string \<Rightarrow> (int \<times> string) option" where
  "duration_term frac s =
     (if unit_char (s ! 0) then None
      else case leadingInt 0 s of
        None \<Rightarrow> None
      | Some (v, s1) \<Rightarrow>
          (let (f, scale, s2, post) = after_point s1; u = takeWhile unit_char s2 in
           if s1 = s \<and> \<not> post \<or> u = [] then None
           else Option.bind (aget duration_units u) (\<lambda>unit.
             map_option (\<lambda>w. (w, dropWhile unit_char s2)) (scale_term frac v f scale unit))))"

lemma leadingInt_length: "leadingInt x s = Some (n, r) \<Longrightarrow> length r \<le> length s"
  by (induction x s rule: leadingInt.induct) (auto split: if_split_asm)

lemma leadingFraction_length: "leadingFraction b x sc s = (f, sc', r) \<Longrightarrow> length r \<le> length s"
  by (induction b x sc s rule: leadingFraction.induct) (fastforce split: if_split_asm)+

lemma after_point_length: "after_point s = (f, sc, r, p) \<Longrightarrow> length r \<le> length s"
  by (auto simp: after_point_def Let_def split: list.split_asm if_split_asm prod.split_asm dest: leadingFraction_length)

lemma dropWhile_shorter: "takeWhile P x \<noteq> [] \<Longrightarrow> length (dropWhile P x) < length x"
  by (cases x) (auto simp: le_imp_less_Suc length_dropWhile_le split: if_split_asm)

lemma duration_term_length:
  assumes "duration_term frac s = Some (w, r)"
  shows "length r < length s"
proof -
  obtain v s1 where 1: "leadingInt 0 s = Some (v, s1)"
    using assms by (auto simp: duration_term_def split: if_split_asm option.split_asm)
  obtain f sc s2 p where 2: "after_point s1 = (f, sc, s2, p)" by (cases "after_point s1")
  have "takeWhile unit_char s2 \<noteq> []" "r = dropWhile unit_char s2"
    using assms 1 2 by (auto simp: duration_term_def Let_def bind_eq_Some_conv split: if_split_asm)
  then have "length r < length s2" by (simp add: dropWhile_shorter)
  with leadingInt_length [OF 1] after_point_length [OF 2] show ?thesis by linarith
qed

function duration_loop :: "(int \<Rightarrow> int \<Rightarrow> int \<Rightarrow> int) \<Rightarrow> int \<Rightarrow> string \<Rightarrow> int option" where
  "duration_loop frac d s =
     (if s = [] then Some d
      else case duration_term frac s of
        None \<Rightarrow> None
      | Some (v, r) \<Rightarrow>
          (let d' = (d + v) mod 18446744073709551616 in
           if d' > 9223372036854775808 then None else duration_loop frac d' r))"
  by pat_completeness auto
termination
  by (relation "measure (\<lambda>(_, _, s). length s)") (auto dest: duration_term_length)

declare duration_loop.simps [simp del]

definition ParseDuration :: "(int \<Rightarrow> int \<Rightarrow> int \<Rightarrow> int) \<Rightarrow> string \<Rightarrow> int option" where
  "ParseDuration frac s =
     (let neg = (first_byte s = Some (CHR ''-''));
          t = (if neg \<or> first_byte s = Some (CHR ''+'') then tl s else s) in
      if t = ''0'' then Some 0
      else if t = [] then None
      else case duration_loop frac 0 t of
        None \<Rightarrow> None
      | Some d \<Rightarrow> if neg then Some (- d) else if d > int64_max then None else Some d)"

subsection \<open>Printing a duration\<close>

definition zero_pad :: "nat \<Rightarrow> string \<Rightarrow> string" where
  "zero_pad n s = replicate (n - length s) (CHR ''0'') @ s"

definition fmtFrac :: "int \<Rightarrow> nat \<Rightarrow> string \<times> int" where
  "fmtFrac v prec =
     (let ds = rev (dropWhile (\<lambda>c. c = CHR ''0'') (rev (zero_pad prec (show_int (v mod 10 ^ prec))))) in
      (if ds = [] then [] else CHR ''.'' # ds, v div 10 ^ prec))"

definition duration_String :: "int \<Rightarrow> string" where
  "duration_String d =
     (let u = abs d in
      (if d < 0 then ''-'' else []) @
      (if u = 0 then ''0s''
       else if u < 1000 then show_int u @ ''ns''
       else if u < 1000000 then (let (fr, w) = fmtFrac u 3 in show_int w @ fr @ [CHR 0xC2, CHR 0xB5, CHR ''s''])
       else if u < 1000000000 then (let (fr, w) = fmtFrac u 6 in show_int w @ fr @ ''ms'')
       else (let (fr, w) = fmtFrac u 9; mins = w div 60; hours = mins div 60 in
             (if hours > 0 then show_int hours @ ''h'' else []) @
             (if mins > 0 then show_int (mins mod 60) @ ''m'' else []) @
             show_int (w mod 60) @ fr @ ''s'')))"

subsection \<open>Booleans, octal numbers and addresses\<close>

definition go_ParseBool :: "string \<Rightarrow> bool option" where
  "go_ParseBool s =
     (if s \<in> set [''1'', ''t'', ''T'', ''TRUE'', ''true'', ''True''] then Some True
      else if s \<in> set [''0'', ''f'', ''F'', ''FALSE'', ''false'', ''False''] then Some False
      else None)"

definition FormatBool :: "bool \<Rightarrow> string" where
  "FormatBool b = (if b then ''true'' else ''false'')"

fun octal_val :: "int \<Rightarrow> string \<Rightarrow> int option" where
  "octal_val n [] = Some n"
| "octal_val n (c # s) =
     (if CHR ''0'' \<le> c \<and> c \<le> CHR ''7'' then octal_val (8 * n + digit_val c) s else None)"

definition parse_octal32 :: "string \<Rightarrow> int option" where
  "parse_octal32 s =
     (if s = [] then None
      else case octal_val 0 s of None \<Rightarrow> None | Some n \<Rightarrow> if n < 4294967296 then Some n else None)"

definition JoinHostPort :: "string \<Rightarrow> string \<Rightarrow> string" where
  "JoinHostPort host port =
     (if CHR '':'' \<in> set host then ''['' @ host @ '']:'' @ port else host @ '':'' @ port)"

lemma ParseBool_FormatBool [simp]: "go_ParseBool (FormatBool b) = Some b"
  by (cases b) (simp_all add: go_ParseBool_def FormatBool_def)

lemma wrap_int64_id: "int64_min \<le> n \<Longrightarrow> n \<le> int64_max \<Longrightarrow> wrap_int64 n = n"
  by (simp add: wrap_int64_def int64_min_def int64_max_def)

lemma wrap_int64_range: "int64_min \<le> wrap_int64 n \<and> wrap_int64 n \<le> int64_max"
  by (simp add: wrap_int64_def int64_min_def int64_max_def)

end
