(* ===== verification/Config.thy ===== *)
theory Config
  imports Go_Durations Go_Json "HOL-Library.List_Lexorder"
begin

section \<open>Package config: loading, validating, reloading and dumping the options\<close>

text \<open>
  \<open>src/config/config.go\<close>, \<open>parse.go\<close> and \<open>dump.go\<close>. A configuration is the record \<open>config\<close>, with
  durations in nanoseconds. The process a load reads from is \<open>os_env\<close>: \<open>os_ReadFile\<close> answers the text of
  an error or the bytes of a file, \<open>os_LookupEnv\<close> a variable, \<open>os_frac\<close> is the fraction step of
  \<open>time.ParseDuration\<close>. A Go map is an association list; where the code ranges over the environment
  map, whose order Go leaves open, the order of each pass is the argument \<open>visit\<close>, a permutation chosen
  per prefix. Names of variables are taken to be ASCII. An error is its message.
\<close>

record os_env =
  os_ReadFile :: "string \<Rightarrow> string + string"
  os_LookupEnv :: "string \<Rightarrow> string option"
  os_frac :: "int \<Rightarrow> int \<Rightarrow> int \<Rightarrow> int"

record config =
  cf_Backend :: string
  cf_DBURI :: string
  cf_Schemas :: "string list"
  cf_AnonRole :: string
  cf_PreRequest :: string
  cf_ExtraSearchPath :: "string list"
  cf_MaxRows :: int
  cf_AggregatesEnabled :: bool
  cf_RootSpec :: string
  cf_MaxRequestBody :: int
  cf_TxEnd :: string
  cf_HoistedTxSettings :: "string list"
  cf_AppSettings :: "string go_map"
  cf_JWTSecret :: string
  cf_JWTSecretIsBase64 :: bool
  cf_JWTAud :: string
  cf_JWTRoleClaimKey :: string
  cf_JWKSet :: string
  cf_JWTCacheMaxEntries :: int
  cf_ServerHost :: string
  cf_ServerPort :: int
  cf_ServerUnixSocket :: string
  cf_ServerUnixSocketMode :: string
  cf_AdminServerHost :: string
  cf_AdminServerPort :: int
  cf_DBPool :: int
  cf_DBPoolAcquisitionTimeout :: int
  cf_DBPoolMaxIdleTime :: int
  cf_DBPoolMaxLifetime :: int
  cf_DBPoolAutomaticRecovery :: bool
  cf_DBChannel :: string
  cf_DBChannelEnabled :: bool
  cf_DBConfig :: bool
  cf_DBPreConfig :: string
  cf_DBPreparedStatements :: bool
  cf_OpenAPIMode :: string
  cf_OpenAPIServerProxyURI :: string
  cf_OpenAPISecurityActive :: bool
  cf_LogLevel :: string
  cf_LogQuery :: bool
  cf_CORSAllowedOrigins :: "string list"
  cf_PlanEnabled :: bool
  cf_ServerTraceHeader :: string
  cf_ServerTimingEnabled :: bool
  cf_Warnings :: "string list"
  cf_DeclaredSchema :: string
  cf_DeclaredRelationships :: string
  cf_FunctionRegistry :: string
  cf_PolicyRegistry :: string
  cf_CapabilityOverrides :: string

definition knownBackends :: "string list" where
  "knownBackends = [''postgres'', ''sqlite'', ''mysql'', ''sqlserver'', ''mongodb'']"

definition knownOpenAPIModes :: "string list" where
  "knownOpenAPIModes = [''follow-privileges'', ''ignore-privileges'', ''disabled'']"

definition knownLogLevels :: "string list" where
  "knownLogLevels = [''crit'', ''error'', ''warn'', ''info'', ''debug'']"

definition knownTxEnds :: "string list" where
  "knownTxEnds = [''commit'', ''commit-allow-override'', ''rollback'', ''rollback-allow-override'']"

definition defaultSchemas :: "string \<Rightarrow> string list" where
  "defaultSchemas backendName = (if backendName = ''postgres'' then [''public''] else [[]])"

definition config_defaults :: config where
  "config_defaults = \<lparr>cf_Backend = ''sqlite'', cf_DBURI = [], cf_Schemas = [], cf_AnonRole = [], cf_PreRequest = [],
     cf_ExtraSearchPath = [''public''], cf_MaxRows = 0, cf_AggregatesEnabled = False, cf_RootSpec = [],
     cf_MaxRequestBody = 0, cf_TxEnd = ''commit'',
     cf_HoistedTxSettings = [''statement_timeout'', ''plan_filter.statement_cost_limit'', ''default_transaction_isolation''],
     cf_AppSettings = [], cf_JWTSecret = [], cf_JWTSecretIsBase64 = False, cf_JWTAud = [], cf_JWTRoleClaimKey = ''.role'',
     cf_JWKSet = [], cf_JWTCacheMaxEntries = 1000, cf_ServerHost = ''!4'', cf_ServerPort = 3000, cf_ServerUnixSocket = [],
     cf_ServerUnixSocketMode = ''660'', cf_AdminServerHost = [], cf_AdminServerPort = 0, cf_DBPool = 10,
     cf_DBPoolAcquisitionTimeout = 10 * duration_second, cf_DBPoolMaxIdleTime = 30 * duration_second,
     cf_DBPoolMaxLifetime = 1800 * duration_second, cf_DBPoolAutomaticRecovery = True, cf_DBChannel = ''pgrst'',
     cf_DBChannelEnabled = True, cf_DBConfig = True, cf_DBPreConfig = [], cf_DBPreparedStatements = True,
     cf_OpenAPIMode = ''follow-privileges'', cf_OpenAPIServerProxyURI = [], cf_OpenAPISecurityActive = False,
     cf_LogLevel = ''error'', cf_LogQuery = False, cf_CORSAllowedOrigins = [], cf_PlanEnabled = False,
     cf_ServerTraceHeader = [], cf_ServerTimingEnabled = False, cf_Warnings = [], cf_DeclaredSchema = [],
     cf_DeclaredRelationships = [], cf_FunctionRegistry = [], cf_PolicyRegistry = [], cf_CapabilityOverrides = []\<rparr>"

subsection \<open>The environment\<close>

definition optionKeys :: "string list" where
  "optionKeys = [''db-backend'', ''db-uri'', ''db-schemas'', ''db-schema'', ''db-anon-role'',
     ''db-pre-request'', ''pre-request'', ''db-extra-search-path'', ''db-max-rows'', ''max-rows'', ''max-request-body'',
     ''db-aggregates-enabled'', ''db-root-spec'', ''root-spec'', ''db-tx-end'', ''db-hoisted-tx-settings'',
     ''db-channel'', ''db-channel-enabled'', ''db-config'', ''db-pre-config'', ''db-prepared-statements'', ''db-plan-enabled'',
     ''jwt-secret'', ''jwt-secret-is-base64'', ''secret-is-base64'', ''jwt-aud'',
     ''jwt-role-claim-key'', ''role-claim-key'', ''jwk-set'', ''jwt-cache-max-entries'',
     ''server-host'', ''server-port'', ''server-unix-socket'', ''server-unix-socket-mode'',
     ''admin-server-host'', ''admin-server-port'', ''db-pool'', ''db-pool-acquisition-timeout'',
     ''db-pool-max-idletime'', ''db-pool-timeout'', ''db-pool-max-lifetime'', ''db-pool-automatic-recovery'',
     ''openapi-mode'', ''openapi-server-proxy-uri'', ''openapi-security-active'',
     ''log-level'', ''log-query'', ''server-cors-allowed-origins'', ''server-trace-header'', ''server-timing-enabled'',
     ''declared-schema'', ''declared-relationships'', ''function-registry'', ''policy-registry'', ''capability-overrides'']"

definition nativeOptionKeys :: "string list" where
  "nativeOptionKeys = [''db-backend'', ''jwk-set'', ''max-rows'', ''max-request-body'', ''declared-schema'',
     ''declared-relationships'', ''function-registry'', ''policy-registry'', ''capability-overrides'']"

definition isNativeKey :: "string \<Rightarrow> bool" where
  "isNativeKey key \<longleftrightarrow> key \<in> set nativeOptionKeys"

definition envSuffix :: "string \<Rightarrow> string" where
  "envSuffix key = to_upper (map (\<lambda>c. if c = CHR ''-'' then CHR ''_'' else c) key)"

definition option_of_suffix :: "string \<Rightarrow> string" where
  "option_of_suffix suffix = to_lower (map (\<lambda>c. if c = CHR ''_'' then CHR ''-'' else c) suffix)"

text \<open>\<open>strings.CutPrefix\<close>.\<close>

definition cutPrefix :: "string \<Rightarrow> string \<Rightarrow> string option" where
  "cutPrefix s p = (if has_prefix s p then Some (drop (length p) s) else None)"

definition env_map :: "string list \<Rightarrow> string go_map" where
  "env_map environ = fold (\<lambda>kv m. case cut kv ''='' of Some (k, v) \<Rightarrow> aput k v m | None \<Rightarrow> m) environ []"

definition bind_option :: "string \<Rightarrow> string go_map \<Rightarrow> string \<Rightarrow> string go_map \<Rightarrow> string go_map" where
  "bind_option prefix env key raw =
     (if prefix = ''PGRST_'' \<and> isNativeKey key then raw
      else case aget env (prefix @ envSuffix key) of Some v \<Rightarrow> aput key v raw | None \<Rightarrow> raw)"

definition scan_variable :: "string \<Rightarrow> string \<times> string \<Rightarrow> string go_map \<times> string list \<Rightarrow> string go_map \<times> string list" where
  "scan_variable prefix var st =
     (case cutPrefix (fst var) prefix of
        None \<Rightarrow> st
      | Some suffix \<Rightarrow>
          (case cutPrefix suffix ''APP_SETTINGS_'' of
             Some (c # setting) \<Rightarrow> (aput (''app.settings.'' @ to_lower (c # setting)) (snd var) (fst st), snd st)
           | _ \<Rightarrow>
               if prefix = ''PGRST_'' \<and> suffix \<in> set (map envSuffix nativeOptionKeys) then
                 (fst st, snd st @ [''ignoring '' @ fst var @ '': '' @ go_quote (option_of_suffix suffix) @
                    '' is a dbrest extension; set DBREST_'' @ suffix @ '' instead''])
               else if suffix \<notin> set (map envSuffix optionKeys) then
                 (fst st, snd st @ [''ignoring '' @ fst var @ '': no option named '' @ go_quote (option_of_suffix suffix)])
               else st))"

definition overlay_prefix :: "(string \<Rightarrow> string go_map \<Rightarrow> string go_map) \<Rightarrow> string go_map \<Rightarrow> string \<Rightarrow>
    string go_map \<times> string list \<Rightarrow> string go_map \<times> string list" where
  "overlay_prefix visit env prefix st =
     fold (scan_variable prefix) (visit prefix env) (fold (bind_option prefix env) optionKeys (fst st), snd st)"

definition overlayEnv :: "(string \<Rightarrow> string go_map \<Rightarrow> string go_map) \<Rightarrow> string go_map \<Rightarrow> string list \<Rightarrow>
    string go_map \<times> string list" where
  "overlayEnv visit raw environ =
     (let env = env_map environ in
      overlay_prefix visit env ''DBREST_'' (overlay_prefix visit env ''PGRST_'' (raw, [])))"

subsection \<open>The configuration file\<close>

fun interpolate_scan :: "os_env \<Rightarrow> string go_map \<Rightarrow> string \<Rightarrow> string \<Rightarrow> string + string" where
  "interpolate_scan os raw v [] = Inr []"
| "interpolate_scan os raw v (c # s) =
     (if c \<noteq> CHR ''$'' then bindr (interpolate_scan os raw v s) (\<lambda>r. Inr (c # r))
      else case s of
        [] \<Rightarrow> Inr [c]
      | d # t \<Rightarrow>
          if d = CHR ''$'' then bindr (interpolate_scan os raw v t) (\<lambda>r. Inr (c # r))
          else if d = CHR ''('' then
            (case index_byte t (CHR '')'') of
               None \<Rightarrow> Inl (''unterminated $( in '' @ go_quote v)
             | Some e \<Rightarrow>
                 (case (case aget raw (take e t) of Some prior \<Rightarrow> Some prior | None \<Rightarrow> os_LookupEnv os (take e t)) of
                    None \<Rightarrow> Inl (''no such variable '' @ go_quote (take e t))
                  | Some x \<Rightarrow> bindr (interpolate_scan os raw v (drop (Suc e) t)) (\<lambda>r. Inr (x @ r))))
          else bindr (interpolate_scan os raw v s) (\<lambda>r. Inr (c # r)))"

definition interpolate :: "os_env \<Rightarrow> string \<Rightarrow> string go_map \<Rightarrow> string + string" where
  "interpolate os v raw = (if CHR ''$'' \<notin> set v then Inr v else interpolate_scan os raw v v)"

fun strip_scan :: "bool \<Rightarrow> string \<Rightarrow> string" where
  "strip_scan inQuote [] = []"
| "strip_scan inQuote (c # s) =
     (if c = dquote then c # strip_scan (\<not> inQuote) s
      else if c = CHR ''#'' \<and> \<not> inQuote then []
      else c # strip_scan inQuote s)"

definition stripComment :: "string \<Rightarrow> string" where
  "stripComment line = strip_scan False line"

abbreviation triple :: string where "triple \<equiv> [dquote, dquote, dquote]"

text \<open>The lines after the opening one: the text they add and how many are consumed.\<close>

fun gather_block :: "string list \<Rightarrow> (string \<times> nat) option" where
  "gather_block [] = None"
| "gather_block (l # ls) =
     (case index_str l triple of
        Some idx \<Rightarrow> Some (CHR 0x0A # take idx l, 1)
      | None \<Rightarrow> map_option (\<lambda>(b, n). (CHR 0x0A # l @ b, Suc n)) (gather_block ls))"

definition readTripleQuoted :: "string list \<Rightarrow> string \<Rightarrow> string + string \<times> nat" where
  "readTripleQuoted rest fst_line =
     (let body = trim_prefix fst_line triple in
      if has_suffix body triple then Inr (take (length body - 3) body, 0)
      else case gather_block rest of
        None \<Rightarrow> Inl ''unterminated triple-quoted value''
      | Some (b, n) \<Rightarrow> Inr (body @ b, n))"

definition config_unquote :: "string \<Rightarrow> string" where
  "config_unquote v = (if wrapped dquote dquote v then strip_ends v else v)"

text \<open>
  One significant line: the key it binds (empty for an unknown one, with the warning), its value and
  how many further lines the value takes.
\<close>

definition config_key :: "string \<Rightarrow> string" where
  "config_key key =
     (case cutPrefix key ''dbrest.'' of
        Some name \<Rightarrow> if isNativeKey name then name else key
      | None \<Rightarrow> key)"

definition known_key :: "string \<Rightarrow> bool" where
  "known_key key \<longleftrightarrow> key \<in> set optionKeys \<or> has_prefix key ''app.settings.''"

definition line_value :: "os_env \<Rightarrow> string go_map \<Rightarrow> string \<Rightarrow> string + string" where
  "line_value os raw val =
     (if has_prefix val [dquote] then interpolate os (config_unquote val) raw else Inr val)"

fun parse_lines :: "os_env \<Rightarrow> string \<Rightarrow> nat \<Rightarrow> string go_map \<Rightarrow> string list \<Rightarrow> string list \<Rightarrow> string + string go_map \<times> string list" where
  "parse_lines os path i raw warnings [] = Inr (raw, warnings)"
| "parse_lines os path i raw warnings (l # ls) =
     (let line = trim_space (stripComment l); at = path @ '' line '' @ show_nat (Suc i) @ '': '' in
      if line = [] then parse_lines os path (Suc i) raw warnings ls
      else case cut line ''='' of
        None \<Rightarrow> Inl (''config: '' @ at @ ''expected key = value'')
      | Some (rawKey, rawVal) \<Rightarrow>
          (let key0 = config_key (trim_space rawKey); val = trim_space rawVal;
               known = known_key key0;
               key = (if known then key0 else []);
               warnings' = (if known then warnings
                            else warnings @ [at @ ''ignoring unknown option '' @ go_quote key0]) in
           if has_prefix val triple then
             (case readTripleQuoted ls val of
                Inl e \<Rightarrow> Inl (''config: '' @ at @ e)
              | Inr (block, n) \<Rightarrow>
                  (case (if key \<noteq> [] then map_sum id (\<lambda>v. aput key v raw) (interpolate os block raw) else Inr raw) of
                     Inl e \<Rightarrow> Inl (''config: '' @ at @ e)
                   | Inr raw' \<Rightarrow> parse_lines os path (Suc i + n) raw' warnings' (drop n ls)))
           else
             (case (if key \<noteq> [] then map_sum id (\<lambda>v. aput key v raw) (line_value os raw val) else Inr raw) of
                Inl e \<Rightarrow> Inl (''config: '' @ at @ e)
              | Inr raw' \<Rightarrow> parse_lines os path (Suc i) raw' warnings' ls)))"

definition parseFile :: "os_env \<Rightarrow> string \<Rightarrow> string + string go_map \<times> string list" where
  "parseFile os path =
     (case os_ReadFile os path of
        Inl e \<Rightarrow> Inl (''config: reading '' @ path @ '': '' @ e)
      | Inr data \<Rightarrow> parse_lines os path 0 [] [] (split_byte (CHR 0x0A) data))"

subsection \<open>Typing the options\<close>

definition splitList :: "string \<Rightarrow> string list" where
  "splitList v = filter (\<lambda>t. t \<noteq> []) (map trim_space (split_byte (CHR '','') v))"

fun pickString :: "string go_map \<Rightarrow> string \<Rightarrow> string list \<Rightarrow> string" where
  "pickString raw def [] = def"
| "pickString raw def (key # keys) = (case aget raw key of Some v \<Rightarrow> v | None \<Rightarrow> pickString raw def keys)"

fun pickInt :: "string go_map \<Rightarrow> string list \<Rightarrow> int \<Rightarrow> string list \<Rightarrow> int \<times> string list" where
  "pickInt raw errs def [] = (def, errs)"
| "pickInt raw errs def (key # keys) =
     (case aget raw key of
        None \<Rightarrow> pickInt raw errs def keys
      | Some v \<Rightarrow>
          (case parse_int64 (trim_space v) of
             None \<Rightarrow> (def, errs @ [key @ '' '' @ go_quote v @ '' is not an integer''])
           | Some n \<Rightarrow> (n, errs)))"

fun pickBool :: "string go_map \<Rightarrow> string list \<Rightarrow> bool \<Rightarrow> string list \<Rightarrow> bool \<times> string list" where
  "pickBool raw errs def [] = (def, errs)"
| "pickBool raw errs def (key # keys) =
     (case aget raw key of
        None \<Rightarrow> pickBool raw errs def keys
      | Some v \<Rightarrow>
          (case go_ParseBool (trim_space v) of
             None \<Rightarrow> (def, errs @ [key @ '' '' @ go_quote v @ '' is not a boolean''])
           | Some b \<Rightarrow> (b, errs)))"

fun pickSeconds :: "os_env \<Rightarrow> string go_map \<Rightarrow> string list \<Rightarrow> int \<Rightarrow> string list \<Rightarrow> int \<times> string list" where
  "pickSeconds os raw errs def [] = (def, errs)"
| "pickSeconds os raw errs def (key # keys) =
     (case aget raw key of
        None \<Rightarrow> pickSeconds os raw errs def keys
      | Some v \<Rightarrow>
          (case parse_int64 (trim_space v) of
             Some n \<Rightarrow> (wrap_int64 (n * duration_second), errs)
           | None \<Rightarrow>
               (case ParseDuration (os_frac os) (trim_space v) of
                  Some d \<Rightarrow> (d, errs)
                | None \<Rightarrow> (def, errs @ [key @ '' '' @ go_quote v @ '' is not a number of seconds'']))))"

text \<open>The steps of \<open>fromRaw\<close> act on the configuration so far and the problems so far.\<close>

type_synonym load_state = "config \<times> string list"

definition text_option :: "string go_map \<Rightarrow> string \<Rightarrow> (string \<Rightarrow> config \<Rightarrow> config) \<Rightarrow> load_state \<Rightarrow> load_state" where
  "text_option raw key put st = (case aget raw key of Some v \<Rightarrow> (put v (fst st), snd st) | None \<Rightarrow> st)"

definition string_option :: "string go_map \<Rightarrow> (config \<Rightarrow> string) \<Rightarrow> (string \<Rightarrow> config \<Rightarrow> config) \<Rightarrow> string list \<Rightarrow> load_state \<Rightarrow> load_state" where
  "string_option raw get put keys st = (put (pickString raw (get (fst st)) keys) (fst st), snd st)"

definition int_option :: "string go_map \<Rightarrow> (config \<Rightarrow> int) \<Rightarrow> (int \<Rightarrow> config \<Rightarrow> config) \<Rightarrow> string list \<Rightarrow> load_state \<Rightarrow> load_state" where
  "int_option raw get put keys st = (let (n, errs) = pickInt raw (snd st) (get (fst st)) keys in (put n (fst st), errs))"

definition bool_option :: "string go_map \<Rightarrow> (config \<Rightarrow> bool) \<Rightarrow> (bool \<Rightarrow> config \<Rightarrow> config) \<Rightarrow> string list \<Rightarrow> load_state \<Rightarrow> load_state" where
  "bool_option raw get put keys st = (let (b, errs) = pickBool raw (snd st) (get (fst st)) keys in (put b (fst st), errs))"

definition seconds_option :: "os_env \<Rightarrow> string go_map \<Rightarrow> (config \<Rightarrow> int) \<Rightarrow> (int \<Rightarrow> config \<Rightarrow> config) \<Rightarrow> string list \<Rightarrow> load_state \<Rightarrow> load_state" where
  "seconds_option os raw get put keys st =
     (let (n, errs) = pickSeconds os raw (snd st) (get (fst st)) keys in (put n (fst st), errs))"

definition default_uri :: "load_state \<Rightarrow> load_state" where
  "default_uri st =
     (if trim_space (cf_DBURI (fst st)) = [] \<and> cf_Backend (fst st) = ''postgres''
      then ((fst st)\<lparr>cf_DBURI := ''postgresql://''\<rparr>, snd st) else st)"

definition file_option :: "os_env \<Rightarrow> string \<Rightarrow> (config \<Rightarrow> string) \<Rightarrow> (string \<Rightarrow> config \<Rightarrow> config) \<Rightarrow> (string \<Rightarrow> string) \<Rightarrow> load_state \<Rightarrow> load_state" where
  "file_option os name get put clean st =
     (case cutPrefix (get (fst st)) ''@'' of
        None \<Rightarrow> st
      | Some path \<Rightarrow>
          (case os_ReadFile os path of
             Inl e \<Rightarrow> (fst st, snd st @ [name @ '': reading '' @ path @ '': '' @ e])
           | Inr data \<Rightarrow> (put (clean data) (fst st), snd st)))"

definition schemas_option :: "string go_map \<Rightarrow> load_state \<Rightarrow> load_state" where
  "schemas_option raw st =
     (case aget raw ''db-schemas'' of
        Some v \<Rightarrow> ((fst st)\<lparr>cf_Schemas := splitList v\<rparr>, snd st)
      | None \<Rightarrow>
          (case aget raw ''db-schema'' of
             Some v \<Rightarrow> ((fst st)\<lparr>cf_Schemas := splitList v\<rparr>, snd st)
           | None \<Rightarrow> ((fst st)\<lparr>cf_Schemas := defaultSchemas (cf_Backend (fst st))\<rparr>, snd st)))"

definition app_setting :: "string \<times> string \<Rightarrow> string go_map \<Rightarrow> string go_map" where
  "app_setting kv m =
     (case cutPrefix (fst kv) ''app.settings.'' of
        Some (c # name) \<Rightarrow> aput (c # name) (snd kv) m
      | _ \<Rightarrow> m)"

definition app_settings :: "string go_map \<Rightarrow> string go_map" where
  "app_settings raw = fold app_setting raw []"

definition default_admin_host :: "load_state \<Rightarrow> load_state" where
  "default_admin_host st =
     (if cf_AdminServerHost (fst st) = [] then ((fst st)\<lparr>cf_AdminServerHost := cf_ServerHost (fst st)\<rparr>, snd st) else st)"

definition lower_trim :: "string \<Rightarrow> string" where
  "lower_trim v = to_lower (trim_space v)"

definition chomp :: "string \<Rightarrow> string" where
  "chomp s = (if has_suffix s [CHR 0x0A] then butlast s else s)"

definition surface_steps :: "os_env \<Rightarrow> string go_map \<Rightarrow> (load_state \<Rightarrow> load_state) list" where
  "surface_steps os raw =
     [text_option raw ''db-backend'' (\<lambda>v. cf_Backend_update (\<lambda>_. lower_trim v)),
      text_option raw ''db-uri'' (\<lambda>v. cf_DBURI_update (\<lambda>_. v)),
      default_uri,
      file_option os ''db-uri'' cf_DBURI (\<lambda>v. cf_DBURI_update (\<lambda>_. v)) trim_space,
      schemas_option raw,
      text_option raw ''db-anon-role'' (\<lambda>v. cf_AnonRole_update (\<lambda>_. v)),
      string_option raw cf_PreRequest (\<lambda>v. cf_PreRequest_update (\<lambda>_. v)) [''db-pre-request'', ''pre-request''],
      text_option raw ''db-extra-search-path'' (\<lambda>v. cf_ExtraSearchPath_update (\<lambda>_. splitList v)),
      int_option raw cf_MaxRows (\<lambda>n. cf_MaxRows_update (\<lambda>_. n)) [''db-max-rows'', ''max-rows''],
      int_option raw cf_MaxRequestBody (\<lambda>n. cf_MaxRequestBody_update (\<lambda>_. n)) [''max-request-body''],
      bool_option raw cf_AggregatesEnabled (\<lambda>b. cf_AggregatesEnabled_update (\<lambda>_. b)) [''db-aggregates-enabled''],
      string_option raw cf_RootSpec (\<lambda>v. cf_RootSpec_update (\<lambda>_. v)) [''db-root-spec'', ''root-spec''],
      text_option raw ''db-tx-end'' (\<lambda>v. cf_TxEnd_update (\<lambda>_. lower_trim v)),
      text_option raw ''db-hoisted-tx-settings'' (\<lambda>v. cf_HoistedTxSettings_update (\<lambda>_. splitList v)),
      (\<lambda>st. ((fst st)\<lparr>cf_AppSettings := app_settings raw\<rparr>, snd st))]"

definition auth_steps :: "os_env \<Rightarrow> string go_map \<Rightarrow> (load_state \<Rightarrow> load_state) list" where
  "auth_steps os raw =
     [text_option raw ''jwt-secret'' (\<lambda>v. cf_JWTSecret_update (\<lambda>_. v)),
      file_option os ''jwt-secret'' cf_JWTSecret (\<lambda>v. cf_JWTSecret_update (\<lambda>_. v)) chomp,
      bool_option raw cf_JWTSecretIsBase64 (\<lambda>b. cf_JWTSecretIsBase64_update (\<lambda>_. b)) [''jwt-secret-is-base64'', ''secret-is-base64''],
      text_option raw ''jwt-aud'' (\<lambda>v. cf_JWTAud_update (\<lambda>_. v)),
      string_option raw cf_JWTRoleClaimKey (\<lambda>v. cf_JWTRoleClaimKey_update (\<lambda>_. v)) [''jwt-role-claim-key'', ''role-claim-key''],
      text_option raw ''jwk-set'' (\<lambda>v. cf_JWKSet_update (\<lambda>_. v)),
      int_option raw cf_JWTCacheMaxEntries (\<lambda>n. cf_JWTCacheMaxEntries_update (\<lambda>_. n)) [''jwt-cache-max-entries'']]"

definition server_steps :: "os_env \<Rightarrow> string go_map \<Rightarrow> (load_state \<Rightarrow> load_state) list" where
  "server_steps os raw =
     [text_option raw ''server-host'' (\<lambda>v. cf_ServerHost_update (\<lambda>_. v)),
      int_option raw cf_ServerPort (\<lambda>n. cf_ServerPort_update (\<lambda>_. n)) [''server-port''],
      text_option raw ''server-unix-socket'' (\<lambda>v. cf_ServerUnixSocket_update (\<lambda>_. v)),
      text_option raw ''server-unix-socket-mode'' (\<lambda>v. cf_ServerUnixSocketMode_update (\<lambda>_. trim_space v)),
      text_option raw ''admin-server-host'' (\<lambda>v. cf_AdminServerHost_update (\<lambda>_. v)),
      int_option raw cf_AdminServerPort (\<lambda>n. cf_AdminServerPort_update (\<lambda>_. n)) [''admin-server-port''],
      default_admin_host,
      int_option raw cf_DBPool (\<lambda>n. cf_DBPool_update (\<lambda>_. n)) [''db-pool''],
      seconds_option os raw cf_DBPoolAcquisitionTimeout (\<lambda>n. cf_DBPoolAcquisitionTimeout_update (\<lambda>_. n)) [''db-pool-acquisition-timeout''],
      seconds_option os raw cf_DBPoolMaxIdleTime (\<lambda>n. cf_DBPoolMaxIdleTime_update (\<lambda>_. n)) [''db-pool-max-idletime'', ''db-pool-timeout''],
      seconds_option os raw cf_DBPoolMaxLifetime (\<lambda>n. cf_DBPoolMaxLifetime_update (\<lambda>_. n)) [''db-pool-max-lifetime''],
      bool_option raw cf_DBPoolAutomaticRecovery (\<lambda>b. cf_DBPoolAutomaticRecovery_update (\<lambda>_. b)) [''db-pool-automatic-recovery'']]"

definition reload_steps :: "os_env \<Rightarrow> string go_map \<Rightarrow> (load_state \<Rightarrow> load_state) list" where
  "reload_steps os raw =
     [text_option raw ''db-channel'' (\<lambda>v. cf_DBChannel_update (\<lambda>_. v)),
      bool_option raw cf_DBChannelEnabled (\<lambda>b. cf_DBChannelEnabled_update (\<lambda>_. b)) [''db-channel-enabled''],
      bool_option raw cf_DBConfig (\<lambda>b. cf_DBConfig_update (\<lambda>_. b)) [''db-config''],
      text_option raw ''db-pre-config'' (\<lambda>v. cf_DBPreConfig_update (\<lambda>_. v)),
      bool_option raw cf_DBPreparedStatements (\<lambda>b. cf_DBPreparedStatements_update (\<lambda>_. b)) [''db-prepared-statements''],
      text_option raw ''openapi-mode'' (\<lambda>v. cf_OpenAPIMode_update (\<lambda>_. lower_trim v)),
      text_option raw ''openapi-server-proxy-uri'' (\<lambda>v. cf_OpenAPIServerProxyURI_update (\<lambda>_. trim_space v)),
      bool_option raw cf_OpenAPISecurityActive (\<lambda>b. cf_OpenAPISecurityActive_update (\<lambda>_. b)) [''openapi-security-active''],
      text_option raw ''log-level'' (\<lambda>v. cf_LogLevel_update (\<lambda>_. lower_trim v)),
      bool_option raw cf_LogQuery (\<lambda>b. cf_LogQuery_update (\<lambda>_. b)) [''log-query''],
      text_option raw ''server-cors-allowed-origins'' (\<lambda>v. cf_CORSAllowedOrigins_update (\<lambda>_. splitList v)),
      bool_option raw cf_PlanEnabled (\<lambda>b. cf_PlanEnabled_update (\<lambda>_. b)) [''db-plan-enabled''],
      text_option raw ''server-trace-header'' (\<lambda>v. cf_ServerTraceHeader_update (\<lambda>_. v)),
      bool_option raw cf_ServerTimingEnabled (\<lambda>b. cf_ServerTimingEnabled_update (\<lambda>_. b)) [''server-timing-enabled'']]"

definition unenforcedOptions :: "string list" where
  "unenforcedOptions = [''db-aggregates-enabled'', ''db-channel'', ''db-channel-enabled'', ''db-config'',
     ''db-extra-search-path'', ''db-hoisted-tx-settings'', ''db-pool-acquisition-timeout'', ''db-pool-automatic-recovery'',
     ''db-pre-config'', ''db-pre-request'', ''pre-request'', ''db-prepared-statements'', ''db-root-spec'', ''root-spec'',
     ''db-tx-end'', ''log-query'', ''openapi-security-active'', ''server-trace-header'', ''server-timing-enabled'']"

definition unenforcedWarnings :: "string go_map \<Rightarrow> string list" where
  "unenforcedWarnings raw =
     map (\<lambda>key. ''option '' @ key @ '' is accepted but not enforced yet'') (filter (\<lambda>key. aget raw key \<noteq> None) unenforcedOptions)"

definition anonymous_posture :: string where
  "anonymous_posture = ''neither db-anon-role nor a JWT key (jwt-secret, jwk-set) is configured; every request will run anonymously with no role''"

definition load_warnings :: "string go_map \<Rightarrow> config \<Rightarrow> string list" where
  "load_warnings raw c =
     cf_Warnings c @ unenforcedWarnings raw @
     (if cf_AnonRole c = [] \<and> cf_JWTSecret c = [] \<and> cf_JWKSet c = [] then [anonymous_posture] else [])"

definition warn_step :: "string go_map \<Rightarrow> load_state \<Rightarrow> load_state" where
  "warn_step raw st = ((fst st)\<lparr>cf_Warnings := load_warnings raw (fst st)\<rparr>, snd st)"

definition option_text :: "string go_map \<Rightarrow> string \<Rightarrow> string" where
  "option_text raw key = (case aget raw key of Some v \<Rightarrow> v | None \<Rightarrow> [])"

definition registry_step :: "string go_map \<Rightarrow> load_state \<Rightarrow> load_state" where
  "registry_step raw st =
     ((fst st)\<lparr>cf_DeclaredSchema := option_text raw ''declared-schema'',
               cf_DeclaredRelationships := option_text raw ''declared-relationships'',
               cf_FunctionRegistry := option_text raw ''function-registry'',
               cf_PolicyRegistry := option_text raw ''policy-registry'',
               cf_CapabilityOverrides := option_text raw ''capability-overrides''\<rparr>, snd st)"

definition resolve_options :: "os_env \<Rightarrow> string go_map \<Rightarrow> load_state" where
  "resolve_options os raw =
     fold (\<lambda>f st. f st) (surface_steps os raw @ auth_steps os raw @ server_steps os raw @ reload_steps os raw @
       [warn_step raw, registry_step raw]) (config_defaults, [])"

subsection \<open>Validation\<close>

definition problem :: "bool \<Rightarrow> string \<Rightarrow> string list" where
  "problem bad msg = (if bad then [msg] else [])"

definition out_of_port :: "int \<Rightarrow> bool" where
  "out_of_port n \<longleftrightarrow> n < 0 \<or> n > 65535"

definition mode_problems :: "string \<Rightarrow> string list" where
  "mode_problems m =
     (case parse_octal32 m of
        None \<Rightarrow> [''server-unix-socket-mode '' @ go_quote m @ '' is not an octal'']
      | Some n \<Rightarrow> problem (n < 384 \<or> n > 511) (''server-unix-socket-mode '' @ go_quote m @ '' needs to be between 600 and 777''))"

definition validate :: "config \<Rightarrow> string list" where
  "validate c =
     problem (cf_Backend c \<notin> set knownBackends)
       (''db-backend '' @ go_quote (cf_Backend c) @ '' is not one of postgres/sqlite/mysql/sqlserver/mongodb'') @
     problem (trim_space (cf_DBURI c) = []) ''db-uri is required'' @
     problem (cf_OpenAPIMode c \<notin> set knownOpenAPIModes)
       (''openapi-mode '' @ go_quote (cf_OpenAPIMode c) @ '' is not one of follow-privileges/ignore-privileges/disabled'') @
     problem (cf_LogLevel c \<notin> set knownLogLevels)
       (''log-level '' @ go_quote (cf_LogLevel c) @ '' is not one of crit/error/warn/info/debug'') @
     problem (out_of_port (cf_ServerPort c)) (''server-port '' @ show_int (cf_ServerPort c) @ '' is out of range'') @
     problem (out_of_port (cf_AdminServerPort c)) (''admin-server-port '' @ show_int (cf_AdminServerPort c) @ '' is out of range'') @
     problem (cf_AdminServerPort c \<noteq> 0 \<and> cf_AdminServerPort c = cf_ServerPort c)
       ''admin-server-port cannot be the same as server-port'' @
     problem (cf_MaxRows c < 0) ''db-max-rows must not be negative'' @
     problem (cf_MaxRequestBody c < 0) ''max-request-body must not be negative'' @
     problem (cf_JWTCacheMaxEntries c < 0) ''jwt-cache-max-entries must not be negative'' @
     problem (cf_Schemas c = []) ''db-schemas must name at least one schema'' @
     problem (cf_TxEnd c \<notin> set knownTxEnds)
       (''db-tx-end '' @ go_quote (cf_TxEnd c) @ '' is not one of commit/commit-allow-override/rollback/rollback-allow-override'') @
     mode_problems (cf_ServerUnixSocketMode c)"

definition fromRaw :: "os_env \<Rightarrow> string go_map \<Rightarrow> string + config" where
  "fromRaw os raw =
     (let (c, errs0) = resolve_options os raw; errs = errs0 @ validate c in
      if errs \<noteq> [] then Inl (''config: '' @ join ''; '' errs) else Inr c)"

definition FromMap :: "os_env \<Rightarrow> string go_map \<Rightarrow> string + config" where
  "FromMap os raw = fromRaw os raw"

definition Load :: "os_env \<Rightarrow> (string \<Rightarrow> string go_map \<Rightarrow> string go_map) \<Rightarrow> string \<Rightarrow> string list \<Rightarrow> string + config" where
  "Load os visit path environ =
     bindr (if path \<noteq> [] then parseFile os path else Inr ([], [])) (\<lambda>(fileRaw, fileWarnings).
       (let (raw, envWarnings) = overlayEnv visit fileRaw environ in
        bindr (fromRaw os raw) (\<lambda>c. Inr (c\<lparr>cf_Warnings := fileWarnings @ envWarnings @ cf_Warnings c\<rparr>))))"

subsection \<open>Reloading\<close>

definition kept_note :: "string \<Rightarrow> bool \<Rightarrow> string list" where
  "kept_note name changed = (if changed then [name @ '' changed but cannot be reloaded; keeping the boot value''] else [])"

definition MergeReloadable :: "config \<Rightarrow> config \<Rightarrow> config \<times> string list" where
  "MergeReloadable c nxt =
     (nxt\<lparr>cf_Backend := cf_Backend c, cf_DBURI := cf_DBURI c, cf_DBPool := cf_DBPool c,
        cf_DBPoolAcquisitionTimeout := cf_DBPoolAcquisitionTimeout c, cf_DBPoolMaxIdleTime := cf_DBPoolMaxIdleTime c,
        cf_DBPoolMaxLifetime := cf_DBPoolMaxLifetime c, cf_DBPoolAutomaticRecovery := cf_DBPoolAutomaticRecovery c,
        cf_ServerHost := cf_ServerHost c, cf_ServerPort := cf_ServerPort c, cf_ServerUnixSocket := cf_ServerUnixSocket c,
        cf_ServerUnixSocketMode := cf_ServerUnixSocketMode c, cf_AdminServerHost := cf_AdminServerHost c,
        cf_AdminServerPort := cf_AdminServerPort c, cf_FunctionRegistry := cf_FunctionRegistry c\<rparr>,
      kept_note ''db-backend'' (cf_Backend nxt \<noteq> cf_Backend c) @
      kept_note ''db-uri'' (cf_DBURI nxt \<noteq> cf_DBURI c) @
      kept_note ''db-pool'' (cf_DBPool nxt \<noteq> cf_DBPool c) @
      kept_note ''db-pool-acquisition-timeout'' (cf_DBPoolAcquisitionTimeout nxt \<noteq> cf_DBPoolAcquisitionTimeout c) @
      kept_note ''db-pool-max-idletime'' (cf_DBPoolMaxIdleTime nxt \<noteq> cf_DBPoolMaxIdleTime c) @
      kept_note ''db-pool-max-lifetime'' (cf_DBPoolMaxLifetime nxt \<noteq> cf_DBPoolMaxLifetime c) @
      kept_note ''db-pool-automatic-recovery'' (cf_DBPoolAutomaticRecovery nxt \<noteq> cf_DBPoolAutomaticRecovery c) @
      kept_note ''server-host'' (cf_ServerHost nxt \<noteq> cf_ServerHost c) @
      kept_note ''server-port'' (cf_ServerPort nxt \<noteq> cf_ServerPort c) @
      kept_note ''server-unix-socket'' (cf_ServerUnixSocket nxt \<noteq> cf_ServerUnixSocket c) @
      kept_note ''server-unix-socket-mode'' (cf_ServerUnixSocketMode nxt \<noteq> cf_ServerUnixSocketMode c) @
      kept_note ''admin-server-host'' (cf_AdminServerHost nxt \<noteq> cf_AdminServerHost c) @
      kept_note ''admin-server-port'' (cf_AdminServerPort nxt \<noteq> cf_AdminServerPort c) @
      kept_note ''function-registry'' (cf_FunctionRegistry nxt \<noteq> cf_FunctionRegistry c))"

subsection \<open>Listeners\<close>

record listen_spec =
  ls_Network :: string
  ls_Addr :: string

definition spec_of :: "string \<Rightarrow> string \<Rightarrow> listen_spec" where
  "spec_of net addr = \<lparr>ls_Network = net, ls_Addr = addr\<rparr>"

definition listenSpecs :: "string \<Rightarrow> int \<Rightarrow> listen_spec list" where
  "listenSpecs host port =
     (let p = show_int port in
      if host = ''*'' then [spec_of ''tcp'' ('':'' @ p)]
      else if host = ''*4'' then [spec_of ''tcp4'' (''0.0.0.0:'' @ p), spec_of ''tcp6'' (''[::]:'' @ p)]
      else if host = ''!4'' then [spec_of ''tcp4'' (''0.0.0.0:'' @ p)]
      else if host = ''*6'' then [spec_of ''tcp6'' (''[::]:'' @ p), spec_of ''tcp4'' (''0.0.0.0:'' @ p)]
      else if host = ''!6'' then [spec_of ''tcp6'' (''[::]:'' @ p)]
      else [spec_of ''tcp'' (JoinHostPort host p)])"

definition Listeners :: "config \<Rightarrow> listen_spec list" where
  "Listeners c =
     (if cf_ServerUnixSocket c \<noteq> [] then [spec_of ''unix'' (cf_ServerUnixSocket c)]
      else listenSpecs (cf_ServerHost c) (cf_ServerPort c))"

definition AdminListeners :: "config \<Rightarrow> listen_spec list" where
  "AdminListeners c = listenSpecs (cf_AdminServerHost c) (cf_AdminServerPort c)"

definition ServerAddr :: "config \<Rightarrow> string" where
  "ServerAddr c = cf_ServerHost c @ '':'' @ show_int (cf_ServerPort c)"

definition AdminAddr :: "config \<Rightarrow> string" where
  "AdminAddr c = cf_AdminServerHost c @ '':'' @ show_int (cf_AdminServerPort c)"

definition AdminEnabled :: "config \<Rightarrow> bool" where
  "AdminEnabled c \<longleftrightarrow> cf_AdminServerPort c \<noteq> 0"

subsection \<open>Dumping\<close>

definition dump_seconds :: "int \<Rightarrow> string" where
  "dump_seconds d =
     (if d mod duration_second = 0 then show_int (d div duration_second) else go_quote (duration_String d))"

abbreviation dump_list :: "string list \<Rightarrow> string" where
  "dump_list xs \<equiv> go_quote (join '','' xs)"

definition dump_options :: "config \<Rightarrow> string go_map" where
  "dump_options c =
     [(''db-backend'', go_quote (cf_Backend c)),
      (''db-uri'', go_quote (cf_DBURI c)),
      (''db-schemas'', dump_list (cf_Schemas c)),
      (''db-anon-role'', go_quote (cf_AnonRole c)),
      (''db-pre-request'', go_quote (cf_PreRequest c)),
      (''db-extra-search-path'', dump_list (cf_ExtraSearchPath c)),
      (''db-max-rows'', show_int (cf_MaxRows c)),
      (''dbrest.max-request-body'', show_int (cf_MaxRequestBody c)),
      (''db-aggregates-enabled'', FormatBool (cf_AggregatesEnabled c)),
      (''db-root-spec'', go_quote (cf_RootSpec c)),
      (''db-tx-end'', go_quote (cf_TxEnd c)),
      (''db-hoisted-tx-settings'', dump_list (cf_HoistedTxSettings c)),
      (''db-plan-enabled'', FormatBool (cf_PlanEnabled c)),
      (''db-channel'', go_quote (cf_DBChannel c)),
      (''db-channel-enabled'', FormatBool (cf_DBChannelEnabled c)),
      (''db-config'', FormatBool (cf_DBConfig c)),
      (''db-pre-config'', go_quote (cf_DBPreConfig c)),
      (''db-prepared-statements'', FormatBool (cf_DBPreparedStatements c)),
      (''db-pool'', show_int (cf_DBPool c)),
      (''db-pool-acquisition-timeout'', dump_seconds (cf_DBPoolAcquisitionTimeout c)),
      (''db-pool-max-idletime'', dump_seconds (cf_DBPoolMaxIdleTime c)),
      (''db-pool-max-lifetime'', dump_seconds (cf_DBPoolMaxLifetime c)),
      (''db-pool-automatic-recovery'', FormatBool (cf_DBPoolAutomaticRecovery c)),
      (''jwt-secret'', go_quote (cf_JWTSecret c)),
      (''jwt-secret-is-base64'', FormatBool (cf_JWTSecretIsBase64 c)),
      (''jwt-aud'', go_quote (cf_JWTAud c)),
      (''jwt-role-claim-key'', go_quote (cf_JWTRoleClaimKey c)),
      (''jwk-set'', go_quote (cf_JWKSet c)),
      (''jwt-cache-max-entries'', show_int (cf_JWTCacheMaxEntries c)),
      (''server-host'', go_quote (cf_ServerHost c)),
      (''server-port'', show_int (cf_ServerPort c)),
      (''server-unix-socket'', go_quote (cf_ServerUnixSocket c)),
      (''server-unix-socket-mode'', go_quote (cf_ServerUnixSocketMode c)),
      (''admin-server-host'', go_quote (cf_AdminServerHost c)),
      (''admin-server-port'', show_int (cf_AdminServerPort c)),
      (''openapi-mode'', go_quote (cf_OpenAPIMode c)),
      (''openapi-security-active'', FormatBool (cf_OpenAPISecurityActive c)),
      (''openapi-server-proxy-uri'', go_quote (cf_OpenAPIServerProxyURI c)),
      (''log-level'', go_quote (cf_LogLevel c)),
      (''log-query'', FormatBool (cf_LogQuery c)),
      (''server-cors-allowed-origins'', dump_list (cf_CORSAllowedOrigins c)),
      (''server-trace-header'', go_quote (cf_ServerTraceHeader c)),
      (''server-timing-enabled'', FormatBool (cf_ServerTimingEnabled c)),
      (''declared-schema'', go_quote (cf_DeclaredSchema c)),
      (''declared-relationships'', go_quote (cf_DeclaredRelationships c)),
      (''function-registry'', go_quote (cf_FunctionRegistry c)),
      (''policy-registry'', go_quote (cf_PolicyRegistry c)),
      (''capability-overrides'', go_quote (cf_CapabilityOverrides c))]"

definition dump_pairs :: "config \<Rightarrow> string go_map" where
  "dump_pairs c = fold (\<lambda>(name, v). aput (''app.settings.'' @ name) (go_quote v)) (cf_AppSettings c) (dump_options c)"

definition dump_line :: "string \<times> string \<Rightarrow> string" where
  "dump_line kv = fst kv @ '' = '' @ snd kv @ [CHR 0x0A]"

definition Dump :: "config \<Rightarrow> string" where
  "Dump c =
     (let pairs = dump_pairs c in
      concat (map (\<lambda>k. dump_line (k, option_text pairs k)) (sort (keys_of pairs))))"

end
