(* ===== verification/Config_Facts.thy ===== *)
theory Config_Facts
  imports Config Pgtypes
begin

section \<open>What loading and dumping the options guarantee\<close>

text \<open>
  The lines \<open>Dump\<close> writes are read back by \<open>parseFile\<close> (\<open>parse_dumped\<close>); the environment overrides the file
  option by option, whatever order the maps are visited in (\<open>environment_precedence\<close>); and a configuration
  that loads, or is merged from two that did, satisfies every check of \<open>validate\<close>.
\<close>

subsection \<open>One line of a dump\<close>

definition key_char :: "char \<Rightarrow> bool" where
  "key_char c \<longleftrightarrow> graphic c \<and> c \<notin> {CHR ''='', CHR ''#'', dquote}"

definition dump_char :: "char \<Rightarrow> bool" where
  "dump_char c \<longleftrightarrow> CHR '' '' \<le> c \<and> c \<le> CHR ''~'' \<and> c \<notin> {dquote, bslash, CHR ''$''}"

definition plain_text :: "string \<Rightarrow> bool" where
  "plain_text s \<longleftrightarrow> list_all dump_char s"

definition bare_char :: "char \<Rightarrow> bool" where
  "bare_char c \<longleftrightarrow> is_digit c \<or> c \<in> set ''-truefals''"

definition dumped_text :: "string \<Rightarrow> bool" where
  "dumped_text t \<longleftrightarrow> (\<exists>v. t = go_quote v \<and> plain_text v) \<or> t \<noteq> [] \<and> list_all bare_char t"

definition value_of :: "string \<Rightarrow> string" where
  "value_of t = (if has_prefix t [dquote] then config_unquote t else t)"

lemma quote_char_plain: "dump_char c \<Longrightarrow> quote_char c = [c]"
  by (auto simp: dump_char_def quote_char_def Let_def less_eq_char_def)

lemma go_quote_plain: "plain_text v \<Longrightarrow> go_quote v = dquote # v @ [dquote]"
  by (induction v) (auto simp: go_quote_def plain_text_def quote_char_plain)

lemma not_plain: "\<not> dump_char dquote" "\<not> dump_char (CHR ''$'')" "\<not> dump_char (CHR 0x0A)"
  by code_simp+

lemma not_bare: "\<not> bare_char dquote" "\<not> bare_char (CHR ''#'')" "\<not> bare_char (CHR 0x0A)" "\<not> bare_char (CHR ''$'')"
  by code_simp+

lemma not_key: "\<not> key_char dquote" "\<not> key_char (CHR ''#'')" "\<not> key_char (CHR 0x0A)" "\<not> key_char (CHR ''='')"
  by code_simp+

lemma list_all_free: "list_all P s \<Longrightarrow> \<not> P c \<Longrightarrow> c \<notin> set s"
  by (auto simp: list_all_iff)

lemma plain_free:
  assumes "plain_text v"
  shows "dquote \<notin> set v" "CHR ''$'' \<notin> set v" "CHR 0x0A \<notin> set v"
  using assms not_plain by (auto simp: plain_text_def dest: list_all_free)

lemma bare_graphic: "bare_char c \<Longrightarrow> graphic c"
  by (auto simp: bare_char_def is_digit_def graphic_def less_eq_char_def)

lemma bare_free:
  assumes "list_all bare_char t"
  shows "dquote \<notin> set t" "CHR ''#'' \<notin> set t" "CHR 0x0A \<notin> set t"
  using assms not_bare by (auto dest: list_all_free)

lemma value_of_quote [simp]: "plain_text v \<Longrightarrow> value_of (go_quote v) = v"
  by (simp add: value_of_def go_quote_plain has_prefix_def config_unquote_def)

lemma value_of_bare [simp]: "list_all bare_char t \<Longrightarrow> value_of t = t"
  using bare_free(1) [of t] by (cases t) (auto simp: value_of_def has_prefix_def)

lemma strip_scan_plain: "dquote \<notin> set s \<Longrightarrow> CHR ''#'' \<notin> set s \<Longrightarrow> strip_scan b (s @ r) = s @ strip_scan b r"
  by (induction s) auto

lemma strip_scan_quoted: "dquote \<notin> set s \<Longrightarrow> strip_scan True (s @ dquote # r) = s @ dquote # strip_scan False r"
  by (induction s) auto

lemma strip_dumped: "dumped_text t \<Longrightarrow> strip_scan False t = t"
  using strip_scan_plain [of t False "[]"]
  by (auto simp: dumped_text_def go_quote_plain strip_scan_quoted plain_free bare_free)

lemma dumped_ends:
  assumes "dumped_text t"
  obtains a b u w where "t = a # u" "t = w @ [b]" "graphic a" "graphic b" "CHR 0x0A \<notin> set t"
proof -
  from assms consider v where "t = dquote # v @ [dquote]" "plain_text v" | "t \<noteq> []" "list_all bare_char t"
    by (auto simp: dumped_text_def go_quote_plain)
  then show thesis
  proof cases
    case 1
    show thesis by (rule that [of dquote "v @ [dquote]" "dquote # v" dquote]) (use 1 plain_free(3) in \<open>auto simp: graphic_def\<close>)
  next
    case 2
    obtain a u where a: "t = a # u" using 2(1) by (cases t) auto
    obtain w b where b: "t = w @ [b]" using 2(1) by (metis rev_exhaust)
    have "bare_char a" using 2(2) a by simp
    moreover have "bare_char b" using 2(2) b by simp
    ultimately have "graphic a" "graphic b" by (auto intro: bare_graphic)
    then show thesis using that a b bare_free(3) [OF 2(2)] by metis
  qed
qed

lemma trim_space_dumped: "dumped_text t \<Longrightarrow> trim_space t = t"
  by (erule dumped_ends) (metis trim_space_graphic)

lemma lead_space_blank: "lead_space (CHR '' '' # s) = 1"
  by (auto simp: lead_space_def ascii_space_def split: list.split)

lemma trail_space_blank: "trail_space (CHR '' '' # s) = 1"
  by (auto simp: trail_space_def ascii_space_def split: list.split)

lemma trim_space_lead: "trim_space (CHR '' '' # s) = trim_space s"
  by (simp add: trim_space_def lead_space_blank)

lemma trim_space_trail:
  assumes "k \<noteq> []" "list_all graphic k"
  shows "trim_space (k @ '' '') = k"
proof -
  obtain a u where a: "k = a # u" "graphic a" using assms by (cases k) auto
  obtain w b where b: "k = w @ [b]" "graphic b" using assms by (cases k rule: rev_cases) auto
  have "drop_while_len lead_space (k @ '' '') = k @ '' ''" using a by (simp add: lead_space_graphic)
  moreover have "drop_while_len trail_space (CHR '' '' # rev k) = rev k"
    using b by (simp add: trail_space_blank trail_space_graphic)
  ultimately show ?thesis by (simp add: trim_space_def)
qed

definition line_ok :: "string \<times> string \<Rightarrow> bool" where
  "line_ok kv \<longleftrightarrow> fst kv \<noteq> [] \<and> list_all key_char (fst kv) \<and> known_key (config_key (fst kv)) \<and> dumped_text (snd kv)"

lemma known_key_nonempty: "known_key key \<Longrightarrow> key \<noteq> []"
  by (auto simp: known_key_def optionKeys_def has_prefix_def)

definition text_line :: "string \<times> string \<Rightarrow> string" where
  "text_line kv = fst kv @ '' = '' @ snd kv"

lemma dump_line_text: "dump_line kv = text_line kv @ [CHR 0x0A]"
  by (simp add: dump_line_def text_line_def)

lemma line_value_dumped: "dumped_text t \<Longrightarrow> line_value os raw t = Inr (value_of t)"
proof -
  assume "dumped_text t"
  then consider v where "t = dquote # v @ [dquote]" "plain_text v" | "t \<noteq> []" "list_all bare_char t"
    by (auto simp: dumped_text_def go_quote_plain)
  then show ?thesis
  proof cases
    case 1
    then show ?thesis by (simp add: line_value_def value_of_def has_prefix_def config_unquote_def interpolate_def plain_free)
  next
    case 2
    then have "\<not> has_prefix t [dquote]" using not_bare(1) by (cases t) (auto simp: has_prefix_def)
    then show ?thesis by (simp add: line_value_def value_of_def)
  qed
qed

lemma dumped_not_triple: "dumped_text t \<Longrightarrow> \<not> has_prefix t triple"
  by (auto simp: dumped_text_def go_quote_plain has_prefix_iff Cons_eq_append_conv append_eq_Cons_conv
      dest: plain_free(1) bare_free(1)) (auto simp: plain_text_def not_plain)

lemma line_parts:
  assumes "line_ok kv"
  shows "trim_space (stripComment (text_line kv)) = text_line kv" (is ?trim)
    and "cut (text_line kv) ''='' = Some (fst kv @ '' '', '' '' @ snd kv)" (is ?cut)
    and "text_line kv \<noteq> []" "CHR 0x0A \<notin> set (text_line kv)"
proof -
  obtain k t where kv: "kv = (k, t)" by (cases kv)
  have k: "k \<noteq> []" "list_all key_char k" and t: "dumped_text t" using assms by (auto simp: line_ok_def kv)
  have free: "c \<notin> set k" if "c \<in> {CHR ''='', CHR ''#'', dquote, CHR 0x0A}" for c
    using list_all_free [OF k(2)] not_key that by auto
  obtain a b u w where ends: "t = a # u" "t = w @ [b]" "graphic a" "graphic b" "CHR 0x0A \<notin> set t"
    by (rule dumped_ends [OF t]) metis
  obtain d x where d: "k = d # x" "graphic d" using k by (cases k) (auto simp: key_char_def)
  have "strip_scan False (k @ '' = '' @ t) = k @ '' = '' @ strip_scan False t"
    using strip_scan_plain [of "k @ '' = ''" False t] free by simp
  then have "stripComment (text_line kv) = text_line kv" by (simp add: stripComment_def text_line_def kv strip_dumped [OF t])
  moreover have "trim_space (text_line kv) = text_line kv"
    by (rule trim_space_graphic [OF d(2) ends(4), where t = "x @ '' = '' @ t" and u = "k @ '' = '' @ w"])
      (simp_all add: text_line_def kv d(1) ends(2))
  ultimately show ?trim by simp
  have "cut ((k @ '' '') @ CHR ''='' # '' '' @ t) [CHR ''=''] = Some (k @ '' '', '' '' @ t)"
    by (rule cut_single_append) (use free in auto)
  then show ?cut by (simp add: text_line_def kv)
  show "text_line kv \<noteq> []" by (simp add: text_line_def)
  show "CHR 0x0A \<notin> set (text_line kv)" using free ends(5) by (simp add: text_line_def kv)
qed

definition bind_line :: "string \<times> string \<Rightarrow> string go_map \<Rightarrow> string go_map" where
  "bind_line kv = aput (config_key (fst kv)) (value_of (snd kv))"

lemma parse_line:
  assumes "line_ok kv"
  shows "parse_lines os path i raw ws (text_line kv # ls) = parse_lines os path (Suc i) (bind_line kv raw) ws ls"
proof -
  have "trim_space (fst kv @ '' '') = fst kv"
    using assms by (intro trim_space_trail) (auto simp: line_ok_def list_all_iff key_char_def)
  moreover have "trim_space ('' '' @ snd kv) = snd kv"
    using assms by (simp add: trim_space_lead trim_space_dumped line_ok_def)
  moreover have "known_key (config_key (fst kv))" "config_key (fst kv) \<noteq> []"
    using assms known_key_nonempty by (auto simp: line_ok_def)
  moreover have "\<not> has_prefix (snd kv) triple" "line_value os raw (snd kv) = Inr (value_of (snd kv))"
    using assms dumped_not_triple line_value_dumped by (auto simp: line_ok_def)
  ultimately show ?thesis
    by (simp add: line_parts [OF assms] bind_line_def del: append.simps)
qed

lemma parse_dumped:
  "list_all line_ok kvs \<Longrightarrow>
   parse_lines os path i raw ws (map text_line kvs @ [[]]) = Inr (fold bind_line kvs raw, ws)"
proof (induction kvs arbitrary: i raw)
  case Nil
  then show ?case by (simp add: stripComment_def)
next
  case (Cons kv kvs)
  then show ?case by (simp add: parse_line del: parse_lines.simps)
qed

lemma split_dump:
  "list_all line_ok kvs \<Longrightarrow> split_byte (CHR 0x0A) (concat (map dump_line kvs)) = map text_line kvs @ [[]]"
  by (induction kvs) (simp_all add: dump_line_text line_parts(4) split_byte_append_sep)

subsection \<open>The environment over the file\<close>

definition resolved_option :: "string go_map \<Rightarrow> string go_map \<Rightarrow> string \<Rightarrow> string option" where
  "resolved_option raw env key =
     (case aget env (''DBREST_'' @ envSuffix key) of
        Some v \<Rightarrow> Some v
      | None \<Rightarrow>
          (case if isNativeKey key then None else aget env (''PGRST_'' @ envSuffix key) of
             Some v \<Rightarrow> Some v
           | None \<Rightarrow> aget raw key))"

lemma aget_bind_options:
  "aget (fold (bind_option prefix env) keys raw) key =
     (if key \<in> set keys \<and> \<not> (prefix = ''PGRST_'' \<and> isNativeKey key)
      then (case aget env (prefix @ envSuffix key) of Some v \<Rightarrow> Some v | None \<Rightarrow> aget raw key) else aget raw key)"
proof (induction keys arbitrary: raw)
  case (Cons k keys)
  show ?case using Cons.IH [of "bind_option prefix env k raw"]
    by (auto simp: bind_option_def aget_aput split: option.split)
qed simp

lemma aget_scan_variables:
  assumes "\<not> has_prefix key ''app.settings.''"
  shows "aget (fst (fold (scan_variable prefix) vars st)) key = aget (fst st) key"
proof (induction vars arbitrary: st)
  case (Cons var vars)
  have "''app.settings.'' @ s \<noteq> key" for s using assms has_prefix_append by metis
  then have "aget (fst (scan_variable prefix var st)) key = aget (fst st) key"
    by (auto simp: scan_variable_def aget_aput split: option.split list.split simp del: append.simps)
  then show ?case by (simp add: Cons.IH)
qed simp

text \<open>
  C32. Whatever the environment holds and in whatever order Go visits it, a known option takes its
  \<open>DBREST_\<close> value when there is one, else its \<open>PGRST_\<close> value unless it is a dbrest extension, else the value
  of the file.
\<close>

theorem environment_precedence:
  assumes "key \<in> set optionKeys"
  shows "aget (fst (overlayEnv visit raw environ)) key = resolved_option raw (env_map environ) key"
proof -
  have "list_all (\<lambda>k. \<not> has_prefix k ''app.settings.'') optionKeys" by code_simp
  then have "\<not> has_prefix key ''app.settings.''" using assms by (simp add: list_all_iff)
  then show ?thesis using assms
    by (simp add: overlayEnv_def overlay_prefix_def Let_def aget_scan_variables aget_bind_options resolved_option_def
        split: option.split)
qed

theorem environment_precedence_witness:
  "aget (fst (overlayEnv (\<lambda>p. rev) [(''db-uri'', ''a'')] [''PGRST_DB_URI=b'', ''PGRST_MAX_ROWS=7'', ''DBREST_DB_URI=c''])) ''db-uri'' =
     Some ''c''"
proof -
  have "''db-uri'' \<in> set optionKeys" by code_simp
  moreover have "resolved_option [(''db-uri'', ''a'')] (env_map [''PGRST_DB_URI=b'', ''PGRST_MAX_ROWS=7'', ''DBREST_DB_URI=c'']) ''db-uri'' =
      Some ''c''" by code_simp
  ultimately show ?thesis by (simp only: environment_precedence)
qed

subsection \<open>Loaded and merged configurations\<close>

lemma validate_warnings [simp]: "validate (c\<lparr>cf_Warnings := ws\<rparr>) = validate c"
  by (simp add: validate_def)

lemma fromRaw_valid: "fromRaw os raw = Inr c \<Longrightarrow> validate c = []"
  by (auto simp: fromRaw_def Let_def split: prod.split_asm if_split_asm)

lemma Load_valid: "Load os visit path environ = Inr c \<Longrightarrow> validate c = []"
  by (auto simp: Load_def bindr_Inr_conv case_prod_unfold Let_def dest!: fromRaw_valid)

lemma validate_iff:
  "validate c = [] \<longleftrightarrow>
     cf_Backend c \<in> set knownBackends \<and> trim_space (cf_DBURI c) \<noteq> [] \<and> cf_OpenAPIMode c \<in> set knownOpenAPIModes \<and>
     cf_LogLevel c \<in> set knownLogLevels \<and> \<not> out_of_port (cf_ServerPort c) \<and> \<not> out_of_port (cf_AdminServerPort c) \<and>
     (cf_AdminServerPort c \<noteq> 0 \<longrightarrow> cf_AdminServerPort c \<noteq> cf_ServerPort c) \<and> 0 \<le> cf_MaxRows c \<and> 0 \<le> cf_MaxRequestBody c \<and>
     0 \<le> cf_JWTCacheMaxEntries c \<and> cf_Schemas c \<noteq> [] \<and> cf_TxEnd c \<in> set knownTxEnds \<and>
     mode_problems (cf_ServerUnixSocketMode c) = []"
  by (simp add: validate_def problem_def not_less)

lemma merge_valid: "validate c = [] \<Longrightarrow> validate nxt = [] \<Longrightarrow> validate (fst (MergeReloadable c nxt)) = []"
  by (simp add: validate_iff MergeReloadable_def)

end
