(* ===== verification/Go_Encode.thy ===== *)
theory Go_Encode
  imports Go_Json
begin

section \<open>The Go encoders a response goes through\<close>

text \<open>
  What \<open>src/httpapi/render.go\<close> uses of \<open>strconv\<close>, \<open>encoding/json\<close>, \<open>encoding/base64\<close>,
  \<open>encoding/csv\<close> and \<open>net/url\<close>. A finite \<open>float64\<close> is its sign, the shortest decimal digits
  that read back as it (none for zero) and the decimal exponent of the first digit.
\<close>

subsection \<open>Floats as text\<close>

definition float_f :: "string \<Rightarrow> int \<Rightarrow> string" where
  "float_f ds e =
     (if ds = [] then ''0''
      else if e < 0 then ''0.'' @ replicate (nat (- e - 1)) CHR ''0'' @ ds
      else let n = nat e + 1 in
        take n ds @ replicate (n - length ds) CHR ''0'' @ (if n < length ds then ''.'' @ drop n ds else []))"

definition float_e :: "bool \<Rightarrow> string \<Rightarrow> int \<Rightarrow> string" where
  "float_e pad ds e =
     (let ex = show_nat (nat (abs e)) in
      (case ds of [] \<Rightarrow> ''0'' | d # r \<Rightarrow> d # (if r = [] then [] else CHR ''.'' # r)) @ ''e'' @ (if e < 0 then ''-'' else ''+'') @
      (if pad \<and> length ex < 2 then ''0'' @ ex else ex))"

definition sign_text :: "bool \<Rightarrow> string" where
  "sign_text neg = (if neg then ''-'' else [])"

text \<open>\<open>FormatFloat (f, 'g', -1, 64)\<close>: the exponent form below \<open>1e-4\<close> and from \<open>1e6\<close> up, at 21 digits with \<open>%v\<close>.\<close>

definition format_g :: "int \<Rightarrow> bool \<Rightarrow> string \<Rightarrow> int \<Rightarrow> string" where
  "format_g eprec neg ds e =
     sign_text neg @ (if ds \<noteq> [] \<and> (e < -4 \<or> eprec \<le> e) then float_e True ds e else float_f ds e)"

text \<open>\<open>encoding/json\<close>: the exponent form below \<open>1e-6\<close> and from \<open>1e21\<close> up, with no zero before a
  one-digit exponent (it rewrites \<open>e-09\<close> to \<open>e-9\<close>).\<close>

definition json_float :: "bool \<Rightarrow> string \<Rightarrow> int \<Rightarrow> string" where
  "json_float neg ds e =
     sign_text neg @ (if ds \<noteq> [] \<and> (e < -6 \<or> 21 \<le> e) then float_e False ds e else float_f ds e)"

subsection \<open>JSON text\<close>

text \<open>A string as \<open>encoding/json\<close> writes it with \<open>SetEscapeHTML(false)\<close>.\<close>

definition raw_rune :: "string option \<Rightarrow> string" where
  "raw_rune r =
     (if r \<in> {Some ''<'', Some ''>'', Some ''&''} then the r else json_rune r)"

definition raw_string :: "string \<Rightarrow> string" where
  "raw_string s = dquote # concat (map raw_rune (runes s)) @ [dquote]"

fun json_text :: "json \<Rightarrow> string" where
  "json_text JNull = ''null''"
| "json_text (JBool b) = (if b then ''true'' else ''false'')"
| "json_text (JNumber t) = (if t = [] then ''0'' else t)"
| "json_text (JString s) = raw_string s"
| "json_text (JArray xs) = ''['' @ join '','' (map json_text xs) @ '']''"
| "json_text (JObject m) =
     ''{'' @ join '','' (map (\<lambda>(k, v). raw_string k @ '':'' @ v) (sort_key fst (map (\<lambda>(k, v). (k, json_text v)) m))) @ ''}''"

definition b64_char :: "nat \<Rightarrow> char" where
  "b64_char n =
     (if n < 26 then char_of (65 + n) else if n < 52 then char_of (71 + n) else if n < 62 then char_of (n - 4)
      else if n = 62 then CHR ''+'' else CHR ''/'')"

fun base64_encode :: "string \<Rightarrow> string" where
  "base64_encode [] = []"
| "base64_encode [a] = [b64_char (byte a div 4), b64_char (byte a mod 4 * 16), CHR ''='', CHR ''='']"
| "base64_encode [a, b] =
     [b64_char (byte a div 4), b64_char (byte a mod 4 * 16 + byte b div 16), b64_char (byte b mod 16 * 4), CHR ''='']"
| "base64_encode (a # b # c # s) =
     b64_char (byte a div 4) # b64_char (byte a mod 4 * 16 + byte b div 16) #
     b64_char (byte b mod 16 * 4 + byte c div 64) # b64_char (byte c mod 64) # base64_encode s"

subsection \<open>The JSON scanner\<close>

text \<open>
  \<open>json.Valid\<close> and \<open>json.Compact\<close> as recursive descent: each reader takes the text and yields what is
  left after the construct it reads. The fuel of the mutual readers is the length of the text; the
  nesting limit of the scanner is not modelled.
\<close>

definition json_ws :: "char \<Rightarrow> bool" where
  "json_ws c \<longleftrightarrow> c \<in> {CHR '' '', CHR 0x09, CHR 0x0A, CHR 0x0D}"

definition skip_ws :: "string \<Rightarrow> string" where
  "skip_ws s = dropWhile json_ws s"

definition is_hex :: "char \<Rightarrow> bool" where
  "is_hex c \<longleftrightarrow> unhex c \<noteq> None"

fun read_str :: "string \<Rightarrow> string option" where
  "read_str [] = None"
| "read_str (c # s) =
     (if c = dquote then Some s
      else if byte c < 32 then None
      else if c = bslash then
        (case s of
           d # t \<Rightarrow>
             if d = CHR ''u'' then
               (case t of
                  h1 # h2 # h3 # h4 # v \<Rightarrow> if is_hex h1 \<and> is_hex h2 \<and> is_hex h3 \<and> is_hex h4 then read_str v else None
                | _ \<Rightarrow> None)
             else if d \<in> {dquote, bslash, CHR ''/'', CHR ''b'', CHR ''f'', CHR ''n'', CHR ''r'', CHR ''t''} then read_str t else None
         | [] \<Rightarrow> None)
      else read_str s)"

definition read_digits :: "string \<Rightarrow> string option" where
  "read_digits s = (case s of c # t \<Rightarrow> if is_digit c then Some (dropWhile is_digit t) else None | [] \<Rightarrow> None)"

definition read_int :: "string \<Rightarrow> string option" where
  "read_int s = (case s of c # t \<Rightarrow> if c = CHR ''0'' then Some t else read_digits s | [] \<Rightarrow> None)"

definition read_frac :: "string \<Rightarrow> string option" where
  "read_frac s = (case s of c # t \<Rightarrow> if c = CHR ''.'' then read_digits t else Some s | [] \<Rightarrow> Some s)"

definition read_exp :: "string \<Rightarrow> string option" where
  "read_exp s =
     (case s of
        c # t \<Rightarrow> if c = CHR ''e'' \<or> c = CHR ''E'' then
                  read_digits (case t of d # u \<Rightarrow> if d = CHR ''+'' \<or> d = CHR ''-'' then u else t | [] \<Rightarrow> t)
                else Some s
      | [] \<Rightarrow> Some s)"

definition read_number :: "string \<Rightarrow> string option" where
  "read_number s =
     Option.bind (read_int (case s of c # t \<Rightarrow> if c = CHR ''-'' then t else s | [] \<Rightarrow> s)) (\<lambda>t. Option.bind (read_frac t) read_exp)"

definition read_word :: "string \<Rightarrow> string \<Rightarrow> string option" where
  "read_word w s = (if has_prefix s w then Some (drop (length w) s) else None)"

definition read_closing :: "char \<Rightarrow> string \<Rightarrow> string option" where
  "read_closing c s = (case skip_ws s of d # t \<Rightarrow> if d = c then Some t else None | [] \<Rightarrow> None)"

fun read_value :: "nat \<Rightarrow> string \<Rightarrow> string option"
and read_elems :: "nat \<Rightarrow> string \<Rightarrow> string option"
and read_members :: "nat \<Rightarrow> string \<Rightarrow> string option" where
  "read_value 0 s = None"
| "read_value (Suc n) s =
     (case skip_ws s of
        [] \<Rightarrow> None
      | c # t \<Rightarrow>
          if c = dquote then read_str t
          else if c = CHR ''['' then (case read_closing CHR '']'' t of Some u \<Rightarrow> Some u | None \<Rightarrow> read_elems n t)
          else if c = CHR ''{'' then (case read_closing CHR ''}'' t of Some u \<Rightarrow> Some u | None \<Rightarrow> read_members n t)
          else if c = CHR ''t'' then read_word ''rue'' t
          else if c = CHR ''f'' then read_word ''alse'' t
          else if c = CHR ''n'' then read_word ''ull'' t
          else read_number (c # t))"
| "read_elems 0 s = None"
| "read_elems (Suc n) s =
     (case read_value n s of
        None \<Rightarrow> None
      | Some t \<Rightarrow> (case skip_ws t of
          c # u \<Rightarrow> if c = CHR '','' then read_elems n u else if c = CHR '']'' then Some u else None
        | [] \<Rightarrow> None))"
| "read_members 0 s = None"
| "read_members (Suc n) s =
     (case skip_ws s of
        c # t \<Rightarrow> if c \<noteq> dquote then None
          else (case read_str t of
            None \<Rightarrow> None
          | Some u \<Rightarrow> (case skip_ws u of
              d # v \<Rightarrow> if d \<noteq> CHR '':'' then None
                else (case read_value n v of
                  None \<Rightarrow> None
                | Some w \<Rightarrow> (case skip_ws w of
                    x # y \<Rightarrow> if x = CHR '','' then read_members n y else if x = CHR ''}'' then Some y else None
                  | [] \<Rightarrow> None))
            | [] \<Rightarrow> None))
      | [] \<Rightarrow> None)"

definition json_Valid :: "string \<Rightarrow> bool" where
  "json_Valid s = (case read_value (Suc (length s)) s of Some t \<Rightarrow> skip_ws t = [] | None \<Rightarrow> False)"

text \<open>The text without the white space between its tokens.\<close>

fun squeeze :: "bool \<Rightarrow> string \<Rightarrow> string" where
  "squeeze b [] = []"
| "squeeze True (c # s) =
     (if c = bslash then (case s of d # t \<Rightarrow> c # d # squeeze True t | [] \<Rightarrow> [c])
      else c # squeeze (c \<noteq> dquote) s)"
| "squeeze False (c # s) = (if json_ws c then squeeze False s else c # squeeze (c = dquote) s)"

text \<open>
  A \<open>json.RawMessage\<close> is checked and compacted when it is encoded; with HTML escaping on, the three
  HTML characters and the two Unicode line separators are escaped as well. The text of the error is
  the scanner's, a parameter of the renderer.
\<close>

definition raw_message :: "(string \<Rightarrow> string) \<Rightarrow> string \<Rightarrow> string + string" where
  "raw_message scan_error s = (if json_Valid s then Inr (squeeze False s) else Inl (scan_error s))"

fun html_escape :: "string \<Rightarrow> string" where
  "html_escape [] = []"
| "html_escape (c # s) =
     (if c = CHR ''<'' \<or> c = CHR ''>'' \<or> c = CHR ''&'' then u_escape (byte c) @ html_escape s
      else if map byte (c # take 2 s) = [0xE2, 0x80, 0xA8] then bslash # ''u2028'' @ html_escape (drop 2 s)
      else if map byte (c # take 2 s) = [0xE2, 0x80, 0xA9] then bslash # ''u2029'' @ html_escape (drop 2 s)
      else c # html_escape s)"

definition isValidNumber :: "string \<Rightarrow> bool" where
  "isValidNumber s \<longleftrightarrow> read_number s = Some []"

subsection \<open>CSV records and query values\<close>

definition fieldNeedsQuotes :: "string \<Rightarrow> bool" where
  "fieldNeedsQuotes f \<longleftrightarrow>
     f \<noteq> [] \<and> (f = [bslash, CHR ''.''] \<or>
       list_ex (\<lambda>c. c \<in> {CHR 0x0A, CHR 0x0D, dquote, CHR '',''}) f \<or> lead_space f > 0)"

definition csv_field :: "string \<Rightarrow> string" where
  "csv_field f =
     (if fieldNeedsQuotes f then dquote # concat (map (\<lambda>c. if c = dquote then [dquote, dquote] else [c]) f) @ [dquote] else f)"

definition csv_record :: "string list \<Rightarrow> string" where
  "csv_record fs = join '','' (map csv_field fs) @ [CHR 0x0A]"

definition upper_hex :: "nat \<Rightarrow> char" where
  "upper_hex d = (if d < 10 then char_of (48 + d) else char_of (55 + d))"

definition query_escape_char :: "char \<Rightarrow> string" where
  "query_escape_char c =
     (let n = byte c in
      if is_digit c \<or> 65 \<le> n \<and> n \<le> 90 \<or> 97 \<le> n \<and> n \<le> 122 \<or> c \<in> {CHR ''-'', CHR ''_'', CHR ''.'', CHR ''~''} then [c]
      else if c = CHR '' '' then ''+''
      else [CHR ''%'', upper_hex (n div 16), upper_hex (n mod 16)])"

definition query_escape :: "string \<Rightarrow> string" where
  "query_escape s = concat (map query_escape_char s)"

definition bytes_text :: "string \<Rightarrow> string" where
  "bytes_text s = ''['' @ join '' '' (map (\<lambda>c. show_nat (byte c)) s) @ '']''"


end
