(* ===== verification/Json_Text.thy ===== *)
theory Json_Text
  imports Go_Encode
begin

section \<open>What the encoders write is JSON\<close>

text \<open>
  The readers of \<open>Go_Encode\<close> against its writers: a text written by \<open>encoding/json\<close> is read back as one
  value whatever follows it, compaction leaves it alone, and the compaction of a valid text is such
  a text.
\<close>

subsection \<open>Texts that are one JSON value\<close>

text \<open>
  \<open>ends rest\<close>: a text that may follow a value inside a document. Such a text is read as one value
  whatever follows it, and holds no white space between its tokens.
\<close>

definition ends :: "string \<Rightarrow> bool" where
  "ends rest \<longleftrightarrow> (case rest of [] \<Rightarrow> True | c # _ \<Rightarrow> c \<in> {CHR '','', CHR '']'', CHR ''}''})"

definition tight :: "string \<Rightarrow> bool" where
  "tight t \<longleftrightarrow> (\<forall>rest. squeeze False (t @ rest) = t @ squeeze False rest)"

definition one_value :: "string \<Rightarrow> bool" where
  "one_value t \<longleftrightarrow> tight t \<and> (\<forall>rest n. ends rest \<longrightarrow> length t < n \<longrightarrow> read_value n (t @ rest) = Some rest)"

lemma ends_text [simp]: "ends []" "ends (c # s) \<longleftrightarrow> c \<in> {CHR '','', CHR '']'', CHR ''}''}"
  by (simp_all add: ends_def)

lemma not_ws [simp]:
  "\<not> json_ws dquote" "\<not> json_ws bslash" "\<not> json_ws CHR '',''" "\<not> json_ws CHR '']''" "\<not> json_ws CHR ''}''"
  "\<not> json_ws CHR ''[''" "\<not> json_ws CHR ''{''" "\<not> json_ws CHR '':''"
  by (simp_all add: json_ws_def)

lemma skip_ws_simps [simp]: "skip_ws [] = []" "\<not> json_ws c \<Longrightarrow> skip_ws (c # s) = c # s" "json_ws c \<Longrightarrow> skip_ws (c # s) = skip_ws s"
  by (simp_all add: skip_ws_def)

lemma squeeze_skip: "squeeze False (skip_ws s) = squeeze False s"
  by (induction s) (auto simp: skip_ws_def json_ws_def)

lemma skip_ws_Cons: "skip_ws s = c # t \<Longrightarrow> \<not> json_ws c \<and> squeeze False s = squeeze False (c # t)"
  by (metis hd_dropWhile list.distinct(1) list.sel(1) skip_ws_def squeeze_skip)

lemma tight_Nil [simp]: "tight []" by (simp add: tight_def)

lemma tight_append: "tight s \<Longrightarrow> tight t \<Longrightarrow> tight (s @ t)"
  by (simp add: tight_def)

lemma tight_char: "\<not> json_ws c \<Longrightarrow> c \<noteq> dquote \<Longrightarrow> tight [c]"
  by (simp add: tight_def)

lemma tight_plain: "(\<And>c. c \<in> set t \<Longrightarrow> \<not> json_ws c \<and> c \<noteq> dquote) \<Longrightarrow> tight t"
  by (induction t) (auto simp: tight_def)

lemma tight_join: "(\<And>t. t \<in> set ts \<Longrightarrow> tight t) \<Longrightarrow> tight (join '','' ts)"
proof (induction ts rule: induct_list012)
  case (3 t u ts)
  have "tight ('','' @ join '','' (u # ts))" using 3 by (intro tight_append) (auto intro: tight_char)
  then show ?case using 3 by (auto intro!: tight_append)
qed auto

subsection \<open>Strings\<close>

definition str_body :: "string \<Rightarrow> bool" where
  "str_body p \<longleftrightarrow> (\<forall>r. read_str (p @ r) = read_str r \<and> squeeze True (p @ r) = p @ squeeze True r)"

lemma str_body_Nil [simp]: "str_body []" by (simp add: str_body_def)

lemma str_body_append: "str_body p \<Longrightarrow> str_body q \<Longrightarrow> str_body (p @ q)"
  by (simp add: str_body_def)

lemma str_body_concat: "(\<And>p. p \<in> set ps \<Longrightarrow> str_body p) \<Longrightarrow> str_body (concat ps)"
  by (induction ps) (auto intro: str_body_append)

lemma str_body_plain: "(\<And>c. c \<in> set p \<Longrightarrow> 32 \<le> byte c \<and> c \<noteq> dquote \<and> c \<noteq> bslash) \<Longrightarrow> str_body p"
proof (induction p)
  case (Cons c p)
  then have "32 \<le> byte c" "c \<noteq> dquote" "c \<noteq> bslash" "str_body p" by simp_all
  then show ?case by (simp add: str_body_def)
qed simp

lemma read_str_body: "str_body p \<Longrightarrow> read_str (p @ dquote # r) = Some r"
  by (simp add: str_body_def)

lemma tight_quoted: "str_body p \<Longrightarrow> tight (dquote # p @ [dquote])"
  by (simp add: tight_def str_body_def)

lemma closed_quoted: "str_body p \<Longrightarrow> one_value (dquote # p @ [dquote])"
proof -
  assume p: "str_body p"
  have "read_value n (dquote # p @ dquote # rest) = Some rest" if "length p + 2 < n" for n rest
    using that read_str_body [OF p] by (cases n) simp_all
  then show ?thesis using tight_quoted [OF p] by (simp add: one_value_def)
qed

lemma hex_digit_is_hex: "d < 16 \<Longrightarrow> is_hex (hex_digit d)"
proof -
  assume "d < 16"
  then have "d = 0 \<or> d = 1 \<or> d = 2 \<or> d = 3 \<or> d = 4 \<or> d = 5 \<or> d = 6 \<or> d = 7 \<or> d = 8 \<or> d = 9 \<or> d = 10 \<or>
    d = 11 \<or> d = 12 \<or> d = 13 \<or> d = 14 \<or> d = 15" by presburger
  then show ?thesis by (elim disjE; hypsubst; code_simp)
qed

lemma str_body_escape: "c \<in> {dquote, bslash, CHR ''b'', CHR ''f'', CHR ''n'', CHR ''r'', CHR ''t''} \<Longrightarrow> str_body [bslash, c]"
  by (auto simp: str_body_def byte_def)

lemma is_hex_plain: "is_hex c \<Longrightarrow> c \<noteq> dquote \<and> c \<noteq> bslash"
  by (auto simp: is_hex_def unhex_def)

lemma str_body_u: "is_hex a \<Longrightarrow> is_hex b \<Longrightarrow> is_hex c \<Longrightarrow> is_hex d \<Longrightarrow> str_body (bslash # ''u'' @ [a, b, c, d])"
  using is_hex_plain [of a] is_hex_plain [of b] is_hex_plain [of c] is_hex_plain [of d] by (simp add: str_body_def byte_def)

lemma rune_len_bytes: "rune_len (c # s) = Suc (Suc n) \<Longrightarrow> \<forall>d \<in> set (take (rune_len (c # s)) (c # s)). 128 \<le> byte d"
  by (auto simp: rune_len_def cont_def split: if_split_asm list.split_asm)

lemma rune_bytes: "Some t \<in> set (runes s) \<Longrightarrow> (\<exists>c. t = [c]) \<or> length t \<noteq> 1 \<and> (\<forall>c \<in> set t. 128 \<le> byte c)"
proof (induction s rule: runes.induct)
  case (2 c s)
  show ?case
  proof (cases "rune_len (c # s)")
    case 0
    then show ?thesis using 2 by auto
  next
    case (Suc n)
    then have "t = take (Suc n) (c # s) \<or> Some t \<in> set (runes (drop n s))" using 2(3) by auto
    then show ?thesis
    proof
      assume t: "t = take (Suc n) (c # s)"
      show ?thesis
      proof (cases n)
        case (Suc m)
        then have "\<forall>d \<in> set t. 128 \<le> byte d" using rune_len_bytes [of c s m] \<open>rune_len (c # s) = Suc n\<close> t by simp
        then show ?thesis by (metis One_nat_def length_0_conv length_Suc_conv)
      qed (simp add: t)
    next
      assume "Some t \<in> set (runes (drop n s))"
      then show ?thesis using 2(2) Suc by simp
    qed
  qed
qed simp

lemma u_escape_body: "str_body (u_escape (byte c))"
proof -
  have "is_hex CHR ''0''" by code_simp
  moreover have "byte c < 256" by (simp add: byte_def)
  ultimately show ?thesis
    using str_body_u [of "CHR ''0''" "CHR ''0''" "hex_digit (byte c div 16)" "hex_digit (byte c mod 16)"]
    by (simp add: u_escape_def hex_digit_is_hex)
qed

lemma json_rune_byte: "str_body (json_rune (Some [c]))"
proof (cases "c = dquote \<or> c = bslash")
  case True
  then show ?thesis using str_body_escape [of c] by (auto simp: json_rune_def)
next
  case False
  have e: "str_body [bslash, CHR ''b'']" "str_body [bslash, CHR ''f'']" "str_body [bslash, CHR ''n'']"
    "str_body [bslash, CHR ''r'']" "str_body [bslash, CHR ''t'']" by (simp_all add: str_body_escape)
  have p: "str_body [c]" if "\<not> byte c < 32" using that False by (intro str_body_plain) simp
  show ?thesis using False by (simp add: json_rune_def e p u_escape_body)
qed

lemma json_rune_bytes: "length t \<noteq> 1 \<Longrightarrow> (\<And>c. c \<in> set t \<Longrightarrow> 128 \<le> byte c) \<Longrightarrow> str_body (json_rune (Some t))"
proof -
  assume t: "length t \<noteq> 1" "\<And>c. c \<in> set t \<Longrightarrow> 128 \<le> byte c"
  have hex: "is_hex CHR ''2''" "is_hex CHR ''0''" "is_hex CHR ''8''" "is_hex CHR ''9''" by code_simp+
  have sp: "str_body (bslash # ''u2028'')" "str_body (bslash # ''u2029'')"
    using str_body_u [of "CHR ''2''" "CHR ''0''" "CHR ''2''" "CHR ''8''"] str_body_u [of "CHR ''2''" "CHR ''0''" "CHR ''2''" "CHR ''9''"] hex
    by simp_all
  have "c \<noteq> dquote" "c \<noteq> bslash" "32 \<le> byte c" if "c \<in> set t" for c using t(2) [OF that] by (auto simp: byte_def)
  then have pl: "str_body t" by (intro str_body_plain) simp
  have "json_rune (Some t) = (if map byte t = [0xE2, 0x80, 0xA8] then bslash # ''u2028''
      else if map byte t = [0xE2, 0x80, 0xA9] then bslash # ''u2029'' else t)"
  proof (cases t)
    case (Cons a u)
    then show ?thesis using t(1) by (cases u) (simp_all add: json_rune_def)
  qed (simp add: json_rune_def)
  then show ?thesis by (simp only: sp pl split: if_split) simp
qed

lemma raw_rune_body: "r \<in> set (runes s) \<Longrightarrow> str_body (raw_rune r)"
proof (cases r)
  case None
  have "is_hex CHR ''f''" "is_hex CHR ''d''" by code_simp+
  then have "str_body (bslash # ''u'' @ ''fffd'')" using str_body_u by simp
  then show ?thesis using None by (simp add: raw_rune_def json_rune_def)
next
  case (Some t)
  assume "r \<in> set (runes s)"
  then have "str_body (json_rune (Some t))" using rune_bytes [of t s] Some json_rune_byte json_rune_bytes by auto
  moreover have "str_body ''<''" "str_body ''>''" "str_body ''&''" by (rule str_body_plain; simp add: byte_def)+
  ultimately show ?thesis using Some by (auto simp: raw_rune_def)
qed

lemma raw_string_body: "str_body (concat (map raw_rune (runes s)))"
  by (intro str_body_concat) (auto intro: raw_rune_body)

lemma closed_raw_string: "one_value (raw_string s)"
  using closed_quoted [OF raw_string_body] by (simp add: raw_string_def)

subsection \<open>Numbers\<close>

definition stop :: "(char \<Rightarrow> bool) \<Rightarrow> string \<Rightarrow> bool" where
  "stop P s \<longleftrightarrow> (case s of [] \<Rightarrow> True | c # _ \<Rightarrow> \<not> P c)"

lemma stop_simps [simp]: "stop P []" "stop P (c # s) \<longleftrightarrow> \<not> P c"
  by (simp_all add: stop_def)

lemma stop_mono: "stop P s \<Longrightarrow> (\<And>c. Q c \<Longrightarrow> P c) \<Longrightarrow> stop Q s"
  by (auto simp: stop_def split: list.split)

definition num_char :: "char \<Rightarrow> bool" where
  "num_char c \<longleftrightarrow> is_digit c \<or> c \<in> {CHR ''-'', CHR ''+'', CHR ''.'', CHR ''e'', CHR ''E''}"

text \<open>\<open>reads rd P s r p\<close>: the reader takes \<open>p\<close> off \<open>s\<close>, and off any text where \<open>p\<close> is followed by what may follow.\<close>

definition reads :: "(string \<Rightarrow> string option) \<Rightarrow> (char \<Rightarrow> bool) \<Rightarrow> string \<Rightarrow> string \<Rightarrow> string \<Rightarrow> bool" where
  "reads rd P s r p \<longleftrightarrow> s = p @ r \<and> list_all num_char p \<and> (\<forall>rest. stop P rest \<longrightarrow> rd (p @ rest) = Some rest)"

abbreviation exp_mark :: "char \<Rightarrow> bool" where
  "exp_mark c \<equiv> c = CHR ''e'' \<or> c = CHR ''E''"

lemma digit_facts: "is_digit c \<Longrightarrow> c \<noteq> CHR ''.'' \<and> c \<noteq> CHR ''-'' \<and> c \<noteq> CHR ''+'' \<and> \<not> exp_mark c \<and> num_char c"
  by (auto simp: is_digit_def num_char_def)

lemma read_digits_reads:
  assumes "read_digits s = Some r"
  obtains p where "reads read_digits is_digit s r p" "p \<noteq> []" "is_digit (hd p)" "list_all is_digit p"
proof -
  obtain c t where s: "s = c # t" "is_digit c" "r = dropWhile is_digit t"
    using assms by (auto simp: read_digits_def split: list.split_asm if_split_asm)
  let ?p = "c # takeWhile is_digit t"
  have d: "list_all is_digit ?p" using s by (auto simp: list_all_iff dest: set_takeWhileD)
  have "read_digits (?p @ rest) = Some rest" if "stop is_digit rest" for rest
  proof -
    have "dropWhile is_digit (takeWhile is_digit t @ rest) = dropWhile is_digit rest"
      by (rule dropWhile_append2) (auto dest: set_takeWhileD)
    also have "\<dots> = rest" using that by (cases rest) simp_all
    finally show ?thesis using s by (simp add: read_digits_def)
  qed
  moreover have "list_all num_char ?p" using d by (auto simp: list_all_iff num_char_def)
  ultimately have "reads read_digits is_digit s r ?p" using s by (simp add: reads_def)
  then show ?thesis using that [of ?p] d s by simp
qed

lemma read_int_reads:
  assumes "read_int s = Some r"
  obtains p where "reads read_int is_digit s r p" "p \<noteq> []" "is_digit (hd p)"
proof (cases "\<exists>t. s = CHR ''0'' # t")
  case True
  have z: "is_digit CHR ''0''" by code_simp
  then have "reads read_int is_digit s r ''0''" using assms True by (auto simp: read_int_def reads_def num_char_def)
  moreover note z
  ultimately show ?thesis using that [of "''0''"] by simp
next
  case False
  then have "read_digits s = Some r" using assms by (auto simp: read_int_def split: list.split_asm if_split_asm)
  then obtain p where p: "reads read_digits is_digit s r p" "p \<noteq> []" "is_digit (hd p)" by (rule read_digits_reads)
  have "read_int (p @ rest) = read_digits (p @ rest)" for rest
  proof -
    obtain c q where pc: "p = c # q" using p(2) by (cases p) auto
    then have "c \<noteq> CHR ''0''" using False p(1) by (auto simp: reads_def)
    then show ?thesis using pc by (auto simp: read_int_def)
  qed
  then have "reads read_int is_digit s r p" using p(1) by (simp add: reads_def)
  then show ?thesis using that p by blast
qed

lemma read_frac_reads:
  assumes "read_frac s = Some r"
  obtains p where "reads read_frac (\<lambda>c. is_digit c \<or> c = CHR ''.'') s r p" "p = [] \<or> hd p = CHR ''.''"
proof (cases "\<exists>t. s = CHR ''.'' # t")
  case True
  then obtain t where t: "s = CHR ''.'' # t" "read_digits t = Some r" using assms by (auto simp: read_frac_def)
  from t(2) obtain p where "reads read_digits is_digit t r p" by (rule read_digits_reads)
  moreover have "stop is_digit rest" if "stop (\<lambda>c. is_digit c \<or> c = CHR ''.'') rest" for rest
    using that by (rule stop_mono) simp
  ultimately have "reads read_frac (\<lambda>c. is_digit c \<or> c = CHR ''.'') s r (CHR ''.'' # p)"
    using t by (auto simp: reads_def read_frac_def num_char_def)
  then show ?thesis using that by simp
next
  case False
  then have "r = s" using assms by (auto simp: read_frac_def split: list.split_asm if_split_asm)
  moreover have "read_frac rest = Some rest" if "stop (\<lambda>c. is_digit c \<or> c = CHR ''.'') rest" for rest
    using that by (cases rest) (auto simp: read_frac_def)
  ultimately have "reads read_frac (\<lambda>c. is_digit c \<or> c = CHR ''.'') s r []" by (simp add: reads_def)
  then show ?thesis using that by simp
qed

lemma read_exp_reads:
  assumes "read_exp s = Some r"
  obtains p where "reads read_exp (\<lambda>c. is_digit c \<or> exp_mark c) s r p" "p = [] \<or> exp_mark (hd p)"
proof (cases "\<exists>c t. s = c # t \<and> exp_mark c")
  case True
  then obtain c t where t: "s = c # t" "exp_mark c" by blast
  define sg where "sg = (case t of d # u \<Rightarrow> if d = CHR ''+'' \<or> d = CHR ''-'' then [d] else [] | [] \<Rightarrow> [])"
  define u where "u = drop (length sg) t"
  have tu: "t = sg @ u" and rd: "read_digits u = Some r"
    using assms t by (auto simp: sg_def u_def read_exp_def split: list.split_asm if_split_asm list.split)
  from rd obtain p where p: "reads read_digits is_digit u r p" "p \<noteq> []" "is_digit (hd p)" by (rule read_digits_reads)
  have sgc: "sg = [] \<or> sg = ''+'' \<or> sg = ''-''" by (auto simp: sg_def split: list.split)
  obtain a q where pa: "p = a # q" "is_digit a" using p by (cases p) auto
  have "read_exp (c # sg @ p @ rest) = read_digits (p @ rest)" for rest
    using sgc t(2) pa digit_facts [of a] by (auto simp: read_exp_def)
  moreover have "stop is_digit rest" if "stop (\<lambda>c. is_digit c \<or> exp_mark c) rest" for rest
    using that by (rule stop_mono) simp
  moreover have "list_all num_char (c # sg)" using t(2) sgc by (auto simp: num_char_def)
  ultimately have "reads read_exp (\<lambda>c. is_digit c \<or> exp_mark c) s r (c # sg @ p)"
    using p(1) t(1) tu unfolding reads_def by simp
  then show ?thesis using that t(2) by simp
next
  case False
  then have "r = s" using assms by (auto simp: read_exp_def split: list.split_asm if_split_asm)
  moreover have "read_exp rest = Some rest" if "stop (\<lambda>c. is_digit c \<or> exp_mark c) rest" for rest
    using that by (cases rest) (auto simp: read_exp_def)
  ultimately have "reads read_exp (\<lambda>c. is_digit c \<or> exp_mark c) s r []" by (simp add: reads_def)
  then show ?thesis using that by simp
qed

lemma ends_stop: "ends rest \<Longrightarrow> stop (\<lambda>c. is_digit c \<or> exp_mark c \<or> c = CHR ''.'') rest"
  by (cases rest) (auto simp: is_digit_def)

lemma stop_append: "stop P s \<Longrightarrow> p = [] \<or> \<not> P (hd p) \<Longrightarrow> stop P (p @ s)"
  by (cases p) auto

lemma read_number_reads:
  assumes "read_number s = Some r"
  obtains p where "s = p @ r" "list_all num_char p" "p \<noteq> []" "hd p = CHR ''-'' \<or> is_digit (hd p)"
    "\<And>rest. ends rest \<Longrightarrow> read_number (p @ rest) = Some rest"
proof -
  define sg where "sg = (case s of c # t \<Rightarrow> if c = CHR ''-'' then ''-'' else [] | [] \<Rightarrow> [])"
  have sgc: "sg = [] \<or> sg = ''-''" by (auto simp: sg_def split: list.split)
  have s: "s = sg @ drop (length sg) s" by (auto simp: sg_def split: list.split)
  have strip: "(case s of c # t \<Rightarrow> if c = CHR ''-'' then t else s | [] \<Rightarrow> s) = drop (length sg) s"
    by (auto simp: sg_def split: list.split)
  obtain t u where t: "read_int (drop (length sg) s) = Some t" "read_frac t = Some u" "read_exp u = Some r"
    using assms unfolding read_number_def strip by (auto simp: bind_eq_Some_conv)
  from t(1) obtain p1 where p1: "reads read_int is_digit (drop (length sg) s) t p1" "p1 \<noteq> []" "is_digit (hd p1)" by (rule read_int_reads)
  from t(2) obtain p2 where p2: "reads read_frac (\<lambda>c. is_digit c \<or> c = CHR ''.'') t u p2" "p2 = [] \<or> hd p2 = CHR ''.''" by (rule read_frac_reads)
  from t(3) obtain p3 where p3: "reads read_exp (\<lambda>c. is_digit c \<or> exp_mark c) u r p3" "p3 = [] \<or> exp_mark (hd p3)" by (rule read_exp_reads)
  let ?p = "sg @ p1 @ p2 @ p3"
  have nd: "\<not> is_digit CHR ''.''" "\<not> is_digit CHR ''e''" "\<not> is_digit CHR ''E''" by code_simp+
  have "read_number (?p @ rest) = Some rest" if e: "ends rest" for rest
  proof -
    have "stop (\<lambda>c. is_digit c \<or> exp_mark c) rest" using ends_stop [OF e] by (rule stop_mono) auto
    then have r3: "read_exp (p3 @ rest) = Some rest" using p3(1) by (simp add: reads_def)
    have "stop (\<lambda>c. is_digit c \<or> c = CHR ''.'') rest" using ends_stop [OF e] by (rule stop_mono) auto
    then have "stop (\<lambda>c. is_digit c \<or> c = CHR ''.'') (p3 @ rest)" using p3(2) nd by (intro stop_append) auto
    then have r2: "read_frac (p2 @ p3 @ rest) = Some (p3 @ rest)" and st: "stop is_digit (p3 @ rest)"
      using p2(1) by (auto simp: reads_def intro: stop_mono)
    have "stop is_digit (p2 @ p3 @ rest)" using stop_append [OF st, of p2] p2(2) nd by auto
    then have r1: "read_int (p1 @ p2 @ p3 @ rest) = Some (p2 @ p3 @ rest)" using p1(1) by (simp add: reads_def)
    have "(case ?p @ rest of c # t \<Rightarrow> if c = CHR ''-'' then t else ?p @ rest | [] \<Rightarrow> ?p @ rest) = p1 @ p2 @ p3 @ rest"
    proof -
      obtain a q where "p1 = a # q" "is_digit a" using p1 by (cases p1) auto
      then show ?thesis using sgc digit_facts [of a] by (auto)
    qed
    then show ?thesis unfolding read_number_def by (simp only: r1 r2 r3 Option.bind.simps)
  qed
  moreover have "s = ?p @ r" using s p1(1) p2(1) p3(1) by (metis append_assoc reads_def)
  moreover have "list_all num_char ?p" using p1(1) p2(1) p3(1) sgc by (auto simp: reads_def num_char_def)
  moreover have "hd ?p = CHR ''-'' \<or> is_digit (hd ?p)" "?p \<noteq> []" using p1 sgc by (cases p1; auto)+
  ultimately show ?thesis using that by blast
qed

lemma num_char_facts: "num_char c \<Longrightarrow> \<not> json_ws c \<and> c \<noteq> dquote"
  by (auto simp: num_char_def json_ws_def is_digit_def)

lemma number_head: "c = CHR ''-'' \<or> is_digit c \<Longrightarrow> c \<notin> {dquote, CHR ''['', CHR ''{'', CHR ''t'', CHR ''f'', CHR ''n''} \<and> num_char c"
  by (auto simp: num_char_def is_digit_def)

lemma closed_number_part:
  assumes "read_number s = Some r"
  obtains p where "s = p @ r" "one_value p" "tight p" "p \<noteq> []"
proof -
  obtain p where p: "s = p @ r" "list_all num_char p" "p \<noteq> []" "hd p = CHR ''-'' \<or> is_digit (hd p)"
    "\<And>rest. ends rest \<Longrightarrow> read_number (p @ rest) = Some rest"
    using read_number_reads [OF assms] by blast
  have t: "tight p" using p(2) by (intro tight_plain) (auto simp: list_all_iff dest: num_char_facts)
  obtain c q where c: "p = c # q" using p(3) by (cases p) auto
  have "read_value n (p @ rest) = Some rest" if "ends rest" "length p < n" for rest n
  proof -
    have "read_value n (p @ rest) = read_number (p @ rest)"
      using that(2) number_head [of c] num_char_facts [of c] p(4) c by (cases n) auto
    then show ?thesis using p(5) that by simp
  qed
  then show ?thesis using that p t by (simp add: one_value_def)
qed

lemma closed_number: "isValidNumber t \<Longrightarrow> one_value t"
proof -
  assume "isValidNumber t"
  then obtain p where "t = p @ []" "one_value p" unfolding isValidNumber_def by (rule closed_number_part)
  then show ?thesis by simp
qed

lemma closed_word: "one_value ''null''" "one_value ''true''" "one_value ''false''"
proof -
  have w: "one_value w" if "w \<in> {''null'', ''true'', ''false''}" for w
  proof -
    have "tight w" using that by (intro tight_plain) (auto simp: json_ws_def)
    moreover have "read_value n (w @ rest) = Some rest" if "length w < n" for n rest
      using that \<open>w \<in> _\<close> by (cases n) (auto simp: json_ws_def read_word_def has_prefix_def)
    ultimately show ?thesis by (simp add: one_value_def)
  qed
  show "one_value ''null''" "one_value ''true''" "one_value ''false''" by (rule w; simp)+
qed

lemma closed_tight: "one_value t \<Longrightarrow> tight t" by (simp add: one_value_def)

lemma closed_read: "one_value t \<Longrightarrow> ends rest \<Longrightarrow> length t < n \<Longrightarrow> read_value n (t @ rest) = Some rest"
  by (simp add: one_value_def)

lemma closed_Valid: "one_value t \<Longrightarrow> json_Valid t \<and> squeeze False t = t"
proof -
  assume c: "one_value t"
  have "read_value (Suc (length t)) (t @ []) = Some []" by (rule closed_read [OF c]) simp_all
  moreover have "squeeze False (t @ []) = t @ squeeze False []" using c by (simp only: one_value_def tight_def)
  ultimately show ?thesis by (simp add: json_Valid_def)
qed

subsection \<open>Arrays and objects\<close>

lemma squeeze_length: "length (squeeze b s) \<le> length s"
  by (induction b s rule: squeeze.induct) (auto split: list.split)

text \<open>The head of a value is not white space and no closing bracket, so the readers of a container go on to it.\<close>

lemma closed_head: "one_value t \<Longrightarrow> \<exists>c s. t = c # s \<and> \<not> json_ws c \<and> c \<noteq> CHR '']''"
proof -
  assume c: "one_value t"
  have r: "read_value (Suc (length t)) t = Some []" using closed_read [OF c, of "[]" "Suc (length t)"] by simp
  obtain a s where t: "t = a # s" using r by (cases t) simp_all
  have sq: "squeeze False t = t" using closed_Valid [OF c] by simp
  have "\<not> json_ws a"
  proof
    assume w: "json_ws a"
    have "length (squeeze False s) \<le> length s" by (rule squeeze_length)
    then show False using arg_cong [OF sq, of length] w t by simp
  qed
  moreover have "read_number (CHR '']'' # s) = None" by (simp add: read_number_def read_int_def read_digits_def is_digit_def)
  then have "a \<noteq> CHR '']''" using r t by force
  ultimately show ?thesis using t by blast
qed

lemma read_elems_join:
  assumes "\<And>t. t \<in> set ts \<Longrightarrow> one_value t" and "ts \<noteq> []" and "length (join '','' ts) + 1 < n"
  shows "read_elems n (join '','' ts @ CHR '']'' # rest) = Some rest"
  using assms
proof (induction ts arbitrary: n rule: induct_list012)
  case (2 t)
  then have "one_value t" "length t < n - 1" by simp_all
  then have "read_value (n - 1) (t @ CHR '']'' # rest) = Some (CHR '']'' # rest)" by (intro closed_read) simp_all
  then show ?case using 2 by (cases n) simp_all
next
  case (3 t u ts)
  then have "one_value t" "length t < n - 1" by simp_all
  then have "read_value (n - 1) (t @ '','' @ join '','' (u # ts) @ CHR '']'' # rest) = Some ('','' @ join '','' (u # ts) @ CHR '']'' # rest)"
    by (intro closed_read) simp_all
  moreover have "read_elems (n - 1) (join '','' (u # ts) @ CHR '']'' # rest) = Some rest"
    using 3 by (intro "3.IH"(2)) simp_all
  ultimately show ?case using 3 by (cases n) simp_all
qed simp

lemma join_head: "ts \<noteq> [] \<Longrightarrow> hd ts = c # s \<Longrightarrow> \<exists>u. join '','' ts = c # u"
  by (cases ts rule: list.exhaust; cases "tl ts") auto

lemma closed_array: "(\<And>t. t \<in> set ts \<Longrightarrow> one_value t) \<Longrightarrow> one_value (''['' @ join '','' ts @ '']'')"
proof -
  assume c: "\<And>t. t \<in> set ts \<Longrightarrow> one_value t"
  have "tight (''['' @ join '','' ts @ '']'')"
    using c by (intro tight_append tight_join) (auto intro: tight_char closed_tight)
  moreover have "read_value n (CHR ''['' # join '','' ts @ CHR '']'' # rest) = Some rest" if "length (join '','' ts) + 2 < n" for n rest
  proof (cases "ts = []")
    case True
    then show ?thesis using that by (cases n) (simp_all add: read_closing_def)
  next
    case False
    obtain a s where "hd ts = a # s" "\<not> json_ws a" "a \<noteq> CHR '']''" using closed_head [of "hd ts"] c False by auto
    moreover then obtain u where "join '','' ts = a # u" using join_head [OF False] by blast
    moreover have "read_elems (n - 1) (join '','' ts @ CHR '']'' # rest) = Some rest"
      using that by (intro read_elems_join [OF c False]) simp_all
    ultimately show ?thesis using that by (cases n) (auto simp: read_closing_def)
  qed
  ultimately show ?thesis by (simp add: one_value_def)
qed

definition member :: "string \<Rightarrow> bool" where
  "member m \<longleftrightarrow> (\<exists>p t. str_body p \<and> one_value t \<and> m = dquote # p @ dquote # CHR '':'' # t)"

lemma tight_member: "member m \<Longrightarrow> tight m"
proof -
  assume "member m"
  then obtain p t where m: "str_body p" "one_value t" "m = (dquote # p @ [dquote]) @ '':'' @ t" by (auto simp: member_def)
  show ?thesis unfolding m(3) using m(1,2) by (intro tight_append tight_quoted closed_tight tight_char) simp_all
qed

lemma read_member:
  assumes "member m" "ends rest" "length m < n"
  shows "read_members n (m @ rest) =
    (case rest of x # y \<Rightarrow> if x = CHR '','' then read_members (n - 1) y else if x = CHR ''}'' then Some y else None | [] \<Rightarrow> None)"
proof -
  obtain k where n: "n = Suc k" using assms(3) by (cases n) simp_all
  obtain p t where m: "str_body p" "one_value t" "m = dquote # p @ dquote # CHR '':'' # t" using assms(1) by (auto simp: member_def)
  have "read_value (n - 1) (t @ rest) = Some rest" using assms m by (intro closed_read) simp_all
  moreover have "skip_ws rest = rest" using assms(2) by (cases rest) (auto simp: json_ws_def)
  ultimately show ?thesis using assms(3) m(3) read_str_body [OF m(1), of "CHR '':'' # t @ rest"]
    unfolding n by (simp split: list.split)
qed

lemma read_members_join:
  assumes "\<And>m. m \<in> set ms \<Longrightarrow> member m" and "ms \<noteq> []" and "length (join '','' ms) < n"
  shows "read_members n (join '','' ms @ CHR ''}'' # rest) = Some rest"
  using assms
proof (induction ms arbitrary: n rule: induct_list012)
  case (2 m)
  then show ?case using read_member [of m "CHR ''}'' # rest" n] by simp
next
  case (3 m k ms)
  then have "read_members (n - 1) (join '','' (k # ms) @ CHR ''}'' # rest) = Some rest" by (intro "3.IH"(2)) simp_all
  then show ?case using 3 read_member [of m "'','' @ join '','' (k # ms) @ CHR ''}'' # rest" n] by simp
qed simp

lemma closed_object: "(\<And>m. m \<in> set ms \<Longrightarrow> member m) \<Longrightarrow> one_value (''{'' @ join '','' ms @ ''}'')"
proof -
  assume c: "\<And>m. m \<in> set ms \<Longrightarrow> member m"
  have "tight (''{'' @ join '','' ms @ ''}'')"
    using c by (intro tight_append tight_join) (auto intro: tight_char tight_member)
  moreover have "read_value n (CHR ''{'' # join '','' ms @ CHR ''}'' # rest) = Some rest" if "length (join '','' ms) + 2 < n" for n rest
  proof (cases "ms = []")
    case True
    then show ?thesis using that by (cases n) (simp_all add: read_closing_def)
  next
    case False
    obtain s where "hd ms = dquote # s" using c [of "hd ms"] False by (auto simp: member_def)
    then obtain u where "join '','' ms = dquote # u" using join_head [OF False] by blast
    moreover have "read_members (n - 1) (join '','' ms @ CHR ''}'' # rest) = Some rest"
      using that by (intro read_members_join [OF c False]) simp_all
    ultimately show ?thesis using that by (cases n) (auto simp: read_closing_def)
  qed
  ultimately show ?thesis by (simp add: one_value_def)
qed

subsection \<open>A valid text, compacted, is one value\<close>

lemma read_escape:
  assumes "read_str (bslash # s) = Some r"
  obtains q t where "s = q @ t" "str_body (bslash # q)" "read_str t = Some r" "length t < length s"
proof -
  have nb: "\<not> byte bslash < 32" by code_simp
  obtain d v where s: "s = d # v" using assms nb by (cases s) simp_all
  show ?thesis
  proof (cases "d = CHR ''u''")
    case True
    then obtain h1 h2 h3 h4 t where v: "v = h1 # h2 # h3 # h4 # t" and h: "is_hex h1" "is_hex h2" "is_hex h3" "is_hex h4" "read_str t = Some r"
      using assms nb unfolding s by (auto split: if_split_asm list.split_asm)
    show ?thesis using that [of "''u'' @ [h1, h2, h3, h4]" t] str_body_u [OF h(1-4)] h(5) s v True by simp
  next
    case False
    then have d: "d \<in> {dquote, bslash, CHR ''/'', CHR ''b'', CHR ''f'', CHR ''n'', CHR ''r'', CHR ''t''}" "read_str v = Some r"
      using assms nb unfolding s by (auto split: if_split_asm)
    moreover have "str_body [bslash, d]" using d(1) by (auto simp: str_body_def byte_def)
    ultimately show ?thesis using that [of "[d]" v] s by simp
  qed
qed

lemma read_str_parts: "read_str s = Some r \<Longrightarrow> \<exists>p. s = p @ dquote # r \<and> str_body p"
proof (induction s rule: measure_induct_rule [of length])
  case (less s)
  obtain c u where s: "s = c # u" using less.prems by (cases s) simp_all
  consider "c = dquote" | "c = bslash" | "c \<noteq> dquote" "\<not> byte c < 32" "c \<noteq> bslash" "read_str u = Some r"
    using less.prems s by (auto split: if_split_asm)
  then show ?case
  proof cases
    case 1
    then show ?thesis using less.prems s by (intro exI [of _ "[]"]) simp
  next
    case 2
    then obtain q t where q: "u = q @ t" "str_body (bslash # q)" "read_str t = Some r" "length t < length u"
      using less.prems s read_escape by blast
    then obtain p where "t = p @ dquote # r" "str_body p" using less.IH [of t] s by auto
    then show ?thesis using q s 2 str_body_append [of "bslash # q" p] by (intro exI [of _ "bslash # q @ p"]) simp
  next
    case 3
    then obtain p where "u = p @ dquote # r" "str_body p" using less.IH [of u] s by auto
    then show ?thesis using 3 s str_body_append [of "[c]" p] str_body_plain [of "[c]"] by (intro exI [of _ "c # p"]) simp
  qed
qed

lemma squeeze_quoted: "str_body p \<Longrightarrow> squeeze False (dquote # p @ dquote # r) = (dquote # p @ [dquote]) @ squeeze False r"
  using tight_quoted [of p] by (simp add: tight_def)

lemma read_word_parts: "read_word w s = Some t \<Longrightarrow> s = w @ t"
  by (auto simp: read_word_def has_prefix_def split: if_split_asm) (metis append_eq_conv_conj)

lemma squeeze_closed: "one_value u \<Longrightarrow> squeeze False (u @ t) = u @ squeeze False t"
  by (simp add: one_value_def tight_def)

lemma squeeze_closing:
  assumes "read_closing c s = Some t" "c \<noteq> dquote" "\<not> json_ws c"
  shows "squeeze False s = c # squeeze False t"
proof -
  have "skip_ws s = c # t" using assms(1) by (auto simp: read_closing_def split: list.split_asm if_split_asm)
  then show ?thesis using skip_ws_Cons [of s c t] assms by simp
qed

lemma read_value_cases:
  assumes v: "read_value (Suc n) s = Some t" and s: "skip_ws s = c # r"
  shows "c = dquote \<and> read_str r = Some t \<or>
    c = CHR ''['' \<and> (read_closing CHR '']'' r = Some t \<or> read_closing CHR '']'' r = None \<and> read_elems n r = Some t) \<or>
    c = CHR ''{'' \<and> (read_closing CHR ''}'' r = Some t \<or> read_closing CHR ''}'' r = None \<and> read_members n r = Some t) \<or>
    (\<exists>w \<in> {''true'', ''false'', ''null''}. c # r = w @ t) \<or> read_number (c # r) = Some t"
proof -
  let ?w = "\<lambda>x. \<exists>w \<in> {''true'', ''false'', ''null''}. x = w @ t"
  have w: "read_word ''rue'' r = Some t \<Longrightarrow> ?w (CHR ''t'' # r)" "read_word ''alse'' r = Some t \<Longrightarrow> ?w (CHR ''f'' # r)"
    "read_word ''ull'' r = Some t \<Longrightarrow> ?w (CHR ''n'' # r)" by (auto dest!: read_word_parts)
  have o: "(case x of Some u \<Rightarrow> Some u | None \<Rightarrow> y) = Some t \<longleftrightarrow> x = Some t \<or> x = None \<and> y = Some t" for x y :: "string option"
    by (cases x) auto
  show ?thesis
    using v [unfolded read_value.simps s list.case o] w by (metis o)
qed

lemma squeeze_value:
  "read_value n s = Some t \<Longrightarrow> \<exists>u. squeeze False s = u @ squeeze False t \<and> one_value u"
  "read_elems n s = Some t \<Longrightarrow> \<exists>ts. ts \<noteq> [] \<and> squeeze False s = join '','' ts @ CHR '']'' # squeeze False t \<and> (\<forall>x \<in> set ts. one_value x)"
  "read_members n s = Some t \<Longrightarrow> \<exists>ms. ms \<noteq> [] \<and> squeeze False s = join '','' ms @ CHR ''}'' # squeeze False t \<and> (\<forall>x \<in> set ms. member x)"
proof (induction n s and n s and n s arbitrary: t and t and t rule: read_value_read_elems_read_members.induct)
  case (2 n s)
  obtain c r where s: "skip_ws s = c # r" using "2.prems" by (cases "skip_ws s") simp_all
  have sq: "squeeze False s = squeeze False (c # r)" using skip_ws_Cons [OF s] by simp
  have nw: "\<not> json_ws c" using skip_ws_Cons [OF s] by simp
  show ?case using read_value_cases [OF "2.prems" s]
  proof (elim disjE conjE bexE)
    assume c: "c = dquote" and "read_str r = Some t"
    then obtain p where "r = p @ dquote # t" "str_body p" using read_str_parts by blast
    then show ?thesis using sq c squeeze_quoted [of p t] closed_quoted [of p] by metis
  next
    assume c: "c = CHR ''[''" and "read_closing CHR '']'' r = Some t"
    then have "squeeze False r = CHR '']'' # squeeze False t" by (intro squeeze_closing) simp_all
    then show ?thesis using sq c closed_array [of "[]"] by (intro exI [of _ "''[]''"]) simp
  next
    assume c: "c = CHR ''[''" and "read_closing CHR '']'' r = None" "read_elems n r = Some t"
    then obtain ts where "squeeze False r = join '','' ts @ CHR '']'' # squeeze False t" "\<forall>x \<in> set ts. one_value x"
      using "2.IH"(1) [OF s] by auto
    then show ?thesis using sq c closed_array [of ts] by (intro exI [of _ "''['' @ join '','' ts @ '']''"]) simp
  next
    assume c: "c = CHR ''{''" and "read_closing CHR ''}'' r = Some t"
    then have "squeeze False r = CHR ''}'' # squeeze False t" by (intro squeeze_closing) simp_all
    then show ?thesis using sq c closed_object [of "[]"] by (intro exI [of _ "''{}''"]) simp
  next
    assume c: "c = CHR ''{''" and "read_closing CHR ''}'' r = None" "read_members n r = Some t"
    then obtain ms where "squeeze False r = join '','' ms @ CHR ''}'' # squeeze False t" "\<forall>x \<in> set ms. member x"
      using "2.IH"(2) [OF s] by auto
    then show ?thesis using sq c closed_object [of ms] by (intro exI [of _ "''{'' @ join '','' ms @ ''}''"]) simp
  next
    fix w
    assume w: "w \<in> {''true'', ''false'', ''null''}" "c # r = w @ t"
    then have "one_value w" using closed_word by auto
    then show ?thesis using sq w(2) squeeze_closed by metis
  next
    assume "read_number (c # r) = Some t"
    then obtain p where "c # r = p @ t" "one_value p" using closed_number_part by metis
    then show ?thesis using sq squeeze_closed by metis
  qed
next
  case (4 n s)
  obtain r where r: "read_value n s = Some r" using "4.prems" by (cases "read_value n s") simp_all
  then obtain u where u: "squeeze False s = u @ squeeze False r" "one_value u" using "4.IH"(1) by blast
  obtain c v where v: "skip_ws r = c # v" using "4.prems" r by (cases "skip_ws r") simp_all
  have sq: "squeeze False r = squeeze False (c # v)" using skip_ws_Cons [OF v] by simp
  consider "c = CHR '',''" "read_elems n v = Some t" | "c = CHR '']''" "v = t"
    using "4.prems" by (auto simp: r v split: if_split_asm)
  then show ?case
  proof cases
    case 1
    then obtain ts where "ts \<noteq> []" "squeeze False v = join '','' ts @ CHR '']'' # squeeze False t" "\<forall>x \<in> set ts. one_value x"
      using "4.IH"(2) [OF r v] by blast
    then show ?thesis using u sq 1 by (intro exI [of _ "u # ts"]) (cases ts; simp)
  next
    case 2
    then show ?thesis using u sq by (intro exI [of _ "[u]"]) simp
  qed
next
  case (6 n s)
  obtain r where r: "skip_ws s = dquote # r" using "6.prems" by (auto split: list.split_asm if_split_asm)
  obtain u where u: "read_str r = Some u" using "6.prems" r by (cases "read_str r") simp_all
  obtain v where v: "skip_ws u = CHR '':'' # v" using "6.prems" r u by (auto split: list.split_asm if_split_asm)
  obtain w where w: "read_value n v = Some w" using "6.prems" r u v by (cases "read_value n v") simp_all
  obtain c y where y: "skip_ws w = c # y" using "6.prems" r u v w by (cases "skip_ws w") simp_all
  obtain p where p: "r = p @ dquote # u" "str_body p" using read_str_parts [OF u] by blast
  obtain x where x: "squeeze False v = x @ squeeze False w" "one_value x"
    using "6.IH"(1) [OF r _ u v _ w] by auto
  let ?m = "dquote # p @ dquote # CHR '':'' # x"
  have m: "member ?m" using p x by (auto simp: member_def)
  have "squeeze False s = squeeze False (dquote # p @ dquote # u)" using skip_ws_Cons [OF r] p by simp
  also have "\<dots> = (dquote # p @ [dquote]) @ squeeze False u" using squeeze_quoted [OF p(2)] by simp
  also have "squeeze False u = CHR '':'' # x @ squeeze False w" using skip_ws_Cons [OF v] x by simp
  finally have sq: "squeeze False s = ?m @ squeeze False (c # y)" using skip_ws_Cons [OF y] by simp
  consider "c = CHR '',''" "read_members n y = Some t" | "c = CHR ''}''" "y = t"
    using "6.prems" by (auto simp: r u v w y split: if_split_asm)
  then show ?case
  proof cases
    case 1
    then obtain ms where "ms \<noteq> []" "squeeze False y = join '','' ms @ CHR ''}'' # squeeze False t" "\<forall>x \<in> set ms. member x"
      using "6.IH"(2) [OF r _ u v _ w y] by auto
    then show ?thesis using sq 1 m by (intro exI [of _ "?m # ms"]) (cases ms; simp)
  next
    case 2
    then show ?thesis using sq m by (intro exI [of _ "[?m]"]) simp
  qed
qed simp_all

lemma squeeze_Valid_closed: "json_Valid s \<Longrightarrow> one_value (squeeze False s)"
proof -
  assume "json_Valid s"
  then obtain t where t: "read_value (Suc (length s)) s = Some t" "skip_ws t = []"
    by (auto simp: json_Valid_def split: option.split_asm)
  then obtain u where "squeeze False s = u @ squeeze False t" "one_value u" using squeeze_value(1) by blast
  moreover have "squeeze False t = []" using squeeze_skip [of t] t(2) by simp
  ultimately show ?thesis by simp
qed

lemma closed_raw_message: "raw_message scan_error s = Inr t \<Longrightarrow> one_value t"
  by (auto simp: raw_message_def squeeze_Valid_closed split: if_split_asm)

lemma raw_message_closed: "one_value t \<Longrightarrow> raw_message scan_error t = Inr t"
  by (simp add: raw_message_def closed_Valid)

subsection \<open>What the encoders write is a value\<close>

definition int_text :: "string \<Rightarrow> bool" where
  "int_text s \<longleftrightarrow> s = ''0'' \<or> s \<noteq> [] \<and> list_all is_digit s \<and> hd s \<noteq> CHR ''0''"

definition digits_text :: "string \<Rightarrow> bool" where
  "digits_text s \<longleftrightarrow> s \<noteq> [] \<and> list_all is_digit s"

lemma read_digits_text: "digits_text p \<Longrightarrow> stop is_digit r \<Longrightarrow> read_digits (p @ r) = Some r"
proof -
  assume p: "digits_text p" and r: "stop is_digit r"
  have "dropWhile is_digit r = r" using r by (cases r) simp_all
  then show ?thesis using p by (cases p) (simp_all add: digits_text_def read_digits_def list_all_iff dropWhile_append2)
qed

lemma read_int_text: "int_text p \<Longrightarrow> stop is_digit r \<Longrightarrow> read_int (p @ r) = Some r"
  using read_digits_text [of p r] by (cases p) (auto simp: int_text_def digits_text_def read_int_def)

lemma number_form:
  assumes "int_text i" "f = [] \<or> (\<exists>d. f = CHR ''.'' # d \<and> digits_text d)"
    "x = [] \<or> (\<exists>sg d. x = CHR ''e'' # sg @ d \<and> sg \<in> {''+'', ''-''} \<and> digits_text d)"
  shows "isValidNumber (sign_text neg @ i @ f @ x)"
proof -
  have nd: "\<not> is_digit CHR ''.''" "\<not> is_digit CHR ''e''" by code_simp+
  have st: "stop is_digit x" using assms(3) nd by auto
  have i: "read_int (i @ f @ x) = Some (f @ x)" using assms(2) nd st by (intro read_int_text [OF assms(1)]) auto
  have f: "read_frac (f @ x) = Some x" using assms(2)
  proof
    assume "f = []"
    then show ?thesis using assms(3) by (auto simp: read_frac_def)
  next
    assume "\<exists>d. f = CHR ''.'' # d \<and> digits_text d"
    then obtain d where "f = CHR ''.'' # d" "digits_text d" by blast
    then show ?thesis using read_digits_text [OF _ st] by (simp add: read_frac_def)
  qed
  have x: "read_exp x = Some []" using assms(3) read_digits_text [of _ "[]"] by (auto simp: read_exp_def)
  obtain a q where a: "i = a # q" "is_digit a" using assms(1) by (cases i) (auto simp: int_text_def is_digit_def)
  have "(case sign_text neg @ i @ f @ x of c # t \<Rightarrow> if c = CHR ''-'' then t else sign_text neg @ i @ f @ x | [] \<Rightarrow> sign_text neg @ i @ f @ x) = i @ f @ x"
    using a digit_facts [of a] by (simp add: sign_text_def)
  then show ?thesis unfolding isValidNumber_def read_number_def by (simp only: i f x Option.bind.simps)
qed

lemma digit_char_digits: "d < 10 \<Longrightarrow> is_digit (digit_char d) \<and> (digit_char d = CHR ''0'' \<longrightarrow> d = 0)"
proof -
  assume "d < 10"
  then have "d = 0 \<or> d = 1 \<or> d = 2 \<or> d = 3 \<or> d = 4 \<or> d = 5 \<or> d = 6 \<or> d = 7 \<or> d = 8 \<or> d = 9" by presburger
  then show ?thesis by (elim disjE; hypsubst; code_simp)
qed

lemma show_nat_json: "digits_text (show_nat n) \<and> (n \<noteq> 0 \<longrightarrow> hd (show_nat n) \<noteq> CHR ''0'')"
proof (induction n rule: show_nat.induct)
  case (1 n)
  show ?case
  proof (cases "n < 10")
    case True
    then show ?thesis using digit_char_digits [of n] by (auto simp: show_nat.simps [of n] digits_text_def)
  next
    case False
    moreover have "n div 10 \<noteq> 0" using False by simp
    ultimately show ?thesis using 1 digit_char_digits [of "n mod 10"] by (auto simp: show_nat.simps [of n] digits_text_def)
  qed
qed

lemma show_nat_zero: "show_nat 0 = ''0''" by code_simp

lemma int_text_show_nat: "int_text (show_nat n)"
  using show_nat_json [of n] show_nat_zero by (cases "n = 0") (auto simp: int_text_def digits_text_def)

lemma show_int_number: "isValidNumber (show_int n)"
  using number_form [OF int_text_show_nat [of "nat (abs n)"], of "[]" "[]" "n < 0"]
  by (cases "n < 0") (simp_all add: show_int_def sign_text_def)

text \<open>The digits of a finite float: no leading zero.\<close>

definition float_ok :: "string \<Rightarrow> bool" where
  "float_ok ds \<longleftrightarrow> list_all is_digit ds \<and> (ds \<noteq> [] \<longrightarrow> hd ds \<noteq> CHR ''0'')"

lemma float_f_number: "float_ok ds \<Longrightarrow> isValidNumber (sign_text neg @ float_f ds e)"
proof -
  assume ds: "float_ok ds"
  have z: "is_digit CHR ''0''" by code_simp
  have i0: "int_text ''0''" by (simp add: int_text_def)
  consider "ds = []" | "ds \<noteq> []" "e < 0" | "ds \<noteq> []" "\<not> e < 0" "nat e + 1 < length ds" | "ds \<noteq> []" "\<not> e < 0" "\<not> nat e + 1 < length ds" by blast
  then show ?thesis
  proof cases
    case 1
    then show ?thesis using number_form [OF i0, of "[]" "[]" neg] by (simp add: float_f_def)
  next
    case 2
    have "digits_text (replicate (nat (- e - 1)) CHR ''0'' @ ds)" using ds z 2 by (auto simp: digits_text_def float_ok_def list_all_iff)
    then show ?thesis using number_form [OF i0, of "CHR ''.'' # replicate (nat (- e - 1)) CHR ''0'' @ ds" "[]" neg] 2
      by (simp add: float_f_def)
  next
    case 3
    have "int_text (take (nat e + 1) ds)" using ds 3 by (auto simp: int_text_def float_ok_def list_all_iff dest: in_set_takeD)
    moreover have "digits_text (drop (nat e + 1) ds)" using ds 3 by (auto simp: digits_text_def float_ok_def list_all_iff dest: in_set_dropD)
    ultimately show ?thesis using number_form [of "take (nat e + 1) ds" "CHR ''.'' # drop (nat e + 1) ds" "[]" neg] 3
      by (simp add: float_f_def Let_def)
  next
    case 4
    have "int_text (ds @ replicate (nat e + 1 - length ds) CHR ''0'')" using ds z 4 by (auto simp: int_text_def float_ok_def list_all_iff)
    then show ?thesis using number_form [of "ds @ replicate (nat e + 1 - length ds) CHR ''0''" "[]" "[]" neg] 4
      by (simp add: float_f_def Let_def)
  qed
qed

lemma json_float_number: "float_ok ds \<Longrightarrow> isValidNumber (json_float neg ds e)"
proof (cases "ds \<noteq> [] \<and> (e < -6 \<or> 21 \<le> e)")
  case True
  assume ok: "float_ok ds"
  obtain d r where ds: "ds = d # r" using True by (cases ds) auto
  define sg where "sg = (if e < 0 then ''-'' else ''+'')"
  have i: "int_text [d]" using ok by (simp add: int_text_def float_ok_def ds)
  have f: "(if r = [] then [] else CHR ''.'' # r) = [] \<or> (\<exists>k. (if r = [] then [] else CHR ''.'' # r) = CHR ''.'' # k \<and> digits_text k)"
    using ok by (auto simp: float_ok_def ds digits_text_def)
  have x: "\<exists>s k. CHR ''e'' # sg @ show_nat (nat (abs e)) = CHR ''e'' # s @ k \<and> s \<in> {''+'', ''-''} \<and> digits_text k"
    by (rule exI [of _ sg], rule exI [of _ "show_nat (nat (abs e))"]) (simp add: sg_def show_nat_json)
  note number_form [OF i f disjI2 [OF x], of neg]
  then show ?thesis using True ds by (simp add: json_float_def float_e_def Let_def sg_def)
next
  case False
  assume "float_ok ds"
  then show ?thesis using False float_f_number by (auto simp: json_float_def)
qed

fun json_ok :: "json \<Rightarrow> bool" where
  "json_ok (JNumber t) \<longleftrightarrow> t = [] \<or> isValidNumber t"
| "json_ok (JArray xs) \<longleftrightarrow> list_all json_ok xs"
| "json_ok (JObject m) \<longleftrightarrow> list_all (\<lambda>(k, v). json_ok v) m"
| "json_ok _ \<longleftrightarrow> True"

lemma zero_number: "isValidNumber ''0''"
  using show_int_number [of 0] show_nat_zero by (simp add: show_int_def)

lemma member_raw: "one_value t \<Longrightarrow> member (raw_string k @ '':'' @ t)"
  using raw_string_body [of k] by (auto simp: member_def raw_string_def)

lemma closed_json_text: "json_ok j \<Longrightarrow> one_value (json_text j)"
proof (induction j rule: json_text.induct)
  case (3 t)
  then show ?case using closed_number zero_number by auto
next
  case (5 xs)
  then show ?case unfolding json_text.simps by (intro closed_array) (auto simp: list_all_iff)
next
  case (6 m)
  have "one_value v" if "(k, v) \<in> set (sort_key fst (map (\<lambda>(k, v). (k, json_text v)) m))" for k v
    using that 6 by (fastforce simp: list_all_iff)
  then have "member (raw_string k @ '':'' @ v)" if "(k, v) \<in> set (sort_key fst (map (\<lambda>(k, v). (k, json_text v)) m))" for k v
    using that by (intro member_raw) blast
  then show ?case unfolding json_text.simps by (intro closed_object) fastforce
qed (auto simp: closed_word closed_raw_string)

lemma b64_plain: "n < 64 \<Longrightarrow> 32 \<le> byte (b64_char n) \<and> b64_char n \<noteq> dquote \<and> b64_char n \<noteq> bslash"
proof -
  assume n: "n < 64"
  have "byte (b64_char n) \<notin> {34, 92} \<and> 32 \<le> byte (b64_char n)" using n
    by (auto simp: b64_char_def byte_def)
  moreover have "byte dquote = 34" "byte bslash = 92" by code_simp+
  ultimately show ?thesis by auto
qed

lemma base64_body: "str_body (base64_encode s)"
proof -
  have b: "byte c < 256" for c by (simp add: byte_def)
  have q: "byte c div 4 < 64" "byte c mod 64 < 64" "byte c mod 4 * 16 < 64" "byte c mod 16 * 4 < 64" for c using b [of c] by auto
  have m: "byte a mod 4 * 16 + byte c div 16 < 64" "byte a mod 16 * 4 + byte c div 64 < 64" for a c using b [of c] by (auto simp: less_mult_imp_div_less)
  have "32 \<le> byte c \<and> c \<noteq> dquote \<and> c \<noteq> bslash" if "c \<in> set (base64_encode s)" for c
    using that
  proof (induction s rule: base64_encode.induct)
    case (2 a)
    then show ?case using b64_plain q by (auto simp: byte_def)
  next
    case (3 a b)
    then show ?case using b64_plain q m by (auto simp: byte_def)
  next
    case (4 a b c s)
    then show ?case using b64_plain q m by auto
  qed simp
  then show ?thesis by (rule str_body_plain)
qed

end
