(* ===== verification/Authz.thy ===== *)
theory Authz
  imports Cond_Semantics
begin

section \<open>Package authz: privileges and row level security\<close>

text \<open>
  \<open>src/authz/authz.go\<close>. The registry's two Go maps are HOL maps; a \<open>map[string]bool\<close> used as a set
  is a set. A claim is a decoded JSON value: \<open>JNumber\<close> holds the text that
  \<open>strconv.FormatFloat(x, 'f', -1, 64)\<close> gives for the \<open>float64\<close>, and \<open>sprint\<close> is \<open>fmt.Sprint\<close> on
  it. \<open>Authorize\<close> returns \<open>None\<close> where the code dereferences a nil \<open>Write\<close> and panics,
  \<open>Some (Inl e)\<close> where it rejects the request, and \<open>Some (Inr q)\<close> with the query it leaves.
\<close>

datatype action = Select | Insert | Update | Delete

record grant =
  g_role :: string
  g_relation :: string
  g_action :: action
  g_columns :: "string list"

datatype pol_op = OpEq | OpNeq

text \<open>The literals \<open>parseTerm\<close> makes: a string, a boolean, or a \<open>json.Number\<close>.\<close>

datatype literal = LString string | LBool bool | LNumber string

record pol_term =
  t_column :: string
  t_op :: pol_op
  t_claim :: string
  t_literal :: literal

type_synonym predicate = "pol_term list"

record policy =
  p_relation :: string
  p_role :: string
  p_using :: predicate
  p_with_check :: predicate

record col_set =
  cs_all :: bool
  cs_cols :: "string set"

type_synonym grant_key = "string \<times> string \<times> action"

record registry =
  r_grants :: "grant_key \<rightharpoonup> col_set"
  r_policies :: "string \<times> string \<rightharpoonup> policy"

text \<open>The fields of \<open>reqctx.Context\<close> the gate reads.\<close>

record req_context =
  rc_role :: string
  rc_anonymous :: bool
  rc_claims :: "json go_map"

subsection \<open>Building the registry\<close>

definition grant_step :: "grant \<Rightarrow> (grant_key \<rightharpoonup> col_set) \<Rightarrow> (grant_key \<rightharpoonup> col_set)" where
  "grant_step g m =
     (let k = (g_role g, g_relation g, g_action g);
          cur = (case m k of Some c \<Rightarrow> c | None \<Rightarrow> \<lparr>cs_all = False, cs_cols = {}\<rparr>)
      in m(k \<mapsto> \<lparr>cs_all = cs_all cur \<or> g_columns g = [], cs_cols = cs_cols cur \<union> set (g_columns g)\<rparr>))"

definition policy_step :: "policy \<Rightarrow> (string \<times> string \<rightharpoonup> policy) \<Rightarrow> (string \<times> string \<rightharpoonup> policy)" where
  "policy_step p m =
     (let k = (p_role p, p_relation p) in
      case m k of
        Some cur \<Rightarrow> m(k \<mapsto> cur\<lparr>p_using := p_using cur @ p_using p, p_with_check := p_with_check cur @ p_with_check p\<rparr>)
      | None \<Rightarrow> m(k \<mapsto> p))"

definition NewRegistry :: "grant list \<Rightarrow> policy list \<Rightarrow> registry" where
  "NewRegistry grants policies =
     \<lparr>r_grants = fold grant_step grants Map.empty, r_policies = fold policy_step policies Map.empty\<rparr>"

subsection \<open>Claims and values as text\<close>

text \<open>
  \<open>%v\<close> of a \<open>float64\<close> from its \<open>'f'\<close> rendering: the two agree unless the decimal exponent is below -4
  or at least 21, where \<open>%v\<close> switches to the exponent form.
\<close>

definition drop_zeros :: "string \<Rightarrow> string" where
  "drop_zeros s = dropWhile (\<lambda>c. c = CHR ''0'') s"

definition trim_zeros :: "string \<Rightarrow> string" where
  "trim_zeros s = rev (drop_zeros (rev s))"

definition exponent_form :: "string \<Rightarrow> int \<Rightarrow> string" where
  "exponent_form digits e =
     (let mant = (case digits of d # [] \<Rightarrow> [d] | d # ds \<Rightarrow> d # CHR ''.'' # ds | [] \<Rightarrow> []);
          ex = show_nat (nat (abs e)) in
      mant @ CHR ''e'' # (if e < 0 then CHR ''-'' else CHR ''+'') #
      (if length ex < 2 then CHR ''0'' # ex else ex))"

definition sprint_number :: "string \<Rightarrow> string" where
  "sprint_number t =
     (let neg = has_prefix t ''-''; u = (if neg then tl t else t);
          whole = takeWhile (\<lambda>c. c \<noteq> CHR ''.'') u; frac = drop (length whole + 1) u;
          digits = trim_zeros (drop_zeros (whole @ frac));
          e = (if whole \<noteq> ''0'' then int (length whole) - 1
               else - (int (length frac - length (drop_zeros frac)) + 1))
      in if digits = [] \<or> (- 4 \<le> e \<and> e < 21) then t
         else (if neg then ''-'' else []) @ exponent_form digits e)"

fun sprint :: "json \<Rightarrow> string" where
  "sprint JNull = ''<nil>''"
| "sprint (JBool b) = (if b then ''true'' else ''false'')"
| "sprint (JNumber t) = sprint_number t"
| "sprint (JString s) = s"
| "sprint (JArray js) = ''['' @ join '' '' (map sprint js) @ '']''"
| "sprint (JObject m) =
     ''map['' @ join '' '' (map (\<lambda>(k, s). k @ '':'' @ s) (sort_key fst (map (\<lambda>(k, j). (k, sprint j)) m))) @ '']''"

definition scalarString :: "json \<Rightarrow> string" where
  "scalarString v =
     (case v of JString s \<Rightarrow> s | JNumber t \<Rightarrow> t | JBool b \<Rightarrow> (if b then ''true'' else ''false'')
      | JNull \<Rightarrow> [] | _ \<Rightarrow> sprint v)"

definition valueToString :: "ir_value \<Rightarrow> string" where
  "valueToString v = (if v_json v \<noteq> JNull then scalarString (v_json v) else v_text v)"

definition literal_string :: "literal \<Rightarrow> string" where
  "literal_string l =
     (case l of LString s \<Rightarrow> s | LBool b \<Rightarrow> (if b then ''true'' else ''false'') | LNumber t \<Rightarrow> t)"

fun claim_walk :: "json \<Rightarrow> string list \<Rightarrow> json option" where
  "claim_walk cur [] = Some cur"
| "claim_walk cur (seg # segs) =
     (case cur of
        JObject m \<Rightarrow> (case aget m seg of None \<Rightarrow> None | Some v \<Rightarrow> claim_walk v segs)
      | _ \<Rightarrow> None)"

definition lookupClaim :: "json go_map \<Rightarrow> string \<Rightarrow> json option" where
  "lookupClaim claims path = claim_walk (JObject claims) (split_byte CHR ''.'' path)"

definition resolveRHS :: "pol_term \<Rightarrow> json go_map \<Rightarrow> string option" where
  "resolveRHS t claims =
     (if t_claim t = [] then Some (literal_string (t_literal t))
      else map_option scalarString (lookupClaim claims (t_claim t)))"

subsection \<open>Policies\<close>

definition policy_compare :: "string \<Rightarrow> filter_op \<Rightarrow> ir_value \<Rightarrow> compare" where
  "policy_compare col op v = \<lparr>cmp_path = [col], cmp_last = JSONNone, cmp_op = op, cmp_value = v,
     cmp_quant = QNone, cmp_negate = False, cmp_fts = FTSPlain, cmp_config = [],
     cmp_full_text = None, cmp_column_type = []\<rparr>"

definition usingCond :: "json go_map \<Rightarrow> pol_term \<Rightarrow> cond" where
  "usingCond claims t =
     (case resolveRHS t claims of
        None \<Rightarrow> CCompare (policy_compare (t_column t) OpIn (list_value []))
      | Some rhs \<Rightarrow>
          CCompare (policy_compare (t_column t)
            (if t_op t = OpNeq then filter_op.OpNeq else filter_op.OpEq) (text_value rhs)))"

definition usingConds :: "predicate \<Rightarrow> json go_map \<Rightarrow> cond list" where
  "usingConds p claims = map (usingCond claims) p"

definition injectWhere :: "query \<Rightarrow> cond list \<Rightarrow> query" where
  "injectWhere q conds =
     (if conds = [] then q
      else upd_base (\<lambda>b. b\<lparr>q_where := Some (CAnd ((case q_where b of None \<Rightarrow> [] | Some w \<Rightarrow> [w]) @ conds))\<rparr>) q)"

fun evalPredicate :: "predicate \<Rightarrow> json go_map \<Rightarrow> (string \<Rightarrow> string option) \<Rightarrow> bool \<Rightarrow> bool" where
  "evalPredicate [] claims val skipAbsent = True"
| "evalPredicate (t # ts) claims val skipAbsent =
     (case val (t_column t) of
        None \<Rightarrow> if skipAbsent then evalPredicate ts claims val skipAbsent else False
      | Some cv \<Rightarrow>
          (case resolveRHS t claims of
             None \<Rightarrow> False
           | Some rhs \<Rightarrow>
               if (case t_op t of OpEq \<Rightarrow> cv \<noteq> rhs | OpNeq \<Rightarrow> cv = rhs) then False
               else evalPredicate ts claims val skipAbsent))"

definition rowLookup :: "ir_value go_map \<Rightarrow> string \<Rightarrow> string option" where
  "rowLookup row col = map_option valueToString (aget row col)"

subsection \<open>The gate\<close>

definition actionsFor :: "query_kind \<Rightarrow> action list" where
  "actionsFor k =
     (case k of Read \<Rightarrow> [Select] | query_kind.Insert \<Rightarrow> [Insert] | query_kind.Update \<Rightarrow> [Update]
      | query_kind.Delete \<Rightarrow> [Delete] | Upsert \<Rightarrow> [Insert, Update])"

definition writeColumnActions :: "query_kind \<Rightarrow> action list" where
  "writeColumnActions k =
     (case k of query_kind.Insert \<Rightarrow> [Insert] | query_kind.Update \<Rightarrow> [Update]
      | Upsert \<Rightarrow> [Insert, Update] | _ \<Rightarrow> [])"

definition baseColumn :: "ir_column \<Rightarrow> string" where
  "baseColumn c = (case c_path c of [] \<Rightarrow> [] | p # _ \<Rightarrow> p)"

definition isStar :: "ir_column \<Rightarrow> bool" where
  "isStar c \<longleftrightarrow> c_path c = [''*''] \<and> c_cast c = [] \<and> c_last c = JSONNone"

text \<open>A gate returns the error it rejects the request with, or \<open>None\<close> (nil).\<close>

definition select_denied :: "string set \<Rightarrow> select_item \<Rightarrow> bool" where
  "select_denied cols it =
     (case it of SColumn c \<Rightarrow> isStar c \<or> baseColumn c \<notin> cols | _ \<Rightarrow> False)"

definition gateSelect :: "registry \<Rightarrow> string \<Rightarrow> string \<Rightarrow> query_base \<Rightarrow> bool \<Rightarrow> api_error option" where
  "gateSelect r role rel b anon =
     (case r_grants r (role, rel, Select) of
        None \<Rightarrow> Some (ErrPermissionDenied rel anon)
      | Some g \<Rightarrow>
          if cs_all g then None
          else if q_select b = [] then Some (ErrPermissionDenied rel anon)
          else if list_ex (select_denied (cs_cols g)) (q_select b) then Some (ErrPermissionDenied rel anon)
          else None)"

definition gateWriteColumns ::
  "registry \<Rightarrow> string \<Rightarrow> string \<Rightarrow> write_spec \<Rightarrow> action \<Rightarrow> bool \<Rightarrow> api_error option" where
  "gateWriteColumns r role rel w a anon =
     (case r_grants r (role, rel, a) of
        None \<Rightarrow> Some (ErrPermissionDenied rel anon)
      | Some g \<Rightarrow>
          if cs_all g then None
          else if list_ex (\<lambda>c. c \<notin> cs_cols g) (w_columns w) then Some (ErrPermissionDenied rel anon)
          else if list_ex (\<lambda>k. k \<notin> cs_cols g) (keys_of (w_set w)) then Some (ErrPermissionDenied rel anon)
          else None)"

fun first_error :: "('a \<Rightarrow> 'e option) \<Rightarrow> 'a list \<Rightarrow> 'e option" where
  "first_error f [] = None"
| "first_error f (x # xs) = (case f x of None \<Rightarrow> first_error f xs | e \<Rightarrow> e)"

definition gate_actions :: "registry \<Rightarrow> req_context \<Rightarrow> query_base \<Rightarrow> api_error option" where
  "gate_actions r rc b =
     first_error (\<lambda>a. if r_grants r (rc_role rc, ref_name (q_relation b), a) = None
                       then Some (ErrPermissionDenied (ref_name (q_relation b)) (rc_anonymous rc)) else None)
       (actionsFor (q_kind b))"

definition gate_projection :: "registry \<Rightarrow> req_context \<Rightarrow> query_base \<Rightarrow> api_error option" where
  "gate_projection r rc b =
     (if q_kind b = Read \<or> (case q_write b of None \<Rightarrow> False | Some w \<Rightarrow> w_return w = ReturnRepresentation)
      then gateSelect r (rc_role rc) (ref_name (q_relation b)) b (rc_anonymous rc) else None)"

definition gate_payload :: "registry \<Rightarrow> req_context \<Rightarrow> query_base \<Rightarrow> api_error option" where
  "gate_payload r rc b =
     (case q_write b of
        None \<Rightarrow> None
      | Some w \<Rightarrow>
          first_error (\<lambda>a. gateWriteColumns r (rc_role rc) (ref_name (q_relation b)) w a (rc_anonymous rc))
            (writeColumnActions (q_kind b)))"

text \<open>The WITH CHECK switch; \<open>None\<close> is the nil dereference of \<open>q.Write\<close>.\<close>

definition check_rows :: "policy \<Rightarrow> req_context \<Rightarrow> query_base \<Rightarrow> bool option" where
  "check_rows pol rc b =
     (case q_kind b of
        query_kind.Update \<Rightarrow>
          map_option (\<lambda>w. evalPredicate (p_with_check pol) (rc_claims rc) (rowLookup (w_set w)) True) (q_write b)
      | Read \<Rightarrow> Some True
      | query_kind.Delete \<Rightarrow> Some True
      | _ \<Rightarrow>
          map_option (\<lambda>w. list_all (\<lambda>row. evalPredicate (p_with_check pol) (rc_claims rc) (rowLookup row) False) (w_rows w))
            (q_write b))"

definition inject_policy :: "policy \<Rightarrow> req_context \<Rightarrow> query \<Rightarrow> query" where
  "inject_policy pol rc q =
     (if q_kind (base q) = query_kind.Insert then q
      else injectWhere q (usingConds (p_using pol) (rc_claims rc)))"

definition Authorize :: "registry \<Rightarrow> req_context \<Rightarrow> query \<Rightarrow> (api_error + query) option" where
  "Authorize r rc q =
     (let b = base q; rel = ref_name (q_relation b) in
      case gate_actions r rc b of Some e \<Rightarrow> Some (Inl e) | None \<Rightarrow>
      (case gate_projection r rc b of Some e \<Rightarrow> Some (Inl e) | None \<Rightarrow>
      (case gate_payload r rc b of Some e \<Rightarrow> Some (Inl e) | None \<Rightarrow>
      (case r_policies r (rc_role rc, rel) of
         None \<Rightarrow> Some (Inr q)
       | Some pol \<Rightarrow>
           (case check_rows pol rc b of
              None \<Rightarrow> None
            | Some ok \<Rightarrow> Some (if ok then Inr (inject_policy pol rc q) else Inl (ErrRLSViolation rel)))))))"

text \<open>A plan whose \<open>Query\<close> is nil (an RPC call) passes through.\<close>

definition AuthorizePlan :: "registry \<Rightarrow> req_context \<Rightarrow> query option \<Rightarrow> (api_error + query option) option" where
  "AuthorizePlan r rc pq =
     (case pq of
        None \<Rightarrow> Some (Inr None)
      | Some q \<Rightarrow> map_option (map_sum id Some) (Authorize r rc q))"

subsection \<open>What a registry holds\<close>

text \<open>
  The declarative reading of a list of grants: the columns a role may use for an action on a
  relation, and the terms of the policies that apply to it.
\<close>

definition grant_for :: "grant_key \<Rightarrow> grant \<Rightarrow> bool" where
  "grant_for k g \<longleftrightarrow> (g_role g, g_relation g, g_action g) = k"

definition policy_for :: "string \<times> string \<Rightarrow> policy \<Rightarrow> bool" where
  "policy_for k p \<longleftrightarrow> (p_role p, p_relation p) = k"

definition may_use :: "grant list \<Rightarrow> grant_key \<Rightarrow> string \<Rightarrow> bool" where
  "may_use gs k c \<longleftrightarrow> (\<exists>g \<in> set gs. grant_for k g \<and> (g_columns g = [] \<or> c \<in> set (g_columns g)))"

definition merged_columns :: "grant_key \<Rightarrow> grant list \<Rightarrow> col_set option \<Rightarrow> col_set option" where
  "merged_columns k gs old =
     (if old = None \<and> \<not> list_ex (grant_for k) gs then None
      else Some \<lparr>cs_all = (case old of None \<Rightarrow> False | Some c \<Rightarrow> cs_all c) \<or>
                   (\<exists>g \<in> set gs. grant_for k g \<and> g_columns g = []),
                 cs_cols = (case old of None \<Rightarrow> {} | Some c \<Rightarrow> cs_cols c) \<union>
                   (\<Union>g \<in> {g \<in> set gs. grant_for k g}. set (g_columns g))\<rparr>)"

lemma fold_grants: "fold grant_step gs m k = merged_columns k gs (m k)"
proof (induction gs arbitrary: m)
  case Nil
  show ?case by (cases "m k") (auto simp: merged_columns_def)
next
  case (Cons g gs)
  show ?case
  proof (cases "grant_for k g")
    case True
    then have k: "(g_role g, g_relation g, g_action g) = k" by (simp add: grant_for_def)
    have step: "grant_step g m k = Some \<lparr>cs_all = (case m k of None \<Rightarrow> False | Some c \<Rightarrow> cs_all c) \<or> g_columns g = [],
        cs_cols = (case m k of None \<Rightarrow> {} | Some c \<Rightarrow> cs_cols c) \<union> set (g_columns g)\<rparr>"
      by (cases "m k") (simp_all add: grant_step_def k Let_def)
    have set: "{x \<in> set (g # gs). grant_for k x} = insert g {x \<in> set gs. grant_for k x}" using True by auto
    show ?thesis
      using True by (auto simp: Cons step merged_columns_def set)
  next
    case False
    then have "grant_step g m k = m k" by (auto simp: grant_step_def grant_for_def Let_def)
    moreover have "{x \<in> set (g # gs). grant_for k x} = {x \<in> set gs. grant_for k x}" using False by auto
    ultimately show ?thesis using False by (auto simp: Cons merged_columns_def)
  qed
qed

lemma registry_grants:
  "r_grants (NewRegistry gs ps) k =
     (if list_ex (grant_for k) gs
      then Some \<lparr>cs_all = (\<exists>g \<in> set gs. grant_for k g \<and> g_columns g = []),
                 cs_cols = (\<Union>g \<in> {g \<in> set gs. grant_for k g}. set (g_columns g))\<rparr>
      else None)"
  by (simp add: NewRegistry_def fold_grants merged_columns_def)

lemma registry_may_use:
  "r_grants (NewRegistry gs ps) k = Some g \<Longrightarrow> cs_all g \<or> c \<in> cs_cols g \<longleftrightarrow> may_use gs k c"
  by (auto simp: registry_grants may_use_def split: if_split_asm)

definition terms_for :: "(policy \<Rightarrow> predicate) \<Rightarrow> string \<times> string \<Rightarrow> policy list \<Rightarrow> predicate" where
  "terms_for sel k ps = concat (map sel (filter (policy_for k) ps))"

definition policy_terms :: "registry \<Rightarrow> (policy \<Rightarrow> predicate) \<Rightarrow> string \<times> string \<Rightarrow> predicate" where
  "policy_terms r sel k = (case r_policies r k of None \<Rightarrow> [] | Some p \<Rightarrow> sel p)"

lemma fold_policies:
  assumes "sel = p_using \<or> sel = p_with_check"
  shows "(case fold policy_step ps m k of None \<Rightarrow> [] | Some p \<Rightarrow> sel p) =
     (case m k of None \<Rightarrow> [] | Some p \<Rightarrow> sel p) @ terms_for sel k ps"
proof (induction ps arbitrary: m)
  case (Cons p ps)
  have "(case policy_step p m k of None \<Rightarrow> [] | Some p \<Rightarrow> sel p) =
      (case m k of None \<Rightarrow> [] | Some p \<Rightarrow> sel p) @ (if policy_for k p then sel p else [])"
    using assms by (auto simp: policy_step_def policy_for_def Let_def split: option.splits)
  then show ?case by (simp add: Cons terms_for_def)
qed (simp add: terms_for_def)

lemma registry_terms:
  "policy_terms (NewRegistry gs ps) p_using k = terms_for p_using k ps"
  "policy_terms (NewRegistry gs ps) p_with_check k = terms_for p_with_check k ps"
  using fold_policies [of p_using ps Map.empty k] fold_policies [of p_with_check ps Map.empty k]
  by (simp_all add: policy_terms_def NewRegistry_def)

lemma fold_policies_None: "fold policy_step ps m k = None \<longleftrightarrow> m k = None \<and> \<not> list_ex (policy_for k) ps"
proof (induction ps arbitrary: m)
  case (Cons p ps)
  have "policy_step p m k = None \<longleftrightarrow> m k = None \<and> \<not> policy_for k p"
    by (auto simp: policy_step_def policy_for_def Let_def split: option.splits)
  then show ?case by (auto simp: Cons)
qed simp

subsection \<open>The gate as a whole\<close>

lemma first_error_None: "first_error f xs = None \<longleftrightarrow> (\<forall>x \<in> set xs. f x = None)"
  by (induction xs) (auto split: option.splits)

lemma first_error_Some: "first_error f xs = Some e \<Longrightarrow> \<exists>x \<in> set xs. f x = Some e"
  by (induction xs) (auto split: option.splits)

definition gates_pass :: "registry \<Rightarrow> req_context \<Rightarrow> query_base \<Rightarrow> bool" where
  "gates_pass r rc b \<longleftrightarrow> gate_actions r rc b = None \<and> gate_projection r rc b = None \<and> gate_payload r rc b = None"

lemma Authorize_pass:
  "gates_pass r rc (base q) \<Longrightarrow> Authorize r rc q =
     (case r_policies r (rc_role rc, ref_name (q_relation (base q))) of
        None \<Rightarrow> Some (Inr q)
      | Some pol \<Rightarrow>
          (case check_rows pol rc (base q) of
             None \<Rightarrow> None
           | Some ok \<Rightarrow> Some (if ok then Inr (inject_policy pol rc q)
                                else Inl (ErrRLSViolation (ref_name (q_relation (base q)))))))"
  by (simp add: Authorize_def gates_pass_def Let_def)

lemma gate_errors:
  "gate_actions r rc b = Some e \<Longrightarrow> e = ErrPermissionDenied (ref_name (q_relation b)) (rc_anonymous rc)"
  "gate_projection r rc b = Some e \<Longrightarrow> e = ErrPermissionDenied (ref_name (q_relation b)) (rc_anonymous rc)"
  "gate_payload r rc b = Some e \<Longrightarrow> e = ErrPermissionDenied (ref_name (q_relation b)) (rc_anonymous rc)"
  by (auto simp: gate_actions_def gate_projection_def gate_payload_def gateSelect_def gateWriteColumns_def
      dest!: first_error_Some split: if_split_asm option.split_asm)

lemma Authorize_fail:
  "\<not> gates_pass r rc (base q) \<Longrightarrow>
   Authorize r rc q = Some (Inl (ErrPermissionDenied (ref_name (q_relation (base q))) (rc_anonymous rc)))"
  by (auto simp: Authorize_def gates_pass_def Let_def dest: gate_errors split: option.splits)

lemma Authorize_InrD:
  "Authorize r rc q = Some (Inr q') \<Longrightarrow> gates_pass r rc (base q)"
  using Authorize_fail [of r rc q] by fastforce

lemma Authorize_result:
  assumes "Authorize r rc q = Some (Inr q')"
  shows "(r_policies r (rc_role rc, ref_name (q_relation (base q))) = None \<and> q' = q) \<or>
    (\<exists>pol. r_policies r (rc_role rc, ref_name (q_relation (base q))) = Some pol \<and>
       check_rows pol rc (base q) = Some True \<and> q' = inject_policy pol rc q)"
  using assms Authorize_pass [OF Authorize_InrD [OF assms]]
  by (auto split: option.split_asm if_split_asm)

text \<open>The query an authorized request leaves: the relation, the projection and the payload are the client's.\<close>

lemma inject_where:
  assumes "Authorize r rc q = Some (Inr q')" and "q_kind (base q) \<noteq> query_kind.Insert"
  shows "q' = injectWhere q (usingConds (policy_terms r p_using (rc_role rc, ref_name (q_relation (base q)))) (rc_claims rc))"
  using Authorize_result [OF assms(1)] assms(2)
  by (auto simp: policy_terms_def inject_policy_def usingConds_def injectWhere_def)

lemma with_check_holds:
  assumes "Authorize r rc q = Some (Inr q')" and "q_kind (base q) \<in> {query_kind.Insert, Upsert}"
    and "q_write (base q) = Some w" and "row \<in> set (w_rows w)"
  shows "evalPredicate (policy_terms r p_with_check (rc_role rc, ref_name (q_relation (base q))))
           (rc_claims rc) (rowLookup row) False"
  using Authorize_result [OF assms(1)] assms(2-)
  by (auto simp: policy_terms_def check_rows_def list_all_iff)

lemma Authorize_no_panic:
  assumes "q_kind (base q) \<in> {Read, query_kind.Delete} \<or> q_write (base q) \<noteq> None"
  shows "Authorize r rc q \<noteq> None"
proof (cases "gates_pass r rc (base q)")
  case True
  have no: "check_rows pol rc (base q) \<noteq> None" for pol
    using assms by (auto simp: check_rows_def split: query_kind.splits)
  show ?thesis
  proof (cases "r_policies r (rc_role rc, ref_name (q_relation (base q)))")
    case (Some pol)
    with no [of pol] show ?thesis by (cases "check_rows pol rc (base q)") (simp_all add: Authorize_pass [OF True])
  qed (simp add: Authorize_pass [OF True])
next
  case False
  then show ?thesis by (simp add: Authorize_fail)
qed

subsection \<open>Columns a passed gate admits\<close>

lemma actions_granted:
  "gates_pass r rc b \<Longrightarrow> a \<in> set (actionsFor (q_kind b)) \<Longrightarrow>
   r_grants r (rc_role rc, ref_name (q_relation b), a) \<noteq> None"
  by (auto simp: gates_pass_def gate_actions_def first_error_None split: if_split_asm)

lemma projection_granted:
  assumes "gates_pass r rc b"
    and "q_kind b = Read \<or> (\<exists>w. q_write b = Some w \<and> w_return w = ReturnRepresentation)"
  obtains g where "r_grants r (rc_role rc, ref_name (q_relation b), Select) = Some g"
    and "cs_all g \<or> q_select b \<noteq> [] \<and> (\<forall>c. SColumn c \<in> set (q_select b) \<longrightarrow> \<not> isStar c \<and> baseColumn c \<in> cs_cols g)"
proof -
  from assms have gate: "gateSelect r (rc_role rc) (ref_name (q_relation b)) b (rc_anonymous rc) = None"
    by (auto simp: gates_pass_def gate_projection_def)
  then obtain g where g: "r_grants r (rc_role rc, ref_name (q_relation b), Select) = Some g"
    by (auto simp: gateSelect_def split: option.split_asm)
  moreover have "\<not> isStar c \<and> baseColumn c \<in> cs_cols g" if "SColumn c \<in> set (q_select b)" "\<not> cs_all g" for c
  proof -
    from gate g that(2) have "\<not> list_ex (select_denied (cs_cols g)) (q_select b)"
      by (auto simp: gateSelect_def split: if_split_asm)
    then have "\<not> select_denied (cs_cols g) (SColumn c)" using that(1) by (auto simp: list_ex_iff)
    then show ?thesis by (simp add: select_denied_def)
  qed
  moreover have "cs_all g \<or> q_select b \<noteq> []" using gate g by (auto simp: gateSelect_def split: if_split_asm)
  ultimately show thesis using that by blast
qed

lemma payload_granted:
  assumes "gates_pass r rc b" and "q_write b = Some w" and "a \<in> set (writeColumnActions (q_kind b))"
  obtains g where "r_grants r (rc_role rc, ref_name (q_relation b), a) = Some g"
    and "cs_all g \<or> set (w_columns w) \<union> fst ` set (w_set w) \<subseteq> cs_cols g"
proof -
  from assms have gate: "gateWriteColumns r (rc_role rc) (ref_name (q_relation b)) w a (rc_anonymous rc) = None"
    by (auto simp: gates_pass_def gate_payload_def first_error_None)
  then show thesis
    using that by (auto simp: gateWriteColumns_def list_ex_iff split: option.split_asm if_split_asm)
qed

subsection \<open>Row level security\<close>

text \<open>What a policy term demands of a row: its column is not NULL, its right-hand side resolves, and they compare.\<close>

definition term_holds :: "json go_map \<Rightarrow> row \<Rightarrow> pol_term \<Rightarrow> bool" where
  "term_holds claims row t =
     (case (row (t_column t), resolveRHS t claims) of
        (Some v, Some rhs) \<Rightarrow> (case t_op t of OpEq \<Rightarrow> v = rhs | OpNeq \<Rightarrow> v \<noteq> rhs)
      | _ \<Rightarrow> False)"

lemma usingCond_sound: "cond3 en row (usingCond claims t) = Some True \<longleftrightarrow> term_holds claims row t"
  by (cases "t_op t"; cases "resolveRHS t claims"; cases "row (t_column t)")
    (simp_all add: usingCond_def term_holds_def compare3_def policy_compare_def Let_def text_value_def list_value_def)

lemma injectWhere_keeps:
  "keeps en (q_where (base (injectWhere q (usingConds p claims)))) row \<longleftrightarrow>
     keeps en (q_where (base q)) row \<and> (\<forall>t \<in> set p. term_holds claims row t)"
  by (cases "q_where (base q)")
    (auto simp: injectWhere_def usingConds_def keeps_def and3_True usingCond_sound)

lemma injectWhere_rest:
  "embeds (injectWhere q cs) = embeds q"
  "(base (injectWhere q cs))\<lparr>q_where := x\<rparr> = (base q)\<lparr>q_where := x\<rparr>"
  by (simp_all add: injectWhere_def)

lemma Authorize_rest:
  assumes "Authorize r rc q = Some (Inr q')"
  shows "embeds q' = embeds q" "(base q')\<lparr>q_where := x\<rparr> = (base q)\<lparr>q_where := x\<rparr>"
  using Authorize_result [OF assms] by (auto simp: inject_policy_def injectWhere_rest split: if_split_asm)

lemma Authorize_keeps:
  assumes "Authorize r rc q = Some (Inr q')" and "q_kind (base q) \<noteq> query_kind.Insert"
  shows "keeps en (q_where (base q')) row \<longleftrightarrow> keeps en (q_where (base q)) row \<and>
    (\<forall>t \<in> set (policy_terms r p_using (rc_role rc, ref_name (q_relation (base q)))). term_holds (rc_claims rc) row t)"
  by (simp add: inject_where [OF assms] injectWhere_keeps)

lemma evalPredicate_holds:
  "evalPredicate p claims val False \<longleftrightarrow> (\<forall>t \<in> set p. term_holds claims val t)"
  by (induction p) (auto simp: term_holds_def split: option.splits pol_op.splits)

lemma evalPredicate_present:
  "evalPredicate p claims val True \<longleftrightarrow> (\<forall>t \<in> set p. val (t_column t) \<noteq> None \<longrightarrow> term_holds claims val t)"
  by (induction p) (auto simp: term_holds_def split: option.splits pol_op.splits)

lemma terms_for_set: "set (terms_for sel k ps) = (\<Union>p \<in> {p \<in> set ps. policy_for k p}. set (sel p))"
  by (auto simp: terms_for_def)

lemma Authorize_check:
  assumes "Authorize r rc q = Some (Inr q')" and "q_write (base q) = Some w"
    and "t \<in> set (policy_terms r p_with_check (rc_role rc, ref_name (q_relation (base q))))"
  shows "q_kind (base q) \<in> {query_kind.Insert, Upsert} \<Longrightarrow> row \<in> set (w_rows w) \<Longrightarrow> term_holds (rc_claims rc) (rowLookup row) t"
    and "q_kind (base q) = query_kind.Update \<Longrightarrow> rowLookup (w_set w) (t_column t) \<noteq> None \<Longrightarrow>
      term_holds (rc_claims rc) (rowLookup (w_set w)) t"
proof -
  show "term_holds (rc_claims rc) (rowLookup row) t"
    if "q_kind (base q) \<in> {query_kind.Insert, Upsert}" "row \<in> set (w_rows w)"
    using with_check_holds [OF assms(1) that(1) assms(2) that(2)] assms(3) by (simp add: evalPredicate_holds)
  show "term_holds (rc_claims rc) (rowLookup (w_set w)) t"
    if "q_kind (base q) = query_kind.Update" "rowLookup (w_set w) (t_column t) \<noteq> None"
    using Authorize_result [OF assms(1)] that assms(2,3)
    by (auto simp: policy_terms_def check_rows_def evalPredicate_present)
qed

lemma check_rows_fail:
  assumes "check_rows pol rc b = Some False"
  shows "\<exists>w t. q_write b = Some w \<and> t \<in> set (p_with_check pol) \<and>
    (if q_kind b = query_kind.Update
     then rowLookup (w_set w) (t_column t) \<noteq> None \<and> \<not> term_holds (rc_claims rc) (rowLookup (w_set w)) t
     else \<exists>row \<in> set (w_rows w). \<not> term_holds (rc_claims rc) (rowLookup row) t)"
  using assms by (fastforce simp: check_rows_def evalPredicate_holds evalPredicate_present list_all_iff split: query_kind.split_asm)

text \<open>A claim that is absent, at any level of its dotted path, makes its term false on every row.\<close>

lemma missing_claim:
  "t_claim t \<noteq> [] \<Longrightarrow> lookupClaim claims (t_claim t) = None \<Longrightarrow> \<not> term_holds claims row t"
  by (simp add: term_holds_def resolveRHS_def split: option.split)

subsection \<open>Properties\<close>

text \<open>
  C7. Row level security is unbypassable. When a read, update, delete or upsert is authorized, the
  filter tree it leaves with keeps exactly the rows the client's own filter keeps and on which
  every USING term of every policy declared for the role and the relation holds, whatever the
  client's filter is and whatever the engine answers for the comparisons left to it.
\<close>

theorem rls_using_enforced:
  assumes "Authorize (NewRegistry gs ps) rc q = Some (Inr q')"
    and "q_kind (base q) \<noteq> query_kind.Insert"
  shows "keeps en (q_where (base q')) row \<longleftrightarrow>
    keeps en (q_where (base q)) row \<and>
    (\<forall>p \<in> set ps. p_role p = rc_role rc \<and> p_relation p = ref_name (q_relation (base q)) \<longrightarrow>
      (\<forall>t \<in> set (p_using p). term_holds (rc_claims rc) row t))"
  unfolding Authorize_keeps [OF assms] registry_terms terms_for_set by (auto simp: policy_for_def)

definition demo_policy :: policy where
  "demo_policy = \<lparr>p_relation = ''todos'', p_role = ''web'',
     p_using = [\<lparr>t_column = ''tenant'', t_op = OpEq, t_claim = ''tenant'', t_literal = LString []\<rparr>],
     p_with_check = [\<lparr>t_column = ''tenant'', t_op = OpEq, t_claim = ''tenant'', t_literal = LString []\<rparr>]\<rparr>"

definition demo_grants :: "grant list" where
  "demo_grants =
     [\<lparr>g_role = ''web'', g_relation = ''todos'', g_action = Select, g_columns = [''id'', ''tenant'']\<rparr>,
      \<lparr>g_role = ''web'', g_relation = ''todos'', g_action = Insert, g_columns = []\<rparr>]"

definition demo_context :: req_context where
  "demo_context = \<lparr>rc_role = ''web'', rc_anonymous = False, rc_claims = [(''tenant'', JString ''acme'')]\<rparr>"

definition demo_column :: "string \<Rightarrow> ir_column" where
  "demo_column c = \<lparr>c_path = [c], c_last = JSONNone, c_cast = [], c_alias = []\<rparr>"

definition demo_read :: query where
  "demo_read = Query ((new_base Read ''todos'')\<lparr>q_select := [SColumn (demo_column ''id'')],
     q_where := Some (COr [])\<rparr>) []"

definition demo_insert :: query where
  "demo_insert = Query ((new_base query_kind.Insert ''todos'')\<lparr>q_write := Some (empty_write\<lparr>
     w_rows := [[(''id'', json_value (JNumber ''1'')), (''tenant'', json_value (JString ''acme''))]],
     w_columns := [''id'', ''tenant'']\<rparr>)\<rparr>) []"

lemmas demo_defs = demo_policy_def demo_grants_def demo_context_def demo_column_def demo_read_def demo_insert_def

lemma demo_read_authorized:
  "Authorize (NewRegistry demo_grants [demo_policy]) demo_context demo_read =
     Some (Inr (injectWhere demo_read (usingConds (p_using demo_policy) (rc_claims demo_context))))"
  by (simp add: demo_defs Authorize_def NewRegistry_def grant_step_def policy_step_def gate_actions_def actionsFor_def
      gate_projection_def gateSelect_def gate_payload_def check_rows_def inject_policy_def new_base_def bare_ref_def
      select_denied_def isStar_def baseColumn_def Let_def)

lemma demo_insert_authorized:
  "Authorize (NewRegistry demo_grants [demo_policy]) demo_context demo_insert = Some (Inr demo_insert)"
  by (simp add: demo_defs Authorize_def NewRegistry_def grant_step_def policy_step_def gate_actions_def actionsFor_def
      gate_projection_def gateSelect_def gate_payload_def check_rows_def inject_policy_def new_base_def bare_ref_def
      writeColumnActions_def gateWriteColumns_def empty_write_def rowLookup_def valueToString_def scalarString_def
      json_value_def resolveRHS_def lookupClaim_def Let_def)

theorem rls_using_enforced_witness:
  "\<exists>q'. Authorize (NewRegistry demo_grants [demo_policy]) demo_context demo_read = Some (Inr q') \<and>
     \<not> keeps \<lparr>en_compare = \<lambda>c r. Some True, en_related = \<lambda>i r. True\<rparr> (q_where (base q')) (\<lambda>c. Some ''other'')"
proof -
  have "\<not> keeps \<lparr>en_compare = \<lambda>c r. Some True, en_related = \<lambda>i r. True\<rparr>
     (q_where (base (injectWhere demo_read (usingConds (p_using demo_policy) (rc_claims demo_context))))) (\<lambda>c. Some ''other'')"
    using rls_using_enforced [OF demo_read_authorized, of "\<lparr>en_compare = \<lambda>c r. Some True, en_related = \<lambda>i r. True\<rparr>" "\<lambda>c. Some ''other''"]
    by (simp add: demo_defs new_base_def keeps_def or3_def bare_ref_def)
  then show ?thesis using demo_read_authorized by blast
qed

text \<open>
  WITH CHECK. Every row of the payload of an authorized insert or upsert carries values on which every WITH CHECK term
  of every policy for the role and the relation holds; a payload row that leaves a checked column out, or a term whose
  claim the token lacks, refuses the request. The payload is not yet what is stored: the root theory says what the
  statement keeps of it.
\<close>

lemma rls_with_check_enforced:
  assumes "Authorize (NewRegistry gs ps) rc q = Some (Inr q')"
    and "q_kind (base q) = query_kind.Insert \<or> q_kind (base q) = Upsert"
    and "q_write (base q) = Some w" and "row \<in> set (w_rows w)"
    and "p \<in> set ps" "p_role p = rc_role rc" "p_relation p = ref_name (q_relation (base q))"
    and "t \<in> set (p_with_check p)"
  shows "term_holds (rc_claims rc) (rowLookup row) t"
proof (rule Authorize_check(1) [OF assms(1,3)])
  show "t \<in> set (policy_terms (NewRegistry gs ps) p_with_check (rc_role rc, ref_name (q_relation (base q))))"
    unfolding registry_terms terms_for_set using assms(5-) by (auto simp: policy_for_def)
qed (use assms(2,4) in auto)

text \<open>
  C9. The privilege gate. An authorized request performs only actions some grant gives the role on the relation; a read,
  and a write that returns its representation, projects by name only columns a SELECT grant covers, and projects a star
  or nothing at all only where the SELECT grants cover every column; and every payload column is covered by a grant of
  each action the write performs. Aggregates and embedded relations are not part of the gate.
\<close>

theorem authorized_within_grants:
  assumes "Authorize (NewRegistry gs ps) rc q = Some (Inr q')"
  shows "(\<forall>a \<in> set (actionsFor (q_kind (base q))).
            \<exists>g \<in> set gs. grant_for (rc_role rc, ref_name (q_relation (base q)), a) g) \<and>
    (q_kind (base q) = Read \<or> (\<exists>w. q_write (base q) = Some w \<and> w_return w = ReturnRepresentation) \<longrightarrow>
       (\<forall>c. SColumn c \<in> set (q_select (base q)) \<longrightarrow>
          may_use gs (rc_role rc, ref_name (q_relation (base q)), Select) (baseColumn c)) \<and>
       (q_select (base q) = [] \<or> (\<exists>c. SColumn c \<in> set (q_select (base q)) \<and> isStar c) \<longrightarrow>
          (\<forall>c. may_use gs (rc_role rc, ref_name (q_relation (base q)), Select) c))) \<and>
    (\<forall>w a c. q_write (base q) = Some w \<longrightarrow> a \<in> set (writeColumnActions (q_kind (base q))) \<longrightarrow>
       c \<in> set (w_columns w) \<union> fst ` set (w_set w) \<longrightarrow>
       may_use gs (rc_role rc, ref_name (q_relation (base q)), a) c)"
proof -
  let ?k = "\<lambda>a. (rc_role rc, ref_name (q_relation (base q)), a)"
  let ?projects = "q_kind (base q) = Read \<or> (\<exists>w. q_write (base q) = Some w \<and> w_return w = ReturnRepresentation)"
  have pass: "gates_pass (NewRegistry gs ps) rc (base q)" using Authorize_InrD [OF assms] .
  have "\<exists>g \<in> set gs. grant_for (?k a) g" if "a \<in> set (actionsFor (q_kind (base q)))" for a
    using actions_granted [OF pass that] by (auto simp: registry_grants list_ex_iff split: if_split_asm)
  moreover have "may_use gs (?k Select) (baseColumn c)" if "?projects" "SColumn c \<in> set (q_select (base q))" for c
    using projection_granted [OF pass that(1)] that(2) registry_may_use by metis
  moreover have "may_use gs (?k Select) c"
    if "?projects" "q_select (base q) = [] \<or> (\<exists>c. SColumn c \<in> set (q_select (base q)) \<and> isStar c)" for c
    using projection_granted [OF pass that(1)] that(2) registry_may_use by metis
  moreover have "may_use gs (?k a) c"
    if w: "q_write (base q) = Some w" and a: "a \<in> set (writeColumnActions (q_kind (base q)))"
      and c: "c \<in> set (w_columns w) \<union> fst ` set (w_set w)" for w a c
  proof -
    obtain g where "r_grants (NewRegistry gs ps) (?k a) = Some g"
        and "cs_all g \<or> set (w_columns w) \<union> fst ` set (w_set w) \<subseteq> cs_cols g"
      using payload_granted [OF pass w a] .
    then show ?thesis using registry_may_use [of gs ps "?k a" g c] c by blast
  qed
  ultimately show ?thesis by blast
qed

theorem authorized_within_grants_witness:
  "may_use demo_grants (''web'', ''todos'', Select) ''id''"
  using authorized_within_grants [OF demo_read_authorized]
  by (simp add: demo_defs new_base_def bare_ref_def baseColumn_def)

text \<open>
  C10. A request is refused in exactly two ways: with the permission error of the relation, 401 for an anonymous caller
  and 403 for an authenticated one, or, after the gates passed, with the row level security violation, and then a
  WITH CHECK term of the role's policies fails on a row of the payload, or on the columns an update sets. Both carry the
  SQLSTATE 42501. The violation is answered with 403 whoever asks, also where the caller is anonymous, although the
  documentation grades every 42501 to 401 for an unauthenticated caller.
\<close>

theorem authorize_refusals:
  assumes "Authorize r rc q = Some (Inl e)"
  shows "code e = ''42501'' \<and>
    (if gates_pass r rc (base q)
     then e = ErrRLSViolation (ref_name (q_relation (base q))) \<and> http_status e = 403 \<and>
          (\<exists>w t. q_write (base q) = Some w \<and> t \<in> set (policy_terms r p_with_check (rc_role rc, ref_name (q_relation (base q)))) \<and>
             (if q_kind (base q) = query_kind.Update
              then rowLookup (w_set w) (t_column t) \<noteq> None \<and> \<not> term_holds (rc_claims rc) (rowLookup (w_set w)) t
              else \<exists>row \<in> set (w_rows w). \<not> term_holds (rc_claims rc) (rowLookup row) t))
     else e = ErrPermissionDenied (ref_name (q_relation (base q))) (rc_anonymous rc) \<and>
          http_status e = (if rc_anonymous rc then 401 else 403))"
proof (cases "gates_pass r rc (base q)")
  case True
  then obtain pol where "r_policies r (rc_role rc, ref_name (q_relation (base q))) = Some pol"
      and "check_rows pol rc (base q) = Some False" and "e = ErrRLSViolation (ref_name (q_relation (base q)))"
    using assms unfolding Authorize_pass [OF True] by (auto split: option.split_asm if_split_asm)
  then show ?thesis using True check_rows_fail [of pol rc "base q"] by (simp add: policy_terms_def)
next
  case False
  then show ?thesis using assms by (auto simp: Authorize_fail)
qed

theorem authorize_refusals_witness:
  "\<exists>e. Authorize (NewRegistry [] []) \<lparr>rc_role = ''anon'', rc_anonymous = True, rc_claims = []\<rparr> demo_read = Some (Inl e) \<and>
     http_status e = 401"
proof -
  let ?rc = "\<lparr>rc_role = ''anon'', rc_anonymous = True, rc_claims = []\<rparr>"
  have gate: "\<not> gates_pass (NewRegistry [] []) ?rc (base demo_read)"
    by (simp add: gates_pass_def gate_actions_def demo_defs new_base_def actionsFor_def NewRegistry_def)
  have denied: "Authorize (NewRegistry [] []) ?rc demo_read = Some (Inl (ErrPermissionDenied ''todos'' True))"
    using Authorize_fail [OF gate] by (simp add: demo_defs new_base_def bare_ref_def)
  from authorize_refusals [OF denied] gate denied show ?thesis by (auto simp: demo_defs)
qed

text \<open>
  The column gate reads plain columns only: a role granted nothing but one column may still
  aggregate another, so the largest value of a column it was never granted is returned to it.
\<close>

theorem aggregate_escapes_column_gate:
  "\<exists>gs q. \<not> may_use gs (''web'', ''todos'', Select) ''secret'' \<and>
     q_select (base q) = [SAggregate \<lparr>a_func = AggMax, a_arg = Some (demo_column ''secret''), a_cast = [], a_alias = [], a_legacy = False\<rparr>] \<and>
     Authorize (NewRegistry gs []) demo_context q = Some (Inr q)"
proof -
  let ?g = "[\<lparr>g_role = ''web'', g_relation = ''todos'', g_action = Select, g_columns = [''id'']\<rparr>]"
  let ?q = "Query ((new_base Read ''todos'')\<lparr>q_select := [SAggregate \<lparr>a_func = AggMax,
    a_arg = Some (demo_column ''secret''), a_cast = [], a_alias = [], a_legacy = False\<rparr>]\<rparr>) []"
  have "\<not> may_use ?g (''web'', ''todos'', Select) ''secret''" by (simp add: may_use_def)
  moreover have "Authorize (NewRegistry ?g []) demo_context ?q = Some (Inr ?q)"
    by (simp add: demo_context_def Authorize_def NewRegistry_def grant_step_def gate_actions_def actionsFor_def
        gate_projection_def gateSelect_def gate_payload_def new_base_def bare_ref_def select_denied_def Let_def)
  ultimately show ?thesis by (intro exI [of _ ?g] exI [of _ ?q]) (simp add: new_base_def)
qed

end
