(* ===== verification/Reqctx.thy ===== *)
theory Reqctx
  imports Authz Go_Json
begin

section \<open>Package reqctx: the documents of the request context\<close>

text \<open>
  \<open>src/reqctx/reqctx.go\<close>. The fields the authorization gate reads are \<open>req_context\<close>; the record is
  extended here with the request's method, path, headers and cookies, the selected schema, the settings
  carried to the backend and the response controls a backend writes. The JSON documents are those a function or a policy reads.
\<close>

record response_controls =
  rsp_status :: int
  rsp_headers :: "string go_map"
  rsp_upsert_known :: bool
  rsp_inserted :: int

record full_context = req_context +
  cx_method :: string
  cx_path :: string
  cx_headers :: "string list go_map"
  cx_cookies :: "string go_map"
  cx_schema :: string
  cx_pre_request :: string
  cx_app_settings :: "string go_map"
  cx_log_query :: bool
  cx_timezone :: string
  cx_controls :: response_controls

definition ClaimsJSON :: "full_context \<Rightarrow> string" where
  "ClaimsJSON c =
     (if rc_role c = [] then (if rc_claims c = [] then ''{}'' else json_marshal (JObject (rc_claims c)))
      else json_marshal (JObject (aput ''role'' (JString (rc_role c)) (rc_claims c))))"

definition marshalSortedObject :: "string go_map \<Rightarrow> string" where
  "marshalSortedObject m =
     (if m = [] then ''{}''
      else ''{'' @ join '','' (map (\<lambda>k. json_string k @ '':'' @ json_string (case aget m k of Some v \<Rightarrow> v | None \<Rightarrow> [])) (sort (keys_of m))) @ ''}'')"

definition header_step :: "string \<times> string list \<Rightarrow> string go_map \<Rightarrow> string go_map" where
  "header_step = (\<lambda>(k, vs) flat.
     let lk = to_lower k in
     if lk = ''cookie'' then flat else if vs \<noteq> [] then aput lk (last vs) flat else flat)"

definition flat_headers :: "string list go_map \<Rightarrow> string go_map" where
  "flat_headers hs = fold header_step hs []"

definition HeadersJSON :: "full_context \<Rightarrow> string" where
  "HeadersJSON c = marshalSortedObject (flat_headers (cx_headers c))"

definition CookiesJSON :: "full_context \<Rightarrow> string" where
  "CookiesJSON c = marshalSortedObject (cx_cookies c)"

definition SetStatus :: "int \<Rightarrow> response_controls \<Rightarrow> response_controls" where
  "SetStatus st rc = rc\<lparr>rsp_status := st\<rparr>"

definition SetHeader :: "string \<Rightarrow> string \<Rightarrow> response_controls \<Rightarrow> response_controls" where
  "SetHeader k v rc = rc\<lparr>rsp_headers := aput k v (rsp_headers rc)\<rparr>"

subsection \<open>What the documents hold\<close>

lemma flat_step:
  "aget (header_step (k, vs) flat) n =
     (if to_lower k = n \<and> n \<noteq> ''cookie'' \<and> vs \<noteq> [] then Some (last vs) else aget flat n)"
  by (auto simp: header_step_def Let_def aget_aput)

lemma flat_headers_cookie: "aget (flat_headers hs) ''cookie'' = None"
proof -
  have "aget flat ''cookie'' = None \<Longrightarrow> aget (fold header_step hs flat) ''cookie'' = None" for flat
  proof (induction hs arbitrary: flat)
    case (Cons h hs)
    obtain k vs where h: "h = (k, vs)" by (cases h)
    show ?case using Cons.IH [of "header_step h flat"] Cons.prems by (simp add: h flat_step)
  qed simp
  then show ?thesis by (simp add: flat_headers_def)
qed

lemma sort_keys_perm: "mset xs = mset ys \<Longrightarrow> sort xs = sort (ys :: string list)"
  by (metis properties_for_sort sorted_sort mset_sort)

lemma marshalSortedObject_perm:
  assumes "wf_map m" "mset m = mset m'"
  shows "marshalSortedObject m = marshalSortedObject m'"
proof -
  have "mset (keys_of m) = mset (keys_of m')" using assms(2) by (metis mset_map)
  then have "sort (keys_of m) = sort (keys_of m')" by (rule sort_keys_perm)
  moreover have "m = [] \<longleftrightarrow> m' = []" using assms(2) by (metis mset_zero_iff)
  ultimately show ?thesis using aget_perm [OF assms] by (simp add: marshalSortedObject_def)
qed

end
