(* ===== verification/Rpc.thy ===== *)
theory Rpc
  imports Ir
begin

section \<open>Package rpc: functions and their registries\<close>

text \<open>
  \<open>src/rpc/registry.go\<close>. A set of argument names is a list without repetitions, a default a JSON
  value (\<open>nil\<close> is \<open>JNull\<close>). The three results of \<open>Resolve\<close> are the constructors of \<open>resolution\<close>. The
  interface \<open>Registry\<close> is the record of its methods \<open>Resolve\<close> and \<open>List\<close>; \<open>Lookup\<close> is in each of
  them the first result of \<open>Resolve\<close>. \<open>sort.Strings\<close> is \<open>sort\<close> on byte strings.
\<close>

datatype volatility = Volatile | Stable | Immutable

definition vol_ReadOnly :: "volatility \<Rightarrow> bool" where
  "vol_ReadOnly v \<longleftrightarrow> v \<noteq> Volatile"

datatype security_mode = Invoker | Definer

datatype return_kind = ReturnScalar | ReturnSetOf | ReturnTable | ReturnVoid | ReturnObject

record rpc_column =
  rcol_name :: string
  rcol_type :: string

record return_shape =
  ret_kind :: return_kind
  ret_type :: string
  ret_columns :: "rpc_column list"

record rpc_param =
  p_name :: string
  p_type :: string
  p_optional :: bool
  p_default :: json
  p_variadic :: bool
  p_raw_body :: bool

record rpc_function =
  f_name :: string
  f_params :: "rpc_param list"
  f_comment :: string
  f_returns :: return_shape
  f_volatility :: volatility
  f_security :: security_mode
  f_query :: "string option"

definition SingleRawBody :: "rpc_function \<Rightarrow> rpc_param option" where
  "SingleRawBody f = (case f_params f of [p] \<Rightarrow> if p_raw_body p then Some p else None | _ \<Rightarrow> None)"

definition Required :: "rpc_function \<Rightarrow> string list" where
  "Required f = map p_name (filter (\<lambda>p. \<not> p_optional p \<and> \<not> p_variadic p) (f_params f))"

definition fn_Param :: "rpc_function \<Rightarrow> string \<Rightarrow> rpc_param option" where
  "fn_Param f name = find (\<lambda>p. p_name p = name) (f_params f)"

definition Signature :: "rpc_function \<Rightarrow> string \<Rightarrow> string" where
  "Signature f schemaName =
     (if schemaName \<noteq> [] then schemaName @ ''.'' @ f_name f else f_name f) @
     ''('' @ join '', '' (map (\<lambda>p. p_name p @ '' => '' @ p_type p) (f_params f)) @ '')''"

subsection \<open>Choosing an overload\<close>

definition satisfiable :: "rpc_function \<Rightarrow> string list \<Rightarrow> bool" where
  "satisfiable f args \<longleftrightarrow> list_all (\<lambda>r. r \<in> set args) (Required f) \<and> list_all (\<lambda>a. fn_Param f a \<noteq> None) args"

definition exactMatch :: "rpc_function \<Rightarrow> string list \<Rightarrow> bool" where
  "exactMatch f args \<longleftrightarrow> length args = length (f_params f) \<and> list_all (\<lambda>p. p_name p \<in> set args) (f_params f)"

datatype resolution = Resolved rpc_function | Ambiguous "string list" | NoMatch

definition overload_score :: "rpc_function \<Rightarrow> string list \<Rightarrow> int" where
  "overload_score f args = int (length (Required f)) + (if exactMatch f args then 1000 else 0)"

text \<open>One round of the loop, on \<open>best\<close>, \<open>bestScore\<close> and \<open>tied\<close>.\<close>

definition resolve_step ::
  "string list \<Rightarrow> rpc_function \<Rightarrow> rpc_function option \<times> int \<times> rpc_function list \<Rightarrow> rpc_function option \<times> int \<times> rpc_function list" where
  "resolve_step args f = (\<lambda>(best, bestScore, tied).
     if \<not> satisfiable f args then (best, bestScore, tied)
     else let score = overload_score f args in
       if score > bestScore then (Some f, score, [f])
       else if score = bestScore then (best, bestScore, tied @ [f])
       else (best, bestScore, tied))"

record static_registry =
  sr_by_name :: "rpc_function list go_map"
  sr_names :: "string list"

definition overloads :: "static_registry \<Rightarrow> string \<Rightarrow> rpc_function list" where
  "overloads r name = (case aget (sr_by_name r) name of Some fs \<Rightarrow> fs | None \<Rightarrow> [])"

definition register_step :: "rpc_function \<Rightarrow> static_registry \<Rightarrow> static_registry" where
  "register_step f r = \<lparr>sr_by_name = aput (f_name f) (overloads r (f_name f) @ [f]) (sr_by_name r),
     sr_names = (if aget (sr_by_name r) (f_name f) = None then sr_names r @ [f_name f] else sr_names r)\<rparr>"

definition NewStaticRegistry :: "rpc_function list \<Rightarrow> static_registry" where
  "NewStaticRegistry fns =
     (let r = fold register_step fns \<lparr>sr_by_name = [], sr_names = []\<rparr> in r\<lparr>sr_names := sort (sr_names r)\<rparr>)"

definition static_Resolve :: "static_registry \<Rightarrow> string \<Rightarrow> string list \<Rightarrow> resolution" where
  "static_Resolve r name args =
     (case fold (resolve_step args) (overloads r name) (None, -1, []) of
        (None, _, _) \<Rightarrow> NoMatch
      | (Some f, _, tied) \<Rightarrow>
          if length tied > 1 then Ambiguous (sort (map (\<lambda>g. Signature g []) tied)) else Resolved f)"

definition static_List :: "static_registry \<Rightarrow> rpc_function list" where
  "static_List r = concat (map (overloads r) (sr_names r))"

definition static_Lookup :: "static_registry \<Rightarrow> string \<Rightarrow> string list \<Rightarrow> rpc_function option" where
  "static_Lookup r name args = (case static_Resolve r name args of Resolved f \<Rightarrow> Some f | _ \<Rightarrow> None)"

subsection \<open>Registries\<close>

record fn_registry =
  reg_Resolve :: "string \<Rightarrow> string list \<Rightarrow> resolution"
  reg_List :: "rpc_function list"

definition static :: "static_registry \<Rightarrow> fn_registry" where
  "static r = \<lparr>reg_Resolve = static_Resolve r, reg_List = static_List r\<rparr>"

definition EmptyRegistry :: fn_registry where
  "EmptyRegistry = \<lparr>reg_Resolve = (\<lambda>_ _. NoMatch), reg_List = []\<rparr>"

definition Merge :: "fn_registry \<Rightarrow> fn_registry \<Rightarrow> fn_registry" where
  "Merge primary secondary =
     (let pl = reg_List primary; sl = reg_List secondary in
      if pl = [] then secondary
      else if sl = [] then primary
      else let seen = map (\<lambda>f. Signature f []) pl in
        static (NewStaticRegistry (pl @ filter (\<lambda>f. Signature f [] \<notin> set seen) sl)))"

subsection \<open>Declarations\<close>

text \<open>The document as \<open>encoding/json\<close> decodes it; the decoder is the parameter \<open>decode\<close>.\<close>

record fn_decl =
  fd_name :: string
  fd_sql :: string
  fd_comment :: string
  fd_params :: "rpc_param list"
  fd_ret_kind :: string
  fd_ret_type :: string
  fd_ret_columns :: "rpc_column list"
  fd_volatility :: string

definition strip_schema :: "string \<Rightarrow> string" where
  "strip_schema name = (case last_index_byte name CHR ''.'' of Some dot \<Rightarrow> drop (dot + 1) name | None \<Rightarrow> name)"

definition declared_volatility :: "string \<Rightarrow> volatility" where
  "declared_volatility s =
     (if to_lower s = ''stable'' then Stable else if to_lower s = ''immutable'' then Immutable else Volatile)"

definition declared_return :: "fn_decl \<Rightarrow> return_shape" where
  "declared_return d =
     (let k = to_lower (fd_ret_kind d) in
      \<lparr>ret_kind = (if k = ''void'' then ReturnVoid else if k = ''object'' then ReturnObject
                  else if k = ''setof'' then ReturnSetOf else if k = ''table'' then ReturnTable else ReturnScalar),
       ret_type = fd_ret_type d,
       ret_columns = (if k = ''table'' then fd_ret_columns d else [])\<rparr>)"

definition declared_function :: "fn_decl \<Rightarrow> rpc_function" where
  "declared_function d =
     \<lparr>f_name = strip_schema (fd_name d), f_params = fd_params d, f_comment = fd_comment d, f_returns = declared_return d,
      f_volatility = declared_volatility (fd_volatility d), f_security = Invoker, f_query = Some (fd_sql d)\<rparr>"

definition rpc_ParseRegistry :: "(string \<Rightarrow> string + fn_decl list) \<Rightarrow> string \<Rightarrow> string + static_registry" where
  "rpc_ParseRegistry decode rawJSON =
     (let raw = trim_space rawJSON in
      if raw = [] then Inr (NewStaticRegistry [])
      else case decode raw of
        Inl e \<Rightarrow> Inl (''function-registry: '' @ e)
      | Inr decls \<Rightarrow> Inr (NewStaticRegistry (map declared_function decls)))"

subsection \<open>What a registry holds\<close>

lemma overloads_step:
  "overloads (register_step f r) name = (if f_name f = name then overloads r name @ [f] else overloads r name)"
  by (simp add: register_step_def overloads_def aget_aput)

lemma overloads_fold: "overloads (fold register_step fns r) name = overloads r name @ filter (\<lambda>f. f_name f = name) fns"
  by (induction fns arbitrary: r) (auto simp: overloads_step)

lemma overloads_new: "overloads (NewStaticRegistry fns) name = filter (\<lambda>f. f_name f = name) fns"
  using overloads_fold [of fns "\<lparr>sr_by_name = [], sr_names = []\<rparr>" name]
  by (simp add: NewStaticRegistry_def Let_def overloads_def)

lemma names_step:
  assumes "distinct (sr_names r)" and "set (sr_names r) = fst ` set (sr_by_name r)"
  shows "distinct (sr_names (register_step f r))" "set (sr_names (register_step f r)) = fst ` set (sr_by_name (register_step f r))"
    "set (sr_names (register_step f r)) = insert (f_name f) (set (sr_names r))"
  using assms by (auto simp: register_step_def set_keys_aput aget_None_iff)

lemma names_fold:
  "distinct (sr_names r) \<Longrightarrow> set (sr_names r) = fst ` set (sr_by_name r) \<Longrightarrow>
   distinct (sr_names (fold register_step fns r)) \<and> set (sr_names (fold register_step fns r)) = set (sr_names r) \<union> f_name ` set fns"
proof (induction fns arbitrary: r)
  case (Cons f fns)
  then show ?case using Cons.IH [OF names_step(1,2) [OF Cons.prems, of f]] names_step(3) [OF Cons.prems, of f] by simp
qed simp

lemma names_new: "distinct (sr_names (NewStaticRegistry fns))" "set (sr_names (NewStaticRegistry fns)) = f_name ` set fns"
  using names_fold [of "\<lparr>sr_by_name = [], sr_names = []\<rparr>" fns] by (simp_all add: NewStaticRegistry_def Let_def)

lemma filter_concat_groups:
  assumes "distinct ns" "name \<in> set ns"
  shows "filter (\<lambda>f. g f = name) (concat (map (\<lambda>n. filter (\<lambda>f. g f = n) fs) ns)) = filter (\<lambda>f. g f = name) fs"
proof -
  have other: "filter (\<lambda>f. g f = name) (filter (\<lambda>f. g f = n) fs) = (if n = name then filter (\<lambda>f. g f = name) fs else [])" for n
    by (induction fs) auto
  have none: "name \<notin> set ns \<Longrightarrow> filter (\<lambda>f. g f = name) (concat (map (\<lambda>n. filter (\<lambda>f. g f = n) fs) ns)) = []" for ns
    by (induction ns) (auto simp: other)
  show ?thesis using assms by (induction ns) (auto simp: other none filter_empty_conv)
qed

lemma List_new_set: "set (static_List (NewStaticRegistry fns)) = set fns"
  by (auto simp: static_List_def overloads_new names_new)

lemma List_new_name: "filter (\<lambda>f. f_name f = name) (static_List (NewStaticRegistry fns)) = filter (\<lambda>f. f_name f = name) fns"
proof (cases "name \<in> f_name ` set fns")
  case True
  then show ?thesis using filter_concat_groups [of "sr_names (NewStaticRegistry fns)" name f_name fns] names_new [of fns]
    by (simp add: static_List_def overloads_new [abs_def])
next
  case False
  then have "filter (\<lambda>f. f_name f = name) fns = []" "filter (\<lambda>f. f_name f = name) (static_List (NewStaticRegistry fns)) = []"
    by (auto simp: filter_empty_conv List_new_set)
  then show ?thesis by simp
qed

subsection \<open>The best overloads\<close>

definition best_overloads :: "rpc_function list \<Rightarrow> string list \<Rightarrow> rpc_function list" where
  "best_overloads fs args =
     (let sat = filter (\<lambda>f. satisfiable f args) fs in
      filter (\<lambda>f. \<forall>g \<in> set sat. overload_score g args \<le> overload_score f args) sat)"

definition pick_overload :: "rpc_function list \<Rightarrow> resolution" where
  "pick_overload fs = (case fs of [] \<Rightarrow> NoMatch | [f] \<Rightarrow> Resolved f | _ \<Rightarrow> Ambiguous (sort (map (\<lambda>g. Signature g []) fs)))"

definition loop_state :: "string list \<Rightarrow> rpc_function list \<Rightarrow> rpc_function option \<times> int \<times> rpc_function list \<Rightarrow> bool" where
  "loop_state args sat = (\<lambda>(best, s, tied).
     if sat = [] then best = None \<and> s = -1 \<and> tied = []
     else tied \<noteq> [] \<and> best = Some (hd tied) \<and> tied = filter (\<lambda>f. overload_score f args = s) sat \<and>
       (\<forall>g \<in> set sat. overload_score g args \<le> s))"

lemma overload_score_nonneg: "0 \<le> overload_score f args"
  by (simp add: overload_score_def)

lemma resolve_step_state:
  assumes "loop_state args sat st"
  shows "loop_state args (if satisfiable f args then sat @ [f] else sat) (resolve_step args f st)"
proof (cases "satisfiable f args")
  case False
  then show ?thesis using assms by (cases st) (simp add: resolve_step_def)
next
  case True
  obtain best s tied where st: "st = (best, s, tied)" by (cases st)
  have "-1 < overload_score f args" using overload_score_nonneg [of f args] by simp
  then show ?thesis using assms True
    by (auto simp: st resolve_step_def loop_state_def Let_def filter_empty_conv hd_append split: if_split_asm)
qed

lemma resolve_loop: "loop_state args (filter (\<lambda>f. satisfiable f args) fs) (fold (resolve_step args) fs (None, -1, []))"
proof (induction fs rule: rev_induct)
  case Nil
  show ?case by (simp add: loop_state_def)
next
  case (snoc f fs)
  then show ?case using resolve_step_state [OF snoc.IH, of f] by (simp split: if_split_asm)
qed

lemma best_of_state:
  assumes "loop_state args (filter (\<lambda>f. satisfiable f args) fs) (best, s, tied)"
  shows "tied = best_overloads fs args" "best = (case best_overloads fs args of [] \<Rightarrow> None | f # _ \<Rightarrow> Some f)"
proof -
  let ?sat = "filter (\<lambda>f. satisfiable f args) fs"
  show tied: "tied = best_overloads fs args"
  proof (cases "?sat = []")
    case False
    then have "tied \<noteq> []" "tied = filter (\<lambda>f. overload_score f args = s) ?sat" "\<forall>g \<in> set ?sat. overload_score g args \<le> s"
      using assms by (auto simp: loop_state_def)
    moreover from this obtain t where "t \<in> set ?sat" "overload_score t args = s" by (fastforce simp: filter_empty_conv)
    ultimately show ?thesis unfolding best_overloads_def Let_def by (auto intro!: filter_cong simp: order_antisym_conv intro: order_antisym)
  qed (use assms in \<open>simp add: loop_state_def best_overloads_def\<close>)
  show "best = (case best_overloads fs args of [] \<Rightarrow> None | f # _ \<Rightarrow> Some f)"
    using assms by (auto simp: loop_state_def tied [symmetric] split: if_split_asm list.split)
qed

lemma static_Resolve_pick: "static_Resolve r name args = pick_overload (best_overloads (overloads r name) args)"
proof -
  obtain best s tied where st: "fold (resolve_step args) (overloads r name) (None, -1, []) = (best, s, tied)"
    by (cases "fold (resolve_step args) (overloads r name) (None, -1, [])")
  have "loop_state args (filter (\<lambda>f. satisfiable f args) (overloads r name)) (best, s, tied)"
    using resolve_loop [of args "overloads r name"] by (simp add: st)
  note best = best_of_state [OF this]
  show ?thesis unfolding static_Resolve_def st by (cases "best_overloads (overloads r name) args") (auto simp: best pick_overload_def split: list.split)
qed


lemma pick_overload_cases:
  "pick_overload fs = Resolved f \<longleftrightarrow> fs = [f]" "pick_overload fs = NoMatch \<longleftrightarrow> fs = []"
  "pick_overload fs = Ambiguous sigs \<longleftrightarrow> length fs > 1 \<and> sigs = sort (map (\<lambda>g. Signature g []) fs)"
  by (auto simp: pick_overload_def split: list.split)

lemma best_overloads_mem: "f \<in> set (best_overloads fs args) \<Longrightarrow> f \<in> set fs \<and> satisfiable f args"
  by (auto simp: best_overloads_def Let_def)

lemma best_overloads_Nil: "best_overloads fs args = [] \<longleftrightarrow> (\<forall>f \<in> set fs. \<not> satisfiable f args)"
proof
  assume none: "best_overloads fs args = []"
  show "\<forall>f \<in> set fs. \<not> satisfiable f args"
  proof (rule ccontr)
    let ?sat = "set (filter (\<lambda>f. satisfiable f args) fs)"
    assume "\<not> (\<forall>f \<in> set fs. \<not> satisfiable f args)"
    then have "?sat \<noteq> {}" by auto
    then obtain f where "f \<in> ?sat" "overload_score f args = Max ((\<lambda>f. overload_score f args) ` ?sat)"
      using Max_in [of "(\<lambda>f. overload_score f args) ` ?sat"] by fastforce
    then have "f \<in> set (best_overloads fs args)" by (auto simp: best_overloads_def Let_def)
    then show False using none by simp
  qed
qed (auto simp: best_overloads_def)

subsection \<open>The contract of a registry\<close>

locale function_registry =
  fixes reg :: fn_registry
  assumes resolved: "reg_Resolve reg name args = Resolved f \<Longrightarrow> f \<in> set (reg_List reg) \<and> f_name f = name \<and> satisfiable f args"
    and no_match: "reg_Resolve reg name args = NoMatch \<Longrightarrow> f \<in> set (reg_List reg) \<Longrightarrow> f_name f = name \<Longrightarrow> \<not> satisfiable f args"
    and ambiguous: "reg_Resolve reg name args = Ambiguous sigs \<Longrightarrow>
      1 < length sigs \<and> (\<forall>s \<in> set sigs. \<exists>f \<in> set (reg_List reg). f_name f = name \<and> satisfiable f args \<and> s = Signature f [])"
begin

lemma unknown_name: "(\<And>f. f \<in> set (reg_List reg) \<Longrightarrow> f_name f \<noteq> name) \<Longrightarrow> reg_Resolve reg name args = NoMatch"
proof (cases "reg_Resolve reg name args")
  case (Ambiguous sigs)
  assume "\<And>f. f \<in> set (reg_List reg) \<Longrightarrow> f_name f \<noteq> name"
  then show ?thesis using ambiguous [OF Ambiguous] by (cases sigs) auto
qed (auto dest: resolved)

lemma unknown_argument:
  assumes "a \<in> set args" and "\<And>f. f \<in> set (reg_List reg) \<Longrightarrow> f_name f = name \<Longrightarrow> fn_Param f a = None"
  shows "reg_Resolve reg name args = NoMatch"
proof (cases "reg_Resolve reg name args")
  case (Ambiguous sigs)
  then show ?thesis using ambiguous [OF Ambiguous] assms by (cases sigs) (auto simp: satisfiable_def list_all_iff)
qed (use assms resolved [of name args] in \<open>auto simp: satisfiable_def list_all_iff\<close>)

end

lemma static_contract: "function_registry (static (NewStaticRegistry fns))"
proof
  note pick = static_Resolve_pick [of "NewStaticRegistry fns", unfolded overloads_new]
  fix name args f sigs
  { assume "reg_Resolve (static (NewStaticRegistry fns)) name args = Resolved f"
    then have "best_overloads (filter (\<lambda>f. f_name f = name) fns) args = [f]" by (simp add: static_def pick pick_overload_cases)
    then show "f \<in> set (reg_List (static (NewStaticRegistry fns))) \<and> f_name f = name \<and> satisfiable f args"
      using best_overloads_mem [of f "filter (\<lambda>f. f_name f = name) fns" args] by (simp add: static_def List_new_set) }
  { assume "reg_Resolve (static (NewStaticRegistry fns)) name args = NoMatch" "f \<in> set (reg_List (static (NewStaticRegistry fns)))" "f_name f = name"
    then show "\<not> satisfiable f args" by (simp add: static_def pick pick_overload_cases best_overloads_Nil List_new_set) }
  { assume "reg_Resolve (static (NewStaticRegistry fns)) name args = Ambiguous sigs"
    then show "1 < length sigs \<and> (\<forall>s \<in> set sigs. \<exists>f \<in> set (reg_List (static (NewStaticRegistry fns))). f_name f = name \<and> satisfiable f args \<and> s = Signature f [])"
      by (auto simp: static_def pick pick_overload_cases List_new_set dest!: best_overloads_mem) }
qed

interpretation static_fns: function_registry "static (NewStaticRegistry fns)" for fns
  by (rule static_contract)

interpretation no_fns: function_registry EmptyRegistry
  by unfold_locales (simp_all add: EmptyRegistry_def)

lemma Merge_contract: "function_registry p \<Longrightarrow> function_registry s \<Longrightarrow> function_registry (Merge p s)"
  by (simp add: Merge_def Let_def static_contract)


subsection \<open>Properties\<close>

lemma Required_le: "distinct args \<Longrightarrow> distinct (map p_name (f_params f)) \<Longrightarrow> satisfiable f args \<Longrightarrow> length (Required f) \<le> length args"
proof -
  assume d: "distinct args" "distinct (map p_name (f_params f))" and sat: "satisfiable f args"
  have "distinct (Required f)" unfolding Required_def using d(2) by (rule distinct_map_filter)
  moreover have "set (Required f) \<subseteq> set args" using sat by (auto simp: satisfiable_def list_all_iff)
  ultimately show ?thesis using d(1) by (metis card_mono distinct_card finite_set)
qed

lemma exactMatch_satisfiable:
  assumes "exactMatch f args" "distinct (map p_name (f_params f))"
  shows "satisfiable f args"
proof -
  have "p_name ` set (f_params f) \<subseteq> set args" using assms(1) by (auto simp: exactMatch_def list_all_iff)
  moreover have "card (p_name ` set (f_params f)) = length (f_params f)" using assms(2) by (metis distinct_card length_map list.set_map)
  moreover have "card (set args) \<le> length (f_params f)" using assms(1) card_length [of args] by (simp add: exactMatch_def)
  ultimately have "p_name ` set (f_params f) = set args" by (metis card_seteq finite_set)
  then show ?thesis by (force simp: satisfiable_def Required_def fn_Param_def list_all_iff find_None_iff)
qed

text \<open>
  C18. The loop of \<open>Resolve\<close> keeps exactly the overloads of the name that the arguments satisfy and that
  no other such overload scores above: none is no match, one is the result, more are reported as
  competing signatures in sorted order. Where the parameters of an overload are exactly the arguments
  (fewer than a thousand), only such an overload is ever chosen.
\<close>

theorem overload_resolution:
  "static_Resolve (NewStaticRegistry fns) name args = pick_overload (best_overloads (filter (\<lambda>f. f_name f = name) fns) args) \<and>
   (f \<in> set fns \<and> f_name f = name \<and> exactMatch f args \<and> length args < 1000 \<and> distinct args \<and>
      (\<forall>g \<in> set fns. distinct (map p_name (f_params g))) \<longrightarrow>
    static_Resolve (NewStaticRegistry fns) name args \<noteq> NoMatch \<and>
    (\<forall>g. static_Resolve (NewStaticRegistry fns) name args = Resolved g \<longrightarrow> exactMatch g args))"
proof (intro conjI impI allI)
  let ?fs = "filter (\<lambda>f. f_name f = name) fns"
  show pick: "static_Resolve (NewStaticRegistry fns) name args = pick_overload (best_overloads ?fs args)"
    by (simp add: static_Resolve_pick overloads_new)
  assume f: "f \<in> set fns \<and> f_name f = name \<and> exactMatch f args \<and> length args < 1000 \<and> distinct args \<and>
    (\<forall>g \<in> set fns. distinct (map p_name (f_params g)))"
  then have sat: "satisfiable f args" by (simp add: exactMatch_satisfiable)
  then have "f \<in> set ?fs" "\<not> (\<forall>g \<in> set ?fs. \<not> satisfiable g args)" using f by auto
  then show "static_Resolve (NewStaticRegistry fns) name args \<noteq> NoMatch" by (simp add: pick pick_overload_cases best_overloads_Nil)
  fix g
  assume "static_Resolve (NewStaticRegistry fns) name args = Resolved g"
  then have "g \<in> set (best_overloads ?fs args)" by (simp add: pick pick_overload_cases)
  then have "g \<in> set fns" "satisfiable g args" "overload_score f args \<le> overload_score g args"
    using \<open>f \<in> set ?fs\<close> sat by (auto simp: best_overloads_def Let_def)
  moreover have "length (Required g) < 1000" using Required_le [of args g] calculation f by fastforce
  ultimately show "exactMatch g args" using f by (simp add: overload_score_def split: if_split_asm)
qed

definition demo_param :: "string \<Rightarrow> bool \<Rightarrow> rpc_param" where
  "demo_param n opt = \<lparr>p_name = n, p_type = ''integer'', p_optional = opt, p_default = JNull, p_variadic = False, p_raw_body = False\<rparr>"

definition demo_function :: "rpc_param list \<Rightarrow> rpc_function" where
  "demo_function ps = \<lparr>f_name = ''add'', f_params = ps, f_comment = [],
     f_returns = \<lparr>ret_kind = ReturnScalar, ret_type = ''integer'', ret_columns = []\<rparr>, f_volatility = Immutable, f_security = Invoker,
     f_query = Some ''SELECT :a + 1''\<rparr>"

theorem overload_resolution_witness:
  "static_Resolve (NewStaticRegistry [demo_function [demo_param ''a'' False, demo_param ''b'' True], demo_function [demo_param ''a'' False]]) ''add'' [''a'']
     = Resolved (demo_function [demo_param ''a'' False])"
proof -
  let ?f = "demo_function [demo_param ''a'' False]" and ?g = "demo_function [demo_param ''a'' False, demo_param ''b'' True]"
  have "\<forall>h. static_Resolve (NewStaticRegistry [?g, ?f]) ''add'' [''a''] = Resolved h \<longrightarrow> exactMatch h [''a'']"
    using overload_resolution [of "[?g, ?f]" "''add''" "[''a'']" ?f]
    by (simp add: demo_function_def demo_param_def exactMatch_def)
  moreover have "static_Resolve (NewStaticRegistry [?g, ?f]) ''add'' [''a''] \<in> {Resolved ?f, Resolved ?g}" by code_simp
  moreover have "\<not> exactMatch ?g [''a'']" by code_simp
  ultimately show ?thesis by auto
qed

text \<open>
  Resolution in a merged registry is resolution among the primary functions followed by those
  secondary ones whose signature no primary function has, whichever of the two lists is empty.
\<close>

theorem merged_registry_resolution:
  "reg_Resolve (Merge (static (NewStaticRegistry ps)) (static (NewStaticRegistry ss))) name args =
   pick_overload (best_overloads
     (filter (\<lambda>f. f_name f = name) ps @
      filter (\<lambda>f. f_name f = name \<and> Signature f [] \<notin> (\<lambda>p. Signature p []) ` set ps) ss) args)"
proof -
  have lists: "reg_List (static (NewStaticRegistry fns)) = static_List (NewStaticRegistry fns)"
      "reg_Resolve (static (NewStaticRegistry fns)) name args = pick_overload (best_overloads (filter (\<lambda>f. f_name f = name) fns) args)" for fns
    by (simp_all add: static_def static_Resolve_pick overloads_new)
  have empty: "static_List (NewStaticRegistry fns) = [] \<longleftrightarrow> fns = []" for fns
    using List_new_set [of fns] by (metis set_empty)
  let ?new = "\<lambda>f. Signature f [] \<notin> set (map (\<lambda>f. Signature f []) (static_List (NewStaticRegistry ps)))"
  have new: "?new f \<longleftrightarrow> Signature f [] \<notin> (\<lambda>p. Signature p []) ` set ps" for f
    by (auto simp: List_new_set)
  have split: "filter (\<lambda>f. f_name f = name) (static_List (NewStaticRegistry ps) @ filter ?new (static_List (NewStaticRegistry ss))) =
      filter (\<lambda>f. f_name f = name) ps @ filter (\<lambda>f. f_name f = name \<and> Signature f [] \<notin> (\<lambda>p. Signature p []) ` set ps) ss"
    unfolding filter_append filter_filter List_new_name new
    using arg_cong [OF List_new_name [of name ss], of "filter (\<lambda>f. Signature f [] \<notin> (\<lambda>p. Signature p []) ` set ps)"]
    by (simp add: conj_commute)
  show ?thesis
  proof (cases "ps = [] \<or> ss = []")
    case True
    then show ?thesis by (auto simp: Merge_def Let_def lists empty)
  next
    case False
    then have "Merge (static (NewStaticRegistry ps)) (static (NewStaticRegistry ss)) =
        static (NewStaticRegistry (static_List (NewStaticRegistry ps) @ filter ?new (static_List (NewStaticRegistry ss))))"
      by (simp add: Merge_def Let_def lists empty)
    then show ?thesis by (simp only: lists(2) split)
  qed
qed

end
