(* ===== verification/Http_Negotiate.thy ===== *)
theory Http_Negotiate
  imports Go_Strings Complex_Main
begin

section \<open>Package httpapi: content negotiation\<close>

text \<open>
  \<open>src/httpapi/negotiate.go\<close>. \<open>strconv.ParseFloat\<close> is the parameter \<open>parse_float\<close>, into the rationals; a
  quality that reads as NaN is outside the model. \<open>sort.SliceStable\<close> by descending quality is
  \<open>sort_key\<close>, which is stable.
\<close>

definition mediaJSON :: string where "mediaJSON = ''application/json''"
definition mediaArray :: string where "mediaArray = ''application/vnd.pgrst.array+json''"
definition mediaObject :: string where "mediaObject = ''application/vnd.pgrst.object+json''"
definition mediaPlan :: string where "mediaPlan = ''application/vnd.pgrst.plan+json''"
definition mediaCSV :: string where "mediaCSV = ''text/csv''"
definition mediaOctet :: string where "mediaOctet = ''application/octet-stream''"
definition mediaText :: string where "mediaText = ''text/plain''"
definition mediaArrayStripped :: string where "mediaArrayStripped = ''application/vnd.pgrst.array+json;nulls=stripped''"
definition mediaObjectStripped :: string where "mediaObjectStripped = ''application/vnd.pgrst.object+json;nulls=stripped''"

lemmas media_defs = mediaJSON_def mediaArray_def mediaObject_def mediaPlan_def mediaCSV_def mediaOctet_def mediaText_def
  mediaArrayStripped_def mediaObjectStripped_def

definition supportedMedia :: "string list" where
  "supportedMedia = [mediaJSON, mediaArray, mediaObject, mediaPlan, mediaCSV, mediaOctet, mediaText]"

definition singularMedia :: "string \<Rightarrow> bool" where
  "singularMedia media \<longleftrightarrow> media = mediaObject \<or> media = mediaObjectStripped"

record media_range =
  mr_typ :: string
  mr_sub :: string
  mr_q :: rat
  mr_order :: nat
  mr_strip :: bool

subsection \<open>The Accept header\<close>

definition cut_prefix :: "string \<Rightarrow> string \<Rightarrow> string option" where
  "cut_prefix s p = (if has_prefix s p then Some (drop (length p) s) else None)"

definition range_param :: "(string \<Rightarrow> rat option) \<Rightarrow> string \<Rightarrow> rat \<times> bool \<Rightarrow> rat \<times> bool" where
  "range_param parse_float p0 = (\<lambda>(q, strip).
     let p = trim_space p0 in
     (case cut_prefix p ''q='' of
        Some v \<Rightarrow> (case parse_float v of Some f \<Rightarrow> f | None \<Rightarrow> q)
      | None \<Rightarrow> q,
      case cut_prefix (to_lower p) ''nulls='' of
        Some v \<Rightarrow> strip \<or> trim_space v = ''stripped''
      | None \<Rightarrow> strip))"

definition accept_range :: "(string \<Rightarrow> rat option) \<Rightarrow> string \<Rightarrow> (nat \<Rightarrow> media_range) option" where
  "accept_range parse_float part0 =
     (let part = trim_space part0; segs = split_byte CHR '';'' part in
      if part = [] then None
      else case cut (trim_space (hd segs)) ''/'' of
        None \<Rightarrow> None
      | Some (typ, sub) \<Rightarrow>
          let (q, strip) = fold (range_param parse_float) (tl segs) (1, False) in
          Some (\<lambda>n. \<lparr>mr_typ = to_lower typ, mr_sub = to_lower sub, mr_q = q, mr_order = n, mr_strip = strip\<rparr>))"

definition accept_ranges :: "(string \<Rightarrow> rat option) \<Rightarrow> string list \<Rightarrow> media_range list" where
  "accept_ranges parse_float headers =
     (let rs = List.map_filter (accept_range parse_float) (concat (map (split_byte CHR '','') headers)) in
      map (\<lambda>(n, r). r n) (List.enumerate 0 rs))"

definition parseAccept :: "(string \<Rightarrow> rat option) \<Rightarrow> string list \<Rightarrow> media_range list" where
  "parseAccept parse_float headers = sort_key (\<lambda>r. - mr_q r) (accept_ranges parse_float headers)"

subsection \<open>Choosing a media type\<close>

datatype plan_format = PlanText | PlanJSON

definition planSubtypes :: "string \<Rightarrow> plan_format option" where
  "planSubtypes s =
     (if s = ''vnd.pgrst.plan'' then Some PlanText else if s = ''vnd.pgrst.plan+text'' then Some PlanText
      else if s = ''vnd.pgrst.plan+json'' then Some PlanJSON else None)"

definition vendorSynonym :: "string \<Rightarrow> string" where
  "vendorSynonym full =
     (if full = ''application/vnd.pgrst.array'' then mediaArray
      else if full = ''application/vnd.pgrst.object'' then mediaObject else full)"

text \<open>What one range of the header asks for, when it can be produced.\<close>

definition range_media :: "media_range \<Rightarrow> string option" where
  "range_media r =
     (if mr_typ r = ''*'' \<and> mr_sub r = ''*'' then Some mediaJSON
      else if mr_sub r = ''*'' then find (\<lambda>m. has_prefix m (mr_typ r @ ''/'')) supportedMedia
      else if mr_typ r = ''application'' \<and> planSubtypes (mr_sub r) \<noteq> None then Some mediaPlan
      else let full = vendorSynonym (mr_typ r @ ''/'' @ mr_sub r) in
        if full \<in> set supportedMedia then
          Some (if mr_strip r \<and> full = mediaArray then mediaArrayStripped
                else if mr_strip r \<and> full = mediaObject then mediaObjectStripped else full)
        else None)"

fun first_media :: "media_range list \<Rightarrow> string option" where
  "first_media [] = None"
| "first_media (r # rs) =
     (if mr_q r \<le> 0 then first_media rs
      else case range_media r of Some m \<Rightarrow> Some m | None \<Rightarrow> first_media rs)"

definition negotiate :: "(string \<Rightarrow> rat option) \<Rightarrow> string list \<Rightarrow> string option" where
  "negotiate parse_float headers =
     (let ranges = parseAccept parse_float headers in if ranges = [] then Some mediaJSON else first_media ranges)"

subsection \<open>Plans\<close>

record plan_options =
  po_format :: plan_format
  po_for :: string
  po_analyze :: bool
  po_verbose :: bool
  po_settings :: bool
  po_buffers :: bool
  po_wal :: bool

definition plan_flag :: "string \<Rightarrow> plan_options \<Rightarrow> plan_options" where
  "plan_flag f0 o1 =
     (let f = trim_space f0 in
      if f = ''analyze'' then o1\<lparr>po_analyze := True\<rparr> else if f = ''verbose'' then o1\<lparr>po_verbose := True\<rparr>
      else if f = ''settings'' then o1\<lparr>po_settings := True\<rparr> else if f = ''buffers'' then o1\<lparr>po_buffers := True\<rparr>
      else if f = ''wal'' then o1\<lparr>po_wal := True\<rparr> else o1)"

definition trim_quotes :: "string \<Rightarrow> string" where
  "trim_quotes s = rev (dropWhile (\<lambda>c. c = dquote) (rev (dropWhile (\<lambda>c. c = dquote) s)))"

definition plan_param :: "string \<Rightarrow> plan_options \<Rightarrow> plan_options" where
  "plan_param p o1 =
     (case cut (trim_space p) ''='' of
        None \<Rightarrow> o1
      | Some (k0, v0) \<Rightarrow>
          let k = to_lower (trim_space k0); v = trim_quotes (trim_space v0) in
          if k = ''for'' then o1\<lparr>po_for := v\<rparr>
          else if k = ''options'' then fold plan_flag (split_byte CHR ''|'' (to_lower v)) o1
          else o1)"

definition plan_part :: "string \<Rightarrow> plan_options option" where
  "plan_part part =
     (let segs = split_byte CHR '';'' (trim_space part) in
      case cut (trim_space (hd segs)) ''/'' of
        None \<Rightarrow> None
      | Some (typ, sub) \<Rightarrow>
          if to_lower (trim_space typ) \<noteq> ''application'' then None
          else map_option (\<lambda>fmt. fold plan_param (tl segs)
                 \<lparr>po_format = fmt, po_for = mediaJSON, po_analyze = False, po_verbose = False, po_settings = False,
                  po_buffers = False, po_wal = False\<rparr>) (planSubtypes (to_lower (trim_space sub))))"

definition parsePlan :: "string list \<Rightarrow> plan_options option" where
  "parsePlan headers =
     (case List.map_filter plan_part (concat (map (split_byte CHR '','') headers)) of [] \<Rightarrow> None | p # _ \<Rightarrow> Some p)"

definition planContentType :: "plan_options \<Rightarrow> string" where
  "planContentType o1 =
     (let flags = map snd (filter fst [(po_analyze o1, ''analyze''), (po_verbose o1, ''verbose''), (po_settings o1, ''settings''),
                                       (po_buffers o1, ''buffers''), (po_wal o1, ''wal'')]) in
      join ''; '' ([if po_format o1 = PlanJSON then ''application/vnd.pgrst.plan+json'' else ''application/vnd.pgrst.plan+text''] @
        (if po_for o1 \<noteq> [] then [''for='' @ [dquote] @ po_for o1 @ [dquote]] else []) @
        (if flags \<noteq> [] then [''options='' @ join ''|'' flags] else []) @ [''charset=utf-8'']))"

subsection \<open>The best acceptable range wins\<close>

definition acceptable :: "media_range \<Rightarrow> bool" where
  "acceptable r \<longleftrightarrow> 0 < mr_q r \<and> range_media r \<noteq> None"

lemma first_media_filter: "first_media rs = (case filter acceptable rs of [] \<Rightarrow> None | r # _ \<Rightarrow> range_media r)"
  by (induction rs) (auto simp: acceptable_def not_le split: option.split)

text \<open>The head of a stable sort: nothing has a smaller key, and nothing before it has the same.\<close>

lemma sort_key_head:
  assumes "filter P (sort_key f xs) = r # zs"
  shows "\<exists>us vs. xs = us @ r # vs \<and> P r \<and> (\<forall>u \<in> set us. P u \<longrightarrow> f r < f u) \<and> (\<forall>v \<in> set vs. P v \<longrightarrow> f r \<le> f v)"
proof -
  have ys: "sort_key f (filter P xs) = r # zs" using assms by (simp add: filter_sort)
  have "x \<in> insert r (set zs)" if "x \<in> set xs" "P x" for x
    using arg_cong [OF ys, of set] that by auto
  then have least: "f r \<le> f x" if "x \<in> set xs" "P x" for x
    using sorted_sort_key [of f "filter P xs"] that unfolding ys by fastforce
  have "filter (\<lambda>x. f x = f r) (filter P xs) = r # filter (\<lambda>x. f x = f r) zs"
    using sort_key_stable [of f "f r" "filter P xs"] unfolding ys by simp
  then obtain us vs where "xs = us @ r # vs" "P r" "\<forall>u \<in> set us. \<not> (P u \<and> f u = f r)"
    unfolding filter_filter by (auto dest!: filter_eq_ConsD)
  then show ?thesis using least by (intro exI [of _ us] exI [of _ vs]) (auto simp: less_le)
qed

text \<open>
  C27. Content negotiation picks the best acceptable range. A request without ranges is answered with JSON. Otherwise
  the media type chosen is what a range of positive quality asks for, every range before it in the header that asks for
  something that can be produced has a lower quality, and no range after it a higher one: it is the first acceptable
  range of the highest quality. The request is refused (the server answers 406) exactly when no range of positive
  quality asks for a type that can be produced.
\<close>

theorem negotiate_best:
  "if accept_ranges parse_float headers = [] then negotiate parse_float headers = Some mediaJSON
   else case negotiate parse_float headers of
      Some m \<Rightarrow> \<exists>earlier r later. accept_ranges parse_float headers = earlier @ r # later \<and> 0 < mr_q r \<and> range_media r = Some m \<and>
        (\<forall>r' \<in> set earlier. range_media r' \<noteq> None \<longrightarrow> mr_q r' < mr_q r) \<and> (\<forall>r' \<in> set later. range_media r' \<noteq> None \<longrightarrow> mr_q r' \<le> mr_q r)
    | None \<Rightarrow> \<forall>r \<in> set (accept_ranges parse_float headers). 0 < mr_q r \<longrightarrow> range_media r = None"
proof -
  let ?as = "accept_ranges parse_float headers" and ?rs = "parseAccept parse_float headers"
  have empty: "?rs = [] \<longleftrightarrow> ?as = []" unfolding parseAccept_def by (metis set_empty set_sort)
  show ?thesis
  proof (cases "filter acceptable ?rs")
    case Nil
    then have "\<forall>r \<in> set ?as. \<not> acceptable r" by (simp add: parseAccept_def filter_empty_conv)
    then show ?thesis using Nil empty by (auto simp: negotiate_def first_media_filter acceptable_def)
  next
    case (Cons r zs)
    obtain earlier later where r: "?as = earlier @ r # later" "acceptable r"
        "\<forall>u \<in> set earlier. acceptable u \<longrightarrow> mr_q u < mr_q r" "\<forall>v \<in> set later. acceptable v \<longrightarrow> mr_q v \<le> mr_q r"
      using sort_key_head [OF Cons [unfolded parseAccept_def]] by auto
    then obtain m where m: "range_media r = Some m" "0 < mr_q r" by (auto simp: acceptable_def)
    have "negotiate parse_float headers = Some m" "?as \<noteq> []"
      using Cons m empty r(1) by (simp_all add: negotiate_def first_media_filter)
    moreover have "\<forall>r' \<in> set earlier. range_media r' \<noteq> None \<longrightarrow> mr_q r' < mr_q r" "\<forall>r' \<in> set later. range_media r' \<noteq> None \<longrightarrow> mr_q r' \<le> mr_q r"
      using r(3,4) m(2) unfolding acceptable_def by force+
    ultimately show ?thesis using r(1) m by auto
  qed
qed

theorem negotiate_best_witness:
  "negotiate (\<lambda>v. if v = ''0.5'' then Some (1/2) else None) [''application/json;q=0.5, text/csv, text/plain''] = Some mediaCSV \<and>
   (\<exists>earlier r later. accept_ranges (\<lambda>v. if v = ''0.5'' then Some (1/2) else None) [''application/json;q=0.5, text/csv, text/plain''] = earlier @ r # later \<and>
      range_media r = Some mediaCSV \<and> (\<forall>r' \<in> set earlier. range_media r' \<noteq> None \<longrightarrow> mr_q r' < mr_q r))"
proof -
  let ?pf = "\<lambda>v. if v = ''0.5'' then Some (1/2) else None" and ?h = "[''application/json;q=0.5, text/csv, text/plain'']"
  have n: "negotiate ?pf ?h = Some mediaCSV" by code_simp
  have ne: "accept_ranges ?pf ?h \<noteq> []" by code_simp
  show ?thesis using negotiate_best [of ?pf ?h] ne n by auto
qed

text \<open>
  A refusal with quality zero does not narrow a wildcard of the same header: the type it refuses is still the answer.
\<close>

theorem refused_type_still_chosen:
  "negotiate (\<lambda>v. if v = ''0'' then Some 0 else None) [''application/json;q=0, */*''] = Some ''application/json''"
  by code_simp

end
