(* ===== verification/Http_Render.thy ===== *)
theory Http_Render
  imports Json_Text Reqctx Rpc Http_Negotiate
begin

section \<open>Package httpapi: rendering a result\<close>

text \<open>
  \<open>src/httpapi/render.go\<close>. \<open>go_any\<close> is the value of type \<open>any\<close> a row stream yields; \<open>GOther\<close> is a
  decoded JSON document, what a driver yields for a nested value. A result is its columns, what
  \<open>Values\<close> yields or fails with for each row that \<open>Next\<close> reaches, and the error \<open>Err\<close> reports at the
  end; a row is as long as the columns, as \<open>RowStream\<close> requires. \<open>scan_error\<close> is the text of the
  error of the JSON scanner. \<open>rd_total\<close> is \<open>total\<close> where \<open>hasTotl\<close> is set.
\<close>

datatype go_any =
    GNil
  | GBool bool
  | GInt int
  | GFloat bool string int
  | GNumber string
  | GString string
  | GBytes string
  | GRaw string
  | GOther json

record result =
  res_columns :: "string list"
  res_rows :: "(string + go_any list) list"
  res_err :: "string option"
  res_Count :: "int option"
  res_Affected :: "int option"
  res_controls :: response_controls

record rendered =
  rd_body :: string
  rd_contentType :: string
  rd_nRows :: nat
  rd_total :: "int option"

definition singularMediaType :: string where
  "singularMediaType = ''application/vnd.pgrst.object+json''"

subsection \<open>Cells\<close>

definition jsonNoEscape :: "(string \<Rightarrow> string) \<Rightarrow> go_any \<Rightarrow> string + string" where
  "jsonNoEscape scan_error v =
     (case v of
        GNil \<Rightarrow> Inr ''null''
      | GBool b \<Rightarrow> Inr (if b then ''true'' else ''false'')
      | GInt n \<Rightarrow> Inr (show_int n)
      | GFloat neg ds e \<Rightarrow> Inr (json_float neg ds e)
      | GNumber t \<Rightarrow> if t = [] then Inr ''0'' else if isValidNumber t then Inr t
                    else Inl (''json: invalid number literal '' @ go_quote t)
      | GString s \<Rightarrow> Inr (raw_string s)
      | GBytes s \<Rightarrow> Inr (dquote # base64_encode s @ [dquote])
      | GRaw s \<Rightarrow> raw_message scan_error s
      | GOther j \<Rightarrow> Inr (json_text j))"

definition rawJSON :: "go_any \<Rightarrow> go_any" where
  "rawJSON v = (case v of GString s \<Rightarrow> GRaw s | GBytes s \<Rightarrow> GRaw s | _ \<Rightarrow> v)"

definition rawJSONValue :: "go_any \<Rightarrow> string \<Rightarrow> go_any" where
  "rawJSONValue v declared =
     (if declared \<noteq> ''json'' \<and> declared \<noteq> ''jsonb'' then v
      else case v of GString s \<Rightarrow> if json_Valid s then GRaw s else v | _ \<Rightarrow> v)"

definition csvCell :: "go_any \<Rightarrow> string" where
  "csvCell v =
     (case v of
        GNil \<Rightarrow> []
      | GString s \<Rightarrow> s
      | GBytes s \<Rightarrow> s
      | GBool b \<Rightarrow> if b then ''t'' else ''f''
      | GNumber t \<Rightarrow> t
      | GFloat neg ds e \<Rightarrow> format_g 6 neg ds e
      | GInt n \<Rightarrow> show_int n
      | GRaw s \<Rightarrow> if json_Valid s then html_escape (squeeze False s) else bytes_text s
      | GOther j \<Rightarrow> json_marshal j)"

subsection \<open>Rows\<close>

definition cell_value :: "string list \<Rightarrow> string \<times> go_any \<Rightarrow> go_any" where
  "cell_value rawCols = (\<lambda>(c, v). if c \<in> set rawCols then rawJSON v else v)"

definition encode_member :: "(string \<Rightarrow> string) \<Rightarrow> string \<Rightarrow> go_any \<Rightarrow> string + string" where
  "encode_member scan_error c v = bindr (jsonNoEscape scan_error v) (\<lambda>t. Inr (raw_string c @ '':'' @ t))"

definition encodeRowObject ::
  "(string \<Rightarrow> string) \<Rightarrow> string list \<Rightarrow> go_any list \<Rightarrow> string list \<Rightarrow> bool \<Rightarrow> string + string" where
  "encodeRowObject scan_error cols vals rawCols stripNulls =
     (let cells = map (\<lambda>cv. (fst cv, cell_value rawCols cv)) (zip cols vals);
          kept = filter (\<lambda>(c, v). \<not> (stripNulls \<and> v = GNil)) cells in
      bindr (mapr (\<lambda>(c, v). encode_member scan_error c v) kept) (\<lambda>ms. Inr (''{'' @ join '','' ms @ ''}'')))"

definition internal :: "string + 'a \<Rightarrow> api_error + 'a" where
  "internal r = (case r of Inl e \<Rightarrow> Inl (ErrInternal e) | Inr x \<Rightarrow> Inr x)"

definition stream_end :: "result \<Rightarrow> 'a \<Rightarrow> api_error + 'a" where
  "stream_end res x = (case res_err res of Some e \<Rightarrow> Inl (ErrInternal e) | None \<Rightarrow> Inr x)"

text \<open>The loop over the stream that shapes every row, and the one that reads only the first.\<close>

definition all_rows :: "result \<Rightarrow> (go_any list \<Rightarrow> string + 'a) \<Rightarrow> api_error + 'a list" where
  "all_rows res f = bindr (mapr (\<lambda>r. internal (bindr r f)) (res_rows res)) (stream_end res)"

definition first_row :: "result \<Rightarrow> (go_any list \<Rightarrow> string + 'a) \<Rightarrow> api_error + 'a option" where
  "first_row res f =
     (case res_rows res of
        [] \<Rightarrow> stream_end res None
      | r # _ \<Rightarrow> bindr (internal (bindr r f)) (\<lambda>x. stream_end res (Some x)))"

definition singular_error :: "nat \<Rightarrow> api_error" where
  "singular_error n = WithDetails ErrSingularZeroMany (''The result contains '' @ show_nat n @ '' rows'')"

definition renderRows ::
  "(string \<Rightarrow> string) \<Rightarrow> result \<Rightarrow> bool \<Rightarrow> string list \<Rightarrow> bool \<Rightarrow> api_error + rendered" where
  "renderRows scan_error res singular rawCols stripNulls =
     bindr (all_rows res (\<lambda>vals. encodeRowObject scan_error (res_columns res) vals rawCols stripNulls)) (\<lambda>rows.
       let out = (\<lambda>body. \<lparr>rd_body = body, rd_contentType = [], rd_nRows = length rows, rd_total = res_Count res\<rparr>) in
       if singular then
         (case rows of [r] \<Rightarrow> Inr (out r) | _ \<Rightarrow> Inl (singular_error (length rows)))
       else bindr (internal (mapr (raw_message scan_error) rows)) (\<lambda>ts. Inr (out (''['' @ join '','' ts @ '']''))))"

definition renderCSV :: "result \<Rightarrow> api_error + rendered" where
  "renderCSV res =
     bindr (all_rows res (\<lambda>vals. Inr (csv_record (map csvCell (map snd (zip (res_columns res) vals)))))) (\<lambda>recs.
       Inr \<lparr>rd_body = csv_record (res_columns res) @ concat recs, rd_contentType = ''text/csv; charset=utf-8'',
            rd_nRows = length recs, rd_total = res_Count res\<rparr>)"

definition scalar_body :: "go_any option \<Rightarrow> string" where
  "scalar_body v = (case v of None \<Rightarrow> [] | Some w \<Rightarrow> csvCell w)"

definition renderScalar :: "result \<Rightarrow> bool \<Rightarrow> api_error + rendered" where
  "renderScalar res asText =
     (if length (res_columns res) \<noteq> 1
      then Inl (ErrParse ''application/octet-stream and text/plain require a single-column projection'')
      else bindr (first_row res (\<lambda>vals. Inr (hd vals))) (\<lambda>v.
        Inr \<lparr>rd_body = scalar_body v,
             rd_contentType = (if asText then ''text/plain; charset=utf-8'' else ''application/octet-stream''),
             rd_nRows = length (res_rows res), rd_total = res_Count res\<rparr>))"

definition typed :: "string \<Rightarrow> api_error + rendered \<Rightarrow> api_error + rendered" where
  "typed ct r = bindr r (\<lambda>out. Inr (out\<lparr>rd_contentType := ct\<rparr>))"

definition renderFor :: "(string \<Rightarrow> string) \<Rightarrow> string \<Rightarrow> result \<Rightarrow> string list \<Rightarrow> api_error + rendered" where
  "renderFor scan_error media res rawCols =
     (if media = mediaJSON \<or> media = mediaArray then
        typed ''application/json; charset=utf-8'' (renderRows scan_error res False rawCols False)
      else if media = mediaArrayStripped then
        typed ''application/vnd.pgrst.array+json; nulls=stripped; charset=utf-8'' (renderRows scan_error res False rawCols True)
      else if media = mediaObject then
        typed (singularMediaType @ ''; charset=utf-8'') (renderRows scan_error res True rawCols False)
      else if media = mediaObjectStripped then
        typed ''application/vnd.pgrst.object+json; nulls=stripped; charset=utf-8'' (renderRows scan_error res True rawCols True)
      else if media = mediaCSV then renderCSV res
      else if media = mediaOctet then renderScalar res False
      else if media = mediaText then renderScalar res True
      else Inl (ErrInternal (''no renderer for media type '' @ media)))"

subsection \<open>Calls\<close>

definition marshal_list :: "(string \<Rightarrow> string) \<Rightarrow> go_any list \<Rightarrow> string + string" where
  "marshal_list scan_error vs =
     (if vs = [] then Inr ''null'' else bindr (mapr (jsonNoEscape scan_error) vs) (\<lambda>ts. Inr (''['' @ join '','' ts @ '']'')))"

definition renderCallObject :: "(string \<Rightarrow> string) \<Rightarrow> string \<Rightarrow> result \<Rightarrow> api_error + rendered" where
  "renderCallObject scan_error media res =
     (if media = mediaCSV then renderCSV res
      else if media = mediaOctet then renderScalar res False
      else if media = mediaText then renderScalar res True
      else bindr (first_row res (\<lambda>vals. encodeRowObject scan_error (res_columns res) vals [] False)) (\<lambda>obj.
        Inr \<lparr>rd_body = (case obj of Some t \<Rightarrow> t | None \<Rightarrow> ''null''),
             rd_contentType = (if singularMedia media then singularMediaType @ ''; charset=utf-8'' else ''application/json; charset=utf-8''),
             rd_nRows = length (res_rows res), rd_total = res_Count res\<rparr>))"

definition renderVoid :: "result \<Rightarrow> api_error + rendered" where
  "renderVoid res =
     bindr (all_rows res (\<lambda>_. Inr ())) (\<lambda>_.
       Inr \<lparr>rd_body = ''null'', rd_contentType = ''application/json; charset=utf-8'', rd_nRows = 0, rd_total = None\<rparr>)"

definition call_values :: "result \<Rightarrow> string \<Rightarrow> api_error + go_any list" where
  "call_values res declared =
     all_rows res (\<lambda>row. Inr (if res_columns res = [] then GNil else rawJSONValue (hd row) declared))"

definition renderScalarCall :: "(string \<Rightarrow> string) \<Rightarrow> string \<Rightarrow> result \<Rightarrow> return_shape \<Rightarrow> api_error + rendered" where
  "renderScalarCall scan_error media res ret =
     (if media = mediaCSV then renderCSV res
      else if media = mediaOctet then renderScalar res False
      else if media = mediaText then renderScalar res True
      else bindr (call_values res (ret_type ret)) (\<lambda>vals.
        let out = (\<lambda>ct body. \<lparr>rd_body = body, rd_contentType = ct, rd_nRows = length vals, rd_total = res_Count res\<rparr>) in
        if singularMedia media then
          (case vals of
             [v] \<Rightarrow> bindr (internal (jsonNoEscape scan_error v)) (\<lambda>t. Inr (out (singularMediaType @ ''; charset=utf-8'') t))
           | _ \<Rightarrow> Inl (singular_error (length vals)))
        else bindr (internal (if ret_kind ret = ReturnSetOf then marshal_list scan_error vals
                              else jsonNoEscape scan_error (case vals of v # _ \<Rightarrow> v | [] \<Rightarrow> GNil))) (\<lambda>t.
          Inr (out ''application/json; charset=utf-8'' t))))"

definition native_scalar :: return_shape where
  "native_scalar = \<lparr>ret_kind = ReturnScalar, ret_type = [], ret_columns = []\<rparr>"

definition renderCall :: "(string \<Rightarrow> string) \<Rightarrow> string \<Rightarrow> result \<Rightarrow> rpc_function option \<Rightarrow> string \<Rightarrow> api_error + rendered" where
  "renderCall scan_error media res fn fnName =
     (case fn of
        None \<Rightarrow> if res_columns res = [fnName] then renderScalarCall scan_error media res native_scalar
                else renderFor scan_error media res []
      | Some f \<Rightarrow>
          (case ret_kind (f_returns f) of
             ReturnTable \<Rightarrow> renderFor scan_error media res []
           | ReturnObject \<Rightarrow> renderCallObject scan_error media res
           | ReturnVoid \<Rightarrow> renderVoid res
           | _ \<Rightarrow> renderScalarCall scan_error media res (f_returns f)))"

subsection \<open>Content-Range\<close>

text \<open>Go's \<open>int\<close> is 64 bits wide and wraps around.\<close>

definition wrap64 :: "int \<Rightarrow> int" where
  "wrap64 n = (n + 2 ^ 63) mod 2 ^ 64 - 2 ^ 63"

definition total_text :: "int option \<Rightarrow> string" where
  "total_text tot = (case tot of Some t \<Rightarrow> show_int t | None \<Rightarrow> ''*'')"

definition contentRange :: "int \<Rightarrow> nat \<Rightarrow> int option \<Rightarrow> string" where
  "contentRange offset n tot =
     (if n = 0 then ''*/'' @ total_text tot
      else show_int offset @ ''-'' @ show_int (wrap64 (offset + int n - 1)) @ ''/'' @ total_text tot)"


subsection \<open>A JSON body is a JSON document\<close>

text \<open>
  \<open>any_ok\<close> is what the type of a value means in Go: the digits of a float are decimal digits without a leading
  zero, and a decoded document holds the numbers the decoder accepted.
\<close>

definition any_ok :: "go_any \<Rightarrow> bool" where
  "any_ok v = (case v of GFloat neg ds e \<Rightarrow> float_ok ds | GOther j \<Rightarrow> json_ok j | _ \<Rightarrow> True)"

definition result_ok :: "result \<Rightarrow> bool" where
  "result_ok res \<longleftrightarrow>
     list_all (\<lambda>r. case r of Inr vals \<Rightarrow> length vals = length (res_columns res) \<and> list_all any_ok vals | Inl _ \<Rightarrow> True) (res_rows res)"

lemma closed_jsonNoEscape: "jsonNoEscape se v = Inr t \<Longrightarrow> any_ok v \<Longrightarrow> one_value t"
proof (cases v)
  case (GNumber x)
  assume "jsonNoEscape se v = Inr t"
  then show ?thesis using GNumber closed_number zero_number by (auto simp: jsonNoEscape_def split: if_split_asm)
qed (auto simp: jsonNoEscape_def any_ok_def closed_word closed_number show_int_number json_float_number closed_raw_string
      closed_quoted base64_body closed_raw_message closed_json_text)

lemma any_ok_cell: "any_ok v \<Longrightarrow> any_ok (cell_value raw (c, v))"
  by (auto simp: cell_value_def rawJSON_def any_ok_def split: go_any.split)

lemma closed_row:
  assumes "encodeRowObject se cols vals raw strip = Inr t" "list_all any_ok vals"
  shows "one_value t"
proof -
  let ?cells = "filter (\<lambda>(c, v). \<not> (strip \<and> v = GNil)) (map (\<lambda>cv. (fst cv, cell_value raw cv)) (zip cols vals))"
  obtain ms where ms: "mapr (\<lambda>(c, v). encode_member se c v) ?cells = Inr ms" "t = ''{'' @ join '','' ms @ ''}''"
    using assms(1) by (auto simp: encodeRowObject_def Let_def bindr_Inr_conv)
  have "member m" if m: "m \<in> set ms" for m
  proof -
    obtain c v where cv: "(c, v) \<in> set ?cells" "encode_member se c v = Inr m" using mapr_InrD [OF ms(1) m] by auto
    then obtain w where "w \<in> set vals" "v = cell_value raw (c, w)" by (auto dest: set_zip_rightD)
    then have ok: "any_ok v" using assms(2) any_ok_cell by (auto simp: list_all_iff)
    obtain x where "jsonNoEscape se v = Inr x" "m = raw_string c @ '':'' @ x"
      using cv(2) by (auto simp: encode_member_def bindr_Inr_conv)
    then show ?thesis using closed_jsonNoEscape ok member_raw by blast
  qed
  then show ?thesis unfolding ms(2) by (rule closed_object)
qed

lemma internal_Inr [simp]: "internal r = Inr x \<longleftrightarrow> r = Inr x"
  by (cases r) (auto simp: internal_def)

lemma all_rows_Inr:
  assumes "all_rows res f = Inr xs"
  shows "list_all2 (\<lambda>r x. \<exists>vals. r = Inr vals \<and> f vals = Inr x) (res_rows res) xs" "res_err res = None"
proof -
  have m: "mapr (\<lambda>r. internal (bindr r f)) (res_rows res) = Inr xs" and "res_err res = None"
    using assms by (auto simp: all_rows_def stream_end_def bindr_Inr_conv split: option.split_asm)
  then show "list_all2 (\<lambda>r x. \<exists>vals. r = Inr vals \<and> f vals = Inr x) (res_rows res) xs" "res_err res = None"
    by (auto simp: mapr_Inr_conv bindr_Inr_conv)
qed

lemma all_rows_closed:
  assumes "all_rows res f = Inr xs" "result_ok res" "\<And>vals x. f vals = Inr x \<Longrightarrow> list_all any_ok vals \<Longrightarrow> P x"
  shows "\<forall>x \<in> set xs. P x"
proof
  fix x
  assume "x \<in> set xs"
  then obtain i where i: "i < length xs" "x = xs ! i" by (auto simp: in_set_conv_nth)
  then obtain vals where v: "res_rows res ! i = Inr vals" "f vals = Inr x" and l: "i < length (res_rows res)"
    using all_rows_Inr(1) [OF assms(1)] by (auto simp: list_all2_conv_all_nth)
  have "Inr vals \<in> set (res_rows res)" using v(1) l nth_mem by metis
  then have "list_all any_ok vals" using assms(2) by (auto simp: result_ok_def list_all_iff)
  then show "P x" using v(2) assms(3) by blast
qed

lemma renderRows_closed:
  assumes "renderRows se res singular raw strip = Inr out" "result_ok res"
  shows "one_value (rd_body out)"
proof -
  obtain rows where rows: "all_rows res (\<lambda>vals. encodeRowObject se (res_columns res) vals raw strip) = Inr rows"
    using assms(1) by (auto simp: renderRows_def bindr_Inr_conv)
  have c: "\<forall>r \<in> set rows. one_value r" using rows assms(2) by (rule all_rows_closed) (rule closed_row)
  show ?thesis
  proof (cases singular)
    case True
    then obtain r where "rows = [r]" "rd_body out = r"
      using assms(1) rows by (auto simp: renderRows_def Let_def split: list.split_asm)
    then show ?thesis using c by simp
  next
    case False
    then obtain ts where "mapr (raw_message se) rows = Inr ts" "rd_body out = ''['' @ join '','' ts @ '']''"
      using assms(1) rows by (auto simp: renderRows_def Let_def bindr_Inr_conv)
    moreover have "mapr (raw_message se) rows = Inr (map (\<lambda>r. r) rows)" using c by (intro mapr_all_Inr) (simp add: raw_message_closed)
    ultimately show ?thesis using c closed_array [of rows] by simp
  qed
qed

definition json_media :: "string \<Rightarrow> bool" where
  "json_media m \<longleftrightarrow> m \<in> {mediaJSON, mediaArray, mediaObject, mediaArrayStripped, mediaObjectStripped}"

lemma json_media_not: "json_media m \<Longrightarrow> m \<noteq> mediaCSV \<and> m \<noteq> mediaOctet \<and> m \<noteq> mediaText"
  by (auto simp: json_media_def media_defs)

lemma renderFor_closed:
  assumes "renderFor se media res raw = Inr out" "json_media media" "result_ok res"
  shows "one_value (rd_body out)"
  using assms json_media_not [OF assms(2)]
  by (auto simp: renderFor_def typed_def bindr_Inr_conv json_media_def split: if_split_asm dest!: renderRows_closed)

lemma first_row_Inr:
  assumes "first_row res f = Inr x"
  shows "x = None \<and> res_rows res = [] \<or> (\<exists>vals y. Inr vals \<in> set (res_rows res) \<and> f vals = Inr y \<and> x = Some y)"
  using assms by (cases "res_rows res") (auto simp: first_row_def stream_end_def bindr_Inr_conv split: option.split_asm)

lemma renderCallObject_closed:
  assumes "renderCallObject se media res = Inr out" "json_media media" "result_ok res"
  shows "one_value (rd_body out)"
proof -
  obtain obj where obj: "first_row res (\<lambda>vals. encodeRowObject se (res_columns res) vals [] False) = Inr obj"
    "rd_body out = (case obj of Some t \<Rightarrow> t | None \<Rightarrow> ''null'')"
    using assms(1) json_media_not [OF assms(2)] by (auto simp: renderCallObject_def bindr_Inr_conv)
  have "one_value t" if "obj = Some t" for t
    using first_row_Inr [OF obj(1)] assms(3) that closed_row by (fastforce simp: result_ok_def list_all_iff)
  then show ?thesis using obj(2) closed_word by (cases obj) simp_all
qed

lemma any_ok_rawJSONValue: "any_ok v \<Longrightarrow> any_ok (rawJSONValue v d)"
  by (cases v) (simp_all add: rawJSONValue_def any_ok_def)

lemma call_values_ok:
  assumes "call_values res d = Inr vals" "result_ok res"
  shows "\<forall>v \<in> set vals. any_ok v"
proof (cases "res_columns res = []")
  case True
  then show ?thesis using all_rows_closed [OF assms [unfolded call_values_def], of any_ok] by (auto simp: any_ok_def)
next
  case False
  have "any_ok (rawJSONValue (hd row) d)" if "Inr row \<in> set (res_rows res)" for row
  proof -
    have "length row = length (res_columns res)" "list_all any_ok row" using that assms(2) by (auto simp: result_ok_def list_all_iff)
    then show ?thesis using False by (cases row) (auto intro: any_ok_rawJSONValue)
  qed
  moreover have "list_all2 (\<lambda>r x. \<exists>row. r = Inr row \<and> x = rawJSONValue (hd row) d) (res_rows res) vals"
    using all_rows_Inr(1) [OF assms(1) [unfolded call_values_def]] False by (auto elim: list_all2_mono)
  ultimately show ?thesis by (auto simp: list_all2_conv_all_nth in_set_conv_nth) (metis nth_mem)
qed

lemma renderScalarCall_closed:
  assumes "renderScalarCall se media res ret = Inr out" "json_media media" "result_ok res"
  shows "one_value (rd_body out)"
proof -
  obtain vals where vals: "call_values res (ret_type ret) = Inr vals"
    using assms(1) json_media_not [OF assms(2)] by (auto simp: renderScalarCall_def bindr_Inr_conv)
  have ok: "\<forall>v \<in> set vals. any_ok v" using vals assms(3) by (rule call_values_ok)
  consider v where "vals = [v]" "jsonNoEscape se v = Inr (rd_body out)"
    | "marshal_list se vals = Inr (rd_body out)"
    | "jsonNoEscape se (case vals of v # _ \<Rightarrow> v | [] \<Rightarrow> GNil) = Inr (rd_body out)"
    using assms(1) json_media_not [OF assms(2)] vals
    by (auto simp: renderScalarCall_def Let_def bindr_Inr_conv split: if_split_asm list.split_asm)
  then show ?thesis
  proof cases
    case 1
    then show ?thesis using ok closed_jsonNoEscape by simp
  next
    case 2
    show ?thesis
    proof (cases "vals = []")
      case True
      then show ?thesis using 2 closed_word by (simp add: marshal_list_def)
    next
      case False
      then obtain ts where ts: "mapr (jsonNoEscape se) vals = Inr ts" "rd_body out = ''['' @ join '','' ts @ '']''"
        using 2 by (auto simp: marshal_list_def bindr_Inr_conv)
      have "one_value t" if "t \<in> set ts" for t using mapr_InrD [OF ts(1) that] ok closed_jsonNoEscape by blast
      then show ?thesis unfolding ts(2) by (rule closed_array)
    qed
  next
    case 3
    moreover have "any_ok (case vals of v # _ \<Rightarrow> v | [] \<Rightarrow> GNil)" using ok by (cases vals) (simp_all add: any_ok_def)
    ultimately show ?thesis by (rule closed_jsonNoEscape)
  qed
qed

lemma renderVoid_body: "renderVoid res = Inr out \<Longrightarrow> rd_body out = ''null''"
  by (auto simp: renderVoid_def bindr_Inr_conv)

lemma renderCall_closed:
  assumes "renderCall se media res fn name = Inr out" "json_media media" "result_ok res"
  shows "one_value (rd_body out)"
  using assms renderFor_closed renderScalarCall_closed renderCallObject_closed renderVoid_body closed_word
  by (auto simp: renderCall_def split: option.split_asm if_split_asm return_kind.split_asm)

text \<open>
  C26. A response in the JSON family is JSON: whatever the rows and the columns of the result, the names a client
  chose for them and the texts an engine assembled for its embeds among them, the body written for a read or a call
  is accepted by the JSON scanner as one document, with no white space between its tokens. The encoder compacts and
  checks every row a second time; that second pass changes nothing.
\<close>

theorem json_body_valid:
  assumes "json_media media" and "result_ok res"
    and "renderFor scan_error media res rawCols = Inr out \<or> renderCall scan_error media res fn fnName = Inr out"
  shows "json_Valid (rd_body out) \<and> squeeze False (rd_body out) = rd_body out"
  using assms renderFor_closed renderCall_closed closed_Valid by blast

definition demo_controls :: response_controls where
  "demo_controls = \<lparr>rsp_status = 0, rsp_headers = [], rsp_upsert_known = False, rsp_inserted = 0\<rparr>"

definition demo_result :: "string list \<Rightarrow> go_any list list \<Rightarrow> result" where
  "demo_result cols rows = \<lparr>res_columns = cols, res_rows = map Inr rows, res_err = None, res_Count = None, res_Affected = None,
     res_controls = demo_controls\<rparr>"

definition demo_embed_rows :: result where
  "demo_embed_rows = demo_result [''id'', ''orders'', [dquote]]
     [[GInt 7, GString ''[ 1, 2 ]'', GFloat True ''25'' (-1)], [GInt (-1), GNil, GString [bslash]]]"

theorem json_body_valid_witness:
  "\<exists>out. renderFor (\<lambda>_. []) mediaArrayStripped demo_embed_rows [''orders''] = Inr out \<and> json_Valid (rd_body out) \<and>
     rd_nRows out = 2"
proof -
  let ?r = "renderFor (\<lambda>_. []) mediaArrayStripped demo_embed_rows [''orders'']"
  have "\<not> isl ?r \<and> rd_nRows (projr ?r) = 2" by code_simp
  then obtain out where out: "?r = Inr out" "rd_nRows out = 2" by (cases ?r) auto
  have m: "json_media mediaArrayStripped" and ok: "result_ok demo_embed_rows" by code_simp+
  show ?thesis using json_body_valid [OF m ok disjI1 [OF out(1)]] out by auto
qed

subsection \<open>Other facts\<close>

lemma length_all_rows: "all_rows res f = Inr xs \<Longrightarrow> length xs = length (res_rows res)"
  using all_rows_Inr(1) by (fastforce dest: list_all2_lengthD)

lemma renderRows_Inr:
  assumes "renderRows se res singular raw strip = Inr out"
  obtains rows where "all_rows res (\<lambda>vals. encodeRowObject se (res_columns res) vals raw strip) = Inr rows"
    "rd_nRows out = length rows" "rd_total out = res_Count res" "singular \<Longrightarrow> rows = [rd_body out]"
proof -
  obtain rows where r: "all_rows res (\<lambda>vals. encodeRowObject se (res_columns res) vals raw strip) = Inr rows"
    using assms by (auto simp: renderRows_def bindr_Inr_conv)
  show ?thesis
  proof (cases singular)
    case True
    then obtain t where "rows = [t]" using assms r by (cases rows; cases "tl rows") (auto simp: renderRows_def Let_def)
    then show ?thesis using that [OF r] assms r True by (auto simp: renderRows_def Let_def)
  next
    case False
    then show ?thesis using that [OF r] assms r by (auto simp: renderRows_def Let_def bindr_Inr_conv)
  qed
qed

lemma renderFor_rows: "renderFor se media res raw = Inr out \<Longrightarrow> rd_nRows out = length (res_rows res) \<and> rd_total out = res_Count res"
  by (auto simp: renderFor_def typed_def renderCSV_def renderScalar_def bindr_Inr_conv
      elim!: renderRows_Inr dest!: length_all_rows split: if_split_asm)

text \<open>
  A client that asks for a single object gets one or an error: the object media types render only a result of
  exactly one row, and the body is then that row's object; any other number of readable rows is refused with 406
  PGRST116.
\<close>

theorem singular_render:
  assumes "singularMedia media"
  shows "(renderFor scan_error media res rawCols = Inr out \<longrightarrow>
            (\<exists>vals. res_rows res = [Inr vals] \<and>
              encodeRowObject scan_error (res_columns res) vals rawCols (media = mediaObjectStripped) = Inr (rd_body out))) \<and>
         (\<forall>rows. all_rows res (\<lambda>vals. encodeRowObject scan_error (res_columns res) vals rawCols (media = mediaObjectStripped)) = Inr rows \<and>
            length rows \<noteq> 1 \<longrightarrow>
            (\<exists>e. renderFor scan_error media res rawCols = Inl e \<and> http_status e = 406 \<and> code e = ''PGRST116''))"
proof -
  let ?rows = "all_rows res (\<lambda>vals. encodeRowObject scan_error (res_columns res) vals rawCols (media = mediaObjectStripped))"
  obtain ct where r: "renderFor scan_error media res rawCols = typed ct (renderRows scan_error res True rawCols (media = mediaObjectStripped))"
    using assms by (auto simp: renderFor_def singularMedia_def media_defs)
  show ?thesis
  proof (intro conjI impI allI)
    assume "renderFor scan_error media res rawCols = Inr out"
    then obtain t where "?rows = Inr [t]" "rd_body out = t"
      unfolding r by (auto simp: typed_def bindr_Inr_conv elim!: renderRows_Inr)
    then show "\<exists>vals. res_rows res = [Inr vals] \<and>
        encodeRowObject scan_error (res_columns res) vals rawCols (media = mediaObjectStripped) = Inr (rd_body out)"
      using all_rows_Inr(1) [of res _ "[t]"] by (auto simp: list_all2_Cons2)
  next
    fix rows
    assume "?rows = Inr rows \<and> length rows \<noteq> 1"
    then show "\<exists>e. renderFor scan_error media res rawCols = Inl e \<and> http_status e = 406 \<and> code e = ''PGRST116''"
      unfolding r by (cases rows rule: remdups_adj.cases)
        (auto simp: typed_def renderRows_def Let_def singular_error_def WithDetails_def ErrSingularZeroMany_def New_def)
  qed
qed

theorem singular_render_witness:
  "renderFor (\<lambda>_. []) mediaObject (demo_result [''id''] [[GInt 1], [GInt 2]]) [] = Inl (singular_error 2) \<and>
   (\<exists>e. renderFor (\<lambda>_. []) mediaObject (demo_result [''id''] [[GInt 1], [GInt 2]]) [] = Inl e \<and> http_status e = 406 \<and> code e = ''PGRST116'')"
proof -
  let ?res = "demo_result [''id''] [[GInt 1], [GInt 2]]"
  have m: "singularMedia mediaObject" by code_simp
  have r: "renderFor (\<lambda>_. []) mediaObject ?res [] = Inl (singular_error 2)" by code_simp
  have "(case all_rows ?res (\<lambda>vals. encodeRowObject (\<lambda>_. []) (res_columns ?res) vals [] (mediaObject = mediaObjectStripped)) of
      Inr rows \<Rightarrow> length rows = 2 | Inl _ \<Rightarrow> False)" by code_simp
  then obtain rows where "all_rows ?res (\<lambda>vals. encodeRowObject (\<lambda>_. []) (res_columns ?res) vals [] (mediaObject = mediaObjectStripped)) = Inr rows"
    "length rows \<noteq> 1" by (auto split: sum.split_asm)
  then show ?thesis using singular_render [OF m, of "\<lambda>_. []" ?res "[]"] r by blast
qed

text \<open>
  A function that returns a set of scalars and yields no row answers the JSON document null, not the empty array:
  the slice the renderer collects is nil when no row was appended to it.
\<close>

theorem empty_setof_is_null:
  assumes "ret_kind (f_returns f) = ReturnSetOf" and "res_rows res = []" and "res_err res = None"
  shows "renderCall scan_error mediaJSON res (Some f) fnName =
    Inr \<lparr>rd_body = ''null'', rd_contentType = ''application/json; charset=utf-8'', rd_nRows = 0, rd_total = res_Count res\<rparr>"
  using assms
  by (simp add: renderCall_def renderScalarCall_def call_values_def all_rows_def stream_end_def marshal_list_def internal_def
      singularMedia_def media_defs)

theorem empty_setof_is_null_witness:
  "rd_body (projr (renderCall (\<lambda>_. []) mediaJSON (demo_result [''v''] []) (Some (demo_function []\<lparr>f_returns := \<lparr>ret_kind = ReturnSetOf,
     ret_type = ''int4'', ret_columns = []\<rparr>\<rparr>)) ''ids'')) = ''null''"
  by (subst empty_setof_is_null) (simp_all add: demo_result_def)

text \<open>
  A CSV cell prints a float with the exponent form from a million up, where the text output of PostgreSQL and the JSON
  body of the same row have plain digits.
\<close>

theorem csv_float_exponent:
  "csvCell (GFloat False ''12345675'' 6) = ''1.2345675e+06'' \<and>
   jsonNoEscape scan_error (GFloat False ''12345675'' 6) = Inr ''1234567.5''"
proof -
  have "csvCell (GFloat False ''12345675'' 6) = ''1.2345675e+06''" "json_float False ''12345675'' 6 = ''1234567.5''" by code_simp+
  then show ?thesis by (simp add: jsonNoEscape_def)
qed

end
