(* ===== verification/Parse_Lex.thy ===== *)
theory Parse_Lex
  imports Ir
begin

section \<open>Package ir: the lexical level of the request parser\<close>

text \<open>
  The scanners of \<open>src/ir/parse.go\<close>: splitting outside brackets and quotes, cutting outside
  quotes, quoting and unquoting, column paths, operator tokens, element lists. An index loop over
  the bytes of a string is a recursion over the string; the piece a Go slice \<open>s[start:i]\<close> cuts
  out is collected by \<open>cons_hd\<close>.
\<close>

subsection \<open>Splitting and cutting\<close>

text \<open>
  \<open>splitTopLevel\<close>: the loop state is the bracket depth (an int, which unbalanced input takes below
  zero) and whether the scan is inside quotes. The source's error result is always nil.
\<close>

fun split_scan :: "char \<Rightarrow> int \<Rightarrow> bool \<Rightarrow> string \<Rightarrow> string list" where
  "split_scan sep depth inQuote [] = [[]]"
| "split_scan sep depth inQuote (c # s) =
     (if inQuote then
        (if c = bslash \<and> s \<noteq> []
         then cons_hd c (case s of x # t \<Rightarrow> cons_hd x (split_scan sep depth True t) | [] \<Rightarrow> [[]])
         else cons_hd c (split_scan sep depth (c \<noteq> dquote) s))
      else if c = dquote then cons_hd c (split_scan sep depth True s)
      else if c = CHR ''('' \<or> c = CHR ''{'' then cons_hd c (split_scan sep (depth + 1) False s)
      else if c = CHR '')'' \<or> c = CHR ''}'' then cons_hd c (split_scan sep (depth - 1) False s)
      else if c = sep \<and> depth = 0 then [] # split_scan sep depth False s
      else cons_hd c (split_scan sep depth False s))"

definition splitTopLevel :: "string \<Rightarrow> char \<Rightarrow> string list" where
  "splitTopLevel s sep = split_scan sep 0 False s"

text \<open>\<open>cutIdentAware\<close>: \<open>None\<close> is the result \<open>(s, "", false)\<close>.\<close>

fun cut_scan :: "char \<Rightarrow> bool \<Rightarrow> string \<Rightarrow> (string \<times> string) option" where
  "cut_scan sep inQuote [] = None"
| "cut_scan sep inQuote (c # s) =
     (if inQuote then
        (if c = bslash \<and> s \<noteq> []
         then (case s of x # t \<Rightarrow> map_option (map_prod (\<lambda>a. c # x # a) id) (cut_scan sep True t) | [] \<Rightarrow> None)
         else map_option (map_prod ((#) c) id) (cut_scan sep (c \<noteq> dquote) s))
      else if c = dquote then map_option (map_prod ((#) c) id) (cut_scan sep True s)
      else if c = sep then Some ([], s)
      else map_option (map_prod ((#) c) id) (cut_scan sep False s))"

definition cutIdentAware :: "string \<Rightarrow> char \<Rightarrow> (string \<times> string) option" where
  "cutIdentAware s sep = cut_scan sep False s"

text \<open>\<open>cutAliasAware\<close>: the first single colon outside quotes; \<open>None\<close> is \<open>("", s, false)\<close>.\<close>

fun alias_scan :: "bool \<Rightarrow> string \<Rightarrow> (string \<times> string) option" where
  "alias_scan inQuote [] = None"
| "alias_scan inQuote (c # s) =
     (if inQuote then
        (if c = bslash \<and> s \<noteq> []
         then (case s of x # t \<Rightarrow> map_option (map_prod (\<lambda>a. c # x # a) id) (alias_scan True t) | [] \<Rightarrow> None)
         else map_option (map_prod ((#) c) id) (alias_scan (c \<noteq> dquote) s))
      else if c = dquote then map_option (map_prod ((#) c) id) (alias_scan True s)
      else if c = CHR '':'' then
        (case s of
           x # t \<Rightarrow> if x = CHR '':'' then map_option (map_prod (\<lambda>a. c # x # a) id) (alias_scan False t)
                     else Some ([], s)
         | [] \<Rightarrow> Some ([], s))
      else map_option (map_prod ((#) c) id) (alias_scan False s))"

definition cutAliasAware :: "string \<Rightarrow> (string \<times> string) option" where
  "cutAliasAware s = alias_scan False s"

definition splitComma :: "string \<Rightarrow> string list" where
  "splitComma s = filter (\<lambda>p. p \<noteq> []) (map trim_space (split_byte CHR '','' s))"

subsection \<open>Quoting\<close>

definition unquoteIdent :: "string \<Rightarrow> string" where
  "unquoteIdent s = (if wrapped dquote dquote s then undouble_quotes (strip_ends s) else s)"

fun unescape_scan :: "string \<Rightarrow> string" where
  "unescape_scan [] = []"
| "unescape_scan (c # s) =
     (if c = bslash \<and> s \<noteq> [] then (case s of x # t \<Rightarrow> x # unescape_scan t | [] \<Rightarrow> [])
      else c # unescape_scan s)"

definition unescapeQuoted :: "string \<Rightarrow> string" where
  "unescapeQuoted s = (if bslash \<notin> set s then s else unescape_scan s)"

subsection \<open>Column paths\<close>

text \<open>
  The sweep of \<open>parsePath\<close>: \<open>lst\<close> is the kind of the arrow seen last. The result is the raw hops and
  the final arrow.
\<close>

fun path_scan :: "bool \<Rightarrow> json_step \<Rightarrow> string \<Rightarrow> string list \<times> json_step" where
  "path_scan inQuote lst [] = ([[]], lst)"
| "path_scan inQuote lst (c # s) =
     (if inQuote then
        (if c = bslash \<and> s \<noteq> []
         then (case s of x # t \<Rightarrow> map_prod (\<lambda>h. cons_hd c (cons_hd x h)) id (path_scan True lst t)
               | [] \<Rightarrow> ([[]], lst))
         else map_prod (cons_hd c) id (path_scan (c \<noteq> dquote) lst s))
      else if c = dquote then map_prod (cons_hd c) id (path_scan True lst s)
      else if c = CHR ''-'' then
        (case s of
           x # t \<Rightarrow>
             if x = CHR ''>'' then
               (case t of
                  y # u \<Rightarrow> if y = CHR ''>'' then map_prod ((#) []) id (path_scan False JSONArrow2 u)
                            else map_prod ((#) []) id (path_scan False JSONArrow t)
                | [] \<Rightarrow> map_prod ((#) []) id (path_scan False JSONArrow t))
             else map_prod (cons_hd c) id (path_scan False lst s)
         | [] \<Rightarrow> map_prod (cons_hd c) id (path_scan False lst s))
      else map_prod (cons_hd c) id (path_scan False lst s))"

definition parsePath :: "string \<Rightarrow> api_error + string list \<times> json_step" where
  "parsePath raw =
     (if raw = [] then Inl (ErrParse ''empty column reference'')
      else
        let (raw_hops, lst) = path_scan False JSONNone raw;
            hops = map unquoteIdent raw_hops
        in if [] \<in> set hops then Inl (ErrParse ''empty hop in column path'')
           else Inr (hops, if length hops = 1 then JSONNone else lst))"

definition cast_first_char :: "char \<Rightarrow> bool" where
  "cast_first_char r \<longleftrightarrow>
     CHR ''a'' \<le> r \<and> r \<le> CHR ''z'' \<or> CHR ''A'' \<le> r \<and> r \<le> CHR ''Z'' \<or> r = CHR ''_''"

definition cast_char :: "char \<Rightarrow> bool" where
  "cast_char r \<longleftrightarrow>
     cast_first_char r \<or> CHR ''0'' \<le> r \<and> r \<le> CHR ''9'' \<or> r \<in> set '' .(),[]''"

text \<open>
  \<open>validCastType\<close> ranges over the runes of the string; a rune outside ASCII, like each of its bytes,
  falls into the default branch, so the test over bytes is the same.
\<close>

definition validCastType :: "string \<Rightarrow> bool" where
  "validCastType s = (case s of [] \<Rightarrow> True | r # rs \<Rightarrow> cast_first_char r \<and> list_all cast_char rs)"

subsection \<open>Operator tokens\<close>

definition ftsVariant :: "string \<Rightarrow> fts_variant option" where
  "ftsVariant tok =
     (if tok = ''fts'' then Some FTSPlain
      else if tok = ''plfts'' then Some FTSPlainText
      else if tok = ''phfts'' then Some FTSPhrase
      else if tok = ''wfts'' then Some FTSWeb
      else None)"

definition opFromToken :: "string \<Rightarrow> filter_op option" where
  "opFromToken tok =
     (if tok = ''eq'' then Some OpEq else if tok = ''neq'' then Some OpNeq
      else if tok = ''gt'' then Some OpGt else if tok = ''gte'' then Some OpGte
      else if tok = ''lt'' then Some OpLt else if tok = ''lte'' then Some OpLte
      else if tok = ''like'' then Some OpLike else if tok = ''ilike'' then Some OpILike
      else if tok = ''match'' then Some OpMatch else if tok = ''imatch'' then Some OpIMatch
      else if tok = ''in'' then Some OpIn else if tok = ''is'' then Some OpIs
      else if tok = ''isdistinct'' then Some OpIsDistinct
      else if tok = ''cs'' then Some OpContains else if tok = ''cd'' then Some OpContained
      else if tok = ''ov'' then Some OpOverlap
      else if tok = ''sl'' then Some OpRangeSL else if tok = ''sr'' then Some OpRangeSR
      else if tok = ''nxr'' then Some OpRangeNXR else if tok = ''nxl'' then Some OpRangeNXL
      else if tok = ''adj'' then Some OpRangeAdj
      else None)"

definition isQuantifiable :: "filter_op \<Rightarrow> bool" where
  "isQuantifiable op \<longleftrightarrow>
     op \<in> {OpEq, OpGt, OpGte, OpLt, OpLte, OpLike, OpILike, OpMatch, OpIMatch}"

definition aggFuncByName :: "string \<Rightarrow> agg_func option" where
  "aggFuncByName fn =
     (if fn = ''count'' then Some AggCount else if fn = ''sum'' then Some AggSum
      else if fn = ''avg'' then Some AggAvg else if fn = ''min'' then Some AggMin
      else if fn = ''max'' then Some AggMax else None)"

subsection \<open>Element lists\<close>

text \<open>The element loop that \<open>parseInList\<close> and \<open>parseBraceList\<close> share.\<close>

definition list_element :: "string \<Rightarrow> string" where
  "list_element raw =
     (let p = trim_space raw in if wrapped dquote dquote p then unescapeQuoted (strip_ends p) else p)"

definition parseInList :: "string \<Rightarrow> api_error + string list" where
  "parseInList raw0 =
     (let raw = trim_space raw0 in
      if \<not> wrapped CHR ''('' CHR '')'' raw then Inl (ErrParse ''in. expects a parenthesized list'')
      else let inner = strip_ends raw in
        if inner = [] then Inl (ErrParse ''in. expects at least one value'')
        else Inr (map list_element (splitTopLevel inner CHR '','')))"

definition parseBraceList :: "string \<Rightarrow> api_error + string list" where
  "parseBraceList raw0 =
     (let raw = trim_space raw0 in
      if \<not> wrapped CHR ''{'' CHR ''}'' raw
      then Inl (ErrParse (''any/all expects a {'' @ [CHR 0xE2, CHR 0x80, CHR 0xA6] @ ''} list''))
      else let inner = strip_ends raw in
        if inner = [] then Inl (ErrParse ''any/all list must have at least one value'')
        else Inr (map list_element (splitTopLevel inner CHR '','')))"

subsection \<open>Sorting\<close>

text \<open>
  \<open>sortStrings\<close>: insertion by adjacent swaps. \<open>sift_down\<close> is the inner loop, which carries the
  element at position \<open>i\<close> leftwards over the larger ones; it reads the sorted prefix from its end.
\<close>

fun sift_down :: "string \<Rightarrow> string list \<Rightarrow> string list" where
  "sift_down x [] = [x]"
| "sift_down x (y # rev_prefix) = (if y > x then y # sift_down x rev_prefix else x # y # rev_prefix)"

definition sortStrings :: "string list \<Rightarrow> string list" where
  "sortStrings xs = rev (fold sift_down xs [])"


section \<open>Facts about the scanners\<close>

subsection \<open>Writing what the scanners read\<close>

text \<open>
  The inverse direction, used to state round trips: an element of a list between quotes with its
  quotes and backslashes escaped, an identifier between quotes with its quotes doubled, a path
  with its arrows.
\<close>

fun escape_quoted :: "string \<Rightarrow> string" where
  "escape_quoted [] = []"
| "escape_quoted (c # s) = (if c = dquote \<or> c = bslash then bslash # c # escape_quoted s else c # escape_quoted s)"

definition quote_element :: "string \<Rightarrow> string" where
  "quote_element v = dquote # escape_quoted v @ [dquote]"

fun double_quotes :: "string \<Rightarrow> string" where
  "double_quotes [] = []"
| "double_quotes (c # s) = (if c = dquote then dquote # dquote # double_quotes s else c # double_quotes s)"

definition quote_ident :: "string \<Rightarrow> string" where
  "quote_ident h = dquote # double_quotes h @ [dquote]"

fun arrow_text :: "json_step \<Rightarrow> string" where
  "arrow_text JSONArrow2 = ''->>''"
| "arrow_text _ = ''->''"

text \<open>\<open>render_path first hops\<close> writes the base column and then each hop with the arrow before it.\<close>

definition render_path :: "string \<Rightarrow> (json_step \<times> string) list \<Rightarrow> string" where
  "render_path h hops = quote_ident h @ concat (map (\<lambda>(a, x). arrow_text a @ quote_ident x) hops)"

subsection \<open>The pieces of a scan\<close>

text \<open>\<open>prep xs ps\<close> puts the text \<open>xs\<close> in front of the first piece.\<close>

definition prep :: "string \<Rightarrow> string list \<Rightarrow> string list" where
  "prep xs ps = foldr cons_hd xs ps"

lemma prep_Nil [simp]: "prep [] ps = ps"
  by (simp add: prep_def)

lemma prep_Cons [simp]: "prep (x # xs) ps = cons_hd x (prep xs ps)"
  by (simp add: prep_def)

lemma prep_append: "prep (xs @ ys) ps = prep xs (prep ys ps)"
  by (induction xs) auto

lemma prep_piece [simp]: "prep xs (p # ps) = (xs @ p) # ps"
  by (induction xs) auto

text \<open>
  The scanners share their treatment of quotes, and so one induction: inside quotes an escaped
  byte is skipped, any other byte is read alone; outside, every shorter string may be assumed.
\<close>

lemma quote_induct [case_names Nil Esc Quoted Plain]:
  assumes "\<And>q. P q []"
    and "\<And>x t. P True t \<Longrightarrow> P True (bslash # x # t)"
    and "\<And>c s. c \<noteq> bslash \<or> s = [] \<Longrightarrow> P (c \<noteq> dquote) s \<Longrightarrow> P True (c # s)"
    and "\<And>c s. (\<And>q t. length t \<le> length s \<Longrightarrow> P q t) \<Longrightarrow> P False (c # s)"
  shows "P q s"
proof (induction s arbitrary: q rule: length_induct)
  case (1 s)
  show ?case
  proof (cases s)
    case (Cons c t)
    note s = this
    show ?thesis
    proof (cases q)
      case True
      show ?thesis
      proof (cases "c = bslash \<and> t \<noteq> []")
        case True
        then obtain x u where "t = x # u" by (cases t) auto
        with True s \<open>q\<close> 1 assms(2) [of u x] show ?thesis by simp
      next
        case False
        with s \<open>q\<close> 1 assms(3) [of c t] show ?thesis by auto
      qed
    next
      case False
      with s 1 assms(4) [of t c] show ?thesis by (simp add: less_Suc_eq_le)
    qed
  qed (simp add: assms(1))
qed

text \<open>A byte outside quotes either ends a piece or joins it, and moves the depth.\<close>

definition depth_after :: "char \<Rightarrow> int \<Rightarrow> int" where
  "depth_after c d = (if c = CHR ''('' \<or> c = CHR ''{'' then d + 1
     else if c = CHR '')'' \<or> c = CHR ''}'' then d - 1 else d)"

definition ends_piece :: "char \<Rightarrow> int \<Rightarrow> char \<Rightarrow> bool" where
  "ends_piece sep d c \<longleftrightarrow> c = sep \<and> d = 0 \<and> c \<noteq> dquote \<and> c \<noteq> CHR ''('' \<and> c \<noteq> CHR ''{'' \<and>
     c \<noteq> CHR '')'' \<and> c \<noteq> CHR ''}''"

lemma split_scan_plain: "split_scan sep d False (c # s) =
  (if ends_piece sep d c then [] # split_scan sep d False s
   else cons_hd c (split_scan sep (depth_after c d) (c = dquote) s))"
  by (auto simp: ends_piece_def depth_after_def)

lemma split_scan_nonempty [simp]: "split_scan sep d q s \<noteq> []"
  by (cases s) (simp_all split: list.splits)

lemma join_split_scan: "join [sep] (split_scan sep d q s) = s"
  by (induction q s arbitrary: d rule: quote_induct) simp_all

interpretation st: splitter "\<lambda>s. splitTopLevel s sep" "[sep]" for sep
  by unfold_locales (simp_all add: splitTopLevel_def join_split_scan)

lemma cons_hd_eq_Cons: "cons_hd c ps = q # qs \<longleftrightarrow> (ps = [] \<and> q = [c] \<and> qs = []) \<or> (\<exists>p. ps = p # qs \<and> q = c # p)"
  by (cases ps) auto

text \<open>A piece read again is one piece: its separators are all inside brackets or quotes.\<close>

lemma split_scan_head: "split_scan sep d q s = p # ps \<Longrightarrow> split_scan sep d q p = [p]"
proof (induction q s arbitrary: d p ps rule: quote_induct)
  case (Esc x t)
  then obtain p' where "split_scan sep d True t = p' # ps" "p = bslash # x # p'"
    by (auto simp: cons_hd_eq_Cons)
  with Esc.IH show ?case by simp
next
  case (Quoted c s)
  then obtain p' where p': "split_scan sep d (c \<noteq> dquote) s = p' # ps" "p = c # p'"
    by (auto simp: cons_hd_eq_Cons)
  from p'(1) have "split_scan sep d (c \<noteq> dquote) p' = [p']" by (rule Quoted.IH)
  moreover have "c \<noteq> bslash \<or> p' = []" using Quoted.hyps p' by auto
  ultimately show ?case by (auto simp: p'(2))
next
  case (Plain c s)
  have IH: "split_scan sep d' q' s = r # rs \<Longrightarrow> split_scan sep d' q' r = [r]" for d' q' r rs
    using Plain.IH [of s] by blast
  show ?case using Plain.prems IH
    by (cases "ends_piece sep d c")
      (auto simp: split_scan_plain cons_hd_eq_Cons simp del: split_scan.simps(2))
qed simp

lemma split_scan_tail:
  "split_scan sep d q s = p # ps \<Longrightarrow> x \<in> set ps \<Longrightarrow> split_scan sep 0 False x = [x]"
proof (induction q s arbitrary: d p ps rule: quote_induct)
  case (Esc y t)
  then show ?case by (auto simp: cons_hd_eq_Cons)
next
  case (Quoted c s)
  then obtain p' where "split_scan sep d (c \<noteq> dquote) s = p' # ps"
    by (auto simp: cons_hd_eq_Cons)
  then show ?case using Quoted.prems(2) by (rule Quoted.IH)
next
  case (Plain c s)
  obtain d' q' r rs where scan: "split_scan sep d' q' s = r # rs"
    and rest: "ps = rs \<or> ps = r # rs \<and> d' = 0 \<and> \<not> q'"
  proof (cases "ends_piece sep d c")
    case True
    obtain r rs where "split_scan sep d False s = r # rs" by (metis neq_Nil_conv split_scan_nonempty)
    with True Plain.prems(1) that [of d False r rs] show thesis
      by (auto simp: split_scan_plain ends_piece_def simp del: split_scan.simps(2))
  next
    case False
    with Plain.prems(1) that [of "depth_after c d" "c = dquote" "tl p" ps] show thesis
      by (auto simp: split_scan_plain cons_hd_eq_Cons simp del: split_scan.simps(2))
  qed
  show ?case
  proof (cases "x \<in> set rs")
    case True
    then show ?thesis using Plain.IH scan by blast
  next
    case False
    then have "x = r" "d' = 0" "\<not> q'" using rest Plain.prems(2) by auto
    with split_scan_head [OF scan] show ?thesis by simp
  qed
qed simp

lemma split_piece_whole: "p \<in> set (splitTopLevel s sep) \<Longrightarrow> splitTopLevel p sep = [p]"
  unfolding splitTopLevel_def
  by (cases "split_scan sep 0 False s") (auto dest: split_scan_head split_scan_tail)

subsection \<open>Quoted text\<close>

lemma split_scan_escaped:
  "split_scan sep d True (escape_quoted v @ dquote # s) = prep (escape_quoted v @ [dquote]) (split_scan sep d False s)"
  by (induction v) auto

lemma split_scan_quoted: "split_scan sep d False (quote_element v @ s) = prep (quote_element v) (split_scan sep d False s)"
  by (simp add: quote_element_def split_scan_escaped)

lemma split_quoted_elements:
  "vs \<noteq> [] \<Longrightarrow> splitTopLevel (join '','' (map quote_element vs)) CHR '','' = map quote_element vs"
proof (induction vs)
  case (Cons v vs)
  show ?case
  proof (cases vs)
    case Nil
    then show ?thesis
      using split_scan_quoted [of "CHR '',''" 0 v "[]"] by (simp add: splitTopLevel_def)
  next
    case (Cons w ws)
    with Cons.IH show ?thesis by (simp add: splitTopLevel_def split_scan_quoted)
  qed
qed simp

lemma unescape_escape: "unescape_scan (escape_quoted v) = v"
  by (induction v) auto

lemma escape_bslash: "bslash \<notin> set (escape_quoted v) \<Longrightarrow> escape_quoted v = v"
  by (induction v) (auto split: if_splits)

lemma unescapeQuoted_escape [simp]: "unescapeQuoted (escape_quoted v) = v"
  by (simp add: unescapeQuoted_def unescape_escape escape_bslash)

lemma graphic_dquote [simp]: "graphic dquote"
  by (simp add: graphic_def less_eq_char_def)

lemma list_element_quote [simp]: "list_element (quote_element v) = v"
  by (simp add: list_element_def quote_element_def trim_space_wrapped Let_def)

lemma undouble_double [simp]: "undouble_quotes (double_quotes h) = h"
proof (induction h)
  case (Cons c h)
  then show ?case by (cases "double_quotes h") auto
qed simp

lemma unquote_quote_ident [simp]: "unquoteIdent (quote_ident h) = h"
  by (simp add: unquoteIdent_def quote_ident_def)

subsection \<open>Cuts\<close>

lemma cut_scan_Some: "cut_scan sep q s = Some (a, b) \<Longrightarrow> s = a @ sep # b"
  by (induction q s arbitrary: a rule: quote_induct) (auto split: if_split_asm)

lemma cutIdentAware_Some: "cutIdentAware s sep = Some (a, b) \<Longrightarrow> s = a @ sep # b"
  by (simp add: cutIdentAware_def cut_scan_Some)

lemma cut_scan_doubled:
  "bslash \<notin> set h \<Longrightarrow> cut_scan sep True (double_quotes h @ dquote # s) =
     map_option (map_prod ((@) (double_quotes h @ [dquote])) id) (cut_scan sep False s)"
  by (cases "cut_scan sep False s") (induction h; auto)+

lemma cutIdentAware_quoted:
  assumes "bslash \<notin> set h" "sep \<noteq> dquote"
  shows "cutIdentAware (quote_ident h @ sep # s) sep = Some (quote_ident h, s)"
  using assms by (simp add: cutIdentAware_def quote_ident_def cut_scan_doubled)

lemma cut_scan_plain:
  "sep \<notin> set h \<Longrightarrow> dquote \<notin> set h \<Longrightarrow> sep \<noteq> dquote \<Longrightarrow> cut_scan sep False (h @ sep # s) = Some (h, s)"
  by (induction h) auto

lemma cut_scan_plain_None: "sep \<notin> set h \<Longrightarrow> dquote \<notin> set h \<Longrightarrow> cut_scan sep False h = None"
  by (induction h) auto

lemma alias_scan_Some: "alias_scan q s = Some (a, b) \<Longrightarrow> s = a @ CHR '':'' # b"
  by (induction q s arbitrary: a rule: quote_induct) (auto split: if_split_asm list.split_asm)

subsection \<open>Paths\<close>

lemma path_scan_doubled:
  "bslash \<notin> set h \<Longrightarrow> path_scan True l (double_quotes h @ dquote # s) =
     map_prod (prep (double_quotes h @ [dquote])) id (path_scan False l s)"
  by (induction h) (auto simp: map_prod_def split_beta)

lemma path_scan_quoted:
  "bslash \<notin> set h \<Longrightarrow> path_scan False l (quote_ident h @ s) =
     map_prod (prep (quote_ident h)) id (path_scan False l s)"
  by (simp add: quote_ident_def path_scan_doubled map_prod_def split_beta)

lemma path_scan_arrow:
  "a \<noteq> JSONNone \<Longrightarrow> path_scan False l (arrow_text a @ quote_ident h @ s) =
     map_prod ((#) []) id (path_scan False a (quote_ident h @ s))"
  by (cases a) (simp_all add: quote_ident_def)

text \<open>The last arrow of a list of hops, or the arrow seen before them.\<close>

definition final_arrow :: "json_step \<Rightarrow> (json_step \<times> string) list \<Rightarrow> json_step" where
  "final_arrow l hops = (if hops = [] then l else fst (last hops))"

lemma path_scan_hops:
  "\<forall>(a, x) \<in> set hops. a \<noteq> JSONNone \<and> bslash \<notin> set x \<Longrightarrow>
   path_scan False l (concat (map (\<lambda>(a, x). arrow_text a @ quote_ident x) hops)) =
     ([] # map (quote_ident \<circ> snd) hops, final_arrow l hops)"
proof (induction hops arbitrary: l)
  case (Cons p hops)
  obtain a x where p: "p = (a, x)" by fastforce
  with Cons.prems have ax: "a \<noteq> JSONNone" "bslash \<notin> set x"
    and hops: "\<forall>(a, x) \<in> set hops. a \<noteq> JSONNone \<and> bslash \<notin> set x" by auto
  show ?case
    using Cons.IH [OF hops] ax by (simp add: p path_scan_arrow path_scan_quoted final_arrow_def)
qed (simp add: final_arrow_def)

lemma path_scan_render:
  assumes "bslash \<notin> set h" "\<forall>(a, x) \<in> set hops. a \<noteq> JSONNone \<and> bslash \<notin> set x"
  shows "path_scan False JSONNone (render_path h hops) =
     (map quote_ident (h # map snd hops), final_arrow JSONNone hops)"
  using assms by (simp add: render_path_def path_scan_quoted path_scan_hops)

subsection \<open>Errors\<close>

lemma parsePath_error: "parsePath s = Inl e \<Longrightarrow> is_parse_error e"
  by (auto simp: parsePath_def Let_def split: if_splits prod.splits)

lemma parseInList_error: "parseInList s = Inl e \<Longrightarrow> is_parse_error e"
  by (auto simp: parseInList_def Let_def split: if_splits)

lemma parseBraceList_error: "parseBraceList s = Inl e \<Longrightarrow> is_parse_error e"
  by (auto simp: parseBraceList_def Let_def split: if_splits)

lemmas lex_errors = parsePath_error parseInList_error parseBraceList_error

lemma parsePath_nonempty: "parsePath s = Inr (hops, l) \<Longrightarrow> hops \<noteq> [] \<and> [] \<notin> set hops"
proof -
  assume "parsePath s = Inr (hops, l)"
  moreover have "fst (path_scan q l' t) \<noteq> []" for q l' t
    by (induction q l' t rule: path_scan.induct) (auto split: list.splits)
  ultimately show ?thesis
    by (auto simp: parsePath_def Let_def split_beta split: if_splits)
qed

lemma path_last_none: "parsePath s = Inr (hops, l) \<Longrightarrow> length hops = 1 \<Longrightarrow> l = JSONNone"
  by (auto simp: parsePath_def Let_def split: if_splits prod.splits)

subsection \<open>Sorting\<close>

lemma mset_sift_down [simp]: "mset (sift_down x ys) = add_mset x (mset ys)"
  by (induction ys) auto

lemma set_sift_down [simp]: "set (sift_down x ys) = insert x (set ys)"
  by (induction ys) auto

lemma sift_down_sorted: "sorted (rev ys) \<Longrightarrow> sorted (rev (sift_down x ys))"
  by (induction ys) (auto simp: sorted_append)

lemma fold_sift_down: "sorted (rev acc) \<Longrightarrow>
  sorted (rev (fold sift_down xs acc)) \<and> mset (fold sift_down xs acc) = mset xs + mset acc"
  by (induction xs arbitrary: acc) (auto simp: sift_down_sorted)

lemma sortStrings_sorts: "sorted (sortStrings xs)" "mset (sortStrings xs) = mset xs"
  using fold_sift_down [of "[]" xs] by (simp_all add: sortStrings_def)

lemma set_sortStrings [simp]: "set (sortStrings xs) = set xs"
  using sortStrings_sorts(2) by (metis set_mset_mset)

end
