(* ===== verification/Parse_Select.thy ===== *)
theory Parse_Select
  imports Parse_Lex
begin

section \<open>Package ir: select lists, order lists and filters\<close>

text \<open>
  The grammar level of \<open>src/ir/parse.go\<close>: \<open>parseSelect\<close> with its columns, aggregates and embeds,
  \<open>parseOrder\<close>, \<open>parseCompare\<close>, \<open>parseLogical\<close> and \<open>parseFilters\<close>. The recursive parsers are
  total functions: each recursive call is on a shorter text, whatever the client sent.
\<close>

subsection \<open>Columns and aggregates\<close>

definition check_cast :: "string \<Rightarrow> api_error option" where
  "check_cast c =
     (if c = [] then Some (ErrParse ''empty cast target'')
      else if \<not> validCastType c then Some (ErrParse (''invalid cast target '' @ c))
      else None)"

text \<open>The part of \<open>parseColumnItem\<close> after the cast: an alias, then the path.\<close>

definition column_body :: "string \<Rightarrow> string \<Rightarrow> api_error + ir_column" where
  "column_body cast raw =
     (let (alias, rest) = (case cutIdentAware raw CHR '':'' of
                             Some (a, r) \<Rightarrow> (unquoteIdent a, r)
                           | None \<Rightarrow> ([], raw))
      in bindr (parsePath rest) (\<lambda>(path, lst).
           Inr \<lparr>c_path = path, c_last = lst, c_cast = cast, c_alias = alias\<rparr>))"

definition parseColumnItem :: "string \<Rightarrow> api_error + ir_column" where
  "parseColumnItem raw =
     (case last_index_str raw ''::'' of
        Some i \<Rightarrow>
          let cast = drop (i + 2) raw in
          (case check_cast cast of
             Some e \<Rightarrow> Inl e
           | None \<Rightarrow> column_body cast (take i raw))
      | None \<Rightarrow> column_body [] raw)"

text \<open>
  \<open>parseAggregate\<close>: \<open>Inr None\<close> is \<open>ok=false\<close> without an error, so that the caller tries an embed.
  \<open>aggregate_body\<close> is what follows once the output cast is known.
\<close>

definition aggregate_body :: "string \<Rightarrow> string \<Rightarrow> api_error + aggregate option" where
  "aggregate_body cast head0 =
     (let (alias, head) = (case cutAliasAware head0 of
                             Some (a, r) \<Rightarrow> (unquoteIdent a, r)
                           | None \<Rightarrow> ([], head0));
          (fn, argSpec) = (case last_index_byte head CHR ''.'' of
                             Some dot \<Rightarrow> (drop (dot + 1) head, take dot head)
                           | None \<Rightarrow> (head, []))
      in case aggFuncByName fn of
           None \<Rightarrow> Inr None
         | Some f \<Rightarrow>
             if argSpec = [] then
               if f \<noteq> AggCount then Inl (ErrParse (fn @ ''() requires a column argument''))
               else Inr (Some \<lparr>a_func = f, a_arg = None, a_cast = cast, a_alias = alias, a_legacy = False\<rparr>)
             else bindr (parseColumnItem argSpec) (\<lambda>arg.
               Inr (Some \<lparr>a_func = f, a_arg = Some arg, a_cast = cast, a_alias = alias, a_legacy = False\<rparr>)))"

definition parseAggregate :: "string \<Rightarrow> api_error + aggregate option" where
  "parseAggregate raw =
     (case cut raw ''()'' of
        None \<Rightarrow> Inr None
      | Some (head, tail) \<Rightarrow>
          if tail = [] then aggregate_body [] head
          else if \<not> has_prefix tail ''::'' then Inr None
          else let cast = drop 2 tail in
            (case check_cast cast of
               Some e \<Rightarrow> Inl e
             | None \<Rightarrow> aggregate_body cast head))"

subsection \<open>Embeds and select lists\<close>

text \<open>The loop over the segments after each \<open>!\<close>: the join, the hint, and whether a hint was seen.\<close>

fun embed_segs :: "string list \<Rightarrow> join_kind \<Rightarrow> string \<Rightarrow> bool \<Rightarrow> api_error + join_kind \<times> string" where
  "embed_segs [] jn hnt sawHint = Inr (jn, hnt)"
| "embed_segs (seg # segs) jn hnt sawHint =
     (if seg = ''inner'' then embed_segs segs JoinInner hnt sawHint
      else if seg = ''left'' then embed_segs segs JoinLeft hnt sawHint
      else if sawHint then Inl (ErrParse ''embed carries more than one disambiguation hint'')
      else embed_segs segs jn seg True)"

text \<open>The head of an embed: \<open>alias:...rel!hint!join\<close>.\<close>

definition embed_head :: "string \<Rightarrow> bool \<Rightarrow> api_error + embed_meta" where
  "embed_head head0 emptySelect =
     (let (alias, head1) = (case index_byte head0 CHR '':'' of
                              Some c \<Rightarrow> (take c head0, drop (c + 1) head0)
                            | None \<Rightarrow> ([], head0));
          segs = split_byte CHR ''!'' head1
      in bindr (embed_segs (tl segs) JoinLeft [] False) (\<lambda>(jn, hnt).
           let head2 = hd segs;
               spread = has_prefix head2 ''...'';
               name = trim_prefix head2 ''...''
           in Inr \<lparr>e_cardinality = CardUnknown, e_join = jn, e_spread = spread, e_hint = hnt,
                   e_alias = alias, e_out_key = (if alias \<noteq> [] then alias else name),
                   e_target = bare_ref name, e_rel = None, e_empty_select = emptySelect\<rparr>))"

text \<open>
  \<open>parseSelect\<close> parses its items in order and gives the embeds their index as it meets them;
  \<open>assemble\<close> is that numbering.
\<close>

datatype parsed_item = PItem select_item | PEmbed embed

fun assemble :: "nat \<Rightarrow> parsed_item list \<Rightarrow> select_item list \<times> embed list" where
  "assemble n [] = ([], [])"
| "assemble n (PItem it # ps) = map_prod ((#) it) id (assemble n ps)"
| "assemble n (PEmbed e # ps) = map_prod ((#) (SEmbedRef n)) ((#) e) (assemble (Suc n) ps)"

definition legacy_count :: aggregate where
  "legacy_count = \<lparr>a_func = AggCount, a_arg = None, a_cast = [], a_alias = [], a_legacy = True\<rparr>"

definition embed_query :: "string \<Rightarrow> select_item list \<times> embed list \<Rightarrow> query" where
  "embed_query name sel = Query ((new_base Read name)\<lparr>q_select := fst sel\<rparr>) (snd sel)"

function parseSelect :: "string \<Rightarrow> bool \<Rightarrow> api_error + select_item list \<times> embed list"
  and parseEmbed :: "string \<Rightarrow> nat \<Rightarrow> api_error + embed"
where
  "parseSelect s nested =
     (if trim_space s = ''*'' then Inr ([], [])
      else bindr (mapr (\<lambda>part.
             let raw = trim_space part in
             if raw = [] then Inl (ErrParse ''empty item in select list'')
             else case index_byte raw CHR ''('' of
                    Some i \<Rightarrow>
                      bindr (parseAggregate raw) (\<lambda>r.
                        case r of
                          Some agg \<Rightarrow> Inr (PItem (SAggregate agg))
                        | None \<Rightarrow> bindr (parseEmbed raw i) (\<lambda>e. Inr (PEmbed e)))
                  | None \<Rightarrow>
                      if nested \<and> raw = ''count'' then Inr (PItem (SAggregate legacy_count))
                      else bindr (parseColumnItem raw) (\<lambda>c. Inr (PItem (SColumn c))))
             (splitTopLevel s CHR '',''))
           (\<lambda>ps. Inr (assemble 0 ps)))"
| "parseEmbed raw lparen =
     (if last_byte raw \<noteq> Some CHR '')'' then Inl (ErrParse ''unterminated embed in select list'')
      else let inner = slice raw (lparen + 1) (length raw - 1) in
        bindr (embed_head (take lparen raw) (inner = [])) (\<lambda>em.
          if inner = [] then Inr (Embed em (embed_query (ref_name (e_target em)) ([], [])))
          else bindr (parseSelect inner True) (\<lambda>sel.
            Inr (Embed em (embed_query (ref_name (e_target em)) sel)))))"
  by pat_completeness auto
termination
proof (relation "measure (case_sum (\<lambda>(s, n). 2 * length s + 1) (\<lambda>(raw, i). 2 * length raw))")
  fix s nested part raw i r
  assume "part \<in> set (splitTopLevel s CHR '','')" "raw = trim_space part"
  then have "length raw \<le> length s"
    using st.piece_length [of part s "CHR '',''"] trim_space_length [of part] by simp
  then show "(Inr (raw, i), Inl (s, nested)) \<in> measure (case_sum (\<lambda>(s, n). 2 * length s + 1) (\<lambda>(raw, i). 2 * length raw))"
    by simp
next
  fix raw lparen inner em
  assume "\<not> last_byte raw \<noteq> Some CHR '')''" "inner = slice raw (lparen + 1) (length raw - 1)"
  then have "raw \<noteq> []" "length inner \<le> length raw - 1"
    by (auto simp: slice_def last_byte_def)
  then have "length inner < length raw" by (cases raw) auto
  then show "(Inl (inner, True), Inr (raw, lparen)) \<in> measure (case_sum (\<lambda>(s, n). 2 * length s + 1) (\<lambda>(raw, i). 2 * length raw))"
    by simp
qed simp

declare parseSelect.simps [simp del] parseEmbed.simps [simp del]

subsection \<open>Order lists\<close>

definition cutRelOrder :: "string \<Rightarrow> (string \<times> string) option" where
  "cutRelOrder s =
     (case index_byte s CHR ''('' of
        None \<Rightarrow> None
      | Some opn \<Rightarrow>
          if opn = 0 \<or> \<not> has_suffix s '')'' then None
          else let rel = trim_space (take opn s);
                   inner = trim_space (slice s (opn + 1) (length s - 1))
               in if rel = [] \<or> inner = [] then None else Some (rel, inner))"

fun order_mods :: "string list \<Rightarrow> bool \<Rightarrow> bool \<Rightarrow> order_term \<Rightarrow> api_error + order_term" where
  "order_mods [] sawDir sawNulls t = Inr t"
| "order_mods (md # mods) sawDir sawNulls t =
     (if md = ''asc'' \<or> md = ''desc'' then
        if sawDir \<or> sawNulls then Inl (ErrParse (''unexpected order modifier: '' @ md))
        else order_mods mods True sawNulls (t\<lparr>o_desc := (md = ''desc'')\<rparr>)
      else if md = ''nullsfirst'' \<or> md = ''nullslast'' then
        if sawNulls then Inl (ErrParse (''unexpected order modifier: '' @ md))
        else order_mods mods sawDir True (t\<lparr>o_nulls_first := Some (md = ''nullsfirst'')\<rparr>)
      else Inl (ErrParse (''unknown order modifier: '' @ md)))"

definition order_item :: "string \<Rightarrow> api_error + order_term" where
  "order_item raw =
     (let p = trim_space raw in
      if p = [] then Inl (ErrParse ''empty order term'')
      else
        let (colPart, mods) = (case cutIdentAware p CHR ''.'' of
                                 Some (c, m) \<Rightarrow> (c, split_byte CHR ''.'' m)
                               | None \<Rightarrow> (p, []));
            (rel, col) = (case cutRelOrder colPart of Some rc \<Rightarrow> rc | None \<Rightarrow> ([], colPart))
        in bindr (parsePath col) (\<lambda>(path, lst).
             order_mods mods False False
               \<lparr>o_path = path, o_last = lst, o_desc = False, o_nulls_first = None, o_rel = rel\<rparr>))"

definition parseOrder :: "string \<Rightarrow> api_error + order_term list" where
  "parseOrder s = mapr order_item (split_byte CHR '','' s)"

subsection \<open>Predicates\<close>

definition new_compare :: "string list \<Rightarrow> json_step \<Rightarrow> bool \<Rightarrow> compare" where
  "new_compare path lst neg = \<lparr>cmp_path = path, cmp_last = lst, cmp_op = OpEq, cmp_value = text_value [],
     cmp_quant = QNone, cmp_negate = neg, cmp_fts = FTSPlain, cmp_config = [], cmp_full_text = None,
     cmp_column_type = []\<rparr>"

text \<open>The operand of an operator without a quantifier.\<close>

definition plain_operand :: "filter_op \<Rightarrow> string \<Rightarrow> api_error + ir_value" where
  "plain_operand op operand =
     (if op = OpIn then bindr (parseInList operand) (\<lambda>l. Inr (list_value l))
      else if op = OpIs then
        if operand \<in> {''null'', ''true'', ''false'', ''unknown'', ''not_null''} then Inr (text_value operand)
        else Inl (ErrParse ''is. expects null|true|false|unknown|not_null'')
      else if op = OpLike \<or> op = OpILike then Inr (text_value (star_to_percent operand))
      else Inr (text_value operand))"

text \<open>The operand of a quantified operator: a braces list, with the wildcards of a pattern translated.\<close>

definition quant_operand :: "filter_op \<Rightarrow> string \<Rightarrow> string \<Rightarrow> api_error + ir_value" where
  "quant_operand op tok operand =
     (if \<not> isQuantifiable op
      then Inl (ErrParse (''quantifier any/all is not valid for operator: '' @ tok))
      else bindr (parseBraceList operand) (\<lambda>l.
        Inr (list_value (if op = OpLike \<or> op = OpILike then map star_to_percent l else l))))"

text \<open>An operator token with its optional parenthesised argument.\<close>

definition split_op_token :: "string \<Rightarrow> api_error + string \<times> string \<times> bool" where
  "split_op_token opTok =
     (case index_byte opTok CHR ''('' of
        None \<Rightarrow> Inr (opTok, [], False)
      | Some i \<Rightarrow>
          if \<not> has_suffix opTok '')'' then Inl (ErrParse (''malformed argument in operator: '' @ opTok))
          else Inr (take i opTok, slice opTok (i + 1) (length opTok - 1), True))"

definition quant_of :: "bool \<Rightarrow> string \<Rightarrow> api_error + quant" where
  "quant_of hasParen paren =
     (if \<not> hasParen then Inr QNone
      else if paren = ''any'' then Inr QAny
      else if paren = ''all'' then Inr QAll
      else Inl (ErrParse (''unknown quantifier: '' @ paren)))"

definition parseCompare :: "string list \<Rightarrow> json_step \<Rightarrow> string \<Rightarrow> api_error + compare" where
  "parseCompare path lst raw0 =
     (let neg = has_prefix raw0 ''not.'';
          raw = trim_prefix raw0 ''not.'';
          c = new_compare path lst neg
      in case cut raw ''.'' of
           None \<Rightarrow> Inl (ErrParse (''filter must be operator.value: '' @ raw))
         | Some (opTok, operand) \<Rightarrow>
             bindr (split_op_token opTok) (\<lambda>(tok, paren, hasParen).
               case ftsVariant tok of
                 Some variant \<Rightarrow>
                   Inr (c\<lparr>cmp_op := OpFTS, cmp_fts := variant, cmp_config := paren, cmp_value := text_value operand\<rparr>)
               | None \<Rightarrow>
                   bindr (quant_of hasParen paren) (\<lambda>qt.
                     case opFromToken tok of
                       None \<Rightarrow> Inl (ErrParse (''unknown operator: '' @ tok))
                     | Some op \<Rightarrow>
                         bindr (if qt \<noteq> QNone then quant_operand op tok operand else plain_operand op operand)
                           (\<lambda>v. Inr (c\<lparr>cmp_op := op, cmp_quant := qt, cmp_value := v\<rparr>)))))"

subsection \<open>Filter trees\<close>

definition logical_prefix :: "string \<Rightarrow> bool" where
  "logical_prefix p \<longleftrightarrow> has_prefix p ''and('' \<or> has_prefix p ''or('' \<or>
     has_prefix p ''not.and('' \<or> has_prefix p ''not.or(''"

definition sub_op :: "string \<Rightarrow> string" where
  "sub_op p = (if has_prefix p ''or('' \<or> has_prefix p ''not.or('' then ''or'' else ''and'')"

definition negated :: "bool \<Rightarrow> cond \<Rightarrow> cond" where
  "negated b c = (if b then CNot c else c)"

text \<open>\<open>p[strings.IndexByte(p, '('):]\<close>; the caller has checked that the byte is there.\<close>

definition from_paren :: "string \<Rightarrow> string" where
  "from_paren p = (case index_byte p CHR ''('' of Some i \<Rightarrow> drop i p | None \<Rightarrow> p)"

definition logical_leaf :: "string \<Rightarrow> api_error + cond" where
  "logical_leaf p =
     (case cutIdentAware p CHR ''.'' of
        None \<Rightarrow> Inl (ErrParse (''malformed predicate in logical: '' @ p))
      | Some (col, rest) \<Rightarrow>
          bindr (parsePath col) (\<lambda>(path, lst).
            bindr (parseCompare path lst rest) (\<lambda>c. Inr (CCompare c))))"

lemma from_paren_length: "length (from_paren p) \<le> length p"
  by (simp add: from_paren_def split: option.splits)

function parseLogical :: "string \<Rightarrow> string \<Rightarrow> api_error + cond" where
  "parseLogical op raw0 =
     (let negate = has_prefix raw0 ''not.'';
          raw = trim_space (trim_prefix raw0 ''not.'')
      in if \<not> wrapped CHR ''('' CHR '')'' raw then Inl (ErrParse (''malformed logical operator: '' @ op))
         else bindr (mapr (\<lambda>part.
                let p = trim_space part in
                if logical_prefix p
                then bindr (parseLogical (sub_op p) (from_paren p)) (\<lambda>node.
                       Inr (negated (has_prefix p ''not.'') node))
                else logical_leaf p)
                (splitTopLevel (strip_ends raw) CHR '',''))
              (\<lambda>kids. Inr (negated negate (if op = ''or'' then COr kids else CAnd kids))))"
  by pat_completeness auto
termination
proof (relation "measure (\<lambda>(op, raw). length raw)")
  fix op raw0 negate raw part p
  assume raw: "raw = trim_space (trim_prefix raw0 ''not.'')" "\<not> \<not> wrapped CHR ''('' CHR '')'' raw"
    and part: "part \<in> set (splitTopLevel (strip_ends raw) CHR '','')" "p = trim_space part"
  have "length (from_paren p) \<le> length (strip_ends raw)"
    using part st.piece_length [of part "strip_ends raw" "CHR '',''"] trim_space_length [of part]
      from_paren_length [of p] by simp
  also have "\<dots> < length raw"
    using raw(2) by (auto simp: wrapped_def strip_ends_length)
  also have "\<dots> \<le> length raw0"
    using raw(1) trim_space_length trim_prefix_length le_trans by blast
  finally show "((sub_op p, from_paren p), op, raw0) \<in> measure (\<lambda>(op, raw). length raw)"
    by simp
qed simp

declare parseLogical.simps [simp del]

definition reservedKeys :: "string list" where
  "reservedKeys = [''select'', ''order'', ''limit'', ''offset'', ''and'', ''or'', ''on_conflict'', ''columns'']"

text \<open>The conditions one key of the query string contributes, in the order of its values.\<close>

definition key_conds :: "string \<Rightarrow> string list \<Rightarrow> api_error + cond list" where
  "key_conds key vs =
     (if key = ''and'' \<or> key = ''or'' then mapr (parseLogical key) vs
      else if key = ''not.and'' \<or> key = ''not.or'' then
        mapr (\<lambda>v. bindr (parseLogical (trim_prefix key ''not.'') v) (\<lambda>n. Inr (CNot n))) vs
      else if key \<in> set reservedKeys then Inr []
      else bindr (parsePath key) (\<lambda>(path, lst).
             mapr (\<lambda>v. bindr (parseCompare path lst v) (\<lambda>c. Inr (CCompare c))) vs))"

definition conj_conds :: "cond list \<Rightarrow> cond option" where
  "conj_conds kids = (case kids of [] \<Rightarrow> None | [k] \<Rightarrow> Some k | _ \<Rightarrow> Some (CAnd kids))"

definition parseFilters :: "url_values \<Rightarrow> api_error + cond option" where
  "parseFilters vals =
     bindr (mapr (\<lambda>key. key_conds key (case aget vals key of Some vs \<Rightarrow> vs | None \<Rightarrow> []))
             (sortStrings (keys_of vals)))
       (\<lambda>kss. Inr (conj_conds (concat kss)))"

end
