(* ===== verification/Parse_Facts.thy ===== *)
theory Parse_Facts
  imports Parse_Select
begin

text \<open>
  Facts about the parsers of \<open>Parse_Select\<close>: the codes of their errors, what holds at every level
  of a parsed select tree (through the locale \<open>select_invariant\<close>), independence of the order
  of a Go map, and the round trips of paths, order lists, predicates and filter trees.
\<close>

section \<open>Facts about the grammar\<close>

subsection \<open>Errors\<close>

lemma check_cast_error: "check_cast c = Some e \<Longrightarrow> is_parse_error e"
  by (auto simp: check_cast_def split: if_splits)

lemma column_body_error: "column_body cast raw = Inl e \<Longrightarrow> is_parse_error e"
  by (auto simp: column_body_def Let_def bindr_Inl_conv dest: parsePath_error split: prod.splits)

lemma parseColumnItem_error: "parseColumnItem raw = Inl e \<Longrightarrow> is_parse_error e"
  by (auto simp: parseColumnItem_def Let_def dest: column_body_error check_cast_error split: option.splits)

lemma aggregate_body_error: "aggregate_body cast head = Inl e \<Longrightarrow> is_parse_error e"
  by (auto simp: aggregate_body_def Let_def bindr_Inl_conv dest: parseColumnItem_error
      split: prod.splits option.splits if_splits)

lemma parseAggregate_error: "parseAggregate raw = Inl e \<Longrightarrow> is_parse_error e"
  by (auto simp: parseAggregate_def Let_def dest: aggregate_body_error check_cast_error
      split: option.splits prod.splits if_splits)

lemma embed_segs_error: "embed_segs segs jn hnt saw = Inl e \<Longrightarrow> is_parse_error e"
  by (induction segs jn hnt saw rule: embed_segs.induct) (auto split: if_splits)

lemma embed_head_error: "embed_head h b = Inl e \<Longrightarrow> is_parse_error e"
  by (auto simp: embed_head_def Let_def bindr_Inl_conv dest: embed_segs_error split: prod.splits)

lemma parse_select_errors:
  "parseSelect s nested = Inl e \<Longrightarrow> is_parse_error e"
  "parseEmbed raw lparen = Inl e \<Longrightarrow> is_parse_error e"
proof (induction s nested and raw lparen arbitrary: e and e rule: parseSelect_parseEmbed.induct)
  case (1 s nested)
  from "1.prems" obtain part where part: "part \<in> set (splitTopLevel s CHR '','')"
    and err: "(let raw = trim_space part in
             if raw = [] then Inl (ErrParse ''empty item in select list'')
             else case index_byte raw CHR ''('' of
                    Some i \<Rightarrow>
                      bindr (parseAggregate raw) (\<lambda>r.
                        case r of
                          Some agg \<Rightarrow> Inr (PItem (SAggregate agg))
                        | None \<Rightarrow> bindr (parseEmbed raw i) (\<lambda>e. Inr (PEmbed e)))
                  | None \<Rightarrow>
                      if nested \<and> raw = ''count'' then Inr (PItem (SAggregate legacy_count))
                      else bindr (parseColumnItem raw) (\<lambda>c. Inr (PItem (SColumn c)))) = Inl e"
    and star: "trim_space s \<noteq> ''*''"
    by (auto simp: parseSelect.simps [of s] bindr_Inl_conv split: if_splits dest!: mapr_InlD)
  show ?case
    using err "1.IH" [OF star part refl]
    by (auto simp: Let_def bindr_Inl_conv split: if_splits option.splits
        dest: parseAggregate_error parseColumnItem_error)
next
  case (2 raw lparen)
  then show ?case
    by (auto simp: parseEmbed.simps [of raw] Let_def bindr_Inl_conv split: if_splits dest: embed_head_error)
qed

lemma order_mods_error: "order_mods mods d n t = Inl e \<Longrightarrow> is_parse_error e"
  by (induction mods d n t rule: order_mods.induct) (auto split: if_splits)

lemma order_item_error: "order_item raw = Inl e \<Longrightarrow> is_parse_error e"
  by (auto simp: order_item_def Let_def bindr_Inl_conv split: if_splits prod.splits
      dest: parsePath_error order_mods_error)

lemma parseOrder_error: "parseOrder s = Inl e \<Longrightarrow> is_parse_error e"
  by (auto simp: parseOrder_def dest!: mapr_InlD order_item_error)

lemma parseCompare_error: "parseCompare path lst raw = Inl e \<Longrightarrow> is_parse_error e"
  by (auto simp: parseCompare_def split_op_token_def quant_of_def quant_operand_def plain_operand_def
      Let_def bindr_Inl_conv split: if_splits option.splits prod.splits dest: lex_errors)

lemma logical_leaf_error: "logical_leaf p = Inl e \<Longrightarrow> is_parse_error e"
  by (auto simp: logical_leaf_def bindr_Inl_conv split: option.splits prod.splits
      dest: parsePath_error parseCompare_error)

lemma parseLogical_error: "parseLogical op raw = Inl e \<Longrightarrow> is_parse_error e"
proof (induction op raw arbitrary: e rule: parseLogical.induct)
  case (1 op raw0)
  let ?raw = "trim_space (trim_prefix raw0 ''not.'')"
  show ?case
  proof (cases "wrapped CHR ''('' CHR '')'' ?raw")
    case True
    then obtain part where part: "part \<in> set (splitTopLevel (strip_ends ?raw) CHR '','')"
      and err: "(let p = trim_space part in
                if logical_prefix p
                then bindr (parseLogical (sub_op p) (from_paren p)) (\<lambda>node.
                       Inr (negated (has_prefix p ''not.'') node))
                else logical_leaf p) = Inl e"
      using "1.prems" by (auto simp: parseLogical.simps [of op raw0] Let_def bindr_Inl_conv dest!: mapr_InlD)
    show ?thesis
      using err "1.IH" [OF refl refl _ part refl] True
      by (auto simp: Let_def bindr_Inl_conv split: if_splits dest: logical_leaf_error)
  next
    case False
    then show ?thesis using "1.prems" by (auto simp: parseLogical.simps [of op raw0] Let_def)
  qed
qed

lemma key_conds_error: "key_conds k vs = Inl e \<Longrightarrow> is_parse_error e"
  by (auto simp: key_conds_def bindr_Inl_conv split: if_splits prod.splits
      dest!: mapr_InlD dest: parseLogical_error parseCompare_error parsePath_error)

lemma parseFilters_error: "parseFilters vals = Inl e \<Longrightarrow> is_parse_error e"
  by (auto simp: parseFilters_def bindr_Inl_conv dest!: mapr_InlD dest: key_conds_error)

lemmas grammar_errors = parse_select_errors parseOrder_error parseFilters_error parsePath_error


subsection \<open>What holds at every level of a select tree\<close>

text \<open>\<open>query_all I\<close> says that \<open>I\<close> holds of the fields and the embeds of a query and of every query nested in it.\<close>

fun query_all :: "(query_base \<Rightarrow> embed list \<Rightarrow> bool) \<Rightarrow> query \<Rightarrow> bool"
  and embed_all :: "(query_base \<Rightarrow> embed list \<Rightarrow> bool) \<Rightarrow> embed \<Rightarrow> bool" where
  "query_all I (Query b es) \<longleftrightarrow> I b es \<and> list_all (embed_all I) es"
| "embed_all I (Embed m q) \<longleftrightarrow> query_all I q"

text \<open>Where the items of a select list come from.\<close>

fun parsed_from :: "parsed_item \<Rightarrow> bool" where
  "parsed_from (PItem (SColumn c)) \<longleftrightarrow> (\<exists>raw. parseColumnItem raw = Inr c)"
| "parsed_from (PItem (SAggregate a)) \<longleftrightarrow> a = legacy_count \<or> (\<exists>raw. parseAggregate raw = Inr (Some a))"
| "parsed_from (PItem (SEmbedRef n)) \<longleftrightarrow> False"
| "parsed_from (PEmbed e) \<longleftrightarrow> True"

text \<open>A query whose parameters have not been applied yet has no window, no filter and no order.\<close>

definition fresh :: "query_base \<Rightarrow> bool" where
  "fresh b \<longleftrightarrow> q_limit b = None \<and> q_offset b = None \<and> q_where b = None \<and> q_order b = []"

lemma fresh_new_base [simp]: "fresh ((new_base k n)\<lparr>q_select := sel\<rparr>)" "fresh (new_base k n)"
  by (simp_all add: fresh_def new_base_def)

text \<open>
  An invariant of one level: it holds of a fresh query with the empty list and with every list the
  items of a select text assemble to. Then it holds of every level of what \<open>parseSelect\<close> returns.
\<close>

locale select_invariant =
  fixes I :: "query_base \<Rightarrow> embed list \<Rightarrow> bool"
  assumes level_assemble:
    "list_all parsed_from ps \<Longrightarrow> assemble 0 ps = (q_select b, es) \<Longrightarrow> fresh b \<Longrightarrow> I b es"
begin

lemma level_empty: "q_select b = [] \<Longrightarrow> fresh b \<Longrightarrow> I b []"
  using level_assemble [of "[]" b "[]"] by simp

lemma assemble_embeds: "assemble n ps = (sel, es) \<Longrightarrow> e \<in> set es \<Longrightarrow> PEmbed e \<in> set ps"
proof (induction n ps arbitrary: sel es rule: assemble.induct)
  case (3 n e' ps)
  then show ?case by (cases "assemble (Suc n) ps") auto
next
  case (2 n it ps)
  then show ?case by (cases "assemble n ps") auto
qed auto

lemma parse_invariant:
  "parseSelect s nested = Inr (sel, es) \<Longrightarrow>
     (\<forall>b. q_select b = sel \<longrightarrow> fresh b \<longrightarrow> I b es) \<and> list_all (embed_all I) es"
  "parseEmbed raw lparen = Inr e \<Longrightarrow> embed_all I e"
proof (induction s nested and raw lparen arbitrary: sel es and e rule: parseSelect_parseEmbed.induct)
  case (1 s nested)
  show ?case
  proof (cases "trim_space s = ''*''")
    case True
    with "1.prems" show ?thesis by (simp add: parseSelect.simps [of s] level_empty)
  next
    case False
    let ?item = "\<lambda>part. (let raw = trim_space part in
             if raw = [] then Inl (ErrParse ''empty item in select list'')
             else case index_byte raw CHR ''('' of
                    Some i \<Rightarrow>
                      bindr (parseAggregate raw) (\<lambda>r.
                        case r of
                          Some agg \<Rightarrow> Inr (PItem (SAggregate agg))
                        | None \<Rightarrow> bindr (parseEmbed raw i) (\<lambda>e. Inr (PEmbed e)))
                  | None \<Rightarrow>
                      if nested \<and> raw = ''count'' then Inr (PItem (SAggregate legacy_count))
                      else bindr (parseColumnItem raw) (\<lambda>c. Inr (PItem (SColumn c))))"
    obtain ps where ps: "mapr ?item (splitTopLevel s CHR '','') = Inr ps" and asm: "assemble 0 ps = (sel, es)"
      using "1.prems" False by (auto simp: parseSelect.simps [of s] bindr_Inr_conv)
    have item: "parsed_from p \<and> (\<forall>e. p = PEmbed e \<longrightarrow> embed_all I e)" if pin: "p \<in> set ps" for p
    proof -
      obtain part where part: "part \<in> set (splitTopLevel s CHR '','')" and p: "?item part = Inr p"
        using mapr_InrD [OF ps pin] by blast
      show ?thesis
        using p "1.IH" [OF False part refl]
        by (auto simp: Let_def bindr_Inr_conv split: if_splits option.splits)
    qed
    then have "\<forall>b. q_select b = sel \<longrightarrow> fresh b \<longrightarrow> I b es"
      using level_assemble [of ps _ es] asm by (simp add: list_all_iff)
    moreover have "list_all (embed_all I) es"
      using item assemble_embeds [OF asm] by (auto simp: list_all_iff)
    ultimately show ?thesis ..
  qed
next
  case (2 raw lparen)
  let ?inner = "slice raw (lparen + 1) (length raw - 1)"
  obtain em where closed: "\<not> last_byte raw \<noteq> Some CHR '')''"
    and em: "embed_head (take lparen raw) (?inner = []) = Inr em"
    and body: "(if ?inner = [] then Inr (Embed em (embed_query (ref_name (e_target em)) ([], [])))
          else bindr (parseSelect ?inner True) (\<lambda>sel.
            Inr (Embed em (embed_query (ref_name (e_target em)) sel)))) = Inr e"
    using "2.prems" by (auto simp: parseEmbed.simps [of raw] Let_def bindr_Inr_conv split: if_split_asm)
  show ?case
  proof (cases "?inner = []")
    case True
    with body show ?thesis by (auto simp: embed_query_def level_empty)
  next
    case False
    then obtain sel es where sel: "parseSelect ?inner True = Inr (sel, es)"
      and e: "e = Embed em (embed_query (ref_name (e_target em)) (sel, es))"
      using body by (auto simp: bindr_Inr_conv)
    from "2.IH" [OF closed refl em False sel] show ?thesis by (simp add: e embed_query_def)
  qed
qed

end

subsubsection \<open>Embed references\<close>

fun embed_refs :: "select_item list \<Rightarrow> nat list" where
  "embed_refs [] = []"
| "embed_refs (SEmbedRef n # its) = n # embed_refs its"
| "embed_refs (it # its) = embed_refs its"

definition refs_ok :: "query_base \<Rightarrow> embed list \<Rightarrow> bool" where
  "refs_ok b es \<longleftrightarrow> embed_refs (q_select b) = [0..<length es]"

lemma assemble_refs:
  "list_all parsed_from ps \<Longrightarrow> assemble n ps = (sel, es) \<Longrightarrow> embed_refs sel = [n..<n + length es]"
proof (induction n ps arbitrary: sel es rule: assemble.induct)
  case (2 n it ps)
  then obtain sel' where "assemble n ps = (sel', es)" "sel = it # sel'"
    by (cases "assemble n ps") auto
  with 2 show ?case by (cases it) auto
next
  case (3 n e ps)
  then obtain sel' es' where "assemble (Suc n) ps = (sel', es')" "sel = SEmbedRef n # sel'" "es = e # es'"
    by (cases "assemble (Suc n) ps") auto
  with 3 show ?case by (simp add: upt_conv_Cons del: upt_Suc)
qed auto

interpretation refs: select_invariant refs_ok
  by unfold_locales (auto simp: refs_ok_def dest: assemble_refs)

subsubsection \<open>Cast targets\<close>

definition cast_ok :: "string \<Rightarrow> bool" where
  "cast_ok c \<longleftrightarrow> c = [] \<or> validCastType c"

fun item_cast_ok :: "select_item \<Rightarrow> bool" where
  "item_cast_ok (SColumn c) \<longleftrightarrow> cast_ok (c_cast c)"
| "item_cast_ok (SAggregate a) \<longleftrightarrow> cast_ok (a_cast a) \<and> pred_option (\<lambda>c. cast_ok (c_cast c)) (a_arg a)"
| "item_cast_ok (SEmbedRef n) \<longleftrightarrow> True"

definition casts_ok :: "query_base \<Rightarrow> embed list \<Rightarrow> bool" where
  "casts_ok b es \<longleftrightarrow> list_all item_cast_ok (q_select b)"

lemma check_cast_ok: "check_cast c = None \<Longrightarrow> cast_ok c"
  by (auto simp: check_cast_def cast_ok_def split: if_splits)

lemma parseColumnItem_cast: "parseColumnItem raw = Inr c \<Longrightarrow> cast_ok (c_cast c)"
  by (auto simp: parseColumnItem_def column_body_def Let_def bindr_Inr_conv cast_ok_def
      split: option.splits prod.splits dest: check_cast_ok [unfolded cast_ok_def])

lemma aggregate_body_cast:
  "aggregate_body cast head = Inr (Some a) \<Longrightarrow> cast_ok cast \<Longrightarrow> item_cast_ok (SAggregate a)"
  by (auto simp: aggregate_body_def Let_def bindr_Inr_conv dest: parseColumnItem_cast
      split: prod.splits option.splits if_splits)

lemma parseAggregate_cast: "parseAggregate raw = Inr (Some a) \<Longrightarrow> item_cast_ok (SAggregate a)"
  by (auto simp: parseAggregate_def Let_def split: option.splits prod.splits if_splits
      dest!: aggregate_body_cast check_cast_ok simp del: item_cast_ok.simps intro: cast_ok_def [THEN iffD2])

lemma parsed_from_cast: "parsed_from (PItem it) \<Longrightarrow> item_cast_ok it"
proof (induction "PItem it" rule: parsed_from.induct)
  case (2 a)
  then show ?case using parseAggregate_cast
    by (auto simp: legacy_count_def cast_ok_def simp del: item_cast_ok.simps(2)) (simp add: legacy_count_def cast_ok_def)
qed (auto dest: parseColumnItem_cast)

lemma assemble_casts:
  "list_all parsed_from ps \<Longrightarrow> assemble n ps = (sel, es) \<Longrightarrow> list_all item_cast_ok sel"
proof (induction n ps arbitrary: sel es rule: assemble.induct)
  case (2 n it ps)
  then obtain sel' where "assemble n ps = (sel', es)" "sel = it # sel'"
    by (cases "assemble n ps") auto
  with 2 show ?case by (auto dest: parsed_from_cast)
next
  case (3 n e ps)
  then obtain sel' es' where "assemble (Suc n) ps = (sel', es')" "sel = SEmbedRef n # sel'" "es = e # es'"
    by (cases "assemble (Suc n) ps") auto
  with 3 show ?case by auto
qed auto

interpretation casts: select_invariant casts_ok
  by unfold_locales (auto simp: casts_ok_def dest: assemble_casts)

text \<open>A cast target holds no byte that could end the cast it is spliced into.\<close>

lemma cast_ok_bytes: "cast_ok c \<Longrightarrow> b \<in> set c \<Longrightarrow> cast_char b"
  by (cases c) (auto simp: cast_ok_def validCastType_def cast_char_def list_all_iff)

lemma cast_char_safe: "cast_char b \<Longrightarrow> b \<notin> {dquote, CHR 0x27, CHR '';'', bslash, CHR ''-'', CHR ''/''}"
  by (auto simp: cast_char_def cast_first_char_def less_eq_char_def)

subsection \<open>Filters do not depend on the order of a map\<close>

lemma sortStrings_perm: "mset xs = mset ys \<Longrightarrow> sortStrings xs = sortStrings ys"
  by (rule sorted_perm_unique) (simp_all add: sortStrings_sorts)

lemma parseFilters_perm:
  assumes "wf_map vals" "mset vals = mset vals'"
  shows "parseFilters vals = parseFilters vals'"
proof -
  have "aget vals = aget vals'" using assms by (rule aget_perm)
  moreover have "sortStrings (keys_of vals) = sortStrings (keys_of vals')"
    by (rule sortStrings_perm) (metis assms(2) mset_map)
  ultimately show ?thesis by (simp add: parseFilters_def)
qed


subsection \<open>Round trips\<close>

subsubsection \<open>Paths\<close>

text \<open>A path that quoting can write: the first name and the hops are not empty and hold no backslash.\<close>

definition name_ok :: "string \<Rightarrow> bool" where
  "name_ok h \<longleftrightarrow> h \<noteq> [] \<and> bslash \<notin> set h"

definition hops_ok :: "(json_step \<times> string) list \<Rightarrow> bool" where
  "hops_ok hops \<longleftrightarrow> list_all (\<lambda>(a, x). a \<noteq> JSONNone \<and> name_ok x) hops"

lemma hops_ok_ball: "hops_ok hops \<Longrightarrow> \<forall>(a, x) \<in> set hops. a \<noteq> JSONNone \<and> bslash \<notin> set x"
  by (auto simp: hops_ok_def list_all_iff name_ok_def)

lemma render_path_nonempty [simp]: "render_path h hops \<noteq> []"
  by (simp add: render_path_def quote_ident_def)

lemma parsePath_render:
  assumes "name_ok h" "hops_ok hops"
  shows "parsePath (render_path h hops) = Inr (h # map snd hops, final_arrow JSONNone hops)"
proof -
  have "path_scan False JSONNone (render_path h hops) =
      (map quote_ident (h # map snd hops), final_arrow JSONNone hops)"
    using assms hops_ok_ball by (intro path_scan_render) (auto simp: name_ok_def)
  moreover have "[] \<notin> set (h # map snd hops)"
    using assms by (auto simp: name_ok_def hops_ok_def list_all_iff)
  ultimately show ?thesis
    by (auto simp: parsePath_def Let_def comp_def image_image final_arrow_def)
qed

text \<open>A separator after a written path is the first one a quote-aware cut sees.\<close>

lemma cut_scan_ident:
  "bslash \<notin> set h \<Longrightarrow> cut_scan sep False (quote_ident h @ s) =
     map_option (map_prod ((@) (quote_ident h)) id) (cut_scan sep False s)"
  by (cases "cut_scan sep False s") (auto simp: quote_ident_def cut_scan_doubled)

lemma cut_scan_arrow:
  "sep \<noteq> CHR ''-'' \<Longrightarrow> sep \<noteq> CHR ''>'' \<Longrightarrow> cut_scan sep False (arrow_text a @ s) =
     map_option (map_prod ((@) (arrow_text a)) id) (cut_scan sep False s)"
  by (cases a; cases "cut_scan sep False s") auto

lemma cut_scan_hops:
  assumes "sep \<noteq> CHR ''-''" "sep \<noteq> CHR ''>''"
  shows "\<forall>(a, x) \<in> set hops. a \<noteq> JSONNone \<and> bslash \<notin> set x \<Longrightarrow>
   cut_scan sep False (concat (map (\<lambda>(a, x). arrow_text a @ quote_ident x) hops) @ s) =
     map_option (map_prod ((@) (concat (map (\<lambda>(a, x). arrow_text a @ quote_ident x) hops))) id) (cut_scan sep False s)"
proof (induction hops)
  case Nil
  then show ?case by (cases "cut_scan sep False s") auto
next
  case (Cons p hops)
  obtain a x where p: "p = (a, x)" by fastforce
  with Cons assms show ?case
    by (cases "cut_scan sep False s") (auto simp: cut_scan_arrow cut_scan_ident)
qed

lemma cut_scan_render:
  assumes "name_ok h" "hops_ok hops" "sep \<noteq> CHR ''-''" "sep \<noteq> CHR ''>''"
  shows "cut_scan sep False (render_path h hops @ s) =
     map_option (map_prod ((@) (render_path h hops)) id) (cut_scan sep False s)"
  using assms cut_scan_hops [OF assms(3,4) hops_ok_ball [OF assms(2)], of s]
  by (cases "cut_scan sep False s") (auto simp: render_path_def cut_scan_ident name_ok_def)

lemma cutIdentAware_render:
  assumes "name_ok h" "hops_ok hops" "sep \<noteq> CHR ''-''" "sep \<noteq> CHR ''>''" "sep \<noteq> dquote"
  shows "cutIdentAware (render_path h hops @ sep # s) sep = Some (render_path h hops, s)"
    and "cutIdentAware (render_path h hops) sep = None"
  using cut_scan_render [OF assms(1-4), of "sep # s"] cut_scan_render [OF assms(1-4), of "[]"] assms(5)
  by (simp_all add: cutIdentAware_def)

lemma render_path_first: "\<exists>t. render_path h hops = dquote # t"
  by (simp add: render_path_def quote_ident_def)

lemma render_path_last: "\<exists>t. render_path h hops = t @ [dquote]"
proof (cases hops rule: rev_cases)
  case (snoc ys p)
  then show ?thesis by (cases p) (auto simp: render_path_def quote_ident_def)
qed (simp add: render_path_def quote_ident_def)

subsubsection \<open>Order lists\<close>

definition order_ok :: "string \<times> (json_step \<times> string) list \<times> bool \<times> bool option \<Rightarrow> bool" where
  "order_ok t \<longleftrightarrow> (case t of (h, hops, d, n) \<Rightarrow>
     name_ok h \<and> hops_ok hops \<and> list_all (\<lambda>x. CHR '','' \<notin> set x) (h # map snd hops))"

definition order_text :: "string \<times> (json_step \<times> string) list \<times> bool \<times> bool option \<Rightarrow> string" where
  "order_text t = (case t of (h, hops, d, n) \<Rightarrow>
     render_path h hops @ (if d then ''.desc'' else []) @
     (case n of None \<Rightarrow> [] | Some True \<Rightarrow> ''.nullsfirst'' | Some False \<Rightarrow> ''.nullslast''))"

definition order_value :: "string \<times> (json_step \<times> string) list \<times> bool \<times> bool option \<Rightarrow> order_term" where
  "order_value t = (case t of (h, hops, d, n) \<Rightarrow>
     \<lparr>o_path = h # map snd hops, o_last = final_arrow JSONNone hops, o_desc = d, o_nulls_first = n, o_rel = []\<rparr>)"

lemma cutRelOrder_render: "cutRelOrder (render_path h hops) = None"
proof -
  obtain t where "render_path h hops = t @ [dquote]" using render_path_last by blast
  then have "\<not> has_suffix (render_path h hops) '')''" by (simp add: has_suffix_def)
  then show ?thesis by (simp add: cutRelOrder_def split: option.splits)
qed

lemma order_text_trim: "trim_space (order_text (h, hops, d, n)) = order_text (h, hops, d, n)"
proof -
  obtain t where t: "order_text (h, hops, d, n) = dquote # t"
    using render_path_first [of h hops] by (auto simp: order_text_def)
  obtain r where r: "render_path h hops = r @ [dquote]" using render_path_last by blast
  obtain u c where uc: "order_text (h, hops, d, n) = u @ [c]" "graphic c"
  proof (cases n)
    case None
    then show thesis
      using that [of r dquote] that [of "render_path h hops @ ''.des''" "CHR ''c''"] r
      by (cases d) (auto simp: order_text_def graphic_def less_eq_char_def)
  next
    case (Some b)
    let ?p = "render_path h hops @ (if d then ''.desc'' else [])"
    show thesis
      using that [of "?p @ ''.nullsfirs''" "CHR ''t''"] that [of "?p @ ''.nullslas''" "CHR ''t''"] Some
      by (cases b) (auto simp: order_text_def graphic_def less_eq_char_def)
  qed
  show ?thesis using graphic_dquote uc(2) t uc(1) by (rule trim_space_graphic)
qed

lemma order_item_roundtrip:
  assumes "order_ok t"
  shows "order_item (order_text t) = Inr (order_value t)"
proof -
  obtain h hops d n where t: "t = (h, hops, d, n)" by (cases t) auto
  have ok: "name_ok h" "hops_ok hops" using assms by (simp_all add: t order_ok_def)
  note cuts = cutIdentAware_render [OF ok, of "CHR ''.''", simplified]
  show ?thesis
    using order_text_trim [of h hops d n]
    by (cases d; cases n; cases "the n")
      (auto simp: order_item_def t order_value_def order_text_def Let_def cuts parsePath_render [OF ok]
        cutRelOrder_render)
qed

lemma comma_free_render:
  "order_ok t \<Longrightarrow> CHR '','' \<notin> set (order_text t)"
proof -
  assume ok: "order_ok t"
  obtain h hops d n where t: "t = (h, hops, d, n)" by (cases t) auto
  have dbl: "set (double_quotes x) \<subseteq> insert dquote (set x)" for x by (induction x) auto
  have arrow: "CHR '','' \<notin> set (arrow_text a)" for a by (cases a) auto
  have "CHR '','' \<notin> set (quote_ident x)" if "CHR '','' \<notin> set x" for x
    using that dbl [of x] by (auto simp: quote_ident_def)
  then have "CHR '','' \<notin> set (render_path h hops)"
    using ok arrow by (fastforce simp: t order_ok_def render_path_def list_all_iff)
  then show ?thesis by (auto simp: t order_text_def split: option.splits bool.splits)
qed

lemma parseOrder_roundtrip:
  assumes "ts \<noteq> []" "list_all order_ok ts"
  shows "parseOrder (join '','' (map order_text ts)) = Inr (map order_value ts)"
proof -
  have "split_byte CHR '','' (join '','' (map order_text ts)) = map order_text ts"
    using assms comma_free_render by (intro split_byte_join) (auto simp: list_all_iff)
  moreover have "mapr order_item (map order_text ts) = Inr (map order_value ts)"
    using assms(2) by (induction ts) (simp_all add: order_item_roundtrip)
  ultimately show ?thesis by (simp add: parseOrder_def)
qed

subsubsection \<open>Predicates\<close>

fun op_token :: "filter_op \<Rightarrow> string" where
  "op_token OpEq = ''eq''" | "op_token OpNeq = ''neq''" | "op_token OpGt = ''gt''"
| "op_token OpGte = ''gte''" | "op_token OpLt = ''lt''" | "op_token OpLte = ''lte''"
| "op_token OpLike = ''like''" | "op_token OpILike = ''ilike''" | "op_token OpMatch = ''match''"
| "op_token OpIMatch = ''imatch''" | "op_token OpIn = ''in''" | "op_token OpIs = ''is''"
| "op_token OpIsDistinct = ''isdistinct''" | "op_token OpFTS = ''fts''" | "op_token OpContains = ''cs''"
| "op_token OpContained = ''cd''" | "op_token OpOverlap = ''ov''" | "op_token OpRangeSL = ''sl''"
| "op_token OpRangeSR = ''sr''" | "op_token OpRangeNXR = ''nxr''" | "op_token OpRangeNXL = ''nxl''"
| "op_token OpRangeAdj = ''adj''"

fun fts_token :: "fts_variant \<Rightarrow> string" where
  "fts_token FTSPlain = ''fts''" | "fts_token FTSPlainText = ''plfts''"
| "fts_token FTSPhrase = ''phfts''" | "fts_token FTSWeb = ''wfts''"

text \<open>
  A predicate as a client may write it: the operator with its quantifier or language, and the
  operand. \<open>operand_ok\<close> is what the grammar can carry; a pattern has no star left in it,
  since reading turns the stars into percent signs.
\<close>

datatype operand = Text string | Elems "string list"

fun operand_ok :: "filter_op \<Rightarrow> quant \<Rightarrow> operand \<Rightarrow> bool" where
  "operand_ok op QNone (Text v) \<longleftrightarrow> op \<noteq> OpFTS \<and> op \<noteq> OpIn \<and>
     (op = OpIs \<longrightarrow> v \<in> {''null'', ''true'', ''false'', ''unknown'', ''not_null''}) \<and>
     (op = OpLike \<or> op = OpILike \<longrightarrow> CHR ''*'' \<notin> set v)"
| "operand_ok op QNone (Elems l) \<longleftrightarrow> op = OpIn \<and> l \<noteq> []"
| "operand_ok op q (Elems l) \<longleftrightarrow> isQuantifiable op \<and> l \<noteq> [] \<and>
     (op = OpLike \<or> op = OpILike \<longrightarrow> list_all (\<lambda>v. CHR ''*'' \<notin> set v) l)"
| "operand_ok op q (Text v) \<longleftrightarrow> False"

fun quant_text :: "quant \<Rightarrow> string" where
  "quant_text QNone = []" | "quant_text QAny = ''(any)''" | "quant_text QAll = ''(all)''"

fun operand_text :: "quant \<Rightarrow> operand \<Rightarrow> string" where
  "operand_text q (Text v) = v"
| "operand_text QNone (Elems l) = ''('' @ join '','' (map quote_element l) @ '')''"
| "operand_text q (Elems l) = ''{'' @ join '','' (map quote_element l) @ ''}''"

fun operand_value :: "operand \<Rightarrow> ir_value" where
  "operand_value (Text v) = text_value v"
| "operand_value (Elems l) = list_value l"

definition compare_text :: "bool \<Rightarrow> filter_op \<Rightarrow> quant \<Rightarrow> operand \<Rightarrow> string" where
  "compare_text neg op q v =
     (if neg then ''not.'' else []) @ op_token op @ quant_text q @ ''.'' @ operand_text q v"

definition compare_value :: "string list \<Rightarrow> json_step \<Rightarrow> bool \<Rightarrow> filter_op \<Rightarrow> quant \<Rightarrow> operand \<Rightarrow> compare" where
  "compare_value path lst neg op q v =
     (new_compare path lst neg)\<lparr>cmp_op := op, cmp_quant := q, cmp_value := operand_value v\<rparr>"

lemma opFromToken_op_token: "op \<noteq> OpFTS \<Longrightarrow> opFromToken (op_token op) = Some op"
  by (cases op) (simp_all add: opFromToken_def)

lemma op_token_opFromToken: "opFromToken tok = Some op \<Longrightarrow> op_token op = tok \<and> op \<noteq> OpFTS"
  by (auto simp: opFromToken_def split: if_splits)

lemma ftsVariant_op_token: "op \<noteq> OpFTS \<Longrightarrow> ftsVariant (op_token op) = None"
  by (cases op) (simp_all add: ftsVariant_def)

lemma star_to_percent_id [simp]: "CHR ''*'' \<notin> set v \<Longrightarrow> star_to_percent v = v"
  by (induction v) (auto simp: star_to_percent_def)

lemma join_nonempty: "ps \<noteq> [] \<Longrightarrow> \<forall>p \<in> set ps. p \<noteq> [] \<Longrightarrow> join sep ps \<noteq> []"
  by (cases ps; cases "tl ps") auto

lemma graphic_brackets [simp]:
  "graphic CHR ''(''" "graphic CHR '')''" "graphic CHR ''{''" "graphic CHR ''}''" "graphic CHR ''.''"
  by (simp_all add: graphic_def less_eq_char_def)

lemma quoted_join_nonempty: "l \<noteq> [] \<Longrightarrow> join '','' (map quote_element l) \<noteq> []"
  by (rule join_nonempty) (auto simp: quote_element_def)

lemma parseInList_quoted:
  "l \<noteq> [] \<Longrightarrow> parseInList (''('' @ join '','' (map quote_element l) @ '')'') = Inr l"
  using trim_space_wrapped [of "CHR ''(''" "CHR '')''" "join '','' (map quote_element l)"]
  by (simp add: parseInList_def Let_def split_quoted_elements comp_def quoted_join_nonempty)

lemma parseBraceList_quoted:
  "l \<noteq> [] \<Longrightarrow> parseBraceList (''{'' @ join '','' (map quote_element l) @ ''}'') = Inr l"
  using trim_space_wrapped [of "CHR ''{''" "CHR ''}''" "join '','' (map quote_element l)"]
  by (simp add: parseBraceList_def Let_def split_quoted_elements comp_def quoted_join_nonempty)

lemma split_op_token_plain: "split_op_token (op_token op) = Inr (op_token op, [], False)"
  by (cases op) (simp_all add: split_op_token_def)

lemma split_op_token_quant:
  "split_op_token (op_token op @ quant_text QAny) = Inr (op_token op, ''any'', True)"
  "split_op_token (op_token op @ quant_text QAll) = Inr (op_token op, ''all'', True)"
  by (cases op; simp add: split_op_token_def has_suffix_def slice_def)+

lemma plain_operand_ok:
  "operand_ok op QNone v \<Longrightarrow> plain_operand op (operand_text QNone v) = Inr (operand_value v)"
  using parseInList_quoted by (cases v) (auto simp: plain_operand_def)

lemma quant_operand_ok:
  assumes "operand_ok op q v" "q \<noteq> QNone"
  shows "quant_operand op tok (operand_text q v) = Inr (operand_value v)"
proof -
  obtain l where v: "v = Elems l" using assms by (cases q; cases v) auto
  have l: "l \<noteq> []" "isQuantifiable op"
    and star: "op = OpLike \<or> op = OpILike \<longrightarrow> list_all (\<lambda>v. CHR ''*'' \<notin> set v) l"
    using assms v by (cases q; simp)+
  from star have "op = OpLike \<or> op = OpILike \<longrightarrow> map star_to_percent l = l"
    by (auto simp: list_all_iff intro: map_idI)
  moreover have "operand_text q v = ''{'' @ join '','' (map quote_element l) @ ''}''"
    using assms(2) v by (cases q) auto
  ultimately show ?thesis
    using parseBraceList_quoted [OF l(1)] l(2) by (auto simp: quant_operand_def v)
qed

lemma op_token_dotless: "CHR ''.'' \<notin> set (op_token op @ quant_text q)"
  by (cases op; cases q) auto

lemma op_token_not_not: "\<not> has_prefix (op_token op @ s) ''not.''"
  by (cases op) (auto simp: has_prefix_def)

lemma parseCompare_roundtrip:
  assumes "operand_ok op q v"
  shows "parseCompare path lst (compare_text neg op q v) = Inr (compare_value path lst neg op q v)"
proof -
  let ?rest = "op_token op @ quant_text q @ ''.'' @ operand_text q v"
  have fts: "op \<noteq> OpFTS" using assms by (cases q; cases v) (auto simp: isQuantifiable_def)
  have cut: "cut ?rest ''.'' = Some (op_token op @ quant_text q, operand_text q v)"
    using cut_single_append [OF op_token_dotless [of op q], of "operand_text q v"] by simp
  have head: "has_prefix (compare_text neg op q v) ''not.'' = neg"
    "trim_prefix (compare_text neg op q v) ''not.'' = ?rest"
    using op_token_not_not [of op "quant_text q @ ''.'' @ operand_text q v"] has_prefix_append [of "''not.''" ?rest]
      trim_prefix_append [of "''not.''" ?rest]
    by (auto simp: compare_text_def trim_prefix_def)
  obtain par where tok: "split_op_token (op_token op @ quant_text q) = Inr (op_token op, par, q \<noteq> QNone)"
    and quant: "quant_of (q \<noteq> QNone) par = Inr q"
    using split_op_token_quant [of op] split_op_token_plain [of op] by (cases q) (auto simp: quant_of_def)
  have operand: "(if q \<noteq> QNone then quant_operand op (op_token op) (operand_text q v)
      else plain_operand op (operand_text q v)) = Inr (operand_value v)"
    using assms quant_operand_ok [of op q v] plain_operand_ok [of op v] by auto
  show ?thesis
    unfolding parseCompare_def Let_def head cut option.case prod.case tok bindr_simps quant
      ftsVariant_op_token [OF fts] opFromToken_op_token [OF fts] operand
    by (simp add: compare_value_def)
qed

subsubsection \<open>Filter trees\<close>

text \<open>
  A filter tree as a client may write it. A text operand inside a tree holds printing bytes other
  than the brackets, the comma, the quote and the backslash, which the grammar of a tree reserves;
  the elements of a list are quoted, so they are arbitrary.
\<close>

datatype ftree =
    FLeaf string "(json_step \<times> string) list" bool filter_op quant operand
  | FAnd bool "ftree list"
  | FOr bool "ftree list"

definition plain_char :: "char \<Rightarrow> bool" where
  "plain_char c \<longleftrightarrow> graphic c \<and> c \<notin> {CHR ''('', CHR '')'', CHR ''{'', CHR ''}'', CHR '','', dquote, bslash}"

fun plain_operand_text :: "operand \<Rightarrow> bool" where
  "plain_operand_text (Text v) \<longleftrightarrow> list_all plain_char v"
| "plain_operand_text (Elems l) \<longleftrightarrow> True"

fun tree_ok :: "ftree \<Rightarrow> bool" where
  "tree_ok (FLeaf h hops neg op q v) \<longleftrightarrow>
     name_ok h \<and> hops_ok hops \<and> operand_ok op q v \<and> plain_operand_text v"
| "tree_ok (FAnd neg ks) \<longleftrightarrow> ks \<noteq> [] \<and> list_all tree_ok ks"
| "tree_ok (FOr neg ks) \<longleftrightarrow> ks \<noteq> [] \<and> list_all tree_ok ks"

fun tree_text :: "ftree \<Rightarrow> string" where
  "tree_text (FLeaf h hops neg op q v) = render_path h hops @ ''.'' @ compare_text neg op q v"
| "tree_text (FAnd neg ks) = (if neg then ''not.'' else []) @ ''and('' @ join '','' (map tree_text ks) @ '')''"
| "tree_text (FOr neg ks) = (if neg then ''not.'' else []) @ ''or('' @ join '','' (map tree_text ks) @ '')''"

fun tree_cond :: "ftree \<Rightarrow> cond" where
  "tree_cond (FLeaf h hops neg op q v) =
     CCompare (compare_value (h # map snd hops) (final_arrow JSONNone hops) neg op q v)"
| "tree_cond (FAnd neg ks) = negated neg (CAnd (map tree_cond ks))"
| "tree_cond (FOr neg ks) = negated neg (COr (map tree_cond ks))"

text \<open>
  A text is neutral when the scanner passes over it without ending a piece and comes back to the
  depth it started from; it is deep-neutral when that holds inside brackets.
\<close>

definition deep_neutral :: "int \<Rightarrow> string \<Rightarrow> bool" where
  "deep_neutral k t \<longleftrightarrow> (\<forall>d s. k \<le> d \<longrightarrow>
     split_scan CHR '','' d False (t @ s) = prep t (split_scan CHR '','' d False s))"

abbreviation "neutral \<equiv> deep_neutral 0"

lemma neutral_deep: "deep_neutral j t \<Longrightarrow> j \<le> k \<Longrightarrow> deep_neutral k t"
  by (simp add: deep_neutral_def)

lemma neutral_deep1: "neutral t \<Longrightarrow> deep_neutral 1 t"
  using neutral_deep [of 0 t 1] by simp

lemma neutral_Nil [simp]: "deep_neutral k []"
  by (simp add: deep_neutral_def)

lemma neutral_append: "deep_neutral k a \<Longrightarrow> deep_neutral k b \<Longrightarrow> deep_neutral k (a @ b)"
  by (simp add: deep_neutral_def prep_append)

lemma neutral_plain_char:
  "c \<notin> {CHR ''('', CHR '')'', CHR ''{'', CHR ''}'', CHR '','', dquote} \<Longrightarrow> deep_neutral k [c]"
  by (auto simp: deep_neutral_def)

lemma neutral_plain:
  "list_all (\<lambda>c. c \<notin> {CHR ''('', CHR '')'', CHR ''{'', CHR ''}'', CHR '','', dquote}) t \<Longrightarrow> deep_neutral k t"
proof (induction t)
  case (Cons c t)
  then show ?case using neutral_append [OF neutral_plain_char [of c k], of t] by simp
qed simp

lemma neutral_comma: "1 \<le> k \<Longrightarrow> deep_neutral k '',''"
  by (simp add: deep_neutral_def)

lemma neutral_quote_element: "deep_neutral k (quote_element v)"
  by (simp add: deep_neutral_def split_scan_quoted)

lemma split_scan_doubled: "bslash \<notin> set h \<Longrightarrow>
  split_scan sep d True (double_quotes h @ dquote # s) = prep (double_quotes h @ [dquote]) (split_scan sep d False s)"
  by (induction h) auto

lemma neutral_quote_ident: "bslash \<notin> set h \<Longrightarrow> deep_neutral k (quote_ident h)"
  by (simp add: deep_neutral_def quote_ident_def split_scan_doubled)

lemma neutral_join:
  "1 \<le> k \<Longrightarrow> \<forall>p \<in> set ps. deep_neutral k p \<Longrightarrow> deep_neutral k (join '','' ps)"
proof (induction "'',''" ps rule: join.induct)
  case (3 p q ps)
  then have "deep_neutral k ('','' @ join '','' (q # ps))"
    using neutral_append [OF neutral_comma] by simp
  with 3 show ?case by (simp add: neutral_append del: append_Cons append_Nil)
qed simp_all

lemma neutral_bracket:
  assumes "deep_neutral 1 t"
  shows "neutral (''('' @ t @ '')'')" "neutral (''{'' @ t @ ''}'')"
  using assms by (auto simp: deep_neutral_def prep_append)

lemma split_neutral:
  "ps \<noteq> [] \<Longrightarrow> \<forall>p \<in> set ps. neutral p \<Longrightarrow> splitTopLevel (join '','' ps) CHR '','' = ps"
proof (induction "'',''" ps rule: join.induct)
  case (2 p)
  then have "split_scan CHR '','' 0 False (p @ []) = prep p (split_scan CHR '','' 0 False [])"
    unfolding deep_neutral_def by (metis list.set_intros(1) order_refl)
  then show ?case by (simp add: splitTopLevel_def)
next
  case (3 p q ps)
  then have "split_scan CHR '','' 0 False (p @ CHR '','' # join '','' (q # ps)) =
      prep p (split_scan CHR '','' 0 False (CHR '','' # join '','' (q # ps)))"
    unfolding deep_neutral_def by (metis list.set_intros(1) order_refl)
  with 3 show ?case by (simp add: splitTopLevel_def)
qed simp

lemma neutral_render_path:
  assumes "name_ok h" "hops_ok hops"
  shows "neutral (render_path h hops)"
proof -
  have arrow: "deep_neutral 0 (arrow_text a)" for a by (rule neutral_plain) (cases a; simp)
  have "neutral (concat (map (\<lambda>(a, x). arrow_text a @ quote_ident x) hops))"
    using assms(2)
  proof (induction hops)
    case (Cons p hops)
    obtain a x where p: "p = (a, x)" by fastforce
    from Cons have "bslash \<notin> set x" by (simp add: p hops_ok_def name_ok_def)
    with Cons show ?case
      by (simp add: p hops_ok_def) (meson arrow neutral_append neutral_quote_ident)
  qed simp
  with assms(1) show ?thesis
    unfolding render_path_def by (intro neutral_append neutral_quote_ident) (simp_all add: name_ok_def)
qed

lemma neutral_operand:
  assumes "plain_operand_text v"
  shows "neutral (operand_text q v)"
proof (cases v)
  case (Text t)
  with assms show ?thesis
    by (simp, intro neutral_plain) (auto simp: list_all_iff plain_char_def)
next
  case (Elems l)
  have "deep_neutral 1 (join '','' (map quote_element l))"
    by (rule neutral_join) (auto intro: neutral_quote_element)
  with Elems neutral_bracket show ?thesis by (cases q) auto
qed

lemma neutral_op: "neutral ((if neg then ''not.'' else []) @ op_token op @ quant_text q @ ''.'')"
proof -
  have "neutral (op_token op)" by (rule neutral_plain) (cases op; simp)
  moreover have "neutral (quant_text q)"
  proof (cases q)
    case QAny
    then show ?thesis using neutral_bracket(1) [of "''any''"] neutral_plain [of "''any''" 1] by simp
  next
    case QAll
    then show ?thesis using neutral_bracket(1) [of "''all''"] neutral_plain [of "''all''" 1] by simp
  qed simp
  moreover have "neutral (if neg then ''not.'' else [])" "neutral ''.''"
    by (rule neutral_plain, simp)+
  ultimately show ?thesis by (intro neutral_append)
qed

lemma neutral_tree: "tree_ok t \<Longrightarrow> neutral (tree_text t)"
proof (induction t)
  case (FLeaf h hops neg op q v)
  then have path: "neutral (render_path h hops)" and v: "neutral (operand_text q v)"
    by (simp_all add: neutral_render_path neutral_operand)
  have dot: "neutral ''.''" by (rule neutral_plain) simp
  have "neutral (render_path h hops @ ''.'' @
      ((if neg then ''not.'' else []) @ op_token op @ quant_text q @ ''.'') @ operand_text q v)"
    by (rule neutral_append [OF path neutral_append [OF dot neutral_append [OF neutral_op v]]])
  then show ?case by (simp add: compare_text_def)
next
  case (FAnd neg ks)
  have "neutral ((if neg then ''not.'' else []) @ ''and'')" by (rule neutral_plain) simp
  moreover have "neutral (''('' @ join '','' (map tree_text ks) @ '')'')"
    using FAnd by (intro neutral_bracket neutral_join) (auto simp: list_all_iff intro: neutral_deep1)
  ultimately have "neutral (((if neg then ''not.'' else []) @ ''and'') @ (''('' @ join '','' (map tree_text ks) @ '')''))"
    by (rule neutral_append)
  then show ?case by simp
next
  case (FOr neg ks)
  have "neutral ((if neg then ''not.'' else []) @ ''or'')" by (rule neutral_plain) simp
  moreover have "neutral (''('' @ join '','' (map tree_text ks) @ '')'')"
    using FOr by (intro neutral_bracket neutral_join) (auto simp: list_all_iff intro: neutral_deep1)
  ultimately have "neutral (((if neg then ''not.'' else []) @ ''or'') @ (''('' @ join '','' (map tree_text ks) @ '')''))"
    by (rule neutral_append)
  then show ?case by simp
qed


lemma tree_text_trim: "tree_ok t \<Longrightarrow> trim_space (tree_text t) = tree_text t"
proof -
  assume ok: "tree_ok t"
  have "\<exists>c r. tree_text t = c # r \<and> graphic c"
  proof (cases t)
    case (FLeaf h hops neg op q v)
    obtain r where "render_path h hops = dquote # r" using render_path_first by blast
    then show ?thesis by (simp add: FLeaf)
  next
    case (FAnd neg ks)
    then show ?thesis by (simp add: graphic_def less_eq_char_def)
  next
    case (FOr neg ks)
    then show ?thesis by (simp add: graphic_def less_eq_char_def)
  qed
  moreover have "\<exists>u d. tree_text t = u @ [d] \<and> graphic d"
  proof (cases t)
    case (FLeaf h hops neg op q v)
    let ?front = "render_path h hops @ ''.'' @ (if neg then ''not.'' else []) @ op_token op @ quant_text q"
    have teq: "tree_text t = ?front @ ''.'' @ operand_text q v" by (simp add: FLeaf compare_text_def)
    have "operand_text q v = [] \<or> (\<exists>u d. operand_text q v = u @ [d] \<and> graphic d)"
    proof (cases v)
      case (Text w)
      then show ?thesis using ok FLeaf by (cases w rule: rev_cases) (auto simp: plain_char_def)
    next
      case (Elems l)
      have "operand_text q v = (CHR ''('' # join '','' (map quote_element l)) @ [CHR '')''] \<or>
          operand_text q v = (CHR ''{'' # join '','' (map quote_element l)) @ [CHR ''}'']"
        using Elems by (cases q) simp_all
      then show ?thesis using graphic_brackets by blast
    qed
    then show ?thesis
    proof
      assume "operand_text q v = []"
      then have "tree_text t = ?front @ [CHR ''.'']" using teq by simp
      then show ?thesis using graphic_brackets(5) by blast
    next
      assume "\<exists>u d. operand_text q v = u @ [d] \<and> graphic d"
      then show ?thesis using teq by (metis append.assoc)
    qed
  next
    case (FAnd neg ks)
    have "tree_text t = ((if neg then ''not.'' else []) @ ''and('' @ join '','' (map tree_text ks)) @ [CHR '')'']"
      by (simp add: FAnd)
    then show ?thesis using graphic_brackets(2) by blast
  next
    case (FOr neg ks)
    have "tree_text t = ((if neg then ''not.'' else []) @ ''or('' @ join '','' (map tree_text ks)) @ [CHR '')'']"
      by (simp add: FOr)
    then show ?thesis using graphic_brackets(2) by blast
  qed
  ultimately show ?thesis using trim_space_graphic by blast
qed

text \<open>One part of a tree, as the loop of \<open>parseLogical\<close> reads it.\<close>

definition logical_part :: "string \<Rightarrow> api_error + cond" where
  "logical_part part =
     (let p = trim_space part in
      if logical_prefix p
      then bindr (parseLogical (sub_op p) (from_paren p)) (\<lambda>node. Inr (negated (has_prefix p ''not.'') node))
      else logical_leaf p)"

lemma parseLogical_parts:
  "parseLogical op (''('' @ inner @ '')'') =
     bindr (mapr logical_part (splitTopLevel inner CHR '',''))
       (\<lambda>kids. Inr (if op = ''or'' then COr kids else CAnd kids))"
proof -
  have "\<not> has_prefix (''('' @ inner @ '')'') ''not.''" by (simp add: has_prefix_def)
  then show ?thesis
    using trim_space_wrapped [of "CHR ''(''" "CHR '')''" inner]
    by (simp add: parseLogical.simps [of op] trim_prefix_def Let_def negated_def logical_part_def [abs_def])
qed

lemma parseLogical_children:
  assumes "ks \<noteq> []" "list_all tree_ok ks" "\<And>k. k \<in> set ks \<Longrightarrow> logical_part (tree_text k) = Inr (tree_cond k)"
  shows "parseLogical op (''('' @ join '','' (map tree_text ks) @ '')'') =
     Inr (if op = ''or'' then COr (map tree_cond ks) else CAnd (map tree_cond ks))"
proof -
  have "splitTopLevel (join '','' (map tree_text ks)) CHR '','' = map tree_text ks"
    using assms(1,2) neutral_tree by (intro split_neutral) (auto simp: list_all_iff)
  moreover have "mapr logical_part (map tree_text ks) = Inr (map tree_cond ks)"
    using assms(3) by (induction ks) auto
  ultimately show ?thesis unfolding parseLogical_parts by simp
qed

lemma logical_part_node:
  assumes "ks \<noteq> []" "list_all tree_ok ks" "\<And>k. k \<in> set ks \<Longrightarrow> logical_part (tree_text k) = Inr (tree_cond k)"
  shows "logical_part (tree_text (FAnd neg ks)) = Inr (tree_cond (FAnd neg ks))"
    "logical_part (tree_text (FOr neg ks)) = Inr (tree_cond (FOr neg ks))"
proof -
  let ?body = "''('' @ join '','' (map tree_text ks) @ '')''"
  have trim: "trim_space (tree_text (FAnd neg ks)) = tree_text (FAnd neg ks)"
    "trim_space (tree_text (FOr neg ks)) = tree_text (FOr neg ks)"
    using assms(1,2) by (simp_all only: tree_text_trim tree_ok.simps simp_thms)
  have "logical_prefix (tree_text (FAnd neg ks))" "sub_op (tree_text (FAnd neg ks)) = ''and''"
    "from_paren (tree_text (FAnd neg ks)) = ?body" "has_prefix (tree_text (FAnd neg ks)) ''not.'' = neg"
    by (auto simp: logical_prefix_def sub_op_def from_paren_def has_prefix_def)
  then show "logical_part (tree_text (FAnd neg ks)) = Inr (tree_cond (FAnd neg ks))"
    using parseLogical_children [OF assms, of "''and''"]
    by (simp only: logical_part_def Let_def trim if_True bindr_simps) simp
  have "logical_prefix (tree_text (FOr neg ks))" "sub_op (tree_text (FOr neg ks)) = ''or''"
    "from_paren (tree_text (FOr neg ks)) = ?body" "has_prefix (tree_text (FOr neg ks)) ''not.'' = neg"
    by (auto simp: logical_prefix_def sub_op_def from_paren_def has_prefix_def)
  then show "logical_part (tree_text (FOr neg ks)) = Inr (tree_cond (FOr neg ks))"
    using parseLogical_children [OF assms, of "''or''"]
    by (simp only: logical_part_def Let_def trim if_True bindr_simps) simp
qed

lemma logical_part_tree: "tree_ok t \<Longrightarrow> logical_part (tree_text t) = Inr (tree_cond t)"
proof (induction t)
  case (FLeaf h hops neg op q v)
  obtain r where r: "render_path h hops = dquote # r" using render_path_first by blast
  have "\<not> logical_prefix (tree_text (FLeaf h hops neg op q v))"
    by (simp add: logical_prefix_def has_prefix_def r)
  moreover have "cutIdentAware (tree_text (FLeaf h hops neg op q v)) CHR ''.'' =
      Some (render_path h hops, compare_text neg op q v)"
    using FLeaf cutIdentAware_render(1) [of h hops "CHR ''.''"] by simp
  ultimately show ?case
    using FLeaf parsePath_render [of h hops] parseCompare_roundtrip [of op q v] tree_text_trim [OF FLeaf]
    by (simp add: logical_part_def logical_leaf_def Let_def del: tree_text.simps)
next
  case (FAnd neg ks)
  then show ?case by (intro logical_part_node) (auto simp: list_all_iff)
next
  case (FOr neg ks)
  then show ?case by (intro logical_part_node) (auto simp: list_all_iff)
qed

lemma parseLogical_roundtrip:
  assumes "ks \<noteq> []" "list_all tree_ok ks"
  shows "parseLogical op (''('' @ join '','' (map tree_text ks) @ '')'') =
     Inr (if op = ''or'' then COr (map tree_cond ks) else CAnd (map tree_cond ks))"
  using assms logical_part_tree by (intro parseLogical_children) (auto simp: list_all_iff)

section \<open>Properties of the grammar\<close>

text \<open>
  C22. Filter trees round trip: a tree of \<open>and\<close>, \<open>or\<close> and \<open>not\<close> over comparisons, nested to any
  depth and written in the query grammar with quoted columns, is read back as the same tree.
\<close>

theorem filter_tree_print:
  assumes "ks \<noteq> []" and "list_all tree_ok ks"
  shows "parseLogical ''or'' (''('' @ join '','' (map tree_text ks) @ '')'') = Inr (COr (map tree_cond ks)) \<and>
    parseLogical ''and'' (''('' @ join '','' (map tree_text ks) @ '')'') = Inr (CAnd (map tree_cond ks))"
  using parseLogical_roundtrip [OF assms] by simp

definition demo_tree :: ftree where
  "demo_tree = FAnd True [FLeaf ''a b'' [(JSONArrow2, ''k'')] False OpEq QNone (Text ''1''),
     FLeaf ''c'' [] True OpIn QNone (Elems [''x,y'', ''z'']), FLeaf ''d'' [] False OpGt QAny (Elems [''1'', ''2''])]"

theorem filter_tree_print_witness:
  "parseLogical ''or'' (''('' @ join '','' (map tree_text [demo_tree]) @ '')'') = Inr (COr [tree_cond demo_tree])"
proof -
  have "list_all tree_ok [demo_tree]" by code_simp
  then show ?thesis using filter_tree_print [of "[demo_tree]"] by simp
qed

text \<open>
  A comparison written with its operator token, its quantifier and its operand is read back,
  for every operator but the full-text ones, negated or not; the elements of a list may hold any
  bytes.
\<close>

theorem comparison_print:
  assumes "operand_ok op q v"
  shows "parseCompare path lst (compare_text neg op q v) = Inr (compare_value path lst neg op q v)"
  using assms by (rule parseCompare_roundtrip)

theorem comparison_print_witness:
  "parseCompare [''a''] JSONNone (compare_text True OpLike QAll (Elems [''x%'', ''y,z''])) =
     Inr (compare_value [''a''] JSONNone True OpLike QAll (Elems [''x%'', ''y,z'']))"
proof (rule comparison_print)
  show "operand_ok OpLike QAll (Elems [''x%'', ''y,z''])" by code_simp
qed

text \<open>
  An order list of quoted columns and JSON paths, each with its direction and its placement of
  nulls, is read back term by term, as long as no name holds a comma.
\<close>

theorem order_list_print:
  assumes "ts \<noteq> []" and "list_all order_ok ts"
  shows "parseOrder (join '','' (map order_text ts)) = Inr (map order_value ts)"
  using assms by (rule parseOrder_roundtrip)

theorem order_list_print_witness:
  "parseOrder (join '','' (map order_text [(''a.b'', [], True, Some False), (''c'', [(JSONArrow, ''d'')], False, None)])) =
     Inr (map order_value [(''a.b'', [], True, Some False), (''c'', [(JSONArrow, ''d'')], False, None)])"
proof (rule order_list_print)
  show "list_all order_ok [(''a.b'', [], True, Some False), (''c'', [(JSONArrow, ''d'')], False, None)]" by code_simp
qed simp

text \<open>
  The order list is split at every comma, quoted or not: the quoted column whose name is
  \<open>a,b\<close> is read as two order terms, on columns named after the two halves with a stray quote each.
\<close>

theorem order_splits_quoted_comma:
  "map_sum id (map o_path) (parseOrder (quote_ident ''a,b'')) = Inr [[dquote # ''a''], [''b'' @ [dquote]]]"
  by code_simp

text \<open>
  The top-level split loses nothing and stops where it should: joining the pieces with the
  separator gives the text back, and a piece split again is one piece, so every separator left in
  it is inside brackets or quotes.
\<close>

theorem split_top_level_exact:
  "join [sep] (splitTopLevel s sep) = s \<and> (\<forall>p. p \<in> set (splitTopLevel s sep) \<longrightarrow> splitTopLevel p sep = [p])"
  using st.join_split split_piece_whole by blast

theorem split_top_level_exact_witness:
  "splitTopLevel ''b(c,d)'' CHR '','' = [''b(c,d)'']"
proof -
  have "''b(c,d)'' \<in> set (splitTopLevel ''a,b(c,d)'' CHR '','')" by code_simp
  then show ?thesis using split_top_level_exact [of "CHR '',''" "''a,b(c,d)''"] by blast
qed

text \<open>
  A path written with quoted names and arrows is read back hop by hop, with the kind of its
  last arrow; the names may hold arrows, dots, commas and doubled quotes.
\<close>

theorem path_print:
  assumes "name_ok h" and "hops_ok hops"
  shows "parsePath (render_path h hops) = Inr (h # map snd hops, final_arrow JSONNone hops)"
  using assms by (rule parsePath_render)

theorem path_print_witness:
  "parsePath (render_path ''a->b'' [(JSONArrow, ''c''), (JSONArrow2, ''d'')]) = Inr ([''a->b'', ''c'', ''d''], JSONArrow2)"
proof -
  have "name_ok ''a->b''" "hops_ok [(JSONArrow, ''c''), (JSONArrow2, ''d'')]" by code_simp+
  from path_print [OF this] show ?thesis by (simp add: final_arrow_def)
qed

text \<open>
  The filters of a request do not depend on the order in which Go visits the map of
  parameters: two orders of one map give the same filter tree, or the same error.
\<close>

theorem filters_deterministic:
  assumes "wf_map vals" and "mset vals = mset vals'"
  shows "parseFilters vals = parseFilters vals'"
  using assms by (rule parseFilters_perm)

theorem filters_deterministic_witness:
  "parseFilters [(''b'', [''eq.1'']), (''a'', [''gt.2''])] = parseFilters [(''a'', [''gt.2'']), (''b'', [''eq.1''])]"
  by (rule filters_deterministic) (simp_all add: wf_map_def add_mset_commute)

end
