(* ===== verification/Prefer.thy ===== *)
theory Prefer
  imports Ir
begin

section \<open>Package ir: the Prefer header\<close>

text \<open>
  \<open>src/ir/prefer.go\<close>. \<open>time.LoadLocation\<close> reads the time-zone database of the host, which is not part
  of the sources: whether it knows a name is the parameter \<open>tz_ok\<close>.
\<close>

definition preferKeys :: "string list" where
  "preferKeys = [''return'', ''count'', ''resolution'', ''missing'', ''tx'', ''handling'',
     ''max-affected'', ''timezone'']"

definition applyOrder :: "string list" where
  "applyOrder = [''resolution'', ''missing'', ''return'', ''count'', ''tx'', ''handling'',
     ''timezone'', ''max-affected'']"

text \<open>\<open>(*PreferSet).set\<close>: \<open>None\<close> is the result false, which leaves the set untouched.\<close>

definition prefer_set_key :: "(string \<Rightarrow> bool) \<Rightarrow> string \<Rightarrow> string \<Rightarrow> prefer_set \<Rightarrow> prefer_set option" where
  "prefer_set_key tz_ok k v p =
     (if k = ''return'' then
        (if v = ''minimal'' then Some (p\<lparr>pf_return := Some ReturnMinimal\<rparr>)
         else if v = ''headers-only'' then Some (p\<lparr>pf_return := Some ReturnHeadersOnly\<rparr>)
         else if v = ''representation'' then Some (p\<lparr>pf_return := Some ReturnRepresentation\<rparr>)
         else None)
      else if k = ''count'' then
        (if v = ''exact'' then Some (p\<lparr>pf_count := Some CountExact\<rparr>)
         else if v = ''planned'' then Some (p\<lparr>pf_count := Some CountPlanned\<rparr>)
         else if v = ''estimated'' then Some (p\<lparr>pf_count := Some CountEstimated\<rparr>)
         else None)
      else if k = ''resolution'' then
        (if v = ''merge-duplicates'' then Some (p\<lparr>pf_resolution := Some ConflictMerge\<rparr>)
         else if v = ''ignore-duplicates'' then Some (p\<lparr>pf_resolution := Some ConflictIgnore\<rparr>)
         else None)
      else if k = ''missing'' then
        (if v = ''default'' then Some (p\<lparr>pf_missing := Some MissingDefault\<rparr>)
         else if v = ''null'' then Some (p\<lparr>pf_missing := Some MissingNull\<rparr>)
         else None)
      else if k = ''tx'' then
        (if v = ''commit'' then Some (p\<lparr>pf_tx := Some TxCommit\<rparr>)
         else if v = ''rollback'' then Some (p\<lparr>pf_tx := Some TxRollback\<rparr>)
         else None)
      else if k = ''handling'' then
        (if v = ''strict'' then Some (p\<lparr>pf_handling := HandlingStrict\<rparr>)
         else if v = ''lenient'' then Some (p\<lparr>pf_handling := HandlingLenient\<rparr>)
         else None)
      else if k = ''max-affected'' then
        (case parse_int64 v of
           None \<Rightarrow> None
         | Some n \<Rightarrow> if n < 0 then None else Some (p\<lparr>pf_max_affected := Some n\<rparr>))
      else if k = ''timezone'' then
        (if v = [] then None
         else if \<not> tz_ok v then None
         else Some (p\<lparr>pf_timezone := Some v\<rparr>))
      else Some p)"

text \<open>One token of a header: the key, the value, and what they do to the set and to \<open>seen\<close>.\<close>

definition token_key :: "string \<Rightarrow> string" where
  "token_key tok = trim_space (case cut tok ''='' of None \<Rightarrow> tok | Some (k, v) \<Rightarrow> k)"

definition token_value :: "string \<Rightarrow> string" where
  "token_value tok = trim_space (case cut tok ''='' of None \<Rightarrow> [] | Some (k, v) \<Rightarrow> v)"

definition add_invalid :: "string \<Rightarrow> prefer_set \<Rightarrow> prefer_set" where
  "add_invalid tok p = p\<lparr>pf_invalid := pf_invalid p @ [tok]\<rparr>"

definition prefer_token :: "(string \<Rightarrow> bool) \<Rightarrow> string \<Rightarrow> prefer_set \<times> string list \<Rightarrow> prefer_set \<times> string list" where
  "prefer_token tz_ok raw st =
     (case st of (p, seen) \<Rightarrow>
        let tok = trim_space raw in
        if tok = [] then (p, seen)
        else
          let k = token_key tok; v = token_value tok in
          if k \<notin> set preferKeys then (add_invalid tok p, seen)
          else if k \<in> set seen then (p, seen)
          else (case prefer_set_key tz_ok k v p of
                  Some p' \<Rightarrow> (p'\<lparr>pf_applied := aput k (k @ ''='' @ v) (pf_applied p')\<rparr>, k # seen)
                | None \<Rightarrow> (add_invalid tok p, k # seen)))"

definition prefer_tokens :: "(string \<Rightarrow> bool) \<Rightarrow> string list \<Rightarrow> prefer_set \<times> string list" where
  "prefer_tokens tz_ok hdrs =
     fold (prefer_token tz_ok) (concat (map (split_byte CHR '','') hdrs)) (empty_prefer, [])"

definition ParsePrefer :: "(string \<Rightarrow> bool) \<Rightarrow> string list \<Rightarrow> prefer_set" where
  "ParsePrefer tz_ok hdrs =
     (let p = fst (prefer_tokens tz_ok hdrs) in
      if pf_handling p \<noteq> HandlingStrict
      then p\<lparr>pf_applied := adel ''max-affected'' (pf_applied p), pf_max_affected := None\<rparr>
      else p)"

definition ResolveTx :: "tx_end \<Rightarrow> prefer_set \<Rightarrow> prefer_set" where
  "ResolveTx policy p =
     (let clientToken = aget (pf_applied p) ''tx'';
          override = (policy = TxEndCommitAllowOverride \<or> policy = TxEndRollbackAllowOverride)
      in if \<not> override then
           let p1 = (case clientToken of
                       None \<Rightarrow> p
                     | Some tok \<Rightarrow>
                         let p0 = p\<lparr>pf_applied := adel ''tx'' (pf_applied p)\<rparr> in
                         if pf_handling p = HandlingStrict then add_invalid tok p0 else p0)
           in p1\<lparr>pf_tx := (if policy = TxEndRollback then Some TxRollback else None)\<rparr>
         else if clientToken = None then
           p\<lparr>pf_tx := (if policy = TxEndRollbackAllowOverride then Some TxRollback else None)\<rparr>
         else p)"

definition StrictError :: "prefer_set \<Rightarrow> api_error option" where
  "StrictError p =
     (if pf_handling p \<noteq> HandlingStrict \<or> pf_invalid p = [] then None
      else Some (ErrInvalidPreferences (pf_invalid p)))"

definition AppliedHeader :: "prefer_set \<Rightarrow> string" where
  "AppliedHeader p =
     (if pf_applied p = [] then []
      else join '', '' (List.map_filter (aget (pf_applied p)) applyOrder))"

section \<open>Facts about preferences\<close>

text \<open>
  What every step of the token loop keeps: an applied key has been seen, the applied map is a map,
  and a field that \<open>set\<close> fills is filled exactly when its key is applied.
\<close>

definition prefer_inv :: "prefer_set \<times> string list \<Rightarrow> bool" where
  "prefer_inv st \<longleftrightarrow> (case st of (p, seen) \<Rightarrow>
     wf_map (pf_applied p) \<and> set (keys_of (pf_applied p)) \<subseteq> set seen \<and> set seen \<subseteq> set preferKeys \<and>
     (aget (pf_applied p) ''tx'' \<noteq> None \<longleftrightarrow> pf_tx p \<noteq> None) \<and>
     (aget (pf_applied p) ''max-affected'' \<noteq> None \<longleftrightarrow> pf_max_affected p \<noteq> None) \<and>
     pred_option (\<lambda>n. 0 \<le> n) (pf_max_affected p))"

lemma set_key_applied: "prefer_set_key tz_ok k v p = Some p' \<Longrightarrow> pf_applied p' = pf_applied p"
  by (auto simp: prefer_set_key_def split: if_split_asm option.split_asm)

lemma set_key_tx:
  "prefer_set_key tz_ok k v p = Some p' \<Longrightarrow> (if k = ''tx'' then pf_tx p' \<noteq> None else pf_tx p' = pf_tx p)"
  by (auto simp: prefer_set_key_def split: if_split_asm option.split_asm)

lemma set_key_max:
  "prefer_set_key tz_ok k v p = Some p' \<Longrightarrow>
   (if k = ''max-affected'' then (\<exists>n \<ge> 0. pf_max_affected p' = Some n) else pf_max_affected p' = pf_max_affected p)"
  by (auto simp: prefer_set_key_def split: if_split_asm option.split_asm)

lemma add_invalid_simps [simp]:
  "pf_applied (add_invalid t p) = pf_applied p" "pf_tx (add_invalid t p) = pf_tx p"
  "pf_max_affected (add_invalid t p) = pf_max_affected p" "pf_handling (add_invalid t p) = pf_handling p"
  by (simp_all add: add_invalid_def)

lemma prefer_inv_honoured:
  assumes inv: "prefer_inv (p, seen)" and k: "k \<in> set preferKeys"
    and set: "prefer_set_key tz_ok k v p = Some p'"
  shows "prefer_inv (p'\<lparr>pf_applied := aput k t (pf_applied p')\<rparr>, k # seen)"
  using inv k set_key_applied [OF set] set_key_tx [OF set] set_key_max [OF set]
  by (auto simp: prefer_inv_def aget_aput set_keys_aput split: if_splits)

lemma prefer_token_inv: "prefer_inv st \<Longrightarrow> prefer_inv (prefer_token tz_ok tok st)"
proof -
  assume inv: "prefer_inv st"
  obtain p seen where st: "st = (p, seen)" by fastforce
  have "prefer_inv (add_invalid t p, seen)" "prefer_inv (add_invalid t p, k # seen)"
    if "k \<in> set preferKeys" for t k
    using inv that by (auto simp: st prefer_inv_def)
  moreover have "prefer_inv (add_invalid t p, seen)" for t using inv by (auto simp: st prefer_inv_def)
  ultimately show ?thesis
    using inv prefer_inv_honoured [of p seen]
    by (auto simp: prefer_token_def st Let_def split: option.splits)
qed

lemma prefer_tokens_inv: "prefer_inv (prefer_tokens tz_ok hdrs)"
proof -
  have "prefer_inv (fold (prefer_token tz_ok) toks st)" if "prefer_inv st" for toks st
    using that by (induction toks arbitrary: st) (simp_all add: prefer_token_inv)
  moreover have "prefer_inv (empty_prefer, [])"
    by (simp add: prefer_inv_def empty_prefer_def)
  ultimately show ?thesis by (simp add: prefer_tokens_def)
qed

lemma ParsePrefer_applied:
  "wf_map (pf_applied (ParsePrefer tz_ok hdrs))"
  "set (keys_of (pf_applied (ParsePrefer tz_ok hdrs))) \<subseteq> set applyOrder"
  using prefer_tokens_inv [of tz_ok hdrs]
  by (auto simp: ParsePrefer_def Let_def prefer_inv_def adel_def applyOrder_def preferKeys_def wf_map_adel [unfolded adel_def]
      split: prod.splits)

lemma ParsePrefer_tx:
  "aget (pf_applied (ParsePrefer tz_ok hdrs)) ''tx'' \<noteq> None \<longleftrightarrow> pf_tx (ParsePrefer tz_ok hdrs) \<noteq> None"
  using prefer_tokens_inv [of tz_ok hdrs]
  by (auto simp: ParsePrefer_def Let_def prefer_inv_def aget_adel split: prod.splits)

lemma ParsePrefer_max_affected:
  "pf_max_affected (ParsePrefer tz_ok hdrs) = Some n \<Longrightarrow>
     0 \<le> n \<and> pf_handling (ParsePrefer tz_ok hdrs) = HandlingStrict"
  "aget (pf_applied (ParsePrefer tz_ok hdrs)) ''max-affected'' \<noteq> None \<longleftrightarrow>
     pf_max_affected (ParsePrefer tz_ok hdrs) \<noteq> None"
  using prefer_tokens_inv [of tz_ok hdrs]
  by (auto simp: ParsePrefer_def Let_def prefer_inv_def aget_adel split: prod.splits if_splits)

subsection \<open>The first occurrence wins\<close>

text \<open>The keys a list of tokens names, among the recognised ones.\<close>

definition named_keys :: "string list \<Rightarrow> string set" where
  "named_keys toks = {token_key (trim_space t) | t. t \<in> set toks \<and> trim_space t \<noteq> [] \<and>
     token_key (trim_space t) \<in> set preferKeys}"

lemma named_keys_Cons: "named_keys (t # toks) =
  (if trim_space t \<noteq> [] \<and> token_key (trim_space t) \<in> set preferKeys then {token_key (trim_space t)} else {}) \<union> named_keys toks"
  by (auto simp: named_keys_def)

lemma prefer_token_seen: "set (snd (prefer_token tz_ok t (p, seen))) = named_keys [t] \<union> set seen"
  by (auto simp: prefer_token_def named_keys_Cons named_keys_def Let_def split: option.splits)

lemma fold_prefer_seen: "set (snd (fold (prefer_token tz_ok) toks st)) = named_keys toks \<union> set (snd st)"
proof (induction toks arbitrary: st)
  case (Cons t toks)
  obtain p seen where st: "st = (p, seen)" by fastforce
  show ?case
    using Cons [of "prefer_token tz_ok t st"] prefer_token_seen [of tz_ok t p seen]
    by (auto simp: st named_keys_Cons [of t toks] named_keys_Cons [of t "[]"] named_keys_def [of "[]"])
qed (simp add: named_keys_def)

lemma prefer_token_repeated:
  "trim_space t = [] \<or> token_key (trim_space t) \<in> set seen \<inter> set preferKeys \<Longrightarrow>
   prefer_token tz_ok t (p, seen) = (p, seen)"
  by (auto simp: prefer_token_def Let_def)

definition header_tokens :: "string list \<Rightarrow> string list" where
  "header_tokens hdrs = concat (map (split_byte CHR '','') hdrs)"

lemma fold_prefer_repeated:
  "\<forall>t \<in> set toks. trim_space t = [] \<or> token_key (trim_space t) \<in> set (snd st) \<inter> set preferKeys \<Longrightarrow>
   fold (prefer_token tz_ok) toks st = st"
proof (induction toks)
  case (Cons t toks)
  then have "prefer_token tz_ok t st = st"
    using prefer_token_repeated [of t "snd st" tz_ok "fst st"] by auto
  with Cons show ?case by simp
qed simp

lemma prefer_tokens_repeated:
  assumes "\<forall>t \<in> set (header_tokens later). trim_space t = [] \<or> token_key (trim_space t) \<in> named_keys (header_tokens hdrs)"
  shows "prefer_tokens tz_ok (hdrs @ later) = prefer_tokens tz_ok hdrs"
proof -
  let ?st = "fold (prefer_token tz_ok) (header_tokens hdrs) (empty_prefer, [])"
  have "set (snd ?st) = named_keys (header_tokens hdrs)" by (simp add: fold_prefer_seen)
  moreover have "named_keys (header_tokens hdrs) \<subseteq> set preferKeys" by (auto simp: named_keys_def)
  ultimately have "fold (prefer_token tz_ok) (header_tokens later) ?st = ?st"
    using assms by (intro fold_prefer_repeated) auto
  then show ?thesis by (simp add: prefer_tokens_def header_tokens_def)
qed

subsection \<open>What is echoed\<close>

lemma map_filter_map: "List.map_filter f xs = map (the \<circ> f) (filter (\<lambda>x. f x \<noteq> None) xs)"
  by (induction xs) (auto simp: List.map_filter_def)

lemma mset_map_filter_aget:
  assumes "wf_map m" "set (keys_of m) \<subseteq> set ks" "distinct ks"
  shows "mset (List.map_filter (aget m) ks) = mset (map snd m)"
proof -
  have keys: "mset (filter (\<lambda>k. aget m k \<noteq> None) ks) = mset (keys_of m)"
    using assms by (intro set_eq_iff_mset_eq_distinct [THEN iffD1]) (auto simp: aget_None_iff wf_map_def)
  have "mset (List.map_filter (aget m) ks) = image_mset (the \<circ> aget m) (mset (keys_of m))"
    unfolding map_filter_map mset_map keys ..
  also have "\<dots> = mset (map snd m)"
    using assms(1) by (auto simp: aget_mem simp flip: mset_map intro!: arg_cong [of _ _ mset])
  finally show ?thesis .
qed

subsection \<open>Properties\<close>

text \<open>
  The first occurrence of a preference wins: header lines that only repeat recognised keys
  already named, with whatever values, change nothing, neither the set nor the list of offenders.
\<close>

theorem prefer_first_wins:
  assumes "\<forall>t \<in> set (header_tokens later). trim_space t = [] \<or> token_key (trim_space t) \<in> named_keys (header_tokens hdrs)"
  shows "ParsePrefer tz_ok (hdrs @ later) = ParsePrefer tz_ok hdrs"
  using prefer_tokens_repeated [OF assms] by (simp add: ParsePrefer_def)

theorem prefer_first_wins_witness:
  "ParsePrefer (\<lambda>z. True) [''return=minimal'', ''return=representation''] = ParsePrefer (\<lambda>z. True) [''return=minimal'']"
proof -
  have t: "header_tokens [''return=representation''] = [''return=representation'']"
    "header_tokens [''return=minimal''] = [''return=minimal'']" by code_simp+
  have k: "token_key (trim_space ''return=representation'') = ''return''"
    "token_key (trim_space ''return=minimal'') = ''return''" "trim_space ''return=minimal'' \<noteq> []" by code_simp+
  have "token_key (trim_space ''return=representation'') \<in> named_keys (header_tokens [''return=minimal''])"
    unfolding t named_keys_def mem_Collect_eq
    by (rule exI [of _ "''return=minimal''"]) (simp only: k, simp add: preferKeys_def)
  then show ?thesis
    using prefer_first_wins [of "[''return=representation'']" "[''return=minimal'']" "\<lambda>z. True"] by (simp add: t)
qed

text \<open>
  The Preference-Applied header echoes the honoured preferences, all of them and nothing
  else, in the fixed order of \<open>applyOrder\<close>.
\<close>

theorem AppliedHeader_complete:
  "let p = ParsePrefer tz_ok hdrs in
    \<exists>ks. AppliedHeader p = join '', '' (map (the \<circ> aget (pf_applied p)) ks) \<and>
    ks = filter (\<lambda>k. aget (pf_applied p) k \<noteq> None) applyOrder \<and>
    mset ks = mset (keys_of (pf_applied p)) \<and>
    mset (map (the \<circ> aget (pf_applied p)) ks) = mset (map snd (pf_applied p))"
proof -
  define p where "p = ParsePrefer tz_ok hdrs"
  let ?ks = "filter (\<lambda>k. aget (pf_applied p) k \<noteq> None) applyOrder"
  have wf: "wf_map (pf_applied p)" "set (keys_of (pf_applied p)) \<subseteq> set applyOrder"
    unfolding p_def by (rule ParsePrefer_applied)+
  have d: "distinct applyOrder" by (simp add: applyOrder_def)
  have "AppliedHeader p = join '', '' (map (the \<circ> aget (pf_applied p)) ?ks)"
    by (simp add: AppliedHeader_def map_filter_map)
  moreover have "mset ?ks = mset (keys_of (pf_applied p))"
    using wf d by (intro set_eq_iff_mset_eq_distinct [THEN iffD1]) (auto simp: aget_None_iff wf_map_def)
  moreover have "mset (map (the \<circ> aget (pf_applied p)) ?ks) = mset (map snd (pf_applied p))"
    using mset_map_filter_aget [OF wf d] by (simp add: map_filter_map)
  ultimately show ?thesis unfolding Let_def p_def [symmetric] by blast
qed

text \<open>
  \<open>max-affected\<close> takes effect only under \<open>handling=strict\<close>: outside of it the limit is dropped
  and not echoed, and a limit that is kept is not negative.
\<close>

theorem max_affected_only_strict:
  "(pf_handling (ParsePrefer tz_ok hdrs) \<noteq> HandlingStrict \<longrightarrow>
      pf_max_affected (ParsePrefer tz_ok hdrs) = None \<and>
      aget (pf_applied (ParsePrefer tz_ok hdrs)) ''max-affected'' = None) \<and>
   pred_option (\<lambda>n. 0 \<le> n) (pf_max_affected (ParsePrefer tz_ok hdrs))"
  using ParsePrefer_max_affected [of tz_ok hdrs]
  by (cases "pf_max_affected (ParsePrefer tz_ok hdrs)") auto

theorem max_affected_only_strict_witness:
  "pf_max_affected (ParsePrefer (\<lambda>z. True) [''max-affected=5'']) = None"
proof -
  have "pf_handling (ParsePrefer (\<lambda>z. True) [''max-affected=5'']) \<noteq> HandlingStrict" by code_simp
  then show ?thesis using max_affected_only_strict [where hdrs = "[''max-affected=5'']"] by blast
qed

text \<open>
  The transaction policy. \<open>ResolveTx\<close> follows db-tx-end: a fixed policy decides alone and the
  client's \<open>tx=\<close> is neither followed nor echoed (under strict handling it becomes an offender); an
  override policy follows and echoes the client, and falls back on its default.
\<close>

theorem ResolveTx_policy:
  "let p = ParsePrefer tz_ok hdrs in
    pf_tx (ResolveTx policy p) =
      (case policy of
         TxEndCommit \<Rightarrow> None
       | TxEndRollback \<Rightarrow> Some TxRollback
       | TxEndCommitAllowOverride \<Rightarrow> pf_tx p
       | TxEndRollbackAllowOverride \<Rightarrow> (if pf_tx p = None then Some TxRollback else pf_tx p)) \<and>
    aget (pf_applied (ResolveTx policy p)) ''tx'' =
      (if policy = TxEndCommit \<or> policy = TxEndRollback then None else aget (pf_applied p) ''tx'') \<and>
    pf_invalid (ResolveTx policy p) = pf_invalid p @
      (if policy \<in> {TxEndCommit, TxEndRollback} \<and> pf_handling p = HandlingStrict
       then (case aget (pf_applied p) ''tx'' of None \<Rightarrow> [] | Some t \<Rightarrow> [t]) else [])"
  using ParsePrefer_tx [of tz_ok hdrs]
  by (cases policy; cases "aget (pf_applied (ParsePrefer tz_ok hdrs)) ''tx''")
    (auto simp: ResolveTx_def Let_def aget_adel add_invalid_def)

end
