(* ===== verification/Parse_Request.thy ===== *)
theory Parse_Request
  imports Parse_Facts Prefer
begin

section \<open>Package ir: requests\<close>

text \<open>
  The request level of \<open>src/ir/parse.go\<close>: \<open>ParseRead\<close>, \<open>ParseWrite\<close>, \<open>ParseCall\<close> and what they
  share. \<open>encoding/json\<close> and \<open>encoding/csv\<close> are arguments: \<open>json_decode\<close> is the first JSON value of
  a body decoded with \<open>UseNumber\<close> (\<open>None\<close> on a decoding error), \<open>csv_read\<close> is \<open>ReadAll\<close>. A Go
  \<open>range\<close> over a map visits the keys in some order; here it is the order of the list.
\<close>

subsection \<open>Query strings\<close>

fun findEmbed :: "embed list \<Rightarrow> string \<Rightarrow> nat option" where
  "findEmbed [] name = None"
| "findEmbed (e # es) name =
     (if e_out_key (meta e) = name then Some 0 else map_option Suc (findEmbed es name))"

text \<open>The partition loop of \<open>applyParams\<close>: the parameters of this level, and those of each embed.\<close>

definition route_param ::
  "embed list \<Rightarrow> string \<times> string list \<Rightarrow> url_values \<times> url_values go_map \<Rightarrow> url_values \<times> url_values go_map" where
  "route_param es kv st =
     (case kv of (key, vs) \<Rightarrow> case st of (self, scoped) \<Rightarrow>
        if key = ''select'' then (self, scoped)
        else case cutIdentAware key CHR ''.'' of
               Some (pre, rest) \<Rightarrow>
                 (case findEmbed es pre of
                    Some i \<Rightarrow> (self, aput pre (aput rest vs (case aget scoped pre of None \<Rightarrow> [] | Some ev \<Rightarrow> ev)) scoped)
                  | None \<Rightarrow> (aput key vs self, scoped))
             | None \<Rightarrow> (aput key vs self, scoped))"

definition split_params :: "embed list \<Rightarrow> url_values \<Rightarrow> url_values \<times> url_values go_map" where
  "split_params es vals = fold (route_param es) vals ([], [])"

definition parse_limit :: "url_values \<Rightarrow> int option \<Rightarrow> api_error + int option" where
  "parse_limit self cur =
     (let lim = vals_get self ''limit'' in
      if lim = [] then Inr cur
      else case parse_int64 lim of
             None \<Rightarrow> Inl (ErrParse ''limit must be a non-negative integer'')
           | Some n \<Rightarrow>
               if n < 0 then Inl (WithDetails ErrRangeNotSatisfiable ''Limit should be greater than or equal to zero.'')
               else Inr (Some n))"

definition parse_offset :: "url_values \<Rightarrow> int option \<Rightarrow> api_error + int option" where
  "parse_offset self cur =
     (let off = vals_get self ''offset'' in
      if off = [] then Inr cur
      else case parse_int64 off of
             None \<Rightarrow> Inl (ErrParse ''offset must be a non-negative integer'')
           | Some n \<Rightarrow>
               if n < 0 then Inl (ErrParse ''offset must be a non-negative integer'')
               else Inr (Some n))"

definition apply_self :: "query_base \<Rightarrow> url_values \<Rightarrow> api_error + query_base" where
  "apply_self b self =
     bindr (if vals_get self ''order'' = [] then Inr (q_order b) else parseOrder (vals_get self ''order'')) (\<lambda>ord.
     bindr (parse_limit self (q_limit b)) (\<lambda>lim.
     bindr (parse_offset self (q_offset b)) (\<lambda>off.
     bindr (parseFilters self) (\<lambda>cond.
       Inr (b\<lparr>q_order := ord, q_limit := lim, q_offset := off, q_where := cond\<rparr>)))))"

text \<open>
  \<open>applyParams\<close> recurses into the embeds its parameters name. The weight of a list of parameters
  is the length of its keys; a parameter that goes to an embed loses its prefix, so the
  recursion ends on every input. \<open>apply_scoped\<close> is the loop over the embed prefixes, each of
  which names an embed (\<open>scoped_known\<close> below), so its \<open>None\<close> branch is never taken.
\<close>

definition params_weight :: "url_values \<Rightarrow> nat" where
  "params_weight vals = sum_list (map (\<lambda>kv. length (fst kv) + 1) vals)"

definition scoped_weight :: "url_values go_map \<Rightarrow> nat" where
  "scoped_weight scoped = sum_list (map (\<lambda>pe. params_weight (snd pe) + 1) scoped)"

lemma params_weight_aput: "params_weight (aput k v m) \<le> params_weight m + length k + 1"
  by (induction k v m rule: aput.induct) (auto simp: params_weight_def)

lemma scoped_weight_aput:
  "scoped_weight (aput k ev m) + (case aget m k of None \<Rightarrow> 0 | Some ev' \<Rightarrow> params_weight ev' + 1)
   = scoped_weight m + params_weight ev + 1"
  by (induction k ev m rule: aput.induct) (auto simp: scoped_weight_def split: option.splits)

lemma route_param_weight:
  "scoped_weight (snd (route_param es (k, vs) st)) \<le> scoped_weight (snd st) + length k + 1"
proof -
  obtain self scoped where st: "st = (self, scoped)" by fastforce
  have "scoped_weight (aput pre (aput rest vs (case aget scoped pre of None \<Rightarrow> [] | Some ev \<Rightarrow> ev)) scoped)
      \<le> scoped_weight scoped + length k + 1" if "cutIdentAware k CHR ''.'' = Some (pre, rest)" for pre rest
  proof -
    have "length rest + 1 \<le> length k" using cutIdentAware_Some [OF that] by simp
    then show ?thesis
      using scoped_weight_aput [of pre "aput rest vs (case aget scoped pre of None \<Rightarrow> [] | Some ev \<Rightarrow> ev)" scoped]
        params_weight_aput [of rest vs "case aget scoped pre of None \<Rightarrow> [] | Some ev \<Rightarrow> ev"]
      by (auto simp: params_weight_def split: option.splits)
  qed
  then show ?thesis by (auto simp: route_param_def st split: option.splits)
qed

lemma split_params_weight: "scoped_weight (snd (split_params es vals)) \<le> params_weight vals"
proof -
  have "scoped_weight (snd (fold (route_param es) vals st)) \<le> scoped_weight (snd st) + params_weight vals" for st
  proof (induction vals arbitrary: st)
    case (Cons kv vals)
    show ?case
      using Cons [of "route_param es kv st"] route_param_weight [of es "fst kv" "snd kv" st]
      by (simp add: params_weight_def)
  qed (simp add: params_weight_def)
  from this [of "([], [])"] show ?thesis by (simp add: split_params_def scoped_weight_def)
qed

function applyParams :: "query \<Rightarrow> url_values \<Rightarrow> api_error + query"
  and apply_scoped :: "embed list \<Rightarrow> url_values go_map \<Rightarrow> api_error + embed list"
where
  "applyParams q vals =
     bindr (apply_self (base q) (fst (split_params (embeds q) vals))) (\<lambda>b.
     bindr (apply_scoped (embeds q) (snd (split_params (embeds q) vals))) (\<lambda>es. Inr (Query b es)))"
| "apply_scoped es [] = Inr es"
| "apply_scoped es ((prefix, ev) # rest) =
     (case findEmbed es prefix of
        None \<Rightarrow> apply_scoped es rest
      | Some i \<Rightarrow>
          bindr (applyParams (equery (es ! i)) ev) (\<lambda>q'.
            apply_scoped (es[i := Embed (meta (es ! i)) q']) rest))"
  by pat_completeness auto
termination
proof (relation "measure (case_sum (\<lambda>(q, vals). 2 * params_weight vals + 1) (\<lambda>(es, scoped). 2 * scoped_weight scoped))")
  fix q vals and x :: query_base
  show "(Inr (embeds q, snd (split_params (embeds q) vals)), Inl (q, vals))
     \<in> measure (case_sum (\<lambda>(q, vals). 2 * params_weight vals + 1) (\<lambda>(es, scoped). 2 * scoped_weight scoped))"
    using split_params_weight [of "embeds q" vals] by simp
qed (auto simp: scoped_weight_def)

declare applyParams.simps [simp del]

definition parseQueryString :: "query \<Rightarrow> url_values \<Rightarrow> api_error + query" where
  "parseQueryString q vals =
     (if vals_has vals ''select'' then
        let sel = vals_get vals ''select'' in
        if sel = []
        then Inl (ErrParse ([dquote] @ ''failed to parse select parameter ()'' @ [dquote] @ '' (line 1, column 1)''))
        else bindr (parseSelect sel False) (\<lambda>(items, es).
               applyParams (Query ((base q)\<lparr>q_select := items\<rparr>) es) vals)
      else applyParams q vals)"

definition with_prefer :: "prefer_set \<Rightarrow> query_base \<Rightarrow> query_base" where
  "with_prefer p b = b\<lparr>q_prefer := p, q_count := (case pf_count p of Some c \<Rightarrow> c | None \<Rightarrow> q_count b)\<rparr>"

definition ParseRead :: "(string \<Rightarrow> bool) \<Rightarrow> string \<Rightarrow> string \<Rightarrow> string list \<Rightarrow> api_error + query" where
  "ParseRead tz_ok relation rawQuery preferHeaders =
     (case parse_query rawQuery of
        None \<Rightarrow> Inl (ErrParse ''could not parse query string'')
      | Some vals \<Rightarrow>
          let p = ParsePrefer tz_ok preferHeaders in
          case StrictError p of
            Some e \<Rightarrow> Inl e
          | None \<Rightarrow> parseQueryString (Query (with_prefer p (new_base Read relation)) []) vals)"

subsection \<open>Bodies\<close>

datatype write_format = FmtJSON | FmtCSV | FmtForm | FmtUnknown
datatype csv_error = CSVFieldCount | CSVOther

type_synonym json_decoder = "string \<Rightarrow> json option"
type_synonym csv_reader = "string \<Rightarrow> csv_error + string list list"

text \<open>The media type of a Content-Type header, lower-cased and without its parameters.\<close>

definition media_type :: "string \<Rightarrow> string" where
  "media_type contentType =
     (let ct = to_lower (trim_space contentType) in
      case index_byte ct CHR '';'' of Some i \<Rightarrow> trim_space (take i ct) | None \<Rightarrow> ct)"

definition bodyFormat :: "string \<Rightarrow> write_format" where
  "bodyFormat contentType =
     (let ct = media_type contentType in
      if ct = [] \<or> ct = ''application/json'' then FmtJSON
      else if ct = ''text/csv'' then FmtCSV
      else if ct = ''application/x-www-form-urlencoded'' then FmtForm
      else FmtUnknown)"

definition object_of :: "json \<Rightarrow> json go_map option" where
  "object_of j = (case j of JObject m \<Rightarrow> Some m | _ \<Rightarrow> None)"

definition decodeJSONObjects :: "json_decoder \<Rightarrow> string \<Rightarrow> api_error + json go_map list" where
  "decodeJSONObjects json_decode body =
     (case json_decode body of
        None \<Rightarrow> Inl (ErrInvalidBody [])
      | Some (JObject m) \<Rightarrow> Inr [m]
      | Some (JArray l) \<Rightarrow>
          mapr (\<lambda>e. case object_of e of Some m \<Rightarrow> Inr m
                    | None \<Rightarrow> Inl (ErrInvalidBody ''All object keys must match'')) l
      | Some _ \<Rightarrow> Inl (ErrInvalidBody []))"

text \<open>One CSV record as a row object; the cell of a short record is nil.\<close>

definition csv_cell :: "string list \<Rightarrow> nat \<Rightarrow> json" where
  "csv_cell rec i =
     (if length rec \<le> i then JNull
      else if rec ! i = ''NULL'' then JNull
      else JString (rec ! i))"

definition csv_row :: "string list \<Rightarrow> string list \<Rightarrow> json go_map" where
  "csv_row header rec = fold (\<lambda>(i, h) m. aput h (csv_cell rec i) m) (enumerate 0 header) []"

definition decodeCSVObjects :: "csv_reader \<Rightarrow> string \<Rightarrow> api_error + json go_map list \<times> string list" where
  "decodeCSVObjects csv_read body =
     (case csv_read body of
        Inl CSVFieldCount \<Rightarrow> Inl (ErrInvalidBody ''All lines must have same number of fields'')
      | Inl CSVOther \<Rightarrow> Inl (ErrInvalidBody ''malformed CSV body'')
      | Inr [] \<Rightarrow> Inl (ErrInvalidBody ''CSV body has no header row'')
      | Inr (header # recs) \<Rightarrow> Inr (map (csv_row header) recs, header))"

definition decodeFormObject :: "string \<Rightarrow> api_error + json go_map" where
  "decodeFormObject body =
     (case parse_query body of
        None \<Rightarrow> Inl (ErrInvalidBody ''malformed form body'')
      | Some vals \<Rightarrow> Inr (List.map_filter (\<lambda>(k, vs). case vs of [] \<Rightarrow> None | v # _ \<Rightarrow> Some (k, JString v)) vals))"

text \<open>\<open>decodeBodyObjects\<close>: the rows, and the header of a CSV body (\<open>None\<close> is the nil header).\<close>

definition decodeBodyObjects ::
  "json_decoder \<Rightarrow> csv_reader \<Rightarrow> string \<Rightarrow> string \<Rightarrow> api_error + json go_map list \<times> string list option" where
  "decodeBodyObjects json_decode csv_read contentType body =
     (case bodyFormat contentType of
        FmtJSON \<Rightarrow> bindr (decodeJSONObjects json_decode body) (\<lambda>objs. Inr (objs, None))
      | FmtCSV \<Rightarrow> bindr (decodeCSVObjects csv_read body) (\<lambda>(objs, header). Inr (objs, Some header))
      | FmtForm \<Rightarrow> bindr (decodeFormObject body) (\<lambda>obj. Inr ([obj], None))
      | FmtUnknown \<Rightarrow> Inl (ErrUnsupportedMediaType contentType))"

definition decodeBodyObject :: "json_decoder \<Rightarrow> csv_reader \<Rightarrow> string \<Rightarrow> string \<Rightarrow> api_error + json go_map" where
  "decodeBodyObject json_decode csv_read contentType body =
     (case bodyFormat contentType of
        FmtJSON \<Rightarrow>
          (case json_decode body of
             None \<Rightarrow> Inl (ErrInvalidBody [])
           | Some (JObject m) \<Rightarrow> Inr m
           | Some (JArray l) \<Rightarrow>
               if list_all (\<lambda>e. object_of e = Some []) l then Inr []
               else Inl (ErrInvalidBody ''All object keys must match'')
           | Some _ \<Rightarrow> Inl (ErrInvalidBody []))
      | FmtCSV \<Rightarrow>
          bindr (decodeCSVObjects csv_read body) (\<lambda>(objs, header).
            case objs of
              [obj] \<Rightarrow> Inr obj
            | _ \<Rightarrow> Inl (ErrInvalidBody ''CSV update body must have exactly one data row''))
      | FmtForm \<Rightarrow> decodeFormObject body
      | FmtUnknown \<Rightarrow> Inl (ErrUnsupportedMediaType contentType))"

definition bindRawBody :: "json_decoder \<Rightarrow> string \<Rightarrow> string \<Rightarrow> api_error + ir_value" where
  "bindRawBody json_decode contentType body =
     (let ct = media_type contentType in
      if ct = [] \<or> ct = ''application/json'' then
        (case json_decode body of
           None \<Rightarrow> Inl (ErrInvalidBody [])
         | Some v \<Rightarrow> Inr (json_value v))
      else if ct = ''text/plain'' \<or> ct = ''text/xml'' \<or> ct = ''application/xml'' then Inr (text_value body)
      else if ct = ''application/octet-stream'' then Inr (text_value body)
      else Inl (ErrUnsupportedMediaType contentType))"

definition uniform_with :: "json go_map \<Rightarrow> json go_map \<Rightarrow> bool" where
  "uniform_with fst_obj obj \<longleftrightarrow>
     length obj = length fst_obj \<and> list_all (\<lambda>k. aget obj k \<noteq> None) (keys_of fst_obj)"

definition checkUniformKeys :: "json go_map list \<Rightarrow> api_error option" where
  "checkUniformKeys objs =
     (case objs of
        o1 # rest \<Rightarrow>
          if list_all (uniform_with o1) rest then None
          else Some (ErrInvalidBody ''All object keys must match'')
      | [] \<Rightarrow> None)"

definition json_row :: "json go_map \<Rightarrow> ir_value go_map" where
  "json_row obj = map (\<lambda>(k, j). (k, json_value j)) obj"

definition strip_quotes :: "string \<Rightarrow> string" where
  "strip_quotes c = (if wrapped dquote dquote c then strip_ends c else c)"

definition buildInsert ::
  "json go_map list \<Rightarrow> string \<Rightarrow> string list option \<Rightarrow> ir_value go_map list \<times> string list" where
  "buildInsert objs columnsParam header =
     (map json_row objs,
      if columnsParam \<noteq> [] then map strip_quotes (splitComma columnsParam)
      else case header of
             Some h \<Rightarrow> h
           | None \<Rightarrow> (case objs of [] \<Rightarrow> [] | o1 # _ \<Rightarrow> sort (keys_of o1)))"

subsection \<open>Writes\<close>

definition write_from_prefer :: "prefer_set \<Rightarrow> write_spec" where
  "write_from_prefer p = empty_write\<lparr>
     w_return := (case pf_return p of Some r \<Rightarrow> r | None \<Rightarrow> ReturnMinimal),
     w_missing := (case pf_missing p of Some m \<Rightarrow> m | None \<Rightarrow> MissingNull),
     w_tx := (case pf_tx p of Some t \<Rightarrow> t | None \<Rightarrow> TxAuto),
     w_max_rows := pf_max_affected p\<rparr>"

text \<open>The promotion to an upsert: PUT always, a POST when it carries a resolution preference.\<close>

definition write_conflict :: "query_kind \<Rightarrow> prefer_set \<Rightarrow> string \<Rightarrow> conflict option" where
  "write_conflict kind p onConflict =
     (if kind = Upsert \<or> (kind = Insert \<and> pf_resolution p \<noteq> None)
      then Some \<lparr>cf_target = (if onConflict \<noteq> [] then splitComma onConflict else []),
                 cf_resolution = (case pf_resolution p of Some r \<Rightarrow> r | None \<Rightarrow> ConflictMerge)\<rparr>
      else None)"

definition write_payload ::
  "json_decoder \<Rightarrow> csv_reader \<Rightarrow> query_kind \<Rightarrow> url_values \<Rightarrow> string \<Rightarrow> string \<Rightarrow> write_spec \<Rightarrow> api_error + write_spec" where
  "write_payload json_decode csv_read kind vals contentType body w =
     (if kind = Insert \<or> kind = Upsert then
        bindr (decodeBodyObjects json_decode csv_read contentType body) (\<lambda>(objs, header).
          let cols = vals_get vals ''columns'' in
          case (if cols = [] \<and> bodyFormat contentType = FmtJSON then checkUniformKeys objs else None) of
            Some e \<Rightarrow> Inl e
          | None \<Rightarrow>
              let (rows, columns) = buildInsert objs cols header
              in Inr (w\<lparr>w_rows := rows, w_columns := columns\<rparr>))
      else if kind = Update then
        bindr (decodeBodyObject json_decode csv_read contentType body) (\<lambda>obj.
          Inr (w\<lparr>w_set := json_row obj\<rparr>))
      else Inr w)"

definition ParseWrite ::
  "(string \<Rightarrow> bool) \<Rightarrow> json_decoder \<Rightarrow> csv_reader \<Rightarrow> query_kind \<Rightarrow> string \<Rightarrow> string \<Rightarrow> string list \<Rightarrow>
   string \<Rightarrow> string \<Rightarrow> api_error + query" where
  "ParseWrite tz_ok json_decode csv_read kind relation rawQuery preferHeaders contentType body =
     (case parse_query rawQuery of
        None \<Rightarrow> Inl (ErrParse ''could not parse query string'')
      | Some vals \<Rightarrow>
          let p = ParsePrefer tz_ok preferHeaders in
          case StrictError p of
            Some e \<Rightarrow> Inl e
          | None \<Rightarrow>
              bindr (parseQueryString
                (Query ((with_prefer p (new_base kind relation))\<lparr>q_is_put := (kind = Upsert)\<rparr>) []) vals) (\<lambda>q.
                let conf = write_conflict kind p (vals_get vals ''on_conflict'');
                    kind' = (if conf = None then kind else Upsert)
                in bindr (write_payload json_decode csv_read kind' vals contentType body
                            ((write_from_prefer p)\<lparr>w_conflict := conf\<rparr>)) (\<lambda>w.
                     Inr (upd_base (\<lambda>b. b\<lparr>q_kind := kind', q_write := Some w\<rparr>) q))))"

subsection \<open>Function calls\<close>

definition callReserved :: "string list" where
  "callReserved = [''select'', ''order'', ''limit'', ''offset'']"

definition new_call :: "string \<Rightarrow> prefer_set \<Rightarrow> ir_call" where
  "new_call fn p = \<lparr>cl_function = bare_ref fn, cl_args = [], cl_read_only = False, cl_select = [],
     cl_where = None, cl_order = [], cl_limit = None, cl_offset = None, cl_embeds = [],
     cl_singular = False, cl_count = (case pf_count p of Some c \<Rightarrow> c | None \<Rightarrow> CountNone),
     cl_prefer = p, cl_raw_get = None\<rparr>"

definition call_from_query :: "ir_call \<Rightarrow> query \<Rightarrow> ir_value go_map \<Rightarrow> ir_call" where
  "call_from_query c pq args = c\<lparr>cl_select := q_select (base pq), cl_where := q_where (base pq),
     cl_order := q_order (base pq), cl_limit := q_limit (base pq), cl_offset := q_offset (base pq),
     cl_embeds := embeds pq, cl_args := args\<rparr>"

definition get_args :: "url_values \<Rightarrow> ir_value go_map" where
  "get_args raw = map (\<lambda>(k, vs). (k, text_value (last vs))) raw"

definition call_body_args ::
  "json_decoder \<Rightarrow> csv_reader \<Rightarrow> string \<Rightarrow> string \<Rightarrow> string \<Rightarrow> api_error + ir_value go_map" where
  "call_body_args json_decode csv_read contentType body rawBodyParam =
     (if rawBodyParam \<noteq> [] then
        bindr (bindRawBody json_decode contentType body) (\<lambda>v. Inr [(rawBodyParam, v)])
      else if body \<noteq> [] then
        bindr (decodeBodyObject json_decode csv_read contentType body) (\<lambda>obj. Inr (json_row obj))
      else Inr [])"

definition ParseCall ::
  "(string \<Rightarrow> bool) \<Rightarrow> json_decoder \<Rightarrow> csv_reader \<Rightarrow> string \<Rightarrow> string \<Rightarrow> string list \<Rightarrow> bool \<Rightarrow> string \<Rightarrow>
   string \<Rightarrow> string \<Rightarrow> api_error + ir_call" where
  "ParseCall tz_ok json_decode csv_read fn rawQuery preferHeaders isGet contentType body rawBodyParam =
     (case parse_query rawQuery of
        None \<Rightarrow> Inl (ErrParse ''could not parse query string'')
      | Some vals \<Rightarrow>
          let p = ParsePrefer tz_ok preferHeaders; pq0 = Query (new_base Read []) [] in
          case StrictError p of
            Some e \<Rightarrow> Inl e
          | None \<Rightarrow>
              if isGet then
                let post = filter (\<lambda>kv. fst kv \<in> set callReserved) vals;
                    raw = filter (\<lambda>kv. fst kv \<notin> set callReserved) vals
                in bindr (parseQueryString pq0 post) (\<lambda>pq.
                     Inr (call_from_query ((new_call fn p)\<lparr>cl_raw_get := Some raw\<rparr>) pq (get_args raw)))
              else
                bindr (parseQueryString pq0 vals) (\<lambda>pq.
                bindr (call_body_args json_decode csv_read contentType body rawBodyParam) (\<lambda>args.
                  Inr (call_from_query (new_call fn p) pq args))))"

text \<open>\<open>PartitionGetArgs\<close>: the keys that name no parameter become filters on the result.\<close>

definition partition_args :: "(string \<Rightarrow> bool) \<Rightarrow> (string \<Rightarrow> bool) \<Rightarrow> url_values \<Rightarrow> ir_value go_map \<Rightarrow> ir_value go_map" where
  "partition_args isParam isVariadic raw args =
     fold (\<lambda>(k, vs) a. if isParam k then (if isVariadic k then aput k (list_value vs) a else a) else adel k a) raw args"

definition and_where :: "cond option \<Rightarrow> cond option \<Rightarrow> cond option" where
  "and_where w c =
     (case c of
        None \<Rightarrow> w
      | Some x \<Rightarrow> (case w of None \<Rightarrow> Some x | Some y \<Rightarrow> Some (CAnd [y, x])))"

definition PartitionGetArgs :: "(string \<Rightarrow> bool) \<Rightarrow> (string \<Rightarrow> bool) \<Rightarrow> ir_call \<Rightarrow> api_error + ir_call" where
  "PartitionGetArgs isParam isVariadic c =
     (case cl_raw_get c of
        None \<Rightarrow> Inr c
      | Some raw \<Rightarrow>
          let filters = filter (\<lambda>kv. \<not> isParam (fst kv)) raw;
              c' = c\<lparr>cl_args := partition_args isParam isVariadic raw (cl_args c)\<rparr>
          in if filters = [] then Inr c'
             else bindr (parseFilters filters) (\<lambda>cond.
                    Inr (c'\<lparr>cl_where := and_where (cl_where c') cond\<rparr>)))"

section \<open>Facts about requests\<close>

subsection \<open>Errors\<close>

lemma parse_limit_error: "parse_limit self cur = Inl e \<Longrightarrow> is_parse_error e"
  by (auto simp: parse_limit_def Let_def split: if_splits option.splits)

lemma parse_offset_error: "parse_offset self cur = Inl e \<Longrightarrow> is_parse_error e"
  by (auto simp: parse_offset_def Let_def split: if_splits option.splits)

lemma apply_self_error: "apply_self b self = Inl e \<Longrightarrow> is_parse_error e"
  by (auto simp: apply_self_def bindr_Inl_conv split: if_splits
      dest: parse_limit_error parse_offset_error grammar_errors)

lemma apply_params_error:
  "applyParams q vals = Inl e \<Longrightarrow> is_parse_error e"
  "apply_scoped es scoped = Inl e \<Longrightarrow> is_parse_error e"
proof (induction q vals and es scoped arbitrary: e and e rule: applyParams_apply_scoped.induct)
  case (1 q vals)
  then show ?case
    by (auto simp: applyParams.simps [of q] bindr_Inl_conv dest: apply_self_error)
next
  case (3 es prefix ev rest)
  then show ?case by (auto simp: bindr_Inl_conv split: option.splits)
qed simp

lemma parseQueryString_error: "parseQueryString q vals = Inl e \<Longrightarrow> is_parse_error e"
  by (auto simp: parseQueryString_def Let_def bindr_Inl_conv split: if_splits
      dest: apply_params_error grammar_errors)

lemma StrictError_error: "StrictError p = Some e \<Longrightarrow> is_request_error e"
  by (auto simp: StrictError_def split: if_splits)

lemma ParseRead_error: "ParseRead tz_ok rel raw hdrs = Inl e \<Longrightarrow> is_request_error e"
  by (auto simp: ParseRead_def Let_def split: option.splits dest: parseQueryString_error StrictError_error)

lemma decodeJSONObjects_error: "decodeJSONObjects jd body = Inl e \<Longrightarrow> is_request_error e"
  by (auto simp: decodeJSONObjects_def split: option.splits json.splits dest!: mapr_InlD)

lemma decodeCSVObjects_error: "decodeCSVObjects cr body = Inl e \<Longrightarrow> is_request_error e"
  by (auto simp: decodeCSVObjects_def split: sum.splits csv_error.splits list.splits)

lemma decodeFormObject_error: "decodeFormObject body = Inl e \<Longrightarrow> is_request_error e"
  by (auto simp: decodeFormObject_def split: option.splits)

lemmas decode_errors = decodeJSONObjects_error decodeCSVObjects_error decodeFormObject_error

lemma decodeBodyObjects_error: "decodeBodyObjects jd cr ct body = Inl e \<Longrightarrow> is_request_error e"
  by (auto simp: decodeBodyObjects_def bindr_Inl_conv split: write_format.splits dest: decode_errors)

lemma singleton_case_Inl:
  "(case objs of [obj] \<Rightarrow> Inr obj | _ \<Rightarrow> Inl x) = Inl e \<Longrightarrow> x = e"
  by (auto split: list.split_asm)

lemma decodeBodyObject_error: "decodeBodyObject jd cr ct body = Inl e \<Longrightarrow> is_request_error e"
  by (auto simp: decodeBodyObject_def bindr_Inl_conv
      split: write_format.split_asm option.split_asm json.split_asm if_split_asm dest: decode_errors singleton_case_Inl)

lemma checkUniformKeys_error: "checkUniformKeys objs = Some e \<Longrightarrow> is_request_error e"
  by (auto simp: checkUniformKeys_def split: list.splits if_splits)

lemma write_payload_error: "write_payload jd cr kind vals ct body w = Inl e \<Longrightarrow> is_request_error e"
  by (auto simp: write_payload_def Let_def bindr_Inl_conv split: if_splits option.splits prod.splits
      dest: decodeBodyObjects_error decodeBodyObject_error checkUniformKeys_error)

lemma ParseWrite_error: "ParseWrite tz_ok jd cr kind rel raw hdrs ct body = Inl e \<Longrightarrow> is_request_error e"
  by (auto simp: ParseWrite_def Let_def bindr_Inl_conv split: option.splits
      dest: parseQueryString_error StrictError_error write_payload_error)

lemma bindRawBody_error: "bindRawBody jd ct body = Inl e \<Longrightarrow> is_request_error e"
  by (auto simp: bindRawBody_def Let_def split: if_splits option.splits)

lemma call_body_args_error: "call_body_args jd cr ct body rp = Inl e \<Longrightarrow> is_request_error e"
  by (auto simp: call_body_args_def bindr_Inl_conv split: if_splits
      dest: bindRawBody_error decodeBodyObject_error)

lemma ParseCall_error: "ParseCall tz_ok jd cr fn raw hdrs isGet ct body rp = Inl e \<Longrightarrow> is_request_error e"
  by (auto simp: ParseCall_def Let_def bindr_Inl_conv split: option.splits if_splits
      dest: parseQueryString_error StrictError_error call_body_args_error)

subsection \<open>What holds of a parsed query\<close>

text \<open>The window of a query is in range.\<close>

definition window_ok :: "query_base \<Rightarrow> embed list \<Rightarrow> bool" where
  "window_ok b es \<longleftrightarrow> pred_option (\<lambda>n. 0 \<le> n \<and> n \<le> int64_max) (q_limit b) \<and>
     pred_option (\<lambda>n. 0 \<le> n \<and> n \<le> int64_max) (q_offset b)"

lemma query_all_sel: "query_all I q \<longleftrightarrow> I (base q) (embeds q) \<and> list_all (embed_all I) (embeds q)"
  by (cases q) simp

lemma embed_all_sel: "embed_all I e \<longleftrightarrow> query_all I (equery e)"
  by (cases e) simp

lemma findEmbed_length: "findEmbed es name = Some i \<Longrightarrow> i < length es \<and> e_out_key (meta (es ! i)) = name"
  by (induction es arbitrary: i) (auto split: if_splits)

lemma list_all_update: "list_all P xs \<Longrightarrow> P x \<Longrightarrow> list_all P (xs[i := x])"
  using set_update_subset_insert [of xs i x] by (auto simp: list_all_iff)

lemma list_all_nth: "list_all P xs \<Longrightarrow> i < length xs \<Longrightarrow> P (xs ! i)"
  by (simp add: list_all_length)

lemma apply_self_window: "apply_self b self = Inr b' \<Longrightarrow> window_ok b es \<Longrightarrow> window_ok b' es'"
  by (auto simp: apply_self_def parse_limit_def parse_offset_def Let_def window_ok_def bindr_Inr_conv
      split: if_splits option.splits dest: parse_int64_range)

lemma apply_self_select: "apply_self b self = Inr b' \<Longrightarrow> q_select b' = q_select b"
  by (auto simp: apply_self_def bindr_Inr_conv)

text \<open>
  An invariant of the select tree that applying the parameters of a level keeps, and that only
  counts the embeds of the level, holds of every level of a parsed request.
\<close>

locale counting_invariant = select_invariant +
  assumes level_params: "apply_self b self = Inr b' \<Longrightarrow> length es' = length es \<Longrightarrow> I b es \<Longrightarrow> I b' es'"
begin

lemma apply_params_invariant:
  "applyParams q vals = Inr q' \<Longrightarrow> query_all I q \<Longrightarrow> query_all I q'"
  "apply_scoped es scoped = Inr es' \<Longrightarrow> list_all (embed_all I) es \<Longrightarrow> list_all (embed_all I) es' \<and> length es' = length es"
proof (induction q vals and es scoped arbitrary: q' and es' rule: applyParams_apply_scoped.induct)
  case (1 q vals)
  then obtain b es' where b: "apply_self (base q) (fst (split_params (embeds q) vals)) = Inr b"
    and es': "apply_scoped (embeds q) (snd (split_params (embeds q) vals)) = Inr es'" and q': "q' = Query b es'"
    by (auto simp: applyParams.simps [of q] bindr_Inr_conv)
  from "1.IH" [OF b es'] "1.prems"(2) show ?case
    using level_params [OF b, of es' "embeds q"] by (simp add: q' query_all_sel)
next
  case (3 es prefix ev rest)
  show ?case
  proof (cases "findEmbed es prefix")
    case (Some i)
    then obtain q' where q': "applyParams (equery (es ! i)) ev = Inr q'"
      and rest: "apply_scoped (es[i := Embed (meta (es ! i)) q']) rest = Inr es'"
      using "3.prems"(1) by (auto simp: bindr_Inr_conv)
    have "query_all I (equery (es ! i))"
      using list_all_nth [OF "3.prems"(2)] findEmbed_length [OF Some] by (simp add: embed_all_sel)
    then have "query_all I q'" using "3.IH"(2) [OF Some q'] by simp
    then show ?thesis using "3.IH"(3) [OF Some q' rest] "3.prems"(2) by (simp add: list_all_update)
  qed (use 3 in simp)
qed simp

lemma parse_query_string_invariant:
  assumes "parseQueryString q vals = Inr q'" "q_select (base q) = []" "embeds q = []" "fresh (base q)"
  shows "query_all I q'"
proof (cases "vals_has vals ''select''")
  case True
  then obtain items es where sel: "parseSelect (vals_get vals ''select'') False = Inr (items, es)"
    and q': "applyParams (Query ((base q)\<lparr>q_select := items\<rparr>) es) vals = Inr q'"
    using assms(1) by (auto simp: parseQueryString_def Let_def bindr_Inr_conv split: if_splits)
  have "fresh ((base q)\<lparr>q_select := items\<rparr>)" using assms(4) by (simp add: fresh_def)
  with parse_invariant(1) [OF sel] apply_params_invariant(1) [OF q'] show ?thesis by simp
next
  case False
  then show ?thesis
    using assms apply_params_invariant(1) [of q vals q'] by (simp add: parseQueryString_def query_all_sel level_empty)
qed

end

interpretation refs: counting_invariant refs_ok
  by unfold_locales (auto simp: refs_ok_def dest: apply_self_select)

interpretation casts: counting_invariant casts_ok
  by unfold_locales (auto simp: casts_ok_def dest: apply_self_select)

interpretation windows: counting_invariant window_ok
  by unfold_locales (auto simp: window_ok_def fresh_def dest: apply_self_window [unfolded window_ok_def])

subsection \<open>What a parsed request is made of\<close>

lemma apply_self_rest:
  "apply_self b self = Inr b' \<Longrightarrow> q_relation b' = q_relation b \<and> q_is_put b' = q_is_put b \<and> q_kind b' = q_kind b"
  by (auto simp: apply_self_def bindr_Inr_conv)

lemma parseQueryString_rest:
  "parseQueryString q vals = Inr q' \<Longrightarrow>
   q_relation (base q') = q_relation (base q) \<and> q_is_put (base q') = q_is_put (base q) \<and> q_kind (base q') = q_kind (base q)"
  by (auto simp: parseQueryString_def applyParams.simps Let_def bindr_Inr_conv split: if_split_asm dest!: apply_self_rest)

lemma ParseRead_InrE:
  assumes "ParseRead tz_ok rel raw hdrs = Inr q"
  obtains vals where "parse_query raw = Some vals"
    "parseQueryString (Query (with_prefer (ParsePrefer tz_ok hdrs) (new_base Read rel)) []) vals = Inr q"
  using assms by (auto simp: ParseRead_def Let_def split: option.split_asm)

lemma ParseWrite_InrE:
  assumes "ParseWrite tz_ok jd cr kind rel raw hdrs ct body = Inr q"
  obtains vals q0 w where "parse_query raw = Some vals"
    "parseQueryString (Query ((with_prefer (ParsePrefer tz_ok hdrs) (new_base kind rel))\<lparr>q_is_put := (kind = Upsert)\<rparr>) []) vals = Inr q0"
    "write_payload jd cr (if write_conflict kind (ParsePrefer tz_ok hdrs) (vals_get vals ''on_conflict'') = None then kind else Upsert)
       vals ct body ((write_from_prefer (ParsePrefer tz_ok hdrs))
         \<lparr>w_conflict := write_conflict kind (ParsePrefer tz_ok hdrs) (vals_get vals ''on_conflict'')\<rparr>) = Inr w"
    "q = upd_base (\<lambda>b. b\<lparr>q_kind := (if write_conflict kind (ParsePrefer tz_ok hdrs) (vals_get vals ''on_conflict'') = None then kind else Upsert),
        q_write := Some w\<rparr>) q0"
  using assms by (auto simp: ParseWrite_def Let_def bindr_Inr_conv split: option.split_asm)

lemma write_payload_rest:
  "write_payload jd cr kind vals ct body w = Inr w' \<Longrightarrow>
   w_conflict w' = w_conflict w \<and> w_return w' = w_return w \<and> w_missing w' = w_missing w \<and> w_max_rows w' = w_max_rows w \<and> w_tx w' = w_tx w"
  by (auto simp: write_payload_def Let_def bindr_Inr_conv split_beta split: if_split_asm option.split_asm)

lemma fresh_with_prefer [simp]: "fresh (with_prefer p (new_base k rel))"
  "fresh ((with_prefer p (new_base k rel))\<lparr>q_is_put := x\<rparr>)"
  by (simp_all add: fresh_def with_prefer_def new_base_def)

subsection \<open>Uniform rows\<close>

text \<open>
  \<open>encoding/json\<close> decodes an object into a Go map, so the keys of an object are distinct; this is
  all the row checks rely on.
\<close>

fun json_wf :: "json \<Rightarrow> bool" where
  "json_wf (JObject m) \<longleftrightarrow> wf_map m \<and> list_all (\<lambda>(k, j). json_wf j) m"
| "json_wf (JArray l) \<longleftrightarrow> list_all json_wf l"
| "json_wf _ \<longleftrightarrow> True"

lemma uniform_keys:
  assumes "wf_map a" "wf_map b" "uniform_with a b"
  shows "set (keys_of b) = set (keys_of a)"
proof -
  have sub: "set (keys_of a) \<subseteq> set (keys_of b)"
    using assms(3) by (auto simp: uniform_with_def list_all_iff aget_None_iff)
  have "card (set (keys_of a)) = length a" "card (set (keys_of b)) = length b"
    using assms(1,2) distinct_card by (fastforce simp: wf_map_def)+
  then show ?thesis using sub assms(3) card_subset_eq [of "set (keys_of b)" "set (keys_of a)"]
    by (simp add: uniform_with_def)
qed

lemma decodeJSONObjects_wf:
  assumes "decodeJSONObjects jd body = Inr objs" and "\<And>j. jd body = Some j \<Longrightarrow> json_wf j"
  shows "list_all wf_map objs"
proof (cases "jd body")
  case (Some j)
  have wf: "json_wf j" using assms(2) Some by blast
  show ?thesis
  proof (cases j)
    case (JArray l)
    then have all: "mapr (\<lambda>e. case object_of e of Some m \<Rightarrow> Inr m
        | None \<Rightarrow> Inl (ErrInvalidBody ''All object keys must match'')) l = Inr objs"
      using assms(1) Some by (simp add: decodeJSONObjects_def)
    have "wf_map m" if m: "m \<in> set objs" for m
    proof -
      obtain e where e: "e \<in> set l" "(case object_of e of Some m \<Rightarrow> Inr m
          | None \<Rightarrow> Inl (ErrInvalidBody ''All object keys must match'')) = Inr m"
        using mapr_InrD [OF all m] by blast
      then have "e = JObject m" by (auto simp: object_of_def split: json.splits)
      then show ?thesis using wf e(1) JArray by (auto simp: list_all_iff)
    qed
    then show ?thesis by (simp add: list_all_iff)
  qed (use assms(1) Some wf in \<open>auto simp: decodeJSONObjects_def\<close>)
qed (use assms(1) in \<open>simp add: decodeJSONObjects_def\<close>)

lemma keys_json_row [simp]: "keys_of (json_row obj) = keys_of obj"
  by (simp add: json_row_def comp_def split_beta)

lemma json_rows_uniform:
  assumes "write_payload jd cr kind vals ct body w = Inr w'" and "kind = Insert \<or> kind = Upsert"
    and "bodyFormat ct = FmtJSON" and "vals_get vals ''columns'' = []"
    and "\<And>j. jd body = Some j \<Longrightarrow> json_wf j" and "row \<in> set (w_rows w')"
  shows "set (keys_of row) = set (w_columns w') \<and> distinct (w_columns w') \<and> sorted (w_columns w')"
proof -
  obtain objs where objs: "decodeJSONObjects jd body = Inr objs" and uni: "checkUniformKeys objs = None"
    and w': "w' = w\<lparr>w_rows := fst (buildInsert objs [] None), w_columns := snd (buildInsert objs [] None)\<rparr>"
    using assms(1-4)
    by (auto simp: write_payload_def Let_def bindr_Inr_conv decodeBodyObjects_def split_beta split: option.split_asm)
  obtain o1 rest where cons: "objs = o1 # rest"
    using assms(6) by (cases objs) (auto simp: w' buildInsert_def)
  have wf: "list_all wf_map objs" using decodeJSONObjects_wf [OF objs assms(5)] .
  have all: "list_all (uniform_with o1) rest"
    using uni cons by (auto simp: checkUniformKeys_def split: if_split_asm)
  obtain ob where ob: "ob \<in> set objs" "row = json_row ob" using assms(6) by (auto simp: w' buildInsert_def)
  have "set (keys_of ob) = set (keys_of o1)"
  proof (cases "ob = o1")
    case False
    then have "uniform_with o1 ob" using all ob cons by (auto simp: list_all_iff)
    then show ?thesis using uniform_keys [of o1 ob] wf ob cons by (auto simp: list_all_iff)
  qed simp
  moreover have "distinct (keys_of o1)" using wf cons by (simp add: wf_map_def)
  ultimately show ?thesis by (simp add: ob w' buildInsert_def cons)
qed

subsection \<open>Arguments of a call\<close>

lemma aget_partition_args:
  "wf_map raw \<Longrightarrow> aget (partition_args isParam isVariadic raw args) k =
     (case aget raw k of
        None \<Rightarrow> aget args k
      | Some vs \<Rightarrow> if \<not> isParam k then None else if isVariadic k then Some (list_value vs) else aget args k)"
proof (induction raw arbitrary: args)
  case (Cons p raw)
  obtain k' vs where p: "p = (k', vs)" by fastforce
  have wf: "wf_map raw" and new: "aget raw k' = None"
    using Cons.prems by (simp_all add: p wf_map_def aget_None_iff)
  show ?case
    using Cons.IH [OF wf] new
    by (cases "k' = k") (auto simp: partition_args_def p aget_aput aget_adel split: option.split)
qed (simp add: partition_args_def)

lemma aget_get_args: "aget (get_args raw) k = map_option (\<lambda>vs. text_value (last vs)) (aget raw k)"
  by (induction raw) (auto simp: get_args_def)

lemma ParseCall_get:
  assumes "ParseCall tz_ok jd cr fn raw hdrs True ct body rp = Inr c"
  obtains vals pq where "parse_query raw = Some vals"
    "cl_raw_get c = Some (filter (\<lambda>kv. fst kv \<notin> set callReserved) vals)"
    "cl_args c = get_args (filter (\<lambda>kv. fst kv \<notin> set callReserved) vals)"
  using assms
  by (auto simp: ParseCall_def Let_def bindr_Inr_conv call_from_query_def new_call_def split: option.split_asm)

lemma wf_map_filter: "wf_map m \<Longrightarrow> wf_map (filter P m)"
  by (simp add: wf_map_def distinct_map_filter)

lemma aget_filter_key: "aget (filter (\<lambda>kv. P (fst kv)) m) k = (if P k then aget m k else None)"
  by (induction m) auto


subsection \<open>Properties\<close>

text \<open>
  C28. What a parsed read is made of, at its own level and at every level of embedding: the embed
  references of the select list number the embeds from 0 upwards, each once and in order; every
  cast target is an identifier of the cast grammar, so it can be written into SQL; and the limit
  and the offset are between 0 and the largest int64.
\<close>

theorem parsed_read_wellformed:
  assumes "ParseRead tz_ok rel raw hdrs = Inr q"
  shows "query_all refs_ok q \<and> query_all casts_ok q \<and> query_all window_ok q"
proof -
  obtain vals where "parseQueryString (Query (with_prefer (ParsePrefer tz_ok hdrs) (new_base Read rel)) []) vals = Inr q"
    using ParseRead_InrE [OF assms] .
  moreover have "q_select (with_prefer (ParsePrefer tz_ok hdrs) (new_base Read rel)) = []"
    by (simp add: with_prefer_def new_base_def)
  ultimately show ?thesis
    by (auto intro: refs.parse_query_string_invariant casts.parse_query_string_invariant windows.parse_query_string_invariant)
qed

theorem parsed_read_wellformed_witness:
  "\<exists>q. ParseRead (\<lambda>z. True) ''films'' ''select=id::text,actors(name)&actors.limit=5&limit=10'' [] = Inr q \<and>
     query_all window_ok q \<and> length (embeds q) = 1"
proof -
  have "(case ParseRead (\<lambda>z. True) ''films'' ''select=id::text,actors(name)&actors.limit=5&limit=10'' [] of
      Inr q \<Rightarrow> length (embeds q) = 1 | Inl e \<Rightarrow> False)" by code_simp
  then obtain q where "ParseRead (\<lambda>z. True) ''films'' ''select=id::text,actors(name)&actors.limit=5&limit=10'' [] = Inr q"
    "length (embeds q) = 1"
    by (cases "ParseRead (\<lambda>z. True) ''films'' ''select=id::text,actors(name)&actors.limit=5&limit=10'' []") auto
  with parsed_read_wellformed [OF this(1)] show ?thesis by blast
qed

text \<open>
  C29. Every request the parsers refuse is refused with a client error of the PGRST1xx family: a
  grammar error is 400 PGRST100, an invalid window 416 PGRST103, an invalid preference 400
  PGRST122 and an invalid body 400 PGRST102, for reads, writes and calls alike.
\<close>

theorem request_errors:
  "(ParseRead tz_ok rel raw hdrs = Inl e \<longrightarrow> is_request_error e) \<and>
   (ParseWrite tz_ok jd cr kind rel raw hdrs ct body = Inl e \<longrightarrow> is_request_error e) \<and>
   (ParseCall tz_ok jd cr fn raw hdrs isGet ct body rp = Inl e \<longrightarrow> is_request_error e)"
  by (simp add: ParseRead_error ParseWrite_error ParseCall_error)

theorem request_errors_witness:
  "\<exists>e. ParseRead (\<lambda>z. True) ''films'' ''limit=-1'' [] = Inl e \<and> is_request_error e"
proof -
  have "isl (ParseRead (\<lambda>z. True) ''films'' ''limit=-1'' [])" by code_simp
  then obtain e where e: "ParseRead (\<lambda>z. True) ''films'' ''limit=-1'' [] = Inl e" by (auto simp: isl_def)
  with request_errors [of "\<lambda>z. True" "''films''" "''limit=-1''" "[]" e] show ?thesis by blast
qed

text \<open>
  The promotion to an upsert. A parsed write carries a payload specification; it is an upsert
  exactly when the request is a PUT or a POST with a resolution preference, and exactly then it
  carries a conflict clause, which merges unless the client asked to ignore duplicates. The
  relation and the PUT flag are those of the request.
\<close>

theorem parsed_write_kind:
  assumes "ParseWrite tz_ok jd cr kind rel raw hdrs ct body = Inr q"
  shows "\<exists>w. q_write (base q) = Some w \<and>
    (q_kind (base q) = Upsert \<longleftrightarrow> kind = Upsert \<or> kind = Insert \<and> pf_resolution (ParsePrefer tz_ok hdrs) \<noteq> None) \<and>
    (q_kind (base q) \<noteq> Upsert \<longrightarrow> q_kind (base q) = kind) \<and>
    (w_conflict w \<noteq> None \<longleftrightarrow> q_kind (base q) = Upsert) \<and>
    (\<forall>c. w_conflict w = Some c \<longrightarrow>
       (cf_resolution c = ConflictIgnore \<longleftrightarrow> pf_resolution (ParsePrefer tz_ok hdrs) = Some ConflictIgnore)) \<and>
    q_relation (base q) = bare_ref rel \<and> (q_is_put (base q) \<longleftrightarrow> kind = Upsert)"
proof -
  obtain vals q0 w where q0: "parseQueryString (Query ((with_prefer (ParsePrefer tz_ok hdrs) (new_base kind rel))\<lparr>q_is_put := (kind = Upsert)\<rparr>) []) vals = Inr q0"
    and w: "write_payload jd cr (if write_conflict kind (ParsePrefer tz_ok hdrs) (vals_get vals ''on_conflict'') = None then kind else Upsert)
       vals ct body ((write_from_prefer (ParsePrefer tz_ok hdrs))
         \<lparr>w_conflict := write_conflict kind (ParsePrefer tz_ok hdrs) (vals_get vals ''on_conflict'')\<rparr>) = Inr w"
    and q: "q = upd_base (\<lambda>b. b\<lparr>q_kind := (if write_conflict kind (ParsePrefer tz_ok hdrs) (vals_get vals ''on_conflict'') = None then kind else Upsert),
        q_write := Some w\<rparr>) q0"
    using ParseWrite_InrE [OF assms] .
  have "q_relation (base q) = bare_ref rel" "q_is_put (base q) = (kind = Upsert)"
    using parseQueryString_rest [OF q0] by (simp_all add: q with_prefer_def new_base_def)
  moreover have "w_conflict w = write_conflict kind (ParsePrefer tz_ok hdrs) (vals_get vals ''on_conflict'')"
    using write_payload_rest [OF w] by simp
  ultimately show ?thesis
    by (auto simp: q write_conflict_def split: option.split)
qed

theorem parsed_write_kind_witness:
  "\<exists>q. ParseWrite (\<lambda>z. True) (\<lambda>b. Some (JObject [(''id'', JNumber ''1'')])) (\<lambda>b. Inr []) Insert ''films'' [] [''resolution=ignore-duplicates'']
     ''application/json'' ''x'' = Inr q \<and> q_kind (base q) = Upsert"
proof -
  let ?q = "ParseWrite (\<lambda>z. True) (\<lambda>b. Some (JObject [(''id'', JNumber ''1'')])) (\<lambda>b. Inr []) Insert ''films'' [] [''resolution=ignore-duplicates'']
     ''application/json'' ''x''"
  have "\<not> isl ?q" by code_simp
  then obtain q where q: "?q = Inr q" by (cases ?q) auto
  moreover have "pf_resolution (ParsePrefer (\<lambda>z. True) [''resolution=ignore-duplicates'']) \<noteq> None" by code_simp
  ultimately show ?thesis using parsed_write_kind [OF q] by auto
qed

text \<open>
  The rows of a JSON insert or upsert without a \<open>columns\<close> parameter are uniform: every row has
  exactly the columns of the statement, which are distinct and in lexical order, so no value is
  dropped and none is missing.
\<close>

theorem json_insert_uniform:
  assumes "ParseWrite tz_ok jd cr kind rel raw hdrs ct body = Inr q"
    and "q_kind (base q) = Insert \<or> q_kind (base q) = Upsert"
    and "bodyFormat ct = FmtJSON" and "parse_query raw = Some vals" and "vals_get vals ''columns'' = []"
    and "\<And>j. jd body = Some j \<Longrightarrow> json_wf j"
    and "q_write (base q) = Some w" and "row \<in> set (w_rows w)"
  shows "set (keys_of row) = set (w_columns w) \<and> distinct (w_columns w) \<and> sorted (w_columns w)"
proof (rule ParseWrite_InrE [OF assms(1)])
  fix vals' q0 w'
  assume vals': "parse_query raw = Some vals'"
    and payload: "write_payload jd cr (if write_conflict kind (ParsePrefer tz_ok hdrs) (vals_get vals' ''on_conflict'') = None then kind else Upsert)
       vals' ct body ((write_from_prefer (ParsePrefer tz_ok hdrs))
         \<lparr>w_conflict := write_conflict kind (ParsePrefer tz_ok hdrs) (vals_get vals' ''on_conflict'')\<rparr>) = Inr w'"
    and q: "q = upd_base (\<lambda>b. b\<lparr>q_kind := (if write_conflict kind (ParsePrefer tz_ok hdrs) (vals_get vals' ''on_conflict'') = None then kind else Upsert),
        q_write := Some w'\<rparr>) q0"
  have eq: "vals' = vals" "w' = w" using vals' assms(4,7) q by auto
  have "set (keys_of row) = set (w_columns w') \<and> distinct (w_columns w') \<and> sorted (w_columns w')"
  proof (rule json_rows_uniform [OF payload _ assms(3)])
    show "(if write_conflict kind (ParsePrefer tz_ok hdrs) (vals_get vals' ''on_conflict'') = None then kind else Upsert) = Insert \<or>
        (if write_conflict kind (ParsePrefer tz_ok hdrs) (vals_get vals' ''on_conflict'') = None then kind else Upsert) = Upsert"
      using assms(2) by (simp add: q)
  qed (use assms(5,6,8) eq in simp_all)
  then show ?thesis by (simp add: eq)
qed

theorem json_insert_uniform_witness:
  "\<exists>w :: write_spec. set (keys_of (json_row [(''b'', JNull), (''a'', JNumber ''1'')])) = set (w_columns w) \<and> w_columns w = [''a'', ''b'']"
proof -
  let ?jd = "\<lambda>b :: string. Some (JArray [JObject [(''a'', JNumber ''2''), (''b'', JNull)], JObject [(''b'', JNull), (''a'', JNumber ''1'')]])"
  let ?q = "ParseWrite (\<lambda>z. True) ?jd (\<lambda>b. Inr []) Insert ''films'' [] [] [] ''x''"
  let ?good = "\<lambda>q. q_kind (base q) = Insert \<and> (case q_write (base q) of None \<Rightarrow> False | Some w \<Rightarrow>
       w_columns w = [''a'', ''b''] \<and> list_ex (\<lambda>r. r = json_row [(''b'', JNull), (''a'', JNumber ''1'')]) (w_rows w))"
  have "case ?q of Inl e \<Rightarrow> False | Inr q \<Rightarrow> ?good q" by code_simp
  then obtain q where q: "?q = Inr q" and good: "?good q" by (cases ?q) auto
  from good obtain w where w: "q_write (base q) = Some w" "w_columns w = [''a'', ''b'']"
    "json_row [(''b'', JNull), (''a'', JNumber ''1'')] \<in> set (w_rows w)" "q_kind (base q) = Insert"
    by (auto simp: list_ex_iff split: option.split_asm)
  have pre: "bodyFormat [] = FmtJSON" "parse_query [] = Some []" "vals_get [] ''columns'' = []" by code_simp+
  have "json_wf j" if "?jd ''x'' = Some j" for j using that by (auto simp: wf_map_def)
  then have "set (keys_of (json_row [(''b'', JNull), (''a'', JNumber ''1'')])) = set (w_columns w)"
    using json_insert_uniform [OF q _ pre _ w(1) w(3)] w(4) by blast
  then show ?thesis using w(2) by (intro exI [of _ w] conjI)
qed

text \<open>
  The arguments of a GET call. Once the function is resolved, the parameters of the query
  string that name one of its parameters are its arguments, each the last value of its key or, for
  a variadic parameter, all of them; every other key is removed from the arguments, and the
  reserved keys never were arguments.
\<close>

theorem get_call_arguments:
  assumes "ParseCall tz_ok jd cr fn raw hdrs True ct body rp = Inr c"
    and "PartitionGetArgs isParam isVariadic c = Inr c'" and "parse_query raw = Some vals"
  shows "aget (cl_args c') k =
    (if k \<in> set callReserved \<or> \<not> isParam k then None
     else map_option (\<lambda>vs. if isVariadic k then list_value vs else text_value (last vs)) (aget vals k))"
proof -
  let ?raw = "filter (\<lambda>kv. fst kv \<notin> set callReserved) vals"
  have c: "cl_raw_get c = Some ?raw" "cl_args c = get_args ?raw"
    using ParseCall_get [OF assms(1)] assms(3) by (metis option.inject)+
  have get: "aget ?raw k = (if k \<in> set callReserved then None else aget vals k)"
    using aget_filter_key [of "\<lambda>k. k \<notin> set callReserved" vals k] by simp
  have "wf_map ?raw" using parse_query_wf [OF assms(3)] by (rule wf_map_filter)
  moreover have "cl_args c' = partition_args isParam isVariadic ?raw (get_args ?raw)"
    using assms(2) c by (auto simp: PartitionGetArgs_def Let_def bindr_Inr_conv split: if_split_asm)
  ultimately show ?thesis
    by (cases "aget vals k") (simp_all add: aget_partition_args aget_get_args get)
qed

theorem get_call_arguments_witness:
  "\<exists>c c'. ParseCall (\<lambda>z. True) (\<lambda>b. None) (\<lambda>b. Inr []) ''add'' ''a=1&a=2&x=eq.3'' [] True [] [] [] = Inr c \<and>
     PartitionGetArgs (\<lambda>k. k = ''a'') (\<lambda>k. False) c = Inr c' \<and> aget (cl_args c') ''a'' = Some (text_value ''2'')"
proof -
  let ?c = "ParseCall (\<lambda>z. True) (\<lambda>b. None) (\<lambda>b. Inr []) ''add'' ''a=1&a=2&x=eq.3'' [] True [] [] []"
  have "\<not> isl ?c" "\<not> isl (bindr ?c (PartitionGetArgs (\<lambda>k. k = ''a'') (\<lambda>k. False)))" by code_simp+
  then obtain c c' where c: "?c = Inr c" "PartitionGetArgs (\<lambda>k. k = ''a'') (\<lambda>k. False) c = Inr c'"
    by (cases ?c; cases "PartitionGetArgs (\<lambda>k. k = ''a'') (\<lambda>k. False) (projr ?c)") auto
  have v: "parse_query ''a=1&a=2&x=eq.3'' = Some [(''a'', [''1'', ''2'']), (''x'', [''eq.3''])]" by code_simp
  have "aget (cl_args c') ''a'' = Some (text_value ''2'')"
    unfolding get_call_arguments [OF c v] by (simp add: callReserved_def)
  with c show ?thesis by blast
qed

end
