(* ===== verification/Plan_Call.thy ===== *)
theory Plan_Call
  imports Plan_Facts Rpc Parse_Request
begin

section \<open>Package plan: calls\<close>

text \<open>
  \<open>src/plan/plan.go\<close>: \<open>Call\<close> resolves a parsed call against the function registry. The model is an
  option, as \<open>Call\<close> takes a nil one. The arguments are visited in the order of the map, which
  decides which of several bad arguments is reported.
\<close>

record call_plan =
  pl_call :: ir_call
  pl_func :: rpc_function
  pl_read_only :: bool

definition named_functions :: "fn_registry \<Rightarrow> string \<Rightarrow> rpc_function list" where
  "named_functions reg name = filter (\<lambda>f. f_name f = name) (reg_List reg)"

definition paramNameSet :: "fn_registry \<Rightarrow> string \<Rightarrow> string list option" where
  "paramNameSet reg name =
     (case named_functions reg name of [] \<Rightarrow> None | fs \<Rightarrow> Some (concat (map (\<lambda>f. map p_name (f_params f)) fs)))"

definition variadicNameSet :: "fn_registry \<Rightarrow> string \<Rightarrow> string list" where
  "variadicNameSet reg name =
     concat (map (\<lambda>f. map p_name (filter p_variadic (f_params f))) (named_functions reg name))"

definition sortedArgNames :: "ir_value go_map \<Rightarrow> string list" where
  "sortedArgNames args = sort (keys_of args)"

definition nearness :: "string list \<Rightarrow> rpc_function \<Rightarrow> int" where
  "nearness args f = sum_list (map (\<lambda>p. if p_name p \<in> set args then 1 else -1) (f_params f))"

definition nearer :: "string list \<Rightarrow> rpc_function \<Rightarrow> rpc_function option \<times> int \<Rightarrow> rpc_function option \<times> int" where
  "nearer args f = (\<lambda>(best, bestScore). if nearness args f > bestScore then (Some f, nearness args f) else (best, bestScore))"

definition nearestSignature :: "fn_registry \<Rightarrow> string \<Rightarrow> string \<Rightarrow> string list \<Rightarrow> string" where
  "nearestSignature reg schemaName name args =
     (case fold (nearer args) (named_functions reg name) (None, -1) of
        (None, _) \<Rightarrow> []
      | (Some f, _) \<Rightarrow> ''Perhaps you meant to call the function '' @ Signature f schemaName)"

definition arg_error :: "rpc_function \<Rightarrow> string \<times> ir_value \<Rightarrow> api_error option" where
  "arg_error fn = (\<lambda>(name, v).
     if v_json v \<noteq> JNull then None
     else case fn_Param fn name of
       None \<Rightarrow> None
     | Some p \<Rightarrow>
         if p_type p = [] then None
         else if p_variadic p then first_some (plan_coerce (p_type p)) (v_list v)
         else plan_coerce (p_type p) (v_text v))"

definition coerceCallArgs :: "rpc_function \<Rightarrow> ir_call \<Rightarrow> api_error option" where
  "coerceCallArgs fn c = first_some (arg_error fn) (cl_args c)"

definition path_error :: "string list \<Rightarrow> string list \<Rightarrow> api_error option" where
  "path_error cols path = (case path of [] \<Rightarrow> None | c # _ \<Rightarrow> if c \<in> set cols then None else Some (ErrUndefinedColumn c))"

lemma first_some_cong [fundef_cong]: "xs = ys \<Longrightarrow> (\<And>x. x \<in> set ys \<Longrightarrow> f x = g x) \<Longrightarrow> first_some f xs = first_some g ys"
  by (induction ys arbitrary: xs) (auto split: option.split)

fun validateCallCond :: "string list \<Rightarrow> cond \<Rightarrow> api_error option" where
  "validateCallCond cols (CAnd ks) = first_some (validateCallCond cols) ks"
| "validateCallCond cols (COr ks) = first_some (validateCallCond cols) ks"
| "validateCallCond cols (CNot k) = validateCallCond cols k"
| "validateCallCond cols (CCompare c) = path_error cols (cmp_path c)"
| "validateCallCond cols (CEmbedPredicate i ex) = None"

definition call_select_error :: "string list \<Rightarrow> select_item \<Rightarrow> api_error option" where
  "call_select_error cols it =
     (case it of SColumn c \<Rightarrow> if isStarPath (c_path c) then None else path_error cols (c_path c) | _ \<Rightarrow> None)"

definition validateCallFilters :: "rpc_function \<Rightarrow> ir_call \<Rightarrow> api_error option" where
  "validateCallFilters fn c =
     (let cols = map rcol_name (ret_columns (f_returns fn)) in
      if ret_kind (f_returns fn) \<noteq> ReturnTable \<or> ret_columns (f_returns fn) = [] then None
      else case first_some (call_select_error cols) (cl_select c) of
        Some e \<Rightarrow> Some e
      | None \<Rightarrow>
          (case (case cl_where c of None \<Rightarrow> None | Some w \<Rightarrow> validateCallCond cols w) of
             Some e \<Rightarrow> Some e
           | None \<Rightarrow> first_some (\<lambda>t. path_error cols (o_path t)) (cl_order c)))"

definition returnRelation :: "model option \<Rightarrow> rpc_function \<Rightarrow> string list \<Rightarrow> relation option" where
  "returnRelation m fn path =
     (case m of
        None \<Rightarrow> None
      | Some md \<Rightarrow>
          if ret_kind (f_returns fn) \<in> {ReturnSetOf, ReturnScalar} then
            (if ret_type (f_returns fn) = [] then None else model_lookup md (ret_type (f_returns fn)) path)
          else None)"

text \<open>The synthetic read over the rows of the result.\<close>

definition result_query :: "relation \<Rightarrow> ir_call \<Rightarrow> query" where
  "result_query rel c =
     Query ((new_base Read [])\<lparr>q_relation := \<lparr>ref_schema = r_schema rel, ref_name = r_name rel\<rparr>, q_select := cl_select c,
       q_where := cl_where c, q_order := cl_order c\<rparr>) (cl_embeds c)"

definition resolveCallEmbeds :: "model option \<Rightarrow> rpc_function \<Rightarrow> ir_call \<Rightarrow> string list \<Rightarrow> api_error + ir_call" where
  "resolveCallEmbeds m fn c path =
     (case (m, returnRelation m fn path) of
        (Some md, Some rel) \<Rightarrow>
          let q = reclassifyEmbedFilters (result_query rel c) in
          bindr (resolveEmbeds md path False rel (embeds q)) (\<lambda>es.
          opt_err (validateRelatedOrder rel (Query (base q) es)) (\<lambda>_.
            Inr (c\<lparr>cl_where := q_where (base q), cl_embeds := es\<rparr>)))
      | _ \<Rightarrow> (let em = meta (hd (cl_embeds c)) in
              Inl (ErrNoRelationship (f_name fn) (ref_name (e_target em)) (searchSchema path) (e_hint em))))"

definition partition_call :: "fn_registry \<Rightarrow> bool \<Rightarrow> ir_call \<Rightarrow> api_error + ir_call" where
  "partition_call reg isGet c =
     (if \<not> isGet then Inr c
      else case paramNameSet reg (ref_name (cl_function c)) of
        None \<Rightarrow> Inr c
      | Some params \<Rightarrow>
          PartitionGetArgs (\<lambda>k. k \<in> set params) (\<lambda>k. k \<in> set (variadicNameSet reg (ref_name (cl_function c)))) c)"

definition PlanCall :: "fn_registry \<Rightarrow> model option \<Rightarrow> ir_call \<Rightarrow> bool \<Rightarrow> string list \<Rightarrow> api_error + call_plan" where
  "PlanCall reg m c isGet path =
     bindr (partition_call reg isGet c) (\<lambda>c1.
       let name = ref_name (cl_function c1); args = keys_of (cl_args c1);
           activeSchema = (case path of s # _ \<Rightarrow> s | [] \<Rightarrow> []);
           none = Inl (ErrNoFunction activeSchema name (sortedArgNames (cl_args c1)) (nearestSignature reg activeSchema name args)) in
       case reg_Resolve reg name args of
         NoMatch \<Rightarrow> none
       | Ambiguous sigs \<Rightarrow> if sigs \<noteq> [] then Inl (ErrAmbiguousFunction sigs) else none
       | Resolved fn \<Rightarrow>
           if isGet \<and> \<not> vol_ReadOnly (f_volatility fn) then Inl (ErrReadOnlyTransaction (''function '' @ name))
           else opt_err (coerceCallArgs fn c1) (\<lambda>_.
                opt_err (validateCallFilters fn c1) (\<lambda>_.
                bindr (if cl_embeds c1 \<noteq> [] then resolveCallEmbeds m fn c1 path else Inr c1) (\<lambda>c2.
                  Inr \<lparr>pl_call = c2\<lparr>cl_read_only := vol_ReadOnly (f_volatility fn)\<rparr>, pl_func = fn,
                       pl_read_only = vol_ReadOnly (f_volatility fn)\<rparr>))))"


subsection \<open>What a planned call has been checked for\<close>

lemma PartitionGetArgs_function: "PartitionGetArgs ip iv c = Inr c1 \<Longrightarrow> cl_function c1 = cl_function c"
  by (auto simp: PartitionGetArgs_def Let_def bindr_Inr_conv split: option.split_asm if_split_asm)

lemma partition_call_function: "partition_call reg isGet c = Inr c1 \<Longrightarrow> cl_function c1 = cl_function c"
  by (auto simp: partition_call_def PartitionGetArgs_function split: if_split_asm option.split_asm)

lemma resolveCallEmbeds_keeps:
  "resolveCallEmbeds m fn c path = Inr c' \<Longrightarrow>
   cl_function c' = cl_function c \<and> cl_args c' = cl_args c \<and> cl_select c' = cl_select c \<and> cl_order c' = cl_order c"
  by (auto simp: resolveCallEmbeds_def Let_def bindr_Inr_conv opt_err_conv split: option.split_asm)

lemma PlanCall_InrE:
  assumes "PlanCall reg m c isGet path = Inr p"
  obtains c1 fn c2 where "partition_call reg isGet c = Inr c1" "reg_Resolve reg (ref_name (cl_function c)) (keys_of (cl_args c1)) = Resolved fn"
    "isGet \<longrightarrow> vol_ReadOnly (f_volatility fn)" "coerceCallArgs fn c1 = None" "validateCallFilters fn c1 = None"
    "if cl_embeds c1 = [] then c2 = c1 else resolveCallEmbeds m fn c1 path = Inr c2"
    "p = \<lparr>pl_call = c2\<lparr>cl_read_only := vol_ReadOnly (f_volatility fn)\<rparr>, pl_func = fn, pl_read_only = vol_ReadOnly (f_volatility fn)\<rparr>"
proof -
  obtain c1 where c1: "partition_call reg isGet c = Inr c1" using assms by (auto simp: PlanCall_def bindr_Inr_conv)
  obtain fn where fn: "reg_Resolve reg (ref_name (cl_function c1)) (keys_of (cl_args c1)) = Resolved fn"
    using assms c1 by (auto simp: PlanCall_def Let_def split: resolution.split_asm if_split_asm)
  have get: "isGet \<longrightarrow> vol_ReadOnly (f_volatility fn)" using assms c1 fn by (auto simp: PlanCall_def Let_def split: if_split_asm)
  then obtain c2 where "coerceCallArgs fn c1 = None" "validateCallFilters fn c1 = None"
    "(if cl_embeds c1 \<noteq> [] then resolveCallEmbeds m fn c1 path else Inr c1) = Inr c2"
    "p = \<lparr>pl_call = c2\<lparr>cl_read_only := vol_ReadOnly (f_volatility fn)\<rparr>, pl_func = fn, pl_read_only = vol_ReadOnly (f_volatility fn)\<rparr>"
    using assms c1 fn by (auto simp: PlanCall_def Let_def opt_err_conv bindr_Inr_conv simp del: if_image_distrib split: if_split_asm)
  moreover note c1 fn get
  ultimately show ?thesis by (intro that [of c1 fn c2]) (auto simp: partition_call_function)
qed

definition arg_ok :: "rpc_function \<Rightarrow> string \<Rightarrow> ir_value \<Rightarrow> bool" where
  "arg_ok fn name v \<longleftrightarrow> (\<exists>p. fn_Param fn name = Some p \<and>
     (v_json v \<noteq> JNull \<or> p_type p = [] \<or>
      (if p_variadic p then list_all (\<lambda>t. \<not> isl (ParseScalar (p_type p) t)) (v_list v)
       else \<not> isl (ParseScalar (p_type p) (v_text v)))))"

lemma coerceCallArgs_None:
  "coerceCallArgs fn c = None \<Longrightarrow> (a, v) \<in> set (cl_args c) \<Longrightarrow> fn_Param fn a \<noteq> None \<Longrightarrow> arg_ok fn a v"
  by (fastforce simp: coerceCallArgs_def first_some_None arg_error_def arg_ok_def plan_coerce_None list_all_iff split: if_split_asm option.split_asm)

fun cond_columns :: "cond \<Rightarrow> string list" where
  "cond_columns (CAnd ks) = concat (map cond_columns ks)"
| "cond_columns (COr ks) = concat (map cond_columns ks)"
| "cond_columns (CNot k) = cond_columns k"
| "cond_columns (CCompare c) = take 1 (cmp_path c)"
| "cond_columns (CEmbedPredicate i ex) = []"

lemma path_error_None: "path_error cols path = None \<longleftrightarrow> set (take 1 path) \<subseteq> set cols"
  by (cases path) (auto simp: path_error_def)

lemma validateCallCond_None: "validateCallCond cols c = None \<longleftrightarrow> set (cond_columns c) \<subseteq> set cols"
  by (induction cols c rule: validateCallCond.induct) (auto simp: first_some_None path_error_None)

definition select_columns :: "select_item list \<Rightarrow> string list" where
  "select_columns its = concat (map (\<lambda>it. case it of SColumn c \<Rightarrow> if isStarPath (c_path c) then [] else take 1 (c_path c) | _ \<Rightarrow> []) its)"

definition call_columns :: "ir_call \<Rightarrow> string list" where
  "call_columns c = select_columns (cl_select c) @ (case cl_where c of None \<Rightarrow> [] | Some w \<Rightarrow> cond_columns w) @
     concat (map (\<lambda>t. take 1 (o_path t)) (cl_order c))"

lemma call_select_None: "first_some (call_select_error cols) its = None \<longleftrightarrow> set (select_columns its) \<subseteq> set cols"
  by (fastforce simp: first_some_None call_select_error_def select_columns_def path_error_None split: select_item.splits if_split_asm)

lemma validateCallFilters_None:
  assumes "validateCallFilters fn c = None" "ret_kind (f_returns fn) = ReturnTable" "ret_columns (f_returns fn) \<noteq> []"
  shows "set (call_columns c) \<subseteq> rcol_name ` set (ret_columns (f_returns fn))"
proof -
  let ?cols = "map rcol_name (ret_columns (f_returns fn))"
  have s: "first_some (call_select_error ?cols) (cl_select c) = None"
    and w: "(case cl_where c of None \<Rightarrow> None | Some w \<Rightarrow> validateCallCond ?cols w) = None"
    and t: "first_some (\<lambda>t. path_error ?cols (o_path t)) (cl_order c) = None"
    using assms by (auto simp: validateCallFilters_def Let_def split: option.split_asm)
  have "set (select_columns (cl_select c)) \<subseteq> set ?cols" using s by (simp only: call_select_None)
  moreover have "set (case cl_where c of None \<Rightarrow> [] | Some w \<Rightarrow> cond_columns w) \<subseteq> set ?cols"
    using w by (cases "cl_where c") (simp_all add: validateCallCond_None)
  moreover have "set (concat (map (\<lambda>t. take 1 (o_path t)) (cl_order c))) \<subseteq> set ?cols"
    using t unfolding first_some_None path_error_None by auto
  ultimately show ?thesis by (auto simp: call_columns_def)
qed

context function_registry
begin

lemma planned_function:
  assumes "PlanCall reg m c isGet path = Inr p"
  shows "pl_func p \<in> set (reg_List reg)" "f_name (pl_func p) = ref_name (cl_function c)" "satisfiable (pl_func p) (keys_of (cl_args (pl_call p)))"
proof -
  obtain c1 fn c2 where 1: "partition_call reg isGet c = Inr c1" "reg_Resolve reg (ref_name (cl_function c)) (keys_of (cl_args c1)) = Resolved fn"
    "if cl_embeds c1 = [] then c2 = c1 else resolveCallEmbeds m fn c1 path = Inr c2" "pl_func p = fn" "cl_args (pl_call p) = cl_args c2"
    by (rule PlanCall_InrE [OF assms]) simp
  then have "cl_args c2 = cl_args c1" by (auto dest: resolveCallEmbeds_keeps split: if_split_asm)
  then show "pl_func p \<in> set (reg_List reg)" "f_name (pl_func p) = ref_name (cl_function c)" "satisfiable (pl_func p) (keys_of (cl_args (pl_call p)))"
    using resolved [OF 1(2)] 1 by simp_all
qed

end


lemma table_has_no_relation: "ret_kind (f_returns fn) = ReturnTable \<Longrightarrow> resolveCallEmbeds m fn c path \<noteq> Inr c'"
  by (auto simp: resolveCallEmbeds_def returnRelation_def Let_def split: option.split_asm)

lemma planned_call_checked:
  assumes "PlanCall reg m c isGet path = Inr p"
  shows "isGet \<longrightarrow> pl_read_only p" "pl_read_only p = vol_ReadOnly (f_volatility (pl_func p))" "cl_read_only (pl_call p) = pl_read_only p"
    "(a, v) \<in> set (cl_args (pl_call p)) \<Longrightarrow> fn_Param (pl_func p) a \<noteq> None \<Longrightarrow> arg_ok (pl_func p) a v"
    "ret_kind (f_returns (pl_func p)) = ReturnTable \<Longrightarrow> ret_columns (f_returns (pl_func p)) \<noteq> [] \<Longrightarrow>
      cl_embeds (pl_call p) = [] \<and> set (call_columns (pl_call p)) \<subseteq> rcol_name ` set (ret_columns (f_returns (pl_func p)))"
proof -
  obtain c1 fn c2 where 1: "isGet \<longrightarrow> vol_ReadOnly (f_volatility fn)" "coerceCallArgs fn c1 = None" "validateCallFilters fn c1 = None"
    "if cl_embeds c1 = [] then c2 = c1 else resolveCallEmbeds m fn c1 path = Inr c2"
    and p: "p = \<lparr>pl_call = c2\<lparr>cl_read_only := vol_ReadOnly (f_volatility fn)\<rparr>, pl_func = fn, pl_read_only = vol_ReadOnly (f_volatility fn)\<rparr>"
    by (rule PlanCall_InrE [OF assms])
  have args: "cl_args c2 = cl_args c1" using 1(4) by (auto dest: resolveCallEmbeds_keeps split: if_split_asm)
  show "isGet \<longrightarrow> pl_read_only p" "pl_read_only p = vol_ReadOnly (f_volatility (pl_func p))" "cl_read_only (pl_call p) = pl_read_only p"
    using 1(1) by (simp_all add: p)
  show "arg_ok (pl_func p) a v" if "(a, v) \<in> set (cl_args (pl_call p))" "fn_Param (pl_func p) a \<noteq> None"
    using that coerceCallArgs_None [OF 1(2)] by (simp add: p args)
  assume table: "ret_kind (f_returns (pl_func p)) = ReturnTable" "ret_columns (f_returns (pl_func p)) \<noteq> []"
  then have "c2 = c1" "cl_embeds c1 = []" using 1(4) table_has_no_relation [of fn] by (auto simp: p split: if_split_asm)
  then show "cl_embeds (pl_call p) = [] \<and> set (call_columns (pl_call p)) \<subseteq> rcol_name ` set (ret_columns (f_returns (pl_func p)))"
    using validateCallFilters_None [OF 1(3)] table by (simp add: p call_columns_def)
qed

text \<open>
  C19. A planned call runs a function of the registry with the requested name, whose parameters include
  every argument and whose required parameters are all among them; every argument that arrived as
  text has the type of its parameter; a GET runs read-only; and over a declared table result every
  column of the selection, the filter and the order is a declared one.
\<close>

theorem planned_call_bound:
  assumes "PlanCall (static (NewStaticRegistry fns)) m c isGet path = Inr p"
  shows "pl_func p \<in> set fns \<and> f_name (pl_func p) = ref_name (cl_function c) \<and>
    set (Required (pl_func p)) \<subseteq> fst ` set (cl_args (pl_call p)) \<and>
    (\<forall>(a, v) \<in> set (cl_args (pl_call p)). arg_ok (pl_func p) a v) \<and>
    (isGet \<longrightarrow> pl_read_only p) \<and> pl_read_only p = vol_ReadOnly (f_volatility (pl_func p)) \<and>
    (ret_kind (f_returns (pl_func p)) = ReturnTable \<and> ret_columns (f_returns (pl_func p)) \<noteq> [] \<longrightarrow>
       set (call_columns (pl_call p)) \<subseteq> rcol_name ` set (ret_columns (f_returns (pl_func p))))"
proof -
  note fn = static_fns.planned_function [OF assms]
  note checked = planned_call_checked [OF assms]
  have "arg_ok (pl_func p) a v" if "(a, v) \<in> set (cl_args (pl_call p))" for a v
    using checked(4) [OF that] fn(3) that by (force simp: satisfiable_def list_all_iff)
  then show ?thesis using fn checked(1,2,5) by (auto simp: static_def List_new_set satisfiable_def list_all_iff)
qed

definition demo_call :: "ir_value go_map \<Rightarrow> ir_call" where
  "demo_call args = (new_call ''add'' empty_prefer)\<lparr>cl_args := args\<rparr>"

theorem planned_call_bound_witness:
  "\<exists>p. PlanCall (static (NewStaticRegistry [demo_function [demo_param ''a'' False]])) None (demo_call [(''a'', text_value ''7'')]) True [''public''] = Inr p \<and>
     f_name (pl_func p) = ''add'' \<and> pl_read_only p"
proof -
  let ?p = "PlanCall (static (NewStaticRegistry [demo_function [demo_param ''a'' False]])) None (demo_call [(''a'', text_value ''7'')]) True [''public'']"
  have "\<not> isl ?p" by code_simp
  then obtain p where p: "?p = Inr p" by (cases ?p) auto
  show ?thesis using planned_call_bound [OF p] p by (auto simp: demo_call_def new_call_def bare_ref_def)
qed

subsection \<open>Refusals\<close>

lemma path_error_error: "path_error cols path = Some e \<Longrightarrow> is_plan_error e"
  by (auto simp: path_error_def split: list.split_asm if_split_asm)

lemma arg_error_error: "arg_error fn a = Some e \<Longrightarrow> is_plan_error e"
  by (cases a) (auto simp: arg_error_def plan_coerce_error dest!: first_some_SomeD split: if_split_asm option.split_asm)

lemma validateCallCond_error: "validateCallCond cols c = Some e \<Longrightarrow> is_plan_error e"
  by (induction cols c rule: validateCallCond.induct) (auto dest!: first_some_SomeD path_error_error)

lemma call_select_error_error: "call_select_error cols it = Some e \<Longrightarrow> is_plan_error e"
  by (auto simp: call_select_error_def path_error_error split: select_item.split_asm if_split_asm)

lemma validateCallFilters_error: "validateCallFilters fn c = Some e \<Longrightarrow> is_plan_error e"
  by (auto simp: validateCallFilters_def Let_def path_error_error validateCallCond_error call_select_error_error
      dest!: first_some_SomeD split: if_split_asm option.split_asm)

lemma resolveCallEmbeds_error: "resolveCallEmbeds m fn c path = Inl e \<Longrightarrow> is_plan_error e"
  by (auto simp: resolveCallEmbeds_def Let_def bindr_Inl_conv opt_err_def resolveEmbeds_error validateRelatedOrder_error split: option.split_asm)

lemma partition_call_error: "partition_call reg isGet c = Inl e \<Longrightarrow> is_parse_error e"
  by (auto simp: partition_call_def PartitionGetArgs_def Let_def bindr_Inl_conv parseFilters_error split: if_split_asm option.split_asm)


text \<open>
  C20. A refused call: PGRST202 (404) exactly when no overload of the name takes the arguments, PGRST203
  (300) exactly when several take them equally well; otherwise, with one overload chosen, 25006 (405)
  exactly when a GET names a volatile function, and else one of the resolution errors. The one error
  before the choice is that of a filter that does not parse.
\<close>

theorem call_refusals:
  assumes "PlanCall (static (NewStaticRegistry fns)) m c isGet path = Inl e"
  shows "case partition_call (static (NewStaticRegistry fns)) isGet c of
      Inl e' \<Rightarrow> e = e' \<and> is_parse_error e
    | Inr c1 \<Rightarrow>
        (case best_overloads (filter (\<lambda>f. f_name f = ref_name (cl_function c)) fns) (keys_of (cl_args c1)) of
           [] \<Rightarrow> (code e, http_status e) = (''PGRST202'', 404)
         | [f] \<Rightarrow> if isGet \<and> f_volatility f = Volatile then (code e, http_status e) = (''25006'', 405) else is_plan_error e
         | _ \<Rightarrow> (code e, http_status e) = (''PGRST203'', 300))"
proof (cases "partition_call (static (NewStaticRegistry fns)) isGet c")
  case (Inl e')
  then show ?thesis using assms partition_call_error [OF Inl] by (simp add: PlanCall_def)
next
  case (Inr c1)
  let ?best = "best_overloads (filter (\<lambda>f. f_name f = ref_name (cl_function c)) fns) (keys_of (cl_args c1))"
  have res: "reg_Resolve (static (NewStaticRegistry fns)) (ref_name (cl_function c1)) (keys_of (cl_args c1)) = pick_overload ?best"
    using partition_call_function [OF Inr] by (simp add: static_def static_Resolve_pick overloads_new)
  note simps = PlanCall_def Inr Let_def res pick_overload_def ErrNoFunction_def ErrAmbiguousFunction_def ErrReadOnlyTransaction_def WithHint_def New_def
  consider (none) "?best = []" | (one) f where "?best = [f]" | (many) f g hs where "?best = f # g # hs" by (cases ?best rule: remdups_adj.cases) auto
  then show ?thesis
  proof cases
    case none
    then show ?thesis using assms Inr by (auto simp: simps split: if_split_asm)
  next
    case (one f)
    then show ?thesis using assms Inr coerceCallArgs_def [of f c1] validateCallFilters_error [of f c1] resolveCallEmbeds_error [of m f c1 path]
      by (auto simp: simps vol_ReadOnly_def opt_err_def bindr_Inl_conv arg_error_error dest!: first_some_SomeD split: if_split_asm option.split_asm)
  next
    case (many f g hs)
    have "sort (map (\<lambda>g. Signature g []) (f # g # hs)) \<noteq> []" by (metis length_sort length_map length_0_conv list.distinct(1))
    then show ?thesis using assms Inr many by (auto simp: simps)
  qed
qed

theorem call_refusals_witness:
  "\<exists>e. PlanCall (static (NewStaticRegistry [demo_function [demo_param ''a'' False]])) None (demo_call []) True [''public''] = Inl e \<and> code e = ''PGRST202''"
proof -
  let ?p = "PlanCall (static (NewStaticRegistry [demo_function [demo_param ''a'' False]])) None (demo_call []) True [''public'']"
  have "isl ?p" by code_simp
  then obtain e where e: "?p = Inl e" by (cases ?p) auto
  have c: "partition_call (static (NewStaticRegistry [demo_function [demo_param ''a'' False]])) True (demo_call []) = Inr (demo_call [])" by code_simp
  have b: "best_overloads (filter (\<lambda>f. f_name f = ref_name (cl_function (demo_call []))) [demo_function [demo_param ''a'' False]])
      (keys_of (cl_args (demo_call []))) = []" by code_simp
  show ?thesis using call_refusals [OF e] e unfolding c by (simp add: b [simplified])
qed

text \<open>
  A JSON null is read as a missing JSON value, so the check of textual arguments takes it for an
  empty text: a null argument for a parameter whose type has no empty text is refused as invalid
  input, and no call passes NULL for it.
\<close>

theorem null_argument_refused:
  assumes "reg_Resolve reg (ref_name (cl_function c)) (keys_of (cl_args c)) = Resolved fn" "(a, json_value JNull) \<in> set (cl_args c)"
    and "fn_Param fn a = Some p" "\<not> p_variadic p" "p_type p \<noteq> []" "isl (ParseScalar (p_type p) [])"
  shows "\<exists>e. PlanCall reg m c False path = Inl e \<and> (code e, http_status e) = (''22P02'', 400)"
proof -
  have "arg_error fn (a, json_value JNull) \<noteq> None" using assms(3-) by (auto simp: arg_error_def json_value_def plan_coerce_None)
  then have "coerceCallArgs fn c \<noteq> None" using assms(2) unfolding coerceCallArgs_def first_some_None by metis
  then obtain e where e: "coerceCallArgs fn c = Some e" by auto
  then obtain b where "arg_error fn b = Some e" by (auto simp: coerceCallArgs_def dest!: first_some_SomeD)
  then have "(code e, http_status e) = (''22P02'', 400)"
    by (cases b) (auto simp: arg_error_def plan_coerce_def ErrInvalidInput_def New_def dest!: first_some_SomeD split: if_split_asm option.split_asm sum.split_asm)
  then show ?thesis using assms(1) e by (auto simp: PlanCall_def partition_call_def Let_def opt_err_def)
qed

theorem null_argument_refused_witness:
  "\<exists>e. PlanCall (static (NewStaticRegistry [demo_function [demo_param ''a'' False]])) None (demo_call [(''a'', json_value JNull)]) False [''public''] = Inl e
     \<and> (code e, http_status e) = (''22P02'', 400)"
proof (rule null_argument_refused)
  show "reg_Resolve (static (NewStaticRegistry [demo_function [demo_param ''a'' False]])) (ref_name (cl_function (demo_call [(''a'', json_value JNull)])))
      (keys_of (cl_args (demo_call [(''a'', json_value JNull)]))) = Resolved (demo_function [demo_param ''a'' False])" by code_simp
  show "fn_Param (demo_function [demo_param ''a'' False]) ''a'' = Some (demo_param ''a'' False)" by code_simp
  show "isl (ParseScalar (p_type (demo_param ''a'' False)) [])" by code_simp
qed (simp_all add: demo_call_def demo_param_def)

text \<open>
  The hint of a call that matches no function: an overload that has more parameters without an
  argument than with one is never named.
\<close>

lemma nearest_none:
  "(\<And>f. f \<in> set (named_functions reg name) \<Longrightarrow> nearness args f < 0) \<Longrightarrow> nearestSignature reg sch name args = []"
proof -
  assume far: "\<And>f. f \<in> set (named_functions reg name) \<Longrightarrow> nearness args f < 0"
  have "fold (nearer args) fs (None, -1) = (None, -1)" if "set fs \<subseteq> set (named_functions reg name)" for fs
    using that far by (induction fs) (force simp: nearer_def)+
  from this [of "named_functions reg name"] show ?thesis by (simp add: nearestSignature_def)
qed

end
