(* ===== verification/Auth_Path.thy ===== *)
theory Auth_Path
  imports Go_Json Go_Numbers
begin

section \<open>Package auth: the path of the role claim\<close>

text \<open>
  \<open>src/auth/jspath.go\<close>. The scanner's \<open>src\<close> and \<open>pos\<close> are the position and the text that is left;
  every parse function returns the error text or what it read with the rest.
\<close>

datatype js_path_exp = JspKey string | JspIdx int | JspFilter string string

type_synonym 'a scan = "string + 'a \<times> nat \<times> string"

definition defaultRoleKey :: "js_path_exp list" where
  "defaultRoleKey = [JspKey ''role'']"

definition isKeyChar :: "char \<Rightarrow> bool" where
  "isKeyChar c \<longleftrightarrow> CHR ''a'' \<le> c \<and> c \<le> CHR ''z'' \<or> CHR ''A'' \<le> c \<and> c \<le> CHR ''Z'' \<or> is_digit c \<or>
     c = CHR ''_'' \<or> c = CHR ''$'' \<or> c = CHR ''@''"

definition starts :: "char \<Rightarrow> string \<Rightarrow> bool" where
  "starts c s \<longleftrightarrow> (case s of x # _ \<Rightarrow> x = c | [] \<Rightarrow> False)"

definition at_position :: "string \<Rightarrow> nat \<Rightarrow> string" where
  "at_position msg pos = msg @ '' at position '' @ show_nat pos"

definition parseQuoted :: "nat \<Rightarrow> string \<Rightarrow> string scan" where
  "parseQuoted pos s =
     (if \<not> starts dquote s then Inl (at_position (''expected '' @ [CHR 0x27, dquote, CHR 0x27]) pos)
      else let body = drop 1 s; val = takeWhile (\<lambda>c. c \<noteq> dquote) body in
        if length val = length body then Inl (at_position ''unterminated quoted value'' (pos + 1))
        else Inr (val, pos + length val + 2, drop (length val + 1) body))"

definition parseKey :: "nat \<Rightarrow> string \<Rightarrow> js_path_exp scan" where
  "parseKey pos s =
     (let t = drop 1 s; start = pos + 1 in
      if starts dquote t then map_sum id (apfst JspKey) (parseQuoted start t)
      else let key = takeWhile isKeyChar t in
        if key = [] then Inl (at_position (''expected a key after '' @ [CHR 0x27, CHR ''.'', CHR 0x27]) start)
        else Inr (JspKey key, start + length key, drop (length key) t))"

definition parseIdx :: "nat \<Rightarrow> string \<Rightarrow> js_path_exp scan" where
  "parseIdx pos s =
     (let t = drop 1 s; start = pos + 1; ds = takeWhile is_digit t; rest = drop (length ds) t in
      if ds = [] then Inl (at_position (''expected digits after '' @ [CHR 0x27, CHR ''['', CHR 0x27]) start)
      else case parse_int64 ds of
        None \<Rightarrow> Inl (''bad array index: strconv.Atoi: parsing '' @ [dquote] @ ds @ [dquote] @ '': value out of range'')
      | Some n \<Rightarrow>
          if \<not> starts CHR '']'' rest then Inl (at_position (''expected '' @ [CHR 0x27, CHR '']'', CHR 0x27]) (start + length ds))
          else Inr (JspIdx n, start + length ds + 1, drop 1 rest))"

definition filterOps :: "string list" where
  "filterOps = [''==^'', ''=='', ''!='', ''^=='', ''*=='']"

definition spaces :: "string \<Rightarrow> nat" where
  "spaces s = length (takeWhile (\<lambda>c. c = CHR '' '') s)"

definition parseFilter :: "nat \<Rightarrow> string \<Rightarrow> js_path_exp scan" where
  "parseFilter pos s =
     (let s1 = drop 3 s; p1 = pos + 3 in
      if \<not> starts CHR ''@'' s1 then Inl (at_position (''expected '' @ [CHR 0x27, CHR ''@'', CHR 0x27]) p1)
      else let s2 = drop (spaces (drop 1 s1)) (drop 1 s1); p2 = p1 + 1 + spaces (drop 1 s1) in
        case find (has_prefix s2) filterOps of
          None \<Rightarrow> Inl (at_position ''expected a filter operator'' p2)
        | Some opr \<Rightarrow>
            let s3 = drop (length opr) s2; s4 = drop (spaces s3) s3; p4 = p2 + length opr + spaces s3 in
            case parseQuoted p4 s4 of
              Inl e \<Rightarrow> Inl e
            | Inr (val, p5, s5) \<Rightarrow>
                if \<not> has_prefix s5 '')]'' then Inl (at_position (''expected '' @ [CHR 0x27] @ '')]'' @ [CHR 0x27]) p5)
                else Inr (JspFilter opr val, p5 + 2, drop 2 s5))"

definition parseExp :: "nat \<Rightarrow> string \<Rightarrow> js_path_exp scan" where
  "parseExp pos s =
     (if starts CHR ''.'' s then parseKey pos s
      else if has_prefix s ''[?('' then parseFilter pos s
      else if starts CHR ''['' s then parseIdx pos s
      else Inl (at_position (''expected '' @ [CHR 0x27, CHR ''.'', CHR 0x27] @ '', '' @ [CHR 0x27] @ ''[n]'' @ [CHR 0x27] @ '', or '' @
        [CHR 0x27] @ ''[?('' @ [CHR 0x27]) pos))"

definition is_filter :: "js_path_exp \<Rightarrow> bool" where
  "is_filter e \<longleftrightarrow> (case e of JspFilter _ _ \<Rightarrow> True | _ \<Rightarrow> False)"

lemma parseQuoted_shorter: "parseQuoted pos s = Inr (v, p, t) \<Longrightarrow> length t < length s"
  by (cases s) (auto simp: parseQuoted_def starts_def Let_def split: if_split_asm)

lemma map_sum_InrD: "map_sum id (apfst f) z = Inr (e, p, t) \<Longrightarrow> \<exists>v. z = Inr (v, p, t) \<and> e = f v"
  by (cases z) auto

lemma parseExp_shorter: "parseExp pos s = Inr (e, p, t) \<Longrightarrow> length t < length s"
proof -
  assume "parseExp pos s = Inr (e, p, t)"
  moreover have "length t < length s" if "parseKey pos s = Inr (e, p, t)" "starts CHR ''.'' s"
    using that
    by (cases s) (auto simp: parseKey_def starts_def Let_def less_SucI split: if_split_asm dest!: map_sum_InrD parseQuoted_shorter)
  moreover have "length t < length s" if "parseIdx pos s = Inr (e, p, t)" "starts CHR ''['' s"
    using that by (cases s) (auto simp: parseIdx_def starts_def Let_def split: if_split_asm option.split_asm)
  moreover have "length t < length s" if "parseFilter pos s = Inr (e, p, t)"
    using that by (auto simp: parseFilter_def Let_def split: if_split_asm option.split_asm sum.split_asm dest!: parseQuoted_shorter)
  ultimately show ?thesis by (auto simp: parseExp_def split: if_split_asm)
qed

function parse_path :: "nat \<Rightarrow> string \<Rightarrow> string + js_path_exp list" where
  "parse_path pos s =
     (if s = [] then Inr []
      else case parseExp pos s of
        Inl e \<Rightarrow> Inl e
      | Inr (e, pos', s') \<Rightarrow>
          if is_filter e \<and> s' \<noteq> [] then Inl ''a filter must be the last path element''
          else map_sum id ((#) e) (parse_path pos' s'))"
  by pat_completeness auto
termination
  by (relation "measure (\<lambda>(pos, s). length s)") (auto dest: parseExp_shorter)

declare parse_path.simps [simp del]

definition parseJSPath :: "string \<Rightarrow> string + js_path_exp list" where
  "parseJSPath s =
     (if trim_space s = [] then Inr defaultRoleKey
      else map_sum (\<lambda>e. ''failed to parse role-claim-key value ('' @ s @ ''): '' @ e) id
        (case parse_path 0 s of
           Inl e \<Rightarrow> Inl e
         | Inr path \<Rightarrow> if path = [] then Inl ''empty path'' else Inr path))"

definition matchFilter :: "string \<Rightarrow> string \<Rightarrow> string \<Rightarrow> bool" where
  "matchFilter opr pattern candidate =
     (if opr = ''=='' then candidate = pattern
      else if opr = ''!='' then candidate \<noteq> pattern
      else if opr = ''^=='' then has_prefix candidate pattern
      else if opr = ''==^'' then has_suffix candidate pattern
      else if opr = ''*=='' then index_str candidate pattern \<noteq> None
      else False)"

definition filter_hit :: "string \<Rightarrow> string \<Rightarrow> json \<Rightarrow> bool" where
  "filter_hit opr val el \<longleftrightarrow> (case el of JString s \<Rightarrow> matchFilter opr val s | _ \<Rightarrow> False)"

fun walkJSPath :: "json \<Rightarrow> js_path_exp list \<Rightarrow> json option" where
  "walkJSPath cur [] = Some cur"
| "walkJSPath cur (JspKey k # path) =
     (case cur of JObject m \<Rightarrow> (case aget m k of Some v \<Rightarrow> walkJSPath v path | None \<Rightarrow> None) | _ \<Rightarrow> None)"
| "walkJSPath cur (JspIdx i # path) =
     (case cur of JArray xs \<Rightarrow> if i \<ge> int (length xs) then None else walkJSPath (xs ! nat i) path | _ \<Rightarrow> None)"
| "walkJSPath cur (JspFilter opr val # path) =
     (case cur of JArray xs \<Rightarrow> find (filter_hit opr val) xs | _ \<Rightarrow> None)"

text \<open>A path as the configuration spells it; a key that is not a plain word is quoted.\<close>

definition print_exp :: "js_path_exp \<Rightarrow> string" where
  "print_exp e =
     (case e of
        JspKey k \<Rightarrow> CHR ''.'' # (if k \<noteq> [] \<and> list_all isKeyChar k then k else dquote # k @ [dquote])
      | JspIdx n \<Rightarrow> CHR ''['' # show_nat (nat n) @ '']''
      | JspFilter opr v \<Rightarrow> ''[?(@'' @ opr @ dquote # v @ dquote # '')]'')"

definition printable_exp :: "js_path_exp \<Rightarrow> bool" where
  "printable_exp e \<longleftrightarrow>
     (case e of
        JspKey k \<Rightarrow> dquote \<notin> set k
      | JspIdx n \<Rightarrow> 0 \<le> n \<and> n \<le> int64_max
      | JspFilter opr v \<Rightarrow> opr \<in> set filterOps \<and> dquote \<notin> set v)"

subsection \<open>Paths and their spelling\<close>

definition path_follows :: "string \<Rightarrow> bool" where
  "path_follows s \<longleftrightarrow> s = [] \<or> starts CHR ''.'' s \<or> starts CHR ''['' s"

lemma quoted_print: "dquote \<notin> set v \<Longrightarrow> parseQuoted pos (dquote # v @ dquote # rest) = Inr (v, pos + length v + 2, rest)"
proof -
  assume "dquote \<notin> set v"
  then have "takeWhile (\<lambda>c. c \<noteq> dquote) (v @ dquote # rest) = v" by (subst takeWhile_append2) auto
  then show ?thesis by (simp add: parseQuoted_def starts_def Let_def)
qed

lemma key_print:
  assumes "dquote \<notin> set k" and "path_follows rest"
  shows "\<exists>p. parseKey pos (print_exp (JspKey k) @ rest) = Inr (JspKey k, p, rest)"
proof (cases "k \<noteq> [] \<and> list_all isKeyChar k")
  case True
  then obtain c k' where k: "k = c # k'" by (cases k) auto
  have "takeWhile isKeyChar (k @ rest) = k"
    using True assms(2) by (cases rest) (auto simp: takeWhile_append2 list_all_iff takeWhile_eq_all_conv path_follows_def starts_def isKeyChar_def is_digit_def)
  moreover have "\<not> starts dquote (k @ rest)" using assms(1) by (auto simp: k starts_def)
  ultimately show ?thesis using True by (simp add: parseKey_def print_exp_def Let_def)
next
  case False
  then show ?thesis using quoted_print [OF assms(1), of "pos + 1" rest]
    by (auto simp: parseKey_def print_exp_def Let_def starts_def)
qed

lemma show_nat_digits: "list_all is_digit (show_nat n)"
  by (induction n rule: show_nat.induct) (subst show_nat.simps, auto simp: digit_char_digit)

lemma idx_print:
  assumes "0 \<le> n" "n \<le> int64_max"
  shows "\<exists>p. parseIdx pos (print_exp (JspIdx n) @ rest) = Inr (JspIdx n, p, rest)"
proof -
  have tw: "takeWhile is_digit (show_nat (nat n) @ CHR '']'' # rest) = show_nat (nat n)"
    using show_nat_digits [of "nat n"] by (simp add: takeWhile_append2 list_all_iff takeWhile_eq_all_conv is_digit_def)
  obtain c t where first: "show_nat (nat n) = c # t" "is_digit c" using show_nat_first by blast
  then have "c \<noteq> CHR ''+''" "c \<noteq> CHR ''-''" by (auto simp: is_digit_def)
  moreover have "parse_uint (show_nat (nat n)) = Some n" using digits_show_nat [of "nat n"] first(1) assms(1) by (simp add: parse_uint_def)
  ultimately have "parse_int64 (show_nat (nat n)) = Some n"
    using assms first(1) by (simp add: parse_int64_def in_int64_def int64_min_def)
  then show ?thesis using tw first by (simp add: parseIdx_def print_exp_def Let_def starts_def)
qed

lemma filter_print:
  assumes "opr \<in> set filterOps" and "dquote \<notin> set v"
  shows "\<exists>p. parseFilter pos (print_exp (JspFilter opr v) @ rest) = Inr (JspFilter opr v, p, rest)"
proof -
  have "spaces (opr @ t) = 0 \<and> spaces (dquote # t) = 0 \<and> find (has_prefix (opr @ dquote # t)) filterOps = Some opr" for t
    using assms(1) by (auto simp: filterOps_def has_prefix_def spaces_def)
  then show ?thesis using quoted_print [OF assms(2)]
    by (simp add: parseFilter_def print_exp_def Let_def starts_def has_prefix_def)
qed

lemma exp_print:
  assumes "printable_exp e" and "path_follows rest"
  shows "\<exists>p. parseExp pos (print_exp e @ rest) = Inr (e, p, rest)"
proof (cases e)
  case (JspKey k)
  then show ?thesis using assms key_print [of k rest pos] by (simp add: parseExp_def printable_exp_def print_exp_def starts_def)
next
  case (JspIdx n)
  moreover obtain c t where first: "show_nat (nat n) = c # t" "is_digit c" using show_nat_first by blast
  then have "c \<noteq> CHR ''?''" by (auto simp: is_digit_def)
  ultimately show ?thesis using assms idx_print [of n pos rest] first
    by (simp add: parseExp_def printable_exp_def print_exp_def starts_def has_prefix_def)
next
  case (JspFilter opr v)
  then show ?thesis using assms filter_print [of opr v pos rest]
    by (simp add: parseExp_def printable_exp_def print_exp_def starts_def has_prefix_def)
qed

definition printable_path :: "js_path_exp list \<Rightarrow> bool" where
  "printable_path path \<longleftrightarrow> path \<noteq> [] \<and> list_all printable_exp path \<and> \<not> list_ex is_filter (butlast path)"

lemma print_follows: "path_follows (concat (map print_exp path))"
  by (cases path) (auto simp: path_follows_def print_exp_def starts_def split: js_path_exp.split)

lemma jspath_print:
  "list_all printable_exp path \<Longrightarrow> \<not> list_ex is_filter (butlast path) \<Longrightarrow> parse_path pos (concat (map print_exp path)) = Inr path"
proof (induction path arbitrary: pos)
  case Nil
  show ?case by (subst parse_path.simps) simp
next
  case (Cons e path)
  let ?rest = "concat (map print_exp path)"
  obtain p where e: "parseExp pos (print_exp e @ ?rest) = Inr (e, p, ?rest)"
    using exp_print [OF _ print_follows, of e pos path] Cons.prems(1) by auto
  have "print_exp e \<noteq> []" by (simp add: print_exp_def split: js_path_exp.split)
  moreover have "\<not> (is_filter e \<and> ?rest \<noteq> [])" using Cons.prems(2) by (cases path) auto
  moreover have "\<not> list_ex is_filter (butlast path)" using Cons.prems(2) by (cases path) auto
  ultimately show ?case using Cons.IH [of p] Cons.prems(1) e by (subst parse_path.simps) auto
qed

lemma print_first: "\<exists>c t. print_exp e = c # t \<and> graphic c"
  by (simp add: print_exp_def graphic_def split: js_path_exp.split)

lemma key_char_graphic: "isKeyChar c \<Longrightarrow> graphic c"
  by (auto simp: isKeyChar_def is_digit_def graphic_def less_eq_char_def)

lemma print_last: "\<exists>u l. print_exp e = u @ [l] \<and> graphic l"
proof (cases e)
  case (JspKey k)
  show ?thesis
  proof (cases "k \<noteq> [] \<and> list_all isKeyChar k")
    case True
    then obtain k' c where "k = k' @ [c]" by (metis rev_exhaust)
    then show ?thesis using True JspKey by (auto simp: print_exp_def key_char_graphic)
  qed (auto simp: JspKey print_exp_def graphic_def)
qed (simp_all add: print_exp_def graphic_def)

text \<open>
  A role-claim path printed as the configuration spells it, keys quoted where they need it, parses
  back to the same steps.
\<close>

theorem parseJSPath_print:
  assumes "printable_path path"
  shows "parseJSPath (concat (map print_exp path)) = Inr path"
proof -
  obtain e es where path: "path = e # es" using assms by (cases path) (auto simp: printable_path_def)
  obtain c t where c: "print_exp e = c # t" "graphic c" using print_first by blast
  obtain u l where l: "print_exp (last path) = u @ [l]" "graphic l" using print_last by blast
  have "path = butlast path @ [last path]" by (simp add: path)
  then have "concat (map print_exp path) = concat (map print_exp (butlast path @ [last path]))" by (rule arg_cong)
  also have "\<dots> = (concat (map print_exp (butlast path)) @ u) @ [l]" by (simp only: map_append concat_append list.map concat.simps l(1)) simp
  finally have ends: "concat (map print_exp path) = (concat (map print_exp (butlast path)) @ u) @ [l]" .
  have starts: "concat (map print_exp path) = c # t @ concat (map print_exp es)" using c(1) by (simp add: path)
  have "trim_space (concat (map print_exp path)) = concat (map print_exp path)" by (rule trim_space_graphic [OF c(2) l(2) starts ends])
  then have "trim_space (concat (map print_exp path)) \<noteq> []" using c(1) by (simp add: path)
  then show ?thesis using assms jspath_print [of path 0] by (simp add: parseJSPath_def printable_path_def)
qed

theorem parseJSPath_print_witness:
  "parseJSPath (concat (map print_exp [JspKey ''https://example.com/role'', JspIdx 0, JspFilter ''^=='' ''ad''])) =
     Inr [JspKey ''https://example.com/role'', JspIdx 0, JspFilter ''^=='' ''ad'']"
  by (rule parseJSPath_print) code_simp

end
