(* ===== verification/Jwt_Cache.thy ===== *)
theory Jwt_Cache
  imports Ir
begin

section \<open>Package auth: the cache of verified tokens\<close>

text \<open>
  \<open>src/auth/cache.go\<close>. The entries live in a heap, a list indexed by address that only grows; the
  queue is the doubly linked list the pointers make, newest first. The operations are the code's
  pointer updates. They refine \<open>sieve\<close>, the same cache as a list, and the invariant of the pointers
  holds in every state that calls can reach.
\<close>

type_synonym loc = nat

record 'c cache_entry =
  ce_key :: string
  ce_claims :: 'c
  ce_visited :: bool
  ce_prev :: "loc option"
  ce_next :: "loc option"

record 'c jwt_cache =
  jc_capacity :: int
  jc_items :: "loc go_map"
  jc_head :: "loc option"
  jc_tail :: "loc option"
  jc_hand :: "loc option"
  jc_heap :: "'c cache_entry list"

definition newJWTCache :: "int \<Rightarrow> 'c jwt_cache" where
  "newJWTCache capacity =
     \<lparr>jc_capacity = capacity, jc_items = [], jc_head = None, jc_tail = None, jc_hand = None, jc_heap = []\<rparr>"

abbreviation entry :: "'c jwt_cache \<Rightarrow> loc \<Rightarrow> 'c cache_entry" where
  "entry c p \<equiv> jc_heap c ! p"

definition upd_entry :: "loc \<Rightarrow> ('c cache_entry \<Rightarrow> 'c cache_entry) \<Rightarrow> 'c cache_entry list \<Rightarrow> 'c cache_entry list" where
  "upd_entry p f h = h[p := f (h ! p)]"

definition cache_get :: "string \<Rightarrow> 'c jwt_cache \<Rightarrow> 'c option \<times> 'c jwt_cache" where
  "cache_get key c =
     (case aget (jc_items c) key of
        None \<Rightarrow> (None, c)
      | Some p \<Rightarrow> (Some (ce_claims (entry c p)), c\<lparr>jc_heap := upd_entry p (ce_visited_update (\<lambda>_. True)) (jc_heap c)\<rparr>))"

text \<open>The loop of \<open>evict\<close>: from \<open>obj\<close> toward the head, around to the tail, until an entry is unvisited.\<close>

partial_function (option) evict_loop ::
  "loc option \<Rightarrow> 'c cache_entry list \<Rightarrow> loc option \<Rightarrow> ('c cache_entry list \<times> loc option) option" where
  "evict_loop tail h obj =
     (case obj of
        None \<Rightarrow> Some (h, None)
      | Some p \<Rightarrow>
          if ce_visited (h ! p) then
            evict_loop tail (upd_entry p (ce_visited_update (\<lambda>_. False)) h)
              (case ce_prev (h ! p) of None \<Rightarrow> tail | Some q \<Rightarrow> Some q)
          else Some (h, Some p))"

definition cache_remove :: "loc \<Rightarrow> 'c jwt_cache \<Rightarrow> 'c jwt_cache" where
  "cache_remove p c =
     (let e = entry c p;
          c1 = (case ce_prev e of
                  Some q \<Rightarrow> c\<lparr>jc_heap := upd_entry q (ce_next_update (\<lambda>_. ce_next e)) (jc_heap c)\<rparr>
                | None \<Rightarrow> c\<lparr>jc_head := ce_next e\<rparr>);
          c2 = (case ce_next e of
                  Some q \<Rightarrow> c1\<lparr>jc_heap := upd_entry q (ce_prev_update (\<lambda>_. ce_prev e)) (jc_heap c1)\<rparr>
                | None \<Rightarrow> c1\<lparr>jc_tail := ce_prev e\<rparr>)
      in c2\<lparr>jc_items := adel (ce_key e) (jc_items c2)\<rparr>)"

definition cache_evict :: "'c jwt_cache \<Rightarrow> 'c jwt_cache option" where
  "cache_evict c =
     (case evict_loop (jc_tail c) (jc_heap c) (case jc_hand c of None \<Rightarrow> jc_tail c | Some p \<Rightarrow> Some p) of
        None \<Rightarrow> None
      | Some (h, None) \<Rightarrow> Some (c\<lparr>jc_heap := h\<rparr>)
      | Some (h, Some p) \<Rightarrow> Some (cache_remove p (c\<lparr>jc_heap := h, jc_hand := ce_prev (h ! p)\<rparr>)))"

definition cache_insert :: "string \<Rightarrow> 'c \<Rightarrow> 'c jwt_cache \<Rightarrow> 'c jwt_cache" where
  "cache_insert key claims c =
     (let p = length (jc_heap c);
          h = jc_heap c @ [\<lparr>ce_key = key, ce_claims = claims, ce_visited = False, ce_prev = None, ce_next = jc_head c\<rparr>];
          h' = (case jc_head c of Some q \<Rightarrow> upd_entry q (ce_prev_update (\<lambda>_. Some p)) h | None \<Rightarrow> h)
      in c\<lparr>jc_heap := h', jc_head := Some p, jc_tail := (case jc_tail c of None \<Rightarrow> Some p | t \<Rightarrow> t),
           jc_items := aput key p (jc_items c)\<rparr>)"

definition cache_put :: "string \<Rightarrow> 'c \<Rightarrow> 'c jwt_cache \<Rightarrow> 'c jwt_cache option" where
  "cache_put key claims c =
     (if jc_capacity c \<le> 0 then Some c
      else case aget (jc_items c) key of
        Some p \<Rightarrow> Some (c\<lparr>jc_heap := upd_entry p (\<lambda>e. e\<lparr>ce_claims := claims, ce_visited := True\<rparr>) (jc_heap c)\<rparr>)
      | None \<Rightarrow>
          map_option (cache_insert key claims)
            (if int (length (jc_items c)) \<ge> jc_capacity c then cache_evict c else Some c))"

definition cache_len :: "'c jwt_cache \<Rightarrow> nat" where
  "cache_len c = length (jc_items c)"

subsection \<open>The doubly linked list\<close>

definition front :: "loc list \<Rightarrow> loc option \<Rightarrow> loc option" where
  "front ps n = (case ps of [] \<Rightarrow> n | p # _ \<Rightarrow> Some p)"

definition rear :: "loc list \<Rightarrow> loc option \<Rightarrow> loc option" where
  "rear ps n = (if ps = [] then n else Some (last ps))"

primrec dlist :: "'c cache_entry list \<Rightarrow> loc option \<Rightarrow> loc list \<Rightarrow> loc option \<Rightarrow> bool" where
  "dlist h prv [] nxt = True"
| "dlist h prv (p # ps) nxt \<longleftrightarrow>
     p < length h \<and> ce_prev (h ! p) = prv \<and> ce_next (h ! p) = front ps nxt \<and> dlist h (Some p) ps nxt"

lemma list_ends_simps [simp]:
  "front [] n = n" "front (p # ps) n = Some p" "rear [] n = n" "rear (ps @ [p]) n = Some p"
  "rear (p # ps) n = rear ps (Some p)" "front (ps @ qs) n = front ps (front qs n)" "rear (ps @ qs) n = rear qs (rear ps n)"
  by (auto simp: front_def rear_def split: list.split)

lemma dlist_append [simp]: "dlist h prv (ps @ qs) nxt \<longleftrightarrow> dlist h prv ps (front qs nxt) \<and> dlist h (rear ps prv) qs nxt"
  by (induction ps arbitrary: prv) auto

lemma dlist_less: "dlist h prv ps nxt \<Longrightarrow> p \<in> set ps \<Longrightarrow> p < length h"
  by (induction ps arbitrary: prv) auto

lemma length_upd_entry [simp]: "length (upd_entry p f h) = length h"
  by (simp add: upd_entry_def)

lemma nth_upd_entry: "p < length h \<Longrightarrow> upd_entry p f h ! q = (if p = q then f (h ! q) else h ! q)"
  by (simp add: upd_entry_def nth_list_update)

lemma nth_upd_other [simp]: "p \<noteq> q \<Longrightarrow> upd_entry p f h ! q = h ! q"
  by (simp add: upd_entry_def)

lemma dlist_upd_other [simp]: "p \<notin> set ps \<Longrightarrow> dlist (upd_entry p f h) prv ps nxt = dlist h prv ps nxt"
  by (induction ps arbitrary: prv) auto

text \<open>What the queue depends on: a change of claims or of a visited bit is none of its business.\<close>

lemma dlist_links:
  assumes "\<And>p. p \<in> set ps \<Longrightarrow> p < length h \<Longrightarrow> p < length h' \<and> ce_prev (h' ! p) = ce_prev (h ! p) \<and> ce_next (h' ! p) = ce_next (h ! p)"
  shows "dlist h prv ps nxt \<Longrightarrow> dlist h' prv ps nxt"
  using assms by (induction ps arbitrary: prv) auto

lemma dlist_prevs: "dlist h prv ps nxt \<Longrightarrow> ps \<noteq> [] \<Longrightarrow> map (\<lambda>p. ce_prev (h ! p)) ps = prv # map Some (butlast ps)"
proof (induction ps arbitrary: prv)
  case (Cons p ps)
  then show ?case by (cases "ps = []") auto
qed simp

subsection \<open>The invariant\<close>

definition cache_links :: "'c jwt_cache \<Rightarrow> loc list \<Rightarrow> bool" where
  "cache_links c ps \<longleftrightarrow> dlist (jc_heap c) None ps None \<and> distinct ps \<and> jc_head c = front ps None \<and> jc_tail c = rear ps None"

definition cache_index :: "'c jwt_cache \<Rightarrow> loc list \<Rightarrow> bool" where
  "cache_index c ps \<longleftrightarrow> mset (jc_items c) = mset (map (\<lambda>p. (ce_key (entry c p), p)) ps) \<and> distinct (map (\<lambda>p. ce_key (entry c p)) ps)"

definition cache_hand :: "'c jwt_cache \<Rightarrow> loc list \<Rightarrow> bool" where
  "cache_hand c ps \<longleftrightarrow> (case jc_hand c of None \<Rightarrow> True | Some p \<Rightarrow> p \<in> set ps)"

definition cache_ok :: "'c jwt_cache \<Rightarrow> loc list \<Rightarrow> bool" where
  "cache_ok c ps \<longleftrightarrow> cache_links c ps \<and> cache_index c ps \<and> cache_hand c ps"

lemma index_wf:
  assumes "cache_index c ps"
  shows "wf_map (jc_items c)" and "length (jc_items c) = length ps"
proof -
  have eq: "mset (jc_items c) = mset (map (\<lambda>p. (ce_key (entry c p), p)) ps)" using assms by (simp add: cache_index_def)
  have "mset (map fst (jc_items c)) = mset (map fst (map (\<lambda>p. (ce_key (entry c p), p)) ps))" by (simp only: mset_map eq)
  then have "mset (map fst (jc_items c)) = mset (map (\<lambda>p. ce_key (entry c p)) ps)" by (simp add: comp_def)
  then show "wf_map (jc_items c)" using assms by (metis cache_index_def mset_eq_imp_distinct_iff wf_map_def)
  show "length (jc_items c) = length ps" using mset_eq_length [OF eq] by simp
qed

lemma index_aget:
  assumes "cache_index c ps"
  shows "aget (jc_items c) k = Some p \<longleftrightarrow> p \<in> set ps \<and> ce_key (entry c p) = k"
proof -
  have items: "set (jc_items c) = (\<lambda>p. (ce_key (entry c p), p)) ` set ps"
    using assms mset_eq_setD [of "jc_items c" "map (\<lambda>p. (ce_key (entry c p), p)) ps"] by (simp add: cache_index_def)
  have "aget (jc_items c) k = Some p \<longleftrightarrow> (k, p) \<in> set (jc_items c)"
    using aget_mem [OF index_wf(1) [OF assms]] aget_SomeD by fast
  then show ?thesis unfolding items by auto
qed

subsection \<open>The cache as a list\<close>

text \<open>
  The SIEVE cache without pointers: the queue, newest first, of keys with claims and visited bit, and
  the key the hand is at. \<open>sieve_order\<close> is the order of a sweep; the victim is the first unvisited
  entry of it or, when all are visited, the entry the sweep began with, which it meets again
  unvisited.
\<close>

type_synonym 'c slot = "string \<times> 'c \<times> bool"

abbreviation slot_visited :: "'c slot \<Rightarrow> bool" where
  "slot_visited s \<equiv> snd (snd s)"

record 'c sieve =
  sv_queue :: "'c slot list"
  sv_hand :: "string option"

definition sieve_find :: "'c slot list \<Rightarrow> string \<Rightarrow> 'c option" where
  "sieve_find q k = map_option fst (map_of q k)"

definition sieve_at :: "string \<Rightarrow> ('c \<times> bool \<Rightarrow> 'c \<times> bool) \<Rightarrow> 'c slot list \<Rightarrow> 'c slot list" where
  "sieve_at k f q = map (\<lambda>s. if fst s = k then (fst s, f (snd s)) else s) q"

definition sweep_order :: "('a \<Rightarrow> bool) \<Rightarrow> 'a list \<Rightarrow> 'a list" where
  "sweep_order at_hand q =
     rev (takeWhile (\<lambda>s. \<not> at_hand s) q @ take 1 (dropWhile (\<lambda>s. \<not> at_hand s) q)) @ rev (drop 1 (dropWhile (\<lambda>s. \<not> at_hand s) q))"

definition sweep_victim :: "('a \<Rightarrow> bool) \<Rightarrow> 'a list \<Rightarrow> 'a" where
  "sweep_victim vis order = (case find (\<lambda>s. \<not> vis s) order of Some s \<Rightarrow> s | None \<Rightarrow> hd order)"

definition newer_than :: "('a \<Rightarrow> bool) \<Rightarrow> 'a list \<Rightarrow> 'a option" where
  "newer_than is_it q = (let n = takeWhile (\<lambda>s. \<not> is_it s) q in if n = [] then None else Some (last n))"

definition sieve_evict :: "'c sieve \<Rightarrow> 'c sieve" where
  "sieve_evict s =
     (let q = sv_queue s; order = sweep_order (\<lambda>x. Some (fst x) = sv_hand s) q;
          v = fst (sweep_victim slot_visited order); passed = map fst (takeWhile slot_visited order)
      in \<lparr>sv_queue = map (\<lambda>x. if fst x \<in> set passed then (fst x, fst (snd x), False) else x) (filter (\<lambda>x. fst x \<noteq> v) q),
          sv_hand = map_option fst (newer_than (\<lambda>x. fst x = v) q)\<rparr>)"

definition sieve_get :: "string \<Rightarrow> 'c sieve \<Rightarrow> 'c option \<times> 'c sieve" where
  "sieve_get k s = (sieve_find (sv_queue s) k, s\<lparr>sv_queue := sieve_at k (\<lambda>(v, b). (v, True)) (sv_queue s)\<rparr>)"

definition sieve_put :: "int \<Rightarrow> string \<Rightarrow> 'c \<Rightarrow> 'c sieve \<Rightarrow> 'c sieve" where
  "sieve_put cap k v s =
     (if cap \<le> 0 then s
      else if sieve_find (sv_queue s) k \<noteq> None then s\<lparr>sv_queue := sieve_at k (\<lambda>_. (v, True)) (sv_queue s)\<rparr>
      else let s' = (if int (length (sv_queue s)) \<ge> cap then sieve_evict s else s)
        in s'\<lparr>sv_queue := (k, v, False) # sv_queue s'\<rparr>)"

definition slot_of :: "'c cache_entry list \<Rightarrow> loc \<Rightarrow> 'c slot" where
  "slot_of h p = (ce_key (h ! p), ce_claims (h ! p), ce_visited (h ! p))"

definition sieve_of :: "'c jwt_cache \<Rightarrow> loc list \<Rightarrow> 'c sieve" where
  "sieve_of c ps = \<lparr>sv_queue = map (slot_of (jc_heap c)) ps, sv_hand = map_option (\<lambda>p. ce_key (entry c p)) (jc_hand c)\<rparr>"

subsection \<open>The sweep\<close>

definition sweep_step :: "loc option \<Rightarrow> 'c cache_entry list \<Rightarrow> loc \<Rightarrow> loc option" where
  "sweep_step tail h p = (case ce_prev (h ! p) of None \<Rightarrow> tail | Some q \<Rightarrow> Some q)"

definition clear_bits :: "loc list \<Rightarrow> 'c cache_entry list \<Rightarrow> 'c cache_entry list" where
  "clear_bits ps h = fold (\<lambda>p. upd_entry p (ce_visited_update (\<lambda>_. False))) ps h"

lemma clear_bits_simps [simp]:
  "clear_bits [] h = h" "clear_bits (p # ps) h = clear_bits ps (upd_entry p (ce_visited_update (\<lambda>_. False)) h)"
  "length (clear_bits ps h) = length h"
proof -
  show "length (clear_bits ps h) = length h" by (induction ps arbitrary: h) (simp_all add: clear_bits_def)
qed (simp_all add: clear_bits_def)

lemma nth_clear_bits:
  "q < length h \<Longrightarrow> clear_bits ps h ! q = (if q \<in> set ps then (h ! q)\<lparr>ce_visited := False\<rparr> else h ! q)"
proof (induction ps arbitrary: h)
  case (Cons p ps)
  show ?case
  proof (cases "p = q")
    case True
    then show ?thesis using Cons.prems by (simp add: Cons.IH nth_upd_entry)
  qed (simp add: Cons.IH Cons.prems)
qed simp

lemma sweep_step_upd [simp]: "sweep_step tail (upd_entry p (ce_visited_update f) h) q = sweep_step tail h q"
  by (cases "p < length h") (simp_all add: sweep_step_def upd_entry_def nth_list_update list_update_beyond)

text \<open>\<open>os\<close> lists the queue in the order of a sweep: each step leads to the next, the last to the first.\<close>

definition cyclic :: "(loc \<Rightarrow> loc option) \<Rightarrow> loc list \<Rightarrow> bool" where
  "cyclic f os \<longleftrightarrow> map f os = map Some (rotate1 os)"

lemma cyclic_rotate1: "cyclic f os \<Longrightarrow> cyclic f (rotate1 os)"
  unfolding cyclic_def by (metis rotate1_map)

lemma cyclic_rotate: "cyclic f os \<Longrightarrow> cyclic f (rotate n os)"
  by (induction n) (simp_all add: cyclic_rotate1 rotate_def)

lemma cyclic_hd: "cyclic f (p # os) \<Longrightarrow> f p = Some (hd (os @ [p]))"
  by (cases os) (simp_all add: cyclic_def)

lemma evict_loop_sweep:
  assumes "cyclic (sweep_step tail h) (vs @ x # os)" and "distinct (vs @ x # os)" and "\<forall>p \<in> set (vs @ x # os). p < length h"
    and "\<forall>p \<in> set vs. ce_visited (h ! p)" and "\<not> ce_visited (h ! x)"
  shows "evict_loop tail h (Some (hd (vs @ [x]))) = Some (clear_bits vs h, Some x)"
  using assms
proof (induction vs arbitrary: h os)
  case Nil
  then show ?case by (subst evict_loop.simps) simp
next
  case (Cons v vs)
  let ?h = "upd_entry v (ce_visited_update (\<lambda>_. False)) h"
  have "cyclic (sweep_step tail h) (rotate1 ((v # vs) @ x # os))" by (rule cyclic_rotate1) (rule Cons.prems(1))
  moreover have "sweep_step tail ?h = sweep_step tail h" by (rule ext) simp
  ultimately have cyc: "cyclic (sweep_step tail ?h) (vs @ x # (os @ [v]))" by simp
  have nxt: "sweep_step tail h v = Some (hd (vs @ [x]))"
    using cyclic_hd [of "sweep_step tail h" v "vs @ x # os"] Cons.prems(1) by (cases vs) simp_all
  have "evict_loop tail ?h (Some (hd (vs @ [x]))) = Some (clear_bits vs ?h, Some x)"
  proof (rule Cons.IH [OF cyc])
    show "\<forall>p \<in> set vs. ce_visited (?h ! p)" "\<not> ce_visited (?h ! x)" using Cons.prems by (auto simp: nth_upd_entry)
  qed (use Cons.prems in auto)
  then show ?case using Cons.prems(4) nxt by (subst evict_loop.simps) (simp add: sweep_step_def)
qed

lemma evict_loop_victim:
  assumes cyc: "cyclic (sweep_step tail h) os" and "distinct os" and len: "\<forall>p \<in> set os. p < length h" and ne: "os \<noteq> []"
  shows "evict_loop tail h (Some (hd os)) =
    Some (clear_bits (takeWhile (\<lambda>p. ce_visited (h ! p)) os) h, Some (sweep_victim (\<lambda>p. ce_visited (h ! p)) os))"
proof (cases "\<forall>p \<in> set os. ce_visited (h ! p)")
  case True
  obtain v vs where os: "os = v # vs" using ne by (cases os) auto
  let ?h = "upd_entry v (ce_visited_update (\<lambda>_. False)) h"
  have tw: "takeWhile (\<lambda>p. ce_visited (h ! p)) os = os" using True by (simp add: takeWhile_eq_all_conv)
  have "find (\<lambda>p. \<not> ce_visited (h ! p)) os = None" using True by (simp add: find_None_iff)
  then have vic: "sweep_victim (\<lambda>p. ce_visited (h ! p)) os = v" by (simp add: sweep_victim_def os)
  have "sweep_step tail ?h = sweep_step tail h" by (rule ext) simp
  then have "cyclic (sweep_step tail ?h) (vs @ v # [])" using cyclic_rotate1 [OF cyc] by (simp add: os)
  then have "evict_loop tail ?h (Some (hd (vs @ [v]))) = Some (clear_bits vs ?h, Some v)"
    by (rule evict_loop_sweep) (use assms(2) len True in \<open>auto simp: os nth_upd_entry\<close>)
  moreover have "sweep_step tail h v = Some (hd (vs @ [v]))" using cyclic_hd [of "sweep_step tail h" v vs] cyc by (simp add: os)
  ultimately show ?thesis unfolding tw vic using True by (subst evict_loop.simps) (simp add: os sweep_step_def)
next
  case False
  then obtain vs x rest where os: "os = vs @ x # rest" and vs: "\<forall>p \<in> set vs. ce_visited (h ! p)" and x: "\<not> ce_visited (h ! x)"
    using split_list_first_prop [of os "\<lambda>p. \<not> ce_visited (h ! p)"] by blast
  have tw: "takeWhile (\<lambda>p. ce_visited (h ! p)) os = vs" using vs x by (simp add: os takeWhile_append2)
  have "find (\<lambda>p. \<not> ce_visited (h ! p)) os = Some x" unfolding os using vs x by (induction vs) auto
  then have vic: "sweep_victim (\<lambda>p. ce_visited (h ! p)) os = x" by (simp add: sweep_victim_def)
  have "hd os = hd (vs @ [x])" by (cases vs) (simp_all add: os)
  then show ?thesis unfolding tw vic using evict_loop_sweep [of tail h vs x rest] assms vs x by (simp add: os)
qed

lemma sweep_order_rotate: "\<exists>n. sweep_order at q = rotate n (rev q)"
proof -
  let ?a = "takeWhile (\<lambda>s. \<not> at s) q @ take 1 (dropWhile (\<lambda>s. \<not> at s) q)" and ?b = "drop 1 (dropWhile (\<lambda>s. \<not> at s) q)"
  have "rev q = rev ?b @ rev ?a"
    by (metis append.assoc append_take_drop_id rev_append takeWhile_dropWhile_id)
  then have "rotate (length (rev ?b)) (rev q) = rev ?a @ rev ?b" by (metis rotate_append)
  then show ?thesis unfolding sweep_order_def by metis
qed

lemma sweep_order_set:
  "set (sweep_order at q) = set q" "distinct (sweep_order at q) = distinct q" "sweep_order at q = [] \<longleftrightarrow> q = []"
  using sweep_order_rotate [of at q] by (metis set_rotate set_rev, metis distinct_rotate distinct_rev, metis rotate_is_Nil_conv rev_is_Nil_conv)

lemma sweep_order_map:
  assumes "\<And>x. x \<in> set q \<Longrightarrow> at (f x) = at' x"
  shows "sweep_order at (map f q) = map f (sweep_order at' q)"
proof -
  have "takeWhile (\<lambda>s. \<not> at s) (map f q) = map f (takeWhile (\<lambda>s. \<not> at' s) q)"
    "dropWhile (\<lambda>s. \<not> at s) (map f q) = map f (dropWhile (\<lambda>s. \<not> at' s) q)"
    using assms by (induction q) auto
  then show ?thesis by (simp add: sweep_order_def take_map drop_map rev_map)
qed

lemma cyclic_rev:
  assumes "dlist h None ps None" and "ps \<noteq> []"
  shows "cyclic (sweep_step (rear ps None) h) (rev ps)"
proof -
  have "map (sweep_step (rear ps None) h) ps = map (\<lambda>z. case z of None \<Rightarrow> rear ps None | Some q \<Rightarrow> Some q) (map (\<lambda>p. ce_prev (h ! p)) ps)"
    by (simp add: sweep_step_def)
  also have "\<dots> = Some (last ps) # map Some (butlast ps)"
    by (simp add: dlist_prevs [OF assms] comp_def rear_def assms(2))
  finally have "map (sweep_step (rear ps None) h) (rev ps) = rev (Some (last ps) # map Some (butlast ps))" by (simp only: rev_map [symmetric])
  moreover have "rev ps = last ps # rev (butlast ps)"
    using assms(2) by (cases ps rule: rev_cases) simp_all
  then have "map Some (rotate1 (rev ps)) = rev (Some (last ps) # map Some (butlast ps))"
    by (simp only: rotate1.simps rev_map) (simp add: rev_map)
  ultimately show ?thesis by (simp only: cyclic_def)
qed

lemma sweep_order_locs:
  assumes links: "cache_links c ps" and hand: "cache_hand c ps" and ne: "ps \<noteq> []"
  defines "os \<equiv> sweep_order (\<lambda>p. Some p = jc_hand c) ps"
  shows "cyclic (sweep_step (jc_tail c) (jc_heap c)) os"
    and "(case jc_hand c of None \<Rightarrow> jc_tail c | Some p \<Rightarrow> Some p) = Some (hd os)"
proof -
  have dl: "dlist (jc_heap c) None ps None" and tail: "jc_tail c = rear ps None" using links by (simp_all add: cache_links_def)
  obtain n where "os = rotate n (rev ps)" unfolding os_def using sweep_order_rotate by metis
  then show "cyclic (sweep_step (jc_tail c) (jc_heap c)) os" using cyclic_rotate [OF cyclic_rev [OF dl ne]] by (simp add: tail)
  show "(case jc_hand c of None \<Rightarrow> jc_tail c | Some p \<Rightarrow> Some p) = Some (hd os)"
  proof (cases "jc_hand c")
    case None
    then have "os = rev ps" by (simp add: os_def sweep_order_def dropWhile_eq_Nil_conv [THEN iffD2])
    then show ?thesis using ne None by (simp add: tail rear_def hd_rev)
  next
    case (Some p)
    then obtain xs ys where ps: "ps = xs @ p # ys" "p \<notin> set xs"
      using hand by (auto simp: cache_hand_def dest: split_list_first)
    then have "takeWhile (\<lambda>q. \<not> Some q = jc_hand c) ps = xs" "dropWhile (\<lambda>q. \<not> Some q = jc_hand c) ps = p # ys"
      by (induction xs arbitrary: ps) (auto simp: Some)
    then have "os = rev (xs @ [p]) @ rev ys" by (simp add: os_def sweep_order_def)
    then show ?thesis by (simp add: Some)
  qed
qed

subsection \<open>Unlinking\<close>

lemma slot_of_links [simp]:
  "slot_of (upd_entry q (ce_next_update f) h) p = slot_of h p" "slot_of (upd_entry q (ce_prev_update f) h) p = slot_of h p"
  by (cases "q < length h"; simp add: slot_of_def upd_entry_def nth_list_update list_update_beyond)+

lemma cache_remove_links:
  assumes links: "cache_links c (as @ x # bs)" and index: "cache_index c (as @ x # bs)"
  defines "c' \<equiv> cache_remove x c"
  shows "cache_links c' (as @ bs)" and "\<And>p. p \<in> set (as @ bs) \<Longrightarrow> slot_of (jc_heap c') p = slot_of (jc_heap c) p"
    and "jc_hand c' = jc_hand c" and "jc_capacity c' = jc_capacity c" and "jc_items c' = adel (ce_key (entry c x)) (jc_items c)"
proof -
  have dl: "dlist (jc_heap c) None as (Some x)" "dlist (jc_heap c) (Some x) bs None" "x < length (jc_heap c)"
    and x: "ce_prev (entry c x) = rear as None" "ce_next (entry c x) = front bs None"
    and d: "distinct (as @ x # bs)" and ends: "jc_head c = front as (Some x)" "jc_tail c = rear bs (Some x)"
    using links by (simp_all add: cache_links_def)
  have less: "p < length (jc_heap c)" if "p \<in> set as \<union> set bs" for p using dl(1,2) that dlist_less by blast
  show "jc_hand c' = jc_hand c" "jc_capacity c' = jc_capacity c" "jc_items c' = adel (ce_key (entry c x)) (jc_items c)"
    by (simp_all add: c'_def cache_remove_def Let_def split: option.split)
  show "slot_of (jc_heap c') p = slot_of (jc_heap c) p" if "p \<in> set (as @ bs)" for p
    by (simp add: c'_def cache_remove_def Let_def split: option.split)
  show "cache_links c' (as @ bs)"
  proof (cases as rule: rev_cases)
    case Nil
    show ?thesis
    proof (cases bs)
      case (Cons r rs)
      then show ?thesis using Nil dl x d ends less [of r]
        by (simp add: cache_links_def c'_def cache_remove_def Let_def nth_upd_entry)
    qed (use Nil dl x d ends in \<open>simp add: cache_links_def c'_def cache_remove_def Let_def\<close>)
  next
    case (snoc qs q)
    show ?thesis
    proof (cases bs)
      case (Cons r rs)
      then show ?thesis using snoc dl x d ends less [of r] less [of q]
        by (simp add: cache_links_def c'_def cache_remove_def Let_def nth_upd_entry)
    qed (use snoc dl x d ends less [of q] in \<open>simp add: cache_links_def c'_def cache_remove_def Let_def nth_upd_entry\<close>)
  qed
qed

lemma clear_links:
  assumes "cache_links c ps" and "cache_index c ps"
  shows "cache_links (c\<lparr>jc_heap := clear_bits vs (jc_heap c), jc_hand := q\<rparr>) ps"
    and "cache_index (c\<lparr>jc_heap := clear_bits vs (jc_heap c), jc_hand := q\<rparr>) ps"
proof -
  have less: "p \<in> set ps \<Longrightarrow> p < length (jc_heap c)" for p using assms(1) dlist_less by (auto simp: cache_links_def)
  have "dlist (clear_bits vs (jc_heap c)) None ps None"
    by (rule dlist_links [where h = "jc_heap c"]) (use assms(1) in \<open>auto simp: cache_links_def nth_clear_bits\<close>)
  then show "cache_links (c\<lparr>jc_heap := clear_bits vs (jc_heap c), jc_hand := q\<rparr>) ps" using assms(1) by (simp add: cache_links_def)
  have key: "map (\<lambda>p. ce_key (clear_bits vs (jc_heap c) ! p)) ps = map (\<lambda>p. ce_key (entry c p)) ps"
    "map (\<lambda>p. (ce_key (clear_bits vs (jc_heap c) ! p), p)) ps = map (\<lambda>p. (ce_key (entry c p), p)) ps"
    by (simp_all add: nth_clear_bits less)
  show "cache_index (c\<lparr>jc_heap := clear_bits vs (jc_heap c), jc_hand := q\<rparr>) ps"
    using assms(2) unfolding cache_index_def by (simp add: key)
qed

lemma filter_key_out:
  assumes "distinct (map f (as @ x # bs))"
  shows "filter (\<lambda>y. f y \<noteq> f x) (as @ x # bs) = as @ bs"
proof -
  have "filter (\<lambda>y. f y \<noteq> f x) zs = zs" if "f x \<notin> f ` set zs" for zs using that by (induction zs) auto
  then show ?thesis using assms by simp
qed

lemma remove_index:
  assumes "cache_links c (as @ x # bs)" "cache_index c (as @ x # bs)"
  shows "cache_index (cache_remove x c) (as @ bs)"
proof -
  let ?k = "\<lambda>p. ce_key (entry c p)" and ?k' = "\<lambda>p. ce_key (entry (cache_remove x c) p)"
  note rm = cache_remove_links [OF assms]
  have d: "distinct (map ?k (as @ x # bs))" and ms: "mset (jc_items c) = mset (map (\<lambda>p. (?k p, p)) (as @ x # bs))"
    using assms(2) by (simp_all add: cache_index_def)
  have same: "?k' p = ?k p" if "p \<in> set (as @ bs)" for p using rm(2) [OF that] by (simp add: slot_of_def)
  have keys: "map ?k' (as @ bs) = map ?k (as @ bs)" "map (\<lambda>p. (?k' p, p)) (as @ bs) = map (\<lambda>p. (?k p, p)) (as @ bs)"
    using same by auto
  have "filter (\<lambda>y. fst y \<noteq> ?k x) (map (\<lambda>p. (?k p, p)) (as @ x # bs)) = map (\<lambda>p. (?k p, p)) (as @ bs)"
    unfolding filter_map comp_def fst_conv filter_key_out [OF d] ..
  then have "mset (adel (?k x) (jc_items c)) = mset (map (\<lambda>p. (?k p, p)) (as @ bs))"
    unfolding adel_def mset_filter ms by (simp only: mset_filter [symmetric])
  then show ?thesis unfolding cache_index_def rm(5) keys using d by simp
qed

subsection \<open>Refinement\<close>

lemma find_map: "find P (map f xs) = map_option f (find (\<lambda>x. P (f x)) xs)"
  by (induction xs) auto

lemma sweep_victim_map: "xs \<noteq> [] \<Longrightarrow> sweep_victim P (map f xs) = f (sweep_victim (\<lambda>x. P (f x)) xs)"
  by (simp add: sweep_victim_def find_map hd_map split: option.split)

lemma sweep_victim_mem: "xs \<noteq> [] \<Longrightarrow> sweep_victim P xs \<in> set xs"
  by (auto simp: sweep_victim_def find_Some_iff split: option.split)

lemma newer_than_key:
  assumes "distinct (map f (as @ x # bs))"
  shows "newer_than (\<lambda>y. f y = f x) (as @ x # bs) = (if as = [] then None else Some (last as))"
proof -
  have "takeWhile (\<lambda>y. f y \<noteq> f x) (as @ x # bs) = as" using assms by (induction as) auto
  then show ?thesis by (simp add: newer_than_def)
qed

lemma newer_than_map: "newer_than P (map f xs) = map_option f (newer_than (\<lambda>x. P (f x)) xs)"
  by (simp add: newer_than_def takeWhile_map comp_def last_map Let_def)

lemma cache_evict_refines:
  assumes ok: "cache_ok c ps" and ne: "ps \<noteq> []"
  shows "\<exists>c' qs. cache_evict c = Some c' \<and> cache_ok c' qs \<and> sieve_of c' qs = sieve_evict (sieve_of c ps) \<and>
    Suc (length qs) = length ps \<and> jc_capacity c' = jc_capacity c"
proof -
  have links: "cache_links c ps" and index: "cache_index c ps" and hand: "cache_hand c ps" using ok by (simp_all add: cache_ok_def)
  let ?h = "jc_heap c" and ?key = "\<lambda>p. ce_key (entry c p)"
  define os where "os = sweep_order (\<lambda>p. Some p = jc_hand c) ps"
  define vs where "vs = takeWhile (\<lambda>p. ce_visited (?h ! p)) os"
  define x where "x = sweep_victim (\<lambda>p. ce_visited (?h ! p)) os"
  have dk: "distinct (map ?key ps)" using index by (simp add: cache_index_def)
  have less: "p \<in> set ps \<Longrightarrow> p < length ?h" for p using links dlist_less by (auto simp: cache_links_def)
  have osne: "os \<noteq> []" and set_os: "set os = set ps" and dos: "distinct os"
    using ne links by (simp_all add: os_def sweep_order_set cache_links_def)
  have "x \<in> set ps" using sweep_victim_mem [OF osne] set_os by (auto simp: x_def)
  then obtain as bs where ps: "ps = as @ x # bs" by (meson split_list)
  define c1 where "c1 = c\<lparr>jc_heap := clear_bits vs ?h, jc_hand := rear as None\<rparr>"
  have loop: "evict_loop (jc_tail c) ?h (case jc_hand c of None \<Rightarrow> jc_tail c | Some p \<Rightarrow> Some p) = Some (clear_bits vs ?h, Some x)"
    unfolding sweep_order_locs(2) [OF links hand ne, folded os_def] vs_def x_def
    by (rule evict_loop_victim [OF sweep_order_locs(1) [OF links hand ne, folded os_def] dos _ osne]) (use less set_os in auto)
  have xh: "x < length ?h" using less \<open>x \<in> set ps\<close> .
  have "ce_prev (clear_bits vs ?h ! x) = rear as None" using links by (simp add: nth_clear_bits xh ps cache_links_def)
  then have ev: "cache_evict c = Some (cache_remove x c1)" by (simp add: cache_evict_def loop c1_def)
  have c1: "cache_links c1 (as @ x # bs)" "cache_index c1 (as @ x # bs)"
    unfolding c1_def using clear_links [OF links index] by (simp_all add: ps)
  note rm = cache_remove_links [OF c1]
  have ok': "cache_ok (cache_remove x c1) (as @ bs)"
    using rm(1) remove_index [OF c1] by (simp add: cache_ok_def cache_hand_def rm(3)) (auto simp: c1_def rear_def split: option.split)
  have q: "map (slot_of (jc_heap (cache_remove x c1))) (as @ bs) = map (slot_of (clear_bits vs ?h)) (as @ bs)"
    using rm(2) by (simp add: c1_def)
  have at: "(Some (fst (slot_of ?h p)) = map_option ?key (jc_hand c)) = (Some p = jc_hand c)" if "p \<in> set ps" for p
    using hand that dk by (auto simp: slot_of_def cache_hand_def distinct_map inj_on_def split: option.split_asm)
  have order: "sweep_order (\<lambda>y. Some (fst y) = map_option ?key (jc_hand c)) (map (slot_of ?h) ps) = map (slot_of ?h) os"
    unfolding os_def by (rule sweep_order_map) (rule at)
  have v: "fst (sweep_victim slot_visited (map (slot_of ?h) os)) = ?key x"
    unfolding sweep_victim_map [OF osne] by (simp add: slot_of_def x_def)
  have passed: "map fst (takeWhile slot_visited (map (slot_of ?h) os)) = map ?key vs"
    by (simp add: vs_def takeWhile_map comp_def slot_of_def)
  have fs: "fst (slot_of ?h p) = ?key p" for p by (simp add: slot_of_def)
  have bit: "(if fst (slot_of ?h p) \<in> set (map ?key vs) then (fst (slot_of ?h p), fst (snd (slot_of ?h p)), False) else slot_of ?h p)
      = slot_of (clear_bits vs ?h) p" if "p \<in> set (as @ bs)" for p
  proof -
    have "p \<in> set ps" using that by (auto simp: ps)
    moreover have "set vs \<subseteq> set ps" using set_os set_takeWhileD by (fastforce simp: vs_def)
    ultimately have "?key p \<in> ?key ` set vs \<longleftrightarrow> p \<in> set vs" using dk by (auto simp: distinct_map inj_on_def)
    then show ?thesis using less [OF \<open>p \<in> set ps\<close>] by (simp add: slot_of_def nth_clear_bits)
  qed
  have left: "filter (\<lambda>y. fst y \<noteq> ?key x) (map (slot_of ?h) ps) = map (slot_of ?h) (as @ bs)"
    using filter_key_out [of ?key as x bs] dk by (simp only: filter_map comp_def fs ps)
  have new: "map_option fst (newer_than (\<lambda>y. fst y = ?key x) (map (slot_of ?h) ps)) = map_option ?key (rear as None)"
    unfolding newer_than_map option.map_comp comp_def fs ps newer_than_key [OF dk [unfolded ps]] by (simp add: rear_def)
  have hk: "map_option (\<lambda>p. ce_key (entry (cache_remove x c1) p)) (rear as None) = map_option ?key (rear as None)"
  proof (cases "as = []")
    case False
    then have "last as \<in> set (as @ bs)" by simp
    then have "ce_key (entry (cache_remove x c1) (last as)) = ce_key (entry c1 (last as))" using rm(2) by (simp add: slot_of_def)
    also have "\<dots> = ?key (last as)" using False less [of "last as"] by (simp add: c1_def nth_clear_bits ps)
    finally show ?thesis using False by (simp add: rear_def)
  qed simp
  have "sieve_of (cache_remove x c1) (as @ bs) =
      \<lparr>sv_queue = map (slot_of (clear_bits vs ?h)) (as @ bs), sv_hand = map_option ?key (rear as None)\<rparr>"
    unfolding sieve_of_def q rm(3) by (simp add: hk [symmetric] c1_def)
  also have "\<dots> = sieve_evict (sieve_of c ps)"
    unfolding sieve_evict_def sieve_of_def Let_def sieve.select_convs order v passed left new
    using bit by simp
  finally have "sieve_of (cache_remove x c1) (as @ bs) = sieve_evict (sieve_of c ps)" .
  moreover have "jc_capacity (cache_remove x c1) = jc_capacity c" unfolding rm(4) by (simp add: c1_def)
  moreover have "Suc (length (as @ bs)) = length ps" by (simp add: ps)
  ultimately show ?thesis using ev ok' by blast
qed

lemma slot_find:
  assumes "cache_index c ps"
  shows "map_of (map (slot_of (jc_heap c)) ps) k = map_option (\<lambda>p. (ce_claims (entry c p), ce_visited (entry c p))) (aget (jc_items c) k)"
proof -
  have d: "distinct (map fst (map (slot_of (jc_heap c)) ps))" using assms by (simp add: cache_index_def slot_of_def comp_def)
  show ?thesis
  proof (cases "aget (jc_items c) k")
    case None
    then have "\<forall>p \<in> set ps. ce_key (entry c p) \<noteq> k" using index_aget [OF assms, of k] by force
    then have "k \<notin> fst ` set (map (slot_of (jc_heap c)) ps)" by (auto simp: slot_of_def)
    then show ?thesis using None by (simp add: map_of_eq_None_iff del: set_map)
  next
    case (Some p)
    then have "(k, ce_claims (entry c p), ce_visited (entry c p)) \<in> set (map (slot_of (jc_heap c)) ps)"
      using index_aget [OF assms, of k p] by (auto simp: slot_of_def)
    then show ?thesis using Some d by simp
  qed
qed

text \<open>Writing the claims and the bit of one entry.\<close>

lemma touch_refines:
  assumes ok: "cache_ok c ps" and p: "aget (jc_items c) k = Some p"
    and f: "\<And>e. ce_key (f e) = ce_key e" "\<And>e. ce_prev (f e) = ce_prev e" "\<And>e. ce_next (f e) = ce_next e"
      "\<And>e. (ce_claims (f e), ce_visited (f e)) = g (ce_claims e, ce_visited e)"
  defines "c' \<equiv> c\<lparr>jc_heap := upd_entry p f (jc_heap c)\<rparr>"
  shows "cache_ok c' ps" and "sieve_of c' ps = (sieve_of c ps)\<lparr>sv_queue := sieve_at k g (sv_queue (sieve_of c ps))\<rparr>"
proof -
  have links: "cache_links c ps" and index: "cache_index c ps" and hand: "cache_hand c ps" using ok by (simp_all add: cache_ok_def)
  have less: "q \<in> set ps \<Longrightarrow> q < length (jc_heap c)" for q using links dlist_less by (auto simp: cache_links_def)
  have pk: "p \<in> set ps" "ce_key (entry c p) = k" using index_aget [OF index] p by auto
  have nth: "upd_entry p f (jc_heap c) ! q = (if p = q then f (entry c q) else entry c q)" for q
    using less [OF pk(1)] by (simp add: nth_upd_entry)
  have "dlist (upd_entry p f (jc_heap c)) None ps None"
    by (rule dlist_links [where h = "jc_heap c"]) (use links in \<open>auto simp: cache_links_def nth f\<close>)
  moreover have key: "ce_key (upd_entry p f (jc_heap c) ! q) = ce_key (entry c q)" for q by (simp add: nth f)
  ultimately show "cache_ok c' ps"
    using links index hand by (simp add: cache_ok_def cache_links_def cache_index_def cache_hand_def c'_def)
  have "slot_of (upd_entry p f (jc_heap c)) q =
      (if fst (slot_of (jc_heap c) q) = k then (fst (slot_of (jc_heap c) q), g (snd (slot_of (jc_heap c) q))) else slot_of (jc_heap c) q)"
    if "q \<in> set ps" for q
  proof -
    have "ce_key (entry c q) = k \<longleftrightarrow> q = p" using index that pk by (auto simp: cache_index_def distinct_map inj_on_def)
    then show ?thesis using f(1,4) by (auto simp: slot_of_def nth)
  qed
  then show "sieve_of c' ps = (sieve_of c ps)\<lparr>sv_queue := sieve_at k g (sv_queue (sieve_of c ps))\<rparr>"
    by (simp add: sieve_of_def sieve_at_def c'_def key)
qed

lemma sieve_at_absent: "map_of q k = None \<Longrightarrow> sieve_at k f q = q"
  unfolding sieve_at_def by (rule map_idI) (auto simp: map_of_eq_None_iff)

lemma cache_get_refines:
  assumes ok: "cache_ok c ps"
  shows "fst (cache_get k c) = fst (sieve_get k (sieve_of c ps)) \<and> cache_ok (snd (cache_get k c)) ps \<and>
    sieve_of (snd (cache_get k c)) ps = snd (sieve_get k (sieve_of c ps)) \<and> jc_capacity (snd (cache_get k c)) = jc_capacity c"
proof -
  have index: "cache_index c ps" using ok by (simp add: cache_ok_def)
  note found = slot_find [OF index, of k]
  show ?thesis
  proof (cases "aget (jc_items c) k")
    case None
    then show ?thesis using found ok by (simp add: cache_get_def sieve_get_def sieve_find_def sieve_of_def sieve_at_absent)
  next
    case (Some p)
    note t = touch_refines [OF ok Some, where f = "ce_visited_update (\<lambda>_. True)" and g = "\<lambda>(v, b). (v, True)"]
    show ?thesis using found Some t by (simp add: cache_get_def sieve_get_def sieve_find_def) (simp add: sieve_of_def)
  qed
qed

lemma mset_aput_new: "aget m k = None \<Longrightarrow> mset (aput k v m) = add_mset (k, v) (mset m)"
  by (induction k v m rule: aput.induct) (auto split: if_split_asm)

lemma cache_insert_refines:
  assumes ok: "cache_ok c ps" and new: "aget (jc_items c) k = None"
  defines "p \<equiv> length (jc_heap c)"
  shows "cache_ok (cache_insert k v c) (p # ps)"
    and "sieve_of (cache_insert k v c) (p # ps) = (sieve_of c ps)\<lparr>sv_queue := (k, v, False) # sv_queue (sieve_of c ps)\<rparr>"
proof -
  have links: "cache_links c ps" and index: "cache_index c ps" and hand: "cache_hand c ps" using ok by (simp_all add: cache_ok_def)
  have less: "q \<in> set ps \<Longrightarrow> q < p" for q using links dlist_less unfolding p_def by (auto simp: cache_links_def)
  then have np: "p \<notin> set ps" by blast
  let ?e = "\<lparr>ce_key = k, ce_claims = v, ce_visited = False, ce_prev = None, ce_next = jc_head c\<rparr>"
  define h' where "h' = (case jc_head c of Some q \<Rightarrow> upd_entry q (ce_prev_update (\<lambda>_. Some p)) (jc_heap c @ [?e]) | None \<Rightarrow> jc_heap c @ [?e])"
  have ins: "cache_insert k v c = c\<lparr>jc_heap := h', jc_head := Some p, jc_tail := (case jc_tail c of None \<Rightarrow> Some p | t \<Rightarrow> t),
      jc_items := aput k p (jc_items c)\<rparr>"
    unfolding cache_insert_def Let_def h'_def p_def ..
  have head: "jc_head c = front ps None" and tail: "jc_tail c = rear ps None" using links by (simp_all add: cache_links_def)
  have slot: "slot_of h' q = (if q = p then (k, v, False) else slot_of (jc_heap c) q)" if "q = p \<or> q \<in> set ps" for q
  proof -
    have "slot_of h' q = slot_of (jc_heap c @ [?e]) q" by (simp add: h'_def split: option.split)
    also have "\<dots> = (if q = p then (k, v, False) else slot_of (jc_heap c) q)"
      using that less by (auto simp: slot_of_def p_def nth_append)
    finally show ?thesis .
  qed
  have key: "ce_key (h' ! q) = (if q = p then k else ce_key (entry c q))" if "q = p \<or> q \<in> set ps" for q
    using slot [OF that] by (auto simp: slot_of_def split: if_split_asm)
  have old: "dlist (jc_heap c @ [?e]) None ps None"
    by (rule dlist_links [where h = "jc_heap c"]) (use links in \<open>auto simp: cache_links_def nth_append\<close>)
  have dl: "dlist h' None (p # ps) None"
  proof (cases ps)
    case Nil
    then show ?thesis using head by (simp add: h'_def p_def)
  next
    case (Cons q qs)
    then show ?thesis using head old links less [of q] by (simp add: h'_def cache_links_def nth_upd_entry p_def)
  qed
  have "cache_links (cache_insert k v c) (p # ps)"
    using links dl np by (simp add: ins cache_links_def rear_def)
  moreover have "cache_index (cache_insert k v c) (p # ps)"
  proof -
    have kps: "k \<notin> (\<lambda>q. ce_key (entry c q)) ` set ps" using index_aget [OF index, of k] new by force
    have m: "map (\<lambda>q. ce_key (h' ! q)) ps = map (\<lambda>q. ce_key (entry c q)) ps"
      "map (\<lambda>q. (ce_key (h' ! q), q)) ps = map (\<lambda>q. (ce_key (entry c q), q)) ps"
      using key np by auto
    have "mset (aput k p (jc_items c)) = add_mset (k, p) (mset (map (\<lambda>q. (ce_key (h' ! q), q)) ps))"
      unfolding m mset_aput_new [OF new] using index by (simp add: cache_index_def)
    then show ?thesis using index kps unfolding cache_index_def ins by (simp add: key m)
  qed
  moreover have "cache_hand (cache_insert k v c) (p # ps)" using hand by (auto simp: cache_hand_def ins split: option.split)
  ultimately show "cache_ok (cache_insert k v c) (p # ps)" by (simp add: cache_ok_def)
  have "map_option (\<lambda>q. ce_key (h' ! q)) (jc_hand c) = map_option (\<lambda>q. ce_key (entry c q)) (jc_hand c)"
    using hand key np by (auto simp: cache_hand_def split: option.split_asm)
  then show "sieve_of (cache_insert k v c) (p # ps) = (sieve_of c ps)\<lparr>sv_queue := (k, v, False) # sv_queue (sieve_of c ps)\<rparr>"
    using slot np by (simp add: sieve_of_def ins)
qed

lemma sieve_find_evict:
  "sieve_find (sv_queue (sieve_evict s)) k =
     (if k = fst (sweep_victim slot_visited (sweep_order (\<lambda>x. Some (fst x) = sv_hand s) (sv_queue s))) then None
      else sieve_find (sv_queue s) k)"
proof -
  have "sieve_find (map (\<lambda>x. if fst x \<in> P then (fst x, fst (snd x), False) else x) (filter (\<lambda>x. fst x \<noteq> v) q)) k =
      (if k = v then None else sieve_find q k)" for P v and q :: "'a slot list"
    by (induction q) (auto simp: sieve_find_def)
  then show ?thesis by (simp add: sieve_evict_def Let_def)
qed

lemma cache_put_refines:
  assumes ok: "cache_ok c ps"
  shows "\<exists>c' qs. cache_put k v c = Some c' \<and> cache_ok c' qs \<and> sieve_of c' qs = sieve_put (jc_capacity c) k v (sieve_of c ps) \<and>
    jc_capacity c' = jc_capacity c"
proof (cases "jc_capacity c \<le> 0")
  case True
  then show ?thesis using ok by (auto simp: cache_put_def sieve_put_def)
next
  case False
  have index: "cache_index c ps" using ok by (simp add: cache_ok_def)
  note found = slot_find [OF index, of k] and len = index_wf(2) [OF index]
  show ?thesis
  proof (cases "aget (jc_items c) k")
    case (Some p)
    note t = touch_refines [OF ok Some, where f = "\<lambda>e. e\<lparr>ce_claims := v, ce_visited := True\<rparr>" and g = "\<lambda>_. (v, True)"]
    have "sieve_find (sv_queue (sieve_of c ps)) k \<noteq> None" using found Some by (simp add: sieve_find_def sieve_of_def)
    then show ?thesis using False Some t by (simp add: cache_put_def sieve_put_def) (meson)
  next
    case None
    have nf: "sieve_find (sv_queue (sieve_of c ps)) k = None" using found None by (simp add: sieve_find_def sieve_of_def)
    have cap: "length (sv_queue (sieve_of c ps)) = length (jc_items c)" by (simp add: sieve_of_def len)
    show ?thesis
    proof (cases "int (length (jc_items c)) \<ge> jc_capacity c")
      case True
      then have "ps \<noteq> []" using False len by auto
      then obtain c1 qs where c1: "cache_evict c = Some c1" "cache_ok c1 qs" "sieve_of c1 qs = sieve_evict (sieve_of c ps)"
          "jc_capacity c1 = jc_capacity c" using cache_evict_refines [OF ok] by blast
      have "map_of (sv_queue (sieve_evict (sieve_of c ps))) k = None"
        using nf sieve_find_evict [of "sieve_of c ps" k] by (simp add: sieve_find_def split: if_split_asm)
      moreover have "sv_queue (sieve_evict (sieve_of c ps)) = map (slot_of (jc_heap c1)) qs" unfolding c1(3) [symmetric] by (simp add: sieve_of_def)
      ultimately have "aget (jc_items c1) k = None"
        using slot_find [of c1 qs k] c1(2) by (simp add: cache_ok_def)
      note i = cache_insert_refines [OF c1(2) this, of v]
      have "cache_put k v c = Some (cache_insert k v c1)" using False None True c1(1) by (simp add: cache_put_def)
      moreover have "sieve_of (cache_insert k v c1) (length (jc_heap c1) # qs) = sieve_put (jc_capacity c) k v (sieve_of c ps)"
        using False nf True by (simp add: sieve_put_def i(2) c1(3) cap Let_def)
      moreover have "jc_capacity (cache_insert k v c1) = jc_capacity c" by (simp add: cache_insert_def Let_def c1(4))
      ultimately show ?thesis using i(1) by blast
    next
      case small: False
      note i = cache_insert_refines [OF ok None, of v]
      have "cache_put k v c = Some (cache_insert k v c)" using False None small by (simp add: cache_put_def)
      moreover have "sieve_of (cache_insert k v c) (length (jc_heap c) # ps) = sieve_put (jc_capacity c) k v (sieve_of c ps)"
        using False nf small by (simp add: sieve_put_def i(2) cap Let_def)
      moreover have "jc_capacity (cache_insert k v c) = jc_capacity c" by (simp add: cache_insert_def Let_def)
      ultimately show ?thesis using i(1) by blast
    qed
  qed
qed

definition represents :: "'c jwt_cache \<Rightarrow> 'c sieve \<Rightarrow> bool" where
  "represents c s \<longleftrightarrow> (\<exists>ps. cache_ok c ps \<and> sieve_of c ps = s)"

lemma sieve_find_at: "sieve_find (sieve_at k f q) k' = (if k = k' then map_option (\<lambda>x. fst (f x)) (map_of q k) else sieve_find q k')"
  by (induction q) (auto simp: sieve_find_def sieve_at_def)

lemma sieve_find_Cons: "sieve_find ((k, v, b) # q) k' = (if k = k' then Some v else sieve_find q k')"
  by (simp add: sieve_find_def)

lemma sieve_put_find:
  assumes "0 < cap"
  shows "sieve_find (sv_queue (sieve_put cap k v s)) k = Some v"
    and "k' \<noteq> k \<Longrightarrow> sieve_find (sv_queue (sieve_put cap k v s)) k' \<in> {None, sieve_find (sv_queue s) k'}"
proof -
  show "sieve_find (sv_queue (sieve_put cap k v s)) k = Some v"
    using assms by (auto simp: sieve_put_def sieve_find_at sieve_find_Cons Let_def) (auto simp: sieve_find_def)
  show "sieve_find (sv_queue (sieve_put cap k v s)) k' \<in> {None, sieve_find (sv_queue s) k'}" if "k' \<noteq> k"
  proof (cases "sieve_find (sv_queue s) k = None")
    case True
    have "sieve_find (sv_queue (if cap \<le> int (length (sv_queue s)) then sieve_evict s else s)) k' \<in> {None, sieve_find (sv_queue s) k'}"
      by (simp add: sieve_find_evict)
    then show ?thesis using assms True that by (simp add: sieve_put_def Let_def sieve_find_Cons split: if_split_asm)
  qed (use assms that in \<open>simp add: sieve_put_def sieve_find_at\<close>)
qed

lemma sieve_evict_length:
  assumes "sv_queue s \<noteq> []"
  shows "length (sv_queue (sieve_evict s)) < length (sv_queue s)"
proof -
  let ?o = "sweep_order (\<lambda>x. Some (fst x) = sv_hand s) (sv_queue s)"
  have "sweep_victim slot_visited ?o \<in> set (sv_queue s)"
    using sweep_victim_mem [of ?o slot_visited] sweep_order_set [of _ "sv_queue s"] assms by metis
  then have "length (filter (\<lambda>x. fst x \<noteq> fst (sweep_victim slot_visited ?o)) (sv_queue s)) < length (sv_queue s)"
    by (intro length_filter_less) auto
  then show ?thesis by (simp add: sieve_evict_def Let_def)
qed

lemma sieve_put_length: "int (length (sv_queue s)) \<le> max 0 cap \<Longrightarrow> int (length (sv_queue (sieve_put cap k v s))) \<le> max 0 cap"
  using sieve_evict_length [of s] by (auto simp: sieve_put_def sieve_at_def Let_def)

lemma represents_new: "represents (newJWTCache n) \<lparr>sv_queue = [], sv_hand = None\<rparr>"
  by (auto simp: represents_def newJWTCache_def cache_ok_def cache_links_def cache_index_def cache_hand_def sieve_of_def intro!: exI [of _ "[]"])

lemma represents_get:
  assumes "represents c s"
  shows "fst (cache_get k c) = fst (sieve_get k s)" "represents (snd (cache_get k c)) (snd (sieve_get k s))"
    "jc_capacity (snd (cache_get k c)) = jc_capacity c"
  using assms cache_get_refines [of c _ k] by (auto simp: represents_def)

lemma represents_put:
  assumes "represents c s"
  shows "\<exists>c'. cache_put k v c = Some c' \<and> represents c' (sieve_put (jc_capacity c) k v s) \<and> jc_capacity c' = jc_capacity c"
  using assms cache_put_refines [of c _ k v] by (fastforce simp: represents_def)

text \<open>
  C15. The pointer cache refines the list. A cache whose links, index and hand represent a queue
  answers a get as the list does and represents the list's next state; a put, with the sweep of an
  eviction in it, returns and does the same; the new cache represents the empty queue.
\<close>

theorem jwt_cache_refines_sieve:
  fixes c :: "'c jwt_cache"
  shows "represents (newJWTCache n :: 'c jwt_cache) \<lparr>sv_queue = [], sv_hand = None\<rparr> \<and>
   (represents c s \<longrightarrow>
      fst (cache_get k c) = fst (sieve_get k s) \<and> represents (snd (cache_get k c)) (snd (sieve_get k s)) \<and>
      (\<exists>c'. cache_put k v c = Some c' \<and> represents c' (sieve_put (jc_capacity c) k v s)))"
proof (intro conjI impI)
  assume s: "represents c s"
  show "\<exists>c'. cache_put k v c = Some c' \<and> represents c' (sieve_put (jc_capacity c) k v s)" using represents_put [OF s] by blast
qed (rule represents_new represents_get, assumption?)+

theorem jwt_cache_refines_sieve_witness:
  "\<exists>c'. cache_put ''t'' True (newJWTCache 2) = Some c' \<and> represents c' (sieve_put 2 ''t'' True \<lparr>sv_queue = [], sv_hand = None\<rparr>)"
proof -
  note ref = jwt_cache_refines_sieve [of 2 "newJWTCache 2" "\<lparr>sv_queue = [], sv_hand = None\<rparr>" "''t''" True]
  have "jc_capacity (newJWTCache 2 :: bool jwt_cache) = 2" by (simp add: newJWTCache_def)
  with ref show ?thesis by auto
qed

subsection \<open>The interface of a token cache\<close>

text \<open>
  What the verifier relies on: a get answers from the entries and keeps them; a put returns, and every
  entry after it is the new one or was there before.
\<close>

locale token_cache =
  fixes lookup :: "'s \<Rightarrow> string \<Rightarrow> 'c option"
    and get :: "string \<Rightarrow> 's \<Rightarrow> 'c option \<times> 's"
    and put :: "string \<Rightarrow> 'c \<Rightarrow> 's \<Rightarrow> 's option"
    and inv :: "'s \<Rightarrow> bool"
  assumes get_law: "inv c \<Longrightarrow> fst (get k c) = lookup c k \<and> inv (snd (get k c)) \<and> lookup (snd (get k c)) = lookup c"
    and put_law: "inv c \<Longrightarrow> \<exists>c'. put k v c = Some c' \<and> inv c' \<and>
      (\<forall>k' w. lookup c' k' = Some w \<longrightarrow> k' = k \<and> w = v \<or> lookup c k' = Some w)"
begin

text \<open>A property of all entries, kept when every entry put has it.\<close>

lemma entries_get:
  assumes "inv c" "\<forall>k v. lookup c k = Some v \<longrightarrow> P k v"
  shows "inv (snd (get k c)) \<and> (\<forall>k' v. lookup (snd (get k c)) k' = Some v \<longrightarrow> P k' v) \<and> (\<forall>v. fst (get k c) = Some v \<longrightarrow> P k v)"
  using get_law [OF assms(1), of k] assms(2) by auto

lemma entries_put:
  assumes "inv c" "\<forall>k v. lookup c k = Some v \<longrightarrow> P k v" "P k v"
  shows "\<exists>c'. put k v c = Some c' \<and> inv c' \<and> (\<forall>k' w. lookup c' k' = Some w \<longrightarrow> P k' w)"
  using put_law [OF assms(1), of k v] assms(2,3) by metis

end

definition cache_lookup :: "'c jwt_cache \<Rightarrow> string \<Rightarrow> 'c option" where
  "cache_lookup c k = map_option (\<lambda>p. ce_claims (entry c p)) (aget (jc_items c) k)"

lemma represents_lookup: "represents c s \<Longrightarrow> cache_lookup c = sieve_find (sv_queue s)"
  by (rule ext) (auto simp: represents_def cache_ok_def cache_lookup_def sieve_find_def sieve_of_def slot_find option.map_comp comp_def)

lemma represents_len: "represents c s \<Longrightarrow> cache_len c = length (sv_queue s)"
  by (auto simp: represents_def cache_ok_def cache_len_def sieve_of_def index_wf(2))

interpretation jwt: token_cache cache_lookup cache_get cache_put "\<lambda>c. \<exists>s. represents c s"
proof
  fix c :: "'c jwt_cache" and k v
  assume "\<exists>s. represents c s"
  then obtain s where s: "represents c s" by blast
  have find: "sieve_find (sieve_at k (\<lambda>(v, b). (v, True)) q) = sieve_find q" for q :: "'c slot list"
    by (rule ext) (simp add: sieve_find_at, simp add: sieve_find_def case_prod_beta)
  show "fst (cache_get k c) = cache_lookup c k \<and> (\<exists>s. represents (snd (cache_get k c)) s) \<and> cache_lookup (snd (cache_get k c)) = cache_lookup c"
    using represents_get [OF s, of k] represents_lookup [OF represents_get(2) [OF s, of k]]
    by (auto simp: sieve_get_def find represents_lookup [OF s])
  obtain c' where c': "cache_put k v c = Some c'" "represents c' (sieve_put (jc_capacity c) k v s)" using represents_put [OF s] by blast
  have "k' = k \<and> w = v \<or> cache_lookup c k' = Some w" if w: "cache_lookup c' k' = Some w" for k' w
  proof (cases "0 < jc_capacity c")
    case True
    then show ?thesis
      using w sieve_put_find(1) [OF True, of k v s] sieve_put_find(2) [OF True, of k' k v s]
      unfolding represents_lookup [OF c'(2)] represents_lookup [OF s] by (cases "k' = k") auto
  next
    case False
    then show ?thesis using w c' by (simp add: cache_put_def)
  qed
  then show "\<exists>c'. cache_put k v c = Some c' \<and> (\<exists>s. represents c' s) \<and>
      (\<forall>k' w. cache_lookup c' k' = Some w \<longrightarrow> k' = k \<and> w = v \<or> cache_lookup c k' = Some w)" using c' by blast
qed

subsection \<open>Reachable caches\<close>

inductive cache_reach :: "int \<Rightarrow> 'c jwt_cache \<Rightarrow> bool" for n where
  new: "cache_reach n (newJWTCache n)"
| get: "cache_reach n c \<Longrightarrow> cache_reach n (snd (cache_get k c))"
| put: "cache_reach n c \<Longrightarrow> cache_put k v c = Some c' \<Longrightarrow> cache_reach n c'"

lemma cache_reach_represents:
  "cache_reach n c \<Longrightarrow> jc_capacity c = n \<and> (\<exists>s. represents c s \<and> int (length (sv_queue s)) \<le> max 0 n)"
proof (induction rule: cache_reach.induct)
  case new
  show ?case using represents_new [of n] by (auto simp: newJWTCache_def)
next
  case (get c k)
  then show ?case using represents_get [of c _ k] by (fastforce simp: sieve_get_def sieve_at_def)
next
  case (put c k v c')
  then obtain s where "represents c s" "int (length (sv_queue s)) \<le> max 0 n" "jc_capacity c = n" by blast
  then show ?case using represents_put [of c s k v] put.hyps(2) sieve_put_length by fastforce
qed

text \<open>
  C16. Whatever sequence of calls a cache has seen: it holds no more entries than its capacity, a put
  returns (the sweep of the hand ends), the entry just put is there when the capacity is positive,
  and a put changes or drops other entries but never gives a key claims it was not put with.
\<close>

theorem jwt_cache_reachable:
  assumes "cache_reach n c"
  shows "int (cache_len c) \<le> max 0 n \<and>
    (\<exists>c'. cache_put k v c = Some c' \<and> (0 < n \<longrightarrow> fst (cache_get k c') = Some v) \<and>
       (\<forall>k'. k' \<noteq> k \<longrightarrow> fst (cache_get k' c') \<in> {None, fst (cache_get k' c)}))"
proof -
  obtain s where s: "represents c s" "int (length (sv_queue s)) \<le> max 0 n" and cap: "jc_capacity c = n"
    using cache_reach_represents [OF assms] by blast
  obtain c' where c': "cache_put k v c = Some c'" "represents c' (sieve_put n k v s)" using represents_put [OF s(1)] cap by blast
  have get: "fst (cache_get j c') = sieve_find (sv_queue (sieve_put n k v s)) j" "fst (cache_get j c) = sieve_find (sv_queue s) j" for j
    using represents_get(1) [OF c'(2), of j] represents_get(1) [OF s(1), of j] by (simp_all add: sieve_get_def)
  have "fst (cache_get j c') \<in> {None, fst (cache_get j c)}" if "j \<noteq> k" for j
  proof (cases "0 < n")
    case True
    show ?thesis unfolding get by (rule sieve_put_find(2) [OF True that])
  qed (simp add: get sieve_put_def)
  then show ?thesis using c'(1) s represents_len [OF s(1)] sieve_put_find(1) [of n k v s] get(1) by auto
qed

theorem jwt_cache_reachable_witness:
  "\<exists>c c'. cache_put ''a'' (1 :: nat) (newJWTCache 1) = Some c \<and> cache_put ''b'' 2 c = Some c' \<and> cache_len c \<le> 1 \<and>
     fst (cache_get ''b'' c') = Some 2"
proof -
  have new: "cache_reach 1 (newJWTCache 1 :: nat jwt_cache)" by (rule cache_reach.new)
  obtain c where c: "cache_put ''a'' (1 :: nat) (newJWTCache 1) = Some c" using jwt_cache_reachable [OF new] by blast
  have "cache_reach 1 c" by (rule cache_reach.put [OF new c])
  from jwt_cache_reachable [OF this, of "''b''" 2] show ?thesis using c by auto
qed

end
