(* ===== verification/Auth.thy ===== *)
theory Auth
  imports Auth_Path Jwt_Cache
begin

section \<open>Package auth: keys, claims and identities\<close>

text \<open>
  \<open>src/auth/auth.go\<close> and \<open>src/auth/jwk.go\<close>. The JWT library, the decoding of JSON, base64 and PEM, and
  the check that a point lies on its curve are the fields of \<open>jwt_lib\<close>; an error of the library is
  the list of the sentinel errors it matches. A decoded number is its text, and \<open>lib_seconds\<close> is its
  conversion to an int64. The clock is an argument, in seconds.
\<close>

type_synonym claims = "json go_map"

subsection \<open>Keys\<close>

datatype ver_key_data = KeyHMAC string | KeyRSA int int | KeyECDSA string int int

record ver_key =
  vk_kid :: string
  vk_alg :: string
  vk_key :: ver_key_data

record jwk =
  jwk_kty :: string
  jwk_kid :: string
  jwk_alg :: string
  jwk_k :: string
  jwk_n :: string
  jwk_e :: string
  jwk_crv :: string
  jwk_x :: string
  jwk_y :: string

datatype sign_family = FamHMAC | FamRSA | FamRSAPSS | FamECDSA | FamOther

datatype jwt_sentinel =
    ErrTokenExpired | ErrTokenNotValidYet | ErrTokenUsedBeforeIssued | ErrTokenInvalidAudience
  | ErrTokenInvalidClaims | ErrTokenSignatureInvalid | ErrTokenUnverifiable | ErrTokenMalformed

record jwt_lib =
  lib_header_alg :: "string \<Rightarrow> string option"
  lib_known_alg :: "string \<Rightarrow> bool"
  lib_parse :: "string list \<Rightarrow> (string \<Rightarrow> string \<Rightarrow> sign_family \<Rightarrow> string + ver_key_data list) \<Rightarrow> string \<Rightarrow> jwt_sentinel list + claims"
  lib_seconds :: "string \<Rightarrow> int"
  lib_jwk_set :: "string \<Rightarrow> string list option"
  lib_jwk :: "string \<Rightarrow> jwk option"
  lib_base64url :: "string \<Rightarrow> string option"
  lib_on_curve :: "string \<Rightarrow> int \<Rightarrow> int \<Rightarrow> bool"
  lib_pem :: "string \<Rightarrow> string option"
  lib_pkix :: "string \<Rightarrow> ver_key_data option option"

definition b64urlDecode :: "jwt_lib \<Rightarrow> string \<Rightarrow> string option" where
  "b64urlDecode lib s = lib_base64url lib (rev (dropWhile (\<lambda>c. c = CHR ''='') (rev s)))"

definition big_int :: "string \<Rightarrow> int" where
  "big_int bs = fold (\<lambda>c n. 256 * n + of_char c) bs 0"

definition int64_of :: "int \<Rightarrow> int" where
  "int64_of n = (n + 2 ^ 63) mod 2 ^ 64 - 2 ^ 63"

definition key_bytes :: "jwt_lib \<Rightarrow> string \<Rightarrow> string \<Rightarrow> string + string" where
  "key_bytes lib what s =
     (case b64urlDecode lib s of Some b \<Rightarrow> (if b = [] then Inl what else Inr b) | None \<Rightarrow> Inl what)"

definition toKey :: "jwt_lib \<Rightarrow> jwk \<Rightarrow> string + ver_key" where
  "toKey lib w =
     (let made = (\<lambda>k. \<lparr>vk_kid = jwk_kid w, vk_alg = jwk_alg w, vk_key = k\<rparr>) in
      if jwk_kty w = ''oct'' then bindr (key_bytes lib ''oct key: bad k value'' (jwk_k w)) (\<lambda>k. Inr (made (KeyHMAC k)))
      else if jwk_kty w = ''RSA'' then
        bindr (key_bytes lib ''RSA key: bad n value'' (jwk_n w)) (\<lambda>n.
        bindr (key_bytes lib ''RSA key: bad e value'' (jwk_e w)) (\<lambda>e.
          Inr (made (KeyRSA (big_int n) (int64_of (big_int e))))))
      else if jwk_kty w = ''EC'' then
        (if jwk_crv w \<notin> {''P-256'', ''P-384'', ''P-521''} then Inl (''EC key: unsupported curve '' @ go_quote (jwk_crv w))
         else bindr (key_bytes lib ''EC key: bad x value'' (jwk_x w)) (\<lambda>x.
           bindr (key_bytes lib ''EC key: bad y value'' (jwk_y w)) (\<lambda>y.
             if lib_on_curve lib (jwk_crv w) (big_int x) (big_int y)
             then Inr (made (KeyECDSA (jwk_crv w) (big_int x) (big_int y)))
             else Inl ''EC key: point not on curve'')))
      else Inl (''unsupported key type '' @ go_quote (jwk_kty w)))"

definition right_of :: "'e + 'a \<Rightarrow> 'a option" where
  "right_of r = (case r of Inl e \<Rightarrow> None | Inr x \<Rightarrow> Some x)"

definition tryJWK :: "jwt_lib \<Rightarrow> string \<Rightarrow> ver_key option" where
  "tryJWK lib b = Option.bind (lib_jwk lib b) (\<lambda>w. right_of (toKey lib w))"

definition tryJWKSet :: "jwt_lib \<Rightarrow> string \<Rightarrow> ver_key list option" where
  "tryJWKSet lib b = Option.bind (lib_jwk_set lib b) (\<lambda>raws. those (map (tryJWK lib) raws))"

definition minHMACSecret :: nat where
  "minHMACSecret = 32"

definition parseSecretKeys :: "jwt_lib \<Rightarrow> string \<Rightarrow> string + ver_key list" where
  "parseSecretKeys lib secret =
     (case tryJWKSet lib secret of
        Some keys \<Rightarrow> Inr keys
      | None \<Rightarrow>
          (case tryJWK lib secret of
             Some key \<Rightarrow> Inr [key]
           | None \<Rightarrow>
               if length secret < minHMACSecret then Inl ''jwt-secret must be at least 32 characters''
               else Inr [\<lparr>vk_kid = [], vk_alg = [], vk_key = KeyHMAC secret\<rparr>]))"

definition parseJWKSet :: "jwt_lib \<Rightarrow> string \<Rightarrow> string + ver_key list" where
  "parseJWKSet lib b =
     (case tryJWKSet lib b of
        Some keys \<Rightarrow> Inr keys
      | None \<Rightarrow> (case tryJWK lib b of Some key \<Rightarrow> Inr [key] | None \<Rightarrow> Inl ''not a valid JWK or JWK Set''))"

definition loadPublicKey :: "jwt_lib \<Rightarrow> string \<Rightarrow> string + ver_key" where
  "loadPublicKey lib pemText =
     (case lib_pem lib pemText of
        None \<Rightarrow> Inl ''jwt public key is not valid PEM''
      | Some block \<Rightarrow>
          (case lib_pkix lib block of
             None \<Rightarrow> Inl ''jwt public key is not a valid PKIX key''
           | Some (Some (KeyRSA n e)) \<Rightarrow> Inr \<lparr>vk_kid = [], vk_alg = [], vk_key = KeyRSA n e\<rparr>
           | Some (Some (KeyECDSA c x y)) \<Rightarrow> Inr \<lparr>vk_kid = [], vk_alg = [], vk_key = KeyECDSA c x y\<rparr>
           | _ \<Rightarrow> Inl ''jwt public key is neither RSA nor ECDSA''))"

text \<open>The secret marked as base64; the standard decoder is the argument \<open>std\<close>.\<close>

definition DecodeBase64Secret :: "(string \<Rightarrow> string option) \<Rightarrow> string \<Rightarrow> string option" where
  "DecodeBase64Secret std s =
     std (trim_space (map (\<lambda>c. if c = CHR ''_'' then CHR ''/'' else if c = CHR ''-'' then CHR ''+''
                             else if c = CHR ''.'' then CHR ''='' else c) s))"

subsection \<open>The verifier\<close>

record auth_config =
  ac_AllowedAlgs :: "string list"
  ac_Secret :: string
  ac_JWKSet :: string
  ac_PublicKeyPEM :: string
  ac_Audience :: string
  ac_RoleClaimKey :: string
  ac_AnonRole :: string
  ac_PermittedRoles :: "string list"
  ac_Skew :: int
  ac_CacheMaxEntries :: int

record verifier =
  vf_validMethods :: "string list"
  vf_keys :: "ver_key list"
  vf_audience :: string
  vf_roleKeyPath :: "js_path_exp list"
  vf_anonRole :: string
  vf_permitted :: "string list"
  vf_skew :: int

definition vf_hasKeys :: "verifier \<Rightarrow> bool" where
  "vf_hasKeys v \<longleftrightarrow> vf_keys v \<noteq> []"

record auth_result =
  ar_Role :: string
  ar_Claims :: "claims option"
  ar_Anonymous :: bool

definition defaultSkew :: int where
  "defaultSkew = 30 * 1000000000"

definition key_methods :: "ver_key_data list \<Rightarrow> string list" where
  "key_methods ks =
     (if list_ex (\<lambda>k. case k of KeyHMAC _ \<Rightarrow> True | _ \<Rightarrow> False) ks then [''HS256'', ''HS384'', ''HS512''] else []) @
     (if list_ex (\<lambda>k. case k of KeyRSA _ _ \<Rightarrow> True | _ \<Rightarrow> False) ks
      then [''RS256'', ''RS384'', ''RS512'', ''PS256'', ''PS384'', ''PS512''] else []) @
     (if list_ex (\<lambda>k. case k of KeyECDSA _ _ _ \<Rightarrow> True | _ \<Rightarrow> False) ks then [''ES256'', ''ES384'', ''ES512''] else [])"

definition resolveMethods :: "ver_key list \<Rightarrow> string list \<Rightarrow> string + string list" where
  "resolveMethods keys allowed =
     (if allowed \<noteq> [] then
        (if list_ex (\<lambda>a. equal_fold a ''none'') allowed then Inl ''the none algorithm is not accepted'' else Inr allowed)
      else Inr (key_methods (map vk_key keys)))"

definition NewVerifier :: "jwt_lib \<Rightarrow> auth_config \<Rightarrow> string + verifier \<times> claims jwt_cache option" where
  "NewVerifier lib cfg =
     bindr (parseJSPath (ac_RoleClaimKey cfg)) (\<lambda>path.
     bindr (if ac_Secret cfg \<noteq> [] then parseSecretKeys lib (ac_Secret cfg) else Inr []) (\<lambda>ks1.
     bindr (if ac_JWKSet cfg \<noteq> [] then map_sum (\<lambda>e. ''jwk-set: '' @ e) id (parseJWKSet lib (ac_JWKSet cfg)) else Inr []) (\<lambda>ks2.
     bindr (if ac_PublicKeyPEM cfg \<noteq> [] then map_sum id (\<lambda>k. [k]) (loadPublicKey lib (ac_PublicKeyPEM cfg)) else Inr []) (\<lambda>ks3.
     bindr (resolveMethods (ks1 @ ks2 @ ks3) (ac_AllowedAlgs cfg)) (\<lambda>methods.
       Inr (\<lparr>vf_validMethods = methods, vf_keys = ks1 @ ks2 @ ks3, vf_audience = ac_Audience cfg, vf_roleKeyPath = path,
             vf_anonRole = ac_AnonRole cfg, vf_permitted = ac_PermittedRoles cfg,
             vf_skew = (if ac_Skew cfg = 0 then defaultSkew else ac_Skew cfg)\<rparr>,
            if ac_CacheMaxEntries cfg > 0 then Some (newJWTCache (ac_CacheMaxEntries cfg)) else None))))))"

subsection \<open>Bearer tokens and signatures\<close>

definition bearer_space :: "char \<Rightarrow> bool" where
  "bearer_space c \<longleftrightarrow> c = CHR '' '' \<or> c = CHR 0x09"

definition bearer :: "string \<Rightarrow> string option" where
  "bearer header =
     (let scheme = takeWhile (\<lambda>c. \<not> bearer_space c) header; rest = drop (length scheme + 1) header in
      if \<not> equal_fold scheme ''bearer'' then None else Some (dropWhile bearer_space rest))"

definition checkAlg :: "jwt_lib \<Rightarrow> verifier \<Rightarrow> string \<Rightarrow> api_error option" where
  "checkAlg lib v raw =
     (case lib_header_alg lib (takeWhile (\<lambda>c. c \<noteq> CHR ''.'') raw) of
        None \<Rightarrow> Some (ErrJWTDecode ''JWT cryptographic operation failed'')
      | Some alg \<Rightarrow>
          if equal_fold alg ''none'' then
            Some (WithDetails (ErrJWTDecode ''Wrong or unsupported encoding algorithm'')
              (''JWT is unsecured but expected '' @ [CHR 0x27] @ ''alg'' @ [CHR 0x27] @ '' was not '' @ [CHR 0x27] @ ''none'' @ [CHR 0x27]))
          else if \<not> lib_known_alg lib alg then Some (ErrJWTDecode ''JWT cryptographic operation failed'')
          else if alg \<in> set (vf_validMethods v) then None
          else Some (WithDetails (ErrJWTDecode ''No suitable key or wrong key type'') ''No suitable key was found to decode the JWT''))"

definition methodMatchesKey :: "sign_family \<Rightarrow> ver_key_data \<Rightarrow> bool" where
  "methodMatchesKey fam k =
     (case fam of
        FamHMAC \<Rightarrow> (case k of KeyHMAC _ \<Rightarrow> True | _ \<Rightarrow> False)
      | FamRSA \<Rightarrow> (case k of KeyRSA _ _ \<Rightarrow> True | _ \<Rightarrow> False)
      | FamRSAPSS \<Rightarrow> (case k of KeyRSA _ _ \<Rightarrow> True | _ \<Rightarrow> False)
      | FamECDSA \<Rightarrow> (case k of KeyECDSA _ _ _ \<Rightarrow> True | _ \<Rightarrow> False)
      | FamOther \<Rightarrow> False)"

definition keyfunc :: "verifier \<Rightarrow> string \<Rightarrow> string \<Rightarrow> sign_family \<Rightarrow> string + ver_key_data list" where
  "keyfunc v kid alg fam =
     (let ks = map vk_key (filter (\<lambda>k. (kid = [] \<or> vk_kid k = kid) \<and> (vk_alg k = [] \<or> vk_alg k = alg) \<and> methodMatchesKey fam (vk_key k)) (vf_keys v))
      in if ks = [] then Inl ''no suitable key was found to decode the JWT'' else Inr ks)"

definition mapJWTError :: "jwt_sentinel list \<Rightarrow> api_error" where
  "mapJWTError err =
     (if ErrTokenExpired \<in> set err then ErrJWTClaims ''JWT expired''
      else if ErrTokenNotValidYet \<in> set err then ErrJWTClaims ''JWT not yet valid''
      else if ErrTokenUsedBeforeIssued \<in> set err then ErrJWTClaims ''JWT issued at future''
      else if ErrTokenInvalidAudience \<in> set err then ErrJWTClaims ''JWT not in audience''
      else if ErrTokenInvalidClaims \<in> set err then ErrJWTClaims ''Parsing claims failed''
      else if ErrTokenSignatureInvalid \<in> set err then
        WithDetails (ErrJWTDecode ''No suitable key or wrong key type'') ''None of the keys was able to decode the JWT''
      else if ErrTokenUnverifiable \<in> set err then
        WithDetails (ErrJWTDecode ''No suitable key or wrong key type'') ''No suitable key was found to decode the JWT''
      else ErrJWTDecode ''JWT cryptographic operation failed'')"

subsection \<open>Claims\<close>

definition presentClaim :: "claims \<Rightarrow> string \<Rightarrow> json option" where
  "presentClaim cs name = (case aget cs name of Some JNull \<Rightarrow> None | z \<Rightarrow> z)"

definition claimNumber :: "jwt_lib \<Rightarrow> json \<Rightarrow> int option" where
  "claimNumber lib val = (case val of JNumber t \<Rightarrow> Some (lib_seconds lib t) | _ \<Rightarrow> None)"

definition claim_type_error :: "string \<Rightarrow> string \<Rightarrow> api_error" where
  "claim_type_error name what = ErrJWTClaims (''The JWT '' @ [CHR 0x27] @ name @ [CHR 0x27] @ '' claim must be '' @ what)"

text \<open>One of the three time checks of \<open>validateClaims\<close>.\<close>

definition time_claim :: "jwt_lib \<Rightarrow> claims \<Rightarrow> string \<Rightarrow> (int \<Rightarrow> bool) \<Rightarrow> string \<Rightarrow> api_error option" where
  "time_claim lib cs name bad msg =
     (case presentClaim cs name of
        None \<Rightarrow> None
      | Some val \<Rightarrow>
          (case claimNumber lib val of
             None \<Rightarrow> Some (claim_type_error name ''a number'')
           | Some n \<Rightarrow> if bad n then Some (ErrJWTClaims msg) else None))"

definition audMatches :: "verifier \<Rightarrow> string \<Rightarrow> bool" where
  "audMatches v aud \<longleftrightarrow> vf_audience v = [] \<or> vf_audience v = aud"

definition aud_elem :: "verifier \<Rightarrow> json \<Rightarrow> bool option" where
  "aud_elem v el = (case el of JString s \<Rightarrow> Some (audMatches v s) | _ \<Rightarrow> None)"

definition checkAud :: "verifier \<Rightarrow> json \<Rightarrow> api_error option" where
  "checkAud v val =
     (case val of
        JString aud \<Rightarrow> if audMatches v aud then None else Some (ErrJWTClaims ''JWT not in audience'')
      | JArray els \<Rightarrow>
          (case those (map (aud_elem v) els) of
             None \<Rightarrow> Some (claim_type_error ''aud'' ''a string or an array of strings'')
           | Some ms \<Rightarrow> if ms = [] \<or> True \<in> set ms then None else Some (ErrJWTClaims ''JWT not in audience''))
      | _ \<Rightarrow> Some (claim_type_error ''aud'' ''a string or an array of strings''))"

definition skew_seconds :: "verifier \<Rightarrow> int" where
  "skew_seconds v = (if vf_skew v \<ge> 0 then vf_skew v div 1000000000 else - ((- vf_skew v) div 1000000000))"

definition or_else :: "'e option \<Rightarrow> 'e option \<Rightarrow> 'e option" where
  "or_else x y = (case x of None \<Rightarrow> y | Some e \<Rightarrow> Some e)"

definition validateClaims :: "jwt_lib \<Rightarrow> verifier \<Rightarrow> int \<Rightarrow> claims \<Rightarrow> api_error option" where
  "validateClaims lib v now cs =
     (let skew = skew_seconds v in
      or_else (time_claim lib cs ''exp'' (\<lambda>n. now - skew > n) ''JWT expired'')
     (or_else (time_claim lib cs ''nbf'' (\<lambda>n. now + skew < n) ''JWT not yet valid'')
     (or_else (time_claim lib cs ''iat'' (\<lambda>n. now + skew < n) ''JWT issued at future'')
       (case presentClaim cs ''aud'' of None \<Rightarrow> None | Some val \<Rightarrow> checkAud v val))))"

definition verify :: "jwt_lib \<Rightarrow> verifier \<Rightarrow> int \<Rightarrow> string \<Rightarrow> api_error + claims" where
  "verify lib v now raw =
     (let n = length (filter (\<lambda>c. c = CHR ''.'') raw) + 1 in
      if n \<noteq> 3 then Inl (ErrJWTDecode (''Expected 3 parts in JWT; got '' @ show_nat n))
      else case checkAlg lib v raw of
        Some e \<Rightarrow> Inl e
      | None \<Rightarrow>
          (case lib_parse lib (vf_validMethods v) (keyfunc v) raw of
             Inl err \<Rightarrow> Inl (mapJWTError err)
           | Inr cs \<Rightarrow> (case validateClaims lib v now cs of Some e \<Rightarrow> Inl e | None \<Rightarrow> Inr cs)))"

subsection \<open>Identities\<close>

definition unquoted :: "json \<Rightarrow> string" where
  "unquoted val = (case val of JString s \<Rightarrow> s | _ \<Rightarrow> json_marshal val)"

definition roleFromClaims :: "claims \<Rightarrow> js_path_exp list \<Rightarrow> string option" where
  "roleFromClaims cs path = map_option unquoted (walkJSPath (JObject cs) path)"

definition checkPermitted :: "verifier \<Rightarrow> string \<Rightarrow> api_error option" where
  "checkPermitted v role =
     (if role = vf_anonRole v \<or> vf_permitted v = [] \<or> role \<in> set (vf_permitted v) then None else Some (ErrRoleNotAllowed role))"

definition resolve :: "verifier \<Rightarrow> claims \<Rightarrow> api_error + auth_result" where
  "resolve v cs =
     bindr (case roleFromClaims cs (vf_roleKeyPath v) of
              Some role \<Rightarrow> Inr role
            | None \<Rightarrow> if vf_anonRole v = [] then Inl ErrJWTRequired else Inr (vf_anonRole v)) (\<lambda>role.
       case checkPermitted v role of
         Some e \<Rightarrow> Inl e
       | None \<Rightarrow> Inr \<lparr>ar_Role = role, ar_Claims = Some cs, ar_Anonymous = False\<rparr>)"

definition anon :: "verifier \<Rightarrow> api_error + auth_result" where
  "anon v =
     (if vf_anonRole v = [] then Inl ErrJWTRequired
      else Inr \<lparr>ar_Role = vf_anonRole v, ar_Claims = None, ar_Anonymous = True\<rparr>)"

text \<open>
  \<open>Authenticate\<close> with the cache it finds and the one it leaves; \<open>None\<close> would be an eviction that does
  not end.
\<close>

definition Authenticate ::
  "jwt_lib \<Rightarrow> verifier \<Rightarrow> int \<Rightarrow> string \<Rightarrow> claims jwt_cache option \<Rightarrow> ((api_error + auth_result) \<times> claims jwt_cache option) option" where
  "Authenticate lib v now authHeader cache =
     (case bearer authHeader of
        None \<Rightarrow> Some (anon v, cache)
      | Some raw \<Rightarrow>
          if raw = [] then Some (Inl (ErrJWTDecode ''Empty JWT is sent in Authorization header''), cache)
          else if \<not> vf_hasKeys v then Some (Inl ErrJWTSecretMissing, cache)
          else case cache of
            None \<Rightarrow> Some (bindr (verify lib v now raw) (resolve v), None)
          | Some c \<Rightarrow>
              (case cache_get raw c of
                 (Some cs, c') \<Rightarrow>
                   Some (case validateClaims lib v now cs of Some e \<Rightarrow> Inl e | None \<Rightarrow> resolve v cs, Some c')
               | (None, c') \<Rightarrow>
                   (case verify lib v now raw of
                      Inl e \<Rightarrow> Some (Inl e, Some c')
                    | Inr cs \<Rightarrow> map_option (\<lambda>c''. (resolve v cs, Some c'')) (cache_put raw cs c'))))"

subsection \<open>The cache does not change an answer\<close>

text \<open>What of \<open>verify\<close> does not depend on the clock.\<close>

definition decodes :: "jwt_lib \<Rightarrow> verifier \<Rightarrow> string \<Rightarrow> claims \<Rightarrow> bool" where
  "decodes lib v raw cs \<longleftrightarrow> length (filter (\<lambda>c. c = CHR ''.'') raw) + 1 = 3 \<and> checkAlg lib v raw = None \<and>
     lib_parse lib (vf_validMethods v) (keyfunc v) raw = Inr cs"

lemma verify_decodes:
  "decodes lib v raw cs \<Longrightarrow> verify lib v now raw = (case validateClaims lib v now cs of Some e \<Rightarrow> Inl e | None \<Rightarrow> Inr cs)"
  by (simp add: decodes_def verify_def)

lemma verify_InrD: "verify lib v now raw = Inr cs \<Longrightarrow> decodes lib v raw cs \<and> validateClaims lib v now cs = None"
  by (auto simp: verify_def decodes_def Let_def split: if_split_asm option.split_asm sum.split_asm)

definition sound_cache :: "jwt_lib \<Rightarrow> verifier \<Rightarrow> claims jwt_cache \<Rightarrow> bool" where
  "sound_cache lib v c \<longleftrightarrow> (\<exists>s. represents c s) \<and> (\<forall>raw cs. cache_lookup c raw = Some cs \<longrightarrow> decodes lib v raw cs)"

lemma sound_new: "sound_cache lib v (newJWTCache n)"
  unfolding sound_cache_def using represents_new [of n] by (auto simp: cache_lookup_def newJWTCache_def)

lemma Authenticate_cached:
  assumes "sound_cache lib v c"
  shows "\<exists>r c'. Authenticate lib v now h (Some c) = Some (r, Some c') \<and> sound_cache lib v c' \<and>
    Authenticate lib v now h None = Some (r, None)"
proof (cases "bearer h")
  case (Some raw)
  have inv: "\<exists>s. represents c s" and all: "\<forall>k cs. cache_lookup c k = Some cs \<longrightarrow> decodes lib v k cs"
    using assms by (simp_all add: sound_cache_def)
  obtain hit c1 where g: "cache_get raw c = (hit, c1)" by fastforce
  note got = jwt.entries_get [where P = "decodes lib v", OF inv all, of raw, unfolded g, simplified]
  have c1: "sound_cache lib v c1" using got by (simp add: sound_cache_def)
  show ?thesis
  proof (cases hit)
    case None
    show ?thesis
    proof (cases "verify lib v now raw")
      case (Inl e)
      then show ?thesis using Some None g c1 assms by (auto simp: Authenticate_def bindr_def)
    next
      case (Inr cs)
      obtain c2 where "cache_put raw cs c1 = Some c2" "sound_cache lib v c2"
        using jwt.entries_put [where P = "decodes lib v" and k = raw and v = cs, of c1] c1 verify_InrD [OF Inr] by (auto simp: sound_cache_def)
      then show ?thesis using Some None g Inr assms by (auto simp: Authenticate_def bindr_def)
    qed
  next
    case hit: (Some cs)
    have "verify lib v now raw = (case validateClaims lib v now cs of Some e \<Rightarrow> Inl e | None \<Rightarrow> Inr cs)"
      by (rule verify_decodes) (use got hit in blast)
    then show ?thesis using Some hit g c1 assms by (auto simp: Authenticate_def bindr_def split: option.split)
  qed
qed (use assms in \<open>simp add: Authenticate_def\<close>)

text \<open>
  The caches a verifier meets: none (the cache is off), a fresh one of any capacity, and whatever an earlier request,
  at any time, left behind.
\<close>

inductive reached_cache :: "jwt_lib \<Rightarrow> verifier \<Rightarrow> claims jwt_cache option \<Rightarrow> bool" for lib v where
  off: "reached_cache lib v None"
| fresh: "reached_cache lib v (Some (newJWTCache n))"
| after: "reached_cache lib v cache \<Longrightarrow> Authenticate lib v now h cache = Some (r, cache') \<Longrightarrow> reached_cache lib v cache'"

lemma Authenticate_uncached: "Authenticate lib v now h None = Some (r, cache) \<Longrightarrow> cache = None"
  by (auto simp: Authenticate_def split: option.split_asm if_split_asm)

lemma reached_cache_sound: "reached_cache lib v cache \<Longrightarrow> cache = None \<or> (\<exists>c. cache = Some c \<and> sound_cache lib v c)"
proof (induction rule: reached_cache.induct)
  case (fresh n)
  then show ?case using sound_new by blast
next
  case (after cache now h r cache')
  from after.IH show ?case
  proof (elim disjE exE conjE)
    fix c
    assume "cache = Some c" "sound_cache lib v c"
    then show ?thesis using Authenticate_cached [of lib v c now h] after.hyps(2) by auto
  qed (use after.hyps(2) Authenticate_uncached in blast)
qed simp

lemma Authenticate_any_cache:
  assumes "reached_cache lib v cache" and "Authenticate lib v now h cache = Some (r, cache')"
  shows "Authenticate lib v now h None = Some (r, None)"
  using reached_cache_sound [OF assms(1)]
proof (elim disjE exE conjE)
  fix c
  assume "cache = Some c" "sound_cache lib v c"
  then show ?thesis using Authenticate_cached [of lib v c now h] assms(2) by auto
qed (use assms(2) Authenticate_uncached in blast)

fun serve :: "jwt_lib \<Rightarrow> verifier \<Rightarrow> (int \<times> string) list \<Rightarrow> claims jwt_cache option \<Rightarrow> (api_error + auth_result) list option" where
  "serve lib v [] cache = Some []"
| "serve lib v ((now, h) # rs) cache =
     (case Authenticate lib v now h cache of None \<Rightarrow> None | Some (r, cache') \<Rightarrow> map_option ((#) r) (serve lib v rs cache'))"

lemma serve_cached:
  "sound_cache lib v c \<Longrightarrow> serve lib v rs (Some c) = serve lib v rs None \<and> serve lib v rs None \<noteq> None"
proof (induction rs arbitrary: c)
  case (Cons x rs)
  obtain now h where x: "x = (now, h)" by fastforce
  obtain r c' where "Authenticate lib v now h (Some c) = Some (r, Some c')" "sound_cache lib v c'" "Authenticate lib v now h None = Some (r, None)"
    using Authenticate_cached [OF Cons.prems] by blast
  then show ?case using Cons.IH by (auto simp: x)
qed simp

text \<open>
  C14. The cache of verified tokens is invisible. Over any sequence of requests, at any times of the
  clock, forward or backward, a verifier with a cache of any capacity gives the answers of one without:
  no token outlives its claims, and every request is answered.
\<close>

theorem token_cache_transparent:
  "serve lib v requests (Some (newJWTCache n)) = serve lib v requests None \<and> serve lib v requests None \<noteq> None"
  by (rule serve_cached) (rule sound_new)

subsection \<open>What an identity rests on\<close>

lemma or_else_None: "or_else x y = None \<longleftrightarrow> x = None \<and> y = None"
  by (simp add: or_else_def split: option.split)

lemma time_claim_None:
  "time_claim lib cs name bad msg = None \<longleftrightarrow> (\<forall>val. presentClaim cs name = Some val \<longrightarrow> (\<exists>t. val = JNumber t \<and> \<not> bad (lib_seconds lib t)))"
  by (auto simp: time_claim_def claimNumber_def split: option.split json.split)

lemma those_map_Some: "those (map f xs) = Some ys \<longleftrightarrow> map f xs = map Some ys"
proof (induction xs arbitrary: ys)
  case (Cons a xs)
  show ?case by (cases ys; cases "f a") (auto simp: Cons.IH)
qed auto

definition audience_ok :: "verifier \<Rightarrow> json \<Rightarrow> bool" where
  "audience_ok v val \<longleftrightarrow> (\<exists>s. val = JString s \<and> audMatches v s) \<or>
     (\<exists>ss. val = JArray (map JString ss) \<and> (ss = [] \<or> (\<exists>s \<in> set ss. audMatches v s)))"

lemma aud_elems: "those (map (aud_elem v) els) = Some ms \<longleftrightarrow> (\<exists>ss. els = map JString ss \<and> ms = map (audMatches v) ss)"
proof (induction els arbitrary: ms)
  case (Cons el els)
  have el: "aud_elem v el = Some m \<longleftrightarrow> (\<exists>s. el = JString s \<and> m = audMatches v s)" for m
    by (cases el) (auto simp: aud_elem_def)
  have "(those (map (aud_elem v) (el # els)) = Some ms) = (\<exists>m ms'. aud_elem v el = Some m \<and> those (map (aud_elem v) els) = Some ms' \<and> ms = m # ms')"
    by (auto split: option.split)
  also have "\<dots> = (\<exists>ss. el # els = map JString ss \<and> ms = map (audMatches v) ss)"
    unfolding el Cons.IH by (auto simp: Cons_eq_map_conv) blast
  finally show ?case .
qed auto

lemma checkAud_None: "checkAud v val = None \<longleftrightarrow> audience_ok v val"
proof (cases val)
  case (JArray els)
  show ?thesis
  proof (cases "those (map (aud_elem v) els)")
    case None
    then have "\<nexists>ss. els = map JString ss" using aud_elems [of v els] by fastforce
    then show ?thesis using JArray None by (simp add: checkAud_def audience_ok_def)
  next
    case (Some ms)
    then obtain ss where ss: "els = map JString ss" "ms = map (audMatches v) ss" unfolding aud_elems by blast
    have "map JString ss = map JString ss' \<longleftrightarrow> ss' = ss" for ss' by (auto dest!: map_injective intro: injI)
    then show ?thesis using JArray Some ss by (auto simp: checkAud_def audience_ok_def image_iff)
  qed
qed (auto simp: checkAud_def audience_ok_def)

text \<open>
  The claims the clock and the configuration admit: exp, nbf and iat are absent or numbers within the skew of the
  clock, and an audience is the configured one.
\<close>

definition claims_admitted :: "jwt_lib \<Rightarrow> verifier \<Rightarrow> int \<Rightarrow> claims \<Rightarrow> bool" where
  "claims_admitted lib v now cs \<longleftrightarrow>
     (\<forall>val. presentClaim cs ''exp'' = Some val \<longrightarrow> (\<exists>t. val = JNumber t \<and> now - skew_seconds v \<le> lib_seconds lib t)) \<and>
     (\<forall>val. presentClaim cs ''nbf'' = Some val \<longrightarrow> (\<exists>t. val = JNumber t \<and> lib_seconds lib t \<le> now + skew_seconds v)) \<and>
     (\<forall>val. presentClaim cs ''iat'' = Some val \<longrightarrow> (\<exists>t. val = JNumber t \<and> lib_seconds lib t \<le> now + skew_seconds v)) \<and>
     (\<forall>val. presentClaim cs ''aud'' = Some val \<longrightarrow> audience_ok v val)"

lemma validateClaims_None: "validateClaims lib v now cs = None \<longleftrightarrow> claims_admitted lib v now cs"
  by (simp add: validateClaims_def Let_def or_else_None time_claim_None claims_admitted_def not_less checkAud_None split: option.split)

lemma resolve_Inr:
  "resolve v cs = Inr r \<longleftrightarrow>
     r = \<lparr>ar_Role = ar_Role r, ar_Claims = Some cs, ar_Anonymous = False\<rparr> \<and> checkPermitted v (ar_Role r) = None \<and>
     (case roleFromClaims cs (vf_roleKeyPath v) of Some role \<Rightarrow> ar_Role r = role | None \<Rightarrow> vf_anonRole v \<noteq> [] \<and> ar_Role r = vf_anonRole v)"
  by (cases r) (auto simp: resolve_def bindr_def split: option.split)

definition pinned_alg :: "jwt_lib \<Rightarrow> verifier \<Rightarrow> string \<Rightarrow> bool" where
  "pinned_alg lib v raw \<longleftrightarrow> (\<exists>alg. lib_header_alg lib (takeWhile (\<lambda>c. c \<noteq> CHR ''.'') raw) = Some alg \<and>
     \<not> equal_fold alg ''none'' \<and> lib_known_alg lib alg \<and> alg \<in> set (vf_validMethods v))"

lemma checkAlg_None: "checkAlg lib v raw = None \<longleftrightarrow> pinned_alg lib v raw"
  by (auto simp: checkAlg_def pinned_alg_def split: option.split)

text \<open>
  C13. An identity is only given for a reason, also where the token comes from the cache of any earlier requests. An
  anonymous one is the configured anonymous role, and only for a request without a bearer token. Any other rests on a
  token of three parts whose algorithm is one of the pinned ones and not none, which the library verified with the
  verifier's keys, whose exp, nbf and iat are absent or numbers the clock admits within the skew at the moment of this
  request, and whose audience matches; the role is the one its claims name, or the anonymous role when they name none,
  and is the anonymous role or permitted.
\<close>

theorem authenticated_token_valid:
  assumes "reached_cache lib v cache" and "Authenticate lib v now h cache = Some (Inr r, cache')"
  shows "if ar_Anonymous r then bearer h = None \<and> ar_Role r = vf_anonRole v \<and> vf_anonRole v \<noteq> []
    else \<exists>raw cs alg. bearer h = Some raw \<and> length (filter (\<lambda>c. c = CHR ''.'') raw) = 2 \<and> ar_Claims r = Some cs \<and>
      lib_header_alg lib (takeWhile (\<lambda>c. c \<noteq> CHR ''.'') raw) = Some alg \<and> \<not> equal_fold alg ''none'' \<and> alg \<in> set (vf_validMethods v) \<and>
      lib_parse lib (vf_validMethods v) (keyfunc v) raw = Inr cs \<and>
      (\<forall>val. presentClaim cs ''exp'' = Some val \<longrightarrow> (\<exists>t. val = JNumber t \<and> now - skew_seconds v \<le> lib_seconds lib t)) \<and>
      (\<forall>val. presentClaim cs ''nbf'' = Some val \<longrightarrow> (\<exists>t. val = JNumber t \<and> lib_seconds lib t \<le> now + skew_seconds v)) \<and>
      (\<forall>val. presentClaim cs ''iat'' = Some val \<longrightarrow> (\<exists>t. val = JNumber t \<and> lib_seconds lib t \<le> now + skew_seconds v)) \<and>
      (\<forall>val. presentClaim cs ''aud'' = Some val \<longrightarrow> audience_ok v val) \<and>
      (ar_Role r = vf_anonRole v \<or> vf_permitted v = [] \<or> ar_Role r \<in> set (vf_permitted v)) \<and>
      (case roleFromClaims cs (vf_roleKeyPath v) of Some role \<Rightarrow> ar_Role r = role | None \<Rightarrow> vf_anonRole v \<noteq> [] \<and> ar_Role r = vf_anonRole v)"
proof (cases "bearer h")
  case None
  then show ?thesis using Authenticate_any_cache [OF assms] by (auto simp: Authenticate_def anon_def split: if_split_asm)
next
  case (Some raw)
  then have "bindr (verify lib v now raw) (resolve v) = Inr r"
    using Authenticate_any_cache [OF assms] by (auto simp: Authenticate_def split: if_split_asm)
  then obtain cs where cs: "verify lib v now raw = Inr cs" "resolve v cs = Inr r" by (auto simp: bindr_def split: sum.split_asm)
  have dec: "length (filter (\<lambda>c. c = CHR ''.'') raw) = 2" "pinned_alg lib v raw" "lib_parse lib (vf_validMethods v) (keyfunc v) raw = Inr cs"
      "claims_admitted lib v now cs"
    using verify_InrD [OF cs(1)] by (auto simp: decodes_def checkAlg_None validateClaims_None)
  note res = cs(2) [unfolded resolve_Inr]
  have "\<not> ar_Anonymous r" "ar_Claims r = Some cs" using res by (metis auth_result.select_convs)+
  moreover have "ar_Role r = vf_anonRole v \<or> vf_permitted v = [] \<or> ar_Role r \<in> set (vf_permitted v)"
    using res by (auto simp: checkPermitted_def split: if_split_asm)
  ultimately show ?thesis using Some dec res unfolding pinned_alg_def claims_admitted_def by auto
qed

text \<open>A library that reads one token, for concrete requests.\<close>

definition demo_lib :: jwt_lib where
  "demo_lib = \<lparr>lib_header_alg = (\<lambda>s. Some ''HS256''), lib_known_alg = (\<lambda>a. True),
     lib_parse = (\<lambda>ms kf raw. if raw = ''h.p.s'' then Inr [(''role'', JString ''web''), (''exp'', JNumber ''100'')] else Inl [ErrTokenSignatureInvalid]),
     lib_seconds = (\<lambda>t. case parse_int64 t of Some n \<Rightarrow> n | None \<Rightarrow> 0), lib_jwk_set = (\<lambda>s. None), lib_jwk = (\<lambda>s. None),
     lib_base64url = (\<lambda>s. None), lib_on_curve = (\<lambda>c x y. True), lib_pem = (\<lambda>s. None), lib_pkix = (\<lambda>s. None)\<rparr>"

definition demo_verifier :: verifier where
  "demo_verifier = \<lparr>vf_validMethods = [''HS256''], vf_keys = [\<lparr>vk_kid = [], vk_alg = [], vk_key = KeyHMAC ''secret''\<rparr>], vf_audience = [],
     vf_roleKeyPath = defaultRoleKey, vf_anonRole = ''anon'', vf_permitted = [], vf_skew = defaultSkew\<rparr>"

text \<open>The cache after the token was seen once, at time 110.\<close>

definition demo_cache :: "claims jwt_cache option" where
  "demo_cache = (case Authenticate demo_lib demo_verifier 110 ''Bearer h.p.s'' (Some (newJWTCache 2)) of Some (_, cache) \<Rightarrow> cache | None \<Rightarrow> None)"

lemma demo_cache_reached: "reached_cache demo_lib demo_verifier demo_cache"
proof -
  obtain r c where "Authenticate demo_lib demo_verifier 110 ''Bearer h.p.s'' (Some (newJWTCache 2)) = Some (r, c)"
    using Authenticate_cached [OF sound_new, of demo_lib demo_verifier 110 "''Bearer h.p.s''" 2] by auto
  then show ?thesis using reached_cache.after [OF reached_cache.fresh] by (auto simp: demo_cache_def)
qed

theorem authenticated_token_valid_witness:
  "\<exists>r cache'. Authenticate demo_lib demo_verifier 120 ''Bearer h.p.s'' demo_cache = Some (Inr r, cache') \<and> ar_Role r = ''web''"
proof -
  have "case Authenticate demo_lib demo_verifier 120 ''Bearer h.p.s'' demo_cache of Some (Inr r, cache) \<Rightarrow> \<not> ar_Anonymous r | _ \<Rightarrow> False" by code_simp
  then obtain r cache where r: "Authenticate demo_lib demo_verifier 120 ''Bearer h.p.s'' demo_cache = Some (Inr r, cache)" "\<not> ar_Anonymous r"
    by (auto split: option.split_asm prod.split_asm sum.split_asm)
  have b: "bearer ''Bearer h.p.s'' = Some ''h.p.s''" by code_simp
  obtain cs where "lib_parse demo_lib (vf_validMethods demo_verifier) (keyfunc demo_verifier) ''h.p.s'' = Inr cs"
      "case roleFromClaims cs (vf_roleKeyPath demo_verifier) of Some role \<Rightarrow> ar_Role r = role | None \<Rightarrow> vf_anonRole demo_verifier \<noteq> [] \<and> ar_Role r = vf_anonRole demo_verifier"
    using authenticated_token_valid [OF demo_cache_reached r(1)] r(2) unfolding b by auto
  then have "ar_Role r = ''web''"
    by (auto simp: demo_lib_def demo_verifier_def roleFromClaims_def defaultRoleKey_def unquoted_def)
  then show ?thesis using r by blast
qed

subsection \<open>Refusals\<close>

definition refusal :: "api_error \<Rightarrow> nat \<Rightarrow> string \<Rightarrow> bool" where
  "refusal e status c \<longleftrightarrow> http_status e = status \<and> code e = c"

lemma refusal_simps [simp]:
  "refusal (ErrJWTDecode msg) st c \<longleftrightarrow> st = 401 \<and> c = ''PGRST301''" "refusal (ErrJWTClaims msg) st c \<longleftrightarrow> st = 401 \<and> c = ''PGRST303''"
  "refusal ErrJWTRequired st c \<longleftrightarrow> st = 401 \<and> c = ''PGRST302''" "refusal ErrJWTSecretMissing st c \<longleftrightarrow> st = 500 \<and> c = ''PGRST300''"
  "refusal (ErrRoleNotAllowed role) st c \<longleftrightarrow> st = 403 \<and> c = ''42501''" "refusal (WithDetails e m) st c \<longleftrightarrow> refusal e st c"
  by (auto simp: refusal_def ErrJWTDecode_def ErrJWTClaims_def ErrJWTRequired_def ErrJWTSecretMissing_def ErrRoleNotAllowed_def WithDetails_def New_def)

lemma checkAlg_refusal: "checkAlg lib v raw = Some e \<Longrightarrow> refusal e 401 ''PGRST301''"
  by (auto simp: checkAlg_def split: option.split_asm if_split_asm)

lemma validateClaims_refusal: "validateClaims lib v now cs = Some e \<Longrightarrow> refusal e 401 ''PGRST303''"
  by (auto simp: validateClaims_def Let_def or_else_def time_claim_def claim_type_error_def checkAud_def
      split: option.split_asm if_split_asm json.split_asm)

text \<open>The failures the library reports that are about claims, and not about decoding or verifying the token.\<close>

definition claim_failures :: "jwt_sentinel set" where
  "claim_failures = {ErrTokenExpired, ErrTokenNotValidYet, ErrTokenUsedBeforeIssued, ErrTokenInvalidAudience, ErrTokenInvalidClaims}"

lemma mapJWTError_refusal: "refusal (mapJWTError err) 401 (if set err \<inter> claim_failures \<noteq> {} then ''PGRST303'' else ''PGRST301'')"
  by (auto simp: mapJWTError_def claim_failures_def)

lemma verify_refusal:
  assumes "verify lib v now raw = Inl e"
  shows "if length (filter (\<lambda>c. c = CHR ''.'') raw) \<noteq> 2 \<or> \<not> pinned_alg lib v raw then refusal e 401 ''PGRST301''
    else case lib_parse lib (vf_validMethods v) (keyfunc v) raw of
        Inl err \<Rightarrow> refusal e 401 (if set err \<inter> claim_failures \<noteq> {} then ''PGRST303'' else ''PGRST301'')
      | Inr cs \<Rightarrow> refusal e 401 ''PGRST303'' \<and> \<not> claims_admitted lib v now cs"
proof (cases "length (filter (\<lambda>c. c = CHR ''.'') raw) \<noteq> 2 \<or> \<not> pinned_alg lib v raw")
  case True
  then show ?thesis
  proof (cases "checkAlg lib v raw")
    case None
    then show ?thesis using True assms by (auto simp: checkAlg_None verify_def Let_def)
  next
    case (Some e')
    then show ?thesis using True assms checkAlg_refusal [OF Some] by (auto simp: verify_def Let_def split: if_split_asm)
  qed
next
  case False
  then have alg: "checkAlg lib v raw = None" by (simp add: checkAlg_None)
  show ?thesis
  proof (cases "lib_parse lib (vf_validMethods v) (keyfunc v) raw")
    case (Inl err)
    then show ?thesis using False alg assms mapJWTError_refusal [of err] by (simp add: verify_def)
  next
    case (Inr cs)
    then have "validateClaims lib v now cs = Some e" using False alg assms by (simp add: verify_def split: option.split_asm)
    then show ?thesis using False Inr validateClaims_refusal validateClaims_None [of lib v now cs] by auto
  qed
qed

lemma verify_accepts:
  "verify lib v now raw = Inr cs \<Longrightarrow> length (filter (\<lambda>c. c = CHR ''.'') raw) = 2 \<and> pinned_alg lib v raw \<and>
     lib_parse lib (vf_validMethods v) (keyfunc v) raw = Inr cs \<and> claims_admitted lib v now cs"
  using verify_InrD [of lib v now raw cs] by (auto simp: decodes_def checkAlg_None validateClaims_None)

text \<open>
  C30. Every refusal of a request's credentials has one of five codes, and the request decides which, whatever the
  cache holds. Without a bearer token it is PGRST302 (401), and there is no anonymous role. An empty token is PGRST301
  (401); with no keys configured the rest are PGRST300 (500). A token that is not of three parts, whose algorithm is not
  one of the pinned ones, or which the library could not decode or verify for a reason other than its claims, is
  PGRST301; one whose claims the library refused, or whose times or audience are not admitted at the moment of the
  request, is PGRST303 (401). A verified token that names no role is PGRST302 where there is no anonymous role, and one
  that names a role is 42501 (403) only for a role that is neither the anonymous one nor in the permitted set.
\<close>

theorem authentication_refusals:
  assumes "reached_cache lib v cache" and "Authenticate lib v now h cache = Some (Inl e, cache')"
  shows "case bearer h of
      None \<Rightarrow> refusal e 401 ''PGRST302'' \<and> vf_anonRole v = []
    | Some raw \<Rightarrow>
        if raw = [] then refusal e 401 ''PGRST301''
        else if \<not> vf_hasKeys v then refusal e 500 ''PGRST300''
        else if length (filter (\<lambda>c. c = CHR ''.'') raw) \<noteq> 2 \<or> \<not> pinned_alg lib v raw then refusal e 401 ''PGRST301''
        else case lib_parse lib (vf_validMethods v) (keyfunc v) raw of
            Inl err \<Rightarrow> refusal e 401 (if set err \<inter> claim_failures \<noteq> {} then ''PGRST303'' else ''PGRST301'')
          | Inr cs \<Rightarrow>
              if \<not> claims_admitted lib v now cs then refusal e 401 ''PGRST303''
              else case roleFromClaims cs (vf_roleKeyPath v) of
                  None \<Rightarrow> refusal e 401 ''PGRST302'' \<and> vf_anonRole v = []
                | Some role \<Rightarrow> refusal e 403 ''42501'' \<and> role \<noteq> vf_anonRole v \<and> vf_permitted v \<noteq> [] \<and> role \<notin> set (vf_permitted v)"
proof (cases "bearer h")
  case None
  then show ?thesis using Authenticate_any_cache [OF assms] by (auto simp: Authenticate_def anon_def split: if_split_asm)
next
  case (Some raw)
  show ?thesis
  proof (cases "raw = [] \<or> \<not> vf_hasKeys v")
    case True
    then show ?thesis using Authenticate_any_cache [OF assms] Some by (auto simp: Authenticate_def split: if_split_asm)
  next
    case False
    then have e: "bindr (verify lib v now raw) (resolve v) = Inl e" using Authenticate_any_cache [OF assms] Some by (auto simp: Authenticate_def)
    show ?thesis
    proof (cases "verify lib v now raw")
      case (Inl e')
      then have "verify lib v now raw = Inl e" using e by (simp add: bindr_def)
      from verify_refusal [OF this] show ?thesis using Some False by (auto split: sum.splits if_splits)
    next
      case (Inr cs)
      then have "resolve v cs = Inl e" using e by (simp add: bindr_def)
      then show ?thesis using Some False verify_accepts [OF Inr]
        by (auto simp: resolve_def checkPermitted_def bindr_def split: option.split_asm if_split_asm)
    qed
  qed
qed

theorem authentication_refusals_witness:
  "\<exists>e cache'. Authenticate demo_lib demo_verifier 131 ''Bearer h.p.s'' demo_cache = Some (Inl e, cache') \<and> refusal e 401 ''PGRST303''"
proof -
  have "case Authenticate demo_lib demo_verifier 131 ''Bearer h.p.s'' demo_cache of Some (Inl e, cache) \<Rightarrow> True | _ \<Rightarrow> False" by code_simp
  then obtain e cache where e: "Authenticate demo_lib demo_verifier 131 ''Bearer h.p.s'' demo_cache = Some (Inl e, cache)"
    by (auto split: option.split_asm prod.split_asm sum.split_asm)
  have b: "bearer ''Bearer h.p.s'' = Some ''h.p.s''" by code_simp
  have "vf_hasKeys demo_verifier" "\<not> (length (filter (\<lambda>c. c = CHR ''.'') ''h.p.s'') \<noteq> 2)" "checkAlg demo_lib demo_verifier ''h.p.s'' = None"
    "lib_parse demo_lib (vf_validMethods demo_verifier) (keyfunc demo_verifier) ''h.p.s'' = Inr [(''role'', JString ''web''), (''exp'', JNumber ''100'')]"
    "validateClaims demo_lib demo_verifier 131 [(''role'', JString ''web''), (''exp'', JNumber ''100'')] \<noteq> None"
    by code_simp+
  then have "refusal e 401 ''PGRST303''"
    using authentication_refusals [OF demo_cache_reached e] unfolding b checkAlg_None validateClaims_None by simp
  then show ?thesis using e by blast
qed

end
