(* ===== verification/Http_Server.thy ===== *)
theory Http_Server
  imports Http_Render Plan_Call Auth Prefer
begin

section \<open>Package httpapi: requests, responses and the server\<close>

text \<open>
  \<open>src/httpapi/server.go\<close>, without the handlers that \<open>Http_Handlers\<close> holds. A request has the header map \<open>net/http\<close> parsed (canonical
  keys); its body is the bytes that arrive and whether reading them then fails. A response is what
  a handler sends: the status of \<open>WriteHeader\<close>, the header map at that moment and the bytes written
  after it. \<open>WriteHeader\<close> panics on a code outside 100 to 999: that is \<open>None\<close>. The Server-Timing header
  is not part of a response.
\<close>

subsection \<open>Headers\<close>

type_synonym header_map = "string list go_map"

definition token_char :: "char \<Rightarrow> bool" where
  "token_char c \<longleftrightarrow>
     (let n = byte c in 48 \<le> n \<and> n \<le> 57 \<or> 65 \<le> n \<and> n \<le> 90 \<or> 97 \<le> n \<and> n \<le> 122) \<or>
     c \<in> {CHR ''!'', CHR ''#'', CHR ''$'', CHR ''%'', CHR ''&'', CHR 0x27, CHR ''*'', CHR ''+'', CHR ''-'', CHR ''.'', CHR ''^'',
          CHR ''_'', CHR 0x60, CHR ''|'', CHR ''~''}"

fun title_case :: "bool \<Rightarrow> string \<Rightarrow> string" where
  "title_case up [] = []"
| "title_case up (c # s) =
     (let n = byte c in
      (if up \<and> 97 \<le> n \<and> n \<le> 122 then char_of (n - 32) else if \<not> up \<and> 65 \<le> n \<and> n \<le> 90 then char_of (n + 32) else c) #
      title_case (c = CHR ''-'') s)"

text \<open>\<open>CanonicalMIMEHeaderKey\<close>: a name with a byte that no header name has is left alone.\<close>

definition canonical_key :: "string \<Rightarrow> string" where
  "canonical_key k = (if list_all token_char k then title_case True k else k)"

definition header_set :: "string \<Rightarrow> string \<Rightarrow> header_map \<Rightarrow> header_map" where
  "header_set k v h = aput (canonical_key k) [v] h"

definition header_add :: "string \<Rightarrow> string \<Rightarrow> header_map \<Rightarrow> header_map" where
  "header_add k v h = aput (canonical_key k) ((case aget h (canonical_key k) of Some vs \<Rightarrow> vs | None \<Rightarrow> []) @ [v]) h"

definition header_del :: "string \<Rightarrow> header_map \<Rightarrow> header_map" where
  "header_del k h = adel (canonical_key k) h"

definition header_values :: "header_map \<Rightarrow> string \<Rightarrow> string list" where
  "header_values h k = (case aget h (canonical_key k) of Some vs \<Rightarrow> vs | None \<Rightarrow> [])"

definition header_get :: "header_map \<Rightarrow> string \<Rightarrow> string" where
  "header_get h k = (case header_values h k of v # _ \<Rightarrow> v | [] \<Rightarrow> [])"

subsection \<open>Requests and responses\<close>

record http_request =
  hr_method :: string
  hr_path :: string
  hr_raw_query :: string
  hr_headers :: header_map
  hr_cookies :: "(string \<times> string) list"
  hr_body :: string
  hr_body_fails :: bool
  hr_host :: string
  hr_tls :: bool

record response =
  ht_status :: int
  ht_headers :: header_map
  ht_body :: string

definition WriteHeader :: "header_map \<Rightarrow> int \<Rightarrow> string \<Rightarrow> response option" where
  "WriteHeader h st body =
     (if 100 \<le> st \<and> st \<le> 999 then Some \<lparr>ht_status = st, ht_headers = h, ht_body = body\<rparr> else None)"

text \<open>The envelope of an error: \<open>(*APIError).JSON\<close> and \<open>Write\<close> of \<open>src/pgerr/pgerr.go\<close>.\<close>

definition candidate_JSON :: "embed_candidate \<Rightarrow> string" where
  "candidate_JSON c =
     ''{'' @ json_string ''cardinality'' @ '':'' @ json_string (ec_cardinality c) @ '','' @
     json_string ''embedding'' @ '':'' @ json_string (ec_embedding c) @ '','' @
     json_string ''relationship'' @ '':'' @ json_string (ec_relationship c) @ ''}''"

definition error_JSON :: "api_error \<Rightarrow> string" where
  "error_JSON e =
     (let dets = (case raw_details e of
                    Some cs \<Rightarrow> ''['' @ join '','' (map candidate_JSON cs) @ '']''
                  | None \<Rightarrow> (case details e of Some d \<Rightarrow> json_string d | None \<Rightarrow> ''null'')) in
      ''{'' @ json_string ''code'' @ '':'' @ json_string (code e) @ '','' @
      json_string ''message'' @ '':'' @ json_string (message e) @ '','' @
      json_string ''details'' @ '':'' @ dets @ '','' @
      json_string ''hint'' @ '':'' @ (case hint e of Some h \<Rightarrow> json_string h | None \<Rightarrow> ''null'') @ ''}'')"

definition error_Write :: "header_map \<Rightarrow> api_error \<Rightarrow> response option" where
  "error_Write h e =
     (let h1 = fold (\<lambda>(k, v). header_add k v) (headers e) h;
          h2 = header_set ''Proxy-Status'' (''PostgREST; error='' @ code e)
                 (header_set ''Content-Type'' ''application/json; charset=utf-8'' h1);
          h3 = (if www_authenticate e \<noteq> [] then header_set ''WWW-Authenticate'' (www_authenticate e) h2 else h2) in
      WriteHeader h3 (int (http_status e)) (error_JSON e))"

definition writeError :: "header_map \<Rightarrow> api_error \<Rightarrow> response option" where
  "writeError h e = error_Write (header_del ''Content-Profile'' h) e"

subsection \<open>The backend and the server\<close>

record ir_plan =
  pn_query :: "query option"
  pn_rel :: "relation option"
  pn_call :: "ir_call option"
  pn_func :: "rpc_function option"
  pn_read_only :: bool

text \<open>
  \<open>Backend\<close> of \<open>src/backend/spi.go\<close>, over a database of type \<open>'d\<close> and engine errors of type \<open>'e\<close>.
  \<open>be_SchemaFunctions\<close> and \<open>be_Explainer\<close> are \<open>None\<close> where the backend does not implement the optional
  interface; \<open>be_As\<close> is \<open>pgerr.As\<close>. A run that panics is \<open>None\<close>.
\<close>

record ('d, 'e) explainer =
  ex_Read :: "ir_plan \<Rightarrow> full_context \<Rightarrow> plan_options \<Rightarrow> 'd \<Rightarrow> (('e + string) \<times> 'd) option"
  ex_Write :: "ir_plan \<Rightarrow> full_context \<Rightarrow> plan_options \<Rightarrow> 'd \<Rightarrow> (('e + string) \<times> 'd) option"
  ex_Call :: "ir_plan \<Rightarrow> full_context \<Rightarrow> plan_options \<Rightarrow> 'd \<Rightarrow> (('e + string) \<times> 'd) option"

record ('d, 'e) backend =
  be_NativeRPC :: bool
  be_Functions :: fn_registry
  be_SchemaFunctions :: "(string \<Rightarrow> fn_registry) option"
  be_Execute :: "ir_plan \<Rightarrow> full_context \<Rightarrow> 'd \<Rightarrow> (('e + result) \<times> 'd) option"
  be_Explainer :: "('d, 'e) explainer option"
  be_As :: "'e \<Rightarrow> api_error option"
  be_MapError :: "'e \<Rightarrow> api_error option"
  be_ErrorText :: "'e \<Rightarrow> string"

text \<open>
  The server; \<open>sv_comments\<close> are the schema comments of the published model. The library functions a
  request needs are \<open>go_env\<close>.
\<close>

record server =
  sv_model :: model
  sv_comments :: "string go_map"
  sv_searchPath :: "string list"
  sv_role :: string
  sv_verifier :: "verifier option"
  sv_authz :: "registry option"
  sv_openapiMode :: string
  sv_openapiProxy :: string
  sv_openapiSecurity :: bool
  sv_rootSpec :: string
  sv_corsOrigins :: "string list"
  sv_maxRows :: int
  sv_maxBody :: int
  sv_planEnabled :: bool
  sv_aggregatesOn :: bool
  sv_preRequest :: string
  sv_appSettings :: "string go_map"
  sv_logQuery :: bool
  sv_txEnd :: tx_end

record go_env =
  ge_tz_ok :: "string \<Rightarrow> bool"
  ge_json :: json_decoder
  ge_csv :: csv_reader
  ge_float :: "string \<Rightarrow> rat option"
  ge_put_text :: "json \<Rightarrow> string"
  ge_float_text :: "string \<Rightarrow> string"
  ge_scan_error :: "string \<Rightarrow> string"
  ge_jwt :: jwt_lib

definition NewServer :: "model \<Rightarrow> string go_map \<Rightarrow> string list \<Rightarrow> server" where
  "NewServer m comments path = \<lparr>sv_model = m, sv_comments = comments, sv_searchPath = path, sv_role = [], sv_verifier = None,
     sv_authz = None, sv_openapiMode = [], sv_openapiProxy = [], sv_openapiSecurity = False, sv_rootSpec = [],
     sv_corsOrigins = [], sv_maxRows = 0, sv_maxBody = 0, sv_planEnabled = False, sv_aggregatesOn = False,
     sv_preRequest = [], sv_appSettings = [], sv_logQuery = False, sv_txEnd = TxEndCommit\<rparr>"

definition SetOpenAPI :: "string \<Rightarrow> string \<Rightarrow> bool \<Rightarrow> server \<Rightarrow> server" where
  "SetOpenAPI mode proxyURI securityActive sv =
     sv\<lparr>sv_openapiMode := mode, sv_openapiProxy := proxyURI, sv_openapiSecurity := securityActive\<rparr>"

definition SetDefaultRole :: "string \<Rightarrow> server \<Rightarrow> server" where
  "SetDefaultRole role sv = (if role \<noteq> [] then sv\<lparr>sv_role := role\<rparr> else sv)"

definition SetTxEnd :: "string \<Rightarrow> server \<Rightarrow> server" where
  "SetTxEnd v sv = sv\<lparr>sv_txEnd := ParseTxEnd v\<rparr>"

definition SetRootSpec :: "string \<Rightarrow> server \<Rightarrow> server" where
  "SetRootSpec v sv = sv\<lparr>sv_rootSpec := v\<rparr>"

definition SetMaxRows :: "int \<Rightarrow> server \<Rightarrow> server" where
  "SetMaxRows v sv = sv\<lparr>sv_maxRows := v\<rparr>"

definition SetMaxRequestBody :: "int \<Rightarrow> server \<Rightarrow> server" where
  "SetMaxRequestBody v sv = sv\<lparr>sv_maxBody := v\<rparr>"

definition SetCORSAllowedOrigins :: "string list \<Rightarrow> server \<Rightarrow> server" where
  "SetCORSAllowedOrigins v sv = sv\<lparr>sv_corsOrigins := v\<rparr>"

definition SetPlanEnabled :: "bool \<Rightarrow> server \<Rightarrow> server" where
  "SetPlanEnabled v sv = sv\<lparr>sv_planEnabled := v\<rparr>"

definition SetAggregatesEnabled :: "bool \<Rightarrow> server \<Rightarrow> server" where
  "SetAggregatesEnabled v sv = sv\<lparr>sv_aggregatesOn := v\<rparr>"

definition SetAppSettings :: "string go_map \<Rightarrow> server \<Rightarrow> server" where
  "SetAppSettings v sv = sv\<lparr>sv_appSettings := v\<rparr>"

definition SetLogQuery :: "bool \<Rightarrow> server \<Rightarrow> server" where
  "SetLogQuery v sv = sv\<lparr>sv_logQuery := v\<rparr>"

definition SetVerifier :: "verifier option \<Rightarrow> server \<Rightarrow> server" where
  "SetVerifier v sv = sv\<lparr>sv_verifier := v\<rparr>"

definition SetPreRequest :: "string \<Rightarrow> server \<Rightarrow> server" where
  "SetPreRequest v sv = sv\<lparr>sv_preRequest := v\<rparr>"

definition SetAuthz :: "registry option \<Rightarrow> server \<Rightarrow> server" where
  "SetAuthz v sv = sv\<lparr>sv_authz := v\<rparr>"

text \<open>A failed introspection leaves the published model.\<close>

definition Reload :: "'e + model \<times> string go_map \<Rightarrow> server \<Rightarrow> 'e option \<times> server" where
  "Reload introspected sv =
     (case introspected of Inl e \<Rightarrow> (Some e, sv) | Inr (m, cs) \<Rightarrow> (None, sv\<lparr>sv_model := m, sv_comments := cs\<rparr>))"

subsection \<open>The steps every handler shares\<close>

definition readBody :: "server \<Rightarrow> http_request \<Rightarrow> api_error + string" where
  "readBody sv r =
     (if sv_maxBody sv > 0 \<and> int (length (hr_body r)) > sv_maxBody sv then Inl (ErrBodyTooLarge (sv_maxBody sv))
      else if hr_body_fails r then Inl (ErrInvalidBody ''could not read request body'')
      else Inr (hr_body r))"

definition capLimit :: "server \<Rightarrow> int option \<Rightarrow> int option" where
  "capLimit sv limit =
     (if sv_maxRows sv \<le> 0 then limit
      else case limit of
        None \<Rightarrow> Some (sv_maxRows sv)
      | Some l \<Rightarrow> if l > sv_maxRows sv then Some (sv_maxRows sv) else Some l)"

record identity =
  id_role :: string
  id_claims :: "json go_map"
  id_anonymous :: bool

definition jar :: "(string \<times> string) list \<Rightarrow> string go_map" where
  "jar cookies = fold (\<lambda>(k, v). aput k v) cookies []"

definition no_controls :: response_controls where
  "no_controls = \<lparr>rsp_status = 0, rsp_headers = [], rsp_upsert_known = False, rsp_inserted = 0\<rparr>"

definition buildContext :: "server \<Rightarrow> http_request \<Rightarrow> identity \<Rightarrow> string \<Rightarrow> full_context" where
  "buildContext sv r ident activeSchema =
     \<lparr>rc_role = id_role ident, rc_anonymous = id_anonymous ident, rc_claims = id_claims ident, cx_method = hr_method r,
      cx_path = hr_path r, cx_headers = hr_headers r, cx_cookies = jar (hr_cookies r), cx_schema = activeSchema,
      cx_pre_request = sv_preRequest sv, cx_app_settings = sv_appSettings sv, cx_log_query = sv_logQuery sv,
      cx_timezone = [], cx_controls = no_controls\<rparr>"

definition with_timezone :: "prefer_set \<Rightarrow> full_context \<Rightarrow> full_context" where
  "with_timezone p rc = (case pf_timezone p of Some tz \<Rightarrow> rc\<lparr>cx_timezone := tz\<rparr> | None \<Rightarrow> rc)"

definition errUnacceptableSchema :: "string \<Rightarrow> string list \<Rightarrow> api_error" where
  "errUnacceptableSchema profile schemas =
     WithHint (New 406 ''PGRST106'' (''Invalid schema: '' @ profile))
       (''Only the following schemas are exposed: '' @ join '', '' schemas)"

definition write_method :: "string \<Rightarrow> bool" where
  "write_method m \<longleftrightarrow> m \<in> {''POST'', ''PATCH'', ''PUT'', ''DELETE''}"

definition resolveSchema :: "server \<Rightarrow> http_request \<Rightarrow> api_error + string \<times> bool" where
  "resolveSchema sv r =
     (let profile = header_get (hr_headers r) (if write_method (hr_method r) then ''Content-Profile'' else ''Accept-Profile'') in
      if profile = [] then Inr (case sv_searchPath sv of s # _ \<Rightarrow> s | [] \<Rightarrow> [], length (sv_searchPath sv) > 1)
      else if profile \<in> set (sv_searchPath sv) then Inr (profile, True)
      else Inl (errUnacceptableSchema profile (sv_searchPath sv)))"

definition applyTxPolicy :: "server \<Rightarrow> prefer_set \<Rightarrow> api_error + prefer_set" where
  "applyTxPolicy sv p =
     (let p' = ResolveTx (sv_txEnd sv) p in case StrictError p' of Some e \<Rightarrow> Inl e | None \<Rightarrow> Inr p')"

definition applyControls :: "response_controls \<Rightarrow> int \<Rightarrow> header_map \<Rightarrow> header_map \<times> int" where
  "applyControls rc def h =
     (fold (\<lambda>(k, v). header_set k v) (rsp_headers rc) h, if rsp_status rc \<noteq> 0 then rsp_status rc else def)"

definition authenticate ::
  "go_env \<Rightarrow> server \<Rightarrow> int \<Rightarrow> http_request \<Rightarrow> claims jwt_cache option \<Rightarrow>
   ((api_error + identity) \<times> claims jwt_cache option) option" where
  "authenticate env sv now r cache =
     (case sv_verifier sv of
        None \<Rightarrow> Some (if sv_role sv = [] then Inl ErrJWTRequired
                      else Inr \<lparr>id_role = sv_role sv, id_claims = [], id_anonymous = True\<rparr>, cache)
      | Some v \<Rightarrow>
          map_option (\<lambda>(res, c).
            (map_sum id (\<lambda>a. \<lparr>id_role = ar_Role a, id_claims = (case ar_Claims a of Some cs \<Rightarrow> cs | None \<Rightarrow> []),
                              id_anonymous = ar_Anonymous a\<rparr>) res, c))
            (Authenticate (ge_jwt env) v now (header_get (hr_headers r) ''Authorization'') cache))"

definition authorize :: "server \<Rightarrow> full_context \<Rightarrow> ir_plan \<Rightarrow> (api_error + ir_plan) option" where
  "authorize sv rc p =
     (case sv_authz sv of
        None \<Rightarrow> Some (Inr p)
      | Some reg \<Rightarrow> map_option (map_sum id (\<lambda>q. p\<lparr>pn_query := q\<rparr>)) (AuthorizePlan reg (req_context.truncate rc) (pn_query p)))"

definition asAPIError :: "('d, 'e) backend \<Rightarrow> 'e \<Rightarrow> api_error" where
  "asAPIError be err =
     (case be_As be err of Some e \<Rightarrow> e
      | None \<Rightarrow> (case be_MapError be err of Some e \<Rightarrow> e | None \<Rightarrow> ErrInternal (be_ErrorText be err)))"

definition mapExecError :: "('d, 'e) backend \<Rightarrow> 'e \<Rightarrow> bool \<Rightarrow> api_error" where
  "mapExecError be err anonymous =
     (let e = the (GradePrivilegeStatus (Some (asAPIError be err)) (\<not> anonymous)) in
      if anonymous \<and> code e = ''42501'' then e\<lparr>www_authenticate := ''Bearer''\<rparr> else e)"

subsection \<open>OPTIONS and CORS\<close>

definition tableAllow :: string where "tableAllow = ''OPTIONS,GET,HEAD,POST,PUT,PATCH,DELETE''"
definition rootAllow :: string where "rootAllow = ''OPTIONS,GET,HEAD''"

definition rpcName :: "string \<Rightarrow> string option" where
  "rpcName path = (if has_prefix path ''/rpc/'' then Some (drop 5 path) else None)"

definition rpcAllow :: "('d, 'e) backend \<Rightarrow> string \<Rightarrow> string" where
  "rpcAllow be fn =
     (if be_NativeRPC be then ''OPTIONS,GET,HEAD,POST''
      else if list_ex (\<lambda>f. f_name f = fn \<and> \<not> vol_ReadOnly (f_volatility f)) (reg_List (be_Functions be)) then ''OPTIONS,POST''
      else ''OPTIONS,GET,HEAD,POST'')"

definition handleOptions :: "('d, 'e) backend \<Rightarrow> http_request \<Rightarrow> header_map \<Rightarrow> response option" where
  "handleOptions be r h =
     WriteHeader (header_set ''Allow''
       (if hr_path r = ''/'' then rootAllow
        else case rpcName (hr_path r) of Some fn \<Rightarrow> rpcAllow be fn | None \<Rightarrow> tableAllow) h) 200 []"

definition corsExposedHeaders :: string where
  "corsExposedHeaders = ''Content-Encoding, Content-Location, Content-Range, Content-Type, '' @
     ''Date, Location, Server, Transfer-Encoding, Range-Unit''"

definition corsAllowedMethods :: string where
  "corsAllowedMethods = ''GET, POST, PATCH, PUT, DELETE, OPTIONS, HEAD''"

definition cors_add :: "string \<Rightarrow> string list \<times> string list \<Rightarrow> string list \<times> string list" where
  "cors_add name0 = (\<lambda>(out, seen).
     let name = trim_space name0 in
     if name = [] \<or> to_lower name \<in> set seen then (out, seen) else (out @ [name], to_lower name # seen))"

definition corsAllowedHeaders :: "string \<Rightarrow> string" where
  "corsAllowedHeaders requested =
     join '', '' (fst (fold cors_add (split_byte CHR '','' requested @ [''Accept'', ''Accept-Language'', ''Content-Language''])
       ([''Authorization''], [''authorization''])))"

text \<open>The preflight response when the request is one, and otherwise the headers that go on.\<close>

definition serveCORS :: "server \<Rightarrow> http_request \<Rightarrow> header_map \<Rightarrow> response option + header_map" where
  "serveCORS sv r h =
     (let origin = header_get (hr_headers r) ''Origin'' in
      if origin = [] \<or> sv_corsOrigins sv \<noteq> [] \<and> origin \<notin> set (sv_corsOrigins sv) then Inr h
      else
        let h1 = (if sv_corsOrigins sv \<noteq> []
                  then header_set ''Access-Control-Allow-Credentials'' ''true'' (header_set ''Access-Control-Allow-Origin'' origin h)
                  else header_set ''Access-Control-Allow-Origin'' ''*'' h) in
        if hr_method r = ''OPTIONS'' \<and> header_get (hr_headers r) ''Access-Control-Request-Method'' \<noteq> [] then
          Inl (WriteHeader (header_set ''Access-Control-Max-Age'' ''86400''
            (header_set ''Access-Control-Allow-Headers'' (corsAllowedHeaders (header_get (hr_headers r) ''Access-Control-Request-Headers''))
            (header_set ''Access-Control-Allow-Methods'' corsAllowedMethods h1))) 200 [])
        else Inr (header_set ''Access-Control-Expose-Headers'' corsExposedHeaders h1))"

subsection \<open>Ranges\<close>

datatype range_result = NoRange | Inverted | Range int int

text \<open>\<open>Range off n\<close>: a negative \<open>n\<close> is an open end.\<close>

definition parseRangeHeader :: "string \<Rightarrow> range_result" where
  "parseRangeHeader s =
     (case last_index_byte s CHR ''-'' of
        None \<Rightarrow> NoRange
      | Some dash \<Rightarrow>
          (case parse_int64 (take dash s) of
             None \<Rightarrow> NoRange
           | Some start \<Rightarrow>
               if start < 0 then NoRange
               else if drop (dash + 1) s = [] then Range start (- 1)
               else (case parse_int64 (drop (dash + 1) s) of
                  None \<Rightarrow> NoRange
                | Some end' \<Rightarrow> if end' < start then Inverted else Range start (wrap64 (end' - start + 1)))))"

definition inverted_error :: api_error where
  "inverted_error = WithDetails ErrRangeNotSatisfiable
     ''The lower boundary must be lower than or equal to the upper boundary in the Range header.''"

text \<open>The window a Range header asks for: its offset and, when it is bounded, its limit.\<close>

definition range_window :: "http_request \<Rightarrow> api_error + (int \<times> int option) option" where
  "range_window r =
     (let rangeHdr = header_get (hr_headers r) ''Range'' in
      if rangeHdr = [] \<or> CHR ''='' \<in> set rangeHdr then Inr None
      else case parseRangeHeader rangeHdr of
        Inverted \<Rightarrow> Inl inverted_error
      | NoRange \<Rightarrow> Inr None
      | Range off n \<Rightarrow> Inr (Some (off, if n \<ge> 0 then Some n else None)))"

subsection \<open>Writing a read or a call\<close>

definition spreadLiftedNames :: "relation \<Rightarrow> query \<Rightarrow> string list" where
  "spreadLiftedNames target q =
     (if q_select (base q) = [] then column_names target
      else concat (map (\<lambda>it. case it of
             SColumn c \<Rightarrow> if c_path c = [''*''] then column_names target else [column_out_name c]
           | _ \<Rightarrow> []) (q_select (base q))))"

definition embed_keys :: "embed \<Rightarrow> string list" where
  "embed_keys e =
     (if e_spread (meta e) then
        (case e_rel (meta e) of
           Some rel \<Rightarrow> if rs_card rel \<noteq> CardToOne then spreadLiftedNames (rs_target rel) (equery e) else []
         | None \<Rightarrow> [])
      else [e_out_key (meta e)])"

definition embedKeysFor :: "embed list \<Rightarrow> select_item list \<Rightarrow> string list" where
  "embedKeysFor es sel =
     concat (map embed_keys es) @
     concat (map (\<lambda>it. case it of SColumn c \<Rightarrow> if c_last c = JSONArrow then [column_out_name c] else [] | _ \<Rightarrow> []) sel)"

definition embedKeys :: "query \<Rightarrow> string list" where
  "embedKeys q = embedKeysFor (embeds q) (q_select (base q))"

definition unless_head :: "http_request \<Rightarrow> string \<Rightarrow> string" where
  "unless_head r b = (if hr_method r \<noteq> ''HEAD'' then b else [])"

definition writePaged ::
  "http_request \<Rightarrow> string \<Rightarrow> int \<Rightarrow> rendered \<Rightarrow> response_controls \<Rightarrow> header_map \<Rightarrow> response option" where
  "writePaged r applied offset out ctrl h =
     (let h1 = (if applied \<noteq> [] then header_set ''Preference-Applied'' applied h else h);
          h2 = header_set ''Content-Range'' (contentRange offset (rd_nRows out) (rd_total out))
                 (header_set ''Content-Type'' (rd_contentType out) h1) in
      case rd_total out of
        Some tot \<Rightarrow>
          if offset > 0 \<and> offset > tot then
            let rng = WithDetails ErrRangeNotSatisfiable
                  (''An offset of '' @ show_int offset @ '' was requested, but there are only '' @ show_int tot @ '' rows.'') in
            WriteHeader (header_set ''Content-Type'' ''application/json; charset=utf-8'' h2) (int (http_status rng))
              (unless_head r (error_JSON rng))
          else (let (h3, st) = applyControls ctrl (if int (rd_nRows out) < tot then 206 else 200) h2
                in WriteHeader h3 st (unless_head r (rd_body out)))
      | None \<Rightarrow> (let (h3, st) = applyControls ctrl 200 h2 in WriteHeader h3 st (unless_head r (rd_body out))))"

definition writeRead :: "http_request \<Rightarrow> query \<Rightarrow> rendered \<Rightarrow> response_controls \<Rightarrow> header_map \<Rightarrow> response option" where
  "writeRead r q out ctrl h =
     writePaged r (AppliedHeader (q_prefer (base q))) (case q_offset (base q) of Some o1 \<Rightarrow> o1 | None \<Rightarrow> 0) out ctrl h"

definition writeCall :: "http_request \<Rightarrow> ir_call \<Rightarrow> rendered \<Rightarrow> response_controls \<Rightarrow> header_map \<Rightarrow> response option" where
  "writeCall r call out ctrl h =
     writePaged r (AppliedHeader (cl_prefer call)) (case cl_offset call of Some o1 \<Rightarrow> o1 | None \<Rightarrow> 0) out ctrl h"

subsection \<open>Writing a mutation\<close>

definition writeContentRange :: "string \<Rightarrow> int option \<Rightarrow> count_kind \<Rightarrow> string" where
  "writeContentRange mthd affected cnt =
     (if mthd = ''PUT'' then []
      else
        let tot = (case affected of Some n \<Rightarrow> if cnt = CountExact then show_int n else ''*'' | None \<Rightarrow> ''*'') in
        case affected of
          Some n \<Rightarrow> if mthd = ''PATCH'' \<and> n > 0 then ''0-'' @ show_int (n - 1) @ ''/'' @ tot else ''*/'' @ tot
        | None \<Rightarrow> ''*/'' @ tot)"

definition writeStatus :: "string \<Rightarrow> query_kind \<Rightarrow> bool \<Rightarrow> response_controls \<Rightarrow> int" where
  "writeStatus mthd kind rep ctrl =
     (if mthd = ''POST'' then
        (if kind = Upsert \<and> rsp_upsert_known ctrl \<and> rsp_inserted ctrl = 0 then 200 else 201)
      else if mthd = ''PUT'' then
        (if \<not> rep then 204 else if rsp_upsert_known ctrl \<and> rsp_inserted ctrl > 0 then 201 else 200)
      else if rep then 200 else 204)"

definition go_sprint :: "go_any \<Rightarrow> string" where
  "go_sprint v =
     (case v of
        GNil \<Rightarrow> ''<nil>''
      | GBool b \<Rightarrow> if b then ''true'' else ''false''
      | GInt n \<Rightarrow> show_int n
      | GFloat neg ds e \<Rightarrow> format_g 21 neg ds e
      | GNumber t \<Rightarrow> t
      | GString s \<Rightarrow> s
      | GBytes s \<Rightarrow> bytes_text s
      | GRaw s \<Rightarrow> bytes_text s
      | GOther j \<Rightarrow> sprint j)"

fun key_parts :: "go_any go_map \<Rightarrow> string list \<Rightarrow> string list option" where
  "key_parts row [] = Some []"
| "key_parts row (pk # pks) =
     (case aget row pk of
        None \<Rightarrow> None
      | Some v \<Rightarrow> map_option ((#) (query_escape pk @ ''=eq.'' @ query_escape (go_sprint v))) (key_parts row pks))"

definition locationHeader :: "relation \<Rightarrow> string \<Rightarrow> result \<Rightarrow> string" where
  "locationHeader rel name res =
     (if r_primary_key rel = [] then []
      else case res_rows res of
        Inr vals # rest \<Rightarrow>
          (case key_parts (fold (\<lambda>(c, v). aput c v) (zip (res_columns res) vals) []) (r_primary_key rel) of
             None \<Rightarrow> []
           | Some parts \<Rightarrow> if rest \<noteq> [] then [] else ''/'' @ name @ ''?'' @ join ''&'' parts)
      | _ \<Rightarrow> [])"

definition write_headers :: "http_request \<Rightarrow> query \<Rightarrow> relation \<Rightarrow> result \<Rightarrow> write_spec \<Rightarrow> header_map \<Rightarrow> header_map" where
  "write_headers r q rel res w h =
     (let applied = AppliedHeader (q_prefer (base q));
          h1 = (if applied \<noteq> [] then header_set ''Preference-Applied'' applied h else h);
          loc = (if hr_method r = ''POST'' \<and> (q_kind (base q) = query_kind.Insert \<or> q_kind (base q) = Upsert) \<and> w_return w = ReturnHeadersOnly
                 then locationHeader rel (ref_name (q_relation (base q))) res else []);
          h2 = (if loc \<noteq> [] then header_set ''Location'' loc h1 else h1);
          cr = writeContentRange (hr_method r) (res_Affected res) (q_count (base q)) in
      if cr \<noteq> [] then header_set ''Content-Range'' cr h2 else h2)"

text \<open>\<open>writeWrite\<close> dereferences the write specification: a query without one panics.\<close>

definition writeWrite ::
  "go_env \<Rightarrow> http_request \<Rightarrow> query \<Rightarrow> string \<Rightarrow> relation \<Rightarrow> result \<Rightarrow> header_map \<Rightarrow> response option" where
  "writeWrite env r q media rel res h =
     (case q_write (base q) of
        None \<Rightarrow> None
      | Some w \<Rightarrow>
          let h1 = write_headers r q rel res w h; ctrl = res_controls res in
          if w_return w \<noteq> ReturnRepresentation then
            (let (h2, st) = applyControls ctrl (writeStatus (hr_method r) (q_kind (base q)) False ctrl) h1 in WriteHeader h2 st [])
          else case renderFor (ge_scan_error env) media res (embedKeys q) of
            Inl e \<Rightarrow> writeError h1 e
          | Inr out \<Rightarrow>
              (let (h2, st) = applyControls ctrl (writeStatus (hr_method r) (q_kind (base q)) True ctrl)
                     (header_set ''Content-Type'' (rd_contentType out) h1)
               in WriteHeader h2 st (unless_head r (rd_body out))))"

end
