(* ===== verification/Http_Handlers.thy ===== *)
theory Http_Handlers
  imports Http_Server
begin

section \<open>Package httpapi: the handlers\<close>

text \<open>
  \<open>src/httpapi/server.go\<close>. A handler takes the headers staged so far and the database, and yields the response
  and the database it leaves; \<open>None\<close> is a panic.
\<close>

subsection \<open>Preparing a request\<close>

text \<open>A path of one segment names a table.\<close>

definition trim_slashes :: "string \<Rightarrow> string" where
  "trim_slashes s = rev (dropWhile (\<lambda>c. c = CHR ''/'') (rev (dropWhile (\<lambda>c. c = CHR ''/'') s)))"

definition table_path :: "string \<Rightarrow> string option" where
  "table_path path =
     (let relation = trim_slashes path in if relation = [] \<or> CHR ''/'' \<in> set relation then None else Some relation)"

definition accept_media :: "go_env \<Rightarrow> http_request \<Rightarrow> api_error + string" where
  "accept_media env r =
     (case negotiate (ge_float env) (header_values (hr_headers r) ''Accept'') of
        None \<Rightarrow> Inl (ErrNotAcceptable (join '', '' (header_values (hr_headers r) ''Accept'')))
      | Some media \<Rightarrow> Inr media)"

definition window_query :: "(int \<times> int option) option \<Rightarrow> query_base \<Rightarrow> query_base" where
  "window_query w b =
     (case w of
        None \<Rightarrow> b
      | Some (off, l) \<Rightarrow>
          (case l of
             None \<Rightarrow> b\<lparr>q_offset := Some off\<rparr>
           | Some n \<Rightarrow> b\<lparr>q_offset := Some off, q_limit := Some n, q_from_range := True\<rparr>))"

text \<open>\<open>handleRead\<close> up to planning: the query it plans.\<close>

definition read_query :: "go_env \<Rightarrow> server \<Rightarrow> http_request \<Rightarrow> string \<Rightarrow> string \<Rightarrow> api_error + query" where
  "read_query env sv r relation media =
     bindr (ParseRead (ge_tz_ok env) relation (hr_raw_query r) (header_values (hr_headers r) ''Prefer'')) (\<lambda>q.
     bindr (applyTxPolicy sv (q_prefer (base q))) (\<lambda>p.
     bindr (range_window r) (\<lambda>w.
       Inr (upd_base (\<lambda>b.
         let b1 = window_query w (b\<lparr>q_singular := singularMedia media, q_prefer := p\<rparr>);
             b2 = b1\<lparr>q_limit := capLimit sv (q_limit b1)\<rparr> in
         if q_count b2 = CountEstimated \<and> sv_maxRows sv > 0 then b2\<lparr>q_count_max := sv_maxRows sv\<rparr> else b2) q))))"

definition read_plan :: "server \<Rightarrow> string \<Rightarrow> query \<Rightarrow> api_error + ir_plan" where
  "read_plan sv activeSchema q =
     bindr (PlanRead (sv_model sv) q [activeSchema] (sv_aggregatesOn sv)) (\<lambda>(q', rel).
       Inr \<lparr>pn_query = Some q', pn_rel = Some rel, pn_call = None, pn_func = None, pn_read_only = True\<rparr>)"

definition write_tx :: "prefer_set \<Rightarrow> query_base \<Rightarrow> query_base" where
  "write_tx p b =
     b\<lparr>q_write := map_option (\<lambda>w. w\<lparr>w_tx := (case pf_tx p of Some t \<Rightarrow> t | None \<Rightarrow> TxAuto)\<rparr>) (q_write b)\<rparr>"

definition write_query ::
  "go_env \<Rightarrow> server \<Rightarrow> http_request \<Rightarrow> query_kind \<Rightarrow> string \<Rightarrow> string \<Rightarrow> api_error + query" where
  "write_query env sv r kind relation media =
     bindr (if kind \<noteq> query_kind.Delete then readBody sv r else Inr []) (\<lambda>body.
     bindr (ParseWrite (ge_tz_ok env) (ge_json env) (ge_csv env) kind relation (hr_raw_query r)
              (header_values (hr_headers r) ''Prefer'') (header_get (hr_headers r) ''Content-Type'') body) (\<lambda>q.
     bindr (applyTxPolicy sv (q_prefer (base q))) (\<lambda>p.
       Inr (upd_base (\<lambda>b. write_tx p (b\<lparr>q_singular := singularMedia media, q_prefer := p\<rparr>)) q))))"

definition write_plan :: "go_env \<Rightarrow> server \<Rightarrow> string \<Rightarrow> query \<Rightarrow> api_error + ir_plan" where
  "write_plan env sv activeSchema q =
     bindr (PlanWrite (ge_put_text env) (ge_float_text env) (sv_model sv) q [activeSchema]) (\<lambda>(q', rel).
       Inr \<lparr>pn_query = Some q', pn_rel = Some rel, pn_call = None, pn_func = None, pn_read_only = False\<rparr>)"

definition rpcRegistry :: "('d, 'e) backend \<Rightarrow> string \<Rightarrow> fn_registry" where
  "rpcRegistry be activeSchema =
     (if be_NativeRPC be then
        (case be_SchemaFunctions be of
           Some sf \<Rightarrow> Merge (be_Functions be) (sf activeSchema)
         | None \<Rightarrow> be_Functions be)
      else be_Functions be)"

definition registryKnows :: "fn_registry \<Rightarrow> string \<Rightarrow> bool" where
  "registryKnows reg name \<longleftrightarrow> list_ex (\<lambda>f. f_name f = name) (reg_List reg)"

definition singleRawBodyParam :: "fn_registry \<Rightarrow> string \<Rightarrow> string" where
  "singleRawBodyParam reg name =
     (case List.map_filter SingleRawBody (filter (\<lambda>f. f_name f = name) (reg_List reg)) of p # _ \<Rightarrow> p_name p | [] \<Rightarrow> [])"

definition window_call :: "(int \<times> int option) option \<Rightarrow> ir_call \<Rightarrow> ir_call" where
  "window_call w c =
     (case w of
        None \<Rightarrow> c
      | Some (off, l) \<Rightarrow>
          (case l of None \<Rightarrow> c\<lparr>cl_offset := Some off\<rparr> | Some n \<Rightarrow> c\<lparr>cl_offset := Some off, cl_limit := Some n\<rparr>))"

definition rpc_call ::
  "go_env \<Rightarrow> server \<Rightarrow> ('d, 'e) backend \<Rightarrow> http_request \<Rightarrow> string \<Rightarrow> string \<Rightarrow> string \<Rightarrow> bool \<Rightarrow> api_error + ir_call" where
  "rpc_call env sv be r fn activeSchema media isGet =
     bindr (if hr_method r = ''POST'' then readBody sv r else Inr []) (\<lambda>body.
     bindr (ParseCall (ge_tz_ok env) (ge_json env) (ge_csv env) fn (hr_raw_query r) (header_values (hr_headers r) ''Prefer'') isGet
              (header_get (hr_headers r) ''Content-Type'') body
              (if isGet then [] else singleRawBodyParam (rpcRegistry be activeSchema) fn)) (\<lambda>c.
     bindr (applyTxPolicy sv (cl_prefer c)) (\<lambda>p.
     bindr (if isGet then range_window r else Inr None) (\<lambda>w.
       let c1 = window_call w (c\<lparr>cl_singular := singularMedia media, cl_prefer := p\<rparr>) in
       Inr (c1\<lparr>cl_limit := capLimit sv (cl_limit c1)\<rparr>)))))"

definition planned_call :: "fn_registry \<Rightarrow> server \<Rightarrow> ir_call \<Rightarrow> bool \<Rightarrow> string \<Rightarrow> api_error + ir_plan" where
  "planned_call reg sv call isGet activeSchema =
     bindr (PlanCall reg (Some (sv_model sv)) call isGet [activeSchema]) (\<lambda>cp.
       Inr \<lparr>pn_query = None, pn_rel = None, pn_call = Some (pl_call cp), pn_func = Some (pl_func cp), pn_read_only = pl_read_only cp\<rparr>)"

definition native_plan :: "ir_call \<Rightarrow> bool \<Rightarrow> ir_plan" where
  "native_plan call isGet = \<lparr>pn_query = None, pn_rel = None, pn_call = Some call, pn_func = None, pn_read_only = isGet\<rparr>"

definition rpc_plan :: "server \<Rightarrow> ('d, 'e) backend \<Rightarrow> ir_call \<Rightarrow> bool \<Rightarrow> string \<Rightarrow> api_error + ir_plan" where
  "rpc_plan sv be call isGet activeSchema =
     (if be_NativeRPC be then
        (if registryKnows (rpcRegistry be activeSchema) (ref_name (cl_function call))
         then planned_call (rpcRegistry be activeSchema) sv call isGet activeSchema
         else Inr (native_plan call isGet))
      else planned_call (be_Functions be) sv call isGet activeSchema)"

subsection \<open>The handlers\<close>

type_synonym 'd outcome = "(response \<times> 'd) option"

definition reply :: "response option \<Rightarrow> 'd \<Rightarrow> 'd outcome" where
  "reply w d = map_option (\<lambda>x. (x, d)) w"

definition failed :: "header_map \<Rightarrow> 'd \<Rightarrow> api_error \<Rightarrow> 'd outcome" where
  "failed h d e = reply (writeError h e) d"

definition no_plan_options :: plan_options where
  "no_plan_options = \<lparr>po_format = PlanText, po_for = [], po_analyze = False, po_verbose = False, po_settings = False,
     po_buffers = False, po_wal = False\<rparr>"

definition servePlan ::
  "server \<Rightarrow> ('d, 'e) backend \<Rightarrow> http_request \<Rightarrow> identity \<Rightarrow>
   (('d, 'e) explainer \<Rightarrow> plan_options \<Rightarrow> 'd \<Rightarrow> (('e + string) \<times> 'd) option) \<Rightarrow> header_map \<Rightarrow> 'd \<Rightarrow> 'd outcome" where
  "servePlan sv be r ident explain h d =
     (if \<not> sv_planEnabled sv then failed h d (ErrNotAcceptable mediaPlan)
      else case be_Explainer be of
        None \<Rightarrow> failed h d (ErrNotAcceptable mediaPlan)
      | Some ex \<Rightarrow>
          let opts = (case parsePlan (header_values (hr_headers r) ''Accept'') of Some o1 \<Rightarrow> o1 | None \<Rightarrow> no_plan_options) in
          (case explain ex opts d of
             None \<Rightarrow> None
           | Some (Inl err, d') \<Rightarrow> failed h d' (mapExecError be err (id_anonymous ident))
           | Some (Inr bytes, d') \<Rightarrow> reply (WriteHeader (header_set ''Content-Type'' (planContentType opts) h) 200 bytes) d'))"

definition execute ::
  "('d, 'e) backend \<Rightarrow> identity \<Rightarrow> ir_plan \<Rightarrow> full_context \<Rightarrow> header_map \<Rightarrow> 'd \<Rightarrow> (result \<Rightarrow> 'd \<Rightarrow> 'd outcome) \<Rightarrow> 'd outcome" where
  "execute be ident p rc h d k =
     (case be_Execute be p rc d of
        None \<Rightarrow> None
      | Some (Inl err, d') \<Rightarrow> failed h d' (mapExecError be err (id_anonymous ident))
      | Some (Inr res, d') \<Rightarrow> k res d')"

definition or_fail :: "header_map \<Rightarrow> 'd \<Rightarrow> api_error + 'a \<Rightarrow> ('a \<Rightarrow> 'd outcome) \<Rightarrow> 'd outcome" where
  "or_fail h d m k = (case m of Inl e \<Rightarrow> failed h d e | Inr x \<Rightarrow> k x)"

text \<open>What \<open>handleRead\<close> and \<open>handleWrite\<close> do with a planned query: gate it, and explain or run what the gate yields.\<close>

definition run_table ::
  "server \<Rightarrow> ('d, 'e) backend \<Rightarrow> http_request \<Rightarrow> identity \<Rightarrow> string \<Rightarrow> header_map \<Rightarrow> 'd \<Rightarrow> string \<Rightarrow> query \<Rightarrow> ir_plan \<Rightarrow>
   (('d, 'e) explainer \<Rightarrow> ir_plan \<Rightarrow> full_context \<Rightarrow> plan_options \<Rightarrow> 'd \<Rightarrow> (('e + string) \<times> 'd) option) \<Rightarrow>
   (ir_plan \<Rightarrow> result \<Rightarrow> 'd \<Rightarrow> 'd outcome) \<Rightarrow> 'd outcome" where
  "run_table sv be r ident activeSchema h d media q p0 explain k =
     (let rc = with_timezone (q_prefer (base q)) (buildContext sv r ident activeSchema) in
      case authorize sv rc p0 of
        None \<Rightarrow> None
      | Some auth \<Rightarrow>
          or_fail h d auth (\<lambda>p.
            if media = mediaPlan then servePlan sv be r ident (\<lambda>ex. explain ex p rc) h d
            else execute be ident p rc h d (k p)))"

definition handleRead ::
  "go_env \<Rightarrow> server \<Rightarrow> ('d, 'e) backend \<Rightarrow> http_request \<Rightarrow> identity \<Rightarrow> string \<Rightarrow> header_map \<Rightarrow> 'd \<Rightarrow> 'd outcome" where
  "handleRead env sv be r ident activeSchema h d =
     (case table_path (hr_path r) of
        None \<Rightarrow> failed h d ErrInvalidPath
      | Some relation \<Rightarrow>
          or_fail h d (accept_media env r) (\<lambda>media.
          or_fail h d (read_query env sv r relation media) (\<lambda>q.
          or_fail h d (read_plan sv activeSchema q) (\<lambda>planned.
            run_table sv be r ident activeSchema h d media q planned ex_Read (\<lambda>p res d'.
              or_fail h d' (renderFor (ge_scan_error env) media res (embedKeys (the (pn_query p)))) (\<lambda>out.
                reply (writeRead r (the (pn_query p)) out (res_controls res) h) d'))))))"

definition handleWrite ::
  "go_env \<Rightarrow> server \<Rightarrow> ('d, 'e) backend \<Rightarrow> http_request \<Rightarrow> query_kind \<Rightarrow> identity \<Rightarrow> string \<Rightarrow> header_map \<Rightarrow> 'd \<Rightarrow> 'd outcome" where
  "handleWrite env sv be r kind ident activeSchema h d =
     (case table_path (hr_path r) of
        None \<Rightarrow> failed h d ErrInvalidPath
      | Some relation \<Rightarrow>
          or_fail h d (accept_media env r) (\<lambda>media.
          or_fail h d (write_query env sv r kind relation media) (\<lambda>q.
          or_fail h d (write_plan env sv activeSchema q) (\<lambda>planned.
            run_table sv be r ident activeSchema h d media q planned ex_Write (\<lambda>p res d'.
              reply (writeWrite env r (the (pn_query p)) media (the (pn_rel p)) res h) d')))))"

definition handleRPC ::
  "go_env \<Rightarrow> server \<Rightarrow> ('d, 'e) backend \<Rightarrow> http_request \<Rightarrow> string \<Rightarrow> identity \<Rightarrow> string \<Rightarrow> header_map \<Rightarrow> 'd \<Rightarrow> 'd outcome" where
  "handleRPC env sv be r fn ident activeSchema h d =
     (let isGet = (hr_method r = ''GET'' \<or> hr_method r = ''HEAD'') in
      if CHR ''/'' \<in> set fn then failed h d ErrInvalidPath
      else if fn = [] then failed h d (ErrNoFunction activeSchema fn [] [])
      else if \<not> isGet \<and> hr_method r \<noteq> ''POST'' then failed h d (ErrInvalidRPCMethod (hr_method r))
      else
        or_fail h d (accept_media env r) (\<lambda>media.
        or_fail h d (rpc_call env sv be r fn activeSchema media isGet) (\<lambda>call0.
        or_fail h d (rpc_plan sv be call0 isGet activeSchema) (\<lambda>p.
          let call = the (pn_call p);
              rc = with_timezone (cl_prefer call) (buildContext sv r ident activeSchema) in
          if media = mediaPlan then servePlan sv be r ident (\<lambda>ex. ex_Call ex p rc) h d
          else execute be ident p rc h d (\<lambda>res d'.
            or_fail h d' (if cl_embeds call \<noteq> [] then renderFor (ge_scan_error env) media res (embedKeysFor (cl_embeds call) (cl_select call))
                          else renderCall (ge_scan_error env) media res (pn_func p) fn) (\<lambda>out.
              reply (writeCall r call out (res_controls res) h) d'))))))"


subsection \<open>The root\<close>

text \<open>
  \<open>src/httpapi/root.go\<close>. The document itself (\<open>openapi.Generate\<close>) is the argument \<open>generate\<close>, a function of the
  model, the registry and the options; \<open>parse_url\<close> is \<open>url.Parse\<close>, yielding scheme, host and path.
\<close>

record openapi_actions =
  oa_get :: bool
  oa_post :: bool
  oa_patch :: bool
  oa_delete :: bool

record openapi_options =
  oo_Title :: string
  oo_Description :: string
  oo_Version :: string
  oo_Host :: string
  oo_BasePath :: string
  oo_Schemes :: "string list"
  oo_ActiveSchema :: string
  oo_Visibility :: "(relation \<Rightarrow> openapi_actions) option"
  oo_SecurityActive :: bool

record root_env =
  re_generate :: "model \<Rightarrow> fn_registry \<Rightarrow> openapi_options \<Rightarrow> string + string"
  re_parse_url :: "string \<Rightarrow> (string \<times> string \<times> string) option"

definition errRootDisabled :: api_error where
  "errRootDisabled = New 404 ''PGRST126'' ''Root endpoint metadata is disabled''"

definition rootAcceptable :: "(string \<Rightarrow> rat option) \<Rightarrow> string list \<Rightarrow> bool" where
  "rootAcceptable pf accept =
     (let ranges = parseAccept pf accept in
      ranges = [] \<or> list_ex (\<lambda>mr. \<not> mr_q mr \<le> 0 \<and>
        (mr_typ mr = ''*'' \<and> mr_sub mr = ''*'' \<or>
         mr_typ mr = ''application'' \<and> mr_sub mr \<in> {''*'', ''openapi+json'', ''json''})) ranges)"

definition acceptedList :: "(string \<Rightarrow> rat option) \<Rightarrow> string list \<Rightarrow> string" where
  "acceptedList pf accept = join '', '' (map (\<lambda>mr. mr_typ mr @ ''/'' @ mr_sub mr) (parseAccept pf accept))"

definition probe_query :: "string \<Rightarrow> query_kind \<Rightarrow> query" where
  "probe_query rel kind = Query ((new_base kind rel)\<lparr>q_write := (if kind \<noteq> Read then Some empty_write else None)\<rparr>) []"

definition probeAction :: "registry \<Rightarrow> full_context \<Rightarrow> string \<Rightarrow> query_kind \<Rightarrow> bool" where
  "probeAction reg rc rel kind =
     (case Authorize reg (req_context.truncate rc) (probe_query rel kind) of Some (Inr _) \<Rightarrow> True | _ \<Rightarrow> False)"

definition requestScheme :: "http_request \<Rightarrow> string" where
  "requestScheme r = (if hr_tls r then ''https'' else ''http'')"

definition trim_right_slashes :: "string \<Rightarrow> string" where
  "trim_right_slashes s = rev (dropWhile (\<lambda>c. c = CHR ''/'') (rev s))"

definition applyProxyURI :: "(string \<Rightarrow> (string \<times> string \<times> string) option) \<Rightarrow> string \<Rightarrow> openapi_options \<Rightarrow> openapi_options" where
  "applyProxyURI parse_url proxy o1 =
     (case parse_url proxy of
        None \<Rightarrow> o1
      | Some (scheme, host, path) \<Rightarrow>
          if host = [] then o1
          else
            let o2 = o1\<lparr>oo_Host := host\<rparr>;
                o3 = (if scheme \<noteq> [] then o2\<lparr>oo_Schemes := [scheme]\<rparr> else o2);
                p = trim_right_slashes path in
            if p \<noteq> [] then o3\<lparr>oo_BasePath := p\<rparr> else o3)"

definition role_actions :: "registry \<Rightarrow> full_context \<Rightarrow> relation \<Rightarrow> openapi_actions" where
  "role_actions reg rc rel =
     \<lparr>oa_get = probeAction reg rc (r_name rel) Read, oa_post = probeAction reg rc (r_name rel) query_kind.Insert,
      oa_patch = probeAction reg rc (r_name rel) query_kind.Update, oa_delete = probeAction reg rc (r_name rel) query_kind.Delete\<rparr>"

definition root_options :: "root_env \<Rightarrow> server \<Rightarrow> http_request \<Rightarrow> identity \<Rightarrow> string \<Rightarrow> openapi_options" where
  "root_options re sv r ident activeSchema =
     (let comment = (case aget (sv_comments sv) activeSchema of Some c \<Rightarrow> c | None \<Rightarrow> []);
          o1 = \<lparr>oo_Title = [], oo_Description = [], oo_Version = [], oo_Host = hr_host r, oo_BasePath = [], oo_Schemes = [requestScheme r],
                oo_ActiveSchema = activeSchema, oo_Visibility = None, oo_SecurityActive = sv_openapiSecurity sv\<rparr>;
          o2 = (if comment = [] then o1
                else case cut comment [CHR 0x0A] of
                  Some (title, rest) \<Rightarrow> o1\<lparr>oo_Title := title, oo_Description := trim_space rest\<rparr>
                | None \<Rightarrow> o1\<lparr>oo_Title := comment, oo_Description := []\<rparr>);
          o3 = (if sv_openapiProxy sv \<noteq> [] then applyProxyURI (re_parse_url re) (sv_openapiProxy sv) o2 else o2) in
      case sv_authz sv of
        Some reg \<Rightarrow>
          if sv_openapiMode sv = ''follow-privileges''
          then o3\<lparr>oo_Visibility := Some (role_actions reg (buildContext sv r ident activeSchema))\<rparr> else o3
      | None \<Rightarrow> o3)"

definition openapiMedia :: string where
  "openapiMedia = ''application/openapi+json''"

definition serveRootSpec ::
  "go_env \<Rightarrow> server \<Rightarrow> ('d, 'e) backend \<Rightarrow> http_request \<Rightarrow> identity \<Rightarrow> string \<Rightarrow> header_map \<Rightarrow> 'd \<Rightarrow> 'd outcome" where
  "serveRootSpec env sv be r ident activeSchema h d =
     or_fail h d (ParseCall (ge_tz_ok env) (ge_json env) (ge_csv env) (sv_rootSpec sv) [] [] True [] [] []) (\<lambda>call.
     or_fail h d (if be_NativeRPC be then Inr (native_plan call True) else planned_call (be_Functions be) sv call True activeSchema) (\<lambda>p.
       execute be ident p (buildContext sv r ident activeSchema) h d (\<lambda>res d'.
       or_fail h d' (renderCall (ge_scan_error env) mediaJSON res (pn_func p) (sv_rootSpec sv)) (\<lambda>out.
         reply (WriteHeader (header_set ''Content-Type'' (openapiMedia @ ''; charset=utf-8'') h) 200 (unless_head r (rd_body out))) d'))))"

definition handleRoot ::
  "go_env \<Rightarrow> root_env \<Rightarrow> server \<Rightarrow> ('d, 'e) backend \<Rightarrow> http_request \<Rightarrow> identity \<Rightarrow> string \<Rightarrow> header_map \<Rightarrow> 'd \<Rightarrow> 'd outcome" where
  "handleRoot env re sv be r ident activeSchema h d =
     (if hr_method r = ''OPTIONS'' then reply (WriteHeader (header_set ''Allow'' rootAllow h) 200 []) d
      else if hr_method r \<noteq> ''GET'' \<and> hr_method r \<noteq> ''HEAD'' then
        failed (header_set ''Allow'' rootAllow h) d (ErrUnsupportedMethod (hr_method r))
      else if sv_openapiMode sv = ''disabled'' then failed h d errRootDisabled
      else if \<not> rootAcceptable (ge_float env) (header_values (hr_headers r) ''Accept'') then
        failed h d (ErrNotAcceptable (acceptedList (ge_float env) (header_values (hr_headers r) ''Accept'')))
      else if sv_rootSpec sv \<noteq> [] then serveRootSpec env sv be r ident activeSchema h d
      else case re_generate re (sv_model sv) (rpcRegistry be activeSchema) (root_options re sv r ident activeSchema) of
        Inl e \<Rightarrow> failed h d (ErrInternal e)
      | Inr body \<Rightarrow>
          reply (WriteHeader (header_set ''Content-Type'' (openapiMedia @ ''; charset=utf-8'') h) 200 (unless_head r body)) d)"

subsection \<open>Routing\<close>

definition route ::
  "go_env \<Rightarrow> root_env \<Rightarrow> server \<Rightarrow> ('d, 'e) backend \<Rightarrow> http_request \<Rightarrow> identity \<Rightarrow> string \<Rightarrow> header_map \<Rightarrow> 'd \<Rightarrow> 'd outcome" where
  "route env re sv be r ident activeSchema h d =
     (case rpcName (hr_path r) of
        Some fn \<Rightarrow> handleRPC env sv be r fn ident activeSchema h d
      | None \<Rightarrow>
          if hr_path r = ''/'' then handleRoot env re sv be r ident activeSchema h d
          else if hr_method r = ''GET'' \<or> hr_method r = ''HEAD'' then handleRead env sv be r ident activeSchema h d
          else if hr_method r = ''POST'' then handleWrite env sv be r query_kind.Insert ident activeSchema h d
          else if hr_method r = ''PATCH'' then handleWrite env sv be r query_kind.Update ident activeSchema h d
          else if hr_method r = ''PUT'' then handleWrite env sv be r Upsert ident activeSchema h d
          else if hr_method r = ''DELETE'' then handleWrite env sv be r query_kind.Delete ident activeSchema h d
          else failed h d (ErrUnsupportedMethod (hr_method r)))"

text \<open>\<open>ServeHTTP\<close>, at the time \<open>now\<close>, with the verifier's token cache it finds and the one it leaves.\<close>

definition ServeHTTP ::
  "go_env \<Rightarrow> root_env \<Rightarrow> server \<Rightarrow> ('d, 'e) backend \<Rightarrow> int \<Rightarrow> http_request \<Rightarrow> claims jwt_cache option \<Rightarrow> 'd \<Rightarrow>
   (response \<times> claims jwt_cache option \<times> 'd) option" where
  "ServeHTTP env re sv be now r cache d =
     (case serveCORS sv r [] of
        Inl w \<Rightarrow> map_option (\<lambda>x. (x, cache, d)) w
      | Inr h \<Rightarrow>
          if hr_method r = ''OPTIONS'' then map_option (\<lambda>x. (x, cache, d)) (handleOptions be r h)
          else case authenticate env sv now r cache of
            None \<Rightarrow> None
          | Some (who, cache') \<Rightarrow>
              map_option (\<lambda>(x, d'). (x, cache', d'))
                (or_fail h d who (\<lambda>ident.
                 or_fail h d (resolveSchema sv r) (\<lambda>(activeSchema, negotiated).
                   route env re sv be r ident activeSchema
                     (if negotiated then header_set ''Content-Profile'' activeSchema h else h) d))))"

end
