(* ===== verification/Http_Facts.thy ===== *)
theory Http_Facts
  imports Http_Handlers Plan_Facts
begin

section \<open>What a request does to the database\<close>

text \<open>
  The handlers of \<open>Http_Handlers\<close> from the outside: which plans reach the backend, under which identity, and that
  every request is answered.
\<close>

definition touches :: "('d, 'e) backend \<Rightarrow> ir_plan \<Rightarrow> full_context \<Rightarrow> 'd \<Rightarrow> 'd \<Rightarrow> bool" where
  "touches be p rc d d' \<longleftrightarrow>
     (\<exists>x. be_Execute be p rc d = Some (x, d')) \<or>
     (\<exists>ex opts x. be_Explainer be = Some ex \<and> 
        (ex_Read ex p rc opts d = Some (x, d') \<or> ex_Write ex p rc opts d = Some (x, d') \<or> ex_Call ex p rc opts d = Some (x, d')))"

lemma failed_db: "failed h d e = Some (x, d') \<Longrightarrow> d' = d"
  by (auto simp: failed_def reply_def)

lemma reply_db: "reply w d = Some (x, d') \<Longrightarrow> d' = d"
  by (auto simp: reply_def)

lemma or_failE:
  assumes "or_fail h d m k = Some (x, d')"
  obtains "d' = d" | y where "m = Inr y" "k y = Some (x, d')"
proof (cases m)
  case (Inl e)
  then have "d' = d" using assms by (auto simp: or_fail_def dest: failed_db)
  then show ?thesis using that(1) by blast
next
  case (Inr y)
  then show ?thesis using that(2) assms by (simp add: or_fail_def)
qed

lemma servePlanE:
  assumes "servePlan sv be r ident explain h d = Some (x, d')"
  obtains "d' = d" | ex opts y where "be_Explainer be = Some ex" "explain ex opts d = Some (y, d')"
proof (cases "sv_planEnabled sv \<and> be_Explainer be \<noteq> None")
  case True
  then obtain ex where ex: "be_Explainer be = Some ex" by auto
  define opts where "opts = (case parsePlan (header_values (hr_headers r) ''Accept'') of Some o1 \<Rightarrow> o1 | None \<Rightarrow> no_plan_options)"
  have "(case explain ex opts d of
           None \<Rightarrow> None
         | Some (Inl err, d') \<Rightarrow> failed h d' (mapExecError be err (id_anonymous ident))
         | Some (Inr bytes, d') \<Rightarrow> reply (WriteHeader (header_set ''Content-Type'' (planContentType opts) h) 200 bytes) d') = Some (x, d')"
    using assms True ex unfolding opts_def by (simp add: servePlan_def Let_def)
  then obtain y where "explain ex opts d = Some (y, d')"
    by (auto dest: failed_db reply_db split: option.split_asm prod.split_asm sum.split_asm)
  then show ?thesis using that(2) ex by blast
next
  case False
  then have "d' = d" using assms by (auto simp: servePlan_def dest: failed_db split: if_split_asm option.split_asm)
  then show ?thesis using that(1) by blast
qed

lemma executeE:
  assumes "execute be ident p rc h d k = Some (x, d')" and "\<And>res d1. k res d1 = Some (x, d') \<Longrightarrow> d' = d1"
  shows "touches be p rc d d'"
proof -
  obtain y d1 where y: "be_Execute be p rc d = Some (y, d1)"
    using assms(1) by (cases "be_Execute be p rc d") (auto simp: execute_def)
  have "d' = d1" using assms y by (cases y) (auto simp: execute_def dest: failed_db)
  then show ?thesis using y by (simp add: touches_def)
qed

subsection \<open>The plans of each handler\<close>

lemma run_table_db:
  assumes "run_table sv be r ident sch h d media q p0 explain k = Some (x, d')" and "explain \<in> {ex_Read, ex_Write}"
    and "\<And>p res d1. k p res d1 = Some (x, d') \<Longrightarrow> d' = d1"
  shows "d' = d \<or> (\<exists>p rc. rc = with_timezone (q_prefer (base q)) (buildContext sv r ident sch) \<and>
    authorize sv rc p0 = Some (Inr p) \<and> touches be p rc d d')"
proof -
  let ?rc = "with_timezone (q_prefer (base q)) (buildContext sv r ident sch)"
  obtain auth where a: "authorize sv ?rc p0 = Some auth"
    using assms(1) by (cases "authorize sv ?rc p0") (simp_all add: run_table_def Let_def)
  show ?thesis using assms(1) unfolding run_table_def Let_def a option.case
  proof (elim or_failE)
    fix p
    assume p: "auth = Inr p" and k: "(if media = mediaPlan then servePlan sv be r ident (\<lambda>ex. explain ex p ?rc) h d
      else execute be ident p ?rc h d (k p)) = Some (x, d')"
    have "d' = d \<or> touches be p ?rc d d'"
    proof (cases "media = mediaPlan")
      case True
      then show ?thesis using k assms(2) by (auto elim!: servePlanE simp: touches_def)
    next
      case False
      then show ?thesis using k assms(3) executeE by metis
    qed
    then show ?thesis using a p by blast
  qed simp
qed

lemma or_fail_reply_db: "or_fail h d m (\<lambda>y. reply (w y) d) = Some (x, d') \<Longrightarrow> d' = d"
  by (auto elim!: or_failE dest: reply_db)

text \<open>A plan that a handler passes on, for a query that it read and the gate let through, or for a call.\<close>

definition read_plan_of :: "go_env \<Rightarrow> server \<Rightarrow> http_request \<Rightarrow> string \<Rightarrow> query \<Rightarrow> ir_plan \<Rightarrow> bool" where
  "read_plan_of env sv r sch q p0 \<longleftrightarrow> (\<exists>rel media. read_query env sv r rel media = Inr q \<and> read_plan sv sch q = Inr p0)"

definition write_plan_of :: "go_env \<Rightarrow> server \<Rightarrow> http_request \<Rightarrow> string \<Rightarrow> query \<Rightarrow> ir_plan \<Rightarrow> bool" where
  "write_plan_of env sv r sch q p0 \<longleftrightarrow>
     (\<exists>kind rel media. write_query env sv r kind rel media = Inr q \<and> write_plan env sv sch q = Inr p0)"

definition call_plan_of :: "go_env \<Rightarrow> server \<Rightarrow> ('d, 'e) backend \<Rightarrow> http_request \<Rightarrow> string \<Rightarrow> ir_plan \<Rightarrow> bool" where
  "call_plan_of env sv be r sch p \<longleftrightarrow>
     (\<exists>fn media isGet call. rpc_call env sv be r fn sch media isGet = Inr call \<and> rpc_plan sv be call isGet sch = Inr p)"

definition root_plan_of :: "go_env \<Rightarrow> server \<Rightarrow> ('d, 'e) backend \<Rightarrow> string \<Rightarrow> ir_plan \<Rightarrow> bool" where
  "root_plan_of env sv be sch p \<longleftrightarrow>
     (\<exists>call. ParseCall (ge_tz_ok env) (ge_json env) (ge_csv env) (sv_rootSpec sv) [] [] True [] [] [] = Inr call \<and>
       (if be_NativeRPC be then Inr (native_plan call True) else planned_call (be_Functions be) sv call True sch) = Inr p)"

lemma call_plan_ofI:
  "rpc_call env sv be r fn sch media g = Inr call \<Longrightarrow> rpc_plan sv be call g sch = Inr p \<Longrightarrow> call_plan_of env sv be r sch p"
  unfolding call_plan_of_def by blast

lemma handleRead_db:
  assumes "handleRead env sv be r ident sch h d = Some (x, d')"
  shows "d' = d \<or> (\<exists>q p0 p rc. read_plan_of env sv r sch q p0 \<and> rc = with_timezone (q_prefer (base q)) (buildContext sv r ident sch) \<and>
    authorize sv rc p0 = Some (Inr p) \<and> touches be p rc d d')"
proof (cases "table_path (hr_path r)")
  case None
  then show ?thesis using assms by (auto simp: handleRead_def dest: failed_db)
next
  case (Some rel)
  show ?thesis using assms unfolding handleRead_def Some option.case
  proof (elim or_failE)
    fix media q p0
    assume q: "read_query env sv r rel media = Inr q" "read_plan sv sch q = Inr p0" and rt: "run_table sv be r ident sch h d media q p0 ex_Read (\<lambda>p res d'.
              or_fail h d' (renderFor (ge_scan_error env) media res (embedKeys (the (pn_query p)))) (\<lambda>out.
                reply (writeRead r (the (pn_query p)) out (res_controls res) h) d')) = Some (x, d')"
    have "read_plan_of env sv r sch q p0" using q by (auto simp: read_plan_of_def)
    moreover from rt have "d' = d \<or> (\<exists>p rc. rc = with_timezone (q_prefer (base q)) (buildContext sv r ident sch) \<and>
        authorize sv rc p0 = Some (Inr p) \<and> touches be p rc d d')"
      by (rule run_table_db) (simp, rule or_fail_reply_db)
    ultimately show ?thesis by blast
  qed simp_all
qed

lemma handleWrite_db:
  assumes "handleWrite env sv be r kind ident sch h d = Some (x, d')"
  shows "d' = d \<or> (\<exists>q p0 p rc. write_plan_of env sv r sch q p0 \<and> rc = with_timezone (q_prefer (base q)) (buildContext sv r ident sch) \<and>
    authorize sv rc p0 = Some (Inr p) \<and> touches be p rc d d')"
proof (cases "table_path (hr_path r)")
  case None
  then show ?thesis using assms by (auto simp: handleWrite_def dest: failed_db)
next
  case (Some rel)
  show ?thesis using assms unfolding handleWrite_def Some option.case
  proof (elim or_failE)
    fix media q p0
    assume q: "write_query env sv r kind rel media = Inr q" "write_plan env sv sch q = Inr p0" and rt: "run_table sv be r ident sch h d media q p0 ex_Write (\<lambda>p res d'.
              reply (writeWrite env r (the (pn_query p)) media (the (pn_rel p)) res h) d') = Some (x, d')"
    have "write_plan_of env sv r sch q p0" using q by (auto simp: write_plan_of_def)
    moreover from rt have "d' = d \<or> (\<exists>p rc. rc = with_timezone (q_prefer (base q)) (buildContext sv r ident sch) \<and>
        authorize sv rc p0 = Some (Inr p) \<and> touches be p rc d d')"
      by (rule run_table_db) (simp, rule reply_db)
    ultimately show ?thesis by blast
  qed simp_all
qed

lemma handleRPC_db:
  assumes "handleRPC env sv be r fn ident sch h d = Some (x, d')"
  shows "d' = d \<or> (\<exists>p (call :: ir_call) rc. call_plan_of env sv be r sch p \<and> rc = with_timezone (cl_prefer call) (buildContext sv r ident sch) \<and>
    touches be p rc d d')"
proof -
  let ?get = "hr_method r = ''GET'' \<or> hr_method r = ''HEAD''"
  have refuse: "d' = d" if "CHR ''/'' \<in> set fn \<or> fn = [] \<or> \<not> ?get \<and> hr_method r \<noteq> ''POST''"
    using that assms by (auto simp: handleRPC_def dest: failed_db split: if_split_asm)
  show ?thesis
  proof (cases "CHR ''/'' \<in> set fn \<or> fn = [] \<or> \<not> ?get \<and> hr_method r \<noteq> ''POST''")
    case False
    define tail where "tail = (\<lambda>media p.
      let call = the (pn_call p); rc = with_timezone (cl_prefer call) (buildContext sv r ident sch) in
          if media = mediaPlan then servePlan sv be r ident (\<lambda>ex. ex_Call ex p rc) h d
          else execute be ident p rc h d (\<lambda>res d'.
            or_fail h d' (if cl_embeds call \<noteq> [] then renderFor (ge_scan_error env) media res (embedKeysFor (cl_embeds call) (cl_select call))
                          else renderCall (ge_scan_error env) media res (pn_func p) fn) (\<lambda>out.
              reply (writeCall r call out (res_controls res) h) d')))"
    have "or_fail h d (accept_media env r) (\<lambda>media.
        or_fail h d (rpc_call env sv be r fn sch media ?get) (\<lambda>call0.
        or_fail h d (rpc_plan sv be call0 ?get sch) (tail media))) = Some (x, d')"
      using assms False unfolding handleRPC_def tail_def Let_def by (simp only: if_False if_cancel de_Morgan_disj)
    then show ?thesis
    proof (elim or_failE)
      fix media call0 p
      assume c: "rpc_call env sv be r fn sch media ?get = Inr call0" "rpc_plan sv be call0 ?get sch = Inr p" and t: "tail media p = Some (x, d')"
      let ?rc = "with_timezone (cl_prefer (the (pn_call p))) (buildContext sv r ident sch)"
      have cp: "call_plan_of env sv be r sch p" by (rule call_plan_ofI [OF c])
      have "d' = d \<or> touches be p ?rc d d'"
      proof (cases "media = mediaPlan")
        case True
        then show ?thesis using t by (auto simp: tail_def Let_def touches_def elim!: servePlanE)
      next
        case False
        have "touches be p ?rc d d'" using t unfolding tail_def Let_def if_not_P [OF False]
          by (rule executeE) (rule or_fail_reply_db)
        then show ?thesis by simp
      qed
      then show ?thesis
      proof
        assume t: "touches be p ?rc d d'"
        have "\<exists>p (call :: ir_call) rc. call_plan_of env sv be r sch p \<and> rc = with_timezone (cl_prefer call) (buildContext sv r ident sch) \<and> touches be p rc d d'"
          by (rule exI [of _ p], rule exI [of _ "the (pn_call p)"], rule exI [of _ ?rc]) (intro conjI cp refl t)
        then show ?thesis ..
      qed simp
    qed simp_all
  qed (use refuse in simp)
qed

lemma serveRootSpec_db:
  assumes "serveRootSpec env sv be r ident sch h d = Some (x, d')"
  shows "d' = d \<or> (\<exists>p. root_plan_of env sv be sch p \<and> touches be p (buildContext sv r ident sch) d d')"
  using assms unfolding serveRootSpec_def
proof (elim or_failE)
  fix call p
  assume "ParseCall (ge_tz_ok env) (ge_json env) (ge_csv env) (sv_rootSpec sv) [] [] True [] [] [] = Inr call"
    "(if be_NativeRPC be then Inr (native_plan call True) else planned_call (be_Functions be) sv call True sch) = Inr p"
    and e: "execute be ident p (buildContext sv r ident sch) h d (\<lambda>res d'.
       or_fail h d' (renderCall (ge_scan_error env) mediaJSON res (pn_func p) (sv_rootSpec sv)) (\<lambda>out.
         reply (WriteHeader (header_set ''Content-Type'' (openapiMedia @ ''; charset=utf-8'') h) 200 (unless_head r (rd_body out))) d')) = Some (x, d')"
  moreover have "touches be p (buildContext sv r ident sch) d d'" using e by (rule executeE) (rule or_fail_reply_db)
  ultimately show ?thesis unfolding root_plan_of_def by blast
qed simp_all

lemma handleRoot_db:
  assumes "handleRoot env re sv be r ident sch h d = Some (x, d')"
  shows "d' = d \<or> (\<exists>p. root_plan_of env sv be sch p \<and> touches be p (buildContext sv r ident sch) d d')"
  using assms serveRootSpec_db [of env sv be r ident sch h d x d']
  by (auto simp: handleRoot_def dest: failed_db reply_db split: if_split_asm sum.split_asm)

subsection \<open>The gate stands before every table query\<close>

lemma planned_call_no_query: "planned_call reg sv call g sch = Inr p \<Longrightarrow> pn_query p = None"
  by (auto simp: planned_call_def bindr_Inr_conv)

lemma call_plan_no_query: "call_plan_of env sv be r sch p \<Longrightarrow> pn_query p = None"
  by (auto simp: call_plan_of_def rpc_plan_def native_plan_def dest: planned_call_no_query split: if_split_asm)

lemma root_plan_no_query: "root_plan_of env sv be sch p \<Longrightarrow> pn_query p = None"
  by (auto simp: root_plan_of_def native_plan_def dest: planned_call_no_query split: if_split_asm)

lemma with_timezone_context [simp]:
  "req_context.truncate (with_timezone p rc) = req_context.truncate rc" "cx_schema (with_timezone p rc) = cx_schema rc"
  by (simp_all add: with_timezone_def req_context.truncate_def split: option.split)

lemma buildContext_fields [simp]:
  "req_context.truncate (buildContext sv r ident sch) =
     \<lparr>rc_role = id_role ident, rc_anonymous = id_anonymous ident, rc_claims = id_claims ident\<rparr>"
  "cx_schema (buildContext sv r ident sch) = sch"
  by (simp_all add: buildContext_def req_context.truncate_def)

text \<open>\<open>gated\<close>: with a registry attached, the query of the plan is what the gate returned under the request's context.\<close>

definition gated :: "server \<Rightarrow> full_context \<Rightarrow> ir_plan \<Rightarrow> bool" where
  "gated sv rc p \<longleftrightarrow>
     (\<forall>reg q'. sv_authz sv = Some reg \<and> pn_query p = Some q' \<longrightarrow> (\<exists>q. Authorize reg (req_context.truncate rc) q = Some (Inr q')))"

definition runs_as :: "identity \<Rightarrow> string \<Rightarrow> full_context \<Rightarrow> bool" where
  "runs_as ident sch rc \<longleftrightarrow>
     req_context.truncate rc = \<lparr>rc_role = id_role ident, rc_anonymous = id_anonymous ident, rc_claims = id_claims ident\<rparr> \<and> cx_schema rc = sch"

lemma map_sum_Inr: "map_sum f g s = Inr y \<longleftrightarrow> (\<exists>x. s = Inr x \<and> y = g x)"
  by (cases s) auto

lemma authorize_gated: "authorize sv rc p0 = Some (Inr p) \<Longrightarrow> gated sv rc p"
  by (auto simp: authorize_def gated_def AuthorizePlan_def map_sum_Inr split: option.split_asm)

lemma no_query_gated: "pn_query p = None \<Longrightarrow> gated sv rc p"
  by (simp add: gated_def)

subsection \<open>The row cap\<close>

definition plan_limit :: "ir_plan \<Rightarrow> int option" where
  "plan_limit p = (case pn_query p of Some q \<Rightarrow> q_limit (base q) | None \<Rightarrow> Option.bind (pn_call p) cl_limit)"

definition within_cap :: "server \<Rightarrow> ir_plan \<Rightarrow> bool" where
  "within_cap sv p \<longleftrightarrow> 0 < sv_maxRows sv \<longrightarrow> (\<exists>l. plan_limit p = Some l \<and> l \<le> sv_maxRows sv)"

lemma capLimit_bound: "0 < sv_maxRows sv \<Longrightarrow> \<exists>l. capLimit sv m = Some l \<and> l \<le> sv_maxRows sv"
  by (cases m) (auto simp: capLimit_def)

lemma read_query_capped: "read_query env sv r rel media = Inr q \<Longrightarrow> \<exists>m. q_limit (base q) = capLimit sv m"
  by (auto simp: read_query_def bindr_Inr_conv Let_def)

lemma PlanRead_limit: "PlanRead m q path agg = Inr (q', rel) \<Longrightarrow> q_limit (base q') = q_limit (base q)"
  by (erule PlanRead_InrE) (simp add: reclassifyEmbedFilters_def bind_relation_def)

lemma Authorize_limit: "Authorize reg rc q = Some (Inr q') \<Longrightarrow> q_limit (base q') = q_limit (base q)"
  using Authorize_rest(2) [of reg rc q q' None] by (metis query_base.select_convs(6) query_base.surjective query_base.update_convs(4))

lemma authorize_limit: "authorize sv rc p0 = Some (Inr p) \<Longrightarrow> pn_query p0 = Some q \<Longrightarrow> plan_limit p = plan_limit p0"
  by (auto simp: authorize_def AuthorizePlan_def map_sum_Inr plan_limit_def Authorize_limit split: option.split_asm)

lemma read_within_cap:
  assumes "read_plan_of env sv r sch q p0" "authorize sv rc p0 = Some (Inr p)"
  shows "within_cap sv p"
proof -
  obtain q' rel where q': "PlanRead (sv_model sv) q [sch] (sv_aggregatesOn sv) = Inr (q', rel)" "pn_query p0 = Some q'"
    using assms(1) by (auto simp: read_plan_of_def read_plan_def bindr_Inr_conv)
  obtain m where "q_limit (base q) = capLimit sv m" using assms(1) unfolding read_plan_of_def by (blast dest: read_query_capped)
  then show ?thesis
    using capLimit_bound authorize_limit [OF assms(2) q'(2)] PlanRead_limit [OF q'(1)] q'(2)
    by (auto simp: within_cap_def plan_limit_def)
qed

lemma rpc_call_capped: "rpc_call env sv be r fn sch media g = Inr c \<Longrightarrow> \<exists>m. cl_limit c = capLimit sv m"
  by (auto simp: rpc_call_def bindr_Inr_conv Let_def)

lemma partition_limit: "partition_call reg g c = Inr c1 \<Longrightarrow> cl_limit c1 = cl_limit c"
  by (auto simp: partition_call_def PartitionGetArgs_def Let_def bindr_Inr_conv split: option.split_asm if_split_asm)

lemma resolveCallEmbeds_limit: "resolveCallEmbeds m fn c path = Inr c' \<Longrightarrow> cl_limit c' = cl_limit c"
  by (auto simp: resolveCallEmbeds_def Let_def bindr_Inr_conv opt_err_conv split: option.split_asm)

lemma PlanCall_limit: "PlanCall reg m c g path = Inr cp \<Longrightarrow> cl_limit (pl_call cp) = cl_limit c"
  by (erule PlanCall_InrE) (auto dest!: partition_limit resolveCallEmbeds_limit split: if_split_asm)

lemma planned_call_limit: "planned_call reg sv call g sch = Inr p \<Longrightarrow> plan_limit p = cl_limit call"
  by (auto simp: planned_call_def bindr_Inr_conv plan_limit_def dest: PlanCall_limit)

lemma call_within_cap: "call_plan_of env sv be r sch p \<Longrightarrow> within_cap sv p"
proof -
  assume "call_plan_of env sv be r sch p"
  then obtain fn media g call where c: "rpc_call env sv be r fn sch media g = Inr call" "rpc_plan sv be call g sch = Inr p"
    by (auto simp: call_plan_of_def)
  have "plan_limit p = cl_limit call" using c(2) planned_call_limit
    by (auto simp: rpc_plan_def native_plan_def plan_limit_def split: if_split_asm)
  then show ?thesis using rpc_call_capped [OF c(1)] capLimit_bound by (auto simp: within_cap_def)
qed

subsection \<open>Requests\<close>

definition reads_rows :: "http_request \<Rightarrow> bool" where
  "reads_rows r \<longleftrightarrow> rpcName (hr_path r) \<noteq> None \<or> hr_path r \<noteq> ''/'' \<and> hr_method r \<in> {''GET'', ''HEAD''}"

lemma run_context: "runs_as ident sch (with_timezone p (buildContext sv r ident sch))" "runs_as ident sch (buildContext sv r ident sch)"
  by (simp_all add: runs_as_def)

lemma route_db:
  assumes "route env re sv be r ident sch h d = Some (x, d')"
  shows "d' = d \<or> (\<exists>p rc. runs_as ident sch rc \<and> gated sv rc p \<and> (reads_rows r \<longrightarrow> within_cap sv p) \<and> touches be p rc d d')"
proof -
  have read: ?thesis if "d' = d \<or> (\<exists>q p0 p rc. read_plan_of env sv r sch q p0 \<and> rc = with_timezone (q_prefer (base q)) (buildContext sv r ident sch) \<and>
    authorize sv rc p0 = Some (Inr p) \<and> touches be p rc d d')"
    using that authorize_gated read_within_cap run_context by metis
  have wrt: ?thesis if "d' = d \<or> (\<exists>q p0 p rc. write_plan_of env sv r sch q p0 \<and> rc = with_timezone (q_prefer (base q)) (buildContext sv r ident sch) \<and>
    authorize sv rc p0 = Some (Inr p) \<and> touches be p rc d d')" and "\<not> reads_rows r"
    using that authorize_gated run_context by metis
  have call: ?thesis if "d' = d \<or> (\<exists>p (call :: ir_call) rc. call_plan_of env sv be r sch p \<and> rc = with_timezone (cl_prefer call) (buildContext sv r ident sch) \<and>
    touches be p rc d d')"
    using that call_plan_no_query no_query_gated call_within_cap run_context by metis
  have root: ?thesis if "d' = d \<or> (\<exists>p. root_plan_of env sv be sch p \<and> touches be p (buildContext sv r ident sch) d d')" and "\<not> reads_rows r"
    using that root_plan_no_query no_query_gated run_context(2) by metis
  show ?thesis
  proof (cases "rpcName (hr_path r)")
    case (Some fn)
    then show ?thesis using assms handleRPC_db [of env sv be r fn ident sch h d x d'] call by (simp add: route_def)
  next
    case None
    then show ?thesis using assms handleRoot_db [of env re sv be r ident sch h d x d'] root
        handleRead_db [of env sv be r ident sch h d x d'] handleWrite_db [of env sv be r _ ident sch h d x d'] read wrt failed_db [of h d _ x d']
      by (auto simp: route_def reads_rows_def split: if_split_asm)
  qed
qed

subsection \<open>A log of what reaches the backend\<close>

text \<open>\<open>traced be\<close> is the backend \<open>be\<close> with a log beside its database, of every plan that is run or explained.\<close>

definition log_run :: "(ir_plan \<Rightarrow> full_context \<Rightarrow> 'd \<Rightarrow> ('x \<times> 'd) option) \<Rightarrow>
  ir_plan \<Rightarrow> full_context \<Rightarrow> 'd \<times> (ir_plan \<times> full_context) list \<Rightarrow> ('x \<times> 'd \<times> (ir_plan \<times> full_context) list) option" where
  "log_run f p rc dl = map_option (\<lambda>(x, d'). (x, d', snd dl @ [(p, rc)])) (f p rc (fst dl))"

definition log_explain :: "('d, 'e) explainer \<Rightarrow> ('d \<times> (ir_plan \<times> full_context) list, 'e) explainer" where
  "log_explain ex = \<lparr>ex_Read = (\<lambda>p rc opts. log_run (\<lambda>p rc. ex_Read ex p rc opts) p rc),
     ex_Write = (\<lambda>p rc opts. log_run (\<lambda>p rc. ex_Write ex p rc opts) p rc),
     ex_Call = (\<lambda>p rc opts. log_run (\<lambda>p rc. ex_Call ex p rc opts) p rc)\<rparr>"

definition traced :: "('d, 'e) backend \<Rightarrow> ('d \<times> (ir_plan \<times> full_context) list, 'e) backend" where
  "traced be = \<lparr>be_NativeRPC = be_NativeRPC be, be_Functions = be_Functions be, be_SchemaFunctions = be_SchemaFunctions be,
     be_Execute = log_run (be_Execute be), be_Explainer = map_option log_explain (be_Explainer be),
     be_As = be_As be, be_MapError = be_MapError be, be_ErrorText = be_ErrorText be\<rparr>"

lemma traced_simps [simp]:
  "be_NativeRPC (traced be) = be_NativeRPC be" "be_Functions (traced be) = be_Functions be"
  "be_SchemaFunctions (traced be) = be_SchemaFunctions be"
  "be_Execute (traced be) = log_run (be_Execute be)" "be_Explainer (traced be) = map_option log_explain (be_Explainer be)"
  "be_As (traced be) = be_As be" "be_MapError (traced be) = be_MapError be" "be_ErrorText (traced be) = be_ErrorText be"
  by (simp_all add: traced_def)

lemma traced_calls [simp]:
  "mapExecError (traced be) = mapExecError be" "rpcRegistry (traced be) = rpcRegistry be" "rpcAllow (traced be) = rpcAllow be"
  "rpc_call env sv (traced be) = rpc_call env sv be" "rpc_plan sv (traced be) = rpc_plan sv be"
proof -
  have "asAPIError (traced be) = asAPIError be" by (simp add: fun_eq_iff asAPIError_def split: option.split)
  then show "mapExecError (traced be) = mapExecError be" by (simp add: fun_eq_iff mapExecError_def)
  show reg: "rpcRegistry (traced be) = rpcRegistry be" and "rpcAllow (traced be) = rpcAllow be"
    by (simp_all add: fun_eq_iff rpcRegistry_def rpcAllow_def split: option.split)
  show "rpc_call env sv (traced be) = rpc_call env sv be" "rpc_plan sv (traced be) = rpc_plan sv be"
    by (simp_all add: fun_eq_iff rpc_call_def rpc_plan_def reg)
qed

text \<open>A logged run answers as the run does and leaves the same database.\<close>

definition unlog :: "('d \<times> 'l) outcome \<Rightarrow> 'd outcome" where
  "unlog = map_option (map_prod id fst)"

lemma unlog_reply [simp]: "unlog (reply w dl) = reply w (fst dl)"
  by (simp add: unlog_def reply_def option.map_comp comp_def)

lemma unlog_failed [simp]: "unlog (failed h dl e) = failed h (fst dl) e"
  by (simp add: failed_def)

lemma unlog_or_fail [simp]: "unlog (or_fail h dl m k) = or_fail h (fst dl) m (\<lambda>y. unlog (k y))"
  by (cases m) (simp_all add: or_fail_def)

lemma unlog_execute:
  assumes "\<And>res dl'. unlog (k res dl') = k' res (fst dl')"
  shows "unlog (execute (traced be) ident p rc h dl k) = execute be ident p rc h (fst dl) k'"
proof (cases "be_Execute be p rc (fst dl)")
  case (Some r)
  then show ?thesis by (cases r, cases "fst r") (auto simp: execute_def log_run_def assms)
qed (simp add: execute_def log_run_def unlog_def)

lemma unlog_servePlan:
  assumes "\<And>ex opts. explain (log_explain ex) opts dl = map_option (\<lambda>(x, d'). (x, d', g)) (explain' ex opts (fst dl))"
  shows "unlog (servePlan sv (traced be) r ident explain h dl) = servePlan sv be r ident explain' h (fst dl)"
proof (cases "be_Explainer be")
  case (Some ex)
  define opts where "opts = (case parsePlan (header_values (hr_headers r) ''Accept'') of Some o1 \<Rightarrow> o1 | None \<Rightarrow> no_plan_options)"
  show ?thesis
  proof (cases "explain' ex opts (fst dl)")
    case None
    then show ?thesis using Some assms [of ex opts] by (simp add: servePlan_def Let_def opts_def [symmetric]) (simp add: unlog_def)
  next
    case (Some y)
    then show ?thesis using \<open>be_Explainer be = Some ex\<close> assms [of ex opts]
      by (cases y, cases "fst y") (auto simp: servePlan_def Let_def opts_def [symmetric])
  qed
qed (simp add: servePlan_def)

lemma log_explain_runs:
  "ex_Read (log_explain ex) p rc opts dl = map_option (\<lambda>(x, d'). (x, d', snd dl @ [(p, rc)])) (ex_Read ex p rc opts (fst dl))"
  "ex_Write (log_explain ex) p rc opts dl = map_option (\<lambda>(x, d'). (x, d', snd dl @ [(p, rc)])) (ex_Write ex p rc opts (fst dl))"
  "ex_Call (log_explain ex) p rc opts dl = map_option (\<lambda>(x, d'). (x, d', snd dl @ [(p, rc)])) (ex_Call ex p rc opts (fst dl))"
  by (simp_all add: log_explain_def log_run_def)

lemma unlog_run_table:
  assumes "\<And>p rc ex opts. explain (log_explain ex) p rc opts dl = map_option (\<lambda>(x, d'). (x, d', g p rc)) (explain' ex p rc opts (fst dl))"
    and "\<And>p res dl'. unlog (k p res dl') = k' p res (fst dl')"
  shows "unlog (run_table sv (traced be) r ident sch h dl media q p0 explain k) =
    run_table sv be r ident sch h (fst dl) media q p0 explain' k'"
proof -
  let ?rc = "with_timezone (q_prefer (base q)) (buildContext sv r ident sch)"
  have "unlog (servePlan sv (traced be) r ident (\<lambda>ex. explain ex p rc) h dl) = servePlan sv be r ident (\<lambda>ex. explain' ex p rc) h (fst dl)" for p rc
    by (rule unlog_servePlan) (rule assms(1))
  moreover have "unlog (execute (traced be) ident p rc h dl (k p)) = execute be ident p rc h (fst dl) (k' p)" for p rc
    by (rule unlog_execute) (rule assms(2))
  ultimately show ?thesis
    by (cases "authorize sv ?rc p0") (simp_all add: run_table_def Let_def if_distrib [of unlog] cong: if_cong, simp add: unlog_def)
qed

lemma unlog_handleRead: "unlog (handleRead env sv (traced be) r ident sch h dl) = handleRead env sv be r ident sch h (fst dl)"
proof -
  have "unlog (run_table sv (traced be) r ident sch h dl media q p0 ex_Read (\<lambda>p res d'.
              or_fail h d' (renderFor (ge_scan_error env) media res (embedKeys (the (pn_query p)))) (\<lambda>out.
                reply (writeRead r (the (pn_query p)) out (res_controls res) h) d'))) =
      run_table sv be r ident sch h (fst dl) media q p0 ex_Read (\<lambda>p res d'.
              or_fail h d' (renderFor (ge_scan_error env) media res (embedKeys (the (pn_query p)))) (\<lambda>out.
                reply (writeRead r (the (pn_query p)) out (res_controls res) h) d'))" for media q p0
    by (rule unlog_run_table [where g = "\<lambda>p rc. snd dl @ [(p, rc)]"]) (rule log_explain_runs(1), simp)
  then show ?thesis by (simp add: handleRead_def split: option.split)
qed

lemma unlog_handleWrite: "unlog (handleWrite env sv (traced be) r kind ident sch h dl) = handleWrite env sv be r kind ident sch h (fst dl)"
proof -
  have "unlog (run_table sv (traced be) r ident sch h dl media q p0 ex_Write (\<lambda>p res d'.
              reply (writeWrite env r (the (pn_query p)) media (the (pn_rel p)) res h) d')) =
      run_table sv be r ident sch h (fst dl) media q p0 ex_Write (\<lambda>p res d'.
              reply (writeWrite env r (the (pn_query p)) media (the (pn_rel p)) res h) d')" for media q p0
    by (rule unlog_run_table [where g = "\<lambda>p rc. snd dl @ [(p, rc)]"]) (rule log_explain_runs(2), simp)
  then show ?thesis by (simp add: handleWrite_def split: option.split)
qed

lemma unlog_handleRPC: "unlog (handleRPC env sv (traced be) r fn ident sch h dl) = handleRPC env sv be r fn ident sch h (fst dl)"
proof -
  have "unlog (servePlan sv (traced be) r ident (\<lambda>ex. ex_Call ex p rc) h dl) = servePlan sv be r ident (\<lambda>ex. ex_Call ex p rc) h (fst dl)" for p rc
    by (rule unlog_servePlan) (rule log_explain_runs(3))
  moreover have "unlog (execute (traced be) ident p rc h dl (\<lambda>res d'. or_fail h d' (out res) (\<lambda>y. reply (w res y) d'))) =
      execute be ident p rc h (fst dl) (\<lambda>res d'. or_fail h d' (out res) (\<lambda>y. reply (w res y) d'))" for p rc and out :: "result \<Rightarrow> api_error + rendered" and w
    by (rule unlog_execute) simp
  ultimately show ?thesis by (simp add: handleRPC_def Let_def if_distrib [of unlog] cong: if_cong)
qed

lemma unlog_serveRootSpec: "unlog (serveRootSpec env sv (traced be) r ident sch h dl) = serveRootSpec env sv be r ident sch h (fst dl)"
proof -
  have "unlog (execute (traced be) ident p rc h dl (\<lambda>res d'. or_fail h d' (out res) (\<lambda>y. reply (w res y) d'))) =
      execute be ident p rc h (fst dl) (\<lambda>res d'. or_fail h d' (out res) (\<lambda>y. reply (w res y) d'))" for p rc and out :: "result \<Rightarrow> api_error + rendered" and w
    by (rule unlog_execute) simp
  then show ?thesis by (simp add: serveRootSpec_def cong: if_cong)
qed

lemma unlog_route: "unlog (route env re sv (traced be) r ident sch h dl) = route env re sv be r ident sch h (fst dl)"
  by (simp add: route_def handleRoot_def unlog_handleRead unlog_handleWrite unlog_handleRPC unlog_serveRootSpec if_distrib [of unlog]
      split: option.split sum.split cong: if_cong)

lemma unlog_served:
  "map_option (\<lambda>(x, c, dl'). (x, c, fst dl')) (map_option (\<lambda>(x, d'). (x, c, d')) a) = map_option (\<lambda>(x, d'). (x, c, d')) (unlog a)"
  by (simp add: unlog_def option.map_comp comp_def split_beta)

lemma traced_ServeHTTP:
  "map_option (\<lambda>(x, c, dl'). (x, c, fst dl')) (ServeHTTP env re sv (traced be) now r cache dl) = ServeHTTP env re sv be now r cache (fst dl)"
proof (cases "serveCORS sv r []")
  case (Inl w)
  then show ?thesis by (simp add: ServeHTTP_def option.map_comp comp_def)
next
  case (Inr h)
  have opt: "handleOptions (traced be) r h = handleOptions be r h" by (simp add: handleOptions_def cong: option.case_cong)
  show ?thesis
  proof (cases "hr_method r = ''OPTIONS''")
    case True
    then show ?thesis using Inr opt by (simp add: ServeHTTP_def option.map_comp comp_def)
  next
    case False
    then show ?thesis using Inr
      by (cases "authenticate env sv now r cache")
        (simp_all add: ServeHTTP_def unlog_served [unfolded split_beta'] unlog_route split_beta')
  qed
qed

lemma ServeHTTP_db:
  assumes "ServeHTTP env re sv be now r cache d = Some (resp, cache', d')"
  shows "d' = d \<or> (\<exists>ident sch n p rc. authenticate env sv now r cache = Some (Inr ident, cache') \<and> resolveSchema sv r = Inr (sch, n) \<and>
    runs_as ident sch rc \<and> gated sv rc p \<and> (reads_rows r \<longrightarrow> within_cap sv p) \<and> touches be p rc d d')"
proof (cases "d' = d")
  case False
  obtain h where h: "serveCORS sv r [] = Inr h" using assms False by (cases "serveCORS sv r []") (auto simp: ServeHTTP_def)
  have opt: "hr_method r \<noteq> ''OPTIONS''" using assms h False by (auto simp: ServeHTTP_def)
  obtain who c where a: "authenticate env sv now r cache = Some (who, c)"
    using assms h opt by (cases "authenticate env sv now r cache") (auto simp: ServeHTTP_def)
  have c: "c = cache'" and s: "or_fail h d who (\<lambda>ident. or_fail h d (resolveSchema sv r) (\<lambda>(sch, n).
      route env re sv be r ident sch (if n then header_set ''Content-Profile'' sch h else h) d)) = Some (resp, d')"
    using assms h opt a by (auto simp: ServeHTTP_def)
  then obtain ident sch n where i: "who = Inr ident" "resolveSchema sv r = Inr (sch, n)"
    and rt: "route env re sv be r ident sch (if n then header_set ''Content-Profile'' sch h else h) d = Some (resp, d')"
    using False by (elim or_failE) auto
  show ?thesis using route_db [OF rt] False a i c by blast
qed simp

lemma touches_log: "touches (traced be) p rc (d, []) (d', l) \<Longrightarrow> l = [(p, rc)]"
  by (auto simp: touches_def log_run_def log_explain_runs map_option_eq_Some)

lemma traced_run:
  assumes "ServeHTTP env re sv be now r cache d = Some (resp, cache', d')"
  obtains l where "ServeHTTP env re sv (traced be) now r cache (d, []) = Some (resp, cache', d', l)"
  using assms traced_ServeHTTP [of env re sv be now r cache "(d, [])"] by (auto simp: map_option_eq_Some)

text \<open>
  C1. A request reaches the database only through the gate: serving a request runs or explains at most one plan, and
  without one it leaves the database as it was. A plan is run only for an authenticated request with an exposed schema,
  under a context with that identity and schema. With a policy registry attached, the query of the plan is one the gate
  returned for this identity, and every row the filter of a read, update, delete or upsert keeps satisfies every USING
  term of the policies of the role.
\<close>

theorem served_request_gated:
  assumes "ServeHTTP env re sv be now r cache d = Some (resp, cache', d')"
  shows "\<exists>l. ServeHTTP env re sv (traced be) now r cache (d, []) = Some (resp, cache', d', l) \<and>
    (l = [] \<and> d' = d \<or>
     (\<exists>ident sch n p rc. l = [(p, rc)] \<and> authenticate env sv now r cache = Some (Inr ident, cache') \<and> resolveSchema sv r = Inr (sch, n) \<and>
        rc_role rc = id_role ident \<and> rc_claims rc = id_claims ident \<and> cx_schema rc = sch \<and>
        (\<forall>reg q'. sv_authz sv = Some reg \<and> pn_query p = Some q' \<longrightarrow>
           (\<exists>q. Authorize reg (req_context.truncate rc) q = Some (Inr q') \<and>
             (q_kind (base q) \<noteq> query_kind.Insert \<longrightarrow> (\<forall>en row. keeps en (q_where (base q')) row \<longrightarrow>
                (\<forall>t \<in> set (policy_terms reg p_using (id_role ident, ref_name (q_relation (base q)))). term_holds (id_claims ident) row t)))))))"
proof -
  obtain l where l: "ServeHTTP env re sv (traced be) now r cache (d, []) = Some (resp, cache', d', l)" by (rule traced_run [OF assms])
  show ?thesis
  proof (cases "(d', l) = (d, [])")
    case False
    then obtain ident sch n p rc where a: "authenticate env sv now r cache = Some (Inr ident, cache')" "resolveSchema sv r = Inr (sch, n)"
      and p: "runs_as ident sch rc" "gated sv rc p" and t: "touches (traced be) p rc (d, []) (d', l)"
      using ServeHTTP_db [OF l] by blast
    have rc: "rc_role rc = id_role ident" "rc_claims rc = id_claims ident" "cx_schema rc = sch"
      using p(1) by (auto simp: runs_as_def req_context.truncate_def)
    have tr: "rc_role (req_context.truncate rc) = id_role ident" "rc_claims (req_context.truncate rc) = id_claims ident"
      using p(1) by (auto simp: runs_as_def)
    have "\<exists>q. Authorize reg (req_context.truncate rc) q = Some (Inr q') \<and>
           (q_kind (base q) \<noteq> query_kind.Insert \<longrightarrow> (\<forall>en row. keeps en (q_where (base q')) row \<longrightarrow>
              (\<forall>t \<in> set (policy_terms reg p_using (id_role ident, ref_name (q_relation (base q)))). term_holds (id_claims ident) row t)))"
      if "sv_authz sv = Some reg" "pn_query p = Some q'" for reg q'
    proof -
      obtain q where q: "Authorize reg (req_context.truncate rc) q = Some (Inr q')"
        using p(2) \<open>sv_authz sv = Some reg\<close> \<open>pn_query p = Some q'\<close> by (auto simp: gated_def)
      then show ?thesis using Authorize_keeps [OF q] tr by auto
    qed
    then show ?thesis using l a rc touches_log [OF t] by blast
  qed (use l in simp)
qed

text \<open>A server over the films of \<open>demo_model\<close> and a backend that counts its executions, for concrete requests.\<close>

definition demo_film_grants :: "grant list" where
  "demo_film_grants = [\<lparr>g_role = ''web'', g_relation = ''films'', g_action = Select, g_columns = []\<rparr>]"

definition demo_film_policy :: policy where
  "demo_film_policy = \<lparr>p_relation = ''films'', p_role = ''web'',
     p_using = [\<lparr>t_column = ''title'', t_op = OpEq, t_claim = [], t_literal = LString ''Up''\<rparr>], p_with_check = []\<rparr>"

definition demo_server :: server where
  "demo_server = (NewServer demo_model [] [''public''])\<lparr>sv_role := ''web'',
     sv_authz := Some (NewRegistry demo_film_grants [demo_film_policy]), sv_maxRows := 100\<rparr>"

definition demo_backend :: "(nat, unit) backend" where
  "demo_backend = \<lparr>be_NativeRPC = False, be_Functions = EmptyRegistry, be_SchemaFunctions = None,
     be_Execute = (\<lambda>p rc d. Some (Inr (demo_result [''id'', ''title''] [[GInt 7, GString ''Up'']]), Suc d)),
     be_Explainer = None, be_As = (\<lambda>_. None), be_MapError = (\<lambda>_. None), be_ErrorText = (\<lambda>_. [])\<rparr>"

definition demo_env :: go_env where
  "demo_env = \<lparr>ge_tz_ok = (\<lambda>_. True), ge_json = (\<lambda>_. None), ge_csv = (\<lambda>_. Inr []), ge_float = (\<lambda>_. None), ge_put_text = (\<lambda>_. []),
     ge_float_text = id, ge_scan_error = (\<lambda>_. []), ge_jwt = demo_lib\<rparr>"

definition demo_root :: root_env where
  "demo_root = \<lparr>re_generate = (\<lambda>_ _ _. Inr ''{}''), re_parse_url = (\<lambda>_. None)\<rparr>"

definition demo_request :: "string \<Rightarrow> string \<Rightarrow> string \<Rightarrow> http_request" where
  "demo_request m p q = \<lparr>hr_method = m, hr_path = p, hr_raw_query = q, hr_headers = [], hr_cookies = [], hr_body = [],
     hr_body_fails = False, hr_host = ''localhost'', hr_tls = False\<rparr>"

definition demo_run :: "http_request \<Rightarrow> (response \<times> claims jwt_cache option \<times> nat) option" where
  "demo_run r = ServeHTTP demo_env demo_root demo_server demo_backend 0 r None 0"

lemma demo_served:
  "\<exists>w c. demo_run (demo_request ''GET'' ''/films'' ''id=eq.7'') = Some (w, c, 1) \<and> ht_status w = 200"
proof -
  have "case demo_run (demo_request ''GET'' ''/films'' ''id=eq.7'') of Some (w, c, d) \<Rightarrow> d = 1 \<and> ht_status w = 200 | None \<Rightarrow> False"
    by code_simp
  then show ?thesis by (auto split: option.split_asm prod.split_asm)
qed

theorem served_request_gated_witness:
  "\<exists>w c p rc ident. demo_run (demo_request ''GET'' ''/films'' ''id=eq.7'') = Some (w, c, 1) \<and>
     ServeHTTP demo_env demo_root demo_server (traced demo_backend) 0 (demo_request ''GET'' ''/films'' ''id=eq.7'') None (0, []) =
       Some (w, c, 1, [(p, rc)]) \<and>
     authenticate demo_env demo_server 0 (demo_request ''GET'' ''/films'' ''id=eq.7'') None = Some (Inr ident, c) \<and> rc_role rc = id_role ident"
proof -
  obtain w c where w: "demo_run (demo_request ''GET'' ''/films'' ''id=eq.7'') = Some (w, c, 1)" using demo_served by blast
  show ?thesis using served_request_gated [OF w [unfolded demo_run_def]] w by auto
qed

text \<open>
  C6. No read escapes the row cap: with db-max-rows set, every plan that a GET or HEAD of a table, or any call of a
  function, brings to the backend has a limit, and the limit is at most the cap, whatever the request asks for with
  its limit parameter or its Range header.
\<close>

theorem read_rows_capped:
  assumes "ServeHTTP env re sv (traced be) now r cache (d, []) = Some (resp, cache', d', l)" and "(p, rc) \<in> set l"
    and "reads_rows r" and "0 < sv_maxRows sv"
  shows "\<exists>n. plan_limit p = Some n \<and> n \<le> sv_maxRows sv"
proof -
  have "(d', l) \<noteq> (d, [])" using assms(2) by auto
  then obtain p' rc' where p: "within_cap sv p'" "touches (traced be) p' rc' (d, []) (d', l)"
    using ServeHTTP_db [OF assms(1)] assms(3) by blast
  then show ?thesis using touches_log [OF p(2)] assms(2,4) by (auto simp: within_cap_def)
qed

theorem read_rows_capped_witness:
  "\<exists>w c p rc n. ServeHTTP demo_env demo_root demo_server (traced demo_backend) 0 (demo_request ''GET'' ''/films'' ''limit=7000'') None (0, []) =
       Some (w, c, 1, [(p, rc)]) \<and> plan_limit p = Some n \<and> n \<le> 100"
proof -
  let ?run = "ServeHTTP demo_env demo_root demo_server (traced demo_backend) 0 (demo_request ''GET'' ''/films'' ''limit=7000'') None (0, [])"
  have "case ?run of Some (w, c, d, l) \<Rightarrow> d = 1 \<and> length l = 1 | None \<Rightarrow> False" by code_simp
  then obtain w c l where l: "?run = Some (w, c, 1, l)" "length l = 1" by (auto split: option.split_asm prod.split_asm)
  then obtain p rc where p: "l = [(p, rc)]" by (cases l) auto
  have r: "reads_rows (demo_request ''GET'' ''/films'' ''limit=7000'')" and m: "sv_maxRows demo_server = 100" by code_simp+
  from read_rows_capped [OF l(1), of p rc] r m p l show ?thesis by auto
qed

end
