(* ===== verification/Sqlgen_Facts.thy ===== *)
theory Sqlgen_Facts
  imports Dialects Plan_Facts
begin

section \<open>Values never reach the statement text\<close>

text \<open>
  The compiler's first invariant, stated over two runs: if two queries differ only in the values a
  client supplies, the statements have the same text and the same number of arguments, or the
  same refusal. \<open>erase_compare\<close> says what of an operand the text may depend on: the number of the elements of
  a list, which of the five keywords of \<open>is\<close> it is, the words true and false of an equality on a boolean column,
  and the engine's complaint about a regular expression. The locale \<open>value_blind\<close> is what this needs of a dialect.
\<close>

named_theorems blind \<open>two runs of a compiler step on alike inputs agree\<close>

subsection \<open>Queries alike up to values\<close>

definition is_words :: "string set" where
  "is_words = {''null'', ''not_null'', ''true'', ''false'', ''unknown''}"

definition boolean_column :: "compare \<Rightarrow> bool" where
  "boolean_column c \<longleftrightarrow> length (cmp_path c) \<le> 1 \<and> (cmp_column_type c = [] \<or> ClassOf (cmp_column_type c) = ClassBool)"

definition erase_elem :: "dialect \<Rightarrow> compare \<Rightarrow> string \<Rightarrow> string" where
  "erase_elem d c t = (if cmp_op c \<in> {OpMatch, OpIMatch} then RegexFeatureGap d t else [])"

definition erase_text :: "dialect \<Rightarrow> compare \<Rightarrow> string \<Rightarrow> string" where
  "erase_text d c t =
     (if cmp_op c \<in> {OpEq, OpNeq} \<and> boolean_column c \<and> t \<in> {''true'', ''false''} then t
      else if cmp_op c = OpIs \<and> t \<in> is_words then t
      else erase_elem d c t)"

lemma erase_is: "cmp_op c = OpIs \<Longrightarrow> erase_text d c t = (if t \<in> is_words then t else [])"
  by (simp add: erase_text_def erase_elem_def)

definition erase_compare :: "dialect \<Rightarrow> compare \<Rightarrow> compare" where
  "erase_compare d c = c\<lparr>cmp_value :=
     \<lparr>v_text = erase_text d c (v_text (cmp_value c)), v_list = map (erase_elem d c) (v_list (cmp_value c)), v_json = JNull\<rparr>\<rparr>"

fun erase_cond :: "dialect \<Rightarrow> cond \<Rightarrow> cond" where
  "erase_cond d (CAnd ks) = CAnd (map (erase_cond d) ks)"
| "erase_cond d (COr ks) = COr (map (erase_cond d) ks)"
| "erase_cond d (CNot k) = CNot (erase_cond d k)"
| "erase_cond d (CEmbedPredicate i ex) = CEmbedPredicate i ex"
| "erase_cond d (CCompare c) = CCompare (erase_compare d c)"

definition erase_row :: "ir_value go_map \<Rightarrow> ir_value go_map" where
  "erase_row r = map (\<lambda>(k, v). (k, json_value JNull)) r"

definition erase_write :: "write_spec \<Rightarrow> write_spec" where
  "erase_write w = w\<lparr>w_rows := map erase_row (w_rows w), w_set := erase_row (w_set w)\<rparr>"

definition erase_base :: "dialect \<Rightarrow> query_base \<Rightarrow> query_base" where
  "erase_base d b = b\<lparr>q_where := map_option (erase_cond d) (q_where b), q_write := map_option erase_write (q_write b)\<rparr>"

fun erase_query :: "dialect \<Rightarrow> query \<Rightarrow> query" and erase_embed :: "dialect \<Rightarrow> embed \<Rightarrow> embed" where
  "erase_query d (Query b es) = Query (erase_base d b) (map (erase_embed d) es)"
| "erase_embed d (Embed em q) = Embed em (erase_query d q)"

definition alike :: "dialect \<Rightarrow> query \<Rightarrow> query \<Rightarrow> bool" where
  "alike d q q' \<longleftrightarrow> erase_query d q = erase_query d q'"

definition alike_embed :: "dialect \<Rightarrow> embed \<Rightarrow> embed \<Rightarrow> bool" where
  "alike_embed d e e' \<longleftrightarrow> erase_embed d e = erase_embed d e'"

lemma erase_query_sel: "base (erase_query d q) = erase_base d (base q)" "embeds (erase_query d q) = map (erase_embed d) (embeds q)"
  by (cases q; simp)+

lemma erase_embed_sel: "meta (erase_embed d e) = meta e" "equery (erase_embed d e) = erase_query d (equery e)"
  by (cases e; simp)+

lemma alike_sel:
  assumes "alike d q q'"
  shows "q_select (base q) = q_select (base q')" "q_order (base q) = q_order (base q')"
    "q_relation (base q) = q_relation (base q')" "q_limit (base q) = q_limit (base q')" "q_offset (base q) = q_offset (base q')"
    "q_computed (base q) = q_computed (base q')" "q_reps (base q) = q_reps (base q')"
    "map_option (erase_cond d) (q_where (base q)) = map_option (erase_cond d) (q_where (base q'))"
    "map_option erase_write (q_write (base q)) = map_option erase_write (q_write (base q'))"
    "list_all2 (alike_embed d) (embeds q) (embeds q')"
proof -
  have eq: "erase_base d (base q) = erase_base d (base q')" "map (erase_embed d) (embeds q) = map (erase_embed d) (embeds q')"
    using assms by (metis alike_def erase_query_sel)+
  have keep: "q_select (erase_base d b) = q_select b" "q_order (erase_base d b) = q_order b"
    "q_relation (erase_base d b) = q_relation b" "q_limit (erase_base d b) = q_limit b" "q_offset (erase_base d b) = q_offset b"
    "q_computed (erase_base d b) = q_computed b" "q_reps (erase_base d b) = q_reps b"
    "q_where (erase_base d b) = map_option (erase_cond d) (q_where b)" "q_write (erase_base d b) = map_option erase_write (q_write b)" for b
    by (simp_all add: erase_base_def)
  show "q_select (base q) = q_select (base q')" "q_order (base q) = q_order (base q')"
    "q_relation (base q) = q_relation (base q')" "q_limit (base q) = q_limit (base q')" "q_offset (base q) = q_offset (base q')"
    "q_computed (base q) = q_computed (base q')" "q_reps (base q) = q_reps (base q')"
    "map_option (erase_cond d) (q_where (base q)) = map_option (erase_cond d) (q_where (base q'))"
    "map_option erase_write (q_write (base q)) = map_option erase_write (q_write (base q'))"
    by (metis eq(1) keep)+
  show "list_all2 (alike_embed d) (embeds q) (embeds q')"
    using eq(2) by (simp add: alike_embed_def list_eq_iff_nth_eq list_all2_conv_all_nth)
qed

lemma alike_embed_sel:
  assumes "alike_embed d e e'"
  shows "meta e = meta e'" and "alike d (equery e) (equery e')"
proof -
  show "meta e = meta e'" using assms by (metis alike_embed_def erase_embed_sel(1))
  show "alike d (equery e) (equery e')" using assms unfolding alike_def by (metis alike_embed_def erase_embed_sel(2))
qed

subsection \<open>Two runs\<close>

definition sim :: "dialect \<Rightarrow> builder \<Rightarrow> builder \<Rightarrow> bool" where
  "sim d b b' \<longleftrightarrow> b\<lparr>b_args := [], b_embeds := [], b_ctxArgs := []\<rparr> = b'\<lparr>b_args := [], b_embeds := [], b_ctxArgs := []\<rparr> \<and>
     keys_of (b_ctxArgs b) = keys_of (b_ctxArgs b') \<and> length (b_args b) = length (b_args b') \<and> list_all2 (alike_embed d) (b_embeds b) (b_embeds b')"

text \<open>
  Two refusals are the same; the one that quotes a value is the syntax error for an unknown operand of \<open>is\<close>, whose
  text may differ in that operand.
\<close>

definition same_refusal :: "api_error \<Rightarrow> api_error \<Rightarrow> bool" where
  "same_refusal e e' \<longleftrightarrow> e = e' \<or>
     (\<exists>t t'. e = ErrParse (''unknown is value '' @ t) \<and> e' = ErrParse (''unknown is value '' @ t'))"

lemma same_refusal_refl [simp]: "same_refusal e e"
  by (simp add: same_refusal_def)

definition agree :: "dialect \<Rightarrow> ('a \<Rightarrow> 'b \<Rightarrow> bool) \<Rightarrow> 'a sql \<Rightarrow> 'b sql \<Rightarrow> bool" where
  "agree d R m m' \<longleftrightarrow> (\<forall>b b'. sim d b b' \<longrightarrow>
     (case (m b, m' b') of
        (None, None) \<Rightarrow> True
      | (Some (Inl e), Some (Inl e')) \<Rightarrow> same_refusal e e'
      | (Some (Inr (x, b1)), Some (Inr (y, b1'))) \<Rightarrow> R x y \<and> sim d b1 b1'
      | _ \<Rightarrow> False))"

lemma sim_sel:
  assumes "sim d b b'"
  shows "b_sb b = b_sb b'" "b_qual b = b_qual b'" "b_aliasN b = b_aliasN b'" "b_parentRef b = b_parentRef b'"
    "b_groupBy b = b_groupBy b'" "b_hasAgg b = b_hasAgg b'" "b_computed b = b_computed b'" "b_rootRow b = b_rootRow b'"
    "b_reps b = b_reps b'" "length (b_args b) = length (b_args b')" "length (b_embeds b) = length (b_embeds b')"
    "list_all2 (alike_embed d) (b_embeds b) (b_embeds b')"
proof -
  have eq: "b\<lparr>b_args := [], b_embeds := [], b_ctxArgs := []\<rparr> = b'\<lparr>b_args := [], b_embeds := [], b_ctxArgs := []\<rparr>" using assms by (simp add: sim_def)
  show "b_sb b = b_sb b'" using arg_cong [OF eq, of b_sb] by simp
  show "b_qual b = b_qual b'" using arg_cong [OF eq, of b_qual] by simp
  show "b_aliasN b = b_aliasN b'" using arg_cong [OF eq, of b_aliasN] by simp
  show "b_parentRef b = b_parentRef b'" using arg_cong [OF eq, of b_parentRef] by simp
  show "b_groupBy b = b_groupBy b'" using arg_cong [OF eq, of b_groupBy] by simp
  show "b_hasAgg b = b_hasAgg b'" using arg_cong [OF eq, of b_hasAgg] by simp
  show "b_computed b = b_computed b'" using arg_cong [OF eq, of b_computed] by simp
  show "b_rootRow b = b_rootRow b'" using arg_cong [OF eq, of b_rootRow] by simp
  show "b_reps b = b_reps b'" using arg_cong [OF eq, of b_reps] by simp
  show "length (b_args b) = length (b_args b')" "list_all2 (alike_embed d) (b_embeds b) (b_embeds b')"
    using assms by (simp_all add: sim_def)
  then show "length (b_embeds b) = length (b_embeds b')" by (blast dest: list_all2_lengthD)
qed

lemma builder_eqI:
  fixes b b' :: builder
  assumes "b_sb b = b_sb b'" "b_qual b = b_qual b'" "b_aliasN b = b_aliasN b'" "b_parentRef b = b_parentRef b'"
    "b_groupBy b = b_groupBy b'" "b_hasAgg b = b_hasAgg b'" "keys_of (b_ctxArgs b) = keys_of (b_ctxArgs b')" "b_computed b = b_computed b'"
    "b_rootRow b = b_rootRow b'" "b_reps b = b_reps b'" "length (b_args b) = length (b_args b')"
    "list_all2 (alike_embed d) (b_embeds b) (b_embeds b')"
  shows "sim d b b'"
  using assms by (simp add: sim_def)

lemma sim_ctx: "sim d b b' \<Longrightarrow> keys_of (b_ctxArgs b) = keys_of (b_ctxArgs b')"
  by (simp add: sim_def)

lemma agree_ret [blind]: "R x y \<Longrightarrow> agree d R (ret x) (ret y)"
  by (simp add: agree_def ret_def)

lemma agree_fail [blind]: "agree d R (fail e) (fail e)"
  by (simp add: agree_def fail_def)

lemma agree_panic [blind]: "agree d R panic panic"
  by (simp add: agree_def panic_def)

lemma agree_modify [blind]: "(\<And>b b'. sim d b b' \<Longrightarrow> sim d (f b) (f' b')) \<Longrightarrow> agree d (=) (modify f) (modify f')"
  by (simp add: agree_def modify_def)

lemma agree_gets: "(\<And>b b'. sim d b b' \<Longrightarrow> R (f b) (f' b')) \<Longrightarrow> agree d R (gets f) (gets f')"
  by (simp add: agree_def gets_def)

lemma agree_andthen:
  assumes "agree d R m m'" and "\<And>x y. R x y \<Longrightarrow> agree d S (f x) (f' y)"
  shows "agree d S (andthen m f) (andthen m' f')"
  unfolding agree_def
proof (intro allI impI)
  fix b b' assume s: "sim d b b'"
  note m = assms(1) [unfolded agree_def, rule_format, OF s]
  show "case (andthen m f b, andthen m' f' b') of (None, None) \<Rightarrow> True | (Some (Inl e), Some (Inl e')) \<Rightarrow> same_refusal e e'
      | (Some (Inr (x, b1)), Some (Inr (y, b1'))) \<Rightarrow> S x y \<and> sim d b1 b1' | _ \<Rightarrow> False"
  proof (cases "m b")
    case None
    then show ?thesis using m by (auto simp: andthen_def split: option.split_asm)
  next
    case (Some r)
    then obtain r' where r': "m' b' = Some r'" using m by (auto split: option.split_asm sum.split_asm)
    show ?thesis
    proof (cases r)
      case (Inl e)
      then show ?thesis using m Some r' by (auto simp: andthen_def split: sum.split_asm)
    next
      case (Inr p)
      then obtain x b1 y b1' where "r = Inr (x, b1)" "r' = Inr (y, b1')" "R x y" "sim d b1 b1'"
        using m Some r' by (cases p) (auto split: sum.split_asm)
      then show ?thesis using assms(2) [unfolded agree_def, rule_format, of x y b1 b1'] Some r'
        by (simp add: andthen_def)
    qed
  qed
qed

lemma agree_seq [blind]:
  "agree d (=) m m' \<Longrightarrow> (\<And>x. agree d S (f x) (f' x)) \<Longrightarrow> agree d S (andthen m f) (andthen m' f')"
  by (erule agree_andthen) blast

lemma agree_emit [blind]: "agree d (=) (emit s) (emit s)"
  unfolding emit_def by (rule agree_modify) (auto intro!: builder_eqI simp: sim_sel sim_ctx)

lemma agree_bindv [blind]: "agree d (=) (bindv d v) (bindv d v')"
  unfolding bindv_def
  by (intro agree_seq agree_modify agree_gets) (auto intro!: builder_eqI simp: sim_sel sim_ctx)

lemma agree_each: "(\<And>x y. (x, y) \<in> set (zip xs ys) \<Longrightarrow> agree d (=) (f x) (g y)) \<Longrightarrow> length xs = length ys \<Longrightarrow>
  agree d (=) (each f xs) (each g ys)"
  by (induction xs ys rule: list_induct2') (auto intro!: agree_ret agree_seq)

lemma agree_each_sep: "length xs = length ys \<Longrightarrow> (\<And>x y. (x, y) \<in> set (zip xs ys) \<Longrightarrow> agree d (=) (f x) (g y)) \<Longrightarrow>
  agree d (=) (each_sep sep f xs) (each_sep sep g ys)"
proof (induction xs ys rule: list_induct2)
  case (Cons x xs y ys)
  have hd: "agree d (=) (f x) (g y)" by (rule Cons.prems) simp
  have tl: "agree d (=) (each_sep sep f xs) (each_sep sep g ys)" by (rule Cons.IH, rule Cons.prems) simp
  show ?case
  proof (cases xs)
    case Nil
    then have "ys = []" using Cons.hyps by simp
    then show ?thesis using hd Nil by (simp only: each_sep.simps)
  next
    case (Cons x2 xs2)
    then obtain y2 ys2 where "ys = y2 # ys2" using Cons.hyps by (cases ys) auto
    then show ?thesis using tl Cons by (simp only: each_sep.simps) (intro agree_seq agree_emit hd tl)
  qed
qed (simp only: each_sep.simps, rule agree_ret, rule refl)

lemma agree_capture [blind]: "agree d (=) m m' \<Longrightarrow> agree d (=) (capture m) (capture m')"
  unfolding capture_def
  by (intro agree_seq agree_modify agree_gets agree_ret) (auto intro!: builder_eqI simp: sim_sel sim_ctx)

lemma agree_refl_each: "(\<And>x. x \<in> set xs \<Longrightarrow> agree d (=) (f x) (g x)) \<Longrightarrow> agree d (=) (each f xs) (each g xs)"
  by (rule agree_each) (auto simp: zip_same)

lemma agree_refl_each_sep: "(\<And>x. x \<in> set xs \<Longrightarrow> agree d (=) (f x) (g x)) \<Longrightarrow> agree d (=) (each_sep sep f xs) (each_sep sep g xs)"
  by (rule agree_each_sep) (auto simp: zip_same)

subsection \<open>Column expressions\<close>

text \<open>A step that reads no values: on one input, two runs agree.\<close>

lemma agree_gets_eq [blind]: "(\<And>b b'. sim d b b' \<Longrightarrow> f b = f' b') \<Longrightarrow> agree d (=) (gets f) (gets f')"
  by (rule agree_gets)

lemma agree_if [blind]:
  "(P \<Longrightarrow> agree d R m m') \<Longrightarrow> (\<not> P \<Longrightarrow> agree d R n n') \<Longrightarrow> agree d R (if P then m else n) (if P then m' else n')"
  by simp

lemma agree_option [blind]:
  "agree d R m m' \<Longrightarrow> (\<And>x. z = Some x \<Longrightarrow> agree d R (n x) (n' x)) \<Longrightarrow>
   agree d R (case z of None \<Rightarrow> m | Some x \<Rightarrow> n x) (case z of None \<Rightarrow> m' | Some x \<Rightarrow> n' x)"
  by (cases z) simp_all

lemma colRef_sim: "sim d b b' \<Longrightarrow> colRef d b n = colRef d b' n"
  by (simp add: colRef_def sim_sel split: option.split)

lemma agree_path0 [blind]: "agree d (=) (path0 p) (path0 p)"
  unfolding path0_def by (cases p) (auto intro: agree_panic agree_ret)

lemma agree_jsonPathExpr [blind]: "agree d (=) (jsonPathExpr d e hs l) (jsonPathExpr d e hs l)"
  unfolding jsonPathExpr_def by (intro blind refl)

lemma agree_path_expr [blind]: "agree d (=) (path_expr d p l) (path_expr d p l)"
  unfolding path_expr_def by (intro blind colRef_sim refl)

lemma agree_columnExpr [blind]: "agree d (=) (columnExpr d c) (columnExpr d c)"
  unfolding columnExpr_def by (intro blind refl) (auto simp: sim_sel split: list.split option.split)

lemma agree_aggregateExpr [blind]: "agree d (=) (aggregateExpr d a) (aggregateExpr d a)"
  unfolding aggregateExpr_def by (intro blind refl)

lemma repApplied_sim: "sim d b b' \<Longrightarrow> repAppliedToJSON b c = repAppliedToJSON b' c"
  by (simp add: repAppliedToJSON_def sim_sel split: list.split option.split)

lemma sim_groupBy: "sim d b b' \<Longrightarrow> sim d (b\<lparr>b_groupBy := b_groupBy b @ xs\<rparr>) (b'\<lparr>b_groupBy := b_groupBy b' @ xs\<rparr>)"
  by (auto intro!: builder_eqI simp: sim_sel sim_ctx)

lemma sim_upd:
  assumes "sim d b b'"
  shows "sim d (b\<lparr>b_hasAgg := t\<rparr>) (b'\<lparr>b_hasAgg := t\<rparr>)" "sim d (b\<lparr>b_qual := s\<rparr>) (b'\<lparr>b_qual := s\<rparr>)"
    "sim d (b\<lparr>b_aliasN := Suc (b_aliasN b)\<rparr>) (b'\<lparr>b_aliasN := Suc (b_aliasN b')\<rparr>)"
    "sim d (b\<lparr>b_parentRef := s\<rparr>) (b'\<lparr>b_parentRef := s\<rparr>)"
    "list_all2 (alike_embed d) es es' \<Longrightarrow> sim d (b\<lparr>b_embeds := es\<rparr>) (b'\<lparr>b_embeds := es'\<rparr>)"
  using assms by (auto intro!: builder_eqI simp: sim_sel sim_ctx)

lemma agree_select_item [blind]: "agree d (=) (select_item_sql d it) (select_item_sql d it)"
  unfolding select_item_sql_def Let_def
  by (cases it; simp only: select_item.case; intro blind refl repApplied_sim sim_groupBy sim_upd; assumption?)

lemma agree_writeSelect [blind]: "agree d (=) (writeSelect d its) (writeSelect d its)"
  unfolding writeSelect_def by (intro blind agree_refl_each_sep)

subsection \<open>Comparisons\<close>

lemma rep_sim: "sim d b b' \<Longrightarrow> aget (b_reps b) c = aget (b_reps b') c"
  by (simp add: sim_sel)

lemma agree_fromTextValue [blind]: "agree d (=) (fromTextValue d c j s) (fromTextValue d c j s')"
  unfolding fromTextValue_def by (intro blind refl) (simp add: rep_sim split: option.split)

lemma agree_filterValue [blind]: "cmp_path c = cmp_path c' \<Longrightarrow> agree d (=) (filterValue d c) (filterValue d c')"
  unfolding filterValue_def by (simp only:) (intro blind)

lemma agree_writeValue [blind]: "agree d (=) (writeValue d c v t) (writeValue d c v' t)"
  unfolding writeValue_def by (intro blind refl rep_sim)

lemma agree_supported [blind]: "agree d (=) (supported w r) (supported w r)"
  unfolding supported_def by (intro blind refl)

lemma agree_writeIn [blind]:
  assumes "length xs = length ys"
  shows "agree d (=) (writeIn d col c j xs) (writeIn d col c j ys)"
proof -
  have e: "agree d (=) (each (\<lambda>v. andthen (bindv d (AText v)) (\<lambda>ph. ret (k ph))) xs)
      (each (\<lambda>v. andthen (bindv d (AText v)) (\<lambda>ph. ret (k ph))) ys)" for k :: "string \<Rightarrow> string"
    by (rule agree_each) (intro blind refl assms)+
  have "xs = [] \<longleftrightarrow> ys = []" using assms by auto
  then show ?thesis
    unfolding writeIn_def by (simp only:) (intro blind refl e, simp add: rep_sim split: option.split)
qed

locale value_blind =
  fixes d :: dialect
  assumes regex_blind: "Regex d e p ci = Regex d e p' ci"
    and fts_blind: "map_option fst (FullText d col ty ix v cfg s) = map_option fst (FullText d col ty ix v cfg s')"
begin

lemma agree_regex:
  "RegexFeatureGap d p = RegexFeatureGap d p' \<Longrightarrow> agree d (=) (regex_sql d col c j ci p) (regex_sql d col c j ci p')"
  unfolding regex_sql_def regex_blind [of col p ci p'] by (simp only:) (intro blind refl)

lemma agree_quantElem:
  assumes "op \<in> {OpMatch, OpIMatch} \<Longrightarrow> RegexFeatureGap d s = RegexFeatureGap d s'"
  shows "agree d (=) (quantElem d col c j op s) (quantElem d col c j op s')"
  unfolding quantElem_def by (intro blind refl agree_regex assms)

lemma erase_compare_sel:
  assumes "erase_compare d c = erase_compare d c'"
  shows "cmp_path c = cmp_path c'" "cmp_last c = cmp_last c'" "cmp_op c = cmp_op c'" "cmp_quant c = cmp_quant c'"
    "cmp_negate c = cmp_negate c'" "cmp_fts c = cmp_fts c'" "cmp_config c = cmp_config c'"
    "cmp_full_text c = cmp_full_text c'" "cmp_column_type c = cmp_column_type c'"
    "erase_text d c (v_text (cmp_value c)) = erase_text d c' (v_text (cmp_value c'))"
    "map (erase_elem d c) (v_list (cmp_value c)) = map (erase_elem d c') (v_list (cmp_value c'))"
proof -
  have "cmp_path (erase_compare d c) = cmp_path (erase_compare d c')" "cmp_last (erase_compare d c) = cmp_last (erase_compare d c')"
    "cmp_op (erase_compare d c) = cmp_op (erase_compare d c')" "cmp_quant (erase_compare d c) = cmp_quant (erase_compare d c')"
    "cmp_negate (erase_compare d c) = cmp_negate (erase_compare d c')" "cmp_fts (erase_compare d c) = cmp_fts (erase_compare d c')"
    "cmp_config (erase_compare d c) = cmp_config (erase_compare d c')" "cmp_full_text (erase_compare d c) = cmp_full_text (erase_compare d c')"
    "cmp_column_type (erase_compare d c) = cmp_column_type (erase_compare d c')"
    "v_text (cmp_value (erase_compare d c)) = v_text (cmp_value (erase_compare d c'))"
    "v_list (cmp_value (erase_compare d c)) = v_list (cmp_value (erase_compare d c'))" using assms by simp_all
  then show "cmp_path c = cmp_path c'" "cmp_last c = cmp_last c'" "cmp_op c = cmp_op c'" "cmp_quant c = cmp_quant c'"
    "cmp_negate c = cmp_negate c'" "cmp_fts c = cmp_fts c'" "cmp_config c = cmp_config c'"
    "cmp_full_text c = cmp_full_text c'" "cmp_column_type c = cmp_column_type c'"
    "erase_text d c (v_text (cmp_value c)) = erase_text d c' (v_text (cmp_value c'))"
    "map (erase_elem d c) (v_list (cmp_value c)) = map (erase_elem d c') (v_list (cmp_value c'))"
    unfolding erase_compare_def by simp_all
qed

lemma agree_quantified:
  assumes e: "erase_compare d c = erase_compare d c'"
  shows "agree d (=) (writeQuantified d col c) (writeQuantified d col c')"
proof -
  note sel = erase_compare_sel [OF e]
  let ?xs = "v_list (cmp_value c)" and ?ys = "v_list (cmp_value c')"
  have len: "length ?xs = length ?ys" using arg_cong [OF sel(11), of length] by simp
  have "agree d (=) (quantElem d col p j (cmp_op c') x) (quantElem d col p j (cmp_op c') y)"
    if "(x, y) \<in> set (zip ?xs ?ys)" for x y p j
  proof (rule agree_quantElem)
    assume op: "cmp_op c' \<in> {OpMatch, OpIMatch}"
    obtain i where "i < length ?xs" "x = ?xs ! i" "y = ?ys ! i" using \<open>(x, y) \<in> _\<close> by (auto simp: set_zip)
    then have "erase_elem d c x = erase_elem d c' y" using sel(11) len by (metis nth_map)
    then show "RegexFeatureGap d x = RegexFeatureGap d y" using op sel(3) by (auto simp: erase_elem_def)
  qed
  then have each: "agree d (=) (each (quantElem d col p j (cmp_op c')) ?xs) (each (quantElem d col p j (cmp_op c')) ?ys)" for p j
    by (rule agree_each) (simp_all add: len)
  have "?xs = [] \<longleftrightarrow> ?ys = []" using len by auto
  then show ?thesis unfolding writeQuantified_def Let_def sel by (simp only:) (intro blind refl each)
qed

lemma agree_fts:
  assumes e: "erase_compare d c = erase_compare d c'"
  shows "agree d (=) (writeFTS d c col) (writeFTS d c' col)"
proof -
  note sel = erase_compare_sel [OF e]
  let ?f = "\<lambda>r x. FullText d col (cmp_column_type c') r (cmp_fts c') (cmp_config c') (v_text (cmp_value x))"
  have cs: "agree d (=) (case ?f r c of None \<Rightarrow> k | Some (e, v) \<Rightarrow> andthen (bindv d (AText v)) (\<lambda>ph. ret (replace_first e PatternMark ph)))
     (case ?f r c' of None \<Rightarrow> k | Some (e, v) \<Rightarrow> andthen (bindv d (AText v)) (\<lambda>ph. ret (replace_first e PatternMark ph)))"
    if "agree d (=) k k" for r k
    using fts_blind [of col "cmp_column_type c'" r "cmp_fts c'" "cmp_config c'" "v_text (cmp_value c)" "v_text (cmp_value c')"] that
    by (cases "?f r c"; cases "?f r c'") (auto intro!: agree_seq agree_bindv agree_ret)
  show ?thesis unfolding writeFTS_def sel by (intro blind cs) (simp add: colRef_sim split: option.split)
qed

lemma agree_is:
  assumes "(if t \<in> is_words then t else []) = (if t' \<in> is_words then t' else [])"
  shows "agree d (=) (writeIs d col t) (writeIs d col t')"
proof (cases "t \<in> is_words")
  case True
  then have "t = t'" using assms by (auto simp: is_words_def split: if_split_asm)
  then show ?thesis unfolding writeIs_def by (simp only:) (intro blind refl)
next
  case False
  then have "t' \<notin> is_words" using assms by (auto simp: is_words_def split: if_split_asm)
  then show ?thesis using False
    by (auto simp: writeIs_def is_words_def agree_def fail_def same_refusal_def)
qed

lemma agree_equality:
  assumes e: "erase_compare d c = erase_compare d c'" and op: "cmp_op c \<in> {OpEq, OpNeq}"
  shows "agree d (=) (equality_sql d col c) (equality_sql d col c')"
proof -
  note sel = erase_compare_sel [OF e]
  have bool: "boolean_column c \<longleftrightarrow> \<not> length (cmp_path c') > 1 \<and> (cmp_column_type c' = [] \<or> ClassOf (cmp_column_type c') = ClassBool)"
    using sel by (simp add: boolean_column_def not_less)
  have same: "boolean_column c = boolean_column c'" using sel by (simp add: boolean_column_def)
  show ?thesis
  proof (cases "boolean_column c")
    case True
    have "v_text (cmp_value c) = ''true'' \<longleftrightarrow> v_text (cmp_value c') = ''true''"
      "v_text (cmp_value c) = ''false'' \<longleftrightarrow> v_text (cmp_value c') = ''false''"
      using sel(3,10) op True same by (auto simp: erase_text_def erase_elem_def split: if_split_asm)
    then show ?thesis unfolding equality_sql_def Let_def sel by (simp only:) (intro blind refl sel)
  next
    case False
    then show ?thesis using bool unfolding equality_sql_def Let_def sel by (simp only: simp_thms if_False) (intro blind refl sel)
  qed
qed

lemma agree_plain:
  assumes e: "erase_compare d c = erase_compare d c'"
  shows "agree d (=) (plain_compare d col p c) (plain_compare d col p c')"
proof -
  note sel = erase_compare_sel [OF e]
  have len: "length (v_list (cmp_value c)) = length (v_list (cmp_value c'))" using arg_cong [OF sel(11), of length] by simp
  have gap: "cmp_op c' \<in> {OpMatch, OpIMatch} \<Longrightarrow> RegexFeatureGap d (v_text (cmp_value c)) = RegexFeatureGap d (v_text (cmp_value c'))"
    using sel(3,10) by (auto simp: erase_text_def erase_elem_def)
  have iss: "cmp_op c' = OpIs \<Longrightarrow> agree d (=) (writeIs d col (v_text (cmp_value c))) (writeIs d col (v_text (cmp_value c')))"
    using sel(3,10) by (intro agree_is) (simp only: erase_is)
  have eqs: "cmp_op c' \<in> {OpEq, OpNeq} \<Longrightarrow> agree d (=) (equality_sql d col c) (equality_sql d col c')"
    using agree_equality [OF e] sel(3) by simp
  show ?thesis unfolding plain_compare_def Let_def sel
    by (intro blind refl eqs iss len agree_regex gap agree_fts [OF e] sel)
qed

lemma agree_compare:
  assumes e: "erase_compare d c = erase_compare d c'"
  shows "agree d (=) (writeCompare d c) (writeCompare d c')"
  unfolding writeCompare_def erase_compare_sel [OF e]
  by (intro blind agree_quantified agree_plain e)

end

subsection \<open>Embeds and filter trees\<close>

lemma agree_case_prod: "(\<And>x y. agree d R (f x y) (g x y)) \<Longrightarrow> agree d R (case p of (x, y) \<Rightarrow> f x y) (case p of (x, y) \<Rightarrow> g x y)"
  by (cases p) simp

lemma agree_joinCond [blind]: "agree d (=) (joinCond d l ls r rs) (joinCond d l ls r rs)"
  unfolding joinCond_def by (intro blind refl)

lemma agree_embedSource [blind]: "agree d (=) (embedSource d rel a p) (embedSource d rel a p)"
  unfolding embedSource_def by (intro blind refl)

lemma agree_embed_rel [blind]: "alike_embed d e e' \<Longrightarrow> agree d (=) (embed_rel e) (embed_rel e')"
  unfolding embed_rel_def by (simp only: alike_embed_sel(1)) (intro blind refl)

lemma agree_next_alias [blind]: "agree d (=) (next_alias p) (next_alias p)"
  unfolding next_alias_def by (intro blind sim_upd(3)) (simp_all only: sim_sel)

lemma agree_junction [blind]: "agree d (=) (write_junction d jp rel a p corr) (write_junction d jp rel a p corr)"
  unfolding write_junction_def by (intro blind) (simp add: sim_sel)

lemma sim_useRelation:
  "sim d b b' \<Longrightarrow> alike d q q' \<Longrightarrow> sim d (useRelation d q n b) (useRelation d q' n b')"
  by (auto intro!: builder_eqI simp: useRelation_def alike_sel sim_sel sim_ctx)

lemma sim_restore:
  "sim d s s' \<Longrightarrow> sim d b b' \<Longrightarrow> sim d (restore_relation s b) (restore_relation s' b')"
  by (auto intro!: builder_eqI simp: restore_relation_def sim_sel sim_ctx)

lemma agree_saved: "(\<And>s s'. sim d s s' \<Longrightarrow> agree d S (f s) (f' s')) \<Longrightarrow> agree d S (andthen (gets (\<lambda>b. b)) f) (andthen (gets (\<lambda>b. b)) f')"
  by (rule agree_andthen [where R = "sim d"]) (simp_all add: agree_gets)

lemma where_cases:
  assumes "alike d q q'"
  obtains "q_where (base q) = None" "q_where (base q') = None"
  | w w' where "q_where (base q) = Some w" "q_where (base q') = Some w'" "erase_cond d w = erase_cond d w'"
  using alike_sel(8) [OF assms] by (cases "q_where (base q)"; cases "q_where (base q')") auto

lemma agree_embed_filter:
  assumes e: "alike_embed d e e'"
    and wc: "\<And>w w'. erase_cond d w = erase_cond d w' \<Longrightarrow> agree d (=) (wc w) (wc' w')"
  shows "agree d (=) (embed_filter d wc e a) (embed_filter d wc' e' a)"
proof -
  note q = alike_embed_sel(2) [OF e]
  from q show ?thesis
  proof (cases rule: where_cases)
    case 1
    then show ?thesis unfolding embed_filter_def by (simp only: option.case) (intro blind refl)
  next
    case (2 w w')
    then show ?thesis unfolding embed_filter_def
      by (simp only: option.case)
        (intro blind agree_saved wc sim_useRelation sim_restore sim_upd e q; assumption)
  qed
qed

lemma agree_embed_exists:
  assumes e: "alike_embed d e e'"
    and wc: "\<And>w w'. erase_cond d w = erase_cond d w' \<Longrightarrow> agree d (=) (wc w) (wc' w')"
  shows "agree d (=) (embed_exists d wc e p) (embed_exists d wc' e' p)"
  unfolding embed_exists_def by (intro blind agree_case_prod agree_embed_filter e wc)

context value_blind
begin

lemma agree_logical:
  assumes "map (erase_cond d) ks = map (erase_cond d) ks'"
    and "\<And>k k'. k \<in> set ks \<Longrightarrow> erase_cond d k = erase_cond d k' \<Longrightarrow> agree d (=) (wc k) (wc k')"
  shows "agree d (=) (if ks = [] then ret () else andthen (emit ''('') (\<lambda>_. andthen (each_sep sep wc ks) (\<lambda>_. emit '')'')))
    (if ks' = [] then ret () else andthen (emit ''('') (\<lambda>_. andthen (each_sep sep wc ks') (\<lambda>_. emit '')'')))"
proof -
  have len: "length ks = length ks'" using arg_cong [OF assms(1), of length] by simp
  have "agree d (=) (wc k) (wc k')" if kk: "(k, k') \<in> set (zip ks ks')" for k k'
  proof -
    obtain i where i: "i < length ks" "k = ks ! i" "k' = ks' ! i" using kk by (auto simp: set_zip)
    then have "erase_cond d k = erase_cond d k'" using assms(1) len by (metis nth_map)
    then show ?thesis using assms(2) i by simp
  qed
  then have "agree d (=) (each_sep sep wc ks) (each_sep sep wc ks')" by (rule agree_each_sep [OF len])
  moreover have "ks = [] \<longleftrightarrow> ks' = []" using len by auto
  ultimately show ?thesis by (simp only:) (intro blind refl)
qed

lemma agree_cond_step:
  assumes prev: "\<And>m w w'. n = Suc m \<Longrightarrow> erase_cond d w = erase_cond d w' \<Longrightarrow> agree d (=) (writeCond d m w) (writeCond d m w')"
  shows "erase_cond d c = erase_cond d c' \<Longrightarrow> agree d (=) (writeCond d n c) (writeCond d n c')"
proof (induction c arbitrary: c')
  case (CAnd ks)
  then obtain ks' where c': "c' = CAnd ks'" and ks': "map (erase_cond d) ks = map (erase_cond d) ks'" by (cases c') auto
  show ?case unfolding c' writeCond.simps by (rule agree_logical [OF ks' CAnd.IH])
next
  case (COr ks)
  then obtain ks' where c': "c' = COr ks'" and ks': "map (erase_cond d) ks = map (erase_cond d) ks'" by (cases c') auto
  show ?case unfolding c' writeCond.simps by (rule agree_logical [OF ks' COr.IH])
next
  case (CNot k)
  then obtain k' where c': "c' = CNot k'" and k': "erase_cond d k = erase_cond d k'" by (cases c') auto
  show ?case unfolding c' writeCond.simps by (intro blind CNot.IH [OF k'])
next
  case (CEmbedPredicate i ex)
  then have c': "c' = CEmbedPredicate i ex" by (cases c') auto
  show ?case
  proof (cases n)
    case 0
    then show ?thesis unfolding c' by (simp only: writeCond.simps) (rule agree_panic)
  next
    case (Suc m)
    have "agree d (=) (if length es \<le> i then fail (ErrInternal ''embed predicate index out of range'')
        else andthen (if ex then ret () else emit ''NOT '') (\<lambda>_. andthen (gets b_parentRef) (\<lambda>p. embed_exists d (writeCond d m) (es ! i) p)))
      (if length es' \<le> i then fail (ErrInternal ''embed predicate index out of range'')
        else andthen (if ex then ret () else emit ''NOT '') (\<lambda>_. andthen (gets b_parentRef) (\<lambda>p. embed_exists d (writeCond d m) (es' ! i) p)))"
      if es: "list_all2 (alike_embed d) es es'" for es es'
    proof (cases "length es \<le> i")
      case False
      then have "alike_embed d (es ! i) (es' ! i)" using es by (simp add: list_all2_nthD)
      then show ?thesis using False list_all2_lengthD [OF es]
        by (simp only: if_False) (intro blind refl agree_embed_exists prev [OF Suc]; simp add: sim_sel)
    qed (use list_all2_lengthD [OF es] in \<open>simp add: agree_fail\<close>)
    note tail = this
    show ?thesis unfolding c' Suc writeCond.simps
    proof (rule agree_andthen)
      show "agree d (list_all2 (alike_embed d)) (gets b_embeds) (gets b_embeds)" by (rule agree_gets) (rule sim_sel)
    qed (rule tail)
  qed
next
  case (CCompare x)
  then obtain x' where c': "c' = CCompare x'" and x': "erase_compare d x = erase_compare d x'" by (cases c') auto
  show ?case unfolding c' writeCond.simps by (rule agree_compare [OF x'])
qed

lemma agree_cond: "erase_cond d c = erase_cond d c' \<Longrightarrow> agree d (=) (writeCond d n c) (writeCond d n c')"
proof (induction n arbitrary: c c')
  case 0
  show ?case by (rule agree_cond_step [OF _ 0]) simp
next
  case (Suc n)
  show ?case by (rule agree_cond_step [OF _ Suc.prems], drule Suc_inject) (use Suc.IH in blast)
qed

lemma agree_condTop: "erase_cond d c = erase_cond d c' \<Longrightarrow> agree d (=) (writeCondTop d c) (writeCondTop d c')"
  unfolding writeCondTop_def by (intro blind agree_cond) (simp add: sim_sel)

lemma agree_filter: "alike_embed d e e' \<Longrightarrow> agree d (=) (writeEmbedFilter d e a) (writeEmbedFilter d e' a)"
  unfolding writeEmbedFilter_def by (intro agree_embed_filter agree_condTop)

lemma agree_exists: "alike_embed d e e' \<Longrightarrow> agree d (=) (writeEmbedExists d e p) (writeEmbedExists d e' p)"
  unfolding writeEmbedExists_def by (intro agree_embed_exists agree_condTop)

lemma agree_inner:
  "list_all2 (alike_embed d) es es' \<Longrightarrow> agree d (=) (write_inner d p wr es) (write_inner d p wr es')"
proof (induction arbitrary: wr rule: list_all2_induct)
  case Nil
  show ?case unfolding write_inner.simps by (intro blind refl)
next
  case (Cons e es e' es')
  show ?case unfolding write_inner.simps alike_embed_sel(1) [OF Cons.hyps(1)]
    by (intro blind Cons.IH agree_exists Cons.hyps)
qed

lemma agree_where:
  "alike d q q' \<Longrightarrow> agree d (=) (write_where d q) (write_where d q')"
  by (erule where_cases; simp only: write_where_def option.case; intro blind refl agree_condTop; assumption?)

end

subsection \<open>Ordering\<close>

lemma findEmbed_alike:
  "list_all2 (alike_embed d) es es' \<Longrightarrow> rel_option (alike_embed d) (findEmbed es n) (findEmbed es' n)"
  unfolding findEmbed_def
  by (induction rule: list_all2_induct) (auto dest: alike_embed_sel(1))

lemma agree_embeds:
  "(\<And>es es'. list_all2 (alike_embed d) es es' \<Longrightarrow> agree d S (f es) (f' es')) \<Longrightarrow>
   agree d S (andthen (gets b_embeds) f) (andthen (gets b_embeds) f')"
  by (rule agree_andthen [where R = "list_all2 (alike_embed d)"], rule agree_gets, rule sim_sel)

lemma agree_option_rel:
  "rel_option R z z' \<Longrightarrow> agree d S m m' \<Longrightarrow> (\<And>x y. R x y \<Longrightarrow> agree d S (n x) (n' y)) \<Longrightarrow>
   agree d S (case z of None \<Rightarrow> m | Some x \<Rightarrow> n x) (case z' of None \<Rightarrow> m' | Some x \<Rightarrow> n' x)"
  by (cases z; cases z') simp_all

lemma agree_relatedOrder [blind]: "agree d (=) (relatedOrderExpr d t p) (relatedOrderExpr d t p)"
  unfolding relatedOrderExpr_def
  by (rule agree_embeds, erule agree_option_rel [OF findEmbed_alike])
    (intro blind agree_saved agree_case_prod sim_useRelation sim_restore sim_upd alike_embed_sel(2) refl; assumption)+

lemma agree_order_sql [blind]: "agree d (=) (order_sql d p t) (order_sql d p t)"
  unfolding order_sql_def by (intro blind refl)

lemma agree_writeOrder [blind]: "agree d (=) (writeOrder d ts) (writeOrder d ts)"
  unfolding writeOrder_def by (intro blind agree_refl_each) (simp add: sim_sel)

lemma agree_window [blind]: "agree d (=) (write_window d l k h) (write_window d l k h)"
  unfolding write_window_def Let_def by (intro blind refl)

lemma agree_group [blind]: "agree d (=) write_group write_group"
  unfolding write_group_def by (intro blind agree_case_prod refl) (simp add: sim_sel)

subsection \<open>Embedded reads\<close>

lemma agree_enter:
  "alike_embed d e e' \<Longrightarrow> agree d (sim d) (enter_embed d e rel a) (enter_embed d e' rel a)"
  unfolding enter_embed_def
  by (rule agree_saved, intro agree_seq agree_modify sim_useRelation sim_upd alike_embed_sel(2) agree_ret; assumption)

lemma agree_leave: "sim d s s' \<Longrightarrow> agree d (=) (leave_embed s) (leave_embed s')"
  unfolding leave_embed_def by (intro agree_modify sim_restore)

lemma agree_spread_column [blind]: "agree d (=) (spread_column d a r it) (spread_column d a r it)"
  unfolding spread_column_def by (cases it; simp only: select_item.case; intro blind refl)

lemma agree_embed_order:
  assumes e: "alike_embed d e e'"
  shows "agree d (=) (embed_order d e rel a) (embed_order d e' rel a)"
proof -
  note q = alike_embed_sel(2) [OF e]
  have fin: "sim d (restore_relation s (b\<lparr>b_embeds := b_embeds s\<rparr>)) (restore_relation s' (b'\<lparr>b_embeds := b_embeds s'\<rparr>))"
    if "sim d s s'" "sim d b b'" for s s' b b'
    using that by (intro sim_restore sim_upd sim_sel)
  show ?thesis unfolding embed_order_def Let_def alike_sel(2) [OF q]
    by (intro agree_if agree_ret refl, rule agree_andthen [OF agree_enter [OF e]])
      (intro blind sim_upd(5) alike_sel(10) q fin; assumption)
qed

context value_blind
begin

lemma agree_spreadPairs:
  assumes e: "alike_embed d e e'"
  shows "agree d (=) (spreadPairs d e p) (spreadPairs d e' p)"
proof -
  note q = alike_embed_sel(2) [OF e]
  have cols: "agree d (=) (andthen (enter_embed d e rel a) (\<lambda>saved. andthen m (\<lambda>cols. andthen (leave_embed saved) (\<lambda>_. ret (k cols)))))
      (andthen (enter_embed d e' rel a) (\<lambda>saved. andthen m' (\<lambda>cols. andthen (leave_embed saved) (\<lambda>_. ret (k cols)))))"
    if "agree d (=) m m'" for rel a k m m'
    by (rule agree_andthen [OF agree_enter [OF e]], rule agree_seq [OF that], rule agree_seq, erule agree_leave, intro blind refl)
  show ?thesis unfolding spreadPairs_def Let_def alike_sel(1) [OF q]
    by (intro blind refl e cols agree_refl_each agree_filter)
qed

lemma agree_to_one:
  "alike_embed d e e' \<Longrightarrow> agree d (=) (write_to_one d e a obj from corr) (write_to_one d e' a obj from corr)"
  unfolding write_to_one_def by (intro blind agree_filter)

lemma agree_to_many:
  assumes e: "alike_embed d e e'"
  shows "agree d (=) (write_to_many d e rel a p obj from corr) (write_to_many d e' rel a p obj from corr)"
proof -
  note q = alike_embed_sel(2) [OF e]
  show ?thesis unfolding write_to_many_def Let_def alike_sel(2) [OF q] alike_sel(4) [OF q] alike_sel(5) [OF q]
    by (intro blind e agree_filter agree_embed_order)
qed

lemma agree_object_item:
  assumes es: "list_all2 (alike_embed d) es es'"
    and nested: "\<And>x x'. x \<in> set es \<Longrightarrow> alike_embed d x x' \<Longrightarrow> agree d (=) (we x) (we' x')"
  shows "agree d (=) (object_item d we a r es it) (object_item d we' a r es' it)"
proof (cases it)
  case (SEmbedRef i)
  show ?thesis
  proof (cases "i < length es")
    case True
    then have n: "alike_embed d (es ! i) (es' ! i)" and i': "i < length es'"
      using es by (simp_all add: list_all2_nthD list_all2_lengthD)
    note m = alike_embed_sel(1) [OF n]
    have we: "agree d (=) (we (es ! i)) (we' (es' ! i))" by (rule nested [OF nth_mem [OF True] n])
    show ?thesis using True i' unfolding object_item_def SEmbedRef
      by (simp only: if_True select_item.case Let_def m) (intro blind refl agree_spreadPairs n we)
  next
    case False
    then have "\<not> i < length es'" using list_all2_lengthD [OF es] by simp
    with False show ?thesis unfolding object_item_def SEmbedRef by (simp only: if_False select_item.case) (rule agree_panic)
  qed
qed (simp only: object_item_def select_item.case, intro blind refl)+

lemma agree_embedObject:
  assumes e: "alike_embed d (Embed em (Query b es)) e'"
    and nested: "\<And>x x' p. x \<in> set es \<Longrightarrow> alike_embed d x x' \<Longrightarrow> agree d (=) (writeEmbed d x p) (writeEmbed d x' p)"
  shows "agree d (=) (embedObject d (Embed em (Query b es)) a) (embedObject d e' a)"
proof -
  obtain b' es' where e': "e' = Embed em (Query b' es')"
    using alike_embed_sel(1) [OF e] by (metis embed.exhaust_sel query.exhaust_sel embed.sel(1))
  have sel: "q_select b = q_select b'" and es: "list_all2 (alike_embed d) es es'"
    using alike_sel(1,10) [OF alike_embed_sel(2) [OF e]] by (simp_all add: e')
  note e = e [unfolded e']
  have items: "agree d (=) (each (object_item d (\<lambda>n. writeEmbed d n a) a r es) its) (each (object_item d (\<lambda>n. writeEmbed d n a) a r es') its)" for r its
    by (intro agree_refl_each agree_object_item es nested)
  show ?thesis unfolding e' embedObject.simps sel
    by (rule agree_seq [OF agree_embed_rel [OF e]], rule agree_if, intro agree_ret refl,
        rule agree_andthen [OF agree_enter [OF e]], rule agree_seq [OF items], rule agree_seq, erule agree_leave, intro agree_ret refl)
qed

lemma agree_writeEmbed: "alike_embed d e e' \<Longrightarrow> agree d (=) (writeEmbed d e p) (writeEmbed d e' p)"
proof (induction "size e" arbitrary: e e' p rule: less_induct)
  case less
  obtain em b es where e: "e = Embed em (Query b es)" by (metis embed.exhaust query.exhaust)
  have nested: "agree d (=) (writeEmbed d x q) (writeEmbed d x' q)" if "x \<in> set es" "alike_embed d x x'" for x x' q
  proof (rule less.hyps [OF _ that(2)])
    show "size x < size e" using size_nested_embed [OF that(1)] by (simp add: e less_Suc_eq_le)
  qed
  note obj = agree_embedObject [OF less.prems [unfolded e] nested, folded e]
  show ?case
    by (subst (1 2) writeEmbed.simps, unfold alike_embed_sel(1) [OF less.prems])
      (intro blind less.prems obj agree_case_prod agree_to_one agree_to_many)
qed

lemma agree_embedded_item:
  assumes es: "list_all2 (alike_embed d) es es'"
  shows "agree d (=) (embedded_item d es p it) (embedded_item d es' p it)"
proof (cases it)
  case (SColumn c)
  show ?thesis unfolding embedded_item_def SColumn select_item.case Let_def by (intro blind refl sim_upd; assumption)
next
  case (SEmbedRef i)
  have nth: "agree d (alike_embed d) (nth_embed es i) (nth_embed es' i)"
    unfolding nth_embed_def list_all2_lengthD [OF es]
    by (intro agree_if agree_ret agree_panic list_all2_nthD2 [OF es])
  show ?thesis unfolding embedded_item_def SEmbedRef select_item.case embedExpr_def
  proof (rule agree_andthen [OF nth])
    fix e e' assume e: "alike_embed d e e'"
    show "agree d (=)
        (if e_empty_select (meta e) then ret []
         else if e_spread (meta e) then andthen (spreadPairs d e p) (\<lambda>ps. ret (map (\<lambda>q. pr_value q @ '' AS '' @ QuoteIdent d (pr_key q)) ps))
         else andthen (capture (writeEmbed d e p)) (\<lambda>sub. ret [sub @ '' AS '' @ QuoteIdent d (e_out_key (meta e))]))
        (if e_empty_select (meta e') then ret []
         else if e_spread (meta e') then andthen (spreadPairs d e' p) (\<lambda>ps. ret (map (\<lambda>q. pr_value q @ '' AS '' @ QuoteIdent d (pr_key q)) ps))
         else andthen (capture (writeEmbed d e' p)) (\<lambda>sub. ret [sub @ '' AS '' @ QuoteIdent d (e_out_key (meta e'))]))"
      unfolding alike_embed_sel(1) [OF e] by (intro blind refl agree_spreadPairs agree_writeEmbed e)
  qed
qed (simp only: embedded_item_def select_item.case, intro blind)

lemma agree_embedded_items:
  assumes es: "list_all2 (alike_embed d) es es'"
  shows "agree d (=) (embedded_items d es p f its) (embedded_items d es' p f its)"
proof (induction its arbitrary: f)
  case Nil
  show ?case unfolding embedded_items.simps by (intro blind refl)
next
  case (Cons it its)
  show ?case unfolding embedded_items.simps write_columns_def
    by (intro blind refl agree_embedded_item [OF es] Cons.IH)
qed

lemma agree_embedded_query:
  assumes q: "alike d q q'" and src: "agree d (=) s s'"
  shows "agree d (=) (writeEmbeddedQuery d q s) (writeEmbeddedQuery d q' s')"
proof -
  note sel = alike_sel [OF q]
  have wh: "agree d (=) (case q_where (base q) of None \<Rightarrow> ret () | Some w \<Rightarrow> andthen (emit '' WHERE '') (\<lambda>_.
        andthen (modify (\<lambda>b. b\<lparr>b_qual := p, b_parentRef := p, b_embeds := embeds q\<rparr>)) (\<lambda>_. writeCondTop d w)))
     (case q_where (base q') of None \<Rightarrow> ret () | Some w \<Rightarrow> andthen (emit '' WHERE '') (\<lambda>_.
        andthen (modify (\<lambda>b. b\<lparr>b_qual := p, b_parentRef := p, b_embeds := embeds q'\<rparr>)) (\<lambda>_. writeCondTop d w)))" for p
    by (rule where_cases [OF q]; simp only: option.case; intro blind refl agree_condTop sim_upd sel(10); assumption?)
  have none: "(q_where (base q) \<noteq> None) = (q_where (base q') \<noteq> None)" by (rule where_cases [OF q]) simp_all
  have sl: "agree d (=) (writeEmbeddedSelect d q p) (writeEmbeddedSelect d q' p)" for p
    unfolding writeEmbeddedSelect_def sel(1) by (intro blind refl agree_embedded_items sel(10))
  show ?thesis unfolding writeEmbeddedQuery_def Let_def sel(2,3,4,5) none
    by (intro blind refl sl src wh agree_inner sim_useRelation sim_upd sel(10) q; assumption?)
qed

end

subsection \<open>Statements\<close>

text \<open>The same text and as many arguments, or the same refusal.\<close>

fun same_shape :: "(api_error + statement) option \<Rightarrow> (api_error + statement) option \<Rightarrow> bool" where
  "same_shape (Some (Inr s)) (Some (Inr s')) \<longleftrightarrow> st_sql s = st_sql s' \<and> length (st_args s) = length (st_args s')"
| "same_shape (Some (Inl e)) (Some (Inl e')) \<longleftrightarrow> same_refusal e e'"
| "same_shape r r' \<longleftrightarrow> r = r'"

lemma run_same_shape:
  assumes "agree d (=) m m'"
  shows "same_shape (run m) (run m')"
proof -
  have "sim d newBuilder newBuilder" by (simp add: sim_def newBuilder_def)
  note case_now = assms [unfolded agree_def, rule_format, OF this]
  show ?thesis
  proof (cases "m newBuilder")
    case None
    then show ?thesis using case_now by (cases "m' newBuilder") (simp_all add: run_def)
  next
    case (Some r)
    then obtain r' where r': "m' newBuilder = Some r'" using case_now by (auto split: option.split_asm sum.split_asm)
    show ?thesis using case_now Some r'
      by (cases r; cases r') (auto simp: run_def sim_sel)
  qed
qed

lemma agree_returning [blind]: "agree d (=) (writeReturning d cols) (writeReturning d cols)"
  unfolding writeReturning_def by (intro blind refl sim_sel)

lemma agree_sum_case:
  "(\<And>x. agree d R (f x) (f' x)) \<Longrightarrow> (\<And>y. agree d R (g y) (g' y)) \<Longrightarrow>
   agree d R (case z of Inl x \<Rightarrow> f x | Inr y \<Rightarrow> g y) (case z of Inl x \<Rightarrow> f' x | Inr y \<Rightarrow> g' y)"
  by (cases z) simp_all

lemma erase_row_aget: "erase_row r = erase_row r' \<Longrightarrow> (aget r c = None) = (aget r' c = None)"
proof -
  have keys: "map fst (erase_row r) = map fst r" for r by (simp add: erase_row_def comp_def case_prod_beta)
  assume "erase_row r = erase_row r'"
  then have "map fst r = map fst r'" by (metis keys)
  then show ?thesis by (metis aget_None_iff set_map)
qed

lemma erase_write_sel:
  assumes "erase_write w = erase_write w'"
  shows "w_columns w = w_columns w'" "w_column_types w = w_column_types w'" "w_missing w = w_missing w'" "w_conflict w = w_conflict w'"
    "map erase_row (w_rows w) = map erase_row (w_rows w')" "erase_row (w_set w) = erase_row (w_set w')"
proof -
  have "w_columns (erase_write w) = w_columns (erase_write w')" "w_column_types (erase_write w) = w_column_types (erase_write w')"
    "w_missing (erase_write w) = w_missing (erase_write w')" "w_conflict (erase_write w) = w_conflict (erase_write w')"
    "w_rows (erase_write w) = w_rows (erase_write w')" "w_set (erase_write w) = w_set (erase_write w')" using assms by simp_all
  then show "w_columns w = w_columns w'" "w_column_types w = w_column_types w'" "w_missing w = w_missing w'" "w_conflict w = w_conflict w'"
    "map erase_row (w_rows w) = map erase_row (w_rows w')" "erase_row (w_set w) = erase_row (w_set w')"
    unfolding erase_write_def by simp_all
qed

lemma agree_insert_row:
  assumes w: "erase_write w = erase_write w'" and r: "erase_row r = erase_row r'"
  shows "agree d (=) (insert_row d w r) (insert_row d w' r')"
proof -
  have rel: "rel_option (\<lambda>x y. True) (aget r c) (aget r' c)" for c
    using erase_row_aget [OF r, of c] by (cases "aget r c"; cases "aget r' c") simp_all
  have cell: "agree d (=) (insert_cell d w r c) (insert_cell d w' r' c)" for c
    unfolding insert_cell_def erase_write_sel [OF w] by (rule agree_option_rel [OF rel]; intro blind)
  show ?thesis unfolding insert_row_def erase_write_sel [OF w] by (intro blind agree_refl_each_sep cell)
qed

lemma agree_conflict:
  assumes w: "erase_write w = erase_write w'"
  shows "agree d (=) (writeConflict d w cf) (writeConflict d w' cf)"
  unfolding writeConflict_def erase_write_sel [OF w] by (intro blind agree_sum_case)

lemma agree_update_column:
  assumes w: "erase_write w = erase_write w'"
  shows "agree d (=) (update_column d w c) (update_column d w' c)"
  unfolding update_column_def erase_write_sel [OF w] by (intro blind)

lemma erase_row_keys: "erase_row r = erase_row r' \<Longrightarrow> sortedKeys r = sortedKeys r' \<and> (r = [] \<longleftrightarrow> r' = [])"
proof -
  have keys: "map fst (erase_row r) = map fst r" for r by (simp add: erase_row_def comp_def case_prod_beta)
  assume "erase_row r = erase_row r'"
  then have "map fst r = map fst r'" by (metis keys)
  then show ?thesis by (auto simp: sortedKeys_def)
qed

lemma write_cases:
  assumes "alike d q q'"
  obtains "q_write (base q) = None" "q_write (base q') = None"
  | w w' where "q_write (base q) = Some w" "q_write (base q') = Some w'" "erase_write w = erase_write w'"
  using alike_sel(9) [OF assms] by (cases "q_write (base q)"; cases "q_write (base q')") auto

context value_blind
begin

lemma insert_shape:
  assumes q: "alike d q q'"
  shows "same_shape (CompileInsert d q rt) (CompileInsert d q' rt)"
  using q
proof (cases rule: write_cases)
  case 1
  then show ?thesis by (simp add: CompileInsert_def)
next
  case (2 w w')
  note w = erase_write_sel [OF 2(3)]
  have len: "length (w_rows w) = length (w_rows w')" using arg_cong [OF w(5), of length] by simp
  have "agree d (=) (insert_row d w r) (insert_row d w' r')" if rr: "(r, r') \<in> set (zip (w_rows w) (w_rows w'))" for r r'
  proof (rule agree_insert_row [OF 2(3)])
    obtain i where "i < length (w_rows w)" "r = w_rows w ! i" "r' = w_rows w' ! i" using rr by (auto simp: set_zip)
    then show "erase_row r = erase_row r'" using w(5) len by (metis nth_map)
  qed
  then have rows: "agree d (=) (each_sep '', '' (insert_row d w) (w_rows w)) (each_sep '', '' (insert_row d w') (w_rows w'))"
    by (rule agree_each_sep [OF len])
  show ?thesis
  proof (cases "w_rows w = []")
    case True
    then show ?thesis using 2 len by (simp add: CompileInsert_def)
  next
    case False
    then have "w_rows w' \<noteq> []" using len by auto
    with False have e: "(w_rows w = []) = False" "(w_rows w' = []) = False" by simp_all
    show ?thesis unfolding CompileInsert_def 2 option.case e if_False alike_sel(3) [OF q] w(1,4)
      by (intro run_same_shape [where d = d] blind refl rows [unfolded w] agree_conflict [OF 2(3)] sim_useRelation q; assumption)
  qed
qed

lemma update_shape:
  assumes q: "alike d q q'"
  shows "same_shape (CompileUpdate d q rt) (CompileUpdate d q' rt)"
  using q
proof (cases rule: write_cases)
  case 1
  then show ?thesis by (simp add: CompileUpdate_def)
next
  case (2 w w')
  note set = erase_row_keys [OF erase_write_sel(6) [OF 2(3)]]
  show ?thesis
  proof (cases "w_set w = []")
    case True
    then show ?thesis using 2 set by (simp add: CompileUpdate_def)
  next
    case False
    with set have e: "(w_set w = []) = False" "(w_set w' = []) = False" "sortedKeys (w_set w) = sortedKeys (w_set w')" by simp_all
    show ?thesis unfolding CompileUpdate_def 2 option.case e if_False alike_sel(3) [OF q]
      by (intro run_same_shape [where d = d] blind agree_refl_each_sep agree_update_column 2(3) agree_where sim_useRelation q; assumption?)
  qed
qed

lemma delete_shape:
  assumes q: "alike d q q'"
  shows "same_shape (CompileDelete d q rt) (CompileDelete d q' rt)"
  unfolding CompileDelete_def alike_sel(3) [OF q]
  by (intro run_same_shape [where d = d] blind agree_where sim_useRelation q; assumption?)

lemma plain_shape:
  assumes q: "alike d q q'"
  shows "same_shape (compileReadPlain d q n) (compileReadPlain d q' n)"
  unfolding compileReadPlain_def alike_sel(1-5) [OF q]
  by (intro run_same_shape [where d = d] blind refl agree_where sim_useRelation q; assumption?)

lemma read_shape:
  assumes q: "alike d q q'"
  shows "same_shape (CompileRead d q) (CompileRead d q')"
proof -
  have "embeds q = [] \<longleftrightarrow> embeds q' = []" using alike_sel(10) [OF q] by auto
  moreover have "same_shape (compileReadEmbedded d q) (compileReadEmbedded d q')"
    unfolding compileReadEmbedded_def alike_sel(3) [OF q]
    by (intro run_same_shape [where d = d] agree_embedded_query q blind)
  ultimately show ?thesis using plain_shape [OF q] by (simp add: CompileRead_def)
qed

lemma counted_shape:
  assumes q: "alike d q q'"
  shows "same_shape (CompileReadCounted d q) (CompileReadCounted d q')"
proof -
  have "embeds q = [] \<longleftrightarrow> embeds q' = []" using alike_sel(10) [OF q] by auto
  then show ?thesis using plain_shape [OF q] by (simp add: CompileReadCounted_def)
qed

lemma count_shape:
  assumes q: "alike d q q'"
  shows "same_shape (CompileCount d q) (CompileCount d q')"
proof -
  have none: "(q_where (base q) \<noteq> None) = (q_where (base q') \<noteq> None)" by (rule where_cases [OF q]) simp_all
  show ?thesis unfolding CompileCount_def writeCountFromAndPredicates_def Let_def alike_sel(3) [OF q] none
    by (intro run_same_shape [where d = d] blind refl agree_where agree_inner sim_useRelation sim_upd alike_sel(10) q; assumption?)
qed

end

subsection \<open>The four dialects\<close>

interpretation sqlite_blind: value_blind sqlite
  by unfold_locales (simp_all add: sqlite_def sqlite_Regex_def sqlite_FullText_def option.map_comp comp_def)

interpretation postgres_blind: value_blind postgres
  by unfold_locales (simp_all add: postgres_def pg_Regex_def pg_FullText_def Let_def)

interpretation mysql_blind: value_blind mysql
  by unfold_locales (simp_all add: mysql_def mysql_Regex_def mysql_FullText_def)

interpretation sqlserver_blind: value_blind sqlserver
  by unfold_locales (simp_all add: sqlserver_def mssql_Regex_def sqlserver_FullText_def)

lemma dialects_blind: "d \<in> {sqlite, postgres, mysql, sqlserver} \<Longrightarrow> value_blind d"
  using sqlite_blind.value_blind_axioms postgres_blind.value_blind_axioms
    mysql_blind.value_blind_axioms sqlserver_blind.value_blind_axioms by blast

text \<open>
  C11. No value a client supplies reaches the text of a statement: two queries that differ only in
  filter operands and in the cells of the rows they write compile, in each of the four dialects,
  to statements with the same text and the same number of bound arguments, or are refused alike (with the
  same error, up to the quoted operand of an unknown \<open>is\<close>). Operands differ freely, with four exceptions the text
  depends on: two lists have the same number of elements, the five keywords of \<open>is\<close> stand for themselves, and so
  do true and false in an equality on a column that is boolean or of no declared type, and two patterns of a regular
  expression are within the grammar of the engine, or outside it in the same way.
\<close>

theorem sql_text_independent_of_values:
  assumes "d \<in> {sqlite, postgres, mysql, sqlserver}" and "alike d q q'"
  shows "same_shape (CompileRead d q) (CompileRead d q') \<and>
         same_shape (CompileReadCounted d q) (CompileReadCounted d q') \<and>
         same_shape (CompileCount d q) (CompileCount d q') \<and>
         same_shape (CompileInsert d q rt) (CompileInsert d q' rt) \<and>
         same_shape (CompileUpdate d q rt) (CompileUpdate d q' rt) \<and>
         same_shape (CompileDelete d q rt) (CompileDelete d q' rt)"
proof -
  note blind_dialect = dialects_blind [OF assms(1)]
  note shapes = value_blind.read_shape value_blind.counted_shape value_blind.count_shape
    value_blind.insert_shape value_blind.update_shape value_blind.delete_shape
  show ?thesis by (intro conjI shapes [OF blind_dialect assms(2)])
qed

text \<open>An update of the films whose title equals a text, with a new title.\<close>

definition demo_update :: "string \<Rightarrow> string \<Rightarrow> query" where
  "demo_update old new = Query ((new_base Update ''films'')\<lparr>q_where := Some (demo_eq ''title'' old),
     q_write := Some (empty_write\<lparr>w_set := [(''title'', json_value (JString new))], w_columns := [''title'']\<rparr>)\<rparr>) []"

theorem sql_text_independent_of_values_witness:
  "alike postgres (demo_update ''Up'' ''Heat'') (demo_update [squote] ''x; DROP TABLE films'') \<and>
   same_shape (CompileUpdate postgres (demo_update ''Up'' ''Heat'') []) (CompileUpdate postgres (demo_update [squote] ''x; DROP TABLE films'') []) \<and>
   map_option (map_sum id st_sql) (CompileUpdate postgres (demo_update [squote] ''x; DROP TABLE films'') []) =
     Some (Inr (''UPDATE '' @ dquote # ''films'' @ dquote # '' SET '' @ dquote # ''title'' @ dquote # '' = $1 WHERE '' @
       dquote # ''title'' @ dquote # '' = $2''))"
proof -
  have alike: "alike postgres (demo_update ''Up'' ''Heat'') (demo_update [squote] ''x; DROP TABLE films'')"
    by (simp add: alike_def demo_update_def demo_eq_def erase_base_def erase_compare_def erase_text_def erase_elem_def erase_write_def erase_row_def text_value_def empty_write_def)
  moreover have "map_option (map_sum id st_sql) (CompileUpdate postgres (demo_update [squote] ''x; DROP TABLE films'') []) =
     Some (Inr (''UPDATE '' @ dquote # ''films'' @ dquote # '' SET '' @ dquote # ''title'' @ dquote # '' = $1 WHERE '' @
       dquote # ''title'' @ dquote # '' = $2''))" by code_simp
  moreover note sql_text_independent_of_values [OF _ alike]
  ultimately show ?thesis by blast
qed

end
