(* ===== verification/Sqlgen_Call.thy ===== *)
theory Sqlgen_Call
  imports Sqlgen_Facts Plan_Call Reqctx
begin

section \<open>Package sqlgen: function calls\<close>

text \<open>
  \<open>src/backend/sqlgen/call.go\<close> and \<open>context.go\<close>. The scan of \<open>bindNamed\<close> over the body is
  \<open>body_pieces\<close>: the literal bytes and the names it binds, in order; \<open>bind_piece\<close> is what the loop
  writes for each. A default is handed to the driver as the JSON decoder made it.
\<close>

subsection \<open>The request context as arguments\<close>

definition ContextArgs :: "full_context option \<Rightarrow> sql_arg go_map" where
  "ContextArgs rc =
     (case rc of
        None \<Rightarrow> []
      | Some c \<Rightarrow> [(''request_method'', AText (cx_method c)), (''request_path'', AText (cx_path c)), (''request_role'', AText (rc_role c)),
          (''request_jwt_claims'', AText (ClaimsJSON c)), (''request_headers'', AText (HeadersJSON c)), (''request_cookies'', AText (CookiesJSON c))])"

subsection \<open>Arguments\<close>

definition call_isIdentStart :: "char \<Rightarrow> bool" where
  "call_isIdentStart b \<longleftrightarrow> b = CHR ''_'' \<or> (CHR ''a'' \<le> b \<and> b \<le> CHR ''z'') \<or> (CHR ''A'' \<le> b \<and> b \<le> CHR ''Z'')"

definition call_isIdentChar :: "char \<Rightarrow> bool" where
  "call_isIdentChar b \<longleftrightarrow> call_isIdentStart b \<or> (CHR ''0'' \<le> b \<and> b \<le> CHR ''9'')"

definition isJSONType :: "string \<Rightarrow> bool" where
  "isJSONType t \<longleftrightarrow> to_lower (trim_space t) \<in> {''json'', ''jsonb''}"

definition callArg :: "dialect \<Rightarrow> ir_value \<Rightarrow> sql_arg" where
  "callArg d v = (if v_json v \<noteq> JNull then writeArg d v [] else AText (v_text v))"

text \<open>A list that is empty carries no other value either, so nil and empty need not be told apart.\<close>

definition variadicElems :: "dialect \<Rightarrow> ir_value \<Rightarrow> sql_arg list" where
  "variadicElems d v =
     (if v_list v \<noteq> [] then map AText (v_list v)
      else case v_json v of
        JArray xs \<Rightarrow> map (\<lambda>e. writeArg d (json_value e) []) xs
      | JNull \<Rightarrow> if v_text v \<noteq> [] then [AText (v_text v)] else []
      | _ \<Rightarrow> [writeArg d v []])"

definition bindVariadic :: "dialect \<Rightarrow> ir_value \<Rightarrow> string sql" where
  "bindVariadic d v = andthen (each (bindv d) (variadicElems d v)) (\<lambda>parts. ret (join '', '' parts))"

definition singleObjectArgs :: "rpc_function \<Rightarrow> ir_value go_map \<Rightarrow> ir_value go_map" where
  "singleObjectArgs fn args =
     (case f_params fn of
        [p] \<Rightarrow>
          if args = [] \<or> \<not> isJSONType (p_type p) \<or> aget args (p_name p) \<noteq> None then args
          else [(p_name p, json_value (JObject (map (\<lambda>(k, v). (k, v_json v)) args)))]
      | _ \<Rightarrow> args)"

definition default_arg :: "json \<Rightarrow> sql_arg" where
  "default_arg j = (case j of JNull \<Rightarrow> ANull | JNumber t \<Rightarrow> AFloat t | JString s \<Rightarrow> AText s | JBool b \<Rightarrow> ABool b | _ \<Rightarrow> ARaw j)"

definition argValue :: "dialect \<Rightarrow> rpc_function \<Rightarrow> string \<Rightarrow> ir_value go_map \<Rightarrow> string sql" where
  "argValue d fn name args =
     (case fn_Param fn name of
        None \<Rightarrow>
          andthen (gets (\<lambda>b. aget (b_ctxArgs b) name)) (\<lambda>v.
            case v of
              Some x \<Rightarrow> bindv d x
            | None \<Rightarrow> fail (ErrInternal (''rpc body references undeclared parameter :'' @ name)))
      | Some p \<Rightarrow>
          (case aget args name of
             Some v \<Rightarrow> if p_variadic p then bindVariadic d v else bindv d (callArg d v)
           | None \<Rightarrow>
               if p_variadic p then ret []
               else if p_optional p then bindv d (default_arg (p_default p))
               else fail (ErrInternal (''rpc call is missing required parameter :'' @ name))))"

subsection \<open>The body of a function\<close>

datatype body_piece = BodyText string | BodyName string

function body_pieces :: "string \<Rightarrow> body_piece list" where
  "body_pieces [] = []"
| "body_pieces (c # s) =
     (if c = CHR '':'' \<and> s \<noteq> [] \<and> hd s = CHR '':'' then BodyText ''::'' # body_pieces (drop 1 s)
      else if c = CHR '':'' \<and> s \<noteq> [] \<and> call_isIdentStart (hd s)
        then BodyName (takeWhile call_isIdentChar s) # body_pieces (dropWhile call_isIdentChar s)
      else BodyText [c] # body_pieces s)"
  by pat_completeness auto
termination
  by (relation "measure length") (auto simp: le_imp_less_Suc length_dropWhile_le)

definition bind_piece :: "dialect \<Rightarrow> rpc_function \<Rightarrow> ir_value go_map \<Rightarrow> body_piece \<Rightarrow> string sql" where
  "bind_piece d fn args p = (case p of BodyText t \<Rightarrow> ret t | BodyName name \<Rightarrow> argValue d fn name args)"

definition bindNamed :: "dialect \<Rightarrow> rpc_function \<Rightarrow> ir_value go_map \<Rightarrow> string sql" where
  "bindNamed d fn args =
     (case f_query fn of
        None \<Rightarrow> panic
      | Some sql \<Rightarrow> andthen (each (bind_piece d fn (singleObjectArgs fn args)) (body_pieces sql)) (\<lambda>parts. ret (concat parts)))"

subsection \<open>Statements\<close>

definition callHasPostFilter :: "ir_call \<Rightarrow> bool" where
  "callHasPostFilter c \<longleftrightarrow>
     cl_select c \<noteq> [] \<or> cl_where c \<noteq> None \<or> cl_order c \<noteq> [] \<or> cl_limit c \<noteq> None \<or> cl_offset c \<noteq> None"

definition callQuery :: "ir_call \<Rightarrow> query" where
  "callQuery c = Query ((new_base Read [])\<lparr>q_select := cl_select c, q_where := cl_where c, q_order := cl_order c,
     q_limit := cl_limit c, q_offset := cl_offset c\<rparr>) (cl_embeds c)"

definition rpc_alias :: string where
  "rpc_alias = ''_rpc''"

definition has_body :: "rpc_function \<Rightarrow> bool" where
  "has_body fn \<longleftrightarrow> (case f_query fn of None \<Rightarrow> False | Some sql \<Rightarrow> trim_space sql \<noteq> [])"

definition call_where :: "dialect \<Rightarrow> cond option \<Rightarrow> unit sql" where
  "call_where d w = (case w of None \<Rightarrow> ret () | Some c \<Rightarrow> andthen (emit '' WHERE '') (\<lambda>_. writeCondTop d c))"

definition wrap_rows :: "dialect \<Rightarrow> string \<Rightarrow> cond option \<Rightarrow> order_term list \<Rightarrow> int option \<Rightarrow> int option \<Rightarrow> unit sql" where
  "wrap_rows d inner w ord lim off =
     andthen (emit (''('' @ inner @ '') '' @ rpc_alias)) (\<lambda>_.
     andthen (call_where d w) (\<lambda>_.
     andthen (if ord \<noteq> [] then writeOrder d ord else ret ()) (\<lambda>_.
       write_window d lim off (ord \<noteq> []))))"

definition CompileCall :: "dialect \<Rightarrow> ir_call \<Rightarrow> rpc_function option \<Rightarrow> sql_arg go_map \<Rightarrow> (api_error + statement) option" where
  "CompileCall d c fno ctxArgs =
     (case fno of
        None \<Rightarrow> Some (Inl (ErrInternal ''CompileCall requires a registry function; native calls compile in the backend''))
      | Some fn \<Rightarrow>
          if \<not> has_body fn then Some (Inl (ErrUnsupported ''this function realization'' ''sql''))
          else run (andthen (modify (\<lambda>b. b\<lparr>b_ctxArgs := ctxArgs\<rparr>)) (\<lambda>_.
            if cl_embeds c \<noteq> [] then
              writeEmbeddedQuery d (callQuery c) (andthen (bindNamed d fn (cl_args c)) (\<lambda>inner. emit (''('' @ inner @ '')'')))
            else andthen (bindNamed d fn (cl_args c)) (\<lambda>inner.
              let isTable = (ret_kind (f_returns fn) = ReturnTable); isSetof = (isTable \<or> ret_kind (f_returns fn) = ReturnSetOf) in
              if \<not> isSetof \<or> \<not> callHasPostFilter c then emit inner
              else andthen (emit ''SELECT '') (\<lambda>_.
                   andthen (if isTable then writeSelect d (cl_select c) else emit ''*'') (\<lambda>_.
                   andthen (emit '' FROM '') (\<lambda>_.
                     wrap_rows d inner (if isTable then cl_where c else None) (if isTable then cl_order c else [])
                       (cl_limit c) (cl_offset c))))))))"

definition with_args :: "statement \<Rightarrow> unit sql" where
  "with_args inner = modify (\<lambda>b. b\<lparr>b_args := b_args b @ st_args inner\<rparr>)"

definition native_select :: "dialect \<Rightarrow> ir_call \<Rightarrow> unit sql" where
  "native_select d c = (if cl_select c \<noteq> [] then writeSelect d (cl_select c) else emit ''*'')"

definition CompileNativeCallWrap :: "dialect \<Rightarrow> ir_call \<Rightarrow> statement \<Rightarrow> (api_error + statement) option" where
  "CompileNativeCallWrap d c inner =
     (if \<not> callHasPostFilter c then Some (Inr inner)
      else run (andthen (with_args inner) (\<lambda>_.
        andthen (emit ''SELECT '') (\<lambda>_.
        andthen (native_select d c) (\<lambda>_.
        andthen (emit '' FROM '') (\<lambda>_.
          wrap_rows d (st_sql inner) (cl_where c) (cl_order c) (cl_limit c) (cl_offset c)))))))"

definition CompileNativeCallCountWrap :: "dialect \<Rightarrow> ir_call \<Rightarrow> statement \<Rightarrow> (api_error + statement) option" where
  "CompileNativeCallCountWrap d c inner =
     run (andthen (with_args inner) (\<lambda>_.
       andthen (emit (''SELECT count(*) FROM ('' @ st_sql inner @ '') '' @ rpc_alias)) (\<lambda>_. call_where d (cl_where c))))"

definition CompileNativeCallCountedWrap :: "dialect \<Rightarrow> ir_call \<Rightarrow> statement \<Rightarrow> (api_error + statement) option" where
  "CompileNativeCallCountedWrap d c inner =
     run (andthen (with_args inner) (\<lambda>_.
       andthen (emit ''SELECT '') (\<lambda>_.
       andthen (native_select d c) (\<lambda>_.
       andthen (emit ('', count(*) OVER () AS '' @ [dquote] @ CountColName @ [dquote] @ '' FROM '')) (\<lambda>_.
         wrap_rows d (st_sql inner) (cl_where c) (cl_order c) (cl_limit c) (cl_offset c))))))"

definition CompileCallCount :: "dialect \<Rightarrow> ir_call \<Rightarrow> rpc_function option \<Rightarrow> sql_arg go_map \<Rightarrow> (api_error + statement) option" where
  "CompileCallCount d c fno ctxArgs =
     (case fno of
        None \<Rightarrow> Some (Inl (ErrInternal ''CompileCallCount requires a registry function; native calls count in the backend''))
      | Some fn \<Rightarrow>
          if \<not> has_body fn then Some (Inl (ErrUnsupported ''this function realization'' ''sql''))
          else run (andthen (modify (\<lambda>b. b\<lparr>b_ctxArgs := ctxArgs\<rparr>)) (\<lambda>_.
            andthen (bindNamed d fn (cl_args c)) (\<lambda>inner.
            andthen (emit (''SELECT count(*) FROM ('' @ inner @ '') '' @ rpc_alias)) (\<lambda>_.
              if cl_embeds c \<noteq> [] then
                andthen (modify (\<lambda>b. b\<lparr>b_qual := rpc_alias, b_parentRef := rpc_alias, b_embeds := cl_embeds c\<rparr>)) (\<lambda>_.
                andthen (call_where d (cl_where c)) (\<lambda>_.
                  write_inner d rpc_alias (cl_where c \<noteq> None) (cl_embeds c)))
              else if ret_kind (f_returns fn) = ReturnTable then call_where d (cl_where c) else ret ())))))"


subsection \<open>Binding the arguments of a planned call\<close>

definition body_names :: "rpc_function \<Rightarrow> string list" where
  "body_names fn = (case f_query fn of None \<Rightarrow> [] | Some sql \<Rightarrow>
     concat (map (\<lambda>p. case p of BodyText t \<Rightarrow> [] | BodyName n \<Rightarrow> [n]) (body_pieces sql)))"

text \<open>A step that returns without changing the request context, whatever the builder.\<close>

definition returns :: "sql_arg go_map \<Rightarrow> 'a sql \<Rightarrow> bool" where
  "returns ctx m \<longleftrightarrow> (\<forall>b. b_ctxArgs b = ctx \<longrightarrow> (\<exists>x b'. m b = Some (Inr (x, b')) \<and> b_ctxArgs b' = ctx))"

lemma returns_ret: "returns ctx (ret x)"
  by (simp add: returns_def ret_def)

lemma returns_andthen: "returns ctx m \<Longrightarrow> (\<And>x. returns ctx (f x)) \<Longrightarrow> returns ctx (andthen m f)"
  unfolding returns_def andthen_def by fastforce

lemma returns_bindv: "returns ctx (bindv d v)"
  by (simp add: returns_def bindv_def andthen_def modify_def gets_def)

lemma returns_emit: "returns ctx (emit s)"
  by (simp add: returns_def emit_def modify_def)

lemma returns_each: "(\<And>x. x \<in> set xs \<Longrightarrow> returns ctx (f x)) \<Longrightarrow> returns ctx (each f xs)"
  by (induction xs) (auto intro!: returns_ret returns_andthen)

lemma returns_argValue:
  assumes "satisfiable fn (keys_of args)" and "fn_Param fn name \<noteq> None \<or> aget ctx name \<noteq> None"
  shows "returns ctx (argValue d fn name args)"
proof (cases "fn_Param fn name")
  case None
  then obtain v where v: "aget ctx name = Some v" using assms(2) by auto
  show ?thesis using v returns_bindv [of ctx d v] by (simp add: None argValue_def returns_def andthen_def gets_def)
next
  case (Some p)
  then have p: "p \<in> set (f_params fn)" "p_name p = name" by (auto simp: fn_Param_def find_Some_iff)
  have "p_optional p \<or> p_variadic p \<or> aget args name \<noteq> None"
    using assms(1) p by (auto simp: satisfiable_def Required_def list_all_iff aget_None_iff)
  then show ?thesis
    by (auto simp: argValue_def Some bindVariadic_def intro!: returns_bindv returns_ret returns_andthen returns_each split: option.split)
qed

lemma singleObjectArgs_planned: "satisfiable fn (keys_of args) \<Longrightarrow> singleObjectArgs fn args = args"
proof (cases "\<exists>p. f_params fn = [p] \<and> args \<noteq> []")
  case True
  assume sat: "satisfiable fn (keys_of args)"
  obtain p where p: "f_params fn = [p]" "args \<noteq> []" using True by blast
  then obtain k v r where args: "args = (k, v) # r" by (cases args) auto
  then have "k = p_name p" using sat p by (auto simp: satisfiable_def fn_Param_def split: if_split_asm)
  then show ?thesis by (simp add: singleObjectArgs_def p args)
qed (auto simp: singleObjectArgs_def split: list.split)

lemma returns_bindNamed:
  assumes "satisfiable fn (keys_of args)" and "f_query fn \<noteq> None"
    and "\<And>n. n \<in> set (body_names fn) \<Longrightarrow> fn_Param fn n \<noteq> None \<or> aget ctx n \<noteq> None"
  shows "returns ctx (bindNamed d fn args)"
proof -
  obtain sql where sql: "f_query fn = Some sql" using assms(2) by auto
  have "returns ctx (bind_piece d fn args p)" if "p \<in> set (body_pieces sql)" for p
  proof (cases p)
    case (BodyText t)
    then show ?thesis by (simp add: bind_piece_def returns_ret)
  next
    case (BodyName n)
    then have "n \<in> set (body_names fn)" using that by (force simp: body_names_def sql)
    then show ?thesis using returns_argValue [OF assms(1) assms(3)] by (simp add: bind_piece_def BodyName)
  qed
  then show ?thesis unfolding bindNamed_def sql singleObjectArgs_planned [OF assms(1)] by (auto intro!: returns_andthen returns_each returns_ret)
qed


lemma returns_window: "returns ctx (write_window d lim off ho)"
  by (simp add: write_window_def Let_def returns_emit returns_ret)

lemma returns_context: "returns ctx m \<Longrightarrow> (\<exists>st. run (andthen (modify (\<lambda>b. b\<lparr>b_ctxArgs := ctx\<rparr>)) (\<lambda>_. m)) = Some (Inr st))"
  unfolding returns_def run_def andthen_def modify_def
  by (drule spec [of _ "newBuilder\<lparr>b_ctxArgs := ctx\<rparr>"]) auto

text \<open>
  A planned call of a function that returns no table, or one without post-filters, always compiles:
  when every name in the body of the function is a parameter or a value of the request context, the
  required arguments are there and the statement is made, in every dialect.
\<close>

theorem planned_call_compiles:
  assumes "PlanCall (static (NewStaticRegistry fns)) m c isGet path = Inr p" and "has_body (pl_func p)"
    and "\<forall>n \<in> set (body_names (pl_func p)). fn_Param (pl_func p) n \<noteq> None \<or> aget ctx n \<noteq> None"
    and "ret_kind (f_returns (pl_func p)) \<noteq> ReturnTable \<or> \<not> callHasPostFilter (pl_call p)" and "cl_embeds (pl_call p) = []"
  shows "\<exists>st. CompileCall d (pl_call p) (Some (pl_func p)) ctx = Some (Inr st)"
proof -
  let ?fn = "pl_func p" and ?c = "pl_call p"
  have "f_query ?fn \<noteq> None" using assms(2) by (auto simp: has_body_def split: option.split_asm)
  note body = returns_bindNamed [OF static_fns.planned_function(3) [OF assms(1)] this, of ctx d] 
  have bound: "returns ctx (bindNamed d ?fn (cl_args ?c))" using assms(3) by (intro body) blast
  have rows: "returns ctx (wrap_rows d inner None [] lim off)" for inner lim off
    unfolding wrap_rows_def call_where_def by (auto intro!: returns_andthen returns_emit returns_ret returns_window)
  show ?thesis unfolding CompileCall_def option.case
    using assms(2,4,5) by (auto simp: Let_def intro!: returns_context returns_andthen bound returns_emit rows)
qed

theorem planned_call_compiles_witness:
  "\<exists>p st. PlanCall (static (NewStaticRegistry [demo_function [demo_param ''a'' False]])) None (demo_call [(''a'', text_value ''7'')]) True [''public''] = Inr p \<and>
     CompileCall sqlite (pl_call p) (Some (pl_func p)) [] = Some (Inr st) \<and> st_sql st = ''SELECT ?1 + 1'' \<and> st_args st = [AText ''7'']"
proof -
  let ?p = "PlanCall (static (NewStaticRegistry [demo_function [demo_param ''a'' False]])) None (demo_call [(''a'', text_value ''7'')]) True [''public'']"
  have ok: "case ?p of Inl e \<Rightarrow> False | Inr p \<Rightarrow> has_body (pl_func p) \<and> list_all (\<lambda>n. fn_Param (pl_func p) n \<noteq> None) (body_names (pl_func p)) \<and>
      ret_kind (f_returns (pl_func p)) \<noteq> ReturnTable \<and> cl_embeds (pl_call p) = [] \<and>
      (case CompileCall sqlite (pl_call p) (Some (pl_func p)) [] of Some (Inr st) \<Rightarrow> st_sql st = ''SELECT ?1 + 1'' \<and> st_args st = [AText ''7''] | _ \<Rightarrow> True)"
    by code_simp
  then obtain p where p: "?p = Inr p" by (cases ?p) auto
  obtain st where "CompileCall sqlite (pl_call p) (Some (pl_func p)) [] = Some (Inr st)"
    using planned_call_compiles [OF p, of "[]" sqlite] ok by (auto simp: p list_all_iff)
  then show ?thesis using ok p by auto
qed

definition demo_setof :: rpc_function where
  "demo_setof = (demo_function [demo_param ''a'' False])\<lparr>f_returns := \<lparr>ret_kind = ReturnSetOf, ret_type = ''films'', ret_columns = []\<rparr>\<rparr>"

text \<open>
  A call of a function whose result is not declared as a table, without embeds, drops the client's
  filter, selection and order: two calls that differ in these alone compile to one statement, also
  when the result is the set of rows of a relation.
\<close>

theorem setof_call_drops_filter:
  assumes "ret_kind (f_returns fn) \<noteq> ReturnTable" and "cl_embeds c = []"
  shows "CompileCall d (c\<lparr>cl_where := Some w, cl_select := s, cl_order := ord\<rparr>) (Some fn) ctx =
         CompileCall d (c\<lparr>cl_where := Some w', cl_select := s', cl_order := ord'\<rparr>) (Some fn) ctx"
  using assms by (cases "ret_kind (f_returns fn) = ReturnSetOf") (simp_all add: CompileCall_def callHasPostFilter_def Let_def)

theorem setof_call_drops_filter_witness:
  "CompileCall sqlite (demo_call [(''a'', text_value ''7'')]\<lparr>cl_where := Some (demo_eq ''id'' ''1'')\<rparr>) (Some demo_setof) [] =
   CompileCall sqlite (demo_call [(''a'', text_value ''7'')]\<lparr>cl_where := Some (demo_eq ''id'' ''2'')\<rparr>) (Some demo_setof) [] \<and>
   map_option (map_sum id st_sql) (CompileCall sqlite (demo_call [(''a'', text_value ''7'')]\<lparr>cl_where := Some (demo_eq ''id'' ''1'')\<rparr>) (Some demo_setof) [])
     = Some (Inr ''SELECT * FROM (SELECT ?1 + 1) _rpc'')"
proof
  let ?c = "demo_call [(''a'', text_value ''7'')]"
  show "CompileCall sqlite (?c\<lparr>cl_where := Some (demo_eq ''id'' ''1'')\<rparr>) (Some demo_setof) [] =
      CompileCall sqlite (?c\<lparr>cl_where := Some (demo_eq ''id'' ''2'')\<rparr>) (Some demo_setof) []"
    using setof_call_drops_filter [of demo_setof ?c, where d = sqlite and ctx = "[]" and w = "demo_eq ''id'' ''1''" and w' = "demo_eq ''id'' ''2''"
      and s = "[]" and s' = "[]" and ord = "[]" and ord' = "[]"]
    by (simp add: demo_setof_def demo_call_def new_call_def)
qed code_simp


subsection \<open>The text of a call does not depend on values\<close>

definition arg_width :: "dialect \<Rightarrow> rpc_function \<Rightarrow> string \<Rightarrow> ir_value \<Rightarrow> nat" where
  "arg_width d fn name v =
     (case fn_Param fn name of Some p \<Rightarrow> if p_variadic p then length (variadicElems d v) else 0 | None \<Rightarrow> 0)"

definition arg_shape :: "dialect \<Rightarrow> rpc_function \<Rightarrow> ir_value go_map \<Rightarrow> nat go_map" where
  "arg_shape d fn args = map (\<lambda>(k, v). (k, arg_width d fn k v)) args"

definition alike_call :: "dialect \<Rightarrow> rpc_function \<Rightarrow> ir_call \<Rightarrow> ir_call \<Rightarrow> bool" where
  "alike_call d fn c c' \<longleftrightarrow> alike d (callQuery c) (callQuery c') \<and> arg_shape d fn (cl_args c) = arg_shape d fn (cl_args c')"

lemma arg_shape_aget: "aget (arg_shape d fn args) n = map_option (arg_width d fn n) (aget args n)"
  by (induction args) (auto simp: arg_shape_def)

lemma arg_shape_rel:
  assumes "arg_shape d fn args = arg_shape d fn args'"
  shows "rel_option (\<lambda>v v'. arg_width d fn n v = arg_width d fn n v') (aget args n) (aget args' n)"
  using arg_shape_aget [of d fn args n] arg_shape_aget [of d fn args' n] assms
  by (cases "aget args n"; cases "aget args' n") auto

lemma arg_shape_empty: "arg_shape d fn args = arg_shape d fn args' \<Longrightarrow> args = [] \<longleftrightarrow> args' = []"
  by (auto simp: arg_shape_def)

lemma single_shape:
  assumes "arg_shape d fn args = arg_shape d fn args'"
  shows "arg_shape d fn (singleObjectArgs fn args) = arg_shape d fn (singleObjectArgs fn args')"
proof -
  have found: "(aget args n = None) = (aget args' n = None)" for n
    using arg_shape_rel [OF assms, of n] by (cases "aget args n"; cases "aget args' n") auto
  have one: "arg_width d fn n (json_value (JObject m)) = arg_width d fn n (json_value (JObject m'))" for n m m'
    by (simp add: arg_width_def variadicElems_def json_value_def split: option.split)
  show ?thesis using assms found arg_shape_empty [OF assms] one
    by (auto simp: singleObjectArgs_def arg_shape_def split: list.split)
qed

lemma agree_bind_all: "length xs = length ys \<Longrightarrow> agree d (=) (each (bindv d) xs) (each (bindv d) ys)"
  by (rule agree_each) (rule agree_bindv)

lemma agree_argValue:
  assumes "arg_shape d fn args = arg_shape d fn args'"
  shows "agree d (=) (argValue d fn n args) (argValue d fn n args')"
proof (cases "fn_Param fn n")
  case None
  have "rel_option (\<lambda>_ _. True) (aget (b_ctxArgs b) n) (aget (b_ctxArgs b') n)" if "sim d b b'" for b b'
  proof -
    have "(aget (b_ctxArgs b) n = None) = (aget (b_ctxArgs b') n = None)"
      using arg_cong [OF sim_ctx [OF that], of set] by (simp add: aget_None_iff)
    then show ?thesis by (cases "aget (b_ctxArgs b) n"; cases "aget (b_ctxArgs b') n") simp_all
  qed
  then have "agree d (rel_option (\<lambda>_ _. True)) (gets (\<lambda>b. aget (b_ctxArgs b) n)) (gets (\<lambda>b. aget (b_ctxArgs b) n))" by (rule agree_gets)
  then show ?thesis unfolding argValue_def None option.case by (rule agree_andthen) (rule agree_option_rel, assumption, intro blind, intro blind)
next
  case (Some p)
  have var: "agree d (=) (bindVariadic d v) (bindVariadic d v')" if "arg_width d fn n v = arg_width d fn n v'" "p_variadic p" for v v'
    unfolding bindVariadic_def using that by (intro blind refl agree_bind_all) (simp add: arg_width_def Some)
  show ?thesis unfolding argValue_def Some option.case
    by (rule agree_option_rel [OF arg_shape_rel [OF assms]]; intro blind refl var; assumption?)
qed

lemma agree_bindNamed:
  assumes "arg_shape d fn args = arg_shape d fn args'"
  shows "agree d (=) (bindNamed d fn args) (bindNamed d fn args')"
proof -
  have "agree d (=) (bind_piece d fn (singleObjectArgs fn args) p) (bind_piece d fn (singleObjectArgs fn args') p)" for p
    using agree_argValue [OF single_shape [OF assms]] by (cases p) (simp_all add: bind_piece_def agree_ret)
  then show ?thesis unfolding bindNamed_def by (intro blind refl agree_refl_each)
qed

lemma alike_call_sel:
  assumes "alike_call d fn c c'"
  shows "alike d (callQuery c) (callQuery c')" "cl_select c = cl_select c'" "cl_order c = cl_order c'" "cl_limit c = cl_limit c'" "cl_offset c = cl_offset c'"
    "map_option (erase_cond d) (cl_where c) = map_option (erase_cond d) (cl_where c')" "list_all2 (alike_embed d) (cl_embeds c) (cl_embeds c')"
    "arg_shape d fn (cl_args c) = arg_shape d fn (cl_args c')"
  using assms alike_sel [of d "callQuery c" "callQuery c'"] by (simp_all add: alike_call_def callQuery_def)

lemma sim_context: "keys_of ctx = keys_of ctx' \<Longrightarrow> sim d b b' \<Longrightarrow> sim d (b\<lparr>b_ctxArgs := ctx\<rparr>) (b'\<lparr>b_ctxArgs := ctx'\<rparr>)"
  by (auto intro!: builder_eqI simp: sim_sel)

context value_blind
begin

lemma agree_call_where: "map_option (erase_cond d) w = map_option (erase_cond d) w' \<Longrightarrow> agree d (=) (call_where d w) (call_where d w')"
  unfolding call_where_def by (cases w; cases w'; simp only: option.map option.inject option.distinct option.case; intro blind refl agree_condTop; assumption?)

lemma agree_wrap_rows:
  "map_option (erase_cond d) w = map_option (erase_cond d) w' \<Longrightarrow> agree d (=) (wrap_rows d inner w ord lim off) (wrap_rows d inner w' ord lim off)"
  unfolding wrap_rows_def by (intro blind refl agree_call_where)

lemma call_shape:
  assumes c: "alike_call d fn c c'" and ctx: "keys_of ctx = keys_of ctx'"
  shows "same_shape (CompileCall d c (Some fn) ctx) (CompileCall d c' (Some fn) ctx')"
proof -
  note sel = alike_call_sel [OF c]
  have post: "callHasPostFilter c = callHasPostFilter c'" using sel(2-6) by (auto simp: callHasPostFilter_def)
  have none: "(cl_embeds c \<noteq> []) = (cl_embeds c' \<noteq> [])" using sel(7) by auto
  have wh: "map_option (erase_cond d) (if t then cl_where c else None) = map_option (erase_cond d) (if t then cl_where c' else None)" for t
    using sel(6) by simp
  show ?thesis
  proof (cases "has_body fn")
    case True
    show ?thesis unfolding CompileCall_def option.case Let_def none post sel(2-5) if_not_P [of "\<not> has_body fn", OF not_not [THEN iffD2, OF True]]
      by (intro run_same_shape [where d = d] blind refl agree_bindNamed sel(8) agree_embedded_query sel(1) agree_wrap_rows wh sim_context [OF ctx]; assumption?)
  qed (simp add: CompileCall_def)
qed

lemma call_count_shape:
  assumes c: "alike_call d fn c c'" and ctx: "keys_of ctx = keys_of ctx'"
  shows "same_shape (CompileCallCount d c (Some fn) ctx) (CompileCallCount d c' (Some fn) ctx')"
proof -
  note sel = alike_call_sel [OF c]
  have none: "(cl_embeds c \<noteq> []) = (cl_embeds c' \<noteq> [])" "(cl_where c \<noteq> None) = (cl_where c' \<noteq> None)"
    using sel(6,7) by (auto dest: arg_cong [of _ _ "\<lambda>z. z = None"])
  show ?thesis
  proof (cases "has_body fn")
    case True
    show ?thesis unfolding CompileCallCount_def option.case none if_not_P [of "\<not> has_body fn", OF not_not [THEN iffD2, OF True]]
      by (intro run_same_shape [where d = d] blind refl agree_bindNamed sel(8) agree_call_where sel(6) agree_inner sim_upd sel(7) sim_context [OF ctx]; assumption?)
  qed (simp add: CompileCallCount_def)
qed

end

text \<open>
  C17. No value reaches the text of a function call: two calls of one function whose arguments have the
  same names (and, where a parameter is variadic, as many elements) and that differ otherwise only in
  argument values and filter operands compile, under any two request contexts, to statements with one
  text and as many bound arguments, or are refused alike. The filter operands differ as they do for queries: lists
  of the same length, keywords of \<open>is\<close> and truth values of boolean columns for themselves.
\<close>

theorem call_text_independent_of_values:
  assumes "d \<in> {sqlite, postgres, mysql, sqlserver}" and "alike_call d fn c c'"
  shows "same_shape (CompileCall d c (Some fn) (ContextArgs (Some rc))) (CompileCall d c' (Some fn) (ContextArgs (Some rc'))) \<and>
         same_shape (CompileCallCount d c (Some fn) (ContextArgs (Some rc))) (CompileCallCount d c' (Some fn) (ContextArgs (Some rc')))"
proof -
  note blind_dialect = dialects_blind [OF assms(1)]
  have "keys_of (ContextArgs (Some rc)) = keys_of (ContextArgs (Some rc'))" by (simp add: ContextArgs_def)
  then show ?thesis by (intro conjI value_blind.call_shape [OF blind_dialect assms(2)] value_blind.call_count_shape [OF blind_dialect assms(2)])
qed

definition demo_full_context :: "string \<Rightarrow> full_context" where
  "demo_full_context role = \<lparr>rc_role = role, rc_anonymous = False, rc_claims = [], cx_method = ''POST'', cx_path = ''/rpc/add'', cx_headers = [],
     cx_cookies = [], cx_schema = [], cx_pre_request = [], cx_app_settings = [], cx_log_query = False, cx_timezone = [], cx_controls = \<lparr>rsp_status = 0, rsp_headers = [], rsp_upsert_known = False, rsp_inserted = 0\<rparr>\<rparr>"

definition demo_reader :: rpc_function where
  "demo_reader = (demo_function [demo_param ''a'' False])\<lparr>f_query := Some ''SELECT :a, :request_role''\<rparr>"

theorem call_text_independent_of_values_witness:
  "same_shape (CompileCall postgres (demo_call [(''a'', text_value ''1'')]) (Some demo_reader) (ContextArgs (Some (demo_full_context ''web''))))
     (CompileCall postgres (demo_call [(''a'', text_value [squote])]) (Some demo_reader) (ContextArgs (Some (demo_full_context [squote])))) \<and>
   map_option (map_sum id st_sql) (CompileCall postgres (demo_call [(''a'', text_value [squote])]) (Some demo_reader)
     (ContextArgs (Some (demo_full_context [squote])))) = Some (Inr ''SELECT $1, $2'')"
proof
  have "alike_call postgres demo_reader (demo_call [(''a'', text_value ''1'')]) (demo_call [(''a'', text_value [squote])])"
    by (simp add: alike_call_def alike_def callQuery_def demo_call_def arg_shape_def arg_width_def demo_reader_def demo_function_def demo_param_def
        fn_Param_def new_call_def)
  from call_text_independent_of_values [OF _ this]
  show "same_shape (CompileCall postgres (demo_call [(''a'', text_value ''1'')]) (Some demo_reader) (ContextArgs (Some (demo_full_context ''web''))))
     (CompileCall postgres (demo_call [(''a'', text_value [squote])]) (Some demo_reader) (ContextArgs (Some (demo_full_context [squote]))))" by blast
qed code_simp

end
