(* ===== verification/Sqlgen_Errors.thy ===== *)
theory Sqlgen_Errors
  imports Sqlgen_Call
begin

section \<open>The refusals of the compiler\<close>

text \<open>
  Which errors compiling a query may end in. \<open>refuses m\<close>: wherever the builder is, \<open>m\<close> fails only with a compile error.
\<close>

named_theorems refusals

definition compile_error :: "api_error \<Rightarrow> bool" where
  "compile_error e \<longleftrightarrow> (http_status e, code e) \<in> {(400, ''PGRST127''), (400, ''PGRST100''), (500, ''PGRSTX00'')}"

lemma compile_errors [simp]:
  "compile_error (ErrUnsupported f b)" "compile_error (ErrFullTextUnavailable c b)" "compile_error (ErrParse m)" "compile_error (ErrInternal m)"
  by (simp_all add: compile_error_def ErrUnsupported_def ErrFullTextUnavailable_def ErrParse_def ErrInternal_def WithHint_def WithDetails_def New_def)

definition refuses :: "'a sql \<Rightarrow> bool" where
  "refuses m \<longleftrightarrow> (\<forall>b e. m b = Some (Inl e) \<longrightarrow> compile_error e)"

lemma refuses_basic [refusals]:
  "refuses (ret x)" "refuses panic" "refuses (modify f)" "refuses (gets g)" "refuses (emit s)"
  by (simp_all add: refuses_def ret_def panic_def modify_def gets_def emit_def)

lemma refuses_fail [refusals]: "compile_error e \<Longrightarrow> refuses (fail e)"
  by (simp add: refuses_def fail_def)

lemma refuses_andthen [refusals]: "refuses m \<Longrightarrow> (\<And>x. refuses (k x)) \<Longrightarrow> refuses (andthen m k)"
  by (fastforce simp: refuses_def andthen_def split: option.split_asm sum.split_asm prod.split_asm)

lemma refuses_each [refusals]: "(\<And>x. refuses (f x)) \<Longrightarrow> refuses (each f xs)"
  by (induction xs) (auto intro!: refusals)

lemma refuses_each_sep [refusals]: "(\<And>x. refuses (f x)) \<Longrightarrow> refuses (each_sep sep f xs)"
  by (induction sep f xs rule: each_sep.induct) (auto intro!: refusals)

lemma refuses_capture [refusals]: "refuses m \<Longrightarrow> refuses (capture m)"
  by (auto simp: capture_def intro!: refusals)

lemma refuses_bindv [refusals]: "refuses (bindv d a)"
  by (auto simp: bindv_def intro!: refusals)

lemma refuses_fromTextValue [refusals]: "refuses (fromTextValue x0 x1 x2 x3)"
  by (auto simp: fromTextValue_def Let_def intro!: refusals split: option.split list.split prod.split sum.split)

lemma refuses_path0 [refusals]: "refuses (path0 x0)"
  by (auto simp: path0_def Let_def intro!: refusals split: option.split list.split prod.split sum.split)

lemma refuses_filterValue [refusals]: "refuses (filterValue x0 x1)"
  by (auto simp: filterValue_def Let_def intro!: refusals split: option.split list.split prod.split sum.split)

lemma refuses_writeValue [refusals]: "refuses (writeValue x0 x1 x2 x3)"
  by (auto simp: writeValue_def Let_def intro!: refusals split: option.split list.split prod.split sum.split json.split)

lemma refuses_jsonPathExpr [refusals]: "refuses (jsonPathExpr x0 x1 x2 x3)"
  by (auto simp: jsonPathExpr_def Let_def intro!: refusals split: option.split list.split prod.split sum.split)

lemma refuses_path_expr [refusals]: "refuses (path_expr x0 x1 x2)"
  by (auto simp: path_expr_def Let_def intro!: refusals split: option.split list.split prod.split sum.split)

lemma refuses_columnExpr [refusals]: "refuses (columnExpr x0 x1)"
  by (auto simp: columnExpr_def Let_def intro!: refusals split: option.split list.split prod.split sum.split)

lemma refuses_aggregateExpr [refusals]: "refuses (aggregateExpr x0 x1)"
  by (auto simp: aggregateExpr_def Let_def intro!: refusals split: option.split list.split prod.split sum.split)

lemma refuses_select_item_sql [refusals]: "refuses (select_item_sql x0 x1)"
  by (auto simp: select_item_sql_def Let_def intro!: refusals split: option.split list.split prod.split sum.split select_item.split)

lemma refuses_writeSelect [refusals]: "refuses (writeSelect x0 x1)"
  by (auto simp: writeSelect_def Let_def intro!: refusals split: option.split list.split prod.split sum.split)

lemma refuses_supported [refusals]: "refuses (supported x0 x1)"
  by (auto simp: supported_def Let_def intro!: refusals split: option.split list.split prod.split sum.split)

lemma refuses_regex_sql [refusals]: "refuses (regex_sql x0 x1 x2 x3 x4 x5)"
  by (auto simp: regex_sql_def Let_def intro!: refusals split: option.split list.split prod.split sum.split)

lemma refuses_writeFTS [refusals]: "refuses (writeFTS x0 x1 x2)"
  by (auto simp: writeFTS_def Let_def intro!: refusals split: option.split list.split prod.split sum.split)

lemma refuses_writeIn [refusals]: "refuses (writeIn x0 x1 x2 x3 x4)"
  by (auto simp: writeIn_def Let_def intro!: refusals split: option.split list.split prod.split sum.split)

lemma refuses_quantElem [refusals]: "refuses (quantElem x0 x1 x2 x3 x4 x5)"
  by (auto simp: quantElem_def Let_def intro!: refusals split: option.split list.split prod.split sum.split)

lemma refuses_writeQuantified [refusals]: "refuses (writeQuantified x0 x1 x2)"
  by (auto simp: writeQuantified_def Let_def intro!: refusals split: option.split list.split prod.split sum.split)

lemma refuses_writeIs [refusals]: "refuses (writeIs x0 x1 x2)"
  by (auto simp: writeIs_def Let_def intro!: refusals split: option.split list.split prod.split sum.split)

lemma refuses_equality_sql [refusals]: "refuses (equality_sql x0 x1 x2)"
  by (auto simp: equality_sql_def Let_def intro!: refusals split: option.split list.split prod.split sum.split)

lemma refuses_plain_compare [refusals]: "refuses (plain_compare x0 x1 x2 x3)"
  by (auto simp: plain_compare_def Let_def intro!: refusals split: option.split list.split prod.split sum.split)

lemma refuses_writeCompare [refusals]: "refuses (writeCompare x0 x1)"
  by (auto simp: writeCompare_def Let_def intro!: refusals split: option.split list.split prod.split sum.split)

lemma refuses_joinCond [refusals]: "refuses (joinCond x0 x1 x2 x3 x4)"
  by (auto simp: joinCond_def Let_def intro!: refusals split: option.split list.split prod.split sum.split)

lemma refuses_embedSource [refusals]: "refuses (embedSource x0 x1 x2 x3)"
  by (auto simp: embedSource_def Let_def intro!: refusals split: option.split list.split prod.split sum.split)

lemma refuses_embed_rel [refusals]: "refuses (embed_rel x0)"
  by (auto simp: embed_rel_def Let_def intro!: refusals split: option.split list.split prod.split sum.split)

lemma refuses_next_alias [refusals]: "refuses (next_alias x0)"
  by (auto simp: next_alias_def Let_def intro!: refusals split: option.split list.split prod.split sum.split)

lemma refuses_write_junction [refusals]: "refuses (write_junction x0 x1 x2 x3 x4 x5)"
  by (auto simp: write_junction_def Let_def intro!: refusals split: option.split list.split prod.split sum.split)

lemma refuses_embed_filter [refusals]: "(\<And>c. refuses (wc c)) \<Longrightarrow> refuses (embed_filter d wc e alias)"
  by (auto simp: embed_filter_def intro!: refusals split: option.split)

lemma refuses_embed_exists [refusals]: "(\<And>c. refuses (wc c)) \<Longrightarrow> refuses (embed_exists d wc e parent)"
  by (auto simp: embed_exists_def intro!: refusals split: prod.split)

lemma refuses_each_sep_in: "(\<And>x. x \<in> set xs \<Longrightarrow> refuses (f x)) \<Longrightarrow> refuses (each_sep sep f xs)"
  by (induction sep f xs rule: each_sep.induct) (auto intro!: refusals)

lemma refuses_writeCond [refusals]: "refuses (writeCond d n c)"
proof (induction d n c rule: writeCond.induct)
  case (6 d n i ex)
  then show ?case by (auto intro!: refusals)
qed (auto intro!: refuses_basic refuses_andthen refuses_each_sep_in refuses_writeCompare)

lemma refuses_writeCondTop [refusals]: "refuses (writeCondTop x0 x1)"
  by (auto simp: writeCondTop_def Let_def intro!: refusals split: option.split list.split prod.split sum.split)

lemma refuses_writeEmbedFilter [refusals]: "refuses (writeEmbedFilter x0 x1 x2)"
  by (auto simp: writeEmbedFilter_def Let_def intro!: refusals split: option.split list.split prod.split sum.split)

lemma refuses_writeEmbedExists [refusals]: "refuses (writeEmbedExists x0 x1 x2)"
  by (auto simp: writeEmbedExists_def Let_def intro!: refusals split: option.split list.split prod.split sum.split)

lemma refuses_relatedOrderExpr [refusals]: "refuses (relatedOrderExpr x0 x1 x2)"
  by (auto simp: relatedOrderExpr_def Let_def intro!: refusals split: option.split list.split prod.split sum.split)

lemma refuses_order_sql [refusals]: "refuses (order_sql x0 x1 x2)"
  by (auto simp: order_sql_def Let_def intro!: refusals split: option.split list.split prod.split sum.split)

lemma refuses_writeOrder [refusals]: "refuses (writeOrder x0 x1)"
  by (auto simp: writeOrder_def Let_def intro!: refusals split: option.split list.split prod.split sum.split)

lemma refuses_write_window [refusals]: "refuses (write_window x0 x1 x2 x3)"
  by (auto simp: write_window_def Let_def intro!: refusals split: option.split list.split prod.split sum.split)

lemma refuses_write_where [refusals]: "refuses (write_where x0 x1)"
  by (auto simp: write_where_def Let_def intro!: refusals split: option.split list.split prod.split sum.split)

lemma refuses_write_group [refusals]: "refuses (write_group)"
  by (auto simp: write_group_def Let_def intro!: refusals split: option.split list.split prod.split sum.split)

lemma refuses_write_inner [refusals]: "refuses (write_inner d parent wrote es)"
  by (induction d parent wrote es rule: write_inner.induct) (auto intro!: refusals)

lemma refuses_writeCountFromAndPredicates [refusals]: "refuses (writeCountFromAndPredicates x0 x1)"
  by (auto simp: writeCountFromAndPredicates_def Let_def intro!: refusals split: option.split list.split prod.split sum.split)

lemma refuses_nth_embed [refusals]: "refuses (nth_embed x0 x1)"
  by (auto simp: nth_embed_def Let_def intro!: refusals split: option.split list.split prod.split sum.split)

lemma refuses_enter_embed [refusals]: "refuses (enter_embed x0 x1 x2 x3)"
  by (auto simp: enter_embed_def Let_def intro!: refusals split: option.split list.split prod.split sum.split)

lemma refuses_leave_embed [refusals]: "refuses (leave_embed x0)"
  by (auto simp: leave_embed_def Let_def intro!: refusals split: option.split list.split prod.split sum.split)

lemma refuses_spread_column [refusals]: "refuses (spread_column x0 x1 x2 x3)"
  by (auto simp: spread_column_def Let_def intro!: refusals split: option.split list.split prod.split sum.split select_item.split)

lemma refuses_spreadPairs [refusals]: "refuses (spreadPairs x0 x1 x2)"
  by (auto simp: spreadPairs_def Let_def intro!: refusals split: option.split list.split prod.split sum.split)

lemma refuses_write_to_one [refusals]: "refuses (write_to_one x0 x1 x2 x3 x4 x5)"
  by (auto simp: write_to_one_def Let_def intro!: refusals split: option.split list.split prod.split sum.split)

lemma refuses_embed_order [refusals]: "refuses (embed_order x0 x1 x2 x3)"
  by (auto simp: embed_order_def Let_def intro!: refusals split: option.split list.split prod.split sum.split)

lemma refuses_write_to_many [refusals]: "refuses (write_to_many x0 x1 x2 x3 x4 x5 x6 x7)"
  by (auto simp: write_to_many_def Let_def intro!: refusals split: option.split list.split prod.split sum.split)

lemma refuses_object_item: "(\<And>e. e \<in> set es \<Longrightarrow> refuses (we e)) \<Longrightarrow> refuses (object_item d we alias target es it)"
  by (auto simp: object_item_def nth_embed_def Let_def intro!: refusals split: select_item.split)

lemma refuses_each_in: "(\<And>x. x \<in> set xs \<Longrightarrow> refuses (f x)) \<Longrightarrow> refuses (each f xs)"
  by (induction xs) (auto intro!: refusals)

lemma refuses_writeEmbed [refusals]: "refuses (writeEmbed d e p)" "refuses (embedObject d e p)"
proof (induction d e p and d e p rule: writeEmbed_embedObject.induct)
  case (1 d e parentAlias)
  then show ?case by (auto intro!: refusals split: prod.split)
next
  case (2 d em bq es al)
  have "refuses (each (object_item d (\<lambda>nested. writeEmbed d nested al) al (rs_target rel) es) (q_select bq))" if "q_select bq \<noteq> []" for rel
    by (intro refuses_each_in refuses_object_item, rule 2) (use that in auto)
  then show ?case
    by (auto simp del: writeEmbed.simps intro!: refuses_andthen refuses_basic refuses_embed_rel refuses_enter_embed refuses_leave_embed)
qed

lemma refuses_embedExpr [refusals]: "refuses (embedExpr x0 x1 x2)"
  by (auto simp: embedExpr_def Let_def intro!: refusals split: option.split list.split prod.split sum.split)

lemma refuses_write_columns [refusals]: "refuses (write_columns x0 x1)"
  by (auto simp: write_columns_def Let_def intro!: refusals split: option.split list.split prod.split sum.split)

lemma refuses_embedded_item [refusals]: "refuses (embedded_item x0 x1 x2 x3)"
  by (auto simp: embedded_item_def Let_def intro!: refusals split: option.split list.split prod.split sum.split select_item.split)

lemma refuses_embedded_items [refusals]: "refuses (embedded_items d es p first items)"
  by (induction d es p first items rule: embedded_items.induct) (auto intro!: refusals)

lemma refuses_writeEmbeddedSelect [refusals]: "refuses (writeEmbeddedSelect x0 x1 x2)"
  by (auto simp: writeEmbeddedSelect_def Let_def intro!: refusals split: option.split list.split prod.split sum.split)

lemma refuses_writeEmbeddedQuery [refusals]: "refuses src \<Longrightarrow> refuses (writeEmbeddedQuery d q src)"
  by (auto simp: writeEmbeddedQuery_def Let_def intro!: refusals split: option.split)

lemma refuses_insert_cell [refusals]: "refuses (insert_cell x0 x1 x2 x3)"
  by (auto simp: insert_cell_def Let_def intro!: refusals split: option.split list.split prod.split sum.split)

lemma refuses_insert_row [refusals]: "refuses (insert_row x0 x1 x2)"
  by (auto simp: insert_row_def Let_def intro!: refusals split: option.split list.split prod.split sum.split)

lemma refuses_writeConflict [refusals]: "refuses (writeConflict x0 x1 x2)"
  by (auto simp: writeConflict_def Let_def intro!: refusals split: option.split list.split prod.split sum.split)

lemma refuses_writeReturning [refusals]: "refuses (writeReturning x0 x1)"
  by (auto simp: writeReturning_def Let_def intro!: refusals split: option.split list.split prod.split sum.split)

lemma refuses_update_column [refusals]: "refuses (update_column x0 x1 x2)"
  by (auto simp: update_column_def Let_def intro!: refusals split: option.split list.split prod.split sum.split)

lemma refuses_bindVariadic [refusals]: "refuses (bindVariadic x0 x1)"
  by (auto simp: bindVariadic_def Let_def intro!: refusals split: option.split list.split prod.split sum.split json.split)

lemma refuses_argValue [refusals]: "refuses (argValue x0 x1 x2 x3)"
  by (auto simp: argValue_def Let_def intro!: refusals split: option.split list.split prod.split sum.split)

lemma refuses_bind_piece [refusals]: "refuses (bind_piece x0 x1 x2 x3)"
  by (auto simp: bind_piece_def Let_def intro!: refusals split: option.split list.split prod.split sum.split body_piece.split)

lemma refuses_bindNamed [refusals]: "refuses (bindNamed x0 x1 x2)"
  by (auto simp: bindNamed_def Let_def intro!: refusals split: option.split list.split prod.split sum.split)

lemma refuses_call_where [refusals]: "refuses (call_where x0 x1)"
  by (auto simp: call_where_def Let_def intro!: refusals split: option.split list.split prod.split sum.split)

lemma refuses_wrap_rows [refusals]: "refuses (wrap_rows x0 x1 x2 x3 x4 x5)"
  by (auto simp: wrap_rows_def Let_def intro!: refusals split: option.split list.split prod.split sum.split)

lemma refuses_with_args [refusals]: "refuses (with_args x0)"
  by (auto simp: with_args_def Let_def intro!: refusals split: option.split list.split prod.split sum.split)

lemma refuses_native_select [refusals]: "refuses (native_select x0 x1)"
  by (auto simp: native_select_def Let_def intro!: refusals split: option.split list.split prod.split sum.split)

subsection \<open>Statements\<close>

lemma run_refuses: "run m = Some (Inl e) \<Longrightarrow> refuses m \<Longrightarrow> compile_error e"
  by (auto simp: run_def refuses_def split: option.split_asm sum.split_asm prod.split_asm)

lemma compileReadPlain_refusal: "compileReadPlain d q w = Some (Inl e) \<Longrightarrow> compile_error e"
  by (auto simp: compileReadPlain_def Let_def dest!: run_refuses intro!: refusals split: option.split_asm if_split_asm option.split)

lemma compileReadEmbedded_refusal: "compileReadEmbedded d q = Some (Inl e) \<Longrightarrow> compile_error e"
  by (auto simp: compileReadEmbedded_def Let_def dest!: run_refuses intro!: refusals split: option.split_asm if_split_asm option.split)

lemma CompileRead_refusal: "CompileRead d q = Some (Inl e) \<Longrightarrow> compile_error e"
  by (auto simp: CompileRead_def dest: compileReadPlain_refusal compileReadEmbedded_refusal split: if_split_asm)

lemma CompileReadCounted_refusal: "CompileReadCounted d q = Some (Inl e) \<Longrightarrow> compile_error e"
  by (auto simp: CompileReadCounted_def dest: compileReadPlain_refusal split: if_split_asm)

lemma CompileCount_refusal: "CompileCount d q = Some (Inl e) \<Longrightarrow> compile_error e"
  by (auto simp: CompileCount_def Let_def dest!: run_refuses intro!: refusals split: option.split_asm if_split_asm option.split)

lemma CompileRowEstimateSource_refusal: "CompileRowEstimateSource d q = Some (Inl e) \<Longrightarrow> compile_error e"
  by (auto simp: CompileRowEstimateSource_def Let_def dest!: run_refuses intro!: refusals split: option.split_asm if_split_asm option.split)

lemma CompileInsert_refusal: "CompileInsert d q r = Some (Inl e) \<Longrightarrow> compile_error e"
  by (auto simp: CompileInsert_def Let_def dest!: run_refuses intro!: refusals split: option.split_asm if_split_asm option.split)

lemma CompileUpdate_refusal: "CompileUpdate d q r = Some (Inl e) \<Longrightarrow> compile_error e"
  by (auto simp: CompileUpdate_def Let_def dest!: run_refuses intro!: refusals split: option.split_asm if_split_asm option.split)

lemma CompileDelete_refusal: "CompileDelete d q r = Some (Inl e) \<Longrightarrow> compile_error e"
  by (auto simp: CompileDelete_def Let_def dest!: run_refuses intro!: refusals split: option.split_asm if_split_asm option.split)

lemma CompileCall_refusal: "CompileCall d c fn ctx = Some (Inl e) \<Longrightarrow> compile_error e"
  by (auto simp: CompileCall_def Let_def dest!: run_refuses intro!: refusals split: option.split_asm if_split_asm option.split)

lemma CompileCallCount_refusal: "CompileCallCount d c fn ctx = Some (Inl e) \<Longrightarrow> compile_error e"
  by (auto simp: CompileCallCount_def Let_def dest!: run_refuses intro!: refusals split: option.split_asm if_split_asm option.split)

lemma CompileNativeCallWrap_refusal: "CompileNativeCallWrap d c st = Some (Inl e) \<Longrightarrow> compile_error e"
  by (auto simp: CompileNativeCallWrap_def Let_def dest!: run_refuses intro!: refusals split: option.split_asm if_split_asm option.split)

lemma CompileNativeCallCountWrap_refusal: "CompileNativeCallCountWrap d c st = Some (Inl e) \<Longrightarrow> compile_error e"
  by (auto simp: CompileNativeCallCountWrap_def Let_def dest!: run_refuses intro!: refusals split: option.split_asm if_split_asm option.split)

lemma CompileNativeCallCountedWrap_refusal: "CompileNativeCallCountedWrap d c st = Some (Inl e) \<Longrightarrow> compile_error e"
  by (auto simp: CompileNativeCallCountedWrap_def Let_def dest!: run_refuses intro!: refusals split: option.split_asm if_split_asm option.split)

text \<open>
  C37. Every refusal of the compiler is a client error or a bug report: whatever the dialect, the query and the values,
  a statement that is not written is refused with PGRST127 (400, a feature the dialect lacks), PGRST100 (400, an
  operand or payload that cannot be compiled) or PGRSTX00 (500, a plan the planner does not make).
\<close>

theorem compile_refusals:
  assumes "CompileRead d q = Some (Inl e) \<or> CompileReadCounted d q = Some (Inl e) \<or> CompileCount d q = Some (Inl e) \<or>
    CompileInsert d q returning = Some (Inl e) \<or> CompileUpdate d q returning = Some (Inl e) \<or> CompileDelete d q returning = Some (Inl e) \<or>
    CompileCall d c fn ctx = Some (Inl e) \<or> CompileCallCount d c fn ctx = Some (Inl e) \<or> CompileNativeCallWrap d c st = Some (Inl e)"
  shows "(http_status e, code e) \<in> {(400, ''PGRST127''), (400, ''PGRST100''), (500, ''PGRSTX00'')}"
  using assms unfolding compile_error_def [symmetric]
  by (elim disjE) (erule CompileRead_refusal CompileReadCounted_refusal CompileCount_refusal CompileInsert_refusal CompileUpdate_refusal
    CompileDelete_refusal CompileCall_refusal CompileCallCount_refusal CompileNativeCallWrap_refusal)+

theorem compile_refusals_witness:
  "\<exists>e. CompileRead sqlite (Query ((new_base Read ''films'')\<lparr>q_select := [SEmbedRef 0]\<rparr>) []) = Some (Inl e) \<and> http_status e = 400"
proof -
  let ?r = "CompileRead sqlite (Query ((new_base Read ''films'')\<lparr>q_select := [SEmbedRef 0]\<rparr>) [])"
  have "case ?r of Some (Inl e) \<Rightarrow> code e = ''PGRST127'' | _ \<Rightarrow> False" by code_simp
  then obtain e where e: "?r = Some (Inl e)" "code e = ''PGRST127''" by (auto split: option.split_asm sum.split_asm)
  show ?thesis using compile_refusals [OF disjI1 [OF e(1)]] e by auto
qed

end
