(* ===== verification/Sqlgen_Total.thy ===== *)
theory Sqlgen_Total
  imports Sqlgen_Errors
begin

section \<open>The compiler does not panic\<close>

text \<open>
  The compiler indexes without a check: the first name of a path, the embed a select item refers to, the relationship of
  an embed, the columns of its keys. \<open>ready\<close> collects what it takes for granted, and here it is shown that parsing and
  planning establish it, for every model whose relationships pair their columns up (\<open>edges_fit\<close>).
\<close>

subsection \<open>Paths\<close>

text \<open>A level whose columns, comparisons and order terms all name a column.\<close>

definition named :: "query_base \<Rightarrow> bool" where
  "named b \<longleftrightarrow> (\<forall>it \<in> set (q_select b). \<forall>c \<in> set (item_columns it). c_path c \<noteq> []) \<and>
     (\<forall>c \<in> set (where_list comparisons b). cmp_path c \<noteq> []) \<and> (\<forall>t \<in> set (q_order b). o_path t \<noteq> [])"

text \<open>A filter as the parser makes it has no existence test; the planner adds those of the outermost level.\<close>

definition plain_cond :: "cond \<Rightarrow> bool" where
  "plain_cond c \<longleftrightarrow> cond_embeds c = [] \<and> (\<forall>x \<in> set (comparisons c). cmp_path x \<noteq> [])"

definition plain_level :: "query_base \<Rightarrow> embed list \<Rightarrow> bool" where
  "plain_level b es \<longleftrightarrow> named b \<and> where_list cond_embeds b = []"

lemma plain_cond_simps [simp]:
  "plain_cond (CAnd ks) \<longleftrightarrow> list_all plain_cond ks" "plain_cond (COr ks) \<longleftrightarrow> list_all plain_cond ks"
  "plain_cond (CNot k) \<longleftrightarrow> plain_cond k" "plain_cond (CCompare c) \<longleftrightarrow> cmp_path c \<noteq> []" "\<not> plain_cond (CEmbedPredicate i ex)"
  by (auto simp: plain_cond_def list_all_iff)

lemma plain_level_iff:
  "plain_level b es \<longleftrightarrow> (\<forall>it \<in> set (q_select b). \<forall>c \<in> set (item_columns it). c_path c \<noteq> []) \<and>
     pred_option plain_cond (q_where b) \<and> (\<forall>t \<in> set (q_order b). o_path t \<noteq> [])"
  by (auto simp: plain_level_def named_def where_list_def plain_cond_def split: option.split)

lemma column_body_path: "column_body cast raw = Inr c \<Longrightarrow> c_path c \<noteq> []"
  by (auto simp: column_body_def bindr_Inr_conv split_beta dest!: parsePath_nonempty)

lemma parseColumnItem_path: "parseColumnItem raw = Inr c \<Longrightarrow> c_path c \<noteq> []"
  by (auto simp: parseColumnItem_def Let_def dest: column_body_path split: option.split_asm)

lemma aggregate_body_path: "aggregate_body cast s = Inr (Some a) \<Longrightarrow> a_arg a = Some c \<Longrightarrow> c_path c \<noteq> []"
  by (auto simp: aggregate_body_def Let_def bindr_Inr_conv split_beta dest: parseColumnItem_path split: option.split_asm if_split_asm)

lemma parseAggregate_path: "parseAggregate raw = Inr (Some a) \<Longrightarrow> a_arg a = Some c \<Longrightarrow> c_path c \<noteq> []"
  by (auto simp: parseAggregate_def Let_def dest: aggregate_body_path split: option.split_asm if_split_asm)

lemma parsed_from_path: "parsed_from (PItem it) \<Longrightarrow> c \<in> set (item_columns it) \<Longrightarrow> c_path c \<noteq> []"
  by (cases it) (auto simp: item_columns_def legacy_count_def dest: parseColumnItem_path parseAggregate_path [OF _ sym] split: option.split_asm)

lemma assemble_items:
  "list_all parsed_from ps \<Longrightarrow> assemble n ps = (sel, es) \<Longrightarrow> it \<in> set sel \<Longrightarrow> (\<exists>i. it = SEmbedRef i) \<or> parsed_from (PItem it)"
proof (induction n ps arbitrary: sel es rule: assemble.induct)
  case (2 n it ps)
  then show ?case by (cases "assemble n ps") auto
next
  case (3 n e ps)
  then show ?case by (cases "assemble (Suc n) ps") auto
qed auto

lemma parseCompare_path: "parseCompare path lst raw = Inr c \<Longrightarrow> cmp_path c = path"
  by (auto simp: parseCompare_def Let_def new_compare_def bindr_Inr_conv split: option.split_asm)

lemma logical_leaf_plain: "logical_leaf p = Inr c \<Longrightarrow> plain_cond c"
  by (auto simp: logical_leaf_def bindr_Inr_conv dest!: parseCompare_path parsePath_nonempty split: option.split_asm)

lemma parseLogical_plain: "parseLogical op raw = Inr c \<Longrightarrow> plain_cond c"
proof (induction op raw arbitrary: c rule: parseLogical.induct)
  case (1 op raw0)
  let ?raw = "trim_space (trim_prefix raw0 ''not.'')"
  let ?part = "\<lambda>part. let p = trim_space part in
                if logical_prefix p
                then bindr (parseLogical (sub_op p) (from_paren p)) (\<lambda>node. Inr (negated (has_prefix p ''not.'') node))
                else logical_leaf p"
  obtain kids where w: "wrapped CHR ''('' CHR '')'' ?raw"
    and kids: "mapr ?part (splitTopLevel (strip_ends ?raw) CHR '','') = Inr kids"
    and c: "c = negated (has_prefix raw0 ''not.'') (if op = ''or'' then COr kids else CAnd kids)"
    using "1.prems" by (auto simp: parseLogical.simps [of op] Let_def bindr_Inr_conv split: if_split_asm)
  have "plain_cond k" if k: "k \<in> set kids" for k
  proof -
    obtain part where part: "part \<in> set (splitTopLevel (strip_ends ?raw) CHR '','')" and p: "?part part = Inr k"
      using mapr_InrD [OF kids k] by blast
    have "plain_cond node" if "logical_prefix (trim_space part)" "parseLogical (sub_op (trim_space part)) (from_paren (trim_space part)) = Inr node" for node
      using "1.IH" [OF refl refl _ part refl that(1)] w that(2) by blast
    then show ?thesis using p by (auto simp: Let_def bindr_Inr_conv negated_def dest: logical_leaf_plain split: if_split_asm)
  qed
  then show ?case by (simp add: c negated_def list_all_iff)
qed

lemma key_conds_plain:
  assumes "key_conds key vs = Inr cs" and "c \<in> set cs"
  shows "plain_cond c"
proof -
  have log: "plain_cond c" if "mapr (parseLogical k) vs = Inr cs" for k
    using mapr_InrD [OF that assms(2)] parseLogical_plain by blast
  have neg: "plain_cond c" if "mapr (\<lambda>v. bindr (parseLogical k v) (\<lambda>n. Inr (CNot n))) vs = Inr cs" for k
    using mapr_InrD [OF that assms(2)] by (auto simp: bindr_Inr_conv dest: parseLogical_plain)
  have cmp: "plain_cond c" if "parsePath key = Inr (path, lst)" "mapr (\<lambda>v. bindr (parseCompare path lst v) (\<lambda>c. Inr (CCompare c))) vs = Inr cs" for path lst
    using mapr_InrD [OF that(2) assms(2)] parsePath_nonempty [OF that(1)] by (auto simp: bindr_Inr_conv dest: parseCompare_path)
  show ?thesis using assms log neg cmp by (auto simp: key_conds_def bindr_Inr_conv split: if_split_asm)
qed

lemma conj_conds_plain: "list_all plain_cond cs \<Longrightarrow> pred_option plain_cond (conj_conds cs)"
  by (auto simp: conj_conds_def split: list.split)

lemma parseFilters_plain: "parseFilters vals = Inr w \<Longrightarrow> pred_option plain_cond w"
proof -
  assume "parseFilters vals = Inr w"
  then obtain kss where kss: "mapr (\<lambda>key. key_conds key (case aget vals key of Some vs \<Rightarrow> vs | None \<Rightarrow> [])) (sortStrings (keys_of vals)) = Inr kss"
    and w: "w = conj_conds (concat kss)" by (auto simp: parseFilters_def bindr_Inr_conv)
  have "plain_cond c" if "c \<in> set (concat kss)" for c
    using that mapr_InrD [OF kss] key_conds_plain by fastforce
  then have "list_all plain_cond (concat kss)" unfolding list_all_iff by blast
  then show ?thesis unfolding w by (rule conj_conds_plain)
qed

lemma order_mods_path: "order_mods mods sd sn t = Inr t' \<Longrightarrow> o_path t' = o_path t"
  by (induction mods sd sn t rule: order_mods.induct) (auto split: if_split_asm)

lemma order_item_path: "order_item raw = Inr t \<Longrightarrow> o_path t \<noteq> []"
  by (auto simp: order_item_def Let_def bindr_Inr_conv split_beta dest!: order_mods_path parsePath_nonempty split: if_split_asm)

lemma parseOrder_path: "parseOrder s = Inr ts \<Longrightarrow> t \<in> set ts \<Longrightarrow> o_path t \<noteq> []"
  unfolding parseOrder_def by (drule (1) mapr_InrD) (auto dest: order_item_path)

lemma apply_self_plain: "apply_self b self = Inr b' \<Longrightarrow> plain_level b es \<Longrightarrow> plain_level b' es'"
  by (auto simp: apply_self_def bindr_Inr_conv plain_level_iff dest: parseFilters_plain parseOrder_path split: if_split_asm)

interpretation plain: counting_invariant plain_level
proof
  show "plain_level b es" if ps: "list_all parsed_from ps" "assemble 0 ps = (q_select b, es)" and f: "fresh b" for ps b es
    using assemble_items [OF ps] parsed_from_path f by (fastforce simp: plain_level_iff fresh_def item_columns_def)
qed (rule apply_self_plain)

subsection \<open>Relationships that pair their columns up\<close>

text \<open>
  \<open>joinCond\<close> walks the columns of one side and indexes those of the other. For a relationship through a junction it
  also pairs the keys of the two ends with each other, so these may not be wider at the target.
\<close>

definition edge_fits :: "relationship \<Rightarrow> bool" where
  "edge_fits r \<longleftrightarrow>
     length (rs_foreign r) \<le> length (rs_local r) \<and>
     (rs_junction r \<noteq> None \<longrightarrow> length (rs_jforeign r) \<le> length (rs_foreign r) \<and> length (rs_jlocal r) \<le> length (rs_local r))"

definition fk_fits :: "relation \<Rightarrow> foreign_key \<Rightarrow> bool" where
  "fk_fits rel fk \<longleftrightarrow> length (fk_columns fk) = length (fk_ref_columns fk) \<and>
     (\<forall>fk' \<in> set (r_foreign_keys rel). length (fk_columns fk') = length (fk_columns fk))"

definition declared_fits :: "declared_rel \<Rightarrow> bool" where
  "declared_fits d \<longleftrightarrow> length (d_foreign d) \<le> length (d_local d) \<and>
     (d_junction_name d \<noteq> [] \<longrightarrow> length (d_jforeign d) \<le> length (d_foreign d) \<and> length (d_jlocal d) \<le> length (d_local d))"

text \<open>A model whose keys pair up: those of one relation have one width, and declared relationships match.\<close>

definition keys_fit :: "model \<Rightarrow> bool" where
  "keys_fit m \<longleftrightarrow> (\<forall>rel \<in> set (relations m). \<forall>fk \<in> set (r_foreign_keys rel). fk_fits rel fk) \<and> list_all declared_fits (m_declared m)"

lemma aget_relation: "aget (m_relations m) key = Some r \<Longrightarrow> r \<in> set (relations m)"
  by (force simp: relations_def dest: aget_SomeD)

lemma lookup_path_mem: "lookup_path m name path = Some r \<Longrightarrow> r \<in> set (relations m)"
  by (induction m name path rule: lookup_path.induct) (auto dest: aget_relation split: option.split_asm)

lemma model_lookup_mem: "model_lookup m name path = Some r \<Longrightarrow> r \<in> set (relations m)"
  by (auto simp: model_lookup_def dest: lookup_path_mem aget_relation split: if_split_asm)

lemma junction_fks_mem: "x \<in> set (junction_fks j e) \<Longrightarrow> snd x \<in> set (r_foreign_keys j)"
  by (auto simp: junction_fks_def in_set_enumerate_eq)

lemma junction_edges_fit:
  assumes "keys_fit m" "j \<in> set (relations m)" "r \<in> set (junction_edges_of parent target j)"
  shows "edge_fits r"
proof -
  obtain p t where pt: "p \<in> set (r_foreign_keys j)" "t \<in> set (r_foreign_keys j)"
    and r: "rs_local r = fk_ref_columns p" "rs_foreign r = fk_ref_columns t" "rs_jlocal r = fk_columns p" "rs_jforeign r = fk_columns t"
    using assms(3) unfolding junction_edges_of_def
    by (auto split: if_split_asm dest!: junction_fks_mem)
  have "fk_fits j p" "fk_fits j t" using assms(1,2) pt by (auto simp: keys_fit_def)
  then show ?thesis using pt by (simp add: edge_fits_def r fk_fits_def)
qed

lemma declared_edge_fits:
  assumes "declared_edge m parent target d = Some r" "declared_fits d"
  shows "edge_fits r"
  using assms by (auto simp: declared_edge_def edge_fits_def declared_fits_def Let_def split: if_split_asm option.split_asm)

lemma computed_edge_fits: "edge_fits (computed_edge target cr)"
  by (simp add: computed_edge_def edge_fits_def)

lemma relationships_fit:
  assumes m: "keys_fit m" and parent: "parent \<in> set (relations m)" and rs: "relationships m parent name path = Some rs" "r \<in> set rs"
  shows "edge_fits r \<and> rs_target r \<in> set (relations m)"
proof -
  obtain target where t: "target \<in> set (relations m)"
    and r: "r \<in> set (forward_edges parent target @ backward_edges parent target @ concat (map (junction_edges_of parent target) (relations m)) @
      declared_edges m parent target @ computed_rel_edges parent target)"
  proof (cases "model_lookup m name path")
    case (Some target)
    have "r \<in> set (override_edges (forward_edges parent target @ backward_edges parent target @ concat (map (junction_edges_of parent target) (relations m)))
        (declared_edges m parent target @ computed_rel_edges parent target))" using rs Some by (auto simp: relationships_def)
    then show ?thesis using that [OF model_lookup_mem [OF Some]] by (simp add: override_edges_def split: if_split_asm) blast
  qed (use rs in \<open>simp add: relationships_def\<close>)
  have fk: "fk_fits rel fk" if "rel \<in> {parent, target}" "fk \<in> set (r_foreign_keys rel)" for rel fk
    using m parent t that by (auto simp: keys_fit_def)
  have fw: "edge_fits r" if "r \<in> set (forward_edges parent target)"
    using that fk [of parent] by (force simp: forward_edges_def edge_fits_def fk_fits_def)
  have bw: "edge_fits r" if "r \<in> set (backward_edges parent target)"
    using that fk [of target] by (force simp: backward_edges_def edge_fits_def fk_fits_def)
  have dc: "edge_fits r" if "r \<in> set (declared_edges m parent target)"
    using that m by (auto simp: declared_edges_def map_filter_def keys_fit_def list_all_iff intro: declared_edge_fits)
  have "edge_fits r" using r fw bw dc junction_edges_fit [OF m] computed_edge_fits by (auto simp: computed_rel_edges_def)
  moreover have "rs_target r = target" using r
    by (auto simp: forward_edges_def backward_edges_def junction_edges_of_def declared_edges_def declared_edge_def map_filter_def
        computed_rel_edges_def computed_edge_def Let_def split: if_split_asm option.split_asm)
  ultimately show ?thesis using t by simp
qed

lemma chosen_edge_fits:
  assumes "keys_fit m" "parent \<in> set (relations m)" "chosen_edge m parent em path r"
  shows "edge_fits r \<and> rs_target r \<in> set (relations m)"
proof (cases "computed_rel_by_name m parent (ref_name (e_target em)) path = Some r")
  case True
  then show ?thesis using computed_edge_fits
    by (auto simp: computed_rel_by_name_def computed_edge_def edge_fits_def dest: model_lookup_mem split: option.split_asm)
next
  case False
  then obtain cs where cs: "relationships m parent (ref_name (e_target em)) path = Some cs"
    and f: "filter (\<lambda>x. e_hint em = [] \<or> matches_hint x (e_hint em)) cs = [r]"
    using assms(3) by (auto simp: chosen_edge_def split: option.split_asm list.split_asm)
  have "r \<in> set cs" using f by (metis filter_is_subset list.set_intros(1) subset_iff)
  then show ?thesis using relationships_fit [OF assms(1,2) cs] by blast
qed

subsection \<open>Planned queries\<close>

fun embed_ready :: "embed \<Rightarrow> bool" where
  "embed_ready (Embed em (Query b es)) \<longleftrightarrow>
     pred_option edge_fits (e_rel em) \<and> e_rel em \<noteq> None \<and> plain_level b es \<and> refs_ok b es \<and> list_all embed_ready es"

definition ready :: "query \<Rightarrow> bool" where
  "ready q \<longleftrightarrow> named (base q) \<and> refs_ok (base q) (embeds q) \<and> list_all embed_ready (embeds q)"

lemma annotate_named: "validateCond rel c = Inr c' \<Longrightarrow> (\<forall>x \<in> set (comparisons c). cmp_path x \<noteq> []) \<Longrightarrow> (\<forall>x \<in> set (comparisons c'). cmp_path x \<noteq> [])"
proof (induction rel c arbitrary: c' rule: validateCond.induct)
  case (1 rel ks)
  then obtain ks' where ks: "mapr (validateCond rel) ks = Inr ks'" and c': "c' = CAnd ks'" by (auto simp: bindr_Inr_conv)
  have "\<forall>x \<in> set (comparisons k'). cmp_path x \<noteq> []" if "k' \<in> set ks'" for k'
    using mapr_InrD [OF ks that] 1 by fastforce
  then show ?case by (auto simp: c')
next
  case (2 rel ks)
  then obtain ks' where ks: "mapr (validateCond rel) ks = Inr ks'" and c': "c' = COr ks'" by (auto simp: bindr_Inr_conv)
  have "\<forall>x \<in> set (comparisons k'). cmp_path x \<noteq> []" if "k' \<in> set ks'" for k'
    using mapr_InrD [OF ks that] 2 by fastforce
  then show ?case by (auto simp: c')
next
  case (3 rel k)
  then obtain k' where k': "validateCond rel k = Inr k'" "c' = CNot (keep_compare k k')" by (auto simp: bindr_Inr_conv)
  moreover have "keep_compare k k' \<in> {k, k'}" by (cases k) (simp_all add: keep_compare_def)
  ultimately show ?case using 3 by auto
qed (auto split: option.split_asm)

lemma validateWhere_named:
  assumes "validateWhere rel w = Inr w'" and "named (b\<lparr>q_where := w\<rparr>)"
  shows "named (b\<lparr>q_where := w'\<rparr>)"
  using assms annotate_named by (fastforce simp: validateWhere_def named_def where_list_def bindr_Inr_conv split: option.split_asm)

lemma named_upd [simp]:
  "named (b\<lparr>q_relation := r\<rparr>) = named b" "named (bind_reps rel b) = named b" "named (bind_computed rel b) = named b"
  "named (b\<lparr>q_relation := r, q_where := w\<rparr>) = named (b\<lparr>q_where := w\<rparr>)"
  by (simp_all add: named_def where_list_def)

lemma refs_ok_sel: "q_select b = q_select b' \<Longrightarrow> length es = length es' \<Longrightarrow> refs_ok b es = refs_ok b' es'"
  by (simp add: refs_ok_def)

lemma reclassify_named: "(\<forall>x \<in> set (comparisons c). cmp_path x \<noteq> []) \<Longrightarrow> (\<forall>x \<in> set (comparisons (reclassify idx c)). cmp_path x \<noteq> [])"
  by (induction idx c rule: reclassify.induct) (auto split: list.split option.split)

lemma reclassifyEmbedFilters_named: "named (base q) \<Longrightarrow> named (base (reclassifyEmbedFilters q))"
  using reclassify_named by (fastforce simp: named_def reclassifyEmbedFilters_def where_list_def split: option.split_asm)

lemma resolveEmbeds_ready:
  "resolveEmbeds m path agg parent es = Inr es' \<Longrightarrow> keys_fit m \<Longrightarrow> parent \<in> set (relations m) \<Longrightarrow>
    list_all (embed_all plain_level) es \<Longrightarrow> list_all (embed_all refs_ok) es \<Longrightarrow> list_all embed_ready es'"
proof (induction m path agg parent es arbitrary: es' rule: resolveEmbeds.induct)
  case (2 m path agg parent em b es rest)
  obtain r w es1 rest' where r: "resolveOne m parent em path = Inr r"
    and sel: "validateSelect (rs_target r) (q_select b) agg = None"
    and w: "validateWhere (rs_target r) (q_where b) = Inr w"
    and ord: "validateOrder (rs_target r) (q_order b) = None"
    and es1: "resolveEmbeds m path agg (rs_target r) es = Inr es1"
    and rel: "validateRelatedOrder (rs_target r) (Query (b\<lparr>q_relation := \<lparr>ref_schema = r_schema (rs_target r),
        ref_name = r_name (rs_target r)\<rparr>, q_where := w\<rparr>) es1) = None"
    and rest: "resolveEmbeds m path agg parent rest = Inr rest'"
    and es': "es' = Embed (em\<lparr>e_rel := Some r, e_cardinality := toCardinality (rs_card r)\<rparr>)
        (Query (bind_reps (rs_target r) (bind_computed (rs_target r)
          (b\<lparr>q_relation := \<lparr>ref_schema = r_schema (rs_target r), ref_name = r_name (rs_target r)\<rparr>, q_where := w\<rparr>))) es1) # rest'"
    using 2(3) by (auto simp: result_simps Let_def)
  have fit: "edge_fits r" "rs_target r \<in> set (relations m)"
    using chosen_edge_fits [OF 2(4,5)] r by (auto simp: resolveOne_exact)
  have lev: "plain_level b es" "refs_ok b es" "list_all (embed_all plain_level) es" "list_all (embed_all refs_ok) es"
    using 2(6,7) by auto
  have all: "list_all embed_ready es1" using 2(1) [OF r refl sel w ord es1 2(4) fit(2) lev(3,4)] .
  have len: "length es1 = length es" using resolveEmbeds_planned [OF es1] by simp
  have "named (b\<lparr>q_where := w\<rparr>)" using validateWhere_named [OF w, of b] lev(1) by (simp add: plain_level_def)
  moreover have "where_list cond_embeds (b\<lparr>q_where := w\<rparr>) = []"
    using validateWhere_keeps [OF w] lev(1) where_list_embeds [of "b\<lparr>q_where := w\<rparr>" b] by (simp add: plain_level_def)
  moreover have "list_all embed_ready rest'"
    using 2(2) [OF r refl sel w ord es1 refl refl rel rest 2(4,5)] 2(6,7) by simp
  ultimately show ?case using all fit lev(2) len
    by (simp add: es' plain_level_def refs_ok_def where_list_def)
qed simp

lemma PlanRead_ready:
  assumes "PlanRead m q path agg = Inr (q', rel)" and "keys_fit m" and "query_all plain_level q" "query_all refs_ok q"
  shows "ready q'"
proof (rule PlanRead_InrE [OF assms(1)])
  fix w es
  let ?q1 = "reclassifyEmbedFilters (upd_base (bind_relation rel) q)"
  assume m: "model_lookup m (ref_name (q_relation (base q))) path = Some rel" and w: "validateWhere rel (q_where (base ?q1)) = Inr w"
    and es: "resolveEmbeds m path agg rel (embeds q) = Inr es"
    and q': "q' = Query (bind_reps rel (bind_computed rel ((base ?q1)\<lparr>q_where := w\<rparr>))) es"
  have lev: "plain_level (base q) (embeds q)" "refs_ok (base q) (embeds q)" "list_all (embed_all plain_level) (embeds q)" "list_all (embed_all refs_ok) (embeds q)"
    using assms(3,4) by (simp_all add: query_all_sel)
  have "named (base (upd_base (bind_relation rel) q))" using lev(1) by (simp add: plain_level_def bind_relation_def)
  from validateWhere_named [OF w, of "base ?q1"] reclassifyEmbedFilters_named [OF this] have "named ((base ?q1)\<lparr>q_where := w\<rparr>)" by simp
  moreover have "q_select (base ?q1) = q_select (base q)" by (simp add: reclassifyEmbedFilters_def bind_relation_def)
  ultimately show "ready q'"
    using resolveEmbeds_ready [OF es assms(2) model_lookup_mem [OF m] lev(3,4)] resolveEmbeds_planned [OF es] lev(2)
    by (simp add: ready_def q' refs_ok_def)
qed

lemma ParseRead_ready:
  assumes "ParseRead tz_ok rel raw hdrs = Inr q"
  shows "query_all plain_level q \<and> query_all refs_ok q"
proof -
  obtain vals where "parseQueryString (Query (with_prefer (ParsePrefer tz_ok hdrs) (new_base Read rel)) []) vals = Inr q"
    using ParseRead_InrE [OF assms] .
  moreover have "q_select (with_prefer (ParsePrefer tz_ok hdrs) (new_base Read rel)) = []"
    by (simp add: with_prefer_def new_base_def)
  ultimately show ?thesis by (auto intro: plain.parse_query_string_invariant refs.parse_query_string_invariant)
qed

subsection \<open>Safe steps\<close>

text \<open>
  \<open>safe m\<close>: from every builder whose embeds are ready, \<open>m\<close> returns, with an error or with such a builder.
\<close>

named_theorems safety

definition builder_ready :: "builder \<Rightarrow> bool" where
  "builder_ready b \<longleftrightarrow> list_all embed_ready (b_embeds b)"

definition safe :: "'a sql \<Rightarrow> bool" where
  "safe m \<longleftrightarrow> (\<forall>b. builder_ready b \<longrightarrow>
     m b \<noteq> None \<and> (\<forall>x b'. m b = Some (Inr (x, b')) \<longrightarrow> builder_ready b'))"

lemma safe_basic [safety]: "safe (ret x)" "safe (fail e)" "safe (gets f)" "safe (emit s)"
  by (simp_all add: safe_def ret_def fail_def gets_def emit_def modify_def builder_ready_def)

lemma safe_modify [safety]: "(\<And>b. builder_ready b \<Longrightarrow> builder_ready (f b)) \<Longrightarrow> safe (modify f)"
  by (simp add: safe_def modify_def)

lemma builder_ready_upd [simp]:
  "builder_ready (b\<lparr>b_sb := s\<rparr>) = builder_ready b" "builder_ready (b\<lparr>b_args := a\<rparr>) = builder_ready b"
  "builder_ready (b\<lparr>b_aliasN := n\<rparr>) = builder_ready b" "builder_ready (b\<lparr>b_qual := s\<rparr>) = builder_ready b"
  "builder_ready (b\<lparr>b_parentRef := s\<rparr>) = builder_ready b" "builder_ready (b\<lparr>b_hasAgg := h\<rparr>) = builder_ready b"
  "builder_ready (b\<lparr>b_groupBy := g\<rparr>) = builder_ready b" "builder_ready (b\<lparr>b_ctxArgs := c\<rparr>) = builder_ready b"
  "builder_ready (b\<lparr>b_embeds := es\<rparr>) = list_all embed_ready es" "builder_ready (useRelation d q name b) = builder_ready b"
  "builder_ready (restore_relation b' b) = builder_ready b"
  by (simp_all add: builder_ready_def useRelation_def restore_relation_def)

lemma safeI: "(\<And>b. builder_ready b \<Longrightarrow> m b \<noteq> None \<and> (\<forall>x b'. m b = Some (Inr (x, b')) \<longrightarrow> builder_ready b')) \<Longrightarrow> safe m"
  unfolding safe_def by blast

lemma safeD: "safe m \<Longrightarrow> builder_ready b \<Longrightarrow> m b \<noteq> None \<and> (\<forall>x b'. m b = Some (Inr (x, b')) \<longrightarrow> builder_ready b')"
  unfolding safe_def by blast

lemma safe_andthen [safety]:
  assumes "safe m" and k: "\<And>x. safe (k x)"
  shows "safe (andthen m k)"
proof (rule safeI)
  fix b
  assume b: "builder_ready b"
  obtain y where y: "m b = Some y" using safeD [OF assms(1) b] by auto
  show "andthen m k b \<noteq> None \<and> (\<forall>x b'. andthen m k b = Some (Inr (x, b')) \<longrightarrow> builder_ready b')"
  proof (cases y)
    case (Inr z)
    obtain x b1 where z: "z = (x, b1)" by fastforce
    then have "builder_ready b1" using safeD [OF assms(1) b] y Inr by blast
    moreover have "andthen m k b = k x b1" by (simp add: andthen_def y Inr z)
    ultimately show ?thesis using safeD [OF k] by metis
  qed (simp add: andthen_def y)
qed

text \<open>What a step reads from the builder is ready too.\<close>

lemma safe_gets_then:
  assumes "\<And>b. builder_ready b \<Longrightarrow> safe (k (f b))"
  shows "safe (andthen (gets f) k)"
proof (rule safeI)
  fix b
  assume b: "builder_ready b"
  have "andthen (gets f) k b = k (f b) b" by (simp add: andthen_def gets_def)
  then show "andthen (gets f) k b \<noteq> None \<and> (\<forall>x b'. andthen (gets f) k b = Some (Inr (x, b')) \<longrightarrow> builder_ready b')"
    using safeD [OF assms [OF b] b] by metis
qed

lemma safe_ret_then: "safe (k x) \<Longrightarrow> safe (andthen (ret x) k)"
  by (simp add: safe_def andthen_def ret_def)

lemma safe_each: "(\<And>x. x \<in> set xs \<Longrightarrow> safe (f x)) \<Longrightarrow> safe (each f xs)"
  by (induction xs) (auto intro!: safety)

lemma safe_each_sep: "(\<And>x. x \<in> set xs \<Longrightarrow> safe (f x)) \<Longrightarrow> safe (each_sep sep f xs)"
  by (induction sep f xs rule: each_sep.induct) (auto intro!: safety)

declare safe_each [safety] safe_each_sep [safety]

lemma safe_capture [safety]: "safe m \<Longrightarrow> safe (capture m)"
  by (auto simp: capture_def intro!: safety)

lemma safe_bindv [safety]: "safe (bindv d a)"
  by (auto simp: bindv_def intro!: safety)

subsection \<open>Columns and comparisons\<close>

lemma safe_path0: "p \<noteq> [] \<Longrightarrow> safe (path0 p)"
  by (cases p) (auto simp: path0_def intro!: safety)

lemma safe_values [safety]:
  "safe (fromTextValue d c j raw)" "safe (writeValue d c v ty)" "safe (jsonPathExpr d bs hops l)" "safe (supported w r)"
  by (auto simp: fromTextValue_def writeValue_def jsonPathExpr_def supported_def intro!: safety split: option.split)

lemma safe_path_expr [safety]: "p \<noteq> [] \<Longrightarrow> safe (path_expr d p l)"
  by (auto simp: path_expr_def intro!: safety safe_path0)

lemma safe_columnExpr [safety]: "c_path c \<noteq> [] \<Longrightarrow> safe (columnExpr d c)"
  by (auto simp: columnExpr_def intro!: safety)

definition item_named :: "select_item \<Rightarrow> bool" where
  "item_named it \<longleftrightarrow> (\<forall>c \<in> set (item_columns it). c_path c \<noteq> [])"

lemma safe_aggregateExpr [safety]: "item_named (SAggregate a) \<Longrightarrow> safe (aggregateExpr d a)"
  by (auto simp: aggregateExpr_def item_named_def item_columns_def intro!: safety split: option.split)

lemma safe_select_item_sql [safety]: "item_named it \<Longrightarrow> safe (select_item_sql d it)"
  by (cases it) (auto simp: select_item_sql_def Let_def item_named_def item_columns_def intro!: safety safe_aggregateExpr [unfolded item_named_def])

lemma safe_writeSelect: "(\<And>it. it \<in> set its \<Longrightarrow> item_named it) \<Longrightarrow> safe (writeSelect d its)"
  by (auto simp: writeSelect_def intro!: safety)

lemma safe_regex_sql [safety]: "safe (regex_sql d col cn j ci pat)"
  by (auto simp: regex_sql_def intro!: safety)

lemma safe_writeIn [safety]: "safe (writeIn d col cn j xs)"
  by (auto simp: writeIn_def intro!: safety split: option.split)

lemma safe_writeIs [safety]: "safe (writeIs d col t)"
  by (auto simp: writeIs_def intro!: safety)

lemma safe_quantElem [safety]: "safe (quantElem d col cn j opr v)"
  by (auto simp: quantElem_def intro!: safety)

lemma safe_writeCompare:
  assumes "cmp_path c \<noteq> []"
  shows "safe (writeCompare d c)"
proof -
  note p = safe_path0 [OF assms]
  have fv: "safe (filterValue d c)" by (auto simp: filterValue_def intro!: safety p)
  have fts: "safe (writeFTS d c col)" for col by (auto simp: writeFTS_def intro!: safety p split: option.split)
  have eq: "safe (equality_sql d col c)" for col by (auto simp: equality_sql_def Let_def intro!: safety fv)
  have pl: "safe (plain_compare d col p0 c)" for col p0 by (auto simp: plain_compare_def Let_def intro!: safety fv fts eq)
  have qu: "safe (writeQuantified d col c)" for col by (auto simp: writeQuantified_def Let_def intro!: safety p)
  show ?thesis using assms by (auto simp: writeCompare_def intro!: safety p pl qu)
qed

subsection \<open>Embeds\<close>

lemma embed_ready_sel:
  "embed_ready e \<longleftrightarrow> (\<exists>r. e_rel (meta e) = Some r \<and> edge_fits r) \<and> plain_level (base (equery e)) (embeds (equery e)) \<and>
     refs_ok (base (equery e)) (embeds (equery e)) \<and> list_all embed_ready (embeds (equery e))"
  by (cases e; cases "equery e") auto

lemma safe_joinCond: "length ls \<le> length rs \<Longrightarrow> safe (joinCond d l ls r rs)"
  by (auto simp: joinCond_def intro!: safety)

lemma safe_embedSource: "edge_fits r \<Longrightarrow> safe (embedSource d r al p)"
  by (auto simp: embedSource_def edge_fits_def intro!: safety safe_joinCond)

lemma safe_write_junction: "edge_fits r \<Longrightarrow> safe (write_junction d jp r al p corr)"
  by (auto simp: write_junction_def edge_fits_def intro!: safety safe_joinCond split: option.split)

lemma safe_next_alias [safety]: "safe (next_alias p)"
  by (auto simp: next_alias_def intro!: safety)

lemma safe_embed_rel_then:
  assumes "embed_ready e" and "\<And>r. e_rel (meta e) = Some r \<Longrightarrow> edge_fits r \<Longrightarrow> safe (k r)"
  shows "safe (andthen (embed_rel e) k)"
  using assms by (auto simp: embed_ready_sel embed_rel_def intro!: safe_ret_then)

lemma safe_embed_filter:
  assumes "embed_ready e" and "\<And>w. plain_cond w \<Longrightarrow> safe (wc w)"
  shows "safe (embed_filter d wc e al)"
proof (cases "q_where (base (equery e))")
  case (Some w)
  then have "plain_cond w" using assms(1) by (simp add: embed_ready_sel plain_level_iff)
  then show ?thesis using Some assms by (auto simp: embed_filter_def intro!: safety safe_embed_rel_then)
qed (auto simp: embed_filter_def intro!: safety)

lemma safe_embed_exists:
  assumes "embed_ready e" and "\<And>w. plain_cond w \<Longrightarrow> safe (wc w)"
  shows "safe (embed_exists d wc e p)"
  using assms by (auto simp: embed_exists_def intro!: safety safe_embed_rel_then safe_embedSource safe_write_junction safe_embed_filter split: prod.split)

lemma safe_plain_cond: "plain_cond c \<Longrightarrow> safe (writeCond d n c)"
  by (induction d n c rule: writeCond.induct) (auto simp: list_all_iff intro!: safety safe_writeCompare)

lemma safe_cond: "(\<forall>x \<in> set (comparisons c). cmp_path x \<noteq> []) \<Longrightarrow> safe (writeCond d (Suc n) c)"
proof (induction d "Suc n" c rule: writeCond.induct)
  case (6 d i ex)
  have "safe (embed_exists d (writeCond d n) (es ! i) p)" if "list_all embed_ready es" "i < length es" for es p
    by (rule safe_embed_exists) (use that in \<open>auto simp: list_all_length intro: safe_plain_cond\<close>)
  then show ?case by (auto intro!: safety safe_gets_then simp: builder_ready_def not_le)
qed (auto intro!: safety safe_writeCompare)

lemma safe_writeCondTop: "(\<forall>x \<in> set (comparisons c). cmp_path x \<noteq> []) \<Longrightarrow> safe (writeCondTop d c)"
  by (auto simp: writeCondTop_def intro!: safe_gets_then safe_cond)

lemma safe_plain_top: "plain_cond c \<Longrightarrow> safe (writeCondTop d c)"
  by (rule safe_writeCondTop) (simp add: plain_cond_def)

lemma safe_writeEmbedFilter: "embed_ready e \<Longrightarrow> safe (writeEmbedFilter d e al)"
  by (auto simp: writeEmbedFilter_def intro!: safe_embed_filter safe_plain_top)

lemma safe_writeEmbedExists: "embed_ready e \<Longrightarrow> safe (writeEmbedExists d e p)"
  by (auto simp: writeEmbedExists_def intro!: safe_embed_exists safe_plain_top)

lemma findEmbed_ready: "Sqlgen.findEmbed (b_embeds b) n = Some e \<Longrightarrow> builder_ready b \<Longrightarrow> embed_ready e"
  by (auto simp: Sqlgen.findEmbed_def builder_ready_def list_all_iff dest: find_member)

lemma safe_relatedOrderExpr: "o_path t \<noteq> [] \<Longrightarrow> safe (relatedOrderExpr d t p)"
  unfolding relatedOrderExpr_def
  by (rule safe_gets_then) (auto dest!: findEmbed_ready
      intro!: safety safe_embed_rel_then safe_embedSource split: option.split prod.split)

lemma safe_writeOrder: "(\<And>t. t \<in> set ts \<Longrightarrow> o_path t \<noteq> []) \<Longrightarrow> safe (writeOrder d ts)"
  by (auto simp: writeOrder_def order_sql_def intro!: safety safe_relatedOrderExpr)

lemma safe_write_window [safety]: "safe (write_window d l off o1)"
  by (auto simp: write_window_def Let_def intro!: safety)

lemma safe_write_inner: "list_all embed_ready es \<Longrightarrow> safe (write_inner d p wrote es)"
  by (induction d p wrote es rule: write_inner.induct) (auto intro!: safety safe_writeEmbedExists)

lemma safe_enter_embed [safety]: "safe (enter_embed d e r al)" "safe (leave_embed saved)"
  by (auto simp: enter_embed_def leave_embed_def intro!: safety)

lemma safe_enter_then: "(\<And>saved. builder_ready saved \<Longrightarrow> safe (k saved)) \<Longrightarrow> safe (andthen (enter_embed d e r al) k)"
proof (rule safeI)
  fix b
  assume k: "\<And>saved. builder_ready saved \<Longrightarrow> safe (k saved)" and b: "builder_ready b"
  define b1 where "b1 = useRelation d (equery e) (r_name (rs_target r)) (b\<lparr>b_qual := al\<rparr>)"
  have "andthen (enter_embed d e r al) k b = k b b1" by (simp add: enter_embed_def andthen_def gets_def modify_def ret_def b1_def)
  moreover have "builder_ready b1" using b by (simp add: b1_def)
  ultimately show "andthen (enter_embed d e r al) k b \<noteq> None \<and> (\<forall>x b'. andthen (enter_embed d e r al) k b = Some (Inr (x, b')) \<longrightarrow> builder_ready b')"
    using safeD [OF k [OF b]] by metis
qed

lemma safe_spread_column [safety]: "item_named it \<Longrightarrow> safe (spread_column d al target it)"
  by (cases it) (auto simp: spread_column_def item_named_def item_columns_def intro!: safety)

lemma embed_items_named: "embed_ready e \<Longrightarrow> it \<in> set (q_select (base (equery e))) \<Longrightarrow> item_named it"
  by (auto simp: embed_ready_sel plain_level_iff item_named_def)

lemma safe_spreadPairs: "embed_ready e \<Longrightarrow> safe (spreadPairs d e p)"
  unfolding spreadPairs_def
  by (rule safe_embed_rel_then, assumption)
    (auto simp: Let_def edge_fits_def intro!: safety safe_joinCond safe_writeEmbedFilter embed_items_named)

lemma safe_write_to_one: "embed_ready e \<Longrightarrow> safe (write_to_one d e al obj from corr)"
  by (auto simp: write_to_one_def intro!: safety safe_writeEmbedFilter)

lemma safe_embed_order:
  assumes "embed_ready e"
  shows "safe (embed_order d e r al)"
proof -
  have "safe (writeOrder d (q_order (base (equery e))))"
    using assms by (intro safe_writeOrder) (auto simp: embed_ready_sel plain_level_iff)
  moreover have "list_all embed_ready (embeds (equery e))" using assms by (simp add: embed_ready_sel)
  moreover have "list_all embed_ready (b_embeds saved)" if "builder_ready saved" for saved using that by (simp add: builder_ready_def)
  ultimately show ?thesis by (auto simp: embed_order_def Let_def intro!: safety safe_enter_then)
qed

lemma safe_write_to_many: "embed_ready e \<Longrightarrow> edge_fits r \<Longrightarrow> safe (write_to_many d e r al p obj from corr)"
  by (auto simp: write_to_many_def Let_def intro!: safety safe_write_junction safe_writeEmbedFilter safe_embed_order)

lemma embed_refs_mem: "SEmbedRef i \<in> set its \<Longrightarrow> i \<in> set (embed_refs its)"
  by (induction its rule: embed_refs.induct) auto

lemma refs_bound: "refs_ok b es \<Longrightarrow> SEmbedRef i \<in> set (q_select b) \<Longrightarrow> i < length es"
  by (auto simp: refs_ok_def dest!: embed_refs_mem)

lemma safe_object_item:
  assumes "item_named it" and "\<And>i. it = SEmbedRef i \<Longrightarrow> i < length es" and "list_all embed_ready es"
    and "\<And>e. e \<in> set es \<Longrightarrow> safe (we e)"
  shows "safe (object_item d we al target es it)"
  using assms by (cases it) (auto simp: object_item_def Let_def item_named_def item_columns_def list_all_length intro!: safety safe_spreadPairs)

lemma safe_writeEmbed: "embed_ready e \<Longrightarrow> safe (writeEmbed d e p)" "embed_ready e \<Longrightarrow> safe (embedObject d e p)"
proof (induction d e p and d e p rule: writeEmbed_embedObject.induct)
  case (1 d e p)
  then show ?case
    by (auto intro!: safety safe_embed_rel_then safe_embedSource safe_write_to_one safe_write_to_many split: prod.split)
next
  case (2 d em bq es al)
  have "safe (each (object_item d (\<lambda>nested. writeEmbed d nested al) al (rs_target r) es) (q_select bq))" if "q_select bq \<noteq> []" for r
  proof (intro safe_each safe_object_item)
    show "item_named it" if "it \<in> set (q_select bq)" for it using embed_items_named [OF 2(2)] that by simp
    show "i < length es" if "it \<in> set (q_select bq)" "it = SEmbedRef i" for it i using 2(2) that refs_bound by auto
    show "list_all embed_ready es" using 2(2) by simp
    show "safe (writeEmbed d e al)" if "it \<in> set (q_select bq)" "e \<in> set es" for it e
      by (rule 2(1)) (use \<open>q_select bq \<noteq> []\<close> that 2(2) in \<open>auto simp: list_all_iff\<close>)
  qed
  then show ?case
    by (auto simp del: writeEmbed.simps intro!: safe_embed_rel_then [OF 2(2)] safe_andthen safe_basic safe_enter_embed)
qed

lemma safe_embedded_item:
  assumes "item_named it" and "\<And>i. it = SEmbedRef i \<Longrightarrow> i < length es" and "list_all embed_ready es"
  shows "safe (embedded_item d es p it)"
  using assms by (cases it) (auto simp: embedded_item_def nth_embed_def embedExpr_def Let_def item_named_def simp del: writeEmbed.simps simp: item_columns_def list_all_length
      intro!: safety safe_ret_then safe_spreadPairs safe_writeEmbed)

lemma safe_write_columns [safety]: "safe (write_columns first xs)"
  by (auto simp: write_columns_def intro!: safety)

lemma safe_embedded_items: "(\<And>it. it \<in> set its \<Longrightarrow> safe (embedded_item d es p it)) \<Longrightarrow> safe (embedded_items d es p first its)"
  by (induction d es p first its rule: embedded_items.induct) (auto intro!: safety)

lemma ready_parts:
  assumes "ready q"
  shows "it \<in> set (q_select (base q)) \<Longrightarrow> item_named it" "SEmbedRef i \<in> set (q_select (base q)) \<Longrightarrow> i < length (embeds q)"
    "list_all embed_ready (embeds q)" "t \<in> set (q_order (base q)) \<Longrightarrow> o_path t \<noteq> []"
    "q_where (base q) = Some w \<Longrightarrow> \<forall>x \<in> set (comparisons w). cmp_path x \<noteq> []"
  using assms refs_bound by (auto simp: ready_def named_def item_named_def where_list_def)

lemma safe_writeEmbeddedQuery:
  assumes "ready q" and "safe src"
  shows "safe (writeEmbeddedQuery d q src)"
proof -
  note parts = ready_parts [OF assms(1)]
  have sel: "safe (writeEmbeddedSelect d q p)" for p
    by (auto simp: writeEmbeddedSelect_def intro!: safety safe_embedded_items safe_embedded_item parts)
  show ?thesis unfolding writeEmbeddedQuery_def Let_def
    by (auto intro!: assms(2) sel safe_writeCondTop safe_write_inner safe_writeOrder safety parts(3,4) dest: parts(5) split: option.split)
qed

subsection \<open>Statements\<close>

lemma run_safe: "safe m \<Longrightarrow> run m \<noteq> None"
  by (auto simp: run_def safe_def newBuilder_def builder_ready_def split: option.split sum.split prod.split)

lemma safe_write_where: "ready q \<Longrightarrow> safe (write_where d q)"
  by (auto simp: write_where_def intro!: safety safe_writeCondTop dest: ready_parts(5) split: option.split)

lemma safe_write_group [safety]: "safe write_group"
  by (auto simp: write_group_def intro!: safety split: prod.split)

lemma compileReadPlain_total: "ready q \<Longrightarrow> compileReadPlain d q cnt \<noteq> None"
  unfolding compileReadPlain_def
  by (intro run_safe) (auto intro!: safety safe_writeSelect safe_write_where safe_writeOrder intro: ready_parts(1) dest: ready_parts(4))

lemma CompileRead_total: "ready q \<Longrightarrow> CompileRead d q \<noteq> None"
  using compileReadPlain_total run_safe [OF safe_writeEmbeddedQuery [OF _ safe_basic(4)]]
  by (simp del: not_None_eq add: CompileRead_def compileReadEmbedded_def)

lemma CompileCount_total: "ready q \<Longrightarrow> CompileCount d q \<noteq> None"
  unfolding CompileCount_def writeCountFromAndPredicates_def Let_def
  by (intro run_safe) (auto intro!: safety safe_write_where safe_write_inner ready_parts)

lemma safe_writeReturning [safety]: "safe (writeReturning d cols)"
  by (auto simp: writeReturning_def intro!: safety split: option.split)

lemma safe_insert [safety]: "safe (insert_row d w row)" "safe (update_column d w c)" "safe (writeConflict d w cf)"
  by (auto simp: insert_row_def insert_cell_def update_column_def writeConflict_def intro!: safety split: option.split sum.split)

lemma CompileInsert_total: "CompileInsert d q r \<noteq> None"
  unfolding CompileInsert_def
  by (auto simp del: not_None_eq intro!: safety run_safe split: option.split)

lemma CompileUpdate_total: "ready q \<Longrightarrow> CompileUpdate d q r \<noteq> None"
  unfolding CompileUpdate_def
  by (auto simp del: not_None_eq intro!: safety run_safe safe_write_where split: option.split)

lemma CompileDelete_total: "ready q \<Longrightarrow> CompileDelete d q r \<noteq> None"
  unfolding CompileDelete_def by (intro run_safe) (auto intro!: safety safe_write_where)

subsection \<open>Calls\<close>

text \<open>A call read from the query string, with its embeds resolved.\<close>

definition call_ready :: "ir_call \<Rightarrow> bool" where
  "call_ready c \<longleftrightarrow> (\<forall>it \<in> set (cl_select c). item_named it) \<and> (\<forall>w. cl_where c = Some w \<longrightarrow> (\<forall>x \<in> set (comparisons w). cmp_path x \<noteq> [])) \<and>
     (\<forall>t \<in> set (cl_order c). o_path t \<noteq> []) \<and> embed_refs (cl_select c) = [0..<length (cl_embeds c)] \<and> list_all embed_ready (cl_embeds c)"

lemma callQuery_ready: "call_ready c \<Longrightarrow> ready (callQuery c)"
  by (cases "cl_where c") (auto simp: call_ready_def ready_def callQuery_def named_def item_named_def where_list_def refs_ok_def)

lemma safe_argValue [safety]: "safe (argValue d fn name args)"
  by (auto simp: argValue_def bindVariadic_def intro!: safety split: option.split)

lemma safe_bindNamed: "has_body fn \<Longrightarrow> safe (bindNamed d fn args)"
  by (auto simp: bindNamed_def has_body_def bind_piece_def intro!: safety split: option.split_asm body_piece.split)

lemma safe_call_where: "call_ready c \<Longrightarrow> safe (call_where d (cl_where c))"
  by (auto simp: call_where_def call_ready_def intro!: safety safe_writeCondTop split: option.split)

lemma safe_wrap_rows:
  "call_ready c \<Longrightarrow> safe (wrap_rows d inner (cl_where c) (cl_order c) l off)" "safe (wrap_rows d inner None [] l off)"
  using safe_call_where [of c d] by (auto simp: wrap_rows_def call_where_def [of d None] call_ready_def intro!: safety safe_writeOrder)

lemma has_body_present: "has_body fn \<Longrightarrow> \<not> \<not> has_body fn"
  by simp

lemma CompileCall_total:
  assumes "call_ready c"
  shows "CompileCall d c fn ctx \<noteq> None"
proof (cases "\<exists>f. fn = Some f \<and> has_body f")
  case True
  then obtain f where f: "fn = Some f" "has_body f" by blast
  have sel: "safe (writeSelect d (cl_select c))" using assms by (intro safe_writeSelect) (simp add: call_ready_def)
  show ?thesis unfolding CompileCall_def f(1) option.case if_not_P [OF has_body_present [OF f(2)]]
    by (intro run_safe) (auto simp: Let_def intro!: safety safe_writeEmbeddedQuery callQuery_ready assms safe_bindNamed f(2) sel safe_wrap_rows)
qed (auto simp: CompileCall_def split: option.split)

lemma CompileCallCount_total:
  assumes "call_ready c"
  shows "CompileCallCount d c fn ctx \<noteq> None"
proof (cases "\<exists>f. fn = Some f \<and> has_body f")
  case True
  then obtain f where f: "fn = Some f" "has_body f" by blast
  have es: "list_all embed_ready (cl_embeds c)" using assms by (simp add: call_ready_def)
  show ?thesis unfolding CompileCallCount_def f(1) option.case if_not_P [OF has_body_present [OF f(2)]]
    by (intro run_safe) (auto intro!: safety safe_bindNamed f(2) safe_call_where assms safe_write_inner es)
qed (auto simp: CompileCallCount_def split: option.split)

subsection \<open>Planned writes and calls\<close>

lemma named_fields: "q_select b = q_select b' \<Longrightarrow> q_where b = q_where b' \<Longrightarrow> q_order b = q_order b' \<Longrightarrow> named b = named b'"
  by (simp add: named_def where_list_def)

lemma plain_fields: "q_select b = q_select b' \<Longrightarrow> q_where b = q_where b' \<Longrightarrow> q_order b = q_order b' \<Longrightarrow> plain_level b es = plain_level b' es"
  by (simp add: plain_level_def where_list_def cong: named_fields)

lemma query_all_base:
  "(\<And>es. I (f (base q)) es = I (base q) es) \<Longrightarrow> query_all I (upd_base f q) = query_all I q"
  by (cases q) (simp add: upd_base_def)

lemma parsed_string_ready:
  assumes "parseQueryString q vals = Inr q'" "q_select (base q) = []" "embeds q = []" "fresh (base q)"
  shows "query_all plain_level q' \<and> query_all refs_ok q'"
  using plain.parse_query_string_invariant [OF assms] refs.parse_query_string_invariant [OF assms] by blast

lemma ParseWrite_ready:
  assumes "ParseWrite tz_ok jd cr kind rel raw hdrs ct body = Inr q"
  shows "query_all plain_level q \<and> query_all refs_ok q"
proof (rule ParseWrite_InrE [OF assms])
  fix vals q0 w
  assume p: "parseQueryString (Query ((with_prefer (ParsePrefer tz_ok hdrs) (new_base kind rel))\<lparr>q_is_put := (kind = Upsert)\<rparr>) []) vals = Inr q0"
    and q: "q = upd_base (\<lambda>b. b\<lparr>q_kind := (if write_conflict kind (ParsePrefer tz_ok hdrs) (vals_get vals ''on_conflict'') = None then kind else Upsert),
        q_write := Some w\<rparr>) q0"
  have "query_all plain_level q0 \<and> query_all refs_ok q0"
    by (rule parsed_string_ready [OF p]) (simp_all add: with_prefer_def new_base_def fresh_def)
  then show ?thesis unfolding q by (simp add: query_all_base plain_level_iff refs_ok_def)
qed

lemma PlanWrite_ready:
  assumes "PlanWrite pt ft m q path = Inr (q', rel)" and "keys_fit m" and "query_all plain_level q" "query_all refs_ok q"
  shows "ready q'"
proof -
  obtain w ws es where m: "model_lookup m (ref_name (q_relation (base q))) path = Some rel"
    and w: "validateWhere rel (q_where (base q)) = Inr w" and es: "resolveEmbeds m path False rel (embeds q) = Inr es"
    and q': "q' = Query (bind_reps rel (bind_computed rel ((bind_relation rel (base q))\<lparr>q_where := w, q_write := ws\<rparr>))) es"
    using assms(1) by (auto simp: PlanWrite_def Let_def result_simps bind_relation_def split: option.split_asm)
  have lev: "plain_level (base q) (embeds q)" "refs_ok (base q) (embeds q)" "list_all (embed_all plain_level) (embeds q)" "list_all (embed_all refs_ok) (embeds q)"
    using assms(3,4) by (simp_all add: query_all_sel)
  have "named ((base q)\<lparr>q_where := w\<rparr>)" using validateWhere_named [OF w, of "base q"] lev(1) by (simp add: plain_level_def)
  then have "named ((bind_relation rel (base q))\<lparr>q_where := w, q_write := ws\<rparr>)"
    by (subst named_fields [of _ "(base q)\<lparr>q_where := w\<rparr>"]) (simp_all add: bind_relation_def)
  then show "ready q'" using resolveEmbeds_ready [OF es assms(2) model_lookup_mem [OF m] lev(3,4)] resolveEmbeds_planned [OF es] lev(2)
    by (simp add: ready_def q' refs_ok_def bind_relation_def)
qed

text \<open>A call as it is parsed, its embeds not resolved yet.\<close>

definition call_parsed :: "ir_call \<Rightarrow> bool" where
  "call_parsed c \<longleftrightarrow> (\<forall>it \<in> set (cl_select c). item_named it) \<and> pred_option plain_cond (cl_where c) \<and> (\<forall>t \<in> set (cl_order c). o_path t \<noteq> []) \<and>
     embed_refs (cl_select c) = [0..<length (cl_embeds c)] \<and> list_all (embed_all plain_level) (cl_embeds c) \<and> list_all (embed_all refs_ok) (cl_embeds c)"

lemma call_from_query_parsed:
  "query_all plain_level pq \<Longrightarrow> query_all refs_ok pq \<Longrightarrow> call_parsed (call_from_query c pq args)"
  by (auto simp: call_parsed_def call_from_query_def query_all_sel plain_level_iff refs_ok_def item_named_def)

lemma ParseCall_parsed: "ParseCall tz_ok jd cr fn raw hdrs isGet ct body rp = Inr c \<Longrightarrow> call_parsed c"
  by (auto simp: ParseCall_def Let_def bindr_Inr_conv fresh_def new_base_def split: option.split_asm if_split_asm
      dest!: parsed_string_ready intro!: call_from_query_parsed)

lemma and_where_plain: "pred_option plain_cond w \<Longrightarrow> pred_option plain_cond c \<Longrightarrow> pred_option plain_cond (and_where w c)"
  by (auto simp: and_where_def split: option.split)

lemma partition_parsed: "partition_call reg g c = Inr c1 \<Longrightarrow> call_parsed c \<Longrightarrow> call_parsed c1"
  by (auto simp: partition_call_def PartitionGetArgs_def Let_def bindr_Inr_conv call_parsed_def split: option.split_asm if_split_asm
      dest!: parseFilters_plain intro!: and_where_plain)

lemma call_parsed_ready: "call_parsed c \<Longrightarrow> cl_embeds c = [] \<Longrightarrow> call_ready c"
  by (auto simp: call_parsed_def call_ready_def plain_cond_def)

lemma resolveCallEmbeds_ready:
  assumes "resolveCallEmbeds (Some m) fn c path = Inr c'" and "keys_fit m" and "call_parsed c"
  shows "call_ready c'"
proof -
  obtain rel es where rel: "returnRelation (Some m) fn path = Some rel" and es: "resolveEmbeds m path False rel (cl_embeds c) = Inr es"
    and c': "c' = c\<lparr>cl_where := q_where (base (reclassifyEmbedFilters (result_query rel c))), cl_embeds := es\<rparr>"
    using assms(1) by (auto simp: resolveCallEmbeds_def Let_def bindr_Inr_conv opt_err_conv result_query_def reclassifyEmbedFilters_def
        split: option.split_asm if_split_asm)
  have "rel \<in> set (relations m)" using rel by (auto simp: returnRelation_def split: if_split_asm dest: model_lookup_mem)
  then have "list_all embed_ready es" using resolveEmbeds_ready [OF es assms(2)] assms(3) by (simp add: call_parsed_def)
  moreover have "length es = length (cl_embeds c)" using resolveEmbeds_planned [OF es] by simp
  moreover have "named (base (result_query rel c))"
    using assms(3) by (cases "cl_where c") (auto simp: named_def where_list_def result_query_def call_parsed_def item_named_def plain_cond_def)
  then have "named (base (reclassifyEmbedFilters (result_query rel c)))" by (rule reclassifyEmbedFilters_named)
  ultimately show ?thesis using assms(3) by (auto simp: c' call_ready_def call_parsed_def named_def where_list_def)
qed

lemma PlanCall_ready:
  assumes "PlanCall reg (Some m) c g path = Inr p" and "keys_fit m" and "call_parsed c"
  shows "call_ready (pl_call p)"
proof (rule PlanCall_InrE [OF assms(1)])
  fix c1 fn c2
  assume c1: "partition_call reg g c = Inr c1" and c2: "if cl_embeds c1 = [] then c2 = c1 else resolveCallEmbeds (Some m) fn c1 path = Inr c2"
    and p: "p = \<lparr>pl_call = c2\<lparr>cl_read_only := vol_ReadOnly (f_volatility fn)\<rparr>, pl_func = fn, pl_read_only = vol_ReadOnly (f_volatility fn)\<rparr>"
  have "call_parsed c1" using partition_parsed [OF c1 assms(3)] .
  then have "call_ready c2" using c2 call_parsed_ready resolveCallEmbeds_ready [OF _ assms(2)] by (auto split: if_split_asm)
  then show ?thesis by (simp add: p call_ready_def)
qed

subsection \<open>Properties\<close>

text \<open>
  C5. A request that parsing and planning accept never sends the compiler into a panic, in any dialect: for a model
  whose keys pair up, a read compiles to its statement and its count, a mutation to its statement, and a call of a
  registered function to its statement and its count, or is refused with an error; no step indexes a path, a select
  item's embed or a key column that is not there, and no existence filter runs in a circle.
\<close>

theorem planned_statements_total:
  assumes "keys_fit m"
  shows "(\<forall>rel raw hdrs q path agg qr r. ParseRead tz_ok rel raw hdrs = Inr q \<and> PlanRead m q path agg = Inr (qr, r) \<longrightarrow>
      CompileRead d qr \<noteq> None \<and> CompileCount d qr \<noteq> None) \<and>
    (\<forall>kind rel raw hdrs ct body q path qw r cols. ParseWrite tz_ok jd cr kind rel raw hdrs ct body = Inr q \<and> PlanWrite pt ft m q path = Inr (qw, r) \<longrightarrow>
      CompileInsert d qw cols \<noteq> None \<and> CompileUpdate d qw cols \<noteq> None \<and> CompileDelete d qw cols \<noteq> None) \<and>
    (\<forall>fn raw hdrs isGet ct body rp c reg path p f ctx. ParseCall tz_ok jd cr fn raw hdrs isGet ct body rp = Inr c \<and> PlanCall reg (Some m) c isGet path = Inr p \<longrightarrow>
      CompileCall d (pl_call p) f ctx \<noteq> None \<and> CompileCallCount d (pl_call p) f ctx \<noteq> None)"
proof (intro conjI allI impI; elim conjE)
  fix rel raw hdrs q path agg qr r
  assume "ParseRead tz_ok rel raw hdrs = Inr q" "PlanRead m q path agg = Inr (qr, r)"
  then have "ready qr" using PlanRead_ready [OF _ assms] ParseRead_ready by blast
  then show "CompileRead d qr \<noteq> None" "CompileCount d qr \<noteq> None" by (rule CompileRead_total, rule CompileCount_total)
next
  fix kind rel raw hdrs ct body q path qw r cols
  assume "ParseWrite tz_ok jd cr kind rel raw hdrs ct body = Inr q" "PlanWrite pt ft m q path = Inr (qw, r)"
  then have qw: "ready qw" using PlanWrite_ready [OF _ assms] ParseWrite_ready by blast
  show "CompileInsert d qw cols \<noteq> None" "CompileUpdate d qw cols \<noteq> None" "CompileDelete d qw cols \<noteq> None"
    by (rule CompileInsert_total, rule CompileUpdate_total [OF qw], rule CompileDelete_total [OF qw])
next
  fix fn raw hdrs isGet ct body rp c reg path p f ctx
  assume "ParseCall tz_ok jd cr fn raw hdrs isGet ct body rp = Inr c" "PlanCall reg (Some m) c isGet path = Inr p"
  then have "call_ready (pl_call p)" using PlanCall_ready [OF _ assms] ParseCall_parsed by blast
  then show "CompileCall d (pl_call p) f ctx \<noteq> None" "CompileCallCount d (pl_call p) f ctx \<noteq> None"
    by (rule CompileCall_total, rule CompileCallCount_total)
qed

definition refused :: "('e + 'a) option \<Rightarrow> bool" where
  "refused r = (case r of Some (Inl e) \<Rightarrow> True | _ \<Rightarrow> False)"

lemma demo_keys_fit: "keys_fit demo_model"
  by code_simp

theorem planned_statements_total_witness:
  "\<exists>q qr r st. ParseRead (\<lambda>z. True) ''films'' ''select=title,directors(name)&directors=not.is.null&order=directors(name)'' [] = Inr q \<and>
     PlanRead demo_model q [''public''] False = Inr (qr, r) \<and> CompileRead sqlite qr = Some (Inr st)"
proof -
  let ?q = "ParseRead (\<lambda>z. True) ''films'' ''select=title,directors(name)&directors=not.is.null&order=directors(name)'' []"
  have run: "case ?q of Inl e \<Rightarrow> False | Inr q \<Rightarrow> (case PlanRead demo_model q [''public''] False of Inl e \<Rightarrow> False
      | Inr (qr, r) \<Rightarrow> \<not> refused (CompileRead sqlite qr))" by code_simp
  then obtain q qr r where q: "?q = Inr q" "PlanRead demo_model q [''public''] False = Inr (qr, r)" "\<not> refused (CompileRead sqlite qr)"
    by (auto split: sum.split_asm prod.split_asm)
  have "CompileRead sqlite qr \<noteq> None" 
    using planned_statements_total [OF demo_keys_fit, of "\<lambda>z. True" sqlite, THEN conjunct1] q(1,2) by blast
  then show ?thesis using q by (auto simp: refused_def split: option.split_asm sum.split_asm)
qed

definition wide_model :: model where
  "wide_model = new_model
     [demo_rel ''films'' [demo_col ''id'' ''int4'', demo_col ''title'' ''text''] [],
      (demo_rel ''actors'' [demo_col ''first'' ''text'', demo_col ''last'' ''text''] [])\<lparr>r_primary_key := [''first'', ''last'']\<rparr>,
      (demo_rel ''roles'' [demo_col ''film_id'' ''int4'', demo_col ''first'' ''text'', demo_col ''last'' ''text'']
        [\<lparr>fk_name = ''roles_film'', fk_columns = [''film_id''], fk_ref_schema = ''public'', fk_ref_relation = ''films'',
          fk_ref_columns = [''id''], fk_source_relation = []\<rparr>,
         \<lparr>fk_name = ''roles_actor'', fk_columns = [''first'', ''last''], fk_ref_schema = ''public'', fk_ref_relation = ''actors'',
          fk_ref_columns = [''first'', ''last''], fk_source_relation = []\<rparr>])\<lparr>r_primary_key := [''film_id'', ''first'', ''last'']\<rparr>]"

text \<open>
  The condition on the keys is needed: where a junction leads from a relation to one with a wider key, a plain
  embed of it, which the planner accepts, makes the compiler index past the key of the parent and panic.
\<close>

theorem wider_junction_key_panics:
  "\<exists>q qr r. ParseRead (\<lambda>z. True) ''films'' ''select=title,actors(*)'' [] = Inr q \<and>
     PlanRead wide_model q [''public''] False = Inr (qr, r) \<and> CompileRead sqlite qr = None"
proof -
  let ?q = "ParseRead (\<lambda>z. True) ''films'' ''select=title,actors(*)'' []"
  have "case ?q of Inl e \<Rightarrow> False | Inr q \<Rightarrow> (case PlanRead wide_model q [''public''] False of Inl e \<Rightarrow> False
      | Inr (qr, r) \<Rightarrow> CompileRead sqlite qr = None)" by code_simp
  then show ?thesis by (auto split: sum.split_asm prod.split_asm)
qed

end
