(* ===== verification/Http_Answers.thy ===== *)
theory Http_Answers
  imports Http_Facts Sqlgen_Total
begin

section \<open>Every request is answered\<close>

text \<open>
  A handler panics where it writes a status that is not one, dereferences a write without payload or runs into a
  broken token cache; none of it happens. The errors of each stage carry an HTTP status, the gate and the writers
  meet a payload on every write, and the cache stays sound along every run of the server.
\<close>

subsection \<open>Errors with a status\<close>

definition err_ok :: "api_error \<Rightarrow> bool" where
  "err_ok e \<longleftrightarrow> 100 \<le> http_status e \<and> http_status e \<le> 999"

lemma err_ok_parts [simp]:
  "err_ok (New st c m) \<longleftrightarrow> 100 \<le> st \<and> st \<le> 999" "err_ok (WithDetails e s) = err_ok e" "err_ok (WithHint e s) = err_ok e"
  "err_ok (WithDetailsJSON e v) = err_ok e" "err_ok (e\<lparr>www_authenticate := w\<rparr>) = err_ok e"
  by (auto simp: err_ok_def New_def WithDetails_def WithHint_def WithDetailsJSON_def)

lemma request_err_ok: "is_request_error e \<Longrightarrow> err_ok e" "is_parse_error e \<Longrightarrow> err_ok e" "is_plan_error e \<Longrightarrow> err_ok e"
  by (auto simp: is_request_error_def is_parse_error_def is_plan_error_def err_ok_def)

lemma err_ok_simps [simp]:
  "err_ok ErrInvalidPath" "err_ok (ErrNotAcceptable m)" "err_ok (ErrUnsupportedMethod m)" "err_ok (ErrInvalidRPCMethod m)"
  "err_ok (ErrInternal m)" "err_ok (ErrBodyTooLarge k)" "err_ok (ErrInvalidBody m)" "err_ok inverted_error" "err_ok errRootDisabled"
  "err_ok (errUnacceptableSchema p ss)" "err_ok ErrJWTRequired" "err_ok (ErrUnknownTable s tb)" "err_ok (ErrUnknownColumn c r)"
  "err_ok ErrPutLimit" "err_ok ErrPutPrimaryKey" "err_ok ErrPutPayloadKey" "err_ok (ErrNoFunction s tb as hn)"
  "err_ok (ErrAmbiguousFunction cs)" "err_ok (ErrReadOnlyTransaction a)" "err_ok (ErrParse m)" "err_ok ErrSingularZeroMany"
  "err_ok (singular_error n)" "err_ok (ErrRLSViolation r)" "err_ok (ErrPermissionDenied r an)" "err_ok (ErrJWTDecode m)"
  "err_ok (ErrJWTClaims m)" "err_ok ErrJWTSecretMissing" "err_ok (ErrRoleNotAllowed m)"
  by (simp_all add: ErrInvalidPath_def ErrNotAcceptable_def ErrUnsupportedMethod_def ErrInvalidRPCMethod_def ErrInternal_def
      ErrBodyTooLarge_def ErrInvalidBody_def inverted_error_def ErrRangeNotSatisfiable_def errRootDisabled_def
      errUnacceptableSchema_def ErrJWTRequired_def ErrUnknownTable_def ErrUnknownColumn_def ErrPutLimit_def ErrPutPrimaryKey_def
      ErrPutPayloadKey_def ErrNoFunction_def ErrAmbiguousFunction_def ErrReadOnlyTransaction_def ErrParse_def ErrSingularZeroMany_def
      singular_error_def ErrRLSViolation_def ErrPermissionDenied_def ErrJWTDecode_def ErrJWTClaims_def ErrJWTSecretMissing_def ErrRoleNotAllowed_def Let_def)
    (simp add: err_ok_def)

lemma writeError_answers: "err_ok e \<Longrightarrow> writeError h e \<noteq> None"
  by (simp add: writeError_def error_Write_def Let_def WriteHeader_def err_ok_def)

lemma failed_answers: "err_ok e \<Longrightarrow> failed h d e \<noteq> None"
  using writeError_answers by (simp add: failed_def reply_def)

lemma reply_answers: "reply w d = None \<longleftrightarrow> w = None"
  by (simp add: reply_def)

lemma or_fail_answers:
  assumes "\<And>e. m = Inl e \<Longrightarrow> err_ok e" and "\<And>y. m = Inr y \<Longrightarrow> k y \<noteq> None"
  shows "or_fail h d m k \<noteq> None"
  using assms failed_answers by (cases m) (auto simp: or_fail_def)

lemma status_answers: "100 \<le> st \<Longrightarrow> st \<le> 999 \<Longrightarrow> WriteHeader h st b \<noteq> None"
  by (simp add: WriteHeader_def)

subsection \<open>The errors of each stage\<close>

lemma applyTxPolicy_error: "applyTxPolicy sv p = Inl e \<Longrightarrow> err_ok e"
  by (auto simp: applyTxPolicy_def Let_def StrictError_error request_err_ok(1) split: option.split_asm)

lemma range_window_error: "range_window r = Inl e \<Longrightarrow> err_ok e"
  by (auto simp: range_window_def Let_def split: if_split_asm range_result.split_asm)

lemma readBody_error: "readBody sv r = Inl e \<Longrightarrow> err_ok e"
  by (auto simp: readBody_def split: if_split_asm)

lemma accept_media_error: "accept_media env r = Inl e \<Longrightarrow> err_ok e"
  by (auto simp: accept_media_def split: option.split_asm)

lemma read_query_error: "read_query env sv r rel media = Inl e \<Longrightarrow> err_ok e"
  by (auto simp: read_query_def bindr_Inl_conv intro: request_err_ok ParseRead_error applyTxPolicy_error range_window_error)

lemma write_query_error: "write_query env sv r kind rel media = Inl e \<Longrightarrow> err_ok e"
  by (auto simp: write_query_def bindr_Inl_conv split: if_split_asm
      intro: request_err_ok ParseWrite_error applyTxPolicy_error readBody_error)

lemma rpc_call_error: "rpc_call env sv be r fn sch media g = Inl e \<Longrightarrow> err_ok e"
  by (auto simp: rpc_call_def bindr_Inl_conv Let_def split: if_split_asm
      intro: request_err_ok ParseCall_error applyTxPolicy_error range_window_error readBody_error)

lemma PlanRead_err_ok: "PlanRead m q path agg = Inl e \<Longrightarrow> err_ok e"
  by (auto simp: PlanRead_def Let_def result_simps intro: request_err_ok level_errors resolveEmbeds_error split: option.split_asm)

lemma validateWrite_err_ok: "validateWrite rel w = Inl e \<Longrightarrow> err_ok e"
  by (auto simp: validateWrite_def payload_error_def result_simps dest!: first_some_SomeD split: option.split_asm if_split_asm)

lemma validatePut_err_ok: "validatePut pt ft rel b = Some e \<Longrightarrow> err_ok e"
  by (auto simp: validatePut_def Let_def split: option.split_asm if_split_asm list.split_asm)

lemma PlanWrite_err_ok: "PlanWrite pt ft m q path = Inl e \<Longrightarrow> err_ok e"
  by (auto simp: PlanWrite_def Let_def result_simps split: option.split_asm if_split_asm
      intro: request_err_ok level_errors resolveEmbeds_error validateWrite_err_ok validatePut_err_ok)

lemma call_checks_err_ok:
  "coerceCallArgs fn c = Some e \<Longrightarrow> err_ok e" "validateCallFilters fn c = Some e \<Longrightarrow> err_ok e"
  "resolveCallEmbeds m fn c path = Inl e \<Longrightarrow> err_ok e" "partition_call reg g c = Inl e \<Longrightarrow> err_ok e"
  using validateCallFilters_error resolveCallEmbeds_error partition_call_error request_err_ok
  by (auto simp: coerceCallArgs_def dest!: first_some_SomeD arg_error_error)

lemma PlanCall_err_ok:
  assumes "PlanCall reg m c g path = Inl e"
  shows "err_ok e"
proof (cases "partition_call reg g c")
  case (Inl e')
  then show ?thesis using assms call_checks_err_ok(4) [OF Inl] by (simp add: PlanCall_def)
next
  case (Inr c1)
  show ?thesis
  proof (cases "reg_Resolve reg (ref_name (cl_function c1)) (keys_of (cl_args c1))")
    case (Resolved fn)
    then show ?thesis using assms Inr
      by (auto simp: PlanCall_def opt_err_def bindr_Inl_conv intro: call_checks_err_ok split: if_split_asm option.split_asm)
  qed (use assms Inr in \<open>auto simp: PlanCall_def Let_def split: if_split_asm\<close>)
qed

lemma plan_errors:
  "read_plan sv sch q = Inl e \<Longrightarrow> err_ok e" "write_plan env sv sch q = Inl e \<Longrightarrow> err_ok e"
  "planned_call reg sv call g sch = Inl e \<Longrightarrow> err_ok e" "rpc_plan sv be call g sch = Inl e \<Longrightarrow> err_ok e"
proof -
  show "read_plan sv sch q = Inl e \<Longrightarrow> err_ok e" "write_plan env sv sch q = Inl e \<Longrightarrow> err_ok e"
    by (auto simp: read_plan_def write_plan_def bindr_Inl_conv split: prod.split_asm intro: PlanRead_err_ok PlanWrite_err_ok)
  have pc: "planned_call reg sv call g sch = Inl e \<Longrightarrow> err_ok e" for reg by (auto simp: planned_call_def bindr_Inl_conv intro: PlanCall_err_ok)
  then show "planned_call reg sv call g sch = Inl e \<Longrightarrow> err_ok e" .
  show "rpc_plan sv be call g sch = Inl e \<Longrightarrow> err_ok e" using pc by (auto simp: rpc_plan_def split: if_split_asm)
qed

lemma internal_error: "internal m = Inl e \<Longrightarrow> err_ok e"
  by (auto simp: internal_def split: sum.split_asm)

lemma all_rows_error: "all_rows res f = Inl e \<Longrightarrow> err_ok e"
  by (auto simp: all_rows_def stream_end_def bindr_Inl_conv dest!: mapr_InlD internal_error split: option.split_asm)

lemma first_row_error: "first_row res f = Inl e \<Longrightarrow> err_ok e"
  by (auto simp: first_row_def stream_end_def bindr_Inl_conv dest!: internal_error split: option.split_asm list.split_asm)

lemma renderRows_error: "renderRows se res sg raw st = Inl e \<Longrightarrow> err_ok e"
  by (auto simp: renderRows_def bindr_Inl_conv Let_def dest!: all_rows_error internal_error split: if_split_asm list.split_asm)

lemma render_errors:
  "renderCSV res = Inl e \<Longrightarrow> err_ok e" "renderScalar res t = Inl e \<Longrightarrow> err_ok e"
  "renderCallObject se media res = Inl e \<Longrightarrow> err_ok e" "renderVoid res = Inl e \<Longrightarrow> err_ok e"
  by (auto simp: renderCSV_def renderScalar_def renderCallObject_def renderVoid_def bindr_Inl_conv split: if_split_asm
      dest: all_rows_error first_row_error)

lemma renderFor_error: "renderFor se media res raw = Inl e \<Longrightarrow> err_ok e"
  by (auto simp: renderFor_def typed_def bindr_Inl_conv dest: renderRows_error render_errors split: if_split_asm)

lemma renderScalarCall_error: "renderScalarCall se media res shape = Inl e \<Longrightarrow> err_ok e"
  by (auto simp: renderScalarCall_def bindr_Inl_conv Let_def call_values_def dest: render_errors all_rows_error internal_error
      split: if_split_asm list.split_asm)

lemma renderCall_error: "renderCall se media res fn name = Inl e \<Longrightarrow> err_ok e"
  by (auto simp: renderCall_def dest: renderFor_error renderScalarCall_error render_errors
      split: option.split_asm if_split_asm return_kind.split_asm)

lemma refusal_ok: "refusal e 401 c \<Longrightarrow> err_ok e" "refusal e 403 c \<Longrightarrow> err_ok e" "refusal e 500 c \<Longrightarrow> err_ok e"
  by (simp_all add: refusal_def err_ok_def)

lemma verify_err_ok: "verify lib v now raw = Inl e \<Longrightarrow> err_ok e"
  using verify_refusal [of lib v now raw e] refusal_ok(1) [of e] by (auto split: if_split_asm sum.split_asm)

lemma resolve_err_ok: "resolve v cs = Inl e \<Longrightarrow> err_ok e"
  by (auto simp: resolve_def checkPermitted_def bindr_def split: option.split_asm if_split_asm)

lemma Authenticate_err_ok:
  assumes "Authenticate lib v now h None = Some (Inl e, c)"
  shows "err_ok e"
proof (cases "bearer h")
  case None
  then show ?thesis using assms by (auto simp: Authenticate_def anon_def split: if_split_asm)
next
  case (Some raw)
  then show ?thesis using assms
    by (auto simp: Authenticate_def bindr_Inl_conv intro: resolve_err_ok verify_err_ok split: if_split_asm)
qed

definition auth_cache_ok :: "go_env \<Rightarrow> server \<Rightarrow> claims jwt_cache option \<Rightarrow> bool" where
  "auth_cache_ok env sv cache \<longleftrightarrow>
     (case (sv_verifier sv, cache) of (Some v, Some c) \<Rightarrow> sound_cache (ge_jwt env) v c | _ \<Rightarrow> True)"

lemma authenticate_answers:
  assumes "auth_cache_ok env sv cache"
  shows "\<exists>who cache'. authenticate env sv now r cache = Some (who, cache') \<and> auth_cache_ok env sv cache' \<and> (\<forall>e. who = Inl e \<longrightarrow> err_ok e)"
proof (cases "sv_verifier sv")
  case None
  then show ?thesis by (simp add: authenticate_def auth_cache_ok_def)
next
  case (Some v)
  let ?h = "header_get (hr_headers r) ''Authorization''"
  have "\<exists>res c'. Authenticate (ge_jwt env) v now ?h cache = Some (res, c') \<and> auth_cache_ok env sv c' \<and> (\<forall>e. res = Inl e \<longrightarrow> err_ok e)"
  proof (cases cache)
    case None
    then show ?thesis using Authenticate_err_ok [of "ge_jwt env" v now ?h]
      by (auto simp: Authenticate_def auth_cache_ok_def split: option.split)
  next
    case (Some c)
    then have "sound_cache (ge_jwt env) v c" using assms \<open>sv_verifier sv = Some v\<close> by (simp add: auth_cache_ok_def)
    from Authenticate_cached [OF this, of now ?h] show ?thesis using Some \<open>sv_verifier sv = Some v\<close> Authenticate_err_ok
      by (fastforce simp: auth_cache_ok_def)
  qed
  then obtain res c' where "Authenticate (ge_jwt env) v now ?h cache = Some (res, c')" "auth_cache_ok env sv c'" "\<forall>e. res = Inl e \<longrightarrow> err_ok e"
    by blast
  then show ?thesis using Some by (cases res) (simp_all add: authenticate_def)
qed

lemma resolveSchema_error: "resolveSchema sv r = Inl e \<Longrightarrow> err_ok e"
  by (auto simp: resolveSchema_def Let_def split: if_split_asm)

lemma writeStatus_bounds: "100 \<le> writeStatus m kind rep ctrl" "writeStatus m kind rep ctrl \<le> 999"
  by (simp_all add: writeStatus_def)

lemma Authorize_err_ok: "Authorize reg rc q = Some (Inl e) \<Longrightarrow> err_ok e"
  by (cases "gates_pass reg rc (base q)") (auto simp: Authorize_pass Authorize_fail split: option.split_asm if_split_asm)

lemma authorize_answers:
  assumes "pn_query p0 = Some q0" and "q_kind (base q0) \<in> {Read, query_kind.Delete} \<or> q_write (base q0) \<noteq> None"
  obtains auth where "authorize sv rc p0 = Some auth" "\<And>e. auth = Inl e \<Longrightarrow> err_ok e"
    "\<And>p. auth = Inr p \<Longrightarrow> \<exists>q. pn_query p = Some q \<and> q_write (base q) = q_write (base q0)"
proof (cases "sv_authz sv")
  case None
  then show ?thesis using that [of "Inr p0"] assms(1) by (simp add: authorize_def)
next
  case (Some reg)
  obtain a where a: "Authorize reg (req_context.truncate rc) q0 = Some a"
    using Authorize_no_panic [OF assms(2)] by blast
  have w: "q_write (base q') = q_write (base q0)" if "a = Inr q'" for q'
    using arg_cong [OF Authorize_rest(2) [of reg "req_context.truncate rc" q0 q' None], of q_write] a that by simp
  show ?thesis
  proof (rule that [of "map_sum id (\<lambda>q. p0\<lparr>pn_query := Some q\<rparr>) a"])
    show "authorize sv rc p0 = Some (map_sum id (\<lambda>q. p0\<lparr>pn_query := Some q\<rparr>) a)"
      using Some a assms(1) by (cases a) (simp_all add: authorize_def AuthorizePlan_def)
    show "err_ok e" if "map_sum id (\<lambda>q. p0\<lparr>pn_query := Some q\<rparr>) a = Inl e" for e
      using that a Authorize_err_ok by (cases a) simp_all
    show "\<exists>q. pn_query p = Some q \<and> q_write (base q) = q_write (base q0)" if "map_sum id (\<lambda>q. p0\<lparr>pn_query := Some q\<rparr>) a = Inr p" for p
      using that w by (cases a) auto
  qed
qed

lemma read_plan_kind:
  assumes "read_query env sv r rel media = Inr q" "read_plan sv sch q = Inr p"
  obtains q' where "pn_query p = Some q'" "q_kind (base q') = Read"
proof -
  obtain q0 where q0: "ParseRead (ge_tz_ok env) rel (hr_raw_query r) (header_values (hr_headers r) ''Prefer'') = Inr q0"
      "q_kind (base q) = q_kind (base q0)"
    using assms(1) by (auto simp: read_query_def bindr_Inr_conv Let_def window_query_def split: option.split)
  then have "q_kind (base q) = Read" by (elim ParseRead_InrE) (auto simp: with_prefer_def new_base_def dest!: parseQueryString_rest)
  moreover obtain q' rel' where "PlanRead (sv_model sv) q [sch] (sv_aggregatesOn sv) = Inr (q', rel')" "pn_query p = Some q'"
    using assms(2) by (auto simp: read_plan_def bindr_Inr_conv)
  ultimately show ?thesis using that by (elim PlanRead_InrE) (auto simp: reclassifyEmbedFilters_def bind_relation_def)
qed

lemma write_plan_payload:
  assumes "write_query env sv r kind rel media = Inr q" "write_plan env sv sch q = Inr p"
  obtains q' where "pn_query p = Some q'" "q_write (base q') \<noteq> None"
proof -
  have "q_write (base q) \<noteq> None"
    using assms(1) by (auto simp: write_query_def bindr_Inr_conv write_tx_def elim!: ParseWrite_InrE)
  moreover obtain q' rel' where "PlanWrite (ge_put_text env) (ge_float_text env) (sv_model sv) q [sch] = Inr (q', rel')" "pn_query p = Some q'"
    using assms(2) by (auto simp: write_plan_def bindr_Inr_conv)
  ultimately show ?thesis using that
    by (elim PlanWrite_InrE) (auto simp: bind_relation_def validateWrite_def result_simps split: option.split_asm if_split_asm)
qed

lemma ServeHTTP_cache:
  assumes "auth_cache_ok env sv cache" and "ServeHTTP env re sv be now r cache d = Some (resp, cache', d')"
  shows "auth_cache_ok env sv cache'"
proof -
  obtain who c' where "authenticate env sv now r cache = Some (who, c')" "auth_cache_ok env sv c'"
    using authenticate_answers [OF assms(1)] by blast
  then show ?thesis using assms by (auto simp: ServeHTTP_def split: sum.split_asm if_split_asm)
qed

lemma controls_clear [simp]: "rsp_status (cx_controls (with_timezone p rc)) = rsp_status (cx_controls rc)"
  "rsp_status (cx_controls (buildContext sv r ident sch)) = 0"
  by (simp_all add: with_timezone_def buildContext_def no_controls_def split: option.split)

subsection \<open>Runs of the server\<close>

text \<open>
  The state of a running server: its configuration with the published schema model, the token cache and the
  database. A run serves requests at any times and reloads the model; one request is one step.
\<close>

inductive runs ::
  "go_env \<Rightarrow> root_env \<Rightarrow> ('d, 'e) backend \<Rightarrow> server \<times> claims jwt_cache option \<times> 'd \<Rightarrow> server \<times> claims jwt_cache option \<times> 'd \<Rightarrow> bool"
  for env re be where
  start: "runs env re be s s"
| serve: "runs env re be s (sv, c, d) \<Longrightarrow> ServeHTTP env re sv be now r c d = Some (resp, c', d') \<Longrightarrow> runs env re be s (sv, c', d')"
| reload: "runs env re be s (sv, c, d) \<Longrightarrow> Reload (introspected :: string + model \<times> string go_map) sv = (err, sv') \<Longrightarrow>
    runs env re be s (sv', c, d)"

definition run_ok :: "go_env \<Rightarrow> server \<times> claims jwt_cache option \<times> 'd \<Rightarrow> bool" where
  "run_ok env s \<longleftrightarrow> auth_cache_ok env (fst s) (fst (snd s))"

lemma Reload_verifier: "Reload x sv = (err, sv') \<Longrightarrow> sv_verifier sv' = sv_verifier sv"
  by (auto simp: Reload_def split: sum.split_asm prod.split_asm)

lemma runs_ok:
  assumes "runs env re be s s'" and "run_ok env s"
  shows "run_ok env s'"
  using assms
proof induction
  case (serve s sv c d now r resp c' d')
  then have "auth_cache_ok env sv c" by (simp add: run_ok_def)
  from ServeHTTP_cache [OF this serve.hyps(2)] show ?case by (simp add: run_ok_def)
next
  case (reload s sv c d introspected err sv')
  then show ?case using Reload_verifier [OF reload.hyps(2)] by (simp add: run_ok_def auth_cache_ok_def)
qed

lemma new_run_ok: "cache = None \<or> cache = Some (newJWTCache n) \<Longrightarrow> run_ok env (sv0, cache, d0)"
  using sound_new by (auto simp: run_ok_def auth_cache_ok_def split: option.split)

subsection \<open>The answers of each handler\<close>

text \<open>A plan that the compiler can rely on, of a query with its relation or of a registered function.\<close>

definition plan_ready :: "ir_plan \<Rightarrow> bool" where
  "plan_ready p \<longleftrightarrow>
     (case pn_call p of
        Some c \<Rightarrow> pn_func p = None \<or> call_ready c
      | None \<Rightarrow> (case pn_query p of None \<Rightarrow> True | Some q \<Rightarrow> ready q \<and> pn_rel p \<noteq> None))"

lemma usingCond_named: "\<forall>x \<in> set (comparisons (usingCond claims t)). cmp_path x \<noteq> []"
  by (auto simp: usingCond_def policy_compare_def split: option.split)

lemma injectWhere_ready: "ready q \<Longrightarrow> ready (injectWhere q (usingConds p claims))"
  using usingCond_named [of claims]
  by (auto simp: ready_def injectWhere_def named_def where_list_def refs_ok_def usingConds_def split: option.split_asm)

lemma Authorize_ready: "Authorize reg rc q = Some (Inr q') \<Longrightarrow> ready q \<Longrightarrow> ready q'"
  by (drule Authorize_result) (auto simp: inject_policy_def injectWhere_ready)

lemma authorize_ready:
  assumes "authorize sv rc p0 = Some (Inr p)" and "plan_ready p0"
  shows "plan_ready p"
  using assms Authorize_ready
  by (auto simp: authorize_def AuthorizePlan_def map_sum_Inr plan_ready_def split: option.split_asm option.split)

lemma read_query_ready: "read_query env sv r rel media = Inr q \<Longrightarrow> query_all plain_level q \<and> query_all refs_ok q"
  by (auto simp: read_query_def bindr_Inr_conv Let_def query_all_base plain_level_iff refs_ok_def window_query_def
      split: option.split dest!: ParseRead_ready)

lemma read_plan_ready:
  assumes "keys_fit (sv_model sv)" "read_query env sv r rel media = Inr q" "read_plan sv sch q = Inr p"
  shows "plan_ready p"
  using assms(3) PlanRead_ready [OF _ assms(1)] read_query_ready [OF assms(2)]
  by (auto simp: read_plan_def bindr_Inr_conv plan_ready_def)

lemma write_query_ready: "write_query env sv r kind rel media = Inr q \<Longrightarrow> query_all plain_level q \<and> query_all refs_ok q"
  by (auto simp: write_query_def bindr_Inr_conv write_tx_def query_all_base plain_level_iff refs_ok_def dest!: ParseWrite_ready)

lemma write_plan_ready:
  assumes "keys_fit (sv_model sv)" "write_query env sv r kind rel media = Inr q" "write_plan env sv sch q = Inr p"
  shows "plan_ready p"
  using assms(3) PlanWrite_ready [OF _ assms(1)] write_query_ready [OF assms(2)]
  by (auto simp: write_plan_def bindr_Inr_conv plan_ready_def)

lemma planned_call_ready:
  assumes "keys_fit (sv_model sv)" "call_parsed call" "planned_call reg sv call g sch = Inr p"
  shows "plan_ready p"
  using assms(3) PlanCall_ready [OF _ assms(1,2)] by (auto simp: planned_call_def bindr_Inr_conv plan_ready_def)

lemma call_parsed_upd [simp]:
  "call_parsed (c\<lparr>cl_limit := l\<rparr>) = call_parsed c" "call_parsed (window_call w c) = call_parsed c"
  "call_parsed (c\<lparr>cl_singular := sg, cl_prefer := pr\<rparr>) = call_parsed c"
  by (auto simp: call_parsed_def window_call_def split: option.split)

lemma rpc_call_parsed: "rpc_call env sv be r fn sch media g = Inr call \<Longrightarrow> call_parsed call"
  by (auto simp: rpc_call_def bindr_Inr_conv Let_def dest!: ParseCall_parsed)

lemma native_plan_ready: "plan_ready (native_plan call g)"
  by (simp add: native_plan_def plan_ready_def)

lemma rpc_plan_ready:
  assumes "keys_fit (sv_model sv)" "call_parsed call" "rpc_plan sv be call g sch = Inr p"
  shows "plan_ready p"
  using assms(3) planned_call_ready [OF assms(1,2)] native_plan_ready by (auto simp: rpc_plan_def split: if_split_asm)

lemma mapExecError_ok:
  assumes "err_ok (asAPIError be err)"
  shows "err_ok (mapExecError be err an)"
proof -
  have "err_ok (the (GradePrivilegeStatus (Some x) an'))" if "err_ok x" for x an'
    using that by (auto simp: GradePrivilegeStatus_def err_ok_def)
  from this [OF assms] show ?thesis by (auto simp: mapExecError_def Let_def)
qed

text \<open>
  The contract of a backend: it runs and explains every plan that is ready without a panic, and the statuses of its
  errors and of its results are statuses of HTTP.
\<close>

locale answering_backend =
  fixes be :: "('d, 'e) backend"
  assumes returns: "plan_ready p \<Longrightarrow> be_Execute be p rc d \<noteq> None"
    and explain_returns: "be_Explainer be = Some ex \<Longrightarrow> plan_ready p \<Longrightarrow>
      ex_Read ex p rc opts d \<noteq> None \<and> ex_Write ex p rc opts d \<noteq> None \<and> ex_Call ex p rc opts d \<noteq> None"
    and error_ok: "be_Execute be p rc d = Some (Inl err, d') \<Longrightarrow> err_ok (asAPIError be err)"
    and explain_error_ok: "be_Explainer be = Some ex \<Longrightarrow>
      ex_Read ex p rc opts d = Some (Inl err, d') \<or> ex_Write ex p rc opts d = Some (Inl err, d') \<or> ex_Call ex p rc opts d = Some (Inl err, d') \<Longrightarrow>
      err_ok (asAPIError be err)"
    and status_ok: "be_Execute be p rc d = Some (Inr res, d') \<Longrightarrow> rsp_status (cx_controls rc) = 0 \<Longrightarrow>
      rsp_status (res_controls res) = 0 \<or> 100 \<le> rsp_status (res_controls res) \<and> rsp_status (res_controls res) \<le> 999"
begin

lemma backend_status:
  assumes "be_Execute be p rc d = Some (Inr res, d')" "rsp_status (cx_controls rc) = 0" "100 \<le> def" "def \<le> 999"
  shows "100 \<le> snd (applyControls (res_controls res) def h)" "snd (applyControls (res_controls res) def h) \<le> 999"
  using status_ok [OF assms(1,2)] assms(3,4) by (auto simp: applyControls_def)

lemma execute_answers:
  assumes "plan_ready p" and "\<And>res d'. be_Execute be p rc d = Some (Inr res, d') \<Longrightarrow> k res d' \<noteq> None"
  shows "execute be ident p rc h d k \<noteq> None"
proof -
  have "be_Execute be p rc d \<noteq> None" using returns [OF assms(1)] .
  then obtain y d' where y: "be_Execute be p rc d = Some (y, d')" by auto
  show ?thesis
  proof (cases y)
    case (Inl err)
    then show ?thesis using y failed_answers [OF mapExecError_ok [OF error_ok]] by (simp add: execute_def)
  qed (use y assms(2) in \<open>simp add: execute_def\<close>)
qed

lemma servePlan_answers:
  assumes "\<And>ex opts. be_Explainer be = Some ex \<Longrightarrow> explain ex opts d \<noteq> None"
    and "\<And>ex opts err d'. be_Explainer be = Some ex \<Longrightarrow> explain ex opts d = Some (Inl err, d') \<Longrightarrow> err_ok (asAPIError be err)"
  shows "servePlan sv be r ident explain h d \<noteq> None"
proof (cases "be_Explainer be")
  case None
  then show ?thesis using failed_answers [OF err_ok_simps(2)] by (simp only: servePlan_def option.case if_cancel not_False_eq_True simp_thms)
next
  case (Some ex)
  define opts where "opts = (case parsePlan (header_values (hr_headers r) ''Accept'') of Some o1 \<Rightarrow> o1 | None \<Rightarrow> no_plan_options)"
  obtain y d' where y: "explain ex opts d = Some (y, d')" using assms(1) [OF Some, of opts] by auto
  show ?thesis using Some y failed_answers [OF mapExecError_ok [OF assms(2) [OF Some]]] failed_answers [OF err_ok_simps(2)]
    unfolding servePlan_def Some option.case Let_def opts_def [symmetric]
    by (cases y) (auto simp: reply_def WriteHeader_def)
qed

lemma writePaged_answers:
  assumes "be_Execute be p rc d = Some (Inr res, d')" "rsp_status (cx_controls rc) = 0"
  shows "writePaged r applied off out (res_controls res) h \<noteq> None"
proof -
  note bounds = backend_status [OF assms, of 200, simplified] backend_status [OF assms, of 206, simplified]
  show ?thesis
    by (cases "rd_total out") (simp_all add: writePaged_def Let_def split_beta WriteHeader_def bounds
        ErrRangeNotSatisfiable_def WithDetails_def New_def)
qed

lemma writeWrite_answers:
  assumes "be_Execute be p rc d = Some (Inr res, d')" "rsp_status (cx_controls rc) = 0" and "q_write (base q) \<noteq> None"
  shows "writeWrite env r q media rel res h \<noteq> None"
proof -
  obtain w where w: "q_write (base q) = Some w" using assms(3) by blast
  note bounds = backend_status [OF assms(1,2) writeStatus_bounds]
  show ?thesis
  proof (cases "renderFor (ge_scan_error env) media res (embedKeys q)")
    case (Inl e)
    then show ?thesis using w bounds writeError_answers [OF renderFor_error [OF Inl]]
      by (simp add: writeWrite_def Let_def split_beta WriteHeader_def)
  qed (simp add: w writeWrite_def Let_def split_beta WriteHeader_def bounds)
qed

lemma run_table_answers:
  assumes "plan_ready p0" and "explain \<in> {ex_Read, ex_Write}"
    and "authorize sv (with_timezone (q_prefer (base q)) (buildContext sv r ident sch)) p0 = Some auth"
    and "\<And>e. auth = Inl e \<Longrightarrow> err_ok e"
    and "\<And>p res d'. auth = Inr p \<Longrightarrow> be_Execute be p (with_timezone (q_prefer (base q)) (buildContext sv r ident sch)) d = Some (Inr res, d') \<Longrightarrow> k p res d' \<noteq> None"
  shows "run_table sv be r ident sch h d media q p0 explain k \<noteq> None"
  unfolding run_table_def Let_def assms(3) option.case
proof (rule or_fail_answers)
  let ?rc = "with_timezone (q_prefer (base q)) (buildContext sv r ident sch)"
  show "err_ok e" if "auth = Inl e" for e using assms(4) that .
  show "(if media = mediaPlan then servePlan sv be r ident (\<lambda>ex. explain ex p ?rc) h d else execute be ident p ?rc h d (k p)) \<noteq> None"
    if "auth = Inr p" for p
  proof -
    have p: "plan_ready p" using authorize_ready [OF _ assms(1)] assms(3) that by blast
    have "servePlan sv be r ident (\<lambda>ex. explain ex p ?rc) h d \<noteq> None"
      by (rule servePlan_answers) (use explain_returns [OF _ p] assms(2) in force, use explain_error_ok assms(2) in blast)
    then show ?thesis using execute_answers [OF p assms(5) [OF that]] by presburger
  qed
qed

lemma handleRead_answers:
  assumes fit: "keys_fit (sv_model sv)"
  shows "handleRead env sv be r ident sch h d \<noteq> None"
proof (cases "table_path (hr_path r)")
  case None
  then show ?thesis using failed_answers [OF err_ok_simps(1)] by (simp add: handleRead_def)
next
  case (Some rel)
  show ?thesis unfolding handleRead_def Some option.case
  proof (intro or_fail_answers; (erule accept_media_error read_query_error plan_errors)?)
    fix media q p
    assume q: "read_query env sv r rel media = Inr q" "read_plan sv sch q = Inr p"
    obtain q' where q': "pn_query p = Some q'" "q_kind (base q') = Read" by (rule read_plan_kind [OF q])
    obtain auth where a: "authorize sv (with_timezone (q_prefer (base q)) (buildContext sv r ident sch)) p = Some auth"
        "\<And>e. auth = Inl e \<Longrightarrow> err_ok e"
      by (rule authorize_answers [OF q'(1)]) (use q'(2) in auto)
    show "run_table sv be r ident sch h d media q p ex_Read (\<lambda>p res d'.
              or_fail h d' (renderFor (ge_scan_error env) media res (embedKeys (the (pn_query p)))) (\<lambda>out.
                reply (writeRead r (the (pn_query p)) out (res_controls res) h) d')) \<noteq> None"
      by (rule run_table_answers [OF read_plan_ready [OF fit q] _ a], simp, assumption)
        (rule or_fail_answers, erule renderFor_error, simp only: reply_answers writeRead_def, erule writePaged_answers, simp)
  qed
qed

lemma handleWrite_answers:
  assumes fit: "keys_fit (sv_model sv)"
  shows "handleWrite env sv be r kind ident sch h d \<noteq> None"
proof (cases "table_path (hr_path r)")
  case None
  then show ?thesis using failed_answers [OF err_ok_simps(1)] by (simp add: handleWrite_def)
next
  case (Some rel)
  show ?thesis unfolding handleWrite_def Some option.case
  proof (intro or_fail_answers; (erule accept_media_error write_query_error plan_errors)?)
    fix media q p
    assume q: "write_query env sv r kind rel media = Inr q" "write_plan env sv sch q = Inr p"
    obtain q' where q': "pn_query p = Some q'" "q_write (base q') \<noteq> None" by (rule write_plan_payload [OF q])
    obtain auth where a: "authorize sv (with_timezone (q_prefer (base q)) (buildContext sv r ident sch)) p = Some auth"
        "\<And>e. auth = Inl e \<Longrightarrow> err_ok e" "\<And>p. auth = Inr p \<Longrightarrow> \<exists>q. pn_query p = Some q \<and> q_write (base q) = q_write (base q')"
      using authorize_answers [OF q'(1)] q'(2) by blast
    show "run_table sv be r ident sch h d media q p ex_Write (\<lambda>p res d'.
              reply (writeWrite env r (the (pn_query p)) media (the (pn_rel p)) res h) d') \<noteq> None"
    proof (rule run_table_answers [OF write_plan_ready [OF fit q] _ a(1,2)])
      fix p res d'
      assume p: "auth = Inr p" and ex: "be_Execute be p (with_timezone (q_prefer (base q)) (buildContext sv r ident sch)) d = Some (Inr res, d')"
      have "q_write (base (the (pn_query p))) \<noteq> None" using a(3) [OF p] q'(2) by auto
      from writeWrite_answers [OF ex _ this] show "reply (writeWrite env r (the (pn_query p)) media (the (pn_rel p)) res h) d' \<noteq> None"
        by (simp add: reply_answers)
    qed simp
  qed
qed

lemma handleRPC_answers:
  assumes fit: "keys_fit (sv_model sv)"
  shows "handleRPC env sv be r fn ident sch h d \<noteq> None"
proof -
  have run: "or_fail h d (accept_media env r) (\<lambda>media.
        or_fail h d (rpc_call env sv be r fn sch media g) (\<lambda>call0.
        or_fail h d (rpc_plan sv be call0 g sch) (\<lambda>p.
          let call = the (pn_call p); rc = with_timezone (cl_prefer call) (buildContext sv r ident sch) in
          if media = mediaPlan then servePlan sv be r ident (\<lambda>ex. ex_Call ex p rc) h d
          else execute be ident p rc h d (\<lambda>res d'.
            or_fail h d' (if cl_embeds call \<noteq> [] then renderFor (ge_scan_error env) media res (embedKeysFor (cl_embeds call) (cl_select call))
                          else renderCall (ge_scan_error env) media res (pn_func p) fn) (\<lambda>out.
              reply (writeCall r call out (res_controls res) h) d'))))) \<noteq> None" for g
  proof (intro or_fail_answers; (erule accept_media_error rpc_call_error plan_errors)?)
    fix media call0 p
    assume c: "rpc_call env sv be r fn sch media g = Inr call0" "rpc_plan sv be call0 g sch = Inr p"
    have p: "plan_ready p" using rpc_plan_ready [OF fit rpc_call_parsed [OF c(1)] c(2)] .
    let ?call = "the (pn_call p)"
    let ?rc = "with_timezone (cl_prefer ?call) (buildContext sv r ident sch)"
    have ex: "execute be ident p ?rc h d (\<lambda>res d'.
            or_fail h d' (if cl_embeds ?call \<noteq> [] then renderFor (ge_scan_error env) media res (embedKeysFor (cl_embeds ?call) (cl_select ?call))
                          else renderCall (ge_scan_error env) media res (pn_func p) fn) (\<lambda>out.
              reply (writeCall r ?call out (res_controls res) h) d')) \<noteq> None"
    proof (intro execute_answers [OF p] or_fail_answers)
      show "err_ok e" if "(if cl_embeds ?call \<noteq> [] then renderFor (ge_scan_error env) media res (embedKeysFor (cl_embeds ?call) (cl_select ?call))
                          else renderCall (ge_scan_error env) media res (pn_func p) fn) = Inl e" for res e
        using that by (auto dest: renderFor_error renderCall_error split: if_split_asm)
    qed (simp only: reply_answers writeCall_def, erule writePaged_answers, simp)
    have pl: "servePlan sv be r ident (\<lambda>ex. ex_Call ex p ?rc) h d \<noteq> None"
      by (rule servePlan_answers) (use explain_returns [OF _ p] in force, use explain_error_ok in blast)
    show "(let call = ?call; rc = with_timezone (cl_prefer call) (buildContext sv r ident sch) in
          if media = mediaPlan then servePlan sv be r ident (\<lambda>ex. ex_Call ex p rc) h d
          else execute be ident p rc h d (\<lambda>res d'.
            or_fail h d' (if cl_embeds call \<noteq> [] then renderFor (ge_scan_error env) media res (embedKeysFor (cl_embeds call) (cl_select call))
                          else renderCall (ge_scan_error env) media res (pn_func p) fn) (\<lambda>out.
              reply (writeCall r call out (res_controls res) h) d'))) \<noteq> None"
      unfolding Let_def using ex pl by presburger
  qed
  show ?thesis unfolding handleRPC_def Let_def using run [unfolded Let_def]
    by (simp del: not_None_eq add: failed_answers)
qed

lemma serveRootSpec_answers:
  assumes fit: "keys_fit (sv_model sv)"
  shows "serveRootSpec env sv be r ident sch h d \<noteq> None"
  unfolding serveRootSpec_def
proof (intro or_fail_answers execute_answers; (erule renderCall_error)?)
  show "plan_ready p" if "ParseCall (ge_tz_ok env) (ge_json env) (ge_csv env) (sv_rootSpec sv) [] [] True [] [] [] = Inr call"
      "(if be_NativeRPC be then Inr (native_plan call True) else planned_call (be_Functions be) sv call True sch) = Inr p" for call p
    using that(2) planned_call_ready [OF fit ParseCall_parsed [OF that(1)]] native_plan_ready by (auto split: if_split_asm)
  show "err_ok e" if "ParseCall (ge_tz_ok env) (ge_json env) (ge_csv env) (sv_rootSpec sv) [] [] True [] [] [] = Inl e" for e
    using that ParseCall_error request_err_ok(1) by blast
  show "err_ok e" if "(if be_NativeRPC be then Inr (native_plan call True) else planned_call (be_Functions be) sv call True sch) = Inl e" for e call
    using that plan_errors(3) by (auto split: if_split_asm)
qed (simp add: reply_def WriteHeader_def)

lemma handleRoot_answers:
  assumes "keys_fit (sv_model sv)"
  shows "handleRoot env re sv be r ident sch h d \<noteq> None"
  unfolding handleRoot_def
  by (simp del: not_None_eq add: serveRootSpec_answers [OF assms] failed_answers reply_answers WriteHeader_def split: sum.split)

lemma route_answers:
  assumes "keys_fit (sv_model sv)"
  shows "route env re sv be r ident sch h d \<noteq> None"
  unfolding route_def
  by (simp del: not_None_eq add: handleRPC_answers [OF assms] handleRoot_answers [OF assms] handleRead_answers [OF assms]
      handleWrite_answers [OF assms] failed_answers split: option.split)

lemma ServeHTTP_answers:
  assumes fit: "keys_fit (sv_model sv)" and c: "auth_cache_ok env sv cache"
  shows "\<exists>resp cache' d'. ServeHTTP env re sv be now r cache d = Some (resp, cache', d')"
proof (cases "serveCORS sv r []")
  case (Inl w)
  then have "w \<noteq> None" by (auto simp: serveCORS_def Let_def WriteHeader_def split: if_split_asm)
  then show ?thesis using Inl c by (auto simp: ServeHTTP_def)
next
  case (Inr h)
  obtain who c' where a: "authenticate env sv now r cache = Some (who, c')" "auth_cache_ok env sv c'" "\<forall>e. who = Inl e \<longrightarrow> err_ok e"
    using authenticate_answers [OF c] by blast
  have "or_fail h d who (\<lambda>ident. or_fail h d (resolveSchema sv r) (\<lambda>(sch, n).
      route env re sv be r ident sch (if n then header_set ''Content-Profile'' sch h else h) d)) \<noteq> None"
    by (intro or_fail_answers) (use a(3) resolveSchema_error route_answers [OF fit] in auto)
  then show ?thesis using Inr a c by (auto simp: ServeHTTP_def handleOptions_def WriteHeader_def)
qed

lemma run_answers:
  assumes "cache = None \<or> cache = Some (newJWTCache n)" and "runs env re be (sv0, cache, d0) (sv, c, d)" and "keys_fit (sv_model sv)"
  shows "\<exists>resp c' d'. ServeHTTP env re sv be now r c d = Some (resp, c', d')"
proof -
  have "auth_cache_ok env sv c" using runs_ok [OF assms(2) new_run_ok [OF assms(1)]] by (simp add: run_ok_def)
  from ServeHTTP_answers [OF assms(3) this] show ?thesis .
qed

end

end
