(* ===== verification/Backend_Shared.thy ===== *)
theory Backend_Shared
  imports Http_Answers
begin

section \<open>What every backend shares\<close>

text \<open>
  \<open>src/backend/spi.go\<close> (the guards of a write), \<open>src/backend/writerep.go\<close> (the rows a write returns),
  \<open>src/backend/responsecontrols.go\<close> (the columns with which a function steers the response) and
  \<open>src/pgerr/raise.go\<close> (the errors a function raises). \<open>parse_float\<close> is \<open>strconv.ParseFloat\<close>, \<open>decode\<close> the JSON
  decoder with the members of an object in the order of the document.
\<close>

subsection \<open>The guards of a write\<close>

definition EnforceMaxAffected :: "write_spec option \<Rightarrow> int option \<Rightarrow> api_error option" where
  "EnforceMaxAffected w affected =
     (case (Option.bind w w_max_rows, affected) of
        (Some m, Some n) \<Rightarrow> if n > m then Some (ErrMaxAffected n) else None
      | _ \<Rightarrow> None)"

definition EnforceSingularWrite :: "bool \<Rightarrow> int option \<Rightarrow> api_error option" where
  "EnforceSingularWrite singular affected =
     (case affected of
        Some n \<Rightarrow> if singular \<and> n \<noteq> 1 then Some (WithDetails ErrSingularZeroMany (''The result contains '' @ show_int n @ '' rows'')) else None
      | None \<Rightarrow> None)"

definition IsNoOpMutation :: "query \<Rightarrow> bool" where
  "IsNoOpMutation q =
     (case q_write (base q) of
        None \<Rightarrow> False
      | Some w \<Rightarrow>
          (case q_kind (base q) of
             query_kind.Insert \<Rightarrow> w_rows w = []
           | query_kind.Update \<Rightarrow> w_set w = []
           | _ \<Rightarrow> False))"

subsection \<open>The rows a write returns\<close>

text \<open>\<open>float64\<close> of a number: the nearest float, ties to the even significand.\<close>

definition round_even :: "rat \<Rightarrow> int" where
  "round_even x =
     (let f = \<lfloor>x\<rfloor>; r = x - of_int f in if r < 1 / 2 then f else if r > 1 / 2 then f + 1 else if even f then f else f + 1)"

function bit_len :: "int \<Rightarrow> int" where
  "bit_len n = (if n \<le> 0 then 0 else 1 + bit_len (n div 2))"
  by auto

termination
  by (relation "measure nat") auto

definition scale :: "nat \<Rightarrow> int \<Rightarrow> rat" where
  "scale b e = (if 0 \<le> e then of_int (int b ^ nat e) else 1 / of_int (int b ^ nat (- e)))"

definition float_exp :: "rat \<Rightarrow> int" where
  "float_exp x =
     (let (p, q) = quotient_of x;
          e = bit_len \<bar>p\<bar> - bit_len q - 53;
          e' = (if \<bar>x\<bar> < scale 2 (e + 53) then e else e + 1) in
      max e' (- 1074))"

definition float64 :: "rat \<Rightarrow> rat" where
  "float64 x = (if x = 0 then 0 else of_int (round_even (x * scale 2 (- float_exp x))) * scale 2 (float_exp x))"

definition decimal :: "bool \<Rightarrow> string \<Rightarrow> int \<Rightarrow> rat" where
  "decimal neg ds e =
     of_int ((if neg then - 1 else 1) * foldl (\<lambda>n c. 10 * n + (of_char c - 48)) 0 ds) * scale 10 (e + 1 - int (length ds))"

definition cellFloat :: "(string \<Rightarrow> rat option) \<Rightarrow> go_any \<Rightarrow> rat option" where
  "cellFloat parse_float v =
     (case v of
        GInt n \<Rightarrow> Some (float64 (of_int n))
      | GFloat neg ds e \<Rightarrow> Some (float64 (decimal neg ds e))
      | GNumber t \<Rightarrow> parse_float t
      | _ \<Rightarrow> None)"

definition cellString :: "go_any \<Rightarrow> string" where
  "cellString v =
     (case v of
        GString s \<Rightarrow> s
      | GBytes s \<Rightarrow> s
      | GRaw s \<Rightarrow> s
      | GNil \<Rightarrow> ''null''
      | GBool b \<Rightarrow> if b then ''true'' else ''false''
      | GInt n \<Rightarrow> show_int n
      | GFloat neg ds e \<Rightarrow> json_float neg ds e
      | GNumber t \<Rightarrow> if t = [] then ''0'' else if isValidNumber t then t else []
      | GOther j \<Rightarrow> json_marshal j)"

definition three_way :: "'a :: linorder \<Rightarrow> 'a \<Rightarrow> int" where
  "three_way a b = (if a < b then - 1 else if b < a then 1 else 0)"

definition compareCells :: "(string \<Rightarrow> rat option) \<Rightarrow> go_any \<Rightarrow> go_any \<Rightarrow> int" where
  "compareCells parse_float a b =
     (case (cellFloat parse_float a, cellFloat parse_float b) of
        (Some x, Some y) \<Rightarrow> three_way x y
      | _ \<Rightarrow>
          (case (a, b) of
             (GBool x, GBool y) \<Rightarrow> three_way x y
           | _ \<Rightarrow> three_way (cellString a) (cellString b)))"

record sort_key =
  sk_idx :: nat
  sk_desc :: bool
  sk_nullsFirst :: bool

definition column_index :: "string list \<Rightarrow> string \<Rightarrow> nat option" where
  "column_index cols c =
     (if c \<in> set cols then Some (length cols - 1 - length (takeWhile (\<lambda>x. x \<noteq> c) (rev cols))) else None)"

definition order_key :: "string list \<Rightarrow> order_term \<Rightarrow> sort_key option" where
  "order_key cols t =
     (case o_path t of
        [c] \<Rightarrow>
          if o_last t \<noteq> JSONNone then None
          else map_option (\<lambda>i. \<lparr>sk_idx = i, sk_desc = o_desc t,
                 sk_nullsFirst = (case o_nulls_first t of Some b \<Rightarrow> b | None \<Rightarrow> o_desc t)\<rparr>) (column_index cols c)
      | _ \<Rightarrow> None)"

text \<open>The comparison of two cells under a key: \<open>Some True\<close> puts the first row first, \<open>None\<close> leaves it to the next key.\<close>

definition cell_before :: "(string \<Rightarrow> rat option) \<Rightarrow> sort_key \<Rightarrow> go_any \<Rightarrow> go_any \<Rightarrow> bool option" where
  "cell_before parse_float k a b =
     (if a = GNil \<or> b = GNil then
        (if a = GNil \<and> b = GNil then None else if a = GNil then Some (sk_nullsFirst k) else Some (\<not> sk_nullsFirst k))
      else let c = compareCells parse_float a b in
        if c = 0 then None else Some (if sk_desc k then c > 0 else c < 0))"

fun row_before :: "(string \<Rightarrow> rat option) \<Rightarrow> sort_key list \<Rightarrow> go_any list \<Rightarrow> go_any list \<Rightarrow> bool" where
  "row_before parse_float [] a b = False"
| "row_before parse_float (k # ks) a b =
     (case cell_before parse_float k (a ! sk_idx k) (b ! sk_idx k) of Some r \<Rightarrow> r | None \<Rightarrow> row_before parse_float ks a b)"

text \<open>
  \<open>sort.SliceStable\<close> as insertion sort, which it is up to twenty elements; the result is the same for every stable
  sort where the comparison is a strict weak order, as it is on columns of one kind.
\<close>

fun sift :: "('a \<Rightarrow> 'a \<Rightarrow> bool) \<Rightarrow> 'a \<Rightarrow> 'a list \<Rightarrow> 'a list" where
  "sift lt x [] = [x]"
| "sift lt x (y # ys) = (if lt x y then y # sift lt x ys else x # y # ys)"

definition stable_sort :: "('a \<Rightarrow> 'a \<Rightarrow> bool) \<Rightarrow> 'a list \<Rightarrow> 'a list" where
  "stable_sort lt xs = rev (fold (sift lt) xs [])"

definition orderWriteRows :: "(string \<Rightarrow> rat option) \<Rightarrow> string list \<Rightarrow> go_any list list \<Rightarrow> order_term list \<Rightarrow> go_any list list" where
  "orderWriteRows parse_float cols rows terms =
     (let keys = List.map_filter (order_key cols) terms in
      if keys = [] then rows else stable_sort (row_before parse_float keys) rows)"

definition pageWriteRows :: "'a list \<Rightarrow> int option \<Rightarrow> int option \<Rightarrow> 'a list" where
  "pageWriteRows rows limit offset =
     (let rows1 = (case offset of Some off \<Rightarrow> drop (nat off) rows | None \<Rightarrow> rows) in
      case limit of Some l \<Rightarrow> take (nat l) rows1 | None \<Rightarrow> rows1)"

definition ShapeWriteRepresentation ::
  "(string \<Rightarrow> rat option) \<Rightarrow> string list \<Rightarrow> go_any list list \<Rightarrow> query \<Rightarrow> go_any list list" where
  "ShapeWriteRepresentation parse_float cols rows q =
     (if rows = [] then rows
      else pageWriteRows (orderWriteRows parse_float cols rows (q_order (base q))) (q_limit (base q)) (q_offset (base q)))"

subsection \<open>Response controls\<close>

definition ErrInvalidResponseHeaders :: api_error where
  "ErrInvalidResponseHeaders = New 500 ''PGRST111''
     ''response.headers guc must be a JSON array composed of objects with a single key and a string value''"

definition ErrInvalidResponseStatus :: api_error where
  "ErrInvalidResponseStatus = New 500 ''PGRST112'' ''response.status guc must be a valid status code''"

definition ColResponseStatus :: string where "ColResponseStatus = ''response.status''"
definition ColResponseHeaders :: string where "ColResponseHeaders = ''response.headers''"

definition HasResponseControlCols :: "string list \<Rightarrow> bool" where
  "HasResponseControlCols cols \<longleftrightarrow> list_ex (\<lambda>c. c = ColResponseStatus \<or> c = ColResponseHeaders) cols"

definition validStatus :: "int \<Rightarrow> bool" where
  "validStatus st \<longleftrightarrow> 100 \<le> st \<and> st \<le> 599"

definition truncate_rat :: "rat \<Rightarrow> int" where
  "truncate_rat x = (if x < 0 then - \<lfloor>- x\<rfloor> else \<lfloor>x\<rfloor>)"

definition toStatus :: "go_any \<Rightarrow> int option" where
  "toStatus v =
     (case v of
        GInt n \<Rightarrow> Some n
      | GFloat neg ds e \<Rightarrow> Some (truncate_rat (float64 (decimal neg ds e)))
      | GNumber t \<Rightarrow> parse_int64 t
      | GString t \<Rightarrow> parse_int64 t
      | GRaw t \<Rightarrow> parse_int64 t
      | _ \<Rightarrow> None)"

text \<open>A JSON value decoded into a \<open>map[string]string\<close>: a null member is the empty string, a null map is empty.\<close>

definition string_map :: "json \<Rightarrow> string go_map option" where
  "string_map j =
     (case j of
        JNull \<Rightarrow> Some []
      | JObject kvs \<Rightarrow>
          if list_all (\<lambda>(k, v). case v of JString _ \<Rightarrow> True | JNull \<Rightarrow> True | _ \<Rightarrow> False) kvs
          then Some (fold (\<lambda>(k, v). aput k (case v of JString s \<Rightarrow> s | _ \<Rightarrow> [])) kvs []) else None
      | _ \<Rightarrow> None)"

definition copy_map :: "string go_map \<Rightarrow> string go_map \<Rightarrow> string go_map" where
  "copy_map dst src = fold (\<lambda>(k, v). aput k v) src dst"

definition raw_text :: "go_any \<Rightarrow> string option" where
  "raw_text v = (case v of GString s \<Rightarrow> Some s | GRaw s \<Rightarrow> Some s | GBytes s \<Rightarrow> Some s | _ \<Rightarrow> None)"

definition toHeaders :: "(string \<Rightarrow> json option) \<Rightarrow> go_any \<Rightarrow> string go_map option" where
  "toHeaders decode v =
     Option.bind (raw_text v) (\<lambda>raw.
     Option.bind (decode raw) (\<lambda>j.
       case j of
         JArray xs \<Rightarrow> if list_all (\<lambda>x. string_map x \<noteq> None) xs then Some (fold (\<lambda>m out. copy_map out m) (List.map_filter string_map xs) []) else None
       | _ \<Rightarrow> string_map j))"

definition cell_at :: "go_any list \<Rightarrow> nat option \<Rightarrow> go_any" where
  "cell_at row i = (case i of Some n \<Rightarrow> if n < length row then row ! n else GNil | None \<Rightarrow> GNil)"

definition lift_status :: "go_any \<Rightarrow> response_controls \<Rightarrow> api_error + response_controls" where
  "lift_status v controls =
     (if v = GNil then Inr controls
      else case toStatus v of
        Some st \<Rightarrow> if validStatus st then Inr (SetStatus st controls) else Inl ErrInvalidResponseStatus
      | None \<Rightarrow> Inl ErrInvalidResponseStatus)"

definition lift_headers :: "(string \<Rightarrow> json option) \<Rightarrow> go_any \<Rightarrow> response_controls \<Rightarrow> api_error + response_controls" where
  "lift_headers decode v controls =
     (if v = GNil then Inr controls
      else case toHeaders decode v of
        Some hdrs \<Rightarrow> Inr (controls\<lparr>rsp_headers := copy_map (rsp_headers controls) hdrs\<rparr>)
      | None \<Rightarrow> Inl ErrInvalidResponseHeaders)"

definition stripColumns :: "string list \<Rightarrow> go_any list list \<Rightarrow> nat list \<Rightarrow> string list \<times> go_any list list" where
  "stripColumns cols rows gone =
     (let keep = filter (\<lambda>i. i \<notin> set gone) [0..<length cols] in
      (map (\<lambda>i. cols ! i) keep, map (\<lambda>row. map (\<lambda>i. cell_at row (Some i)) keep) rows))"

definition LiftResponseControls ::
  "(string \<Rightarrow> json option) \<Rightarrow> string list \<Rightarrow> go_any list list \<Rightarrow> response_controls \<Rightarrow>
   api_error + string list \<times> go_any list list \<times> response_controls" where
  "LiftResponseControls decode cols rows controls =
     (let statusIdx = column_index cols ColResponseStatus; headersIdx = column_index cols ColResponseHeaders in
      if statusIdx = None \<and> headersIdx = None then Inr (cols, rows, controls)
      else
        bindr (case rows of
                 [] \<Rightarrow> Inr controls
               | first # _ \<Rightarrow> bindr (lift_status (cell_at first statusIdx) controls) (lift_headers decode (cell_at first headersIdx)))
          (\<lambda>controls'.
             let (cols', rows') = stripColumns cols rows (List.map_filter id [statusIdx, headersIdx]) in Inr (cols', rows', controls')))"

subsection \<open>Errors of the engine\<close>

definition ErrDBConnection :: "string \<Rightarrow> api_error" where
  "ErrDBConnection detail =
     (let e = New 503 ''PGRST000'' ''Database connection error. Retrying the connection.'' in if detail \<noteq> [] then WithDetails e detail else e)"

definition ErrAcquireTimeout :: api_error where
  "ErrAcquireTimeout = New 504 ''PGRST003'' ''Timed out acquiring connection from connection pool.''"

text \<open>
  \<open>FromRaise\<close>: the envelope a function puts into MESSAGE and the response control it puts into DETAIL. A member is
  matched to its field without regard to case; of several the last one counts, and all must have the type of the
  field. A negative status, which no response can carry, is the status 0, which none can carry either.
\<close>

definition members :: "string \<Rightarrow> json \<Rightarrow> json list option" where
  "members name j =
     (case j of
        JObject kvs \<Rightarrow> Some (map snd (filter (\<lambda>(k, v). to_lower k = name) kvs))
      | JNull \<Rightarrow> Some []
      | _ \<Rightarrow> None)"

definition last_member :: "(json \<Rightarrow> 'a option) \<Rightarrow> string \<Rightarrow> json \<Rightarrow> 'a option option" where
  "last_member field name j =
     Option.bind (members name j) (\<lambda>ms.
       if list_all (\<lambda>m. m = JNull \<or> field m \<noteq> None) ms
       then Some (if ms = [] \<or> last ms = JNull then None else field (last ms)) else None)"

definition text_field :: "json \<Rightarrow> string option" where
  "text_field j = (case j of JString s \<Rightarrow> Some s | _ \<Rightarrow> None)"

definition int_field :: "json \<Rightarrow> int option" where
  "int_field j = (case j of JNumber t \<Rightarrow> parse_int64 t | _ \<Rightarrow> None)"

record raise_message =
  rm_code :: "string option"
  rm_message :: "string option"
  rm_details :: "string option"
  rm_hint :: "string option"

definition raise_message_of :: "json \<Rightarrow> raise_message option" where
  "raise_message_of j =
     Option.bind (last_member text_field ''code'' j) (\<lambda>c.
     Option.bind (last_member text_field ''message'' j) (\<lambda>m.
     Option.bind (last_member text_field ''details'' j) (\<lambda>d.
     Option.bind (last_member text_field ''hint'' j) (\<lambda>h.
       Some \<lparr>rm_code = c, rm_message = m, rm_details = d, rm_hint = h\<rparr>))))"

record raise_detail =
  rd_status :: "int option"
  rd_status_text :: "string option"
  rd_headers :: "string go_map option"

definition raise_detail_of :: "json \<Rightarrow> raise_detail option" where
  "raise_detail_of j =
     Option.bind (last_member int_field ''status'' j) (\<lambda>st.
     Option.bind (last_member text_field ''status_text'' j) (\<lambda>t.
     Option.bind (last_member string_map ''headers'' j) (\<lambda>h.
       Some \<lparr>rd_status = st, rd_status_text = t, rd_headers = h\<rparr>)))"

definition raiseMessageHint :: string where
  "raiseMessageHint = ''MESSAGE must be a JSON object with obligatory keys: '' @ sq ''code'' @ '', '' @ sq ''message'' @
     '' and optional keys: '' @ sq ''details'' @ '', '' @ sq ''hint'' @ ''.''"

definition raiseDetailHint :: string where
  "raiseDetailHint = ''DETAIL must be a JSON object with obligatory keys: '' @ sq ''status'' @ '', '' @ sq ''headers'' @
     '' and optional key: '' @ sq ''status_text'' @ ''.''"

definition ErrRaiseParse :: "string \<Rightarrow> string \<Rightarrow> api_error" where
  "ErrRaiseParse dets hnt =
     WithHint (WithDetails (New 500 ''PGRST121''
       (''Could not parse JSON in the '' @ [dquote] @ ''RAISE SQLSTATE '' @ sq ''PGRST'' @ [dquote] @ '' error'')) dets) hnt"

definition raised_control :: "(string \<Rightarrow> json option) \<Rightarrow> string \<Rightarrow> (int \<times> string go_map) option" where
  "raised_control decode detail =
     Option.bind (Option.bind (decode detail) raise_detail_of) (\<lambda>d.
     Option.bind (rd_status d) (\<lambda>st. Option.bind (rd_headers d) (\<lambda>hs. Some (st, hs))))"

definition FromRaise :: "(string \<Rightarrow> json option) \<Rightarrow> string \<Rightarrow> string \<Rightarrow> api_error \<times> string go_map" where
  "FromRaise decode msg detail =
     (case Option.bind (decode msg) raise_message_of of
        Some r \<Rightarrow>
          (case (rm_code r, rm_message r) of
             (Some c, Some m) \<Rightarrow>
               if detail = [] then (ErrRaiseParse ''DETAIL is missing in the RAISE statement'' raiseDetailHint, [])
               else (case raised_control decode detail of
                  Some (st, hs) \<Rightarrow> ((New (nat st) c m)\<lparr>details := rm_details r, hint := rm_hint r\<rparr>, hs)
                | None \<Rightarrow> (ErrRaiseParse (''Invalid JSON value for DETAIL: '' @ sq detail) raiseDetailHint, []))
           | _ \<Rightarrow> (ErrRaiseParse (''Invalid JSON value for MESSAGE: '' @ sq msg) raiseMessageHint, []))
      | None \<Rightarrow> (ErrRaiseParse (''Invalid JSON value for MESSAGE: '' @ sq msg) raiseMessageHint, []))"

definition WithHeaders :: "api_error \<Rightarrow> string go_map \<Rightarrow> api_error" where
  "WithHeaders e h = (if h = [] then e else e\<lparr>headers := fold (\<lambda>(k, v). aput (canonical_key k) v) h (headers e)\<rparr>)"

text \<open>\<open>src/backend/postgres/postgres.go\<close>: the errors of PostgreSQL and of its connection.\<close>

definition code_status :: "string \<Rightarrow> string \<Rightarrow> nat option" where
  "code_status c msg =
     (if c = ''23503'' \<or> c = ''23505'' then Some 409
      else if c = ''25006'' then Some 405
      else if c = ''21000'' then Some (if has_suffix msg ''requires a WHERE clause'' then 400 else 500)
      else if c = ''22023'' then Some (if has_prefix msg ''role'' \<and> has_suffix msg ''does not exist'' then 401 else 400)
      else if c = ''53400'' then Some 500
      else if c = ''57P01'' then Some 503
      else if c = ''42P01'' then Some 404
      else if c = ''42P17'' then Some 500
      else if c = ''42501'' then Some 403
      else if c = ''P0001'' then Some 400
      else None)"

definition class_status :: "string \<Rightarrow> string \<Rightarrow> nat" where
  "class_status c msg =
     (let cl = take 2 c in
      if cl = ''08'' \<or> cl = ''53'' then 503
      else if cl = ''0L'' \<or> cl = ''0P'' \<or> cl = ''28'' then 403
      else if cl \<in> {''09'', ''25'', ''2D'', ''38'', ''39'', ''3B'', ''40'', ''54'', ''55'', ''57'', ''58'', ''F0'', ''HV'', ''P0'', ''XX''} then 500
      else if cl = ''42'' \<and> c = ''42883'' then (if has_prefix msg ''function xmlagg('' then 406 else 404)
      else 400)"

definition statusForSQLState :: "string \<Rightarrow> string \<Rightarrow> nat" where
  "statusForSQLState c msg =
     (if length c \<noteq> 5 then 400
      else if take 2 c = ''PT'' then
        (case parse_int64 (drop 2 c) of Some n \<Rightarrow> if 100 \<le> n \<and> n \<le> 999 then nat n else 500 | None \<Rightarrow> 500)
      else case code_status c msg of Some st \<Rightarrow> st | None \<Rightarrow> class_status c msg)"

record pg_error =
  pg_code :: string
  pg_message :: string
  pg_detail :: string
  pg_hint :: string

definition mapPgError :: "(string \<Rightarrow> json option) \<Rightarrow> pg_error \<Rightarrow> api_error" where
  "mapPgError decode pg =
     (if pg_code pg = ''PGRST'' then
        (let (e, hs) = FromRaise decode (pg_message pg) (pg_detail pg) in WithHeaders e hs)
      else
        let e = New (statusForSQLState (pg_code pg) (pg_message pg)) (pg_code pg) (pg_message pg);
            e1 = (if pg_detail pg \<noteq> [] then WithDetails e (pg_detail pg) else e) in
        if pg_hint pg \<noteq> [] then WithHint e1 (pg_hint pg) else e1)"

datatype transport_failure = ConnectError string | DeadlineExceeded string | OtherFailure string

datatype pg_failure = PgError pg_error | Transport transport_failure

definition mapTransportError :: "transport_failure \<Rightarrow> api_error" where
  "mapTransportError f =
     (case f of
        ConnectError t \<Rightarrow> ErrDBConnection t
      | DeadlineExceeded t \<Rightarrow> ErrAcquireTimeout
      | OtherFailure t \<Rightarrow> ErrInternal t)"

definition pg_MapError :: "(string \<Rightarrow> json option) \<Rightarrow> pg_failure \<Rightarrow> api_error" where
  "pg_MapError decode f = (case f of PgError e \<Rightarrow> mapPgError decode e | Transport t \<Rightarrow> mapTransportError t)"

subsection \<open>Statuses\<close>

lemma statusForSQLState_ok: "100 \<le> statusForSQLState c msg" "statusForSQLState c msg \<le> 999"
  by (auto simp: statusForSQLState_def code_status_def class_status_def Let_def split: option.split)

lemma FromRaise_status:
  "err_ok (fst (FromRaise decode msg detail)) \<longleftrightarrow>
   (\<forall>r st hs. Option.bind (decode msg) raise_message_of = Some r \<and> rm_code r \<noteq> None \<and> rm_message r \<noteq> None \<and> detail \<noteq> [] \<and>
      raised_control decode detail = Some (st, hs) \<longrightarrow> 100 \<le> st \<and> st \<le> 999)"
  by (auto simp: FromRaise_def ErrRaiseParse_def err_ok_def WithHint_def WithDetails_def New_def split: option.split)

text \<open>
  C39. Every error of PostgreSQL becomes a response, unless a function raises one with a status of its own: the
  envelope of an engine or connection error has an HTTP status, also for the statuses of the PTxxx codes, which are
  checked. The status in the DETAIL of a raised PGRST error is not: outside 100 to 999 no response is written.
\<close>

theorem postgres_error_answered:
  "writeError h (pg_MapError decode f) \<noteq> None \<longleftrightarrow>
   (\<forall>e r st hs. f = PgError e \<and> pg_code e = ''PGRST'' \<and> Option.bind (decode (pg_message e)) raise_message_of = Some r \<and>
      rm_code r \<noteq> None \<and> rm_message r \<noteq> None \<and> pg_detail e \<noteq> [] \<and> raised_control decode (pg_detail e) = Some (st, hs) \<longrightarrow>
      100 \<le> st \<and> st \<le> 999)"
proof -
  have ok: "writeError h e \<noteq> None \<longleftrightarrow> err_ok e" for e
    by (simp add: writeError_def error_Write_def Let_def WriteHeader_def err_ok_def)
  have hs: "err_ok (WithHeaders e m) = err_ok e" for e m by (simp add: WithHeaders_def err_ok_def)
  show ?thesis unfolding ok
  proof (cases f)
    case (PgError e)
    show "err_ok (pg_MapError decode f) \<longleftrightarrow> (\<forall>e r st hs. f = PgError e \<and> pg_code e = ''PGRST'' \<and>
      Option.bind (decode (pg_message e)) raise_message_of = Some r \<and> rm_code r \<noteq> None \<and> rm_message r \<noteq> None \<and> pg_detail e \<noteq> [] \<and>
      raised_control decode (pg_detail e) = Some (st, hs) \<longrightarrow> 100 \<le> st \<and> st \<le> 999)"
    proof (cases "pg_code e = ''PGRST''")
      case True
      then have "pg_MapError decode f = WithHeaders (fst (FromRaise decode (pg_message e) (pg_detail e))) (snd (FromRaise decode (pg_message e) (pg_detail e)))"
        using PgError by (simp add: pg_MapError_def mapPgError_def split_beta)
      then show ?thesis using PgError True by (simp add: hs FromRaise_status)
    next
      case False
      then show ?thesis using PgError statusForSQLState_ok by (simp add: pg_MapError_def mapPgError_def Let_def)
    qed
  next
    case (Transport t)
    then show "err_ok (pg_MapError decode f) \<longleftrightarrow> (\<forall>e r st hs. f = PgError e \<and> pg_code e = ''PGRST'' \<and>
      Option.bind (decode (pg_message e)) raise_message_of = Some r \<and> rm_code r \<noteq> None \<and> rm_message r \<noteq> None \<and> pg_detail e \<noteq> [] \<and>
      raised_control decode (pg_detail e) = Some (st, hs) \<longrightarrow> 100 \<le> st \<and> st \<le> 999)"
      by (cases t) (simp_all add: pg_MapError_def mapTransportError_def ErrDBConnection_def ErrAcquireTimeout_def Let_def)
  qed
qed

definition demo_decode :: "string \<Rightarrow> json option" where
  "demo_decode s =
     (if s = ''m'' then Some (JObject [(''code'', JString ''123''), (''message'', JString ''Payment Required'')])
      else if s = ''bad'' then Some (JObject [(''status'', JNumber ''42''), (''headers'', JObject [])])
      else if s = ''good'' then Some (JObject [(''status'', JNumber ''402''), (''headers'', JObject [(''X-Powered-By'', JString ''Nerd Rage'')])])
      else None)"

definition demo_raise :: "string \<Rightarrow> pg_failure" where
  "demo_raise detail = PgError \<lparr>pg_code = ''PGRST'', pg_message = ''m'', pg_detail = detail, pg_hint = []\<rparr>"

theorem postgres_error_answered_witness:
  "writeError [] (pg_MapError demo_decode (demo_raise ''bad'')) = None \<and> writeError [] (pg_MapError demo_decode (demo_raise ''good'')) \<noteq> None"
proof
  have bad: "map_option fst (raised_control demo_decode ''bad'') = Some 42" "map_option fst (raised_control demo_decode ''good'') = Some 402"
    "map_option (\<lambda>r. rm_code r \<noteq> None \<and> rm_message r \<noteq> None) (Option.bind (demo_decode ''m'') raise_message_of) = Some True" by code_simp+
  then obtain hs r where r: "raised_control demo_decode ''bad'' = Some (42, hs)" "Option.bind (demo_decode ''m'') raise_message_of = Some r"
      "rm_code r \<noteq> None" "rm_message r \<noteq> None" by (auto simp del: not_None_eq bind_eq_Some_conv)
  show "writeError [] (pg_MapError demo_decode (demo_raise ''bad'')) = None"
  proof (rule ccontr)
    assume "writeError [] (pg_MapError demo_decode (demo_raise ''bad'')) \<noteq> None"
    from this [unfolded postgres_error_answered demo_raise_def, rule_format, of _ r 42 hs] r show False by simp
  qed
  show "writeError [] (pg_MapError demo_decode (demo_raise ''good'')) \<noteq> None"
    unfolding postgres_error_answered demo_raise_def using bad(2) by auto
qed

subsection \<open>The order of the rows a write returns\<close>

text \<open>A comparison that orders the values of a set: it is antisymmetric and its weak form transitive.\<close>

definition orders :: "'a set \<Rightarrow> ('a \<Rightarrow> 'a \<Rightarrow> int) \<Rightarrow> bool" where
  "orders S cmp \<longleftrightarrow> (\<forall>a \<in> S. \<forall>b \<in> S. (cmp a b < 0 \<longleftrightarrow> 0 < cmp b a)) \<and>
     (\<forall>a \<in> S. \<forall>b \<in> S. \<forall>c \<in> S. cmp a b \<le> 0 \<longrightarrow> cmp b c \<le> 0 \<longrightarrow> cmp a c \<le> 0)"

lemma orders_three_way: "(\<And>a b. a \<in> S \<Longrightarrow> b \<in> S \<Longrightarrow> cmp a b = three_way (f a) (f b)) \<Longrightarrow> orders S cmp"
  by (auto simp: orders_def three_way_def split: if_split_asm)

text \<open>A column of one kind: its values are numbers, or booleans, or neither.\<close>

definition one_kind :: "(string \<Rightarrow> rat option) \<Rightarrow> go_any set \<Rightarrow> bool" where
  "one_kind pf S \<longleftrightarrow> (\<forall>c \<in> S - {GNil}. cellFloat pf c \<noteq> None) \<or> (\<forall>c \<in> S - {GNil}. \<exists>b. c = GBool b) \<or>
     (\<forall>c \<in> S - {GNil}. cellFloat pf c = None \<and> (\<forall>b. c \<noteq> GBool b))"

lemma one_kind_orders: "one_kind pf S \<Longrightarrow> orders (S - {GNil}) (compareCells pf)"
  unfolding one_kind_def
proof (elim disjE)
  assume num: "\<forall>c \<in> S - {GNil}. cellFloat pf c \<noteq> None"
  have "compareCells pf a b = three_way (the (cellFloat pf a)) (the (cellFloat pf b))" if ab: "a \<in> S - {GNil}" "b \<in> S - {GNil}" for a b
  proof -
    obtain x y where "cellFloat pf a = Some x" "cellFloat pf b = Some y" using num [THEN bspec, OF ab(1)] num [THEN bspec, OF ab(2)] by auto
    then show ?thesis by (simp add: compareCells_def)
  qed
  then show ?thesis by (rule orders_three_way)
next
  assume bool: "\<forall>c \<in> S - {GNil}. \<exists>b. c = GBool b"
  have "compareCells pf a b = three_way (a = GBool True) (b = GBool True)" if ab: "a \<in> S - {GNil}" "b \<in> S - {GNil}" for a b
  proof -
    obtain x y where "a = GBool x" "b = GBool y" using bool [THEN bspec, OF ab(1)] bool [THEN bspec, OF ab(2)] by auto
    then show ?thesis by (simp add: compareCells_def cellFloat_def)
  qed
  then show ?thesis by (rule orders_three_way)
next
  assume "\<forall>c \<in> S - {GNil}. cellFloat pf c = None \<and> (\<forall>b. c \<noteq> GBool b)"
  then show ?thesis by (intro orders_three_way [where f = cellString]) (auto simp: compareCells_def split: go_any.split)
qed

definition cell_le :: "(string \<Rightarrow> rat option) \<Rightarrow> sort_key \<Rightarrow> go_any \<Rightarrow> go_any \<Rightarrow> bool" where
  "cell_le pf k a b \<longleftrightarrow> cell_before pf k b a \<noteq> Some True"

lemma cell_order:
  assumes "one_kind pf S" "a \<in> S" "b \<in> S"
  shows "cell_before pf k a b = Some True \<longleftrightarrow> cell_before pf k b a = Some False"
    "c \<in> S \<Longrightarrow> cell_le pf k a b \<Longrightarrow> cell_le pf k b c \<Longrightarrow> cell_le pf k a c"
proof -
  note o1 = one_kind_orders [OF assms(1), unfolded orders_def]
  have anti: "compareCells pf x y < 0 \<longleftrightarrow> 0 < compareCells pf y x" if "x \<in> S" "y \<in> S" "x \<noteq> GNil" "y \<noteq> GNil" for x y
    using o1 that by blast
  have trans: "compareCells pf x y \<le> 0 \<Longrightarrow> compareCells pf y z \<le> 0 \<Longrightarrow> compareCells pf x z \<le> 0"
    if "x \<in> S" "y \<in> S" "z \<in> S" "x \<noteq> GNil" "y \<noteq> GNil" "z \<noteq> GNil" for x y z
    using o1 that by blast
  show "cell_before pf k a b = Some True \<longleftrightarrow> cell_before pf k b a = Some False"
  proof (cases "a = GNil \<or> b = GNil")
    case False
    then have "compareCells pf a b < 0 \<longleftrightarrow> 0 < compareCells pf b a" "compareCells pf b a < 0 \<longleftrightarrow> 0 < compareCells pf a b"
      using anti assms(2,3) by blast+
    moreover from this have "compareCells pf a b = 0 \<longleftrightarrow> compareCells pf b a = 0" by linarith
    ultimately show ?thesis using False by (auto simp: cell_before_def Let_def)
  qed (auto simp: cell_before_def)
  show "cell_le pf k a c" if c: "c \<in> S" and le: "cell_le pf k a b" "cell_le pf k b c"
  proof (cases "a = GNil \<or> b = GNil \<or> c = GNil")
    case True
    then show ?thesis using le by (auto simp: cell_le_def cell_before_def Let_def split: if_split_asm)
  next
    case False
    then show ?thesis using le trans [of a b c] trans [of c b a] anti [of a b] anti [of b a] anti [of b c] anti [of c b] anti [of a c] anti [of c a] assms(2,3) c
      by (auto simp: cell_le_def cell_before_def Let_def split: if_split_asm)
  qed
qed

text \<open>A row comes no later than another where the other does not come before it.\<close>

definition row_le :: "(string \<Rightarrow> rat option) \<Rightarrow> sort_key list \<Rightarrow> go_any list \<Rightarrow> go_any list \<Rightarrow> bool" where
  "row_le pf ks a b \<longleftrightarrow> \<not> row_before pf ks b a"

definition columns_of_one_kind :: "(string \<Rightarrow> rat option) \<Rightarrow> sort_key list \<Rightarrow> go_any list set \<Rightarrow> bool" where
  "columns_of_one_kind pf ks R \<longleftrightarrow> (\<forall>k \<in> set ks. one_kind pf ((\<lambda>r. r ! sk_idx k) ` R))"

lemma row_le_Cons:
  assumes "columns_of_one_kind pf (k # ks) R" "a \<in> R" "b \<in> R"
  shows "row_le pf (k # ks) a b \<longleftrightarrow> cell_le pf k (a ! sk_idx k) (b ! sk_idx k) \<and>
    (cell_le pf k (b ! sk_idx k) (a ! sk_idx k) \<longrightarrow> row_le pf ks a b)"
proof -
  have "cell_before pf k (a ! sk_idx k) (b ! sk_idx k) = Some True \<longleftrightarrow> cell_before pf k (b ! sk_idx k) (a ! sk_idx k) = Some False"
    by (rule cell_order) (use assms in \<open>auto simp: columns_of_one_kind_def\<close>)
  then show ?thesis by (auto simp: row_le_def cell_le_def split: option.split)
qed

lemma row_order:
  assumes "columns_of_one_kind pf ks R" "a \<in> R" "b \<in> R"
  shows "row_le pf ks a b \<or> row_le pf ks b a" "c \<in> R \<Longrightarrow> row_le pf ks a b \<Longrightarrow> row_le pf ks b c \<Longrightarrow> row_le pf ks a c"
proof -
  have "(row_le pf ks a b \<or> row_le pf ks b a) \<and> (c \<in> R \<longrightarrow> row_le pf ks a b \<longrightarrow> row_le pf ks b c \<longrightarrow> row_le pf ks a c)"
    using assms
  proof (induction ks)
    case (Cons k ks)
    let ?le = "\<lambda>x y. cell_le pf k (x ! sk_idx k) (y ! sk_idx k)"
    note le = row_le_Cons [OF Cons.prems(1)]
    have kind: "one_kind pf ((\<lambda>r. r ! sk_idx k) ` R)" and ks: "columns_of_one_kind pf ks R" using Cons.prems(1) by (auto simp: columns_of_one_kind_def)
    have ih: "row_le pf ks a b \<or> row_le pf ks b a" "c \<in> R \<Longrightarrow> row_le pf ks a b \<Longrightarrow> row_le pf ks b c \<Longrightarrow> row_le pf ks a c"
      using Cons.IH [OF ks Cons.prems(2,3)] by auto
    have tot: "?le a b \<or> ?le b a" using cell_order(1) [OF kind, of "a ! sk_idx k" "b ! sk_idx k" k] Cons.prems(2,3)
      by (auto simp: cell_le_def)
    have tr: "?le x y \<Longrightarrow> ?le y z \<Longrightarrow> ?le x z" if "x \<in> R" "y \<in> R" "z \<in> R" for x y z
      using cell_order(2) [OF kind] that by blast
    have "row_le pf (k # ks) a b \<or> row_le pf (k # ks) b a"
      using le [OF Cons.prems(2,3)] le [OF Cons.prems(3,2)] ih(1) tot by blast
    moreover have "row_le pf (k # ks) a c" if c: "c \<in> R" and ab: "row_le pf (k # ks) a b" "row_le pf (k # ks) b c"
    proof -
      have "?le a c" using ab tr [OF Cons.prems(2,3) c] le [OF Cons.prems(2,3)] le [OF Cons.prems(3) c] by blast
      moreover have "row_le pf ks a c" if "?le c a"
        using ab that ih(2) [OF c] tr [OF Cons.prems(3) c Cons.prems(2)] tr [OF c Cons.prems(2,3)] le [OF Cons.prems(2,3)] le [OF Cons.prems(3) c] by blast
      ultimately show ?thesis using le [OF Cons.prems(2) c] by blast
    qed
    ultimately show ?case by blast
  qed (auto simp: row_le_def)
  then show "row_le pf ks a b \<or> row_le pf ks b a" "c \<in> R \<Longrightarrow> row_le pf ks a b \<Longrightarrow> row_le pf ks b c \<Longrightarrow> row_le pf ks a c" by auto
qed

lemma mset_sift [simp]: "mset (sift lt x ys) = add_mset x (mset ys)"
  by (induction lt x ys rule: sift.induct) auto

lemma mset_stable_sort [simp]: "mset (stable_sort lt xs) = mset xs"
proof -
  have "mset (fold (sift lt) xs ys) = mset xs + mset ys" for ys by (induction xs arbitrary: ys) auto
  then show ?thesis by (simp add: stable_sort_def)
qed

lemma sift_sorted:
  assumes "sorted_wrt (\<lambda>a b. \<not> lt a b) ys" and "\<And>a b c. {a, b, c} \<subseteq> insert x (set ys) \<Longrightarrow> \<not> lt a b \<Longrightarrow> \<not> lt b c \<Longrightarrow> \<not> lt a c"
    and "\<And>a b. {a, b} \<subseteq> insert x (set ys) \<Longrightarrow> lt a b \<Longrightarrow> \<not> lt b a"
  shows "sorted_wrt (\<lambda>a b. \<not> lt a b) (sift lt x ys)"
  using assms
proof (induction lt x ys rule: sift.induct)
  case (1 lt x)
  show ?case by simp
next
  case (2 lt x y ys)
  have mem: "set (sift lt x ys) = insert x (set ys)" using mset_sift [of lt x ys] by (metis set_mset_add_mset_insert set_mset_mset)
  show ?case
  proof (cases "lt x y")
    case True
    have "sorted_wrt (\<lambda>a b. \<not> lt a b) (sift lt x ys)"
    proof (rule 2(1) [OF True])
      show "sorted_wrt (\<lambda>a b. \<not> lt a b) ys" using 2(2) by simp
      show "\<not> lt a c" if "{a, b, c} \<subseteq> insert x (set ys)" "\<not> lt a b" "\<not> lt b c" for a b c
        using 2(3) [of a b c] that by auto
      show "\<not> lt b a" if "{a, b} \<subseteq> insert x (set ys)" "lt a b" for a b using 2(4) [of a b] that by auto
    qed
    moreover have "\<not> lt y z" if "z \<in> insert x (set ys)" for z
      using that 2(2) 2(4) [of x y] True by auto
    ultimately show ?thesis using True mem by auto
  next
    case False
    have "\<not> lt x z" if "z \<in> set ys" for z using 2(3) [of x y z] False 2(2) that by auto
    then show ?thesis using 2(2) False by auto
  qed
qed

lemma stable_sort_sorted:
  assumes "\<And>a b c. {a, b, c} \<subseteq> set xs \<Longrightarrow> \<not> lt a b \<Longrightarrow> \<not> lt b c \<Longrightarrow> \<not> lt a c" and "\<And>a b. {a, b} \<subseteq> set xs \<Longrightarrow> lt a b \<Longrightarrow> \<not> lt b a"
  shows "sorted_wrt (\<lambda>a b. \<not> lt b a) (stable_sort lt xs)"
proof -
  have "sorted_wrt (\<lambda>a b. \<not> lt a b) (fold (sift lt) zs ys)" if "set zs \<union> set ys \<subseteq> set xs" "sorted_wrt (\<lambda>a b. \<not> lt a b) ys" for zs ys
    using that
  proof (induction zs arbitrary: ys)
    case (Cons z zs)
    have "sorted_wrt (\<lambda>a b. \<not> lt a b) (sift lt z ys)"
    proof (rule sift_sorted [OF Cons.prems(2)])
      show "\<not> lt a c" if "{a, b, c} \<subseteq> insert z (set ys)" "\<not> lt a b" "\<not> lt b c" for a b c
        by (rule assms(1) [OF _ that(2,3)]) (use that(1) Cons.prems(1) in auto)
      show "\<not> lt b a" if "{a, b} \<subseteq> insert z (set ys)" "lt a b" for a b
        by (rule assms(2) [OF _ that(2)]) (use that(1) Cons.prems(1) in auto)
    qed
    moreover have "set (sift lt z ys) = insert z (set ys)" using mset_sift [of lt z ys] by (metis set_mset_add_mset_insert set_mset_mset)
    ultimately show ?case using Cons.IH [of "sift lt z ys"] Cons.prems(1) by simp
  qed simp
  from this [of xs "[]"] show ?thesis by (simp add: stable_sort_def sorted_wrt_rev)
qed

lemma filter_sift: "(\<And>y. P x \<Longrightarrow> P y \<Longrightarrow> y \<in> set ys \<Longrightarrow> \<not> lt x y) \<Longrightarrow> filter P (sift lt x ys) = filter P [x] @ filter P ys"
  by (induction lt x ys rule: sift.induct) auto

lemma stable_sort_stable:
  assumes "\<And>x y. P x \<Longrightarrow> P y \<Longrightarrow> \<not> lt x y"
  shows "filter P (stable_sort lt xs) = filter P xs"
proof -
  have "filter P (fold (sift lt) xs ys) = rev (filter P xs) @ filter P ys" for ys
    by (induction xs arbitrary: ys) (simp_all add: filter_sift assms)
  from this [of "[]"] show ?thesis by (simp add: stable_sort_def rev_filter [symmetric])
qed

subsection \<open>The order a client asks for\<close>

text \<open>
  The order parameter read on its own: the column a term sorts by, when the rows carry it (the last one of that
  name), and the comparison of two rows term by term. Numbers compare by magnitude, booleans false first, all else as
  text; nulls come where the term says, or else last when ascending and first when descending.
\<close>

definition sort_column :: "string list \<Rightarrow> order_term \<Rightarrow> nat option" where
  "sort_column cols t =
     (if length (o_path t) = 1 \<and> o_last t = JSONNone then find (\<lambda>i. cols ! i = hd (o_path t)) (rev [0..<length cols]) else None)"

definition value_less :: "(string \<Rightarrow> rat option) \<Rightarrow> go_any \<Rightarrow> go_any \<Rightarrow> bool" where
  "value_less pf a b =
     (case (cellFloat pf a, cellFloat pf b) of
        (Some x, Some y) \<Rightarrow> x < y
      | _ \<Rightarrow> (case (a, b) of (GBool x, GBool y) \<Rightarrow> \<not> x \<and> y | _ \<Rightarrow> cellString a < cellString b))"

fun in_order :: "(string \<Rightarrow> rat option) \<Rightarrow> string list \<Rightarrow> order_term list \<Rightarrow> go_any list \<Rightarrow> go_any list \<Rightarrow> bool" where
  "in_order pf cols [] a b = True"
| "in_order pf cols (t # ts) a b =
     (case sort_column cols t of
        None \<Rightarrow> in_order pf cols ts a b
      | Some i \<Rightarrow>
          if a ! i = GNil \<and> b ! i = GNil then in_order pf cols ts a b
          else if a ! i = GNil \<or> b ! i = GNil then
            (a ! i = GNil) = (if o_nulls_first t = None then o_desc t else o_nulls_first t = Some True)
          else if value_less pf (a ! i) (b ! i) then \<not> o_desc t
          else if value_less pf (b ! i) (a ! i) then o_desc t
          else in_order pf cols ts a b)"

lemma column_index_find: "column_index cols c = find (\<lambda>i. cols ! i = c) (rev [0..<length cols])"
proof (cases "c \<in> set cols")
  case True
  define n where "n = length (takeWhile (\<lambda>x. x \<noteq> c) (rev cols))"
  have "takeWhile (\<lambda>x. x \<noteq> c) (rev cols) \<noteq> rev cols" using True by (simp add: takeWhile_eq_all_conv)
  then have n: "n < length cols" unfolding n_def by (metis le_neq_implies_less length_rev length_takeWhile_le take_all_iff order_refl takeWhile_eq_take)
  have hit: "rev cols ! n = c" using nth_length_takeWhile [of "\<lambda>x. x \<noteq> c" "rev cols"] n by (simp add: n_def)
  have miss: "rev cols ! j \<noteq> c" if "j < n" for j
    using that set_takeWhileD [of "rev cols ! j" "\<lambda>x. x \<noteq> c" "rev cols"] unfolding n_def by (metis nth_mem takeWhile_nth)
  have "find (\<lambda>i. cols ! i = c) (rev [0..<length cols]) = Some (length cols - 1 - n)"
    unfolding find_Some_iff using n hit miss by (intro exI [of _ n]) (auto simp: rev_nth)
  then show ?thesis using True by (simp add: column_index_def n_def)
next
  case False
  then have "find (\<lambda>i. cols ! i = c) (rev [0..<length cols]) = None" by (auto simp: find_None_iff)
  then show ?thesis using False by (simp add: column_index_def)
qed

lemma order_key_column:
  "order_key cols t = map_option (\<lambda>i. \<lparr>sk_idx = i, sk_desc = o_desc t,
     sk_nullsFirst = (if o_nulls_first t = None then o_desc t else o_nulls_first t = Some True)\<rparr>) (sort_column cols t)"
  by (auto simp: order_key_def sort_column_def column_index_find length_Suc_conv split: list.split option.split)

lemma three_way_sign: "three_way x y < 0 \<longleftrightarrow> x < y" "three_way x y > 0 \<longleftrightarrow> y < x"
  by (auto simp: three_way_def)

lemma compareCells_value:
  "compareCells pf a b < 0 \<longleftrightarrow> value_less pf a b" "compareCells pf a b > 0 \<longleftrightarrow> value_less pf b a"
  by (cases "cellFloat pf a"; cases "cellFloat pf b"; cases a; cases b; simp add: compareCells_def value_less_def three_way_sign)+

lemma value_less_asym: "value_less pf a b \<Longrightarrow> \<not> value_less pf b a"
  using compareCells_value [of pf a b] by linarith

lemma row_le_in_order: "row_le pf (List.map_filter (order_key cols) ts) a b \<longleftrightarrow> in_order pf cols ts a b"
proof (induction ts)
  case (Cons t ts)
  show ?case
  proof (cases "sort_column cols t")
    case None
    then show ?thesis using Cons by (simp add: order_key_column List.map_filter_simps)
  next
    case (Some i)
    have "compareCells pf (b ! i) (a ! i) = 0 \<longleftrightarrow> \<not> value_less pf (a ! i) (b ! i) \<and> \<not> value_less pf (b ! i) (a ! i)"
      using compareCells_value [of pf "b ! i" "a ! i"] by linarith
    then show ?thesis using Some Cons compareCells_value [of pf "b ! i" "a ! i"] value_less_asym [of pf "a ! i" "b ! i"]
      by (auto simp: order_key_column List.map_filter_simps row_le_def cell_before_def Let_def)
  qed
qed (simp add: List.map_filter_simps row_le_def)

text \<open>
  C38. The representation a write returns is the window of the ordered rows: the rows the statement returned, no row
  lost or made up, in the order of the order parameter over the columns that are returned (term by term, descending
  where it says, nulls where it says and otherwise last when ascending and first when descending), rows it does not
  tell apart in the order the statement returned them; then as many as the offset left out at the front and as many as
  the limit kept of the rest. Each column sorted by holds cells of one kind, beside nulls.
\<close>

theorem write_representation_ordered:
  assumes "\<forall>t \<in> set (q_order (base q)). \<forall>i. sort_column cols t = Some i \<longrightarrow> one_kind pf ((\<lambda>r. r ! i) ` set rows)"
  shows "\<exists>ordered. mset ordered = mset rows \<and>
    sorted_wrt (in_order pf cols (q_order (base q))) ordered \<and>
    (\<forall>a \<in> set rows. let alike = (\<lambda>b. in_order pf cols (q_order (base q)) a b \<and> in_order pf cols (q_order (base q)) b a) in
       filter alike ordered = filter alike rows) \<and>
    ShapeWriteRepresentation pf cols rows q =
      (let rest = (case q_offset (base q) of None \<Rightarrow> ordered | Some off \<Rightarrow> drop (nat off) ordered) in
       case q_limit (base q) of None \<Rightarrow> rest | Some l \<Rightarrow> take (nat l) rest)"
proof -
  let ?ks = "List.map_filter (order_key cols) (q_order (base q))"
  let ?ordered = "if ?ks = [] then rows else stable_sort (row_before pf ?ks) rows"
  have kinds: "columns_of_one_kind pf ?ks (set rows)"
    unfolding columns_of_one_kind_def
  proof
    fix k
    assume "k \<in> set ?ks"
    then obtain t where "t \<in> set (q_order (base q))" "order_key cols t = Some k" by (auto simp: List.map_filter_def)
    then show "one_kind pf ((\<lambda>r. r ! sk_idx k) ` set rows)" using assms by (auto simp: order_key_column)
  qed
  note le = row_order [OF kinds]
  have anti: "row_before pf ?ks a b \<Longrightarrow> \<not> row_before pf ?ks b a" if "a \<in> set rows" "b \<in> set rows" for a b
    using le(1) [OF that] by (auto simp: row_le_def)
  have "sorted_wrt (\<lambda>a b. \<not> row_before pf ?ks b a) (stable_sort (row_before pf ?ks) rows)"
  proof (rule stable_sort_sorted)
    show "\<not> row_before pf ?ks a c" if "{a, b, c} \<subseteq> set rows" "\<not> row_before pf ?ks a b" "\<not> row_before pf ?ks b c" for a b c
      using le(2) [of c b a] that by (simp add: row_le_def)
  qed (use anti in blast)
  then have sorted: "sorted_wrt (row_le pf ?ks) ?ordered"
    by (auto simp: row_le_def sorted_wrt_iff_nth_less)
  have set: "set ?ordered = set rows" using mset_stable_sort [of "row_before pf ?ks" rows] by (metis set_mset_mset)
  have stable: "filter (\<lambda>b. row_le pf ?ks a b \<and> row_le pf ?ks b a) ?ordered = filter (\<lambda>b. row_le pf ?ks a b \<and> row_le pf ?ks b a) rows"
    if a: "a \<in> set rows" for a
  proof -
    let ?P = "\<lambda>b. b \<in> set rows \<and> row_le pf ?ks a b \<and> row_le pf ?ks b a"
    have "filter ?P (stable_sort (row_before pf ?ks) rows) = filter ?P rows"
      by (rule stable_sort_stable) (use le(2) [OF _ a] in \<open>auto simp: row_le_def [of pf ?ks]\<close>)
    then have same: "filter ?P ?ordered = filter ?P rows" by simp
    have mem: "filter ?P xs = filter (\<lambda>b. row_le pf ?ks a b \<and> row_le pf ?ks b a) xs" if "set xs = set rows" for xs
      by (rule filter_cong) (use that in auto)
    show ?thesis using same unfolding mem [OF set] mem [OF refl] .
  qed
  have "ShapeWriteRepresentation pf cols rows q =
      (let rest = (case q_offset (base q) of None \<Rightarrow> ?ordered | Some off \<Rightarrow> drop (nat off) ?ordered) in
       case q_limit (base q) of None \<Rightarrow> rest | Some l \<Rightarrow> take (nat l) rest)"
    by (cases "rows = []")
      (auto simp: ShapeWriteRepresentation_def orderWriteRows_def pageWriteRows_def stable_sort_def [of _ "[]"] Let_def split: option.split)
  moreover have "mset ?ordered = mset rows" by simp
  ultimately show ?thesis using sorted stable unfolding row_le_in_order by (intro exI [of _ ?ordered]) (simp add: Let_def)
qed

definition demo_rows :: "go_any list list" where
  "demo_rows = [[GInt 3, GString ''c''], [GNil, GString ''a''], [GInt 10, GString ''b'']]"

definition demo_shape :: query where
  "demo_shape = Query ((new_base query_kind.Update ''films'')\<lparr>q_limit := Some 2,
     q_order := [\<lparr>o_path = [''rank''], o_last = JSONNone, o_desc = True, o_nulls_first = Some False, o_rel = []\<rparr>]\<rparr>) []"

theorem write_representation_ordered_witness:
  "ShapeWriteRepresentation (\<lambda>_. None) [''rank'', ''title''] demo_rows demo_shape = [[GInt 10, GString ''b''], [GInt 3, GString ''c'']] \<and>
   (\<exists>ordered. mset ordered = mset demo_rows \<and> sorted_wrt (in_order (\<lambda>_. None) [''rank'', ''title''] (q_order (base demo_shape))) ordered \<and>
     ShapeWriteRepresentation (\<lambda>_. None) [''rank'', ''title''] demo_rows demo_shape = take 2 ordered)"
proof
  show "ShapeWriteRepresentation (\<lambda>_. None) [''rank'', ''title''] demo_rows demo_shape = [[GInt 10, GString ''b''], [GInt 3, GString ''c'']]"
    by code_simp
  have "\<forall>t \<in> set (q_order (base demo_shape)). \<forall>i. sort_column [''rank'', ''title''] t = Some i \<longrightarrow>
      one_kind (\<lambda>_. None) ((\<lambda>r. r ! i) ` set demo_rows)"
    by (auto simp: one_kind_def demo_shape_def demo_rows_def sort_column_def cellFloat_def upt_rec)
  from write_representation_ordered [OF this]
  obtain ordered where "mset ordered = mset demo_rows" "sorted_wrt (in_order (\<lambda>_. None) [''rank'', ''title''] (q_order (base demo_shape))) ordered"
      "ShapeWriteRepresentation (\<lambda>_. None) [''rank'', ''title''] demo_rows demo_shape =
        (let rest = (case q_offset (base demo_shape) of None \<Rightarrow> ordered | Some off \<Rightarrow> drop (nat off) ordered) in
         case q_limit (base demo_shape) of None \<Rightarrow> rest | Some l \<Rightarrow> take (nat l) rest)"
    by blast
  moreover have "q_offset (base demo_shape) = None" "q_limit (base demo_shape) = Some 2" by (simp_all add: demo_shape_def new_base_def)
  ultimately show "\<exists>ordered. mset ordered = mset demo_rows \<and> sorted_wrt (in_order (\<lambda>_. None) [''rank'', ''title''] (q_order (base demo_shape))) ordered \<and>
     ShapeWriteRepresentation (\<lambda>_. None) [''rank'', ''title''] demo_rows demo_shape = take 2 ordered"
    by (intro exI [of _ ordered]) simp
qed

end
