(* ===== verification/Sqlite_Exec.thy ===== *)
theory Sqlite_Exec
  imports Backend_Shared
begin

section \<open>Package sqlite: running a plan\<close>

text \<open>
  \<open>src/backend/sqlite/sqlite.go\<close> and \<open>result.go\<close>. The database handle is \<open>'d sqlite_db\<close>: what \<open>database/sql\<close> with its driver
  does with a statement in a database state \<open>'d\<close>. A transaction works on the state; rolling it back gives the state
  before \<open>BeginTx\<close> back, and \<open>db_Commit\<close> takes that state and the current one. A cursor is what \<open>Columns\<close>,
  \<open>ColumnTypes\<close> (none when it fails), \<open>Scan\<close> for each row that \<open>Next\<close> reaches, and \<open>Err\<close> yield. A panic is \<open>None\<close>.
\<close>

datatype sqlite_failure = SqliteError int string | OtherError string

definition failure_text :: "sqlite_failure \<Rightarrow> string" where
  "failure_text f = (case f of SqliteError n t \<Rightarrow> t | OtherError t \<Rightarrow> t)"

record cursor =
  cu_columns :: "sqlite_failure + string list"
  cu_types :: "string list"
  cu_rows :: "(sqlite_failure + go_any list) list"
  cu_err :: "sqlite_failure option"

record 'd sqlite_db =
  db_Query :: "statement \<Rightarrow> 'd \<Rightarrow> (sqlite_failure + cursor) \<times> 'd"
  db_QueryInt :: "statement \<Rightarrow> 'd \<Rightarrow> (sqlite_failure + int option) \<times> 'd"
  db_Exec :: "statement \<Rightarrow> 'd \<Rightarrow> (sqlite_failure + int) \<times> 'd"
  db_Begin :: "'d \<Rightarrow> sqlite_failure option"
  db_Commit :: "'d \<Rightarrow> 'd \<Rightarrow> sqlite_failure option \<times> 'd"

subsection \<open>Errors\<close>

definition target_sep :: "char \<Rightarrow> bool" where
  "target_sep c \<longleftrightarrow> c \<in> {CHR '' '', CHR 0x09, CHR 0x0A, CHR 0x0C, CHR 0x0D, CHR '','', CHR ''.''}"

lemma run_shorter:
  assumes "takeWhile P (dropWhile Q s) \<noteq> []"
  shows "length (dropWhile P (dropWhile Q s)) < length s"
proof -
  have "length (takeWhile P (dropWhile Q s)) + length (dropWhile P (dropWhile Q s)) = length (dropWhile Q s)"
    by (metis length_append takeWhile_dropWhile_id)
  moreover have "length (dropWhile Q s) \<le> length s" by (rule length_dropWhile_le)
  ultimately show ?thesis using assms by (cases "takeWhile P (dropWhile Q s)") auto
qed

function constraintTarget :: "string \<Rightarrow> (string \<times> string) option" where
  "constraintTarget s =
     (let s1 = dropWhile target_sep s; r1 = takeWhile (\<lambda>c. \<not> target_sep c) s1; rest = dropWhile (\<lambda>c. \<not> target_sep c) s1;
          r2 = takeWhile (\<lambda>c. \<not> target_sep c) (drop 1 rest) in
      if r1 = [] then None
      else if take 1 rest = ''.'' \<and> r2 \<noteq> [] then Some (r1, r2)
      else constraintTarget rest)"
  by auto

termination
  by (relation "measure length") (auto simp del: takeWhile_eq_Nil_iff intro!: run_shorter)

definition notNullMessage :: "string \<Rightarrow> string" where
  "notNullMessage t =
     (case constraintTarget t of
        Some (rel, col) \<Rightarrow> ''null value in column '' @ go_quote col @ '' of relation '' @ go_quote rel @ '' violates not-null constraint''
      | None \<Rightarrow> ''null value violates not-null constraint'')"

definition checkMessage :: "string \<Rightarrow> string" where
  "checkMessage t =
     (let name = trim_prefix t ''CHECK constraint failed: '' in
      if name \<noteq> t \<and> name \<noteq> [] then ''new row violates check constraint '' @ go_quote name else ''new row violates check constraint'')"

definition sqlite_MapError :: "sqlite_failure \<Rightarrow> api_error" where
  "sqlite_MapError f =
     (case f of
        SqliteError n t \<Rightarrow>
          if n = 2067 \<or> n = 1555 then ErrConstraintViolation ''23505'' ''duplicate key value violates unique constraint'' [] []
          else if n = 1299 then ErrConstraintViolation ''23502'' (notNullMessage t) [] []
          else if n = 787 then ErrConstraintViolation ''23503'' ''insert or update on table violates foreign key constraint'' [] []
          else if n = 275 then ErrConstraintViolation ''23514'' (checkMessage t) [] []
          else if n mod 256 = 19 then ErrConstraintViolation ''23514'' ''new row violates check constraint'' [] []
          else ErrInternal t
      | OtherError t \<Rightarrow> ErrInternal t)"

subsection \<open>Rows\<close>

definition coerce_cell :: "string \<Rightarrow> go_any \<Rightarrow> go_any" where
  "coerce_cell declared v0 =
     (let v = (case v0 of GBytes s \<Rightarrow> GString s | _ \<Rightarrow> v0); ty = to_upper declared in
      if ty = ''BOOLEAN'' \<or> ty = ''BOOL'' then (case v of GInt n \<Rightarrow> GBool (n \<noteq> 0) | _ \<Rightarrow> v)
      else if ty = ''JSON'' then (case v of GString s \<Rightarrow> if json_Valid s then GRaw s else v | _ \<Rightarrow> v)
      else v)"

definition coerce_row :: "string list \<Rightarrow> go_any list \<Rightarrow> go_any list" where
  "coerce_row types vals = map (\<lambda>(i, v). coerce_cell (if i < length types then types ! i else []) v) (List.enumerate 0 vals)"

definition drain :: "cursor \<Rightarrow> sqlite_failure + go_any list list" where
  "drain cu =
     bindr (mapr (\<lambda>r. bindr r (\<lambda>vals. Inr (coerce_row (cu_types cu) vals))) (cu_rows cu)) (\<lambda>rows.
       case cu_err cu of Some f \<Rightarrow> Inl f | None \<Rightarrow> Inr rows)"

text \<open>The result of a read streams the cursor; that of a write or of a function that steers the response is buffered.\<close>

definition stream_result :: "string list \<Rightarrow> cursor \<Rightarrow> int option \<Rightarrow> response_controls \<Rightarrow> result" where
  "stream_result cols cu cnt controls =
     \<lparr>res_columns = cols,
      res_rows = map (\<lambda>r. case r of Inl f \<Rightarrow> Inl (failure_text f) | Inr vals \<Rightarrow> Inr (coerce_row (cu_types cu) vals)) (cu_rows cu),
      res_err = map_option failure_text (cu_err cu), res_Count = cnt, res_Affected = None, res_controls = controls\<rparr>"

definition buffer_result :: "string list \<Rightarrow> go_any list list \<Rightarrow> int option \<Rightarrow> int option \<Rightarrow> response_controls \<Rightarrow> result" where
  "buffer_result cols rows affected cnt controls =
     \<lparr>res_columns = cols, res_rows = map Inr rows, res_err = None, res_Count = cnt, res_Affected = affected, res_controls = controls\<rparr>"

subsection \<open>Reads and calls\<close>

type_synonym 'd ran = "((api_error + result) \<times> 'd) option"

definition compiled :: "(api_error + statement) option \<Rightarrow> 'd \<Rightarrow> (statement \<Rightarrow> 'd ran) \<Rightarrow> 'd ran" where
  "compiled c d k = (case c of None \<Rightarrow> None | Some (Inl e) \<Rightarrow> Some (Inl e, d) | Some (Inr st) \<Rightarrow> k st)"

text \<open>A failure of the driver, after which the state is \<open>back\<close> when a transaction rolls back.\<close>

definition on_failure :: "(sqlite_failure + 'a) \<times> 'd \<Rightarrow> ('d \<Rightarrow> 'd) \<Rightarrow> ('a \<Rightarrow> 'd \<Rightarrow> 'd ran) \<Rightarrow> 'd ran" where
  "on_failure r undo k = (case r of (Inl f, d') \<Rightarrow> Some (Inl (sqlite_MapError f), undo d') | (Inr x, d') \<Rightarrow> k x d')"

definition no_rows :: sqlite_failure where
  "no_rows = OtherError ''sql: no rows in result set''"

definition count_row :: "'d sqlite_db \<Rightarrow> statement \<Rightarrow> 'd \<Rightarrow> (sqlite_failure + int) \<times> 'd" where
  "count_row db st d =
     (case db_QueryInt db st d of
        (Inl f, d') \<Rightarrow> (Inl f, d')
      | (Inr None, d') \<Rightarrow> (Inl no_rows, d')
      | (Inr (Some n), d') \<Rightarrow> (Inr n, d'))"

definition with_count :: "'d sqlite_db \<Rightarrow> count_kind \<Rightarrow> (api_error + statement) option \<Rightarrow> 'd \<Rightarrow> (int option \<Rightarrow> 'd \<Rightarrow> 'd ran) \<Rightarrow> 'd ran" where
  "with_count db kind c d k =
     (if kind = CountNone then k None d
      else compiled c d (\<lambda>st. on_failure (count_row db st d) id (\<lambda>n. k (Some n))))"

definition open_rows :: "'d sqlite_db \<Rightarrow> statement \<Rightarrow> 'd \<Rightarrow> (sqlite_failure + string list \<times> cursor) \<times> 'd" where
  "open_rows db st d =
     (case db_Query db st d of
        (Inl f, d') \<Rightarrow> (Inl f, d')
      | (Inr cu, d') \<Rightarrow> (bindr (cu_columns cu) (\<lambda>cols. Inr (cols, cu)), d'))"

definition executeRead :: "'d sqlite_db \<Rightarrow> query \<Rightarrow> full_context \<Rightarrow> 'd \<Rightarrow> 'd ran" where
  "executeRead db q rc d =
     with_count db (q_count (base q)) (CompileCount sqlite q) d (\<lambda>cnt d1.
       compiled (CompileRead sqlite q) d1 (\<lambda>st.
         on_failure (open_rows db st d1) id (\<lambda>(cols, cu) d2.
           Some (Inr (stream_result cols cu cnt (cx_controls rc)), d2))))"

text \<open>A transaction: its body runs on the state and says whether to commit; every other way out rolls back.\<close>

definition transaction :: "'d sqlite_db \<Rightarrow> 'd \<Rightarrow> ((api_error + bool \<times> result) \<times> 'd) option \<Rightarrow> 'd ran" where
  "transaction db d0 body =
     (case db_Begin db d0 of
        Some f \<Rightarrow> Some (Inl (sqlite_MapError f), d0)
      | None \<Rightarrow>
          (case body of
             None \<Rightarrow> None
           | Some (Inl e, d) \<Rightarrow> Some (Inl e, d0)
           | Some (Inr (keep, res), d) \<Rightarrow>
               if \<not> keep then Some (Inr res, d0)
               else (case db_Commit db d0 d of
                  (Some f, d') \<Rightarrow> Some (Inl (sqlite_MapError f), d')
                | (None, d') \<Rightarrow> Some (Inr res, d'))))"

definition mapped :: "(sqlite_failure + 'a) \<times> 'd \<Rightarrow> ('a \<Rightarrow> 'd \<Rightarrow> ((api_error + 'b) \<times> 'd) option) \<Rightarrow> ((api_error + 'b) \<times> 'd) option" where
  "mapped r k = (case r of (Inl f, d) \<Rightarrow> Some (Inl (sqlite_MapError f), d) | (Inr x, d) \<Rightarrow> k x d)"

definition buffered :: "'d sqlite_db \<Rightarrow> statement \<Rightarrow> 'd \<Rightarrow> (sqlite_failure + string list \<times> go_any list list) \<times> 'd" where
  "buffered db st d =
     (case open_rows db st d of
        (Inl f, d') \<Rightarrow> (Inl f, d')
      | (Inr (cols, cu), d') \<Rightarrow> (bindr (drain cu) (\<lambda>rows. Inr (cols, rows)), d'))"

definition call_body ::
  "'d sqlite_db \<Rightarrow> (string \<Rightarrow> json option) \<Rightarrow> ir_call \<Rightarrow> full_context \<Rightarrow> statement \<Rightarrow> 'd \<Rightarrow> ((api_error + bool \<times> result) \<times> 'd) option" where
  "call_body db decode call rc st d =
     mapped (buffered db st d) (\<lambda>(cols, rows) d1.
       Some (bindr (LiftResponseControls decode cols rows (cx_controls rc)) (\<lambda>(cols', rows', controls).
         Inr (pf_tx (cl_prefer call) \<noteq> Some TxRollback, buffer_result cols' rows' None None controls)), d1))"

definition executeCall :: "'d sqlite_db \<Rightarrow> (string \<Rightarrow> json option) \<Rightarrow> ir_call \<Rightarrow> rpc_function option \<Rightarrow> bool \<Rightarrow> full_context \<Rightarrow> 'd \<Rightarrow> 'd ran" where
  "executeCall db decode call fn readOnly rc d =
     compiled (CompileCall sqlite call fn (ContextArgs (Some rc))) d (\<lambda>st.
       if readOnly then
         with_count db (cl_count call) (CompileCallCount sqlite call fn (ContextArgs (Some rc))) d (\<lambda>cnt d1.
           on_failure (open_rows db st d1) id (\<lambda>(cols, cu) d2.
             if HasResponseControlCols cols then
               on_failure (drain cu, d2) id (\<lambda>rows d3.
                 Some (bindr (LiftResponseControls decode cols rows (cx_controls rc)) (\<lambda>(cols', rows', controls).
                   Inr (buffer_result cols' rows' None cnt controls)), d3))
             else Some (Inr (stream_result cols cu cnt (cx_controls rc)), d2)))
       else transaction db d (call_body db decode call rc st d))"

subsection \<open>Writes\<close>

text \<open>\<open>None\<close> where the code dereferences the relation of a plan without one.\<close>

definition returningCols :: "query \<Rightarrow> relation option \<Rightarrow> string list option" where
  "returningCols q rel =
     (if Option.bind (q_write (base q)) (\<lambda>w. Some (w_return w)) = Some ReturnRepresentation then
        (case ProjectedColumns q of Some cols \<Rightarrow> Some cols | None \<Rightarrow> map_option column_names rel)
      else if q_kind (base q) = query_kind.Insert \<or> q_kind (base q) = Upsert then map_option r_primary_key rel
      else Some [])"

definition compileWrite :: "query \<Rightarrow> string list \<Rightarrow> (api_error + statement) option" where
  "compileWrite q returning =
     (case q_kind (base q) of
        query_kind.Insert \<Rightarrow> CompileInsert sqlite q returning
      | Upsert \<Rightarrow> CompileInsert sqlite q returning
      | query_kind.Update \<Rightarrow> CompileUpdate sqlite q returning
      | query_kind.Delete \<Rightarrow> CompileDelete sqlite q returning
      | _ \<Rightarrow> Some (Inl (ErrUnsupported ''this operation'' ''sqlite'')))"

definition conflict_target :: "write_spec \<Rightarrow> relation \<Rightarrow> string list" where
  "conflict_target w rel =
     (case w_conflict w of Some cf \<Rightarrow> if cf_target cf \<noteq> [] then cf_target cf else r_primary_key rel | None \<Rightarrow> r_primary_key rel)"

definition key_statement :: "relation \<Rightarrow> string list \<Rightarrow> sql_arg list \<Rightarrow> statement" where
  "key_statement rel target args =
     \<lparr>st_sql = ''SELECT 1 FROM '' @ QuoteIdent sqlite (r_name rel) @ '' WHERE '' @
        join '' AND '' (map (\<lambda>c. QuoteIdent sqlite c @ '' = ?'') target) @ '' LIMIT 1'',
      st_args = args\<rparr>"

definition key_args :: "write_spec \<Rightarrow> string list \<Rightarrow> ir_value go_map \<Rightarrow> sql_arg list option" where
  "key_args w target row =
     (if list_all (\<lambda>c. aget row c \<noteq> None) target
      then Some (map (\<lambda>c. writeArg sqlite (the (aget row c)) (case aget (w_column_types w) c of Some t \<Rightarrow> t | None \<Rightarrow> [])) target)
      else None)"

fun new_rows :: "'d sqlite_db \<Rightarrow> relation \<Rightarrow> write_spec \<Rightarrow> string list \<Rightarrow> ir_value go_map list \<Rightarrow> 'd \<Rightarrow> (sqlite_failure + int) \<times> 'd" where
  "new_rows db rel w target [] d = (Inr 0, d)"
| "new_rows db rel w target (row # rows) d =
     (case key_args w target row of
        None \<Rightarrow> (case new_rows db rel w target rows d of (r, d') \<Rightarrow> (bindr r (\<lambda>n. Inr (n + 1)), d'))
      | Some args \<Rightarrow>
          (case db_QueryInt db (key_statement rel target args) d of
             (Inl f, d1) \<Rightarrow> (Inl f, d1)
           | (Inr found, d1) \<Rightarrow>
               (case new_rows db rel w target rows d1 of (r, d') \<Rightarrow> (bindr r (\<lambda>n. Inr (if found = None then n + 1 else n)), d'))))"

definition detectUpsertInsert :: "'d sqlite_db \<Rightarrow> query \<Rightarrow> relation \<Rightarrow> 'd \<Rightarrow> (sqlite_failure + int option) \<times> 'd" where
  "detectUpsertInsert db q rel d =
     (case q_write (base q) of
        None \<Rightarrow> (Inr None, d)
      | Some w \<Rightarrow>
          if w_rows w = [] \<or> (case w_conflict w of Some cf \<Rightarrow> cf_resolution cf = ConflictIgnore | None \<Rightarrow> False) \<or> conflict_target w rel = []
          then (Inr None, d)
          else case new_rows db rel w (conflict_target w rel) (w_rows w) d of (r, d') \<Rightarrow> (bindr r (\<lambda>n. Inr (Some n)), d'))"

text \<open>The mutation itself: the rows it returns and how many it affected.\<close>

definition run_write ::
  "'d sqlite_db \<Rightarrow> (string \<Rightarrow> rat option) \<Rightarrow> query \<Rightarrow> string list \<Rightarrow> statement \<Rightarrow> 'd \<Rightarrow>
   (sqlite_failure + string list \<times> go_any list list \<times> int) \<times> 'd" where
  "run_write db parse_float q returning st d =
     (if returning \<noteq> [] then
        (case buffered db st d of
           (Inl f, d') \<Rightarrow> (Inl f, d')
         | (Inr (cols, rows), d') \<Rightarrow> (Inr (cols, ShapeWriteRepresentation parse_float cols rows q, int (length rows)), d'))
      else
        (case db_Exec db st d of
           (Inl f, d') \<Rightarrow> (Inl f, d')
         | (Inr n, d') \<Rightarrow> (Inr ([], [], n), d')))"

definition upsert_controls :: "int option \<Rightarrow> response_controls \<Rightarrow> response_controls" where
  "upsert_controls inserted controls =
     (case inserted of Some n \<Rightarrow> controls\<lparr>rsp_upsert_known := True, rsp_inserted := n\<rparr> | None \<Rightarrow> controls)"

definition guarded :: "query \<Rightarrow> int \<Rightarrow> result \<Rightarrow> api_error + bool \<times> result" where
  "guarded q affected res =
     (case EnforceMaxAffected (q_write (base q)) (Some affected) of
        Some e \<Rightarrow> Inl e
      | None \<Rightarrow>
          (case EnforceSingularWrite (q_singular (base q)) (Some affected) of
             Some e \<Rightarrow> Inl e
           | None \<Rightarrow> Inr (Option.bind (q_write (base q)) (\<lambda>w. Some (w_tx w)) \<noteq> Some TxRollback, res)))"

definition write_body ::
  "'d sqlite_db \<Rightarrow> (string \<Rightarrow> rat option) \<Rightarrow> query \<Rightarrow> relation option \<Rightarrow> full_context \<Rightarrow> string list \<Rightarrow> statement \<Rightarrow> 'd \<Rightarrow>
   ((api_error + bool \<times> result) \<times> 'd) option" where
  "write_body db parse_float q rel rc returning st d =
     (case (if q_kind (base q) = Upsert then map_option (\<lambda>r. detectUpsertInsert db q r d) rel else Some (Inr None, d)) of
        None \<Rightarrow> None
      | Some det \<Rightarrow>
          mapped det (\<lambda>inserted d1.
          mapped (run_write db parse_float q returning st d1) (\<lambda>(cols, rows, n) d2.
            Some (guarded q n (buffer_result cols rows (Some n) None (upsert_controls inserted (cx_controls rc))), d2))))"

definition executeWrite ::
  "'d sqlite_db \<Rightarrow> (string \<Rightarrow> rat option) \<Rightarrow> query \<Rightarrow> relation option \<Rightarrow> full_context \<Rightarrow> 'd \<Rightarrow> 'd ran" where
  "executeWrite db parse_float q rel rc d =
     (case returningCols q rel of
        None \<Rightarrow> None
      | Some returning \<Rightarrow>
          if IsNoOpMutation q then Some (Inr (buffer_result returning [] (Some 0) None (cx_controls rc)), d)
          else compiled (compileWrite q returning) d (\<lambda>st.
            transaction db d (write_body db parse_float q rel rc returning st d)))"

definition sqlite_Execute ::
  "'d sqlite_db \<Rightarrow> (string \<Rightarrow> rat option) \<Rightarrow> (string \<Rightarrow> json option) \<Rightarrow> ir_plan \<Rightarrow> full_context \<Rightarrow> 'd \<Rightarrow> 'd ran" where
  "sqlite_Execute db parse_float decode p rc d =
     (case pn_call p of
        Some call \<Rightarrow> executeCall db decode call (pn_func p) (pn_read_only p) rc d
      | None \<Rightarrow>
          (case pn_query p of
             None \<Rightarrow> Some (Inl (ErrUnsupported ''this operation'' ''sqlite''), d)
           | Some q \<Rightarrow>
               if q_kind (base q) = Read then executeRead db q rc d
               else executeWrite db parse_float q (pn_rel p) rc d))"

subsection \<open>All or nothing\<close>

text \<open>
  The one way left for a failed write to leave a change: the COMMIT itself failed, and then the database is what the
  engine made of that COMMIT (the deferred Rollback is a no-op once Commit was called).
\<close>

definition commit_failed :: "'d sqlite_db \<Rightarrow> 'd \<Rightarrow> api_error \<Rightarrow> 'd \<Rightarrow> bool" where
  "commit_failed db d e d' \<longleftrightarrow> (\<exists>d1 f. db_Commit db d d1 = (Some f, d') \<and> e = sqlite_MapError f)"

lemma transaction_cases:
  assumes "transaction db d0 body = Some (r, d')"
  obtains "d' = d0" "\<And>res. r = Inr res \<Longrightarrow> \<exists>d. body = Some (Inr (False, res), d) \<and> db_Begin db d0 = None"
  | e where "r = Inl e" "commit_failed db d0 e d'"
  | res d where "r = Inr res" "body = Some (Inr (True, res), d)" "db_Begin db d0 = None" "db_Commit db d0 d = (None, d')"
  using assms unfolding transaction_def commit_failed_def
  by (auto split: option.split_asm prod.split_asm sum.split_asm if_split_asm) (fastforce+)?

lemma compiledE:
  assumes "compiled c d k = Some (r, d')"
  obtains e where "c = Some (Inl e)" "r = Inl e" "d' = d" | st where "c = Some (Inr st)" "k st = Some (r, d')"
  using assms by (auto simp: compiled_def split: option.split_asm sum.split_asm)

lemma guarded_Inr:
  assumes "guarded q n res = Inr (keep, res')"
  shows "res' = res" "keep \<longleftrightarrow> Option.bind (q_write (base q)) (\<lambda>w. Some (w_tx w)) \<noteq> Some TxRollback"
    "Option.bind (q_write (base q)) w_max_rows = Some m \<Longrightarrow> n \<le> m" "q_singular (base q) \<Longrightarrow> n = 1"
  using assms by (auto simp: guarded_def EnforceMaxAffected_def EnforceSingularWrite_def split: option.split_asm if_split_asm)

lemma mappedE:
  assumes "mapped r k = Some (Inr y, d')"
  obtains x d1 where "r = (Inr x, d1)" "k x d1 = Some (Inr y, d')"
  using assms by (auto simp: mapped_def split: prod.split_asm sum.split_asm)

lemma write_body_Inr:
  assumes "write_body db pf q rel rc returning st d = Some (Inr (keep, res), d')"
  obtains n where "res_Affected res = Some n" "keep \<longleftrightarrow> Option.bind (q_write (base q)) (\<lambda>w. Some (w_tx w)) \<noteq> Some TxRollback"
    "\<And>m. Option.bind (q_write (base q)) w_max_rows = Some m \<Longrightarrow> n \<le> m" "q_singular (base q) \<Longrightarrow> n = 1"
proof -
  obtain det where "mapped det (\<lambda>inserted d1. mapped (run_write db pf q returning st d1) (\<lambda>(cols, rows, n) d2.
      Some (guarded q n (buffer_result cols rows (Some n) None (upsert_controls inserted (cx_controls rc))), d2))) = Some (Inr (keep, res), d')"
    using assms by (auto simp: write_body_def split: option.split_asm)
  then obtain cols rows n inserted where g: "guarded q n (buffer_result cols rows (Some n) None (upsert_controls inserted (cx_controls rc))) = Inr (keep, res)"
    by (auto elim!: mappedE)
  show ?thesis by (rule that [of n]) (use guarded_Inr [OF g] in \<open>auto simp: buffer_result_def\<close>)
qed

lemma executeWrite_cases:
  assumes "executeWrite db parse_float q rel rc d = Some (r, d')"
  shows "d' = d \<or> (\<exists>e. r = Inl e \<and> commit_failed db d e d') \<or> (\<exists>res n. r = Inr res \<and> res_Affected res = Some n \<and>
        Option.bind (q_write (base q)) (\<lambda>w. Some (w_tx w)) \<noteq> Some TxRollback \<and>
        (\<forall>m. Option.bind (q_write (base q)) w_max_rows = Some m \<longrightarrow> n \<le> m) \<and> (q_singular (base q) \<longrightarrow> n = 1))"
proof -
  obtain returning where ret: "returningCols q rel = Some returning" using assms(1) by (auto simp: executeWrite_def split: option.split_asm)
  show ?thesis
  proof (cases "IsNoOpMutation q")
    case True
    then show ?thesis using assms(1) ret by (auto simp: executeWrite_def)
  next
    case False
    have "compiled (compileWrite q returning) d (\<lambda>st. transaction db d (write_body db parse_float q rel rc returning st d)) = Some (r, d')"
      using assms(1) ret False by (simp add: executeWrite_def)
    then show ?thesis
    proof (rule compiledE)
      fix st
      assume "transaction db d (write_body db parse_float q rel rc returning st d) = Some (r, d')"
      then show ?thesis
      proof (rule transaction_cases)
        fix res d1
        assume r: "r = Inr res" and b: "write_body db parse_float q rel rc returning st d = Some (Inr (True, res), d1)"
        show ?thesis using b by (rule write_body_Inr) (use r in auto)
      qed simp_all
    qed simp
  qed
qed

lemma call_body_Inr:
  assumes "call_body db decode call rc st d = Some (Inr (keep, res), d')"
  obtains cols rows where "LiftResponseControls decode cols rows (cx_controls rc) = Inr (res_columns res, map projr (res_rows res), res_controls res)"
    "keep \<longleftrightarrow> pf_tx (cl_prefer call) \<noteq> Some TxRollback"
  using assms unfolding call_body_def
  by (elim mappedE) (auto simp: bindr_Inr_conv buffer_result_def comp_def)

lemma executeCall_cases:
  assumes "executeCall db decode call fn False rc d = Some (r, d')"
  shows "d' = d \<or> (\<exists>e. r = Inl e \<and> commit_failed db d e d') \<or> (\<exists>res. r = Inr res \<and> pf_tx (cl_prefer call) \<noteq> Some TxRollback)"
  using assms(1) unfolding executeCall_def if_False
proof (rule compiledE)
  fix st
  assume "transaction db d (call_body db decode call rc st d) = Some (r, d')"
  then show ?thesis
  proof (rule transaction_cases)
    fix res d1
    assume r: "r = Inr res" and b: "call_body db decode call rc st d = Some (Inr (True, res), d1)"
    show ?thesis using b by (rule call_body_Inr) (use r in auto)
  qed simp_all
qed simp

text \<open>A plan that writes: a mutation, or a call that is not read-only.\<close>

definition writes :: "ir_plan \<Rightarrow> bool" where
  "writes p \<longleftrightarrow>
     (case pn_call p of Some c \<Rightarrow> \<not> pn_read_only p | None \<Rightarrow> (case pn_query p of Some q \<Rightarrow> q_kind (base q) \<noteq> Read | None \<Rightarrow> False))"

text \<open>
  C4. A write happens as a whole or not at all: when a mutation or a volatile function on SQLite fails, for whatever
  reason before its COMMIT, the database is as it was; a failure that leaves it changed is the engine's own failure of
  that COMMIT, answered as such, and the database is then what the engine left. When a write that succeeds changed the
  database, the client did not ask for a rollback, and the rows a mutation affected are within the max-affected
  preference, and exactly one where the client asked for a single object. A rollback is the engine's, and
  restores what the transaction began with; of a COMMIT that fails nothing is assumed.
\<close>

theorem write_all_or_nothing:
  assumes "sqlite_Execute db parse_float decode p rc d = Some (r, d')" and "writes p"
  shows "case r of
      Inl e \<Rightarrow> d' = d \<or> (\<exists>d1 f. db_Commit db d d1 = (Some f, d') \<and> e = sqlite_MapError f)
    | Inr res \<Rightarrow> d' = d \<or>
        (case pn_call p of
           Some call \<Rightarrow> pf_tx (cl_prefer call) \<noteq> Some TxRollback
         | None \<Rightarrow> \<exists>q n. pn_query p = Some q \<and> res_Affected res = Some n \<and>
             Option.bind (q_write (base q)) (\<lambda>w. Some (w_tx w)) \<noteq> Some TxRollback \<and>
             (\<forall>m. Option.bind (q_write (base q)) w_max_rows = Some m \<longrightarrow> n \<le> m) \<and> (q_singular (base q) \<longrightarrow> n = 1))"
proof (cases "pn_call p")
  case (Some call)
  then have "executeCall db decode call (pn_func p) False rc d = Some (r, d')" using assms(1,2) by (simp add: sqlite_Execute_def writes_def)
  from executeCall_cases [OF this] show ?thesis using Some by (auto simp: commit_failed_def split: sum.split)
next
  case None
  then obtain q where q: "pn_query p = Some q" "q_kind (base q) \<noteq> Read" using assms(2) by (auto simp: writes_def split: option.split_asm)
  then have "executeWrite db parse_float q (pn_rel p) rc d = Some (r, d')" using assms(1) None by (simp add: sqlite_Execute_def)
  from executeWrite_cases [OF this] show ?thesis using None q by (auto simp: commit_failed_def split: sum.split)
qed

text \<open>An engine over a counter of rows, which a DELETE lowers by three.\<close>

definition demo_db :: "int sqlite_db" where
  "demo_db = \<lparr>db_Query = (\<lambda>st d. (Inr \<lparr>cu_columns = Inr [''id''], cu_types = [], cu_rows = [Inr [GInt d]], cu_err = None\<rparr>, d)),
     db_QueryInt = (\<lambda>st d. (Inr (Some d), d)), db_Exec = (\<lambda>st d. (Inr 3, d - 3)), db_Begin = (\<lambda>d. None), db_Commit = (\<lambda>d0 d. (None, d))\<rparr>"

definition demo_delete :: "int \<Rightarrow> ir_plan" where
  "demo_delete m = \<lparr>pn_query = Some (Query ((new_base query_kind.Delete ''films'')\<lparr>q_write :=
       Some ((write_from_prefer (ParsePrefer (\<lambda>_. True) []))\<lparr>w_max_rows := Some m\<rparr>)\<rparr>) []),
     pn_rel = Some (demo_rel ''films'' [demo_col ''id'' ''int4''] []), pn_call = None, pn_func = None, pn_read_only = False\<rparr>"

definition demo_delete_context :: full_context where
  "demo_delete_context = buildContext demo_server (demo_request ''DELETE'' ''/films'' []) \<lparr>id_role = ''web'', id_claims = [], id_anonymous = True\<rparr> ''public''"

definition demo_run_delete :: "int \<Rightarrow> int ran" where
  "demo_run_delete m = sqlite_Execute demo_db (\<lambda>_. None) (\<lambda>_. None) (demo_delete m) demo_delete_context 7"

theorem write_all_or_nothing_witness:
  "(\<exists>e. demo_run_delete 2 = Some (Inl e, 7)) \<and> (\<exists>res n. demo_run_delete 5 = Some (Inr res, 4) \<and> res_Affected res = Some n \<and> n \<le> 5)"
proof -
  have ok: "writes (demo_delete m)" for m
    by (simp add: writes_def demo_delete_def new_base_def)
  have "map_option (\<lambda>(r, d). isl r) (demo_run_delete 2) = Some True" "map_option (\<lambda>(r, d). (isl r, d)) (demo_run_delete 5) = Some (False, 4)"
    by code_simp+
  then obtain e d res where e: "demo_run_delete 2 = Some (Inl e, d)" and res: "demo_run_delete 5 = Some (Inr res, 4)"
    by (auto simp: isl_def) (metis sum.exhaust)
  have "d = 7" using write_all_or_nothing [OF e [unfolded demo_run_delete_def] ok] by (simp add: demo_db_def)
  moreover have "pn_call (demo_delete 5) = None" by (simp add: demo_delete_def)
  with write_all_or_nothing [OF res [unfolded demo_run_delete_def] ok] obtain n where "res_Affected res = Some n" "n \<le> 5"
    by (auto simp: demo_delete_def)
  ultimately show ?thesis using e res by blast
qed

subsection \<open>The contract of a backend\<close>

lemma compile_err_ok: "compile_error e \<Longrightarrow> err_ok e"
  by (auto simp: compile_error_def err_ok_def)

lemma sqlite_MapError_ok: "err_ok (sqlite_MapError f)"
  by (auto simp: sqlite_MapError_def ErrConstraintViolation_def Let_def split: sqlite_failure.split)

lemma guard_errors:
  "EnforceMaxAffected w n = Some e \<Longrightarrow> err_ok e" "EnforceSingularWrite sg n = Some e \<Longrightarrow> err_ok e"
  by (auto simp: EnforceMaxAffected_def EnforceSingularWrite_def ErrMaxAffected_def split: option.split_asm if_split_asm)

lemma lift_errors: "lift_status v c = Inl e \<Longrightarrow> err_ok e" "lift_headers decode v c = Inl e \<Longrightarrow> err_ok e"
  by (auto simp: lift_status_def lift_headers_def ErrInvalidResponseStatus_def ErrInvalidResponseHeaders_def split: if_split_asm option.split_asm)

lemma Lift_error: "LiftResponseControls decode cols rows c = Inl e \<Longrightarrow> err_ok e"
  by (auto simp: LiftResponseControls_def Let_def bindr_Inl_conv split_beta intro: lift_errors split: if_split_asm list.split_asm)

definition status_clear :: "response_controls \<Rightarrow> bool" where
  "status_clear c \<longleftrightarrow> rsp_status c = 0 \<or> 100 \<le> rsp_status c \<and> rsp_status c \<le> 999"

lemma lift_controls:
  "lift_status v c = Inr c' \<Longrightarrow> status_clear c \<Longrightarrow> status_clear c'" "lift_headers decode v c = Inr c' \<Longrightarrow> status_clear c \<Longrightarrow> status_clear c'"
  by (auto simp: lift_status_def lift_headers_def status_clear_def SetStatus_def validStatus_def split: if_split_asm option.split_asm)

lemma Lift_controls: "LiftResponseControls decode cols rows c = Inr (cols', rows', c') \<Longrightarrow> status_clear c \<Longrightarrow> status_clear c'"
  by (auto simp: LiftResponseControls_def Let_def bindr_Inr_conv split_beta intro: lift_controls split: if_split_asm list.split_asm)

text \<open>
  An outcome that keeps the contract: its error has a status, and its controls carry none or one of HTTP when those of
  the request do.
\<close>

definition ran_ok :: "response_controls \<Rightarrow> 'd ran \<Rightarrow> bool" where
  "ran_ok c m \<longleftrightarrow>
     (\<forall>r d. m = Some (r, d) \<longrightarrow> (case r of Inl e \<Rightarrow> err_ok e | Inr res \<Rightarrow> status_clear c \<longrightarrow> status_clear (res_controls res)))"

lemma ran_ok_simps [simp]:
  "ran_ok c None" "ran_ok c (Some (Inl e, d)) = err_ok e"
  "ran_ok c (Some (Inr res, d)) = (status_clear c \<longrightarrow> status_clear (res_controls res))"
  by (simp_all add: ran_ok_def)

lemma ran_ok_compiled:
  "(\<And>e. st = Some (Inl e) \<Longrightarrow> compile_error e) \<Longrightarrow> (\<And>st. ran_ok c (k st)) \<Longrightarrow> ran_ok c (compiled st d k)"
  by (auto simp: compiled_def compile_err_ok split: option.split sum.split)

lemma ran_ok_on_failure: "(\<And>x d'. ran_ok c (k x d')) \<Longrightarrow> ran_ok c (on_failure r undo k)"
  by (auto simp: on_failure_def sqlite_MapError_ok split: prod.split sum.split)

lemma ran_ok_with_count:
  "(\<And>e. st = Some (Inl e) \<Longrightarrow> compile_error e) \<Longrightarrow> (\<And>n d'. ran_ok c (k n d')) \<Longrightarrow> ran_ok c (with_count db kind st d k)"
  by (auto simp: with_count_def intro!: ran_ok_compiled ran_ok_on_failure)

lemma ran_ok_transaction:
  "(\<And>e d'. body = Some (Inl e, d') \<Longrightarrow> err_ok e) \<Longrightarrow>
   (\<And>keep res d'. body = Some (Inr (keep, res), d') \<Longrightarrow> status_clear c \<Longrightarrow> status_clear (res_controls res)) \<Longrightarrow>
   ran_ok c (transaction db d body)"
  by (auto simp: transaction_def sqlite_MapError_ok split: option.split prod.split sum.split)

lemma result_controls [simp]:
  "res_controls (stream_result cols cu cnt c) = c" "res_controls (buffer_result cols rows aff cnt c) = c"
  by (simp_all add: stream_result_def buffer_result_def)

lemma mapped_error: "mapped r k = Some (Inl e, d') \<Longrightarrow> (\<And>x d1. k x d1 = Some (Inl e, d') \<Longrightarrow> err_ok e) \<Longrightarrow> err_ok e"
  by (auto simp: mapped_def sqlite_MapError_ok split: prod.split_asm sum.split_asm)

lemma call_body_ok:
  "call_body db decode call rc st d = Some (Inl e, d') \<Longrightarrow> err_ok e"
  "call_body db decode call rc st d = Some (Inr (keep, res), d') \<Longrightarrow> status_clear (cx_controls rc) \<Longrightarrow> status_clear (res_controls res)"
proof -
  show "call_body db decode call rc st d = Some (Inl e, d') \<Longrightarrow> err_ok e" unfolding call_body_def
    by (erule mapped_error) (auto simp: bindr_Inl_conv intro: Lift_error split: prod.split_asm)
  show "status_clear (res_controls res)"
    if "call_body db decode call rc st d = Some (Inr (keep, res), d')" and c: "status_clear (cx_controls rc)"
    using that(1) by (rule call_body_Inr) (use c Lift_controls in blast)
qed

lemma write_body_ok:
  "write_body db pf q rel rc returning st d = Some (Inl e, d') \<Longrightarrow> err_ok e"
  "write_body db pf q rel rc returning st d = Some (Inr (keep, res), d') \<Longrightarrow> status_clear (cx_controls rc) \<Longrightarrow> status_clear (res_controls res)"
proof -
  show "err_ok e" if "write_body db pf q rel rc returning st d = Some (Inl e, d')"
    using that unfolding write_body_def
    by (auto split: option.split_asm prod.split_asm elim!: mapped_error simp: guarded_def intro: guard_errors)
  have "status_clear (upsert_controls ins (cx_controls rc))" if "status_clear (cx_controls rc)" for ins
    using that by (simp add: upsert_controls_def status_clear_def split: option.split)
  then show "status_clear (res_controls res)"
    if "write_body db pf q rel rc returning st d = Some (Inr (keep, res), d')" and "status_clear (cx_controls rc)"
    using that unfolding write_body_def by (auto split: option.split_asm elim!: mappedE dest!: guarded_Inr(1))
qed

lemma compileWrite_refusal: "compileWrite q cols = Some (Inl e) \<Longrightarrow> compile_error e"
  by (auto simp: compileWrite_def dest: CompileInsert_refusal CompileUpdate_refusal CompileDelete_refusal split: query_kind.split_asm
      intro: compile_errors)

lemma lift_ran_ok:
  "ran_ok c0 (Some (bindr (LiftResponseControls decode cols rows c0) (\<lambda>(cols', rows', c). Inr (buffer_result cols' rows' None cnt c)), d'))"
  using Lift_error Lift_controls by (cases "LiftResponseControls decode cols rows c0") (auto intro: Lift_error Lift_controls)

lemma executeRead_ok: "ran_ok (cx_controls rc) (executeRead db q rc d)"
  unfolding executeRead_def
  by (intro ran_ok_with_count ran_ok_compiled ran_ok_on_failure) (auto dest: CompileCount_refusal CompileRead_refusal)

lemma executeWrite_ok: "ran_ok (cx_controls rc) (executeWrite db pf q rel rc d)"
  unfolding executeWrite_def
  by (auto split: option.split intro!: ran_ok_compiled ran_ok_transaction dest: compileWrite_refusal write_body_ok)

lemma executeCall_ok: "ran_ok (cx_controls rc) (executeCall db decode call fn ro rc d)"
  unfolding executeCall_def
  by (intro ran_ok_compiled, erule CompileCall_refusal)
    (auto intro!: ran_ok_with_count ran_ok_on_failure ran_ok_transaction lift_ran_ok dest: CompileCallCount_refusal call_body_ok)

lemma sqlite_ran_ok: "ran_ok (cx_controls rc) (sqlite_Execute db pf decode p rc d)"
  by (simp add: sqlite_Execute_def executeRead_ok executeWrite_ok executeCall_ok compile_err_ok [OF compile_errors(1)] split: option.split)

lemma compiled_returns: "c \<noteq> None \<Longrightarrow> (\<And>st. k st \<noteq> None) \<Longrightarrow> compiled c d k \<noteq> None"
  by (auto simp: compiled_def split: option.split sum.split)

lemma on_failure_returns: "(\<And>x d'. k x d' \<noteq> None) \<Longrightarrow> on_failure r undo k \<noteq> None"
  by (auto simp: on_failure_def split: prod.split sum.split)

lemma with_count_returns: "c \<noteq> None \<Longrightarrow> (\<And>n d'. k n d' \<noteq> None) \<Longrightarrow> with_count db kind c d k \<noteq> None"
  unfolding with_count_def by (cases "kind = CountNone") (simp_all del: not_None_eq add: compiled_returns on_failure_returns)

lemma transaction_returns: "body \<noteq> None \<Longrightarrow> transaction db d body \<noteq> None"
  by (auto simp: transaction_def split: option.split prod.split sum.split)

lemma mapped_returns: "(\<And>x d'. k x d' \<noteq> None) \<Longrightarrow> mapped r k \<noteq> None"
  by (auto simp: mapped_def split: prod.split sum.split)

lemmas ran_returns = compiled_returns on_failure_returns with_count_returns transaction_returns mapped_returns

lemma executeRead_returns: "ready q \<Longrightarrow> executeRead db q rc d \<noteq> None"
  by (simp del: not_None_eq add: executeRead_def ran_returns CompileCount_total CompileRead_total split: prod.split)

lemma executeWrite_returns:
  assumes "ready q"
  shows "executeWrite db pf q (Some rel) rc d \<noteq> None"
proof -
  have "returningCols q (Some rel) \<noteq> None" by (auto simp: returningCols_def split: option.split)
  then obtain cols where "returningCols q (Some rel) = Some cols" by blast
  moreover have "compileWrite q cols \<noteq> None" for cols
    using CompileInsert_total CompileUpdate_total [OF assms] CompileDelete_total [OF assms]
    by (simp del: not_None_eq add: compileWrite_def split: query_kind.split)
  moreover have "write_body db pf q (Some rel) rc cols st d \<noteq> None" for cols st
    by (simp del: not_None_eq add: write_body_def mapped_returns split: prod.split)
  ultimately show ?thesis by (simp del: not_None_eq add: executeWrite_def ran_returns)
qed

lemma executeCall_returns:
  assumes "fn = None \<or> call_ready call"
  shows "executeCall db decode call fn ro rc d \<noteq> None"
proof (cases "fn = None")
  case True
  then show ?thesis by (simp add: executeCall_def CompileCall_def compiled_def)
next
  case False
  then have "call_ready call" using assms by blast
  then show ?thesis
    by (simp del: not_None_eq add: executeCall_def call_body_def ran_returns CompileCall_total CompileCallCount_total split: prod.split)
qed

lemma sqlite_returns: "plan_ready p \<Longrightarrow> sqlite_Execute db pf decode p rc d \<noteq> None"
  by (cases "pn_rel p")
    (simp_all del: not_None_eq add: plan_ready_def sqlite_Execute_def executeRead_returns executeWrite_returns executeCall_returns split: option.split_asm option.split)

text \<open>The SQLite backend as the server sees it; the errors it returns are envelopes already.\<close>

definition sqlite_backend :: "'d sqlite_db \<Rightarrow> (string \<Rightarrow> rat option) \<Rightarrow> (string \<Rightarrow> json option) \<Rightarrow> fn_registry \<Rightarrow> ('d, api_error) backend" where
  "sqlite_backend db pf decode reg = \<lparr>be_NativeRPC = False, be_Functions = reg, be_SchemaFunctions = None,
     be_Execute = sqlite_Execute db pf decode, be_Explainer = None, be_As = Some,
     be_MapError = (\<lambda>e. Some (ErrInternal (code e @ '': '' @ message e))), be_ErrorText = (\<lambda>e. code e @ '': '' @ message e)\<rparr>"

interpretation sq: answering_backend "sqlite_backend db pf decode reg"
proof
  fix p rc d err d' res
  note ok = sqlite_ran_ok [of rc db pf decode p d]
  show "err_ok (asAPIError (sqlite_backend db pf decode reg) err)"
    if "be_Execute (sqlite_backend db pf decode reg) p rc d = Some (Inl err, d')"
    using ok that by (simp add: sqlite_backend_def asAPIError_def)
  show "rsp_status (res_controls res) = 0 \<or> 100 \<le> rsp_status (res_controls res) \<and> rsp_status (res_controls res) \<le> 999"
    if "be_Execute (sqlite_backend db pf decode reg) p rc d = Some (Inr res, d')" "rsp_status (cx_controls rc) = 0"
    using ok that by (simp add: sqlite_backend_def status_clear_def)
qed (simp_all del: not_None_eq add: sqlite_backend_def sqlite_returns)

subsection \<open>Requests on SQLite are answered\<close>

text \<open>
  In every state a server on SQLite reaches from a new token cache by requests and schema reloads, the next request
  is answered with a response, whatever it is: for a schema whose keys pair up, no handler panics, from the header that
  is not a token to the statement that cannot be written.
\<close>

theorem every_request_answered:
  assumes "cache = None \<or> cache = Some (newJWTCache n)"
    and "runs env re (sqlite_backend db parse_float decode reg) (sv0, cache, d0) (sv, c, d)" and "keys_fit (sv_model sv)"
  shows "\<exists>resp c' d'. ServeHTTP env re sv (sqlite_backend db parse_float decode reg) now r c d = Some (resp, c', d')"
  using assms by (rule sq.run_answers)

theorem every_request_answered_witness:
  "\<exists>resp c' d'. ServeHTTP demo_env demo_root demo_server (sqlite_backend demo_db (\<lambda>_. None) (\<lambda>_. None) EmptyRegistry) 0
     (demo_request ''GET'' ''/films'' ''select=title,directors(name)'') (Some (newJWTCache 2)) 7 = Some (resp, c', d')"
proof (rule every_request_answered)
  show "Some (newJWTCache 2 :: claims jwt_cache) = None \<or> Some (newJWTCache 2 :: claims jwt_cache) = Some (newJWTCache 2)" by simp
  have "sv_model demo_server = demo_model" by (simp add: demo_server_def NewServer_def)
  then show "keys_fit (sv_model demo_server)" using demo_keys_fit by simp
qed (rule runs.start)

end
