(* ===== verification/Authz_Parse.thy ===== *)
theory Authz_Parse
  imports Authz Go_Numbers
begin

section \<open>Package authz: the policy-registry declaration\<close>

text \<open>
  \<open>src/authz/parse.go\<close>. The decoding of the JSON document is \<open>encoding/json\<close>'s and is the argument
  \<open>decode\<close>: the decoded document with \<open>dec.More()\<close>, or the decoder's error. An error is the text
  \<open>fmt.Errorf\<close> builds.
\<close>

record grant_decl =
  gd_role :: string
  gd_relation :: string
  gd_actions :: "string list"
  gd_columns :: "string list"

record policy_decl =
  pd_role :: string
  pd_relation :: string
  pd_using :: string
  pd_with_check :: string

record registry_decl =
  rd_grants :: "grant_decl list"
  rd_policies :: "policy_decl list"

definition validActions :: "string \<Rightarrow> action option" where
  "validActions s =
     (if s = ''select'' then Some Select else if s = ''insert'' then Some Insert
      else if s = ''update'' then Some Update else if s = ''delete'' then Some Delete else None)"

subsection \<open>Predicates\<close>

definition isIdentChar :: "char \<Rightarrow> bool" where
  "isIdentChar c \<longleftrightarrow> CHR ''a'' \<le> c \<and> c \<le> CHR ''z'' \<or> CHR ''A'' \<le> c \<and> c \<le> CHR ''Z'' \<or>
     CHR ''0'' \<le> c \<and> c \<le> CHR ''9'' \<or> c = CHR ''_''"

definition isIdent :: "string \<Rightarrow> bool" where
  "isIdent s \<longleftrightarrow> list_all isIdentChar s \<and> s \<noteq> []"

definition claimPrefixes :: "string list" where
  "claimPrefixes = [''request.jwt.claims.'', ''request.jwt.claim.'']"

definition isClaimRef :: "string \<Rightarrow> bool" where
  "isClaimRef val \<longleftrightarrow> list_ex (has_prefix val) claimPrefixes"

definition claimPath :: "string \<Rightarrow> string" where
  "claimPath val =
     (case find (has_prefix val) claimPrefixes of None \<Rightarrow> [] | Some p \<Rightarrow> drop (length p) val)"

text \<open>
  \<open>inWord\<close> and \<open>hasWordAt\<close> look at the byte before position \<open>i\<close>: the scan carries it as \<open>prev\<close>,
  \<open>None\<close> at the start.
\<close>

definition inWord :: "char option \<Rightarrow> bool" where
  "inWord prev = (case prev of None \<Rightarrow> False | Some c \<Rightarrow> isIdentChar c)"

definition blank :: "char \<Rightarrow> bool" where
  "blank c \<longleftrightarrow> c = CHR '' '' \<or> c = CHR 0x09"

definition hasWordAt :: "char option \<Rightarrow> string \<Rightarrow> string \<Rightarrow> bool" where
  "hasWordAt prev s word \<longleftrightarrow>
     has_prefix (to_lower s) word \<and> (case prev of None \<Rightarrow> True | Some c \<Rightarrow> blank c) \<and>
     (case drop (length word) s of [] \<Rightarrow> True | c # _ \<Rightarrow> blank c)"

fun split_and :: "char option \<Rightarrow> bool \<Rightarrow> string \<Rightarrow> string \<Rightarrow> string list" where
  "split_and prev inQuote cur [] = [cur]"
| "split_and prev inQuote cur (c # s) =
     (let q = (if c = CHR 0x27 then \<not> inQuote else inQuote) in
      if \<not> q \<and> \<not> inWord prev \<and> hasWordAt prev (c # s) ''and''
      then cur # split_and (Some (s ! 1)) q [] (drop 2 s)
      else split_and (Some c) q (cur @ [c]) s)"

definition splitAnd :: "string \<Rightarrow> string list" where
  "splitAnd src = split_and None False [] src"

definition split_operator :: "string \<Rightarrow> (pol_op \<times> string \<times> string) option" where
  "split_operator s =
     (case index_str s ''!='' of
        Some i \<Rightarrow> Some (OpNeq, take i s, drop (i + 2) s)
      | None \<Rightarrow>
          (case index_str s ''='' of
             Some i \<Rightarrow> Some (OpEq, take i s, drop (i + 1) s)
           | None \<Rightarrow> None))"

definition parse_rhs :: "string \<Rightarrow> string \<Rightarrow> pol_op \<Rightarrow> string \<Rightarrow> string + pol_term" where
  "parse_rhs s col op val =
     (let mk = \<lambda>claim lit. \<lparr>t_column = col, t_op = op, t_claim = claim, t_literal = lit\<rparr>;
          bad = \<lambda>msg. Inl (''term '' @ go_quote s @ '': '' @ msg)
      in if val = [] then bad ''missing right-hand side''
         else if isClaimRef val then
           (if claimPath val = [] then bad ''empty claim path'' else Inr (mk (claimPath val) (LString [])))
         else if hd val = CHR 0x27 then
           (if length val < 2 \<or> last val \<noteq> CHR 0x27 then bad ''unterminated string literal''
            else Inr (mk [] (LString (strip_ends val))))
         else if val = ''true'' \<or> val = ''false'' then Inr (mk [] (LBool (val = ''true'')))
         else if \<not> parse_float_ok val
           then bad (go_quote val @ '' is not a claim reference, string, number, or boolean'')
         else Inr (mk [] (LNumber val)))"

definition parseTerm :: "string \<Rightarrow> string + pol_term" where
  "parseTerm src =
     (let s = trim_space src in
      if s = [] then Inl ''empty term''
      else case split_operator s of
             None \<Rightarrow> Inl (''term '' @ go_quote s @ '': expected = or !='')
           | Some (op, lhs, rhs) \<Rightarrow>
               let col = trim_space lhs in
               if col = [] \<or> \<not> isIdent col
               then Inl (''term '' @ go_quote s @ '': '' @ go_quote col @ '' is not a column name'')
               else parse_rhs s col op (trim_space rhs))"

definition parsePredicate :: "string \<Rightarrow> string + predicate" where
  "parsePredicate src =
     (if trim_space src = [] then Inr [] else mapr parseTerm (splitAnd src))"

subsection \<open>The registry document\<close>

definition decl_where :: "string \<Rightarrow> nat \<Rightarrow> string \<Rightarrow> string \<Rightarrow> string" where
  "decl_where what i role rel =
     ''policy-registry: '' @ what @ '' '' @ show_nat i @ '' ('' @ role @ '' on '' @ rel @ ''): ''"

definition required :: "string \<Rightarrow> nat \<Rightarrow> string" where
  "required what i = ''policy-registry: '' @ what @ '' '' @ show_nat i @ '': role and relation are required''"

definition parse_grant :: "nat \<times> grant_decl \<Rightarrow> string + grant list" where
  "parse_grant ig =
     (case ig of (i, g) \<Rightarrow>
        if gd_role g = [] \<or> gd_relation g = [] then Inl (required ''grant'' i)
        else if gd_actions g = [] then Inl (decl_where ''grant'' i (gd_role g) (gd_relation g) @ ''actions is required'')
        else mapr (\<lambda>a. case validActions (to_lower (trim_space a)) of
                          None \<Rightarrow> Inl (decl_where ''grant'' i (gd_role g) (gd_relation g) @ ''unknown action '' @ go_quote a)
                        | Some act \<Rightarrow> Inr \<lparr>g_role = gd_role g, g_relation = gd_relation g, g_action = act,
                                          g_columns = gd_columns g\<rparr>)
               (gd_actions g))"

definition parse_policy :: "nat \<times> policy_decl \<Rightarrow> string + policy" where
  "parse_policy ip =
     (case ip of (i, p) \<Rightarrow>
        let loc = decl_where ''policy'' i (pd_role p) (pd_relation p);
            pred = \<lambda>key src. map_sum (\<lambda>e. loc @ key @ e) id (parsePredicate src)
        in if pd_role p = [] \<or> pd_relation p = [] then Inl (required ''policy'' i)
           else if pd_using p = [] \<and> pd_with_check p = []
             then Inl (loc @ ''at least one of using and with_check is required'')
           else bindr (pred ''using: '' (pd_using p)) (\<lambda>using.
                bindr (pred ''with_check: '' (pd_with_check p)) (\<lambda>check.
                  Inr \<lparr>p_relation = pd_relation p, p_role = pd_role p, p_using = using, p_with_check = check\<rparr>)))"

definition ParseRegistry :: "(string \<Rightarrow> string + registry_decl \<times> bool) \<Rightarrow> string \<Rightarrow> string + registry" where
  "ParseRegistry decode raw =
     (case decode raw of
        Inl e \<Rightarrow> Inl (''policy-registry: '' @ e)
      | Inr (doc, extra) \<Rightarrow>
          if extra then Inl ''policy-registry: trailing data after the document''
          else bindr (mapr parse_grant (List.enumerate 0 (rd_grants doc))) (\<lambda>gss.
               bindr (mapr parse_policy (List.enumerate 0 (rd_policies doc))) (\<lambda>ps.
                 Inr (NewRegistry (concat gss) ps))))"

subsection \<open>Nothing declared is skipped\<close>

text \<open>What a declaration says, read off the document itself.\<close>

definition declares :: "grant_decl \<Rightarrow> grant_key \<Rightarrow> bool" where
  "declares g k \<longleftrightarrow> (\<exists>a \<in> set (gd_actions g). \<exists>act.
     validActions (to_lower (trim_space a)) = Some act \<and> k = (gd_role g, gd_relation g, act))"

lemma enumerate_mapr:
  assumes "mapr f (List.enumerate n xs) = Inr ys"
  shows "list_all2 (\<lambda>x y. \<exists>i. f (i, x) = Inr y) xs ys"
proof -
  from assms have "list_all2 (\<lambda>p y. f p = Inr y) (List.enumerate n xs) ys" by (simp add: mapr_Inr_conv)
  then show ?thesis
    by (induction xs arbitrary: n ys) (auto simp: list_all2_Cons1)
qed

lemma parse_grant_declares:
  assumes "parse_grant (i, d) = Inr gs"
  shows "gd_role d \<noteq> [] \<and> gd_relation d \<noteq> [] \<and> gd_actions d \<noteq> []"
    and "a \<in> set (gd_actions d) \<Longrightarrow> validActions (to_lower (trim_space a)) \<noteq> None"
    and "(\<exists>g \<in> set gs. grant_for k g) \<longleftrightarrow> declares d k"
    and "g \<in> set gs \<Longrightarrow> g_columns g = gd_columns d"
proof -
  from assms have all: "list_all2 (\<lambda>a g. \<exists>act. validActions (to_lower (trim_space a)) = Some act \<and>
      g = \<lparr>g_role = gd_role d, g_relation = gd_relation d, g_action = act, g_columns = gd_columns d\<rparr>) (gd_actions d) gs"
    by (auto simp: parse_grant_def mapr_Inr_conv split: if_split_asm option.split_asm elim!: list_all2_mono)
  show "gd_role d \<noteq> [] \<and> gd_relation d \<noteq> [] \<and> gd_actions d \<noteq> []"
    using assms by (auto simp: parse_grant_def split: if_split_asm)
  show "validActions (to_lower (trim_space a)) \<noteq> None" if "a \<in> set (gd_actions d)"
    using all that by (fastforce simp: list_all2_conv_all_nth in_set_conv_nth)
  show "g_columns g = gd_columns d" if "g \<in> set gs"
    using all that by (fastforce simp: list_all2_conv_all_nth in_set_conv_nth)
  show "(\<exists>g \<in> set gs. grant_for k g) \<longleftrightarrow> declares d k"
  proof
    assume "\<exists>g \<in> set gs. grant_for k g"
    with all show "declares d k"
      by (fastforce simp: list_all2_conv_all_nth in_set_conv_nth grant_for_def declares_def)
  next
    assume "declares d k"
    then obtain a act where a: "a \<in> set (gd_actions d)" "validActions (to_lower (trim_space a)) = Some act"
      and k: "k = (gd_role d, gd_relation d, act)" by (auto simp: declares_def)
    from all a obtain g where "g \<in> set gs" "g = \<lparr>g_role = gd_role d, g_relation = gd_relation d, g_action = act, g_columns = gd_columns d\<rparr>"
      by (fastforce simp: list_all2_conv_all_nth in_set_conv_nth)
    then show "\<exists>g \<in> set gs. grant_for k g" using k by (intro bexI [of _ g]) (simp_all add: grant_for_def)
  qed
qed

lemma list_all2_concat_ex:
  "list_all2 R xs yss \<Longrightarrow> (\<And>x ys. x \<in> set xs \<Longrightarrow> R x ys \<Longrightarrow> (\<exists>y \<in> set ys. P y) \<longleftrightarrow> Q x) \<Longrightarrow>
   (\<exists>y \<in> set (concat yss). P y) \<longleftrightarrow> (\<exists>x \<in> set xs. Q x)"
proof (induction rule: list_all2_induct)
  case (Cons x xs ys yss)
  have "(\<exists>y \<in> set (concat yss). P y) \<longleftrightarrow> (\<exists>x \<in> set xs. Q x)" using Cons by simp
  moreover have "(\<exists>y \<in> set ys. P y) \<longleftrightarrow> Q x" using Cons by simp
  ultimately show ?case by (simp only: concat.simps set_append bex_Un list.set bex_simps)
qed simp

lemma parse_grants_declare:
  assumes "mapr parse_grant (List.enumerate 0 ds) = Inr gss"
  shows "list_ex (grant_for k) (concat gss) \<longleftrightarrow> (\<exists>d \<in> set ds. declares d k)"
    and "may_use (concat gss) k c \<longleftrightarrow> (\<exists>d \<in> set ds. declares d k \<and> (gd_columns d = [] \<or> c \<in> set (gd_columns d)))"
proof -
  have all: "list_all2 (\<lambda>d gs. \<exists>i. parse_grant (i, d) = Inr gs) ds gss" using enumerate_mapr [OF assms] .
  show "list_ex (grant_for k) (concat gss) \<longleftrightarrow> (\<exists>d \<in> set ds. declares d k)"
    unfolding list_ex_iff
  proof (rule list_all2_concat_ex [OF all])
    fix d gs assume "d \<in> set ds" "\<exists>i. parse_grant (i, d) = Inr gs"
    then show "(\<exists>g \<in> set gs. grant_for k g) \<longleftrightarrow> declares d k" using parse_grant_declares(3) by blast
  qed
  show "may_use (concat gss) k c \<longleftrightarrow> (\<exists>d \<in> set ds. declares d k \<and> (gd_columns d = [] \<or> c \<in> set (gd_columns d)))"
    unfolding may_use_def
  proof (rule list_all2_concat_ex [OF all])
    fix d gs assume "d \<in> set ds" "\<exists>i. parse_grant (i, d) = Inr gs"
    then obtain i where i: "parse_grant (i, d) = Inr gs" by blast
    show "(\<exists>g \<in> set gs. grant_for k g \<and> (g_columns g = [] \<or> c \<in> set (g_columns g))) \<longleftrightarrow>
        declares d k \<and> (gd_columns d = [] \<or> c \<in> set (gd_columns d))"
      using parse_grant_declares(3) [OF i, of k] parse_grant_declares(4) [OF i] by auto
  qed
qed

lemma ParseRegistry_InrE:
  assumes "ParseRegistry decode raw = Inr r"
  obtains doc gss ps where "decode raw = Inr (doc, False)"
    "mapr parse_grant (List.enumerate 0 (rd_grants doc)) = Inr gss"
    "mapr parse_policy (List.enumerate 0 (rd_policies doc)) = Inr ps" "r = NewRegistry (concat gss) ps"
  using assms by (auto simp: ParseRegistry_def bindr_Inr_conv split: sum.split_asm if_split_asm)

lemma parse_policy_Inr:
  "parse_policy (i, d) = Inr p \<Longrightarrow> p_role p = pd_role d \<and> p_relation p = pd_relation d \<and>
     parsePredicate (pd_using d) = Inr (p_using p) \<and> parsePredicate (pd_with_check d) = Inr (p_with_check p)"
  by (cases "parsePredicate (pd_using d)"; cases "parsePredicate (pd_with_check d)")
    (auto simp: parse_policy_def Let_def split: if_split_asm)

lemma parse_policies_terms:
  assumes "mapr parse_policy (List.enumerate 0 ds) = Inr ps" and "d \<in> set ds"
  obtains p where "p \<in> set ps" "policy_for (pd_role d, pd_relation d) p"
    "parsePredicate (pd_using d) = Inr (p_using p)" "parsePredicate (pd_with_check d) = Inr (p_with_check p)"
proof -
  from enumerate_mapr [OF assms(1)] assms(2) obtain p i where "p \<in> set ps" "parse_policy (i, d) = Inr p"
    by (fastforce simp: list_all2_conv_all_nth in_set_conv_nth)
  then show thesis using that parse_policy_Inr [of i d p] by (simp add: policy_for_def)
qed

subsection \<open>The predicate syntax round trips\<close>

text \<open>A predicate written in the declaration syntax, and the terms the syntax can carry.\<close>

definition rhs_text :: "pol_term \<Rightarrow> string" where
  "rhs_text t =
     (if t_claim t \<noteq> [] then ''request.jwt.claims.'' @ t_claim t
      else case t_literal t of LString s \<Rightarrow> sq s | LBool b \<Rightarrow> (if b then ''true'' else ''false'') | LNumber n \<Rightarrow> n)"

definition op_text :: "pol_op \<Rightarrow> string" where
  "op_text op = (case op of OpEq \<Rightarrow> ''='' | OpNeq \<Rightarrow> ''!='')"

definition term_text :: "pol_term \<Rightarrow> string" where
  "term_text t = t_column t @ '' '' @ op_text (t_op t) @ '' '' @ rhs_text t"

definition predicate_text :: "predicate \<Rightarrow> string" where
  "predicate_text ts = join '' and '' (map term_text ts)"

definition plain_word :: "string \<Rightarrow> bool" where
  "plain_word w \<longleftrightarrow> w \<noteq> [] \<and> list_all graphic w \<and> CHR 0x27 \<notin> set w \<and> map lower_char w \<noteq> ''and''"

definition literal_ok :: "literal \<Rightarrow> bool" where
  "literal_ok l =
     (case l of
        LString s \<Rightarrow> CHR 0x27 \<notin> set s
      | LBool b \<Rightarrow> True
      | LNumber n \<Rightarrow> plain_word n \<and> hd n \<in> set ''0123456789+-.'' \<and> parse_float_ok n)"

definition term_ok :: "pol_term \<Rightarrow> bool" where
  "term_ok t \<longleftrightarrow> isIdent (t_column t) \<and> plain_word (t_column t) \<and>
     (if t_claim t = [] then literal_ok (t_literal t)
      else t_literal t = LString [] \<and> list_all graphic (t_claim t) \<and> CHR 0x27 \<notin> set (t_claim t)) \<and>
     (t_op t = OpEq \<longrightarrow> index_str (rhs_text t) ''!='' = None)"

definition starts_blank :: "string \<Rightarrow> bool" where
  "starts_blank s = (case s of [] \<Rightarrow> True | c # _ \<Rightarrow> blank c)"

definition after_blank :: "char option \<Rightarrow> bool" where
  "after_blank prev = (case prev of None \<Rightarrow> True | Some c \<Rightarrow> blank c)"

lemma blank_not: "blank c \<Longrightarrow> \<not> graphic c" "blank c \<Longrightarrow> c \<noteq> CHR 0x27" "blank c \<Longrightarrow> \<not> isIdentChar c"
  by (auto simp: blank_def graphic_def isIdentChar_def less_eq_char_def)

lemma graphic_ascii: "graphic c \<Longrightarrow> c \<noteq> CHR 0xC4 \<and> c \<noteq> CHR 0xE2"
  by (auto simp: graphic_def less_eq_char_def)

lemma to_lower_graphic: "graphic c \<Longrightarrow> to_lower (c # s) = lower_char c # to_lower s"
  by (subst to_lower.simps(2)) (auto simp: graphic_ascii simp del: to_lower.simps(2) split: list.split)

lemma to_lower_blank: "blank c \<Longrightarrow> to_lower (c # s) = c # to_lower s"
  by (subst to_lower.simps(2)) (auto simp: blank_def lower_char_def less_eq_char_def simp del: to_lower.simps(2) split: list.split)

lemma word_not_and:
  assumes "plain_word w" "starts_blank rest"
  shows "\<not> hasWordAt prev (w @ rest) ''and''"
proof
  assume "hasWordAt prev (w @ rest) ''and''"
  then have p: "has_prefix (to_lower (w @ rest)) ''and''" and d: "starts_blank (drop 3 (w @ rest))"
    by (auto simp: hasWordAt_def starts_blank_def numeral_3_eq_3)
  obtain a w1 where w: "w = a # w1" "graphic a" using assms(1) by (cases w) (auto simp: plain_word_def)
  have rest: "rest = [] \<or> (\<exists>c r. rest = c # r \<and> blank c)"
    using assms(2) by (cases rest) (auto simp: starts_blank_def)
  show False
  proof (cases w1)
    case Nil
    with p w rest show False by (auto simp: to_lower_graphic to_lower_blank has_prefix_def blank_def simp del: to_lower.simps(2))
  next
    case (Cons b w2)
    then have gb: "graphic b" using assms(1) w by (simp add: plain_word_def)
    show False
    proof (cases w2)
      case Nil
      with p w rest Cons gb show False
        by (auto simp: to_lower_graphic to_lower_blank has_prefix_def blank_def simp del: to_lower.simps(2))
    next
      case (Cons c w3)
      with \<open>w1 = b # w2\<close> have gc: "graphic c" "list_all graphic w3" using assms(1) w by (simp_all add: plain_word_def)
      have low: "lower_char a = CHR ''a''" "lower_char b = CHR ''n''" "lower_char c = CHR ''d''"
        using p w \<open>w1 = b # w2\<close> Cons gb gc
        by (simp_all add: to_lower_graphic has_prefix_def del: to_lower.simps(2))
      moreover have "w3 = []"
        using d w \<open>w1 = b # w2\<close> Cons gc(2) blank_not(1)
        by (cases w3) (auto simp: starts_blank_def)
      ultimately show False using assms(1) w \<open>w1 = b # w2\<close> Cons by (simp add: plain_word_def)
    qed
  qed
qed

lemma split_and_inside:
  assumes "list_all graphic w" "CHR 0x27 \<notin> set w" "graphic p"
  shows "split_and (Some p) False cur (w @ rest) = split_and (Some (last (p # w))) False (cur @ w) rest"
  using assms
proof (induction w arbitrary: cur p)
  case (Cons c w)
  have "\<not> hasWordAt (Some p) ((c # w) @ rest) ''and''" using Cons.prems(3) by (auto simp: hasWordAt_def blank_not)
  with Cons.prems Cons.IH [of c "cur @ [c]"] show ?case by auto
qed simp

lemma split_and_word:
  assumes "plain_word w" "starts_blank rest" "after_blank prev"
  shows "split_and prev False cur (w @ rest) = split_and (Some (last w)) False (cur @ w) rest"
proof -
  obtain c v where w: "w = c # v" "graphic c" "c \<noteq> CHR 0x27" "list_all graphic v" "CHR 0x27 \<notin> set v"
    using assms(1) by (cases w) (auto simp: plain_word_def)
  have "\<not> hasWordAt prev (c # v @ rest) ''and''" using word_not_and [OF assms(1,2)] w by simp
  then have "split_and prev False cur (w @ rest) = split_and (Some c) False (cur @ [c]) (v @ rest)"
    using w by simp
  then show ?thesis using split_and_inside [OF w(4,5,2)] w by simp
qed

lemma split_and_space:
  "split_and prev False cur (CHR '' '' # rest) = split_and (Some CHR '' '') False (cur @ '' '') rest"
  by (simp add: hasWordAt_def to_lower_blank blank_def has_prefix_def del: to_lower.simps(2))

lemma split_and_quoted:
  "CHR 0x27 \<notin> set s \<Longrightarrow> split_and prev True cur (s @ CHR 0x27 # rest) = split_and (Some CHR 0x27) False (cur @ s @ [CHR 0x27]) rest"
proof (induction s arbitrary: prev cur)
  case Nil
  have "\<not> hasWordAt prev (CHR 0x27 # rest) ''and''"
    using to_lower_graphic [of "CHR 0x27" rest]
    by (auto simp: hasWordAt_def has_prefix_def lower_char_def graphic_def less_eq_char_def)
  then show ?case by simp
qed auto

lemma split_and_and:
  assumes "starts_blank rest"
  shows "split_and (Some CHR '' '') False cur (''and'' @ rest) = cur # split_and (Some CHR ''d'') False [] rest"
proof -
  have "hasWordAt (Some CHR '' '') (''and'' @ rest) ''and''"
    using assms
    by (auto simp: hasWordAt_def blank_def starts_blank_def to_lower_graphic graphic_def less_eq_char_def lower_char_def
        has_prefix_def simp del: to_lower.simps(2) split: list.splits)
  then show ?thesis by (simp add: inWord_def isIdentChar_def less_eq_char_def)
qed


text \<open>The last byte of a term is printing, and a term is not blank.\<close>

lemma rhs_plain: "term_ok t \<Longrightarrow> t_claim t \<noteq> [] \<Longrightarrow> plain_word (rhs_text t)"
  by (auto simp: term_ok_def rhs_text_def plain_word_def graphic_def less_eq_char_def)

lemma rhs_plain_literal:
  "term_ok t \<Longrightarrow> t_claim t = [] \<Longrightarrow> (\<nexists>s. t_literal t = LString s) \<Longrightarrow> plain_word (rhs_text t)"
  by (cases "t_literal t")
    (auto simp: term_ok_def literal_ok_def rhs_text_def plain_word_def graphic_def less_eq_char_def lower_char_def)

lemma split_and_rhs:
  assumes "term_ok t" "starts_blank rest" "after_blank prev"
  shows "\<exists>p. split_and prev False cur (rhs_text t @ rest) = split_and (Some p) False (cur @ rhs_text t) rest"
proof (cases "t_claim t = [] \<and> (\<exists>s. t_literal t = LString s)")
  case True
  then obtain s where s: "rhs_text t = sq s" "CHR 0x27 \<notin> set s"
    using assms(1) by (auto simp: rhs_text_def term_ok_def literal_ok_def)
  have "split_and prev False cur (sq s @ rest) = split_and (Some CHR 0x27) True (cur @ [CHR 0x27]) (s @ CHR 0x27 # rest)"
    by (simp add: sq_def)
  also have "\<dots> = split_and (Some CHR 0x27) False (cur @ sq s) rest"
    using split_and_quoted [OF s(2)] by (simp add: sq_def)
  finally show ?thesis by (auto simp: s(1))
next
  case False
  then have "plain_word (rhs_text t)" using assms(1) rhs_plain rhs_plain_literal by blast
  then show ?thesis using split_and_word assms(2,3) by blast
qed

lemma op_plain: "plain_word (op_text op)"
  by (cases op) (simp_all add: op_text_def plain_word_def graphic_def less_eq_char_def)

lemma split_and_term:
  assumes "term_ok t" "starts_blank rest" "after_blank prev"
  shows "\<exists>p. split_and prev False cur (term_text t @ rest) = split_and (Some p) False (cur @ term_text t) rest"
proof -
  let ?r = "rhs_text t @ rest"
  have col: "plain_word (t_column t)" using assms(1) by (simp add: term_ok_def)
  have sp: "starts_blank (CHR '' '' # u)" "after_blank (Some CHR '' '')" for u
    by (simp_all add: starts_blank_def after_blank_def blank_def)
  have "split_and prev False cur (term_text t @ rest) =
      split_and (Some (last (t_column t))) False (cur @ t_column t) (CHR '' '' # op_text (t_op t) @ CHR '' '' # ?r)"
    using split_and_word [OF col sp(1) assms(3)] by (simp add: term_text_def)
  also have "\<dots> = split_and (Some (last (op_text (t_op t)))) False (cur @ t_column t @ '' '' @ op_text (t_op t)) (CHR '' '' # ?r)"
    using split_and_word [OF op_plain sp] by (simp only: split_and_space append.assoc)
  also have "\<dots> = split_and (Some CHR '' '') False (cur @ t_column t @ '' '' @ op_text (t_op t) @ '' '') ?r"
    by (simp only: split_and_space append.assoc)
  finally have eq: "split_and prev False cur (term_text t @ rest) =
      split_and (Some CHR '' '') False (cur @ t_column t @ '' '' @ op_text (t_op t) @ '' '') ?r" .
  show ?thesis
    unfolding eq using split_and_rhs [OF assms(1,2) sp(2), of "cur @ t_column t @ '' '' @ op_text (t_op t) @ '' ''"]
    by (simp add: term_text_def)
qed

subsubsection \<open>One term\<close>

definition pad :: "string \<Rightarrow> bool" where
  "pad s \<longleftrightarrow> s = [] \<or> s = '' ''"

lemma space_one: "lead_space (CHR '' '' # s) = 1" "trail_space (CHR '' '' # s) = 1"
  by (auto simp: lead_space_def trail_space_def ascii_space_def split: list.split)

lemma trim_space_pad:
  assumes "pad a" "pad b" "s \<noteq> []" "graphic (hd s)" "graphic (last s)"
  shows "trim_space (a @ s @ b) = s"
proof -
  obtain c t where ct: "s = c # t" "graphic c" using assms(3,4) by (cases s) auto
  obtain u d where ud: "s = u @ [d]" "graphic d" using assms(3,5) by (cases s rule: rev_cases) auto
  have l0: "drop_while_len lead_space (s @ b) = s @ b" using ct by (simp add: lead_space_graphic)
  have l1: "drop_while_len lead_space (CHR '' '' # s @ b) = s @ b"
    using l0 by (simp add: space_one)
  have lead: "drop_while_len lead_space (a @ s @ b) = s @ b" using assms(1) l0 l1 by (auto simp: pad_def)
  have t0: "drop_while_len trail_space (rev s) = rev s" using ud by (simp add: trail_space_graphic)
  have t1: "drop_while_len trail_space (CHR '' '' # rev s) = rev s"
    using t0 by (simp add: space_one)
  have "drop_while_len trail_space (rev (s @ b)) = rev s" using assms(2) t0 t1 by (auto simp: pad_def)
  with lead show ?thesis by (simp add: trim_space_def)
qed

lemma index_str_skip:
  "c \<notin> set a \<Longrightarrow> index_str (a @ s) (c # p) = map_option ((+) (length a)) (index_str s (c # p))"
proof (induction a)
  case (Cons x a)
  then show ?case by (cases "index_str s (c # p)") (auto simp: has_prefix_def)
qed (cases "index_str s (c # p)", auto)

lemma ident_char_not: "isIdentChar c \<Longrightarrow> c \<noteq> CHR ''!'' \<and> c \<noteq> CHR ''='' \<and> graphic c"
  by (auto simp: isIdentChar_def graphic_def less_eq_char_def)

lemma split_operator_term:
  assumes "term_ok t"
  shows "split_operator (term_text t) = Some (t_op t, t_column t @ '' '', '' '' @ rhs_text t)"
proof -
  have "list_all isIdentChar (t_column t)" using assms by (simp add: term_ok_def isIdent_def)
  then have c: "CHR ''!'' \<notin> set (t_column t @ '' '')" "CHR ''='' \<notin> set (t_column t @ '' '')"
    using ident_char_not by (auto simp: list_all_iff)
  show ?thesis
  proof (cases "t_op t")
    case OpNeq
    then have "term_text t = (t_column t @ '' '') @ ''!='' @ '' '' @ rhs_text t" by (simp add: term_text_def op_text_def)
    moreover have "index_str (''!='' @ '' '' @ rhs_text t) ''!='' = Some 0" by (simp add: has_prefix_def)
    ultimately show ?thesis using OpNeq index_str_skip [OF c(1), of "''!='' @ '' '' @ rhs_text t" "''=''"]
      by (simp add: split_operator_def)
  next
    case OpEq
    then have s: "term_text t = (t_column t @ '' '') @ ''='' @ '' '' @ rhs_text t" by (simp add: term_text_def op_text_def)
    have "index_str (''='' @ '' '' @ rhs_text t) ''!='' = None"
      using assms OpEq by (simp add: term_ok_def has_prefix_def)
    then have "index_str (term_text t) ''!='' = None" using index_str_skip [OF c(1), of "''='' @ '' '' @ rhs_text t" "''=''"] s by simp
    moreover have "index_str (''='' @ '' '' @ rhs_text t) ''='' = Some 0" by (simp add: has_prefix_def)
    ultimately show ?thesis using OpEq s index_str_skip [OF c(2), of "''='' @ '' '' @ rhs_text t" "[]"]
      by (simp add: split_operator_def)
  qed
qed

lemma rhs_ends: "term_ok t \<Longrightarrow> rhs_text t \<noteq> [] \<and> graphic (hd (rhs_text t)) \<and> graphic (last (rhs_text t))"
proof (cases "t_claim t = [] \<and> (\<exists>s. t_literal t = LString s)")
  case True
  then show ?thesis by (auto simp: rhs_text_def sq_def graphic_def less_eq_char_def)
next
  case False
  assume "term_ok t"
  with False have "plain_word (rhs_text t)" using rhs_plain rhs_plain_literal by blast
  then show ?thesis by (simp add: plain_word_def list_all_iff)
qed


lemma claim_text: "isClaimRef (''request.jwt.claims.'' @ p)" "claimPath (''request.jwt.claims.'' @ p) = p"
  by (simp_all add: isClaimRef_def claimPath_def claimPrefixes_def has_prefix_def)

lemma not_claim: "hd v \<noteq> CHR ''r'' \<Longrightarrow> v \<noteq> [] \<Longrightarrow> \<not> isClaimRef v"
  by (cases v) (auto simp: isClaimRef_def claimPrefixes_def has_prefix_def)

lemma parse_rhs_term:
  assumes "term_ok t"
  shows "parse_rhs s (t_column t) (t_op t) (rhs_text t) = Inr t"
proof (cases "t_claim t = []")
  case False
  then have "rhs_text t = ''request.jwt.claims.'' @ t_claim t" "t_literal t = LString []"
    using assms by (simp_all add: rhs_text_def term_ok_def)
  then show ?thesis using False by (simp add: parse_rhs_def claim_text del: append_Cons)
next
  case True
  show ?thesis
  proof (cases "t_literal t")
    case (LString l)
    then have "rhs_text t = sq l" using True by (simp add: rhs_text_def)
    then show ?thesis using True LString by (simp add: parse_rhs_def not_claim sq_def)
  next
    case (LBool b)
    then show ?thesis using True by (cases b) (simp_all add: rhs_text_def parse_rhs_def not_claim)
  next
    case (LNumber n)
    then have n: "rhs_text t = n" "plain_word n" "hd n \<in> set ''0123456789+-.''" "parse_float_ok n"
      using assms True by (simp_all add: rhs_text_def term_ok_def literal_ok_def)
    have "n \<noteq> []" "hd n \<noteq> CHR ''r''" "hd n \<noteq> CHR 0x27" "hd n \<noteq> CHR ''t''" "hd n \<noteq> CHR ''f''"
      using n(2,3) by (auto simp: plain_word_def)
    then show ?thesis using n True LNumber by (auto simp: parse_rhs_def not_claim)
  qed
qed

lemma column_ends: "term_ok t \<Longrightarrow> t_column t \<noteq> [] \<and> graphic (hd (t_column t)) \<and> graphic (last (t_column t))"
  by (simp add: term_ok_def plain_word_def list_all_iff)

lemma parseTerm_text:
  assumes "term_ok t" "pad a" "pad b"
  shows "parseTerm (a @ term_text t @ b) = Inr t"
proof -
  note ce = column_ends [OF assms(1)] and re = rhs_ends [OF assms(1)]
  have "graphic (hd (term_text t))" "graphic (last (term_text t))" "term_text t \<noteq> []"
    using ce re by (simp_all add: term_text_def)
  then have s: "trim_space (a @ term_text t @ b) = term_text t" using trim_space_pad assms(2,3) by blast
  have c: "trim_space (t_column t @ '' '') = t_column t"
    using trim_space_pad [of "[]" "'' ''" "t_column t"] ce by (simp add: pad_def)
  have r: "trim_space ('' '' @ rhs_text t) = rhs_text t"
    using trim_space_pad [of "'' ''" "[]" "rhs_text t"] re by (simp add: pad_def)
  have "isIdent (t_column t)" using assms(1) by (simp add: term_ok_def)
  then show ?thesis
    using ce \<open>term_text t \<noteq> []\<close>
    by (simp add: parseTerm_def s split_operator_term [OF assms(1)] c r [simplified] parse_rhs_term [OF assms(1)] Let_def)
qed

lemma predicate_ends:
  "ts \<noteq> [] \<Longrightarrow> list_all term_ok ts \<Longrightarrow>
   predicate_text ts \<noteq> [] \<and> graphic (hd (predicate_text ts)) \<and> graphic (last (predicate_text ts))"
proof (induction ts)
  case (Cons t ts)
  then have "graphic (hd (term_text t))" "graphic (last (term_text t))" "term_text t \<noteq> []"
    using column_ends [of t] rhs_ends [of t] by (simp_all add: term_text_def)
  moreover have "predicate_text (t # ts) = term_text t @ (if ts = [] then [] else '' and '' @ predicate_text ts)"
    by (cases ts) (simp_all add: predicate_text_def)
  ultimately show ?case using Cons by auto
qed simp

lemma split_and_predicate:
  assumes "ts \<noteq> []" "list_all term_ok ts" "pad cur" "after_blank prev"
  shows "mapr parseTerm (split_and prev False cur (predicate_text ts)) = Inr ts"
  using assms
proof (induction ts arbitrary: cur prev)
  case (Cons t ts)
  note IH = Cons.IH and prems = Cons.prems
  show ?case
  proof (cases ts)
    case Nil
    obtain p where "split_and prev False cur (term_text t @ []) = split_and (Some p) False (cur @ term_text t) []"
      using split_and_term [of t "[]" prev cur] prems by (auto simp: starts_blank_def)
    then show ?thesis
      using Nil prems parseTerm_text [of t cur "[]"] by (simp add: predicate_text_def pad_def)
  next
    case (Cons u us)
    let ?rest = "predicate_text ts"
    have whole: "predicate_text (t # ts) = term_text t @ CHR '' '' # ''and'' @ CHR '' '' # ?rest"
      using Cons by (simp add: predicate_text_def)
    obtain p where "split_and prev False cur (term_text t @ CHR '' '' # ''and'' @ CHR '' '' # ?rest) =
        split_and (Some p) False (cur @ term_text t) (CHR '' '' # ''and'' @ CHR '' '' # ?rest)"
      using split_and_term [of t "CHR '' '' # ''and'' @ CHR '' '' # ?rest" prev cur] prems
      by (auto simp: starts_blank_def blank_def)
    also have "\<dots> = (cur @ term_text t @ '' '') # split_and (Some CHR ''d'') False [] (CHR '' '' # ?rest)"
      using split_and_and [of "CHR '' '' # ?rest"] by (simp only: split_and_space) (simp add: starts_blank_def blank_def)
    also have "\<dots> = (cur @ term_text t @ '' '') # split_and (Some CHR '' '') False '' '' ?rest"
      by (simp only: split_and_space append_Nil)
    finally have "split_and prev False cur (predicate_text (t # ts)) =
        (cur @ term_text t @ '' '') # split_and (Some CHR '' '') False '' '' ?rest" using whole by simp
    moreover have "mapr parseTerm (split_and (Some CHR '' '') False '' '' ?rest) = Inr ts"
      using prems Cons by (intro IH) (auto simp: pad_def after_blank_def blank_def)
    moreover have "parseTerm (cur @ term_text t @ '' '') = Inr t"
      using prems by (intro parseTerm_text) (simp_all add: pad_def)
    ultimately show ?thesis by simp
  qed
qed simp

lemma parsePredicate_roundtrip:
  assumes "list_all term_ok ts"
  shows "parsePredicate (predicate_text ts) = Inr ts"
proof (cases ts)
  case Nil
  then show ?thesis by (simp add: parsePredicate_def predicate_text_def)
next
  case (Cons t us)
  have "trim_space (predicate_text ts) \<noteq> []"
    using trim_space_pad [of "[]" "[]" "predicate_text ts"] predicate_ends [of ts] Cons assms by (simp add: pad_def)
  then show ?thesis
    using split_and_predicate [of ts "[]" None] Cons assms
    by (simp add: parsePredicate_def splitAnd_def pad_def after_blank_def)
qed

subsection \<open>Properties\<close>

text \<open>
  C21. Parsing the registry fails closed. When a declaration parses, the registry grants a role an
  action on a relation exactly when some declared grant lists that action, the columns it may use
  are exactly those the declarations give, and every declared policy contributes all the terms of
  its two predicates.
\<close>

theorem ParseRegistry_exact:
  assumes "ParseRegistry decode raw = Inr r" and "decode raw = Inr (doc, extra)"
  shows "(r_grants r k \<noteq> None \<longleftrightarrow> (\<exists>d \<in> set (rd_grants doc). declares d k)) \<and>
    (\<forall>g c. r_grants r k = Some g \<longrightarrow> (cs_all g \<or> c \<in> cs_cols g \<longleftrightarrow>
       (\<exists>d \<in> set (rd_grants doc). declares d k \<and> (gd_columns d = [] \<or> c \<in> set (gd_columns d))))) \<and>
    (\<forall>d \<in> set (rd_policies doc). \<exists>u c. parsePredicate (pd_using d) = Inr u \<and> parsePredicate (pd_with_check d) = Inr c \<and>
       set u \<subseteq> set (policy_terms r p_using (pd_role d, pd_relation d)) \<and>
       set c \<subseteq> set (policy_terms r p_with_check (pd_role d, pd_relation d)))"
proof -
  obtain gss ps where gss: "mapr parse_grant (List.enumerate 0 (rd_grants doc)) = Inr gss"
    and ps: "mapr parse_policy (List.enumerate 0 (rd_policies doc)) = Inr ps" and r: "r = NewRegistry (concat gss) ps"
    by (rule ParseRegistry_InrE [OF assms(1)]) (use assms(2) in auto)
  have pol: "\<exists>u c. parsePredicate (pd_using d) = Inr u \<and> parsePredicate (pd_with_check d) = Inr c \<and>
       set u \<subseteq> set (policy_terms r p_using (pd_role d, pd_relation d)) \<and>
       set c \<subseteq> set (policy_terms r p_with_check (pd_role d, pd_relation d))" if d: "d \<in> set (rd_policies doc)" for d
  proof -
    obtain p where "p \<in> set ps" "policy_for (pd_role d, pd_relation d) p"
      "parsePredicate (pd_using d) = Inr (p_using p)" "parsePredicate (pd_with_check d) = Inr (p_with_check p)"
      using parse_policies_terms [OF ps d] .
    then show ?thesis unfolding r registry_terms terms_for_set by auto
  qed
  have "r_grants r k \<noteq> None \<longleftrightarrow> (\<exists>d \<in> set (rd_grants doc). declares d k)"
    unfolding parse_grants_declare(1) [OF gss, symmetric] r registry_grants by simp
  moreover have "cs_all g \<or> c \<in> cs_cols g \<longleftrightarrow>
       (\<exists>d \<in> set (rd_grants doc). declares d k \<and> (gd_columns d = [] \<or> c \<in> set (gd_columns d)))"
    if "r_grants r k = Some g" for g c
    using registry_may_use [of "concat gss" ps k g c] that parse_grants_declare(2) [OF gss, of k c] unfolding r by simp
  ultimately show ?thesis using pol by blast
qed

definition demo_doc :: registry_decl where
  "demo_doc = \<lparr>rd_grants = [\<lparr>gd_role = ''web'', gd_relation = ''todos'', gd_actions = [''Select''], gd_columns = []\<rparr>],
     rd_policies = []\<rparr>"

theorem ParseRegistry_exact_witness:
  "\<exists>r. ParseRegistry (\<lambda>s. Inr (demo_doc, False)) [] = Inr r \<and> r_grants r (''web'', ''todos'', Select) \<noteq> None"
proof -
  have v: "validActions (to_lower (trim_space ''Select'')) = Some Select" by code_simp
  have "declares \<lparr>gd_role = ''web'', gd_relation = ''todos'', gd_actions = [''Select''], gd_columns = []\<rparr>
      (''web'', ''todos'', Select)"
    unfolding declares_def using v by simp
  moreover obtain r where "ParseRegistry (\<lambda>s. Inr (demo_doc, False)) [] = Inr r"
    using v by (simp add: ParseRegistry_def demo_doc_def parse_grant_def)
  ultimately show ?thesis
    using ParseRegistry_exact [of "\<lambda>s. Inr (demo_doc, False)" "[]" r demo_doc False "(''web'', ''todos'', Select)"]
    by (auto simp: demo_doc_def)
qed

text \<open>
  The predicate syntax round trips: a conjunction of terms written as \<open>column = rhs\<close> or
  \<open>column != rhs\<close> joined by \<open>and\<close> parses back to the same terms, for identifier columns other
  than the keyword, claim paths and numbers without blanks, and string literals without a single
  quote (and, in an equality, without an inequality sign).
\<close>

theorem parsePredicate_print:
  assumes "list_all term_ok ts"
  shows "parsePredicate (predicate_text ts) = Inr ts"
  using assms by (rule parsePredicate_roundtrip)

theorem parsePredicate_print_witness:
  "parsePredicate (predicate_text
     [\<lparr>t_column = ''tenant'', t_op = OpEq, t_claim = ''org.id'', t_literal = LString []\<rparr>,
      \<lparr>t_column = ''band'', t_op = OpNeq, t_claim = [], t_literal = LString ''rock and roll''\<rparr>]) =
   Inr [\<lparr>t_column = ''tenant'', t_op = OpEq, t_claim = ''org.id'', t_literal = LString []\<rparr>,
      \<lparr>t_column = ''band'', t_op = OpNeq, t_claim = [], t_literal = LString ''rock and roll''\<rparr>]"
proof (rule parsePredicate_print)
  show "list_all term_ok [\<lparr>t_column = ''tenant'', t_op = OpEq, t_claim = ''org.id'', t_literal = LString []\<rparr>,
      \<lparr>t_column = ''band'', t_op = OpNeq, t_claim = [], t_literal = LString ''rock and roll''\<rparr>]"
    by code_simp
qed

text \<open>
  The operator of a term is searched for in the whole term, quoted literal included: an
  equality with a literal that contains an inequality sign is refused, although the syntax allows
  any string between quotes.
\<close>

theorem parseTerm_operator_in_literal:
  "\<exists>e. parseTerm (''state = '' @ sq ''a!=b'') = Inl e"
proof -
  have "\<not> isl (parseTerm (''state = '' @ sq ''a!=b'')) = False" by code_simp
  then show ?thesis by (cases "parseTerm (''state = '' @ sq ''a!=b'')") auto
qed

end
