(* ===== verification/App.thy ===== *)
theory App
  imports Config_Facts Sqlite_Exec Authz_Parse
begin

section \<open>The command: boot, reloads and the admin server\<close>

text \<open>
  \<open>src/cmd/dbrest\<close> (\<open>main.go\<close>, \<open>reload.go\<close>, \<open>cli.go\<close>, \<open>logging.go\<close>), \<open>src/adminapi/adminapi.go\<close> and
  \<open>src/backend/driver.go\<close>. The process is the record \<open>app\<close>: the configuration, the schema model and the frontend
  in service, with its token cache. What the process reads is an argument: the sources of the
  configuration (\<open>os_env\<close> and the environment), the outcome of an introspection with its duration, the
  network (\<open>net_os\<close>), and \<open>app_env\<close>, the decoders of the two registries and the JWT library. The options pushed
  onto an open backend are the record \<open>engine_handle\<close>, with a flag for each optional interface it may
  implement. A reload holds the mutex from its first write on, so it is one step; a log line is an
  element of \<open>ap_log\<close>. The \<open>Server-Timing\<close> option is not modelled.
\<close>

subsection \<open>Drivers\<close>

record 'h driver =
  dr_Open :: "string \<Rightarrow> string + 'h"
  dr_OpenWithOptions :: "(string \<Rightarrow> bool option \<Rightarrow> string + 'h) option"

text \<open>\<open>Register\<close> panics on an empty or a taken name.\<close>

definition driver_Register :: "string \<Rightarrow> 'h driver \<Rightarrow> 'h driver go_map \<Rightarrow> 'h driver go_map option" where
  "driver_Register name d ds =
     (if name = [] then None else if aget ds name \<noteq> None then None else Some (aput name d ds))"

definition unknown_driver :: "string \<Rightarrow> string" where
  "unknown_driver name = ''backend: unknown driver '' @ go_quote name @ '' (forgotten import?)''"

definition driver_Open :: "'h driver go_map \<Rightarrow> string \<Rightarrow> string \<Rightarrow> string + 'h" where
  "driver_Open ds name dsn =
     (case aget ds name of None \<Rightarrow> Inl (unknown_driver name) | Some d \<Rightarrow> dr_Open d dsn)"

definition OpenWith :: "'h driver go_map \<Rightarrow> string \<Rightarrow> string \<Rightarrow> bool option \<Rightarrow> string + 'h" where
  "OpenWith ds name dsn prepared =
     (case aget ds name of
        None \<Rightarrow> Inl (unknown_driver name)
      | Some d \<Rightarrow> (case dr_OpenWithOptions d of Some f \<Rightarrow> f dsn prepared | None \<Rightarrow> dr_Open d dsn))"

definition Drivers :: "'h driver go_map \<Rightarrow> string list" where
  "Drivers ds = sort (keys_of ds)"

subsection \<open>The admin server\<close>

record metrics =
  mt_loads :: "int go_map"
  mt_lastLoad :: int
  mt_poolMax :: int

definition NewMetrics :: "int \<Rightarrow> metrics" where
  "NewMetrics poolMax = \<lparr>mt_loads = [], mt_lastLoad = 0, mt_poolMax = poolMax\<rparr>"

definition ObserveSchemaCacheLoad :: "int \<Rightarrow> bool \<Rightarrow> metrics \<Rightarrow> metrics" where
  "ObserveSchemaCacheLoad d failed_load m =
     (let status = (if failed_load then ''FAIL'' else ''SUCCESS'');
          n = (case aget (mt_loads m) status of Some k \<Rightarrow> k | None \<Rightarrow> 0);
          m' = m\<lparr>mt_loads := aput status (wrap_int64 (n + 1)) (mt_loads m)\<rparr> in
      if failed_load then m' else m'\<lparr>mt_lastLoad := d\<rparr>)"

text \<open>\<open>show_g\<close> is \<open>%g\<close> of the seconds of a duration.\<close>

definition metrics_Text :: "(int \<Rightarrow> string) \<Rightarrow> metrics \<Rightarrow> string" where
  "metrics_Text show_g m =
     (let nl = [CHR 0x0A] in
      ''# HELP pgrst_schema_cache_query_time_seconds The query time in seconds of the last schema cache load'' @ nl @
      ''# TYPE pgrst_schema_cache_query_time_seconds gauge'' @ nl @
      ''pgrst_schema_cache_query_time_seconds '' @ show_g (mt_lastLoad m) @ nl @
      ''# HELP pgrst_schema_cache_loads_total The total number of schema cache loads'' @ nl @
      ''# TYPE pgrst_schema_cache_loads_total counter'' @ nl @
      concat (map (\<lambda>status. ''pgrst_schema_cache_loads_total{status='' @ go_quote status @ ''} '' @
        show_int (case aget (mt_loads m) status of Some k \<Rightarrow> k | None \<Rightarrow> 0) @ nl) (sort (keys_of (mt_loads m)))) @
      ''# HELP pgrst_db_pool_max Max pool connections'' @ nl @
      ''# TYPE pgrst_db_pool_max gauge'' @ nl @
      ''pgrst_db_pool_max '' @ show_int (mt_poolMax m) @ nl)"

text \<open>
  A check that is not configured is \<open>None\<close>; \<open>Some ok\<close> is its outcome. A failing dump of the schema cache is
  \<open>Some None\<close>.
\<close>

record admin_server =
  ad_Live :: "bool option"
  ad_Ready :: "bool option"
  ad_SchemaCache :: "string option option"
  ad_Metrics :: "metrics option"

record admin_response =
  ar_status :: int
  ar_contentType :: string
  ar_body :: string

definition liveStatus :: "admin_server \<Rightarrow> int" where
  "liveStatus s = (if ad_Live s = Some False then 500 else 200)"

definition readyStatus :: "admin_server \<Rightarrow> int" where
  "readyStatus s =
     (if liveStatus s \<noteq> 200 then liveStatus s else if ad_Ready s = Some False then 503 else 200)"

definition schemaCacheJSON :: "admin_server \<Rightarrow> string option" where
  "schemaCacheJSON s = (case ad_SchemaCache s of None \<Rightarrow> Some [] | Some out \<Rightarrow> out)"

definition admin_ServeHTTP :: "(int \<Rightarrow> string) \<Rightarrow> admin_server \<Rightarrow> string \<Rightarrow> admin_response" where
  "admin_ServeHTTP show_g s path =
     (let status = (\<lambda>n. \<lparr>ar_status = n, ar_contentType = [], ar_body = []\<rparr>);
          p = trim_suffix path ''/'' in
      if p = ''/live'' then status (liveStatus s)
      else if p = ''/ready'' then status (readyStatus s)
      else if p = ''/schema_cache'' then
        (case schemaCacheJSON s of
           None \<Rightarrow> status 500
         | Some body \<Rightarrow> \<lparr>ar_status = 200, ar_contentType = ''application/json; charset=utf-8'', ar_body = body\<rparr>)
      else if p = ''/metrics'' then
        \<lparr>ar_status = 200, ar_contentType = ''text/plain; charset=utf-8'',
         ar_body = (case ad_Metrics s of Some m \<Rightarrow> metrics_Text show_g m | None \<Rightarrow> [])\<rparr>
      else status 404)"

subsection \<open>Flags, listeners and the request log\<close>

definition resolveConfigPath :: "string \<Rightarrow> string list \<Rightarrow> string + string" where
  "resolveConfigPath flagPath args =
     (if length args > 1 then Inl (''expected at most one config file argument, got '' @ show_nat (length args))
      else case args of
        [] \<Rightarrow> Inr flagPath
      | arg # _ \<Rightarrow>
          if flagPath \<noteq> [] \<and> flagPath \<noteq> arg
          then Inl (''config file given twice: -config '' @ flagPath @ '' and argument '' @ arg)
          else Inr arg)"

text \<open>The stamped version, commit and date, and the module version of the build information.\<close>

definition versionString :: "string \<Rightarrow> string option \<Rightarrow> string" where
  "versionString version build_info =
     (if version \<noteq> ''dev'' then version
      else case build_info of
        Some v \<Rightarrow> if v \<noteq> [] \<and> v \<noteq> ''(devel)'' then v else ''dev''
      | None \<Rightarrow> ''dev'')"

definition versionLine :: "string \<Rightarrow> string \<Rightarrow> string \<Rightarrow> string option \<Rightarrow> string" where
  "versionLine version cmt date build_info =
     ''dbrest '' @ versionString version build_info @
     (if cmt \<noteq> ''none'' \<or> date \<noteq> ''unknown'' then '' (commit '' @ cmt @ '', built '' @ date @ '')'' else [])"

definition shouldLog :: "string \<Rightarrow> int \<Rightarrow> bool" where
  "shouldLog level status =
     (if level = ''crit'' then False
      else if level = ''error'' then status \<ge> 500
      else if level = ''warn'' then status \<ge> 400
      else True)"

definition probeAddr :: "string \<Rightarrow> int \<Rightarrow> string" where
  "probeAddr host port =
     JoinHostPort
       (if host \<in> set [[], ''0.0.0.0'', ''*'', ''*4'', ''!4''] then ''127.0.0.1''
        else if host \<in> set [''::'', ''*6'', ''!6''] then ''::1''
        else host)
       (show_int port)"

text \<open>
  \<open>no_Remove\<close> answers an error with whether it says that the file does not exist; \<open>no_Get\<close> is the client's
  answer, an error or a status; \<open>no_octal_error\<close> is the text of \<open>ParseUint\<close>'s error.
\<close>

record 'l net_os =
  no_Listen :: "string \<Rightarrow> string \<Rightarrow> string + 'l"
  no_Remove :: "string \<Rightarrow> (string \<times> bool) option"
  no_Chmod :: "string \<Rightarrow> int \<Rightarrow> string option"
  no_Get :: "string \<Rightarrow> string + int"
  no_octal_error :: "string \<Rightarrow> string"

text \<open>No candidate leaves the first error, and no candidates at all leave neither listener nor error.\<close>

fun listenFirst :: "'l net_os \<Rightarrow> string option \<Rightarrow> listen_spec list \<Rightarrow> string option + 'l" where
  "listenFirst net firstErr [] = Inl firstErr"
| "listenFirst net firstErr (s # specs) =
     (case no_Listen net (ls_Network s) (ls_Addr s) of
        Inr lsn \<Rightarrow> Inr lsn
      | Inl e \<Rightarrow> listenFirst net (case firstErr of None \<Rightarrow> Some e | Some e0 \<Rightarrow> Some e0) specs)"

definition listenAPI :: "'l net_os \<Rightarrow> config \<Rightarrow> string option + 'l" where
  "listenAPI net cfg =
     (if cf_ServerUnixSocket cfg = [] then listenFirst net None (Listeners cfg)
      else case no_Remove net (cf_ServerUnixSocket cfg) of
        Some (e, False) \<Rightarrow> Inl (Some e)
      | _ \<Rightarrow>
          (case no_Listen net ''unix'' (cf_ServerUnixSocket cfg) of
             Inl e \<Rightarrow> Inl (Some e)
           | Inr lsn \<Rightarrow>
               (case parse_octal32 (cf_ServerUnixSocketMode cfg) of
                  None \<Rightarrow> Inl (Some (''server-unix-socket-mode: '' @ no_octal_error net (cf_ServerUnixSocketMode cfg)))
                | Some mode \<Rightarrow>
                    (case no_Chmod net (cf_ServerUnixSocket cfg) mode of Some e \<Rightarrow> Inl (Some e) | None \<Rightarrow> Inr lsn))))"

definition probeReady :: "'l net_os \<Rightarrow> config \<Rightarrow> string option" where
  "probeReady net cfg =
     (if \<not> AdminEnabled cfg then Some ''--ready needs admin-server-port to be configured''
      else let url = ''http://'' @ probeAddr (cf_AdminServerHost cfg) (cf_AdminServerPort cfg) @ ''/ready'' in
        case no_Get net url of
          Inl e \<Rightarrow> Some (''ready probe: '' @ e)
        | Inr status \<Rightarrow> if status \<noteq> 200 then Some (''ready probe: '' @ url @ '' answered '' @ show_int status) else None)"

subsection \<open>Opening the backend\<close>

record engine_handle =
  eh_has_schemas :: bool
  eh_has_searchPath :: bool
  eh_has_hoisted :: bool
  eh_has_db :: bool
  eh_has_registry :: bool
  eh_preRequest :: bool
  eh_schemas :: "string list"
  eh_searchPath :: "string list"
  eh_hoisted :: "string list"
  eh_pool :: "(int \<times> int \<times> int) option"
  eh_registry :: "static_registry option"

record app_env =
  ae_jwt :: jwt_lib
  ae_base64_error :: "string \<Rightarrow> string"
  ae_policies :: "string \<Rightarrow> string + registry_decl \<times> bool"
  ae_functions :: "string \<Rightarrow> string + fn_decl list"

definition applySchemaConfig :: "config \<Rightarrow> engine_handle \<Rightarrow> engine_handle" where
  "applySchemaConfig cfg be =
     (let be1 = (if eh_has_schemas be then be\<lparr>eh_schemas := cf_Schemas cfg\<rparr> else be);
          be2 = (if eh_has_searchPath be1 then be1\<lparr>eh_searchPath := cf_ExtraSearchPath cfg\<rparr> else be1) in
      if eh_has_hoisted be2 then be2\<lparr>eh_hoisted := cf_HoistedTxSettings cfg\<rparr> else be2)"

definition applyPoolConfig :: "config \<Rightarrow> engine_handle \<Rightarrow> engine_handle" where
  "applyPoolConfig cfg be =
     (if cf_Backend cfg = ''sqlite'' \<or> \<not> eh_has_db be then be
      else be\<lparr>eh_pool := Some (cf_DBPool cfg, cf_DBPoolMaxIdleTime cfg, cf_DBPoolMaxLifetime cfg)\<rparr>)"

definition openBackend :: "app_env \<Rightarrow> engine_handle driver go_map \<Rightarrow> config \<Rightarrow> string + engine_handle" where
  "openBackend env ds cfg =
     (case OpenWith ds (cf_Backend cfg) (cf_DBURI cfg) (Some (cf_DBPreparedStatements cfg)) of
        Inl e \<Rightarrow> Inl (''open database: '' @ e)
      | Inr be0 \<Rightarrow>
          (let be = applySchemaConfig cfg (applyPoolConfig cfg be0) in
           if cf_FunctionRegistry cfg = [] then Inr be
           else case rpc_ParseRegistry (ae_functions env) (cf_FunctionRegistry cfg) of
             Inl e \<Rightarrow> Inl (''function-registry: '' @ e)
           | Inr reg \<Rightarrow> Inr (if eh_has_registry be then be\<lparr>eh_registry := Some reg\<rparr> else be)))"

subsection \<open>Building the frontend\<close>

definition jwtSecretBytes :: "app_env \<Rightarrow> config \<Rightarrow> string + string" where
  "jwtSecretBytes env cfg =
     (if \<not> cf_JWTSecretIsBase64 cfg then Inr (cf_JWTSecret cfg)
      else case b64urlDecode (ae_jwt env) (trim_space (cf_JWTSecret cfg)) of
        Some b \<Rightarrow> Inr b
      | None \<Rightarrow> Inl (''jwt-secret-is-base64 is set but jwt-secret is not valid URL-safe base64: '' @
          ae_base64_error env (cf_JWTSecret cfg)))"

definition auth_config_of :: "config \<Rightarrow> string \<Rightarrow> auth_config" where
  "auth_config_of cfg secret =
     \<lparr>ac_AllowedAlgs = [], ac_Secret = secret, ac_JWKSet = cf_JWKSet cfg, ac_PublicKeyPEM = [], ac_Audience = cf_JWTAud cfg,
      ac_RoleClaimKey = cf_JWTRoleClaimKey cfg, ac_AnonRole = cf_AnonRole cfg, ac_PermittedRoles = [], ac_Skew = 0,
      ac_CacheMaxEntries = cf_JWTCacheMaxEntries cfg\<rparr>"

definition attachAuth :: "app_env \<Rightarrow> config \<Rightarrow> server \<Rightarrow> string + server \<times> claims jwt_cache option" where
  "attachAuth env cfg srv =
     bindr (jwtSecretBytes env cfg) (\<lambda>secret.
       case NewVerifier (ae_jwt env) (auth_config_of cfg secret) of
         Inl e \<Rightarrow> Inl (''jwt: '' @ e)
       | Inr (v, cache) \<Rightarrow> Inr (SetVerifier (Some v) srv, cache))"

definition attachPreRequest :: "bool \<Rightarrow> config \<Rightarrow> server \<Rightarrow> string + server" where
  "attachPreRequest supports cfg srv =
     (if cf_PreRequest cfg = [] then Inr srv
      else if supports then Inr (SetPreRequest (cf_PreRequest cfg) srv)
      else Inl (''db-pre-request: the '' @ cf_Backend cfg @ '' backend cannot run a pre-request function; unset the option''))"

definition attachAuthz :: "app_env \<Rightarrow> config \<Rightarrow> server \<Rightarrow> string + server" where
  "attachAuthz env cfg srv =
     (if cf_PolicyRegistry cfg = [] then Inr srv
      else if cf_Backend cfg = ''postgres'' then
        Inl ''policy-registry: the postgres backend enforces grants and RLS natively; manage them in the database and unset the option''
      else bindr (ParseRegistry (ae_policies env) (cf_PolicyRegistry cfg)) (\<lambda>reg. Inr (SetAuthz (Some reg) srv)))"

definition configured_server :: "config \<Rightarrow> model \<times> string go_map \<Rightarrow> server" where
  "configured_server cfg m =
     SetLogQuery (cf_LogQuery cfg) (SetAppSettings (cf_AppSettings cfg) (SetPreRequest (cf_PreRequest cfg)
     (SetAggregatesEnabled (cf_AggregatesEnabled cfg) (SetPlanEnabled (cf_PlanEnabled cfg) (SetTxEnd (cf_TxEnd cfg)
     (SetMaxRequestBody (cf_MaxRequestBody cfg) (SetMaxRows (cf_MaxRows cfg)
     (SetCORSAllowedOrigins (cf_CORSAllowedOrigins cfg) (SetRootSpec (cf_RootSpec cfg)
     (SetOpenAPI (cf_OpenAPIMode cfg) (cf_OpenAPIServerProxyURI cfg) (cf_OpenAPISecurityActive cfg)
     (SetDefaultRole (cf_AnonRole cfg) (NewServer (fst m) (snd m) (cf_Schemas cfg)))))))))))))"

definition build_frontend :: "app_env \<Rightarrow> bool \<Rightarrow> config \<Rightarrow> model \<times> string go_map \<Rightarrow> string + server \<times> claims jwt_cache option" where
  "build_frontend env supports cfg m =
     bindr (attachAuth env cfg (configured_server cfg m)) (\<lambda>(srv, cache).
     bindr (attachPreRequest supports cfg srv) (\<lambda>srv.
     bindr (attachAuthz env cfg srv) (\<lambda>srv. Inr (srv, cache))))"

subsection \<open>Reloads\<close>

record app =
  ap_cfgPath :: string
  ap_be :: engine_handle
  ap_metrics :: metrics
  ap_cfg :: config
  ap_model :: "model \<times> string go_map"
  ap_handler :: "(server \<times> claims jwt_cache option) option"
  ap_log :: "string list"

type_synonym introspection = "(string + model \<times> string go_map) \<times> int"

definition rebuildLocked :: "app_env \<Rightarrow> app \<Rightarrow> string option \<times> app" where
  "rebuildLocked env a =
     (case build_frontend env (eh_preRequest (ap_be a)) (ap_cfg a) (ap_model a) of
        Inl e \<Rightarrow> (Some e, a)
      | Inr srv \<Rightarrow> (None, a\<lparr>ap_handler := Some srv\<rparr>))"

definition reloadSchema :: "app_env \<Rightarrow> introspection \<Rightarrow> app \<Rightarrow> string option \<times> app" where
  "reloadSchema env intro a =
     (case fst intro of
        Inl e \<Rightarrow> (Some e, a\<lparr>ap_metrics := ObserveSchemaCacheLoad (snd intro) True (ap_metrics a)\<rparr>)
      | Inr m \<Rightarrow> rebuildLocked env
          (a\<lparr>ap_metrics := ObserveSchemaCacheLoad (snd intro) False (ap_metrics a), ap_model := m\<rparr>))"

record sources =
  so_os :: os_env
  so_visit :: "string \<Rightarrow> string go_map \<Rightarrow> string go_map"
  so_environ :: "string list"

definition load_from :: "sources \<Rightarrow> string \<Rightarrow> string + config" where
  "load_from src path = Load (so_os src) (so_visit src) path (so_environ src)"

definition reloadConfig :: "app_env \<Rightarrow> sources \<Rightarrow> app \<Rightarrow> string option \<times> app" where
  "reloadConfig env src a =
     (case load_from src (ap_cfgPath a) of
        Inl e \<Rightarrow> (Some e, a)
      | Inr nxt \<Rightarrow>
          (let (merged, kept) = MergeReloadable (ap_cfg a) nxt in
           rebuildLocked env
             (a\<lparr>ap_log := ap_log a @ map (\<lambda>msg. ''dbrest: reload: '' @ msg) kept @
                  map (\<lambda>w. ''dbrest: warning: '' @ w) (cf_Warnings merged),
                ap_cfg := merged, ap_be := applySchemaConfig merged (ap_be a)\<rparr>)))"

datatype reload_action = ReloadNone | ReloadSchema | ReloadConfig

definition dbNotifyAction :: "string \<Rightarrow> reload_action" where
  "dbNotifyAction payload =
     (if payload = [] \<or> payload = ''reload schema'' then ReloadSchema
      else if payload = ''reload config'' then ReloadConfig
      else ReloadNone)"

definition logged :: "string \<Rightarrow> app \<Rightarrow> app" where
  "logged msg a = a\<lparr>ap_log := ap_log a @ [msg]\<rparr>"

definition log_failure :: "string \<Rightarrow> string option \<times> app \<Rightarrow> app" where
  "log_failure what r = (case fst r of Some e \<Rightarrow> logged (what @ e) (snd r) | None \<Rightarrow> snd r)"

definition schema_reload :: "app_env \<Rightarrow> string \<Rightarrow> introspection \<Rightarrow> app \<Rightarrow> app" where
  "schema_reload env why intro a =
     log_failure ''dbrest: schema cache reload failed, keeping the old cache: '' (reloadSchema env intro (logged why a))"

definition config_reload :: "app_env \<Rightarrow> string \<Rightarrow> sources \<Rightarrow> app \<Rightarrow> app" where
  "config_reload env why src a =
     log_failure ''dbrest: config reload failed, keeping the old config: '' (reloadConfig env src (logged why a))"

definition handleDBNotify :: "app_env \<Rightarrow> string \<Rightarrow> introspection \<Rightarrow> sources \<Rightarrow> app \<Rightarrow> app" where
  "handleDBNotify env payload intro src a =
     (case dbNotifyAction payload of
        ReloadSchema \<Rightarrow> schema_reload env ''dbrest: db-channel notification, reloading the schema cache'' intro a
      | ReloadConfig \<Rightarrow> config_reload env ''dbrest: db-channel notification, reloading the configuration'' src a
      | ReloadNone \<Rightarrow> a)"

text \<open>What asks for a reload: the two signals, a notification, and the channel's reconnection.\<close>

datatype trigger = SIGUSR1 introspection | SIGUSR2 sources | Notify string introspection sources | Reconnect string introspection

definition on_trigger :: "app_env \<Rightarrow> trigger \<Rightarrow> app \<Rightarrow> app" where
  "on_trigger env t a =
     (case t of
        SIGUSR1 intro \<Rightarrow> schema_reload env ''dbrest: received SIGUSR1, reloading the schema cache'' intro a
      | SIGUSR2 src \<Rightarrow> config_reload env ''dbrest: received SIGUSR2, reloading the configuration'' src a
      | Notify payload intro src \<Rightarrow> handleDBNotify env payload intro src a
      | Reconnect channel intro \<Rightarrow>
          schema_reload env (''dbrest: db-channel '' @ go_quote channel @ '' reconnected, reloading the schema cache'') intro a)"

subsection \<open>The process\<close>

text \<open>\<open>run\<close> up to the listener: the nil model of the new \<open>app\<close> is replaced before anything is served.\<close>

definition start_app :: "app_env \<Rightarrow> config \<Rightarrow> engine_handle \<Rightarrow> string \<Rightarrow> introspection \<Rightarrow> model \<times> string go_map \<Rightarrow> string + app" where
  "start_app env cfg be path intro nil_model =
     (let (err, a) = reloadSchema env intro
            \<lparr>ap_cfgPath = path, ap_be = be, ap_metrics = NewMetrics (cf_DBPool cfg), ap_cfg = cfg, ap_model = nil_model,
             ap_handler = None, ap_log = map (\<lambda>w. ''dbrest: warning: '' @ w) (cf_Warnings cfg)\<rparr> in
      case err of Some e \<Rightarrow> Inl (''introspect: '' @ e) | None \<Rightarrow> Inr a)"

definition boot :: "app_env \<Rightarrow> engine_handle driver go_map \<Rightarrow> sources \<Rightarrow> string \<Rightarrow> introspection \<Rightarrow> model \<times> string go_map \<Rightarrow> string + app" where
  "boot env ds src path intro nil_model =
     bindr (load_from src path) (\<lambda>cfg.
     bindr (openBackend env ds cfg) (\<lambda>be. start_app env cfg be path intro nil_model))"

definition example_lines :: "string list" where
  "example_lines =
    [''## dbrest example configuration'',
     ''## Every option also reads from the environment as PGRST_<UPPER_SNAKE> or'',
     ''## DBREST_<UPPER_SNAKE>, with the DBREST_ spelling winning.'',
     [],
     ''## The engine behind the API: postgres, sqlite, mysql, sqlserver, or mongodb.'',
     ''db-backend = '' @ [dquote] @ ''sqlite'' @ [dquote],
     [],
     ''## The connection string, in the engine'' @ [CHR 0x27] @ ''s own syntax.'',
     ''db-uri = '' @ [dquote] @ ''file:dbrest.db'' @ [dquote],
     [],
     ''## The database schemas to expose, comma-separated. The first is the default.'',
     ''# db-schemas = '' @ [dquote] @ ''public'' @ [dquote],
     [],
     ''## The role used for requests that carry no JWT.'',
     ''# db-anon-role = '' @ [dquote] @ ''web_anon'' @ [dquote],
     [],
     ''## Hard cap on the rows a read or RPC response may return. Unset means no cap.'',
     ''# db-max-rows = 1000'',
     [],
     ''## How the request transaction ends: commit (default), commit-allow-override,'',
     ''## rollback, or rollback-allow-override.'',
     ''# db-tx-end = '' @ [dquote] @ ''commit'' @ [dquote],
     [],
     ''## Secret for validating JWTs (HS256). Longer than 32 characters.'',
     ''# jwt-secret = '' @ [dquote] @ ''reallyreallyreallyreallyverysafe'' @ [dquote],
     [],
     ''## Where the API listens. Besides a literal address, the host takes the'',
     ''## PostgREST special values: '' @ [dquote] @ ''*'' @ [dquote] @ '' (any host, either stack), '' @ [dquote] @ ''*4'' @ [dquote] @ ''/'' @ [dquote] @ ''*6'' @ [dquote],
     ''## (prefer one stack, fall back to the other), '' @ [dquote] @ ''!4'' @ [dquote] @ ''/'' @ [dquote] @ ''!6'' @ [dquote] @ '' (require it).'',
     ''# server-host = '' @ [dquote] @ ''!4'' @ [dquote],
     ''# server-port = 3000'',
     [],
     ''## The admin server with /live, /ready, /schema_cache, and /metrics.'',
     ''## Disabled until a port is set; it must differ from server-port.'',
     ''# admin-server-port = 3001'',
     [],
     ''## Connection pool sizing.'',
     ''# db-pool = 10'',
     [],
     ''## OpenAPI output: follow-privileges (default), ignore-privileges, disabled.'',
     ''# openapi-mode = '' @ [dquote] @ ''follow-privileges'' @ [dquote],
     [],
     ''## Logging: crit, error (default), warn, info, or debug.'',
     ''# log-level = '' @ [dquote] @ ''error'' @ [dquote],
     [],
     ''## CORS. Unset serves the permissive default; a comma-separated list'',
     ''## restricts the allowed origins.'',
     ''# server-cors-allowed-origins = '' @ [dquote] @ ''https://example.com'' @ [dquote],
     [],
     ''## Settings forwarded to the backend as transaction settings.'',
     ''# app.settings.tenant = '' @ [dquote] @ ''acme'' @ [dquote]]"

definition exampleConfig :: string where
  "exampleConfig = concat (map (\<lambda>l. l @ [CHR 0x0A]) example_lines)"

record flags =
  fl_config :: string
  fl_args :: "string list"
  fl_version :: bool
  fl_example :: bool
  fl_dumpConfig :: bool
  fl_dumpSchema :: bool
  fl_ready :: bool

text \<open>
  \<open>run\<close> prints and exits, fails, or serves: the application and its listener. \<open>show_schema\<close> is the indented JSON
  document of the relations.
\<close>

datatype 'l outcome = Printed string | Failed string | Serving app 'l

definition run_command :: "app_env \<Rightarrow> 'l net_os \<Rightarrow> engine_handle driver go_map \<Rightarrow> (model \<Rightarrow> string + string) \<Rightarrow> string \<Rightarrow>
    sources \<Rightarrow> introspection \<Rightarrow> model \<times> string go_map \<Rightarrow> flags \<Rightarrow> 'l outcome" where
  "run_command env net ds show_schema version_line src intro nil_model fl =
     (case resolveConfigPath (fl_config fl) (fl_args fl) of
        Inl e \<Rightarrow> Failed e
      | Inr path \<Rightarrow>
          if fl_version fl then Printed (version_line @ [CHR 0x0A])
          else if fl_example fl then Printed exampleConfig
          else case load_from src path of
            Inl e \<Rightarrow> Failed e
          | Inr cfg \<Rightarrow>
              if fl_dumpConfig fl then Printed (Dump cfg)
              else if fl_ready fl then (case probeReady net cfg of Some e \<Rightarrow> Failed e | None \<Rightarrow> Printed [])
              else case openBackend env ds cfg of
                Inl e \<Rightarrow> Failed e
              | Inr be \<Rightarrow>
                  if fl_dumpSchema fl then
                    (case fst intro of
                       Inl e \<Rightarrow> Failed (''introspect: '' @ e)
                     | Inr m \<Rightarrow> (case show_schema (fst m) of Inl e \<Rightarrow> Failed e | Inr out \<Rightarrow> Printed (out @ [CHR 0x0A])))
                  else case start_app env cfg be path intro nil_model of
                    Inl e \<Rightarrow> Failed e
                  | Inr a \<Rightarrow>
                      (case listenAPI net cfg of
                         Inr lsn \<Rightarrow> Serving a lsn
                       | Inl e \<Rightarrow> Failed (''listen on '' @
                           (if cf_ServerUnixSocket cfg \<noteq> [] then cf_ServerUnixSocket cfg else ServerAddr cfg) @ '': '' @
                           (case e of Some t \<Rightarrow> t | None \<Rightarrow> ''<nil>''))))"

inductive process ::
  "app_env \<Rightarrow> go_env \<Rightarrow> root_env \<Rightarrow> ('d, 'e) backend \<Rightarrow> app \<Rightarrow> app \<times> 'd \<Rightarrow> bool"
  for env ge re be a0 where
  booted: "process env ge re be a0 (a0, d)"
| triggered: "process env ge re be a0 (a, d) \<Longrightarrow> process env ge re be a0 (on_trigger env t a, d)"
| requested: "process env ge re be a0 (a, d) \<Longrightarrow> ap_handler a = Some (srv, cache) \<Longrightarrow>
    ServeHTTP ge re srv be now r cache d = Some (resp, cache', d') \<Longrightarrow>
    process env ge re be a0 (a\<lparr>ap_handler := Some (srv, cache')\<rparr>, d')"

end
