(* ===== verification/Config_Dump.thy ===== *)
theory Config_Dump
  imports Config_Facts
begin

section \<open>A dumped configuration loads again\<close>

text \<open>
  \<open>Dump\<close> promises a file that parses back to the same configuration. The options a dump binds are
  \<open>dumped\<close>; resolving them gives the configuration back (\<open>resolve_dumped\<close>), and so does loading the file
  (\<open>dump_reloads\<close>), for the configurations whose texts the file syntax can carry. The unnamed schema, which is
  the default of four engines, is not among them (\<open>default_schema_dump_refused\<close>).
\<close>

subsection \<open>The options a dump binds\<close>

definition dumped :: "config \<Rightarrow> string go_map" where
  "dumped c =
     [(''db-backend'', cf_Backend c), (''db-uri'', cf_DBURI c), (''db-schemas'', join '','' (cf_Schemas c)),
      (''db-anon-role'', cf_AnonRole c), (''db-pre-request'', cf_PreRequest c),
      (''db-extra-search-path'', join '','' (cf_ExtraSearchPath c)), (''db-max-rows'', show_int (cf_MaxRows c)),
      (''max-request-body'', show_int (cf_MaxRequestBody c)),
      (''db-aggregates-enabled'', FormatBool (cf_AggregatesEnabled c)), (''db-root-spec'', cf_RootSpec c),
      (''db-tx-end'', cf_TxEnd c), (''db-hoisted-tx-settings'', join '','' (cf_HoistedTxSettings c)),
      (''db-plan-enabled'', FormatBool (cf_PlanEnabled c)), (''db-channel'', cf_DBChannel c),
      (''db-channel-enabled'', FormatBool (cf_DBChannelEnabled c)), (''db-config'', FormatBool (cf_DBConfig c)),
      (''db-pre-config'', cf_DBPreConfig c), (''db-prepared-statements'', FormatBool (cf_DBPreparedStatements c)),
      (''db-pool'', show_int (cf_DBPool c)),
      (''db-pool-acquisition-timeout'', dump_seconds (cf_DBPoolAcquisitionTimeout c)),
      (''db-pool-max-idletime'', dump_seconds (cf_DBPoolMaxIdleTime c)),
      (''db-pool-max-lifetime'', dump_seconds (cf_DBPoolMaxLifetime c)),
      (''db-pool-automatic-recovery'', FormatBool (cf_DBPoolAutomaticRecovery c)), (''jwt-secret'', cf_JWTSecret c),
      (''jwt-secret-is-base64'', FormatBool (cf_JWTSecretIsBase64 c)), (''jwt-aud'', cf_JWTAud c),
      (''jwt-role-claim-key'', cf_JWTRoleClaimKey c), (''jwk-set'', cf_JWKSet c),
      (''jwt-cache-max-entries'', show_int (cf_JWTCacheMaxEntries c)), (''server-host'', cf_ServerHost c),
      (''server-port'', show_int (cf_ServerPort c)), (''server-unix-socket'', cf_ServerUnixSocket c),
      (''server-unix-socket-mode'', cf_ServerUnixSocketMode c), (''admin-server-host'', cf_AdminServerHost c),
      (''admin-server-port'', show_int (cf_AdminServerPort c)), (''openapi-mode'', cf_OpenAPIMode c),
      (''openapi-security-active'', FormatBool (cf_OpenAPISecurityActive c)),
      (''openapi-server-proxy-uri'', cf_OpenAPIServerProxyURI c), (''log-level'', cf_LogLevel c),
      (''log-query'', FormatBool (cf_LogQuery c)),
      (''server-cors-allowed-origins'', join '','' (cf_CORSAllowedOrigins c)),
      (''server-trace-header'', cf_ServerTraceHeader c), (''server-timing-enabled'', FormatBool (cf_ServerTimingEnabled c)),
      (''declared-schema'', cf_DeclaredSchema c), (''declared-relationships'', cf_DeclaredRelationships c),
      (''function-registry'', cf_FunctionRegistry c), (''policy-registry'', cf_PolicyRegistry c),
      (''capability-overrides'', cf_CapabilityOverrides c)]"

definition setting_key :: "string \<Rightarrow> string" where
  "setting_key name = ''app.settings.'' @ name"

lemma has_prefix_setting [simp]: "has_prefix (setting_key n) ''app.settings.''"
  unfolding setting_key_def by (rule has_prefix_append)

lemma setting_key_eq [simp]: "setting_key n = setting_key n' \<longleftrightarrow> n = n'"
  by (simp add: setting_key_def)

lemma cut_setting: "cutPrefix k ''app.settings.'' = Some n \<longleftrightarrow> k = setting_key n"
  unfolding cutPrefix_def has_prefix_iff setting_key_def by (auto split: if_split_asm)

definition dumped_settings :: "config \<Rightarrow> string go_map" where
  "dumped_settings c = map (\<lambda>(name, v). (setting_key name, v)) (cf_AppSettings c)"

text \<open>
  A configuration whose texts survive the file syntax: printing ASCII with no quote, backslash or
  dollar sign, list elements with no space or comma, timeouts of whole seconds, integers of Go's
  width, and neither of the two options an \<open>@\<close> would send to a file.
\<close>

definition item_char :: "char \<Rightarrow> bool" where
  "item_char c \<longleftrightarrow> dump_char c \<and> graphic c \<and> c \<noteq> CHR '',''"

definition item_ok :: "string \<Rightarrow> bool" where
  "item_ok s \<longleftrightarrow> s \<noteq> [] \<and> list_all item_char s"

definition go_int :: "int \<Rightarrow> bool" where
  "go_int n \<longleftrightarrow> int64_min \<le> n \<and> n \<le> int64_max"

definition whole_seconds :: "int \<Rightarrow> bool" where
  "whole_seconds d \<longleftrightarrow> go_int d \<and> d mod duration_second = 0"

definition setting_ok :: "string \<times> string \<Rightarrow> bool" where
  "setting_ok nv \<longleftrightarrow> fst nv \<noteq> [] \<and> list_all key_char (fst nv) \<and> plain_text (snd nv)"

definition plain_fields :: "config \<Rightarrow> string list" where
  "plain_fields c = [cf_DBURI c, cf_AnonRole c, cf_PreRequest c, cf_RootSpec c, cf_DBChannel c, cf_DBPreConfig c,
     cf_JWTSecret c, cf_JWTAud c, cf_JWTRoleClaimKey c, cf_JWKSet c, cf_ServerHost c, cf_ServerUnixSocket c,
     cf_AdminServerHost c, cf_ServerTraceHeader c, cf_DeclaredSchema c, cf_DeclaredRelationships c,
     cf_FunctionRegistry c, cf_PolicyRegistry c, cf_CapabilityOverrides c]"

definition dump_safe :: "config \<Rightarrow> bool" where
  "dump_safe c \<longleftrightarrow>
     list_all plain_text (plain_fields c) \<and>
     cutPrefix (cf_DBURI c) ''@'' = None \<and> cutPrefix (cf_JWTSecret c) ''@'' = None \<and>
     list_all item_char (cf_OpenAPIServerProxyURI c) \<and>
     list_all item_ok (cf_ExtraSearchPath c) \<and> list_all item_ok (cf_HoistedTxSettings c) \<and>
     list_all item_ok (cf_CORSAllowedOrigins c) \<and>
     list_all go_int [cf_MaxRows c, cf_MaxRequestBody c, cf_JWTCacheMaxEntries c, cf_DBPool c] \<and>
     list_all whole_seconds [cf_DBPoolAcquisitionTimeout c, cf_DBPoolMaxIdleTime c, cf_DBPoolMaxLifetime c] \<and>
     wf_map (cf_AppSettings c) \<and> list_all setting_ok (cf_AppSettings c)"

subsection \<open>The texts of a safe configuration\<close>

lemma bare_show_int: "show_int n \<noteq> [] \<and> list_all bare_char (show_int n)"
proof -
  have dig: "bare_char (digit_char d)" if "d < 10" for d
    using digit_char_digit [OF that] by (simp add: bare_char_def)
  have nat: "list_all bare_char (show_nat m)" for m
  proof (induction m rule: less_induct)
    case (less m)
    then show ?case using dig by (subst show_nat.simps) simp
  qed
  moreover have "bare_char (CHR ''-'')" by code_simp
  moreover have "show_nat m \<noteq> []" for m using show_nat_first [of m] by auto
  ultimately show ?thesis by (simp add: show_int_def)
qed

lemma bare_FormatBool: "FormatBool b \<noteq> [] \<and> list_all bare_char (FormatBool b)"
  by (cases b) (simp_all add: FormatBool_def bare_char_def)

lemma bare_seconds: "whole_seconds d \<Longrightarrow> dump_seconds d \<noteq> [] \<and> list_all bare_char (dump_seconds d)"
  by (simp add: dump_seconds_def whole_seconds_def bare_show_int)

lemma item_plain: "item_char c \<Longrightarrow> dump_char c"
  by (simp add: item_char_def)

lemma plain_items:
  assumes "list_all item_ok xs"
  shows "plain_text (join '','' xs)"
proof -
  have "dump_char (CHR '','')" by code_simp
  moreover have "plain_text x" if "item_ok x" for x
    using that by (auto simp: item_ok_def plain_text_def list_all_iff item_plain)
  ultimately show ?thesis using assms
    by (induction "'',''" xs rule: join.induct) (auto simp: plain_text_def)
qed

lemma splitList_join:
  assumes "list_all item_ok xs"
  shows "splitList (join '','' xs) = xs"
proof (cases "xs = []")
  case True
  then show ?thesis by (simp add: splitList_def)
next
  case False
  have item: "CHR '','' \<notin> set x" "trim_space x = x" "x \<noteq> []" if "x \<in> set xs" for x
    using assms that by (auto simp: list_all_iff item_ok_def item_char_def intro: trim_space_all_graphic)
  then have "split_byte (CHR '','') (join [CHR '',''] xs) = xs" using False by (intro split_byte_join) auto
  moreover have "map trim_space xs = xs" using item(2) by (simp add: map_idI)
  moreover have "filter (\<lambda>t. t \<noteq> []) xs = xs" using item(3) by (simp add: filter_id_conv)
  ultimately show ?thesis by (simp add: splitList_def)
qed

text \<open>The options with a closed set of values: each value is lower case and trimmed.\<close>

lemma known_fixed:
  "s \<in> set knownBackends \<union> set knownOpenAPIModes \<union> set knownLogLevels \<union> set knownTxEnds \<Longrightarrow>
   lower_trim s = s \<and> plain_text s"
  unfolding knownBackends_def knownOpenAPIModes_def knownLogLevels_def knownTxEnds_def
  by (simp only: set_simps Un_iff insert_iff empty_iff; elim disjE FalseE; hypsubst; code_simp)

lemma octal_chars: "octal_val n s = Some m \<Longrightarrow> c \<in> set s \<Longrightarrow> is_digit c"
  by (induction n s rule: octal_val.induct) (auto simp: is_digit_def less_eq_char_def split: if_split_asm)

lemma mode_text:
  assumes "mode_problems s = []"
  shows "trim_space s = s \<and> plain_text s"
proof -
  obtain n m where "octal_val n s = Some m"
    using assms by (auto simp: mode_problems_def parse_octal32_def split: option.split_asm if_split_asm)
  then have "is_digit c" if "c \<in> set s" for c using octal_chars that by blast
  moreover have "graphic c \<and> dump_char c" if "is_digit c" for c
    using that by (auto simp: is_digit_def graphic_def dump_char_def less_eq_char_def)
  ultimately show ?thesis by (auto simp: plain_text_def list_all_iff intro: trim_space_all_graphic)
qed

lemma proxy_text: "list_all item_char s \<Longrightarrow> trim_space s = s \<and> plain_text s"
  by (auto simp: item_char_def plain_text_def list_all_iff intro: trim_space_all_graphic)

lemma int_text: "go_int n \<Longrightarrow> parse_int64 (trim_space (show_int n)) = Some n"
  using show_int_graphic [of n] by (simp add: trim_space_all_graphic parse_show_int go_int_def)

lemma bool_text [simp]: "go_ParseBool (trim_space (FormatBool b)) = Some b"
proof -
  have "\<forall>b. trim_space (FormatBool b) = FormatBool b" by code_simp
  then show ?thesis by simp
qed

lemma port_go_int: "\<not> out_of_port n \<Longrightarrow> go_int n"
  by (simp add: out_of_port_def go_int_def int64_min_def int64_max_def)

lemma seconds_text:
  assumes "whole_seconds d"
  shows "parse_int64 (trim_space (dump_seconds d)) = Some (d div duration_second)"
    and "wrap_int64 (d div duration_second * duration_second) = d"
proof -
  have d: "d div duration_second * duration_second = d" and g: "go_int d"
    using assms by (auto simp: whole_seconds_def)
  have "go_int (d div duration_second)"
    using g by (auto simp: go_int_def duration_second_def int64_min_def int64_max_def)
  then show "parse_int64 (trim_space (dump_seconds d)) = Some (d div duration_second)"
    using assms by (simp add: dump_seconds_def whole_seconds_def int_text)
  show "wrap_int64 (d div duration_second * duration_second) = d"
    using g by (simp add: d wrap_int64_id go_int_def)
qed

subsection \<open>Resolving the dumped options\<close>

lemma steps_text: "aget raw key = Some v \<Longrightarrow> text_option raw key put (c, errs) = (put v c, errs)"
  by (simp add: text_option_def)

lemma steps_string: "aget raw key = Some v \<Longrightarrow> string_option raw get put (key # keys) (c, errs) = (put v c, errs)"
  by (simp add: string_option_def)

lemma steps_int:
  "aget raw key = Some (show_int n) \<Longrightarrow> go_int n \<Longrightarrow> int_option raw get put (key # keys) (c, errs) = (put n c, errs)"
  by (simp add: int_option_def int_text)

lemma steps_bool:
  "aget raw key = Some (FormatBool b) \<Longrightarrow> bool_option raw get put (key # keys) (c, errs) = (put b c, errs)"
  by (simp add: bool_option_def)

lemma steps_seconds:
  "aget raw key = Some (dump_seconds d) \<Longrightarrow> whole_seconds d \<Longrightarrow>
   seconds_option os raw get put (key # keys) (c, errs) = (put d c, errs)"
  by (simp add: seconds_option_def seconds_text)

lemma steps_file: "cutPrefix (get c) ''@'' = None \<Longrightarrow> file_option os name get put clean (c, errs) = (c, errs)"
  by (simp add: file_option_def)

lemmas dumped_steps = steps_text steps_string steps_int steps_bool steps_seconds steps_file

lemma aget_dumped_fields:
  assumes "\<forall>k. k \<in> set optionKeys \<longrightarrow> aget raw k = aget (dumped c) k"
  shows "aget raw ''db-backend'' = Some (cf_Backend c)" "aget raw ''db-uri'' = Some (cf_DBURI c)"
    "aget raw ''db-schemas'' = Some (join '','' (cf_Schemas c))" "aget raw ''db-anon-role'' = Some (cf_AnonRole c)"
    "aget raw ''db-pre-request'' = Some (cf_PreRequest c)" "aget raw ''db-extra-search-path'' = Some (join '','' (cf_ExtraSearchPath c))"
    "aget raw ''db-max-rows'' = Some (show_int (cf_MaxRows c))" "aget raw ''max-request-body'' = Some (show_int (cf_MaxRequestBody c))"
    "aget raw ''db-aggregates-enabled'' = Some (FormatBool (cf_AggregatesEnabled c))" "aget raw ''db-root-spec'' = Some (cf_RootSpec c)"
    "aget raw ''db-tx-end'' = Some (cf_TxEnd c)" "aget raw ''db-hoisted-tx-settings'' = Some (join '','' (cf_HoistedTxSettings c))"
    "aget raw ''db-plan-enabled'' = Some (FormatBool (cf_PlanEnabled c))" "aget raw ''db-channel'' = Some (cf_DBChannel c)"
    "aget raw ''db-channel-enabled'' = Some (FormatBool (cf_DBChannelEnabled c))" "aget raw ''db-config'' = Some (FormatBool (cf_DBConfig c))"
    "aget raw ''db-pre-config'' = Some (cf_DBPreConfig c)" "aget raw ''db-prepared-statements'' = Some (FormatBool (cf_DBPreparedStatements c))"
    "aget raw ''db-pool'' = Some (show_int (cf_DBPool c))"
    "aget raw ''db-pool-acquisition-timeout'' = Some (dump_seconds (cf_DBPoolAcquisitionTimeout c))"
    "aget raw ''db-pool-max-idletime'' = Some (dump_seconds (cf_DBPoolMaxIdleTime c))"
    "aget raw ''db-pool-max-lifetime'' = Some (dump_seconds (cf_DBPoolMaxLifetime c))"
    "aget raw ''db-pool-automatic-recovery'' = Some (FormatBool (cf_DBPoolAutomaticRecovery c))" "aget raw ''jwt-secret'' = Some (cf_JWTSecret c)"
    "aget raw ''jwt-secret-is-base64'' = Some (FormatBool (cf_JWTSecretIsBase64 c))" "aget raw ''jwt-aud'' = Some (cf_JWTAud c)"
    "aget raw ''jwt-role-claim-key'' = Some (cf_JWTRoleClaimKey c)" "aget raw ''jwk-set'' = Some (cf_JWKSet c)"
    "aget raw ''jwt-cache-max-entries'' = Some (show_int (cf_JWTCacheMaxEntries c))" "aget raw ''server-host'' = Some (cf_ServerHost c)"
    "aget raw ''server-port'' = Some (show_int (cf_ServerPort c))" "aget raw ''server-unix-socket'' = Some (cf_ServerUnixSocket c)"
    "aget raw ''server-unix-socket-mode'' = Some (cf_ServerUnixSocketMode c)" "aget raw ''admin-server-host'' = Some (cf_AdminServerHost c)"
    "aget raw ''admin-server-port'' = Some (show_int (cf_AdminServerPort c))" "aget raw ''openapi-mode'' = Some (cf_OpenAPIMode c)"
    "aget raw ''openapi-security-active'' = Some (FormatBool (cf_OpenAPISecurityActive c))"
    "aget raw ''openapi-server-proxy-uri'' = Some (cf_OpenAPIServerProxyURI c)" "aget raw ''log-level'' = Some (cf_LogLevel c)"
    "aget raw ''log-query'' = Some (FormatBool (cf_LogQuery c))"
    "aget raw ''server-cors-allowed-origins'' = Some (join '','' (cf_CORSAllowedOrigins c))"
    "aget raw ''server-trace-header'' = Some (cf_ServerTraceHeader c)" "aget raw ''server-timing-enabled'' = Some (FormatBool (cf_ServerTimingEnabled c))"
    "aget raw ''declared-schema'' = Some (cf_DeclaredSchema c)" "aget raw ''declared-relationships'' = Some (cf_DeclaredRelationships c)"
    "aget raw ''function-registry'' = Some (cf_FunctionRegistry c)" "aget raw ''policy-registry'' = Some (cf_PolicyRegistry c)"
    "aget raw ''capability-overrides'' = Some (cf_CapabilityOverrides c)"
  by (simp_all add: assms [rule_format] optionKeys_def dumped_def)

text \<open>
  The facts of a configuration that loading it again needs: what \<open>dump_safe\<close> says, and what every
  configuration that was loaded satisfies (\<open>validate\<close>, and an admin host wherever there is a host).
\<close>

definition settled :: "config \<Rightarrow> bool" where
  "settled c \<longleftrightarrow> validate c = [] \<and> (cf_AdminServerHost c = [] \<longrightarrow> cf_ServerHost c = [])"

lemma settledD:
  assumes "settled c"
  shows "lower_trim (cf_Backend c) = cf_Backend c" "lower_trim (cf_TxEnd c) = cf_TxEnd c"
    "lower_trim (cf_OpenAPIMode c) = cf_OpenAPIMode c" "lower_trim (cf_LogLevel c) = cf_LogLevel c"
    "trim_space (cf_ServerUnixSocketMode c) = cf_ServerUnixSocketMode c"
    "go_int (cf_ServerPort c)" "go_int (cf_AdminServerPort c)" "trim_space (cf_DBURI c) \<noteq> []"
    "cf_AdminServerHost c = [] \<Longrightarrow> cf_ServerHost c = []"
  using assms known_fixed mode_text port_go_int
  by (auto simp: settled_def validate_def problem_def split: if_split_asm)

lemma dump_safeD:
  assumes "dump_safe c"
  shows "cutPrefix (cf_DBURI c) ''@'' = None" "cutPrefix (cf_JWTSecret c) ''@'' = None"
    "trim_space (cf_OpenAPIServerProxyURI c) = cf_OpenAPIServerProxyURI c"
    "splitList (join '','' (cf_ExtraSearchPath c)) = cf_ExtraSearchPath c"
    "splitList (join '','' (cf_HoistedTxSettings c)) = cf_HoistedTxSettings c"
    "splitList (join '','' (cf_CORSAllowedOrigins c)) = cf_CORSAllowedOrigins c"
    "go_int (cf_MaxRows c)" "go_int (cf_MaxRequestBody c)" "go_int (cf_JWTCacheMaxEntries c)" "go_int (cf_DBPool c)"
    "whole_seconds (cf_DBPoolAcquisitionTimeout c)" "whole_seconds (cf_DBPoolMaxIdleTime c)" "whole_seconds (cf_DBPoolMaxLifetime c)"
    "wf_map (cf_AppSettings c)" "list_all setting_ok (cf_AppSettings c)"
  using assms by (simp_all add: dump_safe_def splitList_join proxy_text)

lemma fold_surface:
  assumes "\<forall>k. k \<in> set optionKeys \<longrightarrow> aget raw k = aget (dumped c) k" "dump_safe c" "settled c"
  shows "fold (\<lambda>f st. f st) (surface_steps os raw) (c0, errs) =
    (c0\<lparr>cf_Backend := cf_Backend c, cf_DBURI := cf_DBURI c, cf_Schemas := splitList (join '','' (cf_Schemas c)),
       cf_AnonRole := cf_AnonRole c, cf_PreRequest := cf_PreRequest c, cf_ExtraSearchPath := cf_ExtraSearchPath c,
       cf_MaxRows := cf_MaxRows c, cf_MaxRequestBody := cf_MaxRequestBody c, cf_AggregatesEnabled := cf_AggregatesEnabled c,
       cf_RootSpec := cf_RootSpec c, cf_TxEnd := cf_TxEnd c, cf_HoistedTxSettings := cf_HoistedTxSettings c,
       cf_AppSettings := app_settings raw\<rparr>, errs)"
  by (simp add: surface_steps_def dumped_steps aget_dumped_fields [OF assms(1)] default_uri_def schemas_option_def
      settledD [OF assms(3)] dump_safeD [OF assms(2)])

lemma fold_auth:
  assumes "\<forall>k. k \<in> set optionKeys \<longrightarrow> aget raw k = aget (dumped c) k" "dump_safe c"
  shows "fold (\<lambda>f st. f st) (auth_steps os raw) (c0, errs) =
    (c0\<lparr>cf_JWTSecret := cf_JWTSecret c, cf_JWTSecretIsBase64 := cf_JWTSecretIsBase64 c, cf_JWTAud := cf_JWTAud c,
       cf_JWTRoleClaimKey := cf_JWTRoleClaimKey c, cf_JWKSet := cf_JWKSet c, cf_JWTCacheMaxEntries := cf_JWTCacheMaxEntries c\<rparr>, errs)"
  by (simp add: auth_steps_def dumped_steps aget_dumped_fields [OF assms(1)] dump_safeD [OF assms(2)])

lemma fold_server:
  assumes "\<forall>k. k \<in> set optionKeys \<longrightarrow> aget raw k = aget (dumped c) k" "dump_safe c" "settled c"
  shows "fold (\<lambda>f st. f st) (server_steps os raw) (c0, errs) =
    (c0\<lparr>cf_ServerHost := cf_ServerHost c, cf_ServerPort := cf_ServerPort c, cf_ServerUnixSocket := cf_ServerUnixSocket c,
       cf_ServerUnixSocketMode := cf_ServerUnixSocketMode c, cf_AdminServerHost := cf_AdminServerHost c,
       cf_AdminServerPort := cf_AdminServerPort c, cf_DBPool := cf_DBPool c,
       cf_DBPoolAcquisitionTimeout := cf_DBPoolAcquisitionTimeout c, cf_DBPoolMaxIdleTime := cf_DBPoolMaxIdleTime c,
       cf_DBPoolMaxLifetime := cf_DBPoolMaxLifetime c, cf_DBPoolAutomaticRecovery := cf_DBPoolAutomaticRecovery c\<rparr>, errs)"
  using settledD(9) [OF assms(3)]
  by (simp add: server_steps_def dumped_steps aget_dumped_fields [OF assms(1)] default_admin_host_def
      settledD(5-7) [OF assms(3)] dump_safeD [OF assms(2)])

lemma fold_reload:
  assumes "\<forall>k. k \<in> set optionKeys \<longrightarrow> aget raw k = aget (dumped c) k" "dump_safe c" "settled c"
  shows "fold (\<lambda>f st. f st) (reload_steps os raw) (c0, errs) =
    (c0\<lparr>cf_DBChannel := cf_DBChannel c, cf_DBChannelEnabled := cf_DBChannelEnabled c, cf_DBConfig := cf_DBConfig c,
       cf_DBPreConfig := cf_DBPreConfig c, cf_DBPreparedStatements := cf_DBPreparedStatements c,
       cf_OpenAPIMode := cf_OpenAPIMode c, cf_OpenAPIServerProxyURI := cf_OpenAPIServerProxyURI c,
       cf_OpenAPISecurityActive := cf_OpenAPISecurityActive c, cf_LogLevel := cf_LogLevel c, cf_LogQuery := cf_LogQuery c,
       cf_CORSAllowedOrigins := cf_CORSAllowedOrigins c, cf_PlanEnabled := cf_PlanEnabled c,
       cf_ServerTraceHeader := cf_ServerTraceHeader c, cf_ServerTimingEnabled := cf_ServerTimingEnabled c\<rparr>, errs)"
  by (simp add: reload_steps_def dumped_steps aget_dumped_fields [OF assms(1)]
      settledD [OF assms(3)] dump_safeD [OF assms(2)])

lemma fold_dumped:
  assumes "\<forall>k. k \<in> set optionKeys \<longrightarrow> aget raw k = aget (dumped c) k" "dump_safe c" "settled c"
  shows "\<exists>c1. fold (\<lambda>f st. f st) (surface_steps os raw @ auth_steps os raw @ server_steps os raw @ reload_steps os raw)
      (config_defaults, []) = (c1, []) \<and>
    (\<forall>w. c1\<lparr>cf_Warnings := w, cf_DeclaredSchema := cf_DeclaredSchema c, cf_DeclaredRelationships := cf_DeclaredRelationships c,
       cf_FunctionRegistry := cf_FunctionRegistry c, cf_PolicyRegistry := cf_PolicyRegistry c,
       cf_CapabilityOverrides := cf_CapabilityOverrides c\<rparr> =
     c\<lparr>cf_Schemas := splitList (join '','' (cf_Schemas c)), cf_AppSettings := app_settings raw, cf_Warnings := w\<rparr>)"
  unfolding fold_append o_apply fold_surface [OF assms] fold_auth [OF assms(1,2)] fold_server [OF assms] fold_reload [OF assms]
  by (rule exI, rule conjI, rule refl, rule allI, rule config.equality) simp_all

lemma resolve_dumped:
  assumes "\<forall>k. k \<in> set optionKeys \<longrightarrow> aget raw k = aget (dumped c) k" "dump_safe c" "settled c"
  shows "\<exists>ws. resolve_options os raw =
    (c\<lparr>cf_Schemas := splitList (join '','' (cf_Schemas c)), cf_AppSettings := app_settings raw, cf_Warnings := ws\<rparr>, [])"
proof -
  obtain c1 where c1: "fold (\<lambda>f st. f st) (surface_steps os raw @ auth_steps os raw @ server_steps os raw @ reload_steps os raw)
      (config_defaults, []) = (c1, [])"
    and eq: "\<And>w. c1\<lparr>cf_Warnings := w, cf_DeclaredSchema := cf_DeclaredSchema c, cf_DeclaredRelationships := cf_DeclaredRelationships c,
       cf_FunctionRegistry := cf_FunctionRegistry c, cf_PolicyRegistry := cf_PolicyRegistry c,
       cf_CapabilityOverrides := cf_CapabilityOverrides c\<rparr> =
     c\<lparr>cf_Schemas := splitList (join '','' (cf_Schemas c)), cf_AppSettings := app_settings raw, cf_Warnings := w\<rparr>"
    using fold_dumped [OF assms] by blast
  have "resolve_options os raw = registry_step raw (warn_step raw (c1, []))"
    using c1 by (simp add: resolve_options_def)
  also have "\<dots> = (c\<lparr>cf_Schemas := splitList (join '','' (cf_Schemas c)), cf_AppSettings := app_settings raw,
      cf_Warnings := load_warnings raw c1\<rparr>, [])"
    unfolding warn_step_def registry_step_def option_text_def aget_dumped_fields [OF assms(1)] fst_conv snd_conv option.case eq ..
  finally show ?thesis by blast
qed

subsection \<open>What every loaded configuration satisfies\<close>

definition step_keeps :: "(config \<Rightarrow> 'a) \<Rightarrow> (load_state \<Rightarrow> load_state) \<Rightarrow> bool" where
  "step_keeps get f \<longleftrightarrow> (\<forall>st. get (fst (f st)) = get (fst st))"

lemma step_keeps_text: "(\<And>v c. get (put v c) = get c) \<Longrightarrow> step_keeps get (text_option raw key put)"
  by (simp add: step_keeps_def text_option_def split: option.split)

lemma step_keeps_int: "(\<And>v c. get (put v c) = get c) \<Longrightarrow> step_keeps get (int_option raw g put keys)"
  by (simp add: step_keeps_def int_option_def split: prod.split)

lemma step_keeps_bool: "(\<And>v c. get (put v c) = get c) \<Longrightarrow> step_keeps get (bool_option raw g put keys)"
  by (simp add: step_keeps_def bool_option_def split: prod.split)

lemma step_keeps_seconds: "(\<And>v c. get (put v c) = get c) \<Longrightarrow> step_keeps get (seconds_option os raw g put keys)"
  by (simp add: step_keeps_def seconds_option_def split: prod.split)

lemmas step_keeps_steps = step_keeps_text step_keeps_int step_keeps_bool step_keeps_seconds

lemma step_keeps_fold: "list_all (step_keeps get) fs \<Longrightarrow> get (fst (fold (\<lambda>f st. f st) fs st)) = get (fst st)"
  by (induction fs arbitrary: st) (auto simp: step_keeps_def)

lemma admin_host_settled:
  "cf_AdminServerHost (fst (resolve_options os raw)) = [] \<Longrightarrow> cf_ServerHost (fst (resolve_options os raw)) = []"
proof -
  define get where "get = (\<lambda>c :: config. (cf_AdminServerHost c, cf_ServerHost c))"
  have get: "get (cf_X c) = get c" if "cf_AdminServerHost (cf_X c) = cf_AdminServerHost c" "cf_ServerHost (cf_X c) = cf_ServerHost c"
    for cf_X c using that by (simp add: get_def)
  define before where "before = surface_steps os raw @ auth_steps os raw @ take 6 (server_steps os raw)"
  define after where "after = drop 7 (server_steps os raw) @ reload_steps os raw @ [warn_step raw, registry_step raw]"
  have steps: "surface_steps os raw @ auth_steps os raw @ server_steps os raw @ reload_steps os raw @ [warn_step raw, registry_step raw] =
      before @ [default_admin_host] @ after"
    by (simp add: before_def after_def server_steps_def)
  have "list_all (step_keeps get) after"
    unfolding after_def server_steps_def reload_steps_def
    by (simp add: step_keeps_steps get) (simp add: step_keeps_def warn_step_def registry_step_def get)
  then have "get (fst (resolve_options os raw)) = get (fst (default_admin_host (fold (\<lambda>f st. f st) before (config_defaults, []))))"
    unfolding resolve_options_def steps by (simp add: step_keeps_fold)
  moreover have "fst (get (fst (default_admin_host st))) = [] \<Longrightarrow> snd (get (fst (default_admin_host st))) = []" for st
    by (simp add: get_def default_admin_host_def split: if_split_asm)
  ultimately show "cf_AdminServerHost (fst (resolve_options os raw)) = [] \<Longrightarrow> cf_ServerHost (fst (resolve_options os raw)) = []"
    unfolding get_def by (metis fst_conv snd_conv)
qed

lemma fromRaw_settled: "fromRaw os raw = Inr c \<Longrightarrow> settled c"
  using admin_host_settled [of os raw]
  by (auto simp: fromRaw_def settled_def Let_def split: prod.split_asm if_split_asm)

subsection \<open>Reading the dump back\<close>

lemma aput_new: "k \<notin> fst ` set m \<Longrightarrow> aput k v m = m @ [(k, v)]"
  by (induction k v m rule: aput.induct) auto

lemma fold_aput_new:
  assumes "distinct (map (f \<circ> fst) xs)" "\<forall>x \<in> set xs. f (fst x) \<notin> fst ` set m"
  shows "fold (\<lambda>(n, v). aput (f n) (g v)) xs m = m @ map (\<lambda>(n, v). (f n, g v)) xs"
  using assms
proof (induction xs arbitrary: m)
  case (Cons x xs)
  obtain n v where x: "x = (n, v)" by (cases x)
  have "\<forall>y \<in> set xs. f (fst y) \<notin> fst ` set (m @ [(f n, g v)])" using Cons.prems by (auto simp: x image_iff)
  then show ?case using Cons.IH [of "m @ [(f n, g v)]"] Cons.prems by (simp add: x aput_new)
qed simp

lemma keys_dump_options:
  "list_all (\<lambda>k. k \<noteq> [] \<and> list_all key_char k \<and> known_key (config_key k) \<and> \<not> has_prefix k ''app.settings.'')
     (keys_of (dump_options c)) \<and> distinct (keys_of (dump_options c))"
  unfolding dump_options_def list.map fst_conv by code_simp

lemma keys_dumped: "distinct (keys_of (dumped c)) \<and> list_all (\<lambda>k. \<not> has_prefix k ''app.settings.'') (keys_of (dumped c))"
  unfolding dumped_def list.map fst_conv by code_simp

lemma dump_pairs_eq:
  assumes "wf_map (cf_AppSettings c)"
  shows "dump_pairs c = dump_options c @ map (\<lambda>(n, v). (setting_key n, go_quote v)) (cf_AppSettings c)"
  unfolding dump_pairs_def setting_key_def [symmetric]
proof (rule fold_aput_new)
  have "distinct (map setting_key (keys_of (cf_AppSettings c)))"
    using assms by (simp add: wf_map_def distinct_map inj_on_def)
  then show "distinct (map (setting_key \<circ> fst) (cf_AppSettings c))" by simp
  show "\<forall>x \<in> set (cf_AppSettings c). setting_key (fst x) \<notin> fst ` set (dump_options c)"
    using keys_dump_options [of c] unfolding list_all_iff set_map by (metis (no_types, lifting) has_prefix_setting)
qed

lemma plain_fields_dumped: "x \<in> set (plain_fields c) \<Longrightarrow> dump_safe c \<Longrightarrow> plain_text x"
  by (auto simp: dump_safe_def list_all_iff)

lemma texts_dumped:
  assumes "dump_safe c" "settled c" "plain_text (join '','' (cf_Schemas c))"
  shows "list_all (\<lambda>kv. dumped_text (snd kv)) (dump_options c)"
    and "map (\<lambda>kv. (config_key (fst kv), value_of (snd kv))) (dump_options c) = dumped c"
proof -
  have plain: "list_all plain_text (plain_fields c)" and lists: "plain_text (join '','' (cf_ExtraSearchPath c))"
      "plain_text (join '','' (cf_HoistedTxSettings c))" "plain_text (join '','' (cf_CORSAllowedOrigins c))"
      "plain_text (cf_OpenAPIServerProxyURI c)"
    using assms(1) by (auto simp: dump_safe_def plain_items proxy_text)
  have known: "plain_text (cf_Backend c)" "plain_text (cf_TxEnd c)" "plain_text (cf_OpenAPIMode c)" "plain_text (cf_LogLevel c)"
      "plain_text (cf_ServerUnixSocketMode c)"
    using assms(2) known_fixed mode_text by (auto simp: settled_def validate_def problem_def split: if_split_asm)
  have quote: "dumped_text (go_quote v)" if "plain_text v" for v using that by (auto simp: dumped_text_def)
  have bare: "dumped_text t" if "t \<noteq> [] \<and> list_all bare_char t" for t using that by (simp add: dumped_text_def)
  note secs = dump_safeD(11-13) [OF assms(1)]
  show "list_all (\<lambda>kv. dumped_text (snd kv)) (dump_options c)"
    using plain unfolding plain_fields_def dump_options_def
    by (simp add: quote lists known assms(3) bare bare_show_int bare_FormatBool bare_seconds secs)
  have keys: "map config_key (keys_of (dump_options c)) = keys_of (dumped c)"
    unfolding dump_options_def dumped_def list.map fst_conv by code_simp
  have vals: "map (\<lambda>kv. value_of (snd kv)) (dump_options c) = map snd (dumped c)"
    using plain unfolding plain_fields_def dump_options_def dumped_def
    by (simp add: lists known assms(3) bare_show_int bare_FormatBool bare_seconds secs)
  show "map (\<lambda>kv. (config_key (fst kv), value_of (snd kv))) (dump_options c) = dumped c"
    using keys vals by (simp add: list_eq_iff_nth_eq prod_eq_iff)
qed

lemma settings_dumped:
  assumes "list_all setting_ok xs"
  shows "list_all line_ok (map (\<lambda>(n, v). (setting_key n, go_quote v)) xs)"
    and "map (\<lambda>kv. (config_key (fst kv), value_of (snd kv))) (map (\<lambda>(n, v). (setting_key n, go_quote v)) xs) =
      map (\<lambda>(n, v). (setting_key n, v)) xs"
proof -
  have key: "config_key (setting_key n) = setting_key n" for n
    by (simp add: config_key_def cutPrefix_def has_prefix_def setting_key_def)
  have "known_key (setting_key n)" for n by (simp add: known_key_def)
  moreover have "list_all key_char (setting_key n)" if "list_all key_char n" for n
    using that by (simp add: setting_key_def key_char_def graphic_def less_eq_char_def)
  ultimately have ok: "line_ok (setting_key n, go_quote v)" if "setting_ok (n, v)" for n v
    using that by (auto simp: line_ok_def setting_ok_def key dumped_text_def) (simp add: setting_key_def)
  show "list_all line_ok (map (\<lambda>(n, v). (setting_key n, go_quote v)) xs)"
    using assms ok by (auto simp: list_all_iff split: prod.split)
  show "map (\<lambda>kv. (config_key (fst kv), value_of (snd kv))) (map (\<lambda>(n, v). (setting_key n, go_quote v)) xs) =
      map (\<lambda>(n, v). (setting_key n, v)) xs"
    using assms by (auto simp: list_all_iff setting_ok_def key split: prod.split)
qed

lemma aget_fold_bind:
  assumes "wf_map (map (\<lambda>kv. (config_key (fst kv), value_of (snd kv))) kvs)"
  shows "aget (fold bind_line kvs raw) k =
    (case aget (map (\<lambda>kv. (config_key (fst kv), value_of (snd kv))) kvs) k of Some v \<Rightarrow> Some v | None \<Rightarrow> aget raw k)"
  using assms
proof (induction kvs arbitrary: raw)
  case (Cons kv kvs)
  have "aget (map (\<lambda>kv. (config_key (fst kv), value_of (snd kv))) kvs) (config_key (fst kv)) = None"
    using Cons.prems by (force simp: aget_None_iff wf_map_def)
  then show ?case using Cons.IH [of "bind_line kv raw"] Cons.prems
    by (auto simp: wf_map_def bind_line_def aget_aput split: option.split)
qed simp

lemma wf_fold_bind: "wf_map raw \<Longrightarrow> wf_map (fold bind_line kvs raw)"
  by (induction kvs arbitrary: raw) (auto simp: bind_line_def)

lemma aget_app_settings:
  assumes "wf_map raw"
  shows "aget (app_settings raw) n = (if n = [] then None else aget raw (setting_key n))"
proof -
  have step: "aget (app_setting (k, v) acc) n = (if n \<noteq> [] \<and> k = setting_key n then Some v else aget acc n)" for k v acc n
  proof (cases "cutPrefix k ''app.settings.''")
    case None
    then have "k \<noteq> setting_key n" using cut_setting [of k n] by auto
    then show ?thesis using None by (simp add: app_setting_def)
  next
    case (Some m)
    then have "k = setting_key m" by (simp add: cut_setting)
    then show ?thesis using Some by (auto simp: app_setting_def aget_aput split: list.split)
  qed
  have "aget (fold app_setting raw acc) n =
      (if n = [] then aget acc n else case aget raw (setting_key n) of Some v \<Rightarrow> Some v | None \<Rightarrow> aget acc n)" for acc
    using assms
  proof (induction raw arbitrary: acc)
    case (Cons kv raw)
    obtain k v where kv: "kv = (k, v)" by (cases kv)
    have "aget raw k = None" using Cons.prems by (auto simp: kv aget_None_iff wf_map_def image_iff)
    then show ?case using Cons.IH [of "app_setting kv acc"] Cons.prems
      by (auto simp: kv step wf_map_def split: option.split)
  qed simp
  then show ?thesis by (auto simp: app_settings_def split: option.split)
qed

lemma parse_Dump:
  assumes "dump_safe c" "settled c" "plain_text (join '','' (cf_Schemas c))" "os_ReadFile os path = Inr (Dump c)"
  obtains raw where "parseFile os path = Inr (raw, [])" "aget raw = aget (dumped c @ dumped_settings c)" "wf_map raw"
proof -
  let ?image = "map (\<lambda>kv. (config_key (fst kv), value_of (snd kv)))"
  let ?settings = "map (\<lambda>(n, v). (setting_key n, go_quote v)) (cf_AppSettings c)"
  define kvs where "kvs = map (\<lambda>k. (k, option_text (dump_pairs c) k)) (sort (keys_of (dump_pairs c)))"
  note safe = dump_safeD(14,15) [OF assms(1)]
  note pairs = dump_pairs_eq [OF safe(1)]
  have wf_image: "wf_map (dumped c @ dumped_settings c)"
  proof -
    have sets: "distinct (map setting_key (keys_of (cf_AppSettings c)))"
      using safe(1) by (simp add: wf_map_def distinct_map inj_on_def)
    have keys: "keys_of (dumped_settings c) = map setting_key (keys_of (cf_AppSettings c))"
      by (simp add: dumped_settings_def case_prod_unfold)
    have "setting_key n \<notin> set (keys_of (dumped c))" for n
      using keys_dumped [of c] has_prefix_setting [of n] by (auto simp: list_all_iff simp del: has_prefix_setting)
    then have disjoint: "set (keys_of (dumped c)) \<inter> setting_key ` X = {}" for X by blast
    show ?thesis unfolding wf_map_def map_append distinct_append keys using keys_dumped [of c] sets disjoint [of "set (keys_of (cf_AppSettings c))"] by (simp add: image_image)
  qed
  have image: "?image (dump_pairs c) = dumped c @ dumped_settings c"
    by (simp only: pairs map_append texts_dumped(2) [OF assms(1-3)] settings_dumped(2) [OF safe(2)] dumped_settings_def)
  have wf: "wf_map (dump_pairs c)"
  proof -
    have "wf_map (?image (dump_pairs c))" using image wf_image by simp
    then have "distinct (map config_key (keys_of (dump_pairs c)))" by (simp add: wf_map_def comp_def)
    then show ?thesis by (simp only: wf_map_def distinct_map)
  qed
  have "mset kvs = mset (map (\<lambda>k. (k, option_text (dump_pairs c) k)) (keys_of (dump_pairs c)))"
    by (simp only: kvs_def mset_map mset_sort)
  also have "map (\<lambda>k. (k, option_text (dump_pairs c) k)) (keys_of (dump_pairs c)) = dump_pairs c"
    using aget_mem [OF wf] by (auto simp: option_text_def intro!: map_idI)
  finally have perm: "mset kvs = mset (dump_pairs c)" .
  have "list_all line_ok (dump_options c)"
    using keys_dump_options [of c] texts_dumped(1) [OF assms(1-3)] by (auto simp: list_all_iff line_ok_def)
  then have "list_all line_ok (dump_pairs c)" using settings_dumped(1) [OF safe(2)] by (simp add: pairs)
  then have ok: "list_all line_ok kvs" using perm by (metis list_all_iff set_mset_mset)
  have Dump: "Dump c = concat (map dump_line kvs)" by (simp add: Dump_def kvs_def Let_def comp_def)
  have parsed: "parseFile os path = Inr (fold bind_line kvs [], [])"
    using assms(4) by (simp add: parseFile_def Dump split_dump [OF ok] parse_dumped [OF ok])
  have perm_image: "mset (?image kvs) = mset (dumped c @ dumped_settings c)" using perm image by (metis mset_map)
  have wf_kvs: "wf_map (?image kvs)" using wf_map_perm [OF wf_image perm_image [symmetric]] .
  have "aget (fold bind_line kvs []) = aget (?image kvs)"
    using aget_fold_bind [OF wf_kvs] by (auto simp: fun_eq_iff split: option.split)
  also have "\<dots> = aget (dumped c @ dumped_settings c)" by (rule aget_perm [OF wf_kvs perm_image])
  finally have "aget (fold bind_line kvs []) = aget (dumped c @ dumped_settings c)" .
  then show thesis using that parsed wf_fold_bind [of "[]" kvs] by simp
qed

lemma aget_append: "aget (m @ m') k = (case aget m k of Some v \<Rightarrow> Some v | None \<Rightarrow> aget m' k)"
  by (simp add: aget_def map_add_def split: option.split)

lemma overlay_no_environment:
  assumes "\<forall>p. visit p [] = []"
  shows "overlayEnv visit raw [] = (raw, [])"
proof -
  have "fold (bind_option p []) ks r = r" for p ks r
    by (induction ks arbitrary: r) (auto simp: bind_option_def)
  then show ?thesis by (simp add: overlayEnv_def env_map_def overlay_prefix_def assms)
qed

text \<open>Both theorems about a dump are read off the configuration that loading it resolves.\<close>

lemma load_dump:
  assumes "dump_safe c" "settled c" "plain_text (join '','' (cf_Schemas c))"
    and "os_ReadFile os path = Inr (Dump c)" "path \<noteq> []" "\<forall>p. visit p [] = []"
  obtains sets ws where "aget sets = aget (cf_AppSettings c)"
    "Load os visit path [] =
       (let c' = c\<lparr>cf_Schemas := splitList (join '','' (cf_Schemas c)), cf_AppSettings := sets, cf_Warnings := ws\<rparr> in
        if validate c' \<noteq> [] then Inl (''config: '' @ join ''; '' (validate c')) else Inr c')"
proof -
  obtain raw where raw: "parseFile os path = Inr (raw, [])" "aget raw = aget (dumped c @ dumped_settings c)" "wf_map raw"
    using parse_Dump [OF assms(1-4)] by blast
  have options: "\<forall>k. k \<in> set optionKeys \<longrightarrow> aget raw k = aget (dumped c) k"
  proof (intro allI impI)
    fix k assume k: "k \<in> set optionKeys"
    have "list_all (\<lambda>k. \<not> has_prefix k ''app.settings.'') optionKeys" by code_simp
    then have "aget (dumped_settings c) k = None"
      using k by (auto simp: aget_None_iff dumped_settings_def list_all_iff)
    then show "aget raw k = aget (dumped c) k" by (simp add: raw(2) aget_append split: option.split)
  qed
  obtain ws where ws: "resolve_options os raw = (c\<lparr>cf_Schemas := splitList (join '','' (cf_Schemas c)),
      cf_AppSettings := app_settings raw, cf_Warnings := ws\<rparr>, [])"
    using resolve_dumped [OF options assms(1,2)] by blast
  have "aget (app_settings raw) n = aget (cf_AppSettings c) n" for n
  proof -
    have inj: "map_of (map (\<lambda>(n, v). (setting_key n, v)) xs) (setting_key n) = map_of xs n" for xs :: "string go_map" and n
      by (induction xs) auto
    have "aget (dumped c) (setting_key n) = None"
      using keys_dumped [of c] has_prefix_setting [of n]
      by (auto simp: aget_None_iff list_all_iff simp del: has_prefix_setting)
    then have "aget raw (setting_key n) = aget (cf_AppSettings c) n"
      by (simp add: raw(2) aget_append dumped_settings_def inj) (simp add: aget_def inj)
    moreover have "aget (cf_AppSettings c) [] = None"
      using dump_safeD(15) [OF assms(1)] by (auto simp: aget_None_iff list_all_iff setting_ok_def)
    ultimately show ?thesis by (simp add: aget_app_settings [OF raw(3)])
  qed
  then have "aget (app_settings raw) = aget (cf_AppSettings c)" by blast
  moreover have "Load os visit path [] =
       (let c' = c\<lparr>cf_Schemas := splitList (join '','' (cf_Schemas c)), cf_AppSettings := app_settings raw, cf_Warnings := ws\<rparr> in
        if validate c' \<noteq> [] then Inl (''config: '' @ join ''; '' (validate c')) else Inr c')"
    using assms(5) by (simp add: Load_def raw(1) overlay_no_environment assms(6) fromRaw_def ws Let_def)
  ultimately show thesis by (rule that)
qed

lemma validate_settings [simp]: "validate (c\<lparr>cf_AppSettings := sets\<rparr>) = validate c"
  by (simp add: validate_def)

text \<open>
  C31. The dump is a configuration file: a loaded configuration whose texts the file syntax can carry, dumped
  to a file and loaded from it with no environment, comes back with every option as it was. The settings
  of the app namespace agree as a map, and only the warnings may differ.
\<close>

theorem dump_reloads:
  assumes "fromRaw os0 raw0 = Inr c" "dump_safe c" "list_all item_ok (cf_Schemas c)"
    and "os_ReadFile os path = Inr (Dump c)" "path \<noteq> []" "\<forall>p. visit p [] = []"
  shows "\<exists>c'. Load os visit path [] = Inr c' \<and> aget (cf_AppSettings c') = aget (cf_AppSettings c) \<and>
    c'\<lparr>cf_AppSettings := cf_AppSettings c, cf_Warnings := cf_Warnings c\<rparr> = c"
proof -
  have settled: "settled c" by (rule fromRaw_settled [OF assms(1)])
  obtain sets ws where s: "aget sets = aget (cf_AppSettings c)"
    and l: "Load os visit path [] =
       (let c' = c\<lparr>cf_Schemas := splitList (join '','' (cf_Schemas c)), cf_AppSettings := sets, cf_Warnings := ws\<rparr> in
        if validate c' \<noteq> [] then Inl (''config: '' @ join ''; '' (validate c')) else Inr c')"
    using load_dump [where visit = visit, OF assms(2) settled plain_items [OF assms(3)] assms(4-6)] by blast
  have "Load os visit path [] = Inr (c\<lparr>cf_AppSettings := sets, cf_Warnings := ws\<rparr>)"
    using settled by (simp add: l Let_def splitList_join [OF assms(3)] settled_def)
  then show ?thesis using s by simp
qed

text \<open>
  C34. The default exposed schema does not survive the dump: on every engine but PostgreSQL an unset
  \<open>db-schemas\<close> resolves to the one unnamed schema, which the dump writes as an empty list, and loading that
  file is refused.
\<close>

theorem default_schema_dump_refused:
  assumes "fromRaw os0 raw0 = Inr c" "dump_safe c" "cf_Schemas c = [[]]"
    and "os_ReadFile os path = Inr (Dump c)" "path \<noteq> []" "\<forall>p. visit p [] = []"
  shows "Load os visit path [] = Inl ''config: db-schemas must name at least one schema''"
proof -
  have settled: "settled c" by (rule fromRaw_settled [OF assms(1)])
  have plain: "plain_text (join '','' (cf_Schemas c))" by (simp add: assms(3) plain_text_def)
  obtain sets ws where
    l: "Load os visit path [] =
       (let c' = c\<lparr>cf_Schemas := splitList (join '','' (cf_Schemas c)), cf_AppSettings := sets, cf_Warnings := ws\<rparr> in
        if validate c' \<noteq> [] then Inl (''config: '' @ join ''; '' (validate c')) else Inr c')"
    using load_dump [where visit = visit, OF assms(2) settled plain assms(4-6)] by blast
  have "validate (c\<lparr>cf_Schemas := [], cf_AppSettings := sets, cf_Warnings := ws\<rparr>) = [''db-schemas must name at least one schema'']"
    using settled by (auto simp: settled_def validate_def problem_def split: if_split_asm)
  then show ?thesis by (simp add: l Let_def assms(3) splitList_def)
qed

definition demo_os :: "string \<Rightarrow> os_env" where
  "demo_os data = \<lparr>os_ReadFile = (\<lambda>p. Inr data), os_LookupEnv = (\<lambda>n. None), os_frac = (\<lambda>f u s. f * u div s)\<rparr>"

definition demo_options :: "string go_map" where
  "demo_options = [(''db-uri'', ''file:x''), (''jwt-secret'', ''s # t''), (''app.settings.tenant'', ''acme'')]"

definition demo_resolved :: "string list \<Rightarrow> config" where
  "demo_resolved schemas = config_defaults\<lparr>cf_DBURI := ''file:x'', cf_Schemas := schemas, cf_JWTSecret := ''s # t'',
     cf_AppSettings := [(''tenant'', ''acme'')], cf_AdminServerHost := ''!4''\<rparr>"

lemma demo_fromRaw:
  "fromRaw (demo_os []) ((''db-schemas'', ''api'') # demo_options) = Inr (demo_resolved [''api''])"
  "fromRaw (demo_os []) demo_options = Inr (demo_resolved [[]])"
  by code_simp+

lemma demo_dump_safe: "dump_safe (demo_resolved [''api''])" "dump_safe (demo_resolved [[]])"
  by code_simp+

theorem dump_reloads_witness:
  "\<exists>c'. Load (demo_os (Dump (demo_resolved [''api'']))) (\<lambda>p m. m) ''f'' [] = Inr c' \<and>
    cf_JWTSecret c' = ''s # t'' \<and> aget (cf_AppSettings c') ''tenant'' = Some ''acme''"
proof -
  have "list_all item_ok (cf_Schemas (demo_resolved [''api'']))" by code_simp
  from dump_reloads [OF demo_fromRaw(1) demo_dump_safe(1) this, of "demo_os (Dump (demo_resolved [''api'']))" "''f''" "\<lambda>p m. m"]
  obtain c' where c': "Load (demo_os (Dump (demo_resolved [''api'']))) (\<lambda>p m. m) ''f'' [] = Inr c'"
    and sets: "aget (cf_AppSettings c') = aget (cf_AppSettings (demo_resolved [''api'']))"
    and eq: "c'\<lparr>cf_AppSettings := cf_AppSettings (demo_resolved [''api'']), cf_Warnings := cf_Warnings (demo_resolved [''api''])\<rparr> =
      demo_resolved [''api'']"
    by (auto simp: demo_os_def)
  have "cf_JWTSecret c' = cf_JWTSecret (demo_resolved [''api''])" using arg_cong [OF eq, of cf_JWTSecret] by simp
  then show ?thesis using c' sets by (simp add: demo_resolved_def)
qed

theorem default_schema_dump_refused_witness:
  "Load (demo_os (Dump (demo_resolved [[]]))) (\<lambda>p m. m) ''f'' [] = Inl ''config: db-schemas must name at least one schema''"
  by (rule default_schema_dump_refused [OF demo_fromRaw(2) demo_dump_safe(2)]) (simp_all add: demo_resolved_def demo_os_def)

end
