(* ===== verification/App_Facts.thy ===== *)
theory App_Facts
  imports App Config_Dump
begin

section \<open>What stays true of a running process\<close>

text \<open>
  Whatever signals, notifications and requests a booted process receives, a frontend is in service, built from
  a configuration that passed validation and keeps the boot-time options (\<open>process_serves\<close>), and on
  SQLite it answers the next request (\<open>process_answers\<close>). A configuration that loads and cannot be built
  stays in the process and blocks every later schema reload (\<open>failed_rebuild_blocks_schema\<close>).
\<close>

subsection \<open>The frontend a configuration builds\<close>

definition boot_options :: "config \<Rightarrow> (string list \<times> int list \<times> bool)" where
  "boot_options c =
     ([cf_Backend c, cf_DBURI c, cf_ServerHost c, cf_ServerUnixSocket c, cf_ServerUnixSocketMode c, cf_AdminServerHost c,
       cf_FunctionRegistry c],
      [cf_DBPool c, cf_DBPoolAcquisitionTimeout c, cf_DBPoolMaxIdleTime c, cf_DBPoolMaxLifetime c, cf_ServerPort c,
       cf_AdminServerPort c],
      cf_DBPoolAutomaticRecovery c)"

lemma merge_boot_options [simp]: "boot_options (fst (MergeReloadable c nxt)) = boot_options c"
  by (simp add: boot_options_def MergeReloadable_def)

lemma build_frontend_InrE:
  assumes "build_frontend env supports c m = Inr (srv, cache)"
  obtains v where "sv_verifier srv = Some v"
    "cache = None \<or> (\<exists>n. cache = Some (newJWTCache n))"
    "if cf_PolicyRegistry c = [] then sv_authz srv = None
     else \<exists>reg. ParseRegistry (ae_policies env) (cf_PolicyRegistry c) = Inr reg \<and> sv_authz srv = Some reg"
    "sv_model srv = fst m" "sv_maxRows srv = cf_MaxRows c" "sv_maxBody srv = cf_MaxRequestBody c" "sv_searchPath srv = cf_Schemas c"
    "vf_anonRole v = cf_AnonRole c" "cf_PreRequest c \<noteq> [] \<longrightarrow> supports"
proof -
  obtain secret where secret: "jwtSecretBytes env c = Inr secret"
    using assms by (cases "jwtSecretBytes env c") (auto simp: build_frontend_def attachAuth_def)
  obtain v cache' where v': "NewVerifier (ae_jwt env) (auth_config_of c secret) = Inr (v, cache')"
    using assms secret by (cases "NewVerifier (ae_jwt env) (auth_config_of c secret)")
      (auto simp: build_frontend_def attachAuth_def)
  have srv: "bindr (attachPreRequest supports c (SetVerifier (Some v) (configured_server c m))) (\<lambda>srv.
       bindr (attachAuthz env c srv) (\<lambda>srv. Inr (srv, cache'))) = Inr (srv, cache)"
    using assms secret v' by (simp add: build_frontend_def attachAuth_def)
  then have v: "NewVerifier (ae_jwt env) (auth_config_of c secret) = Inr (v, cache)"
    using v' by (auto simp: bindr_Inr_conv)
  have anon: "vf_anonRole v = cf_AnonRole c" "cache = None \<or> (\<exists>n. cache = Some (newJWTCache n))"
    using v by (auto simp: NewVerifier_def auth_config_of_def bindr_Inr_conv split: if_split_asm)
  let ?base = "SetVerifier (Some v) (configured_server c m)"
  have base: "sv_verifier ?base = Some v" "sv_authz ?base = None" "sv_model ?base = fst m" "sv_maxRows ?base = cf_MaxRows c"
      "sv_maxBody ?base = cf_MaxRequestBody c" "sv_searchPath ?base = cf_Schemas c"
    by (simp_all add: SetVerifier_def configured_server_def NewServer_def SetLogQuery_def SetAppSettings_def SetPreRequest_def
        SetAggregatesEnabled_def SetPlanEnabled_def SetTxEnd_def SetMaxRequestBody_def SetMaxRows_def
        SetCORSAllowedOrigins_def SetRootSpec_def SetOpenAPI_def SetDefaultRole_def)
  show thesis
    by (rule that [of v])
      (use srv base anon in \<open>auto simp: attachPreRequest_def attachAuthz_def SetPreRequest_def SetAuthz_def bindr_Inr_conv split: if_split_asm\<close>)
qed

text \<open>Whether a frontend can be built does not depend on the schema.\<close>

lemma build_frontend_fails:
  assumes "build_frontend env supports c m = Inl e"
  shows "build_frontend env supports c m' = Inl e"
proof (cases "attachAuth env c (configured_server c m)")
  case (Inl x)
  then have "attachAuth env c (configured_server c m') = Inl x"
    by (auto simp: attachAuth_def bindr_def split: sum.split_asm sum.split)
  then show ?thesis using assms Inl by (simp add: build_frontend_def)
next
  case (Inr sc)
  then obtain v cache where "attachAuth env c (configured_server c m) = Inr (SetVerifier (Some v) (configured_server c m), cache)"
      "attachAuth env c (configured_server c m') = Inr (SetVerifier (Some v) (configured_server c m'), cache)"
    by (auto simp: attachAuth_def bindr_def split: sum.split_asm sum.split)
  then show ?thesis using assms
    by (auto simp: build_frontend_def attachPreRequest_def attachAuthz_def bindr_def split: if_split_asm sum.split_asm sum.split)
qed

subsection \<open>The invariant of the process\<close>

text \<open>
  The configurations the process may take up: the one it booted with, and every configuration loaded since with the
  boot-time options put back.
\<close>

definition adopted :: "string \<Rightarrow> config \<Rightarrow> config \<Rightarrow> bool" where
  "adopted path c0 c \<longleftrightarrow> c = c0 \<or> (\<exists>src nxt. load_from src path = Inr nxt \<and> c = fst (MergeReloadable c0 nxt))"

lemma load_from_valid: "load_from src path = Inr c \<Longrightarrow> validate c = []"
  unfolding load_from_def by (rule Load_valid)

lemma adopted_valid: "adopted path c0 c \<Longrightarrow> validate c0 = [] \<Longrightarrow> validate c = []"
  by (auto simp: adopted_def intro: merge_valid load_from_valid)

lemma adopted_boot_options: "adopted path c0 c \<Longrightarrow> boot_options c = boot_options c0"
  by (auto simp: adopted_def)

lemma adopted_merge:
  assumes "adopted path c0 c" "load_from src path = Inr nxt"
  shows "adopted path c0 (fst (MergeReloadable c nxt))"
proof -
  have "fst (MergeReloadable c nxt) = fst (MergeReloadable c0 nxt)"
    using adopted_boot_options [OF assms(1)] by (simp add: boot_options_def MergeReloadable_def)
  then show ?thesis using assms(2) unfolding adopted_def by metis
qed

definition serving :: "app_env \<Rightarrow> config \<Rightarrow> app \<Rightarrow> bool" where
  "serving env c0 a \<longleftrightarrow>
     adopted (ap_cfgPath a) c0 (ap_cfg a) \<and>
     (\<exists>c m srv cache0 cache. adopted (ap_cfgPath a) c0 c \<and>
        build_frontend env (eh_preRequest (ap_be a)) c m = Inr (srv, cache0) \<and> ap_handler a = Some (srv, cache))"

lemma serving_logged [simp]: "serving env c0 (logged msg a) = serving env c0 a"
  by (simp add: serving_def logged_def)

lemma serving_log_failure: "serving env c0 (snd r) \<Longrightarrow> serving env c0 (log_failure what r)"
  by (simp add: log_failure_def split: option.split)

lemma rebuild_serving:
  assumes "adopted (ap_cfgPath a) c0 (ap_cfg a)"
    and "fst (rebuildLocked env a) = None \<or>
      (\<exists>c m srv cache0 cache. adopted (ap_cfgPath a) c0 c \<and>
        build_frontend env (eh_preRequest (ap_be a)) c m = Inr (srv, cache0) \<and> ap_handler a = Some (srv, cache))"
  shows "serving env c0 (snd (rebuildLocked env a))"
proof (cases "build_frontend env (eh_preRequest (ap_be a)) (ap_cfg a) (ap_model a)")
  case (Inl e)
  then have "rebuildLocked env a = (Some e, a)" by (simp add: rebuildLocked_def)
  then show ?thesis using assms by (simp add: serving_def)
next
  case (Inr sc)
  obtain srv cache where "sc = (srv, cache)" by (cases sc)
  then have b: "build_frontend env (eh_preRequest (ap_be a)) (ap_cfg a) (ap_model a) = Inr (srv, cache)" using Inr by simp
  then have r: "snd (rebuildLocked env a) = a\<lparr>ap_handler := Some (srv, cache)\<rparr>" by (simp add: rebuildLocked_def)
  show ?thesis unfolding r serving_def
  proof (intro conjI exI)
    show "build_frontend env (eh_preRequest (ap_be (a\<lparr>ap_handler := Some (srv, cache)\<rparr>))) (ap_cfg a) (ap_model a) = Inr (srv, cache)"
      using b by simp
  qed (use assms(1) in simp_all)
qed

lemma serving_parts:
  assumes "serving env c0 a"
  shows "adopted (ap_cfgPath a) c0 (ap_cfg a)"
    "\<exists>c m srv cache0 cache. adopted (ap_cfgPath a) c0 c \<and>
        build_frontend env (eh_preRequest (ap_be a)) c m = Inr (srv, cache0) \<and> ap_handler a = Some (srv, cache)"
  using assms unfolding serving_def by blast+

lemma reloadSchema_serving:
  assumes "serving env c0 a"
  shows "serving env c0 (snd (reloadSchema env intro a))"
proof (cases "fst intro")
  case (Inl e)
  then show ?thesis using assms by (simp add: reloadSchema_def serving_def)
next
  case (Inr m)
  show ?thesis using Inr serving_parts [OF assms] by (simp add: reloadSchema_def) (rule rebuild_serving, simp_all)
qed

lemma applySchemaConfig_caps [simp]: "eh_preRequest (applySchemaConfig c be) = eh_preRequest be"
  by (simp add: applySchemaConfig_def Let_def)

lemma reloadConfig_serving:
  assumes "serving env c0 a"
  shows "serving env c0 (snd (reloadConfig env src a))"
proof (cases "load_from src (ap_cfgPath a)")
  case (Inl e)
  then show ?thesis using assms by (simp add: reloadConfig_def)
next
  case (Inr nxt)
  then show ?thesis using serving_parts [OF assms] adopted_merge [OF serving_parts(1) [OF assms] Inr]
    by (simp add: reloadConfig_def case_prod_unfold Let_def) (rule rebuild_serving, simp_all)
qed

lemma on_trigger_serving: "serving env c0 a \<Longrightarrow> serving env c0 (on_trigger env t a)"
  by (auto simp: on_trigger_def schema_reload_def config_reload_def handleDBNotify_def
      intro!: serving_log_failure reloadSchema_serving reloadConfig_serving split: trigger.split reload_action.split)

lemma boot_start:
  assumes "boot env ds src path intro nil_model = Inr a"
  obtains cfg a0 where "load_from src path = Inr cfg" "ap_cfg a0 = cfg" "ap_cfgPath a0 = path" "ap_handler a0 = None" "reloadSchema env intro a0 = (None, a)"
proof -
  obtain cfg be where cfg: "load_from src path = Inr cfg" and be: "openBackend env ds cfg = Inr be"
    using assms by (auto simp: boot_def bindr_Inr_conv)
  define a0 where "a0 = \<lparr>ap_cfgPath = path, ap_be = be, ap_metrics = NewMetrics (cf_DBPool cfg), ap_cfg = cfg, ap_model = nil_model,
      ap_handler = None, ap_log = map (\<lambda>w. ''dbrest: warning: '' @ w) (cf_Warnings cfg)\<rparr>"
  have "reloadSchema env intro a0 = (None, a)"
    using assms by (auto simp: boot_def start_app_def cfg be a0_def Let_def split: prod.split_asm option.split_asm)
  then show thesis using that [of cfg a0] cfg by (simp add: a0_def)
qed

lemma boot_serving:
  assumes "boot env ds src path intro nil_model = Inr a"
  shows "\<exists>c0. load_from src path = Inr c0 \<and> serving env c0 a \<and> ap_cfgPath a = path"
proof -
  obtain cfg a0 where cfg: "load_from src path = Inr cfg" "ap_cfg a0 = cfg" "ap_cfgPath a0 = path"
      and r: "reloadSchema env intro a0 = (None, a)"
    using assms by (rule boot_start)
  obtain m where m: "fst intro = Inr m" using r by (cases "fst intro") (auto simp: reloadSchema_def)
  let ?a1 = "a0\<lparr>ap_metrics := ObserveSchemaCacheLoad (snd intro) False (ap_metrics a0), ap_model := m\<rparr>"
  have r1: "rebuildLocked env ?a1 = (None, a)" using r m by (simp add: reloadSchema_def)
  have "serving env cfg (snd (rebuildLocked env ?a1))"
    by (rule rebuild_serving) (use cfg r1 in \<open>simp_all add: adopted_def\<close>)
  moreover have "ap_cfgPath (snd (rebuildLocked env ?a1)) = path"
    using cfg(3) by (simp add: rebuildLocked_def split: sum.split)
  ultimately show ?thesis using cfg(1) r1 by auto
qed

lemma on_trigger_path: "ap_cfgPath (on_trigger env t a) = ap_cfgPath a"
  by (simp add: on_trigger_def schema_reload_def config_reload_def handleDBNotify_def log_failure_def logged_def reloadSchema_def
      reloadConfig_def rebuildLocked_def case_prod_unfold Let_def split: trigger.split reload_action.split sum.split option.split)

text \<open>A step leaves the frontend in service or replaces it by a new one with a new token cache.\<close>

definition new_cache :: "claims jwt_cache option \<Rightarrow> bool" where
  "new_cache cache \<longleftrightarrow> cache = None \<or> (\<exists>n. cache = Some (newJWTCache n))"

definition renews :: "app \<Rightarrow> app \<Rightarrow> bool" where
  "renews a a' \<longleftrightarrow> ap_handler a' = ap_handler a \<or> (\<exists>srv cache. ap_handler a' = Some (srv, cache) \<and> new_cache cache)"

lemma rebuild_renews: "ap_handler a0 = ap_handler a \<Longrightarrow> renews a0 (snd (rebuildLocked env a))"
proof (cases "build_frontend env (eh_preRequest (ap_be a)) (ap_cfg a) (ap_model a)")
  case (Inr sc)
  obtain srv cache where sc: "sc = (srv, cache)" by (cases sc)
  with Inr have "build_frontend env (eh_preRequest (ap_be a)) (ap_cfg a) (ap_model a) = Inr (srv, cache)" by simp
  then have "new_cache cache" unfolding new_cache_def by (rule build_frontend_InrE)
  then show ?thesis using Inr sc by (simp add: rebuildLocked_def renews_def)
qed (simp add: rebuildLocked_def renews_def)

lemma reloadSchema_renews: "ap_handler a0 = ap_handler a \<Longrightarrow> renews a0 (snd (reloadSchema env intro a))"
  by (auto simp: reloadSchema_def renews_def [of _ "a\<lparr>ap_metrics := x\<rparr>" for x] intro!: rebuild_renews split: sum.split)

lemma reloadConfig_renews: "ap_handler a0 = ap_handler a \<Longrightarrow> renews a0 (snd (reloadConfig env src a))"
  by (auto simp: reloadConfig_def case_prod_unfold Let_def intro!: rebuild_renews split: sum.split) (simp add: renews_def)

lemma log_failure_renews: "renews a (snd r) \<Longrightarrow> renews a (log_failure what r)"
  by (simp add: renews_def log_failure_def logged_def split: option.split)

lemma on_trigger_renews: "renews a (on_trigger env t a)"
proof -
  have "renews a a" by (simp add: renews_def)
  moreover have "ap_handler a = ap_handler (logged why a)" for why by (simp add: logged_def)
  ultimately show ?thesis
    by (auto simp: on_trigger_def schema_reload_def config_reload_def handleDBNotify_def
        intro!: log_failure_renews reloadSchema_renews reloadConfig_renews split: trigger.split reload_action.split)
qed

text \<open>The requests since the frontend was built started from its new token cache.\<close>

definition fresh_run :: "go_env \<Rightarrow> root_env \<Rightarrow> ('d, 'e) backend \<Rightarrow> app \<times> 'd \<Rightarrow> bool" where
  "fresh_run ge re be s \<longleftrightarrow>
     (\<forall>srv cache. ap_handler (fst s) = Some (srv, cache) \<longrightarrow>
       (\<exists>cache0 d0. new_cache cache0 \<and> runs ge re be (srv, cache0, d0) (srv, cache, snd s)))"

lemma process_fresh:
  assumes "process env ge re be a0 s" "boot env ds src path intro nil_model = Inr a0"
  shows "fresh_run ge re be s"
  using assms
proof (induction rule: process.induct)
  case (booted d)
  then obtain a1 where a1: "ap_handler a1 = None" "reloadSchema env intro a1 = (None, a0)" by (rule boot_start)
  have "renews a1 a0" using reloadSchema_renews [of a1 a1 env intro] a1 by simp
  then show ?case using a1(1) by (auto simp: renews_def fresh_run_def) (blast intro: runs.start)
next
  case (triggered a d t)
  show ?case
  proof (cases "ap_handler (on_trigger env t a) = ap_handler a")
    case True
    then show ?thesis using triggered.IH [OF triggered.prems] by (simp add: fresh_run_def)
  next
    case False
    then obtain srv cache where "ap_handler (on_trigger env t a) = Some (srv, cache)" "new_cache cache"
      using on_trigger_renews [of a env t] by (auto simp: renews_def)
    then show ?thesis by (auto simp: fresh_run_def intro: runs.start)
  qed
next
  case (requested a d srv cache now r resp cache' d')
  then obtain cache0 d0 where "new_cache cache0" "runs ge re be (srv, cache0, d0) (srv, cache, d)"
    by (auto simp: fresh_run_def)
  then have "runs ge re be (srv, cache0, d0) (srv, cache', d')" using requested.hyps(3) by (blast intro: runs.serve)
  then show ?case using \<open>new_cache cache0\<close> by (auto simp: fresh_run_def)
qed

lemma serving_cache: "serving env c0 a \<Longrightarrow> ap_handler a = Some (srv, cache) \<Longrightarrow> serving env c0 (a\<lparr>ap_handler := Some (srv, cache')\<rparr>)"
  by (simp add: serving_def)

lemma process_serving:
  assumes "process env ge re be a0 s" "serving env c0 a0"
  shows "serving env c0 (fst s) \<and> ap_cfgPath (fst s) = ap_cfgPath a0"
  using assms
proof (induction rule: process.induct)
  case (triggered a d t)
  then show ?case by (simp add: on_trigger_serving on_trigger_path)
next
  case (requested a d srv cache now r resp cache' d')
  then show ?case by (simp add: serving_cache)
qed simp

subsection \<open>Starting\<close>

text \<open>A process that serves was booted from the configuration its flags name.\<close>

lemma run_command_serving:
  assumes "run_command env net ds show_schema version_line src intro nil_model fl = Serving a lsn"
  shows "\<exists>path. resolveConfigPath (fl_config fl) (fl_args fl) = Inr path \<and> boot env ds src path intro nil_model = Inr a"
  using assms unfolding run_command_def boot_def
  by (auto split: sum.split_asm if_split_asm option.split_asm)

text \<open>The validated socket mode always parses: the listener is never closed for it.\<close>

lemma socket_mode_parses: "validate c = [] \<Longrightarrow> \<exists>n. parse_octal32 (cf_ServerUnixSocketMode c) = Some n \<and> 384 \<le> n \<and> n \<le> 511"
  by (auto simp: validate_iff mode_problems_def problem_def not_less split: option.split_asm if_split_asm)

text \<open>The example the command prints is a configuration file that binds the two options it sets.\<close>

lemma parse_comment:
  "parse_lines os path i raw ws ([] # ls) = parse_lines os path (Suc i) raw ws ls"
  "parse_lines os path i raw ws ((CHR ''#'' # l) # ls) = parse_lines os path (Suc i) raw ws ls"
  by (simp_all add: stripComment_def)

lemma split_lines:
  "\<forall>l \<in> set ls. CHR 0x0A \<notin> set l \<Longrightarrow> split_byte (CHR 0x0A) (concat (map (\<lambda>l. l @ [CHR 0x0A]) ls)) = ls @ [[]]"
  by (induction ls) (simp_all add: split_byte_append_sep)

lemma example_loads:
  "parse_lines os path 0 [] [] (split_byte (CHR 0x0A) exampleConfig) =
     Inr ([(''db-backend'', ''sqlite''), (''db-uri'', ''file:dbrest.db'')], [])"
proof -
  have split: "split_byte (CHR 0x0A) exampleConfig = example_lines @ [[]]"
    unfolding exampleConfig_def by (rule split_lines) code_simp
  let ?b = "(''db-backend'', go_quote ''sqlite'')" and ?u = "(''db-uri'', go_quote ''file:dbrest.db'')"
  have lines: "text_line ?b = ''db-backend = '' @ [dquote] @ ''sqlite'' @ [dquote]"
      "text_line ?u = ''db-uri = '' @ [dquote] @ ''file:dbrest.db'' @ [dquote]"
    by code_simp+
  have "plain_text ''sqlite''" "plain_text ''file:dbrest.db''" by code_simp+
  then have "dumped_text (go_quote ''sqlite'')" "dumped_text (go_quote ''file:dbrest.db'')" by (auto simp: dumped_text_def)
  moreover have "list_all key_char ''db-backend'' \<and> known_key (config_key ''db-backend'')"
      "list_all key_char ''db-uri'' \<and> known_key (config_key ''db-uri'')" by code_simp+
  ultimately have ok: "line_ok ?b" "line_ok ?u" by (simp_all add: line_ok_def)
  have bind: "bind_line ?b [] = [(''db-backend'', ''sqlite'')]"
      "bind_line ?u [(''db-backend'', ''sqlite'')] = [(''db-backend'', ''sqlite''), (''db-uri'', ''file:dbrest.db'')]"
    by code_simp+
  show ?thesis
    unfolding split example_lines_def lines [symmetric]
    by (simp add: parse_comment parse_line ok bind del: parse_lines.simps(2))
qed

subsection \<open>Service\<close>

text \<open>
  C2. In every state a booted process reaches by signals, notifications and requests a frontend is in service,
  built from the configuration of the boot or one loaded since with the boot-time options put back, which passes every
  check: a token verifier is attached, exactly the declared policy registry is the gate, and the row cap,
  the body cap and the exposed schemas are the options of that configuration. The configuration the process
  holds is of the same kind.
\<close>

theorem process_serves:
  assumes "boot env ds src path intro nil_model = Inr a0" "process env ge re be a0 (a, d)"
  shows "\<exists>c0 c srv cache. load_from src path = Inr c0 \<and> ap_handler a = Some (srv, cache) \<and>
    adopted path c0 c \<and> validate c = [] \<and> boot_options c = boot_options c0 \<and> adopted path c0 (ap_cfg a) \<and>
    map_option vf_anonRole (sv_verifier srv) = Some (cf_AnonRole c) \<and>
    (if cf_PolicyRegistry c = [] then sv_authz srv = None
     else \<exists>reg. ParseRegistry (ae_policies env) (cf_PolicyRegistry c) = Inr reg \<and> sv_authz srv = Some reg) \<and>
    sv_maxRows srv = cf_MaxRows c \<and> sv_maxBody srv = cf_MaxRequestBody c \<and> sv_searchPath srv = cf_Schemas c \<and> cf_Schemas c \<noteq> []"
proof -
  obtain c0 where c0: "load_from src path = Inr c0" "serving env c0 a0" "ap_cfgPath a0 = path" using boot_serving [OF assms(1)] by blast
  have s: "serving env c0 a" and p: "ap_cfgPath a = path" using process_serving [OF assms(2) c0(2)] c0(3) by simp_all
  obtain c m srv cache0 cache where c: "adopted path c0 c"
      "build_frontend env (eh_preRequest (ap_be a)) c m = Inr (srv, cache0)" "ap_handler a = Some (srv, cache)"
    using serving_parts(2) [OF s] p by blast
  have v: "validate c = []" using adopted_valid [OF c(1)] load_from_valid [OF c0(1)] by blast
  then have "cf_Schemas c \<noteq> []" by (simp add: validate_iff)
  with c0(1) c v adopted_boot_options [OF c(1)] serving_parts(1) [OF s] p show ?thesis
    by (intro exI [of _ c0] exI [of _ c] exI [of _ srv] exI [of _ cache]) (auto elim!: build_frontend_InrE)
qed

text \<open>
  C3. On SQLite the process keeps answering: in every state a booted process reaches by signals,
  notifications and requests, the next request is answered with a response when the keys of the schema in
  service pair up, also after reloads that failed.
\<close>

theorem process_answers:
  assumes "boot env ds src path intro nil_model = Inr a0"
    and "process env ge re (sqlite_backend db parse_float decode reg) a0 (a, d)"
    and "\<forall>srv cache. ap_handler a = Some (srv, cache) \<longrightarrow> keys_fit (sv_model srv)"
  shows "\<exists>srv cache resp cache' d'. ap_handler a = Some (srv, cache) \<and>
    ServeHTTP ge re srv (sqlite_backend db parse_float decode reg) now r cache d = Some (resp, cache', d')"
proof -
  obtain c0 where c0: "serving env c0 a0" using boot_serving [OF assms(1)] by blast
  obtain srv cache where h: "ap_handler a = Some (srv, cache)"
    using serving_parts(2) [OF process_serving [OF assms(2) c0, THEN conjunct1]] by auto
  obtain cache0 d0 where "new_cache cache0"
      and runs: "runs ge re (sqlite_backend db parse_float decode reg) (srv, cache0, d0) (srv, cache, d)"
    using process_fresh [OF assms(2,1)] h by (auto simp: fresh_run_def)
  then obtain n where "cache0 = None \<or> cache0 = Some (newJWTCache n)" by (auto simp: new_cache_def)
  from sq.run_answers [OF this runs] assms(3) h show ?thesis by blast
qed

text \<open>
  C33. A reload whose configuration loads but cannot be turned into a frontend is reported as failed and leaves the
  frontend in service, but the refused configuration stays in the process: from then on every schema reload
  fails with the same error, however healthy the database, and the frontend keeps the old schema.
\<close>

theorem failed_rebuild_blocks_schema:
  assumes "load_from src (ap_cfgPath a) = Inr nxt" "reloadConfig env src a = (Some e, a')"
  shows "ap_cfg a' = fst (MergeReloadable (ap_cfg a) nxt) \<and> ap_handler a' = ap_handler a \<and>
    (\<forall>m elapsed. \<exists>a''. reloadSchema env (Inr m, elapsed) a' = (Some e, a'') \<and> ap_handler a'' = ap_handler a \<and> ap_model a'' = m)"
proof -
  define b where "b = a\<lparr>ap_log := ap_log a @ map (\<lambda>msg. ''dbrest: reload: '' @ msg) (snd (MergeReloadable (ap_cfg a) nxt)) @
      map (\<lambda>w. ''dbrest: warning: '' @ w) (cf_Warnings (fst (MergeReloadable (ap_cfg a) nxt))),
    ap_cfg := fst (MergeReloadable (ap_cfg a) nxt), ap_be := applySchemaConfig (fst (MergeReloadable (ap_cfg a) nxt)) (ap_be a)\<rparr>"
  have "reloadConfig env src a = rebuildLocked env b"
    by (simp only: reloadConfig_def assms(1) sum.case case_prod_unfold Let_def b_def)
  then have "rebuildLocked env b = (Some e, a')" using assms(2) by simp
  then have f: "build_frontend env (eh_preRequest (ap_be b)) (ap_cfg b) (ap_model b) = Inl e" and eq: "a' = b"
    by (auto simp: rebuildLocked_def split: sum.split_asm)
  have "build_frontend env (eh_preRequest (ap_be b)) (ap_cfg b) m = Inl e" for m
    by (rule build_frontend_fails [OF f])
  then show ?thesis by (simp add: eq reloadSchema_def rebuildLocked_def) (simp add: b_def)
qed

subsection \<open>A process\<close>

definition demo_app_env :: app_env where
  "demo_app_env = \<lparr>ae_jwt = demo_lib, ae_base64_error = (\<lambda>s. ''illegal base64 data''), ae_policies = (\<lambda>s. Inl ''EOF''),
     ae_functions = (\<lambda>s. Inr [])\<rparr>"

definition demo_handle :: engine_handle where
  "demo_handle = \<lparr>eh_has_schemas = False, eh_has_searchPath = False, eh_has_hoisted = False, eh_has_db = True,
     eh_has_registry = True, eh_preRequest = False, eh_schemas = [], eh_searchPath = [], eh_hoisted = [], eh_pool = None,
     eh_registry = None\<rparr>"

definition demo_drivers :: "engine_handle driver go_map" where
  "demo_drivers = [(''sqlite'', \<lparr>dr_Open = (\<lambda>dsn. Inr demo_handle), dr_OpenWithOptions = None\<rparr>)]"

definition demo_sources :: "string \<Rightarrow> sources" where
  "demo_sources data = \<lparr>so_os = demo_os data, so_visit = (\<lambda>p m. m), so_environ = []\<rparr>"

definition demo_file :: string where
  "demo_file = ''db-uri = file:x'' @ CHR 0x0A # ''db-max-rows = 50''"

definition demo_config :: config where
  "demo_config = config_defaults\<lparr>cf_DBURI := ''file:x'', cf_Schemas := [[]], cf_MaxRows := 50, cf_AdminServerHost := ''!4'',
     cf_Warnings := [anonymous_posture]\<rparr>"

definition demo_boot :: "string + app" where
  "demo_boot = boot demo_app_env demo_drivers (demo_sources demo_file) ''f'' (Inr (demo_model, []), 5) (demo_model, [])"

lemma load_file:
  assumes "parseFile (demo_os data) ''f'' = Inr (raw, [])" "fromRaw (demo_os data) raw = Inr c"
  shows "load_from (demo_sources data) ''f'' = Inr c"
  using assms by (simp add: load_from_def Load_def demo_sources_def overlay_no_environment)

lemma demo_load: "load_from (demo_sources demo_file) ''f'' = Inr demo_config"
proof (rule load_file)
  show "parseFile (demo_os demo_file) ''f'' = Inr ([(''db-uri'', ''file:x''), (''db-max-rows'', ''50'')], [])" by code_simp
  show "fromRaw (demo_os demo_file) [(''db-uri'', ''file:x''), (''db-max-rows'', ''50'')] = Inr demo_config" by code_simp
qed

lemma demo_opened: "openBackend demo_app_env demo_drivers demo_config = Inr demo_handle"
  by code_simp

lemma demo_verifier_built:
  "\<exists>v cache. NewVerifier demo_lib (auth_config_of demo_config []) = Inr (v, cache)"
proof -
  have "case NewVerifier demo_lib (auth_config_of demo_config []) of Inl e \<Rightarrow> False | Inr vc \<Rightarrow> True" by code_simp
  then show ?thesis by (auto split: sum.split_asm)
qed

lemma demo_attached:
  assumes "auth_config_of c [] = auth_config_of demo_config []" "cf_JWTSecret c = []" "\<not> cf_JWTSecretIsBase64 c" "cf_PreRequest c = []"
  shows "\<exists>srv cache. build_frontend demo_app_env b c m = bindr (attachAuthz demo_app_env c srv) (\<lambda>srv. Inr (srv, cache))"
proof -
  obtain v cache where "NewVerifier demo_lib (auth_config_of demo_config []) = Inr (v, cache)" using demo_verifier_built by blast
  moreover have "ae_jwt demo_app_env = demo_lib" by (simp add: demo_app_env_def)
  ultimately have "build_frontend demo_app_env b c m =
      bindr (attachAuthz demo_app_env c (SetVerifier (Some v) (configured_server c m))) (\<lambda>srv. Inr (srv, cache))"
    using assms by (simp add: build_frontend_def attachAuth_def jwtSecretBytes_def attachPreRequest_def)
  then show ?thesis by blast
qed

lemma demo_fields:
  "cf_JWTSecret demo_config = []" "\<not> cf_JWTSecretIsBase64 demo_config" "cf_PreRequest demo_config = []"
  "cf_PolicyRegistry demo_config = []" "cf_Backend demo_config = ''sqlite''"
  by (simp_all add: demo_config_def config_defaults_def)

lemma demo_booted:
  "\<exists>a srv cache. demo_boot = Inr a \<and> ap_handler a = Some (srv, cache) \<and> sv_model srv = demo_model \<and>
     ap_cfg a = demo_config \<and> ap_cfgPath a = ''f''"
proof -
  obtain srv cache where b: "build_frontend demo_app_env False demo_config (demo_model, []) = Inr (srv, cache)"
    using demo_attached [of demo_config False "(demo_model, [])"] by (auto simp: attachAuthz_def demo_fields)
  have "eh_preRequest demo_handle = False" by (simp add: demo_handle_def)
  moreover have "sv_model srv = demo_model" using b by (auto elim: build_frontend_InrE)
  ultimately show ?thesis using b
    by (simp add: demo_boot_def boot_def start_app_def demo_load demo_opened reloadSchema_def rebuildLocked_def)
qed

theorem process_serves_witness:
  "\<exists>a srv cache. demo_boot = Inr a \<and> ap_handler a = Some (srv, cache) \<and> sv_verifier srv \<noteq> None \<and> sv_searchPath srv \<noteq> []"
proof -
  obtain a where a: "demo_boot = Inr a" using demo_booted by blast
  then have b: "boot demo_app_env demo_drivers (demo_sources demo_file) ''f'' (Inr (demo_model, []), 5) (demo_model, []) = Inr a"
    by (simp add: demo_boot_def)
  have p: "process demo_app_env demo_env demo_root demo_backend a (a, 7)" by (rule process.booted)
  show ?thesis using process_serves [OF b p] a by auto
qed

theorem process_answers_witness:
  "\<exists>a srv cache resp cache' d'. demo_boot = Inr a \<and> ap_handler a = Some (srv, cache) \<and>
     ServeHTTP demo_env demo_root srv (sqlite_backend demo_db (\<lambda>_. None) (\<lambda>_. None) EmptyRegistry) 0
       (demo_request ''GET'' ''/films'' ''select=title'') cache 7 = Some (resp, cache', d')"
proof -
  obtain a srv cache where a: "demo_boot = Inr a" "ap_handler a = Some (srv, cache)" "sv_model srv = demo_model"
    using demo_booted by blast
  then have b: "boot demo_app_env demo_drivers (demo_sources demo_file) ''f'' (Inr (demo_model, []), 5) (demo_model, []) = Inr a"
    by (simp add: demo_boot_def)
  have p: "process demo_app_env demo_env demo_root (sqlite_backend demo_db (\<lambda>_. None) (\<lambda>_. None) EmptyRegistry) a (a, 7)"
    by (rule process.booted)
  have "\<forall>srv cache. ap_handler a = Some (srv, cache) \<longrightarrow> keys_fit (sv_model srv)"
    using a(2,3) demo_keys_fit by simp
  from process_answers [OF b p this] show ?thesis using a(1) by blast
qed

text \<open>A policy registry that does not parse, taken up by a reload.\<close>

definition demo_bad_file :: string where
  "demo_bad_file = ''db-uri = file:x'' @ CHR 0x0A # ''policy-registry = deny all''"

definition demo_bad_config :: config where
  "demo_bad_config = demo_config\<lparr>cf_MaxRows := 0, cf_PolicyRegistry := ''deny all''\<rparr>"

lemma demo_bad_load: "load_from (demo_sources demo_bad_file) ''f'' = Inr demo_bad_config"
proof (rule load_file)
  show "parseFile (demo_os demo_bad_file) ''f'' = Inr ([(''db-uri'', ''file:x''), (''policy-registry'', ''deny all'')], [])" by code_simp
  show "fromRaw (demo_os demo_bad_file) [(''db-uri'', ''file:x''), (''policy-registry'', ''deny all'')] = Inr demo_bad_config" by code_simp
qed

lemma demo_bad_build: "build_frontend demo_app_env b demo_bad_config m = Inl ''policy-registry: EOF''"
proof -
  obtain srv cache where "build_frontend demo_app_env b demo_bad_config m =
      bindr (attachAuthz demo_app_env demo_bad_config srv) (\<lambda>srv. Inr (srv, cache))"
    using demo_attached [of demo_bad_config b m] by (auto simp: demo_bad_config_def demo_fields auth_config_of_def)
  then show ?thesis
    by (simp add: attachAuthz_def demo_bad_config_def demo_fields ParseRegistry_def demo_app_env_def)
qed

theorem failed_rebuild_blocks_schema_witness:
  "\<exists>a a'. demo_boot = Inr a \<and> reloadConfig demo_app_env (demo_sources demo_bad_file) a = (Some ''policy-registry: EOF'', a') \<and>
    fst (reloadSchema demo_app_env (Inr (demo_model, []), 3) a') = Some ''policy-registry: EOF''"
proof -
  obtain a where a: "demo_boot = Inr a" "ap_cfg a = demo_config" "ap_cfgPath a = ''f''"
    using demo_booted by blast
  have l: "load_from (demo_sources demo_bad_file) (ap_cfgPath a) = Inr demo_bad_config" using a(3) demo_bad_load by simp
  have "fst (MergeReloadable (ap_cfg a) demo_bad_config) = demo_bad_config"
    by (simp add: a(2) MergeReloadable_def demo_bad_config_def)
  then obtain a' where r: "reloadConfig demo_app_env (demo_sources demo_bad_file) a = (Some ''policy-registry: EOF'', a')"
    by (simp add: reloadConfig_def l case_prod_unfold Let_def rebuildLocked_def demo_bad_build)
  from failed_rebuild_blocks_schema [OF l r] have "fst (reloadSchema demo_app_env (Inr (demo_model, []), 3) a') = Some ''policy-registry: EOF''"
    by (metis fst_conv)
  then show ?thesis using a(1) r by blast
qed

end
