(* ===== verification/Capabilities.thy ===== *)
theory Capabilities
  imports Dialects Http_Server
begin

section \<open>What an engine can do\<close>

text \<open>
  \<open>src/backend/capabilities.go\<close>: the tiers and the record the frontend reads; the \<open>capabilities.go\<close> of
  PostgreSQL, MySQL, SQL Server and MongoDB and \<open>Capabilities\<close> of SQLite, each a function of the version of the
  connected server. \<open>Operators\<close>, a map from \<open>int(ir.Op)\<close> to a tier, is a list of pairs of the operator and its
  tier; a nil map is the empty list.
\<close>

datatype tier = Unsupported | BestEffort | Emulated | Native

definition tier_String :: "tier \<Rightarrow> string" where
  "tier_String t = (case t of Native \<Rightarrow> ''N'' | Emulated \<Rightarrow> ''E'' | BestEffort \<Rightarrow> ''B'' | Unsupported \<Rightarrow> ''U'')"

definition tier_OK :: "tier \<Rightarrow> bool" where
  "tier_OK t \<longleftrightarrow> t \<noteq> Unsupported"

datatype tx_tier = TxNone | TxLimited | TxFull
datatype ft_kind = FTNone | FTTSVector | FTSQLite5 | FTMySQL | FTMSSQL | FTMongo
datatype schema_kind = SchemaNone | SchemaNative | SchemaAttached | SchemaPrefixed
datatype embed_kind = EmbedNone | EmbedJoin | EmbedPipeline

record capabilities =
  cap_Returning :: tier
  cap_Upsert :: tier
  cap_UpsertConflictTarget :: bool
  cap_NullsOrdering :: tier
  cap_JSONAssembly :: tier
  cap_IsDistinctFrom :: tier
  cap_Transactions :: tx_tier
  cap_NativeRoles :: bool
  cap_NativeRLS :: bool
  cap_SessionContext :: tier
  cap_NativeRPC :: bool
  cap_Regex :: tier
  cap_FullText :: ft_kind
  cap_ArrayRangeTypes :: tier
  cap_Schemas :: schema_kind
  cap_Aggregates :: tier
  cap_Embedding :: embed_kind
  cap_CountPlanned :: tier
  cap_Operators :: "(filter_op \<times> tier) list"

definition cap_Operator :: "capabilities \<Rightarrow> filter_op \<Rightarrow> tier" where
  "cap_Operator c op = (case map_of (cap_Operators c) op of Some t \<Rightarrow> t | None \<Rightarrow> Native)"

subsection \<open>Versions\<close>

text \<open>
  \<open>v, _ = strconv.Atoi(s)\<close> as the sources use it, the error dropped: zero on a text that is not a number, the
  bound of int64 on one out of range. \<open>ParseUint\<close> stops at the first digit that overflows, before it looks at
  what follows.
\<close>

definition uint64_max :: int where "uint64_max = 18446744073709551615"

fun uint_scan :: "int \<Rightarrow> string \<Rightarrow> int option" where
  "uint_scan n [] = Some n"
| "uint_scan n (c # s) =
     (if \<not> is_digit c then None
      else if 10 * n + digit_val c > uint64_max then Some uint64_max
      else uint_scan (10 * n + digit_val c) s)"

definition Atoi :: "string \<Rightarrow> int" where
  "Atoi s =
     (let neg = (first_byte s = Some CHR ''-''); t = (if neg \<or> first_byte s = Some CHR ''+'' then tl s else s) in
      if t = [] then 0
      else case uint_scan 0 t of
        None \<Rightarrow> 0
      | Some n \<Rightarrow> if neg then max int64_min (- n) else min int64_max n)"

record version =
  ver_Major :: int
  ver_Minor :: int

definition AtLeast :: "version \<Rightarrow> int \<Rightarrow> int \<Rightarrow> bool" where
  "AtLeast v major minor = (if ver_Major v \<noteq> major then ver_Major v > major else ver_Minor v \<ge> minor)"

definition version_parts :: "string \<Rightarrow> version" where
  "version_parts s =
     (let parts = split_byte CHR ''.'' s in
      \<lparr>ver_Major = (case parts of p # _ \<Rightarrow> Atoi p | [] \<Rightarrow> 0),
       ver_Minor = (case parts of _ # p # _ \<Rightarrow> Atoi p | _ \<Rightarrow> 0)\<rparr>)"

text \<open>PostgreSQL and MongoDB cut at the first space, MySQL and SQL Server keep the leading run of digits and dots.\<close>

definition spaced_ParseVersion :: "string \<Rightarrow> version" where
  "spaced_ParseVersion s = version_parts (takeWhile (\<lambda>c. c \<noteq> CHR '' '') (trim_space s))"

definition dotted_ParseVersion :: "string \<Rightarrow> version" where
  "dotted_ParseVersion s = version_parts (takeWhile (\<lambda>c. c = CHR ''.'' \<or> is_digit c) (trim_space s))"

definition str_contains :: "string \<Rightarrow> string \<Rightarrow> bool" where
  "str_contains s p \<longleftrightarrow> index_str s p \<noteq> None"

subsection \<open>The engines\<close>

definition sqlite_Capabilities :: capabilities where
  "sqlite_Capabilities =
     \<lparr>cap_Returning = Native, cap_Upsert = Native, cap_UpsertConflictTarget = True, cap_NullsOrdering = Native,
      cap_JSONAssembly = Native, cap_IsDistinctFrom = Native, cap_Transactions = TxFull, cap_NativeRoles = False,
      cap_NativeRLS = False, cap_SessionContext = Emulated, cap_NativeRPC = False, cap_Regex = Native,
      cap_FullText = FTSQLite5, cap_ArrayRangeTypes = Unsupported, cap_Schemas = SchemaAttached, cap_Aggregates = Native,
      cap_Embedding = EmbedJoin, cap_CountPlanned = BestEffort, cap_Operators = []\<rparr>"

definition pg_ParseVersion :: "string \<Rightarrow> version" where
  "pg_ParseVersion = spaced_ParseVersion"

definition pg_Capabilities :: "version \<Rightarrow> capabilities" where
  "pg_Capabilities v =
     \<lparr>cap_Returning = Native, cap_Upsert = Native, cap_UpsertConflictTarget = True, cap_NullsOrdering = Native,
      cap_JSONAssembly = Native, cap_IsDistinctFrom = Native, cap_Transactions = TxFull, cap_NativeRoles = True,
      cap_NativeRLS = True, cap_SessionContext = Native, cap_NativeRPC = True, cap_Regex = Native,
      cap_FullText = FTTSVector, cap_ArrayRangeTypes = Native, cap_Schemas = SchemaNative, cap_Aggregates = Native,
      cap_Embedding = EmbedJoin, cap_CountPlanned = (if AtLeast v 12 0 then Native else BestEffort), cap_Operators = []\<rparr>"

record mysql_version = version +
  ver_MariaDB :: bool

definition mysql_ParseVersion :: "string \<Rightarrow> mysql_version" where
  "mysql_ParseVersion s =
     version.extend (dotted_ParseVersion s) (mysql_version.fields (str_contains (to_lower (trim_space s)) ''mariadb''))"

definition mysql_Capabilities :: "mysql_version \<Rightarrow> capabilities" where
  "mysql_Capabilities v =
     (let old = version.truncate v in
     \<lparr>cap_Returning = (if ver_MariaDB v \<and> AtLeast old 10 5 then Native else Emulated), cap_Upsert = Native,
      cap_UpsertConflictTarget = False, cap_NullsOrdering = Emulated, cap_JSONAssembly = Native,
      cap_IsDistinctFrom = Native, cap_Transactions = TxFull, cap_NativeRoles = False, cap_NativeRLS = False,
      cap_SessionContext = Emulated, cap_NativeRPC = False,
      cap_Regex = (if \<not> ver_MariaDB v \<and> \<not> AtLeast old 8 0 then BestEffort else Native), cap_FullText = FTMySQL,
      cap_ArrayRangeTypes = Unsupported, cap_Schemas = SchemaNative, cap_Aggregates = Native, cap_Embedding = EmbedJoin,
      cap_CountPlanned = BestEffort, cap_Operators = []\<rparr>)"

record mssql_version = version +
  ver_Azure :: bool

definition mssql_ParseVersion :: "string \<Rightarrow> mssql_version" where
  "mssql_ParseVersion s = version.extend (dotted_ParseVersion s) (mssql_version.fields False)"

definition mssql_modern :: "mssql_version \<Rightarrow> bool" where
  "mssql_modern v \<longleftrightarrow> ver_Azure v \<or> AtLeast (version.truncate v) 16 0"

definition mssql_hasRegex :: "mssql_version \<Rightarrow> bool" where
  "mssql_hasRegex v \<longleftrightarrow> ver_Azure v \<or> AtLeast (version.truncate v) 17 0"

definition mssql_Capabilities :: "mssql_version \<Rightarrow> capabilities" where
  "mssql_Capabilities v =
     \<lparr>cap_Returning = Native, cap_Upsert = Emulated, cap_UpsertConflictTarget = True, cap_NullsOrdering = Emulated,
      cap_JSONAssembly = (if mssql_modern v then Native else Emulated),
      cap_IsDistinctFrom = (if mssql_modern v then Native else Emulated), cap_Transactions = TxFull, cap_NativeRoles = True,
      cap_NativeRLS = True, cap_SessionContext = Native, cap_NativeRPC = True,
      cap_Regex = (if mssql_hasRegex v then Native else Unsupported), cap_FullText = FTMSSQL,
      cap_ArrayRangeTypes = Unsupported, cap_Schemas = SchemaNative, cap_Aggregates = Native, cap_Embedding = EmbedJoin,
      cap_CountPlanned = BestEffort, cap_Operators = []\<rparr>"

datatype topology = TopologyStandalone | TopologyReplicaSet | TopologySharded

definition ParseTopology :: "string \<Rightarrow> topology" where
  "ParseTopology s =
     (let l = to_lower s in
      if str_contains l ''replica'' \<or> str_contains l ''replset'' \<or> l = ''rs'' then TopologyReplicaSet
      else if str_contains l ''shard'' \<or> str_contains l ''mongos'' then TopologySharded
      else TopologyStandalone)"

definition mongo_ParseVersion :: "string \<Rightarrow> version" where
  "mongo_ParseVersion = spaced_ParseVersion"

definition transactionTier :: "version \<Rightarrow> topology \<Rightarrow> tx_tier" where
  "transactionTier v topo =
     (case topo of
        TopologyReplicaSet \<Rightarrow> if AtLeast v 4 0 then TxFull else TxNone
      | TopologySharded \<Rightarrow> if AtLeast v 4 2 then TxFull else TxNone
      | TopologyStandalone \<Rightarrow> TxNone)"

definition mongo_Capabilities :: "version \<Rightarrow> topology \<Rightarrow> capabilities" where
  "mongo_Capabilities v topo =
     \<lparr>cap_Returning = Emulated, cap_Upsert = Native, cap_UpsertConflictTarget = False, cap_NullsOrdering = BestEffort,
      cap_JSONAssembly = Native, cap_IsDistinctFrom = Emulated, cap_Transactions = transactionTier v topo,
      cap_NativeRoles = False, cap_NativeRLS = False, cap_SessionContext = Emulated, cap_NativeRPC = False,
      cap_Regex = BestEffort, cap_FullText = FTMongo, cap_ArrayRangeTypes = Unsupported, cap_Schemas = SchemaNative,
      cap_Aggregates = BestEffort, cap_Embedding = EmbedPipeline, cap_CountPlanned = BestEffort,
      cap_Operators =
        [(OpLike, BestEffort), (OpILike, BestEffort), (OpMatch, BestEffort), (OpIMatch, BestEffort), (OpIs, BestEffort),
         (OpFTS, BestEffort), (OpIsDistinct, Emulated), (OpContains, Unsupported), (OpContained, Unsupported),
         (OpOverlap, Unsupported), (OpRangeSL, Unsupported), (OpRangeSR, Unsupported), (OpRangeNXR, Unsupported),
         (OpRangeNXL, Unsupported), (OpRangeAdj, Unsupported)]\<rparr>"

subsection \<open>Facts\<close>

text \<open>A newer server never loses a feature that a gate grants an older one.\<close>

lemma AtLeast_newer:
  assumes "ver_Major v < ver_Major w \<or> ver_Major v = ver_Major w \<and> ver_Minor v \<le> ver_Minor w" and "AtLeast v a b"
  shows "AtLeast w a b"
proof -
  have "if ver_Major v \<noteq> a then ver_Major v > a else ver_Minor v \<ge> b" using assms(2) by (simp only: AtLeast_def)
  then show ?thesis using assms(1) unfolding AtLeast_def by presburger
qed

lemma uint_scan_digits: "uint_scan n s = Some m \<Longrightarrow> 0 \<le> n \<Longrightarrow> n \<le> uint64_max \<Longrightarrow> 0 \<le> m \<and> m \<le> uint64_max"
proof (induction n s rule: uint_scan.induct)
  case (2 n c s)
  have "0 \<le> digit_val c" if "is_digit c"
  proof -
    have "48 \<le> (of_char c :: nat)" using that by (simp add: is_digit_def less_eq_char_def)
    then have "int 48 \<le> int (of_char c)" by (simp only: of_nat_le_iff)
    then show ?thesis by (simp add: digit_val_def of_nat_of_char)
  qed
  with 2 show ?case by (auto split: if_splits simp: uint64_max_def)
qed simp

text \<open>Whatever a server reports, the numbers of its version fit an int of 64 bits.\<close>

lemma Atoi_bounds: "int64_min \<le> Atoi s \<and> Atoi s \<le> int64_max"
proof -
  have "0 \<le> n" if "uint_scan 0 t = Some n" for t n using uint_scan_digits [OF that] by (simp add: uint64_max_def)
  then show ?thesis by (fastforce simp: Atoi_def Let_def int64_min_def int64_max_def split: option.split)
qed

end
