(* ===== verification/Openapi.thy ===== *)
theory Openapi
  imports Capabilities Http_Handlers Json_Text
begin

section \<open>Package openapi: the self-describing root\<close>

text \<open>
  \<open>src/openapi/document.go\<close> and \<open>openapi.go\<close>: the Swagger document as Go structs, the generator that fills it from
  the schema model, the function registry and the capabilities of the backend, and its JSON text. A nil pointer is
  \<open>None\<close>, an absent map or slice the empty list. The text is \<open>json.MarshalIndent\<close>: a struct writes its fields in the
  order of their declaration and leaves out the empty ones marked \<open>omitempty\<close>, a map its keys in byte order.
\<close>

subsection \<open>The document\<close>

record oa_info =
  info_Title :: string
  info_Description :: string
  info_Version :: string

record externalDocs =
  xd_Description :: string
  xd_URL :: string

record propertySchema =
  ps_Type :: string
  ps_Format :: string
  ps_Description :: string

datatype schemaObject = SchemaObject
  (so_Ref: string) (so_Description: string) (so_Type: string) (so_Items: "schemaObject option")
  (so_Required: "string list") (so_Properties: "propertySchema go_map")

record oa_parameter =
  pa_Ref :: string
  pa_Name :: string
  pa_In :: string
  pa_Description :: string
  pa_Required :: "bool option"
  pa_Type :: string
  pa_Format :: string
  pa_Enum :: "string list"
  pa_Default :: "string option"
  pa_Schema :: "schemaObject option"

record oa_response =
  rs_Description :: string
  rs_Schema :: "schemaObject option"

record operation =
  op_Tags :: "string list"
  op_Summary :: string
  op_Description :: string
  op_Produces :: "string list"
  op_Parameters :: "oa_parameter list"
  op_Responses :: "oa_response go_map"

record pathItem =
  pi_Get :: "operation option"
  pi_Post :: "operation option"
  pi_Patch :: "operation option"
  pi_Delete :: "operation option"

record securityScheme =
  ss_Type :: string
  ss_Name :: string
  ss_In :: string
  ss_Description :: string

record document =
  doc_Swagger :: string
  doc_Info :: oa_info
  doc_Host :: string
  doc_BasePath :: string
  doc_Schemes :: "string list"
  doc_Consumes :: "string list"
  doc_Produces :: "string list"
  doc_Paths :: "pathItem go_map"
  doc_Definitions :: "schemaObject go_map"
  doc_Parameters :: "oa_parameter go_map"
  doc_SecurityDefinitions :: "securityScheme go_map"
  doc_Security :: "string list go_map list"
  doc_ExternalDocs :: "externalDocs option"

subsection \<open>Options\<close>

definition docsURL :: string where
  "docsURL = ''https://postgrest.org/en/v14/references/api.html''"

definition bodyMediaTypes :: "string list" where
  "bodyMediaTypes =
     [''application/json'', ''application/vnd.pgrst.object+json;nulls=stripped'', ''application/vnd.pgrst.object+json'', ''text/csv'']"

definition rpcMediaTypes :: "string list" where
  "rpcMediaTypes =
     [''application/json'', ''application/vnd.pgrst.object+json;nulls=stripped'', ''application/vnd.pgrst.object+json'']"

definition AllActions :: openapi_actions where
  "AllActions = \<lparr>oa_get = True, oa_post = True, oa_patch = True, oa_delete = True\<rparr>"

definition any_action :: "openapi_actions \<Rightarrow> bool" where
  "any_action a \<longleftrightarrow> oa_get a \<or> oa_post a \<or> oa_patch a \<or> oa_delete a"

definition withDefaults :: "openapi_options \<Rightarrow> openapi_options" where
  "withDefaults opts =
     opts\<lparr>oo_Title := (if oo_Title opts = [] then ''PostgREST API'' else oo_Title opts),
        oo_Description := (if oo_Description opts = [] then ''This is a dynamic API generated by PostgREST'' else oo_Description opts),
        oo_Version := (if oo_Version opts = [] then ''14.0'' else oo_Version opts),
        oo_BasePath := (if oo_BasePath opts = [] then ''/'' else oo_BasePath opts),
        oo_Schemes := (if oo_Schemes opts = [] then [''http''] else oo_Schemes opts)\<rparr>"

subsection \<open>Parameters and references\<close>

definition param_zero :: oa_parameter where
  "param_zero = \<lparr>pa_Ref = [], pa_Name = [], pa_In = [], pa_Description = [], pa_Required = None, pa_Type = [], pa_Format = [],
     pa_Enum = [], pa_Default = None, pa_Schema = None\<rparr>"

definition ref_param :: "string \<Rightarrow> oa_parameter" where
  "ref_param n = param_zero\<lparr>pa_Ref := ''#/parameters/'' @ n\<rparr>"

definition refs :: "string list \<Rightarrow> oa_parameter list" where
  "refs names = map ref_param names"

definition ref_schema_object :: "string \<Rightarrow> schemaObject" where
  "ref_schema_object n = SchemaObject (''#/definitions/'' @ n) [] [] None [] []"

definition okResponses :: "string \<Rightarrow> string \<Rightarrow> oa_response go_map" where
  "okResponses c desc = [(c, \<lparr>rs_Description = desc, rs_Schema = None\<rparr>)]"

definition reserved :: "string \<Rightarrow> string \<Rightarrow> string \<Rightarrow> oa_parameter" where
  "reserved name place desc =
     param_zero\<lparr>pa_Name := name, pa_In := place, pa_Required := Some False, pa_Type := ''string'', pa_Description := desc\<rparr>"

definition reservedParameters :: "oa_parameter go_map" where
  "reservedParameters =
     [(''select'', reserved ''select'' ''query'' ''Filtering Columns''),
      (''on_conflict'', reserved ''on_conflict'' ''query'' ''On Conflict''),
      (''order'', reserved ''order'' ''query'' ''Ordering''),
      (''range'', reserved ''Range'' ''header'' ''Limiting and Pagination''),
      (''rangeUnit'', (reserved ''Range-Unit'' ''header'' ''Limiting and Pagination'')\<lparr>pa_Default := Some ''items''\<rparr>),
      (''offset'', reserved ''offset'' ''query'' ''Limiting and Pagination''),
      (''limit'', reserved ''limit'' ''query'' ''Limiting and Pagination''),
      (''preferParams'', reserved ''Prefer'' ''header'' ''Preference''),
      (''preferReturn'', (reserved ''Prefer'' ''header'' ''Preference'')
         \<lparr>pa_Enum := [''return=representation'', ''return=minimal'', ''return=none'']\<rparr>),
      (''preferCount'', (reserved ''Prefer'' ''header'' ''Preference'')\<lparr>pa_Enum := [''count=none'']\<rparr>),
      (''preferPost'', (reserved ''Prefer'' ''header'' ''Preference'')
         \<lparr>pa_Enum := [''return=representation'', ''return=minimal'', ''return=none'', ''resolution=ignore-duplicates'',
                      ''resolution=merge-duplicates'']\<rparr>)]"

definition row_filter_key :: "relation \<Rightarrow> schema_column \<Rightarrow> string" where
  "row_filter_key rel col = ''rowFilter.'' @ r_name rel @ ''.'' @ sc_name col"

definition rowFilterRefs :: "relation \<Rightarrow> oa_parameter list" where
  "rowFilterRefs rel = map (\<lambda>col. ref_param (row_filter_key rel col)) (r_columns rel)"

subsection \<open>Operators\<close>

definition operatorOrder :: "(string \<times> filter_op) list" where
  "operatorOrder =
     [(''eq'', filter_op.OpEq), (''neq'', filter_op.OpNeq), (''gt'', OpGt), (''gte'', OpGte), (''lt'', OpLt), (''lte'', OpLte),
      (''like'', OpLike), (''ilike'', OpILike), (''match'', OpMatch), (''imatch'', OpIMatch), (''in'', OpIn), (''is'', OpIs),
      (''isdistinct'', OpIsDistinct), (''fts'', OpFTS), (''plfts'', OpFTS), (''phfts'', OpFTS), (''wfts'', OpFTS),
      (''cs'', OpContains), (''cd'', OpContained), (''ov'', OpOverlap), (''sl'', OpRangeSL), (''sr'', OpRangeSR),
      (''nxr'', OpRangeNXR), (''nxl'', OpRangeNXL), (''adj'', OpRangeAdj)]"

definition operatorTier :: "filter_op \<Rightarrow> capabilities \<Rightarrow> tier" where
  "operatorTier op caps =
     (case map_of (cap_Operators caps) op of
        Some t \<Rightarrow> t
      | None \<Rightarrow>
          if op \<in> {OpMatch, OpIMatch} then cap_Regex caps
          else if op = OpFTS then
            (case cap_FullText caps of FTNone \<Rightarrow> Unsupported | FTTSVector \<Rightarrow> Native | _ \<Rightarrow> BestEffort)
          else if op = OpIsDistinct then cap_IsDistinctFrom caps
          else if op \<in> {OpContains, OpContained, OpOverlap, OpRangeSL, OpRangeSR, OpRangeNXR, OpRangeNXL, OpRangeAdj}
            then cap_ArrayRangeTypes caps
          else Native)"

definition advertised_ops :: "capabilities \<Rightarrow> (string \<times> filter_op) list" where
  "advertised_ops caps = filter (\<lambda>(tok, op). tier_OK (operatorTier op caps)) operatorOrder"

definition advertisedTokens :: "capabilities \<Rightarrow> string" where
  "advertisedTokens caps =
     ''Horizontal filter. Format: col=op.value. Operators: '' @ join '', '' (map fst (advertised_ops caps)) @ ''.''"

subsection \<open>Relations\<close>

definition swaggerType :: "string \<Rightarrow> string \<times> string" where
  "swaggerType ty =
     (if ty = [] then (''string'', [])
      else case ClassOf ty of
        ClassInteger \<Rightarrow> (''integer'', ty)
      | ClassFloat \<Rightarrow> (''number'', ty)
      | ClassNumeric \<Rightarrow> (''number'', ty)
      | ClassBool \<Rightarrow> (''boolean'', ty)
      | _ \<Rightarrow> (''string'', ty))"

definition newline :: char where "newline = CHR 0x0A"

definition splitComment :: "string \<Rightarrow> string \<times> string" where
  "splitComment comment =
     (case cut comment [newline] of Some (summary, description) \<Rightarrow> (summary, trim_space description) | None \<Rightarrow> (comment, []))"

definition key_note :: "foreign_key \<Rightarrow> string" where
  "key_note fk =
     (let col = (case fk_ref_columns fk of c # _ \<Rightarrow> c | [] \<Rightarrow> []);
          ref = fk_ref_relation fk @ (if fk_ref_columns fk = [] then [] else ''.'' @ col) in
      ''Note:'' @ newline # ''This is a Foreign Key to `'' @ ref @ ''`.<fk table='' @ squote # fk_ref_relation fk @ squote #
      '' column='' @ squote # col @ squote # ''/>'')"

definition columnNote :: "string \<Rightarrow> string list \<Rightarrow> foreign_key list \<Rightarrow> string" where
  "columnNote name pk fks =
     join [newline]
       ((if name \<in> set pk then [''Note:'' @ newline # ''This is a Primary Key.<pk/>''] else []) @
        map key_note (filter (\<lambda>fk. fk_columns fk = [name]) fks))"

definition columnDescription :: "schema_column \<Rightarrow> string list \<Rightarrow> foreign_key list \<Rightarrow> string" where
  "columnDescription col pk fks =
     (let note = columnNote (sc_name col) pk fks in
      if sc_comment col = [] then note
      else if note = [] then sc_comment col
      else sc_comment col @ newline # newline # note)"

definition relationDefinition :: "relation \<Rightarrow> schemaObject" where
  "relationDefinition rel =
     SchemaObject [] (r_comment rel) ''object'' None
       (map sc_name (filter (\<lambda>c. \<not> sc_nullable c) (r_columns rel)))
       (fold (\<lambda>c. aput (sc_name c)
          \<lparr>ps_Type = fst (swaggerType (sc_type c)), ps_Format = snd (swaggerType (sc_type c)),
           ps_Description = columnDescription c (r_primary_key rel) (r_foreign_keys rel)\<rparr>) (r_columns rel) [])"

definition relation_operation :: "relation \<Rightarrow> oa_parameter list \<Rightarrow> oa_response go_map \<Rightarrow> operation" where
  "relation_operation rel params resps =
     \<lparr>op_Tags = [r_name rel], op_Summary = fst (splitComment (r_comment rel)),
      op_Description = snd (splitComment (r_comment rel)), op_Produces = [], op_Parameters = params, op_Responses = resps\<rparr>"

definition relationPath :: "relation \<Rightarrow> openapi_actions \<Rightarrow> pathItem" where
  "relationPath rel acts =
     (let filters = rowFilterRefs rel; body = refs [''body.'' @ r_name rel]; table = (r_kind rel = KindTable) in
      \<lparr>pi_Get =
         (if oa_get acts
          then Some (relation_operation rel
                 (filters @ refs [''select'', ''order'', ''range'', ''rangeUnit'', ''offset'', ''limit'', ''preferCount''])
                 [(''200'', \<lparr>rs_Description = ''OK'',
                     rs_Schema = Some (SchemaObject [] [] ''array'' (Some (ref_schema_object (r_name rel))) [] [])\<rparr>),
                  (''206'', \<lparr>rs_Description = ''Partial Content'', rs_Schema = None\<rparr>)])
          else None),
       pi_Post =
         (if table \<and> oa_post acts
          then Some (relation_operation rel (body @ refs [''select'', ''preferPost'']) (okResponses ''201'' ''Created''))
          else None),
       pi_Patch =
         (if table \<and> oa_patch acts
          then Some (relation_operation rel (filters @ body @ refs [''preferReturn'']) (okResponses ''204'' ''No Content''))
          else None),
       pi_Delete =
         (if table \<and> oa_delete acts
          then Some (relation_operation rel (filters @ refs [''preferReturn'']) (okResponses ''204'' ''No Content''))
          else None)\<rparr>)"

definition row_filter_param :: "string \<Rightarrow> schema_column \<Rightarrow> oa_parameter" where
  "row_filter_param ops col =
     reserved (sc_name col) ''query'' (if sc_comment col \<noteq> [] then sc_comment col @ newline # newline # ops else ops)"

definition body_param :: "relation \<Rightarrow> oa_parameter" where
  "body_param rel =
     param_zero\<lparr>pa_Name := r_name rel, pa_In := ''body'', pa_Required := Some False,
       pa_Description := (if r_comment rel \<noteq> [] then r_comment rel else r_name rel),
       pa_Schema := Some (ref_schema_object (r_name rel))\<rparr>"

definition addRelationParameters :: "relation \<Rightarrow> string \<Rightarrow> oa_parameter go_map \<Rightarrow> oa_parameter go_map" where
  "addRelationParameters rel ops params =
     (let ps = fold (\<lambda>col. aput (row_filter_key rel col) (row_filter_param ops col)) (r_columns rel) params in
      if r_kind rel = KindTable then aput (''body.'' @ r_name rel) (body_param rel) ps else ps)"

subsection \<open>Functions\<close>

definition functionQueryParams :: "rpc_function \<Rightarrow> oa_parameter list" where
  "functionQueryParams fn =
     map (\<lambda>pm. param_zero\<lparr>pa_Name := p_name pm, pa_In := ''query'', pa_Required := Some (\<not> p_optional pm),
                 pa_Type := fst (swaggerType (p_type pm)), pa_Format := snd (swaggerType (p_type pm))\<rparr>) (f_params fn)"

definition functionBodySchema :: "rpc_function \<Rightarrow> schemaObject" where
  "functionBodySchema fn =
     SchemaObject [] [] ''object'' None (map p_name (filter (\<lambda>pm. \<not> p_optional pm) (f_params fn)))
       (fold (\<lambda>pm. aput (p_name pm) \<lparr>ps_Type = fst (swaggerType (p_type pm)), ps_Format = snd (swaggerType (p_type pm)),
                 ps_Description = []\<rparr>) (f_params fn) [])"

definition function_operation :: "rpc_function \<Rightarrow> oa_parameter list \<Rightarrow> operation" where
  "function_operation fn params =
     \<lparr>op_Tags = [''(rpc) '' @ f_name fn], op_Summary = fst (splitComment (f_comment fn)),
      op_Description = snd (splitComment (f_comment fn)), op_Produces = rpcMediaTypes, op_Parameters = params,
      op_Responses = okResponses ''200'' ''OK''\<rparr>"

definition functionPath :: "rpc_function \<Rightarrow> pathItem" where
  "functionPath fn =
     \<lparr>pi_Get = (if vol_ReadOnly (f_volatility fn) then Some (function_operation fn (functionQueryParams fn)) else None),
      pi_Post = Some (function_operation fn
        (param_zero\<lparr>pa_In := ''body'', pa_Name := ''args'', pa_Required := Some True, pa_Schema := Some (functionBodySchema fn)\<rparr> #
         refs [''preferParams''])),
      pi_Patch = None, pi_Delete = None\<rparr>"

subsection \<open>The generator\<close>

definition rootPath :: pathItem where
  "rootPath =
     \<lparr>pi_Get = Some \<lparr>op_Tags = [''Introspection''], op_Summary = ''OpenAPI description (this document)'', op_Description = [],
        op_Produces = [''application/openapi+json'', ''application/json''], op_Parameters = [], op_Responses = okResponses ''200'' ''OK''\<rparr>,
      pi_Post = None, pi_Patch = None, pi_Delete = None\<rparr>"

definition visible_actions :: "openapi_options \<Rightarrow> relation \<Rightarrow> openapi_actions" where
  "visible_actions opts rel =
     (let acts = (case oo_Visibility opts of Some vis \<Rightarrow> vis rel | None \<Rightarrow> AllActions) in
      if r_kind rel = KindView then acts\<lparr>oa_post := False, oa_patch := False, oa_delete := False\<rparr> else acts)"

definition add_relation :: "openapi_options \<Rightarrow> string \<Rightarrow> relation \<Rightarrow> document \<Rightarrow> document" where
  "add_relation opts ops rel doc =
     (let acts = visible_actions opts rel in
      if \<not> any_action acts then doc
      else doc\<lparr>doc_Paths := aput (''/'' @ r_name rel) (relationPath rel acts) (doc_Paths doc),
               doc_Definitions := aput (r_name rel) (relationDefinition rel) (doc_Definitions doc),
               doc_Parameters := addRelationParameters rel ops (doc_Parameters doc)\<rparr>)"

definition add_function :: "rpc_function \<Rightarrow> document \<Rightarrow> document" where
  "add_function fn doc = doc\<lparr>doc_Paths := aput (''/rpc/'' @ f_name fn) (functionPath fn) (doc_Paths doc)\<rparr>"

definition empty_document :: "openapi_options \<Rightarrow> document" where
  "empty_document opts =
     \<lparr>doc_Swagger = ''2.0'',
      doc_Info = \<lparr>info_Title = oo_Title opts, info_Description = oo_Description opts, info_Version = oo_Version opts\<rparr>,
      doc_Host = oo_Host opts, doc_BasePath = oo_BasePath opts, doc_Schemes = oo_Schemes opts, doc_Consumes = bodyMediaTypes,
      doc_Produces = bodyMediaTypes, doc_Paths = [(''/'', rootPath)], doc_Definitions = [], doc_Parameters = reservedParameters,
      doc_SecurityDefinitions =
        (if oo_SecurityActive opts
         then [(''JWT'', \<lparr>ss_Type = ''apiKey'', ss_Name = ''Authorization'', ss_In = ''header'',
                ss_Description = ''Add the token prepending '' @ dquote # ''Bearer '' @ dquote # '' (without quotes) to it''\<rparr>)]
         else []),
      doc_Security = (if oo_SecurityActive opts then [[(''JWT'', [])]] else []),
      doc_ExternalDocs = Some \<lparr>xd_Description = ''PostgREST Documentation'', xd_URL = docsURL\<rparr>\<rparr>"

definition build_document :: "model \<Rightarrow> fn_registry \<Rightarrow> capabilities \<Rightarrow> openapi_options \<Rightarrow> document" where
  "build_document m fns caps opts0 =
     (let opts = withDefaults opts0 in
      fold add_function (reg_List fns)
        (fold (add_relation opts (advertisedTokens caps)) (relations_in m (oo_ActiveSchema opts)) (empty_document opts)))"

subsection \<open>The text\<close>

text \<open>
  What the encoder walks: strings, booleans, arrays, and objects with their members in the order they are written.
  \<open>jstruct\<close> leaves out the members that \<open>omitempty\<close> drops, \<open>jmap\<close> sorts the keys.
\<close>

datatype jdoc = DStr string | DBool bool | DArr "jdoc list" | DObj "(string \<times> jdoc) list"

definition jstruct :: "(string \<times> jdoc option) list \<Rightarrow> jdoc" where
  "jstruct fs = DObj (List.map_filter (\<lambda>(k, v). map_option (Pair k) v) fs)"

definition jmap :: "('v \<Rightarrow> jdoc) \<Rightarrow> 'v go_map \<Rightarrow> jdoc" where
  "jmap f m = DObj (map (\<lambda>(k, v). (k, f v)) (sort_key fst m))"

definition omit_str :: "string \<Rightarrow> jdoc option" where
  "omit_str s = (if s = [] then None else Some (DStr s))"

definition omit_strs :: "string list \<Rightarrow> jdoc option" where
  "omit_strs xs = (if xs = [] then None else Some (DArr (map DStr xs)))"

definition omit_map :: "('v \<Rightarrow> jdoc) \<Rightarrow> 'v go_map \<Rightarrow> jdoc option" where
  "omit_map f m = (if m = [] then None else Some (jmap f m))"

definition property_json :: "propertySchema \<Rightarrow> jdoc" where
  "property_json p = jstruct [(''type'', omit_str (ps_Type p)), (''format'', omit_str (ps_Format p)),
     (''description'', omit_str (ps_Description p))]"

fun schema_json :: "schemaObject \<Rightarrow> jdoc" where
  "schema_json (SchemaObject rf desc ty items req props) =
     jstruct [(''$ref'', omit_str rf), (''description'', omit_str desc), (''type'', omit_str ty),
       (''items'', map_option schema_json items), (''required'', omit_strs req), (''properties'', omit_map property_json props)]"

definition parameter_json :: "oa_parameter \<Rightarrow> jdoc" where
  "parameter_json p =
     jstruct [(''$ref'', omit_str (pa_Ref p)), (''name'', omit_str (pa_Name p)), (''in'', omit_str (pa_In p)),
       (''description'', omit_str (pa_Description p)), (''required'', map_option DBool (pa_Required p)),
       (''type'', omit_str (pa_Type p)), (''format'', omit_str (pa_Format p)), (''enum'', omit_strs (pa_Enum p)),
       (''default'', map_option DStr (pa_Default p)), (''schema'', map_option schema_json (pa_Schema p))]"

definition response_json :: "oa_response \<Rightarrow> jdoc" where
  "response_json r = jstruct [(''description'', Some (DStr (rs_Description r))), (''schema'', map_option schema_json (rs_Schema r))]"

definition operation_json :: "operation \<Rightarrow> jdoc" where
  "operation_json p =
     jstruct [(''tags'', omit_strs (op_Tags p)), (''summary'', omit_str (op_Summary p)), (''description'', omit_str (op_Description p)),
       (''produces'', omit_strs (op_Produces p)),
       (''parameters'', if op_Parameters p = [] then None else Some (DArr (map parameter_json (op_Parameters p)))),
       (''responses'', Some (jmap response_json (op_Responses p)))]"

definition path_json :: "pathItem \<Rightarrow> jdoc" where
  "path_json p =
     jstruct [(''get'', map_option operation_json (pi_Get p)), (''post'', map_option operation_json (pi_Post p)),
       (''patch'', map_option operation_json (pi_Patch p)), (''delete'', map_option operation_json (pi_Delete p))]"

definition security_json :: "securityScheme \<Rightarrow> jdoc" where
  "security_json s = jstruct [(''type'', Some (DStr (ss_Type s))), (''name'', Some (DStr (ss_Name s))), (''in'', Some (DStr (ss_In s))),
     (''description'', omit_str (ss_Description s))]"

definition info_json :: "oa_info \<Rightarrow> jdoc" where
  "info_json i = jstruct [(''title'', Some (DStr (info_Title i))), (''description'', omit_str (info_Description i)),
     (''version'', Some (DStr (info_Version i)))]"

definition docs_json :: "externalDocs \<Rightarrow> jdoc" where
  "docs_json x = jstruct [(''description'', omit_str (xd_Description x)), (''url'', Some (DStr (xd_URL x)))]"

definition document_json :: "document \<Rightarrow> jdoc" where
  "document_json d =
     jstruct [(''swagger'', Some (DStr (doc_Swagger d))), (''info'', Some (info_json (doc_Info d))), (''host'', omit_str (doc_Host d)),
       (''basePath'', omit_str (doc_BasePath d)), (''schemes'', omit_strs (doc_Schemes d)), (''consumes'', omit_strs (doc_Consumes d)),
       (''produces'', omit_strs (doc_Produces d)), (''paths'', Some (jmap path_json (doc_Paths d))),
       (''definitions'', Some (jmap schema_json (doc_Definitions d))), (''parameters'', omit_map parameter_json (doc_Parameters d)),
       (''securityDefinitions'', omit_map security_json (doc_SecurityDefinitions d)),
       (''security'', if doc_Security d = [] then None
                      else Some (DArr (map (jmap (\<lambda>xs. DArr (map DStr xs))) (doc_Security d)))),
       (''externalDocs'', map_option docs_json (doc_ExternalDocs d))]"

fun compact_text :: "jdoc \<Rightarrow> string" where
  "compact_text (DStr s) = json_string s"
| "compact_text (DBool b) = (if b then ''true'' else ''false'')"
| "compact_text (DArr xs) = ''['' @ join '','' (map compact_text xs) @ '']''"
| "compact_text (DObj fs) = ''{'' @ join '','' (map (\<lambda>(k, v). json_string k @ '':'' @ compact_text v) fs) @ ''}''"

definition broken :: "string \<Rightarrow> char \<Rightarrow> char \<Rightarrow> string list \<Rightarrow> string" where
  "broken pre opening closing parts =
     (if parts = [] then [opening, closing]
      else opening # join '','' (map (\<lambda>t. newline # pre @ ''  '' @ t) parts) @ newline # pre @ [closing])"

fun indented_text :: "string \<Rightarrow> jdoc \<Rightarrow> string" where
  "indented_text pre (DStr s) = json_string s"
| "indented_text pre (DBool b) = (if b then ''true'' else ''false'')"
| "indented_text pre (DArr xs) = broken pre CHR ''['' CHR '']'' (map (indented_text (pre @ ''  '')) xs)"
| "indented_text pre (DObj fs) =
     broken pre CHR ''{'' CHR ''}'' (map (\<lambda>(k, v). json_string k @ '': '' @ indented_text (pre @ ''  '') v) fs)"

definition Generate :: "model \<Rightarrow> fn_registry \<Rightarrow> capabilities \<Rightarrow> openapi_options \<Rightarrow> string + string" where
  "Generate m fns caps opts = Inr (indented_text [] (document_json (build_document m fns caps opts)))"

text \<open>The generator in its place: the environment of \<open>handleRoot\<close> with \<open>Generate\<close> over the capabilities of the backend.\<close>

definition openapi_root :: "capabilities \<Rightarrow> (string \<Rightarrow> (string \<times> string \<times> string) option) \<Rightarrow> root_env" where
  "openapi_root caps parse_url = \<lparr>re_generate = (\<lambda>m fns opts. Generate m fns caps opts), re_parse_url = parse_url\<rparr>"

end
