(* ===== verification/Openapi_Facts.thy ===== *)
theory Openapi_Facts
  imports Openapi Http_Facts
begin

section \<open>What the document says\<close>

text \<open>
  Facts of \<open>Openapi\<close>: every reference of a document resolves inside it, the operations it lists for a relation, the
  operators it advertises, and its text.
\<close>

subsection \<open>References\<close>

fun schema_refs :: "schemaObject \<Rightarrow> string set" where
  "schema_refs (SchemaObject rf desc ty items req props) =
     (if rf = [] then {} else {rf}) \<union> (case items of None \<Rightarrow> {} | Some s \<Rightarrow> schema_refs s)"

definition parameter_refs :: "oa_parameter \<Rightarrow> string set" where
  "parameter_refs p = (if pa_Ref p = [] then {} else {pa_Ref p}) \<union> (case pa_Schema p of None \<Rightarrow> {} | Some s \<Rightarrow> schema_refs s)"

definition operation_refs :: "operation \<Rightarrow> string set" where
  "operation_refs p =
     \<Union> (parameter_refs ` set (op_Parameters p)) \<union>
     \<Union> ((\<lambda>(_, r). case rs_Schema r of None \<Rightarrow> {} | Some s \<Rightarrow> schema_refs s) ` set (op_Responses p))"

definition optional_refs :: "operation option \<Rightarrow> string set" where
  "optional_refs x = (case x of None \<Rightarrow> {} | Some p \<Rightarrow> operation_refs p)"

definition path_refs :: "pathItem \<Rightarrow> string set" where
  "path_refs p = optional_refs (pi_Get p) \<union> optional_refs (pi_Post p) \<union> optional_refs (pi_Patch p) \<union> optional_refs (pi_Delete p)"

definition entry_refs :: "('v \<Rightarrow> string set) \<Rightarrow> 'v go_map \<Rightarrow> string set" where
  "entry_refs f m = (\<Union>a \<in> set m. f (snd a))"

definition document_refs :: "document \<Rightarrow> string set" where
  "document_refs d =
     entry_refs path_refs (doc_Paths d) \<union> entry_refs schema_refs (doc_Definitions d) \<union>
     entry_refs parameter_refs (doc_Parameters d)"

text \<open>The JSON pointers to what a document defines.\<close>

definition param_pointer :: "string \<Rightarrow> string" where
  "param_pointer n = ''#/parameters/'' @ n"

definition def_pointer :: "string \<Rightarrow> string" where
  "def_pointer n = ''#/definitions/'' @ n"

definition pointers :: "string set \<Rightarrow> string set \<Rightarrow> string set" where
  "pointers params defs = param_pointer ` params \<union> def_pointer ` defs"

definition defined_pointers :: "document \<Rightarrow> string set" where
  "defined_pointers d = pointers (fst ` set (doc_Parameters d)) (fst ` set (doc_Definitions d))"

lemma pointers_mono: "P \<subseteq> P' \<Longrightarrow> D \<subseteq> D' \<Longrightarrow> pointers P D \<subseteq> pointers P' D'"
  by (auto simp: pointers_def)

lemma parameter_pointer [simp]: "param_pointer n \<in> pointers P D \<longleftrightarrow> n \<in> P"
  by (auto simp: pointers_def param_pointer_def def_pointer_def)

lemma definition_pointer [simp]: "def_pointer n \<in> pointers P D \<longleftrightarrow> n \<in> D"
  by (auto simp: pointers_def param_pointer_def def_pointer_def)

lemma schema_refs_ref [simp]: "schema_refs (ref_schema_object n) = {def_pointer n}"
  by (simp add: ref_schema_object_def def_pointer_def)

lemma parameter_refs_ref [simp]: "parameter_refs (ref_param n) = {param_pointer n}"
  by (simp add: parameter_refs_def ref_param_def param_zero_def param_pointer_def)

lemma refs_refs [simp]: "\<Union> (parameter_refs ` set (refs ns)) = param_pointer ` set ns"
  by (auto simp: refs_def)

lemma row_filter_refs [simp]:
  "\<Union> (parameter_refs ` set (rowFilterRefs rel)) = param_pointer ` row_filter_key rel ` set (r_columns rel)"
  by (auto simp: rowFilterRefs_def)

lemma set_aput_subset: "set (aput k v m) \<subseteq> insert (k, v) (set m)"
  by (induction k v m rule: aput.induct) auto

lemma refs_aput: "entry_refs f (aput k v m) \<subseteq> f v \<union> entry_refs f m"
  using set_aput_subset [of k v m] by (fastforce simp: entry_refs_def)

lemma keys_fold_aput: "fst ` set (fold (\<lambda>x. aput (f x) (g x)) xs m) = f ` set xs \<union> fst ` set m"
  by (induction xs arbitrary: m) (auto simp: set_keys_aput)

lemma values_fold_aput: "set (fold (\<lambda>x. aput (f x) (g x)) xs m) \<subseteq> (\<lambda>x. (f x, g x)) ` set xs \<union> set m"
proof (induction xs arbitrary: m)
  case (Cons x xs)
  show ?case using Cons.IH [of "aput (f x) (g x) m"] set_aput_subset [of "f x" "g x" m] by auto
qed simp

lemma reserved_no_refs [simp]: "parameter_refs (reserved a b c) = {}"
  by (simp add: parameter_refs_def reserved_def param_zero_def)

lemma row_filter_no_refs [simp]: "parameter_refs (row_filter_param ops col) = {}"
  by (simp add: row_filter_param_def)

lemma body_param_refs [simp]: "parameter_refs (body_param rel) = {def_pointer (r_name rel)}"
  by (simp add: parameter_refs_def body_param_def param_zero_def)

definition read_params :: "string set" where
  "read_params = {''select'', ''order'', ''range'', ''rangeUnit'', ''offset'', ''limit'', ''preferCount'', ''preferPost'',
     ''preferReturn'', ''preferParams''}"

lemma read_params_reserved: "read_params \<subseteq> fst ` set reservedParameters"
  by (simp add: read_params_def reservedParameters_def)

lemma relation_operation_refs [simp]:
  "operation_refs (relation_operation rel ps (okResponses c d)) = \<Union> (parameter_refs ` set ps)"
  by (simp add: operation_refs_def relation_operation_def okResponses_def)

lemma path_refs_subset:
  assumes "\<And>p. pi_Get x = Some p \<Longrightarrow> operation_refs p \<subseteq> X" "\<And>p. pi_Post x = Some p \<Longrightarrow> operation_refs p \<subseteq> X"
    "\<And>p. pi_Patch x = Some p \<Longrightarrow> operation_refs p \<subseteq> X" "\<And>p. pi_Delete x = Some p \<Longrightarrow> operation_refs p \<subseteq> X"
  shows "path_refs x \<subseteq> X"
  using assms by (simp add: path_refs_def optional_refs_def split: option.split)

lemma relation_path_refs:
  "path_refs (relationPath rel acts) \<subseteq>
     pointers (row_filter_key rel ` set (r_columns rel) \<union> read_params \<union> (if r_kind rel = KindTable then {''body.'' @ r_name rel} else {}))
       {r_name rel}" (is "_ \<subseteq> ?p")
proof (rule path_refs_subset)
  show "operation_refs p \<subseteq> ?p" if "pi_Get (relationPath rel acts) = Some p" for p
    using that by (auto simp: relationPath_def Let_def operation_refs_def relation_operation_def refs_def rowFilterRefs_def
        read_params_def split: if_splits)
  show "operation_refs p \<subseteq> ?p" if "pi_Post (relationPath rel acts) = Some p" for p
    using that by (auto simp: relationPath_def Let_def refs_def read_params_def split: if_splits)
  show "operation_refs p \<subseteq> ?p" if "pi_Patch (relationPath rel acts) = Some p" for p
    using that by (auto simp: relationPath_def Let_def refs_def rowFilterRefs_def read_params_def split: if_splits)
  show "operation_refs p \<subseteq> ?p" if "pi_Delete (relationPath rel acts) = Some p" for p
    using that by (auto simp: relationPath_def Let_def refs_def rowFilterRefs_def read_params_def split: if_splits)
qed

lemma function_path_refs: "path_refs (functionPath fn) \<subseteq> pointers read_params {}"
proof -
  have "parameter_refs p = {}" if "p \<in> set (functionQueryParams fn)" for p
    using that by (auto simp: functionQueryParams_def parameter_refs_def param_zero_def)
  then have get: "operation_refs (function_operation fn (functionQueryParams fn)) = {}"
    by (simp add: operation_refs_def function_operation_def okResponses_def)
  have body: "parameter_refs (param_zero\<lparr>pa_In := i, pa_Name := n, pa_Required := b, pa_Schema := Some (functionBodySchema fn)\<rparr>) = {}" for i n b
    by (simp add: parameter_refs_def param_zero_def functionBodySchema_def)
  have post: "operation_refs (function_operation fn (p # refs [''preferParams''])) = {param_pointer ''preferParams''}"
    if "parameter_refs p = {}" for p
    using that by (simp add: operation_refs_def function_operation_def okResponses_def refs_def)
  have "{param_pointer ''preferParams''} \<subseteq> pointers read_params {}" by (simp add: read_params_def)
  then show ?thesis by (simp add: path_refs_def optional_refs_def functionPath_def get post [OF body])
qed

lemma parameters_add_relation:
  "fst ` set (addRelationParameters rel ops ps) =
     row_filter_key rel ` set (r_columns rel) \<union> (if r_kind rel = KindTable then {''body.'' @ r_name rel} else {}) \<union> fst ` set ps"
  by (simp add: addRelationParameters_def Let_def set_keys_aput keys_fold_aput)

lemma parameter_refs_add_relation:
  "entry_refs parameter_refs (addRelationParameters rel ops ps) \<subseteq>
     {def_pointer (r_name rel)} \<union> entry_refs parameter_refs ps"
proof -
  let ?qs = "fold (\<lambda>col. aput (row_filter_key rel col) (row_filter_param ops col)) (r_columns rel) ps"
  have "set (addRelationParameters rel ops ps) \<subseteq> insert (''body.'' @ r_name rel, body_param rel) (set ?qs)"
    using set_aput_subset [of "''body.'' @ r_name rel" "body_param rel" ?qs] by (auto simp: addRelationParameters_def Let_def)
  then show ?thesis using values_fold_aput [of "row_filter_key rel" "row_filter_param ops" "r_columns rel" ps] by (fastforce simp: entry_refs_def)
qed

lemma document_refs_iff:
  "document_refs d \<subseteq> X \<longleftrightarrow> entry_refs path_refs (doc_Paths d) \<subseteq> X \<and>
     entry_refs schema_refs (doc_Definitions d) \<subseteq> X \<and> entry_refs parameter_refs (doc_Parameters d) \<subseteq> X"
  by (simp add: document_refs_def)

lemma refs_aput_subset: "f v \<subseteq> X \<Longrightarrow> entry_refs f m \<subseteq> X \<Longrightarrow> entry_refs f (aput k v m) \<subseteq> X"
  by (rule subset_trans [OF refs_aput]) simp

text \<open>The invariant of the generator: references resolve, and the reserved parameters are there.\<close>

definition closed_document :: "document \<Rightarrow> bool" where
  "closed_document d \<longleftrightarrow> document_refs d \<subseteq> defined_pointers d \<and> read_params \<subseteq> fst ` set (doc_Parameters d)"

lemma closed_empty: "closed_document (empty_document opts)"
proof -
  have "path_refs rootPath = {}" by (simp add: path_refs_def optional_refs_def rootPath_def operation_refs_def okResponses_def)
  moreover have "parameter_refs (snd p) = {}" if "p \<in> set reservedParameters" for p
    using that by (auto simp: reservedParameters_def parameter_refs_def reserved_def param_zero_def)
  ultimately have "document_refs (empty_document opts) = {}" by (simp add: document_refs_def empty_document_def entry_refs_def)
  then show ?thesis using read_params_reserved by (simp add: closed_document_def empty_document_def)
qed

lemma closed_add_function: "closed_document d \<Longrightarrow> closed_document (add_function fn d)"
proof -
  assume c: "closed_document d"
  have "pointers read_params {} \<subseteq> defined_pointers d"
    using c unfolding defined_pointers_def closed_document_def by (intro pointers_mono) auto
  then have "path_refs (functionPath fn) \<subseteq> defined_pointers d" using function_path_refs by blast
  then have "document_refs (add_function fn d) \<subseteq> defined_pointers d"
    using c unfolding closed_document_def document_refs_iff add_function_def by (simp add: refs_aput_subset)
  then show ?thesis using c by (simp add: closed_document_def defined_pointers_def add_function_def)
qed

lemma schema_refs_definition [simp]: "schema_refs (relationDefinition rel) = {}"
  by (simp add: relationDefinition_def)

lemma closed_add_relation: "closed_document d \<Longrightarrow> closed_document (add_relation opts ops rel d)"
proof (cases "any_action (visible_actions opts rel)")
  case True
  assume c: "closed_document d"
  let ?acts = "visible_actions opts rel" and ?d = "add_relation opts ops rel d"
  have d: "doc_Paths ?d = aput (''/'' @ r_name rel) (relationPath rel ?acts) (doc_Paths d)"
      "doc_Definitions ?d = aput (r_name rel) (relationDefinition rel) (doc_Definitions d)"
      "doc_Parameters ?d = addRelationParameters rel ops (doc_Parameters d)"
    using True by (simp_all add: add_relation_def Let_def)
  have grown: "defined_pointers d \<subseteq> defined_pointers ?d"
    unfolding defined_pointers_def d by (intro pointers_mono) (auto simp: set_keys_aput parameters_add_relation)
  have "read_params \<subseteq> fst ` set (doc_Parameters ?d)"
    using c by (auto simp: d parameters_add_relation closed_document_def)
  moreover from this have "path_refs (relationPath rel ?acts) \<subseteq> defined_pointers ?d"
    unfolding defined_pointers_def
    by (intro subset_trans [OF relation_path_refs] pointers_mono) (auto simp: d parameters_add_relation set_keys_aput)
  moreover have "def_pointer (r_name rel) \<in> defined_pointers ?d"
    by (simp add: defined_pointers_def d set_keys_aput)
  moreover have "document_refs d \<subseteq> defined_pointers ?d" using c grown by (auto simp: closed_document_def)
  moreover note subset_trans [OF parameter_refs_add_relation [of rel ops "doc_Parameters d"]]
  ultimately show ?thesis unfolding closed_document_def document_refs_iff d(1,2) d(3) by (simp add: refs_aput_subset)
qed (simp add: add_relation_def Let_def)

lemma closed_build: "closed_document (build_document m fns caps opts)"
  unfolding build_document_def Let_def
  by (intro fold_invariant [where Q = "\<lambda>_. True" and P = closed_document] closed_add_function closed_add_relation closed_empty TrueI)

text \<open>
  Every reference resolves: for every schema model, registry, capabilities and options, each \<open>$ref\<close> anywhere in the
  generated document, in an operation, a shared parameter or a definition, points at a parameter or a definition the
  document itself contains, also when relations are left out for lack of privileges.
\<close>

theorem document_refs_resolve: "document_refs (build_document m fns caps opts) \<subseteq> defined_pointers (build_document m fns caps opts)"
  using closed_build by (simp add: closed_document_def)

subsection \<open>Operations\<close>

lemma paths_functions:
  "\<not> has_prefix n ''rpc/'' \<Longrightarrow> aget (doc_Paths (fold add_function fns d)) (CHR ''/'' # n) = aget (doc_Paths d) (CHR ''/'' # n)"
  by (induction fns arbitrary: d) (auto simp: add_function_def aget_aput has_prefix_iff)

lemma definitions_functions: "doc_Definitions (fold add_function fns d) = doc_Definitions d"
  by (induction fns arbitrary: d) (simp_all add: add_function_def)

lemma relation_step [simp]:
  "aget (doc_Paths (add_relation opts ops x d)) (CHR ''/'' # n) =
     (if r_name x = n \<and> any_action (visible_actions opts x) then Some (relationPath x (visible_actions opts x))
      else aget (doc_Paths d) (CHR ''/'' # n))"
  "aget (doc_Definitions (add_relation opts ops x d)) n =
     (if r_name x = n \<and> any_action (visible_actions opts x) then Some (relationDefinition x) else aget (doc_Definitions d) n)"
  by (simp_all add: add_relation_def aget_aput Let_def)

lemma other_relations:
  "n \<notin> r_name ` set rels \<Longrightarrow>
     aget (doc_Paths (fold (add_relation opts ops) rels d)) (CHR ''/'' # n) = aget (doc_Paths d) (CHR ''/'' # n) \<and>
     aget (doc_Definitions (fold (add_relation opts ops) rels d)) n = aget (doc_Definitions d) n"
  by (induction rels arbitrary: d) auto

lemma own_relation:
  assumes "distinct (map r_name rels)" and "rel \<in> set rels"
    and "aget (doc_Paths d) (CHR ''/'' # r_name rel) = None" "aget (doc_Definitions d) (r_name rel) = None"
  shows "aget (doc_Paths (fold (add_relation opts ops) rels d)) (CHR ''/'' # r_name rel) =
      (if any_action (visible_actions opts rel) then Some (relationPath rel (visible_actions opts rel)) else None) \<and>
    aget (doc_Definitions (fold (add_relation opts ops) rels d)) (r_name rel) =
      (if any_action (visible_actions opts rel) then Some (relationDefinition rel) else None)"
  using assms
proof (induction rels arbitrary: d)
  case (Cons x rels)
  show ?case
  proof (cases "rel = x")
    case True
    then show ?thesis using Cons.prems other_relations [of "r_name x" rels opts ops] by simp
  next
    case False
    then have "r_name x \<noteq> r_name rel" using Cons.prems by auto
    then show ?thesis using Cons.prems False Cons.IH [of "add_relation opts ops x d"] by simp
  qed
qed simp

text \<open>A relation whose name is its own path: not the root, not below \<open>/rpc/\<close>, and the only one of its schema.\<close>

definition plain_relation :: "model \<Rightarrow> string \<Rightarrow> relation \<Rightarrow> bool" where
  "plain_relation m sch rel \<longleftrightarrow> rel \<in> set (relations_in m sch) \<and> distinct (map r_name (relations_in m sch)) \<and>
     r_name rel \<noteq> [] \<and> \<not> has_prefix (r_name rel) ''rpc/''"

lemma document_relation:
  fixes fns :: fn_registry and caps :: capabilities
  assumes "plain_relation m (oo_ActiveSchema opts) rel"
  defines "D \<equiv> build_document m fns caps opts" and "acts \<equiv> visible_actions opts rel"
  shows "aget (doc_Paths D) (CHR ''/'' # r_name rel) = (if any_action acts then Some (relationPath rel acts) else None)"
    and "aget (doc_Definitions D) (r_name rel) = (if any_action acts then Some (relationDefinition rel) else None)"
proof -
  let ?o = "withDefaults opts"
  have o: "oo_ActiveSchema ?o = oo_ActiveSchema opts" "visible_actions ?o rel = acts"
    by (simp_all add: withDefaults_def visible_actions_def acts_def)
  have "aget (doc_Paths (empty_document ?o)) (CHR ''/'' # r_name rel) = None" "aget (doc_Definitions (empty_document ?o)) (r_name rel) = None"
    using assms(1) by (auto simp: empty_document_def plain_relation_def)
  note own = own_relation [OF _ _ this, of "relations_in m (oo_ActiveSchema opts)" ?o "advertisedTokens caps"]
  show "aget (doc_Paths D) (CHR ''/'' # r_name rel) = (if any_action acts then Some (relationPath rel acts) else None)"
    using assms(1) own by (simp add: D_def build_document_def o Let_def plain_relation_def paths_functions)
  show "aget (doc_Definitions D) (r_name rel) = (if any_action acts then Some (relationDefinition rel) else None)"
    using assms(1) own by (simp add: D_def build_document_def o Let_def plain_relation_def definitions_functions)
qed

lemma probe_gates:
  "probeAction reg rc rel k \<longleftrightarrow> gates_pass reg (req_context.truncate rc) (base (probe_query rel k)) \<and>
     (case r_policies reg (rc_role rc, rel) of None \<Rightarrow> True
      | Some pol \<Rightarrow> check_rows pol (req_context.truncate rc) (base (probe_query rel k)) = Some True)"
proof (cases "gates_pass reg (req_context.truncate rc) (base (probe_query rel k))")
  case True
  have "rc_role (req_context.truncate rc) = rc_role rc" by (simp add: req_context.truncate_def)
  moreover have "ref_name (q_relation (base (probe_query rel k))) = rel" by (simp add: probe_query_def new_base_def bare_ref_def)
  ultimately show ?thesis using True unfolding probeAction_def Authorize_pass [OF True] by (simp split: option.split)
qed (simp add: probeAction_def Authorize_fail)

lemma skip_absent: "evalPredicate ts claims (\<lambda>_. None) True"
  by (induction ts) simp_all

text \<open>
  The answers of the gate to the minimal queries of the document: a read of every column needs a grant on all of
  them, a write without a payload any grant of its action.
\<close>

lemma probe_read: "probeAction reg rc rel Read \<longleftrightarrow> (\<exists>g. r_grants reg (rc_role rc, rel, Select) = Some g \<and> cs_all g)"
proof -
  have "rc_role (req_context.truncate rc) = rc_role rc" by (simp add: req_context.truncate_def)
  then show ?thesis
    by (auto simp: probe_gates gates_pass_def gate_actions_def gate_projection_def gate_payload_def gateSelect_def probe_query_def
        new_base_def bare_ref_def actionsFor_def check_rows_def split: option.splits)
qed

lemma probe_write:
  "probeAction reg rc rel query_kind.Insert \<longleftrightarrow> r_grants reg (rc_role rc, rel, Insert) \<noteq> None"
  "probeAction reg rc rel query_kind.Update \<longleftrightarrow> r_grants reg (rc_role rc, rel, Update) \<noteq> None"
  "probeAction reg rc rel query_kind.Delete \<longleftrightarrow> r_grants reg (rc_role rc, rel, Delete) \<noteq> None"
proof -
  have role: "rc_role (req_context.truncate rc) = rc_role rc" by (simp add: req_context.truncate_def)
  have row: "rowLookup [] = (\<lambda>_. None)" by (rule ext) (simp add: rowLookup_def)
  note gates = probe_gates gates_pass_def gate_actions_def gate_projection_def gate_payload_def gateWriteColumns_def probe_query_def
    new_base_def bare_ref_def actionsFor_def writeColumnActions_def check_rows_def empty_write_def role row skip_absent
  show "probeAction reg rc rel query_kind.Insert \<longleftrightarrow> r_grants reg (rc_role rc, rel, Insert) \<noteq> None"
    by (auto simp: gates split: option.splits)
  show "probeAction reg rc rel query_kind.Update \<longleftrightarrow> r_grants reg (rc_role rc, rel, Update) \<noteq> None"
    by (auto simp: gates split: option.splits)
  show "probeAction reg rc rel query_kind.Delete \<longleftrightarrow> r_grants reg (rc_role rc, rel, Delete) \<noteq> None"
    by (auto simp: gates split: option.splits)
qed

lemma proxy_keeps:
  "oo_ActiveSchema (applyProxyURI pu px os) = oo_ActiveSchema os" "oo_Visibility (applyProxyURI pu px os) = oo_Visibility os"
  by (simp_all add: applyProxyURI_def Let_def split: option.split prod.split)

lemma root_options_active: "oo_ActiveSchema (root_options re sv r ident sch) = sch"
  by (simp add: root_options_def Let_def proxy_keeps split: option.split prod.split)

lemma root_options_visibility:
  assumes "sv_authz sv = Some reg" "sv_openapiMode sv = ''follow-privileges''"
  shows "oo_Visibility (root_options re sv r ident sch) = Some (role_actions reg (buildContext sv r ident sch))"
  using assms by (simp add: root_options_def Let_def)




definition follow_server :: "grant list \<Rightarrow> server" where
  "follow_server gs = (NewServer demo_model [] [''public''])\<lparr>sv_role := ''web'', sv_authz := Some (NewRegistry gs []),
     sv_openapiMode := ''follow-privileges''\<rparr>"

definition film_rel :: relation where
  "film_rel = hd (tl (relations_in demo_model ''public''))"

lemma film_rel_plain: "plain_relation (sv_model (follow_server gs)) ''public'' film_rel"
proof -
  have "sv_model (follow_server gs) = demo_model" by (simp add: follow_server_def NewServer_def)
  moreover have "map r_name (relations_in demo_model ''public'') = [''directors'', ''films'']" by code_simp
  moreover from this have "film_rel \<in> set (relations_in demo_model ''public'')" "r_name film_rel = ''films''"
    by (auto simp: film_rel_def neq_Nil_conv Cons_eq_map_conv)
  ultimately show ?thesis by (simp add: plain_relation_def has_prefix_def)
qed

lemma film_rel_facts: "r_kind film_rel = KindTable" "r_name film_rel = ''films''" by code_simp+

definition web_identity :: identity where
  "web_identity = \<lparr>id_role = ''web'', id_claims = [], id_anonymous = True\<rparr>"


text \<open>
  Column grants vanish from the document: a role that may read only some columns of a relation, and holds no
  other grant on it, finds neither a path nor a definition for it, although a read of those columns is let through.
\<close>

theorem column_grant_hidden:
  fixes fns :: fn_registry and caps :: capabilities and re :: root_env and r :: http_request and ident :: identity
  assumes "sv_authz sv = Some reg" and "sv_openapiMode sv = ''follow-privileges''" and "plain_relation (sv_model sv) sch rel"
    and "r_grants reg (id_role ident, r_name rel, Select) = Some g" "\<not> cs_all g"
    and "\<And>act. act \<noteq> Select \<Longrightarrow> r_grants reg (id_role ident, r_name rel, act) = None"
    and "q_kind (base q) = Read" "q_write (base q) = None" "ref_name (q_relation (base q)) = r_name rel"
    and "q_select (base q) \<noteq> []" "list_all (\<lambda>it. \<not> select_denied (cs_cols g) it) (q_select (base q))"
  defines "doc \<equiv> build_document (sv_model sv) fns caps (root_options re sv r ident sch)"
  shows "aget (doc_Paths doc) (CHR ''/'' # r_name rel) = None \<and> aget (doc_Definitions doc) (r_name rel) = None \<and>
    (\<exists>q'. Authorize reg (req_context.truncate (buildContext sv r ident sch)) q = Some (Inr q'))"
proof -
  let ?opts = "root_options re sv r ident sch" and ?rc = "buildContext sv r ident sch"
  have plain: "plain_relation (sv_model sv) (oo_ActiveSchema ?opts) rel" using assms(3) by (simp add: root_options_active)
  have role: "rc_role ?rc = id_role ident" "rc_role (req_context.truncate ?rc) = id_role ident"
    by (simp_all add: buildContext_def req_context.truncate_def)
  then have "\<not> any_action (role_actions reg ?rc rel)"
    using assms(4-6) by (simp add: any_action_def role_actions_def probe_read probe_write)
  then have "\<not> any_action (visible_actions ?opts rel)"
    by (auto simp: visible_actions_def root_options_visibility [OF assms(1,2)] any_action_def Let_def)
  then have hidden: "aget (doc_Paths doc) (CHR ''/'' # r_name rel) = None" "aget (doc_Definitions doc) (r_name rel) = None"
    unfolding doc_def document_relation [OF plain] by simp_all
  have "\<not> list_ex (select_denied (cs_cols g)) (q_select (base q))" using assms(11) by (auto simp: list_all_iff list_ex_iff)
  then have "gates_pass reg (req_context.truncate ?rc) (base q)"
    using assms(4,5,7-10) role
    by (simp add: gates_pass_def gate_actions_def gate_projection_def gate_payload_def gateSelect_def actionsFor_def)
  from Authorize_pass [OF this] have "\<exists>q'. Authorize reg (req_context.truncate ?rc) q = Some (Inr q')"
    using assms(7) by (simp add: check_rows_def split: option.split)
  with hidden show ?thesis by blast
qed

definition film_column_grants :: "grant list" where
  "film_column_grants = [\<lparr>g_role = ''web'', g_relation = ''films'', g_action = Select, g_columns = [''id'']\<rparr>]"

definition film_ids :: query where
  "film_ids = Query ((new_base Read ''films'')\<lparr>q_select := [SColumn (demo_ir_column ''id'')]\<rparr>) []"

theorem column_grant_hidden_witness:
  "aget (doc_Paths (build_document demo_model EmptyRegistry sqlite_Capabilities (root_options demo_root (follow_server film_column_grants)
       (demo_request ''GET'' ''/'' []) web_identity ''public''))) ''/films'' = None \<and>
   (\<exists>q'. Authorize (NewRegistry film_column_grants []) (req_context.truncate (buildContext (follow_server film_column_grants)
       (demo_request ''GET'' ''/'' []) web_identity ''public'')) film_ids = Some (Inr q'))"
proof -
  let ?sv = "follow_server film_column_grants" and ?g = "\<lparr>cs_all = False, cs_cols = {''id''}\<rparr>"
  have sv: "sv_authz ?sv = Some (NewRegistry film_column_grants [])" "sv_openapiMode ?sv = ''follow-privileges''" "sv_model ?sv = demo_model"
    by (simp_all add: follow_server_def NewServer_def)
  have "r_grants (NewRegistry film_column_grants []) (id_role web_identity, r_name film_rel, Select) = Some ?g"
    by (simp add: NewRegistry_def film_column_grants_def grant_step_def film_rel_facts web_identity_def)
  moreover have "r_grants (NewRegistry film_column_grants []) (id_role web_identity, r_name film_rel, act) = None" if "act \<noteq> Select" for act
    using that by (simp add: NewRegistry_def film_column_grants_def grant_step_def film_rel_facts web_identity_def)
  ultimately show ?thesis
    using column_grant_hidden [OF sv(1,2) film_rel_plain, of web_identity ?g film_ids EmptyRegistry sqlite_Capabilities demo_root
        "demo_request ''GET'' ''/'' []"]
    by (simp add: film_ids_def new_base_def bare_ref_def film_rel_facts select_denied_def isStar_def baseColumn_def demo_ir_column_def sv)
qed

subsection \<open>Operators\<close>

text \<open>A step of the compiler that always writes something.\<close>

definition succeeds :: "'a sql \<Rightarrow> bool" where
  "succeeds m \<longleftrightarrow> (\<forall>b. \<exists>x b'. m b = Some (Inr (x, b')))"

named_theorems succeeding

lemma succeeds_basic [succeeding]: "succeeds (ret x)" "succeeds (modify f)" "succeeds (gets g)" "succeeds (emit s)"
  by (simp_all add: succeeds_def ret_def modify_def gets_def emit_def)

lemma succeeds_andthen [succeeding]: "succeeds m \<Longrightarrow> (\<And>x. succeeds (k x)) \<Longrightarrow> succeeds (andthen m k)"
  unfolding succeeds_def andthen_def by (metis (no_types, lifting) option.simps(5) sum.simps(6) case_prod_conv)

lemma succeeds_each [succeeding]: "(\<And>x. succeeds (f x)) \<Longrightarrow> succeeds (each f xs)"
  by (induction xs) (auto intro!: succeeding)

lemma succeeds_values [succeeding]:
  "succeeds (bindv d a)" "succeeds (fromTextValue d n j t)" "succeeds (path0 (n # p))"
  by (auto simp: bindv_def fromTextValue_def path0_def intro!: succeeding)

lemma succeeds_column [succeeding]: "succeeds (path_expr d [n] l)"
  by (auto simp: path_expr_def intro!: succeeding)

lemma succeeds_in [succeeding]: "succeeds (writeIn d col n j xs)"
  by (auto simp: writeIn_def intro!: succeeding split: option.split)

lemma succeeds_equality [succeeding]: "cmp_path c = [n] \<Longrightarrow> succeeds (equality_sql d col c)"
  by (auto simp: equality_sql_def filterValue_def Let_def intro!: succeeding)

lemma succeeds_supported [succeeding]: "r \<noteq> None \<Longrightarrow> succeeds (supported what r)"
  by (auto simp: supported_def intro!: succeeding)

text \<open>The SQL engines: the dialect each compiles for, and what it says it can do on a server of some version.\<close>

definition sql_engine :: "dialect \<Rightarrow> capabilities \<Rightarrow> bool" where
  "sql_engine d caps \<longleftrightarrow> d = sqlite \<and> caps = sqlite_Capabilities \<or> d = postgres \<and> (\<exists>v. caps = pg_Capabilities v) \<or>
     d = mysql \<and> (\<exists>v. caps = mysql_Capabilities v) \<or> d = sqlserver \<and> (\<exists>v. caps = mssql_Capabilities v)"

lemma engine_patterns: "sql_engine d caps \<Longrightarrow> Regex d e p ci \<noteq> None \<and> ILike d e v \<noteq> None"
  by (auto simp: sql_engine_def sqlite_def postgres_def mysql_def sqlserver_def sqlite_Regex_def pg_Regex_def mysql_Regex_def
      mssql_Regex_def sqlite_ILike_def)

lemma engine_arrays:
  assumes "sql_engine d caps" and "tier_OK (cap_ArrayRangeTypes caps)"
  shows "ArrayOp d e k v t \<noteq> None \<and> RangeOp d e k v \<noteq> None"
  using assms by (auto simp: sql_engine_def sqlite_Capabilities_def mysql_Capabilities_def mssql_Capabilities_def Let_def tier_OK_def postgres_def)

lemma advertised_arrays:
  assumes "sql_engine d caps" and "tier_OK (operatorTier op caps)"
    and "op \<in> {OpContains, OpContained, OpOverlap, OpRangeSL, OpRangeSR, OpRangeNXR, OpRangeNXL, OpRangeAdj}"
  shows "tier_OK (cap_ArrayRangeTypes caps)"
proof -
  have "cap_Operators caps = []" using assms(1)
    by (auto simp: sql_engine_def sqlite_Capabilities_def pg_Capabilities_def mysql_Capabilities_def mssql_Capabilities_def Let_def)
  with assms(2,3) show ?thesis by (auto simp: operatorTier_def)
qed

lemma advertised_compares:
  assumes "sql_engine d caps" and "tier_OK (operatorTier (cmp_op c) caps)" and "cmp_op c \<notin> {OpFTS, OpIs}"
    and "cmp_path c = [n]" and "RegexFeatureGap d (v_text (cmp_value c)) = []"
  shows "succeeds (plain_compare d col n c)"
proof (cases "cmp_op c \<in> {OpContains, OpContained, OpOverlap, OpRangeSL, OpRangeSR, OpRangeNXR, OpRangeNXL, OpRangeAdj}")
  case True
  note arrays = engine_arrays [OF assms(1) advertised_arrays [OF assms(1,2) True]]
  show ?thesis using True arrays unfolding plain_compare_def Let_def
    by (cases "cmp_op c") (auto intro!: succeeding)
next
  case False
  show ?thesis using False assms(3-5) engine_patterns [OF assms(1)] unfolding plain_compare_def Let_def
    by (cases "cmp_op c") (auto simp: filterValue_def regex_sql_def intro!: succeeding)
qed

text \<open>
  No advertised operator is refused: on SQLite, PostgreSQL, MySQL and SQL Server of any version, a comparison of
  a column by an operator the document advertises, full-text search apart, is written into the statement; it is not
  refused as a feature the engine lacks. The only refusal left is the syntax error for an unknown operand of \<open>is\<close>.
  The pattern of a regular expression has to be within the grammar of the engine.
\<close>

theorem advertised_operator_served:
  assumes "sql_engine d caps" and "(tok, cmp_op c) \<in> set (advertised_ops caps)" and "cmp_op c \<noteq> OpFTS"
    and "cmp_path c = [n]" and "cmp_quant c = QNone" and "RegexFeatureGap d (v_text (cmp_value c)) = []"
  shows "(\<exists>b'. writeCompare d c b = Some (Inr ((), b'))) \<or>
    cmp_op c = OpIs \<and> v_text (cmp_value c) \<notin> {''null'', ''not_null'', ''true'', ''false'', ''unknown''} \<and>
    (\<exists>e. writeCompare d c b = Some (Inl e) \<and> code e = ''PGRST100'')"
proof -
  have ok: "tier_OK (operatorTier (cmp_op c) caps)" using assms(2) by (simp add: advertised_ops_def)
  have "andthen (ret x) k = k x" for x and k :: "string \<Rightarrow> unit sql" by (rule ext) (simp add: andthen_def ret_def)
  then have compare: "writeCompare d c = andthen (path_expr d [n] (cmp_last c)) (\<lambda>col.
      andthen (plain_compare d col n c) (\<lambda>frag. emit (if cmp_negate c then ''NOT ('' @ frag @ '')'' else frag)))"
    using assms(4,5) by (simp add: writeCompare_def path0_def)
  show ?thesis
  proof (cases "cmp_op c = OpIs \<and> v_text (cmp_value c) \<notin> {''null'', ''not_null'', ''true'', ''false'', ''unknown''}")
    case True
    obtain col b1 where col: "path_expr d [n] (cmp_last c) b = Some (Inr (col, b1))"
      using succeeds_column unfolding succeeds_def by blast
    have "plain_compare d col n c b1 = Some (Inl (ErrParse (''unknown is value '' @ v_text (cmp_value c))))"
      using True by (simp add: plain_compare_def writeIs_def fail_def Let_def)
    then have "writeCompare d c b = Some (Inl (ErrParse (''unknown is value '' @ v_text (cmp_value c))))"
      unfolding compare by (simp add: andthen_def col)
    then show ?thesis using True by (simp add: ErrParse_def New_def)
  next
    case False
    have "succeeds (plain_compare d col n c)" for col
    proof (cases "cmp_op c = OpIs")
      case True
      with False show ?thesis by (auto simp: plain_compare_def writeIs_def Let_def intro!: succeeding)
    next
      case False
      then show ?thesis using advertised_compares [OF assms(1) ok _ assms(4,6)] assms(3) by simp
    qed
    then have "succeeds (writeCompare d c)" unfolding compare by (auto intro!: succeeding)
    then show ?thesis unfolding succeeds_def by (metis old.unit.exhaust)
  qed
qed

definition demo_match :: compare where
  "demo_match = (policy_compare ''title'' OpMatch (text_value ''^U''))"

theorem advertised_operator_served_witness:
  "\<exists>b'. writeCompare mysql demo_match newBuilder = Some (Inr ((), b'))"
proof -
  have "sql_engine mysql (mysql_Capabilities (mysql_ParseVersion ''8.0.36''))" by (auto simp: sql_engine_def)
  moreover have "(''match'', cmp_op demo_match) \<in> set (advertised_ops (mysql_Capabilities (mysql_ParseVersion ''8.0.36'')))" by code_simp
  moreover have "RegexFeatureGap mysql (v_text (cmp_value demo_match)) = []" by (simp add: mysql_def)
  ultimately show ?thesis
    using advertised_operator_served [of mysql "mysql_Capabilities (mysql_ParseVersion ''8.0.36'')" "''match''" demo_match "''title''" newBuilder]
    by (simp add: demo_match_def policy_compare_def)
qed

text \<open>
  Full-text search is advertised where it is refused: on SQLite every column advertises fts, and a comparison by
  it on a column without a full-text index is refused with PGRST127.
\<close>

theorem advertised_search_refused:
  assumes "cmp_op c = OpFTS" and "cmp_quant c = QNone" and "cmp_path c = [n]" and "cmp_full_text c = None"
  shows "(''fts'', cmp_op c) \<in> set (advertised_ops sqlite_Capabilities) \<and>
    (\<exists>e. writeCompare sqlite c b = Some (Inl e) \<and> code e = ''PGRST127'')"
proof -
  have "(''fts'', OpFTS) \<in> set (advertised_ops sqlite_Capabilities)" by code_simp
  moreover have "writeCompare sqlite c b = Some (Inl (ErrFullTextUnavailable n ''sql''))"
    using assms by (simp add: writeCompare_def path0_def path_expr_def plain_compare_def writeFTS_def sqlite_def sqlite_FullText_def
        andthen_def ret_def gets_def fail_def Let_def)
  ultimately show ?thesis using assms(1) by (simp add: ErrFullTextUnavailable_def WithHint_def WithDetails_def New_def)
qed

theorem advertised_search_refused_witness:
  "(''fts'', OpFTS) \<in> set (advertised_ops sqlite_Capabilities) \<and>
   (\<exists>e. writeCompare sqlite (policy_compare ''title'' OpFTS (text_value ''robot'')) newBuilder = Some (Inl e) \<and> code e = ''PGRST127'')"
  using advertised_search_refused [of "policy_compare ''title'' OpFTS (text_value ''robot'')" "''title''" newBuilder]
  by (simp add: policy_compare_def)

end
