(* ===== verification/Openapi_Text.thy ===== *)
theory Openapi_Text
  imports Openapi_Facts Http_Answers
begin

section \<open>The text of the document\<close>

text \<open>
  What \<open>json.MarshalIndent\<close> writes is a JSON document, and white space apart it is what \<open>json.Marshal\<close> writes. The
  readers are those of \<open>Json_Text\<close>, here over texts with white space between their tokens.
\<close>

subsection \<open>White space between tokens\<close>

abbreviation white :: "string \<Rightarrow> bool" where
  "white w \<equiv> \<forall>c \<in> set w. json_ws c"

text \<open>\<open>laid_out t u\<close>: the text \<open>t\<close> is read as one value whatever follows it, and is \<open>u\<close> with white space added.\<close>

definition laid_out :: "string \<Rightarrow> string \<Rightarrow> bool" where
  "laid_out t u \<longleftrightarrow> (\<forall>rest. squeeze False (t @ rest) = u @ squeeze False rest) \<and>
     (\<forall>rest n. length t < n \<longrightarrow> read_value n (t @ rest) = Some rest) \<and> (\<exists>c s. t = c # s \<and> \<not> json_ws c \<and> c \<noteq> CHR '']'')"

lemma squeeze_white [simp]: "white w \<Longrightarrow> squeeze False (w @ s) = squeeze False s"
  by (induction w) auto

lemma skip_blank [simp]: "white w \<Longrightarrow> skip_ws (w @ s) = skip_ws s"
  by (induction w) auto

lemma read_value_blank: "white w \<Longrightarrow> read_value n (w @ s) = read_value n s"
  by (cases n) simp_all

lemma read_members_blank: "white w \<Longrightarrow> read_members n (w @ s) = read_members n s"
  by (cases n) simp_all

lemma laid_squeeze: "laid_out t u \<Longrightarrow> squeeze False (t @ rest) = u @ squeeze False rest"
  by (simp add: laid_out_def)

lemma laid_read: "laid_out t u \<Longrightarrow> length t < n \<Longrightarrow> read_value n (t @ rest) = Some rest"
  by (simp add: laid_out_def)

lemma laid_head: "laid_out t u \<Longrightarrow> \<exists>c s. t = c # s \<and> \<not> json_ws c \<and> c \<noteq> CHR '']''"
  by (simp add: laid_out_def)

lemma laid_quoted: "str_body p \<Longrightarrow> laid_out (dquote # p @ [dquote]) (dquote # p @ [dquote])"
proof -
  assume p: "str_body p"
  have "read_value n (dquote # p @ dquote # rest) = Some rest" if "length p + 2 < n" for n rest
    using that read_str_body [OF p] by (cases n) simp_all
  then show ?thesis using tight_quoted [OF p] by (simp add: laid_out_def tight_def)
qed

lemma laid_word: "laid_out ''true'' ''true''" "laid_out ''false'' ''false''"
proof -
  have "squeeze False (''true'' @ rest) = ''true'' @ squeeze False rest" "squeeze False (''false'' @ rest) = ''false'' @ squeeze False rest" for rest
    by (simp_all add: json_ws_def)
  moreover have "read_value n (''true'' @ rest) = Some rest" "read_value n (''false'' @ rest) = Some rest" if "4 < n" for n rest
    using that by (cases n; simp add: json_ws_def read_word_def has_prefix_def)+
  ultimately show "laid_out ''true'' ''true''" "laid_out ''false'' ''false''" by (simp_all add: laid_out_def json_ws_def)
qed

subsection \<open>Containers\<close>

lemma squeeze_spread:
  assumes "white w" and "list_all2 (\<lambda>t u. \<forall>rest. squeeze False (t @ rest) = u @ squeeze False rest) ts us"
  shows "squeeze False (join '','' (map ((@) w) ts) @ rest) = join '','' us @ squeeze False rest"
  using assms(2)
proof (induction ts arbitrary: us rule: induct_list012)
  case (2 t)
  then show ?case using assms(1) by (auto simp: list_all2_Cons1)
next
  case (3 t t' ts)
  then obtain u u' vs where u: "us = u # u' # vs" "list_all2 (\<lambda>t u. \<forall>rest. squeeze False (t @ rest) = u @ squeeze False rest) (t' # ts) (u' # vs)"
      "\<forall>rest. squeeze False (t @ rest) = u @ squeeze False rest"
    by (auto simp: list_all2_Cons1)
  then show ?case using "3.IH"(2) [OF u(2)] assms(1) by simp
qed (simp add: list_all2_Nil)

lemma read_elems_spread:
  assumes "white w" "white z" and "\<And>t. t \<in> set ts \<Longrightarrow> \<exists>u. laid_out t u" and "ts \<noteq> []"
    and "length (join '','' (map ((@) w) ts)) + 1 < n"
  shows "read_elems n (join '','' (map ((@) w) ts) @ z @ CHR '']'' # rest) = Some rest"
  using assms(3-)
proof (induction ts arbitrary: n rule: induct_list012)
  case (2 t)
  then obtain u where "laid_out t u" by auto
  then have "read_value (n - 1) (w @ t @ z @ CHR '']'' # rest) = Some (z @ CHR '']'' # rest)"
    using 2 assms(1) by (simp add: read_value_blank laid_read)
  then show ?case using 2 assms(2) by (cases n) simp_all
next
  case (3 t t' ts)
  obtain u where "laid_out t u" using "3.prems"(1) [of t] by auto
  then have "read_value (n - 1) (w @ t @ '','' @ join '','' (map ((@) w) (t' # ts)) @ z @ CHR '']'' # rest) =
      Some ('','' @ join '','' (map ((@) w) (t' # ts)) @ z @ CHR '']'' # rest)"
    using 3 assms(1) by (simp add: read_value_blank laid_read)
  moreover have "read_elems (n - 1) (join '','' (map ((@) w) (t' # ts)) @ z @ CHR '']'' # rest) = Some rest"
    using 3 by (intro "3.IH"(2)) simp_all
  ultimately show ?case using 3 by (cases n) simp_all
qed simp

text \<open>A member of an object: a key, a colon, blanks and a value.\<close>

definition laid_member :: "string \<Rightarrow> string \<Rightarrow> bool" where
  "laid_member m k \<longleftrightarrow> (\<exists>p v t u. str_body p \<and> white v \<and> laid_out t u \<and> m = dquote # p @ dquote # CHR '':'' # v @ t \<and>
     k = dquote # p @ dquote # CHR '':'' # u)"

lemma laid_memberI:
  "str_body p \<Longrightarrow> white v \<Longrightarrow> laid_out t u \<Longrightarrow> laid_member (dquote # p @ dquote # CHR '':'' # v @ t) (dquote # p @ dquote # CHR '':'' # u)"
  unfolding laid_member_def by blast

lemma laid_member_squeeze: "laid_member m k \<Longrightarrow> squeeze False (m @ rest) = k @ squeeze False rest"
proof -
  assume "laid_member m k"
  then obtain p v t u where m: "str_body p" "white v" "laid_out t u" "m = (dquote # p @ [dquote]) @ '':'' @ v @ t"
      "k = (dquote # p @ [dquote]) @ '':'' @ u"
    by (auto simp: laid_member_def)
  have "squeeze False ((dquote # p @ [dquote]) @ s) = (dquote # p @ [dquote]) @ squeeze False s" for s
    using tight_quoted [OF m(1)] by (simp only: tight_def)
  then show ?thesis using m(2,3) unfolding m(4,5) by (simp only: append_assoc) (simp add: laid_squeeze)
qed

lemma read_laid_member:
  assumes "laid_member m k" "length m < n"
  shows "read_members n (m @ rest) =
    (case skip_ws rest of x # y \<Rightarrow> if x = CHR '','' then read_members (n - 1) y else if x = CHR ''}'' then Some y else None | [] \<Rightarrow> None)"
proof -
  obtain j where n: "n = Suc j" using assms(2) by (cases n) simp_all
  obtain p v t u where m: "str_body p" "white v" "laid_out t u" "m = dquote # p @ dquote # CHR '':'' # v @ t"
    using assms(1) by (auto simp: laid_member_def)
  have "read_value j (v @ t @ rest) = Some rest" using assms(2) m(2-4) n by (simp add: read_value_blank laid_read)
  then show ?thesis using m(4) read_str_body [OF m(1), of "CHR '':'' # v @ t @ rest"] unfolding n by (simp split: list.split)
qed

lemma read_members_spread:
  assumes "white w" "white z" and "\<And>m. m \<in> set ms \<Longrightarrow> \<exists>k. laid_member m k" and "ms \<noteq> []"
    and "length (join '','' (map ((@) w) ms)) < n"
  shows "read_members n (join '','' (map ((@) w) ms) @ z @ CHR ''}'' # rest) = Some rest"
  using assms(3-)
proof (induction ms arbitrary: n rule: induct_list012)
  case (2 m)
  then obtain k where "laid_member m k" by auto
  then show ?case using 2 assms(1,2) read_laid_member [of m k n "z @ CHR ''}'' # rest"] by (simp add: read_members_blank)
next
  case (3 m m' ms)
  obtain k where k: "laid_member m k" using "3.prems"(1) [of m] by auto
  have "read_members (n - 1) (join '','' (map ((@) w) (m' # ms)) @ z @ CHR ''}'' # rest) = Some rest"
    using 3 by (intro "3.IH"(2)) simp_all
  then show ?case
    using 3 assms(1) read_laid_member [OF k, of n "'','' @ join '','' (map ((@) w) (m' # ms)) @ z @ CHR ''}'' # rest"]
    by (simp add: read_members_blank)
qed simp

lemma broken_Cons:
  "ts \<noteq> [] \<Longrightarrow> broken pre l r ts = l # join '','' (map ((@) (newline # pre @ ''  '')) ts) @ (newline # pre) @ [r]"
proof -
  have "(\<lambda>t. newline # pre @ ''  '' @ t) = (@) (newline # pre @ ''  '')" by (rule ext) simp
  then show "ts \<noteq> [] \<Longrightarrow> ?thesis" unfolding broken_def by simp
qed

lemma blank_indent: "white pre \<Longrightarrow> white (newline # pre @ ''  '') \<and> white (newline # pre) \<and> white (pre @ ''  '')"
  by (auto simp: newline_def json_ws_def)

lemma spread_head:
  "ts \<noteq> [] \<Longrightarrow> hd ts = c # s \<Longrightarrow> \<exists>u. join '','' (map ((@) w) ts) = w @ c # u"
  by (cases ts rule: list.exhaust; cases "tl ts") auto

lemma laid_array:
  assumes "white pre" and "list_all2 laid_out ts us"
  shows "laid_out (broken pre CHR ''['' CHR '']'' ts) (''['' @ join '','' us @ '']'')"
proof (cases "ts = []")
  case True
  moreover have "read_value n (CHR ''['' # CHR '']'' # rest) = Some rest" if "2 < n" for n rest
    using that by (cases n) (simp_all add: read_closing_def)
  ultimately show ?thesis using assms(2) by (simp add: broken_def laid_out_def)
next
  case False
  define w z where wz: "w = newline # pre @ ''  ''" "z = newline # pre"
  have b: "white w" "white z" using blank_indent [OF assms(1)] by (simp_all add: wz)
  let ?ts = "join '','' (map ((@) w) ts)"
  have t: "broken pre CHR ''['' CHR '']'' ts = CHR ''['' # ?ts @ z @ [CHR '']'']" using broken_Cons [OF False] by (simp add: wz)
  have laid: "\<exists>u. laid_out t u" if "t \<in> set ts" for t using assms(2) that by (auto simp: list_all2_conv_all_nth in_set_conv_nth)
  have "squeeze False (?ts @ s) = join '','' us @ squeeze False s" for s
    by (rule squeeze_spread [OF b(1)]) (rule list_all2_mono [OF assms(2)], simp add: laid_squeeze)
  then have sq: "squeeze False ((CHR ''['' # ?ts @ z @ [CHR '']'']) @ s) = (''['' @ join '','' us @ '']'') @ squeeze False s" for s
    using b(2) by simp
  obtain a c where "hd ts = a # c" "\<not> json_ws a" "a \<noteq> CHR '']''" using laid [of "hd ts"] False laid_head by fastforce
  moreover then obtain u where "?ts = w @ a # u" using spread_head [OF False] by blast
  ultimately have open_list: "read_closing CHR '']'' (?ts @ s) = None" for s using b(1) by (simp add: read_closing_def)
  have "read_value n (CHR ''['' # ?ts @ z @ CHR '']'' # rest) = Some rest" if "length ?ts + 2 < n" for n rest
    using that read_elems_spread [OF b laid False, of "n - 1" rest] open_list by (cases n) simp_all
  then show ?thesis using sq by (simp add: laid_out_def t)
qed

lemma laid_object:
  assumes "white pre" and "list_all2 laid_member ms ks"
  shows "laid_out (broken pre CHR ''{'' CHR ''}'' ms) (''{'' @ join '','' ks @ ''}'')"
proof (cases "ms = []")
  case True
  moreover have "read_value n (CHR ''{'' # CHR ''}'' # rest) = Some rest" if "2 < n" for n rest
    using that by (cases n) (simp_all add: read_closing_def)
  ultimately show ?thesis using assms(2) by (simp add: broken_def laid_out_def)
next
  case False
  define w z where wz: "w = newline # pre @ ''  ''" "z = newline # pre"
  have b: "white w" "white z" using blank_indent [OF assms(1)] by (simp_all add: wz)
  let ?ms = "join '','' (map ((@) w) ms)"
  have t: "broken pre CHR ''{'' CHR ''}'' ms = CHR ''{'' # ?ms @ z @ [CHR ''}'']" using broken_Cons [OF False] by (simp add: wz)
  have laid: "\<exists>k. laid_member m k" if "m \<in> set ms" for m using assms(2) that by (auto simp: list_all2_conv_all_nth in_set_conv_nth)
  have "squeeze False (?ms @ s) = join '','' ks @ squeeze False s" for s
    by (rule squeeze_spread [OF b(1)]) (rule list_all2_mono [OF assms(2)], simp add: laid_member_squeeze)
  then have sq: "squeeze False ((CHR ''{'' # ?ms @ z @ [CHR ''}'']) @ s) = (''{'' @ join '','' ks @ ''}'') @ squeeze False s" for s
    using b(2) by simp
  obtain c where "hd ms = dquote # c" using laid [of "hd ms"] False by (auto simp: laid_member_def)
  then obtain u where "?ms = w @ dquote # u" using spread_head [OF False] by blast
  then have open_list: "read_closing CHR ''}'' (?ms @ s) = None" for s using b(1) by (simp add: read_closing_def)
  have "read_value n (CHR ''{'' # ?ms @ z @ CHR ''}'' # rest) = Some rest" if "length ?ms + 2 < n" for n rest
    using that read_members_spread [OF b laid False, of "n - 1" rest] open_list by (cases n) simp_all
  then show ?thesis using sq by (simp add: laid_out_def t)
qed

subsection \<open>The encoder\<close>

lemma json_string_body: "str_body (concat (map json_rune (runes s)))"
proof (intro str_body_concat)
  fix x
  assume "x \<in> set (map json_rune (runes s))"
  then obtain r where r: "r \<in> set (runes s)" "x = json_rune r" by auto
  show "str_body x"
  proof (cases r)
    case None
    then show ?thesis using raw_rune_body [OF r(1)] r(2) by (simp add: raw_rune_def)
  next
    case (Some t)
    then show ?thesis using r rune_bytes [of t s] json_rune_byte json_rune_bytes by auto
  qed
qed

lemma laid_string: "laid_out (json_string s) (json_string s)"
  using laid_quoted [OF json_string_body] by (simp add: json_string_def)

lemma laid_indented: "white pre \<Longrightarrow> laid_out (indented_text pre j) (compact_text j)"
proof (induction pre j rule: indented_text.induct)
  case (3 pre xs)
  have "white (pre @ ''  '')" using blank_indent [OF "3.prems"] by blast
  from "3.IH" [OF _ this] have "list_all2 laid_out (map (indented_text (pre @ ''  '')) xs) (map compact_text xs)"
    unfolding list_all2_map1 list_all2_map2 list_all2_same by blast
  from laid_array [OF "3.prems" this] show ?case by simp
next
  case (4 pre fs)
  have "laid_member (json_string k @ '': '' @ indented_text (pre @ ''  '') v) (json_string k @ '':'' @ compact_text v)"
    if "(k, v) \<in> set fs" for k v
  proof -
    have "laid_out (indented_text (pre @ ''  '') v) (compact_text v)" using "4.IH" [OF that refl] blank_indent [OF "4.prems"] by blast
    moreover have "white '' ''" by (simp add: json_ws_def)
    ultimately show ?thesis using laid_memberI [OF json_string_body [of k], of "'' ''"] by (simp add: json_string_def)
  qed
  then have "list_all2 laid_member (map (\<lambda>(k, v). json_string k @ '': '' @ indented_text (pre @ ''  '') v) fs)
      (map (\<lambda>(k, v). json_string k @ '':'' @ compact_text v) fs)"
    by (auto simp: list_all2_map1 list_all2_map2 list_all2_same)
  from laid_object [OF "4.prems" this] show ?case by simp
qed (simp_all add: laid_string laid_word)

lemma generated_text:
  obtains body where "Generate m fns caps opts = Inr body" and "json_Valid body"
    and "squeeze False body = compact_text (document_json (build_document m fns caps opts))"
proof
  let ?j = "document_json (build_document m fns caps opts)"
  let ?t = "indented_text [] ?j"
  have laid: "laid_out ?t (compact_text ?j)" by (rule laid_indented) simp
  show "Generate m fns caps opts = Inr ?t" by (simp add: Generate_def)
  have "read_value (Suc (length ?t)) (?t @ []) = Some []" by (rule laid_read [OF laid]) simp
  then show "json_Valid ?t" by (simp add: json_Valid_def)
  have "squeeze False (?t @ []) = compact_text ?j @ squeeze False []" by (rule laid_squeeze [OF laid])
  then show "squeeze False ?t = compact_text ?j" by simp
qed

text \<open>
  The root serves its document: a GET of the root that accepts JSON, with the document neither disabled nor
  replaced by a function, is answered 200 with the media type of OpenAPI and a body that is a valid JSON text and,
  without the white space of its layout, the compact encoding of the document built for the active schema; the
  backend is not touched.
\<close>

theorem root_serves_document:
  assumes "hr_method r = ''GET''" and "sv_openapiMode sv \<noteq> ''disabled''" and "sv_rootSpec sv = []"
    and "rootAcceptable (ge_float env) (header_values (hr_headers r) ''Accept'')"
  shows "\<exists>body. handleRoot env (openapi_root caps pu) sv be r ident sch h d =
      reply (WriteHeader (header_set ''Content-Type'' ''application/openapi+json; charset=utf-8'' h) 200 body) d \<and>
    json_Valid body \<and> squeeze False body = compact_text (document_json
      (build_document (sv_model sv) (rpcRegistry be sch) caps (root_options (openapi_root caps pu) sv r ident sch)))"
proof -
  obtain body where b: "Generate (sv_model sv) (rpcRegistry be sch) caps (root_options (openapi_root caps pu) sv r ident sch) = Inr body"
      "json_Valid body" "squeeze False body = compact_text (document_json
        (build_document (sv_model sv) (rpcRegistry be sch) caps (root_options (openapi_root caps pu) sv r ident sch)))"
    by (rule generated_text)
  then have "handleRoot env (openapi_root caps pu) sv be r ident sch h d =
      reply (WriteHeader (header_set ''Content-Type'' ''application/openapi+json; charset=utf-8'' h) 200 body) d"
    using assms by (simp add: handleRoot_def openapi_root_def openapiMedia_def unless_head_def)
  with b(2,3) show ?thesis by blast
qed

theorem root_serves_document_witness:
  "\<exists>body. handleRoot demo_env (openapi_root sqlite_Capabilities (\<lambda>_. None)) demo_server demo_backend (demo_request ''GET'' ''/'' [])
      web_identity ''public'' [] 0 =
      reply (WriteHeader (header_set ''Content-Type'' ''application/openapi+json; charset=utf-8'' []) 200 body) 0 \<and> json_Valid body"
proof -
  have "rootAcceptable (ge_float demo_env) (header_values (hr_headers (demo_request ''GET'' ''/'' [])) ''Accept'')" by code_simp
  then show ?thesis
    using root_serves_document [of "demo_request ''GET'' ''/'' []" demo_server demo_env sqlite_Capabilities "\<lambda>_. None" demo_backend
        web_identity "''public''" "[]" 0]
    by (auto simp: demo_request_def demo_server_def NewServer_def)
qed

end
