(* ===== verification/Spec2Isabelle.thy ===== *)
theory Spec2Isabelle
  imports Sql_Quoting App_Facts Openapi_Text
begin

text \<open>
  \<^bold>\<open>dbrest, a verification development.\<close>

  dbrest serves the PostgREST HTTP interface over several database engines. A request goes through
  a pipeline: the query string, the Prefer header and the body are parsed into an intermediate
  representation (package ir); the planner resolves it against the schema model (packages plan and
  schema); on engines without row security the authorization gate checks the privileges of the
  role and adds the row level security policy to the filter (package authz); a compiler turns the
  result into a parameterized SQL statement for the engine (package backend/sqlgen), and the
  backend runs it. Every refusal is an error of the code table (package pgerr).

  \<^bold>\<open>Theories, in the order of the pipeline.\<close>
  \<^item> \<open>Dbrest_Prelude\<close>: results as sums with the early return \<open>bindr\<close>, Go maps as association lists,
    the collections of simplification rules.
  \<^item> \<open>Go_Strings\<close>: the part of the Go standard library the sources use (strings, strconv.ParseInt,
    net/url.ParseQuery), on byte strings, with the locale \<open>splitter\<close> for every function that cuts
    a text into pieces.
  \<^item> \<open>Go_Numbers\<close>, \<open>Go_Json\<close>: decimal and floating-point texts, runes and the JSON encoder.
  \<^item> \<open>Pgerr\<close> (src/pgerr): the error envelope and its constructors.
  \<^item> \<open>Schema\<close> (src/schema): the model of relations, the projection of foreign keys onto views and
    the relationship edges between two relations.
  \<^item> \<open>Ir\<close> (src/ir/ir.go): the types of the intermediate representation.
  \<^item> \<open>Prefer\<close> (src/ir/prefer.go): the Prefer header. The loop over the tokens keeps \<open>prefer_inv\<close>;
    the properties are the first occurrence, the echo, the strict handling and db-tx-end.
  \<^item> \<open>Parse_Lex\<close>, \<open>Parse_Select\<close>, \<open>Parse_Facts\<close> (src/ir/parse.go): the scanners, the select, order
    and filter grammars, and their facts: the errors, the round trips with the text a client
    writes, the locale \<open>select_invariant\<close> for what holds at every level of a select tree.
  \<^item> \<open>Parse_Request\<close> (src/ir/parse.go): \<open>ParseRead\<close>, \<open>ParseWrite\<close>, \<open>ParseCall\<close> and the bodies. The
    locale \<open>counting_invariant\<close> carries an invariant through the parameters of every embed.
  \<^item> \<open>Cond_Semantics\<close>: the three-valued meaning of a filter tree, as the SQL the compiler writes for
    it has in an engine, which is a parameter.
  \<^item> \<open>Authz\<close>, \<open>Authz_Parse\<close> (src/authz): the registry, the gate, and the declaration syntax of
    policies.
  \<^item> \<open>Pgtypes\<close> (src/pgtypes): canonical types and the coercion of textual operands.
  \<^item> \<open>Plan\<close>, \<open>Plan_Facts\<close> (src/plan/plan.go): binding a query to the schema model. The facts say what a
    planned read or write has been checked for, which reads are planned and with which errors the
    others are refused. \<open>Rpc\<close> (src/rpc/registry.go): functions, overload resolution as the choice among
    the best overloads, merging; the locale \<open>function_registry\<close> is the contract of a registry.
    \<open>Plan_Call\<close> (src/plan/plan.go): \<open>Call\<close>, over any registry that keeps the contract.
  \<^item> \<open>Sqlgen\<close>, \<open>Sqlgen_Embed\<close> (src/backend/sqlgen): the compiler as a state monad over the builder,
    with panics, refusals and results; \<open>Fulltext\<close>, \<open>Dialects\<close> (the dialect.go and fulltext.go of
    src/backend/sqlite, postgres, mysql and sqlserver): the four dialects it is parameterized by.
    \<open>Reqctx\<close> (src/reqctx): the documents of the request context; \<open>Sqlgen_Call\<close>
    (src/backend/sqlgen/call.go, context.go): the statements of function calls.
  \<^item> \<open>Sqlgen_Facts\<close>: two runs of the compiler on queries alike up to values, with the locale
    \<open>value_blind\<close> for what that needs of a dialect; \<open>Sqlgen_Call\<close> continues it to calls. \<open>Sql_Quoting\<close>: the locale \<open>quoting\<close>, that what is
    quoted is read back, for the identifiers of each dialect and for literals. \<open>Sqlgen_Errors\<close>: with which errors a
    statement is refused. \<open>Sqlgen_Total\<close>: what the compiler takes for granted (\<open>ready\<close>), that parsing and planning
    establish it, and that the compiler then never panics.
  \<^item> \<open>Jwt_Cache\<close> (src/auth/cache.go): the token cache on a heap of list entries, refining the abstract
    queue \<open>sieve\<close>; the locale \<open>token_cache\<close> is what the verifier relies on. \<open>Auth_Path\<close>
    (src/auth/jspath.go): the role-claim path. \<open>Auth\<close> (src/auth/auth.go, jwk.go): keys, claims and
    \<open>Authenticate\<close>, with the cache shown to change no answer; \<open>reached_cache\<close> are the caches requests leave behind.
  \<^item> \<open>Http_Negotiate\<close> (src/httpapi/negotiate.go): the Accept header. \<open>Go_Encode\<close>: the encoders of the Go
    library (floats, JSON, base64, CSV, query escapes) and its JSON scanner; \<open>Json_Text\<close>: what they write
    is what the scanner accepts. \<open>Http_Render\<close> (src/httpapi/render.go): the bodies of responses.
  \<^item> \<open>Http_Server\<close>, \<open>Http_Handlers\<close> (src/httpapi/server.go, root.go, src/backend/spi.go): requests, responses, the
    server and its handlers up to \<open>ServeHTTP\<close>, over any backend; \<open>Http_Facts\<close>: which plans reach the backend,
    under which identity and with which row cap, by a log beside the database; \<open>Http_Answers\<close>: runs of the
    server as a step relation, and, in the locale \<open>answering_backend\<close>, that every request of a run is answered over
    any backend that keeps its contract.
  \<^item> \<open>Backend_Shared\<close> (src/backend/spi.go, writerep.go, responsecontrols.go, src/pgerr/raise.go, the error map of
    src/backend/postgres/postgres.go): the guards of a write, the rows it returns, the columns and errors with which a
    function steers the response. \<open>Sqlite_Exec\<close> (src/backend/sqlite/sqlite.go, result.go): running a plan on SQLite,
    over a database handle that is an argument; transactions, and the interpretation of \<open>answering_backend\<close>.
  \<^item> \<open>Go_Durations\<close>: time.ParseDuration, Duration.String, strconv.ParseBool and net.JoinHostPort. \<open>Config\<close>
    (src/config/config.go, parse.go, dump.go): the options, their file syntax, the environment, the checks of \<open>Load\<close>
    and the text \<open>Dump\<close> writes; \<open>Config_Facts\<close>: which source of an option wins and what a loaded configuration has
    been checked for; \<open>Config_Dump\<close>: that the dump of a loaded configuration is read back as that configuration.
  \<^item> \<open>App\<close> (src/cmd/dbrest, src/adminapi): the engines, the boot from command line to server, the admin endpoints
    and the reloads, with the step relation \<open>process\<close> of a running server; \<open>App_Facts\<close>: what every reachable state of
    the process keeps, and that it answers every request.
  \<^item> \<open>Capabilities\<close> (src/backend/capabilities.go and the capabilities.go of each engine): the tiers of support and
    what each version of an engine declares. \<open>Openapi\<close> (src/openapi): the OpenAPI document, built from the schema
    model, the functions, the capabilities and what the role may do, and its JSON text; \<open>Openapi_Facts\<close>: its references
    resolve, it follows the privileges, and the operators it advertises are those the compiler writes; \<open>Openapi_Text\<close>:
    the text the root serves is that document, \<open>openapi_root\<close> being the generator \<open>handleRoot\<close> is given.
  \<^item> This theory: what spans the gate and the compiler, that is which rows of a payload a statement stores and what
    of an upsert's filter reaches it.

  \<^bold>\<open>How the code is modelled.\<close> A Go string is the list of its bytes. A function that may fail returns
  a sum, \<open>Inl\<close> the error it returns; a nil dereference, where the code could meet one, is the
  \<open>None\<close> of an option. Go maps are association lists with distinct keys, so the order in which a
  range visits a map is explicit and determinism is a theorem. int is an unbounded integer with
  the bounds of int64 checked where the code parses one. Recursive parsers terminate on the length
  of their text (\<open>parseSelect\<close>, \<open>parseLogical\<close>) or on the weight of the parameter keys
  (\<open>applyParams\<close>). The one fuel is that of \<open>writeCond\<close>, which bounds how often an existence filter
  leads into the filter of the embed it names: one more than the embeds of the builder. A planned
  filter of an embed holds no such node (\<open>embed_ready\<close>), so the fuel is enough; a query that does would
  send the code into a recursion without end, and the model into the \<open>None\<close> of a panic. The sweep of the token cache is a partial
  function; it is proved to return on every cache the operations reach.

  \<^bold>\<open>Code outside the sources\<close> is a parameter: the JSON and CSV decoders, the time-zone database, the
  JWT library with its cryptography, the answer of an engine to a comparison, the database driver. Where a property needs something of them it says so: that a
  decoded JSON object has distinct keys.

  \<^bold>\<open>Not modelled.\<close> The rendering of driver
  values (src/pgtypes/encode.go), the execution paths of the engines other than SQLite and the introspection of their
  catalogs. Of the command: the listening sockets, signals and the goroutine on the notification channel, which
  are I/O whose events are the steps of \<open>process\<close>; the request log and the Server-Timing header, which are timing.
\<close>

section \<open>Properties across components\<close>

text \<open>
  The gate never meets a write without a payload: whatever \<open>ParseWrite\<close> accepts, for every
  registry and request context, authorization answers, with a refusal or with a query; it does not
  run into the nil payload its checks would dereference.
\<close>

theorem parsed_write_authorize_answers:
  assumes "ParseWrite tz_ok jd cr kind rel raw hdrs ct body = Inr q"
  shows "Authorize r rc q \<noteq> None"
proof (rule Authorize_no_panic)
  show "q_kind (base q) \<in> {Read, query_kind.Delete} \<or> q_write (base q) \<noteq> None"
    by (rule ParseWrite_InrE [OF assms]) simp
qed

theorem parsed_write_authorize_answers_witness:
  "\<exists>q. ParseWrite (\<lambda>z. True) (\<lambda>b. Some (JObject [])) (\<lambda>b. Inr []) query_kind.Insert ''films'' [] [] [] ''x'' = Inr q \<and>
     Authorize (NewRegistry demo_grants [demo_policy]) demo_context q \<noteq> None"
proof -
  let ?q = "ParseWrite (\<lambda>z. True) (\<lambda>b. Some (JObject [])) (\<lambda>b. Inr []) query_kind.Insert ''films'' [] [] [] ''x''"
  have "\<not> isl ?q" by code_simp
  then obtain q where "?q = Inr q" by (cases ?q) auto
  with parsed_write_authorize_answers [OF this] show ?thesis by blast
qed











text \<open>
  C35. The filter of an upsert never reaches its statement: the statement of an upsert that
  authorization let through, with the conditions of the policy in its filter, is the one the
  client's own query compiles to. The conflict branch of the statement updates rows whether or
  not the policy's USING terms hold on them.
\<close>

theorem upsert_statement_without_policy:
  assumes "Authorize r rc q = Some (Inr q')" and "q_kind (base q) = Upsert"
  shows "CompileInsert d q' rt = CompileInsert d q rt"
proof -
  have "CompileInsert d (injectWhere q cs) rt = CompileInsert d q rt" for cs
  proof -
    have use: "useRelation d (injectWhere q cs) = useRelation d q"
      by (rule ext)+ (cases q, simp add: injectWhere_def useRelation_def)
    have rest: "q_write (base (injectWhere q cs)) = q_write (base q)" "q_relation (base (injectWhere q cs)) = q_relation (base q)"
      by (cases q, simp add: injectWhere_def)+
    show ?thesis unfolding CompileInsert_def use rest by (rule refl)
  qed
  then show ?thesis using inject_where [OF assms(1)] assms(2) by simp
qed

definition demo_upsert :: query where
  "demo_upsert = Query ((new_base Upsert ''todos'')\<lparr>q_write := Some (empty_write\<lparr>
     w_rows := [[(''id'', json_value (JNumber ''1'')), (''tenant'', json_value (JString ''acme''))]],
     w_columns := [''id'', ''tenant''], w_conflict := Some \<lparr>cf_target = [''id''], cf_resolution = ConflictMerge\<rparr>\<rparr>)\<rparr>) []"

definition demo_upsert_grants :: "grant list" where
  "demo_upsert_grants = \<lparr>g_role = ''web'', g_relation = ''todos'', g_action = Update, g_columns = []\<rparr> # demo_grants"

lemma demo_upsert_authorized:
  "\<exists>q'. Authorize (NewRegistry demo_upsert_grants [demo_policy]) demo_context demo_upsert = Some (Inr q') \<and> q_where (base q') \<noteq> None"
proof -
  have "case Authorize (NewRegistry demo_upsert_grants [demo_policy]) demo_context demo_upsert of
      Some (Inr q') \<Rightarrow> q_where (base q') \<noteq> None | _ \<Rightarrow> False" by code_simp
  then show ?thesis by (auto split: option.splits sum.splits)
qed

theorem upsert_statement_without_policy_witness:
  "\<exists>q'. Authorize (NewRegistry demo_upsert_grants [demo_policy]) demo_context demo_upsert = Some (Inr q') \<and>
     q_where (base q') \<noteq> None \<and>
     map_option (map_sum id st_sql) (CompileInsert sqlite q' []) =
       Some (Inr (''INSERT INTO '' @ dquote # ''todos'' @ dquote # '' ('' @ dquote # ''id'' @ dquote # '', '' @ dquote # ''tenant'' @ dquote #
         '') VALUES (?1, ?2) ON CONFLICT ('' @ dquote # ''id'' @ dquote # '') DO UPDATE SET '' @ dquote # ''id'' @ dquote # '' = excluded.'' @
         dquote # ''id'' @ dquote # '', '' @ dquote # ''tenant'' @ dquote # '' = excluded.'' @ dquote # ''tenant'' @ [dquote]))"
proof -
  obtain q' where q': "Authorize (NewRegistry demo_upsert_grants [demo_policy]) demo_context demo_upsert = Some (Inr q')"
      "q_where (base q') \<noteq> None"
    using demo_upsert_authorized by blast
  have "q_kind (base demo_upsert) = Upsert" by (simp add: demo_upsert_def new_base_def)
  note same = upsert_statement_without_policy [OF q'(1) this, of sqlite "[]"]
  have "map_option (map_sum id st_sql) (CompileInsert sqlite demo_upsert []) =
       Some (Inr (''INSERT INTO '' @ dquote # ''todos'' @ dquote # '' ('' @ dquote # ''id'' @ dquote # '', '' @ dquote # ''tenant'' @ dquote #
         '') VALUES (?1, ?2) ON CONFLICT ('' @ dquote # ''id'' @ dquote # '') DO UPDATE SET '' @ dquote # ''id'' @ dquote # '' = excluded.'' @
         dquote # ''id'' @ dquote # '', '' @ dquote # ''tenant'' @ dquote # '' = excluded.'' @ dquote # ''tenant'' @ [dquote]))"
    by code_simp
  then show ?thesis using q' same by auto
qed

end
